(* ===== verification/Askar_Prelude.thy ===== *)
theory Askar_Prelude
  imports Main "HOL-Library.Word"
begin

text \<open>
  Shared vocabulary of the development: the \<open>Result\<close> type of the Rust sources with an explicit
  value for a panic, its sequencing combinators, bytes and strings, big-endian encodings, decimal
  printing and parsing, UTF-8 validity, and the list lemmas that several components use.
\<close>

unbundle bit_operations_syntax

section \<open>Results\<close>

text \<open>
  A fallible Rust function returns \<open>Ok\<close>, returns \<open>Err\<close>, or panics (an \<open>unwrap\<close> or
  \<open>expect\<close> on the wrong variant, a slice index out of range, a failed \<open>assert!\<close>).
  A panic is a value of its own, so that it is never confused with a returned error.
\<close>

datatype ('a, 'e) result = Ok 'a | Err 'e | Panic

named_theorems result_simps \<open>case analysis of the sequencing combinators\<close>

primrec res_bind :: "('a, 'e) result \<Rightarrow> ('a \<Rightarrow> ('b, 'e) result) \<Rightarrow> ('b, 'e) result" where
  "res_bind (Ok x) f = f x"
| "res_bind (Err e) f = Err e"
| "res_bind Panic f = Panic"

primrec res_map :: "('a \<Rightarrow> 'b) \<Rightarrow> ('a, 'e) result \<Rightarrow> ('b, 'e) result" where
  "res_map f (Ok x) = Ok (f x)"
| "res_map f (Err e) = Err e"
| "res_map f Panic = Panic"

primrec res_map_err :: "('e \<Rightarrow> 'd) \<Rightarrow> ('a, 'e) result \<Rightarrow> ('a, 'd) result" where
  "res_map_err f (Ok x) = Ok x"
| "res_map_err f (Err e) = Err (f e)"
| "res_map_err f Panic = Panic"

text \<open>\<open>Option::ok_or\<close>.\<close>

definition ok_or :: "'a option \<Rightarrow> 'e \<Rightarrow> ('a, 'e) result" where
  "ok_or m e = (case m of None \<Rightarrow> Err e | Some x \<Rightarrow> Ok x)"

lemma ok_or_simps [simp]: "ok_or None e = Err e" "ok_or (Some x) e = Ok x"
  by (simp_all add: ok_or_def)

text \<open>\<open>iter.map(f).collect::<Result<Vec<_>, _>>()\<close>: stops at the first element that fails.\<close>

primrec res_mapM :: "('a \<Rightarrow> ('b, 'e) result) \<Rightarrow> 'a list \<Rightarrow> ('b list, 'e) result" where
  "res_mapM f [] = Ok []"
| "res_mapM f (x # xs) = res_bind (f x) (\<lambda>y. res_bind (res_mapM f xs) (\<lambda>ys. Ok (y # ys)))"

lemma res_bind_eq_Ok [result_simps]:
  "res_bind m f = Ok y \<longleftrightarrow> (\<exists>x. m = Ok x \<and> f x = Ok y)"
  by (cases m) auto

lemma res_map_eq_Ok [result_simps]: "res_map f m = Ok y \<longleftrightarrow> (\<exists>x. m = Ok x \<and> y = f x)"
  by (cases m) auto

lemma res_map_err_eq_Ok [result_simps]: "res_map_err f m = Ok y \<longleftrightarrow> m = Ok y"
  by (cases m) auto

lemma ok_or_eq_Ok [result_simps]: "ok_or m e = Ok y \<longleftrightarrow> m = Some y"
  by (cases m) auto

lemma res_map_ident [simp]: "res_map (\<lambda>x. x) m = m"
  by (cases m) auto

lemma res_map_res_map: "res_map f (res_map g m) = res_map (\<lambda>x. f (g x)) m"
  by (cases m) auto

lemma res_bind_assoc: "res_bind (res_bind m f) g = res_bind m (\<lambda>x. res_bind (f x) g)"
  by (cases m) auto

lemma res_bind_cong [fundef_cong]:
  "m = m' \<Longrightarrow> (\<And>x. m' = Ok x \<Longrightarrow> f x = f' x) \<Longrightarrow> res_bind m f = res_bind m' f'"
  by (cases m') auto

lemma res_mapM_cong [fundef_cong]:
  "xs = ys \<Longrightarrow> (\<And>x. x \<in> set ys \<Longrightarrow> f x = g x) \<Longrightarrow> res_mapM f xs = res_mapM g ys"
  by (induction ys arbitrary: xs) auto

lemma res_mapM_Ok_map: "(\<And>x. x \<in> set xs \<Longrightarrow> f x = Ok (g x)) \<Longrightarrow> res_mapM f xs = Ok (map g xs)"
  by (induction xs) auto

lemma res_mapM_eq_Ok:
  "res_mapM f xs = Ok ys \<longleftrightarrow> list_all2 (\<lambda>x y. f x = Ok y) xs ys"
  by (induction xs arbitrary: ys) (auto simp: result_simps list_all2_Cons1)

section \<open>Lists\<close>

text \<open>\<open>Iterator::filter_map\<close>.\<close>

primrec filter_map :: "('a \<Rightarrow> 'b option) \<Rightarrow> 'a list \<Rightarrow> 'b list" where
  "filter_map f [] = []"
| "filter_map f (x # xs) = (case f x of None \<Rightarrow> filter_map f xs | Some y \<Rightarrow> y # filter_map f xs)"

lemma filter_map_cong [fundef_cong]:
  "xs = ys \<Longrightarrow> (\<And>x. x \<in> set ys \<Longrightarrow> f x = g x) \<Longrightarrow> filter_map f xs = filter_map g ys"
  by (induction ys arbitrary: xs) (auto split: option.splits)

lemma set_filter_map: "set (filter_map f xs) = {y. \<exists>x \<in> set xs. f x = Some y}"
  by (induction xs) (auto split: option.splits)

lemma length_filter_map_le: "length (filter_map f xs) \<le> length xs"
  by (induction xs) (auto split: option.splits)

lemma upt_split: "i \<le> j \<Longrightarrow> j \<le> k \<Longrightarrow> [i..<k] = [i..<j] @ [j..<k]"
  by (metis le_add_diff_inverse upt_add_eq_append)

text \<open>\<open>[a; b; c].join(sep)\<close> and \<open>Itertools::intersperse(..).collect()\<close> on strings.\<close>

fun join :: "'a list \<Rightarrow> 'a list list \<Rightarrow> 'a list" where
  "join sep [] = []"
| "join sep [x] = x"
| "join sep (x # y # ys) = x @ sep @ join sep (y # ys)"

lemma join_Cons: "join sep (x # xs) = x @ (if xs = [] then [] else sep @ join sep xs)"
  by (cases xs) auto

text \<open>\<open>str::splitn(2, c)\<close>: the part before the first separator, and the rest if there is one.\<close>

fun split_once :: "'a \<Rightarrow> 'a list \<Rightarrow> 'a list \<times> 'a list option" where
  "split_once c [] = ([], None)"
| "split_once c (x # xs) = (if x = c then ([], Some xs) else
     (let (a, b) = split_once c xs in (x # a, b)))"

lemma split_once_absent [simp]: "c \<notin> set xs \<Longrightarrow> split_once c xs = (xs, None)"
  by (induction xs) auto

lemma split_once_append [simp]: "c \<notin> set xs \<Longrightarrow> split_once c (xs @ c # ys) = (xs, Some ys)"
  by (induction xs) auto

text \<open>\<open>str::split(c)\<close>: the parts between the separators.\<close>

fun split_all :: "'a \<Rightarrow> 'a list \<Rightarrow> 'a list list" where
  "split_all c [] = [[]]"
| "split_all c (x # xs) =
     (if x = c then [] # split_all c xs else (case split_all c xs of p # ps \<Rightarrow> (x # p) # ps | [] \<Rightarrow> [[x]]))"

lemma split_all_single: "c \<notin> set xs \<Longrightarrow> split_all c xs = [xs]"
  by (induction xs) auto

lemma split_all_append: "c \<notin> set xs \<Longrightarrow> split_all c (xs @ c # ys) = xs # split_all c ys"
  by (induction xs) auto

lemma split_all_join:
  "xs \<noteq> [] \<Longrightarrow> list_all (\<lambda>x. c \<notin> set x) xs \<Longrightarrow> split_all c (join [c] xs) = xs"
  by (induction xs rule: induct_list012) (auto simp: split_all_single split_all_append)

section \<open>Bytes and strings\<close>

type_synonym byte = "8 word"
type_synonym bytes = "byte list"
type_synonym u32 = "32 word"
type_synonym u64 = "64 word"

text \<open>
  A Rust string is its UTF-8 encoding: a list of 8-bit characters, one per byte.
\<close>

definition byte_of_char :: "char \<Rightarrow> byte" where
  "byte_of_char c = word_of_nat (of_char c)"

definition char_of_byte :: "byte \<Rightarrow> char" where
  "char_of_byte b = char_of (unat b)"

definition as_bytes :: "string \<Rightarrow> bytes" where
  "as_bytes s = map byte_of_char s"

definition of_bytes :: "bytes \<Rightarrow> string" where
  "of_bytes bs = map char_of_byte bs"

lemma unat_byte_of_char [simp]: "unat (byte_of_char c) = of_char c"
proof -
  have "(of_char c :: nat) < 2 ^ 8" using nat_of_char_less_256 [of c] by simp
  then show ?thesis by (simp add: byte_of_char_def unat_of_nat take_bit_nat_eq_self)
qed

lemma char_of_byte_of_char [simp]: "char_of_byte (byte_of_char c) = c"
  by (simp add: char_of_byte_def)

lemma byte_of_char_of_byte [simp]: "byte_of_char (char_of_byte b) = b"
proof -
  have "unat b < 256" using unsigned_less [of b, where ?'a = nat] by simp
  then show ?thesis by (simp add: byte_of_char_def char_of_byte_def)
qed

lemma of_bytes_as_bytes [simp]: "of_bytes (as_bytes s) = s"
  by (simp add: of_bytes_def as_bytes_def comp_def)

lemma as_bytes_of_bytes [simp]: "as_bytes (of_bytes bs) = bs"
  by (simp add: of_bytes_def as_bytes_def comp_def)

lemma as_bytes_inject [simp]: "as_bytes s = as_bytes t \<longleftrightarrow> s = t"
  by (metis of_bytes_as_bytes)

lemma length_as_bytes [simp]: "length (as_bytes s) = length s"
  by (simp add: as_bytes_def)

lemma as_bytes_append [simp]: "as_bytes (s @ t) = as_bytes s @ as_bytes t"
  by (simp add: as_bytes_def)

lemma as_bytes_Nil [simp]: "as_bytes [] = []"
  by (simp add: as_bytes_def)

text \<open>\<open>u32::to_be_bytes\<close> and \<open>u64::to_be_bytes\<close>.\<close>

definition be_bytes32 :: "u32 \<Rightarrow> bytes" where
  "be_bytes32 w = map (\<lambda>i. ucast (drop_bit (8 * i) w)) [3, 2, 1, 0]"

definition be_bytes64 :: "u64 \<Rightarrow> bytes" where
  "be_bytes64 w = map (\<lambda>i. ucast (drop_bit (8 * i) w)) [7, 6, 5, 4, 3, 2, 1, 0]"

lemma length_be_bytes32 [simp]: "length (be_bytes32 w) = 4"
  by (simp add: be_bytes32_def)

lemma length_be_bytes64 [simp]: "length (be_bytes64 w) = 8"
  by (simp add: be_bytes64_def)

lemma byte_slice_eqD:
  fixes v w :: "'a::len word"
  assumes "(ucast (drop_bit k v) :: byte) = ucast (drop_bit k w)" "k \<le> n" "n < k + 8" "n < LENGTH('a)"
  shows "bit v n = bit w n"
proof -
  from assms(1) have "bit (ucast (drop_bit k v) :: byte) (n - k) = bit (ucast (drop_bit k w) :: byte) (n - k)"
    by simp
  moreover have "n - k < 8" using assms(2,3) by linarith
  ultimately show ?thesis using assms(2,4) by (auto simp: bit_ucast_iff bit_drop_bit_eq)
qed

lemma be_bytes32_inject [simp]: "be_bytes32 v = be_bytes32 w \<longleftrightarrow> v = w"
proof
  assume eq: "be_bytes32 v = be_bytes32 w"
  show "v = w"
  proof (rule bit_word_eqI)
    fix n assume n: "n < LENGTH(32)"
    then consider "n < 8" | "8 \<le> n" "n < 16" | "16 \<le> n" "n < 24" | "24 \<le> n" "n < 32"
      by fastforce
    then show "bit v n = bit w n"
      using eq n by cases (auto simp: be_bytes32_def dest: byte_slice_eqD [where k = 0 and n = n, simplified]
        byte_slice_eqD [where k = 8 and n = n] byte_slice_eqD [where k = 16 and n = n]
        byte_slice_eqD [where k = 24 and n = n])
  qed
qed simp

section \<open>UTF-8\<close>

text \<open>
  \<open>core::str::from_utf8\<close>: the well-formed byte sequences of the Unicode standard, as its
  validation loop accepts them.
\<close>

definition is_cont :: "nat \<Rightarrow> bool" where
  "is_cont b \<longleftrightarrow> 128 \<le> b \<and> b < 192"

fun utf8_valid :: "nat list \<Rightarrow> bool" where
  "utf8_valid [] = True"
| "utf8_valid (b0 # rest) =
     (if b0 < 128 then utf8_valid rest
      else if 194 \<le> b0 \<and> b0 \<le> 223 then
        (case rest of b1 # r \<Rightarrow> is_cont b1 \<and> utf8_valid r | _ \<Rightarrow> False)
      else if 224 \<le> b0 \<and> b0 \<le> 239 then
        (case rest of b1 # b2 # r \<Rightarrow>
           is_cont b1 \<and> (b0 = 224 \<longrightarrow> 160 \<le> b1) \<and> (b0 = 237 \<longrightarrow> b1 < 160) \<and> is_cont b2 \<and> utf8_valid r
         | _ \<Rightarrow> False)
      else if 240 \<le> b0 \<and> b0 \<le> 244 then
        (case rest of b1 # b2 # b3 # r \<Rightarrow>
           is_cont b1 \<and> (b0 = 240 \<longrightarrow> 144 \<le> b1) \<and> (b0 = 244 \<longrightarrow> b1 < 144)
           \<and> is_cont b2 \<and> is_cont b3 \<and> utf8_valid r
         | _ \<Rightarrow> False)
      else False)"

definition valid_str :: "string \<Rightarrow> bool" where
  "valid_str s \<longleftrightarrow> utf8_valid (map of_char s)"

text \<open>\<open>String::from_utf8\<close>; the error value is left to the caller.\<close>

definition string_from_utf8 :: "bytes \<Rightarrow> string option" where
  "string_from_utf8 bs = (if utf8_valid (map unat bs) then Some (of_bytes bs) else None)"

lemma string_from_utf8_as_bytes [simp]: "valid_str s \<Longrightarrow> string_from_utf8 (as_bytes s) = Some s"
  by (simp add: string_from_utf8_def valid_str_def as_bytes_def comp_def of_bytes_def)

lemma string_from_utf8_SomeD: "string_from_utf8 bs = Some s \<Longrightarrow> valid_str s \<and> as_bytes s = bs"
proof -
  assume *: "string_from_utf8 bs = Some s"
  then have s: "s = of_bytes bs" and v: "utf8_valid (map unat bs)"
    by (auto simp: string_from_utf8_def split: if_splits)
  have "map of_char s = map unat bs"
  proof -
    have "of_char (char_of_byte b) = unat b" for b
      by (metis byte_of_char_of_byte unat_byte_of_char)
    then show ?thesis by (simp add: s of_bytes_def comp_def)
  qed
  with v s show ?thesis by (simp add: valid_str_def)
qed

section \<open>Decimal numbers\<close>

text \<open>\<open>format!("{}", n)\<close> and the digits that \<open>str::parse\<close> reads.\<close>

definition digit_char :: "nat \<Rightarrow> char" where
  "digit_char d = char_of (48 + d)"

fun show_nat :: "nat \<Rightarrow> string" where
  "show_nat n = (if n < 10 then [digit_char n] else show_nat (n div 10) @ [digit_char (n mod 10)])"

declare show_nat.simps [simp del]

definition is_digit :: "char \<Rightarrow> bool" where
  "is_digit c \<longleftrightarrow> 48 \<le> (of_char c :: nat) \<and> (of_char c :: nat) \<le> 57"

definition parse_digits :: "string \<Rightarrow> nat" where
  "parse_digits s = foldl (\<lambda>acc c. acc * 10 + (of_char c - 48)) 0 s"

lemma of_char_digit_char: "d < 10 \<Longrightarrow> of_char (digit_char d) = 48 + d"
  by (simp add: digit_char_def)

lemma is_digit_digit_char [simp]: "d < 10 \<Longrightarrow> is_digit (digit_char d)"
  by (simp add: is_digit_def of_char_digit_char)

lemma show_nat_ne [simp]: "show_nat n \<noteq> []"
  by (subst show_nat.simps) simp

lemma show_nat_digits: "list_all is_digit (show_nat n)"
proof (induction n rule: show_nat.induct)
  case (1 n)
  then show ?case by (subst show_nat.simps) auto
qed

lemma parse_digits_snoc: "parse_digits (s @ [c]) = parse_digits s * 10 + (of_char c - 48)"
  by (simp add: parse_digits_def)

lemma parse_show_nat [simp]: "parse_digits (show_nat n) = n"
proof (induction n rule: show_nat.induct)
  case (1 n)
  show ?case
  proof (cases "n < 10")
    case True
    then show ?thesis by (subst show_nat.simps) (simp add: parse_digits_def of_char_digit_char)
  next
    case False
    with 1 have "parse_digits (show_nat (n div 10)) = n div 10" by simp
    with False show ?thesis
      by (subst show_nat.simps) (simp add: parse_digits_snoc of_char_digit_char)
  qed
qed

text \<open>\<open>format!("{}", i)\<close> for a signed 64-bit number.\<close>

definition show_i64 :: "u64 \<Rightarrow> string" where
  "show_i64 w = (if sint w < 0 then CHR ''-'' # show_nat (nat (- sint w)) else show_nat (nat (sint w)))"

end
