(* ===== verification/Wql_Query.thy ===== *)
theory Wql_Query
  imports Askar_Prelude
begin

text \<open>
  The wallet query language of \<open>askar-storage/src/wql/query.rs\<close>: the abstract query type, its
  optimiser, and the traversals that translate field names and values. The meaning of a query is
  given over an arbitrary valuation of its atomic clauses, which the theories on the SQL encoding
  instantiate.
\<close>

section \<open>Queries\<close>

datatype ('k, 'v) AbstractQuery =
    And "('k, 'v) AbstractQuery list"
  | Or "('k, 'v) AbstractQuery list"
  | NotQ "('k, 'v) AbstractQuery"
  | Eq 'k 'v
  | Neq 'k 'v
  | Gt 'k 'v
  | Gte 'k 'v
  | Lt 'k 'v
  | Lte 'k 'v
  | Like 'k 'v
  | In 'k "'v list"
  | Exist "'k list"

type_synonym Query = "(string, string) AbstractQuery"

text \<open>\<open>Default for AbstractQuery\<close>.\<close>

definition default_query :: "('k, 'v) AbstractQuery" where
  "default_query = And []"

text \<open>\<open>AbstractQuery::optimise\<close>.\<close>

fun optimise :: "('k, 'v) AbstractQuery \<Rightarrow> ('k, 'v) AbstractQuery option" where
  "optimise (NotQ q) =
     (case optimise q of
        None \<Rightarrow> None
      | Some (NotQ nested) \<Rightarrow> Some nested
      | Some other \<Rightarrow> Some (NotQ other))"
| "optimise (And qs) =
     (let subqueries = filter_map optimise qs in
      (case subqueries of [] \<Rightarrow> None | [q] \<Rightarrow> Some q | _ \<Rightarrow> Some (And subqueries)))"
| "optimise (Or qs) =
     (let subqueries = filter_map optimise qs in
      (case subqueries of [] \<Rightarrow> None | [q] \<Rightarrow> Some q | _ \<Rightarrow> Some (Or subqueries)))"
| "optimise (In k vs) = (case vs of [v] \<Rightarrow> Some (Eq k v) | _ \<Rightarrow> Some (In k vs))"
| "optimise (Eq k v) = Some (Eq k v)"
| "optimise (Neq k v) = Some (Neq k v)"
| "optimise (Gt k v) = Some (Gt k v)"
| "optimise (Gte k v) = Some (Gte k v)"
| "optimise (Lt k v) = Some (Lt k v)"
| "optimise (Lte k v) = Some (Lte k v)"
| "optimise (Like k v) = Some (Like k v)"
| "optimise (Exist ks) = Some (Exist ks)"

text \<open>
  \<open>AbstractQuery::map\<close>: the value of a clause is converted before its name; the conversions may
  fail. The source's closures are \<open>FnMut\<close>; every caller in the repository passes pure ones.
\<close>

fun map_query :: "('k \<Rightarrow> ('rk, 'e) result) \<Rightarrow> ('k \<Rightarrow> 'v \<Rightarrow> ('rv, 'e) result)
    \<Rightarrow> ('k, 'v) AbstractQuery \<Rightarrow> (('rk, 'rv) AbstractQuery, 'e) result" where
  "map_query kf vf (Eq k v) = res_bind (vf k v) (\<lambda>v'. res_bind (kf k) (\<lambda>k'. Ok (Eq k' v')))"
| "map_query kf vf (Neq k v) = res_bind (vf k v) (\<lambda>v'. res_bind (kf k) (\<lambda>k'. Ok (Neq k' v')))"
| "map_query kf vf (Gt k v) = res_bind (vf k v) (\<lambda>v'. res_bind (kf k) (\<lambda>k'. Ok (Gt k' v')))"
| "map_query kf vf (Gte k v) = res_bind (vf k v) (\<lambda>v'. res_bind (kf k) (\<lambda>k'. Ok (Gte k' v')))"
| "map_query kf vf (Lt k v) = res_bind (vf k v) (\<lambda>v'. res_bind (kf k) (\<lambda>k'. Ok (Lt k' v')))"
| "map_query kf vf (Lte k v) = res_bind (vf k v) (\<lambda>v'. res_bind (kf k) (\<lambda>k'. Ok (Lte k' v')))"
| "map_query kf vf (Like k v) = res_bind (vf k v) (\<lambda>v'. res_bind (kf k) (\<lambda>k'. Ok (Like k' v')))"
| "map_query kf vf (In k vs) =
     res_bind (res_mapM (vf k) vs) (\<lambda>vs'. res_bind (kf k) (\<lambda>k'. Ok (In k' vs')))"
| "map_query kf vf (Exist ks) = res_bind (res_mapM kf ks) (\<lambda>ks'. Ok (Exist ks'))"
| "map_query kf vf (And qs) = res_bind (res_mapM (map_query kf vf) qs) (\<lambda>qs'. Ok (And qs'))"
| "map_query kf vf (Or qs) = res_bind (res_mapM (map_query kf vf) qs) (\<lambda>qs'. Ok (Or qs'))"
| "map_query kf vf (NotQ q) = res_bind (map_query kf vf q) (\<lambda>q'. Ok (NotQ q'))"

definition map_names :: "('k \<Rightarrow> ('rk, 'e) result) \<Rightarrow> ('k, 'v) AbstractQuery
    \<Rightarrow> (('rk, 'v) AbstractQuery, 'e) result" where
  "map_names f = map_query f (\<lambda>k v. Ok v)"

definition map_values :: "('k \<Rightarrow> 'v \<Rightarrow> ('rv, 'e) result) \<Rightarrow> ('k, 'v) AbstractQuery
    \<Rightarrow> (('k, 'rv) AbstractQuery, 'e) result" where
  "map_values f = map_query Ok f"

section \<open>Meaning\<close>

text \<open>
  The meaning of a query over a valuation of its atoms. An \<open>atom\<close> valuation answers the clauses
  that name fields; conjunction, disjunction and negation are read logically.
\<close>

fun query_holds :: "(('k, 'v) AbstractQuery \<Rightarrow> bool) \<Rightarrow> ('k, 'v) AbstractQuery \<Rightarrow> bool" where
  "query_holds at (And qs) \<longleftrightarrow> list_all (query_holds at) qs"
| "query_holds at (Or qs) \<longleftrightarrow> list_ex (query_holds at) qs"
| "query_holds at (NotQ q) \<longleftrightarrow> \<not> query_holds at q"
| "query_holds at q \<longleftrightarrow> at q"

text \<open>
  A query in which no \<open>And\<close> or \<open>Or\<close> is empty. The optimiser treats an empty conjunction and an
  empty disjunction alike (as the absence of a condition), so its correctness is stated for these.
\<close>

fun no_empty_conj :: "('k, 'v) AbstractQuery \<Rightarrow> bool" where
  "no_empty_conj (And qs) \<longleftrightarrow> qs \<noteq> [] \<and> list_all no_empty_conj qs"
| "no_empty_conj (Or qs) \<longleftrightarrow> qs \<noteq> [] \<and> list_all no_empty_conj qs"
| "no_empty_conj (NotQ q) \<longleftrightarrow> no_empty_conj q"
| "no_empty_conj q \<longleftrightarrow> True"

text \<open>What the optimiser may rely on: a one-element \<open>In\<close> is an equality.\<close>

definition in_is_eq :: "(('k, 'v) AbstractQuery \<Rightarrow> bool) \<Rightarrow> bool" where
  "in_is_eq at \<longleftrightarrow> (\<forall>k v. at (In k [v]) = at (Eq k v))"

text \<open>The normal form that the optimiser produces.\<close>

fun optimised :: "('k, 'v) AbstractQuery \<Rightarrow> bool" where
  "optimised (And qs) \<longleftrightarrow> 2 \<le> length qs \<and> list_all optimised qs"
| "optimised (Or qs) \<longleftrightarrow> 2 \<le> length qs \<and> list_all optimised qs"
| "optimised (NotQ q) \<longleftrightarrow> (\<forall>q'. q \<noteq> NotQ q') \<and> optimised q"
| "optimised (In k vs) \<longleftrightarrow> length vs \<noteq> 1"
| "optimised q \<longleftrightarrow> True"

section \<open>The optimiser\<close>

lemma filter_map_all_some:
  "(\<And>x. x \<in> set xs \<Longrightarrow> \<exists>y. f x = Some y) \<Longrightarrow> filter_map f xs = map (\<lambda>x. the (f x)) xs"
  by (induction xs) force+

lemma optimise_some:
  "no_empty_conj q \<Longrightarrow> \<exists>q'. optimise q = Some q'"
proof (induction q)
  case (And qs)
  then have "filter_map optimise qs = map (\<lambda>q. the (optimise q)) qs"
    by (intro filter_map_all_some) (auto simp: list_all_iff)
  with And.prems show ?case by (auto simp: Let_def split: list.splits)
next
  case (Or qs)
  then have "filter_map optimise qs = map (\<lambda>q. the (optimise q)) qs"
    by (intro filter_map_all_some) (auto simp: list_all_iff)
  with Or.prems show ?case by (auto simp: Let_def split: list.splits)
next
  case (NotQ q)
  then obtain r where "optimise q = Some r" by auto
  then show ?case by (cases r) auto
qed (auto split: list.splits)

lemma filter_map_optimise:
  "list_all no_empty_conj qs \<Longrightarrow> filter_map optimise qs = map (\<lambda>q. the (optimise q)) qs"
  by (rule filter_map_all_some) (auto simp: list_all_iff optimise_some)

lemma optimise_conj:
  "optimise (And qs) = Some r \<Longrightarrow> query_holds at r = list_all (query_holds at) (filter_map optimise qs)"
  "optimise (Or qs) = Some r \<Longrightarrow> query_holds at r = list_ex (query_holds at) (filter_map optimise qs)"
  by (auto simp: Let_def split: list.splits)

lemma optimise_holds:
  assumes at: "in_is_eq at"
  shows "no_empty_conj q \<Longrightarrow> optimise q = Some r \<Longrightarrow> query_holds at r = query_holds at q"
proof (induction q arbitrary: r)
  case (And qs)
  then have "query_holds at (the (optimise q)) = query_holds at q" if "q \<in> set qs" for q
    using that optimise_some [of q] by (auto simp: list_all_iff)
  with And.prems show ?case
    by (auto simp: optimise_conj(1) [OF And.prems(2)] filter_map_optimise list_all_iff)
next
  case (Or qs)
  then have "query_holds at (the (optimise q)) = query_holds at q" if "q \<in> set qs" for q
    using that optimise_some [of q] by (auto simp: list_all_iff)
  with Or.prems show ?case
    by (auto simp: optimise_conj(2) [OF Or.prems(2)] filter_map_optimise list_ex_iff)
next
  case (NotQ q)
  from NotQ.prems obtain q' where q': "optimise q = Some q'"
    using optimise_some [of q] by auto
  with NotQ have "query_holds at q' = query_holds at q" by simp
  with NotQ.prems q' show ?case by (cases q') auto
next
  case (In k vs)
  with at show ?case by (auto simp: in_is_eq_def split: list.splits)
qed auto

lemma optimise_normal: "optimise q = Some r \<Longrightarrow> optimised r"
proof (induction q arbitrary: r)
  case (And qs)
  then have *: "list_all optimised (filter_map optimise qs)"
    by (auto simp: list_all_iff set_filter_map)
  with And.prems show ?case
    by (cases "filter_map optimise qs" rule: remdups_adj.cases) (auto simp: Let_def)
next
  case (Or qs)
  then have *: "list_all optimised (filter_map optimise qs)"
    by (auto simp: list_all_iff set_filter_map)
  with Or.prems show ?case
    by (cases "filter_map optimise qs" rule: remdups_adj.cases) (auto simp: Let_def)
next
  case (NotQ q)
  then show ?case by (auto split: option.splits AbstractQuery.splits)
next
  case (In k vs)
  then show ?case by (auto split: list.splits)
qed auto

text \<open>
  C32. On a query without empty conjunctions or disjunctions the optimiser always returns a query,
  that query means the same under every valuation in which a one-element \<open>$in\<close> is an equality, and
  it is in normal form: no conjunction with fewer than two parts, no double negation, no
  one-element \<open>$in\<close>.
\<close>

theorem optimise_correct:
  assumes "no_empty_conj q"
  shows "\<exists>r. optimise q = Some r \<and> optimised r \<and>
    (\<forall>at. in_is_eq at \<longrightarrow> query_holds at r = query_holds at q)"
  using optimise_some [OF assms] optimise_holds [OF _ assms] optimise_normal by blast

theorem optimise_correct_witness:
  "\<exists>r. optimise (And [NotQ (NotQ (Eq ''a'' ''1'')), Or [In ''b'' [''2'']]]) = Some r \<and> optimised r \<and>
    (\<forall>at. in_is_eq at \<longrightarrow> query_holds at r =
      query_holds at (And [NotQ (NotQ (Eq ''a'' ''1'')), Or [In ''b'' [''2'']]]))"
  by (rule optimise_correct) simp

text \<open>
  The optimiser does not preserve the meaning of an empty disjunction: \<open>Or []\<close> is false, and
  so is its conjunction with anything, but the optimiser drops it and keeps the other clause.
\<close>

theorem optimise_drops_empty_or:
  "optimise (And [Or [], Eq k v]) = Some (Eq k v) \<and>
   \<not> query_holds at (And [Or [], Eq k v])"
  by simp

section \<open>Translation of names and values\<close>

text \<open>Queries keep their structure under a total translation.\<close>

lemma map_query_ok:
  assumes "\<And>k. kf k = Ok (g k)" "\<And>k v. vf k v = Ok (h v)"
  shows "map_query kf vf q = Ok (map_AbstractQuery g h q)"
proof (induction q)
  case (And qs)
  then have "res_mapM (map_query kf vf) qs = Ok (map (map_AbstractQuery g h) qs)"
    by (intro res_mapM_Ok_map) auto
  then show ?case by simp
next
  case (Or qs)
  then have "res_mapM (map_query kf vf) qs = Ok (map (map_AbstractQuery g h) qs)"
    by (intro res_mapM_Ok_map) auto
  then show ?case by simp
next
  case (In k vs)
  have "res_mapM (vf k) vs = Ok (map h vs)" by (intro res_mapM_Ok_map) (simp add: assms)
  then show ?case by (simp add: assms(1))
next
  case (Exist ks)
  have "res_mapM kf ks = Ok (map g ks)" by (intro res_mapM_Ok_map) (simp add: assms)
  then show ?case by simp
qed (simp_all add: assms)

lemma map_names_ok:
  assumes "\<And>k. kf k = Ok (g k)"
  shows "map_names kf q = Ok (map_AbstractQuery g id q)"
  unfolding map_names_def by (rule map_query_ok) (simp_all add: assms)

lemma query_holds_map:
  "query_holds at (map_AbstractQuery g h q) = query_holds (at \<circ> map_AbstractQuery g h) q"
  by (induction q) (auto simp: list_all_iff list_ex_iff)

end
