(* ===== verification/Wql_Json.thy ===== *)
theory Wql_Json
  imports Wql_Query
begin

text \<open>
  The JSON form of wallet queries (\<open>serde_support\<close> of \<open>askar-storage/src/wql/query.rs\<close>):
  printing a query to a JSON value, the recursive-descent parser for JSON values, and the round
  trip between them. JSON text itself is read and written by \<open>serde_json\<close>; the model starts
  from its \<open>Value\<close> type.
\<close>

section \<open>JSON values\<close>

text \<open>
  \<open>serde_json::Value\<close>. An object is its entries in iteration order; a number, which no query
  accepts, is kept as its text.
\<close>

datatype json =
    JNull
  | JBool bool
  | JNumber string
  | JString string
  | JArray "json list"
  | JObject "(string \<times> json) list"

fun is_null :: "json \<Rightarrow> bool" where
  "is_null JNull = True"
| "is_null _ = False"

section \<open>Printing\<close>

text \<open>\<open>AbstractQuery::to_value\<close>.\<close>

fun to_value :: "Query \<Rightarrow> json" where
  "to_value (Eq k v) = JObject [(k, JString v)]"
| "to_value (Neq k v) = JObject [(k, JObject [(''$neq'', JString v)])]"
| "to_value (Gt k v) = JObject [(k, JObject [(''$gt'', JString v)])]"
| "to_value (Gte k v) = JObject [(k, JObject [(''$gte'', JString v)])]"
| "to_value (Lt k v) = JObject [(k, JObject [(''$lt'', JString v)])]"
| "to_value (Lte k v) = JObject [(k, JObject [(''$lte'', JString v)])]"
| "to_value (Like k v) = JObject [(k, JObject [(''$like'', JString v)])]"
| "to_value (In k vs) = JObject [(k, JObject [(''$in'', JArray (map JString vs))])]"
| "to_value (Exist ks) = JObject [(''$exist'', JArray (map JString ks))]"
| "to_value (And qs) = (if qs = [] then JObject [] else JObject [(''$and'', JArray (map to_value qs))])"
| "to_value (Or qs) = (if qs = [] then JObject [] else JObject [(''$or'', JArray (map to_value qs))])"
| "to_value (NotQ q) = JObject [(''$not'', to_value q)]"

section \<open>Parsing\<close>

text \<open>Reading an array of strings; any other element is refused with the given message.\<close>

fun parse_strings :: "string \<Rightarrow> json list \<Rightarrow> (string list, string) result" where
  "parse_strings e [] = Ok []"
| "parse_strings e (JString s # vs) = res_map (Cons s) (parse_strings e vs)"
| "parse_strings e (_ # vs) = Err e"

text \<open>A comparison with a string: \<open>("$op", JsonValue::String(v)) | ("$op", _)\<close>.\<close>

definition parse_compare :: "(string \<Rightarrow> string \<Rightarrow> Query) \<Rightarrow> string \<Rightarrow> json \<Rightarrow> string
    \<Rightarrow> (Query, string) result" where
  "parse_compare c key value e = (case value of JString v \<Rightarrow> Ok (c key v) | _ \<Rightarrow> Err e)"

definition parse_single_operator :: "string \<Rightarrow> string \<Rightarrow> json \<Rightarrow> (Query, string) result" where
  "parse_single_operator operator_name key value =
     (if operator_name = ''$neq'' then parse_compare Neq key value ''$neq must be used with string''
      else if operator_name = ''$gt'' then parse_compare Gt key value ''$gt must be used with string''
      else if operator_name = ''$gte'' then parse_compare Gte key value ''$gte must be used with string''
      else if operator_name = ''$lt'' then parse_compare Lt key value ''$lt must be used with string''
      else if operator_name = ''$lte'' then parse_compare Lte key value ''$lte must be used with string''
      else if operator_name = ''$like'' then parse_compare Like key value ''$like must be used with string''
      else if operator_name = ''$in'' then
        (case value of
           JArray values \<Rightarrow> res_map (In key) (parse_strings ''$in must be used with array of strings'' values)
         | _ \<Rightarrow> Err ''$in must be used with array of strings'')
      else Err ''Unknown operator'')"

text \<open>The measure that the parser decreases.\<close>

fun json_size :: "json \<Rightarrow> nat" where
  "json_size (JArray vs) = 3 + sum_list (map json_size vs)"
| "json_size (JObject m) = 3 + sum_list (map (\<lambda>e. 1 + json_size (snd e)) m)"
| "json_size _ = 1"

lemma json_size_elem: "v \<in> set vs \<Longrightarrow> json_size v \<le> sum_list (map json_size vs)"
  by (simp add: member_le_sum_list)

lemma json_size_entry:
  "e \<in> set m \<Longrightarrow> json_size (snd e) < sum_list (map (\<lambda>e. 1 + json_size (snd e)) m)"
proof -
  assume "e \<in> set m"
  then have "1 + json_size (snd e) \<le> sum_list (map (\<lambda>e. 1 + json_size (snd e)) m)"
    by (intro member_le_sum_list) auto
  then show ?thesis by simp
qed

text \<open>
  \<open>parse_query\<close>, \<open>parse_operator\<close> and \<open>parse_list_operators\<close>. The first entry or element
  that fails ends the loop with its error.
\<close>

function parse_query :: "(string \<times> json) list \<Rightarrow> (Query, string) result"
  and parse_operator :: "string \<Rightarrow> json \<Rightarrow> (Query option, string) result"
  and parse_list_operators :: "json list \<Rightarrow> (Query list, string) result" where
  "parse_query m =
     res_bind (res_mapM (\<lambda>e. parse_operator (fst e) (snd e)) m) (\<lambda>rs.
     let operators = filter_map id rs in
     Ok (case operators of [q] \<Rightarrow> q | _ \<Rightarrow> And operators))"
| "parse_operator key value =
     (if key = ''$and'' then
        (case value of
           JArray values \<Rightarrow> if values = [] then Ok None
             else res_bind (parse_list_operators values) (\<lambda>qs. Ok (Some (And qs)))
         | _ \<Rightarrow> Err ''$and must be array of JSON objects'')
      else if key = ''$or'' then
        (case value of
           JArray values \<Rightarrow> if values = [] then Ok None
             else res_bind (parse_list_operators values) (\<lambda>qs. Ok (Some (Or qs)))
         | _ \<Rightarrow> Err ''$or must be array of JSON objects'')
      else if key = ''$not'' then
        (case value of
           JObject m \<Rightarrow> res_bind (parse_query m) (\<lambda>q. Ok (Some (NotQ q)))
         | _ \<Rightarrow> Err ''$not must be JSON object'')
      else if key = ''$exist'' then
        (case value of
           JString k \<Rightarrow> Ok (Some (Exist [k]))
         | JArray keys \<Rightarrow> if keys = [] then Ok None
             else res_map (\<lambda>ks. Some (Exist ks))
               (parse_strings ''$exist must be used with a string or array of strings'' keys)
         | _ \<Rightarrow> Err ''$exist must be used with a string or array of strings'')
      else
        (case value of
           JString v \<Rightarrow> Ok (Some (Eq key v))
         | JObject m \<Rightarrow>
             (case m of
                [(operator_name, v)] \<Rightarrow> res_map Some (parse_single_operator operator_name key v)
              | _ \<Rightarrow> Err ''value must be JSON object of length 1'')
         | _ \<Rightarrow> Err ''Unsupported value''))"
| "parse_list_operators vs =
     res_mapM (\<lambda>v. case v of JObject m \<Rightarrow> parse_query m
                      | _ \<Rightarrow> Err ''operator must be array of JSON objects'') vs"
  by pat_completeness auto

termination
  by (relation "measure (\<lambda>x. case x of
        Inl m \<Rightarrow> 1 + sum_list (map (\<lambda>e. 1 + json_size (snd e)) m)
      | Inr (Inl kv) \<Rightarrow> 1 + json_size (snd kv)
      | Inr (Inr vs) \<Rightarrow> 1 + sum_list (map json_size vs))")
     (auto dest: json_size_elem json_size_entry)

declare parse_query.simps [simp del] parse_operator.simps [simp del] parse_list_operators.simps [simp del]

text \<open>
  \<open>Deserialize for Query\<close>: an object is a query, an array is the old restrictions format, the
  entries that are null dropped and then the objects that are empty.
\<close>

datatype query_error = missing_field string | custom string

definition restriction_objects :: "json list \<Rightarrow> (json list, query_error) result" where
  "restriction_objects vs =
     res_map (\<lambda>ms. map JObject (filter (\<lambda>m. m \<noteq> []) ms))
       (res_mapM (\<lambda>v. case v of
            JObject m \<Rightarrow> Ok (filter (\<lambda>e. \<not> is_null (snd e)) m)
          | _ \<Rightarrow> Err (custom ''Restriction is invalid'')) vs)"

definition deserialize_query :: "json \<Rightarrow> (Query, query_error) result" where
  "deserialize_query v =
     (case v of
        JObject m \<Rightarrow> res_map_err missing_field (parse_query m)
      | JArray vs \<Rightarrow> res_bind (restriction_objects vs) (\<lambda>res.
          res_map_err custom (parse_query [(''$or'', JArray res)]))
      | _ \<Rightarrow> Err (missing_field ''Restriction must be either object or array''))"

section \<open>Round trip\<close>

definition reserved_key :: "string \<Rightarrow> bool" where
  "reserved_key k \<longleftrightarrow> k \<in> {''$and'', ''$or'', ''$not'', ''$exist''}"

text \<open>
  The queries that JSON can express: no field is called like an operator, and no \<open>Or\<close> and no
  \<open>Exist\<close> is empty.
\<close>

fun expressible :: "Query \<Rightarrow> bool" where
  "expressible (And qs) \<longleftrightarrow> list_all expressible qs"
| "expressible (Or qs) \<longleftrightarrow> qs \<noteq> [] \<and> list_all expressible qs"
| "expressible (NotQ q) \<longleftrightarrow> expressible q"
| "expressible (Exist ks) \<longleftrightarrow> ks \<noteq> []"
| "expressible (Eq k v) \<longleftrightarrow> \<not> reserved_key k"
| "expressible (Neq k v) \<longleftrightarrow> \<not> reserved_key k"
| "expressible (Gt k v) \<longleftrightarrow> \<not> reserved_key k"
| "expressible (Gte k v) \<longleftrightarrow> \<not> reserved_key k"
| "expressible (Lt k v) \<longleftrightarrow> \<not> reserved_key k"
| "expressible (Lte k v) \<longleftrightarrow> \<not> reserved_key k"
| "expressible (Like k v) \<longleftrightarrow> \<not> reserved_key k"
| "expressible (In k vs) \<longleftrightarrow> \<not> reserved_key k"

lemma parse_strings_map [simp]: "parse_strings e (map JString vs) = Ok vs"
  by (induction vs) auto

lemma parse_query_single:
  "parse_operator k v = Ok (Some q) \<Longrightarrow> parse_query [(k, v)] = Ok q"
  by (simp add: parse_query.simps)

lemma parse_operator_string: "\<not> reserved_key k \<Longrightarrow> parse_operator k (JString v) = Ok (Some (Eq k v))"
  by (simp add: parse_operator.simps reserved_key_def)

lemma parse_operator_object:
  "\<not> reserved_key k \<Longrightarrow>
   parse_operator k (JObject [(p, v)]) = res_map Some (parse_single_operator p k v)"
  by (simp add: parse_operator.simps reserved_key_def)

text \<open>The object of a printed query parses to the query.\<close>

definition reparses :: "Query \<Rightarrow> bool" where
  "reparses q \<longleftrightarrow> (\<exists>m. to_value q = JObject m \<and> parse_query m = Ok q)"

lemma parse_list_reparses:
  "list_all reparses qs \<Longrightarrow> parse_list_operators (map to_value qs) = Ok qs"
  by (induction qs) (auto simp: parse_list_operators.simps reparses_def)

lemma expressible_reparses: "expressible q \<Longrightarrow> reparses q"
proof (induction q)
  case (And qs)
  then have "list_all reparses qs" by (simp add: list_all_iff)
  then show ?case
    by (cases "qs = []")
       (auto simp: reparses_def parse_list_reparses parse_operator.simps parse_query.simps)
next
  case (Or qs)
  then have "list_all reparses qs" by (simp add: list_all_iff)
  with Or.prems show ?case
    by (simp add: reparses_def parse_list_reparses parse_operator.simps parse_query_single)
next
  case (NotQ q)
  then show ?case
    by (auto simp: reparses_def parse_operator.simps parse_query_single)
next
  case (Eq k v)
  then show ?case by (simp add: reparses_def parse_query_single parse_operator_string)
next
  case (In k vs)
  then show ?case
    by (simp add: reparses_def parse_query_single parse_operator_object parse_single_operator_def)
next
  case (Exist ks)
  then show ?case by (simp add: reparses_def parse_operator.simps parse_query_single)
qed (simp_all add: reparses_def parse_query_single parse_operator_object parse_single_operator_def
    parse_compare_def)

text \<open>
  C33. Printing a query to JSON and parsing it back returns the query, whenever its field names
  are not the names of operators and it has no empty \<open>Or\<close> or \<open>Exist\<close>.
\<close>

theorem query_json_round_trip:
  assumes "expressible q"
  shows "deserialize_query (to_value q) = Ok q"
  using expressible_reparses [OF assms] by (auto simp: reparses_def deserialize_query_def)

theorem query_json_round_trip_witness:
  "deserialize_query (to_value (And [Or [In ''a'' [''1''], NotQ (Exist [''b''])], And []])) =
     Ok (And [Or [In ''a'' [''1''], NotQ (Exist [''b''])], And []])"
  by (rule query_json_round_trip) (simp add: reserved_key_def)

text \<open>
  The empty disjunction, which no item satisfies, does not survive: it prints to the empty
  object, which parses to the empty conjunction, which every item satisfies.
\<close>

theorem empty_or_becomes_true:
  "deserialize_query (to_value (Or [])) = Ok (And []) \<and>
   \<not> query_holds at (Or []) \<and> query_holds at (And [])"
  by (simp add: deserialize_query_def parse_query.simps)

text \<open>
  An object whose entries all parse is the conjunction of them; an entry that fails decides the
  error, whatever follows.
\<close>

lemma parse_query_entries:
  assumes "res_mapM (\<lambda>e. parse_operator (fst e) (snd e)) m = Ok rs"
  shows "\<exists>q. parse_query m = Ok q \<and>
    (\<forall>at. query_holds at q = list_all (query_holds at) (filter_map id rs))"
  using assms by (auto simp: parse_query.simps Let_def split: list.splits)

lemma parse_query_first_error:
  assumes "res_mapM (\<lambda>e. parse_operator (fst e) (snd e)) m = Ok rs" "parse_operator k v = Err e"
  shows "parse_query (m @ (k, v) # m') = Err e"
proof -
  have "res_mapM f xs = Ok ys \<Longrightarrow> f x = Err e \<Longrightarrow> res_mapM f (xs @ x # zs) = Err e"
    for f :: "'a \<Rightarrow> ('b, 'c) result" and xs ys x zs e
    by (induction xs arbitrary: ys) (auto simp: result_simps)
  from this [OF assms(1), of "(k, v)" e m'] assms(2) show ?thesis by (simp add: parse_query.simps)
qed

text \<open>
  An array in the old restrictions format is read as the disjunction of its non-empty
  objects, null entries ignored; with no such object left the query is true of every item.
\<close>

theorem restrictions_array_is_or:
  assumes "list_all (\<lambda>v. \<exists>m. v = JObject m) vs"
    and "parse_list_operators (filter (\<lambda>v. v \<noteq> JObject [])
      (map (\<lambda>v. case v of JObject m \<Rightarrow> JObject (filter (\<lambda>e. \<not> is_null (snd e)) m)) vs)) = Ok qs"
  shows "deserialize_query (JArray vs) = Ok (if qs = [] then And [] else Or qs)"
proof -
  have r: "restriction_objects vs = Ok (filter (\<lambda>v. v \<noteq> JObject [])
      (map (\<lambda>v. case v of JObject m \<Rightarrow> JObject (filter (\<lambda>e. \<not> is_null (snd e)) m)) vs))"
    (is "_ = Ok ?res")
    using assms(1) by (induction vs) (auto simp: restriction_objects_def result_simps)
  have "length ?res = length qs"
    using assms(2) by (auto simp: parse_list_operators.simps res_mapM_eq_Ok dest: list_all2_lengthD)
  then have "?res = [] \<longleftrightarrow> qs = []" by (metis length_0_conv)
  with r assms(2) show ?thesis
    by (cases "qs = []") (simp_all add: deserialize_query_def parse_query.simps parse_operator.simps)
qed

theorem restrictions_array_is_or_witness:
  "deserialize_query (JArray [JObject [(''a'', JString ''1''), (''b'', JNull)], JObject [(''c'', JNull)]]) =
     Ok (if [Eq ''a'' ''1''] = ([] :: Query list) then And [] else Or [Eq ''a'' ''1''])"
  by (rule restrictions_array_is_or)
     (simp_all add: parse_list_operators.simps parse_query.simps parse_operator.simps)

end
