(* ===== verification/Askar_Error.thy ===== *)
theory Askar_Error
  imports Askar_Prelude
begin

text \<open>
  The error types of the three crates: \<open>askar-crypto/src/error.rs\<close>,
  \<open>askar-storage/src/error.rs\<close> and \<open>src/error.rs\<close>. Each is a kind and an optional message; the
  boxed \<open>cause\<close>, which the \<open>PartialEq\<close> instances of the sources ignore, is not part of the value.
  The three \<open>ErrorKind\<close> enums share constructor names, so they are referred to by their
  qualified names.
\<close>

section \<open>Kinds\<close>

datatype crypto_kind =
    Custom | Encryption | ExceededBuffer | Invalid | InvalidKeyData | InvalidNonce
  | MissingSecretKey | Unexpected | Usage | Unsupported

datatype storage_kind =
    Backend | Busy | Custom | Duplicate | Encryption | Input | NotFound | Unexpected | Unsupported

datatype askar_kind =
    Backend | Busy | Custom | Duplicate | Encryption | Input | NotFound | Unexpected | Unsupported

fun crypto_kind_as_str :: "crypto_kind \<Rightarrow> string" where
  "crypto_kind_as_str crypto_kind.Custom = ''Custom error''"
| "crypto_kind_as_str crypto_kind.Encryption = ''Encryption error''"
| "crypto_kind_as_str ExceededBuffer = ''Exceeded buffer size''"
| "crypto_kind_as_str Invalid = ''Invalid input''"
| "crypto_kind_as_str InvalidNonce = ''Invalid encryption nonce''"
| "crypto_kind_as_str InvalidKeyData = ''Invalid key data''"
| "crypto_kind_as_str MissingSecretKey = ''Missing secret key''"
| "crypto_kind_as_str crypto_kind.Unexpected = ''Unexpected error''"
| "crypto_kind_as_str Usage = ''Usage error''"
| "crypto_kind_as_str crypto_kind.Unsupported = ''Unsupported''"

fun storage_kind_as_str :: "storage_kind \<Rightarrow> string" where
  "storage_kind_as_str storage_kind.Backend = ''Backend error''"
| "storage_kind_as_str storage_kind.Busy = ''Busy''"
| "storage_kind_as_str storage_kind.Custom = ''Custom error''"
| "storage_kind_as_str storage_kind.Duplicate = ''Duplicate''"
| "storage_kind_as_str storage_kind.Encryption = ''Encryption error''"
| "storage_kind_as_str storage_kind.Input = ''Input error''"
| "storage_kind_as_str storage_kind.NotFound = ''Not found''"
| "storage_kind_as_str storage_kind.Unexpected = ''Unexpected error''"
| "storage_kind_as_str storage_kind.Unsupported = ''Unsupported''"

fun askar_kind_as_str :: "askar_kind \<Rightarrow> string" where
  "askar_kind_as_str askar_kind.Backend = ''Backend error''"
| "askar_kind_as_str askar_kind.Busy = ''Busy''"
| "askar_kind_as_str askar_kind.Custom = ''Custom error''"
| "askar_kind_as_str askar_kind.Duplicate = ''Duplicate''"
| "askar_kind_as_str askar_kind.Encryption = ''Encryption error''"
| "askar_kind_as_str askar_kind.Input = ''Input error''"
| "askar_kind_as_str askar_kind.NotFound = ''Not found''"
| "askar_kind_as_str askar_kind.Unexpected = ''Unexpected error''"
| "askar_kind_as_str askar_kind.Unsupported = ''Unsupported''"

section \<open>Errors\<close>

datatype 'k error = Error (err_kind: 'k) (err_message: "string option")

type_synonym crypto_error = "crypto_kind error"
type_synonym storage_error = "storage_kind error"
type_synonym askar_error = "askar_kind error"

type_synonym 'a crypto_result = "('a, crypto_error) result"
type_synonym 'a storage_result = "('a, storage_error) result"
type_synonym 'a askar_result = "('a, askar_error) result"

text \<open>The macro \<open>err_msg!\<close> with and without a message.\<close>

definition err_msg :: "'k \<Rightarrow> string \<Rightarrow> 'k error" where
  "err_msg k m = Error k (Some m)"

definition err_of_kind :: "'k \<Rightarrow> 'k error" where
  "err_of_kind k = Error k None"

lemma err_simps [simp]:
  "err_kind (err_msg k m) = k" "err_kind (err_of_kind k) = k"
  "err_message (err_msg k m) = Some m" "err_message (err_of_kind k) = None"
  by (simp_all add: err_msg_def err_of_kind_def)

lemma err_inject [simp]:
  "err_msg k m = err_msg k' m' \<longleftrightarrow> k = k' \<and> m = m'"
  "err_of_kind k = err_of_kind k' \<longleftrightarrow> k = k'"
  "err_msg k m \<noteq> err_of_kind k'"
  by (simp_all add: err_msg_def err_of_kind_def)

text \<open>\<open>askar_crypto::Error::message\<close>.\<close>

definition crypto_error_message :: "crypto_error \<Rightarrow> string" where
  "crypto_error_message e =
     (case err_message e of Some m \<Rightarrow> m | None \<Rightarrow> crypto_kind_as_str (err_kind e))"

text \<open>The text of an error that has no cause (\<open>Display\<close>).\<close>

definition storage_error_display :: "storage_error \<Rightarrow> string" where
  "storage_error_display e =
     (case err_message e of Some m \<Rightarrow> m | None \<Rightarrow> storage_kind_as_str (err_kind e))"

section \<open>Conversions between the crates\<close>

fun storage_kind_of_crypto :: "crypto_kind \<Rightarrow> storage_kind" where
  "storage_kind_of_crypto crypto_kind.Custom = storage_kind.Custom"
| "storage_kind_of_crypto crypto_kind.Encryption = storage_kind.Encryption"
| "storage_kind_of_crypto ExceededBuffer = storage_kind.Unexpected"
| "storage_kind_of_crypto crypto_kind.Unexpected = storage_kind.Unexpected"
| "storage_kind_of_crypto Invalid = storage_kind.Input"
| "storage_kind_of_crypto InvalidKeyData = storage_kind.Input"
| "storage_kind_of_crypto InvalidNonce = storage_kind.Input"
| "storage_kind_of_crypto MissingSecretKey = storage_kind.Input"
| "storage_kind_of_crypto Usage = storage_kind.Input"
| "storage_kind_of_crypto crypto_kind.Unsupported = storage_kind.Unsupported"

definition storage_error_of_crypto :: "crypto_error \<Rightarrow> storage_error" where
  "storage_error_of_crypto e =
     err_msg (storage_kind_of_crypto (err_kind e)) (crypto_error_message e)"

fun askar_kind_of_crypto :: "crypto_kind \<Rightarrow> askar_kind" where
  "askar_kind_of_crypto crypto_kind.Custom = askar_kind.Custom"
| "askar_kind_of_crypto crypto_kind.Encryption = askar_kind.Encryption"
| "askar_kind_of_crypto ExceededBuffer = askar_kind.Unexpected"
| "askar_kind_of_crypto crypto_kind.Unexpected = askar_kind.Unexpected"
| "askar_kind_of_crypto Invalid = askar_kind.Input"
| "askar_kind_of_crypto InvalidKeyData = askar_kind.Input"
| "askar_kind_of_crypto InvalidNonce = askar_kind.Input"
| "askar_kind_of_crypto MissingSecretKey = askar_kind.Input"
| "askar_kind_of_crypto Usage = askar_kind.Input"
| "askar_kind_of_crypto crypto_kind.Unsupported = askar_kind.Unsupported"

definition askar_error_of_crypto :: "crypto_error \<Rightarrow> askar_error" where
  "askar_error_of_crypto e =
     err_msg (askar_kind_of_crypto (err_kind e)) (crypto_error_message e)"

fun askar_kind_of_storage :: "storage_kind \<Rightarrow> askar_kind" where
  "askar_kind_of_storage storage_kind.Backend = askar_kind.Backend"
| "askar_kind_of_storage storage_kind.Busy = askar_kind.Busy"
| "askar_kind_of_storage storage_kind.Custom = askar_kind.Custom"
| "askar_kind_of_storage storage_kind.Duplicate = askar_kind.Duplicate"
| "askar_kind_of_storage storage_kind.Encryption = askar_kind.Encryption"
| "askar_kind_of_storage storage_kind.Input = askar_kind.Input"
| "askar_kind_of_storage storage_kind.NotFound = askar_kind.NotFound"
| "askar_kind_of_storage storage_kind.Unexpected = askar_kind.Unexpected"
| "askar_kind_of_storage storage_kind.Unsupported = askar_kind.Unsupported"

definition askar_error_of_storage :: "storage_error \<Rightarrow> askar_error" where
  "askar_error_of_storage e = Error (askar_kind_of_storage (err_kind e)) (err_message e)"

text \<open>The \<open>?\<close> operator where the callee returns an error of another crate.\<close>

abbreviation lift_crypto :: "'a crypto_result \<Rightarrow> 'a storage_result" where
  "lift_crypto \<equiv> res_map_err storage_error_of_crypto"

text \<open>
  Going through the storage crate loses nothing: the kind is the one the direct conversion gives,
  and so is the message.
\<close>

lemma askar_kind_of_storage_of_crypto:
  "askar_kind_of_storage (storage_kind_of_crypto k) = askar_kind_of_crypto k"
  by (cases k) simp_all

lemma askar_error_of_storage_of_crypto:
  "askar_error_of_storage (storage_error_of_crypto e) = askar_error_of_crypto e"
  by (simp add: askar_error_of_storage_def storage_error_of_crypto_def askar_error_of_crypto_def
      askar_kind_of_storage_of_crypto err_msg_def)

end
