(* ===== verification/Wql_Tags.thy ===== *)
theory Wql_Tags
  imports Wql_Query Askar_Error
begin

text \<open>
  Tag queries and their encoding, \<open>askar-storage/src/wql/tags.rs\<close>: plaintext and encrypted tag
  names, the trait \<open>TagQueryEncoder\<close> as a record of state-passing operations, and the traversal
  that drives an encoder over a query, pushing negation down to the clauses.
  The contract of an encoder is the locale \<open>tag_query_encoder\<close>; the correctness of the traversal
  is proved once, against that contract.
\<close>

section \<open>Tag names and queries\<close>

datatype TagName = Encrypted string | Plaintext string

type_synonym TagQuery = "(TagName, string) AbstractQuery"

fun tag_name_to_string :: "TagName \<Rightarrow> string" where
  "tag_name_to_string (Encrypted v) = v"
| "tag_name_to_string (Plaintext v) = CHR ''~'' # v"

definition tag_name_of_key :: "string \<Rightarrow> TagName" where
  "tag_name_of_key k = (case k of c # plain \<Rightarrow> if c = CHR ''~'' then Plaintext plain else Encrypted k
     | [] \<Rightarrow> Encrypted k)"

definition validate_tag_query :: "TagQuery \<Rightarrow> unit storage_result" where
  "validate_tag_query q = Ok ()"

definition tag_query :: "Query \<Rightarrow> TagQuery storage_result" where
  "tag_query query =
     (case map_names (\<lambda>k. Ok (tag_name_of_key k) :: (TagName, unit) result) query of
        Ok result \<Rightarrow> res_bind (validate_tag_query result) (\<lambda>_. Ok result)
      | _ \<Rightarrow> Panic)"

fun is_plaintext :: "TagName \<Rightarrow> bool" where
  "is_plaintext (Plaintext v) = True"
| "is_plaintext (Encrypted v) = False"

fun tag_name_str :: "TagName \<Rightarrow> string" where
  "tag_name_str (Plaintext v) = v"
| "tag_name_str (Encrypted v) = v"

lemma tag_query_total: "tag_query q = Ok (map_AbstractQuery tag_name_of_key id q)"
  by (simp add: tag_query_def map_names_ok validate_tag_query_def)

lemma tag_name_of_key_to_string: "tag_name_to_string (tag_name_of_key k) = k"
  by (auto simp: tag_name_of_key_def split: list.splits)

text \<open>
  An encrypted name that starts with a tilde is not recovered from its text: it is read back as a
  plaintext name.
\<close>

lemma tag_name_of_to_string:
  "tag_name_of_key (tag_name_to_string n) = n \<longleftrightarrow>
   (case n of Plaintext v \<Rightarrow> True | Encrypted v \<Rightarrow> v = [] \<or> hd v \<noteq> CHR ''~'')"
  by (cases n) (auto simp: tag_name_of_key_def split: list.splits)

section \<open>Operators\<close>

datatype CompareOp = CEq | CNeq | CGt | CGte | CLt | CLte | CLike

datatype ConjunctionOp = CAnd | COr

fun compare_op_sql :: "CompareOp \<Rightarrow> string" where
  "compare_op_sql CEq = ''=''"
| "compare_op_sql CNeq = ''!=''"
| "compare_op_sql CGt = ''>''"
| "compare_op_sql CGte = ''>=''"
| "compare_op_sql CLt = ''<''"
| "compare_op_sql CLte = ''<=''"
| "compare_op_sql CLike = ''LIKE''"

fun compare_op_sql_for_prefix :: "CompareOp \<Rightarrow> string option" where
  "compare_op_sql_for_prefix CEq = Some ''=''"
| "compare_op_sql_for_prefix CNeq = Some ''!=''"
| "compare_op_sql_for_prefix CGt = Some ''>=''"
| "compare_op_sql_for_prefix CGte = Some ''>=''"
| "compare_op_sql_for_prefix CLt = Some ''<=''"
| "compare_op_sql_for_prefix CLte = Some ''<=''"
| "compare_op_sql_for_prefix CLike = None"

fun conjunction_op_sql :: "ConjunctionOp \<Rightarrow> string" where
  "conjunction_op_sql CAnd = '' AND ''"
| "conjunction_op_sql COr = '' OR ''"

fun negate_conj :: "ConjunctionOp \<Rightarrow> ConjunctionOp" where
  "negate_conj CAnd = COr"
| "negate_conj COr = CAnd"

section \<open>The encoder interface and the traversal\<close>

text \<open>
  The trait's methods take \<open>&mut self\<close>: each operation receives the encoder state and returns the
  new one with its result.
\<close>

record ('s, 'a, 'c) TagQueryEncoder =
  encode_name :: "'s \<Rightarrow> TagName \<Rightarrow> ('a \<times> 's) storage_result"
  encode_value :: "'s \<Rightarrow> string \<Rightarrow> bool \<Rightarrow> ('a \<times> 's) storage_result"
  encode_op_clause :: "'s \<Rightarrow> CompareOp \<Rightarrow> 'a \<Rightarrow> 'a \<Rightarrow> bool \<Rightarrow> bool \<Rightarrow> ('c option \<times> 's) storage_result"
  encode_in_clause :: "'s \<Rightarrow> 'a \<Rightarrow> 'a list \<Rightarrow> bool \<Rightarrow> bool \<Rightarrow> ('c option \<times> 's) storage_result"
  encode_exist_clause :: "'s \<Rightarrow> 'a \<Rightarrow> bool \<Rightarrow> bool \<Rightarrow> ('c option \<times> 's) storage_result"
  encode_conj_clause :: "'s \<Rightarrow> ConjunctionOp \<Rightarrow> 'c list \<Rightarrow> ('c option \<times> 's) storage_result"

definition encode_tag_op :: "('s, 'a, 'c) TagQueryEncoder \<Rightarrow> CompareOp \<Rightarrow> TagName \<Rightarrow> string \<Rightarrow> bool
    \<Rightarrow> 's \<Rightarrow> ('c option \<times> 's) storage_result" where
  "encode_tag_op enc op name value negate s =
     (let pt = is_plaintext name in
      res_bind (encode_name enc s name) (\<lambda>(enc_name, s).
      res_bind (encode_value enc s value pt) (\<lambda>(enc_value, s).
      encode_op_clause enc s op enc_name enc_value pt negate)))"

text \<open>\<open>values.iter().map(|val| enc.encode_value(..)).collect::<Result<Vec<_>, _>>()\<close>.\<close>

fun encode_values :: "('s, 'a, 'c) TagQueryEncoder \<Rightarrow> bool \<Rightarrow> string list \<Rightarrow> 's
    \<Rightarrow> ('a list \<times> 's) storage_result" where
  "encode_values enc pt [] s = Ok ([], s)"
| "encode_values enc pt (v # vs) s =
     res_bind (encode_value enc s v pt) (\<lambda>(a, s).
     res_bind (encode_values enc pt vs s) (\<lambda>(as, s). Ok (a # as, s)))"

definition encode_tag_in :: "('s, 'a, 'c) TagQueryEncoder \<Rightarrow> TagName \<Rightarrow> string list \<Rightarrow> bool
    \<Rightarrow> 's \<Rightarrow> ('c option \<times> 's) storage_result" where
  "encode_tag_in enc name values negate s =
     (let pt = is_plaintext name in
      res_bind (encode_name enc s name) (\<lambda>(enc_name, s).
      res_bind (encode_values enc pt values s) (\<lambda>(enc_values, s).
      encode_in_clause enc s enc_name enc_values pt negate)))"

text \<open>
  Running an encoding function over a list, dropping the parts that encode to nothing and stopping
  at the first error: the loop of \<open>encode_tag_exist\<close> and the \<open>flat_map .. transpose .. collect\<close>
  of \<open>encode_tag_conj\<close>.
\<close>

fun encode_each :: "('q \<Rightarrow> 's \<Rightarrow> ('c option \<times> 's) storage_result) \<Rightarrow> 'q list \<Rightarrow> 's
    \<Rightarrow> ('c list \<times> 's) storage_result" where
  "encode_each f [] s = Ok ([], s)"
| "encode_each f (q # qs) s =
     res_bind (f q s) (\<lambda>(r, s).
     res_bind (encode_each f qs s) (\<lambda>(cs, s).
     Ok (case r of None \<Rightarrow> cs | Some c \<Rightarrow> c # cs, s)))"

lemma encode_each_cong [fundef_cong]:
  assumes "xs = ys" "s = t" "\<And>x u. x \<in> set ys \<Longrightarrow> f x u = g x u"
  shows "encode_each f xs s = encode_each g ys t"
proof -
  have "encode_each f ys u = encode_each g ys u" for u
    using assms(3) by (induction ys arbitrary: u) auto
  with assms(1,2) show ?thesis by simp
qed

definition encode_tag_exist_one :: "('s, 'a, 'c) TagQueryEncoder \<Rightarrow> bool \<Rightarrow> TagName
    \<Rightarrow> 's \<Rightarrow> ('c option \<times> 's) storage_result" where
  "encode_tag_exist_one enc negate name s =
     res_bind (encode_name enc s name) (\<lambda>(enc_name, s).
     encode_exist_clause enc s enc_name (is_plaintext name) negate)"

definition encode_tag_exist :: "('s, 'a, 'c) TagQueryEncoder \<Rightarrow> TagName list \<Rightarrow> bool
    \<Rightarrow> 's \<Rightarrow> ('c option \<times> 's) storage_result" where
  "encode_tag_exist enc names negate s =
     (case names of
        [] \<Rightarrow> Ok (None, s)
      | [name] \<Rightarrow> encode_tag_exist_one enc negate name s
      | _ \<Rightarrow> res_bind (encode_each (encode_tag_exist_one enc negate) names s) (\<lambda>(cs, s).
             encode_conj_clause enc s CAnd cs))"

fun encode_tag_query :: "('s, 'a, 'c) TagQueryEncoder \<Rightarrow> TagQuery \<Rightarrow> bool
    \<Rightarrow> 's \<Rightarrow> ('c option \<times> 's) storage_result" where
  "encode_tag_query enc (Eq n v) negate s = encode_tag_op enc CEq n v negate s"
| "encode_tag_query enc (Neq n v) negate s = encode_tag_op enc CNeq n v negate s"
| "encode_tag_query enc (Gt n v) negate s = encode_tag_op enc CGt n v negate s"
| "encode_tag_query enc (Gte n v) negate s = encode_tag_op enc CGte n v negate s"
| "encode_tag_query enc (Lt n v) negate s = encode_tag_op enc CLt n v negate s"
| "encode_tag_query enc (Lte n v) negate s = encode_tag_op enc CLte n v negate s"
| "encode_tag_query enc (Like n v) negate s = encode_tag_op enc CLike n v negate s"
| "encode_tag_query enc (In n vs) negate s = encode_tag_in enc n vs negate s"
| "encode_tag_query enc (Exist ns) negate s = encode_tag_exist enc ns negate s"
| "encode_tag_query enc (And qs) negate s =
     res_bind (encode_each (\<lambda>q s. encode_tag_query enc q negate s) qs s) (\<lambda>(clauses, s).
     encode_conj_clause enc s (if negate then negate_conj CAnd else CAnd) clauses)"
| "encode_tag_query enc (Or qs) negate s =
     res_bind (encode_each (\<lambda>q s. encode_tag_query enc q negate s) qs s) (\<lambda>(clauses, s).
     encode_conj_clause enc s (if negate then negate_conj COr else COr) clauses)"
| "encode_tag_query enc (NotQ q) negate s = encode_tag_query enc q (\<not> negate) s"

text \<open>\<open>TagQueryEncoder::encode_query\<close>.\<close>

definition encode_query :: "('s, 'a, 'c) TagQueryEncoder \<Rightarrow> TagQuery \<Rightarrow> 's
    \<Rightarrow> ('c option \<times> 's) storage_result" where
  "encode_query enc query s = encode_tag_query enc query False s"

section \<open>Specification\<close>

text \<open>
  The atomic clauses of a tag query, given how a single clause is matched: a comparison, a
  membership and an existence test on the encoded name and value of a tag. \<open>Exist\<close> asks for all
  the named tags.
\<close>

fun tag_atom :: "(TagName \<Rightarrow> 'a) \<Rightarrow> (string \<Rightarrow> bool \<Rightarrow> 'a) \<Rightarrow> (CompareOp \<Rightarrow> 'a \<Rightarrow> 'a \<Rightarrow> bool \<Rightarrow> bool)
    \<Rightarrow> ('a \<Rightarrow> 'a list \<Rightarrow> bool \<Rightarrow> bool) \<Rightarrow> ('a \<Rightarrow> bool \<Rightarrow> bool) \<Rightarrow> TagQuery \<Rightarrow> bool" where
  "tag_atom nm vl opm inm exm (Eq n v) = opm CEq (nm n) (vl v (is_plaintext n)) (is_plaintext n)"
| "tag_atom nm vl opm inm exm (Neq n v) = opm CNeq (nm n) (vl v (is_plaintext n)) (is_plaintext n)"
| "tag_atom nm vl opm inm exm (Gt n v) = opm CGt (nm n) (vl v (is_plaintext n)) (is_plaintext n)"
| "tag_atom nm vl opm inm exm (Gte n v) = opm CGte (nm n) (vl v (is_plaintext n)) (is_plaintext n)"
| "tag_atom nm vl opm inm exm (Lt n v) = opm CLt (nm n) (vl v (is_plaintext n)) (is_plaintext n)"
| "tag_atom nm vl opm inm exm (Lte n v) = opm CLte (nm n) (vl v (is_plaintext n)) (is_plaintext n)"
| "tag_atom nm vl opm inm exm (Like n v) = opm CLike (nm n) (vl v (is_plaintext n)) (is_plaintext n)"
| "tag_atom nm vl opm inm exm (In n vs) =
     inm (nm n) (map (\<lambda>v. vl v (is_plaintext n)) vs) (is_plaintext n)"
| "tag_atom nm vl opm inm exm (Exist ns) = list_all (\<lambda>n. exm (nm n) (is_plaintext n)) ns"
| "tag_atom nm vl opm inm exm q = False"

text \<open>
  When a query encodes to no clause at all, under the given polarity: a conjunction (or a negated
  disjunction) all of whose parts do, and an \<open>Exist\<close> without names.
\<close>

fun encodes_none :: "bool \<Rightarrow> TagQuery \<Rightarrow> bool" where
  "encodes_none neg (And qs) \<longleftrightarrow> \<not> neg \<and> list_all (encodes_none neg) qs"
| "encodes_none neg (Or qs) \<longleftrightarrow> neg \<and> list_all (encodes_none neg) qs"
| "encodes_none neg (NotQ q) \<longleftrightarrow> encodes_none (\<not> neg) q"
| "encodes_none neg (Exist ns) \<longleftrightarrow> ns = []"
| "encodes_none neg q \<longleftrightarrow> False"

text \<open>
  The queries whose encoding is exact. A part that encodes to nothing must not stand in a
  disjunction (it would be dropped, although it is always true), and a negated \<open>Exist\<close> must name
  exactly one tag (its clauses are joined by AND in both polarities).
\<close>

fun encode_exact :: "bool \<Rightarrow> TagQuery \<Rightarrow> bool" where
  "encode_exact neg (And qs) \<longleftrightarrow>
     list_all (\<lambda>q. encode_exact neg q \<and> (neg \<longrightarrow> \<not> encodes_none neg q)) qs"
| "encode_exact neg (Or qs) \<longleftrightarrow>
     list_all (\<lambda>q. encode_exact neg q \<and> (\<not> neg \<longrightarrow> \<not> encodes_none neg q)) qs"
| "encode_exact neg (NotQ q) \<longleftrightarrow> encode_exact (\<not> neg) q"
| "encode_exact neg (Exist ns) \<longleftrightarrow> (neg \<longrightarrow> length ns = 1)"
| "encode_exact neg q \<longleftrightarrow> True"

definition conj_holds :: "ConjunctionOp \<Rightarrow> bool list \<Rightarrow> bool" where
  "conj_holds op bs = (case op of CAnd \<Rightarrow> list_all id bs | COr \<Rightarrow> list_ex id bs)"

lemma conj_holds_simps [simp]:
  "conj_holds CAnd bs = list_all id bs" "conj_holds COr bs = list_ex id bs"
  by (simp_all add: conj_holds_def)

section \<open>The contract of an encoder\<close>

text \<open>
  An encoder extends its state (\<open>ext\<close>); a clause it has produced stays well formed and keeps its
  meaning in every later state; and each clause means what the operation was asked to encode.
\<close>

locale tag_query_encoder =
  fixes enc :: "('s, 'a, 'c) TagQueryEncoder"
    and ext :: "'s \<Rightarrow> 's \<Rightarrow> bool"
    and wf_clause :: "'s \<Rightarrow> 'c \<Rightarrow> bool"
    and holds :: "'s \<Rightarrow> 'c \<Rightarrow> bool"
    and nm :: "TagName \<Rightarrow> 'a"
    and vl :: "string \<Rightarrow> bool \<Rightarrow> 'a"
    and opm :: "CompareOp \<Rightarrow> 'a \<Rightarrow> 'a \<Rightarrow> bool \<Rightarrow> bool"
    and inm :: "'a \<Rightarrow> 'a list \<Rightarrow> bool \<Rightarrow> bool"
    and exm :: "'a \<Rightarrow> bool \<Rightarrow> bool"
  assumes ext_refl: "ext s s"
    and ext_trans: "ext s t \<Longrightarrow> ext t u \<Longrightarrow> ext s u"
    and ext_clause: "wf_clause s c \<Longrightarrow> ext s t \<Longrightarrow> wf_clause t c \<and> holds t c = holds s c"
    and name_law: "encode_name enc s n = Ok (a, t) \<Longrightarrow> ext s t \<and> a = nm n"
    and value_law: "encode_value enc s v pt = Ok (a, t) \<Longrightarrow> ext s t \<and> a = vl v pt"
    and op_law: "encode_op_clause enc s op a a' pt neg = Ok (r, t) \<Longrightarrow>
      ext s t \<and> (\<exists>c. r = Some c \<and> wf_clause t c \<and> holds t c = (neg \<noteq> opm op a a' pt))"
    and in_law: "encode_in_clause enc s a vs pt neg = Ok (r, t) \<Longrightarrow>
      ext s t \<and> (\<exists>c. r = Some c \<and> wf_clause t c \<and> holds t c = (neg \<noteq> inm a vs pt))"
    and exist_law: "encode_exist_clause enc s a pt neg = Ok (r, t) \<Longrightarrow>
      ext s t \<and> (\<exists>c. r = Some c \<and> wf_clause t c \<and> holds t c = (neg \<noteq> exm a pt))"
    and conj_law: "list_all (wf_clause s) cs \<Longrightarrow> encode_conj_clause enc s cop cs = Ok (r, t) \<Longrightarrow>
      ext s t \<and> (case r of None \<Rightarrow> cop = CAnd \<and> cs = []
        | Some c \<Rightarrow> (cop = COr \<or> cs \<noteq> []) \<and> wf_clause t c \<and> holds t c = conj_holds cop (map (holds s) cs))"
begin

text \<open>What it means that a result encodes a truth value in a state.\<close>

definition encodes :: "'s \<Rightarrow> 's \<Rightarrow> 'c option \<Rightarrow> bool \<Rightarrow> bool \<Rightarrow> bool" where
  "encodes s t r none b \<longleftrightarrow> ext s t \<and> (r = None \<longleftrightarrow> none) \<and>
     (case r of None \<Rightarrow> b | Some c \<Rightarrow> wf_clause t c \<and> holds t c = b)"

lemma encode_tag_op_encodes:
  assumes "encode_tag_op enc op n v neg s = Ok (r, t)"
  shows "encodes s t r False (neg \<noteq> opm op (nm n) (vl v (is_plaintext n)) (is_plaintext n))"
  using assms
  by (fastforce simp: encode_tag_op_def Let_def result_simps encodes_def
      dest!: name_law value_law op_law intro: ext_trans)

lemma encode_values_law:
  "encode_values enc pt vs s = Ok (as, t) \<Longrightarrow> ext s t \<and> as = map (\<lambda>v. vl v pt) vs"
  by (induction vs arbitrary: s as t)
     (fastforce simp: result_simps ext_refl dest!: value_law intro: ext_trans)+

lemma encode_tag_in_encodes:
  assumes "encode_tag_in enc n vs neg s = Ok (r, t)"
  shows "encodes s t r False
    (neg \<noteq> inm (nm n) (map (\<lambda>v. vl v (is_plaintext n)) vs) (is_plaintext n))"
  using assms
  by (fastforce simp: encode_tag_in_def Let_def result_simps encodes_def
      dest!: name_law encode_values_law in_law intro: ext_trans)

lemma encode_exist_one_encodes:
  assumes "encode_tag_exist_one enc neg n s = Ok (r, t)"
  shows "encodes s t r False (neg \<noteq> exm (nm n) (is_plaintext n))"
  using assms
  by (fastforce simp: encode_tag_exist_one_def result_simps encodes_def
      dest!: name_law exist_law intro: ext_trans)

text \<open>
  The loop over a list of parts: the clauses kept are those of the parts that do not encode to
  nothing, each with the meaning of its part.
\<close>

lemma encode_each_encodes:
  assumes "encode_each f qs s = Ok (cs, t)"
    and "\<And>q s r t. q \<in> set qs \<Longrightarrow> f q s = Ok (r, t) \<Longrightarrow> encodes s t r (none q) (b q)"
  shows "ext s t \<and> list_all (wf_clause t) cs \<and>
    map (holds t) cs = map b (filter (\<lambda>q. \<not> none q) qs) \<and> (\<forall>q \<in> set qs. none q \<longrightarrow> b q)"
  using assms
proof (induction qs arbitrary: s cs)
  case Nil
  then show ?case by (simp add: ext_refl)
next
  case (Cons q qs)
  from Cons.prems(1) obtain r u cs' where fq: "f q s = Ok (r, u)"
    and rest: "encode_each f qs u = Ok (cs', t)"
    and cs: "cs = (case r of None \<Rightarrow> cs' | Some c \<Rightarrow> c # cs')"
    by (auto simp: result_simps)
  from Cons.prems(2) [OF _ fq] have q: "encodes s u r (none q) (b q)" by simp
  from Cons.IH [OF rest] Cons.prems(2)
  have IH: "ext u t" "list_all (wf_clause t) cs'"
    "map (holds t) cs' = map b (filter (\<lambda>q. \<not> none q) qs)" "\<forall>q \<in> set qs. none q \<longrightarrow> b q"
    by auto
  show ?case
  proof (cases r)
    case None
    with q cs IH show ?thesis by (auto simp: encodes_def intro: ext_trans)
  next
    case (Some c)
    with q have c: "wf_clause u c" "holds u c = b q" "\<not> none q" "ext s u"
      by (auto simp: encodes_def)
    from ext_clause [OF c(1) IH(1)] c cs Some IH show ?thesis by (auto intro: ext_trans)
  qed
qed

lemma encode_conj_encodes:
  assumes each: "encode_each f qs s = Ok (cs, u)" and conj: "encode_conj_clause enc u op cs = Ok (r, t)"
    and parts: "\<And>q s r t. q \<in> set qs \<Longrightarrow> f q s = Ok (r, t) \<Longrightarrow> encodes s t r (none q) (b q)"
    and ex: "op = COr \<Longrightarrow> list_all (\<lambda>q. \<not> none q) qs"
  shows "encodes s t r (op = CAnd \<and> list_all none qs) (conj_holds op (map b qs))"
proof -
  have "ext s u \<and> list_all (wf_clause u) cs \<and>
    map (holds u) cs = map b (filter (\<lambda>q. \<not> none q) qs) \<and> (\<forall>q \<in> set qs. none q \<longrightarrow> b q)"
    by (rule encode_each_encodes [OF each]) (fact parts)
  then have e: "ext s u" "list_all (wf_clause u) cs"
    "map (holds u) cs = map b (filter (\<lambda>q. \<not> none q) qs)" "\<forall>q \<in> set qs. none q \<longrightarrow> b q" by auto
  have nil: "cs = [] \<longleftrightarrow> list_all none qs"
    using arg_cong [OF e(3), of "\<lambda>xs. xs = []"] by (simp add: filter_empty_conv list_all_iff)
  have eq: "conj_holds op (map (holds u) cs) = conj_holds op (map b qs)"
  proof (cases op)
    case CAnd
    with e(3,4) show ?thesis by (auto simp: list_all_iff)
  next
    case COr
    with ex have "filter (\<lambda>q. \<not> none q) qs = qs" by (auto simp: list_all_iff filter_id_conv)
    with e(3) show ?thesis by simp
  qed
  from conj_law [OF e(2) conj] e(1) nil eq show ?thesis
    by (cases r; cases op) (auto simp: encodes_def intro: ext_trans)
qed

text \<open>
  The traversal encodes the query, or its negation, wherever the encoding is exact.
\<close>

lemma encode_tag_query_encodes:
  "encode_tag_query enc q neg s = Ok (r, t) \<Longrightarrow> encode_exact neg q \<Longrightarrow>
   encodes s t r (encodes_none neg q) (neg \<noteq> query_holds (tag_atom nm vl opm inm exm) q)"
proof (induction q arbitrary: neg s r t)
  case (And qs)
  from And.prems(1) obtain cs u where
    each: "encode_each (\<lambda>q s. encode_tag_query enc q neg s) qs s = Ok (cs, u)"
    and conj: "encode_conj_clause enc u (if neg then COr else CAnd) cs = Ok (r, t)"
    by (cases neg) (auto simp: result_simps)
  have "encodes s t r ((if neg then COr else CAnd) = CAnd \<and> list_all (encodes_none neg) qs)
    (conj_holds (if neg then COr else CAnd)
      (map (\<lambda>q. neg \<noteq> query_holds (tag_atom nm vl opm inm exm) q) qs))"
    by (rule encode_conj_encodes [OF each conj]) (use And in \<open>auto simp: list_all_iff split: if_splits\<close>)
  then show ?case by (cases neg) (auto simp: list_all_iff list_ex_iff comp_def)
next
  case (Or qs)
  from Or.prems(1) obtain cs u where
    each: "encode_each (\<lambda>q s. encode_tag_query enc q neg s) qs s = Ok (cs, u)"
    and conj: "encode_conj_clause enc u (if neg then CAnd else COr) cs = Ok (r, t)"
    by (cases neg) (auto simp: result_simps)
  have "encodes s t r ((if neg then CAnd else COr) = CAnd \<and> list_all (encodes_none neg) qs)
    (conj_holds (if neg then CAnd else COr)
      (map (\<lambda>q. neg \<noteq> query_holds (tag_atom nm vl opm inm exm) q) qs))"
    by (rule encode_conj_encodes [OF each conj]) (use Or in \<open>auto simp: list_all_iff split: if_splits\<close>)
  then show ?case by (cases neg) (auto simp: list_all_iff list_ex_iff comp_def)
next
  case (NotQ q)
  then show ?case by fastforce
next
  case (Exist ns)
  consider "ns = []" | n where "ns = [n]" | n1 n2 ns' where "ns = n1 # n2 # ns'"
    by (cases ns rule: remdups_adj.cases) auto
  then show ?case
  proof cases
    case 1
    with Exist show ?thesis by (simp add: encode_tag_exist_def encodes_def ext_refl)
  next
    case 2
    with Exist.prems encode_exist_one_encodes show ?thesis by (fastforce simp: encode_tag_exist_def)
  next
    case 3
    with Exist.prems obtain cs u where neg: "\<not> neg"
      and each: "encode_each (encode_tag_exist_one enc neg) ns s = Ok (cs, u)"
      and conj: "encode_conj_clause enc u CAnd cs = Ok (r, t)"
      by (auto simp: encode_tag_exist_def result_simps)
    have "encodes s t r (CAnd = CAnd \<and> list_all (\<lambda>_. False) ns)
      (conj_holds CAnd (map (\<lambda>n. neg \<noteq> exm (nm n) (is_plaintext n)) ns))"
      by (rule encode_conj_encodes [OF each conj]) (auto dest: encode_exist_one_encodes)
    with 3 neg show ?thesis by (simp add: list.pred_map comp_def conj_ac)
  qed
qed (auto dest: encode_tag_op_encodes encode_tag_in_encodes)

end

end
