(* ===== verification/Entry.thy ===== *)
theory Entry
  imports Wql_Tags Wql_Json "HOL-Library.Multiset" "HOL-Library.List_Lexorder" "HOL-Library.Char_ord"
begin

text \<open>
  The records of a store (\<open>askar-storage/src/entry.rs\<close>): entries and their tags, the order in
  which tags are compared, the tag filters that clients build, and the paged scan over the rows of
  a backend.
\<close>

section \<open>Kinds and operations\<close>

datatype EntryKind = Kms | Item

text \<open>The discriminants of the enumeration, and \<open>TryFrom<usize> for EntryKind\<close>.\<close>

primrec entry_kind_num :: "EntryKind \<Rightarrow> nat" where
  "entry_kind_num Kms = 1"
| "entry_kind_num Item = 2"

definition entry_kind_try_from :: "nat \<Rightarrow> EntryKind storage_result" where
  "entry_kind_try_from value =
     (if value = 1 then Ok Kms
      else if value = 2 then Ok Item
      else Err (err_msg storage_kind.Input (''Unknown entry kind: '' @ show_nat value)))"

lemma entry_kind_round_trip [simp]: "entry_kind_try_from (entry_kind_num k) = Ok k"
  by (cases k) (simp_all add: entry_kind_try_from_def)

lemma entry_kind_try_from_OkD: "entry_kind_try_from n = Ok k \<Longrightarrow> n = entry_kind_num k"
  by (auto simp: entry_kind_try_from_def split: if_splits)

lemma entry_kind_num_inject [simp]: "entry_kind_num k = entry_kind_num k' \<longleftrightarrow> k = k'"
  by (cases k; cases k') simp_all

datatype EntryOperation = Insert | Replace | Remove

section \<open>Tags\<close>

datatype EntryTag = EncryptedTag string string | PlaintextTag string string

primrec entry_tag_name :: "EntryTag \<Rightarrow> string" where
  "entry_tag_name (EncryptedTag n v) = n"
| "entry_tag_name (PlaintextTag n v) = n"

primrec entry_tag_value :: "EntryTag \<Rightarrow> string" where
  "entry_tag_value (EncryptedTag n v) = v"
| "entry_tag_value (PlaintextTag n v) = v"

primrec map_ref :: "(string \<Rightarrow> string \<Rightarrow> string \<times> string) \<Rightarrow> EntryTag \<Rightarrow> EntryTag" where
  "map_ref f (EncryptedTag n v) = (let (n, v) = f n v in EncryptedTag n v)"
| "map_ref f (PlaintextTag n v) = (let (n, v) = f n v in PlaintextTag n v)"

primrec update_name :: "(string \<Rightarrow> string) \<Rightarrow> EntryTag \<Rightarrow> EntryTag" where
  "update_name f (EncryptedTag n v) = EncryptedTag (f n) v"
| "update_name f (PlaintextTag n v) = PlaintextTag (f n) v"

text \<open>
  The derived order of \<open>EntryTag\<close>: by variant, then by name, then by value, strings bytewise.
\<close>

primrec tag_sort_key :: "EntryTag \<Rightarrow> nat \<times> string \<times> string" where
  "tag_sort_key (EncryptedTag n v) = (0, n, v)"
| "tag_sort_key (PlaintextTag n v) = (1, n, v)"

lemma tag_sort_key_inject: "tag_sort_key s = tag_sort_key t \<Longrightarrow> s = t"
  by (cases s; cases t) auto

instantiation EntryTag :: linorder
begin

definition less_eq_EntryTag :: "EntryTag \<Rightarrow> EntryTag \<Rightarrow> bool" where
  "less_eq_EntryTag s t \<longleftrightarrow>
     (let (c, n, v) = tag_sort_key s; (d, m, w) = tag_sort_key t in
      c < d \<or> c = d \<and> (n < m \<or> n = m \<and> v \<le> w))"

definition less_EntryTag :: "EntryTag \<Rightarrow> EntryTag \<Rightarrow> bool" where
  "less_EntryTag s t \<longleftrightarrow> s \<le> t \<and> \<not> t \<le> s"

instance
proof
  fix s t u :: EntryTag
  show "s < t \<longleftrightarrow> s \<le> t \<and> \<not> t \<le> s" by (rule less_EntryTag_def)
  show "s \<le> s" by (simp add: less_eq_EntryTag_def split: prod.splits)
  show "s \<le> t \<Longrightarrow> t \<le> u \<Longrightarrow> s \<le> u" by (auto simp: less_eq_EntryTag_def split: prod.splits)
  show "s \<le> t \<Longrightarrow> t \<le> s \<Longrightarrow> s = t"
    by (rule tag_sort_key_inject) (auto simp: less_eq_EntryTag_def split: prod.splits)
  show "s \<le> t \<or> t \<le> s" by (auto simp: less_eq_EntryTag_def split: prod.splits)
qed

end

text \<open>\<open>sorted_tags\<close>.\<close>

definition sorted_tags :: "EntryTag list \<Rightarrow> EntryTag list" where
  "sorted_tags tags = (if tags = [] then [] else sort tags)"

lemma sorted_tags_eq_iff: "sorted_tags xs = sorted_tags ys \<longleftrightarrow> mset xs = mset ys"
proof -
  have s: "sorted_tags zs = sort zs" for zs by (simp add: sorted_tags_def)
  have "sort xs = sort ys \<longleftrightarrow> mset xs = mset ys"
    by (metis mset_sort properties_for_sort sorted_sort)
  then show ?thesis by (simp add: s)
qed

text \<open>An encrypted tag, as the tag table stores it.\<close>

record EncEntryTag =
  enc_tag_name :: bytes
  enc_tag_value :: bytes
  enc_tag_plaintext :: bool

section \<open>Entries\<close>

record Entry =
  entry_kind :: EntryKind
  entry_category :: string
  entry_name :: string
  entry_value :: bytes
  entry_tags :: "EntryTag list"

text \<open>\<open>PartialEq for Entry\<close>: the order of the tags does not matter, and the kind is not compared.\<close>

definition entry_eq :: "Entry \<Rightarrow> Entry \<Rightarrow> bool" where
  "entry_eq e e' \<longleftrightarrow> entry_category e = entry_category e' \<and> entry_name e = entry_name e' \<and> entry_value e = entry_value e'
     \<and> sorted_tags (entry_tags e) = sorted_tags (entry_tags e')"

text \<open>
  Two entries are equal exactly when they agree on category, name and value and carry the
  same tags with the same multiplicities, in any order.
\<close>

theorem entry_eq_iff:
  "entry_eq e e' \<longleftrightarrow> entry_category e = entry_category e' \<and> entry_name e = entry_name e' \<and> entry_value e = entry_value e'
     \<and> mset (entry_tags e) = mset (entry_tags e')"
  by (simp add: entry_eq_def sorted_tags_eq_iff)

section \<open>Tag filters\<close>

record TagFilter =
  filter_query :: Query

definition filter_of_query :: "Query \<Rightarrow> TagFilter" where
  "filter_of_query q = \<lparr>filter_query = q\<rparr>"

definition all_of :: "TagFilter list \<Rightarrow> TagFilter" where
  "all_of each = \<lparr>filter_query = And (map filter_query each)\<rparr>"

definition any_of :: "TagFilter list \<Rightarrow> TagFilter" where
  "any_of each = \<lparr>filter_query = Or (map filter_query each)\<rparr>"

definition filter_negate :: "TagFilter \<Rightarrow> TagFilter" where
  "filter_negate f = \<lparr>filter_query = NotQ (filter_query f)\<rparr>"

definition is_eq :: "string \<Rightarrow> string \<Rightarrow> TagFilter" where
  "is_eq n v = \<lparr>filter_query = Eq n v\<rparr>"

definition is_not_eq :: "string \<Rightarrow> string \<Rightarrow> TagFilter" where
  "is_not_eq n v = \<lparr>filter_query = Neq n v\<rparr>"

definition is_gt :: "string \<Rightarrow> string \<Rightarrow> TagFilter" where
  "is_gt n v = \<lparr>filter_query = Gt n v\<rparr>"

definition is_gte :: "string \<Rightarrow> string \<Rightarrow> TagFilter" where
  "is_gte n v = \<lparr>filter_query = Gte n v\<rparr>"

definition is_lt :: "string \<Rightarrow> string \<Rightarrow> TagFilter" where
  "is_lt n v = \<lparr>filter_query = Lt n v\<rparr>"

definition is_lte :: "string \<Rightarrow> string \<Rightarrow> TagFilter" where
  "is_lte n v = \<lparr>filter_query = Lte n v\<rparr>"

definition is_like :: "string \<Rightarrow> string \<Rightarrow> TagFilter" where
  "is_like n v = \<lparr>filter_query = Like n v\<rparr>"

definition is_in :: "string \<Rightarrow> string list \<Rightarrow> TagFilter" where
  "is_in n vs = \<lparr>filter_query = In n vs\<rparr>"

definition filter_exist :: "string list \<Rightarrow> TagFilter" where
  "filter_exist ns = \<lparr>filter_query = Exist ns\<rparr>"

text \<open>
  \<open>FromStr for TagFilter\<close> and \<open>TagFilter::to_string\<close>, up to the JSON text: the parser of the
  text is \<open>serde_json::from_str\<close>, here from the value it produces.
\<close>

definition filter_from_json :: "json \<Rightarrow> TagFilter storage_result" where
  "filter_from_json v = res_map_err (\<lambda>_. err_msg storage_kind.Input ''Error parsing tag query'')
     (res_map filter_of_query (deserialize_query v))"

definition filter_to_json :: "TagFilter \<Rightarrow> json" where
  "filter_to_json f = to_value (filter_query f)"

section \<open>Scans\<close>

text \<open>
  \<open>Scan\<close>: the stream of pages that the backend still has to deliver, until the scan drops it.
\<close>

record 'a Scan =
  scan_stream :: "'a list storage_result list option"
  scan_page_size :: nat

definition scan_new :: "'a list storage_result list \<Rightarrow> nat \<Rightarrow> 'a Scan" where
  "scan_new s n = \<lparr>scan_stream = Some s, scan_page_size = n\<rparr>"

text \<open>
  \<open>Scan::fetch_next\<close>. The stream is taken out first and put back only after a full page; an error
  or a short page ends the scan.
\<close>

definition fetch_next :: "'a Scan \<Rightarrow> 'a list option storage_result \<times> 'a Scan" where
  "fetch_next sc =
     (case scan_stream sc of
        None \<Rightarrow> (Ok None, sc)
      | Some [] \<Rightarrow> (Ok None, sc\<lparr>scan_stream := None\<rparr>)
      | Some (Ok val # s) \<Rightarrow>
          (Ok (Some val), sc\<lparr>scan_stream := (if length val = scan_page_size sc then Some s else None)\<rparr>)
      | Some (Err e # s) \<Rightarrow> (Err e, sc\<lparr>scan_stream := None\<rparr>)
      | Some (Panic # s) \<Rightarrow> (Panic, sc\<lparr>scan_stream := None\<rparr>))"

definition scan_measure :: "'a Scan \<Rightarrow> nat" where
  "scan_measure sc = (case scan_stream sc of None \<Rightarrow> 0 | Some s \<Rightarrow> 1 + length s)"

lemma fetch_next_measure:
  "fetch_next sc = (Ok (Some val), sc') \<Longrightarrow> scan_measure sc' < scan_measure sc"
  by (auto simp: fetch_next_def scan_measure_def split: option.splits list.splits result.splits if_splits)

text \<open>The client's loop \<open>while let Some(rows) = scan.fetch_next().await?\<close>.\<close>

function scan_all :: "'a Scan \<Rightarrow> 'a list storage_result" where
  "scan_all sc =
     (case fetch_next sc of
        (Ok (Some val), sc') \<Rightarrow> res_map (\<lambda>rest. val @ rest) (scan_all sc')
      | (Ok None, sc') \<Rightarrow> Ok []
      | (Err e, sc') \<Rightarrow> Err e
      | (Panic, sc') \<Rightarrow> Panic)"
  by pat_completeness auto
termination
  by (relation "measure scan_measure") (auto dest: fetch_next_measure [OF sym])

declare scan_all.simps [simp del]

text \<open>
  How a backend cuts the rows of a query into pages: the loop of \<open>perform_scan\<close> pushes each row
  to a batch, yields the batch when it holds a full page, and yields a non-empty rest at the end.
\<close>

fun paginate :: "nat \<Rightarrow> 'a list \<Rightarrow> 'a list \<Rightarrow> 'a list list" where
  "paginate n batch [] = (if batch = [] then [] else [batch])"
| "paginate n batch (r # rs) =
     (let batch = batch @ [r] in
      if length batch = n then batch # paginate n [] rs else paginate n batch rs)"

lemma concat_paginate: "concat (paginate n batch rows) = batch @ rows"
  by (induction n batch rows rule: paginate.induct) (auto simp: Let_def)

lemma paginate_sizes:
  "length batch < n \<Longrightarrow> page \<in> set (paginate n batch rows) \<Longrightarrow> page \<noteq> [] \<and> length page \<le> n"
  by (induction n batch rows rule: paginate.induct) (auto simp: Let_def split: if_splits)

lemma paginate_full:
  "length batch < n \<Longrightarrow> page \<in> set (butlast (paginate n batch rows)) \<Longrightarrow> length page = n"
  by (induction n batch rows rule: paginate.induct) (auto simp: Let_def split: if_splits)

lemma scan_all_pages:
  assumes "\<And>p. p \<in> set (butlast ps) \<Longrightarrow> length p = scan_page_size sc" "scan_stream sc = Some (map Ok ps)"
  shows "scan_all sc = Ok (concat ps)"
  using assms
proof (induction ps arbitrary: sc)
  case Nil
  then show ?case by (subst scan_all.simps) (simp add: fetch_next_def)
next
  case (Cons p ps)
  show ?case
  proof (cases "length p = scan_page_size sc")
    case True
    have "scan_all (sc\<lparr>scan_stream := Some (map Ok ps)\<rparr>) = Ok (concat ps)"
      using Cons.prems(1) by (intro Cons.IH) (cases "ps = []"; simp)+
    with True Cons.prems(2) show ?thesis by (subst scan_all.simps) (simp add: fetch_next_def)
  next
    case False
    with Cons.prems(1) [of p] have "ps = []" by (cases ps) auto
    with False Cons.prems(2) show ?thesis
      by (subst scan_all.simps) (simp add: fetch_next_def scan_all.simps [of "scan_stream_update (\<lambda>_. None) sc"])
  qed
qed

text \<open>
  C34. A client that fetches pages until there is none left receives every row of the query once
  and in order, for every page size: the scan never stops early because it mistakes a full page
  for the last one, and the number of fetches is finite.
\<close>

theorem scan_delivers_all_rows:
  assumes "0 < n"
  shows "scan_all (scan_new (map Ok (paginate n [] rows)) n) = Ok rows"
proof -
  let ?sc = "scan_new (map Ok (paginate n [] rows)) n"
  have "length p = scan_page_size ?sc" if "p \<in> set (butlast (paginate n [] rows))" for p
    using paginate_full [OF _ that] assms by (simp add: scan_new_def)
  then have "scan_all ?sc = Ok (concat (paginate n [] rows))"
    by (rule scan_all_pages) (simp_all add: scan_new_def)
  then show ?thesis by (simp add: concat_paginate)
qed

theorem scan_delivers_all_rows_witness:
  "scan_all (scan_new (map Ok (paginate 2 [] [1, 2, 3, 4, 5 :: nat])) 2) = Ok [1, 2, 3, 4, 5]"
  by (rule scan_delivers_all_rows) simp

end
