(* ===== verification/Wql_Sql.thy ===== *)
theory Wql_Sql
  imports Entry
begin

text \<open>
  The SQL encoder of tag queries, \<open>askar-storage/src/wql/sql.rs\<close>: an instance of
  \<open>TagQueryEncoder\<close> that produces the text of a condition on \<open>i.id\<close> and the list of its
  arguments. The text is related to an abstract condition, whose meaning over the rows of
  \<open>items_tags\<close> is given here; the contract of the encoder interface is discharged for it.
\<close>

section \<open>The encoder\<close>

text \<open>
  The encoder's state is \<open>TagSqlEncoder.arguments\<close>; \<open>enc_name\<close> and \<open>enc_value\<close> are the
  closures it was built with.
\<close>

definition sql_encode_name :: "(string \<Rightarrow> bytes storage_result) \<Rightarrow> bytes list \<Rightarrow> TagName
    \<Rightarrow> (bytes \<times> bytes list) storage_result" where
  "sql_encode_name enc_name s name = res_bind (enc_name (tag_name_str name)) (\<lambda>a. Ok (a, s))"

definition sql_encode_value :: "(string \<Rightarrow> bytes storage_result) \<Rightarrow> bytes list \<Rightarrow> string \<Rightarrow> bool
    \<Rightarrow> (bytes \<times> bytes list) storage_result" where
  "sql_encode_value enc_value s value pt =
     (if pt then Ok (as_bytes value, s) else res_bind (enc_value value) (\<lambda>a. Ok (a, s)))"

text \<open>The prefix condition of an encrypted value that is longer than its 12-byte nonce.\<close>

definition sql_match_prefix :: "CompareOp \<Rightarrow> bytes \<Rightarrow> bool \<Rightarrow> string option" where
  "sql_match_prefix op enc_value pt =
     (case (pt, compare_op_sql_for_prefix op) of
        (False, Some pfx_op) \<Rightarrow> if 12 < length enc_value then Some pfx_op else None
      | _ \<Rightarrow> None)"

definition sql_op_clause :: "bytes list \<Rightarrow> CompareOp \<Rightarrow> bytes \<Rightarrow> bytes \<Rightarrow> bool \<Rightarrow> bool
    \<Rightarrow> (string option \<times> bytes list) storage_result" where
  "sql_op_clause s op enc_name enc_value pt negate =
     (let idx = length s;
          (op_prefix, match_prefix) =
            (case sql_match_prefix op enc_value pt of
               Some pfx_op \<Rightarrow>
                 ('' AND SUBSTR(value, 1, 12) '' @ pfx_op @ '' $'' @ show_nat (idx + 3),
                  Some (take 12 enc_value))
             | None \<Rightarrow> ([], None));
          s = s @ [enc_name];
          s = s @ [enc_value];
          s = (case match_prefix of Some v \<Rightarrow> s @ [v] | None \<Rightarrow> s);
          query = ''i.id '' @ (if negate then ''NOT IN'' else ''IN'')
            @ '' (SELECT item_id FROM items_tags WHERE name = $'' @ show_nat (idx + 1)
            @ '' AND value '' @ compare_op_sql op @ '' $'' @ show_nat (idx + 2) @ op_prefix
            @ '' AND plaintext = '' @ (if pt then ''1'' else ''0'') @ '')''
      in Ok (Some query, s))"

definition sql_in_clause :: "bytes list \<Rightarrow> bytes \<Rightarrow> bytes list \<Rightarrow> bool \<Rightarrow> bool
    \<Rightarrow> (string option \<times> bytes list) storage_result" where
  "sql_in_clause s enc_name enc_values pt negate =
     (let args_in = join '', '' (replicate (length enc_values) ''$$'');
          query = ''i.id '' @ (if negate then ''NOT IN'' else ''IN'')
            @ '' (SELECT item_id FROM items_tags WHERE name = $$ AND value IN ('' @ args_in
            @ '') AND plaintext = '' @ (if pt then ''1'' else ''0'') @ '')'';
          s = s @ [enc_name];
          s = s @ enc_values
      in Ok (Some query, s))"

definition sql_exist_clause :: "bytes list \<Rightarrow> bytes \<Rightarrow> bool \<Rightarrow> bool
    \<Rightarrow> (string option \<times> bytes list) storage_result" where
  "sql_exist_clause s enc_name pt negate =
     (let query = ''i.id '' @ (if negate then ''NOT IN'' else ''IN'')
            @ '' (SELECT item_id FROM items_tags WHERE name = $$ AND plaintext = ''
            @ (if pt then ''1'' else ''0'') @ '')'';
          s = s @ [enc_name]
      in Ok (Some query, s))"

definition sql_conj_clause :: "bytes list \<Rightarrow> ConjunctionOp \<Rightarrow> string list
    \<Rightarrow> (string option \<times> bytes list) storage_result" where
  "sql_conj_clause s op clauses =
     (let qc = length clauses in
      if qc = 0 then (if op = COr then Ok (Some ''0'', s) else Ok (None, s))
      else Ok (Some ((if 1 < qc then ''('' else []) @ join (conjunction_op_sql op) clauses
             @ (if 1 < qc then '')'' else [])), s))"

definition TagSqlEncoder :: "(string \<Rightarrow> bytes storage_result) \<Rightarrow> (string \<Rightarrow> bytes storage_result)
    \<Rightarrow> (bytes list, bytes, string) TagQueryEncoder" where
  "TagSqlEncoder enc_name enc_value =
     \<lparr>encode_name = sql_encode_name enc_name, encode_value = sql_encode_value enc_value,
      encode_op_clause = sql_op_clause, encode_in_clause = sql_in_clause,
      encode_exist_clause = sql_exist_clause, encode_conj_clause = sql_conj_clause\<rparr>"

section \<open>Abstract conditions\<close>

text \<open>
  The conditions that the encoder writes, with the position of their first argument: \<open>SqlOp\<close>
  compares the value of a tag, with or without the condition on the 12-byte prefix; \<open>SqlIn\<close>
  and \<open>SqlExist\<close> are the other two kinds.
\<close>

datatype sql_clause =
    SqlOp bool CompareOp nat bool bool
  | SqlIn bool nat nat bool
  | SqlExist bool nat bool
  | SqlConj ConjunctionOp "sql_clause list"
  | SqlFalse

text \<open>Pieces of text: literal text, an explicit reference \<open>$n\<close> or a sequential one \<open>$$\<close>.\<close>

datatype token = Lit string | Num nat | Auto

fun token_text :: "token \<Rightarrow> string" where
  "token_text (Lit s) = s"
| "token_text (Num n) = CHR ''$'' # show_nat n"
| "token_text Auto = ''$$''"

definition sel_text :: "bool \<Rightarrow> string" where
  "sel_text negate = ''i.id '' @ (if negate then ''NOT IN'' else ''IN'')
     @ '' (SELECT item_id FROM items_tags WHERE name = ''"

definition pt_text :: "bool \<Rightarrow> string" where
  "pt_text pt = '' AND plaintext = '' @ (if pt then ''1'' else ''0'') @ '')''"

definition prefix_op_text :: "CompareOp \<Rightarrow> string" where
  "prefix_op_text op = (case compare_op_sql_for_prefix op of None \<Rightarrow> [] | Some s \<Rightarrow> s)"

fun clause_tokens :: "sql_clause \<Rightarrow> token list" where
  "clause_tokens (SqlOp negate op k pfx pt) =
     [Lit (sel_text negate), Num (k + 1), Lit ('' AND value '' @ compare_op_sql op @ '' ''), Num (k + 2)]
     @ (if pfx then [Lit ('' AND SUBSTR(value, 1, 12) '' @ prefix_op_text op @ '' ''),
                     Num (k + 3)] else [])
     @ [Lit (pt_text pt)]"
| "clause_tokens (SqlIn negate k n pt) =
     [Lit (sel_text negate), Auto, Lit '' AND value IN ('']
     @ join [Lit '', ''] (replicate n [Auto]) @ [Lit ('')'' @ pt_text pt)]"
| "clause_tokens (SqlExist negate k pt) = [Lit (sel_text negate), Auto, Lit (pt_text pt)]"
| "clause_tokens (SqlConj op cs) =
     (if 1 < length cs then [Lit ''(''] else [])
     @ join [Lit (conjunction_op_sql op)] (map clause_tokens cs)
     @ (if 1 < length cs then [Lit '')''] else [])"
| "clause_tokens SqlFalse = [Lit ''0'']"

definition clause_text :: "sql_clause \<Rightarrow> string" where
  "clause_text c = concat (map token_text (clause_tokens c))"

text \<open>The positions of the arguments a condition refers to, in the order of its text.\<close>

fun clause_refs :: "sql_clause \<Rightarrow> nat list" where
  "clause_refs (SqlOp negate op k pfx pt) = [k..<k + (if pfx then 3 else 2)]"
| "clause_refs (SqlIn negate k n pt) = [k..<k + 1 + n]"
| "clause_refs (SqlExist negate k pt) = [k]"
| "clause_refs (SqlConj op cs) = concat (map clause_refs cs)"
| "clause_refs SqlFalse = []"

text \<open>The same encoder, producing abstract conditions.\<close>

definition ast_op_clause :: "bytes list \<Rightarrow> CompareOp \<Rightarrow> bytes \<Rightarrow> bytes \<Rightarrow> bool \<Rightarrow> bool
    \<Rightarrow> (sql_clause option \<times> bytes list) storage_result" where
  "ast_op_clause s op enc_name enc_value pt negate =
     (let pfx = (sql_match_prefix op enc_value pt \<noteq> None) in
      Ok (Some (SqlOp negate op (length s) pfx pt),
          s @ [enc_name, enc_value] @ (if pfx then [take 12 enc_value] else [])))"

definition ast_in_clause :: "bytes list \<Rightarrow> bytes \<Rightarrow> bytes list \<Rightarrow> bool \<Rightarrow> bool
    \<Rightarrow> (sql_clause option \<times> bytes list) storage_result" where
  "ast_in_clause s enc_name enc_values pt negate =
     Ok (Some (SqlIn negate (length s) (length enc_values) pt), s @ enc_name # enc_values)"

definition ast_exist_clause :: "bytes list \<Rightarrow> bytes \<Rightarrow> bool \<Rightarrow> bool
    \<Rightarrow> (sql_clause option \<times> bytes list) storage_result" where
  "ast_exist_clause s enc_name pt negate = Ok (Some (SqlExist negate (length s) pt), s @ [enc_name])"

definition ast_conj_clause :: "bytes list \<Rightarrow> ConjunctionOp \<Rightarrow> sql_clause list
    \<Rightarrow> (sql_clause option \<times> bytes list) storage_result" where
  "ast_conj_clause s op cs =
     (if cs = [] then Ok (if op = COr then Some SqlFalse else None, s) else Ok (Some (SqlConj op cs), s))"

definition TagAstEncoder :: "(string \<Rightarrow> bytes storage_result) \<Rightarrow> (string \<Rightarrow> bytes storage_result)
    \<Rightarrow> (bytes list, bytes, sql_clause) TagQueryEncoder" where
  "TagAstEncoder enc_name enc_value =
     \<lparr>encode_name = sql_encode_name enc_name, encode_value = sql_encode_value enc_value,
      encode_op_clause = ast_op_clause, encode_in_clause = ast_in_clause,
      encode_exist_clause = ast_exist_clause, encode_conj_clause = ast_conj_clause\<rparr>"

lemma TagAstEncoder_simps [simp]:
  "encode_name (TagAstEncoder en ev) = sql_encode_name en"
  "encode_value (TagAstEncoder en ev) = sql_encode_value ev"
  "encode_op_clause (TagAstEncoder en ev) = ast_op_clause"
  "encode_in_clause (TagAstEncoder en ev) = ast_in_clause"
  "encode_exist_clause (TagAstEncoder en ev) = ast_exist_clause"
  "encode_conj_clause (TagAstEncoder en ev) = ast_conj_clause"
  by (simp_all add: TagAstEncoder_def)

lemma TagSqlEncoder_simps [simp]:
  "encode_name (TagSqlEncoder en ev) = sql_encode_name en"
  "encode_value (TagSqlEncoder en ev) = sql_encode_value ev"
  "encode_op_clause (TagSqlEncoder en ev) = sql_op_clause"
  "encode_in_clause (TagSqlEncoder en ev) = sql_in_clause"
  "encode_exist_clause (TagSqlEncoder en ev) = sql_exist_clause"
  "encode_conj_clause (TagSqlEncoder en ev) = sql_conj_clause"
  by (simp_all add: TagSqlEncoder_def)

section \<open>The text is the text of the abstract condition\<close>

abbreviation with_text :: "(sql_clause option \<times> bytes list) storage_result
    \<Rightarrow> (string option \<times> bytes list) storage_result" where
  "with_text \<equiv> res_map (map_prod (map_option clause_text) id)"

lemma concat_map_join:
  "concat (map f (join sep xs)) = join (concat (map f sep)) (map (concat \<circ> map f) xs)"
  by (induction sep xs rule: join.induct) auto

lemma op_clause_text: "sql_op_clause s op a v pt neg = with_text (ast_op_clause s op a v pt neg)"
  by (cases "sql_match_prefix op v pt")
     (auto simp: sql_op_clause_def ast_op_clause_def Let_def clause_text_def sel_text_def pt_text_def
       prefix_op_text_def sql_match_prefix_def split: bool.splits option.splits if_splits)

lemma in_clause_text: "sql_in_clause s a vs pt neg = with_text (ast_in_clause s a vs pt neg)"
  by (simp add: sql_in_clause_def ast_in_clause_def Let_def clause_text_def sel_text_def pt_text_def
      concat_map_join)

lemma exist_clause_text: "sql_exist_clause s a pt neg = with_text (ast_exist_clause s a pt neg)"
  by (simp add: sql_exist_clause_def ast_exist_clause_def clause_text_def sel_text_def pt_text_def)

lemma conj_clause_text:
  "sql_conj_clause s op (map clause_text cs) = with_text (ast_conj_clause s op cs)"
  by (auto simp: sql_conj_clause_def ast_conj_clause_def Let_def clause_text_def [abs_def]
      concat_map_join comp_def)

lemma res_bind_map: "res_bind (res_map f m) g = res_bind m (g \<circ> f)"
  by (cases m) auto

lemma res_map_bind: "res_map f (res_bind m g) = res_bind m (\<lambda>x. res_map f (g x))"
  by (cases m) auto

lemma encode_each_text:
  assumes "\<And>q s. q \<in> set qs \<Longrightarrow> f q s = with_text (g q s)"
  shows "encode_each f qs s = res_map (map_prod (map clause_text) id) (encode_each g qs s)"
  using assms
proof (induction qs arbitrary: s)
  case Nil
  then show ?case by simp
next
  case (Cons q qs)
  then show ?case
    by (cases "g q s"; cases "encode_each g qs (snd (case g q s of Ok x \<Rightarrow> x))")
       (auto split: option.splits)
qed

lemma encode_values_text:
  "encode_values (TagSqlEncoder en ev) pt vs s = encode_values (TagAstEncoder en ev) pt vs s"
  by (induction vs arbitrary: s) simp_all

lemma encode_op_text:
  "encode_tag_op (TagSqlEncoder en ev) op n v neg s = with_text (encode_tag_op (TagAstEncoder en ev) op n v neg s)"
  by (simp add: encode_tag_op_def Let_def res_map_bind op_clause_text split_def)

lemma encode_in_text:
  "encode_tag_in (TagSqlEncoder en ev) n vs neg s = with_text (encode_tag_in (TagAstEncoder en ev) n vs neg s)"
  by (simp add: encode_tag_in_def Let_def res_map_bind in_clause_text split_def encode_values_text)

lemma encode_exist_one_text:
  "encode_tag_exist_one (TagSqlEncoder en ev) neg n s =
   with_text (encode_tag_exist_one (TagAstEncoder en ev) neg n s)"
  by (simp add: encode_tag_exist_one_def res_map_bind exist_clause_text split_def)

lemma encode_conj_text:
  assumes "\<And>q s. q \<in> set qs \<Longrightarrow> f q s = with_text (g q s)"
  shows "res_bind (encode_each f qs s) (\<lambda>(cs, s). sql_conj_clause s op cs) =
    with_text (res_bind (encode_each g qs s) (\<lambda>(cs, s). ast_conj_clause s op cs))"
  by (simp add: encode_each_text [OF assms] res_bind_map res_map_bind comp_def conj_clause_text split_def)

lemma encode_exist_text:
  "encode_tag_exist (TagSqlEncoder en ev) ns neg s =
   with_text (encode_tag_exist (TagAstEncoder en ev) ns neg s)"
proof -
  have "res_bind (encode_each (encode_tag_exist_one (TagSqlEncoder en ev) neg) ns s)
      (\<lambda>(cs, s). sql_conj_clause s CAnd cs) =
    with_text (res_bind (encode_each (encode_tag_exist_one (TagAstEncoder en ev) neg) ns s)
      (\<lambda>(cs, s). ast_conj_clause s CAnd cs))"
    by (rule encode_conj_text) (rule encode_exist_one_text)
  then show ?thesis
    by (cases ns rule: remdups_adj.cases)
       (simp_all add: encode_tag_exist_def encode_exist_one_text del: encode_each.simps)
qed

lemma encode_tag_query_text:
  "encode_tag_query (TagSqlEncoder en ev) q neg s = with_text (encode_tag_query (TagAstEncoder en ev) q neg s)"
proof (induction q arbitrary: neg s)
  case (And qs)
  show ?case
    unfolding encode_tag_query.simps TagSqlEncoder_simps TagAstEncoder_simps
    by (rule encode_conj_text) (rule And.IH)
next
  case (Or qs)
  show ?case
    unfolding encode_tag_query.simps TagSqlEncoder_simps TagAstEncoder_simps
    by (rule encode_conj_text) (rule Or.IH)
qed (simp_all add: encode_op_text encode_in_text encode_exist_text)

section \<open>The layout of the arguments\<close>

text \<open>
  Every condition refers to the arguments pushed while it was encoded, each once, in the order of
  its text; what encodes to no condition pushes no argument.
\<close>

definition laid_out :: "bytes list \<Rightarrow> bytes list \<Rightarrow> sql_clause option \<Rightarrow> bool" where
  "laid_out s t r \<longleftrightarrow> length s \<le> length t \<and> take (length s) t = s \<and>
     (case r of None \<Rightarrow> t = s | Some c \<Rightarrow> clause_refs c = [length s..<length t])"

lemma laid_out_refl [simp]: "laid_out s s None"
  by (simp add: laid_out_def)

lemma sql_encode_name_Ok: "sql_encode_name en s n = Ok (a, t) \<Longrightarrow> t = s \<and> en (tag_name_str n) = Ok a"
  by (auto simp: sql_encode_name_def result_simps)

lemma sql_encode_value_Ok:
  "sql_encode_value ev s v pt = Ok (a, t) \<Longrightarrow> t = s \<and> (if pt then a = as_bytes v else ev v = Ok a)"
  by (auto simp: sql_encode_value_def result_simps split: if_splits)

lemma encode_values_Ok:
  "encode_values (TagAstEncoder en ev) pt vs s = Ok (as, t) \<Longrightarrow> t = s"
  by (induction vs arbitrary: s as) (auto simp: result_simps dest!: sql_encode_value_Ok)

lemma op_laid_out: "encode_tag_op (TagAstEncoder en ev) op n v neg s = Ok (r, t) \<Longrightarrow> laid_out s t r"
  by (auto simp: encode_tag_op_def Let_def result_simps ast_op_clause_def laid_out_def numeral_3_eq_3
      dest!: sql_encode_name_Ok sql_encode_value_Ok)

lemma in_laid_out: "encode_tag_in (TagAstEncoder en ev) n vs neg s = Ok (r, t) \<Longrightarrow> laid_out s t r"
  by (auto simp: encode_tag_in_def Let_def result_simps ast_in_clause_def laid_out_def
      simp flip: upt_conv_Cons dest!: sql_encode_name_Ok encode_values_Ok)

lemma exist_one_laid_out:
  "encode_tag_exist_one (TagAstEncoder en ev) neg n s = Ok (r, t) \<Longrightarrow> laid_out s t r"
  by (auto simp: encode_tag_exist_one_def result_simps ast_exist_clause_def laid_out_def
      dest!: sql_encode_name_Ok)

lemma each_laid_out:
  assumes "encode_each f qs s = Ok (cs, t)"
    and "\<And>q s r t. q \<in> set qs \<Longrightarrow> f q s = Ok (r, t) \<Longrightarrow> laid_out s t r"
  shows "length s \<le> length t \<and> take (length s) t = s \<and>
    concat (map clause_refs cs) = [length s..<length t] \<and> (cs = [] \<longrightarrow> t = s)"
  using assms
proof (induction qs arbitrary: s cs)
  case Nil
  then show ?case by simp
next
  case (Cons q qs)
  from Cons.prems(1) obtain r u cs' where fq: "f q s = Ok (r, u)"
    and rest: "encode_each f qs u = Ok (cs', t)"
    and cs: "cs = (case r of None \<Rightarrow> cs' | Some c \<Rightarrow> c # cs')"
    by (auto simp: result_simps)
  from Cons.prems(2) [OF _ fq] have q: "laid_out s u r" by simp
  from Cons.IH [OF rest] Cons.prems(2)
  have IH: "length u \<le> length t" "take (length u) t = u"
    "concat (map clause_refs cs') = [length u..<length t]" "cs' = [] \<longrightarrow> t = u" by auto
  have "take (length s) t = take (length s) (take (length u) t)"
    using q by (simp add: laid_out_def min_def)
  with q IH have "take (length s) t = s" by (simp add: laid_out_def)
  moreover have "length s \<le> length t" using q IH(1) by (simp add: laid_out_def)
  moreover have "concat (map clause_refs cs) = [length s..<length t] \<and> (cs = [] \<longrightarrow> t = s)"
  proof (cases r)
    case None
    with q cs IH show ?thesis by (simp add: laid_out_def)
  next
    case (Some c)
    with q have "clause_refs c = [length s..<length u]" "length s \<le> length u"
      by (simp_all add: laid_out_def)
    with Some cs IH(3) upt_split [OF this(2) IH(1)] show ?thesis by simp
  qed
  ultimately show ?case by blast
qed

lemma conj_laid_out:
  assumes "encode_each f qs s = Ok (cs, u)" "ast_conj_clause u op cs = Ok (r, t)"
    and "\<And>q s r t. q \<in> set qs \<Longrightarrow> f q s = Ok (r, t) \<Longrightarrow> laid_out s t r"
  shows "laid_out s t r"
  using each_laid_out [OF assms(1,3)] assms(2)
  by (auto simp: ast_conj_clause_def laid_out_def split: if_splits)

lemma encode_tag_query_laid_out:
  "encode_tag_query (TagAstEncoder en ev) q neg s = Ok (r, t) \<Longrightarrow> laid_out s t r"
proof (induction q arbitrary: neg s r t)
  case (And qs)
  then show ?case by (auto simp: result_simps intro: conj_laid_out)
next
  case (Or qs)
  then show ?case by (auto simp: result_simps intro: conj_laid_out)
next
  case (Exist ns)
  then show ?case
    by (cases ns rule: remdups_adj.cases)
       (auto simp: encode_tag_exist_def result_simps
         intro: exist_one_laid_out conj_laid_out simp del: encode_each.simps)
next
  case (NotQ q)
  then show ?case by simp
qed (auto dest: op_laid_out in_laid_out)

section \<open>The meaning of a condition\<close>

text \<open>
  SQLite and PostgreSQL compare binary values byte by byte, a proper prefix being smaller; \<open>LIKE\<close>
  on the stored values is a parameter.
\<close>

fun blob_less :: "bytes \<Rightarrow> bytes \<Rightarrow> bool" where
  "blob_less [] [] = False"
| "blob_less [] (y # ys) = True"
| "blob_less (x # xs) [] = False"
| "blob_less (x # xs) (y # ys) = (x < y \<or> (x = y \<and> blob_less xs ys))"

fun sql_compare :: "(bytes \<Rightarrow> bytes \<Rightarrow> bool) \<Rightarrow> CompareOp \<Rightarrow> bytes \<Rightarrow> bytes \<Rightarrow> bool" where
  "sql_compare like CEq a b \<longleftrightarrow> a = b"
| "sql_compare like CNeq a b \<longleftrightarrow> a \<noteq> b"
| "sql_compare like CGt a b \<longleftrightarrow> blob_less b a"
| "sql_compare like CGte a b \<longleftrightarrow> blob_less b a \<or> a = b"
| "sql_compare like CLt a b \<longleftrightarrow> blob_less a b"
| "sql_compare like CLte a b \<longleftrightarrow> blob_less a b \<or> a = b"
| "sql_compare like CLike a b \<longleftrightarrow> like a b"

text \<open>The comparison that stands in front of \<open>SUBSTR\<close>: the strict orders become non-strict.\<close>

fun prefix_compare_op :: "CompareOp \<Rightarrow> CompareOp" where
  "prefix_compare_op CGt = CGte"
| "prefix_compare_op CLt = CLte"
| "prefix_compare_op op = op"

lemma prefix_compare_op_sql:
  "compare_op_sql_for_prefix op = Some t \<Longrightarrow> t = compare_op_sql (prefix_compare_op op)"
  by (cases op) auto

text \<open>
  A condition over the tag rows of one item: \<open>i.id IN (SELECT item_id ..)\<close> asks for a row of the
  item that satisfies the inner conditions.
\<close>

fun clause_holds :: "(bytes \<Rightarrow> bytes \<Rightarrow> bool) \<Rightarrow> EncEntryTag list \<Rightarrow> bytes list \<Rightarrow> sql_clause \<Rightarrow> bool" where
  "clause_holds like rows args (SqlOp negate op k pfx pt) =
     (negate \<noteq> list_ex (\<lambda>r. enc_tag_name r = args ! k \<and>
        sql_compare like op (enc_tag_value r) (args ! (k + 1)) \<and>
        (pfx \<longrightarrow> sql_compare like (prefix_compare_op op) (take 12 (enc_tag_value r)) (args ! (k + 2))) \<and>
        enc_tag_plaintext r = pt) rows)"
| "clause_holds like rows args (SqlIn negate k n pt) =
     (negate \<noteq> list_ex (\<lambda>r. enc_tag_name r = args ! k \<and>
        enc_tag_value r \<in> set (take n (drop (k + 1) args)) \<and> enc_tag_plaintext r = pt) rows)"
| "clause_holds like rows args (SqlExist negate k pt) =
     (negate \<noteq> list_ex (\<lambda>r. enc_tag_name r = args ! k \<and> enc_tag_plaintext r = pt) rows)"
| "clause_holds like rows args (SqlConj op cs) = conj_holds op (map (clause_holds like rows args) cs)"
| "clause_holds like rows args SqlFalse = False"

text \<open>What a comparison clause asks of the rows: the prefix condition matters for \<open>$neq\<close> only.\<close>

definition row_op_match :: "(bytes \<Rightarrow> bytes \<Rightarrow> bool) \<Rightarrow> EncEntryTag list \<Rightarrow> CompareOp \<Rightarrow> bytes \<Rightarrow> bytes
    \<Rightarrow> bool \<Rightarrow> bool" where
  "row_op_match like rows op a v pt = list_ex (\<lambda>r. enc_tag_name r = a \<and>
     sql_compare like op (enc_tag_value r) v \<and>
     (op = CNeq \<and> \<not> pt \<and> 12 < length v \<longrightarrow> take 12 (enc_tag_value r) \<noteq> take 12 v) \<and>
     enc_tag_plaintext r = pt) rows"

definition row_in_match :: "EncEntryTag list \<Rightarrow> bytes \<Rightarrow> bytes list \<Rightarrow> bool \<Rightarrow> bool" where
  "row_in_match rows a vs pt = list_ex (\<lambda>r. enc_tag_name r = a \<and>
     enc_tag_value r \<in> set vs \<and> enc_tag_plaintext r = pt) rows"

definition row_exist_match :: "EncEntryTag list \<Rightarrow> bytes \<Rightarrow> bool \<Rightarrow> bool" where
  "row_exist_match rows a pt = list_ex (\<lambda>r. enc_tag_name r = a \<and> enc_tag_plaintext r = pt) rows"

lemma blob_less_take: "blob_less a b \<Longrightarrow> blob_less (take n a) (take n b) \<or> take n a = take n b"
  by (induction a b arbitrary: n rule: blob_less.induct) (auto simp: take_Cons split: nat.splits)

text \<open>Truncating both sides to a prefix keeps every comparison but inequality.\<close>

lemma prefix_condition_redundant:
  assumes "sql_compare like op a b" "op \<noteq> CNeq" "op \<noteq> CLike"
  shows "sql_compare like (prefix_compare_op op) (take n a) (take n b)"
  using assms blob_less_take [of a b n] blob_less_take [of b a n] by (cases op) auto

fun wf_sql_clause :: "bytes list \<Rightarrow> sql_clause \<Rightarrow> bool" where
  "wf_sql_clause args (SqlOp negate op k pfx pt) \<longleftrightarrow> k + (if pfx then 3 else 2) \<le> length args"
| "wf_sql_clause args (SqlIn negate k n pt) \<longleftrightarrow> k + 1 + n \<le> length args"
| "wf_sql_clause args (SqlExist negate k pt) \<longleftrightarrow> k < length args"
| "wf_sql_clause args (SqlConj op cs) \<longleftrightarrow> list_all (wf_sql_clause args) cs"
| "wf_sql_clause args SqlFalse \<longleftrightarrow> True"

lemma wf_sql_clause_extend:
  "wf_sql_clause s c \<Longrightarrow> wf_sql_clause (s @ u) c \<and> clause_holds like rows (s @ u) c = clause_holds like rows s c"
proof (induction c)
  case (SqlConj op cs)
  then have h: "map (clause_holds like rows (s @ u)) cs = map (clause_holds like rows s) cs"
    and w: "list_all (wf_sql_clause (s @ u)) cs"
    by (auto simp: list_all_iff)
  show ?case by (simp only: clause_holds.simps wf_sql_clause.simps h w)
qed (auto simp: nth_append split: if_splits)

lemma ast_op_holds:
  assumes "ast_op_clause s op a v pt neg = Ok (r, t)"
  shows "\<exists>c. r = Some c \<and> wf_sql_clause t c \<and>
    clause_holds like rows t c = (neg \<noteq> row_op_match like rows op a v pt)"
proof -
  have pfx: "sql_match_prefix op v pt \<noteq> None \<longleftrightarrow> \<not> pt \<and> op \<noteq> CLike \<and> 12 < length v"
    by (cases op; cases pt) (auto simp: sql_match_prefix_def)
  have *: "sql_compare like (prefix_compare_op op) (take 12 x) (take 12 v) \<longleftrightarrow>
      (op = CNeq \<longrightarrow> take 12 x \<noteq> take 12 v)"
    if "sql_compare like op x v" "op \<noteq> CLike" for x
    using prefix_condition_redundant [OF that(1)] that(2) by (cases "op = CNeq") auto
  show ?thesis
  proof (cases "sql_match_prefix op v pt \<noteq> None")
    case True
    with assms have r: "r = Some (SqlOp neg op (length s) True pt)" and t: "t = s @ [a, v, take 12 v]"
      by (simp_all add: ast_op_clause_def)
    from True pfx have "\<not> pt" "op \<noteq> CLike" "12 < length v" by auto
    with * have "clause_holds like rows t (SqlOp neg op (length s) True pt) =
        (neg \<noteq> row_op_match like rows op a v pt)"
      by (simp add: t nth_append row_op_match_def cong: conj_cong)
    with r t show ?thesis by simp
  next
    case False
    with assms have r: "r = Some (SqlOp neg op (length s) False pt)" and t: "t = s @ [a, v]"
      by (simp_all add: ast_op_clause_def)
    from False pfx have n: "(op = CNeq \<and> \<not> pt \<and> 12 < length v) = False" by auto
    have "clause_holds like rows t (SqlOp neg op (length s) False pt) =
        (neg \<noteq> row_op_match like rows op a v pt)"
      unfolding row_op_match_def n by (simp add: t nth_append)
    with r t show ?thesis by simp
  qed
qed

interpretation sql_enc: tag_query_encoder "TagAstEncoder en ev" "\<lambda>s t. \<exists>u. t = s @ u"
  wf_sql_clause "clause_holds like rows" "\<lambda>n. case en (tag_name_str n) of Ok a \<Rightarrow> a"
  "\<lambda>v pt. if pt then as_bytes v else (case ev v of Ok a \<Rightarrow> a)"
  "row_op_match like rows" "row_in_match rows" "row_exist_match rows"
  for en ev like rows
proof (unfold_locales, goal_cases)
  case (6 s op a v pt neg r t)
  then show ?case using ast_op_holds [of s op a v pt neg r t] by (auto simp: ast_op_clause_def Let_def)
next
  case (7 s a vs pt neg r t)
  then show ?case by (auto simp: ast_in_clause_def row_in_match_def nth_append)
next
  case (8 s a pt neg r t)
  then show ?case by (auto simp: ast_exist_clause_def row_exist_match_def nth_append)
next
  case (9 s cs op r t)
  then show ?case by (cases op) (auto simp: ast_conj_clause_def split: if_splits)
qed (auto simp: wf_sql_clause_extend dest!: sql_encode_name_Ok sql_encode_value_Ok split: if_splits)

section \<open>Correctness of the encoding\<close>

text \<open>The names and values a query compares, as the encoder encodes them.\<close>

definition arg_name :: "(string \<Rightarrow> bytes storage_result) \<Rightarrow> TagName \<Rightarrow> bytes" where
  "arg_name en n = (case en (tag_name_str n) of Ok a \<Rightarrow> a)"

definition arg_value :: "(string \<Rightarrow> bytes storage_result) \<Rightarrow> string \<Rightarrow> bool \<Rightarrow> bytes" where
  "arg_value ev v pt = (if pt then as_bytes v else (case ev v of Ok a \<Rightarrow> a))"

text \<open>The meaning of a tag query over the tag rows of an item.\<close>

definition rows_satisfy :: "(string \<Rightarrow> bytes storage_result) \<Rightarrow> (string \<Rightarrow> bytes storage_result)
    \<Rightarrow> (bytes \<Rightarrow> bytes \<Rightarrow> bool) \<Rightarrow> EncEntryTag list \<Rightarrow> TagQuery \<Rightarrow> bool" where
  "rows_satisfy en ev like rows =
     query_holds (tag_atom (arg_name en) (arg_value ev) (row_op_match like rows)
       (row_in_match rows) (row_exist_match rows))"

text \<open>An optional condition: its absence selects every item.\<close>

definition filter_holds :: "(bytes \<Rightarrow> bytes \<Rightarrow> bool) \<Rightarrow> EncEntryTag list \<Rightarrow> bytes list
    \<Rightarrow> sql_clause option \<Rightarrow> bool" where
  "filter_holds like rows args c =
     (case c of None \<Rightarrow> True | Some c \<Rightarrow> clause_holds like rows args c)"

lemma encode_query_ast:
  assumes "encode_query (TagSqlEncoder en ev) q s = Ok (r, t)"
  shows "\<exists>c. encode_tag_query (TagAstEncoder en ev) q False s = Ok (c, t) \<and> r = map_option clause_text c"
  using assms by (auto simp: encode_query_def encode_tag_query_text result_simps)

lemma ast_filter_holds:
  assumes "encode_tag_query (TagAstEncoder en ev) q False s = Ok (c, t)" "encode_exact False q"
  shows "filter_holds like rows t c = rows_satisfy en ev like rows q"
  using sql_enc.encode_tag_query_encodes [OF assms, of like rows]
  by (auto simp: sql_enc.encodes_def filter_holds_def rows_satisfy_def arg_name_def [abs_def]
      arg_value_def [abs_def] split: option.splits)

text \<open>The encoder itself never fails: an error can only come from the two closures.\<close>

lemma encode_each_total:
  assumes "\<And>q s. q \<in> set qs \<Longrightarrow> \<exists>r t. f q s = Ok (r, t)"
  shows "\<exists>cs t. encode_each f qs s = Ok (cs, t)"
  using assms
proof (induction qs arbitrary: s)
  case (Cons q qs)
  then obtain r t where "f q s = Ok (r, t)" by fastforce
  moreover from Cons obtain cs u where "encode_each f qs t = Ok (cs, u)" by fastforce
  ultimately show ?case by simp
qed simp

lemma ast_conj_total: "\<exists>r t. ast_conj_clause s op cs = Ok (r, t)"
  by (simp add: ast_conj_clause_def)

lemma encode_values_total:
  assumes "\<And>v. \<exists>a. ev v = Ok a"
  shows "\<exists>as t. encode_values (TagAstEncoder en ev) pt vs s = Ok (as, t)"
proof (induction vs arbitrary: s)
  case (Cons v vs)
  obtain a where "ev v = Ok a" using assms by blast
  moreover obtain as t where "encode_values (TagAstEncoder en ev) pt vs s = Ok (as, t)" using Cons by blast
  ultimately show ?case by (cases pt) (simp_all add: sql_encode_value_def)
qed simp

lemma encode_conj_total:
  assumes "\<And>q s. q \<in> set qs \<Longrightarrow> \<exists>r t. f q s = Ok (r, t)"
  shows "\<exists>r t. res_bind (encode_each f qs s) (\<lambda>(cs, s). ast_conj_clause s op cs) = Ok (r, t)"
  using encode_each_total [of qs f s, OF assms] ast_conj_total by fastforce

lemma encode_tag_op_total:
  assumes en: "\<And>n. \<exists>a. en n = Ok a" and ev: "\<And>v. \<exists>a. ev v = Ok a"
  shows "\<exists>r t. encode_tag_op (TagAstEncoder en ev) op n v neg s = Ok (r, t)"
proof -
  obtain a b where "en (tag_name_str n) = Ok a" "ev v = Ok b" using en ev by blast
  then show ?thesis
    by (simp add: encode_tag_op_def Let_def sql_encode_name_def sql_encode_value_def ast_op_clause_def)
qed

lemma encode_tag_query_total:
  assumes en: "\<And>n. \<exists>a. en n = Ok a" and ev: "\<And>v. \<exists>a. ev v = Ok a"
  shows "\<exists>r t. encode_tag_query (TagAstEncoder en ev) q neg s = Ok (r, t)"
proof (induction q arbitrary: neg s)
  case (And qs)
  show ?case unfolding encode_tag_query.simps TagAstEncoder_simps
    by (rule encode_conj_total) (rule And.IH)
next
  case (Or qs)
  show ?case unfolding encode_tag_query.simps TagAstEncoder_simps
    by (rule encode_conj_total) (rule Or.IH)
next
  case (In n vs)
  obtain a where "en (tag_name_str n) = Ok a" using en by blast
  moreover obtain as t where "encode_values (TagAstEncoder en ev) (is_plaintext n) vs s = Ok (as, t)"
    using encode_values_total [of ev en "is_plaintext n" vs s] ev by blast
  ultimately show ?case
    by (simp add: encode_tag_in_def sql_encode_name_def ast_in_clause_def)
next
  case (Exist ns)
  have one: "\<exists>r t. encode_tag_exist_one (TagAstEncoder en ev) neg n s = Ok (r, t)" for n s
  proof -
    obtain a where "en (tag_name_str n) = Ok a" using en by blast
    then show ?thesis
      by (simp add: encode_tag_exist_one_def sql_encode_name_def ast_exist_clause_def)
  qed
  then have "\<exists>r t. res_bind (encode_each (encode_tag_exist_one (TagAstEncoder en ev) neg) ns s)
      (\<lambda>(cs, s). ast_conj_clause s CAnd cs) = Ok (r, t)"
    by (rule encode_conj_total)
  with one show ?case
    by (cases ns rule: remdups_adj.cases) (simp_all add: encode_tag_exist_def del: encode_each.simps)
next
  case (NotQ q)
  then show ?case by simp
qed (simp_all add: encode_tag_op_total [of en ev] en ev)

lemma encode_query_total:
  assumes "\<And>n. \<exists>a. en n = Ok a" and "\<And>v. \<exists>a. ev v = Ok a"
  shows "\<exists>r t. encode_query (TagSqlEncoder en ev) q s = Ok (r, t)"
proof -
  obtain r t where "encode_tag_query (TagAstEncoder en ev) q False s = Ok (r, t)"
    using encode_tag_query_total [of en ev q False s] assms by blast
  then show ?thesis by (simp add: encode_query_def encode_tag_query_text)
qed

text \<open>
  C7. Wherever the encoding is exact, the text that the SQL encoder returns for a query is the
  text of a condition that selects, with the returned arguments, exactly the items whose tag rows
  satisfy the query; when no text is returned, every item satisfies it.
\<close>

theorem sql_encode_query_correct:
  assumes "encode_query (TagSqlEncoder en ev) q [] = Ok (r, args)" and "encode_exact False q"
  shows "\<exists>c. r = map_option clause_text c \<and>
    (\<forall>like rows. filter_holds like rows args c = rows_satisfy en ev like rows q)"
  using encode_query_ast [OF assms(1)] ast_filter_holds [OF _ assms(2)] by blast

theorem sql_encode_query_correct_witness:
  "\<exists>r args. encode_query (TagSqlEncoder (\<lambda>n. Ok (as_bytes n)) (\<lambda>v. Ok (as_bytes v)))
      (Or [Eq (Encrypted ''enctag'') ''noncenonce12encval'', NotQ (Exist [Plaintext ''p''])]) [] = Ok (r, args) \<and>
    (\<exists>c. r = map_option clause_text c \<and>
      (\<forall>like rows. filter_holds like rows args c =
        rows_satisfy (\<lambda>n. Ok (as_bytes n)) (\<lambda>v. Ok (as_bytes v)) like rows
          (Or [Eq (Encrypted ''enctag'') ''noncenonce12encval'', NotQ (Exist [Plaintext ''p''])])))"
proof -
  let ?q = "Or [Eq (Encrypted ''enctag'') ''noncenonce12encval'', NotQ (Exist [Plaintext ''p''])]"
  let ?e = "TagSqlEncoder (\<lambda>n. Ok (as_bytes n)) (\<lambda>v. Ok (as_bytes v))"
  obtain r args where e: "encode_query ?e ?q [] = Ok (r, args)"
    using encode_query_total [of "\<lambda>n. Ok (as_bytes n)" "\<lambda>v. Ok (as_bytes v)" ?q "[]"] by auto
  then show ?thesis using sql_encode_query_correct [OF e] by auto
qed

text \<open>
  The condition refers to each argument of the returned list exactly once, and in the order of
  the list; when there is no condition there are no arguments.
\<close>

theorem sql_encode_query_arguments:
  assumes "encode_query (TagSqlEncoder en ev) q [] = Ok (r, args)"
  shows "\<exists>c. r = map_option clause_text c \<and>
    (case c of None \<Rightarrow> args = [] | Some c \<Rightarrow> clause_refs c = [0..<length args])"
  using encode_query_ast [OF assms] encode_tag_query_laid_out [of en ev q False "[]" _ args]
  unfolding laid_out_def list.size(3) by blast

theorem sql_encode_query_arguments_witness:
  "\<exists>r args. encode_query (TagSqlEncoder (\<lambda>n. Ok (as_bytes n)) (\<lambda>v. Ok (as_bytes v)))
      (In (Encrypted ''a'') [''1'', ''2'']) [] = Ok (r, args) \<and>
    (\<exists>c. r = map_option clause_text c \<and>
      (case c of None \<Rightarrow> args = [] | Some c \<Rightarrow> clause_refs c = [0..<length args]))"
proof -
  let ?e = "TagSqlEncoder (\<lambda>n. Ok (as_bytes n)) (\<lambda>v. Ok (as_bytes v))"
  obtain r args where e: "encode_query ?e (In (Encrypted ''a'') [''1'', ''2'']) [] = Ok (r, args)"
    using encode_query_total [of "\<lambda>n. Ok (as_bytes n)" "\<lambda>v. Ok (as_bytes v)"
      "In (Encrypted ''a'') [''1'', ''2'']" "[]"] by auto
  then show ?thesis using sql_encode_query_arguments [OF e] by auto
qed

text \<open>
  The negation of an existence test on two tags is not the negation: both clauses are negated
  but still joined by AND, so an item that has only the first tag is not selected, although it
  does not have both.
\<close>

theorem negated_exist_not_negation:
  fixes like :: "bytes \<Rightarrow> bytes \<Rightarrow> bool"
  defines "enc \<equiv> \<lambda>s. Ok (as_bytes s) :: bytes storage_result"
    and "row \<equiv> \<lparr>enc_tag_name = as_bytes ''a'', enc_tag_value = as_bytes ''1'', enc_tag_plaintext = False\<rparr>"
    and "q \<equiv> NotQ (Exist [Encrypted ''a'', Encrypted ''b''])"
  shows "\<exists>c args. encode_query (TagSqlEncoder enc enc) q [] = Ok (Some (clause_text c), args) \<and>
    \<not> filter_holds like [row] args (Some c) \<and> rows_satisfy enc enc like [row] q"
proof (intro exI conjI)
  let ?c = "SqlConj CAnd [SqlExist True 0 False, SqlExist True 1 False]"
  let ?args = "[as_bytes ''a'', as_bytes ''b'']"
  have "encode_tag_query (TagAstEncoder enc enc) q False [] = Ok (Some ?c, ?args)"
    by (simp add: enc_def q_def encode_tag_exist_def encode_tag_exist_one_def sql_encode_name_def
        ast_exist_clause_def ast_conj_clause_def)
  then show "encode_query (TagSqlEncoder enc enc) q [] = Ok (Some (clause_text ?c), ?args)"
    by (simp add: encode_query_def encode_tag_query_text)
  show "\<not> filter_holds like [row] ?args (Some ?c)"
    by (simp add: filter_holds_def row_def)
  show "rows_satisfy enc enc like [row] q"
    by (simp add: rows_satisfy_def q_def row_def row_exist_match_def arg_name_def enc_def)
qed

text \<open>
  An always-true part of a disjunction is dropped: \<open>Or [And [], Eq n v]\<close> encodes to the
  condition of its second part alone.
\<close>

theorem or_drops_true_part:
  "encode_query (TagSqlEncoder en ev) (Or [And [], Eq n v]) s =
     encode_query (TagSqlEncoder en ev) (Eq n v) s \<and>
   rows_satisfy en ev like rows (Or [And [], Eq n v])"
  by (cases "encode_tag_op (TagSqlEncoder en ev) CEq n v False s")
     (auto simp: encode_query_def sql_conj_clause_def rows_satisfy_def encode_tag_op_def Let_def
       result_simps sql_op_clause_def split: option.splits)

end
