(* ===== verification/Crypto_Buffer.thy ===== *)
theory Crypto_Buffer
  imports Askar_Error
begin

text \<open>
  The byte buffers of \<open>askar-crypto/src/buffer\<close>: the traits \<open>WriteBuffer\<close> and \<open>ResizeBuffer\<close>
  as a record of operations with a contract, their implementations on vectors, on writers over a
  vector and on writers over a fixed slice, the memory management of \<open>SecretBytes\<close>, and the hex
  representation. A length is a natural number: the source's \<open>usize\<close> sums stay far below its range.
\<close>

section \<open>Slices\<close>

definition exceeded_buffer :: "'a crypto_result" where
  "exceeded_buffer = Err (err_of_kind crypto_kind.ExceededBuffer)"

text \<open>\<open>slice[i..j]\<close>: panics unless \<open>i <= j <= len\<close>.\<close>

definition slice :: "nat \<Rightarrow> nat \<Rightarrow> 'a list \<Rightarrow> ('a list, 'e) result" where
  "slice i j xs = (if i \<le> j \<and> j \<le> length xs then Ok (take (j - i) (drop i xs)) else Panic)"

text \<open>\<open>slice::copy_within(i..j, dest)\<close>.\<close>

definition copy_within :: "nat \<Rightarrow> nat \<Rightarrow> nat \<Rightarrow> 'a list \<Rightarrow> ('a list, 'e) result" where
  "copy_within i j dest xs =
     (if i \<le> j \<and> j \<le> length xs \<and> dest + (j - i) \<le> length xs
      then Ok (take dest xs @ take (j - i) (drop i xs) @ drop (dest + (j - i)) xs)
      else Panic)"

text \<open>Storing a slice at a position, as \<open>copy_from_slice\<close> or the loop of \<open>splice\<close> do.\<close>

definition store_at :: "nat \<Rightarrow> 'a list \<Rightarrow> 'a list \<Rightarrow> ('a list, 'e) result" where
  "store_at p data xs =
     (if p + length data \<le> length xs then Ok (take p xs @ data @ drop (p + length data) xs) else Panic)"

lemma copy_within_Ok [simp]:
  "i \<le> j \<Longrightarrow> j \<le> length xs \<Longrightarrow> dest + (j - i) \<le> length xs \<Longrightarrow>
   copy_within i j dest xs = Ok (take dest xs @ take (j - i) (drop i xs) @ drop (dest + (j - i)) xs)"
  by (simp add: copy_within_def)

lemma store_at_Ok [simp]:
  "p + length data \<le> length xs \<Longrightarrow> store_at p data xs = Ok (take p xs @ data @ drop (p + length data) xs)"
  by (simp add: store_at_def)

section \<open>The buffer traits\<close>

text \<open>
  \<open>WriteBuffer\<close> and \<open>ResizeBuffer\<close>. \<open>buf_as_mut\<close> stores through the slice that \<open>as_mut\<close>
  returns, which keeps the length.
\<close>

record 'b buffer_ops =
  buf_as_ref :: "'b \<Rightarrow> bytes"
  buf_as_mut :: "bytes \<Rightarrow> 'b \<Rightarrow> 'b"
  buffer_write :: "bytes \<Rightarrow> 'b \<Rightarrow> 'b crypto_result"
  buffer_insert :: "nat \<Rightarrow> bytes \<Rightarrow> 'b \<Rightarrow> 'b crypto_result"
  buffer_remove :: "nat \<Rightarrow> nat \<Rightarrow> 'b \<Rightarrow> 'b crypto_result"
  buffer_resize :: "nat \<Rightarrow> 'b \<Rightarrow> 'b crypto_result"

text \<open>
  \<open>ResizeBuffer::buffer_extend\<close>: the extended buffer and the range of the new bytes, through
  which the caller writes.
\<close>

definition buffer_extend :: "'b buffer_ops \<Rightarrow> nat \<Rightarrow> 'b \<Rightarrow> ('b \<times> nat \<times> nat) crypto_result" where
  "buffer_extend B len b =
     (let pos = length (buf_as_ref B b); end = pos + len in
      res_bind (buffer_resize B end b) (\<lambda>b.
      res_bind (slice pos end (buf_as_ref B b)) (\<lambda>_. Ok (b, pos, end))))"

text \<open>What the documentation of \<open>buffer_resize\<close> says: truncate, or pad with zeroes.\<close>

definition resized :: "nat \<Rightarrow> bytes \<Rightarrow> bytes" where
  "resized n xs = take n xs @ replicate (n - length xs) 0"

lemma length_resized [simp]: "length (resized n xs) = n"
  by (auto simp: resized_def)

lemma resized_shrink: "n \<le> length xs \<Longrightarrow> resized n xs = take n xs"
  by (simp add: resized_def)

lemma drop_resized: "p \<le> length xs \<Longrightarrow> drop p (resized (p + n) xs) = resized n (drop p xs)"
proof -
  assume p: "p \<le> length xs"
  then have "p - min (length xs) (p + n) = 0" "p + n - length xs = n - (length xs - p)" by auto
  with p show ?thesis by (simp add: resized_def drop_take)
qed

text \<open>
  The contract of a buffer: an operation on a valid position either succeeds with the documented
  contents, or reports that the buffer is full.
\<close>

locale resize_buffer =
  fixes B :: "'b buffer_ops" and valid :: "'b \<Rightarrow> bool"
  assumes as_mut_law: "valid b \<Longrightarrow> length xs = length (buf_as_ref B b) \<Longrightarrow>
      valid (buf_as_mut B xs b) \<and> buf_as_ref B (buf_as_mut B xs b) = xs"
    and write_law: "valid b \<Longrightarrow> buffer_write B data b = exceeded_buffer \<or>
      (\<exists>b'. buffer_write B data b = Ok b' \<and> valid b' \<and> buf_as_ref B b' = buf_as_ref B b @ data)"
    and insert_law: "valid b \<Longrightarrow> pos \<le> length (buf_as_ref B b) \<Longrightarrow>
      buffer_insert B pos data b = exceeded_buffer \<or>
      (\<exists>b'. buffer_insert B pos data b = Ok b' \<and> valid b' \<and>
        buf_as_ref B b' = take pos (buf_as_ref B b) @ data @ drop pos (buf_as_ref B b))"
    and remove_law: "valid b \<Longrightarrow> i \<le> j \<Longrightarrow> j \<le> length (buf_as_ref B b) \<Longrightarrow>
      \<exists>b'. buffer_remove B i j b = Ok b' \<and> valid b' \<and>
        buf_as_ref B b' = take i (buf_as_ref B b) @ drop j (buf_as_ref B b)"
    and resize_law: "valid b \<Longrightarrow> buffer_resize B n b = exceeded_buffer \<or>
      (\<exists>b'. buffer_resize B n b = Ok b' \<and> valid b' \<and> buf_as_ref B b' = resized n (buf_as_ref B b))"
    and shrink_law: "valid b \<Longrightarrow> n \<le> length (buf_as_ref B b) \<Longrightarrow> buffer_resize B n b \<noteq> exceeded_buffer"
begin

lemma write_OkD:
  assumes "valid b" "buffer_write B data b = Ok b'"
  shows "valid b' \<and> buf_as_ref B b' = buf_as_ref B b @ data"
  using write_law [OF assms(1), of data] assms(2) by (auto simp: exceeded_buffer_def)

lemma insert_OkD:
  assumes "valid b" "buffer_insert B pos data b = Ok b'" "pos \<le> length (buf_as_ref B b)"
  shows "valid b' \<and> buf_as_ref B b' = take pos (buf_as_ref B b) @ data @ drop pos (buf_as_ref B b)"
  using insert_law [OF assms(1,3), of data] assms(2) by (auto simp: exceeded_buffer_def)

lemma resize_OkD:
  assumes "valid b" "buffer_resize B n b = Ok b'"
  shows "valid b' \<and> buf_as_ref B b' = resized n (buf_as_ref B b)"
  using resize_law [OF assms(1), of n] assms(2) by (auto simp: exceeded_buffer_def)

lemma resize_shrink:
  assumes "valid b" "n \<le> length (buf_as_ref B b)"
  shows "\<exists>b'. buffer_resize B n b = Ok b' \<and> valid b' \<and> buf_as_ref B b' = take n (buf_as_ref B b)"
  using resize_law [OF assms(1), of n] shrink_law [OF assms] assms(2) by (auto simp: resized_shrink)

text \<open>Extending appends zeroes and returns their range.\<close>

lemma extend_appends_zeroes:
  assumes "valid b"
  shows "buffer_extend B len b = exceeded_buffer \<or>
    (\<exists>b'. buffer_extend B len b = Ok (b', length (buf_as_ref B b), length (buf_as_ref B b) + len)
      \<and> valid b' \<and> buf_as_ref B b' = buf_as_ref B b @ replicate len 0)"
  using resize_law [OF assms, of "length (buf_as_ref B b) + len"]
  by (auto simp: buffer_extend_def Let_def exceeded_buffer_def slice_def resized_def)

end

section \<open>Vectors\<close>

text \<open>\<open>Vec<u8>\<close>, and the contents of \<open>SecretBytes\<close>.\<close>

definition vec_insert :: "nat \<Rightarrow> bytes \<Rightarrow> bytes \<Rightarrow> bytes crypto_result" where
  "vec_insert pos data b = (if pos \<le> length b then Ok (take pos b @ data @ drop pos b) else Panic)"

definition vec_remove :: "nat \<Rightarrow> nat \<Rightarrow> bytes \<Rightarrow> bytes crypto_result" where
  "vec_remove i j b = (if i \<le> j \<and> j \<le> length b then Ok (take i b @ drop j b) else Panic)"

definition vec_buffer :: "bytes buffer_ops" where
  "vec_buffer = \<lparr>buf_as_ref = (\<lambda>b. b), buf_as_mut = (\<lambda>xs b. xs),
     buffer_write = (\<lambda>data b. Ok (b @ data)), buffer_insert = vec_insert,
     buffer_remove = vec_remove, buffer_resize = (\<lambda>n b. Ok (resized n b))\<rparr>"

lemma vec_buffer_simps [simp]:
  "buf_as_ref vec_buffer b = b" "buf_as_mut vec_buffer xs b = xs"
  "buffer_write vec_buffer data b = Ok (b @ data)" "buffer_insert vec_buffer = vec_insert"
  "buffer_remove vec_buffer = vec_remove" "buffer_resize vec_buffer n b = Ok (resized n b)"
  by (simp_all add: vec_buffer_def)

interpretation vec: resize_buffer vec_buffer "\<lambda>_. True"
  by unfold_locales (auto simp: vec_insert_def vec_remove_def exceeded_buffer_def)

section \<open>Writers over a resizable buffer\<close>

text \<open>
  \<open>Writer<'_, B>\<close>: the operations on the contents of \<open>inner\<close> from a fixed position on.
\<close>

record 'b buffer_writer =
  writer_inner :: 'b
  writer_pos :: nat

definition writer_buffer :: "'b buffer_ops \<Rightarrow> 'b buffer_writer buffer_ops" where
  "writer_buffer B = \<lparr>
     buf_as_ref = (\<lambda>w. drop (writer_pos w) (buf_as_ref B (writer_inner w))),
     buf_as_mut = (\<lambda>xs w. w\<lparr>writer_inner :=
        buf_as_mut B (take (writer_pos w) (buf_as_ref B (writer_inner w)) @ xs) (writer_inner w)\<rparr>),
     buffer_write = (\<lambda>data w. res_map (\<lambda>b. w\<lparr>writer_inner := b\<rparr>) (buffer_write B data (writer_inner w))),
     buffer_insert = (\<lambda>pos data w. res_map (\<lambda>b. w\<lparr>writer_inner := b\<rparr>)
        (buffer_insert B (writer_pos w + pos) data (writer_inner w))),
     buffer_remove = (\<lambda>i j w. res_map (\<lambda>b. w\<lparr>writer_inner := b\<rparr>)
        (buffer_remove B (writer_pos w + i) (writer_pos w + j) (writer_inner w))),
     buffer_resize = (\<lambda>n w. res_map (\<lambda>b. w\<lparr>writer_inner := b\<rparr>)
        (buffer_resize B (writer_pos w + n) (writer_inner w)))\<rparr>"

context resize_buffer
begin

text \<open>A writer over a buffer that keeps the contract keeps it too.\<close>

lemma writer_resize_buffer:
  "resize_buffer (writer_buffer B)
     (\<lambda>w. valid (writer_inner w) \<and> writer_pos w \<le> length (buf_as_ref B (writer_inner w)))"
proof (unfold_locales, goal_cases)
  case (1 w xs)
  then show ?case
    using as_mut_law [of "writer_inner w" "take (writer_pos w) (buf_as_ref B (writer_inner w)) @ xs"]
    by (simp add: writer_buffer_def)
next
  case (2 w data)
  then show ?case
    using write_law [of "writer_inner w" data]
    by (auto simp: writer_buffer_def exceeded_buffer_def)
next
  case (3 w pos data)
  then have "writer_pos w + pos \<le> length (buf_as_ref B (writer_inner w))"
    by (auto simp: writer_buffer_def)
  then show ?case
    using 3(1) insert_law [of "writer_inner w" "writer_pos w + pos" data]
    by (auto simp: writer_buffer_def exceeded_buffer_def add.commute take_drop)
next
  case (4 w i j)
  then have "writer_pos w + j \<le> length (buf_as_ref B (writer_inner w))"
    by (auto simp: writer_buffer_def)
  then show ?case
    using 4(1,2) remove_law [of "writer_inner w" "writer_pos w + i" "writer_pos w + j"]
    by (auto simp: writer_buffer_def add.commute take_drop)
next
  case (5 w n)
  then show ?case
    using resize_law [of "writer_inner w" "writer_pos w + n"]
    by (auto simp: writer_buffer_def exceeded_buffer_def drop_resized)
next
  case (6 w n)
  then have "writer_pos w + n \<le> length (buf_as_ref B (writer_inner w))"
    by (auto simp: writer_buffer_def)
  with 6(1) obtain b' where "buffer_resize B (writer_pos w + n) (writer_inner w) = Ok b'"
    using resize_shrink by blast
  then show ?case by (simp add: writer_buffer_def exceeded_buffer_def)
qed

end

interpretation vec_writer: resize_buffer "writer_buffer vec_buffer"
  "\<lambda>w. True \<and> writer_pos w \<le> length (buf_as_ref vec_buffer (writer_inner w))"
  by (rule vec.writer_resize_buffer)

section \<open>Writers over a fixed slice\<close>

text \<open>\<open>Writer<'_, [u8]>\<close>: a slice of fixed length and the number of bytes written.\<close>

record slice_writer =
  slice_inner :: bytes
  slice_pos :: nat

definition writer_from_slice :: "bytes \<Rightarrow> slice_writer" where
  "writer_from_slice s = \<lparr>slice_inner = s, slice_pos = 0\<rparr>"

definition writer_from_slice_position :: "bytes \<Rightarrow> nat \<Rightarrow> slice_writer" where
  "writer_from_slice_position s p = \<lparr>slice_inner = s, slice_pos = p\<rparr>"

definition writer_as_ref :: "slice_writer \<Rightarrow> bytes" where
  "writer_as_ref w = take (slice_pos w) (slice_inner w)"

definition slice_write :: "bytes \<Rightarrow> slice_writer \<Rightarrow> slice_writer crypto_result" where
  "slice_write data w =
     (let total = length (slice_inner w); end = slice_pos w + length data in
      if total < end then exceeded_buffer
      else res_map (\<lambda>s. \<lparr>slice_inner = s, slice_pos = end\<rparr>) (store_at (slice_pos w) data (slice_inner w)))"

text \<open>
  \<open>Writer::splice\<close>. Growing shifts the tail by copying from \<open>range.end - diff\<close>; when the
  subtraction underflows, or the range it starts is empty the wrong way around, the code panics.
\<close>

definition slice_splice :: "nat \<Rightarrow> nat \<Rightarrow> bytes \<Rightarrow> slice_writer \<Rightarrow> slice_writer crypto_result" where
  "slice_splice i j data w =
     (if j < i then Panic
      else
        (let rem_len = j - i; ins_len = length data in
         res_bind
           (if rem_len < ins_len then
              (let diff = ins_len - rem_len in
               if length (slice_inner w) < slice_pos w + diff then exceeded_buffer
               else if j < diff then Panic
               else res_map (\<lambda>s. \<lparr>slice_inner = s, slice_pos = slice_pos w + diff\<rparr>)
                 (copy_within (j - diff) (slice_pos w) j (slice_inner w)))
            else if ins_len < rem_len then
              (let diff = rem_len - ins_len in
               res_bind (copy_within j (slice_pos w) (j - diff) (slice_inner w)) (\<lambda>s.
               if slice_pos w < diff then Panic
               else Ok \<lparr>slice_inner = s, slice_pos = slice_pos w - diff\<rparr>))
            else Ok w)
           (\<lambda>w. res_map (\<lambda>s. w\<lparr>slice_inner := s\<rparr>) (store_at i data (slice_inner w)))))"

definition slice_insert :: "nat \<Rightarrow> bytes \<Rightarrow> slice_writer \<Rightarrow> slice_writer crypto_result" where
  "slice_insert pos data w = slice_splice pos pos data w"

definition slice_remove :: "nat \<Rightarrow> nat \<Rightarrow> slice_writer \<Rightarrow> slice_writer crypto_result" where
  "slice_remove i j w =
     (if j < i then Panic
      else res_bind (copy_within j (slice_pos w) i (slice_inner w)) (\<lambda>s.
        if slice_pos w < j - i then Panic
        else Ok \<lparr>slice_inner = s, slice_pos = slice_pos w - (j - i)\<rparr>))"

definition slice_resize :: "nat \<Rightarrow> slice_writer \<Rightarrow> slice_writer crypto_result" where
  "slice_resize len w =
     (let len = slice_pos w + len in
      if length (slice_inner w) < len then exceeded_buffer else Ok (w\<lparr>slice_pos := len\<rparr>))"

definition slice_buffer :: "slice_writer buffer_ops" where
  "slice_buffer = \<lparr>buf_as_ref = writer_as_ref,
     buf_as_mut = (\<lambda>xs w. w\<lparr>slice_inner := xs @ drop (slice_pos w) (slice_inner w)\<rparr>),
     buffer_write = slice_write, buffer_insert = slice_insert,
     buffer_remove = slice_remove, buffer_resize = slice_resize\<rparr>"

definition slice_writer_wf :: "slice_writer \<Rightarrow> bool" where
  "slice_writer_wf w \<longleftrightarrow> slice_pos w \<le> length (slice_inner w)"

lemma slice_write_spec:
  assumes "slice_writer_wf w"
  shows "slice_write data w =
    (if length (slice_inner w) < slice_pos w + length data then exceeded_buffer
     else Ok \<lparr>slice_inner = writer_as_ref w @ data @ drop (slice_pos w + length data) (slice_inner w),
              slice_pos = slice_pos w + length data\<rparr>)"
  using assms by (simp add: slice_write_def Let_def slice_writer_wf_def writer_as_ref_def)

lemma slice_write_OkD:
  assumes "slice_writer_wf w" "slice_write data w = Ok w'"
  shows "slice_writer_wf w' \<and> writer_as_ref w' = writer_as_ref w @ data
    \<and> length (slice_inner w') = length (slice_inner w)"
  using assms
  by (auto simp: slice_write_spec exceeded_buffer_def slice_writer_wf_def writer_as_ref_def split: if_splits)

lemma slice_remove_OkD:
  assumes "slice_writer_wf w" "i \<le> j" "j \<le> slice_pos w"
  shows "\<exists>w'. slice_remove i j w = Ok w' \<and> slice_writer_wf w' \<and>
    writer_as_ref w' = take i (writer_as_ref w) @ drop j (writer_as_ref w)"
proof -
  let ?s = "slice_inner w" and ?p = "slice_pos w"
  have "\<not> ?p < j - i" "i + (?p - j) = ?p - (j - i)" using assms by auto
  with assms have "slice_remove i j w =
      Ok \<lparr>slice_inner = take i ?s @ take (?p - j) (drop j ?s) @ drop (?p - (j - i)) ?s,
          slice_pos = ?p - (j - i)\<rparr>" (is "_ = Ok ?w")
    by (simp add: slice_remove_def slice_writer_wf_def)
  moreover have "length (take i ?s @ take (?p - j) (drop j ?s)) = ?p - (j - i)"
    using assms by (simp add: slice_writer_wf_def)
  then have "writer_as_ref ?w = take i ?s @ take (?p - j) (drop j ?s)"
    unfolding writer_as_ref_def slice_writer.simps append_assoc [symmetric]
    by (metis append_eq_conv_conj)
  moreover have "slice_writer_wf ?w" using assms by (simp add: slice_writer_wf_def)
  ultimately show ?thesis using assms by (simp add: writer_as_ref_def drop_take min_absorb1)
qed

text \<open>
  Inserting into a writer over a fixed slice, at a position within the written bytes and with
  room for the data: the tail is shifted and the data put in place when the position is at least
  the length of the data, and the code panics otherwise (an insertion at the front always does).
\<close>

theorem slice_insert_behaviour:
  assumes "pos \<le> slice_pos w" and "slice_pos w + length data \<le> length (slice_inner w)" and "data \<noteq> []"
  shows "(length data \<le> pos \<longrightarrow> (\<exists>w'. slice_insert pos data w = Ok w' \<and>
            writer_as_ref w' = take pos (writer_as_ref w) @ data @ drop pos (writer_as_ref w)))
       \<and> (pos < length data \<longrightarrow> slice_insert pos data w = Panic)"
proof (intro conjI impI)
  assume le: "length data \<le> pos"
  let ?s = "slice_inner w" and ?p = "slice_pos w" and ?n = "length data"
  have cw: "(copy_within (pos - ?n) ?p pos ?s :: bytes crypto_result) =
      Ok (take pos ?s @ take (?p - (pos - ?n)) (drop (pos - ?n) ?s) @ drop (?p + ?n) ?s)"
    using assms le by (simp add: copy_within_def)
  let ?t = "take pos ?s @ take (?p - (pos - ?n)) (drop (pos - ?n) ?s) @ drop (?p + ?n) ?s"
  have st: "(store_at pos data ?t :: bytes crypto_result) =
      Ok (take pos ?s @ data @ drop ?n (take (?p - (pos - ?n)) (drop (pos - ?n) ?s)) @ drop (?p + ?n) ?s)"
    using assms le by (simp add: store_at_def)
  have tl: "drop ?n (take (?p - (pos - ?n)) (drop (pos - ?n) ?s)) = drop pos (take ?p ?s)"
    using assms le by (simp add: drop_take add.commute)
  have "slice_insert pos data w = Ok (w\<lparr>slice_inner := take pos ?s @ data @ drop pos (take ?p ?s)
      @ drop (?p + ?n) ?s, slice_pos := ?p + ?n\<rparr>)"
    using assms le cw st tl by (simp add: slice_insert_def slice_splice_def Let_def)
  then show "\<exists>w'. slice_insert pos data w = Ok w' \<and>
      writer_as_ref w' = take pos (writer_as_ref w) @ data @ drop pos (writer_as_ref w)"
    using assms le by (simp add: writer_as_ref_def min_absorb1 min_absorb2)
next
  assume "pos < length data"
  then show "slice_insert pos data w = Panic"
    using assms by (simp add: slice_insert_def slice_splice_def Let_def)
qed

theorem slice_insert_behaviour_witness:
  "(\<exists>w'. slice_insert 1 [9] \<lparr>slice_inner = [1, 2, 0], slice_pos = 2\<rparr> = Ok w' \<and> writer_as_ref w' = [1, 9, 2]) \<and>
    slice_insert 0 [9] \<lparr>slice_inner = [1, 2, 0], slice_pos = 2\<rparr> = Panic"
  using slice_insert_behaviour [of 1 "\<lparr>slice_inner = [1, 2, 0], slice_pos = 2\<rparr>" "[9]"]
    slice_insert_behaviour [of 0 "\<lparr>slice_inner = [1, 2, 0], slice_pos = 2\<rparr>" "[9]"]
  by (simp add: writer_as_ref_def)

text \<open>
  Resizing a writer over a fixed slice to \<open>n\<close> bytes leaves \<open>slice_pos + n\<close> bytes, whatever
  they were: it neither truncates nor pads, so the writer does not keep the buffer contract.
\<close>

theorem slice_resize_adds:
  assumes "slice_writer_wf w" and "slice_pos w + n \<le> length (slice_inner w)"
  shows "(\<exists>w'. slice_resize n w = Ok w' \<and>
      writer_as_ref w' = writer_as_ref w @ take n (drop (slice_pos w) (slice_inner w))) \<and>
    \<not> resize_buffer slice_buffer slice_writer_wf"
proof
  show "\<exists>w'. slice_resize n w = Ok w' \<and>
      writer_as_ref w' = writer_as_ref w @ take n (drop (slice_pos w) (slice_inner w))"
    using assms by (simp add: slice_resize_def slice_writer_wf_def writer_as_ref_def take_add)
  show "\<not> resize_buffer slice_buffer slice_writer_wf"
  proof
    assume "resize_buffer slice_buffer slice_writer_wf"
    then have "buffer_resize slice_buffer 0 \<lparr>slice_inner = [1], slice_pos = 1\<rparr> = exceeded_buffer \<or>
        (\<exists>b'. buffer_resize slice_buffer 0 \<lparr>slice_inner = [1], slice_pos = 1\<rparr> = Ok b' \<and>
          slice_writer_wf b' \<and> buf_as_ref slice_buffer b' =
            resized 0 (buf_as_ref slice_buffer \<lparr>slice_inner = [1], slice_pos = 1\<rparr>))"
      by (rule resize_buffer.resize_law) (simp add: slice_writer_wf_def)
    then show False
      by (auto simp: slice_buffer_def slice_resize_def writer_as_ref_def resized_def exceeded_buffer_def)
  qed
qed

theorem slice_resize_adds_witness:
  "(\<exists>w'. slice_resize 1 \<lparr>slice_inner = [1, 2, 3], slice_pos = 2\<rparr> = Ok w' \<and>
      writer_as_ref w' = writer_as_ref \<lparr>slice_inner = [1, 2, 3], slice_pos = 2\<rparr> @
        take 1 (drop (slice_pos \<lparr>slice_inner = [1, 2, 3], slice_pos = 2\<rparr>)
          (slice_inner \<lparr>slice_inner = [1, 2, 3], slice_pos = 2\<rparr>))) \<and>
    \<not> resize_buffer slice_buffer slice_writer_wf"
  by (rule slice_resize_adds) (simp_all add: slice_writer_wf_def)

section \<open>The memory of secret buffers\<close>

text \<open>
  A \<open>SecretBytes\<close> with the capacity of its allocation. \<open>alloc n\<close> is the capacity the allocator
  gives to a request for \<open>n\<close> bytes (at least \<open>n\<close>); \<open>moved\<close> records that the vector itself had to
  move its contents, which leaves a copy behind that is never zeroized. Allocating a new buffer
  and swapping it in does not: the old buffer is zeroized when it is dropped.
\<close>

record secret_mem =
  secret_data :: bytes
  secret_cap :: nat
  secret_moved :: bool

definition vec_reserve_to :: "(nat \<Rightarrow> nat) \<Rightarrow> nat \<Rightarrow> secret_mem \<Rightarrow> secret_mem" where
  "vec_reserve_to alloc n m =
     (if n \<le> secret_cap m then m
      else m\<lparr>secret_cap := alloc n, secret_moved := (secret_moved m \<or> secret_data m \<noteq> [])\<rparr>)"

definition with_capacity :: "(nat \<Rightarrow> nat) \<Rightarrow> nat \<Rightarrow> secret_mem" where
  "with_capacity alloc n = \<lparr>secret_data = [], secret_cap = (if n = 0 then 0 else alloc n), secret_moved = False\<rparr>"

definition ensure_capacity :: "(nat \<Rightarrow> nat) \<Rightarrow> nat \<Rightarrow> secret_mem \<Rightarrow> secret_mem" where
  "ensure_capacity alloc min_cap m =
     (let cap = secret_cap m in
      if cap = 0 then vec_reserve_to alloc (length (secret_data m) + min_cap) m
      else if cap \<le> min_cap then
        (let new_cap = max (max min_cap (cap * 2)) 32 in m\<lparr>secret_cap := alloc new_cap\<rparr>)
      else m)"

definition secret_reserve :: "(nat \<Rightarrow> nat) \<Rightarrow> nat \<Rightarrow> secret_mem \<Rightarrow> secret_mem" where
  "secret_reserve alloc extra m = ensure_capacity alloc (length (secret_data m) + extra) m"

text \<open>The vector's own operations, which grow it when the capacity does not suffice.\<close>

definition vec_set :: "(nat \<Rightarrow> nat) \<Rightarrow> bytes \<Rightarrow> secret_mem \<Rightarrow> secret_mem" where
  "vec_set alloc data m = (vec_reserve_to alloc (length data) m)\<lparr>secret_data := data\<rparr>"

definition secret_extend_from_slice :: "(nat \<Rightarrow> nat) \<Rightarrow> bytes \<Rightarrow> secret_mem \<Rightarrow> secret_mem" where
  "secret_extend_from_slice alloc data m =
     (let m = secret_reserve alloc (length data) m in vec_set alloc (secret_data m @ data) m)"

definition secret_splice :: "(nat \<Rightarrow> nat) \<Rightarrow> nat \<Rightarrow> nat \<Rightarrow> bytes \<Rightarrow> secret_mem \<Rightarrow> secret_mem crypto_result" where
  "secret_splice alloc i j data m =
     (if j < i then Panic
      else
        (let rem_len = j - i; ins_len = length data;
             m = (if rem_len < ins_len then secret_reserve alloc (ins_len - rem_len) m else m) in
         if length (secret_data m) < j then Panic
         else Ok (vec_set alloc (take i (secret_data m) @ data @ drop j (secret_data m)) m)))"

definition secret_buffer_remove :: "(nat \<Rightarrow> nat) \<Rightarrow> nat \<Rightarrow> nat \<Rightarrow> secret_mem \<Rightarrow> secret_mem crypto_result" where
  "secret_buffer_remove alloc i j m =
     (if i \<le> j \<and> j \<le> length (secret_data m)
      then Ok (vec_set alloc (take i (secret_data m) @ drop j (secret_data m)) m) else Panic)"

definition secret_buffer_resize :: "(nat \<Rightarrow> nat) \<Rightarrow> nat \<Rightarrow> secret_mem \<Rightarrow> secret_mem crypto_result" where
  "secret_buffer_resize alloc len m =
     (let m = ensure_capacity alloc len m in Ok (vec_set alloc (resized len (secret_data m)) m))"

definition secret_shrink_to_fit :: "(nat \<Rightarrow> nat) \<Rightarrow> secret_mem \<Rightarrow> secret_mem" where
  "secret_shrink_to_fit alloc m =
     (let len = length (secret_data m) in
      if len < secret_cap m then m\<lparr>secret_cap := (if len = 0 then 0 else alloc len)\<rparr> else m)"

definition secret_clear :: "secret_mem \<Rightarrow> secret_mem" where
  "secret_clear m = m\<lparr>secret_data := []\<rparr>"

definition secret_buffer :: "(nat \<Rightarrow> nat) \<Rightarrow> secret_mem buffer_ops" where
  "secret_buffer alloc = \<lparr>buf_as_ref = secret_data, buf_as_mut = (\<lambda>xs m. m\<lparr>secret_data := xs\<rparr>),
     buffer_write = (\<lambda>data m. Ok (secret_extend_from_slice alloc data m)),
     buffer_insert = (\<lambda>pos. secret_splice alloc pos pos),
     buffer_remove = secret_buffer_remove alloc, buffer_resize = secret_buffer_resize alloc\<rparr>"

text \<open>The data fits its allocation.\<close>

definition secret_wf :: "secret_mem \<Rightarrow> bool" where
  "secret_wf m \<longleftrightarrow> length (secret_data m) \<le> secret_cap m"

text \<open>The allocator's guarantee, as a total function: requests are never given less.\<close>

definition at_least :: "(nat \<Rightarrow> nat) \<Rightarrow> nat \<Rightarrow> nat" where
  "at_least f n = max n (f n)"

lemma at_least_ge [simp]: "n \<le> at_least f n"
  by (simp add: at_least_def)

lemma ensure_capacity_spec:
  assumes "secret_wf m"
  shows "secret_data (ensure_capacity (at_least f) n m) = secret_data m"
    and "n \<le> secret_cap (ensure_capacity (at_least f) n m)"
    and "secret_wf (ensure_capacity (at_least f) n m)"
    and "secret_moved (ensure_capacity (at_least f) n m) = secret_moved m"
  using assms at_least_ge [of "max (max n (secret_cap m * 2)) 32" f] at_least_ge [of n f]
  by (auto simp: ensure_capacity_def vec_reserve_to_def secret_wf_def Let_def simp del: at_least_ge)

lemma vec_set_spec:
  assumes "length data \<le> secret_cap m"
  shows "vec_set alloc data m = m\<lparr>secret_data := data\<rparr>"
  using assms by (simp add: vec_set_def vec_reserve_to_def)

text \<open>The result of an operation on secret memory: the new contents, with no copy left behind.\<close>

definition kept_secret :: "secret_mem \<Rightarrow> bytes \<Rightarrow> secret_mem \<Rightarrow> bool" where
  "kept_secret m data m' \<longleftrightarrow> secret_wf m' \<and> secret_data m' = data \<and> secret_moved m' = secret_moved m"

lemma set_after_ensure:
  assumes "secret_wf m" "length data \<le> n"
  shows "kept_secret m data (vec_set (at_least f) data (ensure_capacity (at_least f) n m))"
  using ensure_capacity_spec [OF assms(1), where f = f and n = n] assms(2)
  by (simp add: kept_secret_def vec_set_spec secret_wf_def)

lemma extend_kept:
  "secret_wf m \<Longrightarrow> kept_secret m (secret_data m @ data) (secret_extend_from_slice (at_least f) data m)"
  using set_after_ensure [of m "secret_data m @ data" "length (secret_data m) + length data" f]
    ensure_capacity_spec(1) [of m f "length (secret_data m) + length data"]
  by (simp add: secret_extend_from_slice_def secret_reserve_def Let_def)

lemma resize_kept:
  "secret_wf m \<Longrightarrow> \<exists>m'. secret_buffer_resize (at_least f) n m = Ok m' \<and> kept_secret m (resized n (secret_data m)) m'"
  using set_after_ensure [of m "resized n (secret_data m)" n f] ensure_capacity_spec(1) [of m f n]
  by (simp add: secret_buffer_resize_def Let_def)

lemma remove_kept:
  "secret_wf m \<Longrightarrow> i \<le> j \<Longrightarrow> j \<le> length (secret_data m) \<Longrightarrow>
   \<exists>m'. secret_buffer_remove (at_least f) i j m = Ok m' \<and>
     kept_secret m (take i (secret_data m) @ drop j (secret_data m)) m'"
  by (auto simp: secret_buffer_remove_def vec_set_spec kept_secret_def secret_wf_def)

lemma insert_kept:
  assumes "secret_wf m" "pos \<le> length (secret_data m)"
  shows "\<exists>m'. secret_splice (at_least f) pos pos data m = Ok m' \<and>
    kept_secret m (take pos (secret_data m) @ data @ drop pos (secret_data m)) m'"
proof (cases "data = []")
  case True
  with assms show ?thesis by (simp add: secret_splice_def vec_set_spec kept_secret_def secret_wf_def)
next
  case False
  let ?n = "length (secret_data m) + length data"
  have "kept_secret m (take pos (secret_data m) @ data @ drop pos (secret_data m))
      (vec_set (at_least f) (take pos (secret_data m) @ data @ drop pos (secret_data m))
        (ensure_capacity (at_least f) ?n m))"
    using assms by (intro set_after_ensure) auto
  with False assms ensure_capacity_spec(1) [OF assms(1), of f ?n] show ?thesis
    by (simp add: secret_splice_def secret_reserve_def Let_def)
qed

interpretation secret: resize_buffer "secret_buffer (at_least f)" secret_wf
proof (unfold_locales, goal_cases)
  case (1 m xs)
  then show ?case by (simp add: secret_buffer_def secret_wf_def)
next
  case (2 m data)
  then show ?case using extend_kept [of m] by (simp add: secret_buffer_def kept_secret_def)
next
  case (3 m pos data)
  then show ?case using insert_kept [of m pos] by (auto simp: secret_buffer_def kept_secret_def)
next
  case (4 m i j)
  then show ?case using remove_kept [of m i j] by (auto simp: secret_buffer_def kept_secret_def)
next
  case (5 m n)
  then show ?case using resize_kept [of m] by (auto simp: secret_buffer_def kept_secret_def)
next
  case (6 m n)
  then show ?case by (simp add: secret_buffer_def secret_buffer_resize_def Let_def exceeded_buffer_def)
qed

text \<open>
  C37. No operation of a secret buffer moves its contents without zeroizing the old copy: writing,
  inserting, removing and resizing all keep the data within an allocation that was made large
  enough beforehand, for every allocator, and have the documented contents as their result.
\<close>

theorem secret_buffer_never_moves:
  assumes "secret_wf m" and "pos \<le> length (secret_data m)" and "i \<le> j" and "j \<le> length (secret_data m)"
  shows "(\<exists>m'. buffer_write (secret_buffer (at_least f)) data m = Ok m'
            \<and> kept_secret m (secret_data m @ data) m')
       \<and> (\<exists>m'. buffer_insert (secret_buffer (at_least f)) pos data m = Ok m'
            \<and> kept_secret m (take pos (secret_data m) @ data @ drop pos (secret_data m)) m')
       \<and> (\<exists>m'. buffer_remove (secret_buffer (at_least f)) i j m = Ok m'
            \<and> kept_secret m (take i (secret_data m) @ drop j (secret_data m)) m')
       \<and> (\<exists>m'. buffer_resize (secret_buffer (at_least f)) n m = Ok m'
            \<and> kept_secret m (resized n (secret_data m)) m')"
  using extend_kept [OF assms(1)] insert_kept [OF assms(1,2)] remove_kept [OF assms(1,3,4)]
    resize_kept [OF assms(1)]
  by (simp add: secret_buffer_def)

theorem secret_buffer_never_moves_witness:
  "(\<exists>m'. buffer_write (secret_buffer (at_least id)) [5] \<lparr>secret_data = [1, 2], secret_cap = 2, secret_moved = False\<rparr> = Ok m'
      \<and> kept_secret \<lparr>secret_data = [1, 2], secret_cap = 2, secret_moved = False\<rparr> ([1, 2] @ [5]) m')"
  using secret_buffer_never_moves [of "\<lparr>secret_data = [1, 2], secret_cap = 2, secret_moved = False\<rparr>" 0 0 0 id "[5]"]
  by (simp add: secret_wf_def)

section \<open>Hexadecimal text\<close>

text \<open>\<open>Display for HexRepr\<close>: two lower-case digits per byte.\<close>

definition hex_digit :: "nat \<Rightarrow> char" where
  "hex_digit d = (if d < 10 then char_of (48 + d) else char_of (87 + d))"

definition hex_byte :: "byte \<Rightarrow> string" where
  "hex_byte b = [hex_digit (unat b div 16), hex_digit (unat b mod 16)]"

definition hex_repr :: "bytes \<Rightarrow> string" where
  "hex_repr bs = concat (map hex_byte bs)"

text \<open>
  \<open>PartialEq<[u8]> for HexRepr\<close>: every piece of text written is compared with the next bytes of
  the other value.
\<close>

fun cmp_write :: "string \<Rightarrow> bytes \<Rightarrow> bytes option" where
  "cmp_write [] rest = Some rest"
| "cmp_write (c # cs) rest =
     (case rest of [] \<Rightarrow> None | r # rs \<Rightarrow> if r = byte_of_char c then cmp_write cs rs else None)"

definition hex_repr_eq :: "bytes \<Rightarrow> bytes \<Rightarrow> bool" where
  "hex_repr_eq bs other \<longleftrightarrow> cmp_write (hex_repr bs) other \<noteq> None"

lemma cmp_write_eq_Some: "cmp_write cs xs = Some rest \<longleftrightarrow> xs = as_bytes cs @ rest"
  by (induction cs xs rule: cmp_write.induct) (auto simp: as_bytes_def split: list.splits)

text \<open>
  The comparison of a hexadecimal representation with text only looks at a prefix: it holds
  exactly when the text starts with the digits, whatever follows.
\<close>

theorem hex_repr_eq_prefix: "hex_repr_eq bs other \<longleftrightarrow> (\<exists>rest. other = as_bytes (hex_repr bs) @ rest)"
  by (auto simp: hex_repr_eq_def cmp_write_eq_Some)

end
