(* ===== verification/Crypto_Aead.thy ===== *)
theory Crypto_Aead
  imports Crypto_Buffer
begin

text \<open>
  In-place authenticated encryption over the resizable buffers: the ChaCha20-Poly1305 keys of
  \<open>askar-crypto/src/alg/chacha20.rs\<close>, the AES-GCM keys of \<open>alg/aes/mod.rs\<close> and the
  AES-CBC-HMAC keys of \<open>alg/aes/cbc_hmac.rs\<close>. The ciphers, the CBC mode with its padding and the
  MAC come from other crates: they are parameters, with what the code relies on as a named
  hypothesis.
\<close>

section \<open>Detached AEAD ciphers\<close>

text \<open>
  \<open>AeadInPlace\<close>: key, nonce, associated data and message to ciphertext and tag, and back.
\<close>

record aead_cipher =
  aead_key_size :: nat
  aead_nonce_size :: nat
  aead_tag_size :: nat
  encrypt_detached :: "bytes \<Rightarrow> bytes \<Rightarrow> bytes \<Rightarrow> bytes \<Rightarrow> (bytes \<times> bytes) option"
  decrypt_detached :: "bytes \<Rightarrow> bytes \<Rightarrow> bytes \<Rightarrow> bytes \<Rightarrow> bytes \<Rightarrow> bytes option"

text \<open>
  The documented behaviour: the ciphertext has the length of the message, the tag its fixed length,
  decryption keeps the length and undoes encryption.
\<close>

definition aead_correct :: "aead_cipher \<Rightarrow> bool" where
  "aead_correct A \<longleftrightarrow>
     (\<forall>k n a m c t. encrypt_detached A k n a m = Some (c, t) \<longrightarrow>
        length c = length m \<and> length t = aead_tag_size A \<and> decrypt_detached A k n a c t = Some m) \<and>
     (\<forall>k n a m c t. decrypt_detached A k n a c t = Some m \<longrightarrow> length m = length c)"

lemma aead_correct_encryptD:
  "aead_correct A \<Longrightarrow> encrypt_detached A k n a m = Some (c, t) \<Longrightarrow>
   length c = length m \<and> length t = aead_tag_size A \<and> decrypt_detached A k n a c t = Some m"
  unfolding aead_correct_def by blast

lemma aead_correct_decryptD:
  "aead_correct A \<Longrightarrow> decrypt_detached A k n a c t = Some m \<Longrightarrow> length m = length c"
  unfolding aead_correct_def by blast

definition invalid_nonce :: "'a crypto_result" where
  "invalid_nonce = Err (err_of_kind crypto_kind.InvalidNonce)"

text \<open>\<open>KeySecretBytes::from_secret_bytes\<close> of the symmetric key types.\<close>

definition aead_key_from_secret_bytes :: "aead_cipher \<Rightarrow> bytes \<Rightarrow> bytes crypto_result" where
  "aead_key_from_secret_bytes A key =
     (if length key \<noteq> aead_key_size A then Err (err_of_kind crypto_kind.InvalidKeyData) else Ok key)"

text \<open>\<open>encrypt_in_place\<close> of \<open>Chacha20Key\<close>: the buffer gets the ciphertext and then the tag.\<close>

definition chacha20_encrypt_in_place :: "aead_cipher \<Rightarrow> 'b buffer_ops \<Rightarrow> bytes \<Rightarrow> bytes \<Rightarrow> bytes \<Rightarrow> 'b
    \<Rightarrow> (nat \<times> 'b) crypto_result" where
  "chacha20_encrypt_in_place A B key nonce aad buffer =
     (if length nonce \<noteq> aead_nonce_size A then invalid_nonce
      else
        (case encrypt_detached A key nonce aad (buf_as_ref B buffer) of
           None \<Rightarrow> Err (err_msg crypto_kind.Encryption ''AEAD encryption error'')
         | Some (ctext, tag) \<Rightarrow>
             (let buffer = buf_as_mut B ctext buffer; ctext_len = length (buf_as_ref B buffer) in
              res_bind (buffer_write B tag buffer) (\<lambda>buffer. Ok (ctext_len, buffer)))))"

text \<open>The common part of the two \<open>decrypt_in_place\<close>: they differ in the error of a short buffer.\<close>

definition aead_decrypt_with :: "crypto_error \<Rightarrow> aead_cipher \<Rightarrow> 'b buffer_ops \<Rightarrow> bytes \<Rightarrow> bytes \<Rightarrow> bytes \<Rightarrow> 'b
    \<Rightarrow> 'b crypto_result" where
  "aead_decrypt_with short A B key nonce aad buffer =
     (if length nonce \<noteq> aead_nonce_size A then invalid_nonce
      else
        (let buf_len = length (buf_as_ref B buffer) in
         if buf_len < aead_tag_size A then Err short
         else
           (let tag_start = buf_len - aead_tag_size A;
                tag = drop tag_start (buf_as_ref B buffer) in
            (case decrypt_detached A key nonce aad (take tag_start (buf_as_ref B buffer)) tag of
               None \<Rightarrow> Err (err_msg crypto_kind.Encryption ''AEAD decryption error'')
             | Some msg \<Rightarrow> buffer_resize B tag_start (buf_as_mut B (msg @ tag) buffer)))))"

definition chacha20_decrypt_in_place :: "aead_cipher \<Rightarrow> 'b buffer_ops \<Rightarrow> bytes \<Rightarrow> bytes \<Rightarrow> bytes \<Rightarrow> 'b
    \<Rightarrow> 'b crypto_result" where
  "chacha20_decrypt_in_place =
     aead_decrypt_with (err_msg crypto_kind.Invalid ''Invalid size for encrypted data'')"

text \<open>\<open>encrypt_in_place\<close> and \<open>decrypt_in_place\<close> of \<open>AesKey\<close> for the AES-GCM ciphers.\<close>

definition aes_gcm_encrypt_in_place :: "aead_cipher \<Rightarrow> 'b buffer_ops \<Rightarrow> bytes \<Rightarrow> bytes \<Rightarrow> bytes \<Rightarrow> 'b
    \<Rightarrow> (nat \<times> 'b) crypto_result" where
  "aes_gcm_encrypt_in_place A B key nonce aad buffer =
     (if length nonce \<noteq> aead_nonce_size A then invalid_nonce
      else
        (case encrypt_detached A key nonce aad (buf_as_ref B buffer) of
           None \<Rightarrow> Err (err_msg crypto_kind.Encryption ''AEAD encryption error'')
         | Some (ctext, tag) \<Rightarrow>
             (let buffer = buf_as_mut B ctext buffer; ctext_len = length (buf_as_ref B buffer) in
              res_bind (buffer_write B tag buffer) (\<lambda>buffer. Ok (ctext_len, buffer)))))"

definition aes_gcm_decrypt_in_place :: "aead_cipher \<Rightarrow> 'b buffer_ops \<Rightarrow> bytes \<Rightarrow> bytes \<Rightarrow> bytes \<Rightarrow> 'b
    \<Rightarrow> 'b crypto_result" where
  "aes_gcm_decrypt_in_place =
     aead_decrypt_with (err_msg crypto_kind.Encryption ''Invalid size for encrypted data'')"

lemma aes_gcm_encrypt_eq: "aes_gcm_encrypt_in_place = chacha20_encrypt_in_place"
  by (intro ext) (simp add: aes_gcm_encrypt_in_place_def chacha20_encrypt_in_place_def)

record KeyAeadParams =
  nonce_length :: nat
  tag_length :: nat

definition aead_params :: "aead_cipher \<Rightarrow> KeyAeadParams" where
  "aead_params A = \<lparr>nonce_length = aead_nonce_size A, tag_length = aead_tag_size A\<rparr>"

text \<open>A toy cipher that shows the hypothesis can hold: the identity with an all-zero tag.\<close>

definition null_cipher :: aead_cipher where
  "null_cipher = \<lparr>aead_key_size = 32, aead_nonce_size = 12, aead_tag_size = 16,
     encrypt_detached = (\<lambda>k n a m. Some (m, replicate 16 0)),
     decrypt_detached = (\<lambda>k n a c t. if t = replicate 16 0 then Some c else None)\<rparr>"

lemma null_cipher_simps [simp]:
  "aead_key_size null_cipher = 32" "aead_nonce_size null_cipher = 12" "aead_tag_size null_cipher = 16"
  "encrypt_detached null_cipher k n a m = Some (m, replicate 16 0)"
  "decrypt_detached null_cipher k n a c t = (if t = replicate 16 0 then Some c else None)"
  by (simp_all add: null_cipher_def)

lemma null_cipher_correct [simp]: "aead_correct null_cipher"
  by (simp add: aead_correct_def)

context resize_buffer
begin

text \<open>What encryption leaves in a buffer that keeps the contract.\<close>

lemma encrypt_in_place_contents:
  assumes "valid b" "aead_correct A" "chacha20_encrypt_in_place A B k n a b = Ok (len, b')"
  obtains c t where "encrypt_detached A k n a (buf_as_ref B b) = Some (c, t)"
    "buf_as_ref B b' = c @ t" "valid b'" "len = length c" "length c = length (buf_as_ref B b)"
    "length t = aead_tag_size A" "length n = aead_nonce_size A"
proof -
  obtain c t where e: "encrypt_detached A k n a (buf_as_ref B b) = Some (c, t)"
    and w: "buffer_write B t (buf_as_mut B c b) = Ok b'" "len = length (buf_as_ref B (buf_as_mut B c b))"
    and n: "length n = aead_nonce_size A"
    using assms(3)
    by (auto simp: chacha20_encrypt_in_place_def invalid_nonce_def result_simps Let_def
        split: if_splits option.splits)
  have l: "length c = length (buf_as_ref B b)" "length t = aead_tag_size A"
    using aead_correct_encryptD [OF assms(2) e] by auto
  with as_mut_law [OF assms(1)] write_OkD [OF _ w(1)] w(2) e n that show thesis by simp
qed

lemma decrypt_in_place_contents:
  assumes "valid b" "aead_correct A" "length n = aead_nonce_size A"
    and "buf_as_ref B b = c @ t" "length t = aead_tag_size A" "decrypt_detached A k n a c t = Some m"
  shows "\<exists>b'. aead_decrypt_with short A B k n a b = Ok b' \<and> valid b' \<and> buf_as_ref B b' = m"
proof -
  have m: "length m = length c" by (rule aead_correct_decryptD [OF assms(2,6)])
  then have v: "valid (buf_as_mut B (m @ t) b)" "buf_as_ref B (buf_as_mut B (m @ t) b) = m @ t"
    using as_mut_law [OF assms(1), of "m @ t"] assms(4) by auto
  obtain b' where "buffer_resize B (length c) (buf_as_mut B (m @ t) b) = Ok b'" "valid b'"
      "buf_as_ref B b' = m"
    using resize_shrink [OF v(1), of "length c"] v(2) m by auto
  with assms m show ?thesis by (simp add: aead_decrypt_with_def Let_def)
qed

text \<open>Decryption returns the message that was encrypted.\<close>

lemma aead_round_trip:
  assumes "valid b" "aead_correct A" "chacha20_encrypt_in_place A B k n a b = Ok (len, b')"
  shows "\<exists>b''. aead_decrypt_with short A B k n a b' = Ok b'' \<and> valid b'' \<and>
    buf_as_ref B b'' = buf_as_ref B b"
proof -
  obtain c t where e: "encrypt_detached A k n a (buf_as_ref B b) = Some (c, t)" "buf_as_ref B b' = c @ t"
      "valid b'" "length t = aead_tag_size A" "length n = aead_nonce_size A"
    using encrypt_in_place_contents [OF assms] by metis
  then have "decrypt_detached A k n a c t = Some (buf_as_ref B b)"
    using aead_correct_encryptD [OF assms(2)] by blast
  then show ?thesis by (rule decrypt_in_place_contents [OF e(3) assms(2) e(5) e(2) e(4)])
qed

text \<open>A value that decrypts has the length of the buffer less the tag.\<close>

lemma decrypt_in_place_length:
  assumes "valid b" "aead_correct A" "aead_decrypt_with short A B k n a b = Ok b'"
  shows "valid b' \<and> length (buf_as_ref B b') + aead_tag_size A = length (buf_as_ref B b)"
proof -
  let ?xs = "buf_as_ref B b" and ?s = "length (buf_as_ref B b) - aead_tag_size A"
  obtain m where d: "decrypt_detached A k n a (take ?s ?xs) (drop ?s ?xs) = Some m"
    and r: "buffer_resize B ?s (buf_as_mut B (m @ drop ?s ?xs) b) = Ok b'" and le: "aead_tag_size A \<le> length ?xs"
    using assms(3)
    by (auto simp: aead_decrypt_with_def invalid_nonce_def Let_def split: if_splits option.splits)
  have "length m = ?s" using aead_correct_decryptD [OF assms(2) d] by simp
  then have v: "valid (buf_as_mut B (m @ drop ?s ?xs) b)"
    using as_mut_law [OF assms(1), of "m @ drop ?s ?xs"] le by simp
  from resize_OkD [OF v r] le show ?thesis by simp
qed

end

text \<open>
  ChaCha20-Poly1305 and AES-GCM in place, over a secret buffer: whatever encrypts also
  decrypts under the same key, nonce and associated data, to the original bytes.
\<close>

theorem aead_in_place_round_trip:
  assumes "aead_correct A" and "secret_wf m"
    and "chacha20_encrypt_in_place A (secret_buffer (at_least f)) k n a m = Ok (len, m')"
  shows "(\<exists>m''. chacha20_decrypt_in_place A (secret_buffer (at_least f)) k n a m' = Ok m'' \<and>
            secret_data m'' = secret_data m)
       \<and> (\<exists>m''. aes_gcm_decrypt_in_place A (secret_buffer (at_least f)) k n a m' = Ok m'' \<and>
            secret_data m'' = secret_data m)
       \<and> len = length (secret_data m) \<and> length (secret_data m') = len + aead_tag_size A"
proof -
  have ref: "buf_as_ref (secret_buffer (at_least f)) x = secret_data x" for x by (simp add: secret_buffer_def)
  obtain c t where "secret_data m' = c @ t" "len = length c" "length c = length (secret_data m)"
      "length t = aead_tag_size A"
    using secret.encrypt_in_place_contents [OF assms(2,1,3)] unfolding ref by metis
  then show ?thesis
    using secret.aead_round_trip [OF assms(2,1,3)]
    unfolding chacha20_decrypt_in_place_def aes_gcm_decrypt_in_place_def ref by auto
qed

theorem aead_in_place_round_trip_witness:
  "\<exists>m' m''. chacha20_encrypt_in_place null_cipher (secret_buffer (at_least id)) [] (replicate 12 0) []
      \<lparr>secret_data = [1, 2], secret_cap = 2, secret_moved = False\<rparr> = Ok (2, m') \<and>
    chacha20_decrypt_in_place null_cipher (secret_buffer (at_least id)) [] (replicate 12 0) [] m' = Ok m'' \<and>
    secret_data m'' = [1, 2]"
proof -
  let ?m = "\<lparr>secret_data = [1, 2 :: byte], secret_cap = 2, secret_moved = False\<rparr>"
  let ?B = "secret_buffer (at_least id)"
  obtain m' where e: "chacha20_encrypt_in_place null_cipher ?B [] (replicate 12 0) [] ?m = Ok (2, m')"
    by (simp add: chacha20_encrypt_in_place_def secret_buffer_def)
  from aead_in_place_round_trip [OF null_cipher_correct _ this] e show ?thesis
    by (simp add: secret_wf_def)
qed

text \<open>
  Over a writer on a fixed slice, decryption does not shorten the buffer: because its resize
  adds to the position, a value of \<open>n\<close> plaintext bytes leaves \<open>2 * n + tag\<close> bytes, or fails for
  lack of room when the slice has no such tail.
\<close>

theorem slice_writer_decrypt_grows:
  assumes "aead_correct A" and "slice_writer_wf w" and "length n = aead_nonce_size A"
    and "writer_as_ref w = c @ t" and "length t = aead_tag_size A"
    and "decrypt_detached A k n a c t = Some m"
  shows "case chacha20_decrypt_in_place A slice_buffer k n a w of
      Ok w' \<Rightarrow> length (writer_as_ref w') = 2 * length m + aead_tag_size A
    | r \<Rightarrow> r = exceeded_buffer"
proof -
  have m: "length m = length c" by (rule aead_correct_decryptD [OF assms(1,6)])
  have p: "slice_pos w = length c + length t"
    using assms(2,4) unfolding writer_as_ref_def slice_writer_wf_def
    by (metis length_append length_take min_absorb2)
  have "chacha20_decrypt_in_place A slice_buffer k n a w =
      slice_resize (length c) (w\<lparr>slice_inner := (m @ t) @ drop (slice_pos w) (slice_inner w)\<rparr>)"
    using assms by (simp add: chacha20_decrypt_in_place_def aead_decrypt_with_def slice_buffer_def Let_def)
  then show ?thesis
    using m p assms(2,5)
    by (simp add: slice_resize_def Let_def exceeded_buffer_def writer_as_ref_def slice_writer_wf_def)
qed

theorem slice_writer_decrypt_grows_witness:
  "case chacha20_decrypt_in_place null_cipher slice_buffer [] (replicate 12 0) []
       \<lparr>slice_inner = 7 # replicate 17 0, slice_pos = 17\<rparr> of
      Ok w' \<Rightarrow> length (writer_as_ref w') = 2 * length [7 :: byte] + aead_tag_size null_cipher
    | r \<Rightarrow> r = exceeded_buffer"
  by (rule slice_writer_decrypt_grows [where c = "[7]" and t = "replicate 16 0"])
     (simp_all add: slice_writer_wf_def writer_as_ref_def)

end
