(* ===== verification/Aes_Key_Wrap.thy ===== *)
theory Aes_Key_Wrap
  imports Crypto_Aead
begin

text \<open>
  AES key wrap (RFC 3394) of \<open>askar-crypto/src/alg/aes/key_wrap.rs\<close>: six passes over the
  eight-byte chunks of the buffer, each step encrypting the running integrity value with a chunk
  and mixing in a 64-bit step counter. The block cipher is a parameter.
\<close>

section \<open>Wrapping and unwrapping\<close>

definition AES_KW_DEFAULT_IV :: bytes where
  "AES_KW_DEFAULT_IV = replicate 8 166"

text \<open>\<open>chunks_exact(8)\<close>.\<close>

function chunks8 :: "bytes \<Rightarrow> bytes list" where
  "chunks8 xs = (if length xs < 8 then [] else take 8 xs # chunks8 (drop 8 xs))"
  by pat_completeness auto
termination
  by (relation "measure length") auto

declare chunks8.simps [simp del]

definition xor_bytes :: "bytes \<Rightarrow> bytes \<Rightarrow> bytes" where
  "xor_bytes xs ys = map2 (XOR) xs ys"

text \<open>
  One pass of encryption, the inner loop for a fixed \<open>j\<close>: \<open>n\<close> is \<open>blocks * j + i\<close> for the
  first of the remaining chunks.
\<close>

fun kw_encrypt_pass :: "(bytes \<Rightarrow> bytes) \<Rightarrow> nat \<Rightarrow> bytes list \<Rightarrow> bytes \<Rightarrow> bytes \<times> bytes list" where
  "kw_encrypt_pass enc n [] iv = (iv, [])"
| "kw_encrypt_pass enc n (chunk # chunks) iv =
     (let block = enc (iv @ chunk);
          iv = xor_bytes (take 8 block) (be_bytes64 (word_of_nat (n + 1)));
          (iv, rest) = kw_encrypt_pass enc (n + 1) chunks iv
      in (iv, drop 8 block # rest))"

text \<open>One pass of decryption visits the chunks from the last to the first.\<close>

fun kw_decrypt_pass :: "(bytes \<Rightarrow> bytes) \<Rightarrow> nat \<Rightarrow> bytes list \<Rightarrow> bytes \<Rightarrow> bytes \<times> bytes list" where
  "kw_decrypt_pass dec n [] iv = (iv, [])"
| "kw_decrypt_pass dec n (chunk # chunks) iv =
     (let (iv, rest) = kw_decrypt_pass dec (n + 1) chunks iv;
          block = dec (xor_bytes iv (be_bytes64 (word_of_nat (n + 1))) @ chunk)
      in (take 8 block, drop 8 block # rest))"

definition kw_encrypt_passes :: "(bytes \<Rightarrow> bytes) \<Rightarrow> nat \<Rightarrow> bytes \<times> bytes list \<Rightarrow> bytes \<times> bytes list" where
  "kw_encrypt_passes enc blocks s =
     foldl (\<lambda>(iv, chunks) j. kw_encrypt_pass enc (blocks * j) chunks iv) s [0..<6]"

definition kw_decrypt_passes :: "(bytes \<Rightarrow> bytes) \<Rightarrow> nat \<Rightarrow> bytes \<times> bytes list \<Rightarrow> bytes \<times> bytes list" where
  "kw_decrypt_passes dec blocks s =
     foldl (\<lambda>(iv, chunks) j. kw_decrypt_pass dec (blocks * j) chunks iv) s (rev [0..<6])"

record block_cipher =
  encrypt_block :: "bytes \<Rightarrow> bytes \<Rightarrow> bytes"
  decrypt_block :: "bytes \<Rightarrow> bytes \<Rightarrow> bytes"

definition kw_encrypt_in_place :: "block_cipher \<Rightarrow> 'b buffer_ops \<Rightarrow> bytes \<Rightarrow> bytes \<Rightarrow> bytes \<Rightarrow> 'b
    \<Rightarrow> (nat \<times> 'b) crypto_result" where
  "kw_encrypt_in_place C B key nonce aad buffer =
     (if nonce \<noteq> [] then Err (err_msg crypto_kind.Unsupported ''Custom nonce not supported'')
      else if aad \<noteq> [] then Err (err_msg crypto_kind.Unsupported ''AAD not supported'')
      else
        (let buf_len = length (buf_as_ref B buffer) in
         if buf_len mod 8 \<noteq> 0 then
           Err (err_msg crypto_kind.Unsupported ''Data length must be a multiple of 8 bytes'')
         else
           (let blocks = buf_len div 8 in
            res_bind (buffer_insert B 0 (replicate 8 0) buffer) (\<lambda>buffer.
            let (iv, chunks) = kw_encrypt_passes (encrypt_block C key) blocks
                  (AES_KW_DEFAULT_IV, chunks8 (drop 8 (buf_as_ref B buffer)))
            in Ok (buf_len + 8, buf_as_mut B (iv @ concat chunks) buffer)))))"

definition kw_decrypt_in_place :: "block_cipher \<Rightarrow> 'b buffer_ops \<Rightarrow> bytes \<Rightarrow> bytes \<Rightarrow> bytes \<Rightarrow> 'b
    \<Rightarrow> 'b crypto_result" where
  "kw_decrypt_in_place C B key nonce aad buffer =
     (if nonce \<noteq> [] then Err (err_msg crypto_kind.Unsupported ''Custom nonce not supported'')
      else if aad \<noteq> [] then Err (err_msg crypto_kind.Unsupported ''AAD not supported'')
      else if length (buf_as_ref B buffer) mod 8 \<noteq> 0 then
        Err (err_msg crypto_kind.Encryption ''Data length must be a multiple of 8 bytes'')
      else
        (let blocks = length (buf_as_ref B buffer) div 8 in
         if blocks < 1 then Err (err_of_kind crypto_kind.Encryption)
         else
           (let blocks = blocks - 1; iv = take 8 (buf_as_ref B buffer) in
            res_bind (buffer_remove B 0 8 buffer) (\<lambda>buffer.
            let (iv, chunks) = kw_decrypt_passes (decrypt_block C key) blocks (iv, chunks8 (buf_as_ref B buffer));
                buffer = buf_as_mut B (concat chunks) buffer
            in if iv = AES_KW_DEFAULT_IV then Ok buffer else Err (err_of_kind crypto_kind.Encryption)))))"

text \<open>What the code relies on: the cipher permutes the 16-byte blocks.\<close>

definition block_cipher_correct :: "block_cipher \<Rightarrow> bool" where
  "block_cipher_correct C \<longleftrightarrow>
     (\<forall>k b. length b = 16 \<longrightarrow>
        length (encrypt_block C k b) = 16 \<and> decrypt_block C k (encrypt_block C k b) = b \<and>
        length (decrypt_block C k b) = 16 \<and> encrypt_block C k (decrypt_block C k b) = b)"

definition rev_cipher :: block_cipher where
  "rev_cipher = \<lparr>encrypt_block = (\<lambda>k. rev), decrypt_block = (\<lambda>k. rev)\<rparr>"

lemma rev_cipher_correct [simp]: "block_cipher_correct rev_cipher"
  by (simp add: block_cipher_correct_def rev_cipher_def)

section \<open>Chunks\<close>

lemma chunks8_length: "c \<in> set (chunks8 xs) \<Longrightarrow> length c = 8"
proof (induction xs rule: chunks8.induct)
  case (1 xs)
  then show ?case by (subst (asm) (2) chunks8.simps) (auto split: if_splits)
qed

lemma concat_chunks8: "length xs mod 8 = 0 \<Longrightarrow> concat (chunks8 xs) = xs"
proof (induction xs rule: chunks8.induct)
  case (1 xs)
  show ?case
  proof (cases "length xs < 8")
    case True
    with 1(2) show ?thesis by (simp add: chunks8.simps)
  next
    case False
    then have "length (drop 8 xs) mod 8 = 0" using 1(2) by (simp add: le_mod_geq)
    with 1(1) False have "concat (chunks8 (drop 8 xs)) = drop 8 xs" by simp
    with False show ?thesis by (subst chunks8.simps) simp
  qed
qed

lemma length_chunks8: "length (chunks8 xs) = length xs div 8"
proof (induction xs rule: chunks8.induct)
  case (1 xs)
  then show ?case by (subst chunks8.simps) (auto simp: le_div_geq)
qed

lemma chunks8_concat: "(\<And>c. c \<in> set cs \<Longrightarrow> length c = 8) \<Longrightarrow> chunks8 (concat cs) = cs"
proof (induction cs)
  case (Cons c cs)
  then have "length c = 8" by simp
  with Cons show ?case by (subst chunks8.simps) simp
qed (simp add: chunks8.simps)

lemma length_concat8: "(\<And>c. c \<in> set cs \<Longrightarrow> length c = 8) \<Longrightarrow> length (concat cs) = 8 * length cs"
  by (induction cs) auto

lemma xor_bytes_cancel: "length xs \<le> length ys \<Longrightarrow> xor_bytes (xor_bytes xs ys) ys = xs"
proof (induction xs arbitrary: ys)
  case (Cons x xs)
  then show ?case by (cases ys) (auto simp: xor_bytes_def xor.assoc)
qed (simp add: xor_bytes_def)

lemma length_xor_bytes [simp]: "length (xor_bytes xs ys) = min (length xs) (length ys)"
  by (simp add: xor_bytes_def)

section \<open>Inverses\<close>

text \<open>The states of the loops: an 8-byte integrity value and \<open>blocks\<close> 8-byte chunks.\<close>

definition kw_state :: "nat \<Rightarrow> bytes \<times> bytes list \<Rightarrow> bool" where
  "kw_state blocks s \<longleftrightarrow> length (fst s) = 8 \<and> length (snd s) = blocks \<and> (\<forall>c \<in> set (snd s). length c = 8)"

text \<open>A permutation of the 16-byte blocks and its inverse.\<close>

definition inverse16 :: "(bytes \<Rightarrow> bytes) \<Rightarrow> (bytes \<Rightarrow> bytes) \<Rightarrow> bool" where
  "inverse16 enc dec \<longleftrightarrow> (\<forall>b. length b = 16 \<longrightarrow> length (enc b) = 16 \<and> dec (enc b) = b)"

lemma encrypt_pass_inverse:
  assumes "inverse16 enc dec" "length iv = 8" "\<forall>c \<in> set cs. length c = 8"
    "kw_encrypt_pass enc n cs iv = (iv', cs')"
  shows "length iv' = 8 \<and> length cs' = length cs \<and> (\<forall>c \<in> set cs'. length c = 8)
    \<and> kw_decrypt_pass dec n cs' iv' = (iv, cs)"
  using assms(2-4)
proof (induction cs arbitrary: n iv iv' cs')
  case (Cons c cs)
  define block where "block = enc (iv @ c)"
  define iv1 where "iv1 = xor_bytes (take 8 block) (be_bytes64 (word_of_nat (n + 1)))"
  obtain rest where r: "kw_encrypt_pass enc (n + 1) cs iv1 = (iv', rest)" and cs': "cs' = drop 8 block # rest"
    using Cons.prems(3) by (auto simp: block_def iv1_def Let_def split: prod.splits)
  have b: "length block = 16" "dec block = iv @ c"
    using assms(1) Cons.prems(1,2) by (auto simp: inverse16_def block_def)
  then have iv1: "length iv1 = 8" by (simp add: iv1_def)
  have "xor_bytes iv1 (be_bytes64 (word_of_nat (n + 1))) = take 8 block"
    using b by (simp add: iv1_def xor_bytes_cancel)
  with Cons.IH [OF iv1 _ r] Cons.prems(1,2) b cs' show ?case
    by (auto simp: append_take_drop_id)
qed auto

lemma decrypt_pass_inverse:
  assumes "inverse16 dec enc" "length iv = 8" "\<forall>c \<in> set cs. length c = 8"
    "kw_decrypt_pass dec n cs iv = (iv', cs')"
  shows "length iv' = 8 \<and> length cs' = length cs \<and> (\<forall>c \<in> set cs'. length c = 8)
    \<and> kw_encrypt_pass enc n cs' iv' = (iv, cs)"
  using assms(2-4)
proof (induction cs arbitrary: n iv iv' cs')
  case (Cons c cs)
  obtain iv1 rest where r: "kw_decrypt_pass dec (n + 1) cs iv = (iv1, rest)"
    by (cases "kw_decrypt_pass dec (n + 1) cs iv") auto
  define block where "block = dec (xor_bytes iv1 (be_bytes64 (word_of_nat (n + 1))) @ c)"
  have iv': "iv' = take 8 block" and cs': "cs' = drop 8 block # rest"
    using Cons.prems(3) r by (auto simp: block_def Let_def split: prod.splits)
  have IH: "length iv1 = 8 \<and> length rest = length cs \<and> (\<forall>c \<in> set rest. length c = 8)
      \<and> kw_encrypt_pass enc (n + 1) rest iv1 = (iv, cs)"
    using Cons.prems(1,2) by (intro Cons.IH [OF _ _ r]) auto
  then have "length (xor_bytes iv1 (be_bytes64 (word_of_nat (n + 1))) @ c) = 16"
    using Cons.prems(2) by simp
  then have b: "length block = 16" "enc block = xor_bytes iv1 (be_bytes64 (word_of_nat (n + 1))) @ c"
    using assms(1) by (auto simp: inverse16_def block_def)
  have "xor_bytes (take 8 (enc block)) (be_bytes64 (word_of_nat (n + 1))) = iv1" "drop 8 (enc block) = c"
    using IH by (simp_all add: b(2) xor_bytes_cancel)
  with IH b(1) iv' cs' show ?case by (simp add: append_take_drop_id)
qed auto

text \<open>Undoing a sequence of steps in the opposite order.\<close>

lemma foldl_undo:
  assumes "\<And>s j. P s \<Longrightarrow> P (f s j) \<and> g (f s j) j = s" "P s"
  shows "P (foldl f s js) \<and> foldl g (foldl f s js) (rev js) = s"
  using assms(2)
proof (induction js arbitrary: s)
  case (Cons j js)
  then have "P (f s j)" "g (f s j) j = s" using assms(1) by auto
  with Cons.IH [of "f s j"] show ?case by simp
qed simp

text \<open>One pass as a step on the state of the loop.\<close>

definition kw_encrypt_step :: "(bytes \<Rightarrow> bytes) \<Rightarrow> nat \<Rightarrow> bytes \<times> bytes list \<Rightarrow> nat \<Rightarrow> bytes \<times> bytes list" where
  "kw_encrypt_step enc blocks s j = kw_encrypt_pass enc (blocks * j) (snd s) (fst s)"

definition kw_decrypt_step :: "(bytes \<Rightarrow> bytes) \<Rightarrow> nat \<Rightarrow> bytes \<times> bytes list \<Rightarrow> nat \<Rightarrow> bytes \<times> bytes list" where
  "kw_decrypt_step dec blocks s j = kw_decrypt_pass dec (blocks * j) (snd s) (fst s)"

lemma kw_encrypt_passes_steps: "kw_encrypt_passes enc blocks s = foldl (kw_encrypt_step enc blocks) s [0..<6]"
  by (simp add: kw_encrypt_passes_def kw_encrypt_step_def [abs_def] case_prod_beta')

lemma kw_decrypt_passes_steps: "kw_decrypt_passes dec blocks s = foldl (kw_decrypt_step dec blocks) s (rev [0..<6])"
  by (simp add: kw_decrypt_passes_def kw_decrypt_step_def [abs_def] case_prod_beta')

lemma encrypt_step_undo:
  assumes "inverse16 enc dec" "kw_state blocks s"
  shows "kw_state blocks (kw_encrypt_step enc blocks s j)
    \<and> kw_decrypt_step dec blocks (kw_encrypt_step enc blocks s j) j = s"
proof -
  obtain iv' cs' where e: "kw_encrypt_pass enc (blocks * j) (snd s) (fst s) = (iv', cs')" by fastforce
  have "length (fst s) = 8" "\<forall>c \<in> set (snd s). length c = 8" "length (snd s) = blocks"
    using assms(2) by (auto simp: kw_state_def)
  with encrypt_pass_inverse [OF assms(1) this(1,2) e] e show ?thesis
    by (simp add: kw_encrypt_step_def kw_decrypt_step_def kw_state_def)
qed

lemma decrypt_step_undo:
  assumes "inverse16 dec enc" "kw_state blocks s"
  shows "kw_state blocks (kw_decrypt_step dec blocks s j)
    \<and> kw_encrypt_step enc blocks (kw_decrypt_step dec blocks s j) j = s"
proof -
  obtain iv' cs' where e: "kw_decrypt_pass dec (blocks * j) (snd s) (fst s) = (iv', cs')" by fastforce
  have "length (fst s) = 8" "\<forall>c \<in> set (snd s). length c = 8" "length (snd s) = blocks"
    using assms(2) by (auto simp: kw_state_def)
  with decrypt_pass_inverse [OF assms(1) this(1,2) e] e show ?thesis
    by (simp add: kw_encrypt_step_def kw_decrypt_step_def kw_state_def)
qed

lemma passes_encrypt_decrypt:
  assumes "inverse16 enc dec" "kw_state blocks s"
  shows "kw_state blocks (kw_encrypt_passes enc blocks s)
    \<and> kw_decrypt_passes dec blocks (kw_encrypt_passes enc blocks s) = s"
  unfolding kw_encrypt_passes_steps kw_decrypt_passes_steps
  by (rule foldl_undo [where P = "kw_state blocks"]) (rule encrypt_step_undo [OF assms(1)], assumption, rule assms(2))

lemma passes_decrypt_encrypt:
  assumes "inverse16 dec enc" "kw_state blocks s"
  shows "kw_state blocks (kw_decrypt_passes dec blocks s)
    \<and> kw_encrypt_passes enc blocks (kw_decrypt_passes dec blocks s) = s"
proof -
  have "kw_state blocks (foldl (kw_decrypt_step dec blocks) s (rev [0..<6])) \<and>
      foldl (kw_encrypt_step enc blocks) (foldl (kw_decrypt_step dec blocks) s (rev [0..<6])) (rev (rev [0..<6])) = s"
    by (rule foldl_undo [where P = "kw_state blocks"]) (rule decrypt_step_undo [OF assms(1)], assumption, rule assms(2))
  then show ?thesis by (simp only: kw_encrypt_passes_steps kw_decrypt_passes_steps rev_rev_ident)
qed

lemma block_cipher_inverse16:
  assumes "block_cipher_correct C"
  shows "inverse16 (encrypt_block C k) (decrypt_block C k)" "inverse16 (decrypt_block C k) (encrypt_block C k)"
  using assms by (auto simp: block_cipher_correct_def inverse16_def)

section \<open>Wrapping a key\<close>

lemma chunks8_state:
  "length iv = 8 \<Longrightarrow> length xs mod 8 = 0 \<Longrightarrow> kw_state (length xs div 8) (iv, chunks8 xs)"
  by (auto simp: kw_state_def length_chunks8 dest: chunks8_length)

lemma kw_state_concat:
  assumes "kw_state blocks (iv, cs)"
  shows "length (concat cs) = 8 * blocks" "chunks8 (concat cs) = cs"
  using assms by (auto simp: kw_state_def length_concat8 chunks8_concat)

context resize_buffer
begin

lemma kw_round_trip:
  assumes "valid b" "block_cipher_correct C" "kw_encrypt_in_place C B k n a b = Ok (len, b')"
  shows "valid b' \<and> len = length (buf_as_ref B b) + 8 \<and> length (buf_as_ref B b') = length (buf_as_ref B b) + 8 \<and>
    (\<exists>b''. kw_decrypt_in_place C B k n a b' = Ok b'' \<and> valid b'' \<and> buf_as_ref B b'' = buf_as_ref B b)"
proof -
  let ?p = "buf_as_ref B b"
  let ?blocks = "length ?p div 8"
  have len: "length ?p mod 8 = 0" and na: "n = []" "a = []"
    using assms(3) by (auto simp: kw_encrypt_in_place_def Let_def split: if_splits)
  obtain iv cs where w: "kw_encrypt_passes (encrypt_block C k) ?blocks (AES_KW_DEFAULT_IV, chunks8 ?p) = (iv, cs)"
    by fastforce
  have st: "kw_state ?blocks (AES_KW_DEFAULT_IV, chunks8 ?p)"
    using len by (intro chunks8_state) (simp_all add: AES_KW_DEFAULT_IV_def)
  note inv = passes_encrypt_decrypt [OF block_cipher_inverse16(1) [OF assms(2)] st, of k, unfolded w]
  have iv: "length iv = 8" using inv by (simp add: kw_state_def)
  have c: "length (concat cs) = 8 * ?blocks" "chunks8 (concat cs) = cs" using inv by (auto dest: kw_state_concat)
  have len8: "8 * ?blocks = length ?p" using len by (metis add.right_neutral mult_div_mod_eq)
  obtain b1 where b1: "buffer_insert B 0 (replicate 8 0) b = Ok b1" "valid b1" "buf_as_ref B b1 = replicate 8 0 @ ?p"
    using assms(3) len na insert_law [OF assms(1), of 0 "replicate 8 0"]
    by (auto simp: kw_encrypt_in_place_def Let_def exceeded_buffer_def)
  have l: "length (iv @ concat cs) = length (buf_as_ref B b1)" using iv c len8 b1(3) by simp
  have b': "valid b'" "buf_as_ref B b' = iv @ concat cs"
    using assms(3) len na b1 w as_mut_law [OF b1(2) l] by (auto simp: kw_encrypt_in_place_def Let_def)
  obtain b2 where b2: "buffer_remove B 0 8 b' = Ok b2" "valid b2" "buf_as_ref B b2 = concat cs"
    using remove_law [OF b'(1), of 0 8] b'(2) iv by auto
  have bl: "length (iv @ concat cs) mod 8 = 0" "length (iv @ concat cs) div 8 = Suc ?blocks" using iv c by simp_all
  have "length ?p = length (buf_as_ref B b2)" using b2(3) c(1) len8 by simp
  from as_mut_law [OF b2(2) this] inv bl b'(2) b2 iv c na
  have "\<exists>b''. kw_decrypt_in_place C B k n a b' = Ok b'' \<and> valid b'' \<and> buf_as_ref B b'' = buf_as_ref B b"
    by (simp add: kw_decrypt_in_place_def Let_def concat_chunks8 [OF len])
  moreover have "len = length ?p + 8"
    using assms(3) len na b1(1,3) w by (auto simp: kw_encrypt_in_place_def Let_def)
  ultimately show ?thesis using b' iv c len8 by simp
qed

end

text \<open>
  C9. Unwrapping accepts exactly the wrapped values: a buffer unwraps to a key if and only if
  wrapping that key gives the buffer.
\<close>

theorem key_unwrap_iff_wrap:
  assumes "block_cipher_correct C"
  shows "kw_decrypt_in_place C vec_buffer k [] [] b = Ok p \<longleftrightarrow>
    kw_encrypt_in_place C vec_buffer k [] [] p = Ok (length b, b)"
proof
  assume d: "kw_decrypt_in_place C vec_buffer k [] [] b = Ok p"
  let ?blocks = "length b div 8 - 1" and ?c = "drop 8 b"
  have len: "length b mod 8 = 0" "8 \<le> length b"
    using d by (auto simp: kw_decrypt_in_place_def Let_def split: if_splits)
  then have rest: "length ?c mod 8 = 0" "length ?c div 8 = ?blocks"
    by (simp_all add: le_mod_geq le_div_geq)
  obtain iv cs where p: "kw_decrypt_passes (decrypt_block C k) ?blocks (take 8 b, chunks8 ?c) = (iv, cs)"
    by fastforce
  have st: "kw_state ?blocks (take 8 b, chunks8 ?c)"
    using chunks8_state [of "take 8 b" ?c] len rest by simp
  note inv = passes_decrypt_encrypt [OF block_cipher_inverse16(2) [OF assms] st, of k, unfolded p]
  have iv: "iv = AES_KW_DEFAULT_IV" and pc: "p = concat cs"
    using d len p by (auto simp: kw_decrypt_in_place_def vec_remove_def Let_def split: if_splits)
  have pl: "length p = 8 * ?blocks" "chunks8 p = cs"
    using inv pc by (auto dest: kw_state_concat)
  then have pb: "length p mod 8 = 0" "length p div 8 = ?blocks" by simp_all
  have lb: "length p + 8 = length b"
    using pl(1) len by (metis le_add_diff_inverse2 length_drop mult.commute rest div_mult_mod_eq add.right_neutral)
  have "take 8 b @ concat (chunks8 ?c) = b" using rest(1) by (simp add: concat_chunks8)
  with inv iv pl(2) pb lb show "kw_encrypt_in_place C vec_buffer k [] [] p = Ok (length b, b)"
    by (simp add: kw_encrypt_in_place_def vec_insert_def Let_def)
next
  assume e: "kw_encrypt_in_place C vec_buffer k [] [] p = Ok (length b, b)"
  let ?blocks = "length p div 8"
  have len: "length p mod 8 = 0"
    using e by (auto simp: kw_encrypt_in_place_def Let_def split: if_splits)
  obtain iv cs where w: "kw_encrypt_passes (encrypt_block C k) ?blocks (AES_KW_DEFAULT_IV, chunks8 p) = (iv, cs)"
    by fastforce
  have st: "kw_state ?blocks (AES_KW_DEFAULT_IV, chunks8 p)"
    using len by (intro chunks8_state) (simp_all add: AES_KW_DEFAULT_IV_def)
  note inv = passes_encrypt_decrypt [OF block_cipher_inverse16(1) [OF assms] st, of k, unfolded w]
  have b: "b = iv @ concat cs"
    using e len w by (auto simp: kw_encrypt_in_place_def vec_insert_def Let_def)
  have iv: "length iv = 8" using inv by (simp add: kw_state_def)
  have c: "length (concat cs) = 8 * ?blocks" "chunks8 (concat cs) = cs"
    using inv by (auto dest: kw_state_concat)
  have bl: "length b mod 8 = 0" "length b div 8 = Suc ?blocks" using b iv c by simp_all
  from inv bl b iv c show "kw_decrypt_in_place C vec_buffer k [] [] b = Ok p"
    by (simp add: kw_decrypt_in_place_def vec_remove_def Let_def concat_chunks8 [OF len])
qed

theorem key_unwrap_iff_wrap_witness:
  "kw_decrypt_in_place rev_cipher vec_buffer [] [] [] [1, 2, 3, 4, 5, 6, 7, 8] = Ok [] \<longleftrightarrow>
    kw_encrypt_in_place rev_cipher vec_buffer [] [] [] [] = Ok (length [1, 2, 3, 4, 5, 6, 7, 8 :: byte], [1, 2, 3, 4, 5, 6, 7, 8])"
  by (rule key_unwrap_iff_wrap) simp

text \<open>
  Wrapping succeeds on every key whose length is a multiple of eight bytes, and the wrapped
  key is eight bytes longer.
\<close>

theorem key_wrap_total:
  assumes "block_cipher_correct C" and "length p mod 8 = 0"
  shows "\<exists>b. kw_encrypt_in_place C vec_buffer k [] [] p = Ok (length p + 8, b) \<and> length b = length p + 8"
proof -
  obtain iv cs where w: "kw_encrypt_passes (encrypt_block C k) (length p div 8) (AES_KW_DEFAULT_IV, chunks8 p) = (iv, cs)"
    by fastforce
  have "kw_state (length p div 8) (AES_KW_DEFAULT_IV, chunks8 p)"
    using assms(2) by (intro chunks8_state) (simp_all add: AES_KW_DEFAULT_IV_def)
  from passes_encrypt_decrypt [OF block_cipher_inverse16(1) [OF assms(1)] this, of k, unfolded w]
  have st: "kw_state (length p div 8) (iv, cs)" by simp
  then have "length iv = 8" by (simp add: kw_state_def)
  moreover have "length (concat cs) = length p"
    using kw_state_concat(1) [OF st] assms(2) by (metis add.right_neutral mult_div_mod_eq)
  ultimately show ?thesis
    using assms(2) w by (simp add: kw_encrypt_in_place_def vec_insert_def Let_def)
qed

theorem key_wrap_total_witness:
  "\<exists>b. kw_encrypt_in_place rev_cipher vec_buffer [] [] [] (replicate 8 1) = Ok (length (replicate 8 (1 :: byte)) + 8, b)
    \<and> length b = length (replicate 8 (1 :: byte)) + 8"
  by (rule key_wrap_total) simp_all

end
