(* ===== verification/Aes_Cbc_Hmac.thy ===== *)
theory Aes_Cbc_Hmac
  imports Crypto_Aead
begin

text \<open>
  AES-CBC with an HMAC tag (\<open>askar-crypto/src/alg/aes/cbc_hmac.rs\<close>): encrypt-then-MAC over the
  associated data, the nonce, the ciphertext and the length of the associated data in bits. The
  CBC mode with PKCS#7 padding and the HMAC are parameters.
\<close>

section \<open>Operations\<close>

record cbc_hmac =
  cbc_block_size :: nat
  cbc_key_size :: nat
  hmac_output_size :: nat
  cbc_encrypt :: "bytes \<Rightarrow> bytes \<Rightarrow> bytes \<Rightarrow> bytes"
  cbc_decrypt :: "bytes \<Rightarrow> bytes \<Rightarrow> bytes \<Rightarrow> bytes option"
  hmac_digest :: "bytes \<Rightarrow> bytes \<Rightarrow> bytes"

text \<open>\<open>AesCbcHmac::padding_length\<close>.\<close>

definition padding_length :: "cbc_hmac \<Rightarrow> nat \<Rightarrow> nat" where
  "padding_length C len = cbc_block_size C - len mod cbc_block_size C"

text \<open>
  \<open>encrypt_padded_mut::<Pkcs7>(buf, msg_len)\<close>: the padded ciphertext replaces the front of the
  buffer, which must have room for it.
\<close>

definition encrypt_padded_mut :: "cbc_hmac \<Rightarrow> bytes \<Rightarrow> bytes \<Rightarrow> bytes \<Rightarrow> nat \<Rightarrow> bytes option" where
  "encrypt_padded_mut C key iv buf msg_len =
     (let ctext = cbc_encrypt C key iv (take msg_len buf) in
      if length buf < length ctext then None else Some (ctext @ drop (length ctext) buf))"

text \<open>The input of the HMAC and its truncated output.\<close>

definition cbc_mac :: "cbc_hmac \<Rightarrow> bytes \<Rightarrow> bytes \<Rightarrow> bytes \<Rightarrow> bytes \<Rightarrow> bytes" where
  "cbc_mac C key nonce aad ctext =
     take (cbc_key_size C) (hmac_digest C (take (cbc_key_size C) key)
       (aad @ nonce @ ctext @ be_bytes64 (word_of_nat (length aad) * 8)))"

definition aad_too_long :: "bytes \<Rightarrow> bool" where
  "aad_too_long aad \<longleftrightarrow> (2 ^ 64 - 1) div 8 < length aad"

text \<open>The part of \<open>encrypt_in_place\<close> after the buffer was extended: encrypt, then append the tag.\<close>

definition cbc_hmac_seal :: "cbc_hmac \<Rightarrow> 'b buffer_ops \<Rightarrow> bytes \<Rightarrow> bytes \<Rightarrow> bytes \<Rightarrow> nat \<Rightarrow> nat \<Rightarrow> 'b
    \<Rightarrow> (nat \<times> 'b) crypto_result" where
  "cbc_hmac_seal C B key nonce aad msg_len pad_len buffer =
     (case encrypt_padded_mut C (drop (cbc_key_size C) key) nonce (buf_as_ref B buffer) msg_len of
        None \<Rightarrow> Err (err_msg crypto_kind.Encryption ''AES-CBC encryption error'')
      | Some enc \<Rightarrow>
          (let buffer = buf_as_mut B enc buffer;
               ctext_end = msg_len + pad_len;
               mac = cbc_mac C key nonce aad (take ctext_end (buf_as_ref B buffer)) in
           res_bind (store_at ctext_end mac (buf_as_ref B buffer)) (\<lambda>xs.
           Ok (ctext_end, buf_as_mut B xs buffer))))"

definition cbc_hmac_encrypt_in_place :: "cbc_hmac \<Rightarrow> 'b buffer_ops \<Rightarrow> bytes \<Rightarrow> bytes \<Rightarrow> bytes \<Rightarrow> 'b
    \<Rightarrow> (nat \<times> 'b) crypto_result" where
  "cbc_hmac_encrypt_in_place C B key nonce aad buffer =
     (if length nonce \<noteq> cbc_block_size C then invalid_nonce
      else if hmac_output_size C < cbc_key_size C then
        Err (err_msg crypto_kind.Encryption ''AES-CBC-HMAC tag size exceeds maximum supported'')
      else if aad_too_long aad then
        Err (err_msg crypto_kind.Encryption ''AES-CBC-HMAC AAD size exceeds maximum supported'')
      else
        (let msg_len = length (buf_as_ref B buffer); pad_len = padding_length C msg_len in
         res_bind (buffer_extend B (pad_len + cbc_key_size C) buffer) (\<lambda>(buffer, _).
         cbc_hmac_seal C B key nonce aad msg_len pad_len buffer)))"

definition cbc_hmac_decrypt_in_place :: "cbc_hmac \<Rightarrow> 'b buffer_ops \<Rightarrow> bytes \<Rightarrow> bytes \<Rightarrow> bytes \<Rightarrow> 'b
    \<Rightarrow> 'b crypto_result" where
  "cbc_hmac_decrypt_in_place C B key nonce aad buffer =
     (if length nonce \<noteq> cbc_block_size C then invalid_nonce
      else if aad_too_long aad then
        Err (err_msg crypto_kind.Encryption ''AES-CBC-HMAC AAD size exceeds maximum supported'')
      else
        (let buf_len = length (buf_as_ref B buffer) in
         if buf_len < cbc_key_size C then
           Err (err_msg crypto_kind.Encryption ''Invalid size for encrypted data'')
         else
           (let ctext_end = buf_len - cbc_key_size C;
                ctext = take ctext_end (buf_as_ref B buffer);
                tag = drop ctext_end (buf_as_ref B buffer);
                tag_match = (tag = cbc_mac C key nonce aad ctext) in
            (case cbc_decrypt C (drop (cbc_key_size C) key) nonce ctext of
               None \<Rightarrow> Err (err_msg crypto_kind.Encryption ''AES-CBC decryption error'')
             | Some msg \<Rightarrow>
                 (let dec_len = length msg;
                      buffer = buf_as_mut B (msg @ drop dec_len ctext @ tag) buffer in
                  res_bind (buffer_resize B dec_len buffer) (\<lambda>buffer.
                  if tag_match then Ok buffer
                  else Err (err_msg crypto_kind.Encryption ''AEAD decryption error'')))))))"

definition cbc_hmac_params :: "cbc_hmac \<Rightarrow> KeyAeadParams" where
  "cbc_hmac_params C = \<lparr>nonce_length = cbc_block_size C, tag_length = cbc_key_size C\<rparr>"

section \<open>Correctness\<close>

text \<open>
  The documented behaviour of the parameters: padding fills up to the next block, decryption undoes
  encryption and never returns more than the ciphertext, and the digest has its fixed size.
\<close>

definition cbc_hmac_correct :: "cbc_hmac \<Rightarrow> bool" where
  "cbc_hmac_correct C \<longleftrightarrow> 0 < cbc_block_size C \<and> cbc_key_size C \<le> hmac_output_size C \<and>
     (\<forall>k iv m. length (cbc_encrypt C k iv m) = length m + padding_length C (length m) \<and>
        cbc_decrypt C k iv (cbc_encrypt C k iv m) = Some m) \<and>
     (\<forall>k iv m c. cbc_decrypt C k iv c = Some m \<longrightarrow> length m \<le> length c) \<and>
     (\<forall>k m. length (hmac_digest C k m) = hmac_output_size C)"

lemma cbc_hmac_correctD:
  assumes "cbc_hmac_correct C"
  shows "length (cbc_encrypt C k iv m) = length m + padding_length C (length m)"
    and "cbc_decrypt C k iv (cbc_encrypt C k iv m) = Some m"
    and "cbc_decrypt C k iv c = Some m \<Longrightarrow> length m \<le> length c"
    and "length (cbc_mac C key n a x) = cbc_key_size C"
    and "cbc_key_size C \<le> hmac_output_size C"
  using assms unfolding cbc_hmac_correct_def cbc_mac_def by (blast, blast, blast, simp_all)

text \<open>Toy parameters for which the hypothesis holds: padding by repeated pad lengths, no cipher.\<close>

definition toy_cbc :: cbc_hmac where
  "toy_cbc = \<lparr>cbc_block_size = 16, cbc_key_size = 16, hmac_output_size = 32,
     cbc_encrypt = (\<lambda>k iv m. m @ replicate (16 - length m mod 16) (word_of_nat (16 - length m mod 16))),
     cbc_decrypt = (\<lambda>k iv c. if c = [] \<or> length c < unat (last c) then None
        else Some (take (length c - unat (last c)) c)),
     hmac_digest = (\<lambda>k m. replicate 32 0)\<rparr>"

lemma toy_cbc_correct [simp]: "cbc_hmac_correct toy_cbc"
proof -
  have pad: "0 < (16 :: nat) - n mod 16" "(16 :: nat) - n mod 16 \<le> 16" for n by auto
  have u: "unat (word_of_nat (16 - n mod 16) :: byte) = 16 - n mod 16" for n
  proof -
    have "(16 :: nat) - n mod 16 < 2 ^ 8" using pad(2) [of n] by simp
    then show ?thesis by (simp add: unat_of_nat take_bit_nat_eq_self del: of_nat_diff)
  qed
  show ?thesis
    using u pad by (auto simp: cbc_hmac_correct_def toy_cbc_def padding_length_def last_append)
qed

lemma cbc_hmac_encrypt_OkD:
  assumes "cbc_hmac_encrypt_in_place C B k n a b = Ok (len, b')"
  defines "m \<equiv> length (buf_as_ref B b)"
  shows "\<exists>b1 i. buffer_extend B (padding_length C m + cbc_key_size C) b = Ok (b1, i) \<and>
    cbc_hmac_seal C B k n a m (padding_length C m) b1 = Ok (len, b') \<and>
    length n = cbc_block_size C \<and> \<not> aad_too_long a"
  using assms(1) unfolding m_def
  by (auto simp: cbc_hmac_encrypt_in_place_def invalid_nonce_def Let_def res_bind_eq_Ok split: if_splits)

lemma cbc_hmac_seal_OkD:
  assumes "cbc_hmac_seal C B k n a m p b = Ok (len, b')"
  shows "\<exists>enc xs. encrypt_padded_mut C (drop (cbc_key_size C) k) n (buf_as_ref B b) m = Some enc \<and>
    (store_at (m + p) (cbc_mac C k n a (take (m + p) (buf_as_ref B (buf_as_mut B enc b))))
      (buf_as_ref B (buf_as_mut B enc b)) :: bytes crypto_result) = Ok xs \<and>
    len = m + p \<and> b' = buf_as_mut B xs (buf_as_mut B enc b)"
  using assms
  by (cases "encrypt_padded_mut C (drop (cbc_key_size C) k) n (buf_as_ref B b) m")
     (auto simp: cbc_hmac_seal_def Let_def res_bind_eq_Ok)

context resize_buffer
begin

text \<open>What encryption leaves in a buffer that keeps the contract: ciphertext and tag.\<close>

lemma cbc_encrypt_contents:
  assumes "valid b" "cbc_hmac_correct C" "cbc_hmac_encrypt_in_place C B k n a b = Ok (len, b')"
  defines "ct \<equiv> cbc_encrypt C (drop (cbc_key_size C) k) n (buf_as_ref B b)"
  shows "valid b' \<and> buf_as_ref B b' = ct @ cbc_mac C k n a ct \<and> len = length ct"
proof -
  let ?m = "buf_as_ref B b"
  let ?p = "padding_length C (length ?m)"
  note C = cbc_hmac_correctD [OF assms(2)]
  obtain b1 i where x: "buffer_extend B (?p + cbc_key_size C) b = Ok (b1, i)"
    and seal: "cbc_hmac_seal C B k n a (length ?m) ?p b1 = Ok (len, b')"
    using cbc_hmac_encrypt_OkD [OF assms(3)] by blast
  from cbc_hmac_seal_OkD [OF seal] obtain enc xs
    where e: "encrypt_padded_mut C (drop (cbc_key_size C) k) n (buf_as_ref B b1) (length ?m) = Some enc"
    and s: "(store_at (length ?m + ?p) (cbc_mac C k n a (take (length ?m + ?p) (buf_as_ref B (buf_as_mut B enc b1))))
        (buf_as_ref B (buf_as_mut B enc b1)) :: bytes crypto_result) = Ok xs"
    and r: "len = length ?m + ?p" "b' = buf_as_mut B xs (buf_as_mut B enc b1)"
    by blast
  have v1: "valid b1" "buf_as_ref B b1 = ?m @ replicate (?p + cbc_key_size C) 0"
    using extend_appends_zeroes [OF assms(1), of "?p + cbc_key_size C"] x by (auto simp: exceeded_buffer_def)
  have ct: "length ct = length ?m + ?p" by (simp add: ct_def C(1))
  have enc: "enc = ct @ replicate (cbc_key_size C) 0"
    using e v1(2) ct by (simp add: encrypt_padded_mut_def ct_def Let_def split: if_splits)
  have v2: "valid (buf_as_mut B enc b1)" "buf_as_ref B (buf_as_mut B enc b1) = enc"
    using as_mut_law [OF v1(1), of enc] v1(2) enc ct by auto
  have xs: "xs = ct @ cbc_mac C k n a ct"
    using s v2(2) enc ct C(4) by (simp add: store_at_def)
  have "length xs = length enc" using xs enc ct C(4) by simp
  with as_mut_law [OF v2(1), of xs] v2(2) r xs ct show ?thesis by simp
qed

lemma cbc_round_trip:
  assumes "valid b" "cbc_hmac_correct C" "cbc_hmac_encrypt_in_place C B k n a b = Ok (len, b')"
  shows "\<exists>b''. cbc_hmac_decrypt_in_place C B k n a b' = Ok b'' \<and> valid b'' \<and> buf_as_ref B b'' = buf_as_ref B b"
proof -
  let ?m = "buf_as_ref B b" and ?dk = "drop (cbc_key_size C) k"
  define ct where "ct = cbc_encrypt C ?dk n ?m"
  note C = cbc_hmac_correctD [OF assms(2)]
  have b': "valid b'" "buf_as_ref B b' = ct @ cbc_mac C k n a ct"
    using cbc_encrypt_contents [OF assms] by (simp_all add: ct_def)
  have g: "length n = cbc_block_size C" "\<not> aad_too_long a"
    using cbc_hmac_encrypt_OkD [OF assms(3)] by auto
  have d: "cbc_decrypt C ?dk n ct = Some ?m" and l: "length ?m \<le> length ct"
    using C(1,2) by (simp_all add: ct_def)
  let ?b = "buf_as_mut B (?m @ drop (length ?m) ct @ cbc_mac C k n a ct) b'"
  have v: "valid ?b" "buf_as_ref B ?b = ?m @ drop (length ?m) ct @ cbc_mac C k n a ct"
    using as_mut_law [OF b'(1)] b'(2) l by auto
  obtain b'' where "buffer_resize B (length ?m) ?b = Ok b''" "valid b''" "buf_as_ref B b'' = ?m"
    using resize_shrink [OF v(1), of "length ?m"] v(2) by auto
  with g b'(2) d C(4) show ?thesis by (simp add: cbc_hmac_decrypt_in_place_def Let_def)
qed

text \<open>Whatever decrypts carries the tag of its ciphertext.\<close>

lemma cbc_decrypt_authentic:
  assumes "cbc_hmac_decrypt_in_place C B k n a b = Ok b'"
  shows "\<exists>ct. buf_as_ref B b = ct @ cbc_mac C k n a ct \<and> cbc_key_size C \<le> length (buf_as_ref B b)"
proof -
  let ?e = "length (buf_as_ref B b) - cbc_key_size C"
  have "drop ?e (buf_as_ref B b) = cbc_mac C k n a (take ?e (buf_as_ref B b))"
    and le: "cbc_key_size C \<le> length (buf_as_ref B b)"
    using assms
    by (auto simp: cbc_hmac_decrypt_in_place_def invalid_nonce_def result_simps Let_def
        split: if_splits option.splits)
  then have "buf_as_ref B b = take ?e (buf_as_ref B b) @ cbc_mac C k n a (take ?e (buf_as_ref B b))"
    by (metis append_take_drop_id)
  with le show ?thesis by blast
qed

end

text \<open>
  C30. AES-CBC-HMAC over a secret buffer: whatever encrypts decrypts to the original bytes, and
  whatever decrypts is a ciphertext followed by its own authentication tag.
\<close>

theorem cbc_hmac_round_trip:
  assumes "cbc_hmac_correct C" and "secret_wf m"
    and "cbc_hmac_encrypt_in_place C (secret_buffer (at_least f)) k n a m = Ok (len, m')"
  shows "(\<exists>m''. cbc_hmac_decrypt_in_place C (secret_buffer (at_least f)) k n a m' = Ok m'' \<and>
      secret_data m'' = secret_data m) \<and>
    (\<forall>x y. cbc_hmac_decrypt_in_place C (secret_buffer (at_least f)) k n a x = Ok y \<longrightarrow>
      (\<exists>ct. secret_data x = ct @ cbc_mac C k n a ct))"
proof -
  have ref: "buf_as_ref (secret_buffer (at_least f)) x = secret_data x" for x by (simp add: secret_buffer_def)
  show ?thesis
    using secret.cbc_round_trip [OF assms(2,1,3)] secret.cbc_decrypt_authentic [of C f k n a] unfolding ref by blast
qed

theorem cbc_hmac_round_trip_witness:
  "\<exists>m' m''. cbc_hmac_encrypt_in_place toy_cbc (secret_buffer (at_least id)) (replicate 32 0) (replicate 16 0) []
      \<lparr>secret_data = [1, 2], secret_cap = 2, secret_moved = False\<rparr> = Ok (16, m') \<and>
    cbc_hmac_decrypt_in_place toy_cbc (secret_buffer (at_least id)) (replicate 32 0) (replicate 16 0) [] m' = Ok m'' \<and>
    secret_data m'' = [1, 2]"
proof -
  let ?m = "\<lparr>secret_data = [1, 2 :: byte], secret_cap = 2, secret_moved = False\<rparr>"
  let ?B = "secret_buffer (at_least id)"
  have wf: "secret_wf ?m" by (simp add: secret_wf_def)
  obtain m' where e: "cbc_hmac_encrypt_in_place toy_cbc ?B (replicate 32 0) (replicate 16 0) [] ?m = Ok (16, m')"
    by (simp add: cbc_hmac_encrypt_in_place_def cbc_hmac_seal_def toy_cbc_def secret_buffer_def aad_too_long_def padding_length_def
        buffer_extend_def Let_def secret_buffer_resize_def ensure_capacity_def vec_set_def vec_reserve_to_def
        at_least_def slice_def resized_def encrypt_padded_mut_def cbc_mac_def store_at_def)
  from cbc_hmac_round_trip [OF toy_cbc_correct wf this] e show ?thesis by auto
qed

text \<open>
  Over a writer on a fixed slice, encryption leaves as many unrelated bytes behind the tag as
  the message had, because extending the buffer adds the message length twice.
\<close>

theorem cbc_hmac_slice_writer_excess:
  assumes "cbc_hmac_correct C" and "slice_writer_wf w"
    and "cbc_hmac_encrypt_in_place C slice_buffer k n a w = Ok (len, w')"
  shows "length (writer_as_ref w') = len + cbc_key_size C + length (writer_as_ref w)"
proof -
  let ?m = "writer_as_ref w"
  let ?p = "padding_length C (length ?m)"
  note C = cbc_hmac_correctD [OF assms(1)]
  have m: "length ?m = slice_pos w" using assms(2) by (simp add: slice_writer_wf_def writer_as_ref_def)
  have ref: "buf_as_ref slice_buffer x = writer_as_ref x" for x by (simp add: slice_buffer_def)
  obtain w1 i where x: "buffer_extend slice_buffer (?p + cbc_key_size C) w = Ok (w1, i)"
    and seal: "cbc_hmac_seal C slice_buffer k n a (length ?m) ?p w1 = Ok (len, w')"
    using cbc_hmac_encrypt_OkD [OF assms(3)] unfolding ref by blast
  define w2 where "w2 enc = w1\<lparr>slice_inner := enc @ drop (slice_pos w1) (slice_inner w1)\<rparr>" for enc
  have mut: "buf_as_mut slice_buffer enc w1 = w2 enc" for enc by (simp add: slice_buffer_def w2_def)
  from cbc_hmac_seal_OkD [OF seal, unfolded ref mut] obtain enc xs
    where e: "encrypt_padded_mut C (drop (cbc_key_size C) k) n (writer_as_ref w1) (length ?m) = Some enc"
    and s: "(store_at (length ?m + ?p) (cbc_mac C k n a (take (length ?m + ?p) (writer_as_ref (w2 enc))))
        (writer_as_ref (w2 enc)) :: bytes crypto_result) = Ok xs"
    and r: "len = length ?m + ?p" "w' = buf_as_mut slice_buffer xs (w2 enc)"
    by blast
  have w1: "slice_pos w1 = 2 * length ?m + ?p + cbc_key_size C" "slice_pos w1 \<le> length (slice_inner w1)"
    using x m by (auto simp: buffer_extend_def slice_buffer_def Let_def slice_resize_def exceeded_buffer_def
        slice_def result_simps split: if_splits)
  then have l1: "length (writer_as_ref w1) = slice_pos w1" by (simp add: writer_as_ref_def)
  have "length enc = slice_pos w1"
    using e l1 by (auto simp: encrypt_padded_mut_def Let_def split: if_splits)
  then have "length xs = slice_pos w1"
    using s C(4) by (auto simp: store_at_def writer_as_ref_def w2_def split: if_splits)
  with r w1 show ?thesis by (simp add: writer_as_ref_def w2_def slice_buffer_def)
qed

theorem cbc_hmac_slice_writer_excess_witness:
  "\<exists>w'. cbc_hmac_encrypt_in_place toy_cbc slice_buffer (replicate 32 0) (replicate 16 0) []
      \<lparr>slice_inner = 1 # replicate 50 0, slice_pos = 1\<rparr> = Ok (16, w') \<and>
    length (writer_as_ref w') = 16 + cbc_key_size toy_cbc + length (writer_as_ref \<lparr>slice_inner = 1 # replicate 50 0, slice_pos = 1\<rparr>)"
proof -
  let ?w = "\<lparr>slice_inner = (1 :: byte) # replicate 50 0, slice_pos = 1\<rparr>"
  have wf: "slice_writer_wf ?w" by (simp add: slice_writer_wf_def)
  obtain w' where e: "cbc_hmac_encrypt_in_place toy_cbc slice_buffer (replicate 32 0) (replicate 16 0) [] ?w = Ok (16, w')"
    by (simp add: cbc_hmac_encrypt_in_place_def cbc_hmac_seal_def toy_cbc_def slice_buffer_def aad_too_long_def padding_length_def
        buffer_extend_def Let_def slice_resize_def writer_as_ref_def slice_def encrypt_padded_mut_def
        cbc_mac_def store_at_def)
  from cbc_hmac_slice_writer_excess [OF toy_cbc_correct wf this] e show ?thesis by blast
qed

end
