(* ===== verification/Kdf.thy ===== *)
theory Kdf
  imports Crypto_Buffer
begin

text \<open>
  The key derivations of \<open>askar-crypto/src/kdf\<close>: the concatenation KDF of NIST SP 800-56A, the
  ECDH-ES and ECDH-1PU derivations built on it, the Argon2 wrapper, and the HMAC derivation of
  \<open>askar-storage/src/protect/hmac_key.rs\<close>. The hash function, the key exchange of a key type,
  Argon2 and HMAC are parameters. A \<open>KeyDerivation\<close> is the function from the length of the output
  slice to its contents.
\<close>

type_synonym key_derivation = "nat \<Rightarrow> bytes crypto_result"

text \<open>\<open>FromKeyDerivation\<close> of the fixed-size key types: the key is filled by the derivation.\<close>

definition from_key_derivation :: "nat \<Rightarrow> key_derivation \<Rightarrow> bytes crypto_result" where
  "from_key_derivation key_len derive = derive key_len"

section \<open>The concatenation KDF\<close>

record ConcatKDFParams =
  kdf_alg :: bytes
  kdf_apu :: bytes
  kdf_apv :: bytes
  kdf_pub_info :: bytes
  kdf_prv_info :: bytes

text \<open>
  \<open>ConcatKDFHash\<close>: the bytes given to the hasher since its last reset, and the 32-bit counter.
\<close>

record ConcatKDFHash =
  kdf_hasher :: bytes
  kdf_counter :: u32

definition kdf_hash_new :: ConcatKDFHash where
  "kdf_hash_new = \<lparr>kdf_hasher = [], kdf_counter = 1\<rparr>"

definition start_pass :: "ConcatKDFHash \<Rightarrow> ConcatKDFHash" where
  "start_pass h = \<lparr>kdf_hasher = kdf_hasher h @ be_bytes32 (kdf_counter h), kdf_counter = kdf_counter h + 1\<rparr>"

definition hash_message :: "bytes \<Rightarrow> ConcatKDFHash \<Rightarrow> ConcatKDFHash" where
  "hash_message data h = h\<lparr>kdf_hasher := kdf_hasher h @ data\<rparr>"

text \<open>A byte string with its length in front, as a 32-bit number.\<close>

definition len_prefixed :: "bytes \<Rightarrow> bytes" where
  "len_prefixed data = be_bytes32 (word_of_nat (length data)) @ data"

definition params_bytes :: "ConcatKDFParams \<Rightarrow> bytes" where
  "params_bytes p = len_prefixed (kdf_alg p) @ len_prefixed (kdf_apu p) @ len_prefixed (kdf_apv p)
     @ kdf_pub_info p @ kdf_prv_info p"

definition hash_params :: "ConcatKDFParams \<Rightarrow> ConcatKDFHash \<Rightarrow> ConcatKDFHash" where
  "hash_params p h = h\<lparr>kdf_hasher := kdf_hasher h @ params_bytes p\<rparr>"

definition finish_pass :: "(bytes \<Rightarrow> bytes) \<Rightarrow> ConcatKDFHash \<Rightarrow> bytes \<times> ConcatKDFHash" where
  "finish_pass H h = (H (kdf_hasher h), h\<lparr>kdf_hasher := []\<rparr>)"

text \<open>One round of the loop of \<open>ConcatKDF::derive_key\<close>.\<close>

definition kdf_pass :: "(bytes \<Rightarrow> bytes) \<Rightarrow> bytes \<Rightarrow> ConcatKDFParams \<Rightarrow> ConcatKDFHash \<Rightarrow> bytes \<times> ConcatKDFHash" where
  "kdf_pass H message params h = finish_pass H (hash_params params (hash_message message (start_pass h)))"

text \<open>
  The loop itself; with a hash function of empty output it would not end, so the result is an
  option.
\<close>

partial_function (option) derive_loop :: "(bytes \<Rightarrow> bytes) \<Rightarrow> bytes \<Rightarrow> ConcatKDFParams \<Rightarrow> ConcatKDFHash \<Rightarrow> nat
    \<Rightarrow> bytes option" where
  "derive_loop H message params h remain =
     (if remain = 0 then Some []
      else Option.bind
        (derive_loop H message params (snd (kdf_pass H message params h))
          (remain - min (length (fst (kdf_pass H message params h))) remain))
        (\<lambda>rest. Some (take (min (length (fst (kdf_pass H message params h))) remain)
          (fst (kdf_pass H message params h)) @ rest)))"

definition concat_kdf_derive_key :: "(bytes \<Rightarrow> bytes) \<Rightarrow> nat \<Rightarrow> bytes \<Rightarrow> ConcatKDFParams \<Rightarrow> nat
    \<Rightarrow> bytes crypto_result option" where
  "concat_kdf_derive_key H output_size message params output_len =
     (if output_size * (2 ^ 32 - 1) - 1 < output_len then
        Some (Err (err_msg crypto_kind.Usage ''Exceeded max output size for concat KDF''))
      else map_option Ok (derive_loop H message params kdf_hash_new output_len))"

text \<open>The reference: the hashes of the successive counters, cut to the requested length.\<close>

definition concat_kdf_block :: "(bytes \<Rightarrow> bytes) \<Rightarrow> bytes \<Rightarrow> ConcatKDFParams \<Rightarrow> nat \<Rightarrow> bytes" where
  "concat_kdf_block H message params i = H (be_bytes32 (word_of_nat i) @ message @ params_bytes params)"

definition concat_kdf_spec :: "(bytes \<Rightarrow> bytes) \<Rightarrow> bytes \<Rightarrow> ConcatKDFParams \<Rightarrow> nat \<Rightarrow> nat \<Rightarrow> bytes" where
  "concat_kdf_spec H message params passes output_len =
     take output_len (concat (map (concat_kdf_block H message params) [1..<passes + 1]))"

lemma kdf_pass_eq:
  "kdf_pass H m p \<lparr>kdf_hasher = [], kdf_counter = word_of_nat i\<rparr> =
   (concat_kdf_block H m p i, \<lparr>kdf_hasher = [], kdf_counter = word_of_nat (Suc i)\<rparr>)"
  by (simp add: kdf_pass_def start_pass_def hash_message_def hash_params_def finish_pass_def
      concat_kdf_block_def add.commute [of 1])

lemma derive_loop_spec:
  assumes "\<And>x. length (H x) = n" "0 < n" "remain \<le> passes * n"
  shows "derive_loop H m p \<lparr>kdf_hasher = [], kdf_counter = word_of_nat i\<rparr> remain =
    Some (take remain (concat (map (concat_kdf_block H m p) [i..<i + passes])))"
  using assms(3)
proof (induction passes arbitrary: i remain)
  case 0
  then show ?case by (simp add: derive_loop.simps)
next
  case (Suc passes)
  show ?case
  proof (cases "remain = 0")
    case True
    then show ?thesis by (simp add: derive_loop.simps)
  next
    case False
    have l: "length (concat_kdf_block H m p i) = n" by (simp add: concat_kdf_block_def assms(1))
    have IH: "derive_loop H m p \<lparr>kdf_hasher = [], kdf_counter = word_of_nat (Suc i)\<rparr> (remain - min n remain) =
        Some (take (remain - min n remain) (concat (map (concat_kdf_block H m p) [Suc i..<Suc i + passes])))"
      using Suc.prems by (intro Suc.IH) auto
    have u: "[i..<i + Suc passes] = i # [Suc i..<Suc i + passes]"
      by (simp add: upt_conv_Cons del: upt_Suc)
    have "derive_loop H m p \<lparr>kdf_hasher = [], kdf_counter = word_of_nat i\<rparr> remain =
        Some (take (min n remain) (concat_kdf_block H m p i) @
          take (remain - min n remain) (concat (map (concat_kdf_block H m p) [Suc i..<Suc i + passes])))"
      by (subst derive_loop.simps) (simp add: False kdf_pass_eq l IH del: of_nat_Suc upt_Suc)
    also have "\<dots> = Some (take remain (concat (map (concat_kdf_block H m p) [i..<i + Suc passes])))"
      unfolding u using l by (simp add: min_def del: upt_Suc)
    finally show ?thesis .
  qed
qed

text \<open>
  C31. The concatenation KDF returns, for every output length it accepts, the hashes of the
  counters from one on, cut to that length; no counter value is used twice, since the number of
  passes stays below two to the 32.
\<close>

theorem concat_kdf_correct:
  assumes "\<And>x. length (H x) = n" and "0 < n" and "len \<le> n * (2 ^ 32 - 1) - 1" and "len \<le> passes * n"
    and "(passes - 1) * n < len"
  shows "concat_kdf_derive_key H n message params len = Some (Ok (concat_kdf_spec H message params passes len))
    \<and> passes < 2 ^ 32"
proof
  have "derive_loop H message params kdf_hash_new len =
      Some (take len (concat (map (concat_kdf_block H message params) [1..<1 + passes])))"
    using derive_loop_spec [of H n len passes message params 1] assms(1,2,4) by (simp add: kdf_hash_new_def)
  then show "concat_kdf_derive_key H n message params len = Some (Ok (concat_kdf_spec H message params passes len))"
    using assms(3) by (simp add: concat_kdf_derive_key_def concat_kdf_spec_def)
  have "(passes - 1) * n < n * (2 ^ 32 - 1)" using assms(2,3,5) by linarith
  then have "passes - 1 < 2 ^ 32 - 1" by (metis mult.commute mult_less_cancel2)
  then show "passes < 2 ^ 32" by simp
qed

theorem concat_kdf_correct_witness:
  "concat_kdf_derive_key (\<lambda>x. replicate 32 0) 32 [1] \<lparr>kdf_alg = [], kdf_apu = [], kdf_apv = [],
      kdf_pub_info = [], kdf_prv_info = []\<rparr> 40 =
    Some (Ok (concat_kdf_spec (\<lambda>x. replicate 32 0) [1] \<lparr>kdf_alg = [], kdf_apu = [], kdf_apv = [],
      kdf_pub_info = [], kdf_prv_info = []\<rparr> 2 40)) \<and> (2 :: nat) < 2 ^ 32"
  by (rule concat_kdf_correct) simp_all

section \<open>Injectivity of the parameter encoding\<close>

lemma len_prefixed_append_inject:
  assumes "length xs < 2 ^ 32" "length ys < 2 ^ 32"
  shows "len_prefixed xs @ us = len_prefixed ys @ vs \<longleftrightarrow> xs = ys \<and> us = vs"
proof
  assume e: "len_prefixed xs @ us = len_prefixed ys @ vs"
  then have "be_bytes32 (word_of_nat (length xs)) = be_bytes32 (word_of_nat (length ys))"
    by (simp add: len_prefixed_def)
  then have "(word_of_nat (length xs) :: u32) = word_of_nat (length ys)" by simp
  then have "unat (word_of_nat (length xs) :: u32) = unat (word_of_nat (length ys) :: u32)" by simp
  then have "length xs = length ys"
    using assms by (simp add: unat_of_nat take_bit_nat_eq_self)
  with e show "xs = ys \<and> us = vs" by (simp add: len_prefixed_def)
qed simp

text \<open>
  The parameters are hashed without ambiguity: two parameter sets whose fields are shorter
  than two to the 32 bytes hash alike only if algorithm, sender and recipient information agree,
  and the public and private information together.
\<close>

theorem kdf_params_injective:
  assumes "length (kdf_alg p) < 2 ^ 32" and "length (kdf_apu p) < 2 ^ 32" and "length (kdf_apv p) < 2 ^ 32"
    and "length (kdf_alg q) < 2 ^ 32" and "length (kdf_apu q) < 2 ^ 32" and "length (kdf_apv q) < 2 ^ 32"
    and "params_bytes p = params_bytes q"
  shows "kdf_alg p = kdf_alg q \<and> kdf_apu p = kdf_apu q \<and> kdf_apv p = kdf_apv q \<and>
    kdf_pub_info p @ kdf_prv_info p = kdf_pub_info q @ kdf_prv_info q"
  using assms unfolding params_bytes_def by (simp add: len_prefixed_append_inject)

theorem kdf_params_injective_witness:
  "kdf_alg \<lparr>kdf_alg = [1], kdf_apu = [], kdf_apv = [], kdf_pub_info = [2], kdf_prv_info = []\<rparr> =
      kdf_alg \<lparr>kdf_alg = [1], kdf_apu = [], kdf_apv = [], kdf_pub_info = [], kdf_prv_info = [2]\<rparr>"
  using kdf_params_injective [of "\<lparr>kdf_alg = [1], kdf_apu = [], kdf_apv = [], kdf_pub_info = [2], kdf_prv_info = []\<rparr>"
      "\<lparr>kdf_alg = [1], kdf_apu = [], kdf_apv = [], kdf_pub_info = [], kdf_prv_info = [2]\<rparr>"]
  by (simp add: params_bytes_def)

section \<open>ECDH-ES and ECDH-1PU\<close>

text \<open>
  \<open>write_key_exchange\<close> of a key type is the parameter \<open>kx\<close>: the shared secret it writes.
\<close>

record 'k EcdhEs =
  es_ephem_key :: 'k
  es_recip_key :: 'k
  es_alg :: bytes
  es_apu :: bytes
  es_apv :: bytes
  es_receive :: bool

definition ecdh_es_derive_key_bytes :: "(bytes \<Rightarrow> bytes) \<Rightarrow> ('k \<Rightarrow> 'k \<Rightarrow> bytes crypto_result) \<Rightarrow> 'k EcdhEs
    \<Rightarrow> key_derivation" where
  "ecdh_es_derive_key_bytes H kx d output_len =
     (if 32 < output_len then Err (err_msg crypto_kind.Unsupported ''Exceeded maximum output length'')
      else
        (let kdf = start_pass kdf_hash_new in
         res_bind (if es_receive d then kx (es_recip_key d) (es_ephem_key d)
                   else kx (es_ephem_key d) (es_recip_key d)) (\<lambda>z.
         let kdf = hash_message z kdf;
             kdf = hash_params \<lparr>kdf_alg = es_alg d, kdf_apu = es_apu d, kdf_apv = es_apv d,
               kdf_pub_info = be_bytes32 (word_of_nat output_len * 8), kdf_prv_info = []\<rparr> kdf;
             (key, kdf) = finish_pass H kdf
         in Ok (take output_len key))))"

record 'k Ecdh1PU =
  pu_ephem_key :: 'k
  pu_send_key :: 'k
  pu_recip_key :: 'k
  pu_alg :: bytes
  pu_apu :: bytes
  pu_apv :: bytes
  pu_cc_tag :: bytes
  pu_receive :: bool

text \<open>The public information is assembled in a 132-byte array.\<close>

definition ecdh_1pu_pub_info :: "nat \<Rightarrow> bytes \<Rightarrow> bytes crypto_result" where
  "ecdh_1pu_pub_info output_len cc_tag =
     res_bind (slice_write (be_bytes32 (word_of_nat output_len * 8)) (writer_from_slice (replicate 132 0))) (\<lambda>pub_w.
     res_bind (if cc_tag \<noteq> [] then
         res_bind (slice_write (be_bytes32 (word_of_nat (length cc_tag))) pub_w) (slice_write cc_tag)
       else Ok pub_w) (\<lambda>pub_w.
     Ok (writer_as_ref pub_w)))"

definition ecdh_1pu_derive_key_bytes :: "(bytes \<Rightarrow> bytes) \<Rightarrow> ('k \<Rightarrow> 'k \<Rightarrow> bytes crypto_result) \<Rightarrow> 'k Ecdh1PU
    \<Rightarrow> key_derivation" where
  "ecdh_1pu_derive_key_bytes H kx d output_len =
     (if 32 < output_len then Err (err_msg crypto_kind.Unsupported ''Exceeded maximum output length'')
      else if 128 < length (pu_cc_tag d) then
        Err (err_msg crypto_kind.Unsupported ''Exceeded maximum length for cc_tag'')
      else
        (let kdf = start_pass kdf_hash_new in
         res_bind (if pu_receive d then kx (pu_recip_key d) (pu_ephem_key d)
                   else kx (pu_ephem_key d) (pu_recip_key d)) (\<lambda>ze.
         res_bind (if pu_receive d then kx (pu_recip_key d) (pu_send_key d)
                   else kx (pu_send_key d) (pu_recip_key d)) (\<lambda>zs.
         res_bind (ecdh_1pu_pub_info output_len (pu_cc_tag d)) (\<lambda>pub_info.
         let kdf = hash_message zs (hash_message ze kdf);
             kdf = hash_params \<lparr>kdf_alg = pu_alg d, kdf_apu = pu_apu d, kdf_apv = pu_apv d,
               kdf_pub_info = pub_info, kdf_prv_info = []\<rparr> kdf;
             (key, kdf) = finish_pass H kdf
         in Ok (take output_len key))))))"

text \<open>What a Diffie-Hellman exchange promises for two key pairs and their public halves.\<close>

definition exchange_agrees :: "('k \<Rightarrow> 'k \<Rightarrow> bytes crypto_result) \<Rightarrow> 'k \<Rightarrow> 'k \<Rightarrow> 'k \<Rightarrow> 'k \<Rightarrow> bool" where
  "exchange_agrees kx a a_pub b b_pub \<longleftrightarrow> kx a b_pub = kx b a_pub"

text \<open>
  Both parties derive the same key: the sender from its ephemeral and static secret keys and
  the recipient's public key, the recipient from its secret key and the two public keys of the
  sender, for ECDH-ES and for ECDH-1PU.
\<close>

theorem ecdh_parties_agree:
  assumes "exchange_agrees kx ephem ephem_pub recip recip_pub"
    and "exchange_agrees kx send send_pub recip recip_pub"
  shows "ecdh_es_derive_key_bytes H kx \<lparr>es_ephem_key = ephem, es_recip_key = recip_pub, es_alg = alg,
        es_apu = apu, es_apv = apv, es_receive = False\<rparr> len =
      ecdh_es_derive_key_bytes H kx \<lparr>es_ephem_key = ephem_pub, es_recip_key = recip, es_alg = alg,
        es_apu = apu, es_apv = apv, es_receive = True\<rparr> len \<and>
    ecdh_1pu_derive_key_bytes H kx \<lparr>pu_ephem_key = ephem, pu_send_key = send, pu_recip_key = recip_pub,
        pu_alg = alg, pu_apu = apu, pu_apv = apv, pu_cc_tag = tag, pu_receive = False\<rparr> len =
      ecdh_1pu_derive_key_bytes H kx \<lparr>pu_ephem_key = ephem_pub, pu_send_key = send_pub, pu_recip_key = recip,
        pu_alg = alg, pu_apu = apu, pu_apv = apv, pu_cc_tag = tag, pu_receive = True\<rparr> len"
  using assms by (simp add: exchange_agrees_def ecdh_es_derive_key_bytes_def ecdh_1pu_derive_key_bytes_def)

theorem ecdh_parties_agree_witness:
  fixes kx :: "nat \<Rightarrow> nat \<Rightarrow> bytes crypto_result"
  defines "kx \<equiv> \<lambda>a b. Ok [word_of_nat (a mod 100 * (b mod 100))]"
  shows "ecdh_es_derive_key_bytes id kx \<lparr>es_ephem_key = 3, es_recip_key = 105, es_alg = [],
        es_apu = [], es_apv = [], es_receive = False\<rparr> 16 =
      ecdh_es_derive_key_bytes id kx \<lparr>es_ephem_key = 103, es_recip_key = 5, es_alg = [],
        es_apu = [], es_apv = [], es_receive = True\<rparr> 16"
  using ecdh_parties_agree [of kx 3 103 5 105 7 107 id "[]" "[]" "[]" 16 "[]"]
  by (simp add: exchange_agrees_def kx_def mult.commute)

lemma ecdh_1pu_pub_info_eq:
  "ecdh_1pu_pub_info output_len cc_tag =
     (if cc_tag = [] then Ok (be_bytes32 (word_of_nat output_len * 8))
      else if length cc_tag \<le> 124 then Ok (be_bytes32 (word_of_nat output_len * 8) @ len_prefixed cc_tag)
      else exceeded_buffer)"
proof -
  have r: "replicate 132 (0 :: byte) = replicate 4 0 @ replicate 4 0 @ replicate 124 0"
    by (simp flip: replicate_add)
  show ?thesis
    unfolding ecdh_1pu_pub_info_def writer_from_slice_def r
    by (auto simp: slice_write_def store_at_def Let_def exceeded_buffer_def writer_as_ref_def len_prefixed_def)
qed

text \<open>
  The tag of ECDH-1PU is accepted up to 124 bytes only: between 125 and 128 bytes the check
  for its length passes, but the array that holds the public information is too short, and the
  derivation fails with an exceeded buffer.
\<close>

theorem ecdh_1pu_tag_limit:
  assumes "len \<le> 32" and "125 \<le> length (pu_cc_tag d)" and "length (pu_cc_tag d) \<le> 128"
    and "kx (pu_recip_key d) (pu_ephem_key d) = Ok ze" and "kx (pu_ephem_key d) (pu_recip_key d) = Ok ze"
    and "kx (pu_recip_key d) (pu_send_key d) = Ok zs" and "kx (pu_send_key d) (pu_recip_key d) = Ok zs"
  shows "ecdh_1pu_derive_key_bytes H kx d len = exceeded_buffer"
  using assms by (auto simp: ecdh_1pu_derive_key_bytes_def ecdh_1pu_pub_info_eq exceeded_buffer_def)

theorem ecdh_1pu_tag_limit_witness:
  "ecdh_1pu_derive_key_bytes id (\<lambda>a b :: nat. Ok []) \<lparr>pu_ephem_key = 0, pu_send_key = 0, pu_recip_key = 0,
     pu_alg = [], pu_apu = [], pu_apv = [], pu_cc_tag = replicate 128 0, pu_receive = True\<rparr> 32 = exceeded_buffer"
  by (rule ecdh_1pu_tag_limit) simp_all

section \<open>Argon2 and HMAC\<close>

datatype Argon2Params = PARAMS_INTERACTIVE | PARAMS_MODERATE

text \<open>The memory and time costs of the two levels.\<close>

fun argon2_costs :: "Argon2Params \<Rightarrow> nat \<times> nat" where
  "argon2_costs PARAMS_INTERACTIVE = (32768, 4)"
| "argon2_costs PARAMS_MODERATE = (131072, 6)"

definition SALT_LENGTH :: nat where
  "SALT_LENGTH = 16"

record Argon2 =
  argon2_password :: bytes
  argon2_salt :: bytes
  argon2_params :: Argon2Params

definition argon2_new :: "bytes \<Rightarrow> bytes \<Rightarrow> Argon2Params \<Rightarrow> Argon2 crypto_result" where
  "argon2_new password salt params =
     (if length salt < SALT_LENGTH then Err (err_msg crypto_kind.Usage ''Invalid salt for argon2i hash'')
      else Ok \<lparr>argon2_password = password, argon2_salt = salt, argon2_params = params\<rparr>)"

text \<open>The hash function of the \<open>argon2\<close> crate: costs, password, salt and output length.\<close>

type_synonym argon2_hash = "nat \<times> nat \<Rightarrow> bytes \<Rightarrow> bytes \<Rightarrow> nat \<Rightarrow> bytes option"

definition argon2_derive_key_bytes :: "argon2_hash \<Rightarrow> Argon2 \<Rightarrow> key_derivation" where
  "argon2_derive_key_bytes hash_password_into d output_len =
     (if 2 ^ 32 - 1 < output_len then
        Err (err_msg crypto_kind.Usage ''Output length exceeds max for argon2i hash'')
      else
        (case hash_password_into (argon2_costs (argon2_params d)) (argon2_password d) (argon2_salt d) output_len of
           None \<Rightarrow> Err (err_msg crypto_kind.Unexpected ''Error deriving key'')
         | Some key \<Rightarrow> Ok key))"

text \<open>\<open>HmacKey::from_slice\<close>; the key is an array of \<open>key_len\<close> bytes.\<close>

definition hmac_key_from_slice :: "nat \<Rightarrow> bytes \<Rightarrow> bytes storage_result" where
  "hmac_key_from_slice key_len key =
     (if length key \<noteq> key_len then Err (err_msg storage_kind.Encryption ''invalid length for hmac key'')
      else Ok key)"

text \<open>
  \<open>HmacDeriver::derive_key_bytes\<close>: the inputs are fed to the HMAC in sequence. An HMAC accepts
  keys of every length, so creating it does not fail.
\<close>

definition hmac_derive_key_bytes :: "(bytes \<Rightarrow> bytes \<Rightarrow> bytes) \<Rightarrow> nat \<Rightarrow> bytes \<Rightarrow> bytes list \<Rightarrow> key_derivation" where
  "hmac_derive_key_bytes hmac hash_size key inputs output_len =
     (if hash_size < output_len then
        Err (err_msg crypto_kind.Encryption ''invalid length for hmac output'')
      else Ok (take output_len (hmac key (concat inputs))))"

end
