(* ===== verification/Uri_Options.thy ===== *)
theory Uri_Options
  imports Askar_Error "HOL-Library.AList"
begin

text \<open>
  Database URIs (\<open>askar-storage/src/options.rs\<close>): splitting a URI into its parts and writing the
  parts back. Percent encoding and the form encoding of query parameters come from other crates
  and are parameters.
\<close>

section \<open>Encodings\<close>

record uri_codec =
  percent_decode :: "string \<Rightarrow> string"
  percent_encode :: "string \<Rightarrow> string"
  form_parse :: "string \<Rightarrow> (string \<times> string) list"
  byte_serialize :: "string \<Rightarrow> string"

text \<open>The characters that separate the parts of a URI, and the escape character.\<close>

definition uri_special :: "char set" where
  "uri_special = {CHR ''#'', CHR '':'', CHR ''?'', CHR ''@'', CHR ''/''}"

definition has_escape :: "string \<Rightarrow> bool" where
  "has_escape s \<longleftrightarrow> CHR ''%'' \<in> set s"

text \<open>
  The documented behaviour: decoding undoes encoding on UTF-8 text and does nothing without an
  escape; encoded text has no separator; an empty query has no parameter and a single serialised
  one is read back.
\<close>

definition codec_correct :: "uri_codec \<Rightarrow> bool" where
  "codec_correct C \<longleftrightarrow>
     (\<forall>s. valid_str s \<longrightarrow> percent_decode C (percent_encode C s) = s) \<and>
     (\<forall>s. \<not> has_escape s \<longrightarrow> percent_decode C s = s) \<and>
     (\<forall>s. set (percent_encode C s) \<inter> uri_special = {}) \<and>
     (\<forall>s. s \<noteq> [] \<longrightarrow> percent_encode C s \<noteq> []) \<and>
     (\<forall>s. set (byte_serialize C s) \<inter> uri_special = {}) \<and>
     (\<forall>k v. valid_str k \<longrightarrow> valid_str v \<longrightarrow>
        form_parse C (byte_serialize C k @ CHR ''='' # byte_serialize C v) = [(k, v)])"

section \<open>Parsing and printing\<close>

record Options =
  opt_scheme :: string
  opt_user :: string
  opt_password :: string
  opt_host :: string
  opt_path :: string
  opt_query :: "(string \<times> string) list"
  opt_fragment :: string

definition unwrap_or_empty :: "string option \<Rightarrow> string" where
  "unwrap_or_empty m = (case m of None \<Rightarrow> [] | Some s \<Rightarrow> s)"

text \<open>\<open>trim_start_matches("//")\<close> removes every leading pair of slashes.\<close>

fun trim_start_slashes :: "string \<Rightarrow> string" where
  "trim_start_slashes (a # b # s) =
     (if a = CHR ''/'' \<and> b = CHR ''/'' then trim_start_slashes s else a # b # s)"
| "trim_start_slashes s = s"

text \<open>The query is a hash map: its entries here in some order, one per key, the last value kept.\<close>

definition parse_query_params :: "uri_codec \<Rightarrow> string \<Rightarrow> (string \<times> string) list" where
  "parse_query_params C q = foldl (\<lambda>m (k, v). AList.update k v m) [] (form_parse C q)"

text \<open>The user, password and host of the part before the query.\<close>

definition parse_user_host :: "uri_codec \<Rightarrow> string \<Rightarrow> string \<times> string \<times> string" where
  "parse_user_host C s =
     (let (user_pass, rest) = split_once (CHR ''@'') s in
      case rest of
        Some host \<Rightarrow>
          (let (user, pass) = split_once (CHR '':'') user_pass in
           (percent_decode C user, percent_decode C (unwrap_or_empty pass), host))
      | None \<Rightarrow> ([], [], user_pass))"

definition parse_host_path :: "uri_codec \<Rightarrow> string \<Rightarrow> string \<times> string" where
  "parse_host_path C host =
     (case split_once (CHR ''/'') host of
        (h, Some p) \<Rightarrow> (percent_decode C h, percent_decode C (CHR ''/'' # p))
      | (h, None) \<Rightarrow> (percent_decode C host, []))"

definition options_parse_uri :: "uri_codec \<Rightarrow> string \<Rightarrow> Options storage_result" where
  "options_parse_uri C uri =
     (let (uri, frag) = split_once (CHR ''#'') uri;
          fragment = percent_decode C (unwrap_or_empty frag);
          (scheme, remain) = split_once (CHR '':'') uri;
          (scheme, host_and_query) =
            (case remain of
               Some remain \<Rightarrow> if scheme = [] then ([], uri) else (scheme, trim_start_slashes remain)
             | None \<Rightarrow> ([], uri));
          scheme = percent_decode C scheme;
          (user_and_host, query) = split_once (CHR ''?'') host_and_query;
          (user, password, host) = parse_user_host C user_and_host;
          (host, path) = parse_host_path C host;
          query = (case query of Some q \<Rightarrow> parse_query_params C q | None \<Rightarrow> [])
      in Ok \<lparr>opt_scheme = scheme, opt_user = user, opt_password = password, opt_host = host,
             opt_path = path, opt_query = query, opt_fragment = fragment\<rparr>)"

definition options_into_uri :: "uri_codec \<Rightarrow> Options \<Rightarrow> string" where
  "options_into_uri C o1 =
     (if opt_scheme o1 \<noteq> [] then percent_encode C (opt_scheme o1) @ ''://'' else [])
     @ (if opt_user o1 \<noteq> [] \<or> opt_password o1 \<noteq> []
        then percent_encode C (opt_user o1) @ '':'' @ percent_encode C (opt_password o1) @ ''@'' else [])
     @ opt_host o1 @ opt_path o1
     @ (if opt_query o1 \<noteq> []
        then ''?'' @ concat (map (\<lambda>(k, v). byte_serialize C k @ ''='' @ byte_serialize C v) (opt_query o1)) else [])
     @ (if opt_fragment o1 \<noteq> [] then ''#'' @ percent_encode C (opt_fragment o1) else [])"

section \<open>Round trip\<close>

text \<open>
  The options that survive printing and parsing: a scheme, a host without separators, a path that
  is empty or starts with a single slash, neither with escapes, and at most one query parameter.
\<close>

definition printable_options :: "Options \<Rightarrow> bool" where
  "printable_options o1 \<longleftrightarrow> opt_scheme o1 \<noteq> [] \<and>
     valid_str (opt_scheme o1) \<and> valid_str (opt_user o1) \<and> valid_str (opt_password o1) \<and> valid_str (opt_fragment o1) \<and>
     set (opt_host o1) \<inter> uri_special = {} \<and> \<not> has_escape (opt_host o1) \<and> \<not> has_escape (opt_path o1) \<and>
     (opt_path o1 = [] \<or>
        (\<exists>p. opt_path o1 = CHR ''/'' # p \<and> set p \<inter> {CHR ''#'', CHR ''?'', CHR ''@''} = {} \<and>
           (p = [] \<or> hd p \<noteq> CHR ''/''))) \<and>
     (opt_query o1 = [] \<or> (\<exists>k v. opt_query o1 = [(k, v)] \<and> valid_str k \<and> valid_str v))"

lemma split_once_cut:
  "c \<notin> set xs \<Longrightarrow> split_once c (xs @ (if b then c # ys else [])) = (xs, if b then Some ys else None)"
  by simp

text \<open>The user part, the host and path, and the query of a printed URI.\<close>

definition auth_text :: "uri_codec \<Rightarrow> Options \<Rightarrow> string" where
  "auth_text C o1 = (if opt_user o1 \<noteq> [] \<or> opt_password o1 \<noteq> []
     then percent_encode C (opt_user o1) @ '':'' @ percent_encode C (opt_password o1) @ ''@'' else [])"

definition query_text :: "uri_codec \<Rightarrow> Options \<Rightarrow> string" where
  "query_text C o1 = concat (map (\<lambda>(k, v). byte_serialize C k @ ''='' @ byte_serialize C v) (opt_query o1))"

lemma into_uri_parts:
  assumes "opt_scheme o1 \<noteq> []"
  shows "options_into_uri C o1 =
    (percent_encode C (opt_scheme o1) @ CHR '':'' # ''//'' @ (auth_text C o1 @ opt_host o1 @ opt_path o1)
      @ (if opt_query o1 \<noteq> [] then CHR ''?'' # query_text C o1 else []))
    @ (if opt_fragment o1 \<noteq> [] then CHR ''#'' # percent_encode C (opt_fragment o1) else [])"
  using assms by (simp add: options_into_uri_def auth_text_def query_text_def)

lemma no_special:
  "set s \<inter> uri_special = {} \<Longrightarrow>
   CHR ''#'' \<notin> set s \<and> CHR '':'' \<notin> set s \<and> CHR ''?'' \<notin> set s \<and> CHR ''@'' \<notin> set s \<and> CHR ''/'' \<notin> set s"
  by (auto simp: uri_special_def)

lemma printable_path_chars:
  assumes "printable_options o1"
  shows "set (opt_path o1) \<inter> {CHR ''#'', CHR ''?'', CHR ''@''} = {}"
  using assms unfolding printable_options_def by auto

lemma trim_start_id: "take 2 s \<noteq> ''//'' \<Longrightarrow> trim_start_slashes s = s"
  by (cases s rule: trim_start_slashes.cases) auto

lemma codec_encoded_chars:
  assumes "codec_correct C"
  shows "set (percent_encode C s) \<inter> uri_special = {}" "set (byte_serialize C s) \<inter> uri_special = {}"
  using assms by (simp_all add: codec_correct_def)

lemma auth_text_chars:
  assumes "codec_correct C"
  shows "CHR ''#'' \<notin> set (auth_text C o1)" "CHR ''?'' \<notin> set (auth_text C o1)" "CHR ''/'' \<notin> set (auth_text C o1)"
  using no_special [OF codec_encoded_chars(1) [OF assms]] by (simp_all add: auth_text_def)

lemma query_text_chars:
  assumes "codec_correct C"
  shows "CHR ''#'' \<notin> set (query_text C o1)"
  using no_special [OF codec_encoded_chars(2) [OF assms]] by (auto simp: query_text_def)

lemma parse_auth_text:
  assumes "codec_correct C" "printable_options o1"
  shows "parse_user_host C (auth_text C o1 @ opt_host o1 @ opt_path o1) =
    (opt_user o1, opt_password o1, opt_host o1 @ opt_path o1)"
proof -
  have enc: "CHR ''@'' \<notin> set (percent_encode C s)" "CHR '':'' \<notin> set (percent_encode C s)" for s
    using no_special [OF codec_encoded_chars(1) [OF assms(1)]] by auto
  have dec: "percent_decode C (percent_encode C (opt_user o1)) = opt_user o1"
    "percent_decode C (percent_encode C (opt_password o1)) = opt_password o1"
    using assms by (simp_all add: codec_correct_def printable_options_def)
  have h: "CHR ''@'' \<notin> set (opt_host o1 @ opt_path o1)"
    using assms(2) printable_path_chars [OF assms(2)] by (auto simp: printable_options_def uri_special_def)
  show ?thesis
  proof (cases "opt_user o1 \<noteq> [] \<or> opt_password o1 \<noteq> []")
    case True
    have "split_once (CHR ''@'') ((percent_encode C (opt_user o1) @ CHR '':'' # percent_encode C (opt_password o1))
        @ CHR ''@'' # opt_host o1 @ opt_path o1) =
        (percent_encode C (opt_user o1) @ CHR '':'' # percent_encode C (opt_password o1), Some (opt_host o1 @ opt_path o1))"
      using enc by (intro split_once_append) simp
    with True enc dec show ?thesis
      by (auto simp: auth_text_def parse_user_host_def unwrap_or_empty_def)
  next
    case False
    with h show ?thesis by (auto simp: auth_text_def parse_user_host_def)
  qed
qed

lemma parse_host_path_text:
  assumes "codec_correct C" "printable_options o1"
  shows "parse_host_path C (opt_host o1 @ opt_path o1) = (opt_host o1, opt_path o1)"
proof -
  have h: "CHR ''/'' \<notin> set (opt_host o1)"
    using assms(2) by (auto simp: printable_options_def uri_special_def)
  have d: "percent_decode C (opt_host o1) = opt_host o1" "percent_decode C (opt_path o1) = opt_path o1"
    using assms by (simp_all add: codec_correct_def printable_options_def)
  from assms(2) consider "opt_path o1 = []" | p where "opt_path o1 = CHR ''/'' # p"
    unfolding printable_options_def by blast
  then show ?thesis
    using h d by cases (auto simp: parse_host_path_def)
qed

lemma parse_query_text:
  assumes "codec_correct C" "printable_options o1" "opt_query o1 \<noteq> []"
  shows "parse_query_params C (query_text C o1) = opt_query o1"
proof -
  obtain k v where q: "opt_query o1 = [(k, v)]" "valid_str k" "valid_str v"
    using assms(2,3) by (auto simp: printable_options_def)
  then have "form_parse C (byte_serialize C k @ CHR ''='' # byte_serialize C v) = [(k, v)]"
    using assms(1) by (simp add: codec_correct_def)
  with q show ?thesis by (simp add: query_text_def parse_query_params_def)
qed

lemma hostpart_start:
  assumes "codec_correct C" "printable_options o1"
  shows "take 2 (auth_text C o1 @ opt_host o1 @ opt_path o1 @ (if b then CHR ''?'' # r else [])) \<noteq> ''//''"
proof -
  have a: "CHR ''/'' \<notin> set (auth_text C o1)" by (rule auth_text_chars(3) [OF assms(1)])
  have h: "CHR ''/'' \<notin> set (opt_host o1)"
    using assms(2) by (auto simp: printable_options_def uri_special_def)
  have p: "opt_path o1 = [] \<or> (\<exists>p. opt_path o1 = CHR ''/'' # p \<and> (p = [] \<or> hd p \<noteq> CHR ''/''))"
    using assms(2) unfolding printable_options_def by blast
  show ?thesis
    using a h p
    by (cases "auth_text C o1"; cases "opt_host o1"; cases "opt_path o1"; cases "tl (opt_path o1)")
       (auto split: if_splits simp: take_Cons')
qed

text \<open>
  Printing options to a URI and parsing the URI returns the options, for options with a
  scheme, a plain host and path and at most one query parameter; the encodings may escape what
  they like.
\<close>

theorem options_round_trip:
  assumes "codec_correct C" and "printable_options o1"
  shows "options_parse_uri C (options_into_uri C o1) = Ok o1"
proof -
  let ?hp = "auth_text C o1 @ opt_host o1 @ opt_path o1"
  let ?q = "if opt_query o1 \<noteq> [] then CHR ''?'' # query_text C o1 else []"
  let ?s = "percent_encode C (opt_scheme o1)"
  have sch: "opt_scheme o1 \<noteq> []" "?s \<noteq> []" "percent_decode C ?s = opt_scheme o1"
    "percent_decode C (percent_encode C (opt_fragment o1)) = opt_fragment o1" "percent_decode C [] = []"
    using assms by (auto simp: codec_correct_def printable_options_def has_escape_def)
  have s_chars: "CHR ''#'' \<notin> set ?s" "CHR '':'' \<notin> set ?s"
    using no_special [OF codec_encoded_chars(1) [OF assms(1)]] by auto
  have hp_chars: "CHR ''#'' \<notin> set ?hp" "CHR ''?'' \<notin> set ?hp"
    using auth_text_chars [OF assms(1), of o1] printable_path_chars [OF assms(2)] assms(2)
    by (auto simp: printable_options_def uri_special_def)
  have frag: "split_once (CHR ''#'') (options_into_uri C o1) =
      (?s @ CHR '':'' # ''//'' @ ?hp @ ?q, if opt_fragment o1 \<noteq> [] then Some (percent_encode C (opt_fragment o1)) else None)"
    unfolding into_uri_parts [OF sch(1)]
    by (subst split_once_cut) (use s_chars hp_chars query_text_chars [OF assms(1)] in auto)
  have colon: "split_once (CHR '':'') (?s @ CHR '':'' # ''//'' @ ?hp @ ?q) = (?s, Some (''//'' @ ?hp @ ?q))"
    using s_chars by (intro split_once_append) simp
  have trim: "trim_start_slashes (''//'' @ ?hp @ ?q) = ?hp @ ?q"
    using hostpart_start [OF assms, of "opt_query o1 \<noteq> []" "query_text C o1"] by (simp add: trim_start_id)
  have qm: "split_once (CHR ''?'') (?hp @ ?q) = (?hp, if opt_query o1 \<noteq> [] then Some (query_text C o1) else None)"
    by (subst split_once_cut) (use hp_chars in auto)
  show ?thesis
    using frag colon trim qm sch parse_auth_text [OF assms] parse_host_path_text [OF assms]
      parse_query_text [OF assms]
    by (simp add: options_parse_uri_def unwrap_or_empty_def)
qed

text \<open>A codec for which the hypothesis holds: every character is written as a two-letter escape.\<close>

definition esc_digit :: "nat \<Rightarrow> char" where
  "esc_digit d = char_of (97 + d)"

definition esc_char :: "char \<Rightarrow> string" where
  "esc_char c = [CHR ''%'', esc_digit (of_char c div 16), esc_digit (of_char c mod 16)]"

fun unesc :: "string \<Rightarrow> string" where
  "unesc (p # a # b # s) =
     (if p = CHR ''%'' then char_of (((of_char a - 97) * 16 + (of_char b - 97)) mod 256 :: nat) # unesc s
      else p # unesc (a # b # s))"
| "unesc (p # s) = p # unesc s"
| "unesc [] = []"

definition toy_codec :: uri_codec where
  "toy_codec = \<lparr>percent_decode = unesc, percent_encode = concat \<circ> map esc_char,
     form_parse = (\<lambda>q. case split_once (CHR ''='') q of (k, v) \<Rightarrow> [(unesc k, unesc (unwrap_or_empty v))]),
     byte_serialize = concat \<circ> map esc_char\<rparr>"

lemma of_char_esc_digit: "d < 16 \<Longrightarrow> of_char (esc_digit d) = 97 + d"
  by (simp add: esc_digit_def)

lemma esc_digit_range: "d < 16 \<Longrightarrow> 97 \<le> (of_char (esc_digit d) :: nat) \<and> (of_char (esc_digit d) :: nat) < 113"
  by (simp add: of_char_esc_digit)

lemma nat_of_char_lt: "(of_char c :: nat) < 256"
  using nat_of_char_less_256 [of c] by simp

lemma unesc_esc: "unesc (esc_char c @ s) = c # unesc s"
proof -
  have "(of_char c :: nat) div 16 < 16" using nat_of_char_lt [of c] by (simp add: less_mult_imp_div_less)
  then show ?thesis
    using nat_of_char_lt [of c] by (simp add: esc_char_def of_char_esc_digit)
qed

lemma unesc_encode: "unesc (concat (map esc_char s)) = s"
  by (induction s) (simp_all add: unesc_esc)

lemma unesc_plain: "CHR ''%'' \<notin> set s \<Longrightarrow> unesc s = s"
  by (induction s rule: unesc.induct) auto

lemma esc_char_set: "x \<in> set (esc_char c) \<Longrightarrow> x = CHR ''%'' \<or> 97 \<le> (of_char x :: nat)"
proof -
  have "(of_char c :: nat) div 16 < 16" using nat_of_char_lt [of c] by (simp add: less_mult_imp_div_less)
  then show "x \<in> set (esc_char c) \<Longrightarrow> x = CHR ''%'' \<or> 97 \<le> (of_char x :: nat)"
    by (auto simp: esc_char_def of_char_esc_digit)
qed

lemma toy_codec_correct [simp]: "codec_correct toy_codec"
proof -
  have ch: "x \<noteq> CHR ''#'' \<and> x \<noteq> CHR '':'' \<and> x \<noteq> CHR ''?'' \<and> x \<noteq> CHR ''@'' \<and> x \<noteq> CHR ''/'' \<and> x \<noteq> CHR ''=''"
    if "x \<in> set (concat (map esc_char s))" for x s
    using that esc_char_set by fastforce
  have "split_once (CHR ''='') (concat (map esc_char k) @ CHR ''='' # v) = (concat (map esc_char k), Some v)" for k v
    using ch [of "CHR ''=''" k] by (intro split_once_append) blast
  moreover have "concat (map esc_char s) \<noteq> []" if "s \<noteq> []" for s
    using that by (cases s) (auto simp: esc_char_def)
  moreover have "set (concat (map esc_char s)) \<inter> uri_special = {}" for s
    using ch [of _ s] unfolding uri_special_def by blast
  ultimately show ?thesis
    by (simp add: codec_correct_def toy_codec_def unesc_encode unesc_plain has_escape_def unwrap_or_empty_def)
qed

theorem options_round_trip_witness:
  "options_parse_uri toy_codec (options_into_uri toy_codec \<lparr>opt_scheme = ''postgres'', opt_user = ''u/'',
      opt_password = [], opt_host = ''host'', opt_path = ''/db'', opt_query = [(''a'', ''b'')], opt_fragment = []\<rparr>) =
    Ok \<lparr>opt_scheme = ''postgres'', opt_user = ''u/'',
      opt_password = [], opt_host = ''host'', opt_path = ''/db'', opt_query = [(''a'', ''b'')], opt_fragment = []\<rparr>"
  by (rule options_round_trip)
     (simp_all add: printable_options_def valid_str_def uri_special_def has_escape_def)

text \<open>
  Two query parameters are printed without a separator: the text is that of a single
  parameter whose value has the second parameter attached.
\<close>

theorem options_into_uri_two_params:
  "options_into_uri C (o1\<lparr>opt_query := [(k1, v1), (k2, v2)], opt_fragment := []\<rparr>) =
   options_into_uri C (o1\<lparr>opt_query := [], opt_fragment := []\<rparr>) @ ''?'' @
     (byte_serialize C k1 @ ''='' @ byte_serialize C v1) @ (byte_serialize C k2 @ ''='' @ byte_serialize C v2)"
  by (simp add: options_into_uri_def)

end
