(* ===== verification/Db_Query.thy ===== *)
theory Db_Query
  imports Wql_Sql
begin

text \<open>
  The statement building of \<open>askar-storage/src/backend/db_utils.rs\<close>: numbering the placeholders
  of a filter, the parameters of a statement, and extending a statement by a filter, an order and
  a limit. The main result connects the numbering with the SQL encoder: the placeholder of each
  argument carries the position of that argument in the statement's parameter list.
\<close>

section \<open>Parameters of a statement\<close>

datatype sql_arg = ArgInt int | ArgText string | ArgBlob bytes | ArgNull

record QueryParams =
  params_args :: "sql_arg list"
  params_count :: nat

definition params_new :: QueryParams where
  "params_new = \<lparr>params_args = [], params_count = 0\<rparr>"

definition params_push :: "sql_arg \<Rightarrow> QueryParams \<Rightarrow> QueryParams" where
  "params_push v p = \<lparr>params_args = params_args p @ [v], params_count = params_count p + 1\<rparr>"

definition params_extend :: "sql_arg list \<Rightarrow> QueryParams \<Rightarrow> QueryParams" where
  "params_extend vs p = fold params_push vs p"

definition params_len :: "QueryParams \<Rightarrow> nat" where
  "params_len p = params_count p"

definition params_wf :: "QueryParams \<Rightarrow> bool" where
  "params_wf p \<longleftrightarrow> params_count p = length (params_args p)"

lemma params_new_wf [simp]: "params_wf params_new"
  by (simp add: params_wf_def params_new_def)

lemma params_push_wf [simp]: "params_wf p \<Longrightarrow> params_wf (params_push v p)"
  by (simp add: params_wf_def params_push_def)

lemma params_args_push [simp]: "params_args (params_push v p) = params_args p @ [v]"
  by (simp add: params_push_def)

lemma params_extend_wf [simp]: "params_wf p \<Longrightarrow> params_wf (params_extend vs p)"
  by (induction vs arbitrary: p) (auto simp: params_extend_def)

lemma params_args_extend [simp]: "params_args (params_extend vs p) = params_args p @ vs"
  by (induction vs arbitrary: p) (auto simp: params_extend_def)

lemma params_len_wf: "params_wf p \<Longrightarrow> params_len p = length (params_args p)"
  by (simp add: params_wf_def params_len_def)

section \<open>Placeholders\<close>

text \<open>
  \<open>replace_arg_placeholders\<close>, for the backend's \<open>placeholder\<close> function. \<open>index\<close> is the next
  sequential number; the text up to the next dollar sign is copied. A number that does not fit
  \<open>i64\<close> makes \<open>parse::<i64>().unwrap()\<close> panic.
\<close>

function replace_placeholders :: "(u64 \<Rightarrow> string) \<Rightarrow> u64 \<Rightarrow> u64 \<Rightarrow> string \<Rightarrow> (string, 'e) result" where
  "replace_placeholders pl start index [] = Ok []"
| "replace_placeholders pl start index (c # cs) =
     (if c \<noteq> CHR ''$'' then res_map (Cons c) (replace_placeholders pl start index cs)
      else
        (case cs of
           [] \<Rightarrow> Ok [c]
         | d # ds \<Rightarrow>
             if d = CHR ''$'' then
               res_map (\<lambda>r. pl index @ r) (replace_placeholders pl start (index + 1) ds)
             else if is_digit d then
               (let n = parse_digits (d # takeWhile is_digit ds) in
                if 2 ^ 63 \<le> n then Panic
                else res_map (\<lambda>r. pl (word_of_nat n + start - 1) @ r)
                  (replace_placeholders pl start (index + 1) (dropWhile is_digit ds)))
             else res_map (Cons c) (replace_placeholders pl start index (d # ds))))"
  by pat_completeness auto
termination
  by (relation "measure (\<lambda>(_, _, _, cs). length cs)")
     (auto simp: less_Suc_eq_le intro: le_trans [OF length_dropWhile_le] le_SucI)

definition replace_arg_placeholders :: "(u64 \<Rightarrow> string) \<Rightarrow> string \<Rightarrow> u64 \<Rightarrow> (string, 'e) result" where
  "replace_arg_placeholders pl flt start_index = replace_placeholders pl start_index start_index flt"

text \<open>\<open>QueryPrepare::placeholder\<close>, and its override in the PostgreSQL backend.\<close>

definition placeholder :: "u64 \<Rightarrow> string" where
  "placeholder index = CHR ''?'' # show_i64 index"

definition pg_placeholder :: "u64 \<Rightarrow> string" where
  "pg_placeholder index = CHR ''$'' # show_i64 index"

section \<open>Numbering the placeholders of an encoded filter\<close>

text \<open>The text of a sequence of tokens, each reference rendered as a placeholder.\<close>

fun render :: "(nat \<Rightarrow> string) \<Rightarrow> nat \<Rightarrow> nat \<Rightarrow> token list \<Rightarrow> string" where
  "render pl st i [] = []"
| "render pl st i (Lit s # ts) = s @ render pl st i ts"
| "render pl st i (Num n # ts) = pl (n + st - 1) @ render pl st (Suc i) ts"
| "render pl st i (Auto # ts) = pl i @ render pl st (Suc i) ts"

fun refs_count :: "token list \<Rightarrow> nat" where
  "refs_count [] = 0"
| "refs_count (Lit s # ts) = refs_count ts"
| "refs_count (Num n # ts) = Suc (refs_count ts)"
| "refs_count (Auto # ts) = Suc (refs_count ts)"

text \<open>
  Token sequences that the scanner reads back: no dollar sign in literal text, and a number is
  followed by literal text that does not start with a digit.
\<close>

fun spaced :: "token list \<Rightarrow> bool" where
  "spaced [] \<longleftrightarrow> True"
| "spaced (Lit s # ts) \<longleftrightarrow> CHR ''$'' \<notin> set s \<and> spaced ts"
| "spaced (Auto # ts) \<longleftrightarrow> spaced ts"
| "spaced (Num n # ts) \<longleftrightarrow> 0 < n \<and> n < 2 ^ 63 \<and> spaced ts \<and>
     (case ts of Lit (c # s) # _ \<Rightarrow> \<not> is_digit c | _ \<Rightarrow> False)"

lemma append_Nil_fun: "(@) [] = (\<lambda>x. x)"
  by auto

lemma append_Cons_fun: "(@) (a # s) = (\<lambda>x. a # s @ x)"
  by auto

lemma replace_literal:
  "CHR ''$'' \<notin> set s \<Longrightarrow>
   replace_placeholders pl st i (s @ r) = res_map (\<lambda>x. s @ x) (replace_placeholders pl st i r)"
  by (induction s) (auto simp: res_map_res_map append_Nil_fun append_Cons_fun)

lemma replace_number:
  assumes "n < 2 ^ 63" "r = [] \<or> \<not> is_digit (hd r)"
  shows "replace_placeholders pl st i (CHR ''$'' # show_nat n @ r) =
    res_map (\<lambda>x. pl (word_of_nat n + st - 1) @ x) (replace_placeholders pl st (i + 1) r)"
proof -
  obtain d ds where sh: "show_nat n = d # ds" using show_nat_ne by (cases "show_nat n") auto
  have dg: "is_digit d" "list_all is_digit ds" using show_nat_digits [of n] sh by auto
  have nd: "d \<noteq> CHR ''$''" using dg(1) by (auto simp: is_digit_def)
  have tk: "takeWhile is_digit (ds @ r) = ds" and dr: "dropWhile is_digit (ds @ r) = r"
    using dg(2) assms(2) by (cases r; auto simp: list_all_iff takeWhile_append dropWhile_append)+
  have "parse_digits (d # ds) = n" using parse_show_nat [of n] sh by simp
  with sh dg nd tk dr assms(1) show ?thesis by simp
qed

lemma replace_tokens:
  "spaced ts \<Longrightarrow> replace_placeholders pl (word_of_nat st) (word_of_nat i) (concat (map token_text ts)) =
   Ok (render (pl \<circ> word_of_nat) st i ts)"
proof (induction "pl \<circ> word_of_nat" st i ts rule: render.induct)
  case (2 st i s ts)
  then show ?case by (simp add: replace_literal)
next
  case (3 st i n ts)
  then have hd: "concat (map token_text ts) = [] \<or> \<not> is_digit (hd (concat (map token_text ts)))"
    by (auto split: list.splits token.splits)
  have w: "word_of_nat n + word_of_nat st - 1 = (word_of_nat (n + st - 1) :: u64)"
    using 3(2) by (simp add: of_nat_diff)
  have "n < 2 ^ 63" using 3(2) by simp
  from 3 show ?case
    by (simp add: replace_number [OF \<open>n < 2 ^ 63\<close> hd] w add.commute [of 1] del: replace_placeholders.simps of_nat_diff)
next
  case (4 st i ts)
  then show ?case by (simp add: add.commute [of 1])
qed simp

text \<open>The final text of a condition: the argument at position \<open>p\<close> has placeholder \<open>st + p\<close>.\<close>

fun clause_sql :: "(nat \<Rightarrow> string) \<Rightarrow> nat \<Rightarrow> sql_clause \<Rightarrow> string" where
  "clause_sql pl st (SqlOp negate op k pfx pt) =
     sel_text negate @ pl (st + k) @ '' AND value '' @ compare_op_sql op @ '' '' @ pl (st + k + 1)
     @ (if pfx then '' AND SUBSTR(value, 1, 12) '' @ prefix_op_text op @ '' '' @ pl (st + k + 2)
        else [])
     @ pt_text pt"
| "clause_sql pl st (SqlIn negate k n pt) =
     sel_text negate @ pl (st + k) @ '' AND value IN (''
     @ join '', '' (map pl [st + k + 1..<st + k + 1 + n]) @ '')'' @ pt_text pt"
| "clause_sql pl st (SqlExist negate k pt) = sel_text negate @ pl (st + k) @ pt_text pt"
| "clause_sql pl st (SqlConj op cs) =
     (if 1 < length cs then ''('' else [])
     @ join (conjunction_op_sql op) (map (clause_sql pl st) cs)
     @ (if 1 < length cs then '')'' else [])"
| "clause_sql pl st SqlFalse = ''0''"

text \<open>A token sequence that can be followed by anything.\<close>

definition closed_tokens :: "token list \<Rightarrow> bool" where
  "closed_tokens ts \<longleftrightarrow> spaced ts \<and> (ts = [] \<or> (\<forall>n. last ts \<noteq> Num n))"

lemma spaced_append: "spaced xs \<Longrightarrow> (xs = [] \<or> (\<forall>n. last xs \<noteq> Num n)) \<Longrightarrow> spaced ys \<Longrightarrow> spaced (xs @ ys)"
  by (induction xs rule: spaced.induct) (auto split: list.splits token.splits if_splits)

lemma closed_tokens_Nil [simp]: "closed_tokens []"
  by (simp add: closed_tokens_def)

lemma closed_tokens_append: "closed_tokens xs \<Longrightarrow> closed_tokens ys \<Longrightarrow> closed_tokens (xs @ ys)"
  by (cases "ys = []") (auto simp: closed_tokens_def intro: spaced_append)

lemma closed_tokens_Lit [simp]: "closed_tokens (Lit s # ts) \<longleftrightarrow> CHR ''$'' \<notin> set s \<and> closed_tokens ts"
  by (auto simp: closed_tokens_def)

lemma closed_tokens_Auto [simp]: "closed_tokens (Auto # ts) \<longleftrightarrow> closed_tokens ts"
  by (auto simp: closed_tokens_def)

lemma closed_tokens_Num [simp]:
  "closed_tokens (Num n # Lit (c # s) # ts) \<longleftrightarrow>
     0 < n \<and> n < 2 ^ 63 \<and> \<not> is_digit c \<and> closed_tokens (Lit (c # s) # ts)"
  by (auto simp: closed_tokens_def)

lemma closed_tokens_join:
  "closed_tokens sep \<Longrightarrow> list_all closed_tokens xs \<Longrightarrow> closed_tokens (join sep xs)"
  by (induction sep xs rule: join.induct) (auto intro: closed_tokens_append)

lemma no_dollar_text [simp]:
  "CHR ''$'' \<notin> set (sel_text b)" "CHR ''$'' \<notin> set (pt_text b)"
  "CHR ''$'' \<notin> set (compare_op_sql op)" "CHR ''$'' \<notin> set (conjunction_op_sql cop)"
  "CHR ''$'' \<notin> set (prefix_op_text op)"
  by (auto simp: sel_text_def pt_text_def prefix_op_text_def) (cases op; cases cop; auto)+

lemma closed_tokens_replicate_Auto: "closed_tokens (join [Lit '', ''] (replicate n [Auto]))"
  by (rule closed_tokens_join) (simp_all add: list_all_iff)

lemma clause_closed:
  "(\<forall>p \<in> set (clause_refs c). p + 1 < 2 ^ 63) \<Longrightarrow> closed_tokens (clause_tokens c)"
proof (induction c)
  case (SqlOp negate op k pfx pt)
  have "k + (if pfx then 2 else 1) \<in> set (clause_refs (SqlOp negate op k pfx pt))" by simp
  with SqlOp have "k + (if pfx then 2 else 1) + 1 < 2 ^ 63" by blast
  then show ?case by (auto simp: pt_text_def is_digit_def split: if_splits)
next
  case (SqlIn negate k n pt)
  show ?case
    by (simp add: closed_tokens_append closed_tokens_replicate_Auto)
next
  case (SqlConj op cs)
  then have "list_all closed_tokens (map clause_tokens cs)" by (auto simp: list_all_iff)
  then have "closed_tokens (join [Lit (conjunction_op_sql op)] (map clause_tokens cs))"
    by (rule closed_tokens_join [rotated]) simp
  then show ?case by (simp add: closed_tokens_append)
qed simp_all

text \<open>Consecutive positions.\<close>

fun consecutive :: "nat \<Rightarrow> nat list \<Rightarrow> bool" where
  "consecutive j [] \<longleftrightarrow> True"
| "consecutive j (x # xs) \<longleftrightarrow> x = j \<and> consecutive (Suc j) xs"

lemma consecutive_append:
  "consecutive j (xs @ ys) \<longleftrightarrow> consecutive j xs \<and> consecutive (j + length xs) ys"
  by (induction xs arbitrary: j) auto

lemma consecutive_upt [simp]: "consecutive j [j..<k]"
proof (induction "k - j" arbitrary: j)
  case (Suc n)
  then show ?case by (simp add: upt_conv_Cons)
qed simp

lemma consecutive_upt_start: "consecutive j [k..<l] \<Longrightarrow> k < l \<Longrightarrow> k = j"
  by (simp add: upt_conv_Cons)

lemma render_autos:
  "render pl st i (join [Lit s] (replicate n [Auto]) @ ts) =
   join s (map pl [i..<i + n]) @ render pl st (i + n) ts"
proof (induction n arbitrary: i)
  case (Suc n)
  then show ?case
    by (cases n) (simp_all add: join_Cons upt_rec [of i] del: upt_Suc)
qed simp

lemma render_join:
  assumes "\<And>c j ts. c \<in> set cs \<Longrightarrow> consecutive j (clause_refs c) \<Longrightarrow>
      render pl st (st + j) (clause_tokens c @ ts) =
      clause_sql pl st c @ render pl st (st + j + length (clause_refs c)) ts"
    and "consecutive j (concat (map clause_refs cs))"
  shows "render pl st (st + j) (join [Lit s] (map clause_tokens cs) @ ts) =
    join s (map (clause_sql pl st) cs) @ render pl st (st + j + length (concat (map clause_refs cs))) ts"
  using assms
proof (induction cs arbitrary: j)
  case (Cons c cs)
  then have c: "consecutive j (clause_refs c)"
    and r: "consecutive (j + length (clause_refs c)) (concat (map clause_refs cs))"
    by (simp_all add: consecutive_append)
  have IH: "render pl st (st + (j + length (clause_refs c))) (join [Lit s] (map clause_tokens cs) @ ts) =
      join s (map (clause_sql pl st) cs) @
      render pl st (st + (j + length (clause_refs c)) + length (concat (map clause_refs cs))) ts"
    using Cons.prems(1) by (intro Cons.IH r) auto
  show ?case
    using Cons.prems(1) [OF _ c] IH by (cases "cs = []") (simp_all add: join_Cons add.assoc)
qed simp

lemma render_clause:
  "consecutive j (clause_refs c) \<Longrightarrow>
   render pl st (st + j) (clause_tokens c @ ts) =
   clause_sql pl st c @ render pl st (st + j + length (clause_refs c)) ts"
proof (induction c arbitrary: j ts)
  case (SqlOp negate op k pfx pt)
  then have "k = j" using consecutive_upt_start [of j k] by (simp split: if_splits)
  then show ?case by (auto simp: add.commute eval_nat_numeral)
next
  case (SqlIn negate k n pt)
  then have "k = j" using consecutive_upt_start [of j k "k + 1 + n"] by (simp del: upt_Suc)
  then show ?case by (simp add: render_autos)
next
  case (SqlExist negate k pt)
  then show ?case by simp
next
  case (SqlConj op cs)
  have "render pl st (st + j) (join [Lit (conjunction_op_sql op)] (map clause_tokens cs) @ ts') =
      join (conjunction_op_sql op) (map (clause_sql pl st) cs) @
      render pl st (st + j + length (concat (map clause_refs cs))) ts'" for ts'
    using SqlConj.prems by (intro render_join SqlConj.IH) auto
  then show ?case by simp
qed simp

lemma replace_clause_text:
  assumes "clause_refs c = [0..<n]" "n < 2 ^ 63"
  shows "replace_arg_placeholders pl (clause_text c) (word_of_nat st) =
    Ok (clause_sql (pl \<circ> word_of_nat) st c)"
proof -
  have "consecutive 0 (clause_refs c)" using assms(1) by simp
  then have "render (pl \<circ> word_of_nat) st st (clause_tokens c) = clause_sql (pl \<circ> word_of_nat) st c"
    using render_clause [of 0 c "pl \<circ> word_of_nat" st "[]"] by simp
  moreover have "closed_tokens (clause_tokens c)"
    using assms by (intro clause_closed) auto
  ultimately show ?thesis
    by (simp add: replace_arg_placeholders_def clause_text_def replace_tokens closed_tokens_def)
qed

text \<open>
  C35. Numbering the placeholders of an encoded filter from \<open>st\<close> never panics, and gives the
  argument at position \<open>p\<close> of the encoder's list the placeholder \<open>st + p\<close>: the conditions refer to
  their own arguments when these follow \<open>st - 1\<close> earlier parameters of the statement.
\<close>

theorem filter_placeholders_numbered:
  assumes "encode_query (TagSqlEncoder en ev) q [] = Ok (Some flt, args)" and "length args < 2 ^ 63"
  shows "\<exists>c. flt = clause_text c \<and>
    replace_arg_placeholders pl flt (word_of_nat st) = Ok (clause_sql (\<lambda>p. pl (word_of_nat p)) st c) \<and>
    (encode_exact False q \<longrightarrow> (\<forall>like rows. clause_holds like rows args c = rows_satisfy en ev like rows q))"
proof -
  obtain c where c: "encode_tag_query (TagAstEncoder en ev) q False [] = Ok (Some c, args)"
      "flt = clause_text c"
    using encode_query_ast [OF assms(1)] by (auto simp: map_option_eq_Some eq_commute [of "Some flt"])
  then have "clause_refs c = [0..<length args]"
    using encode_tag_query_laid_out [of en ev q False "[]" "Some c" args] by (simp add: laid_out_def)
  from replace_clause_text [OF this assms(2), of pl st]
  have r: "replace_arg_placeholders pl flt (word_of_nat st) = Ok (clause_sql (\<lambda>p. pl (word_of_nat p)) st c)"
    unfolding c(2) by (simp add: comp_def)
  have "clause_holds like rows args c = rows_satisfy en ev like rows q" if "encode_exact False q" for like rows
    using ast_filter_holds [OF c(1) that, of like rows] by (simp add: filter_holds_def)
  with c(2) r show ?thesis by blast
qed

theorem filter_placeholders_numbered_witness:
  "\<exists>flt args c. encode_query (TagSqlEncoder (\<lambda>n. Ok (as_bytes n)) (\<lambda>v. Ok (as_bytes v)))
      (In (Encrypted ''a'') [''1'', ''2'']) [] = Ok (Some flt, args) \<and> flt = clause_text c \<and>
    (replace_arg_placeholders placeholder flt (word_of_nat 4) :: (string, unit) result) =
      Ok (clause_sql (\<lambda>p. placeholder (word_of_nat p)) 4 c)"
proof -
  let ?e = "TagSqlEncoder (\<lambda>n. Ok (as_bytes n)) (\<lambda>v. Ok (as_bytes v))"
  let ?q = "In (Encrypted ''a'') [''1'', ''2'']"
  obtain flt where "encode_query ?e ?q [] = Ok (Some flt, [as_bytes ''a'', as_bytes ''1'', as_bytes ''2''])"
    by (simp add: encode_query_def encode_tag_in_def sql_encode_name_def sql_encode_value_def
        sql_in_clause_def Let_def)
  from this filter_placeholders_numbered [OF this, of placeholder 4] show ?thesis by auto
qed

section \<open>Extending a statement\<close>

datatype OrderBy = Id

definition order_by_query :: "string \<Rightarrow> OrderBy \<Rightarrow> bool \<Rightarrow> string" where
  "order_by_query q order_by descending =
     q @ '' ORDER BY '' @ (case order_by of Id \<Rightarrow> ''id'') @ (if descending then '' DESC'' else [])"

text \<open>The overridable part of the trait \<open>QueryPrepare\<close>; an \<open>Option<i64>\<close> parameter may be null.\<close>

record query_prepare =
  qp_placeholder :: "u64 \<Rightarrow> string"
  qp_limit_query :: "string \<Rightarrow> QueryParams \<Rightarrow> int option \<Rightarrow> int option \<Rightarrow> (string \<times> QueryParams) storage_result"

definition opt_int :: "int option \<Rightarrow> sql_arg" where
  "opt_int v = (case v of None \<Rightarrow> ArgNull | Some i \<Rightarrow> ArgInt i)"

definition opt_or :: "'a option \<Rightarrow> 'a \<Rightarrow> 'a" where
  "opt_or m d = (case m of None \<Rightarrow> d | Some x \<Rightarrow> x)"

definition limit_query :: "string \<Rightarrow> QueryParams \<Rightarrow> int option \<Rightarrow> int option
    \<Rightarrow> (string \<times> QueryParams) storage_result" where
  "limit_query q args offset limit =
     (if offset \<noteq> None \<or> limit \<noteq> None then
        (let last_idx = word_of_nat (params_len args + 1);
             args = params_push (ArgInt (opt_or offset 0)) args;
             args = params_push (ArgInt (opt_or limit (- 1))) args
         in res_bind (replace_arg_placeholders placeholder '' LIMIT $$, $$'' last_idx) (\<lambda>l.
            Ok (q @ l, args)))
      else Ok (q, args))"

definition pg_limit_query :: "string \<Rightarrow> QueryParams \<Rightarrow> int option \<Rightarrow> int option
    \<Rightarrow> (string \<times> QueryParams) storage_result" where
  "pg_limit_query q args offset limit =
     (if offset \<noteq> None \<or> limit \<noteq> None then
        (let last_idx = word_of_nat (params_len args + 1);
             args = params_push (opt_int limit) args;
             args = params_push (ArgInt (opt_or offset 0)) args
         in res_bind (replace_arg_placeholders pg_placeholder '' LIMIT $$ OFFSET $$'' last_idx) (\<lambda>l.
            Ok (q @ l, args)))
      else Ok (q, args))"

definition sqlite_prepare :: query_prepare where
  "sqlite_prepare = \<lparr>qp_placeholder = placeholder, qp_limit_query = limit_query\<rparr>"

definition postgres_prepare :: query_prepare where
  "postgres_prepare = \<lparr>qp_placeholder = pg_placeholder, qp_limit_query = pg_limit_query\<rparr>"

text \<open>
  \<open>query.trim_start().to_uppercase().starts_with("SELECT")\<close>, for the statements of the backends,
  which are ASCII.
\<close>

definition is_space :: "char \<Rightarrow> bool" where
  "is_space c \<longleftrightarrow> (of_char c :: nat) \<in> {9, 10, 11, 12, 13, 32}"

definition ascii_upper :: "char \<Rightarrow> char" where
  "ascii_upper c = (let n = of_char c in if 97 \<le> n \<and> n \<le> (122 :: nat) then char_of (n - 32) else c)"

definition starts_with_select :: "string \<Rightarrow> bool" where
  "starts_with_select q \<longleftrightarrow> take 6 (map ascii_upper (dropWhile is_space q)) = ''SELECT''"

definition extend_query :: "query_prepare \<Rightarrow> string \<Rightarrow> QueryParams \<Rightarrow> (string \<times> bytes list) option
    \<Rightarrow> int option \<Rightarrow> int option \<Rightarrow> OrderBy option \<Rightarrow> bool \<Rightarrow> (string \<times> QueryParams) storage_result" where
  "extend_query Q q args tag_filter offset limit order_by descending =
     (let (q, args) =
        (case tag_filter of
           Some (filter_clause, filter_args) \<Rightarrow>
             (q @ '' AND '' @ filter_clause, params_extend (map ArgBlob filter_args) args)
         | None \<Rightarrow> (q, args)) in
      if starts_with_select q then
        (let q = (case order_by of Some ob \<Rightarrow> order_by_query q ob descending | None \<Rightarrow> q) in
         if offset \<noteq> None \<or> limit \<noteq> None then qp_limit_query Q q args offset limit else Ok (q, args))
      else Ok (q, args))"

lemma starts_with_select_append: "starts_with_select q \<Longrightarrow> starts_with_select (q @ r)"
proof -
  assume q: "starts_with_select q"
  have ne: "dropWhile is_space q \<noteq> []"
  proof
    assume "dropWhile is_space q = []"
    with q show False by (simp add: starts_with_select_def)
  qed
  then have "dropWhile is_space (q @ r) = dropWhile is_space q @ r"
    by (metis dropWhile_append1 dropWhile_eq_Nil_conv)
  moreover have "length (take 6 (map ascii_upper (dropWhile is_space q))) = 6"
    using q by (simp add: starts_with_select_def)
  then have "6 \<le> length (dropWhile is_space q)" by simp
  ultimately show ?thesis using q by (simp add: starts_with_select_def)
qed

lemma limit_query_Ok:
  assumes "params_wf args" "offset \<noteq> None \<or> limit \<noteq> None"
  shows "limit_query q args offset limit =
    Ok (q @ '' LIMIT '' @ placeholder (word_of_nat (length (params_args args) + 1)) @ '', ''
          @ placeholder (word_of_nat (length (params_args args) + 2)),
        params_push (ArgInt (opt_or limit (- 1))) (params_push (ArgInt (opt_or offset 0)) args))"
  using assms
  by (simp add: limit_query_def Let_def replace_arg_placeholders_def params_len_wf add.assoc
      del: of_nat_Suc) (simp add: ac_simps)

text \<open>
  Extending a SELECT statement: the arguments of the filter follow the parameters already
  bound, the offset and the limit follow these, and the two numbered placeholders of the LIMIT
  clause carry the positions at which offset and limit were pushed.
\<close>

theorem extend_query_select:
  assumes "starts_with_select q" and "params_wf args" and "offset \<noteq> None \<or> limit \<noteq> None"
  shows "extend_query sqlite_prepare q args (Some (f, fargs)) offset limit (Some Id) descending =
    (let n = length (params_args args) + length fargs in
     Ok (q @ '' AND '' @ f @ '' ORDER BY id'' @ (if descending then '' DESC'' else [])
           @ '' LIMIT '' @ placeholder (word_of_nat (n + 1)) @ '', '' @ placeholder (word_of_nat (n + 2)),
         \<lparr>params_args = params_args args @ map ArgBlob fargs
            @ [ArgInt (opt_or offset 0), ArgInt (opt_or limit (- 1))],
          params_count = n + 2\<rparr>))"
proof -
  have "starts_with_select (q @ '' AND '' @ f)" using assms(1) by (rule starts_with_select_append)
  moreover have "params_wf (params_extend (map ArgBlob fargs) args)" using assms(2) by simp
  ultimately show ?thesis
    using assms(3) params_len_wf [of "params_extend (map ArgBlob fargs) args"]
    by (simp add: extend_query_def sqlite_prepare_def limit_query_Ok order_by_query_def Let_def
        params_push_def params_len_def)
qed

theorem extend_query_select_witness:
  "extend_query sqlite_prepare ''SELECT 1 WHERE 1'' (params_push (ArgInt 7) params_new)
      (Some (''i.id = ?2'', [[]])) None (Some 5) (Some Id) True =
    (let n = length (params_args (params_push (ArgInt 7) params_new)) + length [[] :: bytes] in
     Ok (''SELECT 1 WHERE 1'' @ '' AND '' @ ''i.id = ?2'' @ '' ORDER BY id''
           @ (if True then '' DESC'' else [])
           @ '' LIMIT '' @ placeholder (word_of_nat (n + 1)) @ '', '' @ placeholder (word_of_nat (n + 2)),
         \<lparr>params_args = params_args (params_push (ArgInt 7) params_new) @ map ArgBlob [[]]
            @ [ArgInt (opt_or None 0), ArgInt (opt_or (Some 5) (- 1))],
          params_count = n + 2\<rparr>))"
  by (rule extend_query_select) (simp_all add: starts_with_select_def is_space_def ascii_upper_def)

end
