(* ===== verification/Store_Key.thy ===== *)
theory Store_Key
  imports Crypto_Aead Kdf Uri_Options
begin

text \<open>
  Store keys (\<open>askar-storage/src/protect/store_key.rs\<close>, \<open>kdf/mod.rs\<close>, \<open>kdf/argon2.rs\<close> and
  \<open>pass_key.rs\<close>): the pass key given by the client, the methods that turn it into a store key,
  the references that are saved in the store, and the wrapping of profile keys. Random bytes are
  arguments.
\<close>

section \<open>Foreign code\<close>

text \<open>
  The functions of other crates: the AEAD cipher ChaCha20-Poly1305, Argon2, Base58, hexadecimal
  decoding and the URI encodings.
\<close>

record store_key_env =
  env_cipher :: aead_cipher
  env_argon2 :: argon2_hash
  env_b58_encode :: "bytes \<Rightarrow> string"
  env_b58_decode :: "string \<Rightarrow> bytes option"
  env_hex_decode :: "string \<Rightarrow> bytes option"
  env_codec :: uri_codec

text \<open>What the key handling relies on.\<close>

definition plain_char :: "char \<Rightarrow> bool" where
  "plain_char c \<longleftrightarrow> is_digit c \<or> 97 \<le> (of_char c :: nat) \<and> (of_char c :: nat) \<le> 122"

definition store_key_env_correct :: "store_key_env \<Rightarrow> bool" where
  "store_key_env_correct E \<longleftrightarrow> aead_correct (env_cipher E) \<and> aead_key_size (env_cipher E) = 32 \<and>
     (\<forall>bs. env_b58_decode E (env_b58_encode E bs) = Some bs) \<and>
     (\<forall>bs. bs \<noteq> [] \<longrightarrow> env_b58_encode E bs \<noteq> []) \<and>
     (\<forall>bs. env_hex_decode E (hex_repr bs) = Some bs) \<and>
     (\<forall>cost pass salt n key. env_argon2 E cost pass salt n = Some key \<longrightarrow> length key = n) \<and>
     (\<forall>k v. list_all plain_char k \<longrightarrow> list_all plain_char v \<longrightarrow>
        form_parse (env_codec E) (k @ CHR ''='' # v) = [(k, v)])"

section \<open>Pass keys\<close>

text \<open>\<open>PassKey\<close> dereferences to its text, which is empty when there is none.\<close>

type_synonym PassKey = "string option"

definition pass_key_deref :: "PassKey \<Rightarrow> string" where
  "pass_key_deref p = (case p of None \<Rightarrow> [] | Some s \<Rightarrow> s)"

definition pass_key_as_ref :: "PassKey \<Rightarrow> PassKey" where
  "pass_key_as_ref p = Some (pass_key_deref p)"

definition pass_key_is_none :: "PassKey \<Rightarrow> bool" where
  "pass_key_is_none p \<longleftrightarrow> p = None"

definition pass_key_is_empty :: "PassKey \<Rightarrow> bool" where
  "pass_key_is_empty p \<longleftrightarrow> pass_key_deref p = []"

definition pass_key_into_owned :: "PassKey \<Rightarrow> PassKey" where
  "pass_key_into_owned p = (case p of None \<Rightarrow> None | Some s \<Rightarrow> Some s)"

definition pass_key_eq :: "PassKey \<Rightarrow> PassKey \<Rightarrow> bool" where
  "pass_key_eq p q \<longleftrightarrow> pass_key_deref p = pass_key_deref q"

section \<open>Store keys\<close>

type_synonym StoreKey = "bytes option"

definition store_key_empty :: StoreKey where
  "store_key_empty = None"

definition wrap_data :: "store_key_env \<Rightarrow> bytes \<Rightarrow> StoreKey \<Rightarrow> bytes \<Rightarrow> bytes storage_result" where
  "wrap_data E nonce sk data =
     (case sk of
        Some key \<Rightarrow>
          res_bind (lift_crypto (chacha20_encrypt_in_place (env_cipher E) vec_buffer key nonce [] data)) (\<lambda>(_, data).
          lift_crypto (buffer_insert vec_buffer 0 nonce data))
      | None \<Rightarrow> Ok data)"

text \<open>Slicing the nonce off a shorter ciphertext panics.\<close>

definition unwrap_data :: "store_key_env \<Rightarrow> StoreKey \<Rightarrow> bytes \<Rightarrow> bytes storage_result" where
  "unwrap_data E sk ciphertext =
     (case sk of
        Some key \<Rightarrow>
          (let n = aead_nonce_size (env_cipher E) in
           res_bind (slice 0 n ciphertext) (\<lambda>nonce.
           res_bind (lift_crypto (buffer_remove vec_buffer 0 n ciphertext)) (\<lambda>buffer.
           lift_crypto (chacha20_decrypt_in_place (env_cipher E) vec_buffer key nonce [] buffer))))
      | None \<Rightarrow> Ok ciphertext)"

definition store_key_to_passkey :: "store_key_env \<Rightarrow> StoreKey \<Rightarrow> PassKey" where
  "store_key_to_passkey E sk = (case sk of Some key \<Rightarrow> Some (env_b58_encode E key) | None \<Rightarrow> None)"

text \<open>
  \<open>parse_raw_store_key\<close>: decoding onto a 32-byte array refuses what does not fit.
\<close>

definition parse_raw_store_key :: "store_key_env \<Rightarrow> string \<Rightarrow> StoreKey storage_result" where
  "parse_raw_store_key E raw_key =
     (let key_size = aead_key_size (env_cipher E) in
      case env_b58_decode E raw_key of
        None \<Rightarrow> Err (err_msg storage_kind.Input ''Error parsing raw key as base58 value'')
      | Some key \<Rightarrow>
          if key_size < length key then
            Err (err_msg storage_kind.Input ''Error parsing raw key as base58 value'')
          else if length key \<noteq> key_size then
            Err (err_msg storage_kind.Input ''Incorrect length for encoded raw key'')
          else res_map Some (lift_crypto (aead_key_from_secret_bytes (env_cipher E) key)))"

text \<open>\<open>generate_raw_store_key\<close>: from random bytes, or from the generator seeded by the client.\<close>

definition generate_raw_store_key :: "store_key_env \<Rightarrow> (bytes \<Rightarrow> bytes) \<Rightarrow> bytes \<Rightarrow> bytes option \<Rightarrow> PassKey" where
  "generate_raw_store_key E random_det rnd seed =
     store_key_to_passkey E (Some (case seed of Some s \<Rightarrow> random_det s | None \<Rightarrow> rnd))"

section \<open>Key derivation methods\<close>

datatype Argon2Level = Interactive | Moderate

definition argon2_level_from_str :: "string \<Rightarrow> Argon2Level option" where
  "argon2_level_from_str level =
     (if level = ''int'' \<or> level = ''13:int'' then Some Interactive
      else if level = ''mod'' \<or> level = ''13:mod'' then Some Moderate
      else if level = [] then Some Moderate
      else None)"

primrec argon2_level_as_str :: "Argon2Level \<Rightarrow> string" where
  "argon2_level_as_str Interactive = ''13:int''"
| "argon2_level_as_str Moderate = ''13:mod''"

primrec argon2_level_params :: "Argon2Level \<Rightarrow> Argon2Params" where
  "argon2_level_params Interactive = PARAMS_INTERACTIVE"
| "argon2_level_params Moderate = PARAMS_MODERATE"

definition argon2_level_derive_key :: "store_key_env \<Rightarrow> Argon2Level \<Rightarrow> bytes \<Rightarrow> bytes \<Rightarrow> StoreKey storage_result" where
  "argon2_level_derive_key E level password salt =
     lift_crypto
       (res_bind (argon2_new password salt (argon2_level_params level)) (\<lambda>d.
        res_bind (argon2_derive_key_bytes (env_argon2 E) d (aead_key_size (env_cipher E))) (\<lambda>key.
        res_map Some (aead_key_from_secret_bytes (env_cipher E) key))))"

datatype KdfMethod = Argon2i Argon2Level

text \<open>\<open>KdfMethod::decode\<close>: prefix, method, and a level with an optional detail.\<close>

definition kdf_method_decode :: "string \<Rightarrow> (KdfMethod \<times> string) storage_result" where
  "kdf_method_decode uri =
     (let (pre, rest) = split_once (CHR '':'') uri;
          (method, rest) = split_once (CHR '':'') (unwrap_or_empty rest);
          (level, detail) = split_once (CHR ''?'') (unwrap_or_empty rest);
          detail = unwrap_or_empty detail;
          failed = Err (err_msg storage_kind.Unsupported ''Invalid key derivation method'')
      in if pre = ''kdf'' \<and> method = ''argon2i'' then
           (case argon2_level_from_str level of
              Some level \<Rightarrow> Ok (Argon2i level, if detail = [] then [] else CHR ''?'' # detail)
            | None \<Rightarrow> failed)
         else failed)"

definition kdf_method_encode :: "KdfMethod \<Rightarrow> string option \<Rightarrow> string" where
  "kdf_method_encode m detail =
     (case m of Argon2i level \<Rightarrow> ''kdf'' @ '':'' @ ''argon2i'' @ '':'' @ argon2_level_as_str level @ unwrap_or_empty detail)"

definition parse_salt :: "store_key_env \<Rightarrow> nat \<Rightarrow> string \<Rightarrow> bytes storage_result" where
  "parse_salt E salt_len detail =
     res_bind (options_parse_uri (env_codec E) detail) (\<lambda>opts.
     case map_of (opt_query opts) ''salt'' of
       Some salt \<Rightarrow>
         (case env_hex_decode E salt of
            Some bs \<Rightarrow> if length bs = salt_len then Ok bs else Err (err_msg storage_kind.Input ''Invalid salt'')
          | None \<Rightarrow> Err (err_msg storage_kind.Input ''Invalid salt''))
     | None \<Rightarrow> Err (err_msg storage_kind.Input ''Missing salt''))"

definition kdf_derive_new_key :: "store_key_env \<Rightarrow> bytes \<Rightarrow> KdfMethod \<Rightarrow> string \<Rightarrow> (StoreKey \<times> string) storage_result" where
  "kdf_derive_new_key E salt m password =
     (case m of Argon2i level \<Rightarrow>
        res_bind (argon2_level_derive_key E level (as_bytes password) salt) (\<lambda>key.
        Ok (key, ''?salt='' @ hex_repr salt)))"

definition kdf_derive_key :: "store_key_env \<Rightarrow> KdfMethod \<Rightarrow> string \<Rightarrow> string \<Rightarrow> StoreKey storage_result" where
  "kdf_derive_key E m password detail =
     (case m of Argon2i level \<Rightarrow>
        res_bind (parse_salt E SALT_LENGTH detail) (\<lambda>salt.
        argon2_level_derive_key E level (as_bytes password) salt))"

section \<open>Methods and references\<close>

datatype StoreKeyMethod = DeriveKey KdfMethod | RawKey | Unprotected

datatype StoreKeyReference = RefDeriveKey KdfMethod string | RefRawKey | RefUnprotected

definition store_key_method_parse_uri :: "string \<Rightarrow> StoreKeyMethod storage_result" where
  "store_key_method_parse_uri uri =
     (let pre = fst (split_once (CHR '':'') uri) in
      if pre = ''raw'' then Ok RawKey
      else if pre = ''kdf'' then res_bind (kdf_method_decode uri) (\<lambda>(method, _). Ok (DeriveKey method))
      else if pre = ''none'' then Ok Unprotected
      else Err (err_msg storage_kind.Unsupported ''Invalid store key method''))"

definition store_key_reference_parse_uri :: "string \<Rightarrow> StoreKeyReference storage_result" where
  "store_key_reference_parse_uri uri =
     (let pre = fst (split_once (CHR '':'') uri) in
      if pre = ''raw'' then Ok RefRawKey
      else if pre = ''kdf'' then
        res_bind (kdf_method_decode uri) (\<lambda>(method, detail). Ok (RefDeriveKey method detail))
      else if pre = ''none'' then Ok RefUnprotected
      else Err (err_msg storage_kind.Unsupported ''Invalid store key method for reference''))"

definition store_key_reference_into_uri :: "StoreKeyReference \<Rightarrow> string" where
  "store_key_reference_into_uri r =
     (case r of
        RefDeriveKey method detail \<Rightarrow> kdf_method_encode method (Some detail)
      | RefRawKey \<Rightarrow> ''raw''
      | RefUnprotected \<Rightarrow> ''none'')"

fun compare_method :: "StoreKeyReference \<Rightarrow> StoreKeyMethod \<Rightarrow> bool" where
  "compare_method (RefDeriveKey kdf_method detail) method \<longleftrightarrow> method = DeriveKey kdf_method"
| "compare_method RefRawKey method \<longleftrightarrow> method = RawKey"
| "compare_method RefUnprotected method \<longleftrightarrow> method = Unprotected"

definition default_method :: StoreKeyMethod where
  "default_method = DeriveKey (Argon2i Moderate)"

fun method_of_reference :: "StoreKeyReference \<Rightarrow> StoreKeyMethod" where
  "method_of_reference (RefDeriveKey method detail) = DeriveKey method"
| "method_of_reference RefRawKey = RawKey"
| "method_of_reference RefUnprotected = Unprotected"

text \<open>
  \<open>StoreKeyMethod::resolve\<close> creates a store key; \<open>salt\<close> and \<open>rnd\<close> are the random bytes it draws
  for a derived key and for a raw key.
\<close>

definition store_key_method_resolve :: "store_key_env \<Rightarrow> bytes \<Rightarrow> bytes \<Rightarrow> StoreKeyMethod \<Rightarrow> PassKey
    \<Rightarrow> (StoreKey \<times> StoreKeyReference) storage_result" where
  "store_key_method_resolve E salt rnd method pass_key =
     (case method of
        DeriveKey m \<Rightarrow>
          if \<not> pass_key_is_none pass_key then
            res_bind (kdf_derive_new_key E salt m (pass_key_deref pass_key)) (\<lambda>(key, detail).
            Ok (key, RefDeriveKey m detail))
          else Err (err_msg storage_kind.Input ''Key derivation password not provided'')
      | RawKey \<Rightarrow>
          res_bind (if \<not> pass_key_is_empty pass_key then parse_raw_store_key E (pass_key_deref pass_key)
                    else Ok (Some rnd)) (\<lambda>key.
          Ok (key, RefRawKey))
      | Unprotected \<Rightarrow> Ok (store_key_empty, RefUnprotected))"

text \<open>\<open>StoreKeyReference::resolve\<close> recovers it when the store is opened.\<close>

definition store_key_reference_resolve :: "store_key_env \<Rightarrow> StoreKeyReference \<Rightarrow> PassKey \<Rightarrow> StoreKey storage_result" where
  "store_key_reference_resolve E r pass_key =
     (case r of
        RefDeriveKey m detail \<Rightarrow>
          if \<not> pass_key_is_none pass_key then kdf_derive_key E m (pass_key_deref pass_key) detail
          else Err (err_msg storage_kind.Input ''Key derivation password not provided'')
      | RefRawKey \<Rightarrow>
          if \<not> pass_key_is_empty pass_key then parse_raw_store_key E (pass_key_deref pass_key)
          else Err (err_msg storage_kind.Input ''Encoded raw key not provided'')
      | RefUnprotected \<Rightarrow> Ok store_key_empty)"

section \<open>Wrapping\<close>

lemma wrap_data_OkD:
  assumes "aead_correct (env_cipher E)" "wrap_data E nonce (Some key) data = Ok c"
  shows "\<exists>ct t. encrypt_detached (env_cipher E) key nonce [] data = Some (ct, t) \<and> c = nonce @ ct @ t
    \<and> length nonce = aead_nonce_size (env_cipher E)"
proof -
  obtain len d where d: "chacha20_encrypt_in_place (env_cipher E) vec_buffer key nonce [] data = Ok (len, d)"
    and c: "c = nonce @ d"
    using assms(2) by (auto simp: wrap_data_def result_simps vec_insert_def)
  obtain ct t where "encrypt_detached (env_cipher E) key nonce [] data = Some (ct, t)" "d = ct @ t"
      "length nonce = aead_nonce_size (env_cipher E)"
    using vec.encrypt_in_place_contents [OF _ assms(1) d] by (metis vec_buffer_simps(1))
  with c show ?thesis by blast
qed

lemma store_key_unwrap:
  assumes "aead_correct (env_cipher E)" "wrap_data E nonce sk data = Ok c"
  shows "unwrap_data E sk c = Ok data"
proof (cases sk)
  case None
  with assms(2) show ?thesis by (simp add: wrap_data_def unwrap_data_def)
next
  case (Some key)
  obtain ct t where e: "encrypt_detached (env_cipher E) key nonce [] data = Some (ct, t)"
    "c = nonce @ ct @ t" "length nonce = aead_nonce_size (env_cipher E)"
    using wrap_data_OkD [OF assms(1)] assms(2) Some by blast
  note d = aead_correct_encryptD [OF assms(1) e(1)]
  have "chacha20_decrypt_in_place (env_cipher E) vec_buffer key nonce [] (ct @ t) = Ok data"
    using vec.decrypt_in_place_contents [OF _ assms(1) e(3), of "ct @ t" ct t key "[]" data] d
    by (auto simp: chacha20_decrypt_in_place_def)
  with e Some show ?thesis by (simp add: unwrap_data_def Let_def slice_def vec_remove_def)
qed

text \<open>
  Unwrapping with the same store key returns the wrapped data, whatever nonce was drawn; a
  value shorter than a nonce makes a protected store key panic instead of returning an error.
\<close>

theorem store_key_wrap_round_trip:
  assumes "aead_correct (env_cipher E)"
  shows "(wrap_data E nonce sk data = Ok c \<longrightarrow> unwrap_data E sk c = Ok data) \<and>
    (length d < aead_nonce_size (env_cipher E) \<longrightarrow> unwrap_data E (Some key) d = Panic)"
  using store_key_unwrap [OF assms] by (simp add: unwrap_data_def slice_def)

text \<open>An environment for which the hypotheses hold.\<close>

definition hex_val :: "char \<Rightarrow> nat" where
  "hex_val c = (if is_digit c then of_char c - 48 else of_char c - 87)"

fun toy_hex_decode :: "string \<Rightarrow> bytes option" where
  "toy_hex_decode [] = Some []"
| "toy_hex_decode [c] = None"
| "toy_hex_decode (c # d # s) = map_option (Cons (word_of_nat (hex_val c * 16 + hex_val d))) (toy_hex_decode s)"

definition toy_env :: store_key_env where
  "toy_env = \<lparr>env_cipher = null_cipher, env_argon2 = (\<lambda>c p s n. Some (replicate n 7)),
     env_b58_encode = of_bytes, env_b58_decode = (\<lambda>s. Some (as_bytes s)),
     env_hex_decode = toy_hex_decode, env_codec = toy_codec\<rparr>"

lemma hex_val_digit: "d < 16 \<Longrightarrow> hex_val (hex_digit d) = d"
  by (auto simp: hex_val_def hex_digit_def is_digit_def)

lemma toy_hex_round_trip: "toy_hex_decode (hex_repr bs) = Some bs"
proof (induction bs)
  case (Cons b bs)
  have "unat b div 16 < 16"
    using unsigned_less [of b, where ?'a = nat] by (simp add: less_mult_imp_div_less)
  then have "hex_val (hex_digit (unat b div 16)) * 16 + hex_val (hex_digit (unat b mod 16)) = unat b"
    by (simp add: hex_val_digit)
  with Cons show ?case by (simp add: hex_repr_def hex_byte_def del: of_nat_add of_nat_mult)
qed (simp add: hex_repr_def)

lemma toy_env_correct: "store_key_env_correct toy_env"
proof -
  have "form_parse toy_codec (k @ CHR ''='' # v) = [(k, v)]"
    if "list_all plain_char k" "list_all plain_char v" for k v
  proof -
    have "CHR ''='' \<notin> set k" "CHR ''%'' \<notin> set k" "CHR ''%'' \<notin> set v"
      using that by (auto simp: list_all_iff plain_char_def is_digit_def)
    then show ?thesis by (simp add: toy_codec_def unesc_plain unwrap_or_empty_def)
  qed
  moreover have "of_bytes bs = [] \<longleftrightarrow> bs = []" for bs by (simp add: of_bytes_def)
  ultimately show ?thesis
    by (simp add: store_key_env_correct_def toy_env_def toy_hex_round_trip)
qed

theorem store_key_wrap_round_trip_witness:
  "wrap_data toy_env (replicate 12 1) (Some []) [5] = Ok (replicate 12 1 @ [5] @ replicate 16 0) \<and>
    unwrap_data toy_env (Some []) (replicate 12 1 @ [5] @ replicate 16 0) = Ok [5] \<and>
    unwrap_data toy_env (Some []) [1, 2] = Panic"
proof -
  have "wrap_data toy_env (replicate 12 1) (Some []) [5] = Ok (replicate 12 1 @ [5] @ replicate 16 0)"
    by (simp add: wrap_data_def toy_env_def chacha20_encrypt_in_place_def vec_insert_def Let_def)
  moreover have "aead_correct (env_cipher toy_env)" and "length [1 :: byte, 2] < aead_nonce_size (env_cipher toy_env)"
    by (simp_all add: toy_env_def)
  ultimately show ?thesis using store_key_wrap_round_trip [of toy_env] by blast
qed

section \<open>References\<close>

text \<open>The details that the code attaches to a derived key: none, or a question mark and parameters.\<close>

definition detail_wf :: "string \<Rightarrow> bool" where
  "detail_wf d \<longleftrightarrow> d = [] \<or> (\<exists>x. x \<noteq> [] \<and> d = CHR ''?'' # x)"

lemma kdf_method_round_trip:
  assumes "detail_wf d"
  shows "kdf_method_decode (kdf_method_encode m (Some d)) = Ok (m, d)"
proof -
  obtain level where m: "m = Argon2i level" by (cases m) auto
  have lv: "CHR ''?'' \<notin> set (argon2_level_as_str level)" "argon2_level_from_str (argon2_level_as_str level) = Some level"
    by (cases level; simp add: argon2_level_from_str_def)+
  have "split_once (CHR ''?'') (argon2_level_as_str level @ d) =
      (argon2_level_as_str level, if d = [] then None else Some (tl d))"
    using assms lv(1) by (auto simp: detail_wf_def)
  with assms lv(2) show ?thesis
    by (auto simp: m kdf_method_encode_def kdf_method_decode_def unwrap_or_empty_def detail_wf_def)
qed

lemma store_key_reference_uri:
  assumes "case r of RefDeriveKey m d \<Rightarrow> detail_wf d | _ \<Rightarrow> True"
  shows "store_key_reference_parse_uri (store_key_reference_into_uri r) = Ok r"
proof (cases r)
  case (RefDeriveKey m d)
  then have "fst (split_once (CHR '':'') (kdf_method_encode m (Some d))) = ''kdf''"
    by (cases m) (simp add: kdf_method_encode_def)
  with RefDeriveKey assms show ?thesis
    by (simp add: store_key_reference_parse_uri_def store_key_reference_into_uri_def kdf_method_round_trip)
qed (simp_all add: store_key_reference_parse_uri_def store_key_reference_into_uri_def)

lemma hex_digit_plain: "d < 16 \<Longrightarrow> plain_char (hex_digit d)"
  by (auto simp: plain_char_def hex_digit_def is_digit_def)

lemma hex_repr_plain: "list_all plain_char (hex_repr bs)"
proof -
  have "unat b div 16 < 16" for b :: byte
    using unsigned_less [of b, where ?'a = nat] by (simp add: less_mult_imp_div_less)
  then show ?thesis
    by (induction bs) (auto simp: hex_repr_def hex_byte_def hex_digit_plain)
qed

lemma plain_char_not_special: "plain_char c \<Longrightarrow> c \<notin> {CHR ''#'', CHR '':'', CHR ''?'', CHR ''@'', CHR ''/'', CHR ''=''}"
  by (auto simp: plain_char_def is_digit_def)

lemma parse_salt_round_trip:
  assumes "store_key_env_correct E" "length salt = n"
  shows "parse_salt E n (''?salt='' @ hex_repr salt) = Ok salt"
proof -
  let ?q = "''salt='' @ hex_repr salt"
  have nc: "CHR ''#'' \<notin> set (hex_repr salt)" "CHR '':'' \<notin> set (hex_repr salt)" "CHR ''?'' \<notin> set (hex_repr salt)"
    using hex_repr_plain [of salt] plain_char_not_special by (auto simp: list_all_iff)
  have "list_all plain_char ''salt''" by (simp add: plain_char_def is_digit_def)
  then have "form_parse (env_codec E) (''salt'' @ CHR ''='' # hex_repr salt) = [(''salt'', hex_repr salt)]"
    using assms(1) hex_repr_plain [of salt] unfolding store_key_env_correct_def by blast
  then have q: "parse_query_params (env_codec E) ?q = [(''salt'', hex_repr salt)]"
    by (simp add: parse_query_params_def)
  have "env_hex_decode E (hex_repr salt) = Some salt" using assms(1) by (simp add: store_key_env_correct_def)
  with q nc assms(2) show ?thesis
    by (simp add: parse_salt_def options_parse_uri_def Let_def split: prod.split)
qed

lemma parse_raw_store_key_empty:
  assumes "store_key_env_correct E" "length key = 32"
  shows "parse_raw_store_key E (env_b58_encode E key) = Ok (Some key)"
  using assms by (simp add: parse_raw_store_key_def store_key_env_correct_def aead_key_from_secret_bytes_def)

text \<open>
  A store can be reopened: when a method produced a store key and a reference from a pass key,
  the reference written to the store as a URI is read back unchanged and gives the same store key
  for the same pass key. For a raw key this needs the pass key to be given, since otherwise a
  random key was drawn.
\<close>

lemma store_key_reopen:
  assumes "store_key_env_correct E" and "length salt = SALT_LENGTH"
    and "store_key_method_resolve E salt rnd meth pass_key = Ok (key, r)"
    and "meth = RawKey \<longrightarrow> \<not> pass_key_is_empty pass_key"
  shows "store_key_reference_parse_uri (store_key_reference_into_uri r) = Ok r \<and>
    store_key_reference_resolve E r pass_key = Ok key \<and> compare_method r meth"
proof (cases meth)
  case (DeriveKey m)
  obtain level where m: "m = Argon2i level" by (cases m) auto
  have k: "argon2_level_derive_key E level (as_bytes (pass_key_deref pass_key)) salt = Ok key"
    and r: "r = RefDeriveKey m (''?salt='' @ hex_repr salt)" and p: "\<not> pass_key_is_none pass_key"
    using assms(3) DeriveKey m
    by (auto simp: store_key_method_resolve_def kdf_derive_new_key_def result_simps split: if_splits)
  have "detail_wf (''?salt='' @ hex_repr salt)" by (simp add: detail_wf_def)
  then have "store_key_reference_parse_uri (store_key_reference_into_uri r) = Ok r"
    by (intro store_key_reference_uri) (simp add: r)
  moreover have "store_key_reference_resolve E r pass_key = Ok key"
    using p k parse_salt_round_trip [OF assms(1,2)]
    by (simp add: store_key_reference_resolve_def r m kdf_derive_key_def)
  ultimately show ?thesis by (simp add: r DeriveKey)
next
  case RawKey
  with assms(3,4) show ?thesis
    by (auto simp: store_key_method_resolve_def store_key_reference_resolve_def result_simps
        store_key_reference_uri split: if_splits)
next
  case Unprotected
  with assms(3) show ?thesis
    by (auto simp: store_key_method_resolve_def store_key_reference_resolve_def store_key_reference_uri)
qed

end
