(* ===== verification/Profile_Key.thy ===== *)
theory Profile_Key
  imports Store_Key Entry
begin

text \<open>
  The encryption of entries (\<open>askar-storage/src/protect/mod.rs\<close> and \<open>profile_key.rs\<close>): the trait
  \<open>EntryEncryptor\<close> with its contract, the null encryptor and the profile key that implement it,
  and the cache of profile keys.
\<close>

section \<open>The trait\<close>

text \<open>
  \<open>EntryEncryptor\<close> as a record of its methods. \<open>ee_value\<close> takes the random nonce it draws as its
  first argument.
\<close>

record entry_encryptor =
  ee_category :: "bytes \<Rightarrow> bytes storage_result"
  ee_name :: "bytes \<Rightarrow> bytes storage_result"
  ee_value :: "bytes \<Rightarrow> bytes \<Rightarrow> bytes \<Rightarrow> bytes \<Rightarrow> bytes storage_result"
  ee_tags :: "EntryTag list \<Rightarrow> EncEntryTag list storage_result"
  ed_category :: "bytes \<Rightarrow> string storage_result"
  ed_name :: "bytes \<Rightarrow> string storage_result"
  ed_value :: "bytes \<Rightarrow> bytes \<Rightarrow> bytes \<Rightarrow> bytes storage_result"
  ed_tags :: "EncEntryTag list \<Rightarrow> EntryTag list storage_result"

text \<open>The strings of the program are UTF-8; a tag is made of two of them.\<close>

definition valid_tag :: "EntryTag \<Rightarrow> bool" where
  "valid_tag t \<longleftrightarrow> valid_str (entry_tag_name t) \<and> valid_str (entry_tag_value t)"

text \<open>
  The contract: what was encrypted decrypts to the same text, bytes and tags, the value under the
  category and name it was encrypted for.
\<close>

locale encryptor_contract =
  fixes X :: entry_encryptor
  assumes category_law: "valid_str c \<Longrightarrow> ee_category X (as_bytes c) = Ok e \<Longrightarrow> ed_category X e = Ok c"
    and name_law: "valid_str n \<Longrightarrow> ee_name X (as_bytes n) = Ok e \<Longrightarrow> ed_name X e = Ok n"
    and value_law: "ee_value X nonce cb nb v = Ok e \<Longrightarrow> ed_value X cb nb e = Ok v"
    and tags_law: "list_all valid_tag ts \<Longrightarrow> ee_tags X ts = Ok es \<Longrightarrow> ed_tags X es = Ok ts"

section \<open>The null encryptor\<close>

definition utf8_or_encryption :: "bytes \<Rightarrow> string storage_result" where
  "utf8_or_encryption bs = ok_or (string_from_utf8 bs) (err_of_kind storage_kind.Encryption)"

fun null_encrypt_tag :: "EntryTag \<Rightarrow> EncEntryTag" where
  "null_encrypt_tag (EncryptedTag n v) =
     \<lparr>enc_tag_name = as_bytes n, enc_tag_value = as_bytes v, enc_tag_plaintext = False\<rparr>"
| "null_encrypt_tag (PlaintextTag n v) =
     \<lparr>enc_tag_name = as_bytes n, enc_tag_value = as_bytes v, enc_tag_plaintext = True\<rparr>"

definition null_decrypt_tag :: "EncEntryTag \<Rightarrow> EntryTag storage_result" where
  "null_decrypt_tag t =
     res_bind (utf8_or_encryption (enc_tag_name t)) (\<lambda>n.
     res_bind (utf8_or_encryption (enc_tag_value t)) (\<lambda>v.
     Ok (if enc_tag_plaintext t then PlaintextTag n v else EncryptedTag n v)))"

definition NullEncryptor :: entry_encryptor where
  "NullEncryptor = \<lparr>ee_category = Ok, ee_name = Ok, ee_value = (\<lambda>nonce c n v. Ok v),
     ee_tags = (\<lambda>ts. Ok (map null_encrypt_tag ts)), ed_category = utf8_or_encryption,
     ed_name = utf8_or_encryption, ed_value = (\<lambda>c n e. Ok e), ed_tags = res_mapM null_decrypt_tag\<rparr>"

lemma utf8_or_encryption_as_bytes [simp]: "valid_str s \<Longrightarrow> utf8_or_encryption (as_bytes s) = Ok s"
  by (simp add: utf8_or_encryption_def)

lemma null_decrypt_encrypt: "valid_tag t \<Longrightarrow> null_decrypt_tag (null_encrypt_tag t) = Ok t"
  by (cases t) (simp_all add: null_decrypt_tag_def valid_tag_def)

interpretation null: encryptor_contract NullEncryptor
proof (unfold_locales, goal_cases)
  case (4 ts es)
  then have "es = map null_encrypt_tag ts" by (simp add: NullEncryptor_def)
  moreover have "res_mapM null_decrypt_tag (map null_encrypt_tag ts) = Ok ts"
    using 4(1) by (induction ts) (simp_all add: null_decrypt_encrypt)
  ultimately show ?case by (simp add: NullEncryptor_def)
qed (auto simp: NullEncryptor_def)

section \<open>Profile keys\<close>

record ProfileKey =
  category_key :: bytes
  name_key :: bytes
  item_hmac_key :: bytes
  tag_name_key :: bytes
  tag_value_key :: bytes
  tags_hmac_key :: bytes

text \<open>The foreign code that a profile key uses: the cipher, HMAC-SHA256, and the CBOR encoding.\<close>

record profile_env =
  pe_cipher :: aead_cipher
  pe_hmac :: "bytes \<Rightarrow> bytes \<Rightarrow> bytes"
  pe_to_cbor :: "ProfileKey \<Rightarrow> bytes option"
  pe_from_cbor :: "bytes \<Rightarrow> ProfileKey option"

definition profile_env_correct :: "profile_env \<Rightarrow> bool" where
  "profile_env_correct P \<longleftrightarrow> aead_correct (pe_cipher P) \<and> aead_nonce_size (pe_cipher P) \<le> 32 \<and>
     (\<forall>k m. length (pe_hmac P k m) = 32)"

definition profile_key_to_bytes :: "profile_env \<Rightarrow> ProfileKey \<Rightarrow> bytes storage_result" where
  "profile_key_to_bytes P k =
     ok_or (pe_to_cbor P k) (err_msg storage_kind.Unexpected ''Error serializing profile key'')"

definition profile_key_from_slice :: "profile_env \<Rightarrow> bytes \<Rightarrow> ProfileKey storage_result" where
  "profile_key_from_slice P input =
     ok_or (pe_from_cbor P input) (err_msg storage_kind.Unsupported ''Invalid profile key'')"

definition encrypted_size :: "profile_env \<Rightarrow> nat \<Rightarrow> nat" where
  "encrypted_size P len = len + aead_nonce_size (pe_cipher P) + aead_tag_size (pe_cipher P)"

text \<open>Encrypting in place and putting the nonce in front.\<close>

definition encrypt_with_nonce :: "profile_env \<Rightarrow> bytes \<Rightarrow> bytes \<Rightarrow> bytes \<Rightarrow> bytes storage_result" where
  "encrypt_with_nonce P nonce buffer enc_key =
     res_bind (lift_crypto (chacha20_encrypt_in_place (pe_cipher P) vec_buffer enc_key nonce [] buffer)) (\<lambda>(_, buffer).
     lift_crypto (buffer_insert vec_buffer 0 nonce buffer))"

definition encrypt_searchable :: "profile_env \<Rightarrow> bytes \<Rightarrow> bytes \<Rightarrow> bytes \<Rightarrow> bytes storage_result" where
  "encrypt_searchable P buffer enc_key hmac_key =
     res_bind (lift_crypto (from_key_derivation (aead_nonce_size (pe_cipher P))
       (hmac_derive_key_bytes (pe_hmac P) 32 hmac_key [buffer]))) (\<lambda>nonce.
     encrypt_with_nonce P nonce buffer enc_key)"

definition profile_encrypt :: "profile_env \<Rightarrow> bytes \<Rightarrow> bytes \<Rightarrow> bytes \<Rightarrow> bytes storage_result" where
  "profile_encrypt P nonce buffer enc_key = encrypt_with_nonce P nonce buffer enc_key"

definition profile_decrypt :: "profile_env \<Rightarrow> bytes \<Rightarrow> bytes \<Rightarrow> bytes storage_result" where
  "profile_decrypt P ciphertext enc_key =
     (let nonce_len = aead_nonce_size (pe_cipher P) in
      if length ciphertext < nonce_len then Err (err_msg storage_kind.Encryption ''invalid encrypted value'')
      else
        (let nonce = take nonce_len ciphertext in
         res_bind (lift_crypto (buffer_remove vec_buffer 0 nonce_len ciphertext)) (\<lambda>buffer.
         lift_crypto (chacha20_decrypt_in_place (pe_cipher P) vec_buffer enc_key nonce [] buffer))))"

text \<open>The inputs of the HMAC that derives the key of a value, and the derivation.\<close>

definition value_key_input :: "bytes \<Rightarrow> bytes \<Rightarrow> bytes list" where
  "value_key_input category name =
     [be_bytes32 (word_of_nat (length category)), category, be_bytes32 (word_of_nat (length name)), name]"

definition derive_value_key :: "profile_env \<Rightarrow> ProfileKey \<Rightarrow> bytes \<Rightarrow> bytes \<Rightarrow> bytes storage_result" where
  "derive_value_key P k category name =
     lift_crypto (from_key_derivation (aead_key_size (pe_cipher P))
       (hmac_derive_key_bytes (pe_hmac P) 32 (item_hmac_key k) (value_key_input category name)))"

definition encrypt_tag_name :: "profile_env \<Rightarrow> ProfileKey \<Rightarrow> bytes \<Rightarrow> bytes storage_result" where
  "encrypt_tag_name P k n = encrypt_searchable P n (tag_name_key k) (tags_hmac_key k)"

definition encrypt_tag_value :: "profile_env \<Rightarrow> ProfileKey \<Rightarrow> bytes \<Rightarrow> bytes storage_result" where
  "encrypt_tag_value P k v = encrypt_searchable P v (tag_value_key k) (tags_hmac_key k)"

definition decrypt_tag_name :: "profile_env \<Rightarrow> ProfileKey \<Rightarrow> bytes \<Rightarrow> bytes storage_result" where
  "decrypt_tag_name P k e = profile_decrypt P e (tag_name_key k)"

definition decrypt_tag_value :: "profile_env \<Rightarrow> ProfileKey \<Rightarrow> bytes \<Rightarrow> bytes storage_result" where
  "decrypt_tag_value P k e = profile_decrypt P e (tag_value_key k)"

fun profile_encrypt_tag :: "profile_env \<Rightarrow> ProfileKey \<Rightarrow> EntryTag \<Rightarrow> EncEntryTag storage_result" where
  "profile_encrypt_tag P k (PlaintextTag n v) =
     res_bind (encrypt_tag_name P k (as_bytes n)) (\<lambda>n.
     Ok \<lparr>enc_tag_name = n, enc_tag_value = as_bytes v, enc_tag_plaintext = True\<rparr>)"
| "profile_encrypt_tag P k (EncryptedTag n v) =
     res_bind (encrypt_tag_name P k (as_bytes n)) (\<lambda>n.
     res_bind (encrypt_tag_value P k (as_bytes v)) (\<lambda>v.
     Ok \<lparr>enc_tag_name = n, enc_tag_value = v, enc_tag_plaintext = False\<rparr>))"

definition profile_decrypt_tag :: "profile_env \<Rightarrow> ProfileKey \<Rightarrow> EncEntryTag \<Rightarrow> EntryTag storage_result" where
  "profile_decrypt_tag P k t =
     res_bind (res_bind (decrypt_tag_name P k (enc_tag_name t)) utf8_or_encryption) (\<lambda>n.
     if enc_tag_plaintext t then
       res_bind (utf8_or_encryption (enc_tag_value t)) (\<lambda>v. Ok (PlaintextTag n v))
     else
       res_bind (res_bind (decrypt_tag_value P k (enc_tag_value t)) utf8_or_encryption) (\<lambda>v.
       Ok (EncryptedTag n v)))"

definition profile_encryptor :: "profile_env \<Rightarrow> ProfileKey \<Rightarrow> entry_encryptor" where
  "profile_encryptor P k = \<lparr>
     ee_category = (\<lambda>c. encrypt_searchable P c (category_key k) (item_hmac_key k)),
     ee_name = (\<lambda>n. encrypt_searchable P n (name_key k) (item_hmac_key k)),
     ee_value = (\<lambda>nonce c n v. res_bind (derive_value_key P k c n) (\<lambda>value_key. profile_encrypt P nonce v value_key)),
     ee_tags = res_mapM (profile_encrypt_tag P k),
     ed_category = (\<lambda>e. res_bind (profile_decrypt P e (category_key k)) utf8_or_encryption),
     ed_name = (\<lambda>e. res_bind (profile_decrypt P e (name_key k)) utf8_or_encryption),
     ed_value = (\<lambda>c n e. res_bind (derive_value_key P k c n) (\<lambda>value_key. profile_decrypt P e value_key)),
     ed_tags = res_mapM (profile_decrypt_tag P k)\<rparr>"

section \<open>Round trips\<close>

lemma encrypt_with_nonce_OkD:
  assumes "aead_correct (pe_cipher P)" "encrypt_with_nonce P nonce m key = Ok e"
  shows "\<exists>ct t. encrypt_detached (pe_cipher P) key nonce [] m = Some (ct, t) \<and> e = nonce @ ct @ t
    \<and> length nonce = aead_nonce_size (pe_cipher P)"
proof -
  obtain len d where d: "chacha20_encrypt_in_place (pe_cipher P) vec_buffer key nonce [] m = Ok (len, d)"
    and e: "e = nonce @ d"
    using assms(2) by (auto simp: encrypt_with_nonce_def result_simps vec_insert_def)
  obtain ct t where "encrypt_detached (pe_cipher P) key nonce [] m = Some (ct, t)" "d = ct @ t"
      "length nonce = aead_nonce_size (pe_cipher P)"
    using vec.encrypt_in_place_contents [OF _ assms(1) d] by (metis vec_buffer_simps(1))
  with e show ?thesis by blast
qed

lemma decrypt_encrypt_with_nonce:
  assumes "aead_correct (pe_cipher P)" "encrypt_with_nonce P nonce m key = Ok e"
  shows "profile_decrypt P e key = Ok m"
proof -
  obtain ct t where e: "encrypt_detached (pe_cipher P) key nonce [] m = Some (ct, t)" "e = nonce @ ct @ t"
      "length nonce = aead_nonce_size (pe_cipher P)"
    using encrypt_with_nonce_OkD [OF assms] by blast
  note d = aead_correct_encryptD [OF assms(1) e(1)]
  have "chacha20_decrypt_in_place (pe_cipher P) vec_buffer key nonce [] (ct @ t) = Ok m"
    using vec.decrypt_in_place_contents [OF _ assms(1) e(3), of "ct @ t" ct t key "[]" m] d
    by (auto simp: chacha20_decrypt_in_place_def)
  with e show ?thesis by (simp add: profile_decrypt_def Let_def vec_remove_def)
qed

lemma decrypt_searchable:
  assumes "aead_correct (pe_cipher P)" "encrypt_searchable P m key hk = Ok e"
  shows "profile_decrypt P e key = Ok m"
  using assms by (auto simp: encrypt_searchable_def result_simps intro: decrypt_encrypt_with_nonce)

text \<open>Equal plaintexts give equal ciphertexts, and only they do.\<close>

lemma encrypt_searchable_inject:
  assumes "aead_correct (pe_cipher P)" "encrypt_searchable P m key hk = Ok e" "encrypt_searchable P m' key hk = Ok e'"
  shows "e = e' \<longleftrightarrow> m = m'"
  using assms decrypt_searchable [OF assms(1,2)] decrypt_searchable [OF assms(1,3)] by (metis result.inject(1))

lemma decrypt_encrypt_tag:
  assumes "aead_correct (pe_cipher P)" "valid_tag t" "profile_encrypt_tag P k t = Ok e"
  shows "profile_decrypt_tag P k e = Ok t"
proof (cases t)
  case (PlaintextTag n v)
  obtain en where "encrypt_tag_name P k (as_bytes n) = Ok en"
    and e: "e = \<lparr>enc_tag_name = en, enc_tag_value = as_bytes v, enc_tag_plaintext = True\<rparr>"
    using assms(3) PlaintextTag by (auto simp: result_simps)
  then have "decrypt_tag_name P k en = Ok (as_bytes n)"
    unfolding encrypt_tag_name_def decrypt_tag_name_def by (intro decrypt_searchable [OF assms(1)])
  with PlaintextTag assms(2) show ?thesis by (simp add: e profile_decrypt_tag_def valid_tag_def)
next
  case (EncryptedTag n v)
  obtain en ev where "encrypt_tag_name P k (as_bytes n) = Ok en" "encrypt_tag_value P k (as_bytes v) = Ok ev"
    and e: "e = \<lparr>enc_tag_name = en, enc_tag_value = ev, enc_tag_plaintext = False\<rparr>"
    using assms(3) EncryptedTag by (auto simp: result_simps)
  then have "decrypt_tag_name P k en = Ok (as_bytes n)" "decrypt_tag_value P k ev = Ok (as_bytes v)"
    unfolding encrypt_tag_name_def decrypt_tag_name_def encrypt_tag_value_def decrypt_tag_value_def
    by (auto intro: decrypt_searchable [OF assms(1)])
  with EncryptedTag assms(2) show ?thesis by (simp add: e profile_decrypt_tag_def valid_tag_def)
qed

text \<open>A profile key keeps the contract, for a cipher that is correct.\<close>

lemma profile_encryptor_contract:
  assumes "aead_correct (pe_cipher P)"
  shows "encryptor_contract (profile_encryptor P k)"
proof (unfold_locales, goal_cases)
  case (1 c e)
  then show ?case using decrypt_searchable [OF assms] by (simp add: profile_encryptor_def)
next
  case (2 n e)
  then show ?case using decrypt_searchable [OF assms] by (simp add: profile_encryptor_def)
next
  case (3 nonce c n v e)
  then show ?case
    by (auto simp: profile_encryptor_def profile_encrypt_def result_simps
        intro: decrypt_encrypt_with_nonce [OF assms])
next
  case (4 ts es)
  then have "list_all2 (\<lambda>t e. profile_encrypt_tag P k t = Ok e) ts es"
    by (simp add: profile_encryptor_def res_mapM_eq_Ok)
  then have "list_all2 (\<lambda>e t. profile_decrypt_tag P k e = Ok t) es ts"
    using 4(1) by (induction rule: list_all2_induct) (auto intro: decrypt_encrypt_tag [OF assms])
  then show ?case by (simp add: profile_encryptor_def res_mapM_eq_Ok)
qed

text \<open>
  An entry encrypted under a profile key decrypts to itself: category, name, value and tags.
\<close>

theorem profile_key_entry_round_trip:
  assumes "aead_correct (pe_cipher P)" and "X = profile_encryptor P k"
    and "valid_str (entry_category e)" and "valid_str (entry_name e)" and "list_all valid_tag (entry_tags e)"
    and "ee_category X (as_bytes (entry_category e)) = Ok ec" and "ee_name X (as_bytes (entry_name e)) = Ok en"
    and "ee_value X nonce (as_bytes (entry_category e)) (as_bytes (entry_name e)) (entry_value e) = Ok ev"
    and "ee_tags X (entry_tags e) = Ok et"
  shows "ed_category X ec = Ok (entry_category e) \<and> ed_name X en = Ok (entry_name e) \<and>
    ed_value X (as_bytes (entry_category e)) (as_bytes (entry_name e)) ev = Ok (entry_value e) \<and>
    ed_tags X et = Ok (entry_tags e)"
proof -
  have c: "encryptor_contract X" unfolding assms(2) by (rule profile_encryptor_contract [OF assms(1)])
  show ?thesis
    using encryptor_contract.category_law [OF c assms(3,6)] encryptor_contract.name_law [OF c assms(4,7)]
      encryptor_contract.value_law [OF c assms(8)] encryptor_contract.tags_law [OF c assms(5,9)]
    by blast
qed

definition toy_profile_env :: profile_env where
  "toy_profile_env = \<lparr>pe_cipher = null_cipher, pe_hmac = (\<lambda>k m. replicate 32 1),
     pe_to_cbor = (\<lambda>k. Some []), pe_from_cbor = (\<lambda>b. None)\<rparr>"

definition toy_profile_key :: ProfileKey where
  "toy_profile_key = \<lparr>category_key = [], name_key = [], item_hmac_key = [], tag_name_key = [],
     tag_value_key = [], tags_hmac_key = []\<rparr>"

lemma toy_profile_env_correct: "profile_env_correct toy_profile_env"
  by (simp add: profile_env_correct_def toy_profile_env_def)

lemma toy_encrypt_searchable:
  "encrypt_searchable toy_profile_env m k hk = Ok (replicate 12 1 @ m @ replicate 16 0)"
  by (simp add: encrypt_searchable_def toy_profile_env_def from_key_derivation_def hmac_derive_key_bytes_def
      encrypt_with_nonce_def chacha20_encrypt_in_place_def vec_insert_def)

theorem profile_key_entry_round_trip_witness:
  fixes e :: Entry and X :: entry_encryptor
  defines "e \<equiv> \<lparr>entry_kind = Item, entry_category = ''c'', entry_name = ''n'', entry_value = [1],
      entry_tags = [PlaintextTag ''p'' ''t'']\<rparr>"
    and "X \<equiv> profile_encryptor toy_profile_env toy_profile_key"
  shows "\<exists>ec. ee_category X (as_bytes (entry_category e)) = Ok ec \<and> ed_category X ec = Ok (entry_category e)"
proof -
  have s: "ee_category X m = Ok (replicate 12 1 @ m @ replicate 16 0)"
    "ee_name X m = Ok (replicate 12 1 @ m @ replicate 16 0)" for m
    by (simp_all add: X_def profile_encryptor_def toy_encrypt_searchable)
  have v: "ee_value X (replicate 12 2) c n m = Ok (replicate 12 2 @ m @ replicate 16 0)" for c n m
    by (simp add: X_def profile_encryptor_def derive_value_key_def toy_profile_env_def from_key_derivation_def
        hmac_derive_key_bytes_def profile_encrypt_def encrypt_with_nonce_def chacha20_encrypt_in_place_def vec_insert_def)
  have t: "ee_tags X [PlaintextTag ''p'' ''t''] = Ok [\<lparr>enc_tag_name = replicate 12 1 @ as_bytes ''p'' @ replicate 16 0,
      enc_tag_value = as_bytes ''t'', enc_tag_plaintext = True\<rparr>]"
    by (simp add: X_def profile_encryptor_def encrypt_tag_name_def toy_encrypt_searchable)
  have c: "aead_correct (pe_cipher toy_profile_env)" by (simp add: toy_profile_env_def)
  from profile_key_entry_round_trip [OF c meta_eq_to_obj_eq [OF X_def], of e _ _ "replicate 12 2"] s v t
  show ?thesis by (simp add: e_def valid_str_def valid_tag_def)
qed

text \<open>
  Values are encrypted under keys that depend on category and name without ambiguity: the
  HMAC input of two (category, name) pairs is the same only if the pairs are, for lengths below
  two to the 32.
\<close>

theorem value_key_input_injective:
  assumes "length c < 2 ^ 32" and "length n < 2 ^ 32" and "length c' < 2 ^ 32" and "length n' < 2 ^ 32"
    and "concat (value_key_input c n) = concat (value_key_input c' n')"
  shows "c = c' \<and> n = n'"
proof -
  have "len_prefixed c @ len_prefixed n @ [] = len_prefixed c' @ len_prefixed n' @ []"
    using assms(5) by (simp add: value_key_input_def len_prefixed_def)
  then show ?thesis using assms(1-4) by (simp only: len_prefixed_append_inject simp_thms)
qed

theorem value_key_input_injective_witness: "[1] = [1 :: byte] \<and> [2, 3] = [2, 3 :: byte]"
  by (rule value_key_input_injective) simp_all

section \<open>The key cache\<close>

record KeyCache =
  profile_info :: "string \<rightharpoonup> int \<times> ProfileKey"
  cache_store_key :: StoreKey

definition key_cache_new :: "StoreKey \<Rightarrow> KeyCache" where
  "key_cache_new sk = \<lparr>profile_info = Map.empty, cache_store_key = sk\<rparr>"

definition load_key :: "store_key_env \<Rightarrow> profile_env \<Rightarrow> KeyCache \<Rightarrow> bytes \<Rightarrow> ProfileKey storage_result" where
  "load_key E P c ciphertext =
     res_bind (res_map_err (\<lambda>_. err_msg storage_kind.Encryption ''Error decrypting profile key'')
       (unwrap_data E (cache_store_key c) ciphertext)) (\<lambda>data.
     profile_key_from_slice P data)"

definition add_profile :: "string \<Rightarrow> int \<Rightarrow> ProfileKey \<Rightarrow> KeyCache \<Rightarrow> KeyCache" where
  "add_profile ident pid key c = c\<lparr>profile_info := (profile_info c)(ident \<mapsto> (pid, key))\<rparr>"

definition get_profile :: "KeyCache \<Rightarrow> string \<Rightarrow> (int \<times> ProfileKey) option" where
  "get_profile c name = profile_info c name"

text \<open>\<open>encode_profile_key\<close> of \<open>db_utils.rs\<close>.\<close>

definition encode_profile_key :: "store_key_env \<Rightarrow> profile_env \<Rightarrow> bytes \<Rightarrow> ProfileKey \<Rightarrow> StoreKey \<Rightarrow> bytes storage_result" where
  "encode_profile_key E P nonce profile_key store_key =
     res_bind (profile_key_to_bytes P profile_key) (wrap_data E nonce store_key)"

lemma load_encoded_key:
  assumes "aead_correct (env_cipher E)" "\<And>b. pe_to_cbor P k = Some b \<Longrightarrow> pe_from_cbor P b = Some k"
    and "encode_profile_key E P nonce k (cache_store_key c) = Ok e"
  shows "load_key E P c e = Ok k"
proof -
  obtain b where b: "pe_to_cbor P k = Some b" "wrap_data E nonce (cache_store_key c) b = Ok e"
    using assms(3) by (auto simp: encode_profile_key_def profile_key_to_bytes_def result_simps)
  then have "unwrap_data E (cache_store_key c) e = Ok b"
    using store_key_unwrap [OF assms(1)] by blast
  with assms(2) [OF b(1)] show ?thesis by (simp add: load_key_def profile_key_from_slice_def)
qed

end
