(* ===== verification/Db_Utils.thy ===== *)
theory Db_Utils
  imports Db_Query Profile_Key
begin

text \<open>
  The row handling of \<open>askar-storage/src/backend/db_utils.rs\<close>: decoding the tag column of a
  fetched row, and decrypting rows to entries. The main result: what was stored under a profile
  key is read back unchanged.
\<close>

section \<open>The tag column\<close>

text \<open>
  The hexadecimal functions: \<open>HEX\<close> of the database and \<open>hex::decode\<close> of the \<open>hex\<close> crate. The
  database writes digits only; the crate reads them back.
\<close>

record hex_codec =
  sql_hex :: "bytes \<Rightarrow> bytes"
  hex_decode :: "bytes \<Rightarrow> bytes option"

definition hex_codec_correct :: "hex_codec \<Rightarrow> bool" where
  "hex_codec_correct H \<longleftrightarrow>
     (\<forall>bs. hex_decode H (sql_hex H bs) = Some bs) \<and>
     (\<forall>bs. 58 \<notin> set (sql_hex H bs) \<and> 44 \<notin> set (sql_hex H bs))"

text \<open>
  The column that the fetch and scan statements compute for an item:
  \<open>GROUP_CONCAT(it.plaintext || ':' || HEX(it.name) || ':' || HEX(it.value))\<close>. A row without
  tags has a null column, which is read as an empty byte string.
\<close>

definition tag_item :: "hex_codec \<Rightarrow> EncEntryTag \<Rightarrow> bytes" where
  "tag_item H t = (if enc_tag_plaintext t then 49 else 48) # 58 # sql_hex H (enc_tag_name t)
     @ 58 # sql_hex H (enc_tag_value t)"

definition tags_column :: "hex_codec \<Rightarrow> EncEntryTag list \<Rightarrow> bytes" where
  "tags_column H ts = join [44] (map (tag_item H) ts)"

text \<open>
  The inner loop of \<open>decode_tags\<close>: scans to the end of an item and remembers the position of the
  colon behind the name; a second colon is an error.
\<close>

function scan_item :: "bytes \<Rightarrow> nat \<Rightarrow> nat \<Rightarrow> (nat \<times> nat, unit) result" where
  "scan_item tags idx name_end =
     (if length tags \<le> idx \<or> tags ! idx = 44 then Ok (idx, name_end)
      else if tags ! idx = 58 then
        (if name_end \<noteq> 0 then Err () else scan_item tags (idx + 1) idx)
      else scan_item tags (idx + 1) name_end)"
  by pat_completeness auto
termination
  by (relation "measure (\<lambda>(tags, idx, _). length tags - idx)") auto

declare scan_item.simps [simp del]

lemma scan_item_advances: "scan_item tags idx ne = Ok (j, ne') \<Longrightarrow> idx \<le> j"
proof (induction tags idx ne arbitrary: j ne' rule: scan_item.induct)
  case (1 tags idx ne)
  consider (stop) "length tags \<le> idx \<or> tags ! idx = 44"
    | (colon) "\<not> (length tags \<le> idx \<or> tags ! idx = 44)" "tags ! idx = 58"
    | (other) "\<not> (length tags \<le> idx \<or> tags ! idx = 44)" "tags ! idx \<noteq> 58"
    by blast
  then show ?case
  proof cases
    case stop
    then show ?thesis using 1(3) by (subst (asm) scan_item.simps) auto
  next
    case colon
    then have "ne = 0" "scan_item tags (idx + 1) idx = Ok (j, ne')"
      using 1(3) by (auto simp: scan_item.simps [of tags idx] split: if_splits)
    then show ?thesis using 1(1) colon by fastforce
  next
    case other
    then have "scan_item tags (idx + 1) ne = Ok (j, ne')"
      using 1(3) by (simp add: scan_item.simps [of tags idx])
    then show ?thesis using 1(2) other by fastforce
  qed
qed

definition decode_hex :: "hex_codec \<Rightarrow> nat \<Rightarrow> nat \<Rightarrow> bytes \<Rightarrow> (bytes, unit) result" where
  "decode_hex H i j tags = res_bind (slice i j tags) (\<lambda>s. ok_or (hex_decode H s) ())"

function decode_tags_from :: "hex_codec \<Rightarrow> bytes \<Rightarrow> nat \<Rightarrow> (EncEntryTag list, unit) result" where
  "decode_tags_from H tags idx =
     (if length tags \<le> idx then Ok []
      else
        (case scan_item tags (idx + 2) 0 of
           Ok (j, name_end) \<Rightarrow>
             if name_end = 0 then Err ()
             else
               res_bind (decode_hex H (idx + 2) name_end tags) (\<lambda>name.
               res_bind (decode_hex H (name_end + 1) j tags) (\<lambda>value.
               res_map (Cons \<lparr>enc_tag_name = name, enc_tag_value = value, enc_tag_plaintext = (tags ! idx = 49)\<rparr>)
                 (decode_tags_from H tags (j + 1))))
         | Err e \<Rightarrow> Err e
         | Panic \<Rightarrow> Panic))"
  by pat_completeness auto
termination
  by (relation "measure (\<lambda>(H, tags, idx). length tags - idx)") (auto dest: scan_item_advances)

declare decode_tags_from.simps [simp del]

definition decode_tags :: "hex_codec \<Rightarrow> bytes \<Rightarrow> (EncEntryTag list, unit) result" where
  "decode_tags H tags = decode_tags_from H tags 0"

section \<open>Decoding what the database wrote\<close>

lemma scan_item_skip:
  "58 \<notin> set s \<Longrightarrow> 44 \<notin> set s \<Longrightarrow>
   scan_item (pre @ s @ rest) (length pre) ne = scan_item (pre @ s @ rest) (length pre + length s) ne"
proof (induction s arbitrary: pre)
  case (Cons c s)
  have "scan_item (pre @ (c # s) @ rest) (length pre) ne = scan_item (pre @ (c # s) @ rest) (length pre + 1) ne"
    using Cons.prems by (subst scan_item.simps) (auto simp: nth_append)
  also have "\<dots> = scan_item ((pre @ [c]) @ s @ rest) (length (pre @ [c])) ne" by simp
  also have "\<dots> = scan_item ((pre @ [c]) @ s @ rest) (length (pre @ [c]) + length s) ne"
    using Cons.prems by (intro Cons.IH) auto
  finally show ?case by simp
qed simp

lemma scan_item_colon:
  "scan_item (pre @ 58 # rest) (length pre) 0 = scan_item (pre @ 58 # rest) (length pre + 1) (length pre)"
  by (subst scan_item.simps) (simp add: nth_append)

lemma scan_item_stop:
  "rest = [] \<or> hd rest = 44 \<Longrightarrow> scan_item (pre @ rest) (length pre) ne = Ok (length pre, ne)"
  by (subst scan_item.simps) (cases rest; auto simp: nth_append)

text \<open>One item, followed by a comma or the end.\<close>

lemma scan_item_text:
  assumes "58 \<notin> set n" "44 \<notin> set n" "58 \<notin> set v" "44 \<notin> set v" "rest = [] \<or> hd rest = 44"
  shows "scan_item (pre @ n @ 58 # v @ rest) (length pre) 0 =
    Ok (length pre + length n + 1 + length v, length pre + length n)"
proof -
  have "scan_item (pre @ n @ 58 # v @ rest) (length pre) 0 =
      scan_item ((pre @ n) @ 58 # v @ rest) (length (pre @ n)) 0"
    using scan_item_skip [of n pre "58 # v @ rest" 0] assms by simp
  also have "\<dots> = scan_item ((pre @ n @ [58]) @ v @ rest) (length (pre @ n @ [58])) (length (pre @ n))"
    by (subst scan_item_colon) simp
  also have "\<dots> = scan_item ((pre @ n @ [58] @ v) @ rest) (length (pre @ n @ [58] @ v)) (length (pre @ n))"
    using scan_item_skip [of v "pre @ n @ [58]" rest "length (pre @ n)"] assms by (simp add: add.assoc)
  also have "\<dots> = Ok (length (pre @ n @ [58] @ v), length (pre @ n))"
    by (rule scan_item_stop [OF assms(5)])
  finally show ?thesis by simp
qed

lemma slice_middle: "slice (length a) (length a + length b) (a @ b @ c) = Ok b"
  by (simp add: slice_def)

lemma decode_tags_item:
  assumes "hex_codec_correct H" "rest = [] \<or> hd rest = 44"
  shows "decode_tags_from H (pre @ tag_item H t @ rest) (length pre) =
    res_map (Cons t) (decode_tags_from H (pre @ tag_item H t @ rest) (length (pre @ tag_item H t) + 1))"
proof -
  let ?n = "sql_hex H (enc_tag_name t)" and ?v = "sql_hex H (enc_tag_value t)"
  let ?p = "pre @ [if enc_tag_plaintext t then 49 else 48, 58]"
  let ?tags = "pre @ tag_item H t @ rest"
  have tags: "?tags = ?p @ ?n @ 58 # ?v @ rest" by (simp add: tag_item_def)
  have hx: "58 \<notin> set ?n" "44 \<notin> set ?n" "58 \<notin> set ?v" "44 \<notin> set ?v"
    "hex_decode H ?n = Some (enc_tag_name t)" "hex_decode H ?v = Some (enc_tag_value t)"
    using assms(1) by (simp_all add: hex_codec_correct_def)
  have "scan_item ?tags (length pre + 2) 0 =
      Ok (length pre + 2 + length ?n + 1 + length ?v, length pre + 2 + length ?n)"
    using scan_item_text [OF hx(1-4) assms(2), of ?p] unfolding tags by simp
  moreover have "decode_hex H (length pre + 2) (length pre + 2 + length ?n) ?tags = Ok (enc_tag_name t)"
    using slice_middle [of ?p ?n "58 # ?v @ rest", where ?'b = unit] hx(5)
    unfolding tags decode_hex_def by simp
  moreover have "decode_hex H (length pre + 2 + length ?n + 1) (length pre + 2 + length ?n + 1 + length ?v) ?tags =
      Ok (enc_tag_value t)"
    using slice_middle [of "?p @ ?n @ [58]" ?v rest, where ?'b = unit] hx(6)
    unfolding tags decode_hex_def by simp
  moreover have "\<not> length ?tags \<le> length pre" by (simp add: tag_item_def)
  moreover have "?tags ! length pre = (if enc_tag_plaintext t then 49 else 48)"
    by (simp add: tag_item_def nth_append)
  moreover have "length pre + 2 + length ?n + 1 + length ?v = length (pre @ tag_item H t)"
    by (simp add: tag_item_def)
  moreover have "(if enc_tag_plaintext t then 49 else (48::byte)) = 49 \<longleftrightarrow> enc_tag_plaintext t" by simp
  moreover have "\<lparr>enc_tag_name = enc_tag_name t, enc_tag_value = enc_tag_value t,
      enc_tag_plaintext = enc_tag_plaintext t\<rparr> = t" by simp
  moreover have "length pre + 2 + length ?n \<noteq> 0" by simp
  ultimately show ?thesis
    by (subst decode_tags_from.simps) (simp only: if_False result.case prod.case res_bind.simps)
qed

lemma decode_tags_items:
  assumes "hex_codec_correct H"
  shows "decode_tags_from H (pre @ join [44] (map (tag_item H) ts)) (length pre) = Ok ts"
proof (induction ts arbitrary: pre)
  case Nil
  then show ?case by (subst decode_tags_from.simps) simp
next
  case (Cons t ts)
  show ?case
  proof (cases "ts = []")
    case True
    have "decode_tags_from H (pre @ tag_item H t @ []) (length (pre @ tag_item H t) + 1) = Ok []"
      by (subst decode_tags_from.simps) simp
    with True decode_tags_item [OF assms, of "[]" pre t] show ?thesis by simp
  next
    case False
    let ?rest = "44 # join [44] (map (tag_item H) ts)"
    have "decode_tags_from H ((pre @ tag_item H t @ [44]) @ join [44] (map (tag_item H) ts))
        (length (pre @ tag_item H t @ [44])) = Ok ts"
      by (rule Cons.IH)
    with False decode_tags_item [OF assms, of ?rest pre t] show ?thesis by (simp add: join_Cons)
  qed
qed

text \<open>
  Decoding the tag column that the database computed returns the tag rows of the item, in
  order, whatever bytes names and values have.
\<close>

theorem decode_tags_round_trip:
  assumes "hex_codec_correct H"
  shows "decode_tags H (tags_column H ts) = Ok ts"
  using decode_tags_items [OF assms, of "[]" ts] by (simp add: decode_tags_def tags_column_def)

text \<open>A hexadecimal codec for which the hypothesis holds, here on upper-case digits.\<close>

definition toy_hex_codec :: hex_codec where
  "toy_hex_codec = \<lparr>sql_hex = (\<lambda>bs. as_bytes (hex_repr bs)), hex_decode = (\<lambda>s. toy_hex_decode (of_bytes s))\<rparr>"

lemma toy_hex_codec_correct: "hex_codec_correct toy_hex_codec"
proof -
  have "plain_char c \<Longrightarrow> byte_of_char c \<noteq> 58 \<and> byte_of_char c \<noteq> 44" for c
  proof -
    assume p: "plain_char c"
    have "byte_of_char c = 58 \<Longrightarrow> (of_char c :: nat) = 58" "byte_of_char c = 44 \<Longrightarrow> (of_char c :: nat) = 44"
      using unat_byte_of_char [of c] by simp_all
    with p show ?thesis by (auto simp: plain_char_def is_digit_def)
  qed
  then have "x \<in> set (as_bytes (hex_repr bs)) \<Longrightarrow> x \<noteq> 58 \<and> x \<noteq> 44" for x bs
    using hex_repr_plain [of bs] by (auto simp: as_bytes_def list_all_iff)
  then show ?thesis by (auto simp: hex_codec_correct_def toy_hex_codec_def toy_hex_round_trip)
qed

theorem decode_tags_round_trip_witness:
  "decode_tags toy_hex_codec (tags_column toy_hex_codec
      [\<lparr>enc_tag_name = [1, 44], enc_tag_value = [], enc_tag_plaintext = True\<rparr>]) =
    Ok [\<lparr>enc_tag_name = [1, 44], enc_tag_value = [], enc_tag_plaintext = True\<rparr>]"
  by (rule decode_tags_round_trip [OF toy_hex_codec_correct])

section \<open>Rows to entries\<close>

record EncScanEntry =
  row_kind :: EntryKind
  row_category :: bytes
  row_name :: bytes
  row_value :: bytes
  row_tags :: bytes

definition decrypt_scan_entry :: "hex_codec \<Rightarrow> entry_encryptor \<Rightarrow> string option \<Rightarrow> EncScanEntry
    \<Rightarrow> Entry storage_result" where
  "decrypt_scan_entry H key category enc_entry =
     res_bind (case category of Some c \<Rightarrow> Ok c | None \<Rightarrow> ed_category key (row_category enc_entry)) (\<lambda>category.
     res_bind (ed_name key (row_name enc_entry)) (\<lambda>name.
     res_bind (ed_value key (as_bytes category) (as_bytes name) (row_value enc_entry)) (\<lambda>value.
     res_bind (res_map_err (\<lambda>_. err_msg storage_kind.Unexpected ''Error decoding tags'')
       (decode_tags H (row_tags enc_entry))) (\<lambda>enc_tags.
     res_bind (ed_tags key enc_tags) (\<lambda>tags.
     Ok \<lparr>entry_kind = row_kind enc_entry, entry_category = category, entry_name = name,
        entry_value = value, entry_tags = tags\<rparr>)))))"

definition decrypt_scan_batch :: "hex_codec \<Rightarrow> entry_encryptor \<Rightarrow> string option \<Rightarrow> EncScanEntry list
    \<Rightarrow> Entry list storage_result" where
  "decrypt_scan_batch H key category enc_rows = res_mapM (decrypt_scan_entry H key category) enc_rows"

text \<open>
  \<open>prepare_tags\<close> copies the tags into allocations that have room for the ciphertext; the capacity
  is not modelled, the contents are.
\<close>

definition prepare_string :: "string \<Rightarrow> string" where
  "prepare_string value = of_bytes (as_bytes value)"

primrec prepare_tag :: "EntryTag \<Rightarrow> EntryTag" where
  "prepare_tag (PlaintextTag name value) = PlaintextTag (prepare_string name) value"
| "prepare_tag (EncryptedTag name value) = EncryptedTag (prepare_string name) (prepare_string value)"

definition prepare_tags :: "EntryTag list \<Rightarrow> EntryTag list storage_result" where
  "prepare_tags tags = Ok (map prepare_tag tags)"

lemma prepare_tags_same [simp]: "prepare_tags tags = Ok tags"
proof -
  have "prepare_tag t = t" for t by (cases t) (simp_all add: prepare_string_def)
  then show ?thesis by (simp add: prepare_tags_def map_idI)
qed

text \<open>
  What a session writes for an entry: the encrypted category, name and value, and the tag rows
  (the closure that \<open>update\<close> runs before the statement).
\<close>

definition encrypt_row :: "hex_codec \<Rightarrow> entry_encryptor \<Rightarrow> bytes \<Rightarrow> Entry \<Rightarrow> EncScanEntry storage_result" where
  "encrypt_row H key nonce e =
     res_bind (ee_value key nonce (as_bytes (entry_category e)) (as_bytes (entry_name e)) (entry_value e)) (\<lambda>enc_value.
     res_bind (ee_category key (as_bytes (entry_category e))) (\<lambda>enc_category.
     res_bind (ee_name key (as_bytes (entry_name e))) (\<lambda>enc_name.
     res_bind (prepare_tags (entry_tags e)) (\<lambda>tags.
     res_bind (ee_tags key tags) (\<lambda>enc_tags.
     Ok \<lparr>row_kind = entry_kind e, row_category = enc_category, row_name = enc_name, row_value = enc_value,
        row_tags = tags_column H enc_tags\<rparr>)))))"

text \<open>The strings of an entry are UTF-8.\<close>

definition valid_entry :: "Entry \<Rightarrow> bool" where
  "valid_entry e \<longleftrightarrow> valid_str (entry_category e) \<and> valid_str (entry_name e) \<and> list_all valid_tag (entry_tags e)"

context encryptor_contract
begin

lemma decrypt_encrypted_row:
  assumes "hex_codec_correct H" "valid_entry e" "encrypt_row H X nonce e = Ok row"
    and "category = None \<or> category = Some (entry_category e)"
  shows "decrypt_scan_entry H X category row = Ok e"
proof -
  obtain ec en ev et where
    enc: "ee_category X (as_bytes (entry_category e)) = Ok ec" "ee_name X (as_bytes (entry_name e)) = Ok en"
      "ee_value X nonce (as_bytes (entry_category e)) (as_bytes (entry_name e)) (entry_value e) = Ok ev"
      "ee_tags X (entry_tags e) = Ok et"
    and row: "row = \<lparr>row_kind = entry_kind e, row_category = ec, row_name = en, row_value = ev,
        row_tags = tags_column H et\<rparr>"
    using assms(3) by (auto simp: encrypt_row_def result_simps)
  have v: "valid_str (entry_category e)" "valid_str (entry_name e)" "list_all valid_tag (entry_tags e)"
    using assms(2) by (simp_all add: valid_entry_def)
  have "decode_tags H (tags_column H et) = Ok et"
    using decode_tags_items [OF assms(1), of "[]" et] by (simp add: decode_tags_def tags_column_def)
  then show ?thesis
    using assms(4) category_law [OF v(1) enc(1)] name_law [OF v(2) enc(2)] value_law [OF enc(3)]
      tags_law [OF v(3) enc(4)]
    by (auto simp: decrypt_scan_entry_def row)
qed

lemma decrypt_encrypted_batch:
  assumes "hex_codec_correct H" "list_all2 (\<lambda>e row. valid_entry e \<and> (\<exists>nonce. encrypt_row H X nonce e = Ok row)) es rows"
  shows "decrypt_scan_batch H X None rows = Ok es"
proof -
  from assms(2) have "list_all2 (\<lambda>row e. decrypt_scan_entry H X None row = Ok e) rows es"
    by (induction rule: list_all2_induct) (auto intro: decrypt_encrypted_row [OF assms(1)])
  then show ?thesis by (simp add: decrypt_scan_batch_def res_mapM_eq_Ok)
qed

end

text \<open>
  A batch of rows written under a profile key decrypts to the entries that were written, in
  order and with their tags, for every correct cipher.
\<close>

theorem stored_entries_read_back:
  assumes "aead_correct (pe_cipher P)" and "hex_codec_correct H"
    and "list_all2 (\<lambda>e row. valid_entry e \<and> (\<exists>nonce. encrypt_row H (profile_encryptor P k) nonce e = Ok row)) es rows"
  shows "decrypt_scan_batch H (profile_encryptor P k) None rows = Ok es"
  by (rule encryptor_contract.decrypt_encrypted_batch [OF profile_encryptor_contract [OF assms(1)] assms(2,3)])

definition toy_entry :: Entry where
  "toy_entry = \<lparr>entry_kind = Item, entry_category = ''c'', entry_name = ''n'', entry_value = [1],
     entry_tags = [PlaintextTag ''p'' ''t'']\<rparr>"

lemma toy_encrypt_row:
  "\<exists>row. encrypt_row toy_hex_codec (profile_encryptor toy_profile_env toy_profile_key) (replicate 12 2) toy_entry = Ok row"
  by (simp add: encrypt_row_def toy_entry_def profile_encryptor_def toy_encrypt_searchable encrypt_tag_name_def
      derive_value_key_def toy_profile_env_def from_key_derivation_def hmac_derive_key_bytes_def profile_encrypt_def
      encrypt_with_nonce_def chacha20_encrypt_in_place_def vec_insert_def encrypt_searchable_def)

theorem stored_entries_read_back_witness:
  "\<exists>row. decrypt_scan_batch toy_hex_codec (profile_encryptor toy_profile_env toy_profile_key) None [row] = Ok [toy_entry]"
proof -
  obtain row where "encrypt_row toy_hex_codec (profile_encryptor toy_profile_env toy_profile_key)
      (replicate 12 2) toy_entry = Ok row" using toy_encrypt_row by blast
  moreover have "valid_entry toy_entry" by (simp add: valid_entry_def toy_entry_def valid_tag_def valid_str_def)
  moreover have "aead_correct (pe_cipher toy_profile_env)" by (simp add: toy_profile_env_def)
  ultimately show ?thesis
    using stored_entries_read_back [of toy_profile_env toy_hex_codec toy_profile_key "[toy_entry]" "[row]"]
      toy_hex_codec_correct by auto
qed

end
