(* ===== verification/Db_Filter.thy ===== *)
theory Db_Filter
  imports Db_Utils
begin

text \<open>
  Tag filters under a profile key (\<open>encode_tag_filter\<close> of \<open>askar-storage/src/backend/db_utils.rs\<close>)
  and the keys of a new store (\<open>init_keys\<close>). The main result joins the query encoder, the
  numbering of the placeholders and the encryption of tags: a search over encrypted tags selects
  what the query says of the tags before encryption.
\<close>

section \<open>Encoding a filter\<close>

definition filter_encoder :: "profile_env \<Rightarrow> ProfileKey \<Rightarrow> (bytes list, bytes, string) TagQueryEncoder" where
  "filter_encoder P key = TagSqlEncoder (\<lambda>name. encrypt_tag_name P key (as_bytes name))
     (\<lambda>value. encrypt_tag_value P key (as_bytes value))"

definition encode_tag_filter :: "(u64 \<Rightarrow> string) \<Rightarrow> profile_env \<Rightarrow> TagFilter option \<Rightarrow> ProfileKey \<Rightarrow> nat
    \<Rightarrow> (string \<times> bytes list) option storage_result" where
  "encode_tag_filter pl P tag_filter key offset =
     (case tag_filter of
        Some tf \<Rightarrow>
          res_bind (tag_query (filter_query tf)) (\<lambda>tq.
          res_bind (encode_query (filter_encoder P key) tq []) (\<lambda>(clause, arguments).
          (case clause of
             Some flt \<Rightarrow>
               res_bind (replace_arg_placeholders pl flt (word_of_nat offset + 1)) (\<lambda>flt.
               Ok (Some (flt, arguments)))
           | None \<Rightarrow> Ok None)))
      | None \<Rightarrow> Ok None)"

section \<open>Queries over tags before encryption\<close>

primrec tag_is_plaintext :: "EntryTag \<Rightarrow> bool" where
  "tag_is_plaintext (EncryptedTag n v) = False"
| "tag_is_plaintext (PlaintextTag n v) = True"

definition tag_op_match :: "(bytes \<Rightarrow> bytes \<Rightarrow> bool) \<Rightarrow> EntryTag list \<Rightarrow> CompareOp \<Rightarrow> string \<Rightarrow> string
    \<Rightarrow> bool \<Rightarrow> bool" where
  "tag_op_match like ts op n v pt = list_ex (\<lambda>t. entry_tag_name t = n \<and>
     sql_compare like op (as_bytes (entry_tag_value t)) (as_bytes v) \<and> tag_is_plaintext t = pt) ts"

definition tag_in_match :: "EntryTag list \<Rightarrow> string \<Rightarrow> string list \<Rightarrow> bool \<Rightarrow> bool" where
  "tag_in_match ts n vs pt = list_ex (\<lambda>t. entry_tag_name t = n \<and> entry_tag_value t \<in> set vs \<and>
     tag_is_plaintext t = pt) ts"

definition tag_exist_match :: "EntryTag list \<Rightarrow> string \<Rightarrow> bool \<Rightarrow> bool" where
  "tag_exist_match ts n pt = list_ex (\<lambda>t. entry_tag_name t = n \<and> tag_is_plaintext t = pt) ts"

text \<open>The meaning of a query for the tags of an entry.\<close>

definition tags_satisfy :: "(bytes \<Rightarrow> bytes \<Rightarrow> bool) \<Rightarrow> EntryTag list \<Rightarrow> TagQuery \<Rightarrow> bool" where
  "tags_satisfy like ts = query_holds (tag_atom tag_name_str (\<lambda>v pt. v) (tag_op_match like ts)
     (tag_in_match ts) (tag_exist_match ts))"

text \<open>
  What can be searched for: any comparison on a plaintext tag; equality, membership and existence
  on an encrypted one.
\<close>

fun searchable :: "TagQuery \<Rightarrow> bool" where
  "searchable (And qs) \<longleftrightarrow> list_all searchable qs"
| "searchable (Or qs) \<longleftrightarrow> list_all searchable qs"
| "searchable (NotQ q) \<longleftrightarrow> searchable q"
| "searchable (Neq n v) \<longleftrightarrow> is_plaintext n"
| "searchable (Gt n v) \<longleftrightarrow> is_plaintext n"
| "searchable (Gte n v) \<longleftrightarrow> is_plaintext n"
| "searchable (Lt n v) \<longleftrightarrow> is_plaintext n"
| "searchable (Lte n v) \<longleftrightarrow> is_plaintext n"
| "searchable (Like n v) \<longleftrightarrow> is_plaintext n"
| "searchable q \<longleftrightarrow> True"

section \<open>Every text of an encoded query was encrypted\<close>

definition name_ok :: "(string \<Rightarrow> bytes storage_result) \<Rightarrow> TagName \<Rightarrow> bool" where
  "name_ok en n \<longleftrightarrow> en (tag_name_str n) = Ok (arg_name en n)"

definition value_ok :: "(string \<Rightarrow> bytes storage_result) \<Rightarrow> bool \<Rightarrow> string \<Rightarrow> bool" where
  "value_ok ev pt v \<longleftrightarrow> pt \<or> ev v = Ok (arg_value ev v False)"

definition op_ok :: "(string \<Rightarrow> bytes storage_result) \<Rightarrow> (string \<Rightarrow> bytes storage_result) \<Rightarrow> TagName \<Rightarrow> string \<Rightarrow> bool" where
  "op_ok en ev n v \<longleftrightarrow> name_ok en n \<and> value_ok ev (is_plaintext n) v"

fun texts_ok :: "(string \<Rightarrow> bytes storage_result) \<Rightarrow> (string \<Rightarrow> bytes storage_result) \<Rightarrow> TagQuery \<Rightarrow> bool" where
  "texts_ok en ev (And qs) \<longleftrightarrow> list_all (texts_ok en ev) qs"
| "texts_ok en ev (Or qs) \<longleftrightarrow> list_all (texts_ok en ev) qs"
| "texts_ok en ev (NotQ q) \<longleftrightarrow> texts_ok en ev q"
| "texts_ok en ev (Exist ns) \<longleftrightarrow> list_all (name_ok en) ns"
| "texts_ok en ev (In n vs) \<longleftrightarrow> name_ok en n \<and> list_all (value_ok ev (is_plaintext n)) vs"
| "texts_ok en ev (Eq n v) \<longleftrightarrow> op_ok en ev n v"
| "texts_ok en ev (Neq n v) \<longleftrightarrow> op_ok en ev n v"
| "texts_ok en ev (Gt n v) \<longleftrightarrow> op_ok en ev n v"
| "texts_ok en ev (Gte n v) \<longleftrightarrow> op_ok en ev n v"
| "texts_ok en ev (Lt n v) \<longleftrightarrow> op_ok en ev n v"
| "texts_ok en ev (Lte n v) \<longleftrightarrow> op_ok en ev n v"
| "texts_ok en ev (Like n v) \<longleftrightarrow> op_ok en ev n v"

lemma encode_name_ok: "sql_encode_name en s n = Ok (a, t) \<Longrightarrow> name_ok en n"
  by (auto simp: name_ok_def arg_name_def dest!: sql_encode_name_Ok)

lemma encode_value_ok: "sql_encode_value ev s v pt = Ok (a, t) \<Longrightarrow> value_ok ev pt v"
  by (cases pt) (auto simp: value_ok_def arg_value_def dest!: sql_encode_value_Ok)

lemma encode_op_ok: "encode_tag_op (TagAstEncoder en ev) op n v neg s = Ok r \<Longrightarrow> op_ok en ev n v"
  by (auto simp: encode_tag_op_def Let_def result_simps op_ok_def dest: encode_name_ok encode_value_ok)

lemma encode_values_ok: "encode_values (TagAstEncoder en ev) pt vs s = Ok r \<Longrightarrow> list_all (value_ok ev pt) vs"
  by (induction vs arbitrary: s r) (auto simp: result_simps dest: encode_value_ok)

lemma encode_each_ok:
  assumes "encode_each f qs s = Ok r" "\<And>q s r. q \<in> set qs \<Longrightarrow> f q s = Ok r \<Longrightarrow> p q"
  shows "list_all p qs"
  using assms by (induction qs arbitrary: s r) (auto simp: result_simps)

lemma encode_exist_ok: "encode_tag_exist_one (TagAstEncoder en ev) neg n s = Ok r \<Longrightarrow> name_ok en n"
  by (auto simp: encode_tag_exist_one_def result_simps dest: encode_name_ok)

lemma encode_tag_query_ok: "encode_tag_query (TagAstEncoder en ev) q neg s = Ok r \<Longrightarrow> texts_ok en ev q"
proof (induction q arbitrary: neg s r)
  case (And qs)
  then show ?case by (auto simp: result_simps intro: encode_each_ok)
next
  case (Or qs)
  then show ?case by (auto simp: result_simps intro: encode_each_ok)
next
  case (Exist ns)
  then consider "ns = []" | n where "ns = [n]" "encode_tag_exist_one (TagAstEncoder en ev) neg n s = Ok r"
    | r where "encode_each (encode_tag_exist_one (TagAstEncoder en ev) neg) ns s = Ok r"
    by (cases ns rule: remdups_adj.cases)
       (auto simp: encode_tag_exist_def result_simps simp del: encode_each.simps)
  then show ?case
    by cases (auto intro: encode_each_ok dest: encode_exist_ok)
next
  case (In n vs)
  then show ?case
    by (auto simp: encode_tag_in_def Let_def result_simps dest: encode_name_ok encode_values_ok)
qed (auto dest: encode_op_ok)

section \<open>Matching encrypted rows\<close>

text \<open>
  The rows of a tag list: a row has the name of a tag, or one of a list of values, exactly if the
  tag has it.
\<close>

lemma encrypted_row:
  assumes "aead_correct (pe_cipher P)" "profile_encrypt_tag P k t = Ok r"
  shows encrypted_row_plaintext: "enc_tag_plaintext r = tag_is_plaintext t"
    and encrypted_row_name: "encrypt_tag_name P k (as_bytes n) = Ok a \<Longrightarrow> enc_tag_name r = a \<longleftrightarrow> entry_tag_name t = n"
    and encrypted_row_plain_value: "tag_is_plaintext t \<Longrightarrow> enc_tag_value r = as_bytes (entry_tag_value t)"
    and encrypted_row_value: "\<not> tag_is_plaintext t \<Longrightarrow> encrypt_tag_value P k (as_bytes v) = Ok a \<Longrightarrow>
      enc_tag_value r = a \<longleftrightarrow> entry_tag_value t = v"
proof -
  note inj = encrypt_searchable_inject [OF assms(1)]
  show "enc_tag_plaintext r = tag_is_plaintext t"
    using assms(2) by (cases t) (auto simp: result_simps)
  show "enc_tag_name r = a \<longleftrightarrow> entry_tag_name t = n" if "encrypt_tag_name P k (as_bytes n) = Ok a"
    using assms(2) that by (cases t) (auto simp: result_simps encrypt_tag_name_def dest: inj)
  show "enc_tag_value r = as_bytes (entry_tag_value t)" if "tag_is_plaintext t"
    using assms(2) that by (cases t) (auto simp: result_simps)
  show "enc_tag_value r = a \<longleftrightarrow> entry_tag_value t = v"
    if "\<not> tag_is_plaintext t" "encrypt_tag_value P k (as_bytes v) = Ok a"
    using assms(2) that by (cases t) (auto simp: result_simps encrypt_tag_value_def dest: inj)
qed

lemma list_ex_all2:
  assumes "list_all2 R xs ys" "\<And>x y. R x y \<Longrightarrow> p x = q y"
  shows "list_ex p xs = list_ex q ys"
  using assms by (induction rule: list_all2_induct) auto

abbreviation encrypted_rows :: "profile_env \<Rightarrow> ProfileKey \<Rightarrow> EntryTag list \<Rightarrow> EncEntryTag list \<Rightarrow> bool" where
  "encrypted_rows P k \<equiv> list_all2 (\<lambda>t r. profile_encrypt_tag P k t = Ok r)"

lemma op_match_encrypted:
  assumes "aead_correct (pe_cipher P)" "encrypted_rows P k ts rows"
    and "op_ok (\<lambda>n. encrypt_tag_name P k (as_bytes n)) ev n v"
    and "ev = (\<lambda>v. encrypt_tag_value P k (as_bytes v))" "op = CEq \<or> is_plaintext n"
  shows "row_op_match like rows op (arg_name (\<lambda>n. encrypt_tag_name P k (as_bytes n)) n)
      (arg_value ev v (is_plaintext n)) (is_plaintext n) =
    tag_op_match like ts op (tag_name_str n) v (is_plaintext n)"
proof -
  let ?a = "arg_name (\<lambda>n. encrypt_tag_name P k (as_bytes n)) n"
  have a: "encrypt_tag_name P k (as_bytes (tag_name_str n)) = Ok ?a"
    using assms(3) by (simp add: op_ok_def name_ok_def)
  show ?thesis
    unfolding row_op_match_def tag_op_match_def
  proof (rule sym, rule list_ex_all2 [OF assms(2)])
    fix t r assume r: "profile_encrypt_tag P k t = Ok r"
    note m = encrypted_row [OF assms(1) r]
    show "(entry_tag_name t = tag_name_str n \<and> sql_compare like op (as_bytes (entry_tag_value t)) (as_bytes v) \<and>
        tag_is_plaintext t = is_plaintext n) =
      (enc_tag_name r = ?a \<and> sql_compare like op (enc_tag_value r) (arg_value ev v (is_plaintext n)) \<and>
        (op = CNeq \<and> \<not> is_plaintext n \<and> 12 < length (arg_value ev v (is_plaintext n)) \<longrightarrow>
          take 12 (enc_tag_value r) \<noteq> take 12 (arg_value ev v (is_plaintext n))) \<and>
        enc_tag_plaintext r = is_plaintext n)"
    proof (cases "is_plaintext n")
      case True
      then show ?thesis using m(1) m(2) [OF a] m(3) by (auto simp: arg_value_def)
    next
      case False
      with assms(3-5) have op: "op = CEq" and v: "encrypt_tag_value P k (as_bytes v) = Ok (arg_value ev v False)"
        by (auto simp: op_ok_def value_ok_def)
      show ?thesis using False m(1) m(2) [OF a] m(4) [OF _ v] by (auto simp: op)
    qed
  qed
qed

lemma in_match_encrypted:
  assumes "aead_correct (pe_cipher P)" "encrypted_rows P k ts rows"
    and "name_ok (\<lambda>n. encrypt_tag_name P k (as_bytes n)) n" "list_all (value_ok ev (is_plaintext n)) vs"
    and "ev = (\<lambda>v. encrypt_tag_value P k (as_bytes v))"
  shows "row_in_match rows (arg_name (\<lambda>n. encrypt_tag_name P k (as_bytes n)) n)
      (map (\<lambda>v. arg_value ev v (is_plaintext n)) vs) (is_plaintext n) =
    tag_in_match ts (tag_name_str n) vs (is_plaintext n)"
proof -
  let ?a = "arg_name (\<lambda>n. encrypt_tag_name P k (as_bytes n)) n"
  have a: "encrypt_tag_name P k (as_bytes (tag_name_str n)) = Ok ?a"
    using assms(3) by (simp add: name_ok_def)
  show ?thesis
    unfolding row_in_match_def tag_in_match_def
  proof (rule sym, rule list_ex_all2 [OF assms(2)])
    fix t r assume r: "profile_encrypt_tag P k t = Ok r"
    note m = encrypted_row [OF assms(1) r]
    have "entry_tag_value t \<in> set vs \<longleftrightarrow> enc_tag_value r \<in> set (map (\<lambda>v. arg_value ev v (is_plaintext n)) vs)"
      if "tag_is_plaintext t = is_plaintext n"
    proof (cases "is_plaintext n")
      case True
      then show ?thesis using m(3) that by (auto simp: arg_value_def)
    next
      case False
      then have "enc_tag_value r = arg_value ev v False \<longleftrightarrow> entry_tag_value t = v" if "v \<in> set vs" for v
        using m(4) [of v] assms(4,5) that \<open>tag_is_plaintext t = is_plaintext n\<close>
        by (auto simp: list_all_iff value_ok_def)
      then show ?thesis using False by (auto simp: image_iff)
    qed
    then show "(entry_tag_name t = tag_name_str n \<and> entry_tag_value t \<in> set vs \<and> tag_is_plaintext t = is_plaintext n) =
      (enc_tag_name r = ?a \<and> enc_tag_value r \<in> set (map (\<lambda>v. arg_value ev v (is_plaintext n)) vs) \<and>
        enc_tag_plaintext r = is_plaintext n)"
      using m(1) m(2) [OF a] by auto
  qed
qed

lemma exist_match_encrypted:
  assumes "aead_correct (pe_cipher P)" "encrypted_rows P k ts rows"
    and "name_ok (\<lambda>n. encrypt_tag_name P k (as_bytes n)) n"
  shows "row_exist_match rows (arg_name (\<lambda>n. encrypt_tag_name P k (as_bytes n)) n) pt =
    tag_exist_match ts (tag_name_str n) pt"
  unfolding row_exist_match_def tag_exist_match_def
proof (rule sym, rule list_ex_all2 [OF assms(2)])
  fix t r assume r: "profile_encrypt_tag P k t = Ok r"
  note m = encrypted_row [OF assms(1) r]
  from assms(3) show "(entry_tag_name t = tag_name_str n \<and> tag_is_plaintext t = pt) =
      (enc_tag_name r = arg_name (\<lambda>n. encrypt_tag_name P k (as_bytes n)) n \<and> enc_tag_plaintext r = pt)"
    using m(1) m(2) by (auto simp: name_ok_def)
qed

lemma rows_satisfy_encrypted:
  fixes P k
  defines "en \<equiv> \<lambda>n. encrypt_tag_name P k (as_bytes n)" and "ev \<equiv> \<lambda>v. encrypt_tag_value P k (as_bytes v)"
  assumes cipher: "aead_correct (pe_cipher P)" and rows: "encrypted_rows P k ts rows"
  shows "searchable q \<Longrightarrow> texts_ok en ev q \<Longrightarrow> rows_satisfy en ev like rows q = tags_satisfy like ts q"
proof -
  have op: "row_op_match like rows op (arg_name en n) (arg_value ev v (is_plaintext n)) (is_plaintext n) =
      tag_op_match like ts op (tag_name_str n) v (is_plaintext n)"
    if "op_ok en ev n v" "op = CEq \<or> is_plaintext n" for op n v
    using op_match_encrypted [OF cipher rows that(1) [unfolded en_def] ev_def [THEN meta_eq_to_obj_eq] that(2)]
    unfolding en_def .
  have plain_op: "row_op_match like rows op (arg_name en n) (arg_value ev v True) True =
      tag_op_match like ts op (tag_name_str n) v True"
    if "op_ok en ev n v" "is_plaintext n" for op n v
    using op [OF that(1), of op] that(2) by simp
  show "searchable q \<Longrightarrow> texts_ok en ev q \<Longrightarrow> rows_satisfy en ev like rows q = tags_satisfy like ts q"
  proof (induction q)
    case (And qs)
    then have "\<forall>q \<in> set qs. rows_satisfy en ev like rows q = tags_satisfy like ts q" by (auto simp: list_all_iff)
    then show ?case by (simp add: rows_satisfy_def tags_satisfy_def list_all_iff)
  next
    case (Or qs)
    then have "\<forall>q \<in> set qs. rows_satisfy en ev like rows q = tags_satisfy like ts q" by (auto simp: list_all_iff)
    then show ?case by (simp add: rows_satisfy_def tags_satisfy_def list_ex_iff)
  next
    case (NotQ q)
    then show ?case by (simp add: rows_satisfy_def tags_satisfy_def)
  next
    case (Exist ns)
    then have "\<forall>n \<in> set ns. \<forall>pt. row_exist_match rows (arg_name en n) pt = tag_exist_match ts (tag_name_str n) pt"
      using exist_match_encrypted [OF cipher rows] by (auto simp: en_def list_all_iff)
    then show ?case by (simp add: rows_satisfy_def tags_satisfy_def list_all_iff)
  next
    case (In n vs)
    then show ?case
      using in_match_encrypted [OF cipher rows, of n ev vs] by (simp add: rows_satisfy_def tags_satisfy_def en_def ev_def)
  qed (simp_all add: rows_satisfy_def tags_satisfy_def op plain_op)
qed

section \<open>The search\<close>

lemma encode_tag_filter_Some:
  assumes "encode_tag_filter pl P (Some f) k offset = Ok r"
  shows "\<exists>c args. encode_tag_query (TagAstEncoder (\<lambda>n. encrypt_tag_name P k (as_bytes n))
      (\<lambda>v. encrypt_tag_value P k (as_bytes v))) (map_AbstractQuery tag_name_of_key id (filter_query f)) False [] = Ok (c, args) \<and>
    (case c of None \<Rightarrow> r = None
     | Some c \<Rightarrow> \<exists>flt. r = Some (flt, args) \<and>
        (replace_arg_placeholders pl (clause_text c) (word_of_nat (offset + 1)) :: string storage_result) = Ok flt)"
proof -
  obtain t args where e: "encode_query (filter_encoder P k) (map_AbstractQuery tag_name_of_key id (filter_query f)) [] = Ok (t, args)"
    and r: "(case t of Some flt \<Rightarrow> res_bind (replace_arg_placeholders pl flt (word_of_nat offset + 1)) (\<lambda>flt. Ok (Some (flt, args)))
      | None \<Rightarrow> Ok None) = (Ok r :: (string \<times> bytes list) option storage_result)"
    using assms by (auto simp: encode_tag_filter_def tag_query_total result_simps)
  from encode_query_ast [OF e [unfolded filter_encoder_def]] obtain c where
    c: "encode_tag_query (TagAstEncoder (\<lambda>n. encrypt_tag_name P k (as_bytes n))
      (\<lambda>v. encrypt_tag_value P k (as_bytes v))) (map_AbstractQuery tag_name_of_key id (filter_query f)) False [] = Ok (c, args)"
      "t = map_option clause_text c" by blast
  with r show ?thesis by (cases c) (auto simp: result_simps add.commute)
qed

text \<open>The condition of an encoded query, evaluated on the encrypted rows of a list of tags.\<close>

lemma encrypted_filter_holds:
  assumes "aead_correct (pe_cipher P)" "ee_tags (profile_encryptor P k) ts = Ok rows"
    and "encode_tag_query (TagAstEncoder (\<lambda>n. encrypt_tag_name P k (as_bytes n))
      (\<lambda>v. encrypt_tag_value P k (as_bytes v))) q False [] = Ok (c, args)"
    and "encode_exact False q" "searchable q"
  shows "filter_holds like rows args c = tags_satisfy like ts q"
proof -
  have "encrypted_rows P k ts rows"
    using assms(2) by (simp add: profile_encryptor_def res_mapM_eq_Ok)
  then show ?thesis
    using rows_satisfy_encrypted [OF assms(1) _ assms(5)] encode_tag_query_ok [OF assms(3)]
      ast_filter_holds [OF assms(3,4)] by simp
qed

text \<open>
  C8. An exact filter encoded under a profile key selects the entries that satisfy it. For a query that
  encodes exactly (\<open>encode_exact\<close>: no negated \<open>exist\<close> but of exactly one name, no part of a disjunction or negated conjunction that is
  always true) and asks of encrypted tags only equality, membership and existence (\<open>searchable\<close>: no \<open>$neq\<close>,
  ordering or \<open>$like\<close>): the condition, its placeholders numbered behind the \<open>offset\<close> parameters of the statement, holds for
  the encrypted tag rows of an entry exactly if the query holds for the tags before encryption;
  no condition is produced only when every entry satisfies the query.
\<close>

theorem encrypted_search_exact:
  assumes "aead_correct (pe_cipher P)" and "ee_tags (profile_encryptor P k) ts = Ok rows"
    and "encode_tag_filter pl P (Some f) k offset = Ok r"
    and "q = map_AbstractQuery tag_name_of_key id (filter_query f)" and "encode_exact False q" and "searchable q"
    and "\<forall>flt args. r = Some (flt, args) \<longrightarrow> length args < 2 ^ 63"
  shows "case r of None \<Rightarrow> tags_satisfy like ts q
    | Some (flt, args) \<Rightarrow> \<exists>c. flt = clause_sql (\<lambda>p. pl (word_of_nat p)) (offset + 1) c \<and>
        clause_holds like rows args c = tags_satisfy like ts q"
proof -
  define en where "en \<equiv> \<lambda>n. encrypt_tag_name P k (as_bytes n)"
  define ev where "ev \<equiv> \<lambda>v. encrypt_tag_value P k (as_bytes v)"
  from encode_tag_filter_Some [OF assms(3)] obtain c args where
    c: "encode_tag_query (TagAstEncoder en ev) q False [] = Ok (c, args)"
    and r: "case c of None \<Rightarrow> r = None
     | Some c \<Rightarrow> \<exists>flt. r = Some (flt, args) \<and>
        (replace_arg_placeholders pl (clause_text c) (word_of_nat (offset + 1)) :: string storage_result) = Ok flt"
    unfolding assms(4) en_def ev_def by blast
  have holds: "filter_holds like rows args c = tags_satisfy like ts q"
    using encrypted_filter_holds [OF assms(1,2) c [unfolded en_def ev_def] assms(5,6)] .
  show ?thesis
  proof (cases c)
    case None
    with r holds show ?thesis by (simp add: filter_holds_def)
  next
    case (Some d)
    with r obtain flt where flt: "r = Some (flt, args)"
        "(replace_arg_placeholders pl (clause_text d) (word_of_nat (offset + 1)) :: string storage_result) = Ok flt"
      by auto
    have "clause_refs d = [0..<length args]"
      using encode_tag_query_laid_out [OF c] Some by (simp add: laid_out_def)
    then have "(replace_arg_placeholders pl (clause_text d) (word_of_nat (offset + 1)) :: string storage_result) =
        Ok (clause_sql (pl \<circ> word_of_nat) (offset + 1) d)"
      using assms(7) flt(1) by (intro replace_clause_text) auto
    with flt(2) have "flt = clause_sql (\<lambda>p. pl (word_of_nat p)) (offset + 1) d" by (simp add: comp_def)
    with Some holds flt(1) show ?thesis by (auto simp: filter_holds_def)
  qed
qed

theorem encrypted_search_exact_witness:
  fixes ts :: "EntryTag list" and f :: TagFilter and q :: TagQuery
  defines "ts \<equiv> [EncryptedTag ''a'' ''1'']" and "f \<equiv> is_eq ''a'' ''1''"
    and "q \<equiv> Eq (Encrypted ''a'') ''1''"
  shows "\<exists>rows flt args c. ee_tags (profile_encryptor toy_profile_env toy_profile_key) ts = Ok rows \<and>
    encode_tag_filter placeholder toy_profile_env (Some f) toy_profile_key 3 = Ok (Some (flt, args)) \<and>
    flt = clause_sql (\<lambda>p. placeholder (word_of_nat p)) 4 c \<and>
    clause_holds (=) rows args c = tags_satisfy (=) ts q"
proof -
  let ?v = "replicate 12 1 @ as_bytes ''1'' @ replicate 16 (0 :: byte)" and ?n = "replicate 12 1 @ as_bytes ''a'' @ replicate 16 (0 :: byte)"
  let ?args = "[?n, ?v, take 12 ?v]" and ?c = "SqlOp False CEq 0 True False"
  have q: "q = map_AbstractQuery tag_name_of_key id (filter_query f)"
    by (simp add: q_def f_def is_eq_def tag_name_of_key_def)
  have en: "encrypt_tag_name toy_profile_env toy_profile_key m = Ok (replicate 12 1 @ m @ replicate 16 0)"
    "encrypt_tag_value toy_profile_env toy_profile_key m = Ok (replicate 12 1 @ m @ replicate 16 0)" for m
    by (simp_all only: encrypt_tag_name_def encrypt_tag_value_def toy_encrypt_searchable)
  have rows: "ee_tags (profile_encryptor toy_profile_env toy_profile_key) ts =
      Ok [\<lparr>enc_tag_name = ?n, enc_tag_value = ?v, enc_tag_plaintext = False\<rparr>]"
    by (simp add: ts_def profile_encryptor_def en)
  have "encode_query (filter_encoder toy_profile_env toy_profile_key) q [] = Ok (Some (clause_text ?c), ?args)"
    by (simp add: encode_query_def filter_encoder_def encode_tag_query_text q_def encode_tag_op_def sql_encode_name_def
        sql_encode_value_def en op_clause_text ast_op_clause_def sql_match_prefix_def)
  moreover have "(replace_arg_placeholders placeholder (clause_text ?c) (word_of_nat 4) :: string storage_result) =
      Ok (clause_sql (placeholder \<circ> word_of_nat) 4 ?c)"
    by (rule replace_clause_text [of _ 3]) (simp_all add: upt_rec)
  ultimately have r: "encode_tag_filter placeholder toy_profile_env (Some f) toy_profile_key 3 =
      Ok (Some (clause_sql (placeholder \<circ> word_of_nat) 4 ?c, ?args))"
    unfolding encode_tag_filter_def tag_query_total q [symmetric] option.case res_bind.simps
    by (simp del: clause_sql.simps)
  have "aead_correct (pe_cipher toy_profile_env)" by (simp add: toy_profile_env_def)
  from encrypted_search_exact [OF this rows r q, of "(=)"] rows r
  show ?thesis by (auto simp: q_def simp del: clause_sql.simps clause_holds.simps)
qed

section \<open>The keys of a new store\<close>

text \<open>
  \<open>init_keys\<close>: \<open>salt\<close>, \<open>rnd\<close> and \<open>nonce\<close> are the random bytes drawn for the store key and for the
  wrapping, \<open>profile_key\<close> the freshly generated profile key (six random keys).
\<close>

definition init_keys :: "store_key_env \<Rightarrow> profile_env \<Rightarrow> bytes \<Rightarrow> bytes \<Rightarrow> bytes \<Rightarrow> ProfileKey \<Rightarrow> StoreKeyMethod \<Rightarrow> PassKey
    \<Rightarrow> (ProfileKey \<times> bytes \<times> StoreKey \<times> string) storage_result" where
  "init_keys E P salt rnd nonce profile_key method pass_key =
     (if method = RawKey \<and> pass_key_is_empty pass_key then
        Err (err_msg storage_kind.Input ''Cannot create a store with a blank raw key'')
      else
        res_bind (store_key_method_resolve E salt rnd method pass_key) (\<lambda>(store_key, store_key_ref).
        res_bind (encode_profile_key E P nonce profile_key store_key) (\<lambda>enc_profile_key.
        Ok (profile_key, enc_profile_key, store_key, store_key_reference_into_uri store_key_ref))))"

text \<open>
  A new store can be reopened: from the reference URI and the wrapped profile key that
  \<open>init_keys\<close> returns for writing, and the same pass key, the store key and the profile key are
  recovered, under every key method.
\<close>

lemma init_keys_reopen:
  assumes "store_key_env_correct E" and "length salt = SALT_LENGTH"
    and "\<forall>b. pe_to_cbor P pk = Some b \<longrightarrow> pe_from_cbor P b = Some pk"
    and "init_keys E P salt rnd nonce pk method pass_key = Ok (k, enc, sk, uri)"
  shows "\<exists>r. store_key_reference_parse_uri uri = Ok r \<and> compare_method r method \<and>
    store_key_reference_resolve E r pass_key = Ok sk \<and> load_key E P (key_cache_new sk) enc = Ok k"
proof -
  from assms(4) obtain r where n: "method = RawKey \<longrightarrow> \<not> pass_key_is_empty pass_key"
    and sk: "store_key_method_resolve E salt rnd method pass_key = Ok (sk, r)"
    and enc: "encode_profile_key E P nonce pk sk = Ok enc" and k: "k = pk" and uri: "uri = store_key_reference_into_uri r"
    by (auto simp: init_keys_def result_simps split: if_splits)
  have "aead_correct (env_cipher E)" using assms(1) by (simp add: store_key_env_correct_def)
  then have "load_key E P (key_cache_new sk) enc = Ok k"
    using load_encoded_key [of E P pk nonce "key_cache_new sk" enc] assms(3) enc k by (simp add: key_cache_new_def)
  with store_key_reopen [OF assms(1,2) sk n] uri show ?thesis by auto
qed

lemma toy_init_keys:
  "\<exists>k enc sk uri. init_keys toy_env (toy_profile_env\<lparr>pe_from_cbor := \<lambda>b. Some toy_profile_key\<rparr>)
      (replicate 16 3) [] (replicate 12 4) toy_profile_key (DeriveKey (Argon2i Moderate)) (Some ''pass'') = Ok (k, enc, sk, uri)"
  by (simp add: init_keys_def store_key_method_resolve_def pass_key_is_none_def kdf_derive_new_key_def
      argon2_level_derive_key_def argon2_new_def SALT_LENGTH_def argon2_derive_key_bytes_def toy_env_def
      aead_key_from_secret_bytes_def encode_profile_key_def profile_key_to_bytes_def toy_profile_env_def wrap_data_def
      chacha20_encrypt_in_place_def vec_insert_def)

end
