(* ===== verification/Sqlite_Tables.thy ===== *)
theory Sqlite_Tables
  imports Db_Filter
begin

text \<open>
  The tables of a SQLite store (the schema of \<open>backend/sqlite/provision.rs\<close>) and the statements of
  \<open>backend/sqlite/mod.rs\<close> as functions on them, with the effects of the constraints that the
  schema declares: unique indexes, foreign keys and cascading deletion. The well-formedness of
  the tables is an invariant of every statement.
\<close>

section \<open>Tables\<close>

record ProfileRow =
  p_id :: int
  p_name :: string
  p_key :: bytes

record ItemRow =
  i_id :: int
  i_profile :: int
  i_kind :: nat
  i_category :: bytes
  i_name :: bytes
  i_value :: bytes
  i_expiry :: "int option"

record TagRow =
  t_item :: int
  t_tag :: EncEntryTag

record Database =
  config :: "string \<rightharpoonup> string option"
  profiles :: "ProfileRow list"
  items :: "ItemRow list"
  items_tags :: "TagRow list"

text \<open>The columns of the unique index \<open>ix_items_uniq\<close>.\<close>

definition item_key :: "ItemRow \<Rightarrow> int \<times> nat \<times> bytes \<times> bytes" where
  "item_key r = (i_profile r, i_kind r, i_category r, i_name r)"

text \<open>The row id of a new row in a table whose key is \<open>INTEGER PRIMARY KEY\<close>: one more than the largest.\<close>

definition next_id :: "int list \<Rightarrow> int" where
  "next_id ids = fold max ids 0 + 1"

definition db_wf :: "Database \<Rightarrow> bool" where
  "db_wf db \<longleftrightarrow> distinct (map p_id (profiles db)) \<and> distinct (map p_name (profiles db)) \<and>
     sorted_wrt (<) (map i_id (items db)) \<and> distinct (map item_key (items db)) \<and>
     (\<forall>r \<in> set (items db). i_profile r \<in> p_id ` set (profiles db)) \<and>
     (\<forall>t \<in> set (items_tags db). t_item t \<in> i_id ` set (items db))"

section \<open>Statements\<close>

text \<open>\<open>INSERT OR IGNORE INTO profiles\<close>: the id of the new row, or none when the name exists.\<close>

definition insert_profile :: "string \<Rightarrow> bytes \<Rightarrow> Database \<Rightarrow> int option \<times> Database" where
  "insert_profile name key db =
     (if name \<in> p_name ` set (profiles db) then (None, db)
      else
        (let pid = next_id (map p_id (profiles db))
         in (Some pid, db\<lparr>profiles := profiles db @ [\<lparr>p_id = pid, p_name = name, p_key = key\<rparr>]\<rparr>)))"

definition find_profile :: "string \<Rightarrow> Database \<Rightarrow> ProfileRow option" where
  "find_profile name db = find (\<lambda>p. p_name p = name) (profiles db)"

text \<open>Deleting items; the foreign key of \<open>items_tags\<close> deletes their tags with them.\<close>

definition delete_items :: "(ItemRow \<Rightarrow> bool) \<Rightarrow> Database \<Rightarrow> nat \<times> Database" where
  "delete_items p db =
     (let gone = filter p (items db)
      in (length gone, db\<lparr>items := filter (\<lambda>r. \<not> p r) (items db),
            items_tags := filter (\<lambda>t. t_item t \<notin> i_id ` set gone) (items_tags db)\<rparr>))"

text \<open>Deleting a profile deletes its items.\<close>

definition delete_profile :: "string \<Rightarrow> Database \<Rightarrow> nat \<times> Database" where
  "delete_profile name db =
     (let gone = filter (\<lambda>p. p_name p = name) (profiles db);
          db' = snd (delete_items (\<lambda>r. i_profile r \<in> p_id ` set gone) db)
      in (length gone, db'\<lparr>profiles := filter (\<lambda>p. p_name p \<noteq> name) (profiles db)\<rparr>))"

definition update_profile_key :: "bytes \<Rightarrow> int \<Rightarrow> Database \<Rightarrow> nat \<times> Database" where
  "update_profile_key key pid db =
     (length (filter (\<lambda>p. p_id p = pid) (profiles db)),
      db\<lparr>profiles := map (\<lambda>p. if p_id p = pid then p\<lparr>p_key := key\<rparr> else p) (profiles db)\<rparr>)"

text \<open>
  \<open>INSERT_QUERY\<close>: ignored when the unique index has the key; an item of a profile that does not
  exist violates the foreign key, which is an error of the statement.
\<close>

definition insert_item :: "int \<Rightarrow> nat \<Rightarrow> bytes \<Rightarrow> bytes \<Rightarrow> bytes \<Rightarrow> int option \<Rightarrow> Database
    \<Rightarrow> (int option, unit) result \<times> Database" where
  "insert_item pid kind category name value expiry db =
     (if (pid, kind, category, name) \<in> item_key ` set (items db) then (Ok None, db)
      else if pid \<notin> p_id ` set (profiles db) then (Err (), db)
      else
        (let row_id = next_id (map i_id (items db))
         in (Ok (Some row_id), db\<lparr>items := items db @ [\<lparr>i_id = row_id, i_profile = pid, i_kind = kind,
               i_category = category, i_name = name, i_value = value, i_expiry = expiry\<rparr>]\<rparr>)))"

text \<open>\<open>UPDATE_QUERY\<close>, which returns the id of the row.\<close>

definition update_item :: "int \<Rightarrow> nat \<Rightarrow> bytes \<Rightarrow> bytes \<Rightarrow> bytes \<Rightarrow> int option \<Rightarrow> Database
    \<Rightarrow> int option \<times> Database" where
  "update_item pid kind category name value expiry db =
     (map_option i_id (find (\<lambda>r. item_key r = (pid, kind, category, name)) (items db)),
      db\<lparr>items := map (\<lambda>r. if item_key r = (pid, kind, category, name)
          then r\<lparr>i_value := value, i_expiry := expiry\<rparr> else r) (items db)\<rparr>)"

definition delete_tags :: "int \<Rightarrow> Database \<Rightarrow> Database" where
  "delete_tags row_id db = db\<lparr>items_tags := filter (\<lambda>t. t_item t \<noteq> row_id) (items_tags db)\<rparr>"

definition insert_tag :: "int \<Rightarrow> EncEntryTag \<Rightarrow> Database \<Rightarrow> (unit, unit) result \<times> Database" where
  "insert_tag row_id tag db =
     (if row_id \<notin> i_id ` set (items db) then (Err (), db)
      else (Ok (), db\<lparr>items_tags := items_tags db @ [\<lparr>t_item = row_id, t_tag = tag\<rparr>]\<rparr>))"

text \<open>The tags of an item, in the order in which they were inserted.\<close>

definition item_tags :: "int \<Rightarrow> Database \<Rightarrow> EncEntryTag list" where
  "item_tags row_id db = map t_tag (filter (\<lambda>t. t_item t = row_id) (items_tags db))"

text \<open>
  \<open>expiry IS NULL OR DATETIME(expiry) > DATETIME('now')\<close>: both times are cut to whole seconds.
  Times are in milliseconds.
\<close>

definition unexpired :: "int \<Rightarrow> int option \<Rightarrow> bool" where
  "unexpired now expiry = (case expiry of None \<Rightarrow> True | Some t \<Rightarrow> now div 1000 < t div 1000)"

section \<open>The invariant\<close>

lemma next_id_greater: "i \<in> set ids \<Longrightarrow> i < next_id ids"
proof -
  have *: "a \<le> fold max ids a \<and> (\<forall>i \<in> set ids. i \<le> fold max ids a)" for a :: int
  proof (induction ids arbitrary: a)
    case (Cons x ids)
    from Cons [of "max x a"] show ?case by auto
  qed simp
  assume "i \<in> set ids"
  with * [of 0] show ?thesis by (auto simp: next_id_def)
qed

lemma next_id_fresh [simp]: "next_id ids \<notin> set ids"
  using next_id_greater by blast

lemma db_wf_items_distinct: "db_wf db \<Longrightarrow> distinct (map i_id (items db))"
  by (simp add: db_wf_def strict_sorted_iff)

lemma insert_profile_wf:
  assumes "db_wf db" "insert_profile name key db = (r, db')"
  shows "db_wf db'"
  using assms next_id_fresh [of "map p_id (profiles db)"]
  by (auto simp: insert_profile_def db_wf_def Let_def split: if_splits)

lemma delete_items_wf:
  assumes "db_wf db" "delete_items p db = (n, db')"
  shows "db_wf db'"
proof -
  have db': "items db' = filter (\<lambda>r. \<not> p r) (items db)" "profiles db' = profiles db"
    "items_tags db' = filter (\<lambda>t. t_item t \<notin> i_id ` set (filter p (items db))) (items_tags db)"
    using assms(2) by (auto simp: delete_items_def Let_def)
  have "sorted_wrt (<) (map i_id (items db))" "distinct (map item_key (items db))"
    using assms(1) by (simp_all add: db_wf_def)
  then have "sorted_wrt (<) (map i_id (items db'))" "distinct (map item_key (items db'))"
    by (simp_all add: db'(1) distinct_map_filter sorted_wrt_map sorted_wrt_filter)
  moreover have "\<forall>t \<in> set (items_tags db'). t_item t \<in> i_id ` set (items db')"
    using assms(1) by (fastforce simp: db' db_wf_def)
  ultimately show ?thesis using assms(1) by (auto simp: db_wf_def db'(1,2))
qed

lemma delete_profile_wf:
  assumes "db_wf db" "delete_profile name db = (n, db')"
  shows "db_wf db'"
proof -
  let ?gone = "filter (\<lambda>p. p_name p = name) (profiles db)"
  obtain m db1 where d: "delete_items (\<lambda>r. i_profile r \<in> p_id ` set ?gone) db = (m, db1)" by fastforce
  have wf1: "db_wf db1" by (rule delete_items_wf [OF assms(1) d])
  have p1: "profiles db1 = profiles db" "items db1 = filter (\<lambda>r. i_profile r \<notin> p_id ` set ?gone) (items db)"
    using d by (auto simp: delete_items_def Let_def)
  have db': "db' = db1\<lparr>profiles := filter (\<lambda>p. p_name p \<noteq> name) (profiles db)\<rparr>"
    using assms(2) d by (simp add: delete_profile_def Let_def)
  have "\<forall>r \<in> set (items db1). i_profile r \<in> p_id ` set (filter (\<lambda>p. p_name p \<noteq> name) (profiles db))"
    using assms(1) by (fastforce simp: p1(2) db_wf_def)
  then show ?thesis
    using wf1 by (simp add: db_wf_def db' p1(1) distinct_map_filter)
qed

lemma update_profile_key_wf:
  assumes "db_wf db" "update_profile_key key pid db = (n, db')"
  shows "db_wf db'"
proof -
  let ?f = "\<lambda>p. if p_id p = pid then p\<lparr>p_key := key\<rparr> else p"
  have f: "p_id (?f p) = p_id p" "p_name (?f p) = p_name p" for p by simp_all
  have "map p_id (map ?f (profiles db)) = map p_id (profiles db)"
    "map p_name (map ?f (profiles db)) = map p_name (profiles db)" by (simp_all only: map_map comp_def f)
  moreover have "p_id ` set (map ?f (profiles db)) = p_id ` set (profiles db)"
    by (simp only: set_map image_image f)
  moreover have "db' = db\<lparr>profiles := map ?f (profiles db)\<rparr>"
    using assms(2) by (simp add: update_profile_key_def)
  ultimately show ?thesis using assms(1) by (simp add: db_wf_def del: map_map set_map)
qed

lemma insert_item_wf:
  assumes "db_wf db" "insert_item pid kind category name value expiry db = (r, db')"
  shows "db_wf db'"
  using assms next_id_greater [of _ "map i_id (items db)"]
  by (auto simp: insert_item_def db_wf_def Let_def item_key_def sorted_wrt_append split: if_splits)

lemma update_item_wf:
  assumes "db_wf db" "update_item pid kind category name value expiry db = (r, db')"
  shows "db_wf db'"
proof -
  let ?f = "\<lambda>r. if item_key r = (pid, kind, category, name) then r\<lparr>i_value := value, i_expiry := expiry\<rparr> else r"
  have f: "i_id (?f r) = i_id r" "item_key (?f r) = item_key r" "i_profile (?f r) = i_profile r" for r
    by (simp_all add: item_key_def)
  then have "map i_id (map ?f (items db)) = map i_id (items db)"
    "map item_key (map ?f (items db)) = map item_key (items db)" by (simp_all only: map_map comp_def f)
  moreover have "i_id ` set (map ?f (items db)) = i_id ` set (items db)"
    by (simp only: set_map image_image f)
  moreover have "\<forall>r \<in> set (map ?f (items db)). i_profile r \<in> p_id ` set (profiles db)"
    using assms(1) f(3) by (auto simp: db_wf_def)
  moreover have "db' = db\<lparr>items := map ?f (items db)\<rparr>"
    using assms(2) by (simp add: update_item_def)
  ultimately show ?thesis using assms(1) by (simp add: db_wf_def del: map_map set_map)
qed

lemma delete_tags_wf: "db_wf db \<Longrightarrow> db_wf (delete_tags row_id db)"
  by (auto simp: delete_tags_def db_wf_def)

lemma insert_tag_wf: "db_wf db \<Longrightarrow> insert_tag row_id tag db = (r, db') \<Longrightarrow> db_wf db'"
  by (auto simp: insert_tag_def db_wf_def split: if_splits)

end
