(* ===== verification/Store_Spec.thy ===== *)
theory Store_Spec
  imports Sqlite_Tables
begin

text \<open>
  What the sessions of a store promise, without encryption and tables: a profile is a list of
  entries with their expiry times, in the order of their insertion. The operations are those of
  the trait \<open>BackendSession\<close> of \<open>askar-storage/src/backend/mod.rs\<close>; the SQLite sessions are shown to
  implement them in the theory \<open>Sqlite_Session\<close>.
\<close>

type_synonym stored = "Entry \<times> int option"

definition entry_key :: "Entry \<Rightarrow> EntryKind \<times> string \<times> string" where
  "entry_key e = (entry_kind e, entry_category e, entry_name e)"

definition spec_wf :: "stored list \<Rightarrow> bool" where
  "spec_wf st \<longleftrightarrow> distinct (map (entry_key \<circ> fst) st)"

text \<open>
  What has not expired depends on the backend, which compares the times in its own precision: \<open>live\<close> says
  of an expiry time whether it still lies ahead.
\<close>

definition visible :: "(int option \<Rightarrow> bool) \<Rightarrow> stored \<Rightarrow> bool" where
  "visible live s = live (snd s)"

definition spec_has :: "EntryKind \<times> string \<times> string \<Rightarrow> stored list \<Rightarrow> bool" where
  "spec_has k st = list_ex (\<lambda>s. entry_key (fst s) = k) st"

definition spec_fetch :: "(int option \<Rightarrow> bool) \<Rightarrow> EntryKind \<times> string \<times> string \<Rightarrow> stored list \<Rightarrow> Entry option" where
  "spec_fetch live k st = map_option fst (find (\<lambda>s. entry_key (fst s) = k \<and> visible live s) st)"

definition spec_insert :: "stored \<Rightarrow> stored list \<Rightarrow> unit storage_result \<times> stored list" where
  "spec_insert s st =
     (if spec_has (entry_key (fst s)) st then (Err (err_msg storage_kind.Duplicate ''Duplicate entry''), st)
      else (Ok (), st @ [s]))"

definition spec_replace :: "stored \<Rightarrow> stored list \<Rightarrow> unit storage_result \<times> stored list" where
  "spec_replace s st =
     (if spec_has (entry_key (fst s)) st then
        (Ok (), map (\<lambda>t. if entry_key (fst t) = entry_key (fst s) then s else t) st)
      else (Err (err_msg storage_kind.NotFound ''Error updating existing entry''), st))"

definition spec_remove :: "EntryKind \<times> string \<times> string \<Rightarrow> stored list \<Rightarrow> unit storage_result \<times> stored list" where
  "spec_remove k st =
     (if spec_has k st then (Ok (), filter (\<lambda>s. entry_key (fst s) \<noteq> k) st)
      else (Err (err_msg storage_kind.NotFound ''Entry not found''), st))"

text \<open>The entries that a search asks for: by kind, by category and by tags, each optional.\<close>

definition spec_matches :: "(bytes \<Rightarrow> bytes \<Rightarrow> bool) \<Rightarrow> EntryKind option \<Rightarrow> string option \<Rightarrow> TagQuery option
    \<Rightarrow> Entry \<Rightarrow> bool" where
  "spec_matches like kind category q e \<longleftrightarrow>
     (kind = None \<or> kind = Some (entry_kind e)) \<and>
     (category = None \<or> category = Some (entry_category e)) \<and>
     (case q of None \<Rightarrow> True | Some q \<Rightarrow> tags_satisfy like (entry_tags e) q)"

definition spec_select :: "(bytes \<Rightarrow> bytes \<Rightarrow> bool) \<Rightarrow> (int option \<Rightarrow> bool) \<Rightarrow> EntryKind option \<Rightarrow> string option \<Rightarrow> TagQuery option
    \<Rightarrow> stored list \<Rightarrow> Entry list" where
  "spec_select like live kind category q st =
     map fst (filter (\<lambda>s. visible live s \<and> spec_matches like kind category q (fst s)) st)"

text \<open>Removing by search also removes what has expired.\<close>

definition spec_remove_all :: "(bytes \<Rightarrow> bytes \<Rightarrow> bool) \<Rightarrow> EntryKind option \<Rightarrow> string option \<Rightarrow> TagQuery option
    \<Rightarrow> stored list \<Rightarrow> nat \<times> stored list" where
  "spec_remove_all like kind category q st =
     (length (filter (\<lambda>s. spec_matches like kind category q (fst s)) st),
      filter (\<lambda>s. \<not> spec_matches like kind category q (fst s)) st)"

section \<open>Laws of the specification\<close>

lemma spec_wf_insert: "spec_wf st \<Longrightarrow> spec_wf (snd (spec_insert s st))"
  by (auto simp: spec_insert_def spec_wf_def spec_has_def list_ex_iff)

lemma spec_wf_replace: "spec_wf st \<Longrightarrow> spec_wf (snd (spec_replace s st))"
proof -
  have "map (entry_key \<circ> fst) (map (\<lambda>t. if entry_key (fst t) = entry_key (fst s) then s else t) st) =
      map (entry_key \<circ> fst) st" by simp
  then show "spec_wf st \<Longrightarrow> spec_wf (snd (spec_replace s st))"
    by (simp add: spec_replace_def spec_wf_def del: map_map)
qed

lemma spec_wf_remove: "spec_wf st \<Longrightarrow> spec_wf (snd (spec_remove k st))"
  by (simp add: spec_remove_def spec_wf_def distinct_map_filter)

lemma find_map_other:
  "(\<And>x. x \<in> set xs \<Longrightarrow> P (f x) = P x \<and> (P x \<longrightarrow> f x = x)) \<Longrightarrow> find P (map f xs) = find P xs"
  by (induction xs) auto

lemma find_append: "find P (xs @ ys) = (case find P xs of None \<Rightarrow> find P ys | Some x \<Rightarrow> Some x)"
  by (induction xs) auto

lemma spec_fetch_SomeD: "spec_fetch live k st = Some e \<Longrightarrow> \<exists>x. (e, x) \<in> set st \<and> entry_key e = k"
  by (induction st) (auto simp: spec_fetch_def split: if_splits)

text \<open>Insert and replace are seen by a later fetch of the same key, and by no other.\<close>

lemma spec_fetch_insert:
  assumes "spec_insert s st = (Ok (), st')"
  shows "spec_fetch live k st' =
    (if k = entry_key (fst s) then (if visible live s then Some (fst s) else None) else spec_fetch live k st)"
proof -
  from assms have st': "st' = st @ [s]" and no: "\<not> spec_has (entry_key (fst s)) st"
    by (simp_all add: spec_insert_def split: if_splits)
  have "find (\<lambda>t. entry_key (fst t) = entry_key (fst s) \<and> visible live t) st = None"
    using no by (auto simp: find_None_iff spec_has_def list_ex_iff)
  then show ?thesis
    by (auto simp: spec_fetch_def st' find_append split: option.splits)
qed

lemma spec_fetch_remove:
  assumes "spec_remove k' st = (Ok (), st')"
  shows "spec_fetch live k st' = (if k = k' then None else spec_fetch live k st)"
proof -
  from assms have st': "st' = filter (\<lambda>s. entry_key (fst s) \<noteq> k') st"
    by (simp add: spec_remove_def split: if_splits)
  have "find (\<lambda>s. entry_key (fst s) = k \<and> visible live s) (filter (\<lambda>s. entry_key (fst s) \<noteq> k') st) =
      find (\<lambda>s. entry_key (fst s) = k \<and> visible live s) st" if "k \<noteq> k'"
    using that by (induction st) auto
  moreover have "find (\<lambda>s. entry_key (fst s) = k' \<and> visible live s) (filter (\<lambda>s. entry_key (fst s) \<noteq> k') st) = None"
    by (auto simp: find_None_iff)
  ultimately show ?thesis by (simp add: spec_fetch_def st')
qed

lemma spec_fetch_replace:
  assumes "spec_replace s st = (Ok (), st')"
  shows "spec_fetch live k st' =
    (if k = entry_key (fst s) then (if visible live s then Some (fst s) else None) else spec_fetch live k st)"
proof -
  let ?f = "\<lambda>t. if entry_key (fst t) = entry_key (fst s) then s else t"
  from assms have st': "st' = map ?f st" and yes: "spec_has (entry_key (fst s)) st"
    by (simp_all add: spec_replace_def split: if_splits)
  show ?thesis
  proof (cases "k = entry_key (fst s)")
    case False
    then have "find (\<lambda>t. entry_key (fst t) = k \<and> visible live t) (map ?f st) =
        find (\<lambda>t. entry_key (fst t) = k \<and> visible live t) st"
      by (intro find_map_other) auto
    with False show ?thesis by (simp add: spec_fetch_def st' del: find.simps)
  next
    case True
    have "find (\<lambda>t. entry_key (fst t) = k \<and> visible live t) (map ?f st) = (if visible live s then Some s else None)"
      using yes True by (induction st) (auto simp: spec_has_def find_None_iff)
    with True show ?thesis by (simp add: spec_fetch_def st')
  qed
qed

end
