(* ===== verification/Sqlite_Session.thy ===== *)
theory Sqlite_Session
  imports Store_Spec
begin

text \<open>
  The session operations of the SQLite backend (\<open>askar-storage/src/backend/sqlite/mod.rs\<close>, the
  implementation of \<open>BackendSession\<close>), over the tables of \<open>Sqlite_Tables\<close>. Each operation is given
  the outcome of \<open>acquire_key\<close>, the time, the random nonce it draws and the database. The main
  result is a simulation: the operations implement the specification in \<open>Store_Spec\<close>, on the
  entries before encryption.
\<close>

section \<open>Environment\<close>

text \<open>
  The foreign code: the cipher of the profile key, the hexadecimal functions, \<open>LIKE\<close>, the order in
  which the database returns rows that are not ordered, and the date arithmetic of \<open>chrono\<close>.
\<close>

record sqlite_env =
  se_profile :: profile_env
  se_hex :: hex_codec
  se_like :: "bytes \<Rightarrow> bytes \<Rightarrow> bool"
  se_order :: "ItemRow list \<Rightarrow> ItemRow list"
  se_add_time :: "int \<Rightarrow> int \<Rightarrow> int option"

abbreviation key_encryptor :: "sqlite_env \<Rightarrow> ProfileKey \<Rightarrow> entry_encryptor" where
  "key_encryptor env key \<equiv> profile_encryptor (se_profile env) key"

definition sqlite_env_correct :: "sqlite_env \<Rightarrow> bool" where
  "sqlite_env_correct env \<longleftrightarrow> aead_correct (pe_cipher (se_profile env)) \<and> hex_codec_correct (se_hex env) \<and>
     (\<forall>rows. mset (se_order env rows) = mset rows)"

type_synonym acquired = "(int \<times> ProfileKey) storage_result"

section \<open>Insert, replace and remove\<close>

definition expiry_timestamp :: "sqlite_env \<Rightarrow> int \<Rightarrow> int \<Rightarrow> int storage_result" where
  "expiry_timestamp env now expire_ms =
     ok_or (se_add_time env now expire_ms) (err_msg storage_kind.Unexpected ''Invalid expiry timestamp'')"

definition opt_expiry :: "sqlite_env \<Rightarrow> int \<Rightarrow> int option \<Rightarrow> int option storage_result" where
  "opt_expiry env now expiry_ms =
     (case expiry_ms of None \<Rightarrow> Ok None | Some ms \<Rightarrow> res_map Some (expiry_timestamp env now ms))"

fun insert_tags :: "int \<Rightarrow> EncEntryTag list \<Rightarrow> Database \<Rightarrow> unit storage_result \<times> Database" where
  "insert_tags row_id [] db = (Ok (), db)"
| "insert_tags row_id (tag # tags) db =
     (case insert_tag row_id tag db of
        (Ok _, db) \<Rightarrow> insert_tags row_id tags db
      | (Err e, db) \<Rightarrow> (Err (err_msg storage_kind.Backend ''Error inserting entry tags''), db)
      | (Panic, db) \<Rightarrow> (Panic, db))"

definition perform_insert :: "sqlite_env \<Rightarrow> int \<Rightarrow> int \<Rightarrow> EntryKind \<Rightarrow> bytes \<Rightarrow> bytes \<Rightarrow> bytes \<Rightarrow> EncEntryTag list option
    \<Rightarrow> int option \<Rightarrow> bool \<Rightarrow> Database \<Rightarrow> unit storage_result \<times> Database" where
  "perform_insert env now pid kind enc_category enc_name enc_value enc_tags expiry_ms new_row db =
     (case opt_expiry env now expiry_ms of
        Ok expiry \<Rightarrow>
          if new_row then
            (case insert_item pid (entry_kind_num kind) enc_category enc_name enc_value expiry db of
               (Ok (Some row_id), db) \<Rightarrow> insert_tags row_id (case enc_tags of None \<Rightarrow> [] | Some tags \<Rightarrow> tags) db
             | (Ok None, db) \<Rightarrow> (Err (err_msg storage_kind.Duplicate ''Duplicate entry''), db)
             | (Err _, db) \<Rightarrow> (Err (err_msg storage_kind.Backend ''Error inserting new entry''), db)
             | (Panic, db) \<Rightarrow> (Panic, db))
          else
            (case update_item pid (entry_kind_num kind) enc_category enc_name enc_value expiry db of
               (Some row_id, db) \<Rightarrow>
                 insert_tags row_id (case enc_tags of None \<Rightarrow> [] | Some tags \<Rightarrow> tags) (delete_tags row_id db)
             | (None, db) \<Rightarrow> (Err (err_msg storage_kind.NotFound ''Error updating existing entry''), db))
      | Err e \<Rightarrow> (Err e, db)
      | Panic \<Rightarrow> (Panic, db))"

definition perform_remove :: "int \<Rightarrow> EntryKind \<Rightarrow> bytes \<Rightarrow> bytes \<Rightarrow> bool \<Rightarrow> Database \<Rightarrow> unit storage_result \<times> Database" where
  "perform_remove pid kind enc_category enc_name ignore_error db =
     (let (n, db') = delete_items (\<lambda>r. item_key r = (pid, entry_kind_num kind, enc_category, enc_name)) db
      in if n = 0 \<and> \<not> ignore_error then (Err (err_msg storage_kind.NotFound ''Entry not found''), db')
         else (Ok (), db'))"

text \<open>What \<open>update\<close> encrypts before it touches the database.\<close>

definition encrypt_update :: "entry_encryptor \<Rightarrow> bytes \<Rightarrow> string \<Rightarrow> string \<Rightarrow> bytes \<Rightarrow> EntryTag list option
    \<Rightarrow> (bytes \<times> bytes \<times> bytes \<times> EncEntryTag list option) storage_result" where
  "encrypt_update X nonce category name value tags =
     res_bind (ee_value X nonce (as_bytes category) (as_bytes name) value) (\<lambda>enc_value.
     res_bind (ee_category X (as_bytes category)) (\<lambda>enc_category.
     res_bind (ee_name X (as_bytes name)) (\<lambda>enc_name.
     res_bind (case tags of None \<Rightarrow> Ok None
         | Some tags \<Rightarrow> res_bind (prepare_tags tags) (\<lambda>tags. res_map Some (ee_tags X tags))) (\<lambda>enc_tags.
     Ok (enc_category, enc_name, enc_value, enc_tags)))))"

text \<open>
  \<open>update\<close>. \<open>in_txn\<close> says whether the session is in a transaction: then \<open>as_transaction\<close> joins it and
  an error leaves the changes to the outer transaction; otherwise the transaction is rolled back.
\<close>

definition sqlite_update :: "sqlite_env \<Rightarrow> int \<Rightarrow> acquired \<Rightarrow> bool \<Rightarrow> bytes \<Rightarrow> EntryKind \<Rightarrow> EntryOperation
    \<Rightarrow> string \<Rightarrow> string \<Rightarrow> bytes option \<Rightarrow> EntryTag list option \<Rightarrow> int option \<Rightarrow> Database
    \<Rightarrow> unit storage_result \<times> Database" where
  "sqlite_update env now acquired in_txn nonce kind operation category name value tags expiry_ms db =
     (if operation = Remove then
        (case res_bind acquired (\<lambda>(pid, key).
              res_bind (ee_category (key_encryptor env key) (as_bytes category)) (\<lambda>enc_category.
              res_bind (ee_name (key_encryptor env key) (as_bytes name)) (\<lambda>enc_name.
              Ok (pid, enc_category, enc_name)))) of
           Ok (pid, enc_category, enc_name) \<Rightarrow> perform_remove pid kind enc_category enc_name False db
         | Err e \<Rightarrow> (Err e, db)
         | Panic \<Rightarrow> (Panic, db))
      else
        (case res_bind acquired (\<lambda>(pid, key).
              res_map (Pair pid) (encrypt_update (key_encryptor env key) nonce category name (opt_or value []) tags)) of
           Ok (pid, enc_category, enc_name, enc_value, enc_tags) \<Rightarrow>
             (case perform_insert env now pid kind enc_category enc_name enc_value enc_tags expiry_ms
                (operation = Insert) db of
                (Ok _, db') \<Rightarrow> (Ok (), db')
              | (r, db') \<Rightarrow> (r, if in_txn then db' else db))
         | Err e \<Rightarrow> (Err e, db)
         | Panic \<Rightarrow> (Panic, db)))"

section \<open>Fetch\<close>

definition sqlite_fetch :: "sqlite_env \<Rightarrow> int \<Rightarrow> acquired \<Rightarrow> EntryKind \<Rightarrow> string \<Rightarrow> string \<Rightarrow> Database
    \<Rightarrow> Entry option storage_result" where
  "sqlite_fetch env now acquired kind category name db =
     res_bind acquired (\<lambda>(pid, key).
     res_bind (ee_category (key_encryptor env key) (as_bytes category)) (\<lambda>enc_category.
     res_bind (ee_name (key_encryptor env key) (as_bytes name)) (\<lambda>enc_name.
     (case find (\<lambda>r. item_key r = (pid, entry_kind_num kind, enc_category, enc_name) \<and> unexpired now (i_expiry r))
        (items db) of
        Some row \<Rightarrow>
          res_bind (ed_value (key_encryptor env key) (as_bytes category) (as_bytes name) (i_value row)) (\<lambda>value.
          res_bind (res_map_err (\<lambda>_. err_msg storage_kind.Unexpected ''Error decoding entry tags'')
            (decode_tags (se_hex env) (tags_column (se_hex env) (item_tags (i_id row) db)))) (\<lambda>enc_tags.
          res_bind (ed_tags (key_encryptor env key) enc_tags) (\<lambda>tags.
          Ok (Some \<lparr>entry_kind = kind, entry_category = category, entry_name = name, entry_value = value,
            entry_tags = tags\<rparr>))))
      | None \<Rightarrow> Ok None))))"

section \<open>Rows and entries\<close>

text \<open>
  A row with its tags stands for an entry: its columns are encryptions of the parts of the entry,
  the value under some nonce.
\<close>

definition row_of :: "entry_encryptor \<Rightarrow> Database \<Rightarrow> ItemRow \<Rightarrow> stored \<Rightarrow> bool" where
  "row_of X db r s \<longleftrightarrow>
     (let e = fst s in
      i_kind r = entry_kind_num (entry_kind e) \<and> valid_entry e \<and>
      ee_category X (as_bytes (entry_category e)) = Ok (i_category r) \<and>
      ee_name X (as_bytes (entry_name e)) = Ok (i_name r) \<and>
      (\<exists>nonce. ee_value X nonce (as_bytes (entry_category e)) (as_bytes (entry_name e)) (entry_value e) = Ok (i_value r)) \<and>
      ee_tags X (entry_tags e) = Ok (item_tags (i_id r) db) \<and>
      i_expiry r = snd s)"

definition profile_items :: "int \<Rightarrow> Database \<Rightarrow> ItemRow list" where
  "profile_items pid db = filter (\<lambda>r. i_profile r = pid) (items db)"

text \<open>The items of a profile represent a list of stored entries.\<close>

definition represents :: "entry_encryptor \<Rightarrow> int \<Rightarrow> Database \<Rightarrow> stored list \<Rightarrow> bool" where
  "represents X pid db st \<longleftrightarrow> db_wf db \<and> pid \<in> p_id ` set (profiles db) \<and>
     list_all2 (row_of X db) (profile_items pid db) st"

lemma row_of_cong:
  "item_tags (i_id r) db' = item_tags (i_id r) db \<Longrightarrow> row_of X db' r s = row_of X db r s"
  by (simp add: row_of_def)

context encryptor_contract
begin

text \<open>Encryption of categories and names is injective, so keys of rows are keys of entries.\<close>

lemma category_inject:
  assumes "valid_str c" "valid_str c'" "ee_category X (as_bytes c) = Ok e" "ee_category X (as_bytes c') = Ok e'"
  shows "e = e' \<longleftrightarrow> c = c'"
  using assms category_law by (metis result.inject(1))

lemma name_inject:
  assumes "valid_str c" "valid_str c'" "ee_name X (as_bytes c) = Ok e" "ee_name X (as_bytes c') = Ok e'"
  shows "e = e' \<longleftrightarrow> c = c'"
  using assms name_law by (metis result.inject(1))

lemma row_of_key:
  assumes "row_of X db r s" "i_profile r = pid" "valid_str c" "valid_str n"
    and "ee_category X (as_bytes c) = Ok ec" "ee_name X (as_bytes n) = Ok en"
  shows "item_key r = (pid, entry_kind_num k, ec, en) \<longleftrightarrow> entry_key (fst s) = (k, c, n)"
proof -
  have "i_category r = ec \<longleftrightarrow> entry_category (fst s) = c" "i_name r = en \<longleftrightarrow> entry_name (fst s) = n"
    using category_inject [OF _ assms(3) _ assms(5)] name_inject [OF _ assms(4) _ assms(6)] assms(1)
    by (auto simp: row_of_def Let_def valid_entry_def)
  moreover have "i_kind r = entry_kind_num (entry_kind (fst s))" using assms(1) by (simp add: row_of_def Let_def)
  ultimately show ?thesis using assms(2) by (auto simp: item_key_def entry_key_def)
qed

end

section \<open>The tags of an item under the statements\<close>

lemma insert_tags_Ok:
  "row_id \<in> i_id ` set (items db) \<Longrightarrow> insert_tags row_id tags db =
    (Ok (), db\<lparr>items_tags := items_tags db @ map (\<lambda>t. \<lparr>t_item = row_id, t_tag = t\<rparr>) tags\<rparr>)"
  by (induction tags arbitrary: db) (auto simp: insert_tag_def)

lemma item_tags_append:
  "item_tags i (db\<lparr>items_tags := items_tags db @ map (\<lambda>t. \<lparr>t_item = row_id, t_tag = t\<rparr>) tags\<rparr>) =
    item_tags i db @ (if i = row_id then tags else [])"
  by (simp add: item_tags_def filter_map comp_def)

lemma item_tags_delete: "item_tags i (delete_tags row_id db) = (if i = row_id then [] else item_tags i db)"
proof -
  have "filter (\<lambda>t. t_item t = i) (filter (\<lambda>t. t_item t \<noteq> row_id) (items_tags db)) =
      (if i = row_id then [] else filter (\<lambda>t. t_item t = i) (items_tags db))"
    by (auto simp: filter_empty_conv intro!: filter_cong)
  then show ?thesis by (simp add: item_tags_def delete_tags_def)
qed

lemma item_tags_items_update [simp]: "item_tags i (db\<lparr>items := xs\<rparr>) = item_tags i db"
  by (simp add: item_tags_def)

lemma item_tags_fresh:
  assumes "db_wf db" "i \<notin> i_id ` set (items db)"
  shows "item_tags i db = []"
  using assms by (auto simp: item_tags_def db_wf_def filter_empty_conv)

lemma filter_outside: "i \<notin> S \<Longrightarrow> filter (\<lambda>t. f t = i) (filter (\<lambda>t. f t \<notin> S) ts) = filter (\<lambda>t. f t = i) ts"
  by (induction ts) auto

lemma item_tags_delete_items:
  assumes "db_wf db" "r \<in> set (items db)" "\<not> p r" "delete_items p db = (n, db')"
  shows "item_tags (i_id r) db' = item_tags (i_id r) db"
proof -
  have "i_id r \<notin> i_id ` set (filter p (items db))"
    using db_wf_items_distinct [OF assms(1)] assms(2,3) by (auto simp: distinct_map dest: inj_onD)
  then have "filter (\<lambda>t. t_item t = i_id r) (filter (\<lambda>t. t_item t \<notin> i_id ` set (filter p (items db))) (items_tags db)) =
      filter (\<lambda>t. t_item t = i_id r) (items_tags db)"
    by (rule filter_outside)
  moreover have "items_tags db' = filter (\<lambda>t. t_item t \<notin> i_id ` set (filter p (items db))) (items_tags db)"
    using assms(4) by (auto simp: delete_items_def Let_def)
  ultimately show ?thesis by (simp only: item_tags_def)
qed

section \<open>Simulation of the statements\<close>

lemma find_filter: "(\<And>x. P x \<Longrightarrow> Q x) \<Longrightarrow> find P (filter Q xs) = find P xs"
  by (induction xs) auto

lemma list_all2_filter:
  assumes "list_all2 R xs ys" "\<And>x y. x \<in> set xs \<Longrightarrow> y \<in> set ys \<Longrightarrow> R x y \<Longrightarrow> p x = q y"
  shows "list_all2 R (filter p xs) (filter q ys)"
  using assms by (induction rule: list_all2_induct) auto

lemma profile_items_delete:
  "delete_items p db = (n, db') \<Longrightarrow> profile_items pid db' = filter (\<lambda>r. \<not> p r) (profile_items pid db)"
  by (auto simp: profile_items_def delete_items_def Let_def filter_filter conj_commute)

lemma represents_delete:
  assumes rep: "represents X pid db st" and del: "delete_items p db = (n, db')"
    and pq: "\<And>r s. r \<in> set (profile_items pid db) \<Longrightarrow> row_of X db r s \<Longrightarrow> p r = q s"
    and own: "\<And>r. r \<in> set (items db) \<Longrightarrow> p r \<Longrightarrow> i_profile r = pid"
  shows "represents X pid db' (filter (\<lambda>s. \<not> q s) st) \<and> n = length (filter q st)"
proof -
  have wf: "db_wf db" and all: "list_all2 (row_of X db) (profile_items pid db) st"
    using rep by (simp_all add: represents_def)
  have "list_all2 (row_of X db) (filter (\<lambda>r. \<not> p r) (profile_items pid db)) (filter (\<lambda>s. \<not> q s) st)"
    by (rule list_all2_filter [OF all]) (simp add: pq)
  then have "list_all2 (row_of X db') (filter (\<lambda>r. \<not> p r) (profile_items pid db)) (filter (\<lambda>s. \<not> q s) st)"
    by (rule list.rel_mono_strong)
       (auto simp: profile_items_def intro: row_of_cong [THEN iffD2, OF item_tags_delete_items [OF wf _ _ del]])
  moreover have "profiles db' = profiles db" using del by (auto simp: delete_items_def Let_def)
  ultimately have "represents X pid db' (filter (\<lambda>s. \<not> q s) st)"
    using rep delete_items_wf [OF wf del] by (simp add: represents_def profile_items_delete [OF del])
  moreover have "n = length (filter p (profile_items pid db))"
  proof -
    have "filter p (items db) = filter p (profile_items pid db)"
      using own by (auto simp: profile_items_def intro!: filter_cong)
    then show ?thesis using del by (simp add: delete_items_def Let_def)
  qed
  moreover have "length (filter p (profile_items pid db)) = length (filter q st)"
    using list_all2_filter [OF all, of p q] pq by (auto dest: list_all2_lengthD)
  ultimately show ?thesis by simp
qed

context encryptor_contract
begin

lemma represents_has:
  assumes rep: "represents X pid db st" and "valid_str c" "valid_str n"
    and "ee_category X (as_bytes c) = Ok ec" "ee_name X (as_bytes n) = Ok en"
  shows "(pid, entry_kind_num k, ec, en) \<in> item_key ` set (items db) \<longleftrightarrow> spec_has (k, c, n) st"
proof -
  let ?K = "(pid, entry_kind_num k, ec, en)"
  have all: "list_all2 (row_of X db) (profile_items pid db) st" using rep by (simp add: represents_def)
  have "?K \<in> item_key ` set (items db) \<longleftrightarrow> list_ex (\<lambda>r. item_key r = ?K) (profile_items pid db)"
    by (auto simp: list_ex_iff profile_items_def item_key_def)
  also have "\<dots> \<longleftrightarrow> list_ex (\<lambda>s. entry_key (fst s) = (k, c, n)) st"
  proof (rule list_ex_all2)
    show "list_all2 (\<lambda>r s. row_of X db r s \<and> i_profile r = pid) (profile_items pid db) st"
      by (rule list.rel_mono_strong [OF all]) (simp add: profile_items_def)
    show "(item_key r = ?K) = (entry_key (fst s) = (k, c, n))" if "row_of X db r s \<and> i_profile r = pid" for r s
      using row_of_key [OF _ _ assms(2-5)] that by blast
  qed
  finally show ?thesis by (simp add: spec_has_def)
qed

text \<open>The entry that is written, and its encryption.\<close>

definition encrypts_to :: "bytes \<Rightarrow> Entry \<Rightarrow> bytes \<Rightarrow> bytes \<Rightarrow> bytes \<Rightarrow> EncEntryTag list \<Rightarrow> bool" where
  "encrypts_to nonce e ec en ev et \<longleftrightarrow> valid_entry e \<and>
     ee_category X (as_bytes (entry_category e)) = Ok ec \<and> ee_name X (as_bytes (entry_name e)) = Ok en \<and>
     ee_value X nonce (as_bytes (entry_category e)) (as_bytes (entry_name e)) (entry_value e) = Ok ev \<and>
     ee_tags X (entry_tags e) = Ok et"

text \<open>A new row with its tags, under an id above all others, is a new entry at the end of the list.\<close>

lemma represents_new_row:
  assumes rep: "represents X pid db st" and enc: "encrypts_to nonce e ec en ev et"
    and above: "\<forall>r \<in> set (items db). i_id r < i"
    and new: "(pid, entry_kind_num (entry_kind e), ec, en) \<notin> item_key ` set (items db)"
    and row: "row = \<lparr>i_id = i, i_profile = pid, i_kind = entry_kind_num (entry_kind e), i_category = ec, i_name = en, i_value = ev, i_expiry = x\<rparr>"
  shows "represents X pid (db\<lparr>items := items db @ [row], items_tags := items_tags db @ map (\<lambda>t. \<lparr>t_item = i, t_tag = t\<rparr>) et\<rparr>) (st @ [(e, x)])"
    (is "represents X pid ?db' _")
proof -
  have wf: "db_wf db" and pid: "pid \<in> p_id ` set (profiles db)"
    and all: "list_all2 (row_of X db) (profile_items pid db) st"
    using rep by (simp_all add: represents_def)
  have fresh: "i \<notin> i_id ` set (items db)" using above by auto
  have tags: "item_tags j ?db' = item_tags j db @ (if j = i then et else [])" for j
    using item_tags_append [of j "db\<lparr>items := items db @ [row]\<rparr>" i et] by simp
  have "item_tags i ?db' = et" by (simp only: tags item_tags_fresh [OF wf fresh] simp_thms if_True append_Nil)
  then have "row_of X ?db' row (e, x)" using enc by (auto simp: row_of_def encrypts_to_def row)
  moreover have "list_all2 (row_of X ?db') (profile_items pid db) st"
  proof (rule list.rel_mono_strong [OF all])
    fix r s assume "r \<in> set (profile_items pid db)" "row_of X db r s"
    moreover from this have "i_id r \<in> i_id ` set (items db)" by (simp add: profile_items_def)
    with fresh have "i_id r \<noteq> i" by metis
    then have "item_tags (i_id r) ?db' = item_tags (i_id r) db" by (simp only: tags if_False append_Nil2)
    ultimately show "row_of X ?db' r s" by (simp add: row_of_def)
  qed
  moreover have "profile_items pid ?db' = profile_items pid db @ [row]" by (simp add: profile_items_def row)
  moreover have "db_wf ?db'"
    using wf pid above new by (auto simp: db_wf_def row item_key_def sorted_wrt_append)
  ultimately show ?thesis using pid by (simp add: represents_def list_all2_appendI)
qed

lemma perform_insert_new:
  assumes rep: "represents X pid db st" and enc: "encrypts_to nonce e ec en ev et"
    and x: "opt_expiry env now expiry_ms = Ok x" and et: "et = (case ot of None \<Rightarrow> [] | Some t \<Rightarrow> t)"
    and r: "perform_insert env now pid (entry_kind e) ec en ev ot expiry_ms True db = (r, db')"
  shows "r = fst (spec_insert (e, x) st) \<and> represents X pid db' (snd (spec_insert (e, x) st))"
proof -
  have has: "(pid, entry_kind_num (entry_kind e), ec, en) \<in> item_key ` set (items db) \<longleftrightarrow> spec_has (entry_key e) st"
    using represents_has [OF rep, of "entry_category e" "entry_name e" ec en "entry_kind e"] enc
    by (simp add: encrypts_to_def entry_key_def valid_entry_def)
  have wf: "db_wf db" and pid: "pid \<in> p_id ` set (profiles db)"
    and all: "list_all2 (row_of X db) (profile_items pid db) st"
    using rep by (simp_all add: represents_def)
  show ?thesis
  proof (cases "spec_has (entry_key e) st")
    case True
    then have "r = Err (err_msg storage_kind.Duplicate ''Duplicate entry'')" "db' = db"
      using r has x by (simp_all add: perform_insert_def insert_item_def)
    with True rep show ?thesis by (simp add: spec_insert_def)
  next
    case False
    let ?id = "next_id (map i_id (items db))"
    let ?row = "\<lparr>i_id = ?id, i_profile = pid, i_kind = entry_kind_num (entry_kind e), i_category = ec,
        i_name = en, i_value = ev, i_expiry = x\<rparr>"
    let ?db1 = "db\<lparr>items := items db @ [?row]\<rparr>"
    have ins: "insert_item pid (entry_kind_num (entry_kind e)) ec en ev x db = (Ok (Some ?id), ?db1)"
      using False has pid by (simp add: insert_item_def Let_def)
    have "r = Ok ()" and db': "db' = ?db1\<lparr>items_tags := items_tags ?db1 @ map (\<lambda>t. \<lparr>t_item = ?id, t_tag = t\<rparr>) et\<rparr>"
      using r ins x et insert_tags_Ok [of ?id ?db1 et] by (simp_all add: perform_insert_def)
    have "\<forall>r \<in> set (items db). i_id r < ?id" using next_id_greater [of _ "map i_id (items db)"] by simp
    from represents_new_row [OF rep enc this _ refl] False has db' have "represents X pid db' (st @ [(e, x)])" by simp
    with False \<open>r = Ok ()\<close> show ?thesis by (simp add: spec_insert_def)
  qed
qed

lemma find_key_unique:
  assumes "db_wf db" "r \<in> set (items db)" "item_key r = K"
  shows "find (\<lambda>r. item_key r = K) (items db) = Some r"
proof -
  have inj: "inj_on item_key (set (items db))" using assms(1) by (simp add: db_wf_def distinct_map)
  obtain r' where r': "find (\<lambda>r. item_key r = K) (items db) = Some r'"
    using assms(2,3) by (cases "find (\<lambda>r. item_key r = K) (items db)") (auto simp: find_None_iff)
  then have "r' \<in> set (items db)" "item_key r' = K" by (auto simp: find_Some_iff)
  with inj assms(2,3) have "r' = r" by (auto dest: inj_onD)
  with r' show ?thesis by simp
qed

lemma perform_insert_existing:
  assumes rep: "represents X pid db st" and enc: "encrypts_to nonce e ec en ev et"
    and x: "opt_expiry env now expiry_ms = Ok x" and et: "et = (case ot of None \<Rightarrow> [] | Some t \<Rightarrow> t)"
    and r: "perform_insert env now pid (entry_kind e) ec en ev ot expiry_ms False db = (r, db')"
  shows "r = fst (spec_replace (e, x) st) \<and> represents X pid db' (snd (spec_replace (e, x) st))"
proof -
  let ?K = "(pid, entry_kind_num (entry_kind e), ec, en)"
  let ?f = "\<lambda>r. if item_key r = ?K then r\<lparr>i_value := ev, i_expiry := x\<rparr> else r"
  let ?g = "\<lambda>t. if entry_key (fst t) = entry_key e then (e, x) else t"
  have v: "valid_str (entry_category e)" "valid_str (entry_name e)"
    "ee_category X (as_bytes (entry_category e)) = Ok ec" "ee_name X (as_bytes (entry_name e)) = Ok en"
    using enc by (simp_all add: encrypts_to_def valid_entry_def)
  have has: "?K \<in> item_key ` set (items db) \<longleftrightarrow> spec_has (entry_key e) st"
    using represents_has [OF rep v, of "entry_kind e"] by (simp add: entry_key_def)
  have wf: "db_wf db" and pid: "pid \<in> p_id ` set (profiles db)"
    and all: "list_all2 (row_of X db) (profile_items pid db) st"
    using rep by (simp_all add: represents_def)
  show ?thesis
  proof (cases "spec_has (entry_key e) st")
    case False
    then have no: "?K \<notin> item_key ` set (items db)" using has by simp
    then have no': "r \<in> set (items db) \<Longrightarrow> item_key r \<noteq> ?K" for r by (metis imageI)
    then have "find (\<lambda>r. item_key r = ?K) (items db) = None" by (auto simp: find_None_iff)
    moreover have "map ?f (items db) = items db" using no' by (intro map_idI) auto
    ultimately have "r = Err (err_msg storage_kind.NotFound ''Error updating existing entry'')" "db' = db"
      using r x by (simp_all add: perform_insert_def update_item_def)
    with False rep show ?thesis by (simp add: spec_replace_def)
  next
    case True
    with has obtain r0 where r0: "r0 \<in> set (items db)" "item_key r0 = ?K" by auto
    note found = find_key_unique [OF wf r0]
    let ?db1 = "db\<lparr>items := map ?f (items db)\<rparr>"
    have upd: "update_item pid (entry_kind_num (entry_kind e)) ec en ev x db = (Some (i_id r0), ?db1)"
      by (simp add: update_item_def found)
    have wf1: "db_wf ?db1" by (rule update_item_wf [OF wf upd])
    have "i_id (?f r) = i_id r" for r by simp
    then have ids: "i_id ` set (map ?f (items db)) = i_id ` set (items db)"
      by (simp only: set_map image_image)
    let ?db2 = "delete_tags (i_id r0) ?db1"
    have "i_id r0 \<in> i_id ` set (items ?db2)" using ids r0(1) by (simp add: delete_tags_def del: set_map)
    then have "r = Ok ()" and db': "db' = ?db2\<lparr>items_tags := items_tags ?db2 @ map (\<lambda>t. \<lparr>t_item = i_id r0, t_tag = t\<rparr>) et\<rparr>"
      using r upd x et insert_tags_Ok [of "i_id r0" ?db2 et] by (simp_all add: perform_insert_def)
    have tags: "item_tags i db' = (if i = i_id r0 then et else item_tags i db)" for i
      unfolding db' item_tags_append item_tags_delete by simp
    have items': "items db' = map ?f (items db)" by (simp add: db' delete_tags_def)
    have rows: "row_of X db' (?f r) (?g s)" if "r \<in> set (profile_items pid db)" "row_of X db r s" for r s
    proof -
      have k: "item_key r = ?K \<longleftrightarrow> entry_key (fst s) = entry_key e"
        using row_of_key [OF that(2) _ v] that(1) by (simp add: profile_items_def entry_key_def)
      have rin: "r \<in> set (items db)" using that(1) by (simp add: profile_items_def)
      show ?thesis
      proof (cases "item_key r = ?K")
        case True
        then have "r = r0" using find_key_unique [OF wf rin] found by simp
        with True k enc r0(2) show ?thesis
          by (auto simp: row_of_def encrypts_to_def tags item_key_def)
      next
        case False
        then have "i_id r \<noteq> i_id r0"
          using db_wf_items_distinct [OF wf] rin r0 by (auto simp: distinct_map dest: inj_onD)
        with False k that(2) show ?thesis by (simp add: row_of_def tags)
      qed
    qed
    have "profile_items pid db' = map ?f (profile_items pid db)"
    proof -
      have "i_profile (?f r) = i_profile r" for r by simp
      then show ?thesis by (simp add: profile_items_def items' filter_map comp_def)
    qed
    then have "list_all2 (row_of X db') (profile_items pid db') (map ?g st)"
      using list.rel_mono_strong [OF all rows]
      by (simp add: list_all2_map1 list_all2_map2)
    moreover have "db_wf db'"
    proof -
      have "db_wf ?db2" by (rule delete_tags_wf [OF wf1])
      moreover have "i_id r0 \<in> i_id ` set (items ?db2)" by fact
      ultimately show ?thesis unfolding db' by (auto simp: db_wf_def)
    qed
    ultimately have "represents X pid db' (map ?g st)"
      using pid by (simp add: represents_def db' delete_tags_def)
    with True \<open>r = Ok ()\<close> show ?thesis by (simp add: spec_replace_def)
  qed
qed

lemma perform_remove_sim:
  assumes rep: "represents X pid db st" and v: "valid_str c" "valid_str n"
    "ee_category X (as_bytes c) = Ok ec" "ee_name X (as_bytes n) = Ok en"
    and r: "perform_remove pid k ec en False db = (r, db')"
  shows "r = fst (spec_remove (k, c, n) st) \<and> represents X pid db' (snd (spec_remove (k, c, n) st))"
proof -
  let ?K = "(pid, entry_kind_num k, ec, en)"
  obtain m db1 where d: "delete_items (\<lambda>r. item_key r = ?K) db = (m, db1)" by fastforce
  have "represents X pid db1 (filter (\<lambda>s. \<not> entry_key (fst s) = (k, c, n)) st) \<and>
      m = length (filter (\<lambda>s. entry_key (fst s) = (k, c, n)) st)"
  proof (rule represents_delete [OF rep d])
    show "(item_key r = ?K) = (entry_key (fst s) = (k, c, n))"
      if "r \<in> set (profile_items pid db)" "row_of X db r s" for r s
      using row_of_key [OF that(2) _ v] that(1) by (simp add: profile_items_def)
    show "i_profile r = pid" if "item_key r = ?K" for r using that by (simp add: item_key_def)
  qed
  moreover have "length (filter (\<lambda>s. entry_key (fst s) = (k, c, n)) st) = 0 \<longleftrightarrow> \<not> spec_has (k, c, n) st"
    by (auto simp: spec_has_def list_ex_iff filter_empty_conv)
  moreover have "filter (\<lambda>s. \<not> entry_key (fst s) = (k, c, n)) st = st" if "\<not> spec_has (k, c, n) st"
    using that by (auto simp: spec_has_def list_ex_iff filter_id_conv)
  ultimately show ?thesis
    using r d by (auto simp: perform_remove_def spec_remove_def split: if_splits)
qed

lemma fetch_row:
  assumes rep: "represents X pid db st" and H: "hex_codec_correct H" and v: "valid_str c" "valid_str n"
    "ee_category X (as_bytes c) = Ok ec" "ee_name X (as_bytes n) = Ok en"
  shows "rel_option (\<lambda>r s. i_profile r = pid \<and> row_of X db r s)
      (find (\<lambda>r. item_key r = (pid, entry_kind_num k, ec, en) \<and> live (i_expiry r)) (items db))
      (find (\<lambda>s. entry_key (fst s) = (k, c, n) \<and> visible live s) st)"
proof -
  let ?p = "\<lambda>r. item_key r = (pid, entry_kind_num k, ec, en) \<and> live (i_expiry r)"
  let ?q = "\<lambda>s. entry_key (fst s) = (k, c, n) \<and> visible live s"
  have "find ?p (items db) = find ?p (profile_items pid db)"
    unfolding profile_items_def by (rule find_filter [symmetric]) (simp add: item_key_def)
  moreover have "list_all2 (\<lambda>r s. i_profile r = pid \<and> row_of X db r s) (profile_items pid db) st"
    using rep by (auto simp: represents_def profile_items_def intro: list.rel_mono_strong)
  then have "rel_option (\<lambda>r s. i_profile r = pid \<and> row_of X db r s) (find ?p (profile_items pid db)) (find ?q st)"
  proof (induction rule: list_all2_induct)
    case (Cons r rs s st)
    have "?p r = ?q s"
      using row_of_key [OF _ _ v, of db r s pid k] Cons(1) by (auto simp: visible_def row_of_def Let_def)
    with Cons show ?case by simp
  qed simp
  ultimately show ?thesis by simp
qed

lemma row_of_decrypts:
  assumes "row_of X db r s" "hex_codec_correct H"
  shows "ed_value X (as_bytes (entry_category (fst s))) (as_bytes (entry_name (fst s))) (i_value r) = Ok (entry_value (fst s))"
    and "decode_tags H (tags_column H (item_tags (i_id r) db)) = Ok (item_tags (i_id r) db)"
    and "ed_tags X (item_tags (i_id r) db) = Ok (entry_tags (fst s))"
proof -
  show "ed_value X (as_bytes (entry_category (fst s))) (as_bytes (entry_name (fst s))) (i_value r) = Ok (entry_value (fst s))"
    using assms(1) value_law by (auto simp: row_of_def Let_def)
  show "decode_tags H (tags_column H (item_tags (i_id r) db)) = Ok (item_tags (i_id r) db)"
    using decode_tags_items [OF assms(2), of "[]"] by (simp add: decode_tags_def tags_column_def)
  show "ed_tags X (item_tags (i_id r) db) = Ok (entry_tags (fst s))"
    using assms(1) by (intro tags_law) (simp_all add: row_of_def Let_def valid_entry_def)
qed

end

section \<open>Simulation of update and fetch\<close>

definition spec_update :: "EntryOperation \<Rightarrow> stored \<Rightarrow> stored list \<Rightarrow> unit storage_result \<times> stored list" where
  "spec_update op s st =
     (case op of Insert \<Rightarrow> spec_insert s st | Replace \<Rightarrow> spec_replace s st | Remove \<Rightarrow> spec_remove (entry_key (fst s)) st)"

text \<open>The entry that the arguments of \<open>update\<close> describe.\<close>

definition update_entry :: "EntryKind \<Rightarrow> string \<Rightarrow> string \<Rightarrow> bytes option \<Rightarrow> EntryTag list option \<Rightarrow> Entry" where
  "update_entry kind category name value tags = \<lparr>entry_kind = kind, entry_category = category, entry_name = name,
     entry_value = opt_or value [], entry_tags = opt_or tags []\<rparr>"

lemma env_contract: "sqlite_env_correct env \<Longrightarrow> encryptor_contract (key_encryptor env key)"
  by (simp add: sqlite_env_correct_def profile_encryptor_contract)

lemma encrypt_update_Ok:
  assumes "encrypt_update (key_encryptor env key) nonce category name (opt_or value []) tags = Ok (ec, en, ev, ot)"
    and "valid_entry e" "e = update_entry kind category name value tags" "sqlite_env_correct env"
  shows "encryptor_contract.encrypts_to (key_encryptor env key) nonce e ec en ev (case ot of None \<Rightarrow> [] | Some t \<Rightarrow> t)"
proof -
  have "ee_tags (key_encryptor env key) [] = Ok []" by (simp add: profile_encryptor_def)
  with assms(1-3) show ?thesis
    unfolding encryptor_contract.encrypts_to_def [OF env_contract [OF assms(4)]]
    by (auto simp: encrypt_update_def update_entry_def opt_or_def result_simps split: option.splits)
qed

lemma sqlite_update_sim:
  assumes "sqlite_env_correct env" and "represents (key_encryptor env key) pid db st"
    and "e = update_entry kind category name value tags" and "valid_entry e"
    and "encrypt_update (key_encryptor env key) nonce category name (opt_or value []) tags = Ok enc"
    and "opt_expiry env now expiry_ms = Ok x"
    and "sqlite_update env now (Ok (pid, key)) in_txn nonce kind op category name value tags expiry_ms db = (r, db')"
  shows "r = fst (spec_update op (e, x) st) \<and> represents (key_encryptor env key) pid db' (snd (spec_update op (e, x) st))"
proof -
  let ?X = "key_encryptor env key"
  note C = env_contract [OF assms(1), of key]
  obtain ec en ev ot where enc: "enc = (ec, en, ev, ot)" by (cases enc) auto
  note E = encrypt_update_Ok [OF assms(5) [unfolded enc] assms(4,3,1)]
  have ek: "entry_kind e = kind" "entry_key e = (kind, category, name)"
    by (simp_all add: assms(3) update_entry_def entry_key_def)
  have v: "valid_str category" "valid_str name" "ee_category ?X (as_bytes category) = Ok ec" "ee_name ?X (as_bytes name) = Ok en"
    using assms(3-5) enc by (auto simp: valid_entry_def update_entry_def encrypt_update_def result_simps)
  obtain r1 db1 where p: "perform_insert env now pid kind ec en ev ot expiry_ms (op = Insert) db = (r1, db1)" by fastforce
  have upd: "op \<noteq> Remove \<Longrightarrow> (r, db') = (case (r1, db1) of (Ok _, db') \<Rightarrow> (Ok (), db') | (r, db') \<Rightarrow> (r, if in_txn then db' else db))"
    using assms(5,7) p enc by (simp add: sqlite_update_def)
  have keep: "represents ?X pid (if in_txn then db1 else db) st"
    if "represents ?X pid db1 st" using that assms(2) by simp
  show ?thesis
  proof (cases op)
    case Insert
    have "r1 = fst (spec_insert (e, x) st) \<and> represents ?X pid db1 (snd (spec_insert (e, x) st))"
      using encryptor_contract.perform_insert_new [OF C assms(2) E assms(6) refl] p Insert ek by simp
    with upd keep Insert show ?thesis
      by (auto simp: spec_update_def spec_insert_def split: if_splits)
  next
    case Replace
    have "r1 = fst (spec_replace (e, x) st) \<and> represents ?X pid db1 (snd (spec_replace (e, x) st))"
      using encryptor_contract.perform_insert_existing [OF C assms(2) E assms(6) refl] p Replace ek by simp
    with upd keep Replace show ?thesis
      by (auto simp: spec_update_def spec_replace_def split: if_splits)
  next
    case Remove
    then have "perform_remove pid kind ec en False db = (r, db')"
      using assms(7) v by (simp add: sqlite_update_def)
    from encryptor_contract.perform_remove_sim [OF C assms(2) v this] Remove ek
    show ?thesis by (simp add: spec_update_def)
  qed
qed

lemma sqlite_remove_sim:
  assumes "sqlite_env_correct env" and "represents (key_encryptor env key) pid db st"
    and "valid_str category" "valid_str name"
    and "ee_category (key_encryptor env key) (as_bytes category) = Ok ec"
    and "ee_name (key_encryptor env key) (as_bytes name) = Ok en"
    and "sqlite_update env now (Ok (pid, key)) in_txn nonce kind Remove category name value tags expiry_ms db = (r, db')"
  shows "r = fst (spec_remove (kind, category, name) st) \<and>
    represents (key_encryptor env key) pid db' (snd (spec_remove (kind, category, name) st))"
  using encryptor_contract.perform_remove_sim [OF env_contract [OF assms(1)] assms(2-6)] assms(5-7)
  by (simp add: sqlite_update_def)

text \<open>Whatever its arguments, \<open>update\<close> leaves the database alone or does what the specification says.\<close>

lemma sqlite_update_cases:
  assumes "sqlite_env_correct env" and "represents (key_encryptor env key) pid db st"
    and "e = update_entry kind category name value tags" and "valid_entry e"
    and "sqlite_update env now (Ok (pid, key)) in_txn nonce kind op category name value tags expiry_ms db = (r, db')"
  shows "r \<noteq> Ok () \<and> db' = db \<or>
    (\<exists>x. r = fst (spec_update op (e, x) st) \<and> represents (key_encryptor env key) pid db' (snd (spec_update op (e, x) st)))"
proof (cases "op = Remove")
  case True
  note upd = assms(5) [unfolded True]
  have v: "valid_str category" "valid_str name" using assms(3,4) by (simp_all add: valid_entry_def update_entry_def)
  have k: "entry_key e = (kind, category, name)" by (simp add: assms(3) update_entry_def entry_key_def)
  show ?thesis
  proof (cases "ee_category (key_encryptor env key) (as_bytes category)")
    case (Ok ec)
    show ?thesis
    proof (cases "ee_name (key_encryptor env key) (as_bytes name)")
      case (Ok en)
      from sqlite_remove_sim [OF assms(1,2) v \<open>ee_category _ _ = Ok ec\<close> Ok upd] show ?thesis by (simp add: True spec_update_def k)
    qed (use upd Ok in \<open>auto simp: sqlite_update_def\<close>)
  qed (use upd in \<open>auto simp: sqlite_update_def\<close>)
next
  case False
  show ?thesis
  proof (cases "encrypt_update (key_encryptor env key) nonce category name (opt_or value []) tags")
    case (Ok enc)
    show ?thesis
    proof (cases "opt_expiry env now expiry_ms")
      case (Ok x)
      from sqlite_update_sim [OF assms(1-4) \<open>encrypt_update _ _ _ _ _ _ = Ok enc\<close> Ok assms(5)] show ?thesis by blast
    qed (use assms(5) False Ok in \<open>cases enc; auto simp: sqlite_update_def perform_insert_def\<close>)+
  qed (use assms(5) False in \<open>auto simp: sqlite_update_def\<close>)
qed

lemma sqlite_update_OkD:
  assumes "sqlite_update env now (Ok (pid, key)) in_txn nonce kind op category name value tags expiry_ms db = (Ok (), db')" "op \<noteq> Remove"
  shows "\<exists>enc. encrypt_update (key_encryptor env key) nonce category name (opt_or value []) tags = Ok enc"
    and "\<exists>x. opt_expiry env now expiry_ms = Ok x"
proof -
  obtain enc where enc: "encrypt_update (key_encryptor env key) nonce category name (opt_or value []) tags = Ok enc"
    using assms by (cases "encrypt_update (key_encryptor env key) nonce category name (opt_or value []) tags") (simp_all add: sqlite_update_def)
  then show "\<exists>enc. encrypt_update (key_encryptor env key) nonce category name (opt_or value []) tags = Ok enc" by blast
  show "\<exists>x. opt_expiry env now expiry_ms = Ok x"
    using assms enc by (cases "opt_expiry env now expiry_ms"; cases enc) (auto simp: sqlite_update_def perform_insert_def)
qed

text \<open>
  C1. The session's \<open>update\<close> implements the specification: on a database that represents a list of
  entries, inserting, replacing and removing returns the specified result, \<open>Duplicate\<close> and
  \<open>NotFound\<close> included, and leaves a database that represents the specified list; in a transaction
  of its own or within an outer one.
\<close>

theorem sqlite_update_refines:
  assumes "sqlite_env_correct env" and "represents (key_encryptor env key) pid db st"
    and "e = update_entry kind category name value tags" and "valid_entry e"
    and "encrypt_update (key_encryptor env key) nonce category name (opt_or value []) tags = Ok enc"
    and "opt_expiry env now expiry_ms = Ok x"
    and "sqlite_update env now (Ok (pid, key)) in_txn nonce kind op category name value tags expiry_ms db = (r, db')"
  shows "r = fst (spec_update op (e, x) st) \<and> represents (key_encryptor env key) pid db' (snd (spec_update op (e, x) st))"
  by (rule sqlite_update_sim [OF assms])

text \<open>An environment for which the hypotheses hold, and a store with one profile.\<close>

definition toy_sqlite_env :: sqlite_env where
  "toy_sqlite_env = \<lparr>se_profile = toy_profile_env, se_hex = toy_hex_codec, se_like = (=), se_order = (\<lambda>x. x),
     se_add_time = (\<lambda>now ms. Some (now + ms))\<rparr>"

definition toy_db :: Database where
  "toy_db = \<lparr>config = Map.empty, profiles = [\<lparr>p_id = 1, p_name = ''p'', p_key = []\<rparr>], items = [], items_tags = []\<rparr>"

lemma toy_sqlite_env_correct: "sqlite_env_correct toy_sqlite_env"
  using toy_hex_codec_correct by (simp add: sqlite_env_correct_def toy_sqlite_env_def toy_profile_env_def)

lemma toy_db_represents: "represents (key_encryptor toy_sqlite_env toy_profile_key) 1 toy_db []"
  by (simp add: represents_def toy_db_def db_wf_def profile_items_def)

lemma toy_encrypt_update:
  "encrypt_update (key_encryptor toy_sqlite_env toy_profile_key) (replicate 12 2) ''c'' ''n'' [1] (Some [PlaintextTag ''p'' ''t'']) =
    Ok (replicate 12 1 @ as_bytes ''c'' @ replicate 16 0, replicate 12 1 @ as_bytes ''n'' @ replicate 16 0,
      replicate 12 2 @ [1] @ replicate 16 0,
      Some [\<lparr>enc_tag_name = replicate 12 1 @ as_bytes ''p'' @ replicate 16 0, enc_tag_value = as_bytes ''t'',
        enc_tag_plaintext = True\<rparr>])"
proof -
  have "derive_value_key toy_profile_env toy_profile_key c n = Ok (replicate 32 1)" for c n
    by (simp add: derive_value_key_def toy_profile_env_def from_key_derivation_def hmac_derive_key_bytes_def)
  moreover have "profile_encrypt toy_profile_env (replicate 12 2) m k = Ok (replicate 12 2 @ m @ replicate 16 0)" for m k
    by (simp add: toy_profile_env_def profile_encrypt_def encrypt_with_nonce_def chacha20_encrypt_in_place_def vec_insert_def)
  ultimately show ?thesis
    by (simp add: encrypt_update_def toy_sqlite_env_def profile_encryptor_def toy_encrypt_searchable encrypt_tag_name_def)
qed

lemma toy_entry_valid: "valid_entry toy_entry"
  by (simp add: valid_entry_def toy_entry_def valid_tag_def valid_str_def)

lemma toy_entry_update: "toy_entry = update_entry Item ''c'' ''n'' (Some [1]) (Some [PlaintextTag ''p'' ''t''])"
  by (simp add: toy_entry_def update_entry_def opt_or_def)

definition toy_store_db :: Database where
  "toy_store_db = snd (sqlite_update toy_sqlite_env 0 (Ok (1, toy_profile_key)) False (replicate 12 2) Item Insert
     ''c'' ''n'' (Some [1]) (Some [PlaintextTag ''p'' ''t'']) (Some 5000) toy_db)"

lemma toy_store_represents:
  "represents (key_encryptor toy_sqlite_env toy_profile_key) 1 toy_store_db [(toy_entry, Some 5000)]"
proof -
  have "opt_expiry toy_sqlite_env 0 (Some 5000) = Ok (Some 5000)"
    by (simp add: opt_expiry_def expiry_timestamp_def toy_sqlite_env_def)
  from sqlite_update_sim [OF toy_sqlite_env_correct toy_db_represents toy_entry_update toy_entry_valid _ this
      prod.collapse [symmetric], of "replicate 12 2" _ False Insert] toy_encrypt_update
  show ?thesis by (simp add: toy_store_db_def opt_or_def spec_update_def spec_insert_def spec_has_def)
qed

theorem sqlite_update_refines_witness:
  "fst (sqlite_update toy_sqlite_env 0 (Ok (1, toy_profile_key)) True (replicate 12 2) Item Insert
      ''c'' ''n'' (Some [1]) (Some [PlaintextTag ''p'' ''t'']) None toy_store_db) =
    Err (err_msg storage_kind.Duplicate ''Duplicate entry'')"
proof -
  have x: "opt_expiry toy_sqlite_env 0 None = Ok None" by (simp add: opt_expiry_def)
  from sqlite_update_refines [OF toy_sqlite_env_correct toy_store_represents toy_entry_update toy_entry_valid _ x
      prod.collapse [symmetric], of "replicate 12 2" _ True Insert] toy_encrypt_update
  show ?thesis by (simp add: opt_or_def spec_update_def spec_insert_def spec_has_def)
qed

lemma sqlite_fetch_sim:
  assumes "sqlite_env_correct env" and "represents (key_encryptor env key) pid db st"
    and "valid_str category" and "valid_str name"
    and "ee_category (key_encryptor env key) (as_bytes category) = Ok ec"
    and "ee_name (key_encryptor env key) (as_bytes name) = Ok en"
  shows "sqlite_fetch env now (Ok (pid, key)) kind category name db = Ok (spec_fetch (unexpired now) (kind, category, name) st)"
proof -
  let ?X = "key_encryptor env key"
  let ?row = "find (\<lambda>r. item_key r = (pid, entry_kind_num kind, ec, en) \<and> unexpired now (i_expiry r)) (items db)"
  let ?s = "find (\<lambda>s. entry_key (fst s) = (kind, category, name) \<and> visible (unexpired now) s) st"
  note C = env_contract [OF assms(1), of key]
  have H: "hex_codec_correct (se_hex env)" using assms(1) by (simp add: sqlite_env_correct_def)
  have rel: "rel_option (\<lambda>r s. i_profile r = pid \<and> row_of ?X db r s) ?row ?s"
    by (rule encryptor_contract.fetch_row [OF C assms(2) H assms(3-6)])
  show ?thesis
  proof (cases ?s)
    case None
    with rel show ?thesis by (simp add: sqlite_fetch_def assms(5,6) spec_fetch_def)
  next
    case (Some s)
    with rel obtain r where r: "?row = Some r" "row_of ?X db r s" by (auto simp: option_rel_Some2)
    have k: "entry_kind (fst s) = kind" "entry_category (fst s) = category" "entry_name (fst s) = name"
      using Some by (auto simp: find_Some_iff entry_key_def)
    note d = encryptor_contract.row_of_decrypts [OF C r(2) H]
    show ?thesis
      using d k by (simp add: sqlite_fetch_def assms(5,6) r(1) Some spec_fetch_def)
  qed
qed

text \<open>
  The session's \<open>fetch\<close> implements the specification: it returns the entry that was stored
  under the kind, category and name, decrypted, unless it has expired; otherwise nothing.
\<close>

theorem sqlite_fetch_refines:
  assumes "sqlite_env_correct env" and "represents (key_encryptor env key) pid db st"
    and "valid_str category" and "valid_str name"
    and "ee_category (key_encryptor env key) (as_bytes category) = Ok ec"
    and "ee_name (key_encryptor env key) (as_bytes name) = Ok en"
  shows "sqlite_fetch env now (Ok (pid, key)) kind category name db = Ok (spec_fetch (unexpired now) (kind, category, name) st)"
  by (rule sqlite_fetch_sim [OF assms])

theorem sqlite_fetch_refines_witness:
  "sqlite_fetch toy_sqlite_env 4999 (Ok (1, toy_profile_key)) Item ''c'' ''n'' toy_store_db = Ok (Some toy_entry) \<and>
   sqlite_fetch toy_sqlite_env 5000 (Ok (1, toy_profile_key)) Item ''c'' ''n'' toy_store_db = Ok None"
proof -
  let ?X = "key_encryptor toy_sqlite_env toy_profile_key"
  have e: "ee_category ?X (as_bytes ''c'') = Ok (replicate 12 1 @ as_bytes ''c'' @ replicate 16 0)"
    "ee_name ?X (as_bytes ''n'') = Ok (replicate 12 1 @ as_bytes ''n'' @ replicate 16 0)"
    by (simp_all add: toy_sqlite_env_def profile_encryptor_def toy_encrypt_searchable)
  have "sqlite_fetch toy_sqlite_env now (Ok (1, toy_profile_key)) Item ''c'' ''n'' toy_store_db =
      Ok (spec_fetch (unexpired now) (Item, ''c'', ''n'') [(toy_entry, Some 5000)])" for now
    by (rule sqlite_fetch_refines [OF toy_sqlite_env_correct toy_store_represents _ _ e]) (simp_all add: valid_str_def)
  then show ?thesis by (simp add: spec_fetch_def visible_def unexpired_def entry_key_def toy_entry_def)
qed

end
