(* ===== verification/Sqlite_Search.thy ===== *)
theory Sqlite_Search
  imports Sqlite_Session
begin

text \<open>
  The searches of the SQLite backend: \<open>count\<close>, \<open>remove_all\<close>, \<open>fetch_all\<close> and \<open>scan\<close> with
  \<open>perform_scan\<close> (\<open>askar-storage/src/backend/sqlite/mod.rs\<close>), and the constants of their statements.
  The database evaluates a condition on the tags as the abstract condition whose text was put into
  the statement. The main results: the searches select what the specification says of the entries
  before encryption.
\<close>

section \<open>Statements\<close>

definition nl :: string where
  "nl = CHR 0x0A # ''    ''"

definition COUNT_QUERY :: string where
  "COUNT_QUERY = ''SELECT COUNT(*) FROM items i'' @ nl @ ''WHERE profile_id = ?1'' @ nl
     @ ''AND (kind = ?2 OR ?2 IS NULL)'' @ nl @ ''AND (category = ?3 OR ?3 IS NULL)'' @ nl
     @ ''AND (expiry IS NULL OR DATETIME(expiry) > DATETIME('' @ [CHR 0x27] @ ''now'' @ [CHR 0x27] @ ''))''"

definition SCAN_QUERY :: string where
  "SCAN_QUERY = ''SELECT i.id, i.kind, i.category, i.name, i.value,'' @ nl
     @ ''(SELECT GROUP_CONCAT(it.plaintext || '' @ [CHR 0x27] @ '':'' @ [CHR 0x27]
     @ '' || HEX(it.name) || '' @ [CHR 0x27] @ '':'' @ [CHR 0x27] @ '' || HEX(it.value))'' @ nl
     @ ''    FROM items_tags it WHERE it.item_id = i.id) AS tags'' @ nl
     @ ''FROM items i WHERE i.profile_id = ?1'' @ nl @ ''AND (i.kind = ?2 OR ?2 IS NULL)'' @ nl
     @ ''AND (i.category = ?3 OR ?3 IS NULL)'' @ nl
     @ ''AND (i.expiry IS NULL OR DATETIME(i.expiry) > DATETIME('' @ [CHR 0x27] @ ''now'' @ [CHR 0x27] @ ''))''"

definition DELETE_ALL_QUERY :: string where
  "DELETE_ALL_QUERY = ''DELETE FROM items AS i'' @ nl @ ''WHERE i.profile_id = ?1'' @ nl
     @ ''AND (i.kind = ?2 OR ?2 IS NULL)'' @ nl @ ''AND (i.category = ?3 OR ?3 IS NULL)''"

definition PAGE_SIZE :: nat where
  "PAGE_SIZE = 32"

section \<open>Preparing a search\<close>

text \<open>
  A prepared search: the statement and its parameters, with what the database evaluates, the
  encrypted category and the condition on the tags with its arguments.
\<close>

record search =
  s_query :: string
  s_params :: QueryParams
  s_category :: "bytes option"
  s_condition :: "sql_clause option"
  s_arguments :: "bytes list"

text \<open>The abstract condition of a tag filter; \<open>encode_tag_filter\<close> returns its text.\<close>

definition filter_condition :: "profile_env \<Rightarrow> TagFilter option \<Rightarrow> ProfileKey \<Rightarrow> (sql_clause option \<times> bytes list) storage_result" where
  "filter_condition P tag_filter key =
     (case tag_filter of
        Some tf \<Rightarrow>
          res_bind (tag_query (filter_query tf)) (\<lambda>tq.
          encode_tag_query (TagAstEncoder (\<lambda>n. encrypt_tag_name P key (as_bytes n))
            (\<lambda>v. encrypt_tag_value P key (as_bytes v))) tq False [])
      | None \<Rightarrow> Ok (None, []))"

definition encrypt_category :: "sqlite_env \<Rightarrow> ProfileKey \<Rightarrow> string option \<Rightarrow> bytes option storage_result" where
  "encrypt_category env key category =
     (case category of None \<Rightarrow> Ok None | Some c \<Rightarrow> res_map Some (ee_category (key_encryptor env key) (as_bytes c)))"

definition opt_blob :: "bytes option \<Rightarrow> sql_arg" where
  "opt_blob b = (case b of None \<Rightarrow> ArgNull | Some b \<Rightarrow> ArgBlob b)"

text \<open>
  The statement is put together by the functions of \<open>db_utils\<close>, which are generic in the trait
  \<open>QueryPrepare\<close> of the backend.
\<close>

definition prepare_search_with :: "query_prepare \<Rightarrow> sqlite_env \<Rightarrow> int \<Rightarrow> ProfileKey \<Rightarrow> string \<Rightarrow> EntryKind option \<Rightarrow> string option \<Rightarrow> TagFilter option
    \<Rightarrow> int option \<Rightarrow> int option \<Rightarrow> OrderBy option \<Rightarrow> bool \<Rightarrow> search storage_result" where
  "prepare_search_with Q env pid key base kind category tag_filter offset limit order_by descending =
     (let params = params_push (ArgInt pid) params_new;
          params = params_push (opt_int (map_option (\<lambda>k. int (entry_kind_num k)) kind)) params;
          params_len = params_len params + 1
      in res_bind (encrypt_category env key category) (\<lambda>enc_category.
         res_bind (encode_tag_filter (qp_placeholder Q) (se_profile env) tag_filter key params_len) (\<lambda>tag_filter'.
         res_bind (extend_query Q base (params_push (opt_blob enc_category) params) tag_filter'
           offset limit order_by descending) (\<lambda>(query, params).
         res_bind (filter_condition (se_profile env) tag_filter key) (\<lambda>(cond, args).
         Ok \<lparr>s_query = query, s_params = params, s_category = enc_category, s_condition = cond,
           s_arguments = args\<rparr>)))))"

definition prepare_search :: "sqlite_env \<Rightarrow> int \<Rightarrow> ProfileKey \<Rightarrow> string \<Rightarrow> EntryKind option \<Rightarrow> string option \<Rightarrow> TagFilter option
    \<Rightarrow> int option \<Rightarrow> int option \<Rightarrow> OrderBy option \<Rightarrow> bool \<Rightarrow> search storage_result" where
  "prepare_search = prepare_search_with sqlite_prepare"

text \<open>The condition of the statements on an item, expiry apart.\<close>

definition item_matches :: "sqlite_env \<Rightarrow> int \<Rightarrow> EntryKind option \<Rightarrow> search \<Rightarrow> Database \<Rightarrow> ItemRow \<Rightarrow> bool" where
  "item_matches env pid kind sr db r \<longleftrightarrow> i_profile r = pid \<and>
     (case kind of None \<Rightarrow> True | Some k \<Rightarrow> i_kind r = entry_kind_num k) \<and>
     (case s_category sr of None \<Rightarrow> True | Some c \<Rightarrow> i_category r = c) \<and>
     filter_holds (se_like env) (item_tags (i_id r) db) (s_arguments sr) (s_condition sr)"

section \<open>Operations\<close>

definition sqlite_count :: "sqlite_env \<Rightarrow> int \<Rightarrow> acquired \<Rightarrow> EntryKind option \<Rightarrow> string option \<Rightarrow> TagFilter option
    \<Rightarrow> Database \<Rightarrow> nat storage_result" where
  "sqlite_count env now acquired kind category tag_filter db =
     res_bind acquired (\<lambda>(pid, key).
     res_bind (prepare_search env pid key COUNT_QUERY kind category tag_filter None None None False) (\<lambda>sr.
     Ok (length (filter (\<lambda>r. item_matches env pid kind sr db r \<and> unexpired now (i_expiry r)) (items db)))))"

definition sqlite_remove_all :: "sqlite_env \<Rightarrow> acquired \<Rightarrow> EntryKind option \<Rightarrow> string option \<Rightarrow> TagFilter option
    \<Rightarrow> Database \<Rightarrow> nat storage_result \<times> Database" where
  "sqlite_remove_all env acquired kind category tag_filter db =
     (case res_bind acquired (\<lambda>(pid, key).
           res_map (Pair pid) (prepare_search env pid key DELETE_ALL_QUERY kind category tag_filter None None None False)) of
        Ok (pid, sr) \<Rightarrow> (let (n, db') = delete_items (item_matches env pid kind sr db) db in (Ok n, db'))
      | Err e \<Rightarrow> (Err e, db)
      | Panic \<Rightarrow> (Panic, db))"

text \<open>
  The rows that the scan statement returns: \<open>ORDER BY id\<close>, and \<open>LIMIT offset, limit\<close>, in which a
  negative limit is none and a negative offset is zero.
\<close>

definition order_rows :: "sqlite_env \<Rightarrow> OrderBy option \<Rightarrow> bool \<Rightarrow> ItemRow list \<Rightarrow> ItemRow list" where
  "order_rows env order_by descending rows =
     (case order_by of
        None \<Rightarrow> se_order env rows
      | Some Id \<Rightarrow> (let sorted = sort_key i_id rows in if descending then rev sorted else sorted))"

definition limit_rows :: "int option \<Rightarrow> int option \<Rightarrow> 'a list \<Rightarrow> 'a list" where
  "limit_rows offset limit rows =
     (let rows = drop (nat (opt_or offset 0)) rows; l = opt_or limit (- 1)
      in if l < 0 then rows else take (nat l) rows)"

definition enc_scan_entry :: "sqlite_env \<Rightarrow> Database \<Rightarrow> ItemRow \<Rightarrow> EncScanEntry storage_result" where
  "enc_scan_entry env db r =
     res_bind (entry_kind_try_from (i_kind r)) (\<lambda>kind.
     Ok \<lparr>row_kind = kind, row_category = i_category r, row_name = i_name r, row_value = i_value r,
       row_tags = tags_column (se_hex env) (item_tags (i_id r) db)\<rparr>)"

text \<open>The loop of \<open>perform_scan\<close> over the rows: full pages, a rest, or an error that ends the stream.\<close>

fun scan_loop :: "(ItemRow \<Rightarrow> EncScanEntry storage_result) \<Rightarrow> EncScanEntry list \<Rightarrow> ItemRow list
    \<Rightarrow> EncScanEntry list storage_result list" where
  "scan_loop conv batch [] = (if batch = [] then [] else [Ok batch])"
| "scan_loop conv batch (r # rs) =
     (case conv r of
        Ok x \<Rightarrow>
          (let batch = batch @ [x] in
           if length batch = PAGE_SIZE then Ok batch # scan_loop conv [] rs else scan_loop conv batch rs)
      | Err e \<Rightarrow> [Err e]
      | Panic \<Rightarrow> [Panic])"

definition perform_scan :: "sqlite_env \<Rightarrow> int \<Rightarrow> int \<Rightarrow> ProfileKey \<Rightarrow> EntryKind option \<Rightarrow> string option \<Rightarrow> TagFilter option
    \<Rightarrow> int option \<Rightarrow> int option \<Rightarrow> OrderBy option \<Rightarrow> bool \<Rightarrow> Database \<Rightarrow> EncScanEntry list storage_result list" where
  "perform_scan env now pid key kind category tag_filter offset limit order_by descending db =
     (case prepare_search env pid key SCAN_QUERY kind category tag_filter offset limit order_by descending of
        Ok sr \<Rightarrow>
          scan_loop (enc_scan_entry env db) []
            (limit_rows offset limit (order_rows env order_by descending
              (filter (\<lambda>r. item_matches env pid kind sr db r \<and> unexpired now (i_expiry r)) (items db))))
      | Err e \<Rightarrow> [Err e]
      | Panic \<Rightarrow> [Panic])"

text \<open>The stream read to its end, or to its first error: \<open>while let Some(rows) = scan.try_next().await?\<close>.\<close>

fun collect_pages :: "'a list storage_result list \<Rightarrow> 'a list storage_result" where
  "collect_pages [] = Ok []"
| "collect_pages (Ok rows # pages) = res_map ((@) rows) (collect_pages pages)"
| "collect_pages (Err e # pages) = Err e"
| "collect_pages (Panic # pages) = Panic"

definition sqlite_fetch_all :: "sqlite_env \<Rightarrow> int \<Rightarrow> acquired \<Rightarrow> EntryKind option \<Rightarrow> string option \<Rightarrow> TagFilter option
    \<Rightarrow> int option \<Rightarrow> OrderBy option \<Rightarrow> bool \<Rightarrow> Database \<Rightarrow> Entry list storage_result" where
  "sqlite_fetch_all env now acquired kind category tag_filter limit order_by descending db =
     res_bind acquired (\<lambda>(pid, key).
     res_bind (collect_pages (perform_scan env now pid key kind category tag_filter None limit order_by descending db)) (\<lambda>enc_rows.
     decrypt_scan_batch (se_hex env) (key_encryptor env key) category enc_rows))"

definition sqlite_scan :: "sqlite_env \<Rightarrow> int \<Rightarrow> acquired \<Rightarrow> EntryKind option \<Rightarrow> string option \<Rightarrow> TagFilter option
    \<Rightarrow> int option \<Rightarrow> int option \<Rightarrow> OrderBy option \<Rightarrow> bool \<Rightarrow> Database \<Rightarrow> Entry Scan storage_result" where
  "sqlite_scan env now acquired kind category tag_filter offset limit order_by descending db =
     res_bind acquired (\<lambda>(pid, key).
     Ok (scan_new
       (map (\<lambda>enc_rows. res_bind enc_rows (decrypt_scan_batch (se_hex env) (key_encryptor env key) category))
          (perform_scan env now pid key kind category tag_filter offset limit order_by descending db))
       PAGE_SIZE))"

section \<open>What a search selects\<close>

text \<open>The query of a filter, and the filters that select exactly (see \<open>encode_exact\<close> and \<open>searchable\<close>).\<close>

definition filter_tag_query :: "TagFilter option \<Rightarrow> TagQuery option" where
  "filter_tag_query tf = map_option (\<lambda>tf. map_AbstractQuery tag_name_of_key id (filter_query tf)) tf"

definition filter_exact :: "TagFilter option \<Rightarrow> bool" where
  "filter_exact tf \<longleftrightarrow> (case filter_tag_query tf of None \<Rightarrow> True | Some q \<Rightarrow> encode_exact False q \<and> searchable q)"

text \<open>What a prepared search evaluates: the encrypted category and the condition of the filter.\<close>

definition search_of :: "sqlite_env \<Rightarrow> ProfileKey \<Rightarrow> string option \<Rightarrow> TagFilter option \<Rightarrow> search \<Rightarrow> bool" where
  "search_of env key category tag_filter sr \<longleftrightarrow> encrypt_category env key category = Ok (s_category sr) \<and>
     filter_condition (se_profile env) tag_filter key = Ok (s_condition sr, s_arguments sr)"

lemma prepare_search_OkD:
  "prepare_search_with Q env pid key base kind category tag_filter offset limit order_by descending = Ok sr \<Longrightarrow>
    search_of env key category tag_filter sr"
  by (auto simp: prepare_search_with_def search_of_def Let_def result_simps)

lemma condition_sim:
  assumes "aead_correct (pe_cipher P)" "ee_tags (profile_encryptor P key) ts = Ok rows"
    and "filter_condition P tag_filter key = Ok (cond, args)" "filter_exact tag_filter"
  shows "filter_holds like rows args cond = (case filter_tag_query tag_filter of None \<Rightarrow> True | Some q \<Rightarrow> tags_satisfy like ts q)"
proof (cases tag_filter)
  case None
  with assms(3) show ?thesis by (simp add: filter_condition_def filter_tag_query_def filter_holds_def)
next
  case (Some tf)
  let ?q = "map_AbstractQuery tag_name_of_key id (filter_query tf)"
  have "encode_tag_query (TagAstEncoder (\<lambda>n. encrypt_tag_name P key (as_bytes n))
      (\<lambda>v. encrypt_tag_value P key (as_bytes v))) ?q False [] = Ok (cond, args)"
    using assms(3) Some by (simp add: filter_condition_def tag_query_total)
  then show ?thesis
    using encrypted_filter_holds [OF assms(1,2)] assms(4) Some by (simp add: filter_exact_def filter_tag_query_def)
qed

lemma item_matches_sim:
  assumes env: "sqlite_env_correct env"
    and sr: "search_of env key category tag_filter sr"
    and cat: "\<And>c. category = Some c \<Longrightarrow> valid_str c" and flt: "filter_exact tag_filter"
    and r: "i_profile r = pid" "row_of (key_encryptor env key) db r s"
  shows "item_matches env pid kind sr db r = spec_matches (se_like env) kind category (filter_tag_query tag_filter) (fst s)"
proof -
  let ?X = "key_encryptor env key"
  note C = env_contract [OF env, of key]
  note sr' = sr [unfolded search_of_def, THEN conjunct1] sr [unfolded search_of_def, THEN conjunct2]
  have row: "ee_tags ?X (entry_tags (fst s)) = Ok (item_tags (i_id r) db)"
    "i_kind r = entry_kind_num (entry_kind (fst s))"
    "ee_category ?X (as_bytes (entry_category (fst s))) = Ok (i_category r)" "valid_str (entry_category (fst s))"
    using r(2) by (simp_all add: row_of_def Let_def valid_entry_def)
  have "(case s_category sr of None \<Rightarrow> True | Some c \<Rightarrow> i_category r = c) \<longleftrightarrow>
      category = None \<or> category = Some (entry_category (fst s))"
  proof (cases category)
    case None
    with sr'(1) show ?thesis by (auto simp: encrypt_category_def)
  next
    case (Some c)
    then obtain ec where ec: "ee_category ?X (as_bytes c) = Ok ec" "s_category sr = Some ec"
      using sr'(1) by (auto simp: encrypt_category_def result_simps)
    from encryptor_contract.category_inject [OF C row(4) cat [OF Some] row(3) ec(1)] show ?thesis
      by (auto simp: Some ec(2))
  qed
  moreover have "(case kind of None \<Rightarrow> True | Some k \<Rightarrow> i_kind r = entry_kind_num k) \<longleftrightarrow>
      kind = None \<or> kind = Some (entry_kind (fst s))"
    using row(2) by (auto split: option.splits)
  moreover have "aead_correct (pe_cipher (se_profile env))" using env by (simp add: sqlite_env_correct_def)
  from condition_sim [OF this row(1) sr'(2) flt]
  have "filter_holds (se_like env) (item_tags (i_id r) db) (s_arguments sr) (s_condition sr) =
      (case filter_tag_query tag_filter of None \<Rightarrow> True | Some q \<Rightarrow> tags_satisfy (se_like env) (entry_tags (fst s)) q)" .
  ultimately show ?thesis using r(1) by (simp add: item_matches_def spec_matches_def)
qed

text \<open>The selected rows of a database represent the selected entries, in order.\<close>

lemma selected_rows:
  assumes env: "sqlite_env_correct env" and rep: "represents (key_encryptor env key) pid db st"
    and sr: "search_of env key category tag_filter sr"
    and cat: "\<And>c. category = Some c \<Longrightarrow> valid_str c" and flt: "filter_exact tag_filter"
  shows "list_all2 (row_of (key_encryptor env key) db)
    (filter (\<lambda>r. item_matches env pid kind sr db r \<and> live (i_expiry r)) (items db))
    (filter (\<lambda>s. visible live s \<and> spec_matches (se_like env) kind category (filter_tag_query tag_filter) (fst s)) st)"
proof -
  have "filter (\<lambda>r. item_matches env pid kind sr db r \<and> live (i_expiry r)) (items db) =
      filter (\<lambda>r. item_matches env pid kind sr db r \<and> live (i_expiry r)) (profile_items pid db)"
    by (auto simp: profile_items_def item_matches_def intro!: filter_cong)
  moreover have "list_all2 (row_of (key_encryptor env key) db) (profile_items pid db) st"
    using rep by (simp add: represents_def)
  then have "list_all2 (row_of (key_encryptor env key) db)
      (filter (\<lambda>r. item_matches env pid kind sr db r \<and> live (i_expiry r)) (profile_items pid db))
      (filter (\<lambda>s. visible live s \<and> spec_matches (se_like env) kind category (filter_tag_query tag_filter) (fst s)) st)"
  proof (rule list_all2_filter)
    fix r s assume "r \<in> set (profile_items pid db)" "row_of (key_encryptor env key) db r s"
    then show "(item_matches env pid kind sr db r \<and> live (i_expiry r)) =
        (visible live s \<and> spec_matches (se_like env) kind category (filter_tag_query tag_filter) (fst s))"
      using item_matches_sim [OF env sr cat flt, where r = r and db = db and s = s]
      by (auto simp: profile_items_def visible_def row_of_def Let_def)
  qed
  ultimately show ?thesis by simp
qed

lemma sqlite_count_sim:
  assumes "sqlite_env_correct env" and "represents (key_encryptor env key) pid db st"
    and "\<forall>c. category = Some c \<longrightarrow> valid_str c" and "filter_exact tag_filter"
    and sr: "prepare_search env pid key COUNT_QUERY kind category tag_filter None None None False = Ok sr"
  shows "sqlite_count env now (Ok (pid, key)) kind category tag_filter db =
    Ok (length (spec_select (se_like env) (unexpired now) kind category (filter_tag_query tag_filter) st))"
  using selected_rows [OF assms(1,2) prepare_search_OkD [OF sr [unfolded prepare_search_def]] _ assms(4), where live = "unexpired now"] assms(3)
  by (auto simp: sqlite_count_def sr spec_select_def dest: list_all2_lengthD)

lemma sqlite_remove_all_sim:
  assumes "sqlite_env_correct env" and "represents (key_encryptor env key) pid db st"
    and "\<forall>c. category = Some c \<longrightarrow> valid_str c" and "filter_exact tag_filter"
    and sr: "prepare_search env pid key DELETE_ALL_QUERY kind category tag_filter None None None False = Ok sr"
    and "spec = spec_remove_all (se_like env) kind category (filter_tag_query tag_filter) st"
  shows "\<exists>db'. sqlite_remove_all env (Ok (pid, key)) kind category tag_filter db = (Ok (fst spec), db') \<and>
    represents (key_encryptor env key) pid db' (snd spec)"
proof -
  let ?m = "\<lambda>s. spec_matches (se_like env) kind category (filter_tag_query tag_filter) (fst s)"
  obtain n db' where d: "delete_items (item_matches env pid kind sr db) db = (n, db')" by fastforce
  have "represents (key_encryptor env key) pid db' (filter (\<lambda>s. \<not> ?m s) st) \<and> n = length (filter ?m st)"
  proof (rule represents_delete [OF assms(2) d])
    show "item_matches env pid kind sr db r = ?m s"
      if "r \<in> set (profile_items pid db)" "row_of (key_encryptor env key) db r s" for r s
      using item_matches_sim [OF assms(1) prepare_search_OkD [OF sr [unfolded prepare_search_def]] _ assms(4), where r = r and db = db and s = s] assms(3) that by (simp add: profile_items_def)
    show "i_profile r = pid" if "item_matches env pid kind sr db r" for r
      using that by (simp add: item_matches_def)
  qed
  with d sr show ?thesis by (simp add: sqlite_remove_all_def spec_remove_all_def assms(6))
qed

text \<open>
  C3. For an exact tag filter (\<open>filter_exact\<close>: encrypted tags are asked only for equality, membership and
  existence, no \<open>exist\<close> but one of exactly one name is negated, and no part of a disjunction or negated conjunction is always true) and a search that
  could be prepared, \<open>count\<close> returns the number of the unexpired entries that satisfy the search, and
  \<open>remove_all\<close> removes exactly the entries that satisfy it, whether or not they have expired, and
  returns their number.
\<close>

theorem sqlite_count_remove_all_refine:
  assumes "sqlite_env_correct env" and "represents (key_encryptor env key) pid db st"
    and "\<forall>c. category = Some c \<longrightarrow> valid_str c" and "filter_exact tag_filter"
    and "\<forall>base. base \<in> {COUNT_QUERY, DELETE_ALL_QUERY} \<longrightarrow>
      (\<exists>sr. prepare_search env pid key base kind category tag_filter None None None False = Ok sr)"
    and "q = filter_tag_query tag_filter"
  shows "sqlite_count env now (Ok (pid, key)) kind category tag_filter db =
      Ok (length (spec_select (se_like env) (unexpired now) kind category q st)) \<and>
    (\<exists>db'. sqlite_remove_all env (Ok (pid, key)) kind category tag_filter db =
        (Ok (fst (spec_remove_all (se_like env) kind category q st)), db') \<and>
      represents (key_encryptor env key) pid db' (snd (spec_remove_all (se_like env) kind category q st)))"
  using sqlite_count_sim [OF assms(1-4)] sqlite_remove_all_sim [OF assms(1-4) _ refl] assms(5,6) by (metis insertI1 insertI2)

text \<open>A search by a plaintext tag, prepared.\<close>

definition toy_filter :: "TagFilter option" where
  "toy_filter = Some (is_eq ''~p'' ''t'')"

lemma toy_filter_query: "filter_tag_query toy_filter = Some (Eq (Plaintext ''p'') ''t'')"
  by (simp add: toy_filter_def filter_tag_query_def is_eq_def tag_name_of_key_def)

lemma toy_filter_exact: "filter_exact toy_filter"
  by (simp add: filter_exact_def toy_filter_query)

lemma toy_encode_filter:
  "\<exists>r. encode_tag_filter placeholder toy_profile_env toy_filter toy_profile_key 3 = Ok r"
  "\<exists>c. filter_condition toy_profile_env toy_filter toy_profile_key = Ok c"
proof -
  let ?c = "SqlOp False CEq 0 False True"
  let ?args = "[replicate 12 1 @ as_bytes ''p'' @ replicate 16 0, as_bytes ''t'']"
  have en: "encrypt_tag_name toy_profile_env toy_profile_key m = Ok (replicate 12 1 @ m @ replicate 16 0)" for m
    by (simp only: encrypt_tag_name_def toy_encrypt_searchable)
  have q: "tag_query (filter_query (is_eq ''~p'' ''t'')) = Ok (Eq (Plaintext ''p'') ''t'')"
    by (simp add: tag_query_total is_eq_def tag_name_of_key_def)
  have ast: "encode_tag_query (TagAstEncoder (\<lambda>n. encrypt_tag_name toy_profile_env toy_profile_key (as_bytes n))
      (\<lambda>v. encrypt_tag_value toy_profile_env toy_profile_key (as_bytes v))) (Eq (Plaintext ''p'') ''t'') False [] = Ok (Some ?c, ?args)"
    by (simp add: encode_tag_op_def sql_encode_name_def sql_encode_value_def en ast_op_clause_def sql_match_prefix_def)
  then show "\<exists>c. filter_condition toy_profile_env toy_filter toy_profile_key = Ok c"
    by (simp add: filter_condition_def toy_filter_def q del: encode_tag_query.simps)
  have "encode_query (filter_encoder toy_profile_env toy_profile_key) (Eq (Plaintext ''p'') ''t'') [] = Ok (Some (clause_text ?c), ?args)"
    unfolding encode_query_def filter_encoder_def encode_tag_query_text ast by simp
  moreover have "(replace_arg_placeholders placeholder (clause_text ?c) (word_of_nat 4) :: string storage_result) =
      Ok (clause_sql (placeholder \<circ> word_of_nat) 4 ?c)"
    by (rule replace_clause_text [of _ 2]) (simp_all add: upt_rec)
  ultimately show "\<exists>r. encode_tag_filter placeholder toy_profile_env toy_filter toy_profile_key 3 = Ok r"
    unfolding encode_tag_filter_def toy_filter_def option.case q res_bind.simps
    by (simp del: clause_sql.simps)
qed

lemma extend_query_plain: "\<exists>q p. extend_query Q base params tf None None None d = Ok (q, p)"
  by (cases tf) (auto simp: extend_query_def Let_def)

lemma toy_prepare_search:
  "\<exists>sr. prepare_search toy_sqlite_env 1 toy_profile_key base (Some Item) (Some ''c'') toy_filter None None None False = Ok sr"
proof -
  let ?params = "params_push (opt_int (Some 2)) (params_push (ArgInt 1) params_new)"
  obtain r where r: "encode_tag_filter placeholder toy_profile_env toy_filter toy_profile_key 3 = Ok r"
    using toy_encode_filter(1) by blast
  obtain c where c: "filter_condition toy_profile_env toy_filter toy_profile_key = Ok c" using toy_encode_filter(2) by blast
  obtain ec where ec: "encrypt_category toy_sqlite_env toy_profile_key (Some ''c'') = Ok ec"
    by (simp add: encrypt_category_def toy_sqlite_env_def profile_encryptor_def toy_encrypt_searchable)
  obtain q p where "extend_query \<lparr>qp_placeholder = placeholder, qp_limit_query = limit_query\<rparr> base (params_push (opt_blob ec) ?params) r None None None False = Ok (q, p)"
    using extend_query_plain by blast
  with r c ec show ?thesis
    by (cases c) (simp add: prepare_search_def prepare_search_with_def sqlite_prepare_def params_len_def params_push_def params_new_def toy_sqlite_env_def numeral_3_eq_3)
qed

theorem sqlite_count_remove_all_refine_witness:
  "sqlite_count toy_sqlite_env 0 (Ok (1, toy_profile_key)) (Some Item) (Some ''c'') toy_filter toy_store_db = Ok 1"
proof -
  have "sqlite_count toy_sqlite_env 0 (Ok (1, toy_profile_key)) (Some Item) (Some ''c'') toy_filter toy_store_db =
      Ok (length (spec_select (se_like toy_sqlite_env) (unexpired 0) (Some Item) (Some ''c'') (filter_tag_query toy_filter) [(toy_entry, Some 5000)])) \<and>
    (\<exists>db'. sqlite_remove_all toy_sqlite_env (Ok (1, toy_profile_key)) (Some Item) (Some ''c'') toy_filter toy_store_db =
        (Ok (fst (spec_remove_all (se_like toy_sqlite_env) (Some Item) (Some ''c'') (filter_tag_query toy_filter) [(toy_entry, Some 5000)])), db') \<and>
      represents (key_encryptor toy_sqlite_env toy_profile_key) 1 db'
        (snd (spec_remove_all (se_like toy_sqlite_env) (Some Item) (Some ''c'') (filter_tag_query toy_filter) [(toy_entry, Some 5000)])))"
    by (rule sqlite_count_remove_all_refine [OF toy_sqlite_env_correct toy_store_represents])
       (simp_all add: valid_str_def toy_filter_exact toy_prepare_search)
  then show ?thesis
    by (simp add: spec_select_def visible_def unexpired_def spec_matches_def toy_filter_query tags_satisfy_def
        tag_op_match_def toy_entry_def)
qed

section \<open>Scanning\<close>

lemma scan_loop_paginate:
  "list_all2 (\<lambda>r x. conv r = Ok x) rows xs \<Longrightarrow> scan_loop conv batch rows = map Ok (paginate PAGE_SIZE batch xs)"
  by (induction rows xs arbitrary: batch rule: list_all2_induct) (auto simp: Let_def)

lemma collect_pages_Ok: "collect_pages (map Ok pages) = Ok (concat pages)"
  by (induction pages) auto

lemma limit_rows_all2: "list_all2 R xs ys \<Longrightarrow> list_all2 R (limit_rows offset limit xs) (limit_rows offset limit ys)"
  by (auto simp: limit_rows_def Let_def intro: list_all2_takeI list_all2_dropI)

lemma limit_rows_map: "limit_rows offset limit (map f xs) = map f (limit_rows offset limit xs)"
  by (simp add: limit_rows_def Let_def drop_map take_map)

lemma limit_rows_subset: "x \<in> set (limit_rows offset limit xs) \<Longrightarrow> x \<in> set xs"
  by (auto simp: limit_rows_def Let_def split: if_splits dest: in_set_dropD in_set_takeD)

text \<open>A row of the scan decrypts to the entry it stands for.\<close>

lemma scan_row_decrypts:
  assumes "sqlite_env_correct env" "row_of (key_encryptor env key) db r s"
    and "category = None \<or> category = Some (entry_category (fst s))"
  shows "\<exists>x. enc_scan_entry env db r = Ok x \<and> decrypt_scan_entry (se_hex env) (key_encryptor env key) category x = Ok (fst s)"
proof -
  let ?X = "key_encryptor env key"
  obtain nonce where row: "i_kind r = entry_kind_num (entry_kind (fst s))" "valid_entry (fst s)"
      "ee_category ?X (as_bytes (entry_category (fst s))) = Ok (i_category r)"
      "ee_name ?X (as_bytes (entry_name (fst s))) = Ok (i_name r)"
      "ee_value ?X nonce (as_bytes (entry_category (fst s))) (as_bytes (entry_name (fst s))) (entry_value (fst s)) = Ok (i_value r)"
      "ee_tags ?X (entry_tags (fst s)) = Ok (item_tags (i_id r) db)"
    using assms(2) by (auto simp: row_of_def Let_def)
  let ?x = "\<lparr>row_kind = entry_kind (fst s), row_category = i_category r, row_name = i_name r, row_value = i_value r,
      row_tags = tags_column (se_hex env) (item_tags (i_id r) db)\<rparr>"
  have "enc_scan_entry env db r = Ok ?x" by (simp add: enc_scan_entry_def row(1))
  moreover have "encrypt_row (se_hex env) ?X nonce (fst s) = Ok ?x" by (simp add: encrypt_row_def row)
  then have "decrypt_scan_entry (se_hex env) ?X category ?x = Ok (fst s)"
    using encryptor_contract.decrypt_encrypted_row [OF env_contract [OF assms(1)] _ row(2) _ assms(3)] assms(1)
    by (simp add: sqlite_env_correct_def)
  ultimately show ?thesis by blast
qed

lemma scan_rows_decrypt:
  assumes "sqlite_env_correct env" "list_all2 (row_of (key_encryptor env key) db) rows ss"
    and "\<And>s. s \<in> set ss \<Longrightarrow> category = None \<or> category = Some (entry_category (fst s))"
  shows "\<exists>xs. list_all2 (\<lambda>r x. enc_scan_entry env db r = Ok x) rows xs \<and>
    list_all2 (\<lambda>x s. decrypt_scan_entry (se_hex env) (key_encryptor env key) category x = Ok (fst s)) xs ss"
  using assms(2,3)
proof (induction rule: list_all2_induct)
  case (Cons r rows s ss)
  then obtain xs where "list_all2 (\<lambda>r x. enc_scan_entry env db r = Ok x) rows xs"
      "list_all2 (\<lambda>x s. decrypt_scan_entry (se_hex env) (key_encryptor env key) category x = Ok (fst s)) xs ss"
    by auto
  moreover obtain x where "enc_scan_entry env db r = Ok x"
      "decrypt_scan_entry (se_hex env) (key_encryptor env key) category x = Ok (fst s)"
    using scan_row_decrypts [OF assms(1) Cons(1) Cons.prems [OF list.set_intros(1)]] by blast
  ultimately show ?case by (intro exI [of _ "x # xs"]) auto
qed auto

text \<open>The order of the rows: by id it is the order of the table, or its reverse.\<close>

lemma order_rows_all2:
  assumes "sqlite_env_correct env" "db_wf db" "list_all2 R (filter p (items db)) ss"
  shows "\<exists>ss'. list_all2 R (order_rows env order_by descending (filter p (items db))) ss' \<and> mset ss' = mset ss \<and>
    (order_by = Some Id \<longrightarrow> ss' = (if descending then rev ss else ss))"
proof (cases order_by)
  case None
  have "mset (se_order env (filter p (items db))) = mset (filter p (items db))"
    using assms(1) by (simp add: sqlite_env_correct_def)
  from list_all2_reorder_left_invariance [OF assms(3) this] None show ?thesis
    by (auto simp: order_rows_def)
next
  case (Some ob)
  have "sorted_wrt (<) (map i_id (filter p (items db)))"
    using assms(2) by (simp add: db_wf_def sorted_wrt_map sorted_wrt_filter)
  then have "sort_key i_id (filter p (items db)) = filter p (items db)"
    by (intro sort_key_id_if_sorted) (simp add: strict_sorted_imp_sorted)
  with assms(3) Some show ?thesis by (cases ob) (auto simp: order_rows_def Let_def)
qed

text \<open>
  The pages of the selected rows, in order and cut to offset and limit, decrypt to the selected entries;
  for every backend's statement and for every way to compare the expiry time.
\<close>

lemma scan_pages_sim:
  assumes env: "sqlite_env_correct env" and rep: "represents (key_encryptor env key) pid db st"
    and cat: "\<forall>c. category = Some c \<longrightarrow> valid_str c" and flt: "filter_exact tag_filter"
    and sr: "search_of env key category tag_filter sr"
  shows "\<exists>es xs. mset es = mset (spec_select (se_like env) live kind category (filter_tag_query tag_filter) st) \<and>
    (order_by = Some Id \<longrightarrow> es = (if descending then rev (spec_select (se_like env) live kind category (filter_tag_query tag_filter) st)
       else spec_select (se_like env) live kind category (filter_tag_query tag_filter) st)) \<and>
    scan_loop (enc_scan_entry env db) [] (limit_rows offset limit (order_rows env order_by descending
      (filter (\<lambda>r. item_matches env pid kind sr db r \<and> live (i_expiry r)) (items db)))) = map Ok (paginate PAGE_SIZE [] xs) \<and>
    list_all2 (\<lambda>x e. decrypt_scan_entry (se_hex env) (key_encryptor env key) category x = Ok e) xs (limit_rows offset limit es)"
proof -
  let ?ss = "filter (\<lambda>s. visible live s \<and> spec_matches (se_like env) kind category (filter_tag_query tag_filter) (fst s)) st"
  let ?rows = "filter (\<lambda>r. item_matches env pid kind sr db r \<and> live (i_expiry r)) (items db)"
  have sel: "list_all2 (row_of (key_encryptor env key) db) ?rows ?ss"
    by (rule selected_rows [OF env rep sr _ flt]) (use cat in blast)
  have wf: "db_wf db" using rep by (simp add: represents_def)
  obtain ss where ss: "list_all2 (row_of (key_encryptor env key) db) (order_rows env order_by descending ?rows) ss"
      "mset ss = mset ?ss" "order_by = Some Id \<longrightarrow> ss = (if descending then rev ?ss else ?ss)"
    using order_rows_all2 [OF env wf sel] by blast
  have in_ss: "s \<in> set ss \<Longrightarrow> s \<in> set ?ss" for s using ss(2) by (metis set_mset_mset)
  have "category = None \<or> category = Some (entry_category (fst s))" if "s \<in> set (limit_rows offset limit ss)" for s
    using in_ss [OF limit_rows_subset [OF that]] by (auto simp: spec_matches_def)
  from scan_rows_decrypt [OF env limit_rows_all2 [OF ss(1)] this]
  obtain xs where xs: "list_all2 (\<lambda>r x. enc_scan_entry env db r = Ok x) (limit_rows offset limit (order_rows env order_by descending ?rows)) xs"
      "list_all2 (\<lambda>x s. decrypt_scan_entry (se_hex env) (key_encryptor env key) category x = Ok (fst s)) xs (limit_rows offset limit ss)"
    by blast
  have "scan_loop (enc_scan_entry env db) [] (limit_rows offset limit (order_rows env order_by descending ?rows)) = map Ok (paginate PAGE_SIZE [] xs)"
    by (rule scan_loop_paginate [OF xs(1)])
  moreover have "list_all2 (\<lambda>x e. decrypt_scan_entry (se_hex env) (key_encryptor env key) category x = Ok e) xs (limit_rows offset limit (map fst ss))"
    using xs(2) by (simp add: limit_rows_map list_all2_map2)
  moreover have "mset (map fst ss) = mset (spec_select (se_like env) live kind category (filter_tag_query tag_filter) st)"
    using ss(2) by (simp only: spec_select_def mset_map)
  moreover have "order_by = Some Id \<longrightarrow> map fst ss = (if descending then rev (spec_select (se_like env) live kind category (filter_tag_query tag_filter) st)
       else spec_select (se_like env) live kind category (filter_tag_query tag_filter) st)"
    using ss(3) by (simp add: spec_select_def rev_map)
  ultimately show ?thesis by blast
qed

lemma perform_scan_sim:
  assumes env: "sqlite_env_correct env" and rep: "represents (key_encryptor env key) pid db st"
    and cat: "\<forall>c. category = Some c \<longrightarrow> valid_str c" and flt: "filter_exact tag_filter"
    and sr: "prepare_search env pid key SCAN_QUERY kind category tag_filter offset limit order_by descending = Ok sr"
  shows "\<exists>es xs. mset es = mset (spec_select (se_like env) (unexpired now) kind category (filter_tag_query tag_filter) st) \<and>
    (order_by = Some Id \<longrightarrow> es = (if descending then rev (spec_select (se_like env) (unexpired now) kind category (filter_tag_query tag_filter) st)
       else spec_select (se_like env) (unexpired now) kind category (filter_tag_query tag_filter) st)) \<and>
    perform_scan env now pid key kind category tag_filter offset limit order_by descending db = map Ok (paginate PAGE_SIZE [] xs) \<and>
    list_all2 (\<lambda>x e. decrypt_scan_entry (se_hex env) (key_encryptor env key) category x = Ok e) xs (limit_rows offset limit es)"
  using scan_pages_sim [OF env rep cat flt prepare_search_OkD [OF sr [unfolded prepare_search_def]], where live = "unexpired now"] by (auto simp: perform_scan_def sr)

lemma decrypt_pages:
  assumes "list_all2 (\<lambda>x e. decrypt_scan_entry H X category x = Ok e) xs es"
    and "list_all2 (\<lambda>x e. decrypt_scan_entry H X category x = Ok e) batch bs"
  shows "\<exists>ps. map (\<lambda>p. decrypt_scan_batch H X category p) (paginate n batch xs) = map Ok ps \<and>
      map length ps = map length (paginate n batch xs) \<and> concat ps = bs @ es"
  using assms
proof (induction xs es arbitrary: batch bs rule: list_all2_induct)
  case Nil
  then have "decrypt_scan_batch H X category batch = Ok bs" "length bs = length batch"
    by (auto simp: decrypt_scan_batch_def res_mapM_eq_Ok dest: list_all2_lengthD)
  then show ?case by (cases "batch = []") (auto intro!: exI [of _ "[bs]"])
next
  case (Cons x xs e es)
  have b: "list_all2 (\<lambda>x e. decrypt_scan_entry H X category x = Ok e) (batch @ [x]) (bs @ [e])"
    using Cons(1) Cons.prems by (simp add: list_all2_appendI)
  then have d: "decrypt_scan_batch H X category (batch @ [x]) = Ok (bs @ [e])" "length (bs @ [e]) = length (batch @ [x])"
    by (simp_all add: decrypt_scan_batch_def res_mapM_eq_Ok [symmetric]) (metis list_all2_lengthD Cons.prems)
  show ?case
  proof (cases "length (batch @ [x]) = n")
    case True
    obtain ps where "map (\<lambda>p. decrypt_scan_batch H X category p) (paginate n [] xs) = map Ok ps"
        "map length ps = map length (paginate n [] xs)" "concat ps = [] @ es"
      using Cons.IH [of "[]" "[]"] by auto
    with True d show ?thesis by (intro exI [of _ "(bs @ [e]) # ps"]) simp
  next
    case False
    with Cons.IH [OF b] show ?thesis by simp
  qed
qed

text \<open>Pages that decrypt deliver their entries, read as one list or page by page.\<close>

lemma pages_deliver:
  assumes dec: "list_all2 (\<lambda>x e. decrypt_scan_entry H X category x = Ok e) xs es"
    and pages: "pages = map Ok (paginate PAGE_SIZE [] xs)"
  shows "res_bind (collect_pages pages) (decrypt_scan_batch H X category) = Ok es"
    and "scan_all (scan_new (map (\<lambda>enc_rows. res_bind enc_rows (decrypt_scan_batch H X category)) pages) PAGE_SIZE) = Ok es"
proof -
  show "res_bind (collect_pages pages) (decrypt_scan_batch H X category) = Ok es"
    using dec by (simp add: pages collect_pages_Ok concat_paginate decrypt_scan_batch_def res_mapM_eq_Ok)
  obtain ps where ps: "map (\<lambda>p. decrypt_scan_batch H X category p) (paginate PAGE_SIZE [] xs) = map Ok ps"
      "map length ps = map length (paginate PAGE_SIZE [] xs)" "concat ps = es"
    using decrypt_pages [OF dec list_all2_Nil [THEN iffD2, OF refl], of PAGE_SIZE] by auto
  have "length p = PAGE_SIZE" if "p \<in> set (butlast ps)" for p
  proof -
    have "length p \<in> set (map length (butlast ps))" using that by simp
    then have "length p \<in> set (map length (butlast (paginate PAGE_SIZE [] xs)))"
      using ps(2) by (metis map_butlast)
    then show ?thesis using paginate_full [of "[]" PAGE_SIZE _ xs] by (auto simp: PAGE_SIZE_def)
  qed
  then have "scan_all (scan_new (map Ok ps) PAGE_SIZE) = Ok (concat ps)"
    by (intro scan_all_pages) (simp_all add: scan_new_def)
  then show "scan_all (scan_new (map (\<lambda>enc_rows. res_bind enc_rows (decrypt_scan_batch H X category)) pages) PAGE_SIZE) = Ok es"
    using ps(1,3) by (simp add: pages comp_def)
qed

lemma sqlite_fetch_all_sim:
  assumes "sqlite_env_correct env" and "represents (key_encryptor env key) pid db st"
    and "\<forall>c. category = Some c \<longrightarrow> valid_str c" and "filter_exact tag_filter"
    and "prepare_search env pid key SCAN_QUERY kind category tag_filter None limit order_by descending = Ok sr"
  obtains es where "mset es = mset (spec_select (se_like env) (unexpired now) kind category (filter_tag_query tag_filter) st)"
    "sqlite_fetch_all env now (Ok (pid, key)) kind category tag_filter limit order_by descending db = Ok (limit_rows None limit es)"
  using perform_scan_sim [OF assms, of now]
  by (auto simp: sqlite_fetch_all_def collect_pages_Ok concat_paginate decrypt_scan_batch_def res_mapM_eq_Ok)

lemma sqlite_scan_sim:
  assumes "sqlite_env_correct env" and "represents (key_encryptor env key) pid db st"
    and "\<forall>c. category = Some c \<longrightarrow> valid_str c" and "filter_exact tag_filter"
    and "prepare_search env pid key SCAN_QUERY kind category tag_filter offset limit order_by descending = Ok sr"
    and "sel = spec_select (se_like env) (unexpired now) kind category (filter_tag_query tag_filter) st"
  shows "\<exists>es. mset es = mset sel \<and> (order_by = Some Id \<longrightarrow> es = (if descending then rev sel else sel)) \<and>
    (offset = None \<longrightarrow> sqlite_fetch_all env now (Ok (pid, key)) kind category tag_filter limit order_by descending db =
      Ok (limit_rows None limit es)) \<and>
    (\<exists>sc. sqlite_scan env now (Ok (pid, key)) kind category tag_filter offset limit order_by descending db = Ok sc \<and>
      scan_all sc = Ok (limit_rows offset limit es))"
proof -
  let ?X = "key_encryptor env key"
  obtain es xs where es: "mset es = mset sel" "order_by = Some Id \<longrightarrow> es = (if descending then rev sel else sel)"
    and scan: "perform_scan env now pid key kind category tag_filter offset limit order_by descending db = map Ok (paginate PAGE_SIZE [] xs)"
    and dec: "list_all2 (\<lambda>x e. decrypt_scan_entry (se_hex env) ?X category x = Ok e) xs (limit_rows offset limit es)"
    using perform_scan_sim [OF assms(1-5), of now] unfolding assms(6) by blast
  from pages_deliver [OF dec scan] es show ?thesis by (auto simp: sqlite_fetch_all_def sqlite_scan_def)
qed

text \<open>
  C2. For an exact tag filter (\<open>filter_exact\<close>: encrypted tags are asked only for equality, membership and
  existence, no \<open>exist\<close> but one of exactly one name is negated, and no part of a disjunction or negated conjunction is always true) and a search that
  could be prepared, \<open>fetch_all\<close> and \<open>scan\<close> return the unexpired entries that satisfy the search, decrypted:
  each once, ordered by insertion (or its reverse) when an order is asked for, cut to the offset
  and the limit. Reading the scan page by page to its end delivers all of them.
\<close>

theorem sqlite_fetch_all_scan_refine:
  assumes "sqlite_env_correct env" and "represents (key_encryptor env key) pid db st"
    and "\<forall>c. category = Some c \<longrightarrow> valid_str c" and "filter_exact tag_filter"
    and "prepare_search env pid key SCAN_QUERY kind category tag_filter offset limit order_by descending = Ok sr"
    and "sel = spec_select (se_like env) (unexpired now) kind category (filter_tag_query tag_filter) st"
  shows "\<exists>es. mset es = mset sel \<and> (order_by = Some Id \<longrightarrow> es = (if descending then rev sel else sel)) \<and>
    (offset = None \<longrightarrow> sqlite_fetch_all env now (Ok (pid, key)) kind category tag_filter limit order_by descending db =
      Ok (limit_rows None limit es)) \<and>
    (\<exists>sc. sqlite_scan env now (Ok (pid, key)) kind category tag_filter offset limit order_by descending db = Ok sc \<and>
      scan_all sc = Ok (limit_rows offset limit es))"
  by (rule sqlite_scan_sim [OF assms])

theorem sqlite_fetch_all_scan_refine_witness:
  "sqlite_fetch_all toy_sqlite_env 0 (Ok (1, toy_profile_key)) (Some Item) (Some ''c'') toy_filter None None False toy_store_db =
    Ok [toy_entry]"
proof -
  obtain sr where sr: "prepare_search toy_sqlite_env 1 toy_profile_key SCAN_QUERY (Some Item) (Some ''c'') toy_filter
      None None None False = Ok sr" using toy_prepare_search by blast
  from sqlite_fetch_all_scan_refine [OF toy_sqlite_env_correct toy_store_represents _ toy_filter_exact this refl, of 0]
  obtain es where "mset es = mset (spec_select (se_like toy_sqlite_env) (unexpired 0) (Some Item) (Some ''c'') (filter_tag_query toy_filter)
      [(toy_entry, Some 5000)])"
    "sqlite_fetch_all toy_sqlite_env 0 (Ok (1, toy_profile_key)) (Some Item) (Some ''c'') toy_filter None None False toy_store_db =
      Ok (limit_rows None None es)"
    by (auto simp: valid_str_def)
  then show ?thesis
    by (simp add: spec_select_def visible_def unexpired_def spec_matches_def toy_filter_query tags_satisfy_def
        tag_op_match_def toy_entry_def limit_rows_def opt_or_def)
qed

end
