(* ===== verification/Sqlite_Backend.thy ===== *)
theory Sqlite_Backend
  imports Sqlite_Session
begin

text \<open>
  The SQLite store itself: creating and opening a database (\<open>init_db\<close> and \<open>open_db\<close> of
  \<open>askar-storage/src/backend/sqlite/provision.rs\<close>), its profiles with the cache of their keys, and the
  change of the store key (\<open>rekey\<close> of \<open>backend/sqlite/mod.rs\<close>). The main results: a store can be
  opened again with what was written, and changing its key loses no profile key.
\<close>

section \<open>State\<close>

record SqliteBackend =
  be_db :: Database
  active_profile :: string
  key_cache :: KeyCache

text \<open>\<open>From<sqlx::Error>\<close>: an error of the driver without a message.\<close>

definition sqlx_error :: "'a storage_result" where
  "sqlx_error = Err (err_of_kind storage_kind.Backend)"

section \<open>Provisioning and opening\<close>

definition init_db :: "store_key_env \<Rightarrow> profile_env \<Rightarrow> bytes \<Rightarrow> bytes \<Rightarrow> bytes \<Rightarrow> ProfileKey \<Rightarrow> string \<Rightarrow> StoreKeyMethod \<Rightarrow> PassKey
    \<Rightarrow> (KeyCache \<times> Database) storage_result" where
  "init_db E P salt rnd nonce new_key profile_name method pass_key =
     res_bind (init_keys E P salt rnd nonce new_key method (pass_key_into_owned pass_key))
       (\<lambda>(profile_key, enc_profile_key, store_key, store_key_ref).
     (let db = \<lparr>config = [''default_profile'' \<mapsto> Some profile_name, ''key'' \<mapsto> Some store_key_ref, ''version'' \<mapsto> Some ''1''],
            profiles = [], items = [], items_tags = []\<rparr>;
          db = snd (insert_profile profile_name enc_profile_key db)
      in case find_profile profile_name db of
           Some row \<Rightarrow> Ok (add_profile profile_name (p_id row) profile_key (key_cache_new store_key), db)
         | None \<Rightarrow> Err (err_msg storage_kind.Backend ''Error checking for existing profile'')))"

text \<open>A value of the \<open>config\<close> table; a null value cannot be read as text.\<close>

definition config_text :: "string \<Rightarrow> Database \<Rightarrow> string option storage_result" where
  "config_text name db =
     (case config db name of
        None \<Rightarrow> Ok None
      | Some None \<Rightarrow> sqlx_error
      | Some (Some v) \<Rightarrow> Ok (Some v))"

definition check_version :: "Database \<Rightarrow> bool storage_result" where
  "check_version db =
     res_bind (config_text ''version'' db) (\<lambda>v.
     (case v of
        Some version \<Rightarrow>
          if version \<noteq> ''1'' then Err (err_msg storage_kind.Unsupported ''Unsupported store version'') else Ok True
      | None \<Rightarrow> Ok False))"

definition resolve_store_key :: "store_key_env \<Rightarrow> StoreKeyMethod option \<Rightarrow> PassKey \<Rightarrow> string option \<Rightarrow> StoreKey storage_result" where
  "resolve_store_key E method pass_key store_key_ref =
     (case store_key_ref of
        Some uri \<Rightarrow>
          res_bind (store_key_reference_parse_uri uri) (\<lambda>wrap_ref.
          if method \<noteq> None \<and> \<not> compare_method wrap_ref (the method) then
            Err (err_msg storage_kind.Input ''Store key method mismatch'')
          else store_key_reference_resolve E wrap_ref (pass_key_into_owned pass_key))
      | None \<Rightarrow> Err (err_msg storage_kind.Unsupported ''Store key not found''))"

definition open_db :: "store_key_env \<Rightarrow> profile_env \<Rightarrow> StoreKeyMethod option \<Rightarrow> PassKey \<Rightarrow> string option \<Rightarrow> Database
    \<Rightarrow> SqliteBackend storage_result" where
  "open_db E P method pass_key profile db =
     res_bind (config_text ''default_profile'' db) (\<lambda>default_profile.
     res_bind (config_text ''key'' db) (\<lambda>store_key_ref.
     res_bind (check_version db) (\<lambda>ver_ok.
     if \<not> ver_ok then Err (err_msg storage_kind.Unsupported ''Store version not found'')
     else
       res_bind (ok_or (case profile of Some p \<Rightarrow> Some p | None \<Rightarrow> default_profile)
         (err_msg storage_kind.Unsupported ''Default store profile not found'')) (\<lambda>profile.
       res_bind (resolve_store_key E method pass_key store_key_ref) (\<lambda>store_key.
       (let cache = key_cache_new store_key in
        case find_profile profile db of
          None \<Rightarrow> sqlx_error
        | Some row \<Rightarrow>
            res_bind (load_key E P cache (p_key row)) (\<lambda>profile_key.
            Ok \<lparr>be_db = db, active_profile = profile,
               key_cache = add_profile profile (p_id row) profile_key cache\<rparr>)))))))"

text \<open>
  \<open>SqliteStoreOptions::provision\<close>, for a database file that exists or not: an existing store is opened
  unless it is to be recreated. \<open>random_name\<close> is the profile name drawn when none is given.
\<close>

definition provision :: "store_key_env \<Rightarrow> profile_env \<Rightarrow> bytes \<Rightarrow> bytes \<Rightarrow> bytes \<Rightarrow> ProfileKey \<Rightarrow> string \<Rightarrow> StoreKeyMethod \<Rightarrow> PassKey
    \<Rightarrow> string option \<Rightarrow> bool \<Rightarrow> Database option \<Rightarrow> SqliteBackend storage_result" where
  "provision E P salt rnd nonce new_key random_name method pass_key profile recreate existing =
     (case (if recreate then None else existing) of
        Some db \<Rightarrow> open_db E P (Some method) pass_key profile db
      | None \<Rightarrow>
          (let default_profile = opt_or profile random_name
           in res_map (\<lambda>(cache, db). \<lparr>be_db = db, active_profile = default_profile, key_cache = cache\<rparr>)
                (init_db E P salt rnd nonce new_key default_profile method pass_key)))"

section \<open>Profiles\<close>

definition create_profile :: "store_key_env \<Rightarrow> profile_env \<Rightarrow> bytes \<Rightarrow> ProfileKey \<Rightarrow> string \<Rightarrow> string option \<Rightarrow> SqliteBackend
    \<Rightarrow> string storage_result \<times> SqliteBackend" where
  "create_profile E P nonce new_key random_name name be =
     (let name = opt_or name random_name in
      case encode_profile_key E P nonce new_key (cache_store_key (key_cache be)) of
        Ok enc_key \<Rightarrow>
          (case insert_profile name enc_key (be_db be) of
             (Some pid, db) \<Rightarrow>
               (Ok name, be\<lparr>be_db := db, key_cache := add_profile name pid new_key (key_cache be)\<rparr>)
           | (None, db) \<Rightarrow> (Err (err_msg storage_kind.Duplicate ''Duplicate profile name''), be\<lparr>be_db := db\<rparr>))
      | Err e \<Rightarrow> (Err e, be)
      | Panic \<Rightarrow> (Panic, be))"

definition get_default_profile :: "SqliteBackend \<Rightarrow> string storage_result" where
  "get_default_profile be =
     (case config (be_db be) ''default_profile'' of
        Some profile \<Rightarrow> Ok (opt_or profile [])
      | None \<Rightarrow> Err (err_msg storage_kind.Backend ''Error fetching default profile name''))"

definition set_default_profile :: "string \<Rightarrow> SqliteBackend \<Rightarrow> unit storage_result \<times> SqliteBackend" where
  "set_default_profile profile be =
     (Ok (), be\<lparr>be_db := (be_db be)\<lparr>config := (config (be_db be))(''default_profile'' \<mapsto> Some profile)\<rparr>\<rparr>)"

definition list_profiles :: "SqliteBackend \<Rightarrow> string list storage_result" where
  "list_profiles be = Ok (map p_name (profiles (be_db be)))"

definition remove_profile :: "string \<Rightarrow> SqliteBackend \<Rightarrow> bool storage_result \<times> SqliteBackend" where
  "remove_profile name be =
     (let (n, db) = delete_profile name (be_db be) in (Ok (n \<noteq> 0), be\<lparr>be_db := db\<rparr>))"

text \<open>\<open>resolve_profile_key\<close>: from the cache, or from the database, filling the cache.\<close>

definition resolve_profile_key :: "store_key_env \<Rightarrow> profile_env \<Rightarrow> string \<Rightarrow> SqliteBackend \<Rightarrow> acquired \<times> SqliteBackend" where
  "resolve_profile_key E P profile be =
     (case get_profile (key_cache be) profile of
        Some (pid, key) \<Rightarrow> (Ok (pid, key), be)
      | None \<Rightarrow>
          (case find_profile profile (be_db be) of
             Some row \<Rightarrow>
               (case load_key E P (key_cache be) (p_key row) of
                  Ok key \<Rightarrow> (Ok (p_id row, key), be\<lparr>key_cache := add_profile profile (p_id row) key (key_cache be)\<rparr>)
                | Err e \<Rightarrow> (Err e, be)
                | Panic \<Rightarrow> (Panic, be))
           | None \<Rightarrow> (Err (err_msg storage_kind.NotFound ''Profile not found''), be)))"

definition ping :: "acquired \<Rightarrow> Database \<Rightarrow> unit storage_result" where
  "ping acquired db =
     res_bind acquired (\<lambda>(pid, key).
     if pid \<in> p_id ` set (profiles db) then Ok ()
     else Err (err_msg storage_kind.NotFound ''Session profile has been removed''))"

section \<open>Changing the store key\<close>

text \<open>\<open>nonces\<close> gives the random nonce drawn for each profile.\<close>

definition rekey_row :: "store_key_env \<Rightarrow> profile_env \<Rightarrow> (int \<Rightarrow> bytes) \<Rightarrow> KeyCache \<Rightarrow> StoreKey \<Rightarrow> ProfileRow
    \<Rightarrow> (int \<times> bytes) storage_result" where
  "rekey_row E P nonces cache store_key row =
     res_bind (load_key E P cache (p_key row)) (\<lambda>profile_key.
     res_bind (encode_profile_key E P (nonces (p_id row)) profile_key store_key) (\<lambda>upd_key.
     Ok (p_id row, upd_key)))"

fun update_profile_keys :: "(int \<times> bytes) list \<Rightarrow> Database \<Rightarrow> Database storage_result" where
  "update_profile_keys [] db = Ok db"
| "update_profile_keys ((pid, key) # upd_keys) db =
     (let (n, db) = update_profile_key key pid db in
      if n \<noteq> 1 then Err (err_msg storage_kind.Backend ''Error updating profile key'')
      else update_profile_keys upd_keys db)"

definition update_config_key :: "string \<Rightarrow> Database \<Rightarrow> Database storage_result" where
  "update_config_key uri db =
     (if config db ''key'' = None then Err (err_msg storage_kind.Backend ''Error updating store key'')
      else Ok (db\<lparr>config := (config db)(''key'' \<mapsto> Some uri)\<rparr>))"

text \<open>All changes are made in one transaction: an error leaves the store as it was.\<close>

definition rekey :: "store_key_env \<Rightarrow> profile_env \<Rightarrow> bytes \<Rightarrow> bytes \<Rightarrow> (int \<Rightarrow> bytes) \<Rightarrow> StoreKeyMethod \<Rightarrow> PassKey \<Rightarrow> SqliteBackend
    \<Rightarrow> unit storage_result \<times> SqliteBackend" where
  "rekey E P salt rnd nonces method pass_key be =
     (case res_bind (store_key_method_resolve E salt rnd method (pass_key_into_owned pass_key)) (\<lambda>(store_key, store_key_ref).
           res_bind (res_mapM (rekey_row E P nonces (key_cache be) store_key) (profiles (be_db be))) (\<lambda>upd_keys.
           res_bind (update_profile_keys upd_keys (be_db be)) (\<lambda>db.
           res_bind (update_config_key (store_key_reference_into_uri store_key_ref) db) (\<lambda>db.
           Ok (store_key, db))))) of
        Ok (store_key, db) \<Rightarrow> (Ok (), be\<lparr>be_db := db, key_cache := key_cache_new store_key\<rparr>)
      | Err e \<Rightarrow> (Err e, be)
      | Panic \<Rightarrow> (Panic, be))"

section \<open>Opening what was provisioned\<close>

lemma pass_key_into_owned_same [simp]: "pass_key_into_owned p = p"
  by (cases p) (simp_all add: pass_key_into_owned_def)

lemma next_id_Nil [simp]: "next_id [] = 1"
  by (simp add: next_id_def)

lemma init_db_OkD:
  assumes "init_db E P salt rnd nonce new_key name method pass_key = Ok (cache, db)"
  shows "\<exists>enc sk uri. init_keys E P salt rnd nonce new_key method pass_key = Ok (new_key, enc, sk, uri) \<and>
    cache = add_profile name 1 new_key (key_cache_new sk) \<and>
    db = \<lparr>config = [''default_profile'' \<mapsto> Some name, ''key'' \<mapsto> Some uri, ''version'' \<mapsto> Some ''1''],
      profiles = [\<lparr>p_id = 1, p_name = name, p_key = enc\<rparr>], items = [], items_tags = []\<rparr>"
proof -
  obtain k enc sk uri where i: "init_keys E P salt rnd nonce new_key method pass_key = Ok (k, enc, sk, uri)"
    using assms by (auto simp: init_db_def result_simps)
  moreover from i have "k = new_key" by (auto simp: init_keys_def result_simps split: if_splits)
  ultimately show ?thesis using assms by (auto simp: init_db_def insert_profile_def find_profile_def Let_def)
qed

text \<open>
  C26. A provisioned store opens again: with the same pass key, naming the profile or not and
  checking the key method or not, \<open>open_db\<close> returns the backend that \<open>provision\<close> returned, with the
  same profile key in its cache.
\<close>

theorem provisioned_store_opens:
  assumes "store_key_env_correct E" and "length salt = SALT_LENGTH"
    and "\<forall>b. pe_to_cbor P new_key = Some b \<longrightarrow> pe_from_cbor P b = Some new_key"
    and "provision E P salt rnd nonce new_key random_name method pass_key profile recreate None = Ok be"
    and "m = None \<or> m = Some method" and "p = None \<or> p = Some (active_profile be)"
  shows "open_db E P m pass_key p (be_db be) = Ok be \<and> db_wf (be_db be) \<and>
    get_profile (key_cache be) (active_profile be) = Some (1, new_key)"
proof -
  let ?name = "opt_or profile random_name"
  obtain cache db where i: "init_db E P salt rnd nonce new_key ?name method pass_key = Ok (cache, db)"
    and be: "be = \<lparr>be_db = db, active_profile = ?name, key_cache = cache\<rparr>"
    using assms(4) by (auto simp: provision_def Let_def result_simps split: if_splits)
  from init_db_OkD [OF i] obtain enc sk uri where
    k: "init_keys E P salt rnd nonce new_key method pass_key = Ok (new_key, enc, sk, uri)"
    and cache: "cache = add_profile ?name 1 new_key (key_cache_new sk)"
    and db: "db = \<lparr>config = [''default_profile'' \<mapsto> Some ?name, ''key'' \<mapsto> Some uri, ''version'' \<mapsto> Some ''1''],
      profiles = [\<lparr>p_id = 1, p_name = ?name, p_key = enc\<rparr>], items = [], items_tags = []\<rparr>" by blast
  obtain r where r: "store_key_reference_parse_uri uri = Ok r" "compare_method r method"
      "store_key_reference_resolve E r pass_key = Ok sk" "load_key E P (key_cache_new sk) enc = Ok new_key"
    using init_keys_reopen [OF assms(1-3) k] by blast
  have "resolve_store_key E m pass_key (Some uri) = Ok sk"
    using r(1-3) assms(5) by (auto simp: resolve_store_key_def)
  moreover have "config_text ''default_profile'' db = Ok (Some ?name)" "config_text ''key'' db = Ok (Some uri)"
    "check_version db = Ok True" "find_profile ?name db = Some \<lparr>p_id = 1, p_name = ?name, p_key = enc\<rparr>"
    by (simp_all add: db config_text_def check_version_def find_profile_def)
  moreover have "(case p of Some p \<Rightarrow> Some p | None \<Rightarrow> Some ?name) = Some ?name"
    using assms(6) by (auto simp: be)
  ultimately have "open_db E P m pass_key p db = Ok be"
    by (simp add: open_db_def Let_def r(4) be cache)
  moreover have "db_wf db" by (simp add: db db_wf_def)
  ultimately show ?thesis by (simp add: be cache get_profile_def add_profile_def)
qed

definition toy_cbor_env :: profile_env where
  "toy_cbor_env = toy_profile_env\<lparr>pe_from_cbor := \<lambda>b. Some toy_profile_key\<rparr>"

lemma toy_provision:
  "\<exists>be. provision toy_env toy_cbor_env (replicate 16 3) [] (replicate 12 4) toy_profile_key ''r''
      (DeriveKey (Argon2i Moderate)) (Some ''pass'') None True None = Ok be"
proof -
  obtain k enc sk uri where "init_keys toy_env toy_cbor_env
      (replicate 16 3) [] (replicate 12 4) toy_profile_key (DeriveKey (Argon2i Moderate)) (Some ''pass'') = Ok (k, enc, sk, uri)"
    using toy_init_keys unfolding toy_cbor_env_def by blast
  then show ?thesis
    by (simp add: provision_def init_db_def insert_profile_def find_profile_def Let_def)
qed

theorem provisioned_store_opens_witness:
  "\<exists>be. provision toy_env toy_cbor_env (replicate 16 3) [] (replicate 12 4) toy_profile_key ''r''
      (DeriveKey (Argon2i Moderate)) (Some ''pass'') None True None = Ok be \<and>
    open_db toy_env toy_cbor_env None (Some ''pass'') None (be_db be) = Ok be"
proof -
  obtain be where be: "provision toy_env toy_cbor_env (replicate 16 3) [] (replicate 12 4) toy_profile_key ''r''
      (DeriveKey (Argon2i Moderate)) (Some ''pass'') None True None = Ok be" using toy_provision by blast
  with provisioned_store_opens [OF toy_env_correct _ _ be, of None None] show ?thesis
    by (auto simp: SALT_LENGTH_def toy_cbor_env_def)
qed

section \<open>Keys under a new store key\<close>

lemma rekey_row_OkD:
  assumes "aead_correct (env_cipher E)" "\<And>k b. pe_to_cbor P k = Some b \<Longrightarrow> pe_from_cbor P b = Some k"
    and "rekey_row E P nonces cache sk p = Ok (pid, key)"
  shows "pid = p_id p \<and> (\<exists>k. load_key E P cache (p_key p) = Ok k \<and> load_key E P (key_cache_new sk) key = Ok k)"
proof -
  obtain k where k: "load_key E P cache (p_key p) = Ok k" "encode_profile_key E P (nonces (p_id p)) k sk = Ok key" "pid = p_id p"
    using assms(3) by (auto simp: rekey_row_def result_simps)
  have "load_key E P (key_cache_new sk) key = Ok k"
    using load_encoded_key [OF assms(1,2), of k "nonces (p_id p)" "key_cache_new sk" key] k(2)
    by (simp add: key_cache_new_def)
  with k show ?thesis by blast
qed

text \<open>Updating every profile once, by distinct ids.\<close>

lemma update_profile_keys_all:
  assumes "list_all2 (\<lambda>p u. fst u = p_id p) ps upd" "distinct (map p_id (qs @ ps))"
  shows "update_profile_keys upd (db\<lparr>profiles := qs @ ps\<rparr>) =
    Ok (db\<lparr>profiles := qs @ map2 (\<lambda>p u. p\<lparr>p_key := snd u\<rparr>) ps upd\<rparr>)"
  using assms
proof (induction ps upd arbitrary: qs rule: list_all2_induct)
  case (Cons p ps u upd)
  obtain key where u: "u = (p_id p, key)" using Cons(1) by (cases u) auto
  have "p_id p \<notin> p_id ` set qs" "p_id p \<notin> p_id ` set ps" using Cons.prems by auto
  then have d: "q \<in> set qs \<Longrightarrow> p_id q \<noteq> p_id p" "q \<in> set ps \<Longrightarrow> p_id q \<noteq> p_id p" for q
    by (metis imageI)+
  let ?f = "\<lambda>q. if p_id q = p_id p then q\<lparr>p_key := key\<rparr> else q"
  have "map ?f qs = qs" "map ?f ps = ps" using d by (auto intro!: map_idI)
  moreover have "filter (\<lambda>q. p_id q = p_id p) qs = []" "filter (\<lambda>q. p_id q = p_id p) ps = []"
    using d by (auto simp: filter_empty_conv)
  ultimately have "update_profile_key key (p_id p) (db\<lparr>profiles := qs @ p # ps\<rparr>) =
      (1, db\<lparr>profiles := (qs @ [p\<lparr>p_key := key\<rparr>]) @ ps\<rparr>)"
    by (simp add: update_profile_key_def)
  with Cons.IH [of "qs @ [p\<lparr>p_key := key\<rparr>]"] Cons.prems u show ?case by simp
qed simp

text \<open>
  C27. Changing the store key loses nothing: afterwards every profile has its id and name, and the
  same profile key, now under the new store key; items and tags are untouched; and the reference
  written to the store is read back and resolves, with the new pass key, to the new store key. An
  error leaves the store as it was.
\<close>

theorem rekey_keeps_profile_keys:
  assumes "store_key_env_correct E" and "length salt = SALT_LENGTH"
    and "\<forall>k b. pe_to_cbor P k = Some b \<longrightarrow> pe_from_cbor P b = Some k" and "db_wf (be_db be)"
    and "method = RawKey \<longrightarrow> \<not> pass_key_is_empty pass_key"
    and "rekey E P salt rnd nonces method pass_key be = (res, be')"
  shows "if res = Ok () then
      list_all2 (\<lambda>p p'. p_id p' = p_id p \<and> p_name p' = p_name p \<and>
        (\<exists>k. load_key E P (key_cache be) (p_key p) = Ok k \<and> load_key E P (key_cache be') (p_key p') = Ok k))
        (profiles (be_db be)) (profiles (be_db be')) \<and>
      items (be_db be') = items (be_db be) \<and> items_tags (be_db be') = items_tags (be_db be) \<and>
      (\<exists>uri r. config (be_db be') ''key'' = Some (Some uri) \<and> store_key_reference_parse_uri uri = Ok r \<and>
        store_key_reference_resolve E r pass_key = Ok (cache_store_key (key_cache be')))
    else be' = be"
proof (cases "res = Ok ()")
  case False
  then show ?thesis using assms(6) by (auto simp: rekey_def split: result.splits)
next
  case True
  then obtain sk r upd db1 db2 where m: "store_key_method_resolve E salt rnd method pass_key = Ok (sk, r)"
    and upd: "res_mapM (rekey_row E P nonces (key_cache be) sk) (profiles (be_db be)) = Ok upd"
    and db1: "update_profile_keys upd (be_db be) = Ok db1"
    and db2: "update_config_key (store_key_reference_into_uri r) db1 = Ok db2"
    and be': "be' = be\<lparr>be_db := db2, key_cache := key_cache_new sk\<rparr>"
    using assms(6) by (auto simp: rekey_def result_simps split: result.splits)
  have cipher: "aead_correct (env_cipher E)" using assms(1) by (simp add: store_key_env_correct_def)
  have rows: "list_all2 (\<lambda>p u. rekey_row E P nonces (key_cache be) sk p = Ok u) (profiles (be_db be)) upd"
    using upd by (simp add: res_mapM_eq_Ok)
  have u: "list_all2 (\<lambda>p u. fst u = p_id p \<and>
      (\<exists>k. load_key E P (key_cache be) (p_key p) = Ok k \<and> load_key E P (key_cache_new sk) (snd u) = Ok k)) (profiles (be_db be)) upd"
    using rows by (rule list.rel_mono_strong) (use rekey_row_OkD [OF cipher] assms(3) in \<open>metis prod.collapse\<close>)
  have "list_all2 (\<lambda>p u. fst u = p_id p) (profiles (be_db be)) upd"
    using u by (rule list.rel_mono_strong) simp
  from update_profile_keys_all [OF this, of "[]" "be_db be"] db1 assms(4)
  have p1: "db1 = (be_db be)\<lparr>profiles := map2 (\<lambda>p u. p\<lparr>p_key := snd u\<rparr>) (profiles (be_db be)) upd\<rparr>"
    by (simp add: db_wf_def)
  have p2: "profiles db2 = map2 (\<lambda>p u. p\<lparr>p_key := snd u\<rparr>) (profiles (be_db be)) upd" "items db2 = items (be_db be)"
    "items_tags db2 = items_tags (be_db be)" "config db2 ''key'' = Some (Some (store_key_reference_into_uri r))"
    using db2 by (auto simp: update_config_key_def p1 split: if_splits)
  have "list_all2 (\<lambda>p p'. p_id p' = p_id p \<and> p_name p' = p_name p \<and>
        (\<exists>k. load_key E P (key_cache be) (p_key p) = Ok k \<and> load_key E P (key_cache_new sk) (p_key p') = Ok k))
      (profiles (be_db be)) (profiles db2)"
    using u unfolding p2(1) by (induction rule: list_all2_induct) auto
  moreover have "store_key_reference_parse_uri (store_key_reference_into_uri r) = Ok r \<and>
      store_key_reference_resolve E r pass_key = Ok sk"
    using store_key_reopen [OF assms(1,2) m assms(5)] by blast
  ultimately show ?thesis
    using True p2(2-4) by (simp add: be' key_cache_new_def)
qed

definition toy_backend :: SqliteBackend where
  "toy_backend = \<lparr>be_db = toy_db\<lparr>config := [''key'' \<mapsto> Some ''none'']\<rparr>, active_profile = ''p'', key_cache = key_cache_new None\<rparr>"

theorem rekey_keeps_profile_keys_witness:
  "\<exists>be' uri r. rekey toy_env (toy_cbor_env\<lparr>pe_to_cbor := \<lambda>k. if k = toy_profile_key then Some [] else None\<rparr>) (replicate 16 3) []
      (\<lambda>i. replicate 12 4) (DeriveKey (Argon2i Moderate)) (Some ''pass'') toy_backend = (Ok (), be') \<and>
    config (be_db be') ''key'' = Some (Some uri) \<and> store_key_reference_parse_uri uri = Ok r \<and>
    store_key_reference_resolve toy_env r (Some ''pass'') = Ok (cache_store_key (key_cache be'))"
proof -
  let ?P = "toy_cbor_env\<lparr>pe_to_cbor := \<lambda>k. if k = toy_profile_key then Some [] else None\<rparr>"
  obtain r be' where rk: "rekey toy_env ?P (replicate 16 3) [] (\<lambda>i. replicate 12 4) (DeriveKey (Argon2i Moderate)) (Some ''pass'') toy_backend = (r, be')"
    by fastforce
  then have "r = Ok ()"
    by (auto simp: rekey_def toy_backend_def toy_db_def rekey_row_def load_key_def key_cache_new_def unwrap_data_def
      profile_key_from_slice_def toy_cbor_env_def toy_profile_env_def encode_profile_key_def profile_key_to_bytes_def
      store_key_method_resolve_def pass_key_is_none_def kdf_derive_new_key_def argon2_level_derive_key_def argon2_new_def
      SALT_LENGTH_def argon2_derive_key_bytes_def toy_env_def aead_key_from_secret_bytes_def wrap_data_def
      chacha20_encrypt_in_place_def vec_insert_def update_profile_key_def update_config_key_def Let_def)
  moreover have "db_wf (be_db toy_backend)" by (simp add: toy_backend_def toy_db_def db_wf_def)
  ultimately show ?thesis
    using rekey_keeps_profile_keys [OF toy_env_correct _ _ _ _ rk] rk by (auto simp: SALT_LENGTH_def toy_cbor_env_def)
qed

text \<open>
  Changing to a raw store key with a blank pass key succeeds and locks the store: a random key
  is drawn (the blank key that \<open>init_keys\<close> refuses for a new store), it is not returned, and the
  store can afterwards not be opened with the pass key that was given.
\<close>

theorem rekey_blank_raw_key_locks_store:
  assumes "pass_key_is_empty pass_key" and "rekey E P salt rnd nonces RawKey pass_key be = (Ok (), be')"
  shows "cache_store_key (key_cache be') = Some rnd \<and>
    (\<exists>e. open_db E P m pass_key p (be_db be') = Err e) \<and>
    init_keys E P salt rnd nonce k RawKey pass_key = Err (err_msg storage_kind.Input ''Cannot create a store with a blank raw key'')"
proof -
  obtain upd db1 db2 where db2: "update_config_key (store_key_reference_into_uri RefRawKey) db1 = Ok db2"
    and be': "be' = be\<lparr>be_db := db2, key_cache := key_cache_new (Some rnd)\<rparr>"
    using assms by (auto simp: rekey_def store_key_method_resolve_def result_simps split: result.splits)
  have uri: "store_key_reference_parse_uri (store_key_reference_into_uri RefRawKey) = Ok RefRawKey"
    by (rule store_key_reference_uri) simp
  have "config db2 ''key'' = Some (Some (store_key_reference_into_uri RefRawKey))"
    using db2 by (auto simp: update_config_key_def split: if_splits)
  then have key: "config_text ''key'' db2 = Ok (Some (store_key_reference_into_uri RefRawKey))" by (simp add: config_text_def)
  have "\<exists>e. resolve_store_key E m pass_key (Some (store_key_reference_into_uri RefRawKey)) = Err e"
    using assms(1) by (simp add: resolve_store_key_def uri store_key_reference_resolve_def)
  moreover have "config_text n db2 \<noteq> Panic" "check_version db2 \<noteq> Panic" for n
    by (simp_all add: config_text_def check_version_def sqlx_error_def split: option.splits)
  ultimately have "\<exists>e. open_db E P m pass_key p db2 = Err e"
    by (cases "config_text ''default_profile'' db2"; cases "check_version db2"; cases p) (auto simp: open_db_def key ok_or_def split: option.splits)
  with assms(1) show ?thesis by (simp add: be' key_cache_new_def init_keys_def)
qed

theorem rekey_blank_raw_key_locks_store_witness:
  "\<exists>be'. rekey toy_env toy_cbor_env [] (replicate 32 9) (\<lambda>i. replicate 12 4) RawKey None toy_backend = (Ok (), be') \<and>
    (\<exists>e. open_db toy_env toy_cbor_env None None None (be_db be') = Err e)"
proof -
  obtain r be' where rk: "rekey toy_env toy_cbor_env [] (replicate 32 9) (\<lambda>i. replicate 12 4) RawKey None toy_backend = (r, be')"
    by fastforce
  then have r: "r = Ok ()"
    by (auto simp: rekey_def toy_backend_def toy_db_def rekey_row_def load_key_def key_cache_new_def unwrap_data_def
      profile_key_from_slice_def toy_cbor_env_def toy_profile_env_def encode_profile_key_def profile_key_to_bytes_def
      store_key_method_resolve_def pass_key_is_empty_def pass_key_deref_def toy_env_def wrap_data_def
      chacha20_encrypt_in_place_def vec_insert_def update_profile_key_def update_config_key_def Let_def)
  have "pass_key_is_empty None" by (simp add: pass_key_is_empty_def pass_key_deref_def)
  from rekey_blank_raw_key_locks_store [OF this rk [unfolded r]] rk r show ?thesis by blast
qed

section \<open>Removing profiles\<close>

text \<open>
  The key of a removed profile stays in the cache, and its row id is used again: when the last
  profile is removed and another is created, a new session for the removed profile is accepted and
  works, with the old key, on the items of the other profile.
\<close>

theorem removed_profile_session_reaches_new_profile:
  assumes "get_profile (key_cache be) name = Some (pid, key)"
    and "profiles (be_db be) = ps @ [\<lparr>p_id = pid, p_name = name, p_key = enc\<rparr>]"
    and "pid = next_id (map p_id ps)" and "name \<notin> p_name ` set ps" and "new \<notin> p_name ` set ps" and "new \<noteq> name"
    and "remove_profile name be = (r1, be1)"
    and "create_profile E P nonce new_key random_name (Some new) be1 = (Ok new, be2)"
  shows "r1 = Ok True \<and> fst (resolve_profile_key E P name be2) = Ok (pid, key) \<and>
    fst (resolve_profile_key E P new be2) = Ok (pid, new_key) \<and> find_profile name (be_db be2) = None"
proof -
  have other: "p \<in> set ps \<Longrightarrow> p_name p \<noteq> name \<and> p_name p \<noteq> new" for p
    using assms(4,5) by (metis imageI)
  have "filter (\<lambda>p. p_name p = name) ps = []" "filter (\<lambda>p. p_name p \<noteq> name) ps = ps"
    using other by (auto simp: filter_empty_conv filter_id_conv)
  then have r1: "r1 = Ok True" and be1: "profiles (be_db be1) = ps" "key_cache be1 = key_cache be"
    using assms(2,7) by (auto simp: remove_profile_def delete_profile_def Let_def)
  have "be2 = be1\<lparr>be_db := (be_db be1)\<lparr>profiles := ps @ [\<lparr>p_id = pid, p_name = new, p_key = enc2\<rparr>]\<rparr>,
      key_cache := add_profile new pid new_key (key_cache be)\<rparr>"
    if "encode_profile_key E P nonce new_key (cache_store_key (key_cache be)) = Ok enc2" for enc2
    using assms(3,5,8) be1 that by (simp add: create_profile_def insert_profile_def opt_or_def Let_def)
  moreover obtain enc2 where "encode_profile_key E P nonce new_key (cache_store_key (key_cache be)) = Ok enc2"
    using assms(8) be1(2) by (auto simp: create_profile_def Let_def split: result.splits)
  ultimately have be2: "be2 = be1\<lparr>be_db := (be_db be1)\<lparr>profiles := ps @ [\<lparr>p_id = pid, p_name = new, p_key = enc2\<rparr>]\<rparr>,
      key_cache := add_profile new pid new_key (key_cache be)\<rparr>" by blast
  have "find_profile name (be_db be2) = None"
    using other assms(6) by (auto simp: be2 find_profile_def find_None_iff)
  with r1 assms(1,6) show ?thesis
    by (simp add: be2 resolve_profile_key_def get_profile_def add_profile_def)
qed

theorem removed_profile_session_reaches_new_profile_witness:
  "\<exists>be1 be2. remove_profile ''p'' (toy_backend\<lparr>key_cache := add_profile ''p'' 1 toy_profile_key (key_cache_new None)\<rparr>) = (Ok True, be1) \<and>
    create_profile toy_env toy_cbor_env [] (toy_profile_key\<lparr>name_key := [5]\<rparr>) [] (Some ''q'') be1 = (Ok ''q'', be2) \<and>
    fst (resolve_profile_key toy_env toy_cbor_env ''p'' be2) = Ok (1, toy_profile_key)"
proof -
  let ?be = "toy_backend\<lparr>key_cache := add_profile ''p'' 1 toy_profile_key (key_cache_new None)\<rparr>"
  obtain r1 be1 where r: "remove_profile ''p'' ?be = (r1, be1)" by fastforce
  then have "be1 = ?be\<lparr>be_db := (be_db ?be)\<lparr>profiles := []\<rparr>\<rparr>"
    by (auto simp: remove_profile_def delete_profile_def delete_items_def toy_backend_def toy_db_def Let_def)
  then obtain be2 where c: "create_profile toy_env toy_cbor_env [] (toy_profile_key\<lparr>name_key := [5]\<rparr>) [] (Some ''q'') be1 = (Ok ''q'', be2)"
    by (simp add: create_profile_def insert_profile_def encode_profile_key_def profile_key_to_bytes_def toy_cbor_env_def
        toy_profile_env_def wrap_data_def add_profile_def key_cache_new_def opt_or_def Let_def)
  have "r1 = Ok True \<and> fst (resolve_profile_key toy_env toy_cbor_env ''p'' be2) = Ok (1, toy_profile_key) \<and>
    fst (resolve_profile_key toy_env toy_cbor_env ''q'' be2) = Ok (1, toy_profile_key\<lparr>name_key := [5]\<rparr>) \<and> find_profile ''p'' (be_db be2) = None"
    by (rule removed_profile_session_reaches_new_profile [OF _ _ _ _ _ _ r c, where ps = "[]"])
       (simp_all add: get_profile_def add_profile_def toy_backend_def toy_db_def)
  with r c show ?thesis by auto
qed

end
