(* ===== verification/Backend_Session.thy ===== *)
theory Backend_Session
  imports Sqlite_Search Sqlite_Backend
begin

text \<open>
  The traits of \<open>askar-storage/src/backend/mod.rs\<close>: the operations of a session as a record, what its
  users rely on as a locale over the abstract store of \<open>Store_Spec\<close>, and the functions that are
  written once for every backend, the import of a scan and the copy of a profile. The sessions of
  the SQLite backend are shown to keep the contract.
\<close>

section \<open>Operations of a session\<close>

text \<open>
  \<open>BackendSession\<close>. The state \<open>'d\<close> is what the session works on; the time of an operation and the
  random nonce that it draws are explicit. \<open>bs_close\<close> ends the transaction of the session.
\<close>

record 'd session_ops =
  bs_count :: "int \<Rightarrow> EntryKind option \<Rightarrow> string option \<Rightarrow> TagFilter option \<Rightarrow> 'd \<Rightarrow> nat storage_result"
  bs_fetch :: "int \<Rightarrow> EntryKind \<Rightarrow> string \<Rightarrow> string \<Rightarrow> bool \<Rightarrow> 'd \<Rightarrow> Entry option storage_result"
  bs_fetch_all :: "int \<Rightarrow> EntryKind option \<Rightarrow> string option \<Rightarrow> TagFilter option \<Rightarrow> int option \<Rightarrow> OrderBy option
    \<Rightarrow> bool \<Rightarrow> bool \<Rightarrow> 'd \<Rightarrow> Entry list storage_result"
  bs_remove_all :: "EntryKind option \<Rightarrow> string option \<Rightarrow> TagFilter option \<Rightarrow> 'd \<Rightarrow> nat storage_result \<times> 'd"
  bs_update :: "int \<Rightarrow> bytes \<Rightarrow> EntryKind \<Rightarrow> EntryOperation \<Rightarrow> string \<Rightarrow> string \<Rightarrow> bytes option
    \<Rightarrow> EntryTag list option \<Rightarrow> int option \<Rightarrow> 'd \<Rightarrow> unit storage_result \<times> 'd"
  bs_ping :: "'d \<Rightarrow> unit storage_result"
  bs_close :: "bool \<Rightarrow> 'd \<Rightarrow> unit storage_result \<times> 'd"

text \<open>
  \<open>import_scan\<close>: the rows of each page are inserted in turn, without an expiry time. \<open>draw i\<close> are the
  time and the nonce of the \<open>i\<close>-th insertion.
\<close>

fun import_rows :: "'d session_ops \<Rightarrow> (nat \<Rightarrow> int \<times> bytes) \<Rightarrow> nat \<Rightarrow> Entry list \<Rightarrow> 'd \<Rightarrow> unit storage_result \<times> 'd" where
  "import_rows ops draw i [] d = (Ok (), d)"
| "import_rows ops draw i (entry # rows) d =
     (case bs_update ops (fst (draw i)) (snd (draw i)) (entry_kind entry) Insert (entry_category entry) (entry_name entry)
        (Some (entry_value entry)) (Some (entry_tags entry)) None d of
        (Ok _, d) \<Rightarrow> import_rows ops draw (Suc i) rows d
      | (r, d) \<Rightarrow> (r, d))"

function import_scan :: "'d session_ops \<Rightarrow> (nat \<Rightarrow> int \<times> bytes) \<Rightarrow> nat \<Rightarrow> Entry Scan \<Rightarrow> 'd \<Rightarrow> unit storage_result \<times> 'd" where
  "import_scan ops draw i scan d =
     (case fetch_next scan of
        (Ok (Some rows), scan) \<Rightarrow>
          (case import_rows ops draw i rows d of
             (Ok _, d) \<Rightarrow> import_scan ops draw (i + length rows) scan d
           | (r, d) \<Rightarrow> (r, d))
      | (Ok None, scan) \<Rightarrow> (Ok (), d)
      | (Err e, scan) \<Rightarrow> (Err e, d)
      | (Panic, scan) \<Rightarrow> (Panic, d))"
  by pat_completeness auto

termination
  by (relation "measure (\<lambda>(ops, draw, i, scan, d). scan_measure scan)") (auto dest: fetch_next_measure [OF sym])

declare import_scan.simps [simp del]

section \<open>Operations of a backend\<close>

text \<open>\<open>Backend\<close>. A session works on the state \<open>'b\<close> of its backend.\<close>

record 'b backend_ops =
  bk_create_profile :: "string option \<Rightarrow> 'b \<Rightarrow> string storage_result \<times> 'b"
  bk_scan :: "int \<Rightarrow> string option \<Rightarrow> EntryKind option \<Rightarrow> string option \<Rightarrow> TagFilter option \<Rightarrow> int option \<Rightarrow> int option
    \<Rightarrow> OrderBy option \<Rightarrow> bool \<Rightarrow> 'b \<Rightarrow> Entry Scan storage_result \<times> 'b"
  bk_session :: "string option \<Rightarrow> bool \<Rightarrow> 'b \<Rightarrow> 'b session_ops storage_result \<times> 'b"
  bk_get_active_profile :: "'b \<Rightarrow> string"
  bk_get_default_profile :: "'b \<Rightarrow> string storage_result"
  bk_set_default_profile :: "string \<Rightarrow> 'b \<Rightarrow> unit storage_result \<times> 'b"
  bk_list_profiles :: "'b \<Rightarrow> string list storage_result"
  bk_remove_profile :: "string \<Rightarrow> 'b \<Rightarrow> bool storage_result \<times> 'b"
  bk_rekey :: "StoreKeyMethod \<Rightarrow> PassKey \<Rightarrow> 'b \<Rightarrow> unit storage_result \<times> 'b"
  bk_close :: "'b \<Rightarrow> unit storage_result \<times> 'b"

text \<open>
  \<open>copy_profile\<close>. A session that is dropped before it is closed rolls its transaction back: the
  target is then as it was when the session began.
\<close>

definition copy_into :: "int \<Rightarrow> (nat \<Rightarrow> int \<times> bytes) \<Rightarrow> 'b session_ops \<Rightarrow> Entry Scan \<Rightarrow> 'b \<Rightarrow> unit storage_result \<times> 'b" where
  "copy_into now draw txn scan b =
     (case bs_count txn now None None None b of
        Ok n \<Rightarrow>
          if n > 0 then (Err (err_msg storage_kind.Input ''Profile targeted for import is not empty''), b)
          else
            (case import_scan txn draw 0 scan b of
               (Ok _, b') \<Rightarrow> bs_close txn True b'
             | (r, b') \<Rightarrow> (r, b))
      | Err e \<Rightarrow> (Err e, b)
      | Panic \<Rightarrow> (Panic, b))"

definition ignore_duplicate :: "'x storage_result \<Rightarrow> unit storage_result" where
  "ignore_duplicate r =
     (case r of
        Ok _ \<Rightarrow> Ok ()
      | Err e \<Rightarrow> if err_kind e \<noteq> storage_kind.Duplicate then Err e else Ok ()
      | Panic \<Rightarrow> Panic)"

definition copy_profile :: "'a backend_ops \<Rightarrow> 'b backend_ops \<Rightarrow> int \<Rightarrow> (nat \<Rightarrow> int \<times> bytes) \<Rightarrow> string \<Rightarrow> string \<Rightarrow> 'a \<Rightarrow> 'b
    \<Rightarrow> unit storage_result \<times> 'a \<times> 'b" where
  "copy_profile A B now draw from_profile to_profile a b =
     (case bk_scan A now (Some from_profile) None None None None None None False a of
        (Ok scan, a) \<Rightarrow>
          (let (created, b) = bk_create_profile B (Some to_profile) b in
           (case ignore_duplicate created of
              Ok _ \<Rightarrow>
                (case bk_session B (Some to_profile) True b of
                   (Ok txn, b) \<Rightarrow> (let (r, b) = copy_into now draw txn scan b in (r, a, b))
                 | (Err e, b) \<Rightarrow> (Err e, a, b)
                 | (Panic, b) \<Rightarrow> (Panic, a, b))
            | Err e \<Rightarrow> (Err e, a, b)
            | Panic \<Rightarrow> (Panic, a, b)))
      | (Err e, a) \<Rightarrow> (Err e, a, b)
      | (Panic, a) \<Rightarrow> (Panic, a, b))"

text \<open>
  \<open>copy_store\<close>: \<open>make_target\<close> provisions the target with the given default profile. The operations of the target
  and the draws are given for each profile, since each new profile draws a key of its own.
\<close>

fun copy_profiles :: "'a backend_ops \<Rightarrow> (string \<Rightarrow> 'b backend_ops) \<Rightarrow> int \<Rightarrow> (string \<Rightarrow> nat \<Rightarrow> int \<times> bytes) \<Rightarrow> string list \<Rightarrow> 'a \<Rightarrow> 'b
    \<Rightarrow> unit storage_result \<times> 'a \<times> 'b" where
  "copy_profiles A B now draw [] a b = (Ok (), a, b)"
| "copy_profiles A B now draw (profile # rest) a b =
     (case copy_profile A (B profile) now (draw profile) profile profile a b of
        (Ok _, a, b) \<Rightarrow> copy_profiles A B now draw rest a b
      | (r, a, b) \<Rightarrow> (r, a, b))"

definition copy_store :: "'a backend_ops \<Rightarrow> (string \<Rightarrow> 'b backend_ops) \<Rightarrow> (string option \<Rightarrow> 'b storage_result) \<Rightarrow> int
    \<Rightarrow> (string \<Rightarrow> nat \<Rightarrow> int \<times> bytes) \<Rightarrow> 'a \<Rightarrow> 'b storage_result \<times> 'a" where
  "copy_store A B make_target now draw a =
     (case res_bind (bk_get_default_profile A a) (\<lambda>default_profile.
           res_bind (bk_list_profiles A a) (\<lambda>profile_ids.
           res_map (Pair profile_ids) (make_target (Some default_profile)))) of
        Ok (profile_ids, target) \<Rightarrow>
          (case copy_profiles A B now draw profile_ids a target of
             (Ok _, a, target) \<Rightarrow> (Ok target, a)
           | (Err e, a, target) \<Rightarrow> (Err e, a)
           | (Panic, a, target) \<Rightarrow> (Panic, a))
      | Err e \<Rightarrow> (Err e, a)
      | Panic \<Rightarrow> (Panic, a))"

section \<open>Importing page by page\<close>

lemma import_rows_append:
  "import_rows ops draw i (xs @ ys) d =
    (case import_rows ops draw i xs d of (Ok _, d) \<Rightarrow> import_rows ops draw (i + length xs) ys d | (r, d) \<Rightarrow> (r, d))"
  by (induction xs arbitrary: i d) (auto split: prod.splits result.splits)

text \<open>The pages make no difference: the import of a scan inserts the rows that the scan delivers.\<close>

lemma import_scan_rows:
  "scan_all scan = Ok rows \<Longrightarrow> import_scan ops draw i scan d = import_rows ops draw i rows d"
proof (induction ops draw i scan d arbitrary: rows rule: import_scan.induct)
  case (1 ops draw i scan d)
  show ?case
  proof (cases "fetch_next scan")
    case (Pair r scan')
    show ?thesis
    proof (cases r)
      case (Ok page)
      show ?thesis
      proof (cases page)
        case None
        with Pair Ok 1(2) have "rows = []" by (simp add: scan_all.simps)
        with Pair Ok None show ?thesis by (simp add: import_scan.simps)
      next
        case (Some p)
        with Pair Ok 1(2) obtain rest where rest: "scan_all scan' = Ok rest" "rows = p @ rest"
          by (auto simp: scan_all.simps [of scan] result_simps)
        have "import_scan ops draw (i + length p) scan' d' = import_rows ops draw (i + length p) rest d'"
          if "import_rows ops draw i p d = (Ok u, d')" for u d'
          using 1(1) [OF Pair [symmetric] Ok Some that [symmetric] refl rest(1)] by simp
        with Pair Ok Some rest(2) show ?thesis
          by (subst import_scan.simps) (auto simp: import_rows_append split: prod.splits result.splits)
      qed
    qed (use Pair 1(2) in \<open>simp_all add: scan_all.simps\<close>)
  qed
qed

section \<open>The contract of a session\<close>

text \<open>
  \<open>rel\<close> says that a state holds the given entries. An entry is \<open>storable\<close> under a nonce, a key can be
  \<open>addressed\<close> and a search be \<open>posed\<close> if they can be encrypted; then the operations are those of the
  specification. \<open>expiry\<close> is the expiry time for a lifetime in milliseconds,
  and \<open>lives\<close> says whether an expiry time lies ahead of the time of the operation.
\<close>

locale session_contract =
  fixes ops :: "'d session_ops"
    and rel :: "'d \<Rightarrow> stored list \<Rightarrow> bool"
    and storable :: "bytes \<Rightarrow> Entry \<Rightarrow> bool"
    and addressed :: "string \<Rightarrow> string \<Rightarrow> bool"
    and posed :: "EntryKind option \<Rightarrow> string option \<Rightarrow> TagFilter option \<Rightarrow> int option \<Rightarrow> OrderBy option \<Rightarrow> bool \<Rightarrow> bool"
    and expiry :: "int \<Rightarrow> int option \<Rightarrow> int option storage_result"
    and like :: "bytes \<Rightarrow> bytes \<Rightarrow> bool"
    and lives :: "int \<Rightarrow> int option \<Rightarrow> bool"
  assumes update_law: "rel d st \<Longrightarrow> operation \<noteq> Remove \<Longrightarrow> storable nonce (update_entry kind c n v tags) \<Longrightarrow>
      expiry now ms = Ok x \<Longrightarrow> spec_update operation (update_entry kind c n v tags, x) st = (r, st') \<Longrightarrow>
      \<exists>d'. bs_update ops now nonce kind operation c n v tags ms d = (r, d') \<and> rel d' st'"
    and remove_law: "rel d st \<Longrightarrow> addressed c n \<Longrightarrow> spec_remove (kind, c, n) st = (r, st') \<Longrightarrow>
      \<exists>d'. bs_update ops now nonce kind Remove c n v tags ms d = (r, d') \<and> rel d' st'"
    and fetch_law: "rel d st \<Longrightarrow> addressed c n \<Longrightarrow> bs_fetch ops now kind c n for_update d = Ok (spec_fetch (lives now) (kind, c, n) st)"
    and fetch_all_law: "rel d st \<Longrightarrow> posed kinds cat f limit order_by descending \<Longrightarrow>
      \<exists>es. mset es = mset (spec_select like (lives now) kinds cat (filter_tag_query f) st) \<and>
        bs_fetch_all ops now kinds cat f limit order_by descending for_update d = Ok (limit_rows None limit es)"
    and count_law: "rel d st \<Longrightarrow> posed kinds cat f None None False \<Longrightarrow>
      bs_count ops now kinds cat f d = Ok (length (spec_select like (lives now) kinds cat (filter_tag_query f) st))"
    and remove_all_law: "rel d st \<Longrightarrow> posed kinds cat f None None False \<Longrightarrow>
      spec_remove_all like kinds cat (filter_tag_query f) st = (k, st') \<Longrightarrow>
      \<exists>d'. bs_remove_all ops kinds cat f d = (Ok k, d') \<and> rel d' st'"
    and expiry_none: "expiry now None = Ok None"
    and lives_none: "lives now None"
    and update_cases: "rel d st \<Longrightarrow> valid_entry (update_entry kind c n v tags) \<Longrightarrow>
      bs_update ops now nonce kind operation c n v tags ms d = (r, d') \<Longrightarrow>
      r \<noteq> Ok () \<and> d' = d \<or> (\<exists>x. r = fst (spec_update operation (update_entry kind c n v tags, x) st) \<and>
        rel d' (snd (spec_update operation (update_entry kind c n v tags, x) st)))"
    and stored_law: "bs_update ops now nonce kind operation c n v tags ms d = (Ok (), d') \<Longrightarrow> operation \<noteq> Remove \<Longrightarrow>
      valid_entry (update_entry kind c n v tags) \<Longrightarrow>
      storable nonce (update_entry kind c n v tags) \<and> (\<exists>x. expiry now ms = Ok x)"
    and addressed_law: "storable nonce e \<Longrightarrow> addressed (entry_category e) (entry_name e)"
    and entries_valid: "rel d st \<Longrightarrow> s \<in> set st \<Longrightarrow> valid_entry (fst s)"
begin

text \<open>Rows that are new to the store are appended to it, in their order, and never expire.\<close>

lemma import_rows_appends:
  assumes "rel d st" and "distinct (map entry_key rows)" and "list_all (\<lambda>e. \<not> spec_has (entry_key e) st) rows"
    and "\<And>j. j < length rows \<Longrightarrow> storable (snd (draw (i + j))) (rows ! j)"
  shows "\<exists>d'. import_rows ops draw i rows d = (Ok (), d') \<and> rel d' (st @ map (\<lambda>e. (e, None)) rows)"
  using assms
proof (induction rows arbitrary: i d st)
  case (Cons e rows)
  have upd: "update_entry (entry_kind e) (entry_category e) (entry_name e) (Some (entry_value e)) (Some (entry_tags e)) = e"
    by (simp add: update_entry_def opt_or_def)
  have "spec_update Insert (e, None) st = (Ok (), st @ [(e, None)])"
    using Cons.prems(3) by (simp add: spec_update_def spec_insert_def)
  moreover have "storable (snd (draw i)) e" using Cons.prems(4) [of 0] by simp
  ultimately obtain d1 where d1: "bs_update ops (fst (draw i)) (snd (draw i)) (entry_kind e) Insert (entry_category e) (entry_name e)
      (Some (entry_value e)) (Some (entry_tags e)) None d = (Ok (), d1)" "rel d1 (st @ [(e, None)])"
    using update_law [OF Cons.prems(1) _ _ expiry_none, of Insert "snd (draw i)" "entry_kind e" "entry_category e" "entry_name e"
        "Some (entry_value e)" "Some (entry_tags e)" "Ok ()" "st @ [(e, None)]" "fst (draw i)"] by (auto simp: upd)
  have "list_all (\<lambda>e'. \<not> spec_has (entry_key e') (st @ [(e, None)])) rows"
    using Cons.prems(2,3) by (auto simp: list_all_iff spec_has_def)
  moreover have "storable (snd (draw (Suc i + j))) (rows ! j)" if "j < length rows" for j
    using Cons.prems(4) [of "Suc j"] that by simp
  ultimately show ?case using Cons.IH [OF d1(2), of "Suc i"] Cons.prems(2) d1(1) by simp
qed simp

end

section \<open>The sessions of the SQLite backend\<close>

text \<open>
  A session on a database, given the outcome of the acquisition of its key, whether it is in a
  transaction, and the outcome of the end of the transaction.
\<close>

definition sqlite_session_ops :: "sqlite_env \<Rightarrow> acquired \<Rightarrow> bool \<Rightarrow> unit storage_result \<Rightarrow> Database session_ops" where
  "sqlite_session_ops env acquired in_txn closed =
     \<lparr>bs_count = (\<lambda>now kind category tag_filter db. sqlite_count env now acquired kind category tag_filter db),
      bs_fetch = (\<lambda>now kind category name for_update db. sqlite_fetch env now acquired kind category name db),
      bs_fetch_all = (\<lambda>now kind category tag_filter limit order_by descending for_update db.
        sqlite_fetch_all env now acquired kind category tag_filter limit order_by descending db),
      bs_remove_all = (\<lambda>kind category tag_filter db. sqlite_remove_all env acquired kind category tag_filter db),
      bs_update = (\<lambda>now nonce kind operation category name value tags expiry_ms db.
        sqlite_update env now acquired in_txn nonce kind operation category name value tags expiry_ms db),
      bs_ping = (\<lambda>db. ping acquired db),
      bs_close = (\<lambda>commit db. (closed, db))\<rparr>"

definition sqlite_storable :: "sqlite_env \<Rightarrow> ProfileKey \<Rightarrow> bytes \<Rightarrow> Entry \<Rightarrow> bool" where
  "sqlite_storable env key nonce e \<longleftrightarrow> valid_entry e \<and>
     (\<exists>enc. encrypt_update (key_encryptor env key) nonce (entry_category e) (entry_name e) (entry_value e) (Some (entry_tags e)) = Ok enc)"

definition sqlite_addressed :: "sqlite_env \<Rightarrow> ProfileKey \<Rightarrow> string \<Rightarrow> string \<Rightarrow> bool" where
  "sqlite_addressed env key c n \<longleftrightarrow> valid_str c \<and> valid_str n \<and>
     (\<exists>ec. ee_category (key_encryptor env key) (as_bytes c) = Ok ec) \<and> (\<exists>en. ee_name (key_encryptor env key) (as_bytes n) = Ok en)"

definition sqlite_posed :: "sqlite_env \<Rightarrow> int \<Rightarrow> ProfileKey \<Rightarrow> EntryKind option \<Rightarrow> string option \<Rightarrow> TagFilter option \<Rightarrow> int option
    \<Rightarrow> OrderBy option \<Rightarrow> bool \<Rightarrow> bool" where
  "sqlite_posed env pid key kind c f limit order_by descending \<longleftrightarrow>
     (\<forall>s. c = Some s \<longrightarrow> valid_str s) \<and> filter_exact f \<and>
     (\<forall>base. \<exists>sr. prepare_search env pid key base kind c f None limit order_by descending = Ok sr)"

definition sqlite_holds :: "sqlite_env \<Rightarrow> ProfileKey \<Rightarrow> int \<Rightarrow> Database \<Rightarrow> stored list \<Rightarrow> bool" where
  "sqlite_holds env key pid db st \<longleftrightarrow> sqlite_env_correct env \<and> represents (key_encryptor env key) pid db st"

lemma encrypt_update_tags:
  assumes "encrypt_update (key_encryptor env key) nonce c n v (Some (opt_or tags [])) = Ok enc"
  shows "\<exists>enc. encrypt_update (key_encryptor env key) nonce c n v tags = Ok enc"
  using assms by (cases tags) (auto simp: encrypt_update_def opt_or_def result_simps)

interpretation sqlite_session: session_contract "sqlite_session_ops env (Ok (pid, key)) in_txn closed" "sqlite_holds env key pid"
    "sqlite_storable env key" "sqlite_addressed env key" "sqlite_posed env pid key" "opt_expiry env" "se_like env" unexpired
  for env pid key in_txn closed
proof (unfold_locales, goal_cases)
  case (1 d st operation nonce kind c n v tags now ms x r st')
  let ?e = "update_entry kind c n v tags"
  have v: "valid_entry ?e" "\<exists>enc. encrypt_update (key_encryptor env key) nonce c n (opt_or v []) tags = Ok enc"
    using 1(3) encrypt_update_tags by (auto simp: sqlite_storable_def update_entry_def)
  with sqlite_update_sim [OF _ _ refl v(1) _ 1(4) prod.collapse [symmetric], of key pid d st nonce _ in_txn operation] 1(1,5)
  show ?case by (auto simp: sqlite_session_ops_def sqlite_holds_def prod_eq_iff)
next
  case (2 d st c n kind r st' now nonce v tags ms)
  with sqlite_remove_sim [OF _ _ _ _ _ _ prod.collapse [symmetric], of env key pid d st c n]
  show ?case by (auto simp: sqlite_session_ops_def sqlite_holds_def sqlite_addressed_def prod_eq_iff)
next
  case (3 d st c n now kind for_update)
  with sqlite_fetch_sim show ?case by (auto simp: sqlite_session_ops_def sqlite_holds_def sqlite_addressed_def)
next
  case (4 d st kinds cat f limit order_by descending now for_update)
  then have h: "sqlite_env_correct env" "represents (key_encryptor env key) pid d st" "\<forall>c. cat = Some c \<longrightarrow> valid_str c" "filter_exact f"
    "\<exists>sr. prepare_search env pid key SCAN_QUERY kinds cat f None limit order_by descending = Ok sr"
    by (simp_all add: sqlite_holds_def sqlite_posed_def)
  then obtain sr where sr: "prepare_search env pid key SCAN_QUERY kinds cat f None limit order_by descending = Ok sr" by blast
  obtain es where "mset es = mset (spec_select (se_like env) (unexpired now) kinds cat (filter_tag_query f) st)"
    "sqlite_fetch_all env now (Ok (pid, key)) kinds cat f limit order_by descending d = Ok (limit_rows None limit es)"
    using sqlite_fetch_all_sim [OF h(1-4) sr, of now] by blast
  then show ?case by (auto simp: sqlite_session_ops_def)
next
  case (5 d st kinds cat f now)
  then obtain sr where "prepare_search env pid key COUNT_QUERY kinds cat f None None None False = Ok sr"
    by (auto simp: sqlite_posed_def)
  from sqlite_count_sim [OF _ _ _ _ this, of d st now] 5 show ?case
    by (simp add: sqlite_session_ops_def sqlite_holds_def sqlite_posed_def)
next
  case (6 d st kinds cat f k st')
  then obtain sr where "prepare_search env pid key DELETE_ALL_QUERY kinds cat f None None None False = Ok sr"
    by (auto simp: sqlite_posed_def)
  from sqlite_remove_all_sim [OF _ _ _ _ this refl, of d st] 6 show ?case
    by (simp add: sqlite_session_ops_def sqlite_holds_def sqlite_posed_def)
next
  case (7 now)
  show ?case by (simp add: opt_expiry_def)
next
  case (8 now)
  show ?case by (simp add: unexpired_def)
next
  case (9 d st kind c n v tags now nonce operation ms r d')
  with sqlite_update_cases [OF _ _ refl, of env key pid d st kind c n v tags now in_txn nonce operation ms r d'] show ?case
    by (simp add: sqlite_session_ops_def sqlite_holds_def)
next
  case (10 now nonce kind operation c n v tags ms d d')
  note u = sqlite_update_OkD [OF _ 10(2), of env now pid key in_txn nonce kind c n v tags ms d d']
  have "\<exists>enc. encrypt_update (key_encryptor env key) nonce c n (opt_or v []) (Some (opt_or tags [])) = Ok enc"
    using u(1) 10(1) by (cases tags) (auto simp: sqlite_session_ops_def encrypt_update_def opt_or_def result_simps profile_encryptor_def)
  with u(2) 10(1,3) show ?case by (auto simp: sqlite_session_ops_def sqlite_storable_def update_entry_def opt_or_def)
next
  case (11 nonce e)
  then show ?case by (auto simp: sqlite_storable_def sqlite_addressed_def valid_entry_def encrypt_update_def result_simps)
next
  case (12 d st s)
  then have "list_all2 (row_of (key_encryptor env key) d) (profile_items pid d) st" by (simp add: sqlite_holds_def represents_def)
  with 12(2) show ?case by (auto simp: in_set_conv_nth list_all2_conv_all_nth row_of_def Let_def)
qed

section \<open>The SQLite backend\<close>

text \<open>The operations of a session on the database, as operations on the backend.\<close>

definition on_backend :: "Database session_ops \<Rightarrow> SqliteBackend session_ops" where
  "on_backend ops =
     \<lparr>bs_count = (\<lambda>now kind category tag_filter be. bs_count ops now kind category tag_filter (be_db be)),
      bs_fetch = (\<lambda>now kind category name for_update be. bs_fetch ops now kind category name for_update (be_db be)),
      bs_fetch_all = (\<lambda>now kind category tag_filter limit order_by descending for_update be.
        bs_fetch_all ops now kind category tag_filter limit order_by descending for_update (be_db be)),
      bs_remove_all = (\<lambda>kind category tag_filter be.
        map_prod id (\<lambda>db. be\<lparr>be_db := db\<rparr>) (bs_remove_all ops kind category tag_filter (be_db be))),
      bs_update = (\<lambda>now nonce kind operation category name value tags expiry_ms be.
        map_prod id (\<lambda>db. be\<lparr>be_db := db\<rparr>) (bs_update ops now nonce kind operation category name value tags expiry_ms (be_db be))),
      bs_ping = (\<lambda>be. bs_ping ops (be_db be)),
      bs_close = (\<lambda>commit be. map_prod id (\<lambda>db. be\<lparr>be_db := db\<rparr>) (bs_close ops commit (be_db be)))\<rparr>"

text \<open>
  \<open>session\<close> of the backend; the key of the profile, which the first operation of the session acquires,
  is acquired here.
\<close>

definition sqlite_backend_session :: "store_key_env \<Rightarrow> sqlite_env \<Rightarrow> unit storage_result \<Rightarrow> string option \<Rightarrow> bool \<Rightarrow> SqliteBackend
    \<Rightarrow> SqliteBackend session_ops storage_result \<times> SqliteBackend" where
  "sqlite_backend_session E env closed profile transaction be =
     (case resolve_profile_key E (se_profile env) (opt_or profile (active_profile be)) be of
        (Ok acquired, be) \<Rightarrow> (Ok (on_backend (sqlite_session_ops env (Ok acquired) transaction closed)), be)
      | (Err e, be) \<Rightarrow> (Err e, be)
      | (Panic, be) \<Rightarrow> (Panic, be))"

definition sqlite_backend_scan :: "store_key_env \<Rightarrow> sqlite_env \<Rightarrow> int \<Rightarrow> string option \<Rightarrow> EntryKind option \<Rightarrow> string option
    \<Rightarrow> TagFilter option \<Rightarrow> int option \<Rightarrow> int option \<Rightarrow> OrderBy option \<Rightarrow> bool \<Rightarrow> SqliteBackend
    \<Rightarrow> Entry Scan storage_result \<times> SqliteBackend" where
  "sqlite_backend_scan E env now profile kind category tag_filter offset limit order_by descending be =
     (let (acquired, be) = resolve_profile_key E (se_profile env) (opt_or profile (active_profile be)) be
      in (sqlite_scan env now acquired kind category tag_filter offset limit order_by descending (be_db be), be))"

text \<open>
  \<open>nonce\<close>, \<open>new_key\<close> and \<open>random_name\<close> are drawn by the creation of a profile, \<open>rk\<close> are the salt, the random
  key and the nonces drawn by a change of the store key. Closing closes the pool of connections.
\<close>

definition sqlite_backend_ops :: "store_key_env \<Rightarrow> sqlite_env \<Rightarrow> unit storage_result \<Rightarrow> bytes \<times> bytes \<times> (int \<Rightarrow> bytes)
    \<Rightarrow> bytes \<Rightarrow> ProfileKey \<Rightarrow> string \<Rightarrow> SqliteBackend backend_ops" where
  "sqlite_backend_ops E env closed rk nonce new_key random_name =
     \<lparr>bk_create_profile = create_profile E (se_profile env) nonce new_key random_name,
      bk_scan = sqlite_backend_scan E env,
      bk_session = sqlite_backend_session E env closed,
      bk_get_active_profile = active_profile,
      bk_get_default_profile = get_default_profile,
      bk_set_default_profile = set_default_profile,
      bk_list_profiles = list_profiles,
      bk_remove_profile = remove_profile,
      bk_rekey = (case rk of (salt, rnd, nonces) \<Rightarrow> rekey E (se_profile env) salt rnd nonces),
      bk_close = (\<lambda>be. (Ok (), be))\<rparr>"

lemma on_backend_simps [simp]:
  "bs_count (on_backend ops) now kind category tag_filter be = bs_count ops now kind category tag_filter (be_db be)"
  "bs_close (on_backend ops) commit be = map_prod id (\<lambda>db. be\<lparr>be_db := db\<rparr>) (bs_close ops commit (be_db be))"
  "bs_close (sqlite_session_ops env acquired in_txn closed) commit db = (closed, db)"
  by (simp_all add: on_backend_def sqlite_session_ops_def)

lemma import_rows_on_backend:
  "import_rows (on_backend ops) draw i rows be = map_prod id (\<lambda>db. be\<lparr>be_db := db\<rparr>) (import_rows ops draw i rows (be_db be))"
proof (induction rows arbitrary: i be)
  case (Cons e rows)
  show ?case
    by (cases "bs_update ops (fst (draw i)) (snd (draw i)) (entry_kind e) Insert (entry_category e) (entry_name e)
          (Some (entry_value e)) (Some (entry_tags e)) None (be_db be)" rule: prod.exhaust)
      (auto simp: on_backend_def Cons.IH [unfolded on_backend_def] split: result.splits)
qed simp

lemma prepare_search_all: "\<exists>sr. prepare_search env pid key base kind None None None None None descending = Ok sr"
proof -
  obtain q p where "extend_query sqlite_prepare base (params_push (opt_blob None)
      (params_push (opt_int (map_option (\<lambda>k. int (entry_kind_num k)) kind)) (params_push (ArgInt pid) params_new))) None None None None descending = Ok (q, p)"
    using extend_query_plain by blast
  then show ?thesis
    by (simp add: prepare_search_def prepare_search_with_def Let_def encrypt_category_def encode_tag_filter_def filter_condition_def)
qed

lemma sqlite_posed_all: "sqlite_posed env pid key None None None None None False"
  using prepare_search_all by (simp add: sqlite_posed_def filter_exact_def filter_tag_query_def)

text \<open>A profile that was just created is empty, and its key is the new one.\<close>

lemma created_profile_empty:
  assumes "db_wf (be_db be)" "sqlite_env_correct env"
    and "create_profile E (se_profile env) nonce new_key random_name (Some name) be = (Ok name', be')"
  shows "\<exists>pid. resolve_profile_key E (se_profile env) name be' = (Ok (pid, new_key), be') \<and> sqlite_holds env new_key pid (be_db be') []"
proof -
  obtain enc pid db where i: "insert_profile name enc (be_db be) = (Some pid, db)"
    and be': "be' = be\<lparr>be_db := db, key_cache := add_profile name pid new_key (key_cache be)\<rparr>"
    using assms(3) by (auto simp: create_profile_def opt_or_def split: result.splits prod.splits option.splits)
  have db: "items db = items (be_db be)" "profiles db = profiles (be_db be) @ [\<lparr>p_id = pid, p_name = name, p_key = enc\<rparr>]"
    "pid = next_id (map p_id (profiles (be_db be)))"
    using i by (auto simp: insert_profile_def Let_def split: if_splits)
  have "i_profile r \<noteq> pid" if "r \<in> set (items db)" for r
  proof -
    have "i_profile r \<in> set (map p_id (profiles (be_db be)))" using assms(1) that by (simp add: db_wf_def db)
    then show ?thesis using next_id_fresh [of "map p_id (profiles (be_db be))"] db(3) by metis
  qed
  then have "profile_items pid db = []" by (auto simp: profile_items_def filter_empty_conv)
  then have "sqlite_holds env new_key pid db []"
    using assms(2) insert_profile_wf [OF assms(1) i] by (simp add: sqlite_holds_def represents_def db)
  then show ?thesis by (auto simp: be' resolve_profile_key_def get_profile_def add_profile_def)
qed

text \<open>The keys of the entries of a profile are distinct, as those of its rows are.\<close>

lemma represents_spec_wf:
  assumes "represents X pid db st"
  shows "spec_wf st"
proof -
  let ?f = "\<lambda>(k, c, n). (pid, entry_kind_num k, case ee_category X (as_bytes c) of Ok e \<Rightarrow> e, case ee_name X (as_bytes n) of Ok e \<Rightarrow> e)"
  have "list_all2 (row_of X db) (profile_items pid db) st" "db_wf db" using assms by (simp_all add: represents_def)
  moreover have "\<forall>r \<in> set (profile_items pid db). i_profile r = pid" by (simp add: profile_items_def)
  ultimately have "map item_key (profile_items pid db) = map ?f (map (entry_key \<circ> fst) st)"
    by (induction rule: list_all2_induct) (auto simp: row_of_def Let_def item_key_def entry_key_def)
  moreover have "distinct (map item_key (profile_items pid db))"
    using \<open>db_wf db\<close> by (simp add: profile_items_def db_wf_def distinct_map_filter)
  ultimately have "distinct (map ?f (map (entry_key \<circ> fst) st))" by simp
  then show ?thesis unfolding spec_wf_def using distinct_map by blast
qed

lemma spec_select_distinct: "spec_wf st \<Longrightarrow> mset es = mset (spec_select like (unexpired now) kind c q st) \<Longrightarrow> distinct (map entry_key es)"
proof -
  assume "spec_wf st" and es: "mset es = mset (spec_select like (unexpired now) kind c q st)"
  then have "distinct (map entry_key (spec_select like (unexpired now) kind c q st))"
    by (simp add: spec_wf_def spec_select_def distinct_map_filter)
  moreover have "mset (map entry_key es) = mset (map entry_key (spec_select like (unexpired now) kind c q st))" using es by simp
  ultimately show "distinct (map entry_key es)" by (metis mset_eq_imp_distinct_iff)
qed

text \<open>
  C17. Copying a profile of one store into a new profile of another transfers exactly the entries that
  have not expired, of both kinds, with their values and tags, and nothing else; no copy has an
  expiry time, even where its original has one.
\<close>

theorem copy_profile_copies_entries:
  assumes "sqlite_env_correct envA" and "sqlite_env_correct envB"
    and "resolve_profile_key EA (se_profile envA) from_profile a = (Ok (pidA, keyA), a')"
    and "represents (key_encryptor envA keyA) pidA (be_db a') st"
    and "db_wf (be_db b)" and "create_profile EB (se_profile envB) nonce new_key random_name (Some to_profile) b = (Ok name, b')"
    and "\<forall>i. \<forall>s \<in> set st. sqlite_storable envB new_key (snd (draw i)) (fst s)"
  shows "\<exists>pid es b''. mset es = mset (map fst (filter (visible (unexpired now)) st)) \<and>
    copy_profile (sqlite_backend_ops EA envA (Ok ()) rkA nonceA keyA' nameA) (sqlite_backend_ops EB envB (Ok ()) rk nonce new_key random_name)
      now draw from_profile to_profile a b = (Ok (), a', b'') \<and>
    resolve_profile_key EB (se_profile envB) to_profile b'' = (Ok (pid, new_key), b'') \<and>
    represents (key_encryptor envB new_key) pid (be_db b'') (map (\<lambda>e. (e, None)) es)"
proof -
  obtain sr where sr: "prepare_search envA pidA keyA SCAN_QUERY None None None None None None False = Ok sr"
    using prepare_search_all by blast
  have sel: "spec_select like (unexpired now) None None None st = map fst (filter (visible (unexpired now)) st)" for like
    by (simp add: spec_select_def spec_matches_def)
  obtain es scan where es: "mset es = mset (map fst (filter (visible (unexpired now)) st))"
    and scan: "sqlite_scan envA now (Ok (pidA, keyA)) None None None None None None False (be_db a') = Ok scan" "scan_all scan = Ok es"
    using sqlite_scan_sim [OF assms(1,4) _ _ sr refl, of now]
    by (auto simp: sel filter_exact_def filter_tag_query_def limit_rows_def opt_or_def)
  obtain pid where pid: "resolve_profile_key EB (se_profile envB) to_profile b' = (Ok (pid, new_key), b')"
    and empty: "sqlite_holds envB new_key pid (be_db b') []"
    using created_profile_empty [OF assms(5,2,6)] by blast
  let ?ops = "sqlite_session_ops envB (Ok (pid, new_key)) True (Ok ())"
  have "set es \<subseteq> fst ` set st" using es by (metis (no_types, lifting) filter_is_subset image_mono set_map set_mset_mset)
  have st: "sqlite_storable envB new_key (snd (draw (0 + j))) (es ! j)" if "j < length es" for j
  proof -
    have "es ! j \<in> fst ` set st" using \<open>set es \<subseteq> fst ` set st\<close> nth_mem [OF that] by (rule subsetD)
    then obtain s where "s \<in> set st" "es ! j = fst s" by blast
    then show ?thesis using assms(7) by simp
  qed
  have "distinct (map entry_key es)"
    using spec_select_distinct [OF represents_spec_wf [OF assms(4)]] es sel [symmetric] by metis
  then obtain db where db: "import_rows ?ops draw 0 es (be_db b') = (Ok (), db)" "sqlite_holds envB new_key pid db (map (\<lambda>e. (e, None)) es)"
    using sqlite_session.import_rows_appends [OF empty _ _ st, of True "Ok ()"] by (auto simp: spec_has_def list_all_iff)
  have "bs_count ?ops now None None None (be_db b') = Ok 0"
    using sqlite_session.count_law [OF empty sqlite_posed_all] by (simp add: spec_select_def)
  with db have into: "copy_into now draw (on_backend ?ops) scan b' = (Ok (), b'\<lparr>be_db := db\<rparr>)"
    by (simp add: copy_into_def import_scan_rows [OF scan(2)] import_rows_on_backend)
  have "copy_profile (sqlite_backend_ops EA envA (Ok ()) rkA nonceA keyA' nameA) (sqlite_backend_ops EB envB (Ok ()) rk nonce new_key random_name)
      now draw from_profile to_profile a b = (Ok (), a', b'\<lparr>be_db := db\<rparr>)"
    using assms(3,6) scan(1) pid into
    by (simp add: copy_profile_def sqlite_backend_ops_def sqlite_backend_scan_def sqlite_backend_session_def ignore_duplicate_def opt_or_def)
  moreover have "resolve_profile_key EB (se_profile envB) to_profile (b'\<lparr>be_db := db\<rparr>) = (Ok (pid, new_key), b'\<lparr>be_db := db\<rparr>)"
    using assms(6) pid
    by (auto simp: create_profile_def resolve_profile_key_def get_profile_def add_profile_def opt_or_def
        split: result.splits prod.splits option.splits)
  ultimately show ?thesis using es db(2) by (auto simp: sqlite_holds_def)
qed

definition toy_source :: SqliteBackend where
  "toy_source = \<lparr>be_db = toy_store_db, active_profile = ''p'', key_cache = add_profile ''p'' 1 toy_profile_key (key_cache_new None)\<rparr>"

theorem copy_profile_copies_entries_witness:
  "\<exists>pid b''. copy_profile (sqlite_backend_ops toy_env toy_sqlite_env (Ok ()) ([], [], \<lambda>_. []) [] toy_profile_key [])
      (sqlite_backend_ops toy_env toy_sqlite_env (Ok ()) ([], [], \<lambda>_. []) [] toy_profile_key []) 4999 (\<lambda>i. (0, replicate 12 2)) ''p'' ''q''
      toy_source toy_backend = (Ok (), toy_source, b'') \<and>
    represents (key_encryptor toy_sqlite_env toy_profile_key) pid (be_db b'') [(toy_entry, None)]"
proof -
  have src: "resolve_profile_key toy_env (se_profile toy_sqlite_env) ''p'' toy_source = (Ok (1, toy_profile_key), toy_source)"
    by (simp add: resolve_profile_key_def get_profile_def add_profile_def toy_source_def)
  have wf: "db_wf (be_db toy_backend)" by (simp add: toy_backend_def toy_db_def db_wf_def)
  obtain name b' where tgt: "create_profile toy_env (se_profile toy_sqlite_env) [] toy_profile_key [] (Some ''q'') toy_backend = (Ok name, b')"
    by (simp add: create_profile_def toy_backend_def toy_db_def opt_or_def insert_profile_def Let_def encode_profile_key_def
        profile_key_to_bytes_def toy_sqlite_env_def toy_profile_env_def key_cache_new_def wrap_data_def)
  have st: "\<forall>i. \<forall>s \<in> set [(toy_entry, Some 5000)]. sqlite_storable toy_sqlite_env toy_profile_key (snd ((\<lambda>i. (0 :: int, replicate 12 2)) i)) (fst s)"
    using toy_encrypt_update toy_entry_valid by (simp add: sqlite_storable_def) (simp add: toy_entry_def)
  have rep: "represents (key_encryptor toy_sqlite_env toy_profile_key) 1 (be_db toy_source) [(toy_entry, Some 5000)]"
    using toy_store_represents by (simp add: toy_source_def)
  from copy_profile_copies_entries [OF toy_sqlite_env_correct toy_sqlite_env_correct src rep wf tgt st,
      of 4999 "([], [], \<lambda>_. [])" "[]" toy_profile_key "[]" "([], [], \<lambda>_. [])"]
  show ?thesis by (auto simp: visible_def unexpired_def)
qed

end
