(* ===== verification/Key_Alg.thy ===== *)
theory Key_Alg
  imports Crypto_Buffer
begin

text \<open>
  Key algorithms and signature types (\<open>askar-crypto/src/alg/mod.rs\<close> and \<open>sign.rs\<close>): their names,
  the normalisation of a name into a buffer of 64 bytes, and the parsers. A name is parsed exactly
  when its normal form is one of the listed spellings.
\<close>

section \<open>Algorithms\<close>

datatype AesTypes = A128Gcm | A256Gcm | A128CbcHs256 | A256CbcHs512 | A128Kw | A256Kw

datatype BlsCurves = G1 | G2 | G1G2

datatype Chacha20Types = C20P | XC20P

datatype EcCurves = Secp256r1 | Secp256k1 | Secp384r1

datatype KeyAlg =
  Aes AesTypes | Bls12_381 BlsCurves | Chacha20 Chacha20Types | Ed25519 | X25519 | EcCurve EcCurves

fun key_alg_as_str :: "KeyAlg \<Rightarrow> string" where
  "key_alg_as_str (Aes A128Gcm) = ''a128gcm''"
| "key_alg_as_str (Aes A256Gcm) = ''a256gcm''"
| "key_alg_as_str (Aes A128CbcHs256) = ''a128cbchs256''"
| "key_alg_as_str (Aes A256CbcHs512) = ''a256cbchs512''"
| "key_alg_as_str (Aes A128Kw) = ''a128kw''"
| "key_alg_as_str (Aes A256Kw) = ''a256kw''"
| "key_alg_as_str (Bls12_381 G1) = ''bls12381g1''"
| "key_alg_as_str (Bls12_381 G2) = ''bls12381g2''"
| "key_alg_as_str (Bls12_381 G1G2) = ''bls12381g1g2''"
| "key_alg_as_str (Chacha20 C20P) = ''c20p''"
| "key_alg_as_str (Chacha20 XC20P) = ''xc20p''"
| "key_alg_as_str Ed25519 = ''ed25519''"
| "key_alg_as_str X25519 = ''x25519''"
| "key_alg_as_str (EcCurve Secp256k1) = ''k256''"
| "key_alg_as_str (EcCurve Secp256r1) = ''p256''"
| "key_alg_as_str (EcCurve Secp384r1) = ''p384''"

section \<open>Normal forms\<close>

text \<open>
  \<open>NormalizedIter\<close> skips hyphens, underscores and blanks and lowers the letters of ASCII. These are
  single bytes of the UTF-8 text, and the bytes of other characters are kept, so the iterator is
  given on bytes.
\<close>

definition to_ascii_lowercase :: "char \<Rightarrow> char" where
  "to_ascii_lowercase c = (if 65 \<le> (of_char c :: nat) \<and> (of_char c :: nat) \<le> 90 then char_of ((of_char c :: nat) + 32) else c)"

fun normalized_iter :: "string \<Rightarrow> string" where
  "normalized_iter [] = []"
| "normalized_iter (c # cs) =
     (if c \<noteq> CHR ''-'' \<and> c \<noteq> CHR ''_'' \<and> c \<noteq> CHR '' '' then to_ascii_lowercase c # normalized_iter cs
      else normalized_iter cs)"

record NormalizedAlg =
  na_len :: nat
  na_buf :: bytes

fun write_normalized :: "string \<Rightarrow> slice_writer \<Rightarrow> slice_writer crypto_result" where
  "write_normalized [] w = Ok w"
| "write_normalized (c # cs) w = res_bind (slice_write (as_bytes [c]) w) (write_normalized cs)"

definition normalize_alg :: "string \<Rightarrow> NormalizedAlg crypto_result" where
  "normalize_alg val =
     res_bind (write_normalized (normalized_iter val) (writer_from_slice (replicate 64 0))) (\<lambda>writer.
     Ok \<lparr>na_len = slice_pos writer, na_buf = slice_inner writer\<rparr>)"

definition normalized_as_ref :: "NormalizedAlg \<Rightarrow> bytes" where
  "normalized_as_ref a = take (na_len a) (na_buf a)"

definition normalized_eq :: "NormalizedAlg \<Rightarrow> string \<Rightarrow> bool" where
  "normalized_eq a other \<longleftrightarrow> normalized_as_ref a = as_bytes other"

section \<open>Parsers\<close>

definition key_alg_from_str :: "string \<Rightarrow> KeyAlg crypto_result" where
  "key_alg_from_str s =
     res_bind (normalize_alg s) (\<lambda>a.
     if normalized_eq a ''a128gcm'' \<or> normalized_eq a ''aes128gcm'' then Ok (Aes A128Gcm)
     else if normalized_eq a ''a256gcm'' \<or> normalized_eq a ''aes256gcm'' then Ok (Aes A256Gcm)
     else if normalized_eq a ''a128cbchs256'' \<or> normalized_eq a ''aes128cbchs256'' then Ok (Aes A128CbcHs256)
     else if normalized_eq a ''a256cbchs512'' \<or> normalized_eq a ''aes256cbchs512'' then Ok (Aes A256CbcHs512)
     else if normalized_eq a ''a128kw'' \<or> normalized_eq a ''aes128kw'' then Ok (Aes A128Kw)
     else if normalized_eq a ''a256kw'' \<or> normalized_eq a ''aes256kw'' then Ok (Aes A256Kw)
     else if normalized_eq a ''bls12381g1'' then Ok (Bls12_381 G1)
     else if normalized_eq a ''bls12381g2'' then Ok (Bls12_381 G2)
     else if normalized_eq a ''bls12381g1g2'' then Ok (Bls12_381 G1G2)
     else if normalized_eq a ''c20p'' \<or> normalized_eq a ''chacha20poly1305'' then Ok (Chacha20 C20P)
     else if normalized_eq a ''xc20p'' \<or> normalized_eq a ''xchacha20poly1305'' then Ok (Chacha20 XC20P)
     else if normalized_eq a ''ed25519'' then Ok Ed25519
     else if normalized_eq a ''x25519'' then Ok X25519
     else if normalized_eq a ''k256'' \<or> normalized_eq a ''secp256k1'' then Ok (EcCurve Secp256k1)
     else if normalized_eq a ''p256'' \<or> normalized_eq a ''secp256r1'' then Ok (EcCurve Secp256r1)
     else if normalized_eq a ''p384'' \<or> normalized_eq a ''secp384r1'' then Ok (EcCurve Secp384r1)
     else Err (err_msg crypto_kind.Unsupported ''Unknown key algorithm''))"

datatype SignatureType = EdDSA | ES256 | ES256K | ES384

definition signature_type_from_str :: "string \<Rightarrow> SignatureType crypto_result" where
  "signature_type_from_str s =
     res_bind (normalize_alg s) (\<lambda>a.
     if normalized_eq a ''eddsa'' then Ok EdDSA
     else if normalized_eq a ''es256'' then Ok ES256
     else if normalized_eq a ''es256k'' then Ok ES256K
     else if normalized_eq a ''es384'' then Ok ES384
     else Err (err_msg crypto_kind.Unsupported ''Unknown signature algorithm''))"

fun signature_length :: "SignatureType \<Rightarrow> nat" where
  "signature_length EdDSA = 64"
| "signature_length ES256 = 64"
| "signature_length ES256K = 64"
| "signature_length ES384 = 96"

section \<open>What is parsed\<close>

lemma write_normalized_spec:
  "slice_writer_wf w \<Longrightarrow> write_normalized s w =
     (if length (slice_inner w) < slice_pos w + length s then exceeded_buffer
      else Ok \<lparr>slice_inner = take (slice_pos w) (slice_inner w) @ as_bytes s @ drop (slice_pos w + length s) (slice_inner w),
        slice_pos = slice_pos w + length s\<rparr>)"
proof (induction s arbitrary: w)
  case Nil
  then show ?case by (simp add: slice_writer_wf_def)
next
  case (Cons c s)
  then show ?case
    by (auto simp: slice_write_def slice_writer_wf_def Let_def exceeded_buffer_def as_bytes_def ac_simps)
qed

text \<open>A normal form of at most 64 bytes is kept whole; a longer one exceeds the buffer.\<close>

lemma normalize_alg_spec:
  "normalize_alg s =
     (if 64 < length (normalized_iter s) then exceeded_buffer
      else Ok \<lparr>na_len = length (normalized_iter s),
        na_buf = as_bytes (normalized_iter s) @ replicate (64 - length (normalized_iter s)) 0\<rparr>)"
  by (simp add: normalize_alg_def write_normalized_spec writer_from_slice_def slice_writer_wf_def exceeded_buffer_def)

lemma normalized_eq_spec: "normalize_alg s = Ok a \<Longrightarrow> normalized_eq a t \<longleftrightarrow> normalized_iter s = t"
  by (auto simp: normalize_alg_spec normalized_eq_def normalized_as_ref_def exceeded_buffer_def split: if_splits)

text \<open>The spellings of an algorithm.\<close>

fun key_alg_aliases :: "KeyAlg \<Rightarrow> string list" where
  "key_alg_aliases (Aes A128Gcm) = [''aes128gcm'']"
| "key_alg_aliases (Aes A256Gcm) = [''aes256gcm'']"
| "key_alg_aliases (Aes A128CbcHs256) = [''aes128cbchs256'']"
| "key_alg_aliases (Aes A256CbcHs512) = [''aes256cbchs512'']"
| "key_alg_aliases (Aes A128Kw) = [''aes128kw'']"
| "key_alg_aliases (Aes A256Kw) = [''aes256kw'']"
| "key_alg_aliases (Chacha20 C20P) = [''chacha20poly1305'']"
| "key_alg_aliases (Chacha20 XC20P) = [''xchacha20poly1305'']"
| "key_alg_aliases (EcCurve Secp256k1) = [''secp256k1'']"
| "key_alg_aliases (EcCurve Secp256r1) = [''secp256r1'']"
| "key_alg_aliases (EcCurve Secp384r1) = [''secp384r1'']"
| "key_alg_aliases _ = []"

definition key_alg_spellings :: "KeyAlg \<Rightarrow> string list" where
  "key_alg_spellings a = key_alg_as_str a # key_alg_aliases a"

text \<open>A table of all spellings, to which the chain of comparisons is reduced.\<close>

definition key_algs :: "KeyAlg list" where
  "key_algs = [Aes A128Gcm, Aes A256Gcm, Aes A128CbcHs256, Aes A256CbcHs512, Aes A128Kw, Aes A256Kw,
     Bls12_381 G1, Bls12_381 G2, Bls12_381 G1G2, Chacha20 C20P, Chacha20 XC20P, Ed25519, X25519,
     EcCurve Secp256k1, EcCurve Secp256r1, EcCurve Secp384r1]"

lemma key_alg_in_table: "a \<in> set key_algs"
proof (cases a)
  case (Aes t) then show ?thesis by (cases t) (simp_all add: key_algs_def)
next
  case (Bls12_381 t) then show ?thesis by (cases t) (simp_all add: key_algs_def)
next
  case (Chacha20 t) then show ?thesis by (cases t) (simp_all add: key_algs_def)
next
  case (EcCurve t) then show ?thesis by (cases t) (simp_all add: key_algs_def)
qed (simp_all add: key_algs_def)

lemma key_alg_from_str_find:
  assumes "normalize_alg s = Ok a"
  shows "key_alg_from_str s = ok_or (find (\<lambda>k. normalized_iter s \<in> set (key_alg_spellings k)) key_algs)
    (err_msg crypto_kind.Unsupported ''Unknown key algorithm'')"
  unfolding key_alg_from_str_def assms res_bind.simps normalized_eq_spec [OF assms]
  by (simp add: key_algs_def key_alg_spellings_def)

lemma spellings_disjoint:
  "t \<in> set (key_alg_spellings a) \<Longrightarrow> find (\<lambda>k. t \<in> set (key_alg_spellings k)) key_algs = Some a"
proof -
  have "\<forall>a \<in> set key_algs. \<forall>t \<in> set (key_alg_spellings a). find (\<lambda>k. t \<in> set (key_alg_spellings k)) key_algs = Some a"
    by code_simp
  then show "t \<in> set (key_alg_spellings a) \<Longrightarrow> find (\<lambda>k. t \<in> set (key_alg_spellings k)) key_algs = Some a"
    using key_alg_in_table by blast
qed

lemma spelling_length: "t \<in> set (key_alg_spellings a) \<Longrightarrow> length t \<le> 64"
proof -
  have "\<forall>a \<in> set key_algs. \<forall>t \<in> set (key_alg_spellings a). length t \<le> 64" by code_simp
  then show "t \<in> set (key_alg_spellings a) \<Longrightarrow> length t \<le> 64" using key_alg_in_table by blast
qed

text \<open>
  A text is read as an algorithm exactly when its normal form, without hyphens, underscores and
  blanks and in lower case, is the name of the algorithm or an alias of it; every other text is
  refused, with an exceeded buffer when its normal form has more than 64 bytes, and no text panics.
\<close>

theorem key_alg_from_str_exact:
  "(key_alg_from_str s = Ok a \<longleftrightarrow> normalized_iter s \<in> set (key_alg_spellings a)) \<and>
   ((\<nexists>a. key_alg_from_str s = Ok a) \<longleftrightarrow> key_alg_from_str s =
      Err (if 64 < length (normalized_iter s) then err_of_kind crypto_kind.ExceededBuffer
           else err_msg crypto_kind.Unsupported ''Unknown key algorithm''))"
proof (cases "64 < length (normalized_iter s)")
  case True
  then have "key_alg_from_str s = Err (err_of_kind crypto_kind.ExceededBuffer)"
    by (simp add: key_alg_from_str_def normalize_alg_spec exceeded_buffer_def)
  moreover have "normalized_iter s \<notin> set (key_alg_spellings a)" using True spelling_length [of _ a] by force
  ultimately show ?thesis using True by simp
next
  case False
  then obtain n where "normalize_alg s = Ok n" by (simp add: normalize_alg_spec)
  note f = key_alg_from_str_find [OF this]
  show ?thesis
  proof (cases "find (\<lambda>k. normalized_iter s \<in> set (key_alg_spellings k)) key_algs")
    case None
    then have "normalized_iter s \<notin> set (key_alg_spellings b)" for b
      using key_alg_in_table [of b] by (auto simp: find_None_iff)
    with None False f show ?thesis by simp
  next
    case (Some b)
    then have "normalized_iter s \<in> set (key_alg_spellings b)" by (auto simp: find_Some_iff)
    then have "normalized_iter s \<in> set (key_alg_spellings a) \<longleftrightarrow> a = b"
      using spellings_disjoint [of _ a] Some by auto
    with Some f show ?thesis by auto
  qed
qed

text \<open>The name of an algorithm is read as the algorithm.\<close>

lemma key_alg_round_trip: "key_alg_from_str (key_alg_as_str a) = Ok a"
proof -
  have "\<forall>a \<in> set key_algs. key_alg_from_str (key_alg_as_str a) = Ok a" by code_simp
  then show ?thesis using key_alg_in_table by blast
qed

end
