(* ===== verification/Jwk.thy ===== *)
theory Jwk
  imports Key_Alg
begin

text \<open>
  JSON Web Keys (\<open>askar-crypto/src/jwk\<close>): the set of key operations, the encoder that writes the
  attributes of a key into a buffer, the attributes of a parsed key, and the decoding of an
  attribute from base64. The JSON reader of \<open>serde_json_core\<close> and the base64 codec are parameters.
\<close>

section \<open>Key operations\<close>

datatype KeyOps = Encrypt | Decrypt | Sign | Verify | WrapKey | UnwrapKey | DeriveKey | DeriveBits

text \<open>The discriminants are single bits.\<close>

fun key_ops_index :: "KeyOps \<Rightarrow> nat" where
  "key_ops_index Encrypt = 0"
| "key_ops_index Decrypt = 1"
| "key_ops_index Sign = 2"
| "key_ops_index Verify = 3"
| "key_ops_index WrapKey = 4"
| "key_ops_index UnwrapKey = 5"
| "key_ops_index DeriveKey = 6"
| "key_ops_index DeriveBits = 7"

definition key_ops_bit :: "KeyOps \<Rightarrow> u64" where
  "key_ops_bit op = push_bit (key_ops_index op) 1"

definition OPS :: "KeyOps list" where
  "OPS = [Encrypt, Decrypt, Sign, Verify, WrapKey, UnwrapKey, DeriveKey, DeriveBits]"

fun key_ops_as_str :: "KeyOps \<Rightarrow> string" where
  "key_ops_as_str Encrypt = ''encrypt''"
| "key_ops_as_str Decrypt = ''decrypt''"
| "key_ops_as_str Sign = ''sign''"
| "key_ops_as_str Verify = ''verify''"
| "key_ops_as_str WrapKey = ''wrapKey''"
| "key_ops_as_str UnwrapKey = ''unwrapKey''"
| "key_ops_as_str DeriveKey = ''deriveKey''"
| "key_ops_as_str DeriveBits = ''deriveBits''"

definition key_ops_try_from_str :: "string \<Rightarrow> KeyOps option" where
  "key_ops_try_from_str key =
     (if key = ''sign'' then Some Sign
      else if key = ''verify'' then Some Verify
      else if key = ''encrypt'' then Some Encrypt
      else if key = ''decrypt'' then Some Decrypt
      else if key = ''wrapKey'' then Some WrapKey
      else if key = ''unwrapKey'' then Some UnwrapKey
      else if key = ''deriveKey'' then Some DeriveKey
      else if key = ''deriveBits'' then Some DeriveBits
      else None)"

datatype KeyOpsSet = KeyOpsSet (ops_value: u64)

definition ops_new :: KeyOpsSet where
  "ops_new = KeyOpsSet 0"

definition ops_is_empty :: "KeyOpsSet \<Rightarrow> bool" where
  "ops_is_empty s \<longleftrightarrow> ops_value s = 0"

definition ops_union :: "KeyOpsSet \<Rightarrow> KeyOpsSet \<Rightarrow> KeyOpsSet" where
  "ops_union s t = KeyOpsSet (ops_value s OR ops_value t)"

definition ops_insert :: "KeyOpsSet \<Rightarrow> KeyOps \<Rightarrow> KeyOpsSet" where
  "ops_insert s op = KeyOpsSet (ops_value s OR key_ops_bit op)"

definition ops_has :: "KeyOpsSet \<Rightarrow> KeyOps \<Rightarrow> bool" where
  "ops_has s op \<longleftrightarrow> ops_value s AND key_ops_bit op \<noteq> 0"

definition ops_meets :: "KeyOpsSet \<Rightarrow> KeyOpsSet \<Rightarrow> bool" where
  "ops_meets s t \<longleftrightarrow> ops_value s AND ops_value t \<noteq> 0"

definition ops_of :: "KeyOps \<Rightarrow> KeyOpsSet" where
  "ops_of op = KeyOpsSet (key_ops_bit op)"

text \<open>\<open>KeyOpsIter::next\<close>, and the elements that the iterator yields.\<close>

function ops_next :: "nat \<Rightarrow> KeyOpsSet \<Rightarrow> (KeyOps \<times> nat) option" where
  "ops_next index s =
     (if index < length OPS then
        if ops_has s (OPS ! index) then Some (OPS ! index, index + 1) else ops_next (index + 1) s
      else None)"
  by pat_completeness auto
termination by (relation "measure (\<lambda>(index, s). length OPS - index)") auto

declare ops_next.simps [simp del]

lemma ops_next_advances: "ops_next i s = Some (op, j) \<Longrightarrow> i < j \<and> j \<le> length OPS"
proof (induction i s rule: ops_next.induct)
  case (1 i s)
  then show ?case by (subst (asm) (2) ops_next.simps) (fastforce split: if_splits)
qed

function ops_iter_from :: "nat \<Rightarrow> KeyOpsSet \<Rightarrow> KeyOps list" where
  "ops_iter_from index s =
     (case ops_next index s of Some (op, index') \<Rightarrow> op # ops_iter_from index' s | None \<Rightarrow> [])"
  by pat_completeness auto
termination by (relation "measure (\<lambda>(index, s). length OPS - index)") (auto dest!: ops_next_advances)

declare ops_iter_from.simps [simp del]

definition ops_iter :: "KeyOpsSet \<Rightarrow> KeyOps list" where
  "ops_iter s = ops_iter_from 0 s"

text \<open>\<open>KeyOpsVisitor::visit_seq\<close>: unknown names are skipped, a repeated one is an error.\<close>

fun visit_seq :: "KeyOpsSet \<Rightarrow> string list \<Rightarrow> (KeyOpsSet, string) result" where
  "visit_seq ops [] = Ok ops"
| "visit_seq ops (s # seq) =
     (case key_ops_try_from_str s of
        Some op \<Rightarrow> if ops_has ops op then Err (key_ops_as_str op) else visit_seq (ops_insert ops op) seq
      | None \<Rightarrow> visit_seq ops seq)"

definition ops_deserialize :: "string list \<Rightarrow> (KeyOpsSet, string) result" where
  "ops_deserialize seq = visit_seq ops_new seq"

definition ops_serialize :: "KeyOpsSet \<Rightarrow> string list" where
  "ops_serialize s = map key_ops_as_str (ops_iter s)"

section \<open>Encoders\<close>

datatype JwkEncoderMode = PublicKey | SecretKey | Thumbprint

text \<open>The trait \<open>JwkEncoder\<close>.\<close>

record 'e jwk_encoder =
  enc_alg :: "'e \<Rightarrow> KeyAlg option"
  enc_add_str :: "string \<Rightarrow> string \<Rightarrow> 'e \<Rightarrow> 'e crypto_result"
  enc_add_base64 :: "string \<Rightarrow> bytes \<Rightarrow> 'e \<Rightarrow> 'e crypto_result"
  enc_mode :: "'e \<Rightarrow> JwkEncoderMode"

definition enc_is_public :: "'e jwk_encoder \<Rightarrow> 'e \<Rightarrow> bool" where
  "enc_is_public J e \<longleftrightarrow> enc_mode J e = PublicKey"

definition enc_is_secret :: "'e jwk_encoder \<Rightarrow> 'e \<Rightarrow> bool" where
  "enc_is_secret J e \<longleftrightarrow> enc_mode J e = SecretKey"

definition enc_is_thumbprint :: "'e jwk_encoder \<Rightarrow> 'e \<Rightarrow> bool" where
  "enc_is_thumbprint J e \<longleftrightarrow> enc_mode J e = Thumbprint"

text \<open>The foreign codec: unpadded base64 with the URL-safe alphabet.\<close>

record base64 =
  b64_encode :: "bytes \<Rightarrow> string"
  b64_decode :: "string \<Rightarrow> bytes option"

record 'b JwkBufferEncoder =
  jb_mode :: JwkEncoderMode
  jb_buffer :: 'b
  jb_empty :: bool
  jb_alg :: "KeyAlg option"
  jb_key_ops :: "KeyOpsSet option"
  jb_kid :: "string option"

definition jb_new :: "'b \<Rightarrow> JwkEncoderMode \<Rightarrow> 'b JwkBufferEncoder" where
  "jb_new buffer mode = \<lparr>jb_mode = mode, jb_buffer = buffer, jb_empty = True, jb_alg = None, jb_key_ops = None,
     jb_kid = None\<rparr>"

definition quote :: string where
  "quote = [CHR 0x22]"

definition jb_write :: "'b buffer_ops \<Rightarrow> string \<Rightarrow> 'b JwkBufferEncoder \<Rightarrow> 'b JwkBufferEncoder crypto_result" where
  "jb_write B s e = res_map (\<lambda>b. e\<lparr>jb_buffer := b\<rparr>) (buffer_write B (as_bytes s) (jb_buffer e))"

definition start_attr :: "'b buffer_ops \<Rightarrow> string \<Rightarrow> 'b JwkBufferEncoder \<Rightarrow> 'b JwkBufferEncoder crypto_result" where
  "start_attr B key e =
     res_bind (if jb_empty e then res_map (\<lambda>e. e\<lparr>jb_empty := False\<rparr>) (jb_write B (''{'' @ quote) e)
       else jb_write B ('','' @ quote) e) (\<lambda>e.
     res_bind (jb_write B key e) (\<lambda>e.
     jb_write B (quote @ '':'') e))"

definition jb_add_str :: "'b buffer_ops \<Rightarrow> string \<Rightarrow> string \<Rightarrow> 'b JwkBufferEncoder \<Rightarrow> 'b JwkBufferEncoder crypto_result" where
  "jb_add_str B key value e =
     res_bind (start_attr B key e) (\<lambda>e.
     res_bind (jb_write B quote e) (\<lambda>e.
     res_bind (jb_write B value e) (\<lambda>e.
     jb_write B quote e)))"

definition write_hex_buffer :: "base64 \<Rightarrow> 'b buffer_ops \<Rightarrow> bytes \<Rightarrow> 'b \<Rightarrow> 'b crypto_result" where
  "write_hex_buffer b64 B value buffer =
     res_map_err (\<lambda>_. err_msg crypto_kind.Unexpected ''Error writing to JWK buffer'')
       (buffer_write B (as_bytes (b64_encode b64 value)) buffer)"

definition jb_add_as_base64 :: "base64 \<Rightarrow> 'b buffer_ops \<Rightarrow> string \<Rightarrow> bytes \<Rightarrow> 'b JwkBufferEncoder
    \<Rightarrow> 'b JwkBufferEncoder crypto_result" where
  "jb_add_as_base64 b64 B key value e =
     res_bind (start_attr B key e) (\<lambda>e.
     res_bind (jb_write B quote e) (\<lambda>e.
     res_bind (res_map (\<lambda>b. e\<lparr>jb_buffer := b\<rparr>) (write_hex_buffer b64 B value (jb_buffer e))) (\<lambda>e.
     jb_write B quote e)))"

definition buffer_encoder :: "base64 \<Rightarrow> 'b buffer_ops \<Rightarrow> 'b JwkBufferEncoder jwk_encoder" where
  "buffer_encoder b64 B = \<lparr>enc_alg = jb_alg, enc_add_str = jb_add_str B, enc_add_base64 = jb_add_as_base64 b64 B,
     enc_mode = jb_mode\<rparr>"

text \<open>
  \<open>JwkBufferEncoder::finalize\<close>. The array of key operations is written without its opening bracket,
  as in the source.
\<close>

fun write_ops :: "'b buffer_ops \<Rightarrow> nat \<Rightarrow> KeyOps list \<Rightarrow> 'b JwkBufferEncoder \<Rightarrow> 'b JwkBufferEncoder crypto_result" where
  "write_ops B idx [] e = Ok e"
| "write_ops B idx (op # ops) e =
     res_bind (jb_write B (if idx > 0 then '','' @ quote else quote) e) (\<lambda>e.
     res_bind (jb_write B (key_ops_as_str op) e) (\<lambda>e.
     res_bind (jb_write B quote e) (write_ops B (idx + 1) ops)))"

definition jb_finalize :: "'b buffer_ops \<Rightarrow> 'b JwkBufferEncoder \<Rightarrow> 'b crypto_result" where
  "jb_finalize B e =
     res_bind (case jb_key_ops e of
         Some ops \<Rightarrow>
           res_bind (start_attr B ''key_ops'' e) (\<lambda>e.
           res_bind (write_ops B 0 (ops_iter ops) e) (jb_write B '']''))
       | None \<Rightarrow> Ok e) (\<lambda>e.
     res_bind (case jb_kid e of Some kid \<Rightarrow> jb_add_str B ''kid'' kid e | None \<Rightarrow> Ok e) (\<lambda>e.
     res_bind (if \<not> jb_empty e then jb_write B ''}'' e else Ok e) (\<lambda>e.
     Ok (jb_buffer e))))"

text \<open>
  \<open>JwkSerialize\<close>: the same attributes as entries of a serde map, base64 through a buffer of 256 bytes.
\<close>

record serialize_enc =
  se_alg :: "KeyAlg option"
  se_mode :: JwkEncoderMode
  se_map :: "(string \<times> string) list"

definition se_add_str :: "string \<Rightarrow> string \<Rightarrow> serialize_enc \<Rightarrow> serialize_enc crypto_result" where
  "se_add_str key value e = Ok (e\<lparr>se_map := se_map e @ [(key, value)]\<rparr>)"

definition se_add_as_base64 :: "base64 \<Rightarrow> string \<Rightarrow> bytes \<Rightarrow> serialize_enc \<Rightarrow> serialize_enc crypto_result" where
  "se_add_as_base64 b64 key value e =
     res_bind (res_map_err (\<lambda>_. err_msg crypto_kind.Unexpected ''Error writing to JWK buffer'')
       (slice_write (as_bytes (b64_encode b64 value)) (writer_from_slice (replicate 256 0)))) (\<lambda>w.
     (case string_from_utf8 (writer_as_ref w) of
        Some s \<Rightarrow> se_add_str key s e
      | None \<Rightarrow> Panic))"

definition serialize_encoder :: "base64 \<Rightarrow> serialize_enc jwk_encoder" where
  "serialize_encoder b64 = \<lparr>enc_alg = se_alg, enc_add_str = se_add_str, enc_add_base64 = se_add_as_base64 b64,
     enc_mode = se_mode\<rparr>"

text \<open>\<open>ToJwk::to_jwk_public\<close>, \<open>to_jwk_secret\<close> and the thumbprint, for a key given by its \<open>encode_jwk\<close>.\<close>

type_synonym 'e encode_jwk = "'e jwk_encoder \<Rightarrow> 'e \<Rightarrow> 'e crypto_result"

definition jwk_bytes :: "base64 \<Rightarrow> bytes JwkBufferEncoder encode_jwk \<Rightarrow> JwkEncoderMode \<Rightarrow> KeyAlg option \<Rightarrow> bytes crypto_result" where
  "jwk_bytes b64 encode mode alg =
     res_bind (encode (buffer_encoder b64 vec_buffer) ((jb_new [] mode)\<lparr>jb_alg := alg\<rparr>)) (jb_finalize vec_buffer)"

definition to_jwk_public :: "base64 \<Rightarrow> bytes JwkBufferEncoder encode_jwk \<Rightarrow> KeyAlg option \<Rightarrow> string crypto_result" where
  "to_jwk_public b64 encode alg =
     res_bind (jwk_bytes b64 encode PublicKey alg) (\<lambda>v.
     (case string_from_utf8 v of Some s \<Rightarrow> Ok s | None \<Rightarrow> Panic))"

definition to_jwk_secret :: "base64 \<Rightarrow> bytes JwkBufferEncoder encode_jwk \<Rightarrow> KeyAlg option \<Rightarrow> bytes crypto_result" where
  "to_jwk_secret b64 encode alg = jwk_bytes b64 encode SecretKey alg"

definition write_jwk_thumbprint :: "base64 \<Rightarrow> (bytes \<Rightarrow> bytes) \<Rightarrow> bytes JwkBufferEncoder encode_jwk \<Rightarrow> KeyAlg option
    \<Rightarrow> 'b buffer_ops \<Rightarrow> 'b \<Rightarrow> 'b crypto_result" where
  "write_jwk_thumbprint b64 sha256 encode alg B output =
     res_bind (jwk_bytes b64 encode Thumbprint alg) (\<lambda>hashed.
     (let text = b64_encode b64 (sha256 hashed) in
      if 43 < length text then Err (err_msg crypto_kind.Unexpected ''Base64 encoding error'')
      else buffer_write B (as_bytes text) output))"

definition to_jwk_thumbprint :: "base64 \<Rightarrow> (bytes \<Rightarrow> bytes) \<Rightarrow> bytes JwkBufferEncoder encode_jwk \<Rightarrow> KeyAlg option
    \<Rightarrow> string crypto_result" where
  "to_jwk_thumbprint b64 sha256 encode alg =
     res_bind (write_jwk_thumbprint b64 sha256 encode alg vec_buffer []) (\<lambda>v.
     (case string_from_utf8 v of Some s \<Rightarrow> Ok s | None \<Rightarrow> Panic))"

section \<open>Parsed keys\<close>

record JwkParts =
  jwk_kty :: string
  jwk_kid :: "string option"
  jwk_alg :: "string option"
  jwk_crv :: "string option"
  jwk_x :: "string option"
  jwk_y :: "string option"
  jwk_d :: "string option"
  jwk_k :: "string option"
  jwk_key_ops :: "KeyOpsSet option"

text \<open>\<open>OptAttr::decode_base64\<close>: writing past the end of the output panics.\<close>

definition decode_base64 :: "base64 \<Rightarrow> string option \<Rightarrow> nat \<Rightarrow> bytes crypto_result" where
  "decode_base64 b64 attr output_len =
     (case attr of
        Some s \<Rightarrow>
          (let max_input = (output_len * 4 + 2) div 3 in
           if max_input < length s then Err (err_msg crypto_kind.Invalid ''Base64 length exceeds max'')
           else
             (case b64_decode b64 s of
                None \<Rightarrow> Err (err_msg crypto_kind.Invalid ''Base64 decoding error'')
              | Some bs \<Rightarrow> if output_len < length bs then Panic else Ok bs))
      | None \<Rightarrow> Err (err_msg crypto_kind.Invalid ''Empty attribute''))"

text \<open>
  The members of a JSON object as the reader delivers them. \<open>unread\<close> says whether the reader goes on
  to the next key when the value of a key was not read, which is what the visitor does with a key it
  does not know.
\<close>

datatype jwk_value = JwkString string | JwkArray "string list" | JwkOther

record parts_builder =
  pb_kty :: "string option"
  pb_parts :: JwkParts

definition pb_new :: parts_builder where
  "pb_new = \<lparr>pb_kty = None, pb_parts = \<lparr>jwk_kty = [], jwk_kid = None, jwk_alg = None, jwk_crv = None, jwk_x = None,
     jwk_y = None, jwk_d = None, jwk_k = None, jwk_key_ops = None\<rparr>\<rparr>"

definition invalid_jwk :: "'a crypto_result" where
  "invalid_jwk = Err (err_msg crypto_kind.Invalid ''Error parsing JWK'')"

fun next_str :: "jwk_value \<Rightarrow> string crypto_result" where
  "next_str (JwkString s) = Ok s"
| "next_str _ = invalid_jwk"

fun next_ops :: "jwk_value \<Rightarrow> KeyOpsSet crypto_result" where
  "next_ops (JwkArray seq) = res_map_err (\<lambda>_. err_msg crypto_kind.Invalid ''Error parsing JWK'') (ops_deserialize seq)"
| "next_ops _ = invalid_jwk"

definition use_ops :: "string \<Rightarrow> KeyOpsSet" where
  "use_ops u =
     (if u = ''enc'' then ops_insert (ops_insert (ops_insert (ops_of Encrypt) Decrypt) WrapKey) UnwrapKey
      else if u = ''sig'' then ops_insert (ops_of Sign) Verify
      else ops_new)"

definition visit_attr :: "bool \<Rightarrow> string \<Rightarrow> jwk_value \<Rightarrow> parts_builder \<Rightarrow> parts_builder crypto_result" where
  "visit_attr unread key v b =
     (let p = pb_parts b in
      if key = ''kty'' then res_map (\<lambda>s. b\<lparr>pb_kty := Some s\<rparr>) (next_str v)
      else if key = ''kid'' then res_map (\<lambda>s. b\<lparr>pb_parts := p\<lparr>jwk_kid := Some s\<rparr>\<rparr>) (next_str v)
      else if key = ''alg'' then res_map (\<lambda>s. b\<lparr>pb_parts := p\<lparr>jwk_alg := Some s\<rparr>\<rparr>) (next_str v)
      else if key = ''crv'' then res_map (\<lambda>s. b\<lparr>pb_parts := p\<lparr>jwk_crv := Some s\<rparr>\<rparr>) (next_str v)
      else if key = ''x'' then res_map (\<lambda>s. b\<lparr>pb_parts := p\<lparr>jwk_x := Some s\<rparr>\<rparr>) (next_str v)
      else if key = ''y'' then res_map (\<lambda>s. b\<lparr>pb_parts := p\<lparr>jwk_y := Some s\<rparr>\<rparr>) (next_str v)
      else if key = ''d'' then res_map (\<lambda>s. b\<lparr>pb_parts := p\<lparr>jwk_d := Some s\<rparr>\<rparr>) (next_str v)
      else if key = ''k'' then res_map (\<lambda>s. b\<lparr>pb_parts := p\<lparr>jwk_k := Some s\<rparr>\<rparr>) (next_str v)
      else if key = ''use'' then
        res_map (\<lambda>u.
          (let ops = use_ops u in
           if \<not> ops_is_empty ops then
             b\<lparr>pb_parts := p\<lparr>jwk_key_ops := Some (ops_union (case jwk_key_ops p of None \<Rightarrow> ops_new | Some o1 \<Rightarrow> o1) ops)\<rparr>\<rparr>
           else b)) (next_str v)
      else if key = ''key_ops'' then res_map (\<lambda>ops. b\<lparr>pb_parts := p\<lparr>jwk_key_ops := Some ops\<rparr>\<rparr>) (next_ops v)
      else if unread then Ok b else invalid_jwk)"

fun visit_attrs :: "bool \<Rightarrow> (string \<times> jwk_value) list \<Rightarrow> parts_builder \<Rightarrow> parts_builder crypto_result" where
  "visit_attrs unread [] b = Ok b"
| "visit_attrs unread ((key, v) # access) b = res_bind (visit_attr unread key v b) (visit_attrs unread access)"

definition visit_map :: "bool \<Rightarrow> (string \<times> jwk_value) list \<Rightarrow> JwkParts crypto_result" where
  "visit_map unread access =
     res_bind (visit_attrs unread access pb_new) (\<lambda>b.
     (case pb_kty b of
        Some kty \<Rightarrow> Ok ((pb_parts b)\<lparr>jwk_kty := kty\<rparr>)
      | None \<Rightarrow> invalid_jwk))"

text \<open>\<open>JwkParts::from_slice\<close>, with the foreign JSON reader as a parameter.\<close>

record json_reader =
  jr_read :: "bytes \<Rightarrow> (string \<times> jwk_value) list option"
  jr_unread :: bool

definition jwk_from_slice :: "json_reader \<Rightarrow> bytes \<Rightarrow> JwkParts crypto_result" where
  "jwk_from_slice R jwk =
     (case jr_read R jwk of None \<Rightarrow> invalid_jwk | Some access \<Rightarrow> visit_map (jr_unread R) access)"

text \<open>\<open>Serialize for JwkParts\<close>: the members, in alphabetical order but for the key operations.\<close>

definition opt_entry :: "string \<Rightarrow> string option \<Rightarrow> (string \<times> jwk_value) list" where
  "opt_entry key attr = (case attr of None \<Rightarrow> [] | Some s \<Rightarrow> [(key, JwkString s)])"

definition jwk_parts_serialize :: "JwkParts \<Rightarrow> (string \<times> jwk_value) list" where
  "jwk_parts_serialize p =
     opt_entry ''alg'' (jwk_alg p) @ opt_entry ''crv'' (jwk_crv p) @ opt_entry ''d'' (jwk_d p) @
     opt_entry ''k'' (jwk_k p) @ opt_entry ''kid'' (jwk_kid p) @ [(''kty'', JwkString (jwk_kty p))] @
     opt_entry ''x'' (jwk_x p) @ opt_entry ''y'' (jwk_y p) @
     (case jwk_key_ops p of None \<Rightarrow> [] | Some ops \<Rightarrow> [(''key_ops'', JwkArray (ops_serialize ops))])"

section \<open>Sets of operations\<close>

lemma ops_has_bit: "ops_has s op \<longleftrightarrow> bit (ops_value s) (key_ops_index op)"
  by (simp add: ops_has_def key_ops_bit_def bit_iff_and_push_bit_not_eq_0)

lemma key_ops_index_less: "key_ops_index op < 8"
  by (cases op) simp_all

lemma key_ops_index_inject [simp]: "key_ops_index op = key_ops_index op' \<longleftrightarrow> op = op'"
  by (cases op; cases op') simp_all

lemma bit_key_ops_bit: "bit (key_ops_bit op) n \<longleftrightarrow> n = key_ops_index op"
  using key_ops_index_less [of op] by (auto simp: key_ops_bit_def bit_exp_iff)

lemma ops_has_insert: "ops_has (ops_insert s op) op' \<longleftrightarrow> ops_has s op' \<or> op = op'"
  by (auto simp: ops_has_bit ops_insert_def bit_or_iff bit_key_ops_bit)

lemma OPS_complete: "op \<in> set OPS"
  by (cases op) (simp_all add: OPS_def)

lemma OPS_distinct: "distinct OPS"
  by (simp add: OPS_def)

lemma try_from_as_str [simp]: "key_ops_try_from_str (key_ops_as_str op) = Some op"
  by (cases op) (simp_all add: key_ops_try_from_str_def)

lemma ops_next_filter:
  "(case ops_next i s of None \<Rightarrow> filter (ops_has s) (drop i OPS) = []
     | Some (op, j) \<Rightarrow> filter (ops_has s) (drop i OPS) = op # filter (ops_has s) (drop j OPS))"
proof (induction i s rule: ops_next.induct)
  case (1 i s)
  show ?case
  proof (cases "i < length OPS")
    case True
    then have "drop i OPS = OPS ! i # drop (Suc i) OPS" by (simp add: Cons_nth_drop_Suc)
    with True 1 show ?thesis by (subst (1) ops_next.simps) (auto split: option.splits)
  qed (simp add: ops_next.simps)
qed

lemma ops_iter_from_filter: "ops_iter_from i s = filter (ops_has s) (drop i OPS)"
proof (induction i s rule: ops_iter_from.induct)
  case (1 i s)
  show ?case
  proof (cases "ops_next i s")
    case None
    with ops_next_filter [where i = i and s = s] show ?thesis by (subst ops_iter_from.simps) simp
  next
    case (Some p)
    obtain op j where p: "p = (op, j)" by fastforce
    with Some 1 ops_next_filter [where i = i and s = s] show ?thesis by (subst ops_iter_from.simps) simp
  qed
qed

text \<open>The iterator yields the operations of the set, in the order of the table.\<close>

lemma ops_iter_filter: "ops_iter s = filter (ops_has s) OPS"
  by (simp add: ops_iter_def ops_iter_from_filter)

text \<open>The sets that the program builds have no bits beyond the eight operations.\<close>

definition ops_wf :: "KeyOpsSet \<Rightarrow> bool" where
  "ops_wf s \<longleftrightarrow> (\<forall>n \<ge> 8. \<not> bit (ops_value s) n)"

lemma ops_wf_build [simp]:
  "ops_wf ops_new" "ops_wf (ops_of op)"
  "ops_wf (ops_insert s op) \<longleftrightarrow> ops_wf s" "ops_wf (ops_union s t) \<longleftrightarrow> ops_wf s \<and> ops_wf t"
  using key_ops_index_less [of op]
  by (auto simp: ops_wf_def ops_new_def ops_of_def ops_insert_def ops_union_def bit_or_iff bit_key_ops_bit)

lemma key_ops_index_onto: "n < 8 \<Longrightarrow> \<exists>op. key_ops_index op = n"
proof -
  assume n: "n < 8"
  have "set (map key_ops_index OPS) = {0..<8}" by (auto simp: OPS_def)
  with n show ?thesis by (metis (no_types, lifting) atLeastLessThan_iff imageE le0 set_map)
qed

lemma ops_eqI:
  assumes "ops_wf s" "ops_wf t" "\<And>op. ops_has s op = ops_has t op"
  shows "s = t"
proof (rule KeyOpsSet.expand, rule bit_word_eqI)
  fix n
  show "bit (ops_value s) n = bit (ops_value t) n"
  proof (cases "n < 8")
    case True
    then obtain op where "key_ops_index op = n" using key_ops_index_onto by blast
    with assms(3) [of op] show ?thesis by (simp add: ops_has_bit)
  next
    case False
    with assms(1,2) show ?thesis by (simp add: ops_wf_def)
  qed
qed

lemma visit_seq_distinct:
  "distinct ops \<Longrightarrow> (\<And>op. op \<in> set ops \<Longrightarrow> \<not> ops_has s op) \<Longrightarrow>
   visit_seq s (map key_ops_as_str ops) = Ok (foldl ops_insert s ops)"
proof (induction ops arbitrary: s)
  case (Cons op ops)
  then have "visit_seq (ops_insert s op) (map key_ops_as_str ops) = Ok (foldl ops_insert (ops_insert s op) ops)"
    by (intro Cons.IH) (auto simp: ops_has_insert)
  with Cons.prems(2) [of op] show ?case by simp
qed simp

lemma ops_has_foldl: "ops_has (foldl ops_insert s ops) op \<longleftrightarrow> ops_has s op \<or> op \<in> set ops"
  by (induction ops arbitrary: s) (auto simp: ops_has_insert)

lemma ops_wf_foldl: "ops_wf (foldl ops_insert s ops) \<longleftrightarrow> ops_wf s"
  by (induction ops arbitrary: s) auto

lemma ops_has_new [simp]: "\<not> ops_has ops_new op"
  by (simp add: ops_has_bit ops_new_def)

text \<open>A set of operations is read back from the names that are written for it.\<close>

lemma ops_round_trip: "ops_wf s \<Longrightarrow> ops_deserialize (ops_serialize s) = Ok s"
proof -
  assume wf: "ops_wf s"
  have "ops_deserialize (ops_serialize s) = Ok (foldl ops_insert ops_new (ops_iter s))"
    by (simp add: ops_deserialize_def ops_serialize_def ops_iter_filter visit_seq_distinct OPS_distinct)
  moreover have "foldl ops_insert ops_new (ops_iter s) = s"
    using wf OPS_complete by (intro ops_eqI) (simp_all add: ops_wf_foldl ops_has_foldl ops_iter_filter)
  ultimately show ?thesis by simp
qed

lemma ops_deserialize_wf: "ops_deserialize seq = Ok s \<Longrightarrow> ops_wf s"
proof -
  have "visit_seq t seq = Ok s \<Longrightarrow> ops_wf t \<Longrightarrow> ops_wf s" for t
    by (induction seq arbitrary: t) (auto split: option.splits if_splits)
  then show "ops_deserialize seq = Ok s \<Longrightarrow> ops_wf s" by (simp add: ops_deserialize_def)
qed

text \<open>
  Reading the members that are written for a parsed key gives the same key, whatever attributes
  it has, provided its set of operations has no unknown bits; the sets that the reader itself
  returns have none.
\<close>

theorem jwk_parts_round_trip:
  assumes "\<forall>ops. jwk_key_ops p = Some ops \<longrightarrow> ops_wf ops"
  shows "visit_map unread (jwk_parts_serialize p) = Ok p \<and>
    (\<forall>access q ops. visit_map unread access = Ok q \<longrightarrow> jwk_key_ops q = Some ops \<longrightarrow> ops_wf ops)"
proof
  have opt: "visit_attrs unread (opt_entry key a @ rest) b =
      res_bind (case a of None \<Rightarrow> Ok b | Some s \<Rightarrow> visit_attr unread key (JwkString s) b) (visit_attrs unread rest)"
    for key a rest b by (cases a) (simp_all add: opt_entry_def)
  show "visit_map unread (jwk_parts_serialize p) = Ok p"
    using assms unfolding visit_map_def jwk_parts_serialize_def
    apply (cases p)
    apply (simp add: opt pb_new_def visit_attr_def Let_def split: option.split)
    apply (simp add: ops_round_trip)
    done
next
  let ?inv = "\<lambda>b. \<forall>ops. jwk_key_ops (pb_parts b) = Some ops \<longrightarrow> ops_wf ops"
  have step: "visit_attr unread key v b = Ok b' \<Longrightarrow> ?inv b \<Longrightarrow> ?inv b'" for key v b b'
    by (cases v) (auto simp: visit_attr_def Let_def use_ops_def invalid_jwk_def result_simps
        dest: ops_deserialize_wf split: if_splits option.splits)
  have "visit_attrs unread access b = Ok b' \<Longrightarrow> ?inv b \<Longrightarrow> ?inv b'" for access b b'
  proof (induction access arbitrary: b)
    case (Cons a access)
    obtain key v where a: "a = (key, v)" by fastforce
    with Cons.prems(1) obtain b1 where "visit_attr unread key v b = Ok b1" "visit_attrs unread access b1 = Ok b'"
      by (auto simp: result_simps)
    with Cons.IH step Cons.prems(2) show ?case by blast
  qed simp
  from this [of _ pb_new] show "\<forall>access q ops. visit_map unread access = Ok q \<longrightarrow> jwk_key_ops q = Some ops \<longrightarrow> ops_wf ops"
    by (auto simp: visit_map_def pb_new_def invalid_jwk_def result_simps split: option.splits)
qed

theorem jwk_parts_round_trip_witness:
  "visit_map False (jwk_parts_serialize \<lparr>jwk_kty = ''OKP'', jwk_kid = None, jwk_alg = None, jwk_crv = Some ''Ed25519'',
      jwk_x = Some ''AQ'', jwk_y = None, jwk_d = None, jwk_k = None, jwk_key_ops = Some (use_ops ''sig'')\<rparr>) =
    Ok \<lparr>jwk_kty = ''OKP'', jwk_kid = None, jwk_alg = None, jwk_crv = Some ''Ed25519'',
      jwk_x = Some ''AQ'', jwk_y = None, jwk_d = None, jwk_k = None, jwk_key_ops = Some (use_ops ''sig'')\<rparr>"
  by (intro conjunct1 [OF jwk_parts_round_trip]) (simp add: use_ops_def)

section \<open>Written keys\<close>

text \<open>The text of the attributes of a key, without and with its closing brace.\<close>

definition attr_text :: "string \<times> string \<Rightarrow> string" where
  "attr_text a = quote @ fst a @ quote @ '':'' @ quote @ snd a @ quote"

definition open_text :: "(string \<times> string) list \<Rightarrow> string" where
  "open_text as = (if as = [] then [] else ''{'' @ join '','' (map attr_text as))"

definition object_text :: "(string \<times> string) list \<Rightarrow> string" where
  "object_text as = open_text as @ (if as = [] then [] else ''}'')"

lemma as_bytes_Cons: "as_bytes (c # s) = byte_of_char c # as_bytes s"
  by (simp add: as_bytes_def)

lemma join_snoc: "join sep (xs @ [x]) = (if xs = [] then x else join sep xs @ sep @ x)"
  by (induction xs) (auto simp: join_Cons)

lemma open_text_snoc: "open_text (as @ [a]) = open_text as @ (if as = [] then ''{'' else '','') @ attr_text a"
  by (simp add: open_text_def join_snoc)

text \<open>
  The contract of an encoder: each call appends one attribute to those that the encoder shows, or
  fails. \<open>shows_attrs\<close> relates the state of the encoder to its attributes.
\<close>

locale jwk_encoder_contract =
  fixes J :: "'e jwk_encoder" and b64 :: base64 and shows_attrs :: "'e \<Rightarrow> (string \<times> string) list \<Rightarrow> bool"
  assumes add_str_law: "shows_attrs e as \<Longrightarrow> enc_add_str J k v e = Ok e' \<Longrightarrow>
      shows_attrs e' (as @ [(k, v)]) \<and> enc_mode J e' = enc_mode J e"
    and add_base64_law: "shows_attrs e as \<Longrightarrow> enc_add_base64 J k bs e = Ok e' \<Longrightarrow>
      shows_attrs e' (as @ [(k, b64_encode b64 bs)]) \<and> enc_mode J e' = enc_mode J e"

context resize_buffer
begin

lemma jb_write_OkD:
  assumes "valid (jb_buffer e)" "jb_write B s e = Ok e'"
  shows "\<exists>b. e' = e\<lparr>jb_buffer := b\<rparr> \<and> valid b \<and> buf_as_ref B b = buf_as_ref B (jb_buffer e) @ as_bytes s"
  using assms write_OkD [of "jb_buffer e" "as_bytes s"] by (auto simp: jb_write_def result_simps)

definition encodes :: "bytes \<Rightarrow> 'b JwkBufferEncoder \<Rightarrow> (string \<times> string) list \<Rightarrow> bool" where
  "encodes pre e as \<longleftrightarrow> valid (jb_buffer e) \<and> jb_empty e = (as = []) \<and>
     buf_as_ref B (jb_buffer e) = pre @ as_bytes (open_text as)"

lemma start_attr_OkD:
  assumes "encodes pre e as" "start_attr B key e = Ok e'"
  shows "\<exists>b. e' = e\<lparr>jb_empty := False, jb_buffer := b\<rparr> \<and> valid b \<and> buf_as_ref B b =
    pre @ as_bytes (open_text as @ (if as = [] then ''{'' else '','') @ quote @ key @ quote @ '':'')"
proof -
  have v: "valid (jb_buffer e)" using assms(1) by (simp add: encodes_def)
  obtain e1 where 1: "jb_write B (if as = [] then ''{'' @ quote else '','' @ quote) e = Ok e1"
    and r: "res_bind (jb_write B key (e1\<lparr>jb_empty := False\<rparr>)) (jb_write B (quote @ '':'')) = Ok e'"
    using assms by (cases "as = []") (auto simp: start_attr_def encodes_def result_simps jb_write_def)
  obtain b1 where b1: "e1 = e\<lparr>jb_buffer := b1\<rparr>" "valid b1"
    "buf_as_ref B b1 = buf_as_ref B (jb_buffer e) @ as_bytes (if as = [] then ''{'' @ quote else '','' @ quote)"
    using jb_write_OkD [OF v 1] by blast
  obtain e2 where 2: "jb_write B key (e1\<lparr>jb_empty := False\<rparr>) = Ok e2" "jb_write B (quote @ '':'') e2 = Ok e'"
    using r by (auto simp: result_simps)
  obtain b2 where b2: "e2 = e1\<lparr>jb_empty := False, jb_buffer := b2\<rparr>" "valid b2" "buf_as_ref B b2 = buf_as_ref B b1 @ as_bytes key"
    using jb_write_OkD [OF _ 2(1)] b1 by auto
  obtain b3 where b3: "e' = e2\<lparr>jb_buffer := b3\<rparr>" "valid b3" "buf_as_ref B b3 = buf_as_ref B b2 @ as_bytes (quote @ '':'')"
    using jb_write_OkD [OF _ 2(2)] b2 by auto
  show ?thesis using b1 b2 b3 assms(1) by (intro exI [of _ b3]) (auto simp: encodes_def as_bytes_Cons)
qed

lemma quoted_OkD:
  assumes "valid (jb_buffer e)" "res_bind (jb_write B quote e) (\<lambda>e. res_bind (jb_write B v e) (jb_write B quote)) = Ok e'"
  shows "\<exists>b. e' = e\<lparr>jb_buffer := b\<rparr> \<and> valid b \<and> buf_as_ref B b = buf_as_ref B (jb_buffer e) @ as_bytes (quote @ v @ quote)"
proof -
  obtain e1 e2 where 1: "jb_write B quote e = Ok e1" "jb_write B v e1 = Ok e2" "jb_write B quote e2 = Ok e'"
    using assms(2) by (auto simp: result_simps)
  obtain b1 where b1: "e1 = e\<lparr>jb_buffer := b1\<rparr>" "valid b1" "buf_as_ref B b1 = buf_as_ref B (jb_buffer e) @ as_bytes quote"
    using jb_write_OkD [OF assms(1) 1(1)] by blast
  obtain b2 where b2: "e2 = e1\<lparr>jb_buffer := b2\<rparr>" "valid b2" "buf_as_ref B b2 = buf_as_ref B b1 @ as_bytes v"
    using jb_write_OkD [OF _ 1(2)] b1 by auto
  obtain b3 where b3: "e' = e2\<lparr>jb_buffer := b3\<rparr>" "valid b3" "buf_as_ref B b3 = buf_as_ref B b2 @ as_bytes quote"
    using jb_write_OkD [OF _ 1(3)] b2 by auto
  show ?thesis using b1 b2 b3 by auto
qed

lemma add_str_encodes:
  assumes "encodes pre e as" "jb_add_str B k v e = Ok e'"
  shows "encodes pre e' (as @ [(k, v)]) \<and> jb_mode e' = jb_mode e \<and> jb_kid e' = jb_kid e \<and> jb_key_ops e' = jb_key_ops e"
proof -
  obtain e1 where 1: "start_attr B k e = Ok e1"
    "res_bind (jb_write B quote e1) (\<lambda>e. res_bind (jb_write B v e) (jb_write B quote)) = Ok e'"
    using assms(2) by (auto simp: jb_add_str_def result_simps)
  obtain b where b: "e1 = e\<lparr>jb_empty := False, jb_buffer := b\<rparr>" "valid b" "buf_as_ref B b =
    pre @ as_bytes (open_text as @ (if as = [] then ''{'' else '','') @ quote @ k @ quote @ '':'')"
    using start_attr_OkD [OF assms(1) 1(1)] by blast
  with quoted_OkD [OF _ 1(2)] show ?thesis
    by (auto simp: encodes_def open_text_snoc attr_text_def as_bytes_Cons)
qed

lemma add_as_base64_str: "jb_add_as_base64 b64 B k bs e = Ok e' \<Longrightarrow> jb_add_str B k (b64_encode b64 bs) e = Ok e'"
  by (auto simp: jb_add_as_base64_def jb_add_str_def jb_write_def write_hex_buffer_def result_simps)

lemma buffer_encoder_contract: "jwk_encoder_contract (buffer_encoder b64 B) b64 (encodes pre)"
  by unfold_locales (auto simp: buffer_encoder_def dest: add_str_encodes add_as_base64_str)

text \<open>Closing a key without operations and key identifier gives the text of its attributes.\<close>

lemma finalize_text:
  assumes "encodes pre e as" "jb_finalize B e = Ok b" "jb_key_ops e = None" "jb_kid e = None"
  shows "valid b \<and> buf_as_ref B b = pre @ as_bytes (object_text as)"
  using assms jb_write_OkD [of e "''}''"]
  by (fastforce simp: jb_finalize_def encodes_def object_text_def open_text_def result_simps split: if_splits)

end

interpretation vec_jwk: jwk_encoder_contract "buffer_encoder b64 vec_buffer" b64 "resize_buffer.encodes vec_buffer (\<lambda>_. True) []"
  for b64
  by (rule vec.buffer_encoder_contract)

interpretation serialize_jwk: jwk_encoder_contract "serialize_encoder b64" b64 "\<lambda>e as. se_map e = as"
  for b64
proof (unfold_locales, goal_cases)
  case (2 e as k bs e')
  then show ?case
    by (auto simp: serialize_encoder_def se_add_as_base64_def se_add_str_def result_simps slice_write_def writer_as_ref_def
        writer_from_slice_def exceeded_buffer_def Let_def split: if_splits option.splits dest!: string_from_utf8_SomeD)
qed (auto simp: serialize_encoder_def se_add_str_def)

section \<open>Base64\<close>

text \<open>Characters that stand for themselves in a JSON string.\<close>

definition json_plain :: "char \<Rightarrow> bool" where
  "json_plain c \<longleftrightarrow> 32 \<le> (of_char c :: nat) \<and> (of_char c :: nat) < 127 \<and> c \<noteq> CHR 0x22 \<and> c \<noteq> CHR 0x5C"

text \<open>What the program relies on: unpadded base64 has four characters for three bytes.\<close>

definition base64_correct :: "base64 \<Rightarrow> bool" where
  "base64_correct b64 \<longleftrightarrow>
     (\<forall>bs. b64_decode b64 (b64_encode b64 bs) = Some bs \<and> length (b64_encode b64 bs) = (length bs * 4 + 2) div 3 \<and>
       list_all json_plain (b64_encode b64 bs)) \<and>
     (\<forall>s bs. b64_decode b64 s = Some bs \<longrightarrow> length bs = length s * 3 div 4)"

lemma decode_base64_encode:
  assumes "base64_correct b64"
  shows "decode_base64 b64 (Some (b64_encode b64 bs)) n =
    (if length bs \<le> n then Ok bs else Err (err_msg crypto_kind.Invalid ''Base64 length exceeds max''))"
proof -
  have "length (b64_encode b64 bs) = (length bs * 4 + 2) div 3" "b64_decode b64 (b64_encode b64 bs) = Some bs"
    using assms by (simp_all add: base64_correct_def)
  moreover have "(n * 4 + 2) div 3 < (length bs * 4 + 2) div 3 \<longleftrightarrow> n < length bs" by linarith
  ultimately show ?thesis by (simp add: decode_base64_def)
qed

text \<open>
  Decoding an attribute into an array never writes past its end, and an encoded value is decoded
  to the bytes it was made from exactly when they fit the array.
\<close>

theorem decode_base64_safe:
  assumes "base64_correct b64"
  shows "decode_base64 b64 attr n \<noteq> Panic \<and>
    (decode_base64 b64 (Some (b64_encode b64 bs)) n = Ok bs \<longleftrightarrow> length bs \<le> n)"
proof
  have "length r \<le> n" if "length s \<le> (n * 4 + 2) div 3" "b64_decode b64 s = Some r" for s r
  proof -
    have "length r = length s * 3 div 4" using assms that(2) by (auto simp: base64_correct_def)
    with that(1) show ?thesis by linarith
  qed
  then show "decode_base64 b64 attr n \<noteq> Panic"
    by (auto simp: decode_base64_def Let_def leD not_less split: option.split)
  show "decode_base64 b64 (Some (b64_encode b64 bs)) n = Ok bs \<longleftrightarrow> length bs \<le> n"
    by (simp add: decode_base64_encode [OF assms])
qed

text \<open>A codec for which the hypothesis holds: groups of three bytes as four digits to base 64.\<close>

fun digits64 :: "nat list \<Rightarrow> nat list" where
  "digits64 [] = []"
| "digits64 [a] = [a div 4, a mod 4 * 16]"
| "digits64 [a, b] = [a div 4, a mod 4 * 16 + b div 16, b mod 16 * 4]"
| "digits64 (a # b # c # r) = [a div 4, a mod 4 * 16 + b div 16, b mod 16 * 4 + c div 64, c mod 64] @ digits64 r"

fun undigits64 :: "nat list \<Rightarrow> nat list" where
  "undigits64 [] = []"
| "undigits64 [w] = []"
| "undigits64 [w, x] = [w * 4 + x div 16]"
| "undigits64 [w, x, y] = [w * 4 + x div 16, x mod 16 * 16 + y div 4]"
| "undigits64 (w # x # y # z # r) = [w * 4 + x div 16, x mod 16 * 16 + y div 4, y mod 4 * 64 + z] @ undigits64 r"

lemma undigits64_digits64: "list_all (\<lambda>a. a < 256) bs \<Longrightarrow> undigits64 (digits64 bs) = bs"
proof (induction bs rule: digits64.induct)
  case (4 a b c r)
  have "(a mod 4 * 16 + b div 16) div 16 = a mod 4" "(a mod 4 * 16 + b div 16) mod 16 = b div 16"
    "(b mod 16 * 4 + c div 64) div 4 = b mod 16" "(b mod 16 * 4 + c div 64) mod 4 = c div 64"
    using 4 by auto
  with 4 show ?case by auto
next
  case (3 a b)
  have "(a mod 4 * 16 + b div 16) div 16 = a mod 4" "(a mod 4 * 16 + b div 16) mod 16 = b div 16"
    using 3 by auto
  with 3 show ?case by auto
qed auto

lemma length_digits64: "length (digits64 bs) = (length bs * 4 + 2) div 3"
  by (induction bs rule: digits64.induct) auto

lemma length_undigits64: "length (undigits64 ds) = length ds * 3 div 4"
  by (induction ds rule: undigits64.induct) auto

lemma digits64_less: "list_all (\<lambda>a. a < 256) bs \<Longrightarrow> list_all (\<lambda>d. d < 64) (digits64 bs)"
  by (induction bs rule: digits64.induct) auto

text \<open>The digits are the characters from \<open>0\<close> to \<open>o\<close>, but for the backslash, in its place the letter \<open>z\<close>.\<close>

definition char64 :: "nat \<Rightarrow> char" where
  "char64 d = (if d = 44 then CHR ''z'' else char_of (48 + d))"

definition val64 :: "char \<Rightarrow> nat" where
  "val64 c = (if c = CHR ''z'' then 44 else of_char c - 48)"

lemma of_char_char64: "d < 64 \<Longrightarrow> of_char (char64 d) = (if d = 44 then 122 else 48 + d)"
  by (simp add: char64_def)

lemma val64_char64: "d < 64 \<Longrightarrow> val64 (char64 d) = d"
proof -
  assume d: "d < 64"
  have "char64 d = CHR ''z'' \<longleftrightarrow> (of_char (char64 d) :: nat) = of_char (CHR ''z'')" by (simp only: of_char_eq_iff)
  also have "\<dots> \<longleftrightarrow> d = 44" using d by (auto simp: of_char_char64)
  finally show ?thesis using d by (simp add: val64_def of_char_char64)
qed

lemma char64_plain: "d < 64 \<Longrightarrow> json_plain (char64 d)"
proof -
  assume d: "d < 64"
  have "char64 d = c \<longleftrightarrow> (of_char (char64 d) :: nat) = of_char c" for c by (simp only: of_char_eq_iff)
  then show ?thesis using d by (auto simp: json_plain_def of_char_char64)
qed

definition toy_base64 :: base64 where
  "toy_base64 = \<lparr>b64_encode = (\<lambda>bs. map char64 (digits64 (map unat bs))),
     b64_decode = (\<lambda>s. Some (map word_of_nat (undigits64 (map val64 s))))\<rparr>"

lemma toy_base64_correct: "base64_correct toy_base64"
proof -
  have bytes: "list_all (\<lambda>a. a < 256) (map unat bs)" for bs :: bytes
    using unsigned_less [where ?'a = nat and ?'b = 8] by (auto simp: list_all_iff)
  have "map val64 (map char64 (digits64 (map unat bs))) = digits64 (map unat bs)" for bs :: bytes
    using digits64_less [OF bytes, of bs] by (auto simp: list_all_iff val64_char64 intro: map_idI)
  then have "map word_of_nat (undigits64 (map val64 (map char64 (digits64 (map unat bs))))) = bs" for bs :: bytes
    using undigits64_digits64 [OF bytes, of bs] by (simp add: comp_def)
  moreover have "list_all json_plain (map char64 (digits64 (map unat bs)))" for bs :: bytes
    using digits64_less [OF bytes, of bs] by (auto simp: list_all_iff char64_plain)
  ultimately show ?thesis
    by (simp add: base64_correct_def toy_base64_def length_digits64 length_undigits64)
qed

theorem decode_base64_safe_witness:
  "decode_base64 toy_base64 (Some ''0000'') 2 \<noteq> Panic \<and> decode_base64 toy_base64 (Some (b64_encode toy_base64 [1, 2])) 2 = Ok [1, 2]"
  using decode_base64_safe [OF toy_base64_correct, of "Some ''0000''" 2 "[1, 2]"] by simp

section \<open>JSON\<close>

text \<open>What the program relies on: an object whose members are plain strings is read as written.\<close>

definition plain_attrs :: "(string \<times> string) list \<Rightarrow> bool" where
  "plain_attrs as \<longleftrightarrow> list_all (\<lambda>(k, v). list_all json_plain k \<and> list_all json_plain v) as"

definition json_reader_correct :: "json_reader \<Rightarrow> bool" where
  "json_reader_correct R \<longleftrightarrow>
     (\<forall>as. as \<noteq> [] \<longrightarrow> plain_attrs as \<longrightarrow>
       jr_read R (as_bytes (object_text as)) = Some (map (\<lambda>(k, v). (k, JwkString v)) as))"

text \<open>A reader for which the hypothesis holds: it splits the text at its quotes.\<close>

fun split_quotes :: "string \<Rightarrow> string \<Rightarrow> string list" where
  "split_quotes acc [] = [rev acc]"
| "split_quotes acc (c # s) = (if c = CHR 0x22 then rev acc # split_quotes [] s else split_quotes (c # acc) s)"

fun read_members :: "string list \<Rightarrow> (string \<times> jwk_value) list option" where
  "read_members (pre # k # colon # v # rest) = map_option (Cons (k, JwkString v)) (read_members rest)"
| "read_members [post] = Some []"
| "read_members _ = None"

definition toy_json :: json_reader where
  "toy_json = \<lparr>jr_read = (\<lambda>bs. read_members (split_quotes [] (of_bytes bs))), jr_unread = False\<rparr>"

lemma split_quotes_plain: "list_all json_plain s \<Longrightarrow> split_quotes acc (s @ CHR 0x22 # t) = (rev acc @ s) # split_quotes [] t"
  by (induction s arbitrary: acc) (auto simp: json_plain_def)

lemma read_members_text:
  "plain_attrs as \<Longrightarrow> as \<noteq> [] \<Longrightarrow> list_all json_plain pre \<Longrightarrow>
   read_members (split_quotes [] (pre @ join '','' (map attr_text as) @ ''}'')) = Some (map (\<lambda>(k, v). (k, JwkString v)) as)"
proof (induction as arbitrary: pre)
  case (Cons a as)
  obtain k v where a: "a = (k, v)" by fastforce
  have p: "list_all json_plain k" "list_all json_plain v" "plain_attrs as"
    using Cons.prems(1) by (simp_all add: a plain_attrs_def)
  have colon: "list_all json_plain '':''" "list_all json_plain '',''" by (simp_all add: json_plain_def)
  have "split_quotes [] (pre @ join '','' (map attr_text (a # as)) @ ''}'') =
      pre # k # '':'' # v # split_quotes [] ((if as = [] then [] else '','' @ join '','' (map attr_text as)) @ ''}'')"
    using split_quotes_plain [OF Cons.prems(3), of "[]"] split_quotes_plain [OF p(1), of "[]"]
      split_quotes_plain [OF p(2), of "[]"] split_quotes_plain [OF colon(1), of "[]"]
    by (simp add: a attr_text_def quote_def join_Cons)
  moreover have "as \<noteq> [] \<Longrightarrow> read_members (split_quotes [] ('','' @ join '','' (map attr_text as) @ ''}'')) =
      Some (map (\<lambda>(k, v). (k, JwkString v)) as)"
    by (rule Cons.IH [OF p(3) _ colon(2)])
  ultimately show ?case by (cases "as = []") (simp_all add: a)
qed simp

lemma toy_json_correct: "json_reader_correct toy_json"
proof -
  have "list_all json_plain ''{''" by (simp add: json_plain_def)
  with read_members_text [where pre = "''{''"] show ?thesis
    by (simp add: json_reader_correct_def toy_json_def object_text_def open_text_def)
qed

text \<open>
  The operations of a key are written as an array that is never opened: what follows the name is
  the list of the operations and a closing bracket.
\<close>

lemma jwk_key_ops_unopened:
  "jb_finalize vec_buffer ((jb_new (as_bytes (open_text [(''kty'', ''OKP'')])) PublicKey)\<lparr>jb_empty := False,
      jb_key_ops := Some (use_ops ''sig'')\<rparr>) =
    Ok (as_bytes (open_text [(''kty'', ''OKP'')] @ '','' @ quote @ ''key_ops'' @ quote @ '':'' @
      quote @ ''sign'' @ quote @ '','' @ quote @ ''verify'' @ quote @ '']}''))"
  by code_simp

section \<open>Writing into a vector\<close>

lemma vec_add_str:
  "jb_add_str vec_buffer k v e = Ok (e\<lparr>jb_empty := False,
     jb_buffer := jb_buffer e @ as_bytes ((if jb_empty e then ''{'' else '','') @ attr_text (k, v))\<rparr>)"
  by (simp add: jb_add_str_def start_attr_def jb_write_def attr_text_def as_bytes_Cons)

lemma vec_add_as_base64: "jb_add_as_base64 b64 vec_buffer k bs = jb_add_str vec_buffer k (b64_encode b64 bs)"
  by (simp add: fun_eq_iff jb_add_as_base64_def jb_add_str_def start_attr_def jb_write_def write_hex_buffer_def)

text \<open>An encoding that only adds strings and base64 values, as the list of its attributes.\<close>

fun add_attrs :: "'e jwk_encoder \<Rightarrow> (string \<times> (string, bytes) Sum_Type.sum) list \<Rightarrow> 'e \<Rightarrow> 'e crypto_result" where
  "add_attrs J [] e = Ok e"
| "add_attrs J ((k, Inl s) # as) e = res_bind (enc_add_str J k s e) (add_attrs J as)"
| "add_attrs J ((k, Inr bs) # as) e = res_bind (enc_add_base64 J k bs e) (add_attrs J as)"

fun attr_strings :: "base64 \<Rightarrow> (string \<times> (string, bytes) Sum_Type.sum) list \<Rightarrow> (string \<times> string) list" where
  "attr_strings b64 [] = []"
| "attr_strings b64 ((k, Inl s) # as) = (k, s) # attr_strings b64 as"
| "attr_strings b64 ((k, Inr bs) # as) = (k, b64_encode b64 bs) # attr_strings b64 as"

context jwk_encoder_contract
begin

lemma add_attrs_shows:
  "shows_attrs e as \<Longrightarrow> add_attrs J new e = Ok e' \<Longrightarrow> shows_attrs e' (as @ attr_strings b64 new) \<and> enc_mode J e' = enc_mode J e"
proof (induction new arbitrary: e as)
  case (Cons a new)
  obtain k v where a: "a = (k, v)" by fastforce
  show ?case
  proof (cases v)
    case (Inl str)
    obtain x where x: "enc_add_str J k str e = Ok x" "add_attrs J new x = Ok e'"
      using Cons.prems(2) by (auto simp: a Inl result_simps)
    from add_str_law [OF Cons.prems(1) x(1)] Cons.IH [of x "as @ [(k, str)]", OF _ x(2)] show ?thesis by (simp add: a Inl)
  next
    case (Inr bs)
    obtain x where x: "enc_add_base64 J k bs e = Ok x" "add_attrs J new x = Ok e'"
      using Cons.prems(2) by (auto simp: a Inr result_simps)
    from add_base64_law [OF Cons.prems(1) x(1)] Cons.IH [of x "as @ [(k, b64_encode b64 bs)]", OF _ x(2)]
    show ?thesis by (simp add: a Inr)
  qed
qed simp

end

lemma vec_add_attrs:
  "add_attrs (buffer_encoder b64 vec_buffer) new e = Ok (e\<lparr>jb_empty := jb_empty e \<and> new = [],
     jb_buffer := jb_buffer e @ as_bytes (if new = [] then [] else (if jb_empty e then ''{'' else '','')
       @ join '','' (map attr_text (attr_strings b64 new)))\<rparr>)"
proof (induction "buffer_encoder b64 vec_buffer" new e rule: add_attrs.induct)
  case (2 k s new e)
  then show ?case by (cases new) (auto simp: buffer_encoder_def vec_add_str as_bytes_Cons join_Cons elim!: attr_strings.elims)
next
  case (3 k bs new e)
  then show ?case by (cases new) (auto simp: buffer_encoder_def vec_add_str vec_add_as_base64 as_bytes_Cons join_Cons elim!: attr_strings.elims)
qed simp

text \<open>A key that is encoded by its attributes is written as the text of them.\<close>

lemma jwk_bytes_attrs:
  assumes "\<And>e. jb_mode e = mode \<Longrightarrow> jb_alg e = alg \<Longrightarrow> encode (buffer_encoder b64 vec_buffer) e = add_attrs (buffer_encoder b64 vec_buffer) as e"
  shows "jwk_bytes b64 encode mode alg = Ok (as_bytes (object_text (attr_strings b64 as)))"
proof -
  have "attr_strings b64 as = [] \<longleftrightarrow> as = []" by (cases "(b64, as)" rule: attr_strings.cases) auto
  then show ?thesis
    using assms by (simp add: jwk_bytes_def jb_new_def vec_add_attrs jb_finalize_def jb_write_def object_text_def open_text_def)
qed

text \<open>What was written for a list of attributes is read as these attributes.\<close>

definition plain_fields :: "(string \<times> (string, bytes) Sum_Type.sum) list \<Rightarrow> bool" where
  "plain_fields as \<longleftrightarrow> as \<noteq> [] \<and>
     list_all (\<lambda>(k, v). list_all json_plain k \<and> (case v of Inl s \<Rightarrow> list_all json_plain s | Inr bs \<Rightarrow> True)) as"

lemma attr_strings_Cons:
  "attr_strings b64 ((k, v) # as) = (k, case v of Inl s \<Rightarrow> s | Inr bs \<Rightarrow> b64_encode b64 bs) # attr_strings b64 as"
  by (cases v) simp_all

lemma jwk_read_attrs:
  assumes "base64_correct b64" "json_reader_correct R" "plain_fields as"
  shows "jwk_from_slice R (as_bytes (object_text (attr_strings b64 as))) =
    visit_map (jr_unread R) (map (\<lambda>(k, v). (k, JwkString v)) (attr_strings b64 as))"
proof -
  have p: "list_all json_plain (b64_encode b64 bs)" for bs using assms(1) by (simp add: base64_correct_def)
  have "list_all (\<lambda>(k, v). list_all json_plain k \<and> (case v of Inl s \<Rightarrow> list_all json_plain s | Inr bs \<Rightarrow> True)) as \<Longrightarrow>
      plain_attrs (attr_strings b64 as)"
    by (induction as) (auto simp: plain_attrs_def p attr_strings_Cons split: sum.split)
  moreover have "as \<noteq> [] \<Longrightarrow> attr_strings b64 as \<noteq> []" by (cases "(b64, as)" rule: attr_strings.cases) auto
  ultimately show ?thesis using assms(2,3) by (simp add: jwk_from_slice_def json_reader_correct_def plain_fields_def)
qed

end
