(* ===== verification/Okp_Keys.thy ===== *)
theory Okp_Keys
  imports Jwk
begin

text \<open>
  The key pairs on Curve25519 (\<open>askar-crypto/src/alg/x25519.rs\<close> and \<open>ed25519.rs\<close>), and the traits of
  \<open>repr.rs\<close> by which keys are read from and written to bytes. The curve arithmetic and the hash are
  parameters. Shown: what is written is read back, public encodings do not depend on the secret
  key, and a key pair that any of the constructors returns is consistent.
\<close>

section \<open>Bytes of a key\<close>

text \<open>\<open>ToSecretBytes::write_secret_bytes\<close> and \<open>KeypairBytes::to_keypair_bytes_buffer\<close>: the bytes if there are any.\<close>

definition write_opt_bytes :: "'b buffer_ops \<Rightarrow> bytes option \<Rightarrow> 'b \<Rightarrow> 'b crypto_result" where
  "write_opt_bytes B buf out =
     (case buf of Some buf \<Rightarrow> buffer_write B buf out | None \<Rightarrow> Err (err_of_kind crypto_kind.MissingSecretKey))"

definition to_bytes_vec :: "bytes option \<Rightarrow> bytes crypto_result" where
  "to_bytes_vec buf = write_opt_bytes vec_buffer buf []"

definition invalid_key_data :: "'a crypto_result" where
  "invalid_key_data = Err (err_of_kind crypto_kind.InvalidKeyData)"

text \<open>Decoding an attribute that has to fill an array.\<close>

definition decode_exact :: "base64 \<Rightarrow> string option \<Rightarrow> nat \<Rightarrow> bytes crypto_result" where
  "decode_exact b64 attr n =
     res_bind (decode_base64 b64 attr n) (\<lambda>arr. if length arr \<noteq> n then invalid_key_data else Ok arr)"

lemma decode_exact_encode [simp]:
  "base64_correct b64 \<Longrightarrow> length bs = n \<Longrightarrow> decode_exact b64 (Some (b64_encode b64 bs)) n = Ok bs"
  by (simp add: decode_exact_def decode_base64_encode)

definition OKP_KEY_TYPE :: string where
  "OKP_KEY_TYPE = ''OKP''"

section \<open>X25519\<close>

record x25519_env =
  x_public_of :: "bytes \<Rightarrow> bytes"
  x_diffie_hellman :: "bytes \<Rightarrow> bytes \<Rightarrow> bytes"

definition x25519_env_correct :: "x25519_env \<Rightarrow> bool" where
  "x25519_env_correct X \<longleftrightarrow> (\<forall>sk. length (x_public_of X sk) = 32) \<and>
     (\<forall>a b. x_diffie_hellman X a (x_public_of X b) = x_diffie_hellman X b (x_public_of X a))"

record X25519KeyPair =
  x_secret :: "bytes option"
  x_public :: bytes

definition x25519_from_secret_key :: "x25519_env \<Rightarrow> bytes \<Rightarrow> X25519KeyPair" where
  "x25519_from_secret_key X sk = \<lparr>x_secret = Some sk, x_public = x_public_of X sk\<rparr>"

definition x25519_check_public_bytes :: "X25519KeyPair \<Rightarrow> bytes \<Rightarrow> unit crypto_result" where
  "x25519_check_public_bytes kp pk =
     (if x_public kp = pk then Ok () else Err (err_msg crypto_kind.InvalidKeyData ''invalid x25519 keypair''))"

text \<open>\<open>okm\<close> gives the bytes that the random generator writes into an array of the given length.\<close>

definition x25519_generate :: "x25519_env \<Rightarrow> (nat \<Rightarrow> bytes) \<Rightarrow> X25519KeyPair crypto_result" where
  "x25519_generate X okm = Ok (x25519_from_secret_key X (okm 32))"

definition x25519_from_secret_bytes :: "x25519_env \<Rightarrow> bytes \<Rightarrow> X25519KeyPair crypto_result" where
  "x25519_from_secret_bytes X key =
     (if length key \<noteq> 32 then invalid_key_data else Ok (x25519_from_secret_key X key))"

definition x25519_from_keypair_bytes :: "x25519_env \<Rightarrow> bytes \<Rightarrow> X25519KeyPair crypto_result" where
  "x25519_from_keypair_bytes X kp =
     (if length kp \<noteq> 64 then invalid_key_data
      else
        res_bind (x25519_from_secret_bytes X (take 32 kp)) (\<lambda>result.
        res_bind (x25519_check_public_bytes result (drop 32 kp)) (\<lambda>_.
        Ok result)))"

definition x25519_keypair_bytes :: "X25519KeyPair \<Rightarrow> bytes option" where
  "x25519_keypair_bytes kp = map_option (\<lambda>secret. secret @ x_public kp) (x_secret kp)"

definition x25519_from_public_bytes :: "bytes \<Rightarrow> X25519KeyPair crypto_result" where
  "x25519_from_public_bytes key =
     (if length key \<noteq> 32 then invalid_key_data else Ok \<lparr>x_secret = None, x_public = key\<rparr>)"

definition x25519_encode_jwk :: "X25519KeyPair \<Rightarrow> 'e encode_jwk" where
  "x25519_encode_jwk kp J e =
     res_bind (enc_add_str J ''crv'' ''X25519'' e) (\<lambda>e.
     res_bind (enc_add_str J ''kty'' OKP_KEY_TYPE e) (\<lambda>e.
     res_bind (enc_add_base64 J ''x'' (x_public kp) e) (\<lambda>e.
     if enc_is_secret J e then
       (case x_secret kp of Some sk \<Rightarrow> enc_add_base64 J ''d'' sk e | None \<Rightarrow> Ok e)
     else Ok e)))"

definition x25519_from_jwk_parts :: "x25519_env \<Rightarrow> base64 \<Rightarrow> JwkParts \<Rightarrow> X25519KeyPair crypto_result" where
  "x25519_from_jwk_parts X b64 jwk =
     (if jwk_kty jwk \<noteq> OKP_KEY_TYPE then Err (err_msg crypto_kind.InvalidKeyData ''Unsupported key type'')
      else if jwk_crv jwk \<noteq> Some ''X25519'' then Err (err_msg crypto_kind.InvalidKeyData ''Unsupported key algorithm'')
      else
        res_bind (decode_exact b64 (jwk_x jwk) 32) (\<lambda>pk_arr.
        if jwk_d jwk \<noteq> None then
          res_bind (decode_exact b64 (jwk_d jwk) 32) (\<lambda>sk_arr.
          res_bind (x25519_from_secret_bytes X sk_arr) (\<lambda>kp.
          res_bind (x25519_check_public_bytes kp pk_arr) (\<lambda>_. Ok kp)))
        else x25519_from_public_bytes pk_arr))"

definition x25519_write_key_exchange :: "x25519_env \<Rightarrow> X25519KeyPair \<Rightarrow> X25519KeyPair \<Rightarrow> 'b buffer_ops \<Rightarrow> 'b \<Rightarrow> 'b crypto_result" where
  "x25519_write_key_exchange X kp other B out =
     (case x_secret kp of
        Some sk \<Rightarrow> buffer_write B (x_diffie_hellman X sk (x_public other)) out
      | None \<Rightarrow> Err (err_of_kind crypto_kind.MissingSecretKey))"

section \<open>Ed25519\<close>

record ed25519_env =
  ed_public_of :: "bytes \<Rightarrow> bytes"
  ed_verifying_key :: "bytes \<Rightarrow> bool"
  ed_sign :: "bytes \<Rightarrow> bytes \<Rightarrow> bytes"
  ed_verify_strict :: "bytes \<Rightarrow> bytes \<Rightarrow> bytes \<Rightarrow> bool"
  ed_sha512 :: "bytes \<Rightarrow> bytes"
  ed_clamp_integer :: "bytes \<Rightarrow> bytes"
  ed_to_montgomery :: "bytes \<Rightarrow> bytes option"

text \<open>
  What the program relies on: the public key of a secret key is a point of the curve, a signature
  verifies under the public key, and a verifying key decompresses to a point.
\<close>

definition ed25519_env_correct :: "ed25519_env \<Rightarrow> bool" where
  "ed25519_env_correct D \<longleftrightarrow>
     (\<forall>sk. length (ed_public_of D sk) = 32 \<and> ed_verifying_key D (ed_public_of D sk)) \<and>
     (\<forall>sk m. length (ed_sign D sk m) = 64 \<and> ed_verify_strict D (ed_public_of D sk) m (ed_sign D sk m)) \<and>
     (\<forall>pk. ed_verifying_key D pk \<longrightarrow> ed_to_montgomery D pk \<noteq> None) \<and> (\<forall>m. length (ed_sha512 D m) = 64) \<and>
     (\<forall>h. length h = 32 \<longrightarrow> length (ed_clamp_integer D h) = 32)"

record Ed25519KeyPair =
  ed_secret :: "bytes option"
  ed_public :: bytes

definition ed25519_from_secret_key :: "ed25519_env \<Rightarrow> bytes \<Rightarrow> Ed25519KeyPair" where
  "ed25519_from_secret_key D secret = \<lparr>ed_secret = Some secret, ed_public = ed_public_of D secret\<rparr>"

definition ed25519_check_public_bytes :: "Ed25519KeyPair \<Rightarrow> bytes \<Rightarrow> unit crypto_result" where
  "ed25519_check_public_bytes kp pk =
     (if ed_public kp = pk then Ok () else Err (err_msg crypto_kind.InvalidKeyData ''invalid ed25519 keypair''))"

definition to_x25519_keypair :: "ed25519_env \<Rightarrow> x25519_env \<Rightarrow> Ed25519KeyPair \<Rightarrow> X25519KeyPair crypto_result" where
  "to_x25519_keypair D X kp =
     (case ed_secret kp of
        Some secret \<Rightarrow>
          (let hash = ed_sha512 D secret; secret = ed_clamp_integer D (take 32 hash)
           in Ok \<lparr>x_secret = Some secret, x_public = x_public_of X secret\<rparr>)
      | None \<Rightarrow>
          (case ed_to_montgomery D (ed_public kp) of
             Some public \<Rightarrow> Ok \<lparr>x_secret = None, x_public = public\<rparr>
           | None \<Rightarrow> Panic))"

definition ed25519_sign :: "ed25519_env \<Rightarrow> Ed25519KeyPair \<Rightarrow> bytes \<Rightarrow> bytes option" where
  "ed25519_sign D kp message = map_option (\<lambda>sk. ed_sign D sk message) (ed_secret kp)"

definition ed25519_verify :: "ed25519_env \<Rightarrow> Ed25519KeyPair \<Rightarrow> bytes \<Rightarrow> bytes \<Rightarrow> bool crypto_result" where
  "ed25519_verify D kp message signature =
     (if length signature = 64 then
        if ed_verifying_key D (ed_public kp) then Ok (ed_verify_strict D (ed_public kp) message signature) else Panic
      else Ok False)"

definition ed25519_generate :: "ed25519_env \<Rightarrow> (nat \<Rightarrow> bytes) \<Rightarrow> Ed25519KeyPair crypto_result" where
  "ed25519_generate D okm = Ok (ed25519_from_secret_key D (okm 32))"

definition ed25519_from_secret_bytes :: "ed25519_env \<Rightarrow> bytes \<Rightarrow> Ed25519KeyPair crypto_result" where
  "ed25519_from_secret_bytes D key =
     (if length key \<noteq> 32 then invalid_key_data else Ok (ed25519_from_secret_key D key))"

definition ed25519_from_keypair_bytes :: "ed25519_env \<Rightarrow> bytes \<Rightarrow> Ed25519KeyPair crypto_result" where
  "ed25519_from_keypair_bytes D kp =
     (if length kp \<noteq> 64 then invalid_key_data
      else
        res_bind (ed25519_from_secret_bytes D (take 32 kp)) (\<lambda>result.
        res_bind (ed25519_check_public_bytes result (drop 32 kp)) (\<lambda>_.
        Ok result)))"

definition ed25519_keypair_bytes :: "Ed25519KeyPair \<Rightarrow> bytes option" where
  "ed25519_keypair_bytes kp = map_option (\<lambda>secret. secret @ ed_public kp) (ed_secret kp)"

definition ed25519_from_public_bytes :: "ed25519_env \<Rightarrow> bytes \<Rightarrow> Ed25519KeyPair crypto_result" where
  "ed25519_from_public_bytes D key =
     (if length key = 32 \<and> ed_verifying_key D key then Ok \<lparr>ed_secret = None, ed_public = key\<rparr> else invalid_key_data)"

definition ed25519_write_signature :: "ed25519_env \<Rightarrow> Ed25519KeyPair \<Rightarrow> bytes \<Rightarrow> SignatureType option \<Rightarrow> 'b buffer_ops \<Rightarrow> 'b
    \<Rightarrow> 'b crypto_result" where
  "ed25519_write_signature D kp message sig_type B out =
     (if sig_type = None \<or> sig_type = Some EdDSA then
        (case ed_secret kp of
           Some sk \<Rightarrow> buffer_write B (ed_sign D sk message) out
         | None \<Rightarrow> Err (err_of_kind crypto_kind.MissingSecretKey))
      else Err (err_msg crypto_kind.Unsupported ''Unsupported signature type''))"

definition ed25519_verify_signature :: "ed25519_env \<Rightarrow> Ed25519KeyPair \<Rightarrow> bytes \<Rightarrow> bytes \<Rightarrow> SignatureType option \<Rightarrow> bool crypto_result" where
  "ed25519_verify_signature D kp message signature sig_type =
     (if sig_type = None \<or> sig_type = Some EdDSA then ed25519_verify D kp message signature
      else Err (err_msg crypto_kind.Unsupported ''Unsupported signature type''))"

definition ed25519_encode_jwk :: "Ed25519KeyPair \<Rightarrow> 'e encode_jwk" where
  "ed25519_encode_jwk kp J e =
     res_bind (enc_add_str J ''crv'' ''Ed25519'' e) (\<lambda>e.
     res_bind (enc_add_str J ''kty'' OKP_KEY_TYPE e) (\<lambda>e.
     res_bind (enc_add_base64 J ''x'' (ed_public kp) e) (\<lambda>e.
     if enc_is_secret J e then
       (case ed_secret kp of Some sk \<Rightarrow> enc_add_base64 J ''d'' sk e | None \<Rightarrow> Ok e)
     else Ok e)))"

definition ed25519_from_jwk_parts :: "ed25519_env \<Rightarrow> base64 \<Rightarrow> JwkParts \<Rightarrow> Ed25519KeyPair crypto_result" where
  "ed25519_from_jwk_parts D b64 jwk =
     (if jwk_kty jwk \<noteq> OKP_KEY_TYPE then Err (err_msg crypto_kind.InvalidKeyData ''Unsupported key type'')
      else if jwk_crv jwk \<noteq> Some ''Ed25519'' then Err (err_msg crypto_kind.InvalidKeyData ''Unsupported key algorithm'')
      else
        res_bind (decode_exact b64 (jwk_x jwk) 32) (\<lambda>pk_arr.
        if jwk_d jwk \<noteq> None then
          res_bind (decode_exact b64 (jwk_d jwk) 32) (\<lambda>sk_arr.
          res_bind (ed25519_from_secret_bytes D sk_arr) (\<lambda>kp.
          res_bind (ed25519_check_public_bytes kp pk_arr) (\<lambda>_. Ok kp)))
        else ed25519_from_public_bytes D pk_arr))"

section \<open>Consistent key pairs\<close>

definition x25519_wf :: "x25519_env \<Rightarrow> X25519KeyPair \<Rightarrow> bool" where
  "x25519_wf X kp \<longleftrightarrow> length (x_public kp) = 32 \<and>
     (case x_secret kp of None \<Rightarrow> True | Some sk \<Rightarrow> length sk = 32 \<and> x_public kp = x_public_of X sk)"

definition ed25519_wf :: "ed25519_env \<Rightarrow> Ed25519KeyPair \<Rightarrow> bool" where
  "ed25519_wf D kp \<longleftrightarrow> length (ed_public kp) = 32 \<and> ed_verifying_key D (ed_public kp) \<and>
     (case ed_secret kp of None \<Rightarrow> True | Some sk \<Rightarrow> length sk = 32 \<and> ed_public kp = ed_public_of D sk)"

lemmas x25519_parsers = x25519_from_secret_bytes_def x25519_from_keypair_bytes_def x25519_from_public_bytes_def
  x25519_from_jwk_parts_def x25519_check_public_bytes_def x25519_from_secret_key_def x25519_generate_def
lemmas ed25519_parsers = ed25519_from_secret_bytes_def ed25519_from_keypair_bytes_def ed25519_from_public_bytes_def
  ed25519_from_jwk_parts_def ed25519_check_public_bytes_def ed25519_from_secret_key_def ed25519_generate_def

lemma decode_exact_OkD: "decode_exact b64 attr n = Ok bs \<Longrightarrow> length bs = n"
  by (auto simp: decode_exact_def invalid_key_data_def result_simps split: if_splits)

lemma x25519_secret_wf: "x25519_env_correct X \<Longrightarrow> x25519_from_secret_bytes X key = Ok kp \<Longrightarrow> x25519_wf X kp"
  by (auto simp: x25519_wf_def x25519_parsers invalid_key_data_def x25519_env_correct_def split: if_splits)

lemma x25519_public_wf: "x25519_from_public_bytes key = Ok kp \<Longrightarrow> x25519_wf X kp"
  by (auto simp: x25519_wf_def x25519_parsers invalid_key_data_def split: if_splits)

lemma x25519_keypair_wf: "x25519_env_correct X \<Longrightarrow> x25519_from_keypair_bytes X key = Ok kp \<Longrightarrow> x25519_wf X kp"
  by (auto simp: x25519_from_keypair_bytes_def invalid_key_data_def result_simps intro: x25519_secret_wf split: if_splits)

lemma x25519_jwk_wf: "x25519_env_correct X \<Longrightarrow> x25519_from_jwk_parts X b64 jwk = Ok kp \<Longrightarrow> x25519_wf X kp"
  by (auto simp: x25519_from_jwk_parts_def result_simps intro: x25519_secret_wf x25519_public_wf split: if_splits)

lemma ed25519_secret_wf: "ed25519_env_correct D \<Longrightarrow> ed25519_from_secret_bytes D key = Ok kp \<Longrightarrow> ed25519_wf D kp"
  by (auto simp: ed25519_wf_def ed25519_parsers invalid_key_data_def ed25519_env_correct_def split: if_splits)

lemma ed25519_public_wf: "ed25519_from_public_bytes D key = Ok kp \<Longrightarrow> ed25519_wf D kp"
  by (auto simp: ed25519_wf_def ed25519_parsers invalid_key_data_def split: if_splits)

lemma ed25519_keypair_wf: "ed25519_env_correct D \<Longrightarrow> ed25519_from_keypair_bytes D key = Ok kp \<Longrightarrow> ed25519_wf D kp"
  by (auto simp: ed25519_from_keypair_bytes_def invalid_key_data_def result_simps intro: ed25519_secret_wf split: if_splits)

lemma ed25519_jwk_wf: "ed25519_env_correct D \<Longrightarrow> ed25519_from_jwk_parts D b64 jwk = Ok kp \<Longrightarrow> ed25519_wf D kp"
  by (auto simp: ed25519_from_jwk_parts_def result_simps intro: ed25519_secret_wf ed25519_public_wf split: if_splits)

lemma ed25519_generate_wf:
  "ed25519_env_correct D \<Longrightarrow> length (okm 32) = 32 \<Longrightarrow> ed25519_generate D okm = Ok kp \<Longrightarrow> ed25519_wf D kp"
  by (rule ed25519_secret_wf [of D "okm 32"]) (simp_all add: ed25519_generate_def ed25519_from_secret_bytes_def)

text \<open>
  C38. A key pair that is generated from 32 bytes of key material, or read from secret bytes, from the bytes of a
  pair, from public bytes or from a JWK is consistent: its public key is a point of the curve and belongs to its secret key.
  On such a key pair neither verifying a signature nor converting it to X25519 panics, the
  conversion is consistent too, and its own signatures verify.
\<close>

theorem ed25519_keypair_consistent:
  assumes "ed25519_env_correct D" and "x25519_env_correct X"
    and "ed25519_from_secret_bytes D bs = Ok kp \<or> ed25519_from_keypair_bytes D bs = Ok kp \<or>
      ed25519_from_public_bytes D bs = Ok kp \<or> ed25519_from_jwk_parts D b64 jwk = Ok kp \<or>
      length (okm 32) = 32 \<and> ed25519_generate D okm = Ok kp"
  shows "ed25519_wf D kp \<and> ed25519_verify D kp m sig \<noteq> Panic \<and>
    (\<exists>xk. to_x25519_keypair D X kp = Ok xk \<and> (ed_secret kp \<noteq> None \<longrightarrow> x25519_wf X xk)) \<and>
    (\<forall>s. ed25519_sign D kp m = Some s \<longrightarrow> ed25519_verify D kp m s = Ok True)"
proof -
  have wf: "ed25519_wf D kp"
    using assms(1,3) ed25519_secret_wf ed25519_public_wf ed25519_keypair_wf ed25519_jwk_wf ed25519_generate_wf by blast
  have "\<exists>xk. to_x25519_keypair D X kp = Ok xk \<and> (ed_secret kp \<noteq> None \<longrightarrow> x25519_wf X xk)"
  proof (cases "ed_secret kp")
    case None
    with wf assms(1) show ?thesis by (auto simp: ed25519_wf_def ed25519_env_correct_def to_x25519_keypair_def)
  next
    case (Some sk)
    have "length (ed_clamp_integer D (take 32 (ed_sha512 D sk))) = 32"
      using assms(1) by (simp add: ed25519_env_correct_def)
    with Some assms(2) show ?thesis by (simp add: to_x25519_keypair_def Let_def x25519_wf_def x25519_env_correct_def)
  qed
  moreover have "\<forall>s. ed25519_sign D kp m = Some s \<longrightarrow> ed25519_verify D kp m s = Ok True"
    using wf assms(1) by (auto simp: ed25519_sign_def ed25519_verify_def ed25519_wf_def ed25519_env_correct_def)
  moreover have "ed25519_verify D kp m sig \<noteq> Panic" using wf by (simp add: ed25519_verify_def ed25519_wf_def)
  ultimately show ?thesis using wf by blast
qed

text \<open>A stand-in for the curve for which the hypotheses hold: the public key is the secret key, cut to 32 bytes.\<close>

definition toy_x25519 :: x25519_env where
  "toy_x25519 = \<lparr>x_public_of = resized 32, x_diffie_hellman = (\<lambda>a b. map2 (+) (resized 32 a) (resized 32 b))\<rparr>"

definition toy_ed25519 :: ed25519_env where
  "toy_ed25519 = \<lparr>ed_public_of = resized 32, ed_verifying_key = (\<lambda>pk. length pk = 32),
     ed_sign = (\<lambda>sk m. resized 64 (sk @ m)), ed_verify_strict = (\<lambda>pk m s. True), ed_sha512 = resized 64,
     ed_clamp_integer = (\<lambda>h. h), ed_to_montgomery = Some\<rparr>"

lemma toy_x25519_correct: "x25519_env_correct toy_x25519"
proof -
  have "resized 32 (resized 32 a) = resized 32 a" for a by (simp add: resized_def)
  moreover have "map2 (+) a b = map2 (+) b (a :: bytes)" for a b
    by (rule nth_equalityI) (auto simp: add.commute)
  ultimately show ?thesis by (simp add: x25519_env_correct_def toy_x25519_def)
qed

lemma toy_ed25519_correct: "ed25519_env_correct toy_ed25519"
  by (simp add: ed25519_env_correct_def toy_ed25519_def)

theorem ed25519_keypair_consistent_witness:
  "ed25519_from_secret_bytes toy_ed25519 (replicate 32 7) = Ok \<lparr>ed_secret = Some (replicate 32 7), ed_public = replicate 32 7\<rparr> \<and>
    ed25519_wf toy_ed25519 \<lparr>ed_secret = Some (replicate 32 7), ed_public = replicate 32 7\<rparr>"
proof -
  have "ed25519_from_secret_bytes toy_ed25519 (replicate 32 7) = Ok \<lparr>ed_secret = Some (replicate 32 7), ed_public = replicate 32 7\<rparr>"
    by (simp add: ed25519_parsers toy_ed25519_def resized_def)
  with ed25519_keypair_consistent [OF toy_ed25519_correct toy_x25519_correct disjI1 [OF this]] show ?thesis by blast
qed

section \<open>Round trips\<close>

text \<open>The attributes of a key pair.\<close>

definition okp_attrs :: "string \<Rightarrow> JwkEncoderMode \<Rightarrow> bytes \<Rightarrow> bytes option \<Rightarrow> (string \<times> (string, bytes) Sum_Type.sum) list" where
  "okp_attrs crv mode pk sk = [(''crv'', Inl crv), (''kty'', Inl OKP_KEY_TYPE), (''x'', Inr pk)] @
     (if mode = SecretKey then (case sk of None \<Rightarrow> [] | Some sk \<Rightarrow> [(''d'', Inr sk)]) else [])"

lemma vec_enc_mode:
  "enc_add_str (buffer_encoder b64 vec_buffer) k v e = Ok e' \<Longrightarrow> jb_mode e' = jb_mode e"
  "enc_add_base64 (buffer_encoder b64 vec_buffer) k bs e = Ok e' \<Longrightarrow> jb_mode e' = jb_mode e"
  by (auto simp: buffer_encoder_def vec_add_str vec_add_as_base64)

lemma okp_encode_attrs:
  assumes "jb_mode e = mode"
  shows "x25519_encode_jwk xk (buffer_encoder b64 vec_buffer) e =
      add_attrs (buffer_encoder b64 vec_buffer) (okp_attrs ''X25519'' mode (x_public xk) (x_secret xk)) e"
    and "ed25519_encode_jwk kp (buffer_encoder b64 vec_buffer) e =
      add_attrs (buffer_encoder b64 vec_buffer) (okp_attrs ''Ed25519'' mode (ed_public kp) (ed_secret kp)) e"
  using assms
  by (simp_all add: x25519_encode_jwk_def ed25519_encode_jwk_def okp_attrs_def buffer_encoder_def vec_add_str vec_add_as_base64
      enc_is_secret_def as_bytes_Cons split: option.split)

lemma okp_jwk_bytes:
  "jwk_bytes b64 (x25519_encode_jwk xk) mode alg =
    Ok (as_bytes (object_text (attr_strings b64 (okp_attrs ''X25519'' mode (x_public xk) (x_secret xk)))))"
  "jwk_bytes b64 (ed25519_encode_jwk kp) mode alg =
    Ok (as_bytes (object_text (attr_strings b64 (okp_attrs ''Ed25519'' mode (ed_public kp) (ed_secret kp)))))"
  by (intro jwk_bytes_attrs okp_encode_attrs; simp)+

lemma okp_read_back:
  assumes "base64_correct b64" "json_reader_correct R" "list_all json_plain crv"
  shows "jwk_from_slice R (as_bytes (object_text (attr_strings b64 (okp_attrs crv mode pk sk)))) =
    Ok \<lparr>jwk_kty = OKP_KEY_TYPE, jwk_kid = None, jwk_alg = None, jwk_crv = Some crv, jwk_x = Some (b64_encode b64 pk), jwk_y = None,
      jwk_d = (if mode = SecretKey then map_option (b64_encode b64) sk else None), jwk_k = None, jwk_key_ops = None\<rparr>"
proof -
  have "plain_fields (okp_attrs crv mode pk sk)"
    using assms(3) by (auto simp: plain_fields_def okp_attrs_def OKP_KEY_TYPE_def json_plain_def split: option.split)
  from jwk_read_attrs [OF assms(1,2) this] show ?thesis
    by (simp add: visit_map_def okp_attrs_def pb_new_def visit_attr_def split: option.split)
qed

lemma okp_jwk_round_trip:
  assumes "base64_correct b64" "json_reader_correct R"
  shows "x25519_wf X xk \<Longrightarrow> \<exists>t. jwk_bytes b64 (x25519_encode_jwk xk) mode alg = Ok t \<and>
      res_bind (jwk_from_slice R t) (x25519_from_jwk_parts X b64) = Ok (if mode = SecretKey then xk else xk\<lparr>x_secret := None\<rparr>)"
    and "ed25519_wf D kp \<Longrightarrow> \<exists>t. jwk_bytes b64 (ed25519_encode_jwk kp) mode alg = Ok t \<and>
      res_bind (jwk_from_slice R t) (ed25519_from_jwk_parts D b64) = Ok (if mode = SecretKey then kp else kp\<lparr>ed_secret := None\<rparr>)"
proof -
  have crv: "list_all json_plain ''X25519''" "list_all json_plain ''Ed25519''" by (simp_all add: json_plain_def)
  note read = okp_read_back [OF assms]
  show "\<exists>t. jwk_bytes b64 (x25519_encode_jwk xk) mode alg = Ok t \<and>
      res_bind (jwk_from_slice R t) (x25519_from_jwk_parts X b64) = Ok (if mode = SecretKey then xk else xk\<lparr>x_secret := None\<rparr>)"
    if "x25519_wf X xk"
    using assms(1) that read [OF crv(1)] by (cases xk) (auto simp: okp_jwk_bytes x25519_wf_def x25519_parsers split: option.splits)
  show "\<exists>t. jwk_bytes b64 (ed25519_encode_jwk kp) mode alg = Ok t \<and>
      res_bind (jwk_from_slice R t) (ed25519_from_jwk_parts D b64) = Ok (if mode = SecretKey then kp else kp\<lparr>ed_secret := None\<rparr>)"
    if "ed25519_wf D kp"
    using assms(1) that read [OF crv(2)] by (cases kp) (auto simp: okp_jwk_bytes ed25519_wf_def ed25519_parsers split: option.splits)
qed

text \<open>
  A consistent key pair is restored from the bytes of the pair and from its secret JWK, and its
  public part from its public JWK. In every mode but the secret one the JWK is the same with and without the
  secret key: it does not depend on it.
\<close>

theorem okp_round_trip:
  assumes "base64_correct b64" and "json_reader_correct R" and "x25519_wf X xk" and "ed25519_wf D kp"
  shows "(\<exists>t. to_jwk_secret b64 (x25519_encode_jwk xk) alg = Ok t \<and> res_bind (jwk_from_slice R t) (x25519_from_jwk_parts X b64) = Ok xk) \<and>
    (\<exists>t. to_jwk_secret b64 (ed25519_encode_jwk kp) alg = Ok t \<and> res_bind (jwk_from_slice R t) (ed25519_from_jwk_parts D b64) = Ok kp) \<and>
    (\<exists>t. jwk_bytes b64 (x25519_encode_jwk xk) PublicKey alg = Ok t \<and>
      res_bind (jwk_from_slice R t) (x25519_from_jwk_parts X b64) = Ok (xk\<lparr>x_secret := None\<rparr>)) \<and>
    (\<forall>t. x25519_keypair_bytes xk = Some t \<longrightarrow> x25519_from_keypair_bytes X t = Ok xk) \<and>
    (\<forall>t. ed25519_keypair_bytes kp = Some t \<longrightarrow> ed25519_from_keypair_bytes D t = Ok kp) \<and>
    (\<forall>mode. mode \<noteq> SecretKey \<longrightarrow>
      jwk_bytes b64 (x25519_encode_jwk xk) mode alg = jwk_bytes b64 (x25519_encode_jwk (xk\<lparr>x_secret := None\<rparr>)) mode alg \<and>
      jwk_bytes b64 (ed25519_encode_jwk kp) mode alg = jwk_bytes b64 (ed25519_encode_jwk (kp\<lparr>ed_secret := None\<rparr>)) mode alg)"
proof (intro conjI)
  note rt = okp_jwk_round_trip [OF assms(1,2)]
  show "\<exists>t. to_jwk_secret b64 (x25519_encode_jwk xk) alg = Ok t \<and> res_bind (jwk_from_slice R t) (x25519_from_jwk_parts X b64) = Ok xk"
    using rt(1) [OF assms(3), where mode = SecretKey] by (simp add: to_jwk_secret_def)
  show "\<exists>t. to_jwk_secret b64 (ed25519_encode_jwk kp) alg = Ok t \<and> res_bind (jwk_from_slice R t) (ed25519_from_jwk_parts D b64) = Ok kp"
    using rt(2) [OF assms(4), where mode = SecretKey] by (simp add: to_jwk_secret_def)
  show "\<exists>t. jwk_bytes b64 (x25519_encode_jwk xk) PublicKey alg = Ok t \<and>
      res_bind (jwk_from_slice R t) (x25519_from_jwk_parts X b64) = Ok (xk\<lparr>x_secret := None\<rparr>)"
    using rt(1) [OF assms(3), where mode = PublicKey] by simp
  show "\<forall>t. x25519_keypair_bytes xk = Some t \<longrightarrow> x25519_from_keypair_bytes X t = Ok xk"
    using assms(3) by (cases xk) (auto simp: x25519_keypair_bytes_def x25519_wf_def x25519_parsers)
  show "\<forall>t. ed25519_keypair_bytes kp = Some t \<longrightarrow> ed25519_from_keypair_bytes D t = Ok kp"
    using assms(4) by (cases kp) (auto simp: ed25519_keypair_bytes_def ed25519_wf_def ed25519_parsers)
  show "\<forall>mode. mode \<noteq> SecretKey \<longrightarrow>
      jwk_bytes b64 (x25519_encode_jwk xk) mode alg = jwk_bytes b64 (x25519_encode_jwk (xk\<lparr>x_secret := None\<rparr>)) mode alg \<and>
      jwk_bytes b64 (ed25519_encode_jwk kp) mode alg = jwk_bytes b64 (ed25519_encode_jwk (kp\<lparr>ed_secret := None\<rparr>)) mode alg"
    by (simp add: okp_jwk_bytes okp_attrs_def)
qed

theorem okp_round_trip_witness:
  "\<exists>t. to_jwk_secret toy_base64 (x25519_encode_jwk \<lparr>x_secret = Some (replicate 32 7), x_public = replicate 32 7\<rparr>) None = Ok t \<and>
    res_bind (jwk_from_slice toy_json t) (x25519_from_jwk_parts toy_x25519 toy_base64) =
      Ok \<lparr>x_secret = Some (replicate 32 7), x_public = replicate 32 7\<rparr>"
proof -
  have "x25519_wf toy_x25519 \<lparr>x_secret = Some (replicate 32 7), x_public = replicate 32 7\<rparr>"
    by (simp add: x25519_wf_def toy_x25519_def resized_def)
  moreover have "ed25519_wf toy_ed25519 \<lparr>ed_secret = None, ed_public = replicate 32 7\<rparr>"
    by (simp add: ed25519_wf_def toy_ed25519_def)
  ultimately show ?thesis using okp_round_trip [OF toy_base64_correct toy_json_correct] by blast
qed

end
