(* ===== verification/Ec_Keys.thy ===== *)
theory Ec_Keys
  imports Okp_Keys
begin

text \<open>
  The key pairs on the curves P-256, secp256k1 and P-384 (\<open>askar-crypto/src/alg/p256.rs\<close>,
  \<open>k256.rs\<close>, \<open>p384.rs\<close>). The three files are one program with different constants: the operations are
  given once for a curve, and then at each curve under the name of its file. The arithmetic of the
  curves is a parameter; a public key is its pair of coordinates and a secret key its bytes.
\<close>

section \<open>Constants\<close>

fun ec_jwk_curve :: "EcCurves \<Rightarrow> string" where
  "ec_jwk_curve Secp256r1 = ''P-256''"
| "ec_jwk_curve Secp256k1 = ''secp256k1''"
| "ec_jwk_curve Secp384r1 = ''P-384''"

fun ec_secret_length :: "EcCurves \<Rightarrow> nat" where
  "ec_secret_length Secp256r1 = 32"
| "ec_secret_length Secp256k1 = 32"
| "ec_secret_length Secp384r1 = 48"

fun ec_public_length :: "EcCurves \<Rightarrow> nat" where
  "ec_public_length Secp256r1 = 33"
| "ec_public_length Secp256k1 = 33"
| "ec_public_length Secp384r1 = 49"

fun ec_signature_type :: "EcCurves \<Rightarrow> SignatureType" where
  "ec_signature_type Secp256r1 = ES256"
| "ec_signature_type Secp256k1 = ES256K"
| "ec_signature_type Secp384r1 = ES384"

fun ec_keypair_message :: "EcCurves \<Rightarrow> string" where
  "ec_keypair_message Secp256r1 = ''invalid p256 keypair''"
| "ec_keypair_message Secp256k1 = ''invalid k256 keypair''"
| "ec_keypair_message Secp384r1 = ''invalid p384 keypair''"

definition EC_KEY_TYPE :: string where
  "EC_KEY_TYPE = ''EC''"

section \<open>Arithmetic\<close>

type_synonym ec_point = "bytes \<times> bytes"

record ec_env =
  ec_scalar_ok :: "bytes \<Rightarrow> bool"
  ec_public_of :: "bytes \<Rightarrow> ec_point"
  ec_on_curve :: "ec_point \<Rightarrow> bool"
  ec_from_sec1 :: "bytes \<Rightarrow> ec_point option"
  ec_to_compressed :: "ec_point \<Rightarrow> bytes"
  ec_sign_message :: "bytes \<Rightarrow> bytes \<Rightarrow> bytes"
  ec_signature_ok :: "bytes \<Rightarrow> bool"
  ec_verify_message :: "ec_point \<Rightarrow> bytes \<Rightarrow> bytes \<Rightarrow> bool"
  ec_diffie_hellman :: "bytes \<Rightarrow> ec_point \<Rightarrow> bytes"

text \<open>
  What the program relies on: the public key of a valid scalar is a point with coordinates of the
  field size, the compressed form of a point reads back, a signature is well formed and verifies,
  and the two parties of an exchange agree.
\<close>

definition ec_env_correct :: "EcCurves \<Rightarrow> ec_env \<Rightarrow> bool" where
  "ec_env_correct C E \<longleftrightarrow>
     (\<forall>sk. ec_scalar_ok E sk \<longrightarrow> ec_on_curve E (ec_public_of E sk)) \<and>
     (\<forall>p. ec_on_curve E p \<longrightarrow> length (fst p) = ec_secret_length C \<and> length (snd p) = ec_secret_length C \<and>
        length (ec_to_compressed E p) = ec_public_length C \<and> ec_from_sec1 E (ec_to_compressed E p) = Some p) \<and>
     (\<forall>bs p. ec_from_sec1 E bs = Some p \<longrightarrow> ec_on_curve E p) \<and>
     (\<forall>sk m. ec_scalar_ok E sk \<longrightarrow> ec_signature_ok E (ec_sign_message E sk m) \<and>
        ec_verify_message E (ec_public_of E sk) m (ec_sign_message E sk m)) \<and>
     (\<forall>a b. ec_scalar_ok E a \<longrightarrow> ec_scalar_ok E b \<longrightarrow>
        ec_diffie_hellman E a (ec_public_of E b) = ec_diffie_hellman E b (ec_public_of E a))"

section \<open>Operations\<close>

text \<open>
  \<open>ec_common::write_sk\<close>: the limbs of the scalar, the last one first, each in big-endian order into its
  chunk of the output, which has one chunk of eight bytes for each limb.
\<close>

definition limb_be_bytes :: "64 word \<Rightarrow> bytes" where
  "limb_be_bytes w = map (\<lambda>i. ucast (drop_bit (8 * (7 - i)) w)) [0..<8]"

definition write_sk :: "64 word list \<Rightarrow> bytes" where
  "write_sk limbs = concat (map limb_be_bytes (rev limbs))"

record EcKeyPair =
  ec_secret :: "bytes option"
  ec_public :: ec_point

definition ec_from_secret_key :: "ec_env \<Rightarrow> bytes \<Rightarrow> EcKeyPair" where
  "ec_from_secret_key E sk = \<lparr>ec_secret = Some sk, ec_public = ec_public_of E sk\<rparr>"

definition ec_check_public_bytes :: "EcCurves \<Rightarrow> ec_env \<Rightarrow> EcKeyPair \<Rightarrow> bytes \<Rightarrow> unit crypto_result" where
  "ec_check_public_bytes C E kp pk =
     (if ec_to_compressed E (ec_public kp) = pk then Ok ()
      else Err (err_msg crypto_kind.InvalidKeyData (ec_keypair_message C)))"

definition ec_sign :: "ec_env \<Rightarrow> EcKeyPair \<Rightarrow> bytes \<Rightarrow> bytes option" where
  "ec_sign E kp message = map_option (\<lambda>skey. ec_sign_message E skey message) (ec_secret kp)"

definition ec_verify :: "ec_env \<Rightarrow> EcKeyPair \<Rightarrow> bytes \<Rightarrow> bytes \<Rightarrow> bool" where
  "ec_verify E kp message signature =
     (if ec_signature_ok E signature then ec_verify_message E (ec_public kp) message signature else False)"

text \<open>
  \<open>KeyGen::generate\<close>: draws until the bytes are a valid scalar. \<open>okm i\<close> is the \<open>i\<close>-th draw; a loop that
  never ends has no value.
\<close>

partial_function (option) ec_generate_from :: "ec_env \<Rightarrow> (nat \<Rightarrow> bytes) \<Rightarrow> nat \<Rightarrow> EcKeyPair option" where
  "ec_generate_from E okm i =
     (if ec_scalar_ok E (okm i) then Some (ec_from_secret_key E (okm i)) else ec_generate_from E okm (i + 1))"

definition ec_generate :: "ec_env \<Rightarrow> (nat \<Rightarrow> bytes) \<Rightarrow> EcKeyPair option" where
  "ec_generate E okm = ec_generate_from E okm 0"

definition ec_from_secret_bytes :: "EcCurves \<Rightarrow> ec_env \<Rightarrow> bytes \<Rightarrow> EcKeyPair crypto_result" where
  "ec_from_secret_bytes C E key =
     (if length key = ec_secret_length C \<and> ec_scalar_ok E key then Ok (ec_from_secret_key E key) else invalid_key_data)"

definition ec_from_keypair_bytes :: "EcCurves \<Rightarrow> ec_env \<Rightarrow> bytes \<Rightarrow> EcKeyPair crypto_result" where
  "ec_from_keypair_bytes C E kp =
     (if length kp \<noteq> ec_secret_length C + ec_public_length C then invalid_key_data
      else
        res_bind (res_map_err (\<lambda>_. err_of_kind crypto_kind.InvalidKeyData)
          (ec_from_secret_bytes C E (take (ec_secret_length C) kp))) (\<lambda>result.
        res_bind (ec_check_public_bytes C E result (drop (ec_secret_length C) kp)) (\<lambda>_.
        Ok result)))"

definition ec_keypair_bytes :: "ec_env \<Rightarrow> EcKeyPair \<Rightarrow> bytes option" where
  "ec_keypair_bytes E kp = map_option (\<lambda>sk. sk @ ec_to_compressed E (ec_public kp)) (ec_secret kp)"

definition ec_from_public_bytes :: "ec_env \<Rightarrow> bytes \<Rightarrow> EcKeyPair crypto_result" where
  "ec_from_public_bytes E key =
     (case ec_from_sec1 E key of Some pk \<Rightarrow> Ok \<lparr>ec_secret = None, ec_public = pk\<rparr> | None \<Rightarrow> invalid_key_data)"

definition ec_write_signature :: "EcCurves \<Rightarrow> ec_env \<Rightarrow> EcKeyPair \<Rightarrow> bytes \<Rightarrow> SignatureType option \<Rightarrow> 'b buffer_ops \<Rightarrow> 'b
    \<Rightarrow> 'b crypto_result" where
  "ec_write_signature C E kp message sig_type B out =
     (if sig_type = None \<or> sig_type = Some (ec_signature_type C) then
        (case ec_sign E kp message of
           Some sig \<Rightarrow> buffer_write B sig out
         | None \<Rightarrow> Err (err_msg crypto_kind.Unsupported ''Undefined secret key''))
      else Err (err_msg crypto_kind.Unsupported ''Unsupported signature type''))"

definition ec_verify_signature :: "EcCurves \<Rightarrow> ec_env \<Rightarrow> EcKeyPair \<Rightarrow> bytes \<Rightarrow> bytes \<Rightarrow> SignatureType option \<Rightarrow> bool crypto_result" where
  "ec_verify_signature C E kp message signature sig_type =
     (if sig_type = None \<or> sig_type = Some (ec_signature_type C) then Ok (ec_verify E kp message signature)
      else Err (err_msg crypto_kind.Unsupported ''Unsupported signature type''))"

text \<open>A public key is never the identity, so it has coordinates.\<close>

definition ec_encode_jwk :: "EcCurves \<Rightarrow> EcKeyPair \<Rightarrow> 'e encode_jwk" where
  "ec_encode_jwk C kp J e =
     (let (x, y) = ec_public kp in
     res_bind (enc_add_str J ''crv'' (ec_jwk_curve C) e) (\<lambda>e.
     res_bind (enc_add_str J ''kty'' EC_KEY_TYPE e) (\<lambda>e.
     res_bind (enc_add_base64 J ''x'' x e) (\<lambda>e.
     res_bind (enc_add_base64 J ''y'' y e) (\<lambda>e.
     if enc_is_secret J e then
       (case ec_secret kp of Some sk \<Rightarrow> enc_add_base64 J ''d'' sk e | None \<Rightarrow> Ok e)
     else Ok e)))))"

definition ec_from_jwk_parts :: "EcCurves \<Rightarrow> ec_env \<Rightarrow> base64 \<Rightarrow> JwkParts \<Rightarrow> EcKeyPair crypto_result" where
  "ec_from_jwk_parts C E b64 jwk =
     (if jwk_kty jwk \<noteq> EC_KEY_TYPE then Err (err_msg crypto_kind.InvalidKeyData ''Unsupported key type'')
      else if jwk_crv jwk \<noteq> Some (ec_jwk_curve C) then Err (err_msg crypto_kind.InvalidKeyData ''Unsupported key algorithm'')
      else
        res_bind (decode_exact b64 (jwk_x jwk) (ec_secret_length C)) (\<lambda>pk_x.
        res_bind (decode_exact b64 (jwk_y jwk) (ec_secret_length C)) (\<lambda>pk_y.
        if \<not> ec_on_curve E (pk_x, pk_y) then invalid_key_data
        else if jwk_d jwk \<noteq> None then
          res_bind (decode_exact b64 (jwk_d jwk) (ec_secret_length C)) (\<lambda>arr.
          res_bind (ec_from_secret_bytes C E arr) (\<lambda>kp.
          if ec_public kp \<noteq> (pk_x, pk_y) then invalid_key_data else Ok kp))
        else Ok \<lparr>ec_secret = None, ec_public = (pk_x, pk_y)\<rparr>)))"

definition ec_write_key_exchange :: "ec_env \<Rightarrow> EcKeyPair \<Rightarrow> EcKeyPair \<Rightarrow> 'b buffer_ops \<Rightarrow> 'b \<Rightarrow> 'b crypto_result" where
  "ec_write_key_exchange E kp other B out =
     (case ec_secret kp of
        Some sk \<Rightarrow> buffer_write B (ec_diffie_hellman E sk (ec_public other)) out
      | None \<Rightarrow> Err (err_of_kind crypto_kind.MissingSecretKey))"

section \<open>The files of the other two curves\<close>

text \<open>
  The operations above are those of \<open>p256.rs\<close> at the curve \<open>Secp256r1\<close>. The other two files have the
  same text but for the curve.
\<close>

definition k256_from_secret_key :: "ec_env \<Rightarrow> bytes \<Rightarrow> EcKeyPair" where
  "k256_from_secret_key = ec_from_secret_key"

definition k256_check_public_bytes :: "ec_env \<Rightarrow> EcKeyPair \<Rightarrow> bytes \<Rightarrow> unit crypto_result" where
  "k256_check_public_bytes = ec_check_public_bytes Secp256k1"

definition k256_sign :: "ec_env \<Rightarrow> EcKeyPair \<Rightarrow> bytes \<Rightarrow> bytes option" where
  "k256_sign = ec_sign"

definition k256_verify :: "ec_env \<Rightarrow> EcKeyPair \<Rightarrow> bytes \<Rightarrow> bytes \<Rightarrow> bool" where
  "k256_verify = ec_verify"

definition k256_generate :: "ec_env \<Rightarrow> (nat \<Rightarrow> bytes) \<Rightarrow> EcKeyPair option" where
  "k256_generate = ec_generate"

definition k256_from_secret_bytes :: "ec_env \<Rightarrow> bytes \<Rightarrow> EcKeyPair crypto_result" where
  "k256_from_secret_bytes = ec_from_secret_bytes Secp256k1"

definition k256_from_keypair_bytes :: "ec_env \<Rightarrow> bytes \<Rightarrow> EcKeyPair crypto_result" where
  "k256_from_keypair_bytes = ec_from_keypair_bytes Secp256k1"

definition k256_keypair_bytes :: "ec_env \<Rightarrow> EcKeyPair \<Rightarrow> bytes option" where
  "k256_keypair_bytes = ec_keypair_bytes"

definition k256_from_public_bytes :: "ec_env \<Rightarrow> bytes \<Rightarrow> EcKeyPair crypto_result" where
  "k256_from_public_bytes = ec_from_public_bytes"

definition k256_write_signature :: "ec_env \<Rightarrow> EcKeyPair \<Rightarrow> bytes \<Rightarrow> SignatureType option \<Rightarrow> 'b buffer_ops \<Rightarrow> 'b \<Rightarrow> 'b crypto_result" where
  "k256_write_signature = ec_write_signature Secp256k1"

definition k256_verify_signature :: "ec_env \<Rightarrow> EcKeyPair \<Rightarrow> bytes \<Rightarrow> bytes \<Rightarrow> SignatureType option \<Rightarrow> bool crypto_result" where
  "k256_verify_signature = ec_verify_signature Secp256k1"

definition k256_encode_jwk :: "EcKeyPair \<Rightarrow> 'e encode_jwk" where
  "k256_encode_jwk = ec_encode_jwk Secp256k1"

definition k256_from_jwk_parts :: "ec_env \<Rightarrow> base64 \<Rightarrow> JwkParts \<Rightarrow> EcKeyPair crypto_result" where
  "k256_from_jwk_parts = ec_from_jwk_parts Secp256k1"

definition k256_write_key_exchange :: "ec_env \<Rightarrow> EcKeyPair \<Rightarrow> EcKeyPair \<Rightarrow> 'b buffer_ops \<Rightarrow> 'b \<Rightarrow> 'b crypto_result" where
  "k256_write_key_exchange = ec_write_key_exchange"

lemmas k256_defs =
  k256_from_secret_key_def k256_check_public_bytes_def k256_sign_def k256_verify_def k256_generate_def
  k256_from_secret_bytes_def k256_from_keypair_bytes_def k256_keypair_bytes_def k256_from_public_bytes_def k256_write_signature_def
  k256_verify_signature_def k256_encode_jwk_def k256_from_jwk_parts_def k256_write_key_exchange_def

definition p384_from_secret_key :: "ec_env \<Rightarrow> bytes \<Rightarrow> EcKeyPair" where
  "p384_from_secret_key = ec_from_secret_key"

definition p384_check_public_bytes :: "ec_env \<Rightarrow> EcKeyPair \<Rightarrow> bytes \<Rightarrow> unit crypto_result" where
  "p384_check_public_bytes = ec_check_public_bytes Secp384r1"

definition p384_sign :: "ec_env \<Rightarrow> EcKeyPair \<Rightarrow> bytes \<Rightarrow> bytes option" where
  "p384_sign = ec_sign"

definition p384_verify :: "ec_env \<Rightarrow> EcKeyPair \<Rightarrow> bytes \<Rightarrow> bytes \<Rightarrow> bool" where
  "p384_verify = ec_verify"

definition p384_generate :: "ec_env \<Rightarrow> (nat \<Rightarrow> bytes) \<Rightarrow> EcKeyPair option" where
  "p384_generate = ec_generate"

definition p384_from_secret_bytes :: "ec_env \<Rightarrow> bytes \<Rightarrow> EcKeyPair crypto_result" where
  "p384_from_secret_bytes = ec_from_secret_bytes Secp384r1"

definition p384_from_keypair_bytes :: "ec_env \<Rightarrow> bytes \<Rightarrow> EcKeyPair crypto_result" where
  "p384_from_keypair_bytes = ec_from_keypair_bytes Secp384r1"

definition p384_keypair_bytes :: "ec_env \<Rightarrow> EcKeyPair \<Rightarrow> bytes option" where
  "p384_keypair_bytes = ec_keypair_bytes"

definition p384_from_public_bytes :: "ec_env \<Rightarrow> bytes \<Rightarrow> EcKeyPair crypto_result" where
  "p384_from_public_bytes = ec_from_public_bytes"

definition p384_write_signature :: "ec_env \<Rightarrow> EcKeyPair \<Rightarrow> bytes \<Rightarrow> SignatureType option \<Rightarrow> 'b buffer_ops \<Rightarrow> 'b \<Rightarrow> 'b crypto_result" where
  "p384_write_signature = ec_write_signature Secp384r1"

definition p384_verify_signature :: "ec_env \<Rightarrow> EcKeyPair \<Rightarrow> bytes \<Rightarrow> bytes \<Rightarrow> SignatureType option \<Rightarrow> bool crypto_result" where
  "p384_verify_signature = ec_verify_signature Secp384r1"

definition p384_encode_jwk :: "EcKeyPair \<Rightarrow> 'e encode_jwk" where
  "p384_encode_jwk = ec_encode_jwk Secp384r1"

definition p384_from_jwk_parts :: "ec_env \<Rightarrow> base64 \<Rightarrow> JwkParts \<Rightarrow> EcKeyPair crypto_result" where
  "p384_from_jwk_parts = ec_from_jwk_parts Secp384r1"

definition p384_write_key_exchange :: "ec_env \<Rightarrow> EcKeyPair \<Rightarrow> EcKeyPair \<Rightarrow> 'b buffer_ops \<Rightarrow> 'b \<Rightarrow> 'b crypto_result" where
  "p384_write_key_exchange = ec_write_key_exchange"

lemmas p384_defs =
  p384_from_secret_key_def p384_check_public_bytes_def p384_sign_def p384_verify_def p384_generate_def
  p384_from_secret_bytes_def p384_from_keypair_bytes_def p384_keypair_bytes_def p384_from_public_bytes_def p384_write_signature_def
  p384_verify_signature_def p384_encode_jwk_def p384_from_jwk_parts_def p384_write_key_exchange_def

section \<open>Bytes of a scalar\<close>

definition be_value :: "bytes \<Rightarrow> int" where
  "be_value bs = foldl (\<lambda>a b. 256 * a + uint b) 0 bs"

fun limbs_value :: "64 word list \<Rightarrow> int" where
  "limbs_value [] = 0"
| "limbs_value (w # ws) = uint w + 2 ^ 64 * limbs_value ws"

lemma limb_byte_value: "uint (ucast (drop_bit k w :: 64 word) :: 8 word) = uint w div 2 ^ k mod 256"
proof -
  have "uint (drop_bit k w) = uint w div 2 ^ k" using uint_bounded [of w] unfolding unsigned_drop_bit_eq by (simp add: drop_bit_eq_div take_bit_int_eq_self)
  then show ?thesis by (simp add: unsigned_ucast_eq take_bit_eq_mod)
qed

lemma foldl_limb: "foldl (\<lambda>a b. 256 * a + uint b) a (limb_be_bytes w) = 2 ^ 64 * a + uint w"
proof -
  define d where "d k = uint w div 2 ^ k" for k :: nat
  define m where "m k = d k mod 256" for k
  have "0 \<le> uint w" "uint w < 2 ^ 64" using uint_bounded [of w] by simp_all
  then have "d 56 < 256" "d 56 \<ge> 0" unfolding d_def by (simp_all add: pos_imp_zdiv_nonneg_iff)
  then have top: "m 56 = d 56" by (simp add: m_def)
  have step: "d k = 256 * d (k + 8) + m k" for k
    by (simp add: d_def m_def power_add zdiv_zmult2_eq)
  have bytes: "map uint (limb_be_bytes w) = map m [56, 48, 40, 32, 24, 16, 8, 0]"
    using limb_byte_value [of 0 w] by (simp add: limb_be_bytes_def limb_byte_value upt_rec m_def d_def)
  have "foldl (\<lambda>a b. 256 * a + uint b) a bs = foldl (\<lambda>a v. 256 * a + v) a (map uint bs)" for bs :: bytes
    by (induction bs arbitrary: a) simp_all
  moreover have "d 0 = uint w" by (simp add: d_def)
  ultimately show ?thesis
    using step [of 0] step [of 8] step [of 16] step [of 24] step [of 32] step [of 40] step [of 48] top
    by (simp add: bytes)
qed

lemma length_write_sk: "length (write_sk limbs) = 8 * length limbs"
  by (induction limbs) (simp_all add: write_sk_def limb_be_bytes_def)

text \<open>
  The bytes written for a scalar are eight for each of its limbs, and read as a big-endian number
  they are the number the limbs stand for.
\<close>

theorem write_sk_value: "length (write_sk limbs) = 8 * length limbs \<and> be_value (write_sk limbs) = limbs_value limbs"
proof -
  have "foldl (\<lambda>a b. 256 * a + uint b) 0 (write_sk limbs) = limbs_value limbs"
    by (induction limbs) (simp_all add: write_sk_def foldl_limb)
  then show ?thesis by (simp add: be_value_def length_write_sk)
qed

section \<open>Key generation\<close>

lemma ec_generate_from_found:
  "(\<And>j. i \<le> j \<Longrightarrow> j < n \<Longrightarrow> \<not> ec_scalar_ok E (okm j)) \<Longrightarrow> ec_scalar_ok E (okm n) \<Longrightarrow> i \<le> n \<Longrightarrow>
   ec_generate_from E okm i = Some (ec_from_secret_key E (okm n))"
proof (induction "n - i" arbitrary: i)
  case 0
  then show ?case by (subst ec_generate_from.simps) simp
next
  case (Suc d)
  then have "\<not> ec_scalar_ok E (okm i)" "ec_generate_from E okm (i + 1) = Some (ec_from_secret_key E (okm n))" by auto
  then show ?case by (subst ec_generate_from.simps) simp
qed

lemma ec_generate_from_SomeD:
  assumes "ec_generate_from E okm i = Some kp"
  shows "\<exists>n. ec_scalar_ok E (okm n)"
proof (rule ec_generate_from.raw_induct [OF _ assms, where P = "\<lambda>E okm i kp. \<exists>n. ec_scalar_ok E (okm n)"])
  fix f :: "ec_env \<Rightarrow> (nat \<Rightarrow> bytes) \<Rightarrow> nat \<Rightarrow> EcKeyPair option" and E okm i kp
  assume hyp: "\<And>E okm i kp. f E okm i = Some kp \<Longrightarrow> \<exists>n. ec_scalar_ok E (okm n)"
    and step: "(if ec_scalar_ok E (okm i) then Some (ec_from_secret_key E (okm i)) else f E okm (i + 1)) = Some kp"
  then show "\<exists>n. ec_scalar_ok E (okm n)"
    by (cases "ec_scalar_ok E (okm i)") auto
qed

text \<open>
  Generating a key returns as soon as the generator draws a valid scalar, with the key pair of
  the first one; it is the only way to return.
\<close>

theorem ec_generate_first_valid:
  "ec_generate E okm = (if \<exists>n. ec_scalar_ok E (okm n)
     then Some (ec_from_secret_key E (okm (LEAST n. ec_scalar_ok E (okm n)))) else None)"
proof (cases "\<exists>n. ec_scalar_ok E (okm n)")
  case True
  have "ec_generate E okm = Some (ec_from_secret_key E (okm (LEAST n. ec_scalar_ok E (okm n))))"
    unfolding ec_generate_def using LeastI_ex [OF True] by (intro ec_generate_from_found) (auto dest: not_less_Least)
  with True show ?thesis by simp
next
  case False
  then show ?thesis using ec_generate_from_SomeD [of E okm 0] by (cases "ec_generate_from E okm 0") (auto simp: ec_generate_def)
qed

section \<open>Consistent key pairs and round trips\<close>

definition ec_wf :: "EcCurves \<Rightarrow> ec_env \<Rightarrow> EcKeyPair \<Rightarrow> bool" where
  "ec_wf C E kp \<longleftrightarrow> ec_on_curve E (ec_public kp) \<and>
     (case ec_secret kp of None \<Rightarrow> True
      | Some sk \<Rightarrow> length sk = ec_secret_length C \<and> ec_scalar_ok E sk \<and> ec_public kp = ec_public_of E sk)"

lemmas ec_parsers = ec_from_secret_bytes_def ec_from_keypair_bytes_def ec_from_public_bytes_def
  ec_from_jwk_parts_def ec_check_public_bytes_def ec_from_secret_key_def

lemma ec_secret_wf: "ec_env_correct C E \<Longrightarrow> ec_from_secret_bytes C E key = Ok kp \<Longrightarrow> ec_wf C E kp"
  by (auto simp: ec_wf_def ec_from_secret_bytes_def ec_from_secret_key_def invalid_key_data_def ec_env_correct_def split: if_splits)

lemma ec_public_wf: "ec_env_correct C E \<Longrightarrow> ec_from_public_bytes E key = Ok kp \<Longrightarrow> ec_wf C E kp"
  by (auto simp: ec_wf_def ec_from_public_bytes_def invalid_key_data_def ec_env_correct_def split: option.splits)

lemma ec_keypair_wf: "ec_env_correct C E \<Longrightarrow> ec_from_keypair_bytes C E key = Ok kp \<Longrightarrow> ec_wf C E kp"
  by (auto simp: ec_from_keypair_bytes_def invalid_key_data_def result_simps intro: ec_secret_wf split: if_splits)

lemma ec_bare_wf: "ec_on_curve E p \<Longrightarrow> ec_wf C E \<lparr>ec_secret = None, ec_public = p\<rparr>"
  by (simp add: ec_wf_def)

lemma ec_jwk_wf: "ec_env_correct C E \<Longrightarrow> ec_from_jwk_parts C E b64 jwk = Ok kp \<Longrightarrow> ec_wf C E kp"
  by (auto simp: ec_from_jwk_parts_def invalid_key_data_def result_simps dest: ec_secret_wf intro: ec_bare_wf split: if_splits)

text \<open>
  A key pair on P-256, secp256k1 or P-384 that is read from secret bytes, from the bytes of a
  pair, from public bytes or from a JWK is consistent: its public key is a point of the curve and
  belongs to its secret key. Its signatures verify, and two such pairs with secret keys agree on
  the shared secret.
\<close>

theorem ec_keypair_consistent:
  assumes "ec_env_correct C E"
    and "ec_from_secret_bytes C E bs = Ok kp \<or> ec_from_keypair_bytes C E bs = Ok kp \<or>
      ec_from_public_bytes E bs = Ok kp \<or> ec_from_jwk_parts C E b64 jwk = Ok kp"
  shows "ec_wf C E kp \<and>
    (\<forall>s. ec_sign E kp m = Some s \<longrightarrow> ec_verify_signature C E kp m s None = Ok True) \<and>
    (\<forall>other. ec_wf C E other \<and> ec_secret kp \<noteq> None \<and> ec_secret other \<noteq> None \<longrightarrow>
      ec_write_key_exchange E kp other B out = ec_write_key_exchange E other kp B out)"
proof -
  have wf: "ec_wf C E kp"
    using assms ec_secret_wf ec_public_wf ec_keypair_wf ec_jwk_wf by blast
  moreover have "\<forall>s. ec_sign E kp m = Some s \<longrightarrow> ec_verify_signature C E kp m s None = Ok True"
    using wf assms(1) by (auto simp: ec_sign_def ec_verify_signature_def ec_verify_def ec_wf_def ec_env_correct_def)
  moreover have "ec_write_key_exchange E kp other B out = ec_write_key_exchange E other kp B out"
    if other: "ec_wf C E other" "ec_secret kp \<noteq> None" "ec_secret other \<noteq> None" for other
  proof -
    obtain a b where "ec_secret kp = Some a" "ec_secret other = Some b" using other(2,3) by auto
    moreover from this wf other(1) assms(1) have "ec_diffie_hellman E a (ec_public other) = ec_diffie_hellman E b (ec_public kp)"
      by (simp add: ec_wf_def ec_env_correct_def)
    ultimately show ?thesis by (simp add: ec_write_key_exchange_def)
  qed
  ultimately show ?thesis by blast
qed

definition toy_ec :: "EcCurves \<Rightarrow> ec_env" where
  "toy_ec C = (let n = ec_secret_length C in
     \<lparr>ec_scalar_ok = (\<lambda>sk. sk \<noteq> [] \<and> last sk \<noteq> 0), ec_public_of = (\<lambda>sk. (resized n sk, replicate n 0)),
      ec_on_curve = (\<lambda>(x, y). length x = n \<and> y = replicate n 0),
      ec_from_sec1 = (\<lambda>bs. if length bs = Suc n then Some (tl bs, replicate n 0) else None),
      ec_to_compressed = (\<lambda>(x, y). 2 # x), ec_sign_message = (\<lambda>sk m. [1]), ec_signature_ok = (\<lambda>s. s \<noteq> []),
      ec_verify_message = (\<lambda>p m s. s = [1]), ec_diffie_hellman = (\<lambda>sk (x, y). map2 (+) (resized n sk) (resized n x))\<rparr>)"

lemma toy_ec_correct: "ec_env_correct C (toy_ec C)"
proof -
  have "resized k (resized k a) = resized k a" for k and a :: bytes by (simp add: resized_def)
  moreover have "map2 (+) a b = map2 (+) b (a :: bytes)" for a b
    by (rule nth_equalityI) (auto simp: add.commute)
  moreover have "ec_public_length C = Suc (ec_secret_length C)" by (cases C) simp_all
  ultimately show ?thesis by (simp add: ec_env_correct_def toy_ec_def Let_def split: if_splits)
qed

theorem ec_keypair_consistent_witness:
  "ec_from_secret_bytes Secp256k1 (toy_ec Secp256k1) (replicate 32 7) =
      Ok \<lparr>ec_secret = Some (replicate 32 7), ec_public = (replicate 32 7, replicate 32 0)\<rparr> \<and>
    ec_wf Secp256k1 (toy_ec Secp256k1) \<lparr>ec_secret = Some (replicate 32 7), ec_public = (replicate 32 7, replicate 32 0)\<rparr>"
proof -
  have "ec_from_secret_bytes Secp256k1 (toy_ec Secp256k1) (replicate 32 7) =
      Ok \<lparr>ec_secret = Some (replicate 32 7), ec_public = (replicate 32 7, replicate 32 0)\<rparr>"
    by (simp add: ec_from_secret_bytes_def ec_from_secret_key_def toy_ec_def resized_def)
  with ec_keypair_consistent [OF toy_ec_correct disjI1 [OF this], where m = "[]" and B = vec_buffer and out = "[]"]
  show ?thesis by blast
qed

definition ec_attrs :: "EcCurves \<Rightarrow> JwkEncoderMode \<Rightarrow> EcKeyPair \<Rightarrow> (string \<times> (string, bytes) Sum_Type.sum) list" where
  "ec_attrs C mode kp = [(''crv'', Inl (ec_jwk_curve C)), (''kty'', Inl EC_KEY_TYPE), (''x'', Inr (fst (ec_public kp))),
      (''y'', Inr (snd (ec_public kp)))] @
     (if mode = SecretKey then (case ec_secret kp of None \<Rightarrow> [] | Some sk \<Rightarrow> [(''d'', Inr sk)]) else [])"

lemma ec_encode_attrs:
  assumes "jb_mode e = mode"
  shows "ec_encode_jwk C kp (buffer_encoder b64 vec_buffer) e =
      add_attrs (buffer_encoder b64 vec_buffer) (ec_attrs C mode kp) e"
  using assms
  by (simp add: ec_encode_jwk_def ec_attrs_def buffer_encoder_def vec_add_str vec_add_as_base64
      enc_is_secret_def as_bytes_Cons split: option.split prod.split)

lemma ec_jwk_bytes:
  "jwk_bytes b64 (ec_encode_jwk C kp) mode alg = Ok (as_bytes (object_text (attr_strings b64 (ec_attrs C mode kp))))"
  by (intro jwk_bytes_attrs ec_encode_attrs; simp)

lemma ec_read_back:
  assumes "base64_correct b64" "json_reader_correct R"
  shows "jwk_from_slice R (as_bytes (object_text (attr_strings b64 (ec_attrs C mode kp)))) =
    Ok \<lparr>jwk_kty = EC_KEY_TYPE, jwk_kid = None, jwk_alg = None, jwk_crv = Some (ec_jwk_curve C),
      jwk_x = Some (b64_encode b64 (fst (ec_public kp))), jwk_y = Some (b64_encode b64 (snd (ec_public kp))),
      jwk_d = (if mode = SecretKey then map_option (b64_encode b64) (ec_secret kp) else None), jwk_k = None, jwk_key_ops = None\<rparr>"
proof -
  have "list_all json_plain (ec_jwk_curve C)" by (cases C) (simp_all add: json_plain_def)
  then have "plain_fields (ec_attrs C mode kp)"
    by (auto simp: plain_fields_def ec_attrs_def EC_KEY_TYPE_def json_plain_def split: option.split)
  from jwk_read_attrs [OF assms this] show ?thesis
    by (simp add: visit_map_def ec_attrs_def pb_new_def visit_attr_def split: option.split)
qed

lemma ec_wf_lengths:
  "ec_env_correct C E \<Longrightarrow> ec_wf C E kp \<Longrightarrow>
   length (fst (ec_public kp)) = ec_secret_length C \<and> length (snd (ec_public kp)) = ec_secret_length C \<and>
   length (ec_to_compressed E (ec_public kp)) = ec_public_length C \<and> ec_from_sec1 E (ec_to_compressed E (ec_public kp)) = Some (ec_public kp)"
  by (cases "ec_public kp") (auto simp: ec_env_correct_def ec_wf_def)

lemma ec_jwk_round_trip:
  assumes "base64_correct b64" "json_reader_correct R" "ec_env_correct C E" "ec_wf C E kp"
  shows "\<exists>t. jwk_bytes b64 (ec_encode_jwk C kp) mode alg = Ok t \<and>
    res_bind (jwk_from_slice R t) (ec_from_jwk_parts C E b64) =
      Ok (if mode = SecretKey then kp else kp\<lparr>ec_secret := None\<rparr>)"
  using assms(4) ec_wf_lengths [OF assms(3,4)] assms(1) ec_read_back [OF assms(1,2), of C mode kp]
  by (cases kp) (auto simp: ec_jwk_bytes ec_wf_def ec_from_jwk_parts_def ec_from_secret_bytes_def ec_from_secret_key_def split: option.splits)

text \<open>
  On each of the three curves a consistent key pair is restored from its secret JWK and from
  the bytes of the pair, and its public part from the public JWK and from the compressed point. In
  every mode but the secret one the JWK does not depend on the secret key.
\<close>

theorem ec_round_trip:
  assumes "base64_correct b64" and "json_reader_correct R" and "ec_env_correct C E" and "ec_wf C E kp"
  shows "(\<exists>t. to_jwk_secret b64 (ec_encode_jwk C kp) alg = Ok t \<and> res_bind (jwk_from_slice R t) (ec_from_jwk_parts C E b64) = Ok kp) \<and>
    (\<exists>t. jwk_bytes b64 (ec_encode_jwk C kp) PublicKey alg = Ok t \<and>
      res_bind (jwk_from_slice R t) (ec_from_jwk_parts C E b64) = Ok (kp\<lparr>ec_secret := None\<rparr>)) \<and>
    (\<forall>t. ec_keypair_bytes E kp = Some t \<longrightarrow> ec_from_keypair_bytes C E t = Ok kp) \<and>
    ec_from_public_bytes E (ec_to_compressed E (ec_public kp)) = Ok (kp\<lparr>ec_secret := None\<rparr>) \<and>
    (\<forall>mode. mode \<noteq> SecretKey \<longrightarrow>
      jwk_bytes b64 (ec_encode_jwk C kp) mode alg = jwk_bytes b64 (ec_encode_jwk C (kp\<lparr>ec_secret := None\<rparr>)) mode alg)"
proof (intro conjI)
  note rt = ec_jwk_round_trip [OF assms]
  show "\<exists>t. to_jwk_secret b64 (ec_encode_jwk C kp) alg = Ok t \<and> res_bind (jwk_from_slice R t) (ec_from_jwk_parts C E b64) = Ok kp"
    using rt [of SecretKey] by (simp add: to_jwk_secret_def)
  show "\<exists>t. jwk_bytes b64 (ec_encode_jwk C kp) PublicKey alg = Ok t \<and>
      res_bind (jwk_from_slice R t) (ec_from_jwk_parts C E b64) = Ok (kp\<lparr>ec_secret := None\<rparr>)"
    using rt [of PublicKey] by simp
  show "\<forall>t. ec_keypair_bytes E kp = Some t \<longrightarrow> ec_from_keypair_bytes C E t = Ok kp"
    using assms(4) ec_wf_lengths [OF assms(3,4)]
    by (cases kp) (auto simp: ec_keypair_bytes_def ec_wf_def ec_parsers)
  show "ec_from_public_bytes E (ec_to_compressed E (ec_public kp)) = Ok (kp\<lparr>ec_secret := None\<rparr>)"
    using ec_wf_lengths [OF assms(3,4)] by (simp add: ec_from_public_bytes_def)
  show "\<forall>mode. mode \<noteq> SecretKey \<longrightarrow>
      jwk_bytes b64 (ec_encode_jwk C kp) mode alg = jwk_bytes b64 (ec_encode_jwk C (kp\<lparr>ec_secret := None\<rparr>)) mode alg"
    by (simp add: ec_jwk_bytes ec_attrs_def)
qed

theorem ec_round_trip_witness:
  "\<exists>t. to_jwk_secret toy_base64 (ec_encode_jwk Secp384r1 \<lparr>ec_secret = Some (replicate 48 7), ec_public = (replicate 48 7, replicate 48 0)\<rparr>) None = Ok t \<and>
    res_bind (jwk_from_slice toy_json t) (ec_from_jwk_parts Secp384r1 (toy_ec Secp384r1) toy_base64) =
      Ok \<lparr>ec_secret = Some (replicate 48 7), ec_public = (replicate 48 7, replicate 48 0)\<rparr>"
proof -
  have "ec_wf Secp384r1 (toy_ec Secp384r1) \<lparr>ec_secret = Some (replicate 48 7), ec_public = (replicate 48 7, replicate 48 0)\<rparr>"
    by (simp add: ec_wf_def toy_ec_def resized_def)
  then show ?thesis using ec_round_trip [OF toy_base64_correct toy_json_correct toy_ec_correct] by blast
qed

end
