(* ===== verification/Bls_Keys.thy ===== *)
theory Bls_Keys
  imports Okp_Keys
begin

text \<open>
  The BLS12-381 key pairs of \<open>askar-crypto/src/alg/bls.rs\<close>: public keys on either curve or on both,
  the key generation of the BLS signature draft, and the JWK forms. A scalar is its 32 little-endian
  bytes and a point its compressed form; the arithmetic, SHA-256 and HKDF are parameters.
\<close>

section \<open>Arithmetic\<close>

record bls_env =
  bls_scalar_ok :: "bytes \<Rightarrow> bool"
  bls_from_wide :: "bytes \<Rightarrow> bytes"
  bls_g1_of :: "bytes \<Rightarrow> bytes"
  bls_g2_of :: "bytes \<Rightarrow> bytes"
  bls_g1_ok :: "bytes \<Rightarrow> bool"
  bls_g2_ok :: "bytes \<Rightarrow> bool"

text \<open>
  What the program relies on: a wide number is reduced to a scalar, and the multiples of the
  generators are points that compress to 48 and 96 bytes.
\<close>

definition bls_env_correct :: "bls_env \<Rightarrow> bool" where
  "bls_env_correct E \<longleftrightarrow>
     (\<forall>w. length (bls_from_wide E w) = 32 \<and> bls_scalar_ok E (bls_from_wide E w)) \<and>
     (\<forall>sk. bls_g1_ok E (bls_g1_of E sk) \<and> bls_g2_ok E (bls_g2_of E sk)) \<and>
     (\<forall>p. bls_g1_ok E p \<longrightarrow> length p = 48) \<and> (\<forall>p. bls_g2_ok E p \<longrightarrow> length p = 96)"

section \<open>Public keys\<close>

text \<open>\<open>Pk::Buffer\<close> of the three public key types.\<close>

datatype BlsPublic = PkG1 bytes | PkG2 bytes | PkG1G2 bytes bytes

fun bls_buffer_size :: "BlsCurves \<Rightarrow> nat" where
  "bls_buffer_size G1 = 48"
| "bls_buffer_size G2 = 96"
| "bls_buffer_size G1G2 = 144"

fun bls_jwk_curve :: "BlsCurves \<Rightarrow> string" where
  "bls_jwk_curve G1 = ''BLS12381_G1''"
| "bls_jwk_curve G2 = ''BLS12381_G2''"
| "bls_jwk_curve G1G2 = ''BLS12381_G1G2''"

fun get_jwk_curve :: "BlsCurves \<Rightarrow> KeyAlg option \<Rightarrow> string" where
  "get_jwk_curve G1G2 alg =
     (if alg = Some (Bls12_381 G1) then bls_jwk_curve G1
      else if alg = Some (Bls12_381 G2) then bls_jwk_curve G2
      else bls_jwk_curve G1G2)"
| "get_jwk_curve C alg = bls_jwk_curve C"

fun from_secret_scalar :: "BlsCurves \<Rightarrow> bls_env \<Rightarrow> bytes \<Rightarrow> BlsPublic" where
  "from_secret_scalar G1 E secret = PkG1 (bls_g1_of E secret)"
| "from_secret_scalar G2 E secret = PkG2 (bls_g2_of E secret)"
| "from_secret_scalar G1G2 E secret = PkG1G2 (bls_g1_of E secret) (bls_g2_of E secret)"

fun bls_public_from_bytes :: "BlsCurves \<Rightarrow> bls_env \<Rightarrow> bytes \<Rightarrow> BlsPublic crypto_result" where
  "bls_public_from_bytes G1 E key = (if length key = 48 \<and> bls_g1_ok E key then Ok (PkG1 key) else invalid_key_data)"
| "bls_public_from_bytes G2 E key = (if length key = 96 \<and> bls_g2_ok E key then Ok (PkG2 key) else invalid_key_data)"
| "bls_public_from_bytes G1G2 E key =
     (if length key \<noteq> 144 then invalid_key_data
      else if bls_g1_ok E (take 48 key) \<and> bls_g2_ok E (drop 48 key) then Ok (PkG1G2 (take 48 key) (drop 48 key))
      else invalid_key_data)"

text \<open>\<open>Pk::with_bytes\<close>: of a pair of points, the one for the requested algorithm, or both.\<close>

fun bls_with_bytes :: "BlsPublic \<Rightarrow> KeyAlg option \<Rightarrow> bytes" where
  "bls_with_bytes (PkG1 p) alg = p"
| "bls_with_bytes (PkG2 p) alg = p"
| "bls_with_bytes (PkG1G2 p1 p2) alg =
     (if alg = Some (Bls12_381 G1) then p1
      else if alg = Some (Bls12_381 G2) then p2
      else p1 @ p2)"

section \<open>Key material\<close>

text \<open>\<open>BlsKeyGen\<close>, with the hash and the two steps of HKDF as parameters.\<close>

record bls_kdf =
  bk_sha256 :: "bytes \<Rightarrow> bytes"
  bk_extract :: "bytes \<Rightarrow> bytes \<Rightarrow> bytes"
  bk_expand :: "bytes \<Rightarrow> bytes \<Rightarrow> nat \<Rightarrow> bytes option"

record BlsKeyGen =
  kg_salt :: "bytes option"
  kg_ikm :: bytes

definition BLS_SALT :: bytes where
  "BLS_SALT = as_bytes ''BLS-SIG-KEYGEN-SALT-''"

definition key_gen_new :: "bytes \<Rightarrow> BlsKeyGen crypto_result" where
  "key_gen_new ikm =
     (if length ikm < 32 then Err (err_msg crypto_kind.Usage ''Insufficient length for seed'')
      else Ok \<lparr>kg_salt = None, kg_ikm = ikm\<rparr>)"

definition be_bytes16 :: "nat \<Rightarrow> bytes" where
  "be_bytes16 n = [word_of_nat (n div 256), word_of_nat n]"

definition key_gen_read_okm :: "bls_kdf \<Rightarrow> nat \<Rightarrow> BlsKeyGen \<Rightarrow> (bytes \<times> BlsKeyGen) crypto_result" where
  "key_gen_read_okm K len g =
     (let salt = bk_sha256 K (case kg_salt g of None \<Rightarrow> BLS_SALT | Some salt \<Rightarrow> salt);
          g = g\<lparr>kg_salt := Some salt\<rparr>;
          prk = bk_extract K salt (kg_ikm g @ [0])
      in (case bk_expand K prk (be_bytes16 len) len of
            Some buf \<Rightarrow> Ok (buf, g)
          | None \<Rightarrow> Panic))"

section \<open>Key pairs\<close>

record BlsKeyPair =
  bls_secret :: "bytes option"
  bls_public :: BlsPublic

definition bls_from_secret_key :: "BlsCurves \<Rightarrow> bls_env \<Rightarrow> bytes \<Rightarrow> BlsKeyPair" where
  "bls_from_secret_key C E sk = \<lparr>bls_secret = Some sk, bls_public = from_secret_scalar C E sk\<rparr>"

definition bls_check_public_bytes :: "BlsKeyPair \<Rightarrow> bytes \<Rightarrow> unit crypto_result" where
  "bls_check_public_bytes kp pk =
     (if bls_with_bytes (bls_public kp) None = pk then Ok ()
      else Err (err_msg crypto_kind.InvalidKeyData ''invalid BLS keypair''))"

text \<open>
  \<open>BlsSecretKey::generate\<close>: 48 bytes of key material, with 16 zero bytes before them, read as a
  big-endian number. \<open>okm\<close> gives the bytes that the generator writes into a slice of the given length.
\<close>

definition bls_secret_generate :: "bls_env \<Rightarrow> (nat \<Rightarrow> bytes) \<Rightarrow> bytes" where
  "bls_secret_generate E okm = bls_from_wide E (rev (replicate 16 0 @ okm 48))"

definition bls_secret_from_bytes :: "bls_env \<Rightarrow> bytes \<Rightarrow> bytes crypto_result" where
  "bls_secret_from_bytes E sk =
     (if length sk \<noteq> 32 then invalid_key_data
      else
        (let skb = rev sk in
         if bls_scalar_ok E skb then Ok skb else invalid_key_data))"

definition bls_generate :: "BlsCurves \<Rightarrow> bls_env \<Rightarrow> (nat \<Rightarrow> bytes) \<Rightarrow> BlsKeyPair crypto_result" where
  "bls_generate C E okm = Ok (bls_from_secret_key C E (bls_secret_generate E okm))"

definition bls_from_seed :: "BlsCurves \<Rightarrow> bls_env \<Rightarrow> bls_kdf \<Rightarrow> bytes \<Rightarrow> BlsKeyPair crypto_result" where
  "bls_from_seed C E K seed =
     res_bind (key_gen_new seed) (\<lambda>g.
     res_bind (key_gen_read_okm K 48 g) (\<lambda>(okm, g).
     Ok (bls_from_secret_key C E (bls_secret_generate E (\<lambda>_. okm)))))"

definition bls_from_secret_bytes :: "BlsCurves \<Rightarrow> bls_env \<Rightarrow> bytes \<Rightarrow> BlsKeyPair crypto_result" where
  "bls_from_secret_bytes C E key = res_map (bls_from_secret_key C E) (bls_secret_from_bytes E key)"

definition bls_secret_bytes :: "BlsKeyPair \<Rightarrow> bytes option" where
  "bls_secret_bytes kp = map_option rev (bls_secret kp)"

definition bls_from_public_bytes :: "BlsCurves \<Rightarrow> bls_env \<Rightarrow> bytes \<Rightarrow> BlsKeyPair crypto_result" where
  "bls_from_public_bytes C E key =
     res_map (\<lambda>public. \<lparr>bls_secret = None, bls_public = public\<rparr>) (bls_public_from_bytes C E key)"

definition bls_public_bytes :: "BlsKeyPair \<Rightarrow> bytes" where
  "bls_public_bytes kp = bls_with_bytes (bls_public kp) None"

definition bls_encode_jwk :: "BlsCurves \<Rightarrow> BlsKeyPair \<Rightarrow> 'e encode_jwk" where
  "bls_encode_jwk C kp J e =
     res_bind (enc_add_str J ''crv'' (get_jwk_curve C (enc_alg J e)) e) (\<lambda>e.
     res_bind (enc_add_str J ''kty'' OKP_KEY_TYPE e) (\<lambda>e.
     res_bind (enc_add_base64 J ''x'' (bls_with_bytes (bls_public kp) (enc_alg J e)) e) (\<lambda>e.
     if enc_is_secret J e then
       (case bls_secret_bytes kp of Some sk \<Rightarrow> enc_add_base64 J ''d'' sk e | None \<Rightarrow> Ok e)
     else Ok e)))"

text \<open>The key type \<open>EC\<close> is accepted too, for keys of a previous version.\<close>

definition bls_from_jwk_parts :: "BlsCurves \<Rightarrow> bls_env \<Rightarrow> base64 \<Rightarrow> JwkParts \<Rightarrow> BlsKeyPair crypto_result" where
  "bls_from_jwk_parts C E b64 jwk =
     (if jwk_kty jwk \<noteq> OKP_KEY_TYPE \<and> jwk_kty jwk \<noteq> ''EC'' then
        Err (err_msg crypto_kind.InvalidKeyData ''Unsupported key type'')
      else if jwk_crv jwk \<noteq> Some (bls_jwk_curve C) then
        Err (err_msg crypto_kind.InvalidKeyData ''Unsupported key algorithm'')
      else
        res_bind (decode_exact b64 (jwk_x jwk) (bls_buffer_size C)) (\<lambda>pk_arr.
        if jwk_d jwk \<noteq> None then
          res_bind (decode_exact b64 (jwk_d jwk) 32) (\<lambda>sk_arr.
          res_bind (bls_secret_from_bytes E sk_arr) (\<lambda>sk.
          let result = bls_from_secret_key C E sk in
          res_bind (bls_check_public_bytes result pk_arr) (\<lambda>_. Ok result)))
        else res_map (\<lambda>public. \<lparr>bls_secret = None, bls_public = public\<rparr>) (bls_public_from_bytes C E pk_arr)))"

text \<open>\<open>From<&BlsKeyPair<G1G2>>\<close> for the key pairs on one curve.\<close>

fun bls_to_g1 :: "BlsKeyPair \<Rightarrow> BlsKeyPair option" where
  "bls_to_g1 kp = (case bls_public kp of PkG1G2 p1 p2 \<Rightarrow> Some \<lparr>bls_secret = bls_secret kp, bls_public = PkG1 p1\<rparr> | _ \<Rightarrow> None)"

fun bls_to_g2 :: "BlsKeyPair \<Rightarrow> BlsKeyPair option" where
  "bls_to_g2 kp = (case bls_public kp of PkG1G2 p1 p2 \<Rightarrow> Some \<lparr>bls_secret = bls_secret kp, bls_public = PkG2 p2\<rparr> | _ \<Rightarrow> None)"

section \<open>Consistent key pairs\<close>

fun bls_public_wf :: "BlsCurves \<Rightarrow> bls_env \<Rightarrow> BlsPublic \<Rightarrow> bool" where
  "bls_public_wf G1 E (PkG1 p) = bls_g1_ok E p"
| "bls_public_wf G2 E (PkG2 p) = bls_g2_ok E p"
| "bls_public_wf G1G2 E (PkG1G2 p1 p2) = (bls_g1_ok E p1 \<and> bls_g2_ok E p2)"
| "bls_public_wf _ _ _ = False"

definition bls_wf :: "BlsCurves \<Rightarrow> bls_env \<Rightarrow> BlsKeyPair \<Rightarrow> bool" where
  "bls_wf C E kp \<longleftrightarrow> bls_public_wf C E (bls_public kp) \<and>
     (case bls_secret kp of None \<Rightarrow> True
      | Some sk \<Rightarrow> length sk = 32 \<and> bls_scalar_ok E sk \<and> bls_public kp = from_secret_scalar C E sk)"

lemma from_secret_scalar_wf: "bls_env_correct E \<Longrightarrow> bls_public_wf C E (from_secret_scalar C E sk)"
  by (cases C) (simp_all add: bls_env_correct_def)

lemma bls_public_from_bytes_wf: "bls_public_from_bytes C E key = Ok pk \<Longrightarrow> bls_public_wf C E pk"
  by (cases C) (auto simp: invalid_key_data_def split: if_splits)

lemma bls_public_wf_bytes:
  assumes "bls_env_correct E" "bls_public_wf C E pk"
  shows "length (bls_with_bytes pk None) = bls_buffer_size C" "bls_public_from_bytes C E (bls_with_bytes pk None) = Ok pk"
proof -
  have "length p = 48" if "bls_g1_ok E p" for p using assms(1) that by (simp add: bls_env_correct_def)
  moreover have "length p = 96" if "bls_g2_ok E p" for p using assms(1) that by (simp add: bls_env_correct_def)
  ultimately show "length (bls_with_bytes pk None) = bls_buffer_size C" "bls_public_from_bytes C E (bls_with_bytes pk None) = Ok pk"
    using assms(2) by (cases C; cases pk; simp)+
qed

lemma bls_secret_from_bytes_OkD: "bls_secret_from_bytes E key = Ok sk \<Longrightarrow> length sk = 32 \<and> bls_scalar_ok E sk"
  by (auto simp: bls_secret_from_bytes_def invalid_key_data_def Let_def split: if_splits)

lemma bls_from_secret_key_wf:
  "bls_env_correct E \<Longrightarrow> length sk = 32 \<Longrightarrow> bls_scalar_ok E sk \<Longrightarrow> bls_wf C E (bls_from_secret_key C E sk)"
  by (simp add: bls_wf_def bls_from_secret_key_def from_secret_scalar_wf)

lemma bls_generate_wf: "bls_env_correct E \<Longrightarrow> bls_wf C E (bls_from_secret_key C E (bls_secret_generate E okm))"
  by (rule bls_from_secret_key_wf) (simp_all add: bls_secret_generate_def bls_env_correct_def)

lemma bls_bare_wf: "bls_public_wf C E pk \<Longrightarrow> bls_wf C E \<lparr>bls_secret = None, bls_public = pk\<rparr>"
  by (simp add: bls_wf_def)

lemma bls_read_secret_wf:
  "bls_env_correct E \<Longrightarrow> bls_secret_from_bytes E key = Ok sk \<Longrightarrow> bls_wf C E (bls_from_secret_key C E sk)"
  using bls_secret_from_bytes_OkD bls_from_secret_key_wf by blast

lemma bls_from_public_wf: "bls_from_public_bytes C E key = Ok kp \<Longrightarrow> bls_wf C E kp"
  by (auto simp: bls_from_public_bytes_def result_simps dest: bls_public_from_bytes_wf intro: bls_bare_wf)

lemma bls_from_secret_wf: "bls_env_correct E \<Longrightarrow> bls_from_secret_bytes C E key = Ok kp \<Longrightarrow> bls_wf C E kp"
  by (auto simp: bls_from_secret_bytes_def result_simps intro: bls_read_secret_wf)

lemma bls_from_jwk_wf: "bls_env_correct E \<Longrightarrow> bls_from_jwk_parts C E b64 jwk = Ok kp \<Longrightarrow> bls_wf C E kp"
  by (auto simp: bls_from_jwk_parts_def result_simps Let_def dest: bls_public_from_bytes_wf
      intro: bls_read_secret_wf bls_bare_wf split: if_splits)

lemma bls_secret_read_back:
  "bls_wf C E kp \<Longrightarrow> bls_secret kp = Some sk \<Longrightarrow>
   length (rev sk) = 32 \<and> bls_secret_from_bytes E (rev sk) = Ok sk \<and> bls_from_secret_key C E sk = kp"
  by (cases kp) (simp add: bls_wf_def bls_secret_from_bytes_def bls_from_secret_key_def)

section \<open>Round trips\<close>

text \<open>The key that is encoded when the JWK is requested for an algorithm: of a pair on both curves, the one asked for.\<close>

definition bls_view :: "BlsCurves \<Rightarrow> KeyAlg option \<Rightarrow> BlsKeyPair \<Rightarrow> BlsCurves \<times> BlsKeyPair" where
  "bls_view C alg kp =
     (case (if C = G1G2 \<and> alg = Some (Bls12_381 G1) then map_option (Pair G1) (bls_to_g1 kp)
            else if C = G1G2 \<and> alg = Some (Bls12_381 G2) then map_option (Pair G2) (bls_to_g2 kp)
            else None) of
        Some v \<Rightarrow> v
      | None \<Rightarrow> (C, kp))"

lemma bls_view:
  assumes "bls_wf C E kp" "bls_view C alg kp = (C', kp')"
  shows "bls_wf C' E kp'" "get_jwk_curve C alg = bls_jwk_curve C'"
    "bls_with_bytes (bls_public kp) alg = bls_with_bytes (bls_public kp') None" "bls_secret kp' = bls_secret kp"
  using assms by (cases C; cases "bls_public kp"; auto simp: bls_view_def bls_wf_def split: if_splits option.splits)+

definition bls_attrs :: "BlsCurves \<Rightarrow> JwkEncoderMode \<Rightarrow> BlsKeyPair \<Rightarrow> (string \<times> (string, bytes) Sum_Type.sum) list" where
  "bls_attrs C mode kp = [(''crv'', Inl (bls_jwk_curve C)), (''kty'', Inl OKP_KEY_TYPE),
      (''x'', Inr (bls_with_bytes (bls_public kp) None))] @
     (if mode = SecretKey then (case bls_secret kp of None \<Rightarrow> [] | Some sk \<Rightarrow> [(''d'', Inr (rev sk))]) else [])"

lemma bls_jwk_bytes:
  assumes "bls_wf C E kp" "bls_view C alg kp = (C', kp')"
  shows "jwk_bytes b64 (bls_encode_jwk C kp) mode alg = Ok (as_bytes (object_text (attr_strings b64 (bls_attrs C' mode kp'))))"
proof (rule jwk_bytes_attrs)
  note v = bls_view [OF assms]
  show "bls_encode_jwk C kp (buffer_encoder b64 vec_buffer) e = add_attrs (buffer_encoder b64 vec_buffer) (bls_attrs C' mode kp') e"
    if "jb_mode e = mode" "jb_alg e = alg" for e
    using that v(2,3,4) by (simp add: bls_encode_jwk_def bls_attrs_def buffer_encoder_def vec_add_str vec_add_as_base64
        enc_is_secret_def as_bytes_Cons bls_secret_bytes_def split: option.split)
qed

lemma bls_read_back:
  assumes "base64_correct b64" "json_reader_correct R"
  shows "jwk_from_slice R (as_bytes (object_text (attr_strings b64 (bls_attrs C mode kp)))) =
    Ok \<lparr>jwk_kty = OKP_KEY_TYPE, jwk_kid = None, jwk_alg = None, jwk_crv = Some (bls_jwk_curve C),
      jwk_x = Some (b64_encode b64 (bls_with_bytes (bls_public kp) None)), jwk_y = None,
      jwk_d = (if mode = SecretKey then map_option (\<lambda>sk. b64_encode b64 (rev sk)) (bls_secret kp) else None),
      jwk_k = None, jwk_key_ops = None\<rparr>"
proof -
  have "list_all json_plain (bls_jwk_curve C)" by (cases C) (simp_all add: json_plain_def)
  then have "plain_fields (bls_attrs C mode kp)"
    by (auto simp: plain_fields_def bls_attrs_def OKP_KEY_TYPE_def json_plain_def split: option.split)
  from jwk_read_attrs [OF assms this] show ?thesis
    by (simp add: visit_map_def bls_attrs_def pb_new_def visit_attr_def split: option.split)
qed

lemma bls_jwk_round_trip:
  assumes "base64_correct b64" "json_reader_correct R" "bls_env_correct E" "bls_wf C E kp" "bls_view C alg kp = (C', kp')"
  shows "\<exists>t. jwk_bytes b64 (bls_encode_jwk C kp) mode alg = Ok t \<and>
    res_bind (jwk_from_slice R t) (bls_from_jwk_parts C' E b64) =
      Ok (if mode = SecretKey then kp' else kp'\<lparr>bls_secret := None\<rparr>)"
proof -
  have wf: "bls_wf C' E kp'" by (rule bls_view(1) [OF assms(4,5)])
  note pk = bls_public_wf_bytes [OF assms(3), of C' "bls_public kp'"]
  have pk: "length (bls_with_bytes (bls_public kp') None) = bls_buffer_size C'"
    "bls_public_from_bytes C' E (bls_with_bytes (bls_public kp') None) = Ok (bls_public kp')"
    using pk wf by (simp_all add: bls_wf_def)
  have sk: "length sk = 32 \<and> bls_secret_from_bytes E (rev sk) = Ok sk \<and> bls_from_secret_key C' E sk = kp'"
    if "bls_secret kp' = Some sk" for sk
    using bls_secret_read_back [OF wf that] by simp
  show ?thesis
    using assms(1) pk sk
    by (cases kp') (auto simp: bls_jwk_bytes [OF assms(4,5)] bls_read_back [OF assms(1,2)] bls_from_jwk_parts_def Let_def
        bls_check_public_bytes_def split: option.split)
qed

text \<open>
  A consistent key pair is restored from its secret bytes and from its secret JWK, and its
  public part from the public bytes and the public JWK. A pair on both curves that is encoded for
  one of them reads back as the pair on that curve, with the same secret key.
\<close>

theorem bls_round_trip:
  assumes "base64_correct b64" and "json_reader_correct R" and "bls_env_correct E" and "bls_wf C E kp"
    and "bls_view C alg kp = (C', kp')"
  shows "(\<exists>t. to_jwk_secret b64 (bls_encode_jwk C kp) alg = Ok t \<and>
      res_bind (jwk_from_slice R t) (bls_from_jwk_parts C' E b64) = Ok kp') \<and>
    (\<exists>t. jwk_bytes b64 (bls_encode_jwk C kp) PublicKey alg = Ok t \<and>
      res_bind (jwk_from_slice R t) (bls_from_jwk_parts C' E b64) = Ok (kp'\<lparr>bls_secret := None\<rparr>)) \<and>
    bls_wf C' E kp' \<and> bls_secret kp' = bls_secret kp \<and>
    (\<forall>sk. bls_secret_bytes kp = Some sk \<longrightarrow> bls_from_secret_bytes C E sk = Ok kp) \<and>
    bls_from_public_bytes C E (bls_public_bytes kp) = Ok (kp\<lparr>bls_secret := None\<rparr>)"
proof (intro conjI)
  note rt = bls_jwk_round_trip [OF assms]
  show "\<exists>t. to_jwk_secret b64 (bls_encode_jwk C kp) alg = Ok t \<and>
      res_bind (jwk_from_slice R t) (bls_from_jwk_parts C' E b64) = Ok kp'"
    using rt [of SecretKey] by (simp add: to_jwk_secret_def)
  show "\<exists>t. jwk_bytes b64 (bls_encode_jwk C kp) PublicKey alg = Ok t \<and>
      res_bind (jwk_from_slice R t) (bls_from_jwk_parts C' E b64) = Ok (kp'\<lparr>bls_secret := None\<rparr>)"
    using rt [of PublicKey] by simp
  show "bls_wf C' E kp'" "bls_secret kp' = bls_secret kp" using bls_view [OF assms(4,5)] by simp_all
  show "\<forall>sk. bls_secret_bytes kp = Some sk \<longrightarrow> bls_from_secret_bytes C E sk = Ok kp"
    using bls_secret_read_back [OF assms(4)] by (auto simp: bls_secret_bytes_def bls_from_secret_bytes_def)
  show "bls_from_public_bytes C E (bls_public_bytes kp) = Ok (kp\<lparr>bls_secret := None\<rparr>)"
    using bls_public_wf_bytes(2) [OF assms(3), of C "bls_public kp"] assms(4)
    by (cases kp) (simp add: bls_from_public_bytes_def bls_public_bytes_def bls_wf_def)
qed

definition toy_bls :: bls_env where
  "toy_bls = \<lparr>bls_scalar_ok = (\<lambda>sk. True), bls_from_wide = resized 32, bls_g1_of = resized 48, bls_g2_of = resized 96,
     bls_g1_ok = (\<lambda>p. length p = 48), bls_g2_ok = (\<lambda>p. length p = 96)\<rparr>"

lemma toy_bls_correct: "bls_env_correct toy_bls"
  by (simp add: bls_env_correct_def toy_bls_def)

theorem bls_round_trip_witness:
  "\<exists>t. to_jwk_secret toy_base64 (bls_encode_jwk G1G2 (bls_from_secret_key G1G2 toy_bls (replicate 32 7))) (Some (Bls12_381 G1)) = Ok t \<and>
    res_bind (jwk_from_slice toy_json t) (bls_from_jwk_parts G1 toy_bls toy_base64) =
      Ok (bls_from_secret_key G1 toy_bls (replicate 32 7))"
proof -
  have wf: "bls_wf G1G2 toy_bls (bls_from_secret_key G1G2 toy_bls (replicate 32 7))"
    by (rule bls_from_secret_key_wf [OF toy_bls_correct]) (simp_all add: toy_bls_def)
  have "bls_view G1G2 (Some (Bls12_381 G1)) (bls_from_secret_key G1G2 toy_bls (replicate 32 7)) =
      (G1, bls_from_secret_key G1 toy_bls (replicate 32 7))"
    by (simp add: bls_view_def bls_from_secret_key_def)
  from bls_round_trip [OF toy_base64_correct toy_json_correct toy_bls_correct wf this] show ?thesis by blast
qed

section \<open>Key generation\<close>

text \<open>
  The generator draws the successive outputs of HKDF under the iterated hashes of the salt of the
  draft: the \<open>n\<close>-th draw after the first uses the salt hashed \<open>n + 1\<close> times.
\<close>

fun key_gen_reads :: "bls_kdf \<Rightarrow> nat \<Rightarrow> nat \<Rightarrow> BlsKeyGen \<Rightarrow> BlsKeyGen crypto_result" where
  "key_gen_reads K len 0 g = Ok g"
| "key_gen_reads K len (Suc n) g = res_bind (key_gen_read_okm K len g) (\<lambda>(okm, g). key_gen_reads K len n g)"

lemma key_gen_reads_salt:
  "key_gen_reads K len n g = Ok g' \<Longrightarrow>
   kg_ikm g' = kg_ikm g \<and> kg_salt g' = (if n = 0 then kg_salt g else
     Some ((bk_sha256 K ^^ n) (case kg_salt g of None \<Rightarrow> BLS_SALT | Some salt \<Rightarrow> salt)))"
proof (induction n arbitrary: g)
  case (Suc n)
  then show ?case
    by (auto simp: key_gen_read_okm_def Let_def result_simps funpow_swap1 split: option.splits if_splits)
qed simp

text \<open>
  A seed of at least 32 bytes gives a consistent key pair and a shorter one is refused. The
  \<open>n\<close>-th draw of the generator takes the seed with a zero byte under the salt of the draft hashed
  \<open>n + 1\<close> times, whatever was drawn before.
\<close>

theorem bls_from_seed_correct:
  assumes "bls_env_correct E" and "\<And>prk info. bk_expand K prk info 48 \<noteq> None"
  shows "(length seed < 32 \<longrightarrow> bls_from_seed C E K seed = Err (err_msg crypto_kind.Usage ''Insufficient length for seed'')) \<and>
    (32 \<le> length seed \<longrightarrow> (\<exists>kp. bls_from_seed C E K seed = Ok kp \<and> bls_wf C E kp)) \<and>
    (\<forall>n g g'. key_gen_new seed = Ok g \<and> key_gen_reads K len n g = Ok g' \<longrightarrow>
      res_map fst (key_gen_read_okm K len g') =
        (case bk_expand K (bk_extract K ((bk_sha256 K ^^ Suc n) BLS_SALT) (seed @ [0])) (be_bytes16 len) len of
           Some okm \<Rightarrow> Ok okm | None \<Rightarrow> Panic))"
proof (intro conjI impI allI)
  assume "32 \<le> length seed"
  then show "\<exists>kp. bls_from_seed C E K seed = Ok kp \<and> bls_wf C E kp"
    using assms(2) bls_generate_wf [OF assms(1)]
    by (auto simp: bls_from_seed_def key_gen_new_def key_gen_read_okm_def Let_def split: option.split)
next
  fix n g g'
  assume *: "key_gen_new seed = Ok g \<and> key_gen_reads K len n g = Ok g'"
  have "kg_ikm g = seed" "kg_salt g = None" using * by (auto simp: key_gen_new_def split: if_splits)
  with * key_gen_reads_salt [of K len n g g'] show "res_map fst (key_gen_read_okm K len g') =
      (case bk_expand K (bk_extract K ((bk_sha256 K ^^ Suc n) BLS_SALT) (seed @ [0])) (be_bytes16 len) len of
         Some okm \<Rightarrow> Ok okm | None \<Rightarrow> Panic)"
    by (cases n) (auto simp: key_gen_read_okm_def Let_def split: option.split)
qed (simp add: bls_from_seed_def key_gen_new_def)

theorem bls_from_seed_correct_witness:
  "\<exists>kp. bls_from_seed G2 toy_bls \<lparr>bk_sha256 = rev, bk_extract = (@), bk_expand = (\<lambda>prk info n. Some (resized n prk))\<rparr> (replicate 32 1) = Ok kp \<and>
    bls_wf G2 toy_bls kp"
  using bls_from_seed_correct [OF toy_bls_correct, of "\<lparr>bk_sha256 = rev, bk_extract = (@), bk_expand = (\<lambda>prk info n. Some (resized n prk))\<rparr>"
    "replicate 32 1" G2 0] by simp

end
