(* ===== verification/Symmetric_Keys.thy ===== *)
theory Symmetric_Keys
  imports Jwk Okp_Keys Aes_Key_Wrap Aes_Cbc_Hmac Kdf
begin

text \<open>
  The symmetric keys as keys (\<open>askar-crypto/src/alg/aes/mod.rs\<close>, \<open>alg/chacha20.rs\<close>): sizes, names,
  import, JWK form and creation from a key exchange or a derivation; and the deterministic
  generator of key material (\<open>askar-crypto/src/random.rs\<close>). A key is its bytes.
\<close>

section \<open>Sizes and names\<close>

fun aes_key_size :: "AesTypes \<Rightarrow> nat" where
  "aes_key_size A128Gcm = 16"
| "aes_key_size A256Gcm = 32"
| "aes_key_size A128CbcHs256 = 32"
| "aes_key_size A256CbcHs512 = 64"
| "aes_key_size A128Kw = 16"
| "aes_key_size A256Kw = 32"

fun aes_jwk_alg :: "AesTypes \<Rightarrow> string" where
  "aes_jwk_alg A128Gcm = ''A128GCM''"
| "aes_jwk_alg A256Gcm = ''A256GCM''"
| "aes_jwk_alg A128CbcHs256 = ''A128CBC-HS256''"
| "aes_jwk_alg A256CbcHs512 = ''A256CBC-HS512''"
| "aes_jwk_alg A128Kw = ''A128KW''"
| "aes_jwk_alg A256Kw = ''A256KW''"

fun chacha_key_size :: "Chacha20Types \<Rightarrow> nat" where
  "chacha_key_size C20P = 32"
| "chacha_key_size XC20P = 32"

fun chacha_jwk_alg :: "Chacha20Types \<Rightarrow> string" where
  "chacha_jwk_alg C20P = ''C20P''"
| "chacha_jwk_alg XC20P = ''XC20P''"

definition OCT_KEY_TYPE :: string where
  "OCT_KEY_TYPE = ''oct''"

section \<open>Keys\<close>

definition aes_generate :: "AesTypes \<Rightarrow> (nat \<Rightarrow> bytes) \<Rightarrow> bytes crypto_result" where
  "aes_generate T okm = Ok (okm (aes_key_size T))"

definition aes_from_secret_bytes :: "AesTypes \<Rightarrow> bytes \<Rightarrow> bytes crypto_result" where
  "aes_from_secret_bytes T key = (if length key \<noteq> aes_key_size T then invalid_key_data else Ok key)"

definition aes_from_key_derivation :: "AesTypes \<Rightarrow> key_derivation \<Rightarrow> bytes crypto_result" where
  "aes_from_key_derivation T derive = from_key_derivation (aes_key_size T) derive"

definition aes_encode_jwk :: "AesTypes \<Rightarrow> bytes \<Rightarrow> 'e encode_jwk" where
  "aes_encode_jwk T key J e =
     (if enc_is_public J e then Err (err_msg crypto_kind.Unsupported ''Cannot export as a public key'')
      else
        res_bind (if \<not> enc_is_thumbprint J e then enc_add_str J ''alg'' (aes_jwk_alg T) e else Ok e) (\<lambda>e.
        res_bind (enc_add_base64 J ''k'' key e) (enc_add_str J ''kty'' OCT_KEY_TYPE)))"

text \<open>
  \<open>FromKeyExchange\<close>: the shared secret is written into the array of the key and has to fill it.
  \<open>kx\<close> writes the shared secret of two keys.
\<close>

definition array_from_key_exchange :: "nat \<Rightarrow> (slice_writer buffer_ops \<Rightarrow> slice_writer \<Rightarrow> slice_writer crypto_result)
    \<Rightarrow> bytes crypto_result" where
  "array_from_key_exchange key_len kx =
     res_bind (kx slice_buffer (writer_from_slice (replicate key_len 0))) (\<lambda>buf.
     if slice_pos buf \<noteq> key_len then Err (err_msg crypto_kind.Usage ''Invalid length for key exchange output'')
     else Ok (slice_inner buf))"

definition aes_from_key_exchange :: "AesTypes \<Rightarrow> (slice_writer buffer_ops \<Rightarrow> slice_writer \<Rightarrow> slice_writer crypto_result)
    \<Rightarrow> bytes crypto_result" where
  "aes_from_key_exchange T kx = array_from_key_exchange (aes_key_size T) kx"

definition chacha_generate :: "Chacha20Types \<Rightarrow> (nat \<Rightarrow> bytes) \<Rightarrow> bytes crypto_result" where
  "chacha_generate T okm = Ok (okm (chacha_key_size T))"

definition chacha_from_secret_bytes :: "Chacha20Types \<Rightarrow> bytes \<Rightarrow> bytes crypto_result" where
  "chacha_from_secret_bytes T key = (if length key \<noteq> chacha_key_size T then invalid_key_data else Ok key)"

definition chacha_from_key_derivation :: "Chacha20Types \<Rightarrow> key_derivation \<Rightarrow> bytes crypto_result" where
  "chacha_from_key_derivation T derive = from_key_derivation (chacha_key_size T) derive"

definition chacha_encode_jwk :: "Chacha20Types \<Rightarrow> bytes \<Rightarrow> 'e encode_jwk" where
  "chacha_encode_jwk T key J e =
     (if enc_is_public J e then Err (err_msg crypto_kind.Unsupported ''Cannot export as a public key'')
      else
        res_bind (if \<not> enc_is_thumbprint J e then enc_add_str J ''alg'' (chacha_jwk_alg T) e else Ok e) (\<lambda>e.
        res_bind (enc_add_base64 J ''k'' key e) (enc_add_str J ''kty'' OCT_KEY_TYPE)))"

definition chacha_from_key_exchange :: "Chacha20Types \<Rightarrow> (slice_writer buffer_ops \<Rightarrow> slice_writer \<Rightarrow> slice_writer crypto_result)
    \<Rightarrow> bytes crypto_result" where
  "chacha_from_key_exchange T kx = array_from_key_exchange (chacha_key_size T) kx"

section \<open>Deterministic key material\<close>

text \<open>
  \<open>RandomDet\<close>: a ChaCha20 key stream. The foreign cipher is a parameter, the byte of the key stream
  for a key, a nonce and a position.
\<close>

type_synonym keystream = "bytes \<Rightarrow> bytes \<Rightarrow> nat \<Rightarrow> byte"

record RandomDet =
  det_key :: bytes
  det_pos :: nat

definition DETERMINISTIC_SEED_LENGTH :: nat where
  "DETERMINISTIC_SEED_LENGTH = 32"

definition DRG_NONCE :: bytes where
  "DRG_NONCE = as_bytes ''LibsodiumDRG''"

definition random_det_from_seed :: "bytes \<Rightarrow> RandomDet" where
  "random_det_from_seed seed = \<lparr>det_key = seed, det_pos = 0\<rparr>"

definition random_det_new :: "bytes \<Rightarrow> RandomDet" where
  "random_det_new seed =
     (let seed_len = min (length seed) DETERMINISTIC_SEED_LENGTH
      in random_det_from_seed (take seed_len seed @ replicate (DETERMINISTIC_SEED_LENGTH - seed_len) 0))"

definition apply_keystream :: "keystream \<Rightarrow> bytes \<Rightarrow> RandomDet \<Rightarrow> bytes \<times> RandomDet" where
  "apply_keystream ks buf g =
     (map2 (\<lambda>b i. xor b (ks (det_key g) DRG_NONCE (det_pos g + i))) buf [0..<length buf],
      g\<lparr>det_pos := det_pos g + length buf\<rparr>)"

definition le_word :: "bytes \<Rightarrow> 'a::len word" where
  "le_word bs = word_of_nat (foldr (\<lambda>b n. unat b + 256 * n) bs 0)"

definition next_u32 :: "keystream \<Rightarrow> RandomDet \<Rightarrow> 32 word \<times> RandomDet" where
  "next_u32 ks g = (let (buf, g) = apply_keystream ks (replicate 4 0) g in (le_word buf, g))"

definition next_u64 :: "keystream \<Rightarrow> RandomDet \<Rightarrow> 64 word \<times> RandomDet" where
  "next_u64 ks g = (let (buf, g) = apply_keystream ks (replicate 8 0) g in (le_word buf, g))"

definition det_fill_bytes :: "keystream \<Rightarrow> bytes \<Rightarrow> RandomDet \<Rightarrow> bytes \<times> RandomDet" where
  "det_fill_bytes ks bytes g = apply_keystream ks (map (\<lambda>b. 0) bytes) g"

definition fill_random_deterministic :: "keystream \<Rightarrow> bytes \<Rightarrow> bytes \<Rightarrow> bytes crypto_result" where
  "fill_random_deterministic ks seed output = Ok (fst (det_fill_bytes ks output (random_det_new seed)))"

section \<open>Properties\<close>

lemma det_fill_bytes_stream:
  "det_fill_bytes ks out g =
   (map (ks (det_key g) DRG_NONCE) [det_pos g..<det_pos g + length out], g\<lparr>det_pos := det_pos g + length out\<rparr>)"
  by (auto simp: det_fill_bytes_def apply_keystream_def intro!: nth_equalityI)

text \<open>
  The bytes of the generator depend on the length of what is filled only, not on what it held:
  filling two buffers one after the other gives the same bytes as filling one of their joint length,
  and seeds that agree on their first 32 bytes, after padding with zeroes, give the same bytes.
\<close>

theorem random_det_stream:
  "(let (x, g1) = det_fill_bytes ks a g; (y, g2) = det_fill_bytes ks b g1 in (x @ y, g2)) = det_fill_bytes ks (a @ b) g \<and>
   (length out = length out' \<longrightarrow> det_fill_bytes ks out g = det_fill_bytes ks out' g) \<and>
   (resized 32 seed = resized 32 seed' \<longrightarrow>
     fill_random_deterministic ks seed out = fill_random_deterministic ks seed' out)"
proof -
  have "random_det_new s = random_det_from_seed (resized 32 s)" for s
    by (simp add: random_det_new_def DETERMINISTIC_SEED_LENGTH_def resized_def min_def)
  moreover have "map f [p..<p + n] @ map f [p + n..<p + n + m] = map f [p..<p + (n + m)]" for f :: "nat \<Rightarrow> byte" and p n m
    using upt_add_eq_append [of p "p + n" m] by (simp add: add.assoc)
  ultimately show ?thesis
    by (simp add: det_fill_bytes_stream fill_random_deterministic_def add.assoc)
qed

theorem random_det_stream_witness:
  "fill_random_deterministic (\<lambda>k n i. k ! (i mod 32)) [1, 2] [9, 9, 9] =
    fill_random_deterministic (\<lambda>k n i. k ! (i mod 32)) [1, 2, 0] [9, 9, 9]"
proof -
  have "resized 32 [1, 2 :: byte] = resized 32 [1, 2, 0]" by (simp add: resized_def numeral_eq_Suc)
  with random_det_stream [where seed = "[1, 2]" and seed' = "[1, 2, 0]"] show ?thesis by blast
qed

text \<open>A key made from a key exchange is the shared secret, which must have the size of the key.\<close>

lemma array_from_key_exchange_bytes:
  "array_from_key_exchange n (\<lambda>B. buffer_write B z) =
   (if length z = n then Ok z
    else if n < length z then exceeded_buffer
    else Err (err_msg crypto_kind.Usage ''Invalid length for key exchange output''))"
  by (auto simp: array_from_key_exchange_def slice_buffer_def slice_write_def writer_from_slice_def exceeded_buffer_def Let_def)

text \<open>The attributes of a symmetric key, and that it has no public form.\<close>

definition oct_attrs :: "string \<Rightarrow> JwkEncoderMode \<Rightarrow> bytes \<Rightarrow> (string \<times> (string, bytes) Sum_Type.sum) list" where
  "oct_attrs alg mode key = (if mode = Thumbprint then [] else [(''alg'', Inl alg)]) @ [(''k'', Inr key), (''kty'', Inl OCT_KEY_TYPE)]"

lemma oct_encode_attrs:
  assumes "jb_mode e = mode" "mode \<noteq> PublicKey"
  shows "aes_encode_jwk T key (buffer_encoder b64 vec_buffer) e = add_attrs (buffer_encoder b64 vec_buffer) (oct_attrs (aes_jwk_alg T) mode key) e"
    and "chacha_encode_jwk T' key (buffer_encoder b64 vec_buffer) e = add_attrs (buffer_encoder b64 vec_buffer) (oct_attrs (chacha_jwk_alg T') mode key) e"
  using assms
  by (simp_all add: aes_encode_jwk_def chacha_encode_jwk_def oct_attrs_def buffer_encoder_def vec_add_str vec_add_as_base64
      enc_is_public_def enc_is_thumbprint_def as_bytes_Cons)

lemma oct_jwk_bytes:
  "jwk_bytes b64 (aes_encode_jwk T key) mode alg =
    (if mode = PublicKey then Err (err_msg crypto_kind.Unsupported ''Cannot export as a public key'')
     else Ok (as_bytes (object_text (attr_strings b64 (oct_attrs (aes_jwk_alg T) mode key)))))"
  "jwk_bytes b64 (chacha_encode_jwk T' key) mode alg =
    (if mode = PublicKey then Err (err_msg crypto_kind.Unsupported ''Cannot export as a public key'')
     else Ok (as_bytes (object_text (attr_strings b64 (oct_attrs (chacha_jwk_alg T') mode key)))))"
proof -
  have "jwk_bytes b64 (aes_encode_jwk T key) mode alg = Ok (as_bytes (object_text (attr_strings b64 (oct_attrs (aes_jwk_alg T) mode key))))"
    "jwk_bytes b64 (chacha_encode_jwk T' key) mode alg = Ok (as_bytes (object_text (attr_strings b64 (oct_attrs (chacha_jwk_alg T') mode key))))"
    if "mode \<noteq> PublicKey"
    using that by (intro jwk_bytes_attrs oct_encode_attrs; simp)+
  then show "jwk_bytes b64 (aes_encode_jwk T key) mode alg =
      (if mode = PublicKey then Err (err_msg crypto_kind.Unsupported ''Cannot export as a public key'')
       else Ok (as_bytes (object_text (attr_strings b64 (oct_attrs (aes_jwk_alg T) mode key)))))"
    "jwk_bytes b64 (chacha_encode_jwk T' key) mode alg =
      (if mode = PublicKey then Err (err_msg crypto_kind.Unsupported ''Cannot export as a public key'')
       else Ok (as_bytes (object_text (attr_strings b64 (oct_attrs (chacha_jwk_alg T') mode key)))))"
    by (simp_all add: jwk_bytes_def aes_encode_jwk_def chacha_encode_jwk_def enc_is_public_def buffer_encoder_def jb_new_def)
qed

lemma oct_read_back:
  assumes "base64_correct b64" "json_reader_correct R" "list_all json_plain alg"
  shows "jwk_from_slice R (as_bytes (object_text (attr_strings b64 (oct_attrs alg mode key)))) =
    Ok \<lparr>jwk_kty = OCT_KEY_TYPE, jwk_kid = None, jwk_alg = (if mode = Thumbprint then None else Some alg), jwk_crv = None,
      jwk_x = None, jwk_y = None, jwk_d = None, jwk_k = Some (b64_encode b64 key), jwk_key_ops = None\<rparr>"
proof -
  have "plain_fields (oct_attrs alg mode key)"
    using assms(3) by (auto simp: plain_fields_def oct_attrs_def OCT_KEY_TYPE_def json_plain_def)
  from jwk_read_attrs [OF assms(1,2) this] show ?thesis
    by (simp add: visit_map_def oct_attrs_def pb_new_def visit_attr_def)
qed

end
