(* ===== verification/Any_Key.thy ===== *)
theory Any_Key
  imports Ec_Keys Bls_Keys Symmetric_Keys
begin

text \<open>
  Type-erased keys (\<open>askar-crypto/src/alg/any.rs\<close>): a key of any of the supported types, and the
  dispatch of every operation to the type. Built with every key type but the hardware keys, which
  call into a platform. The arithmetic and the ciphers are collected in one parameter.
\<close>

section \<open>Keys of any type\<close>

datatype AnyKey =
    AesKey AesTypes bytes
  | BlsKey BlsCurves BlsKeyPair
  | ChachaKey Chacha20Types bytes
  | Ed25519Key Ed25519KeyPair
  | X25519Key X25519KeyPair
  | EcKey EcCurves EcKeyPair

record key_env =
  env_bls :: bls_env
  env_ed :: ed25519_env
  env_x :: x25519_env
  env_ec :: "EcCurves \<Rightarrow> ec_env"
  env_gcm :: "AesTypes \<Rightarrow> aead_cipher"
  env_cbc :: "AesTypes \<Rightarrow> cbc_hmac"
  env_kw :: "AesTypes \<Rightarrow> block_cipher"
  env_chacha :: "Chacha20Types \<Rightarrow> aead_cipher"

fun key_algorithm :: "AnyKey \<Rightarrow> KeyAlg" where
  "key_algorithm (AesKey T key) = Aes T"
| "key_algorithm (BlsKey C kp) = Bls12_381 C"
| "key_algorithm (ChachaKey T key) = Chacha20 T"
| "key_algorithm (Ed25519Key kp) = Ed25519"
| "key_algorithm (X25519Key kp) = X25519"
| "key_algorithm (EcKey C kp) = EcCurve C"

definition unsupported :: "string \<Rightarrow> 'a crypto_result" where
  "unsupported msg = Err (err_msg crypto_kind.Unsupported msg)"

section \<open>Creation\<close>

text \<open>
  \<open>generate_any_with_rng\<close>: \<open>rng i n\<close> are the \<open>n\<close> bytes of the \<open>i\<close>-th draw. The generation of a key on
  one of the EC curves may draw more than once; if it draws forever there is no result.
\<close>

fun generate_any_with_rng :: "key_env \<Rightarrow> KeyAlg \<Rightarrow> (nat \<Rightarrow> nat \<Rightarrow> bytes) \<Rightarrow> AnyKey crypto_result option" where
  "generate_any_with_rng K (Aes T) rng = Some (res_map (AesKey T) (aes_generate T (rng 0)))"
| "generate_any_with_rng K (Bls12_381 C) rng = Some (res_map (BlsKey C) (bls_generate C (env_bls K) (rng 0)))"
| "generate_any_with_rng K (Chacha20 T) rng = Some (res_map (ChachaKey T) (chacha_generate T (rng 0)))"
| "generate_any_with_rng K Ed25519 rng = Some (res_map Ed25519Key (ed25519_generate (env_ed K) (rng 0)))"
| "generate_any_with_rng K X25519 rng = Some (res_map X25519Key (x25519_generate (env_x K) (rng 0)))"
| "generate_any_with_rng K (EcCurve C) rng =
     map_option (\<lambda>kp. Ok (EcKey C kp)) (ec_generate (env_ec K C) (\<lambda>i. rng i (ec_secret_length C)))"

definition generate_any_for_hardware :: "KeyAlg \<Rightarrow> AnyKey crypto_result" where
  "generate_any_for_hardware alg = unsupported ''Unsupported algorithm for key generation with id''"

definition get_any_with_id :: "KeyAlg \<Rightarrow> string \<Rightarrow> AnyKey crypto_result" where
  "get_any_with_id alg key_id = unsupported ''Unsupported algorithm for key retrieval by id''"

fun from_public_bytes_any :: "key_env \<Rightarrow> KeyAlg \<Rightarrow> bytes \<Rightarrow> AnyKey crypto_result" where
  "from_public_bytes_any K (Bls12_381 C) public = res_map (BlsKey C) (bls_from_public_bytes C (env_bls K) public)"
| "from_public_bytes_any K Ed25519 public = res_map Ed25519Key (ed25519_from_public_bytes (env_ed K) public)"
| "from_public_bytes_any K X25519 public = res_map X25519Key (x25519_from_public_bytes public)"
| "from_public_bytes_any K (EcCurve C) public = res_map (EcKey C) (ec_from_public_bytes (env_ec K C) public)"
| "from_public_bytes_any K _ public = unsupported ''Unsupported algorithm for public key import''"

fun from_secret_bytes_any :: "key_env \<Rightarrow> KeyAlg \<Rightarrow> bytes \<Rightarrow> AnyKey crypto_result" where
  "from_secret_bytes_any K (Aes T) secret = res_map (AesKey T) (aes_from_secret_bytes T secret)"
| "from_secret_bytes_any K (Bls12_381 C) secret = res_map (BlsKey C) (bls_from_secret_bytes C (env_bls K) secret)"
| "from_secret_bytes_any K (Chacha20 T) secret = res_map (ChachaKey T) (chacha_from_secret_bytes T secret)"
| "from_secret_bytes_any K Ed25519 secret = res_map Ed25519Key (ed25519_from_secret_bytes (env_ed K) secret)"
| "from_secret_bytes_any K X25519 secret = res_map X25519Key (x25519_from_secret_bytes (env_x K) secret)"
| "from_secret_bytes_any K (EcCurve C) secret = res_map (EcKey C) (ec_from_secret_bytes C (env_ec K C) secret)"

fun from_key_exchange_any :: "KeyAlg \<Rightarrow> (slice_writer buffer_ops \<Rightarrow> slice_writer \<Rightarrow> slice_writer crypto_result)
    \<Rightarrow> AnyKey crypto_result" where
  "from_key_exchange_any (Aes T) kx = res_map (AesKey T) (aes_from_key_exchange T kx)"
| "from_key_exchange_any (Chacha20 T) kx = res_map (ChachaKey T) (chacha_from_key_exchange T kx)"
| "from_key_exchange_any _ kx = unsupported ''Unsupported algorithm for key exchange''"

fun from_key_derivation_any :: "KeyAlg \<Rightarrow> key_derivation \<Rightarrow> AnyKey crypto_result" where
  "from_key_derivation_any (Aes T) derive = res_map (AesKey T) (aes_from_key_derivation T derive)"
| "from_key_derivation_any (Chacha20 T) derive = res_map (ChachaKey T) (chacha_from_key_derivation T derive)"
| "from_key_derivation_any _ derive = unsupported ''Unsupported algorithm for key derivation''"

definition convert_key_any :: "key_env \<Rightarrow> AnyKey \<Rightarrow> KeyAlg \<Rightarrow> AnyKey crypto_result" where
  "convert_key_any K key alg =
     (case (key, alg) of
        (BlsKey G1G2 kp, Bls12_381 G1) \<Rightarrow> (case bls_to_g1 kp of Some kp1 \<Rightarrow> Ok (BlsKey G1 kp1) | None \<Rightarrow> Panic)
      | (BlsKey G1G2 kp, Bls12_381 G2) \<Rightarrow> (case bls_to_g2 kp of Some kp2 \<Rightarrow> Ok (BlsKey G2 kp2) | None \<Rightarrow> Panic)
      | (Ed25519Key kp, X25519) \<Rightarrow> res_map X25519Key (to_x25519_keypair (env_ed K) (env_x K) kp)
      | _ \<Rightarrow> unsupported ''Unsupported key conversion operation'')"

definition get_key_id_any :: "AnyKey \<Rightarrow> bytes crypto_result" where
  "get_key_id_any key = unsupported ''Unsupported get key id operation''"

text \<open>A missing curve is compared as the empty string.\<close>

definition from_jwk_any :: "key_env \<Rightarrow> base64 \<Rightarrow> JwkParts \<Rightarrow> AnyKey crypto_result" where
  "from_jwk_any K b64 jwk =
     (let kty = jwk_kty jwk; c = (case jwk_crv jwk of None \<Rightarrow> [] | Some c \<Rightarrow> c); bls = (kty = ''OKP'' \<or> kty = ''EC'') in
      if kty = ''OKP'' \<and> c = ''Ed25519'' then res_map Ed25519Key (ed25519_from_jwk_parts (env_ed K) b64 jwk)
      else if kty = ''OKP'' \<and> c = ''X25519'' then res_map X25519Key (x25519_from_jwk_parts (env_x K) b64 jwk)
      else if bls \<and> c = bls_jwk_curve G1 then res_map (BlsKey G1) (bls_from_jwk_parts G1 (env_bls K) b64 jwk)
      else if bls \<and> c = bls_jwk_curve G2 then res_map (BlsKey G2) (bls_from_jwk_parts G2 (env_bls K) b64 jwk)
      else if bls \<and> c = bls_jwk_curve G1G2 then res_map (BlsKey G1G2) (bls_from_jwk_parts G1G2 (env_bls K) b64 jwk)
      else if kty = ''EC'' \<and> c = ec_jwk_curve Secp256k1 then
        res_map (EcKey Secp256k1) (ec_from_jwk_parts Secp256k1 (env_ec K Secp256k1) b64 jwk)
      else if kty = ''EC'' \<and> c = ec_jwk_curve Secp256r1 then
        res_map (EcKey Secp256r1) (ec_from_jwk_parts Secp256r1 (env_ec K Secp256r1) b64 jwk)
      else if kty = ''EC'' \<and> c = ec_jwk_curve Secp384r1 then
        res_map (EcKey Secp384r1) (ec_from_jwk_parts Secp384r1 (env_ec K Secp384r1) b64 jwk)
      else unsupported ''Unsupported JWK for key import'')"

section \<open>Use\<close>

text \<open>\<open>key_to_secret\<close> and \<open>key_to_public\<close> give the bytes that the traits of \<open>repr.rs\<close> write.\<close>

fun any_secret_bytes :: "AnyKey \<Rightarrow> bytes option" where
  "any_secret_bytes (AesKey T key) = Some key"
| "any_secret_bytes (BlsKey C kp) = bls_secret_bytes kp"
| "any_secret_bytes (ChachaKey T key) = Some key"
| "any_secret_bytes (Ed25519Key kp) = ed_secret kp"
| "any_secret_bytes (X25519Key kp) = x_secret kp"
| "any_secret_bytes (EcKey C kp) = ec_secret kp"

definition any_write_secret_bytes :: "AnyKey \<Rightarrow> 'b buffer_ops \<Rightarrow> 'b \<Rightarrow> 'b crypto_result" where
  "any_write_secret_bytes key B out = write_opt_bytes B (any_secret_bytes key) out"

fun any_public_bytes :: "key_env \<Rightarrow> AnyKey \<Rightarrow> bytes crypto_result" where
  "any_public_bytes K (BlsKey C kp) = Ok (bls_public_bytes kp)"
| "any_public_bytes K (Ed25519Key kp) = Ok (ed_public kp)"
| "any_public_bytes K (X25519Key kp) = Ok (x_public kp)"
| "any_public_bytes K (EcKey C kp) = Ok (ec_to_compressed (env_ec K C) (ec_public kp))"
| "any_public_bytes K _ = unsupported ''Public key export is not supported for this key type''"

definition any_write_public_bytes :: "key_env \<Rightarrow> AnyKey \<Rightarrow> 'b buffer_ops \<Rightarrow> 'b \<Rightarrow> 'b crypto_result" where
  "any_write_public_bytes K key B out = res_bind (any_public_bytes K key) (\<lambda>bs. buffer_write B bs out)"

text \<open>Two keys have the same type exactly when they have the same algorithm.\<close>

definition any_write_key_exchange :: "key_env \<Rightarrow> AnyKey \<Rightarrow> AnyKey \<Rightarrow> 'b buffer_ops \<Rightarrow> 'b \<Rightarrow> 'b crypto_result" where
  "any_write_key_exchange K key other B out =
     (if key_algorithm key \<noteq> key_algorithm other then unsupported ''Unsupported key exchange''
      else
        (case (key, other) of
           (X25519Key kp, X25519Key kp') \<Rightarrow> x25519_write_key_exchange (env_x K) kp kp' B out
         | (EcKey C kp, EcKey C' kp') \<Rightarrow> ec_write_key_exchange (env_ec K C) kp kp' B out
         | _ \<Rightarrow> unsupported ''Unsupported key exchange''))"

fun any_encode_jwk :: "AnyKey \<Rightarrow> 'e encode_jwk" where
  "any_encode_jwk (AesKey T key) = aes_encode_jwk T key"
| "any_encode_jwk (BlsKey C kp) = bls_encode_jwk C kp"
| "any_encode_jwk (ChachaKey T key) = chacha_encode_jwk T key"
| "any_encode_jwk (Ed25519Key kp) = ed25519_encode_jwk kp"
| "any_encode_jwk (X25519Key kp) = x25519_encode_jwk kp"
| "any_encode_jwk (EcKey C kp) = ec_encode_jwk C kp"

fun any_write_signature :: "key_env \<Rightarrow> AnyKey \<Rightarrow> bytes \<Rightarrow> SignatureType option \<Rightarrow> 'b buffer_ops \<Rightarrow> 'b \<Rightarrow> 'b crypto_result" where
  "any_write_signature K (Ed25519Key kp) message sig_type B out = ed25519_write_signature (env_ed K) kp message sig_type B out"
| "any_write_signature K (EcKey C kp) message sig_type B out = ec_write_signature C (env_ec K C) kp message sig_type B out"
| "any_write_signature K _ message sig_type B out = unsupported ''Signing is not supported for this key type''"

fun any_verify_signature :: "key_env \<Rightarrow> AnyKey \<Rightarrow> bytes \<Rightarrow> bytes \<Rightarrow> SignatureType option \<Rightarrow> bool crypto_result" where
  "any_verify_signature K (Ed25519Key kp) message signature sig_type = ed25519_verify_signature (env_ed K) kp message signature sig_type"
| "any_verify_signature K (EcKey C kp) message signature sig_type = ec_verify_signature C (env_ec K C) kp message signature sig_type"
| "any_verify_signature K _ message signature sig_type = unsupported ''Signature verification is not supported for this key type''"

text \<open>\<open>key_as_aead\<close>: what the cipher of an AES key is.\<close>

datatype aes_mode = ModeGcm | ModeCbc | ModeKw

fun aes_mode_of :: "AesTypes \<Rightarrow> aes_mode" where
  "aes_mode_of A128Gcm = ModeGcm"
| "aes_mode_of A256Gcm = ModeGcm"
| "aes_mode_of A128CbcHs256 = ModeCbc"
| "aes_mode_of A256CbcHs512 = ModeCbc"
| "aes_mode_of A128Kw = ModeKw"
| "aes_mode_of A256Kw = ModeKw"

fun any_encrypt_in_place :: "key_env \<Rightarrow> AnyKey \<Rightarrow> 'b buffer_ops \<Rightarrow> bytes \<Rightarrow> bytes \<Rightarrow> 'b \<Rightarrow> (nat \<times> 'b) crypto_result" where
  "any_encrypt_in_place K (AesKey T key) B nonce aad buffer =
     (case aes_mode_of T of
        ModeGcm \<Rightarrow> aes_gcm_encrypt_in_place (env_gcm K T) B key nonce aad buffer
      | ModeCbc \<Rightarrow> cbc_hmac_encrypt_in_place (env_cbc K T) B key nonce aad buffer
      | ModeKw \<Rightarrow> kw_encrypt_in_place (env_kw K T) B key nonce aad buffer)"
| "any_encrypt_in_place K (ChachaKey T key) B nonce aad buffer =
     chacha20_encrypt_in_place (env_chacha K T) B key nonce aad buffer"
| "any_encrypt_in_place K _ B nonce aad buffer = unsupported ''AEAD is not supported for this key type''"

fun any_decrypt_in_place :: "key_env \<Rightarrow> AnyKey \<Rightarrow> 'b buffer_ops \<Rightarrow> bytes \<Rightarrow> bytes \<Rightarrow> 'b \<Rightarrow> 'b crypto_result" where
  "any_decrypt_in_place K (AesKey T key) B nonce aad buffer =
     (case aes_mode_of T of
        ModeGcm \<Rightarrow> aes_gcm_decrypt_in_place (env_gcm K T) B key nonce aad buffer
      | ModeCbc \<Rightarrow> cbc_hmac_decrypt_in_place (env_cbc K T) B key nonce aad buffer
      | ModeKw \<Rightarrow> kw_decrypt_in_place (env_kw K T) B key nonce aad buffer)"
| "any_decrypt_in_place K (ChachaKey T key) B nonce aad buffer =
     chacha20_decrypt_in_place (env_chacha K T) B key nonce aad buffer"
| "any_decrypt_in_place K _ B nonce aad buffer = unsupported ''AEAD is not supported for this key type''"

fun any_aead_params :: "key_env \<Rightarrow> AnyKey \<Rightarrow> KeyAeadParams" where
  "any_aead_params K (AesKey T key) =
     (case aes_mode_of T of
        ModeGcm \<Rightarrow> aead_params (env_gcm K T)
      | ModeCbc \<Rightarrow> cbc_hmac_params (env_cbc K T)
      | ModeKw \<Rightarrow> \<lparr>nonce_length = 0, tag_length = 8\<rparr>)"
| "any_aead_params K (ChachaKey T key) = aead_params (env_chacha K T)"
| "any_aead_params K _ = \<lparr>nonce_length = 0, tag_length = 0\<rparr>"

fun any_aead_padding :: "key_env \<Rightarrow> AnyKey \<Rightarrow> nat \<Rightarrow> nat" where
  "any_aead_padding K (AesKey T key) msg_len =
     (case aes_mode_of T of ModeCbc \<Rightarrow> padding_length (env_cbc K T) msg_len | _ \<Rightarrow> 0)"
| "any_aead_padding K _ msg_len = 0"

section \<open>Consistent keys\<close>

definition key_env_correct :: "key_env \<Rightarrow> bool" where
  "key_env_correct K \<longleftrightarrow> bls_env_correct (env_bls K) \<and> ed25519_env_correct (env_ed K) \<and> x25519_env_correct (env_x K) \<and>
     (\<forall>C. ec_env_correct C (env_ec K C)) \<and> (\<forall>T. aead_correct (env_gcm K T)) \<and> (\<forall>T. cbc_hmac_correct (env_cbc K T)) \<and>
     (\<forall>T. block_cipher_correct (env_kw K T)) \<and> (\<forall>T. aead_correct (env_chacha K T))"

lemma key_env_correctD:
  assumes "key_env_correct K"
  shows "bls_env_correct (env_bls K)" "ed25519_env_correct (env_ed K)" "x25519_env_correct (env_x K)"
    "ec_env_correct C (env_ec K C)" "aead_correct (env_gcm K T)" "cbc_hmac_correct (env_cbc K T)"
    "block_cipher_correct (env_kw K T)" "aead_correct (env_chacha K T')"
  using assms by (simp_all add: key_env_correct_def)

lemmas any_parsed_wf =
  bls_from_secret_wf [OF key_env_correctD(1)] bls_from_public_wf bls_from_jwk_wf [OF key_env_correctD(1)]
  ed25519_secret_wf [OF key_env_correctD(2)] ed25519_public_wf ed25519_jwk_wf [OF key_env_correctD(2)]
  x25519_secret_wf [OF key_env_correctD(3)] x25519_public_wf x25519_jwk_wf [OF key_env_correctD(3)]
  ec_secret_wf [OF key_env_correctD(4)] ec_public_wf [OF key_env_correctD(4)] ec_jwk_wf [OF key_env_correctD(4)]

fun any_wf :: "key_env \<Rightarrow> AnyKey \<Rightarrow> bool" where
  "any_wf K (AesKey T key) = (length key = aes_key_size T)"
| "any_wf K (BlsKey C kp) = bls_wf C (env_bls K) kp"
| "any_wf K (ChachaKey T key) = (length key = chacha_key_size T)"
| "any_wf K (Ed25519Key kp) = ed25519_wf (env_ed K) kp"
| "any_wf K (X25519Key kp) = x25519_wf (env_x K) kp"
| "any_wf K (EcKey C kp) = ec_wf C (env_ec K C) kp"

fun symmetric_alg :: "KeyAlg \<Rightarrow> bool" where
  "symmetric_alg (Aes T) = True"
| "symmetric_alg (Chacha20 T) = True"
| "symmetric_alg _ = False"

lemma from_secret_bytes_any_wf:
  "key_env_correct K \<Longrightarrow> from_secret_bytes_any K alg bs = Ok key \<Longrightarrow> any_wf K key \<and> key_algorithm key = alg"
  by (cases alg) (auto simp: result_simps aes_from_secret_bytes_def chacha_from_secret_bytes_def invalid_key_data_def
      intro: any_parsed_wf split: if_splits)

lemma from_public_bytes_any_wf:
  "key_env_correct K \<Longrightarrow> from_public_bytes_any K alg bs = Ok key \<Longrightarrow> any_wf K key \<and> key_algorithm key = alg"
  by (cases alg) (auto simp: result_simps unsupported_def intro: any_parsed_wf)

lemma from_jwk_any_wf:
  assumes "key_env_correct K" "from_jwk_any K b64 jwk = Ok key"
  shows "any_wf K key \<and> \<not> symmetric_alg (key_algorithm key)"
  using assms by (auto simp: from_jwk_any_def Let_def result_simps unsupported_def
      intro: any_parsed_wf split: if_splits)

lemma any_secret_read_back:
  assumes "key_env_correct K" "any_wf K key" "any_secret_bytes key = Some sk"
  shows "from_secret_bytes_any K (key_algorithm key) sk = Ok key"
proof (cases key)
  case (BlsKey C kp)
  with assms(2,3) show ?thesis
    using bls_secret_read_back [of C "env_bls K" kp] by (auto simp: bls_secret_bytes_def bls_from_secret_bytes_def)
next
  case (Ed25519Key kp)
  with assms(2,3) show ?thesis by (cases kp) (auto simp: ed25519_wf_def ed25519_from_secret_bytes_def ed25519_from_secret_key_def)
next
  case (X25519Key kp)
  with assms(2,3) show ?thesis by (cases kp) (auto simp: x25519_wf_def x25519_from_secret_bytes_def x25519_from_secret_key_def)
next
  case (EcKey C kp)
  with assms(2,3) show ?thesis by (cases kp) (auto simp: ec_wf_def ec_from_secret_bytes_def ec_from_secret_key_def)
qed (use assms(2,3) in \<open>auto simp: aes_from_secret_bytes_def chacha_from_secret_bytes_def\<close>)

text \<open>
  Every import of a key, from secret bytes, from public bytes or from a JWK, gives a consistent
  key of the algorithm that was asked for, and writing the bytes of a key and reading them for its
  algorithm restores it.
\<close>

theorem any_key_bytes_round_trip:
  assumes "key_env_correct K"
  shows "(from_secret_bytes_any K alg bs = Ok key \<or> from_public_bytes_any K alg bs = Ok key \<longrightarrow> any_wf K key \<and> key_algorithm key = alg) \<and>
    (from_jwk_any K b64 jwk = Ok key \<longrightarrow> any_wf K key) \<and>
    (any_wf K key \<longrightarrow>
      (\<forall>sk. any_secret_bytes key = Some sk \<longrightarrow> from_secret_bytes_any K (key_algorithm key) sk = Ok key) \<and>
      (\<forall>pk. any_public_bytes K key = Ok pk \<longrightarrow>
        (\<exists>pub. from_public_bytes_any K (key_algorithm key) pk = Ok pub \<and> any_wf K pub \<and> any_secret_bytes pub = None \<and>
          any_public_bytes K pub = Ok pk)))"
proof (intro conjI impI)
  note K = key_env_correctD [OF assms]
  show "any_wf K key" "key_algorithm key = alg"
    if "from_secret_bytes_any K alg bs = Ok key \<or> from_public_bytes_any K alg bs = Ok key"
    using that from_secret_bytes_any_wf [OF assms] from_public_bytes_any_wf [OF assms] by blast+
  show "any_wf K key" if "from_jwk_any K b64 jwk = Ok key" using from_jwk_any_wf [OF assms that] by blast
  assume wf: "any_wf K key"
  show "\<forall>sk. any_secret_bytes key = Some sk \<longrightarrow> from_secret_bytes_any K (key_algorithm key) sk = Ok key"
    using any_secret_read_back [OF assms wf] by blast
  show "\<forall>pk. any_public_bytes K key = Ok pk \<longrightarrow>
        (\<exists>pub. from_public_bytes_any K (key_algorithm key) pk = Ok pub \<and> any_wf K pub \<and> any_secret_bytes pub = None \<and>
          any_public_bytes K pub = Ok pk)"
  proof (cases key)
    case (BlsKey C kp)
    with wf show ?thesis
      using bls_public_wf_bytes(2) [OF K(1), of C "bls_public kp"]
      by (auto simp: bls_from_public_bytes_def bls_public_bytes_def bls_wf_def bls_secret_bytes_def)
  next
    case (Ed25519Key kp)
    with wf show ?thesis by (auto simp: ed25519_wf_def ed25519_from_public_bytes_def)
  next
    case (X25519Key kp)
    with wf show ?thesis by (auto simp: x25519_wf_def x25519_from_public_bytes_def)
  next
    case (EcKey C kp)
    with wf show ?thesis
      using ec_wf_lengths [OF K(4), of C kp] by (auto simp: ec_from_public_bytes_def ec_wf_def)
  qed (simp_all add: unsupported_def)
qed

text \<open>Stand-ins for the arithmetic and the ciphers that meet the hypotheses.\<close>

definition toy_keys :: key_env where
  "toy_keys = \<lparr>env_bls = toy_bls, env_ed = toy_ed25519, env_x = toy_x25519, env_ec = toy_ec, env_gcm = (\<lambda>T. null_cipher),
     env_cbc = (\<lambda>T. toy_cbc), env_kw = (\<lambda>T. rev_cipher), env_chacha = (\<lambda>T. null_cipher)\<rparr>"

lemma toy_keys_correct: "key_env_correct toy_keys"
  by (simp add: key_env_correct_def toy_keys_def toy_bls_correct toy_ed25519_correct toy_x25519_correct toy_ec_correct)

theorem any_key_bytes_round_trip_witness:
  "from_secret_bytes_any toy_keys (Aes A128Gcm) (replicate 16 7) = Ok (AesKey A128Gcm (replicate 16 7)) \<and>
    any_wf toy_keys (AesKey A128Gcm (replicate 16 7))"
proof -
  have "from_secret_bytes_any toy_keys (Aes A128Gcm) (replicate 16 7) = Ok (AesKey A128Gcm (replicate 16 7))"
    by (simp add: aes_from_secret_bytes_def)
  with any_key_bytes_round_trip [OF toy_keys_correct] show ?thesis by blast
qed

section \<open>Keys as JWK\<close>

lemma from_jwk_any_dispatch:
  "jwk_kty p = OKP_KEY_TYPE \<Longrightarrow> jwk_crv p = Some ''Ed25519'' \<Longrightarrow> from_jwk_any K b64 p = res_map Ed25519Key (ed25519_from_jwk_parts (env_ed K) b64 p)"
  "jwk_kty p = OKP_KEY_TYPE \<Longrightarrow> jwk_crv p = Some ''X25519'' \<Longrightarrow> from_jwk_any K b64 p = res_map X25519Key (x25519_from_jwk_parts (env_x K) b64 p)"
  "jwk_kty p = OKP_KEY_TYPE \<Longrightarrow> jwk_crv p = Some (bls_jwk_curve B) \<Longrightarrow> from_jwk_any K b64 p = res_map (BlsKey B) (bls_from_jwk_parts B (env_bls K) b64 p)"
  "jwk_kty p = EC_KEY_TYPE \<Longrightarrow> jwk_crv p = Some (ec_jwk_curve C) \<Longrightarrow> from_jwk_any K b64 p = res_map (EcKey C) (ec_from_jwk_parts C (env_ec K C) b64 p)"
  "jwk_kty p = OCT_KEY_TYPE \<Longrightarrow> from_jwk_any K b64 p = unsupported ''Unsupported JWK for key import''"
  by (cases B; cases C; simp add: from_jwk_any_def Let_def OKP_KEY_TYPE_def EC_KEY_TYPE_def OCT_KEY_TYPE_def)+

text \<open>The key without its secret part.\<close>

fun any_without_secret :: "AnyKey \<Rightarrow> AnyKey" where
  "any_without_secret (BlsKey C kp) = BlsKey C (kp\<lparr>bls_secret := None\<rparr>)"
| "any_without_secret (Ed25519Key kp) = Ed25519Key (kp\<lparr>ed_secret := None\<rparr>)"
| "any_without_secret (X25519Key kp) = X25519Key (kp\<lparr>x_secret := None\<rparr>)"
| "any_without_secret (EcKey C kp) = EcKey C (kp\<lparr>ec_secret := None\<rparr>)"
| "any_without_secret key = key"

lemma any_asymmetric_jwk:
  assumes "base64_correct b64" "json_reader_correct R" "key_env_correct K" "any_wf K key" "\<not> symmetric_alg (key_algorithm key)"
    and "alg = None \<or> alg = Some (key_algorithm key)"
  shows "\<exists>t. jwk_bytes b64 (any_encode_jwk key) mode alg = Ok t \<and>
    res_bind (jwk_from_slice R t) (from_jwk_any K b64) = Ok (if mode = SecretKey then key else any_without_secret key)"
proof (cases key)
  case (BlsKey C kp)
  have v: "bls_view C alg kp = (C, kp)" using assms(6) BlsKey by (auto simp: bls_view_def)
  from BlsKey assms(4) have wf: "bls_wf C (env_bls K) kp" by simp
  from bls_jwk_round_trip [OF assms(1,2) key_env_correctD(1) [OF assms(3)] wf v, of mode] show ?thesis
    by (auto simp: BlsKey bls_jwk_bytes [OF wf v] bls_read_back [OF assms(1,2)] from_jwk_any_dispatch(3))
next
  case (Ed25519Key kp)
  have crv: "list_all json_plain ''Ed25519''" by (simp add: json_plain_def)
  from okp_jwk_round_trip(2) [OF assms(1,2), of "env_ed K" kp mode alg] assms(4) Ed25519Key show ?thesis
    by (auto simp: okp_jwk_bytes okp_read_back [OF assms(1,2) crv] from_jwk_any_dispatch(1))
next
  case (X25519Key kp)
  have crv: "list_all json_plain ''X25519''" by (simp add: json_plain_def)
  from okp_jwk_round_trip(1) [OF assms(1,2), of "env_x K" kp mode alg] assms(4) X25519Key show ?thesis
    by (auto simp: okp_jwk_bytes okp_read_back [OF assms(1,2) crv] from_jwk_any_dispatch(2))
next
  case (EcKey C kp)
  from ec_jwk_round_trip [OF assms(1,2) key_env_correctD(4) [OF assms(3)], of C kp mode alg] assms(4) EcKey show ?thesis
    by (auto simp: ec_jwk_bytes ec_read_back [OF assms(1,2)] from_jwk_any_dispatch(4))
qed (use assms(5) in simp_all)

lemma any_symmetric_jwk:
  assumes "base64_correct b64" "json_reader_correct R" "symmetric_alg (key_algorithm key)"
  shows "jwk_bytes b64 (any_encode_jwk key) PublicKey alg = unsupported ''Cannot export as a public key'' \<and>
    (mode \<noteq> PublicKey \<longrightarrow> (\<exists>t. jwk_bytes b64 (any_encode_jwk key) mode alg = Ok t \<and>
      res_bind (jwk_from_slice R t) (from_jwk_any K b64) = unsupported ''Unsupported JWK for key import''))"
proof (cases key)
  case (AesKey T k)
  have "list_all json_plain (aes_jwk_alg T)" by (cases T) (simp_all add: json_plain_def)
  from oct_read_back [OF assms(1,2) this] AesKey show ?thesis
    by (simp add: oct_jwk_bytes from_jwk_any_dispatch(5) unsupported_def)
next
  case (ChachaKey T k)
  have "list_all json_plain (chacha_jwk_alg T)" by (cases T) (simp_all add: json_plain_def)
  from oct_read_back [OF assms(1,2) this] ChachaKey show ?thesis
    by (simp add: oct_jwk_bytes from_jwk_any_dispatch(5) unsupported_def)
qed (use assms(3) in simp_all)

text \<open>
  C39. The JWK of a consistent key, requested for no algorithm or for its own, reads back as the same
  key, or without its secret part when the secret was not asked for; this holds for every key pair.
  A symmetric key can be written as a secret JWK but no JWK that is written for it can be read.
\<close>

theorem any_key_jwk_round_trip:
  assumes "base64_correct b64" and "json_reader_correct R" and "key_env_correct K" and "any_wf K key"
    and "alg = None \<or> alg = Some (key_algorithm key)"
  shows "if symmetric_alg (key_algorithm key)
    then jwk_bytes b64 (any_encode_jwk key) PublicKey alg = unsupported ''Cannot export as a public key'' \<and>
      (\<exists>t. to_jwk_secret b64 (any_encode_jwk key) alg = Ok t \<and>
        res_bind (jwk_from_slice R t) (from_jwk_any K b64) = unsupported ''Unsupported JWK for key import'')
    else (\<exists>t. to_jwk_secret b64 (any_encode_jwk key) alg = Ok t \<and> res_bind (jwk_from_slice R t) (from_jwk_any K b64) = Ok key) \<and>
      (\<exists>t. jwk_bytes b64 (any_encode_jwk key) PublicKey alg = Ok t \<and>
        res_bind (jwk_from_slice R t) (from_jwk_any K b64) = Ok (any_without_secret key))"
  using any_symmetric_jwk [OF assms(1,2), of key alg SecretKey K]
    any_asymmetric_jwk [OF assms(1-4) _ assms(5), of SecretKey] any_asymmetric_jwk [OF assms(1-4) _ assms(5), of PublicKey]
  by (simp add: to_jwk_secret_def)

theorem any_key_jwk_round_trip_witness:
  "\<exists>t. to_jwk_secret toy_base64 (any_encode_jwk (ChachaKey XC20P (replicate 32 7))) None = Ok t \<and>
    res_bind (jwk_from_slice toy_json t) (from_jwk_any toy_keys toy_base64) = unsupported ''Unsupported JWK for key import''"
  using any_key_jwk_round_trip [OF toy_base64_correct toy_json_correct toy_keys_correct, of "ChachaKey XC20P (replicate 32 7)" None]
  by simp

section \<open>Encryption, exchange and signatures\<close>

context resize_buffer
begin

lemma any_aead_round_trip:
  assumes "key_env_correct K" "valid b" "any_encrypt_in_place K key B n a b = Ok (len, b')"
  shows "\<exists>b''. any_decrypt_in_place K key B n a b' = Ok b'' \<and> valid b'' \<and> buf_as_ref B b'' = buf_as_ref B b"
proof (cases key)
  case (AesKey T k)
  then show ?thesis
    using assms(3) aead_round_trip [OF assms(2) key_env_correctD(5) [OF assms(1)]]
      cbc_round_trip [OF assms(2) key_env_correctD(6) [OF assms(1)]] kw_round_trip [OF assms(2) key_env_correctD(7) [OF assms(1)]]
    by (cases "aes_mode_of T") (simp_all add: aes_gcm_encrypt_eq aes_gcm_decrypt_in_place_def)
next
  case (ChachaKey T k)
  then show ?thesis
    using assms(3) aead_round_trip [OF assms(2) key_env_correctD(8) [OF assms(1)]] by (simp add: chacha20_decrypt_in_place_def)
qed (use assms(3) in \<open>simp_all add: unsupported_def\<close>)

text \<open>The size of an encrypted value is the one that the parameters and the padding of the key announce.\<close>

lemma any_encrypt_size:
  assumes "key_env_correct K" "valid b" "any_encrypt_in_place K key B n a b = Ok (len, b')"
  shows "valid b' \<and> len \<le> length (buf_as_ref B b') \<and> length (buf_as_ref B b') =
    length (buf_as_ref B b) + any_aead_padding K key (length (buf_as_ref B b)) + tag_length (any_aead_params K key)"
proof (cases key)
  case (AesKey T k)
  show ?thesis
  proof (cases "aes_mode_of T")
    case ModeGcm
    with AesKey assms(3) have "chacha20_encrypt_in_place (env_gcm K T) B k n a b = Ok (len, b')" by (simp add: aes_gcm_encrypt_eq)
    then show ?thesis using AesKey ModeGcm
      by (elim encrypt_in_place_contents [OF assms(2) key_env_correctD(5) [OF assms(1)]]) (simp add: aead_params_def)
  next
    case ModeCbc
    with AesKey assms(3) have "cbc_hmac_encrypt_in_place (env_cbc K T) B k n a b = Ok (len, b')" by simp
    from cbc_encrypt_contents [OF assms(2) key_env_correctD(6) [OF assms(1)] this] AesKey ModeCbc
      cbc_hmac_correctD(1,4) [OF key_env_correctD(6) [OF assms(1)], of T]
    show ?thesis by (simp add: cbc_hmac_params_def)
  next
    case ModeKw
    with AesKey assms(3) kw_round_trip [OF assms(2) key_env_correctD(7) [OF assms(1)], of T k n a len b'] show ?thesis by simp
  qed
next
  case (ChachaKey T k)
  then have "chacha20_encrypt_in_place (env_chacha K T) B k n a b = Ok (len, b')" using assms(3) by simp
  then show ?thesis using ChachaKey
    by (elim encrypt_in_place_contents [OF assms(2) key_env_correctD(8) [OF assms(1)]]) (simp add: aead_params_def)
qed (use assms(3) in \<open>simp_all add: unsupported_def\<close>)

end

text \<open>
  For every key and every nonce and associated data: what is encrypted in place in a secret
  buffer decrypts to the original bytes, and a key pair refuses to encrypt.
\<close>

theorem any_key_aead_round_trip:
  assumes "key_env_correct K" and "secret_wf m"
    and "any_encrypt_in_place K key (secret_buffer (at_least f)) n a m = Ok (len, m')"
  shows "symmetric_alg (key_algorithm key) \<and>
    (\<exists>m''. any_decrypt_in_place K key (secret_buffer (at_least f)) n a m' = Ok m'' \<and> secret_data m'' = secret_data m)"
proof -
  have "buf_as_ref (secret_buffer (at_least f)) x = secret_data x" for x by (simp add: secret_buffer_def)
  moreover have "symmetric_alg (key_algorithm key)" using assms(3) by (cases key) (simp_all add: unsupported_def)
  ultimately show ?thesis using secret.any_aead_round_trip [OF assms] by auto
qed

theorem any_key_aead_round_trip_witness:
  "\<exists>m' m''. any_encrypt_in_place toy_keys (ChachaKey C20P (replicate 32 0)) (secret_buffer (at_least id)) (replicate 12 0) []
      \<lparr>secret_data = [1, 2], secret_cap = 2, secret_moved = False\<rparr> = Ok (2, m') \<and>
    any_decrypt_in_place toy_keys (ChachaKey C20P (replicate 32 0)) (secret_buffer (at_least id)) (replicate 12 0) [] m' = Ok m'' \<and>
    secret_data m'' = [1, 2]"
proof -
  let ?m = "\<lparr>secret_data = [1, 2 :: byte], secret_cap = 2, secret_moved = False\<rparr>"
  obtain m' where e: "any_encrypt_in_place toy_keys (ChachaKey C20P (replicate 32 0)) (secret_buffer (at_least id)) (replicate 12 0) [] ?m = Ok (2, m')"
    by (simp add: chacha20_encrypt_in_place_def secret_buffer_def toy_keys_def)
  from any_key_aead_round_trip [OF toy_keys_correct _ this] e show ?thesis by (simp add: secret_wf_def)
qed

text \<open>
  Two consistent keys with secret parts write the same shared secret whichever side computes
  it, and keys of different types are refused. A signature written by a consistent key verifies
  with it and with its public part.
\<close>

theorem any_key_exchange_and_signature:
  assumes "key_env_correct K" and "any_wf K key" and "any_wf K other"
  shows "(any_secret_bytes key \<noteq> None \<and> any_secret_bytes other \<noteq> None \<longrightarrow>
      any_write_key_exchange K key other B out = any_write_key_exchange K other key B out) \<and>
    (key_algorithm key \<noteq> key_algorithm other \<longrightarrow> any_write_key_exchange K key other B out = unsupported ''Unsupported key exchange'') \<and>
    (\<forall>s. any_write_signature K key m sig_type vec_buffer [] = Ok s \<longrightarrow>
      any_verify_signature K key m s sig_type = Ok True \<and> any_verify_signature K (any_without_secret key) m s sig_type = Ok True)"
proof (intro conjI impI allI)
  note K = key_env_correctD [OF assms(1)]
  assume sec: "any_secret_bytes key \<noteq> None \<and> any_secret_bytes other \<noteq> None"
  show "any_write_key_exchange K key other B out = any_write_key_exchange K other key B out"
  proof (cases "key_algorithm key = key_algorithm other")
    case True
    then show ?thesis using sec assms(2,3) K(3,4)
      by (cases key; cases other) (auto simp: any_write_key_exchange_def x25519_write_key_exchange_def ec_write_key_exchange_def
          x25519_wf_def ec_wf_def x25519_env_correct_def ec_env_correct_def)
  qed (simp add: any_write_key_exchange_def)
next
  fix s
  assume "any_write_signature K key m sig_type vec_buffer [] = Ok s"
  then show "any_verify_signature K key m s sig_type = Ok True" "any_verify_signature K (any_without_secret key) m s sig_type = Ok True"
    using assms(2) key_env_correctD(2,4) [OF assms(1)]
    by (cases key; auto simp: unsupported_def ed25519_write_signature_def ed25519_verify_signature_def ed25519_verify_def
        ec_write_signature_def ec_verify_signature_def ec_verify_def ec_sign_def ed25519_wf_def ec_wf_def
        ed25519_env_correct_def ec_env_correct_def vec_buffer_def split: if_splits option.splits)+
qed (simp add: any_write_key_exchange_def)

theorem any_key_exchange_and_signature_witness:
  "any_write_key_exchange toy_keys (X25519Key \<lparr>x_secret = Some (replicate 32 7), x_public = replicate 32 7\<rparr>)
      (X25519Key \<lparr>x_secret = Some (replicate 32 8), x_public = replicate 32 8\<rparr>) vec_buffer [] =
    any_write_key_exchange toy_keys (X25519Key \<lparr>x_secret = Some (replicate 32 8), x_public = replicate 32 8\<rparr>)
      (X25519Key \<lparr>x_secret = Some (replicate 32 7), x_public = replicate 32 7\<rparr>) vec_buffer []"
proof -
  have "any_wf toy_keys (X25519Key \<lparr>x_secret = Some (replicate 32 c), x_public = replicate 32 c\<rparr>)" for c
    by (simp add: x25519_wf_def toy_keys_def toy_x25519_def resized_def)
  then show ?thesis by (intro conjunct1 [OF any_key_exchange_and_signature [OF toy_keys_correct], rule_format]) simp_all
qed

end
