(* ===== verification/Crypto_Box.thy ===== *)
theory Crypto_Box
  imports Okp_Keys
begin

text \<open>
  The crypto box of \<open>askar-crypto/src/encrypt/crypto_box.rs\<close>, compatible with libsodium: a message
  encrypted between two X25519 keys with the tag in front, and the sealed box with an ephemeral
  key in front of it. The cipher and the hash of the nonce are parameters.
\<close>

definition CBOX_NONCE_LENGTH :: nat where
  "CBOX_NONCE_LENGTH = 24"

definition CBOX_KEY_LENGTH :: nat where
  "CBOX_KEY_LENGTH = 32"

definition CBOX_TAG_LENGTH :: nat where
  "CBOX_TAG_LENGTH = 16"

lemmas cbox_lengths = CBOX_NONCE_LENGTH_def CBOX_KEY_LENGTH_def CBOX_TAG_LENGTH_def

text \<open>\<open>SalsaBox\<close> for a public and a secret key, and \<open>Blake2bVar\<close> with the length of its output.\<close>

record cbox_env =
  cb_encrypt :: "bytes \<Rightarrow> bytes \<Rightarrow> bytes \<Rightarrow> bytes \<Rightarrow> (bytes \<times> bytes) option"
  cb_decrypt :: "bytes \<Rightarrow> bytes \<Rightarrow> bytes \<Rightarrow> bytes \<Rightarrow> bytes \<Rightarrow> bytes option"
  cb_blake2b :: "nat \<Rightarrow> bytes \<Rightarrow> bytes"

text \<open>
  The documented behaviour: the ciphertext has the length of the message, and the holder of either
  secret key decrypts what was encrypted between the two keys.
\<close>

definition cbox_env_correct :: "x25519_env \<Rightarrow> cbox_env \<Rightarrow> bool" where
  "cbox_env_correct X E \<longleftrightarrow>
     (\<forall>a b n m c t. cb_encrypt E (x_public_of X b) a n m = Some (c, t) \<longrightarrow>
        length c = length m \<and> length t = CBOX_TAG_LENGTH \<and> cb_decrypt E (x_public_of X a) b n c t = Some m) \<and>
     (\<forall>pk sk n c t m. cb_decrypt E pk sk n c t = Some m \<longrightarrow> length m = length c) \<and>
     (\<forall>n m. length (cb_blake2b E n m) = n)"

section \<open>Operations\<close>

definition secret_key_from :: "X25519KeyPair \<Rightarrow> bytes crypto_result" where
  "secret_key_from kp = (case x_secret kp of Some sk \<Rightarrow> Ok sk | None \<Rightarrow> Err (err_of_kind crypto_kind.MissingSecretKey))"

definition nonce_from :: "bytes \<Rightarrow> bytes crypto_result" where
  "nonce_from nonce = (if length nonce = CBOX_NONCE_LENGTH then Ok nonce else Err (err_of_kind crypto_kind.InvalidNonce))"

definition crypto_box :: "cbox_env \<Rightarrow> 'b buffer_ops \<Rightarrow> X25519KeyPair \<Rightarrow> X25519KeyPair \<Rightarrow> 'b \<Rightarrow> bytes \<Rightarrow> 'b crypto_result" where
  "crypto_box E B recip_pk sender_sk buffer nonce =
     res_bind (secret_key_from sender_sk) (\<lambda>sender_sk.
     res_bind (nonce_from nonce) (\<lambda>nonce.
     (case cb_encrypt E (x_public recip_pk) sender_sk nonce (buf_as_ref B buffer) of
        None \<Rightarrow> Err (err_msg crypto_kind.Encryption ''Crypto box AEAD encryption error'')
      | Some (ctext, tag) \<Rightarrow> buffer_insert B 0 tag (buf_as_mut B ctext buffer))))"

definition crypto_box_open :: "cbox_env \<Rightarrow> 'b buffer_ops \<Rightarrow> X25519KeyPair \<Rightarrow> X25519KeyPair \<Rightarrow> 'b \<Rightarrow> bytes \<Rightarrow> 'b crypto_result" where
  "crypto_box_open E B recip_sk sender_pk buffer nonce =
     res_bind (secret_key_from recip_sk) (\<lambda>recip_sk.
     res_bind (nonce_from nonce) (\<lambda>nonce.
     let buf_len = length (buf_as_ref B buffer) in
     if buf_len < CBOX_TAG_LENGTH then Err (err_msg crypto_kind.Encryption ''Invalid size for encrypted data'')
     else
       (let tag = take CBOX_TAG_LENGTH (buf_as_ref B buffer) in
        case cb_decrypt E (x_public sender_pk) recip_sk nonce (drop CBOX_TAG_LENGTH (buf_as_ref B buffer)) tag of
          None \<Rightarrow> Err (err_msg crypto_kind.Encryption ''Crypto box AEAD decryption error'')
        | Some msg \<Rightarrow> buffer_remove B 0 CBOX_TAG_LENGTH (buf_as_mut B (tag @ msg) buffer))))"

definition crypto_box_seal_nonce :: "cbox_env \<Rightarrow> bytes \<Rightarrow> bytes \<Rightarrow> bytes crypto_result" where
  "crypto_box_seal_nonce E ephemeral_pk recip_pk = Ok (cb_blake2b E CBOX_NONCE_LENGTH (ephemeral_pk @ recip_pk))"

text \<open>\<open>okm\<close> are the random bytes from which the ephemeral key is made.\<close>

definition crypto_box_seal :: "x25519_env \<Rightarrow> cbox_env \<Rightarrow> (nat \<Rightarrow> bytes) \<Rightarrow> X25519KeyPair \<Rightarrow> bytes \<Rightarrow> bytes crypto_result" where
  "crypto_box_seal X E okm recip_pk message =
     res_bind (x25519_generate X okm) (\<lambda>ephem_kp.
     let ephem_pk_bytes = x_public ephem_kp in
     res_bind (buffer_write vec_buffer ephem_pk_bytes []) (\<lambda>buffer.
     res_bind (buffer_write vec_buffer message buffer) (\<lambda>buffer.
     let writer = \<lparr>writer_inner = buffer, writer_pos = CBOX_KEY_LENGTH\<rparr> in
     res_bind (crypto_box_seal_nonce E ephem_pk_bytes (x_public recip_pk)) (\<lambda>nonce.
     res_map writer_inner (crypto_box E (writer_buffer vec_buffer) recip_pk ephem_kp writer nonce)))))"

definition crypto_box_seal_open :: "cbox_env \<Rightarrow> X25519KeyPair \<Rightarrow> bytes \<Rightarrow> bytes crypto_result" where
  "crypto_box_seal_open E recip_sk ciphertext =
     (if length ciphertext < CBOX_KEY_LENGTH + CBOX_TAG_LENGTH then
        Err (err_msg crypto_kind.Encryption ''Invalid size for encrypted data'')
      else
        res_bind (x25519_from_public_bytes (take CBOX_KEY_LENGTH ciphertext)) (\<lambda>ephem_pk.
        let buffer = drop CBOX_KEY_LENGTH ciphertext in
        res_bind (crypto_box_seal_nonce E (x_public ephem_pk) (x_public recip_sk)) (\<lambda>nonce.
        crypto_box_open E vec_buffer recip_sk ephem_pk buffer nonce)))"

section \<open>Round trips\<close>

lemma crypto_box_OkD:
  assumes "crypto_box E B recip sender b n = Ok b'"
  obtains sk c t where "x_secret sender = Some sk" "length n = CBOX_NONCE_LENGTH"
    "cb_encrypt E (x_public recip) sk n (buf_as_ref B b) = Some (c, t)" "buffer_insert B 0 t (buf_as_mut B c b) = Ok b'"
  using assms by (auto simp: crypto_box_def secret_key_from_def nonce_from_def result_simps split: option.splits if_splits)

context resize_buffer
begin

text \<open>The tag is put in front of the ciphertext.\<close>

lemma crypto_box_contents:
  assumes "valid b" "cbox_env_correct X E" "x25519_wf X recip" "x_secret recip = Some rk"
    and "crypto_box E B recip sender b n = Ok b'"
  shows "\<exists>sk c t. x_secret sender = Some sk \<and> length n = CBOX_NONCE_LENGTH \<and> valid b' \<and> buf_as_ref B b' = t @ c \<and>
    length t = CBOX_TAG_LENGTH \<and> length c = length (buf_as_ref B b) \<and>
    cb_decrypt E (x_public_of X sk) rk n c t = Some (buf_as_ref B b)"
proof -
  obtain sk c t where s: "x_secret sender = Some sk" "length n = CBOX_NONCE_LENGTH"
      "cb_encrypt E (x_public recip) sk n (buf_as_ref B b) = Some (c, t)" "buffer_insert B 0 t (buf_as_mut B c b) = Ok b'"
    using crypto_box_OkD [OF assms(5)] .
  have "x_public recip = x_public_of X rk" using assms(3,4) by (simp add: x25519_wf_def)
  then have e: "length c = length (buf_as_ref B b)" "length t = CBOX_TAG_LENGTH"
      "cb_decrypt E (x_public_of X sk) rk n c t = Some (buf_as_ref B b)"
    using assms(2) s(3) by (auto simp: cbox_env_correct_def)
  from as_mut_law [OF assms(1) e(1)] have "valid (buf_as_mut B c b)" "buf_as_ref B (buf_as_mut B c b) = c" by simp_all
  with insert_OkD [of "buf_as_mut B c b" 0 t b'] s(4) have "valid b'" "buf_as_ref B b' = t @ c" by simp_all
  with s e show ?thesis by blast
qed

lemma crypto_box_open_contents:
  assumes "valid b" "cbox_env_correct X E" "x_secret recip = Some rk" "length n = CBOX_NONCE_LENGTH"
    and "buf_as_ref B b = t @ c" "length t = CBOX_TAG_LENGTH" "cb_decrypt E (x_public sender) rk n c t = Some m"
  shows "\<exists>b'. crypto_box_open E B recip sender b n = Ok b' \<and> valid b' \<and> buf_as_ref B b' = m"
proof -
  have l: "length m = length c" using assms(2,7) by (auto simp: cbox_env_correct_def)
  have v: "valid (buf_as_mut B (t @ m) b)" "buf_as_ref B (buf_as_mut B (t @ m) b) = t @ m"
    using as_mut_law [OF assms(1), of "t @ m"] assms(5) l by simp_all
  obtain b' where "buffer_remove B 0 CBOX_TAG_LENGTH (buf_as_mut B (t @ m) b) = Ok b'" "valid b'" "buf_as_ref B b' = m"
    using remove_law [OF v(1), of 0 CBOX_TAG_LENGTH] v(2) assms(6) by auto
  with assms show ?thesis by (simp add: crypto_box_open_def secret_key_from_def nonce_from_def)
qed

lemma crypto_box_round_trip_buffer:
  assumes "valid b" "cbox_env_correct X E" "x25519_wf X recip" "x25519_wf X sender" "x_secret recip = Some rk"
    and "crypto_box E B recip sender b n = Ok b'"
  shows "length (buf_as_ref B b') = length (buf_as_ref B b) + CBOX_TAG_LENGTH \<and>
    (\<exists>b''. crypto_box_open E B recip (sender\<lparr>x_secret := None\<rparr>) b' n = Ok b'' \<and> valid b'' \<and> buf_as_ref B b'' = buf_as_ref B b)"
proof -
  obtain sk c t where s: "x_secret sender = Some sk" "length n = CBOX_NONCE_LENGTH" "valid b'" "buf_as_ref B b' = t @ c"
      "length t = CBOX_TAG_LENGTH" "length c = length (buf_as_ref B b)"
      "cb_decrypt E (x_public_of X sk) rk n c t = Some (buf_as_ref B b)"
    using crypto_box_contents [OF assms(1-3,5,6)] by blast
  have "x_public (sender\<lparr>x_secret := None\<rparr>) = x_public_of X sk" using assms(4) s(1) by (simp add: x25519_wf_def)
  with crypto_box_open_contents [OF s(3) assms(2,5) s(2,4,5), of "sender\<lparr>x_secret := None\<rparr>"] s show ?thesis by simp
qed

end

text \<open>
  A box that is made between two consistent key pairs is opened by the recipient with the
  public key of the sender, to the message, and is 16 bytes longer than it; without the secret key,
  with a nonce that has not 24 bytes, or with fewer than 16 bytes to open, the operations return an
  error and do not panic.
\<close>

theorem crypto_box_round_trip:
  assumes "cbox_env_correct X E" and "x25519_wf X recip" and "x25519_wf X sender"
  shows "(\<forall>m b rk. x_secret recip = Some rk \<longrightarrow> crypto_box E vec_buffer recip sender m n = Ok b \<longrightarrow>
      length b = length m + 16 \<and> crypto_box_open E vec_buffer recip (sender\<lparr>x_secret := None\<rparr>) b n = Ok m) \<and>
    (x_secret recip = None \<longrightarrow> crypto_box_open E vec_buffer recip sender b n = Err (err_of_kind crypto_kind.MissingSecretKey)) \<and>
    (x_secret recip \<noteq> None \<and> length n \<noteq> 24 \<longrightarrow> crypto_box_open E vec_buffer recip sender b n = Err (err_of_kind crypto_kind.InvalidNonce)) \<and>
    (length b < 16 \<longrightarrow> (\<exists>e. crypto_box_open E vec_buffer recip sender b n = Err e)) \<and>
    crypto_box_open E vec_buffer recip sender b n \<noteq> Panic"
proof (intro conjI allI impI)
  fix m b rk
  assume "x_secret recip = Some rk" "crypto_box E vec_buffer recip sender m n = Ok b"
  from vec.crypto_box_round_trip_buffer [OF TrueI assms this]
  show "length b = length m + 16" "crypto_box_open E vec_buffer recip (sender\<lparr>x_secret := None\<rparr>) b n = Ok m"
    by (auto simp: cbox_lengths)
qed (auto simp: crypto_box_open_def secret_key_from_def nonce_from_def cbox_lengths vec_remove_def Let_def split: option.splits)

text \<open>A stand-in box: the key is the sum of the two keys, the tag its first bytes.\<close>

definition toy_cbox :: cbox_env where
  "toy_cbox = \<lparr>cb_encrypt = (\<lambda>pk sk n m. Some (m, take 16 (x_diffie_hellman toy_x25519 sk pk))),
     cb_decrypt = (\<lambda>pk sk n c t. if t = take 16 (x_diffie_hellman toy_x25519 sk pk) then Some c else None),
     cb_blake2b = (\<lambda>n m. resized n m)\<rparr>"

lemma toy_cbox_correct: "cbox_env_correct toy_x25519 toy_cbox"
proof -
  have "x_diffie_hellman toy_x25519 a (x_public_of toy_x25519 b) = x_diffie_hellman toy_x25519 b (x_public_of toy_x25519 a)" for a b
    using toy_x25519_correct by (simp add: x25519_env_correct_def)
  moreover have "length (x_diffie_hellman toy_x25519 a b) = 32" for a b by (simp add: toy_x25519_def)
  ultimately show ?thesis by (simp add: cbox_env_correct_def toy_cbox_def cbox_lengths split: if_splits)
qed

definition toy_box_key :: "byte \<Rightarrow> X25519KeyPair" where
  "toy_box_key c = \<lparr>x_secret = Some (replicate 32 c), x_public = replicate 32 c\<rparr>"

lemma toy_box_key_wf: "x25519_wf toy_x25519 (toy_box_key c)"
  by (simp add: x25519_wf_def toy_box_key_def toy_x25519_def resized_def)

theorem crypto_box_round_trip_witness:
  "crypto_box_open toy_cbox vec_buffer (toy_box_key 1) ((toy_box_key 2)\<lparr>x_secret := None\<rparr>) (replicate 16 3 @ [7, 8]) (replicate 24 0) =
    Ok [7, 8]"
proof -
  have "crypto_box toy_cbox vec_buffer (toy_box_key 1) (toy_box_key 2) [7, 8] (replicate 24 0) = Ok (replicate 16 3 @ [7, 8])"
    by (simp add: crypto_box_def secret_key_from_def nonce_from_def toy_box_key_def toy_cbox_def toy_x25519_def resized_def
        cbox_lengths vec_insert_def numeral_eq_Suc)
  moreover have "x_secret (toy_box_key 1) = Some (replicate 32 1)" by (simp add: toy_box_key_def)
  ultimately show ?thesis
    using crypto_box_round_trip [OF toy_cbox_correct toy_box_key_wf toy_box_key_wf] by blast
qed

text \<open>
  A message that is sealed for a consistent key pair, given by its public part, is opened by
  the pair, whatever ephemeral key was drawn. A ciphertext of fewer than 48 bytes is refused and
  opening never panics.
\<close>

theorem crypto_box_seal_round_trip:
  assumes "x25519_env_correct X" and "cbox_env_correct X E" and "x25519_wf X recip" and "x_secret recip \<noteq> None"
    and "length (okm 32) = 32"
  shows "(\<forall>m b. crypto_box_seal X E okm (recip\<lparr>x_secret := None\<rparr>) m = Ok b \<longrightarrow>
      length b = length m + 48 \<and> crypto_box_seal_open E recip b = Ok m) \<and>
    (length b < 48 \<longrightarrow> crypto_box_seal_open E recip b = Err (err_msg crypto_kind.Encryption ''Invalid size for encrypted data'')) \<and>
    crypto_box_seal_open E recip b \<noteq> Panic"
proof (intro conjI allI impI)
  fix m b
  assume seal: "crypto_box_seal X E okm (recip\<lparr>x_secret := None\<rparr>) m = Ok b"
  let ?e = "x25519_from_secret_key X (okm 32)" and ?pub = "recip\<lparr>x_secret := None\<rparr>"
  let ?n = "cb_blake2b E CBOX_NONCE_LENGTH (x_public ?e @ x_public recip)"
  let ?w = "\<lparr>writer_inner = x_public ?e @ m, writer_pos = CBOX_KEY_LENGTH\<rparr>"
  obtain rk where rk: "x_secret recip = Some rk" using assms(4) by auto
  have ep: "length (x_public ?e) = 32" "x_public ?e = x_public_of X (okm 32)"
    using assms(1) by (simp_all add: x25519_from_secret_key_def x25519_env_correct_def)
  obtain w where w: "crypto_box E (writer_buffer vec_buffer) ?pub ?e ?w ?n = Ok w" "b = writer_inner w"
    using seal by (auto simp: crypto_box_seal_def x25519_generate_def Let_def crypto_box_seal_nonce_def result_simps)
  have ref: "buf_as_ref (writer_buffer vec_buffer) ?w = m" using ep(1) by (simp add: writer_buffer_def cbox_lengths)
  obtain c t where ct: "cb_encrypt E (x_public recip) (okm 32) ?n m = Some (c, t)"
      "buffer_insert (writer_buffer vec_buffer) 0 t (buf_as_mut (writer_buffer vec_buffer) c ?w) = Ok w"
  proof (rule crypto_box_OkD [OF w(1)])
    fix sk c t
    assume "x_secret ?e = Some sk" "cb_encrypt E (x_public ?pub) sk ?n (buf_as_ref (writer_buffer vec_buffer) ?w) = Some (c, t)"
      "buffer_insert (writer_buffer vec_buffer) 0 t (buf_as_mut (writer_buffer vec_buffer) c ?w) = Ok w"
    with that ref show thesis by (simp add: x25519_from_secret_key_def)
  qed
  have pub: "x_public recip = x_public_of X rk" using assms(3) rk by (simp add: x25519_wf_def)
  then have l: "length c = length m" "length t = 16" "cb_decrypt E (x_public_of X (okm 32)) rk ?n c t = Some m"
    using assms(2) ct(1) by (auto simp: cbox_env_correct_def cbox_lengths)
  have b: "b = x_public ?e @ t @ c"
    using ct(2) w(2) ep(1) by (auto simp: writer_buffer_def cbox_lengths vec_insert_def split: if_splits)
  show "length b = length m + 48" using b ep l by simp
  have "\<exists>b'. crypto_box_open E vec_buffer recip \<lparr>x_secret = None, x_public = x_public ?e\<rparr> (t @ c) ?n = Ok b' \<and> True \<and> buf_as_ref vec_buffer b' = m"
    using l rk ep(2) assms(2) by (intro vec.crypto_box_open_contents [OF TrueI assms(2) rk]) (auto simp: cbox_env_correct_def cbox_lengths)
  then show "crypto_box_seal_open E recip b = Ok m"
    using b ep(1) l by (simp add: crypto_box_seal_open_def x25519_from_public_bytes_def crypto_box_seal_nonce_def cbox_lengths)
qed (auto simp: crypto_box_seal_open_def x25519_from_public_bytes_def crypto_box_seal_nonce_def crypto_box_open_def
    secret_key_from_def nonce_from_def cbox_lengths vec_remove_def Let_def invalid_key_data_def split: option.splits)

theorem crypto_box_seal_round_trip_witness:
  "length (replicate 32 2 @ replicate 16 3 @ [7 :: byte]) = length [7 :: byte] + 48 \<and>
    crypto_box_seal_open toy_cbox (toy_box_key 1) (replicate 32 2 @ replicate 16 3 @ [7]) = Ok [7]"
proof -
  have "crypto_box_seal toy_x25519 toy_cbox (\<lambda>n. replicate 32 2) ((toy_box_key 1)\<lparr>x_secret := None\<rparr>) [7] =
      Ok (replicate 32 2 @ replicate 16 3 @ [7])"
    by (simp add: crypto_box_seal_def x25519_generate_def x25519_from_secret_key_def crypto_box_seal_nonce_def crypto_box_def
        secret_key_from_def nonce_from_def toy_box_key_def toy_cbox_def toy_x25519_def resized_def cbox_lengths vec_insert_def
        writer_buffer_def Let_def numeral_eq_Suc)
  moreover have "x_secret (toy_box_key 1) \<noteq> None" by (simp add: toy_box_key_def)
  ultimately show ?thesis
    using crypto_box_seal_round_trip [OF toy_x25519_correct toy_cbox_correct toy_box_key_wf, of 1 "\<lambda>n. replicate 32 2"] by simp
qed

end
