(* ===== verification/Local_Key.thy ===== *)
theory Local_Key
  imports Any_Key Crypto_Box
begin

text \<open>
  The keys of the public interface (\<open>src/kms/local_key.rs\<close>), the results of encryption and the
  inputs of decryption (\<open>src/kms/enc.rs\<close>) and the operations between keys (\<open>src/kms/envelope.rs\<close>):
  crypto boxes and derived keys. Errors of the cryptography crate become errors of this crate.
  Secret buffers are their contents.
\<close>

abbreviation lift_askar :: "'a crypto_result \<Rightarrow> 'a askar_result" where
  "lift_askar \<equiv> res_map_err askar_error_of_crypto"

section \<open>Encrypted values\<close>

record Encrypted =
  enc_buffer :: bytes
  enc_tag_pos :: nat
  enc_nonce_pos :: nat

definition enc_ciphertext :: "Encrypted \<Rightarrow> bytes askar_result" where
  "enc_ciphertext e = slice 0 (enc_tag_pos e) (enc_buffer e)"

definition enc_nonce :: "Encrypted \<Rightarrow> bytes askar_result" where
  "enc_nonce e = slice (enc_nonce_pos e) (length (enc_buffer e)) (enc_buffer e)"

definition enc_tag :: "Encrypted \<Rightarrow> bytes askar_result" where
  "enc_tag e = slice (enc_tag_pos e) (enc_nonce_pos e) (enc_buffer e)"

record ToDecrypt =
  dec_ciphertext :: bytes
  dec_tag :: bytes

definition into_secret :: "ToDecrypt \<Rightarrow> bytes" where
  "into_secret d = (if dec_tag d = [] then dec_ciphertext d else [] @ dec_ciphertext d @ dec_tag d)"

definition to_decrypt_bytes :: "bytes \<Rightarrow> ToDecrypt" where
  "to_decrypt_bytes ciphertext = \<lparr>dec_ciphertext = ciphertext, dec_tag = []\<rparr>"

definition to_decrypt_split :: "bytes \<times> bytes \<Rightarrow> ToDecrypt" where
  "to_decrypt_split s = \<lparr>dec_ciphertext = fst s, dec_tag = snd s\<rparr>"

definition to_decrypt_encrypted :: "Encrypted \<Rightarrow> ToDecrypt askar_result" where
  "to_decrypt_encrypted e =
     res_bind (enc_ciphertext e) (\<lambda>c. res_bind (enc_tag e) (\<lambda>t. Ok \<lparr>dec_ciphertext = c, dec_tag = t\<rparr>))"

section \<open>Local keys\<close>

record LocalKey =
  lk_inner :: AnyKey
  lk_ephemeral :: bool

definition lasting :: "AnyKey \<Rightarrow> LocalKey" where
  "lasting key = \<lparr>lk_inner = key, lk_ephemeral = False\<rparr>"

text \<open>Creation. Key generation has no result if the draws never give a key (\<open>generate_any_with_rng\<close>).\<close>

definition local_generate_with_rng :: "key_env \<Rightarrow> KeyAlg \<Rightarrow> bool \<Rightarrow> (nat \<Rightarrow> nat \<Rightarrow> bytes) \<Rightarrow> LocalKey askar_result option" where
  "local_generate_with_rng K alg ephemeral rng =
     map_option (\<lambda>r. lift_askar (res_map (\<lambda>inner. \<lparr>lk_inner = inner, lk_ephemeral = ephemeral\<rparr>) r)) (generate_any_with_rng K alg rng)"

definition local_generate_for_hardware :: "KeyAlg \<Rightarrow> bool \<Rightarrow> LocalKey askar_result" where
  "local_generate_for_hardware alg ephemeral =
     lift_askar (res_map (\<lambda>inner. \<lparr>lk_inner = inner, lk_ephemeral = ephemeral\<rparr>) (generate_any_for_hardware alg))"

definition local_from_id :: "KeyAlg \<Rightarrow> string \<Rightarrow> LocalKey askar_result" where
  "local_from_id alg key_id = lift_askar (res_map lasting (get_any_with_id alg key_id))"

text \<open>
  The two deterministic generators as sequences of draws of one length: the \<open>i\<close>-th draw of \<open>n\<close> bytes.
  No key needs more than 64 bytes, for which the expansion of HKDF is defined.
\<close>

definition bls_draws :: "bls_kdf \<Rightarrow> BlsKeyGen \<Rightarrow> nat \<Rightarrow> nat \<Rightarrow> bytes" where
  "bls_draws Kd g i n =
     (case res_bind (key_gen_reads Kd n i g) (key_gen_read_okm Kd n) of Ok (okm, g) \<Rightarrow> okm | _ \<Rightarrow> [])"

definition det_draws :: "keystream \<Rightarrow> RandomDet \<Rightarrow> nat \<Rightarrow> nat \<Rightarrow> bytes" where
  "det_draws ks g i n = fst (det_fill_bytes ks (replicate n 0) (g\<lparr>det_pos := det_pos g + i * n\<rparr>))"

definition local_from_seed :: "key_env \<Rightarrow> bls_kdf \<Rightarrow> keystream \<Rightarrow> KeyAlg \<Rightarrow> bytes \<Rightarrow> string option \<Rightarrow> LocalKey askar_result option" where
  "local_from_seed K Kd ks alg seed seed_method =
     (if seed_method = Some ''bls_keygen'' then
        (case key_gen_new seed of
           Ok g \<Rightarrow> map_option (\<lambda>r. lift_askar (res_map lasting r)) (generate_any_with_rng K alg (bls_draws Kd g))
         | Err e \<Rightarrow> Some (Err (askar_error_of_crypto e))
         | Panic \<Rightarrow> Some Panic)
      else if seed_method = None \<or> seed_method = Some [] then
        map_option (\<lambda>r. lift_askar (res_map lasting r)) (generate_any_with_rng K alg (det_draws ks (random_det_new seed)))
      else Some (Err (err_msg askar_kind.Unsupported ''Unknown seed method for key generation'')))"

definition local_from_jwk_slice :: "key_env \<Rightarrow> base64 \<Rightarrow> json_reader \<Rightarrow> bytes \<Rightarrow> LocalKey askar_result" where
  "local_from_jwk_slice K b64 R jwk = lift_askar (res_map lasting (res_bind (jwk_from_slice R jwk) (from_jwk_any K b64)))"

definition local_from_public_bytes :: "key_env \<Rightarrow> KeyAlg \<Rightarrow> bytes \<Rightarrow> LocalKey askar_result" where
  "local_from_public_bytes K alg public = lift_askar (res_map lasting (from_public_bytes_any K alg public))"

definition local_to_public_bytes :: "key_env \<Rightarrow> LocalKey \<Rightarrow> bytes askar_result" where
  "local_to_public_bytes K key = lift_askar (any_write_public_bytes K (lk_inner key) vec_buffer [])"

definition local_from_secret_bytes :: "key_env \<Rightarrow> KeyAlg \<Rightarrow> bytes \<Rightarrow> LocalKey askar_result" where
  "local_from_secret_bytes K alg secret = lift_askar (res_map lasting (from_secret_bytes_any K alg secret))"

definition local_to_secret_bytes :: "LocalKey \<Rightarrow> bytes askar_result" where
  "local_to_secret_bytes key = lift_askar (any_write_secret_bytes (lk_inner key) vec_buffer [])"

definition local_to_key_exchange :: "key_env \<Rightarrow> LocalKey \<Rightarrow> KeyAlg \<Rightarrow> LocalKey \<Rightarrow> LocalKey askar_result" where
  "local_to_key_exchange K key alg pk =
     lift_askar (res_map (\<lambda>inner. \<lparr>lk_inner = inner, lk_ephemeral = lk_ephemeral key \<or> lk_ephemeral pk\<rparr>)
       (from_key_exchange_any alg (any_write_key_exchange K (lk_inner key) (lk_inner pk))))"

definition local_from_key_derivation :: "KeyAlg \<Rightarrow> key_derivation \<Rightarrow> LocalKey askar_result" where
  "local_from_key_derivation alg derive = lift_askar (res_map lasting (from_key_derivation_any alg derive))"

definition local_encode :: "base64 \<Rightarrow> LocalKey \<Rightarrow> bytes askar_result" where
  "local_encode b64 key = lift_askar (to_jwk_secret b64 (any_encode_jwk (lk_inner key)) None)"

definition local_algorithm :: "LocalKey \<Rightarrow> KeyAlg" where
  "local_algorithm key = key_algorithm (lk_inner key)"

definition local_to_jwk_public :: "base64 \<Rightarrow> LocalKey \<Rightarrow> KeyAlg option \<Rightarrow> string askar_result" where
  "local_to_jwk_public b64 key alg = lift_askar (to_jwk_public b64 (any_encode_jwk (lk_inner key)) alg)"

definition local_to_jwk_secret :: "base64 \<Rightarrow> LocalKey \<Rightarrow> bytes askar_result" where
  "local_to_jwk_secret b64 key = lift_askar (to_jwk_secret b64 (any_encode_jwk (lk_inner key)) None)"

definition local_to_jwk_thumbprint :: "base64 \<Rightarrow> (bytes \<Rightarrow> bytes) \<Rightarrow> LocalKey \<Rightarrow> KeyAlg option \<Rightarrow> string askar_result" where
  "local_to_jwk_thumbprint b64 sha256 key alg = lift_askar (to_jwk_thumbprint b64 sha256 (any_encode_jwk (lk_inner key)) alg)"

text \<open>A pair on both BLS curves has a thumbprint for each of them.\<close>

definition local_to_jwk_thumbprints :: "base64 \<Rightarrow> (bytes \<Rightarrow> bytes) \<Rightarrow> LocalKey \<Rightarrow> string list askar_result" where
  "local_to_jwk_thumbprints b64 sha256 key =
     (if local_algorithm key = Bls12_381 G1G2 then
        res_bind (local_to_jwk_thumbprint b64 sha256 key (Some (Bls12_381 G1))) (\<lambda>t1.
        res_bind (local_to_jwk_thumbprint b64 sha256 key (Some (Bls12_381 G2))) (\<lambda>t2. Ok [t1, t2]))
      else res_map (\<lambda>t. [t]) (local_to_jwk_thumbprint b64 sha256 key None))"

definition local_convert_key :: "key_env \<Rightarrow> LocalKey \<Rightarrow> KeyAlg \<Rightarrow> LocalKey askar_result" where
  "local_convert_key K key alg =
     lift_askar (res_map (\<lambda>inner. \<lparr>lk_inner = inner, lk_ephemeral = lk_ephemeral key\<rparr>) (convert_key_any K (lk_inner key) alg))"

section \<open>Encryption\<close>

definition local_aead_params :: "key_env \<Rightarrow> LocalKey \<Rightarrow> KeyAeadParams askar_result" where
  "local_aead_params K key =
     (let params = any_aead_params K (lk_inner key) in
      if tag_length params = 0 then Err (err_msg askar_kind.Unsupported ''AEAD is not supported for this key type'')
      else Ok params)"

definition local_aead_padding :: "key_env \<Rightarrow> LocalKey \<Rightarrow> nat \<Rightarrow> nat" where
  "local_aead_padding K key msg_len = any_aead_padding K (lk_inner key) msg_len"

text \<open>\<open>fill\<close> are the random bytes of a length.\<close>

definition local_aead_random_nonce :: "key_env \<Rightarrow> (nat \<Rightarrow> bytes) \<Rightarrow> LocalKey \<Rightarrow> bytes askar_result" where
  "local_aead_random_nonce K fill key =
     (let nonce_len = nonce_length (any_aead_params K (lk_inner key)) in
      if nonce_len = 0 then Ok [] else Ok (fill nonce_len))"

definition local_aead_encrypt :: "key_env \<Rightarrow> (nat \<Rightarrow> bytes) \<Rightarrow> LocalKey \<Rightarrow> bytes \<Rightarrow> bytes \<Rightarrow> bytes \<Rightarrow> Encrypted askar_result" where
  "local_aead_encrypt K fill key message nonce aad =
     (let params = any_aead_params K (lk_inner key) in
      res_bind (if nonce = [] \<and> 0 < nonce_length params then local_aead_random_nonce K fill key else Ok nonce) (\<lambda>nonce.
      res_bind (lift_askar (any_encrypt_in_place K (lk_inner key) vec_buffer nonce aad message)) (\<lambda>(tag_pos, buf).
      let nonce_pos = length buf; buf = (if nonce \<noteq> [] then buf @ nonce else buf)
      in Ok \<lparr>enc_buffer = buf, enc_tag_pos = tag_pos, enc_nonce_pos = nonce_pos\<rparr>)))"

definition local_aead_decrypt :: "key_env \<Rightarrow> LocalKey \<Rightarrow> ToDecrypt \<Rightarrow> bytes \<Rightarrow> bytes \<Rightarrow> bytes askar_result" where
  "local_aead_decrypt K key ciphertext nonce aad =
     lift_askar (any_decrypt_in_place K (lk_inner key) vec_buffer nonce aad (into_secret ciphertext))"

definition parse_sig_type :: "string option \<Rightarrow> SignatureType option crypto_result" where
  "parse_sig_type sig_type = (case sig_type of None \<Rightarrow> Ok None | Some s \<Rightarrow> res_map Some (signature_type_from_str s))"

definition local_sign_message :: "key_env \<Rightarrow> LocalKey \<Rightarrow> bytes \<Rightarrow> string option \<Rightarrow> bytes askar_result" where
  "local_sign_message K key message sig_type =
     lift_askar (res_bind (parse_sig_type sig_type) (\<lambda>t. any_write_signature K (lk_inner key) message t vec_buffer []))"

definition local_verify_signature :: "key_env \<Rightarrow> LocalKey \<Rightarrow> bytes \<Rightarrow> bytes \<Rightarrow> string option \<Rightarrow> bool askar_result" where
  "local_verify_signature K key message signature sig_type =
     lift_askar (res_bind (parse_sig_type sig_type) (\<lambda>t. any_verify_signature K (lk_inner key) message signature t))"

definition local_wrap_key :: "key_env \<Rightarrow> LocalKey \<Rightarrow> LocalKey \<Rightarrow> bytes \<Rightarrow> Encrypted askar_result" where
  "local_wrap_key K slf key nonce =
     res_bind (lift_askar (any_write_secret_bytes (lk_inner key) vec_buffer [])) (\<lambda>buf.
     res_bind (lift_askar (any_encrypt_in_place K (lk_inner slf) vec_buffer nonce [] buf)) (\<lambda>(tag_pos, buf).
     Ok \<lparr>enc_buffer = buf @ nonce, enc_tag_pos = tag_pos, enc_nonce_pos = length buf\<rparr>))"

definition local_unwrap_key :: "key_env \<Rightarrow> LocalKey \<Rightarrow> KeyAlg \<Rightarrow> ToDecrypt \<Rightarrow> bytes \<Rightarrow> LocalKey askar_result" where
  "local_unwrap_key K slf alg ciphertext nonce =
     res_bind (lift_askar (any_decrypt_in_place K (lk_inner slf) vec_buffer nonce [] (into_secret ciphertext))) (\<lambda>buf.
     local_from_secret_bytes K alg buf)"

section \<open>Between keys\<close>

definition cast_x25519 :: "LocalKey \<Rightarrow> X25519KeyPair askar_result" where
  "cast_x25519 key =
     (case lk_inner key of
        X25519Key kp \<Rightarrow> Ok kp
      | _ \<Rightarrow> Err (err_msg askar_kind.Input ''x25519 keypair required''))"

definition crypto_box_random_nonce :: "(nat \<Rightarrow> bytes) \<Rightarrow> bytes askar_result" where
  "crypto_box_random_nonce fill = Ok (fill CBOX_NONCE_LENGTH)"

definition kms_crypto_box :: "cbox_env \<Rightarrow> LocalKey \<Rightarrow> LocalKey \<Rightarrow> bytes \<Rightarrow> bytes \<Rightarrow> bytes askar_result" where
  "kms_crypto_box E recip_x25519 sender_x25519 message nonce =
     res_bind (cast_x25519 recip_x25519) (\<lambda>recip_pk.
     res_bind (cast_x25519 sender_x25519) (\<lambda>sender_sk.
     lift_askar (crypto_box E vec_buffer recip_pk sender_sk message nonce)))"

definition kms_crypto_box_open :: "cbox_env \<Rightarrow> LocalKey \<Rightarrow> LocalKey \<Rightarrow> bytes \<Rightarrow> bytes \<Rightarrow> bytes askar_result" where
  "kms_crypto_box_open E recip_x25519 sender_x25519 message nonce =
     res_bind (cast_x25519 recip_x25519) (\<lambda>recip_pk.
     res_bind (cast_x25519 sender_x25519) (\<lambda>sender_sk.
     lift_askar (crypto_box_open E vec_buffer recip_pk sender_sk message nonce)))"

definition kms_crypto_box_seal :: "x25519_env \<Rightarrow> cbox_env \<Rightarrow> (nat \<Rightarrow> bytes) \<Rightarrow> LocalKey \<Rightarrow> bytes \<Rightarrow> bytes askar_result" where
  "kms_crypto_box_seal X E okm recip_x25519 message =
     res_bind (cast_x25519 recip_x25519) (\<lambda>kp. lift_askar (crypto_box_seal X E okm kp message))"

definition kms_crypto_box_seal_open :: "cbox_env \<Rightarrow> LocalKey \<Rightarrow> bytes \<Rightarrow> bytes askar_result" where
  "kms_crypto_box_seal_open E recip_x25519 ciphertext =
     res_bind (cast_x25519 recip_x25519) (\<lambda>kp. lift_askar (crypto_box_seal_open E kp ciphertext))"

text \<open>The key exchange of two local keys, as it is fed to the hash of the derivations.\<close>

definition local_key_exchange :: "key_env \<Rightarrow> LocalKey \<Rightarrow> LocalKey \<Rightarrow> bytes crypto_result" where
  "local_key_exchange K key other = any_write_key_exchange K (lk_inner key) (lk_inner other) vec_buffer []"

definition derive_key_ecdh_1pu :: "key_env \<Rightarrow> (bytes \<Rightarrow> bytes) \<Rightarrow> KeyAlg \<Rightarrow> LocalKey \<Rightarrow> LocalKey \<Rightarrow> LocalKey \<Rightarrow> bytes \<Rightarrow> bytes
    \<Rightarrow> bytes \<Rightarrow> bytes \<Rightarrow> bool \<Rightarrow> LocalKey askar_result" where
  "derive_key_ecdh_1pu K H key_alg ephem_key sender_key recip_key alg_id apu apv cc_tag receive =
     local_from_key_derivation key_alg (ecdh_1pu_derive_key_bytes H (local_key_exchange K)
       \<lparr>pu_ephem_key = ephem_key, pu_send_key = sender_key, pu_recip_key = recip_key, pu_alg = alg_id, pu_apu = apu, pu_apv = apv,
        pu_cc_tag = cc_tag, pu_receive = receive\<rparr>)"

definition derive_key_ecdh_es :: "key_env \<Rightarrow> (bytes \<Rightarrow> bytes) \<Rightarrow> KeyAlg \<Rightarrow> LocalKey \<Rightarrow> LocalKey \<Rightarrow> bytes \<Rightarrow> bytes \<Rightarrow> bytes \<Rightarrow> bool
    \<Rightarrow> LocalKey askar_result" where
  "derive_key_ecdh_es K H key_alg ephem_key recip_key alg_id apu apv receive =
     local_from_key_derivation key_alg (ecdh_es_derive_key_bytes H (local_key_exchange K)
       \<lparr>es_ephem_key = ephem_key, es_recip_key = recip_key, es_alg = alg_id, es_apu = apu, es_apv = apv, es_receive = receive\<rparr>)"

section \<open>What is encrypted is decrypted\<close>

lemma into_secret_split: "into_secret \<lparr>dec_ciphertext = c, dec_tag = t\<rparr> = c @ t"
  by (simp add: into_secret_def)

lemma encrypt_vec:
  assumes "key_env_correct K" "any_encrypt_in_place K key vec_buffer n a m = Ok (tag_pos, buf)"
  shows "tag_pos \<le> length buf" "length buf = length m + any_aead_padding K key (length m) + tag_length (any_aead_params K key)"
    "any_decrypt_in_place K key vec_buffer n a buf = Ok m"
  using vec.any_encrypt_size [OF assms(1) TrueI assms(2)] vec.any_aead_round_trip [OF assms(1) TrueI assms(2)] by auto

lemma encrypted_parts:
  assumes "p \<le> length buf" "e = \<lparr>enc_buffer = buf @ n, enc_tag_pos = p, enc_nonce_pos = length buf\<rparr>"
  shows "enc_ciphertext e = Ok (take p buf)" "enc_tag e = Ok (drop p buf)" "enc_nonce e = Ok n"
    "to_decrypt_encrypted e = Ok \<lparr>dec_ciphertext = take p buf, dec_tag = drop p buf\<rparr>"
proof -
  show "enc_ciphertext e = Ok (take p buf)" "enc_tag e = Ok (drop p buf)" "enc_nonce e = Ok n"
    using assms by (simp_all add: enc_ciphertext_def enc_tag_def enc_nonce_def slice_def)
  then show "to_decrypt_encrypted e = Ok \<lparr>dec_ciphertext = take p buf, dec_tag = drop p buf\<rparr>"
    by (simp add: to_decrypt_encrypted_def)
qed

lemma aead_encrypted_parts:
  assumes "key_env_correct K" and "local_aead_encrypt K fill key m nonce aad = Ok e"
  shows "\<exists>c t n. enc_ciphertext e = Ok c \<and> enc_tag e = Ok t \<and> enc_nonce e = Ok n \<and> enc_buffer e = c @ t @ n \<and>
    n = (if nonce = [] \<and> 0 < nonce_length (any_aead_params K (lk_inner key)) then fill (nonce_length (any_aead_params K (lk_inner key))) else nonce) \<and>
    length c + length t = length m + local_aead_padding K key (length m) + tag_length (any_aead_params K (lk_inner key)) \<and>
    local_aead_decrypt K key (to_decrypt_bytes (c @ t)) n aad = Ok m \<and>
    local_aead_decrypt K key (to_decrypt_split (c, t)) n aad = Ok m \<and>
    res_bind (to_decrypt_encrypted e) (\<lambda>d. local_aead_decrypt K key d n aad) = Ok m"
proof -
  let ?p = "any_aead_params K (lk_inner key)"
  define n where "n = (if nonce = [] \<and> 0 < nonce_length ?p then fill (nonce_length ?p) else nonce)"
  have n: "(if nonce = [] \<and> 0 < nonce_length ?p then local_aead_random_nonce K fill key else Ok nonce) = Ok n"
    by (simp add: n_def local_aead_random_nonce_def)
  obtain p buf where enc: "any_encrypt_in_place K (lk_inner key) vec_buffer n aad m = Ok (p, buf)"
    and e: "e = \<lparr>enc_buffer = buf @ n, enc_tag_pos = p, enc_nonce_pos = length buf\<rparr>"
    using assms(2) by (auto simp: local_aead_encrypt_def Let_def n result_simps split: if_splits)
  note d = encrypt_vec [OF assms(1) enc]
  note parts = encrypted_parts [OF d(1) e]
  show ?thesis
    using parts d e by (intro exI [of _ "take p buf"] exI [of _ "drop p buf"] exI [of _ n])
      (simp add: local_aead_decrypt_def to_decrypt_bytes_def to_decrypt_split_def into_secret_split local_aead_padding_def n_def)
qed

text \<open>
  Encrypting a message and decrypting the result, in one piece or as ciphertext and tag, under
  the nonce that the result carries, returns the message. The three parts make up the buffer and
  none of their accessors panics; the nonce is the given one, unless it was empty and had to be
  drawn; and the length is the one announced by the parameters and the padding of the key.
\<close>

theorem local_key_aead_round_trip:
  assumes "key_env_correct K" and "local_aead_encrypt K fill key m nonce aad = Ok e"
  shows "\<exists>c t n. enc_ciphertext e = Ok c \<and> enc_tag e = Ok t \<and> enc_nonce e = Ok n \<and> enc_buffer e = c @ t @ n \<and>
    n = (if nonce = [] \<and> 0 < nonce_length (any_aead_params K (lk_inner key)) then fill (nonce_length (any_aead_params K (lk_inner key))) else nonce) \<and>
    length c + length t = length m + local_aead_padding K key (length m) + tag_length (any_aead_params K (lk_inner key)) \<and>
    local_aead_decrypt K key (to_decrypt_bytes (c @ t)) n aad = Ok m \<and>
    local_aead_decrypt K key (to_decrypt_split (c, t)) n aad = Ok m \<and>
    res_bind (to_decrypt_encrypted e) (\<lambda>d. local_aead_decrypt K key d n aad) = Ok m"
  using aead_encrypted_parts [OF assms] .

theorem local_key_aead_round_trip_witness:
  "\<exists>e. local_aead_encrypt toy_keys (\<lambda>n. replicate n 5) (lasting (AesKey A128Gcm (replicate 16 1))) [1, 2] [] [] = Ok e \<and>
    res_bind (to_decrypt_encrypted e) (\<lambda>d. local_aead_decrypt toy_keys (lasting (AesKey A128Gcm (replicate 16 1))) d (replicate 12 5) []) =
      Ok [1, 2]"
proof -
  let ?k = "lasting (AesKey A128Gcm (replicate 16 1))"
  obtain e where e: "local_aead_encrypt toy_keys (\<lambda>n. replicate n 5) ?k [1, 2] [] [] = Ok e" "enc_nonce e = Ok (replicate 12 5)"
    by (simp add: local_aead_encrypt_def local_aead_random_nonce_def toy_keys_def lasting_def aead_params_def
        aes_gcm_encrypt_in_place_def Let_def enc_nonce_def slice_def)
  with local_key_aead_round_trip [OF toy_keys_correct e(1)] show ?thesis by auto
qed

lemma aead_decrypt_params:
  assumes "local_aead_params K key = Ok p"
  shows "symmetric_alg (local_algorithm key)"
  using assms by (cases "lk_inner key") (simp_all add: local_aead_params_def local_algorithm_def Let_def)

text \<open>
  Unwrapping a wrapped key for its algorithm gives the key back, as a lasting key, whichever key
  encrypted it; a key without a secret part cannot be wrapped.
\<close>

theorem local_key_wrap_round_trip:
  assumes "key_env_correct K" and "any_wf K (lk_inner key)"
  shows "(local_wrap_key K slf key nonce = Ok e \<longrightarrow>
      res_bind (to_decrypt_encrypted e) (\<lambda>d. local_unwrap_key K slf (local_algorithm key) d nonce) = Ok (lasting (lk_inner key))) \<and>
    (any_secret_bytes (lk_inner key) = None \<longrightarrow>
      local_wrap_key K slf key nonce = Err (askar_error_of_crypto (err_of_kind crypto_kind.MissingSecretKey)))"
proof (intro conjI impI)
  assume wrap: "local_wrap_key K slf key nonce = Ok e"
  obtain sk where sk: "any_secret_bytes (lk_inner key) = Some sk"
    using wrap by (auto simp: local_wrap_key_def any_write_secret_bytes_def write_opt_bytes_def split: option.splits)
  obtain p buf where enc: "any_encrypt_in_place K (lk_inner slf) vec_buffer nonce [] sk = Ok (p, buf)"
    and e: "e = \<lparr>enc_buffer = buf @ nonce, enc_tag_pos = p, enc_nonce_pos = length buf\<rparr>"
    using wrap sk by (auto simp: local_wrap_key_def any_write_secret_bytes_def write_opt_bytes_def result_simps)
  note d = encrypt_vec [OF assms(1) enc]
  have "from_secret_bytes_any K (local_algorithm key) sk = Ok (lk_inner key)"
    using any_secret_read_back [OF assms sk] by (simp add: local_algorithm_def)
  with d(3) encrypted_parts(4) [OF d(1) e]
  show "res_bind (to_decrypt_encrypted e) (\<lambda>d. local_unwrap_key K slf (local_algorithm key) d nonce) = Ok (lasting (lk_inner key))"
    by (simp add: local_unwrap_key_def into_secret_split local_from_secret_bytes_def)
qed (simp add: local_wrap_key_def any_write_secret_bytes_def write_opt_bytes_def)

theorem local_key_wrap_round_trip_witness:
  "\<exists>e. local_wrap_key toy_keys (lasting (AesKey A128Kw (replicate 16 1))) (lasting (AesKey A128Gcm (replicate 16 2))) [] = Ok e \<and>
    res_bind (to_decrypt_encrypted e) (\<lambda>d. local_unwrap_key toy_keys (lasting (AesKey A128Kw (replicate 16 1))) (Aes A128Gcm) d []) =
      Ok (lasting (AesKey A128Gcm (replicate 16 2)))"
proof -
  let ?w = "lasting (AesKey A128Kw (replicate 16 1))" and ?k = "lasting (AesKey A128Gcm (replicate 16 2))"
  obtain e where e: "local_wrap_key toy_keys ?w ?k [] = Ok e"
    by (cases "kw_encrypt_passes (encrypt_block rev_cipher (replicate 16 1)) 2 (AES_KW_DEFAULT_IV, chunks8 (replicate 16 2))")
      (simp add: local_wrap_key_def any_write_secret_bytes_def write_opt_bytes_def toy_keys_def lasting_def
        kw_encrypt_in_place_def Let_def vec_insert_def)
  have "any_wf toy_keys (lk_inner ?k)" by (simp add: lasting_def)
  from local_key_wrap_round_trip [OF toy_keys_correct this] e show ?thesis by (auto simp: lasting_def local_algorithm_def)
qed

section \<open>Derived keys\<close>

text \<open>
  C40. Two parties with consistent key pairs of one type, each holding its own pair and the public
  part of the other, derive the same key by ECDH-ES and by ECDH-1PU, or the same error.
\<close>

theorem derive_key_parties_agree:
  assumes "key_env_correct K" and "any_wf K ephem" and "any_wf K send" and "any_wf K recip"
    and "any_secret_bytes ephem \<noteq> None" and "any_secret_bytes send \<noteq> None" and "any_secret_bytes recip \<noteq> None"
    and "key_algorithm ephem = key_algorithm recip" and "key_algorithm send = key_algorithm recip"
    and "pub = (\<lambda>k. lasting (any_without_secret k))" and "\<not> symmetric_alg (key_algorithm recip)"
  shows "derive_key_ecdh_es K H alg (lasting ephem) (pub recip) alg_id apu apv False =
      derive_key_ecdh_es K H alg (pub ephem) (lasting recip) alg_id apu apv True \<and>
    derive_key_ecdh_1pu K H alg (lasting ephem) (lasting send) (pub recip) alg_id apu apv tag False =
      derive_key_ecdh_1pu K H alg (pub ephem) (pub send) (lasting recip) alg_id apu apv tag True"
proof -
  have "local_key_exchange K (lasting a) (pub recip) = local_key_exchange K (lasting recip) (pub a)"
    if "any_wf K a" "any_secret_bytes a \<noteq> None" "key_algorithm a = key_algorithm recip" for a
    using that assms(4,7,11) key_env_correctD(3,4) [OF assms(1)]
    by (cases a; cases recip) (auto simp: assms(10) local_key_exchange_def lasting_def any_write_key_exchange_def
        x25519_write_key_exchange_def ec_write_key_exchange_def x25519_wf_def ec_wf_def x25519_env_correct_def ec_env_correct_def)
  with assms have "local_key_exchange K (lasting ephem) (pub recip) = local_key_exchange K (lasting recip) (pub ephem)"
    "local_key_exchange K (lasting send) (pub recip) = local_key_exchange K (lasting recip) (pub send)" by simp_all
  then show ?thesis unfolding derive_key_ecdh_es_def derive_key_ecdh_1pu_def
    by (intro conjI arg_cong [where f = "local_from_key_derivation alg"] ext)
      (simp_all add: ecdh_es_derive_key_bytes_def ecdh_1pu_derive_key_bytes_def)
qed

theorem derive_key_parties_agree_witness:
  "derive_key_ecdh_es toy_keys id (Aes A128Gcm) (lasting (X25519Key (toy_box_key 1))) (lasting (any_without_secret (X25519Key (toy_box_key 2)))) [] [] [] False =
    derive_key_ecdh_es toy_keys id (Aes A128Gcm) (lasting (any_without_secret (X25519Key (toy_box_key 1)))) (lasting (X25519Key (toy_box_key 2))) [] [] [] True"
proof -
  have "any_wf toy_keys (X25519Key (toy_box_key c))" for c using toy_box_key_wf by (simp add: toy_keys_def)
  moreover have "any_secret_bytes (X25519Key (toy_box_key c)) \<noteq> None" for c by (simp add: toy_box_key_def)
  ultimately show ?thesis by (intro conjunct1 [OF derive_key_parties_agree [OF toy_keys_correct, where send = "X25519Key (toy_box_key 1)"]]) simp_all
qed

end
