(* ===== verification/Key_Entry.thy ===== *)
theory Key_Entry
  imports Local_Key Entry
begin

text \<open>
  Stored keys (\<open>src/kms/entry.rs\<close> and the categories of \<open>src/kms/mod.rs\<close>): the parameters that are
  stored as the value of an entry, the reading of an entry of the store as a key entry, in which
  the tags of the user are told from those of the key, and the loading of the key itself.
\<close>

section \<open>Categories\<close>

datatype KmsCategory = CryptoKey

primrec kms_category_as_str :: "KmsCategory \<Rightarrow> string" where
  "kms_category_as_str CryptoKey = ''cryptokey''"

definition kms_category_from_str :: "string \<Rightarrow> KmsCategory askar_result" where
  "kms_category_from_str s =
     (if s = ''cryptokey'' then Ok CryptoKey
      else Err (err_msg askar_kind.Input (''Unknown KMS category: '' @ s)))"

section \<open>Parameters\<close>

datatype KeyReference = MobileSecureElement | AnyReference string

definition key_reference_from_str :: "string \<Rightarrow> KeyReference" where
  "key_reference_from_str v = (if v = ''mobile_secure_element'' then MobileSecureElement else AnyReference v)"

primrec key_reference_to_string :: "KeyReference \<Rightarrow> string" where
  "key_reference_to_string MobileSecureElement = ''mobile_secure_element''"
| "key_reference_to_string (AnyReference s) = s"

record KeyParams =
  kp_metadata :: "string option"
  kp_reference :: "KeyReference option"
  kp_data :: "bytes option"

text \<open>
  The CBOR serialisation (\<open>serde_cbor\<close>), with the messages of its errors. It is relied on to read
  what it wrote.
\<close>

record params_codec =
  pc_to_vec :: "KeyParams \<Rightarrow> (bytes, string) result"
  pc_from_slice :: "bytes \<Rightarrow> (KeyParams, string) result"

definition params_codec_correct :: "params_codec \<Rightarrow> bool" where
  "params_codec_correct C \<longleftrightarrow> (\<forall>p b. pc_to_vec C p = Ok b \<longrightarrow> pc_from_slice C b = Ok p)"

definition params_to_bytes :: "params_codec \<Rightarrow> KeyParams \<Rightarrow> bytes askar_result" where
  "params_to_bytes C p =
     res_map_err (\<lambda>e. err_msg askar_kind.Unexpected (''Error serializing key params: '' @ e)) (pc_to_vec C p)"

definition params_to_id :: "KeyParams \<Rightarrow> string askar_result" where
  "params_to_id p =
     ok_or (Option.bind (kp_data p) string_from_utf8)
       (err_msg askar_kind.Input ''Could not convert key data to string for id'')"

definition params_from_slice :: "params_codec \<Rightarrow> bytes \<Rightarrow> KeyParams askar_result" where
  "params_from_slice C b =
     res_map_err (\<lambda>e. err_msg askar_kind.Unexpected (''Error deserializing key params: '' @ e)) (pc_from_slice C b)"

lemma params_read_back: "params_codec_correct C \<Longrightarrow> params_to_bytes C p = Ok b \<Longrightarrow> params_from_slice C b = Ok p"
  by (auto simp: params_codec_correct_def params_to_bytes_def params_from_slice_def result_simps)

section \<open>Key entries\<close>

record KeyEntry =
  ke_name :: string
  ke_params :: KeyParams
  ke_alg :: "string option"
  ke_thumbprints :: "string list"
  ke_tags :: "EntryTag list"

definition ke_algorithm :: "KeyEntry \<Rightarrow> string option" where
  "ke_algorithm k = ke_alg k"

definition ke_metadata :: "KeyEntry \<Rightarrow> string option" where
  "ke_metadata k = kp_metadata (ke_params k)"

definition ke_is_local :: "KeyEntry \<Rightarrow> bool" where
  "ke_is_local k = (kp_reference (ke_params k) = None)"

text \<open>\<open>Vec::remove\<close>, for an index within the vector.\<close>

definition remove_at :: "nat \<Rightarrow> 'a list \<Rightarrow> 'a list" where
  "remove_at i xs = take i xs @ drop (Suc i) xs"

lemma length_remove_at [simp]: "i < length xs \<Longrightarrow> length (remove_at i xs) = length xs - 1"
  by (simp add: remove_at_def)

lemma remove_at_append [simp]: "remove_at (length xs) (xs @ y # ys) = xs @ ys"
  by (simp add: remove_at_def)

abbreviation user_prefix :: string where
  "user_prefix \<equiv> ''user:''"

definition is_user_name :: "string \<Rightarrow> bool" where
  "is_user_name name = (take 5 name = user_prefix)"

text \<open>The loop of \<open>from_entry\<close>: it edits the vector of tags in place and moves on only past a tag it keeps.\<close>

function from_entry_loop :: "nat \<Rightarrow> EntryTag list \<Rightarrow> string option \<Rightarrow> string list
    \<Rightarrow> string option \<times> string list \<times> EntryTag list" where
  "from_entry_loop idx tags alg thumbprints =
     (if idx < length tags then
        let tag = tags ! idx; name = entry_tag_name tag in
        if is_user_name name then from_entry_loop (idx + 1) (tags[idx := update_name (drop 5) tag]) alg thumbprints
        else if name = ''alg'' then from_entry_loop idx (remove_at idx tags) (Some (entry_tag_value tag)) thumbprints
        else if name = ''thumb'' then from_entry_loop idx (remove_at idx tags) alg (thumbprints @ [entry_tag_value tag])
        else from_entry_loop idx (remove_at idx tags) alg thumbprints
      else (alg, thumbprints, tags))"
  by pat_completeness auto
termination
  by (relation "measure (\<lambda>(idx, tags, _). length tags - idx)") auto

declare from_entry_loop.simps [simp del]

definition from_entry :: "params_codec \<Rightarrow> Entry \<Rightarrow> KeyEntry askar_result" where
  "from_entry C entry =
     res_bind (params_from_slice C (entry_value entry)) (\<lambda>params.
     let (alg, thumbprints, tags) = from_entry_loop 0 (entry_tags entry) None []
     in Ok \<lparr>ke_name = entry_name entry, ke_params = params, ke_alg = alg, ke_thumbprints = sort thumbprints,
       ke_tags = sort tags\<rparr>)"

definition load_local_key :: "key_env \<Rightarrow> base64 \<Rightarrow> json_reader \<Rightarrow> KeyEntry \<Rightarrow> LocalKey askar_result" where
  "load_local_key K b64 R k =
     (case kp_data (ke_params k) of
        Some key_data \<Rightarrow>
          if kp_reference (ke_params k) = Some MobileSecureElement then
            res_bind (params_to_id (ke_params k)) (\<lambda>key_id.
            res_bind (ok_or (ke_alg k) (err_msg askar_kind.Input ''Algorithm is required to get key by id'')) (\<lambda>alg.
            res_bind (lift_askar (key_alg_from_str alg)) (\<lambda>alg.
            local_from_id alg key_id)))
          else local_from_jwk_slice K b64 R key_data
      | None \<Rightarrow> Err (err_msg askar_kind.Input ''Missing key data''))"

section \<open>What the loop computes\<close>

definition key_tag_values :: "string \<Rightarrow> EntryTag list \<Rightarrow> string list" where
  "key_tag_values name tags = map entry_tag_value (filter (\<lambda>t. entry_tag_name t = name) tags)"

definition user_tags :: "EntryTag list \<Rightarrow> EntryTag list" where
  "user_tags tags = map (update_name (drop 5)) (filter (\<lambda>t. is_user_name (entry_tag_name t)) tags)"

definition last_or :: "'a option \<Rightarrow> 'a list \<Rightarrow> 'a option" where
  "last_or d xs = (if xs = [] then d else Some (last xs))"

lemma user_name_other [simp]: "\<not> is_user_name ''alg''" "\<not> is_user_name ''thumb''"
  "is_user_name (CHR ''u'' # CHR ''s'' # CHR ''e'' # CHR ''r'' # CHR '':'' # n)"
  by (simp_all add: is_user_name_def)

lemma from_entry_loop_kept:
  "from_entry_loop (length kept) (kept @ tags) alg thumbs =
    (last_or alg (key_tag_values ''alg'' tags), thumbs @ key_tag_values ''thumb'' tags, kept @ user_tags tags)"
proof (induction tags arbitrary: kept alg thumbs)
  case Nil
  show ?case by (simp add: from_entry_loop.simps key_tag_values_def user_tags_def last_or_def)
next
  case (Cons t ts)
  let ?n = "entry_tag_name t"
  have step: "from_entry_loop (length kept) (kept @ t # ts) alg thumbs =
      (if is_user_name ?n then from_entry_loop (length (kept @ [update_name (drop 5) t])) ((kept @ [update_name (drop 5) t]) @ ts) alg thumbs
       else if ?n = ''alg'' then from_entry_loop (length kept) (kept @ ts) (Some (entry_tag_value t)) thumbs
       else if ?n = ''thumb'' then from_entry_loop (length kept) (kept @ ts) alg (thumbs @ [entry_tag_value t])
       else from_entry_loop (length kept) (kept @ ts) alg thumbs)"
    by (subst from_entry_loop.simps) (simp add: Let_def)
  have "\<not> is_user_name ''alg''" "\<not> is_user_name ''thumb''" by simp_all
  then show ?case
    unfolding step Cons.IH by (auto simp: key_tag_values_def user_tags_def last_or_def)
qed

lemma from_entry_eq:
  "from_entry C entry = res_map (\<lambda>params.
     \<lparr>ke_name = entry_name entry, ke_params = params, ke_alg = last_or None (key_tag_values ''alg'' (entry_tags entry)),
      ke_thumbprints = sort (key_tag_values ''thumb'' (entry_tags entry)), ke_tags = sort (user_tags (entry_tags entry))\<rparr>)
     (params_from_slice C (entry_value entry))"
  using from_entry_loop_kept [of "[]" "entry_tags entry" None "[]"]
  by (cases "params_from_slice C (entry_value entry)") (simp_all add: from_entry_def)

text \<open>
  Reading an entry as a key entry sorts its tags out, in one pass that always ends: tags whose
  name begins with the prefix of the user are kept without it, the value of the last algorithm tag
  is the algorithm, the thumbprints are collected and sorted, and all other tags are dropped.
\<close>

theorem from_entry_sorts_tags_out:
  "from_entry C entry = res_map (\<lambda>params.
     \<lparr>ke_name = entry_name entry, ke_params = params, ke_alg = last_or None (key_tag_values ''alg'' (entry_tags entry)),
      ke_thumbprints = sort (key_tag_values ''thumb'' (entry_tags entry)), ke_tags = sort (user_tags (entry_tags entry))\<rparr>)
     (params_from_slice C (entry_value entry))"
  by (rule from_entry_eq)

end
