(* ===== verification/Store_Options.thy ===== *)
theory Store_Options
  imports Uri_Options
begin

text \<open>
  The options of each kind of store, read from the parts of its URI: \<open>SqliteStoreOptions::new\<close>
  (\<open>backend/sqlite/provision.rs\<close>), \<open>PostgresStoreOptions::new\<close> with the check of identifiers and the
  statements that quote them (\<open>backend/postgres/provision.rs\<close>), and \<open>OdbcStoreOptions::new\<close>
  (\<open>backend/odbc/provision.rs\<close>). The main result: what is accepted as the name of a database or a
  user is read back by the server from the quoted identifier of a statement.
\<close>

section \<open>Parameters\<close>

text \<open>\<open>str::parse\<close> for an unsigned type with the given number of values: an optional plus sign and digits.\<close>

definition parse_uint :: "nat \<Rightarrow> string \<Rightarrow> nat option" where
  "parse_uint bound s =
     (let digits = (case s of c # rest \<Rightarrow> if c = CHR ''+'' then rest else s | [] \<Rightarrow> [])
      in if digits \<noteq> [] \<and> list_all is_digit digits \<and> parse_digits digits < bound then Some (parse_digits digits) else None)"

abbreviation parse_u32 :: "string \<Rightarrow> nat option" where
  "parse_u32 \<equiv> parse_uint (2 ^ 32)"

abbreviation parse_u64 :: "string \<Rightarrow> nat option" where
  "parse_u64 \<equiv> parse_uint (2 ^ 64)"

text \<open>\<open>opts.query.remove(name)\<close>.\<close>

definition take_param :: "string \<Rightarrow> Options \<Rightarrow> string option \<times> Options" where
  "take_param name opts = (map_of (opt_query opts) name, opts\<lparr>opt_query := AList.delete name (opt_query opts)\<rparr>)"

text \<open>The common form of a parameter: parsed when it is given, and else a default.\<close>

definition parsed_param :: "(string \<Rightarrow> 'a option) \<Rightarrow> 'a storage_result \<Rightarrow> string \<Rightarrow> Options \<Rightarrow> ('a \<times> Options) storage_result" where
  "parsed_param parse dflt name opts =
     (let (param, opts) = take_param name opts in
      res_map (\<lambda>v. (v, opts))
        (case param of
           Some text \<Rightarrow> ok_or (parse text) (err_msg storage_kind.Input (''Error parsing '' @ [CHR 0x27] @ name @ [CHR 0x27] @ '' parameter''))
         | None \<Rightarrow> dflt))"

section \<open>SQLite\<close>

text \<open>
  The modes are types of the driver, as are the functions that read them; the processor count is that
  of the machine, when it can be determined. Times are in milliseconds.
\<close>

record ('j, 'l, 's) sqlite_driver =
  dr_journal_mode :: "string \<Rightarrow> 'j option"
  dr_locking_mode :: "string \<Rightarrow> 'l option"
  dr_synchronous :: "string \<Rightarrow> 's option"
  dr_wal :: 'j
  dr_normal :: 'l
  dr_full :: 's
  dr_parallelism :: "nat option"

record ('j, 'l, 's) SqliteStoreOptions =
  so_in_memory :: bool
  so_path :: string
  so_busy_timeout :: nat
  so_max_connections :: nat
  so_min_connections :: nat
  so_journal_mode :: 'j
  so_locking_mode :: 'l
  so_shared_cache :: bool
  so_synchronous :: 's

definition DEFAULT_BUSY_TIMEOUT :: nat where
  "DEFAULT_BUSY_TIMEOUT = 5000"

definition default_max_connections :: "nat option \<Rightarrow> nat storage_result" where
  "default_max_connections parallelism =
     res_map (\<lambda>n. min (max n 4) 8)
       (ok_or parallelism (err_msg storage_kind.Unexpected ''Error determining available parallelism''))"

definition ascii_lower :: "char \<Rightarrow> char" where
  "ascii_lower c = (if 65 \<le> (of_char c :: nat) \<and> (of_char c :: nat) \<le> 90 then char_of (of_char c + 32 :: nat) else c)"

definition eq_ignore_ascii_case :: "string \<Rightarrow> string \<Rightarrow> bool" where
  "eq_ignore_ascii_case s t \<longleftrightarrow> map ascii_lower s = map ascii_lower t"

definition sqlite_options_new :: "('j, 'l, 's) sqlite_driver \<Rightarrow> Options \<Rightarrow> ('j, 'l, 's) SqliteStoreOptions storage_result" where
  "sqlite_options_new D opts =
     (let path = opt_host opts @ opt_path opts;
          in_memory = (path = '':memory:'')
      in res_bind (parsed_param parse_u64 (Ok DEFAULT_BUSY_TIMEOUT) ''busy_timeout'' opts) (\<lambda>(busy_timeout, opts).
         res_bind (parsed_param parse_u32 (default_max_connections (dr_parallelism D)) ''max_connections'' opts) (\<lambda>(max_connections, opts).
         res_bind (parsed_param parse_u32 (Ok 1) ''min_connections'' opts) (\<lambda>(min_connections, opts).
         res_bind (parsed_param (dr_journal_mode D) (Ok (dr_wal D)) ''journal_mode'' opts) (\<lambda>(journal_mode, opts).
         res_bind (parsed_param (dr_locking_mode D) (Ok (dr_normal D)) ''locking_mode'' opts) (\<lambda>(locking_mode, opts).
         (let (cache, opts) = take_param ''cache'' opts;
              shared_cache = (case cache of Some cache \<Rightarrow> eq_ignore_ascii_case cache ''shared'' | None \<Rightarrow> in_memory)
          in res_bind (parsed_param (dr_synchronous D) (Ok (dr_full D)) ''synchronous'' opts) (\<lambda>(synchronous, opts).
             Ok \<lparr>so_in_memory = in_memory, so_path = path, so_busy_timeout = busy_timeout,
               so_max_connections = max_connections, so_min_connections = min_connections,
               so_journal_mode = journal_mode, so_locking_mode = locking_mode, so_shared_cache = shared_cache,
               so_synchronous = synchronous\<rparr>))))))))"

text \<open>\<open>from_path\<close> and \<open>in_memory\<close>, whose \<open>unwrap\<close> panics when the options are refused.\<close>

definition sqlite_from_path :: "('j, 'l, 's) sqlite_driver \<Rightarrow> string \<Rightarrow> ('j, 'l, 's) SqliteStoreOptions storage_result" where
  "sqlite_from_path D path =
     (case sqlite_options_new D \<lparr>opt_scheme = [], opt_user = [], opt_password = [], opt_host = path, opt_path = [],
          opt_query = [], opt_fragment = []\<rparr> of
        Ok so \<Rightarrow> Ok so
      | _ \<Rightarrow> Panic)"

definition sqlite_in_memory :: "('j, 'l, 's) sqlite_driver \<Rightarrow> ('j, 'l, 's) SqliteStoreOptions storage_result" where
  "sqlite_in_memory D = sqlite_from_path D '':memory:''"

section \<open>PostgreSQL\<close>

text \<open>Times are in seconds.\<close>

record PostgresStoreOptions =
  pg_connect_timeout :: nat
  pg_idle_timeout :: nat
  pg_max_connections :: nat
  pg_min_connections :: nat
  pg_uri :: string
  pg_admin_uri :: string
  pg_host :: string
  pg_name :: string
  pg_username :: string
  pg_schema :: "string option"

abbreviation quote_char :: char where
  "quote_char \<equiv> CHR 0x22"

definition validate_ident :: "string \<Rightarrow> string \<Rightarrow> unit storage_result" where
  "validate_ident ident name =
     (if ident = [] then Err (err_msg storage_kind.Input (name @ '' identifier is empty''))
      else if list_ex (\<lambda>c. c = quote_char \<or> c = CHR 0x00) ident then
        Err (err_msg storage_kind.Input (''Invalid character in '' @ name @ '' identifier: '' @ [CHR 0x27, quote_char, CHR 0x27]
          @ '' and '' @ [CHR 0x27, CHR 0x5C, CHR ''0'', CHR 0x27] @ '' are disallowed''))
      else Ok ())"

text \<open>The account of the owner, and the account that creates the database when one is given.\<close>

definition admin_options :: "string option \<Rightarrow> string option \<Rightarrow> Options \<Rightarrow> Options" where
  "admin_options admin_acct admin_pass opts =
     (let opts = (case admin_acct of Some acct \<Rightarrow> opts\<lparr>opt_user := acct\<rparr> | None \<Rightarrow> opts)
      in case admin_pass of Some pass \<Rightarrow> opts\<lparr>opt_password := pass\<rparr> | None \<Rightarrow> opts)"

definition validate_names :: "string option \<Rightarrow> string \<Rightarrow> string \<Rightarrow> unit storage_result" where
  "validate_names schema name username =
     res_bind (case schema of Some schema \<Rightarrow> validate_ident schema ''schema'' | None \<Rightarrow> Ok ()) (\<lambda>_.
     res_bind (validate_ident name ''database'') (\<lambda>_.
     validate_ident username ''username''))"

definition postgres_names :: "uri_codec \<Rightarrow> nat \<Rightarrow> nat \<Rightarrow> nat \<Rightarrow> nat \<Rightarrow> Options \<Rightarrow> PostgresStoreOptions storage_result" where
  "postgres_names C connect_timeout idle_timeout max_connections min_connections opts =
     (let (schema, opts) = take_param ''schema'' opts;
          (admin_acct, opts) = take_param ''admin_account'' opts;
          (admin_pass, opts) = take_param ''admin_password'' opts;
          username = (if opt_user opts = [] then ''postgres'' else opt_user opts);
          uri = options_into_uri C opts;
          opts = admin_options admin_acct admin_pass opts;
          path = opt_path opts
      in if length path < 2 then Err (err_msg storage_kind.Input ''Missing database name'')
         else
           res_map (\<lambda>_. \<lparr>pg_connect_timeout = connect_timeout, pg_idle_timeout = idle_timeout, pg_max_connections = max_connections,
             pg_min_connections = min_connections, pg_uri = uri,
             pg_admin_uri = options_into_uri C (opts\<lparr>opt_path := ''/postgres''\<rparr>), pg_host = opt_host opts,
             pg_name = tl path, pg_username = username, pg_schema = schema\<rparr>)
             (validate_names schema (tl path) username))"

definition postgres_options_new :: "uri_codec \<Rightarrow> Options \<Rightarrow> PostgresStoreOptions storage_result" where
  "postgres_options_new C opts =
     res_bind (parsed_param parse_u64 (Ok 30) ''connect_timeout'' opts) (\<lambda>(connect_timeout, opts).
     res_bind (parsed_param parse_u64 (Ok 300) ''idle_timeout'' opts) (\<lambda>(idle_timeout, opts).
     res_bind (parsed_param parse_u32 (Ok 10) ''max_connections'' opts) (\<lambda>(max_connections, opts).
     res_bind (parsed_param parse_u32 (Ok 0) ''min_connections'' opts) (\<lambda>(min_connections, opts).
     postgres_names C connect_timeout idle_timeout max_connections min_connections opts))))"

text \<open>The statements that contain a name in quotes.\<close>

definition create_database_query :: "PostgresStoreOptions \<Rightarrow> string" where
  "create_database_query pg =
     ''CREATE DATABASE '' @ [quote_char] @ pg_name pg @ [quote_char] @ '' OWNER '' @ [quote_char] @ pg_username pg @ [quote_char]"

definition drop_database_query :: "PostgresStoreOptions \<Rightarrow> string" where
  "drop_database_query pg = ''DROP DATABASE '' @ [quote_char] @ pg_name pg @ [quote_char]"

section \<open>ODBC\<close>

record OdbcStoreOptions =
  od_connect_timeout :: nat
  od_idle_timeout :: nat
  od_max_lifetime :: nat
  od_max_connections :: nat
  od_min_connections :: nat
  od_connection_string :: string
  od_schema_file :: string

definition odbc_options_new :: "Options \<Rightarrow> OdbcStoreOptions storage_result" where
  "odbc_options_new opts =
     res_bind (parsed_param parse_u64 (Ok 30) ''connect_timeout'' opts) (\<lambda>(connect_timeout, opts).
     res_bind (parsed_param parse_u64 (Ok 300) ''idle_timeout'' opts) (\<lambda>(idle_timeout, opts).
     res_bind (parsed_param parse_u64 (Ok 300) ''max_lifetime'' opts) (\<lambda>(max_lifetime, opts).
     res_bind (parsed_param parse_u32 (Ok 10) ''max_connections'' opts) (\<lambda>(max_connections, opts).
     res_bind (parsed_param parse_u32 (Ok 0) ''min_connections'' opts) (\<lambda>(min_connections, opts).
     (let (schema_file, opts) = take_param ''schema_file'' opts in
      case schema_file of
        None \<Rightarrow> Err (err_msg storage_kind.Input (''Missing '' @ [CHR 0x27] @ ''schema_file'' @ [CHR 0x27] @ '' parameter''))
      | Some schema_file \<Rightarrow>
          Ok \<lparr>od_connect_timeout = connect_timeout, od_idle_timeout = idle_timeout, od_max_lifetime = max_lifetime,
            od_max_connections = max_connections, od_min_connections = min_connections,
            od_connection_string = opt_host opts @ opt_path opts, od_schema_file = schema_file\<rparr>))))))"

section \<open>Reading quoted identifiers\<close>

text \<open>
  How a server reads the double quoted identifiers of a statement: text outside quotes is left out, a
  doubled quote inside stands for one, an open quote at the end is an error. The first argument is the
  identifier being read.
\<close>

fun quoted_idents :: "string option \<Rightarrow> string \<Rightarrow> string list option" where
  "quoted_idents None [] = Some []"
| "quoted_idents (Some ident) [] = None"
| "quoted_idents None (c # s) = (if c = quote_char then quoted_idents (Some []) s else quoted_idents None s)"
| "quoted_idents (Some ident) [c] = (if c = quote_char then Some [ident] else None)"
| "quoted_idents (Some ident) (c # d # s) =
     (if c = quote_char then
        if d = quote_char then quoted_idents (Some (ident @ [quote_char])) s
        else map_option (Cons ident) (quoted_idents None (d # s))
      else quoted_idents (Some (ident @ [c])) (d # s))"

lemma quoted_idents_outside: "quote_char \<notin> set s \<Longrightarrow> quoted_idents None (s @ t) = quoted_idents None t"
  by (induction s) auto

lemma quoted_idents_inside:
  "quote_char \<notin> set s \<Longrightarrow> t = [] \<or> hd t \<noteq> quote_char \<Longrightarrow>
    quoted_idents (Some ident) (s @ quote_char # t) = map_option (Cons (ident @ s)) (quoted_idents None t)"
proof (induction s arbitrary: ident)
  case Nil
  then show ?case by (cases t) auto
next
  case (Cons c s)
  then show ?case by (cases "s @ quote_char # t") auto
qed

lemma quoted_idents_quoted:
  "quote_char \<notin> set pre \<Longrightarrow> quote_char \<notin> set s \<Longrightarrow> t = [] \<or> hd t \<noteq> quote_char \<Longrightarrow>
    quoted_idents None (pre @ quote_char # s @ quote_char # t) = map_option (Cons s) (quoted_idents None t)"
  by (simp add: quoted_idents_outside quoted_idents_inside)

definition good_ident :: "string \<Rightarrow> bool" where
  "good_ident i \<longleftrightarrow> i \<noteq> [] \<and> quote_char \<notin> set i \<and> CHR 0x00 \<notin> set i"

text \<open>Parameters change neither path nor user, and fail only with an error of the input.\<close>

definition input_error :: "'a storage_result \<Rightarrow> bool" where
  "input_error r \<longleftrightarrow> (\<exists>e. r = Err e \<and> err_kind e = storage_kind.Input)"

lemma parsed_param_cases:
  obtains (Ok) v opts' where "parsed_param parse (Ok d) n opts = Ok (v, opts')" "opt_path opts' = opt_path opts" "opt_user opts' = opt_user opts"
    | (Err) e where "parsed_param parse (Ok d) n opts = Err e" "err_kind e = storage_kind.Input"
  by (cases "map_of (opt_query opts) n"; cases "parse (the (map_of (opt_query opts) n))")
    (auto simp: parsed_param_def take_param_def)

lemma validate_ident_cases:
  obtains (Ok) "validate_ident ident name = Ok ()" "good_ident ident"
    | (Err) e where "validate_ident ident name = Err e" "err_kind e = storage_kind.Input" "\<not> good_ident ident"
  by (cases "ident = []"; cases "list_ex (\<lambda>c. c = quote_char \<or> c = CHR 0x00) ident")
    (auto simp: validate_ident_def good_ident_def list_ex_iff)

lemma validate_names_cases:
  obtains (Ok) "validate_names schema name username = Ok ()" "good_ident name" "good_ident username" "\<forall>s. schema = Some s \<longrightarrow> good_ident s"
    | (Err) "input_error (validate_names schema name username)"
proof (cases rule: validate_ident_cases [of name "''database''"])
  case Ok
  note n = this
  show thesis
  proof (cases rule: validate_ident_cases [of username "''username''"])
    case Ok
    show thesis
    proof (cases schema)
      case None
      with n Ok show thesis by (intro that(1)) (simp_all add: validate_names_def)
    next
      case (Some s)
      then show thesis
        by (cases rule: validate_ident_cases [of s "''schema''"])
          (use n Ok that in \<open>simp_all add: validate_names_def input_error_def\<close>)
    qed
  next
    case (Err e)
    then show thesis
      by (intro that(2), cases schema; cases rule: validate_ident_cases [of "the schema" "''schema''"])
        (use n in \<open>simp_all add: validate_names_def input_error_def\<close>)
  qed
next
  case (Err e)
  then show thesis
    by (intro that(2), cases schema; cases rule: validate_ident_cases [of "the schema" "''schema''"])
      (simp_all add: validate_names_def input_error_def)
qed

lemma postgres_names_cases:
  fixes opts :: Options
  defines "username \<equiv> if opt_user opts = [] then ''postgres'' else opt_user opts"
  obtains (Ok) pg where "postgres_names C a b c d opts = Ok pg" "pg_name pg = tl (opt_path opts)" "opt_path opts \<noteq> []"
      "good_ident (pg_name pg)" "good_ident (pg_username pg)" "\<forall>s. pg_schema pg = Some s \<longrightarrow> good_ident s"
    | (Err) "input_error (postgres_names C a b c d opts)"
proof -
  let ?o = "snd (take_param ''admin_password'' (snd (take_param ''admin_account'' (snd (take_param ''schema'' opts)))))"
  let ?s = "fst (take_param ''schema'' opts)"
  have p: "opt_path (admin_options acct pass ?o) = opt_path opts" "opt_user ?o = opt_user opts" for acct pass
    by (simp_all add: admin_options_def take_param_def Let_def split: option.splits)
  note names = postgres_names_def [of C a b c d opts, unfolded Let_def case_prod_beta p username_def [symmetric]]
  show thesis
  proof (cases "length (opt_path opts) < 2")
    case True
    then show thesis using that(2) by (simp add: names input_error_def)
  next
    case False
    then have "opt_path opts \<noteq> []" by auto
    with False show thesis
      by (cases rule: validate_names_cases [of ?s "tl (opt_path opts)" username])
        (use that in \<open>auto simp: names input_error_def\<close>)
  qed
qed

lemma postgres_options_cases:
  obtains (Ok) pg where "postgres_options_new C opts = Ok pg" "pg_name pg = tl (opt_path opts)" "opt_path opts \<noteq> []"
      "good_ident (pg_name pg)" "good_ident (pg_username pg)" "\<forall>s. pg_schema pg = Some s \<longrightarrow> good_ident s"
    | (Err) "input_error (postgres_options_new C opts)"
proof (cases rule: parsed_param_cases [of parse_u64 30 "''connect_timeout''" opts])
  case (Ok a o1)
  note 1 = this
  show thesis
  proof (cases rule: parsed_param_cases [of parse_u64 300 "''idle_timeout''" o1])
    case (Ok b o2)
    note 2 = this
    show thesis
    proof (cases rule: parsed_param_cases [of parse_u32 10 "''max_connections''" o2])
      case (Ok c o3)
      note 3 = this
      show thesis
      proof (cases rule: parsed_param_cases [of parse_u32 0 "''min_connections''" o3])
        case (Ok d o4)
        note new = postgres_options_new_def [of C opts, unfolded 1(1) 2(1) 3(1) Ok(1) res_bind.simps prod.case]
        have path: "opt_path o4 = opt_path opts" using 1 2 3 Ok by simp
        show thesis
        proof (cases rule: postgres_names_cases [of C a b c d o4])
          case (Ok pg)
          show thesis by (rule that(1) [of pg]) (use Ok new path in simp_all)
        next
          case Err
          then show thesis by (intro that(2)) (simp add: new)
        qed
      qed (use that(2) 1 2 3 in \<open>simp add: postgres_options_new_def input_error_def\<close>)
    qed (use that(2) 1 2 in \<open>simp add: postgres_options_new_def input_error_def\<close>)
  qed (use that(2) 1 in \<open>simp add: postgres_options_new_def input_error_def\<close>)
qed (use that(2) in \<open>simp add: postgres_options_new_def input_error_def\<close>)

text \<open>
  C19. The statements that create and drop a Postgres database name what the options name: for any
  accepted URI, the server reads from \<open>CREATE DATABASE\<close> exactly the database and the owner, and from
  \<open>DROP DATABASE\<close> exactly the database, which is the path of the URI without its slash; no accepted
  name is empty or ends a quotation, and a URI whose name would is refused as invalid input.
\<close>

theorem postgres_statements_name_options:
  "(case postgres_options_new C opts of
      Ok pg \<Rightarrow> quoted_idents None (create_database_query pg) = Some [pg_name pg, pg_username pg] \<and>
        quoted_idents None (drop_database_query pg) = Some [pg_name pg] \<and>
        pg_name pg = tl (opt_path opts) \<and> pg_name pg \<noteq> [] \<and> pg_username pg \<noteq> [] \<and> pg_schema pg \<noteq> Some [] \<and>
        opt_path opts \<noteq> [] \<and> quote_char \<notin> set (tl (opt_path opts))
    | Err e \<Rightarrow> err_kind e = storage_kind.Input
    | Panic \<Rightarrow> False)"
proof (cases rule: postgres_options_cases [of C opts])
  case (Ok pg)
  then have "quote_char \<notin> set (pg_name pg)" "quote_char \<notin> set (pg_username pg)" by (simp_all add: good_ident_def)
  then have "quoted_idents None (create_database_query pg) = Some [pg_name pg, pg_username pg]"
    "quoted_idents None (drop_database_query pg) = Some [pg_name pg]"
    using quoted_idents_quoted [of "''CREATE DATABASE ''" "pg_name pg" "'' OWNER '' @ [quote_char] @ pg_username pg @ [quote_char]"]
      quoted_idents_quoted [of "'' OWNER ''" "pg_username pg" "[]"] quoted_idents_quoted [of "''DROP DATABASE ''" "pg_name pg" "[]"]
    by (simp_all add: create_database_query_def drop_database_query_def)
  with Ok show ?thesis by (auto simp: good_ident_def)
next
  case Err
  then show ?thesis by (auto simp: input_error_def)
qed

end
