(* ===== verification/Store_Api.thy ===== *)
theory Store_Api
  imports Backend_Session Key_Entry Store_Options
begin

text \<open>
  Stores and sessions of the public interface (\<open>src/store.rs\<close>). A session passes the operations on
  records to its backend with the kind \<open>Item\<close>, and keeps keys as entries of the kind \<open>Kms\<close>, with tags
  for their algorithm and thumbprints; the names of the user's tags get a prefix. Everything is
  over the operations of a backend session (\<open>session_ops\<close>); what holds for every backend is proved in
  the context of its contract, and stated for SQLite.
\<close>

abbreviation lift_storage :: "'a storage_result \<Rightarrow> 'a askar_result" where
  "lift_storage \<equiv> res_map_err askar_error_of_storage"

abbreviation lift_storage_state :: "'a storage_result \<times> 'd \<Rightarrow> 'a askar_result \<times> 'd" where
  "lift_storage_state \<equiv> map_prod lift_storage id"

section \<open>Records\<close>

definition session_count :: "'d session_ops \<Rightarrow> int \<Rightarrow> string option \<Rightarrow> TagFilter option \<Rightarrow> 'd \<Rightarrow> nat askar_result" where
  "session_count ops now category tag_filter d = lift_storage (bs_count ops now (Some Item) category tag_filter d)"

definition session_fetch :: "'d session_ops \<Rightarrow> int \<Rightarrow> string \<Rightarrow> string \<Rightarrow> bool \<Rightarrow> 'd \<Rightarrow> Entry option askar_result" where
  "session_fetch ops now category name for_update d = lift_storage (bs_fetch ops now Item category name for_update d)"

definition session_fetch_all :: "'d session_ops \<Rightarrow> int \<Rightarrow> string option \<Rightarrow> TagFilter option \<Rightarrow> int option \<Rightarrow> OrderBy option
    \<Rightarrow> bool \<Rightarrow> bool \<Rightarrow> 'd \<Rightarrow> Entry list askar_result" where
  "session_fetch_all ops now category tag_filter limit order_by descending for_update d =
     lift_storage (bs_fetch_all ops now (Some Item) category tag_filter limit order_by descending for_update d)"

definition session_insert :: "'d session_ops \<Rightarrow> int \<Rightarrow> bytes \<Rightarrow> string \<Rightarrow> string \<Rightarrow> bytes \<Rightarrow> EntryTag list option \<Rightarrow> int option
    \<Rightarrow> 'd \<Rightarrow> unit askar_result \<times> 'd" where
  "session_insert ops now nonce category name value tags expiry_ms d =
     lift_storage_state (bs_update ops now nonce Item Insert category name (Some value) tags expiry_ms d)"

definition session_remove :: "'d session_ops \<Rightarrow> int \<Rightarrow> bytes \<Rightarrow> string \<Rightarrow> string \<Rightarrow> 'd \<Rightarrow> unit askar_result \<times> 'd" where
  "session_remove ops now nonce category name d =
     lift_storage_state (bs_update ops now nonce Item Remove category name None None None d)"

definition session_replace :: "'d session_ops \<Rightarrow> int \<Rightarrow> bytes \<Rightarrow> string \<Rightarrow> string \<Rightarrow> bytes \<Rightarrow> EntryTag list option \<Rightarrow> int option
    \<Rightarrow> 'd \<Rightarrow> unit askar_result \<times> 'd" where
  "session_replace ops now nonce category name value tags expiry_ms d =
     lift_storage_state (bs_update ops now nonce Item Replace category name (Some value) tags expiry_ms d)"

definition session_remove_all :: "'d session_ops \<Rightarrow> string option \<Rightarrow> TagFilter option \<Rightarrow> 'd \<Rightarrow> nat askar_result \<times> 'd" where
  "session_remove_all ops category tag_filter d = lift_storage_state (bs_remove_all ops (Some Item) category tag_filter d)"

definition session_update :: "'d session_ops \<Rightarrow> int \<Rightarrow> bytes \<Rightarrow> EntryOperation \<Rightarrow> string \<Rightarrow> string \<Rightarrow> bytes option
    \<Rightarrow> EntryTag list option \<Rightarrow> int option \<Rightarrow> 'd \<Rightarrow> unit askar_result \<times> 'd" where
  "session_update ops now nonce operation category name value tags expiry_ms d =
     lift_storage_state (bs_update ops now nonce Item operation category name value tags expiry_ms d)"

section \<open>Keys\<close>

text \<open>\<open>LocalKey::is_hardware_backed\<close>, without the feature for secure elements.\<close>

definition is_hardware_backed :: "LocalKey \<Rightarrow> bool" where
  "is_hardware_backed key = False"

abbreviation key_category :: string where
  "key_category \<equiv> kms_category_as_str CryptoKey"

definition user_tag :: "EntryTag \<Rightarrow> EntryTag" where
  "user_tag t = map_ref (\<lambda>k v. (user_prefix @ k, v)) t"

definition prefixed_tags :: "EntryTag list option \<Rightarrow> EntryTag list" where
  "prefixed_tags tags = (case tags of None \<Rightarrow> [] | Some tags \<Rightarrow> map user_tag tags)"

definition key_tags :: "string \<Rightarrow> string list \<Rightarrow> EntryTag list option \<Rightarrow> EntryTag list" where
  "key_tags alg thumbs tags =
     (if alg \<noteq> [] then [EncryptedTag ''alg'' alg] else []) @ map (EncryptedTag ''thumb'') thumbs @ prefixed_tags tags"

text \<open>\<open>b64\<close>, \<open>sha256\<close> and \<open>C\<close> are the base64 and CBOR codecs and the hash of the thumbprints.\<close>

definition insert_key :: "'d session_ops \<Rightarrow> params_codec \<Rightarrow> base64 \<Rightarrow> (bytes \<Rightarrow> bytes) \<Rightarrow> int \<Rightarrow> bytes \<Rightarrow> string \<Rightarrow> LocalKey
    \<Rightarrow> string option \<Rightarrow> KeyReference option \<Rightarrow> EntryTag list option \<Rightarrow> int option \<Rightarrow> 'd \<Rightarrow> unit askar_result \<times> 'd" where
  "insert_key ops C b64 sha256 now nonce name key metadata reference tags expiry_ms d =
     (case res_bind (if is_hardware_backed key then lift_askar (get_key_id_any (lk_inner key)) else local_encode b64 key) (\<lambda>data.
           res_bind (params_to_bytes C \<lparr>kp_metadata = metadata, kp_reference = reference, kp_data = Some data\<rparr>) (\<lambda>value.
           res_bind (local_to_jwk_thumbprints b64 sha256 key) (\<lambda>thumbs.
           Ok (value, key_tags (key_alg_as_str (local_algorithm key)) thumbs tags)))) of
        Ok (value, ins_tags) \<Rightarrow>
          lift_storage_state (bs_update ops now nonce Kms Insert key_category name (Some value) (Some ins_tags) expiry_ms d)
      | Err e \<Rightarrow> (Err e, d)
      | Panic \<Rightarrow> (Panic, d))"

definition fetch_key :: "'d session_ops \<Rightarrow> params_codec \<Rightarrow> int \<Rightarrow> string \<Rightarrow> bool \<Rightarrow> 'd \<Rightarrow> KeyEntry option askar_result" where
  "fetch_key ops C now name for_update d =
     res_bind (lift_storage (bs_fetch ops now Kms key_category name for_update d)) (\<lambda>row.
     (case row of None \<Rightarrow> Ok None | Some row \<Rightarrow> res_map Some (from_entry C row)))"

text \<open>The filter of \<open>fetch_all_keys\<close>; the closure of \<open>map_names\<close> never fails.\<close>

definition user_filter :: "TagFilter \<Rightarrow> TagFilter askar_result" where
  "user_filter f =
     (case map_names (\<lambda>k. Ok (user_prefix @ k) :: (string, unit) result) (filter_query f) of
        Ok q \<Rightarrow> Ok (filter_of_query q)
      | _ \<Rightarrow> Panic)"

definition keys_filter :: "string option \<Rightarrow> string option \<Rightarrow> TagFilter option \<Rightarrow> TagFilter option askar_result" where
  "keys_filter algorithm thumbprint tag_filter =
     res_bind (case tag_filter of None \<Rightarrow> Ok [] | Some f \<Rightarrow> res_map (\<lambda>f. [f]) (user_filter f)) (\<lambda>query_parts.
     let query_parts = query_parts @ (case algorithm of None \<Rightarrow> [] | Some algorithm \<Rightarrow> [is_eq ''alg'' algorithm]);
         query_parts = query_parts @ (case thumbprint of None \<Rightarrow> [] | Some thumbprint \<Rightarrow> [is_eq ''thumb'' thumbprint])
     in Ok (if query_parts = [] then None else Some (all_of query_parts)))"

definition fetch_all_keys :: "'d session_ops \<Rightarrow> params_codec \<Rightarrow> int \<Rightarrow> string option \<Rightarrow> string option \<Rightarrow> TagFilter option \<Rightarrow> int option
    \<Rightarrow> bool \<Rightarrow> 'd \<Rightarrow> KeyEntry list askar_result" where
  "fetch_all_keys ops C now algorithm thumbprint tag_filter limit for_update d =
     res_bind (keys_filter algorithm thumbprint tag_filter) (\<lambda>tag_filter.
     res_bind (lift_storage (bs_fetch_all ops now (Some Kms) (Some key_category) tag_filter limit None False for_update d)) (\<lambda>rows.
     res_mapM (from_entry C) rows))"

definition remove_key :: "'d session_ops \<Rightarrow> int \<Rightarrow> bytes \<Rightarrow> string \<Rightarrow> 'd \<Rightarrow> unit askar_result \<times> 'd" where
  "remove_key ops now nonce name d = lift_storage_state (bs_update ops now nonce Kms Remove key_category name None None None d)"

text \<open>\<open>update_key\<close>: the row is read at \<open>now\<close> and written back at \<open>now'\<close>.\<close>

definition update_key :: "'d session_ops \<Rightarrow> params_codec \<Rightarrow> int \<Rightarrow> int \<Rightarrow> bytes \<Rightarrow> string \<Rightarrow> string option \<Rightarrow> EntryTag list option
    \<Rightarrow> int option \<Rightarrow> 'd \<Rightarrow> unit askar_result \<times> 'd" where
  "update_key ops C now now' nonce name metadata tags expiry_ms d =
     (case res_bind (lift_storage (bs_fetch ops now Kms key_category name True d)) (\<lambda>row.
           res_bind (ok_or row (err_msg askar_kind.NotFound ''Key entry not found'')) (\<lambda>row.
           res_bind (params_from_slice C (entry_value row)) (\<lambda>params.
           res_bind (params_to_bytes C (params\<lparr>kp_metadata := metadata\<rparr>)) (\<lambda>value.
           Ok (value, prefixed_tags tags @ filter (\<lambda>t. \<not> is_user_name (entry_tag_name t)) (entry_tags row)))))) of
        Ok (value, upd_tags) \<Rightarrow>
          lift_storage_state (bs_update ops now' nonce Kms Replace key_category name (Some value) (Some upd_tags) expiry_ms d)
      | Err e \<Rightarrow> (Err e, d)
      | Panic \<Rightarrow> (Panic, d))"

section \<open>Opening and closing\<close>

definition session_ping :: "'d session_ops \<Rightarrow> 'd \<Rightarrow> unit askar_result" where
  "session_ping ops d = lift_storage (bs_ping ops d)"

definition session_commit :: "'d session_ops \<Rightarrow> 'd \<Rightarrow> unit askar_result \<times> 'd" where
  "session_commit ops d = lift_storage_state (bs_close ops True d)"

definition session_rollback :: "'d session_ops \<Rightarrow> 'd \<Rightarrow> unit askar_result \<times> 'd" where
  "session_rollback ops d = lift_storage_state (bs_close ops False d)"

text \<open>\<open>Store::session\<close> and \<open>Store::transaction\<close>: a session that does not answer is closed again.\<close>

definition store_session :: "'b backend_ops \<Rightarrow> bool \<Rightarrow> string option \<Rightarrow> 'b \<Rightarrow> 'b session_ops askar_result \<times> 'b" where
  "store_session B transaction profile b =
     (case bk_session B profile transaction b of
        (Ok sess, b) \<Rightarrow>
          (case session_ping sess b of
             Ok _ \<Rightarrow> (Ok sess, b)
           | Err e \<Rightarrow>
               (case session_rollback sess b of
                  (Ok _, b) \<Rightarrow> (Err e, b)
                | (Err e', b) \<Rightarrow> (Err e', b)
                | (Panic, b) \<Rightarrow> (Panic, b))
           | Panic \<Rightarrow> (Panic, b))
      | (Err e, b) \<Rightarrow> (Err (askar_error_of_storage e), b)
      | (Panic, b) \<Rightarrow> (Panic, b))"

definition store_scan :: "'b backend_ops \<Rightarrow> int \<Rightarrow> string option \<Rightarrow> string option \<Rightarrow> TagFilter option \<Rightarrow> int option \<Rightarrow> int option
    \<Rightarrow> OrderBy option \<Rightarrow> bool \<Rightarrow> 'b \<Rightarrow> Entry Scan askar_result \<times> 'b" where
  "store_scan B now profile category tag_filter offset limit order_by descending b =
     lift_storage_state (bk_scan B now profile (Some Item) category tag_filter offset limit order_by descending b)"

definition store_create_profile :: "'b backend_ops \<Rightarrow> string option \<Rightarrow> 'b \<Rightarrow> string askar_result \<times> 'b" where
  "store_create_profile B name b = lift_storage_state (bk_create_profile B name b)"

definition store_copy_to :: "'a backend_ops \<Rightarrow> (string \<Rightarrow> 'b backend_ops) \<Rightarrow> (string option \<Rightarrow> 'b storage_result) \<Rightarrow> int
    \<Rightarrow> (string \<Rightarrow> nat \<Rightarrow> int \<times> bytes) \<Rightarrow> 'a \<Rightarrow> 'b askar_result \<times> 'a" where
  "store_copy_to A B make_target now draw a =
     (case res_bind (lift_storage (bk_get_default_profile A a)) (\<lambda>default_profile.
           res_bind (lift_storage (bk_list_profiles A a)) (\<lambda>profile_ids.
           res_map (Pair profile_ids) (lift_storage (make_target (Some default_profile))))) of
        Ok (profile_ids, target) \<Rightarrow>
          (case copy_profiles A B now draw profile_ids a target of
             (Ok _, a, target) \<Rightarrow> (Ok target, a)
           | (Err e, a, target) \<Rightarrow> (Err (askar_error_of_storage e), a)
           | (Panic, a, target) \<Rightarrow> (Panic, a))
      | Err e \<Rightarrow> (Err e, a)
      | Panic \<Rightarrow> (Panic, a))"

section \<open>Stores\<close>

definition store_get_active_profile :: "'b backend_ops \<Rightarrow> 'b \<Rightarrow> string" where
  "store_get_active_profile B b = bk_get_active_profile B b"

definition store_get_default_profile :: "'b backend_ops \<Rightarrow> 'b \<Rightarrow> string askar_result" where
  "store_get_default_profile B b = lift_storage (bk_get_default_profile B b)"

definition store_set_default_profile :: "'b backend_ops \<Rightarrow> string \<Rightarrow> 'b \<Rightarrow> unit askar_result \<times> 'b" where
  "store_set_default_profile B profile b = lift_storage_state (bk_set_default_profile B profile b)"

definition store_list_profiles :: "'b backend_ops \<Rightarrow> 'b \<Rightarrow> string list askar_result" where
  "store_list_profiles B b = lift_storage (bk_list_profiles B b)"

definition store_remove_profile :: "'b backend_ops \<Rightarrow> string \<Rightarrow> 'b \<Rightarrow> bool askar_result \<times> 'b" where
  "store_remove_profile B name b = lift_storage_state (bk_remove_profile B name b)"

text \<open>
  \<open>AnyBackend::rekey\<close> (\<open>askar-storage/src/any.rs\<close>): the backend is shared by the clones of a store, and
  only an instance that is not shared can change its key.
\<close>

definition any_rekey :: "'b backend_ops \<Rightarrow> bool \<Rightarrow> StoreKeyMethod \<Rightarrow> PassKey \<Rightarrow> 'b \<Rightarrow> unit storage_result \<times> 'b" where
  "any_rekey B shared method key b =
     (if shared then (Err (err_msg storage_kind.Input ''Cannot re-key a store with multiple references''), b)
      else bk_rekey B method key b)"

definition store_rekey :: "'b backend_ops \<Rightarrow> bool \<Rightarrow> StoreKeyMethod \<Rightarrow> PassKey \<Rightarrow> 'b \<Rightarrow> unit askar_result \<times> 'b" where
  "store_rekey B shared method pass_key b = lift_storage_state (any_rekey B shared method pass_key b)"

definition store_close :: "'b backend_ops \<Rightarrow> 'b \<Rightarrow> unit askar_result \<times> 'b" where
  "store_close B b = lift_storage_state (bk_close B b)"

section \<open>Opening stores by their URI\<close>

text \<open>
  The functions by which the options of one kind of store open, provision and remove it; \<open>'w\<close> is the world
  of files and servers, \<open>'s\<close> an opened store.
\<close>

record ('o, 's, 'w) manage_ops =
  mg_open :: "'o \<Rightarrow> StoreKeyMethod option \<Rightarrow> PassKey \<Rightarrow> string option \<Rightarrow> 'w \<Rightarrow> 's storage_result \<times> 'w"
  mg_provision :: "'o \<Rightarrow> StoreKeyMethod \<Rightarrow> PassKey \<Rightarrow> string option \<Rightarrow> bool \<Rightarrow> 'w \<Rightarrow> 's storage_result \<times> 'w"
  mg_remove :: "'o \<Rightarrow> 'w \<Rightarrow> bool storage_result \<times> 'w"

record ('j, 'l, 'm, 's, 'w) backends =
  bx_codec :: uri_codec
  bx_driver :: "('j, 'l, 'm) sqlite_driver"
  bx_postgres :: "(PostgresStoreOptions, 's, 'w) manage_ops"
  bx_sqlite :: "(('j, 'l, 'm) SqliteStoreOptions, 's, 'w) manage_ops"
  bx_odbc :: "(OdbcStoreOptions, 's, 'w) manage_ops"

text \<open>\<open>ManageBackend for &str\<close>: the scheme of the URI selects the kind of store.\<close>

definition with_options :: "'o storage_result \<Rightarrow> ('o \<Rightarrow> 'w \<Rightarrow> 'r storage_result \<times> 'w) \<Rightarrow> 'w \<Rightarrow> 'r storage_result \<times> 'w" where
  "with_options opts f w = (case opts of Ok opts \<Rightarrow> f opts w | Err e \<Rightarrow> (Err e, w) | Panic \<Rightarrow> (Panic, w))"

definition unsupported_backend :: "string \<Rightarrow> 'r storage_result" where
  "unsupported_backend scheme = Err (err_msg storage_kind.Unsupported (''Unsupported backend: '' @ scheme))"

definition open_backend :: "('j, 'l, 'm, 's, 'w) backends \<Rightarrow> string \<Rightarrow> StoreKeyMethod option \<Rightarrow> PassKey \<Rightarrow> string option \<Rightarrow> 'w
    \<Rightarrow> 's storage_result \<times> 'w" where
  "open_backend X uri method pass_key profile =
     with_options (options_parse_uri (bx_codec X) uri) (\<lambda>opts.
       if opt_scheme opts = ''postgres'' then
         with_options (postgres_options_new (bx_codec X) opts) (\<lambda>po. mg_open (bx_postgres X) po method pass_key profile)
       else if opt_scheme opts = ''sqlite'' then
         with_options (sqlite_options_new (bx_driver X) opts) (\<lambda>so. mg_open (bx_sqlite X) so method pass_key profile)
       else if opt_scheme opts = ''odbc'' then
         with_options (odbc_options_new opts) (\<lambda>oo. mg_open (bx_odbc X) oo method pass_key profile)
       else Pair (unsupported_backend (opt_scheme opts)))"

definition provision_backend :: "('j, 'l, 'm, 's, 'w) backends \<Rightarrow> string \<Rightarrow> StoreKeyMethod \<Rightarrow> PassKey \<Rightarrow> string option \<Rightarrow> bool \<Rightarrow> 'w
    \<Rightarrow> 's storage_result \<times> 'w" where
  "provision_backend X uri method pass_key profile recreate =
     with_options (options_parse_uri (bx_codec X) uri) (\<lambda>opts.
       if opt_scheme opts = ''postgres'' then
         with_options (postgres_options_new (bx_codec X) opts) (\<lambda>po. mg_provision (bx_postgres X) po method pass_key profile recreate)
       else if opt_scheme opts = ''sqlite'' then
         with_options (sqlite_options_new (bx_driver X) opts) (\<lambda>so. mg_provision (bx_sqlite X) so method pass_key profile recreate)
       else if opt_scheme opts = ''odbc'' then
         with_options (odbc_options_new opts) (\<lambda>oo. mg_provision (bx_odbc X) oo method pass_key profile recreate)
       else Pair (unsupported_backend (opt_scheme opts)))"

definition remove_backend :: "('j, 'l, 'm, 's, 'w) backends \<Rightarrow> string \<Rightarrow> 'w \<Rightarrow> bool storage_result \<times> 'w" where
  "remove_backend X uri =
     with_options (options_parse_uri (bx_codec X) uri) (\<lambda>opts.
       if opt_scheme opts = ''postgres'' then with_options (postgres_options_new (bx_codec X) opts) (mg_remove (bx_postgres X))
       else if opt_scheme opts = ''sqlite'' then with_options (sqlite_options_new (bx_driver X) opts) (mg_remove (bx_sqlite X))
       else if opt_scheme opts = ''odbc'' then with_options (odbc_options_new opts) (mg_remove (bx_odbc X))
       else Pair (unsupported_backend (opt_scheme opts)))"

definition store_provision :: "('j, 'l, 'm, 's, 'w) backends \<Rightarrow> string \<Rightarrow> StoreKeyMethod \<Rightarrow> PassKey \<Rightarrow> string option \<Rightarrow> bool \<Rightarrow> 'w
    \<Rightarrow> 's askar_result \<times> 'w" where
  "store_provision X db_url key_method pass_key profile recreate w =
     lift_storage_state (provision_backend X db_url key_method pass_key profile recreate w)"

definition store_open :: "('j, 'l, 'm, 's, 'w) backends \<Rightarrow> string \<Rightarrow> StoreKeyMethod option \<Rightarrow> PassKey \<Rightarrow> string option \<Rightarrow> 'w
    \<Rightarrow> 's askar_result \<times> 'w" where
  "store_open X db_url key_method pass_key profile w = lift_storage_state (open_backend X db_url key_method pass_key profile w)"

definition store_remove :: "('j, 'l, 'm, 's, 'w) backends \<Rightarrow> string \<Rightarrow> 'w \<Rightarrow> bool askar_result \<times> 'w" where
  "store_remove X db_url w = lift_storage_state (remove_backend X db_url w)"

definition store_new_raw_key :: "store_key_env \<Rightarrow> (bytes \<Rightarrow> bytes) \<Rightarrow> bytes \<Rightarrow> bytes option \<Rightarrow> PassKey askar_result" where
  "store_new_raw_key E random_det rnd seed = Ok (generate_raw_store_key E random_det rnd seed)"

section \<open>The tags of a stored key\<close>

lemma user_tag_simps [simp]:
  "entry_tag_name (user_tag t) = user_prefix @ entry_tag_name t" "entry_tag_value (user_tag t) = entry_tag_value t"
  "update_name (drop 5) (user_tag t) = t"
  by (cases t; simp add: user_tag_def)+

lemma prefixed_tags_eq: "prefixed_tags tags = map user_tag (opt_or tags [])"
  by (cases tags) (simp_all add: prefixed_tags_def opt_or_def)

lemma prefixed_tags_views [simp]:
  "key_tag_values ''alg'' (prefixed_tags tags @ ts) = key_tag_values ''alg'' ts"
  "key_tag_values ''thumb'' (prefixed_tags tags @ ts) = key_tag_values ''thumb'' ts"
  "user_tags (prefixed_tags tags @ ts) = opt_or tags [] @ user_tags ts"
  by (auto simp: prefixed_tags_eq key_tag_values_def user_tags_def filter_map comp_def filter_False)

lemma key_tags_views:
  "key_tag_values ''alg'' (key_tags alg thumbs tags) = (if alg = [] then [] else [alg])"
  "key_tag_values ''thumb'' (key_tags alg thumbs tags) = thumbs"
  "user_tags (key_tags alg thumbs tags) = opt_or tags []"
  using prefixed_tags_views [of tags "[]"]
  by (auto simp: key_tags_def key_tag_values_def user_tags_def filter_map comp_def filter_False)

lemma kept_tags_views [simp]:
  "key_tag_values ''alg'' (filter (\<lambda>t. \<not> is_user_name (entry_tag_name t)) ts) = key_tag_values ''alg'' ts"
  "key_tag_values ''thumb'' (filter (\<lambda>t. \<not> is_user_name (entry_tag_name t)) ts) = key_tag_values ''thumb'' ts"
  "user_tags (filter (\<lambda>t. \<not> is_user_name (entry_tag_name t)) ts) = []"
  by (auto simp: key_tag_values_def user_tags_def filter_False intro!: arg_cong [where f = "map entry_tag_value"] filter_cong)

lemma key_alg_as_str_ne [simp]: "key_alg_as_str a \<noteq> []"
  by (cases a rule: key_alg_as_str.cases) simp_all

lemma valid_key_strings [simp]: "valid_str (key_alg_as_str a)" "valid_str ''alg''" "valid_str ''thumb''" "valid_str key_category"
  by (cases a rule: key_alg_as_str.cases; simp add: valid_str_def) (simp_all add: valid_str_def)

lemma valid_user_tag: "valid_tag t \<Longrightarrow> valid_tag (user_tag t)"
  by (simp add: valid_tag_def valid_str_def)

lemma thumbprints_valid: "local_to_jwk_thumbprints b64 sha256 key = Ok thumbs \<Longrightarrow> list_all valid_str thumbs"
  by (auto simp: local_to_jwk_thumbprints_def local_to_jwk_thumbprint_def to_jwk_thumbprint_def result_simps
      dest: string_from_utf8_SomeD split: if_splits option.splits)

lemma valid_key_tags:
  "list_all valid_str thumbs \<Longrightarrow> list_all valid_tag (opt_or tags []) \<Longrightarrow>
    list_all valid_tag (key_tags (key_alg_as_str a) thumbs tags)"
  by (auto simp: key_tags_def prefixed_tags_eq list_all_iff valid_user_tag valid_tag_def [of "EncryptedTag _ _"])

section \<open>Keys over any backend\<close>

declare kms_category_as_str.simps [simp del]

definition key_entry :: "string \<Rightarrow> bytes \<Rightarrow> EntryTag list \<Rightarrow> Entry" where
  "key_entry name value tags = \<lparr>entry_kind = Kms, entry_category = key_category, entry_name = name, entry_value = value, entry_tags = tags\<rparr>"

lemma key_entry_simps [simp]:
  "update_entry Kms key_category name (Some value) (Some tags) = key_entry name value tags"
  "entry_key (key_entry name value tags) = (Kms, key_category, name)" "entry_name (key_entry name value tags) = name"
  "entry_value (key_entry name value tags) = value" "entry_tags (key_entry name value tags) = tags"
  "entry_category (key_entry name value tags) = key_category"
  "valid_entry (key_entry name value tags) \<longleftrightarrow> valid_str name \<and> list_all valid_tag tags"
  by (simp_all add: key_entry_def update_entry_def opt_or_def entry_key_def valid_entry_def)

text \<open>Writing under one kind leaves the entries of the other as they are.\<close>

lemma spec_update_other:
  assumes "entry_key (fst s) \<noteq> k"
  shows "spec_fetch live k (snd (spec_update operation s st)) = spec_fetch live k st"
proof (cases "fst (spec_update operation s st)")
  case (Ok u)
  then have "spec_update operation s st = (Ok (), snd (spec_update operation s st))" by (simp add: prod_eq_iff)
  then show ?thesis
    using assms spec_fetch_insert spec_fetch_replace spec_fetch_remove
    by (cases operation) (auto simp: spec_update_def)
qed (auto simp: spec_update_def spec_insert_def spec_replace_def spec_remove_def split: EntryOperation.splits if_splits)

context session_contract
begin

lemma fetch_key_spec:
  "rel d st \<Longrightarrow> addressed key_category name \<Longrightarrow> fetch_key ops C now name for_update d =
    (case spec_fetch (lives now) (Kms, key_category, name) st of None \<Rightarrow> Ok None | Some row \<Rightarrow> res_map Some (from_entry C row))"
  by (simp add: fetch_key_def fetch_law)

lemma write_key_OkD:
  assumes "rel d st" "operation = Insert \<or> operation = Replace" "valid_str name" "list_all valid_tag tags"
    and "bs_update ops now nonce Kms operation key_category name (Some value) (Some tags) ms d = (Ok (), d')"
  obtains x st' where "expiry now ms = Ok x" "rel d' st'" "addressed key_category name"
    "spec_fetch (lives t) (Kms, key_category, name) st' = (if lives t x then Some (key_entry name value tags) else None)"
proof -
  let ?e = "key_entry name value tags"
  have nr: "operation \<noteq> Remove" using assms(2) by auto
  note up = assms(5)
  obtain x where x: "storable nonce ?e" "expiry now ms = Ok x"
    using stored_law [OF up nr] assms(3,4) by auto
  obtain r st' where sp: "spec_update operation (?e, x) st = (r, st')" by fastforce
  have "\<exists>d'. bs_update ops now nonce Kms operation key_category name (Some value) (Some tags) ms d = (r, d') \<and> rel d' st'"
    using update_law [OF assms(1) nr _ x(2), of nonce Kms key_category name "Some value" "Some tags" r st'] x(1) sp
    by simp
  then have r: "r = Ok ()" "rel d' st'" using up by auto
  have "spec_fetch (lives t) (Kms, key_category, name) st' = (if lives t x then Some ?e else None)"
    using assms(2) sp r(1) spec_fetch_insert [of "(?e, x)" st st' "lives t"] spec_fetch_replace [of "(?e, x)" st st' "lives t"]
    by (auto simp: spec_update_def visible_def)
  moreover have "addressed key_category name" using addressed_law [OF x(1)] by simp
  ultimately show thesis using x(2) r(2) that by blast
qed

lemma stored_key:
  assumes "rel d st" "valid_str name" "list_all valid_tag (opt_or tags [])" "expiry now ms = Ok x" "lives t x"
    and "params_codec_correct C"
    and "insert_key ops C b64 sha256 now nonce name key metadata reference tags ms d = (Ok (), d')"
  shows "\<exists>data thumbs. local_encode b64 key = Ok data \<and> local_to_jwk_thumbprints b64 sha256 key = Ok thumbs \<and>
    fetch_key ops C t name for_update d' = Ok (Some
      \<lparr>ke_name = name, ke_params = \<lparr>kp_metadata = metadata, kp_reference = reference, kp_data = Some data\<rparr>,
       ke_alg = Some (key_alg_as_str (local_algorithm key)), ke_thumbprints = sort thumbs, ke_tags = sort (opt_or tags [])\<rparr>)"
proof -
  let ?p = "\<lambda>data. \<lparr>kp_metadata = metadata, kp_reference = reference, kp_data = Some data\<rparr>"
  let ?tags = "\<lambda>thumbs. key_tags (key_alg_as_str (local_algorithm key)) thumbs tags"
  obtain data val thumbs where enc: "local_encode b64 key = Ok data" "params_to_bytes C (?p data) = Ok val"
      "local_to_jwk_thumbprints b64 sha256 key = Ok thumbs"
    and up: "lift_storage_state (bs_update ops now nonce Kms Insert key_category name (Some val) (Some (?tags thumbs)) ms d) = (Ok (), d')"
    using assms(7) by (auto simp: insert_key_def is_hardware_backed_def result_simps split: result.splits)
  from up have "bs_update ops now nonce Kms Insert key_category name (Some val) (Some (?tags thumbs)) ms d = (Ok (), d')"
    by (cases "bs_update ops now nonce Kms Insert key_category name (Some val) (Some (?tags thumbs)) ms d")
      (auto simp: result_simps)
  from assms(1) disjI1 [OF refl] assms(2) valid_key_tags [OF thumbprints_valid [OF enc(3)] assms(3)] this
  obtain x' st' where "expiry now ms = Ok x'" "rel d' st'" "addressed key_category name"
    "spec_fetch (lives t) (Kms, key_category, name) st' = (if lives t x' then Some (key_entry name val (?tags thumbs)) else None)"
    by (rule write_key_OkD)
  with assms(4,5) have "fetch_key ops C t name for_update d' = res_map Some (from_entry C (key_entry name val (?tags thumbs)))"
    by (simp add: fetch_key_spec)
  also have "\<dots> = Ok (Some \<lparr>ke_name = name, ke_params = ?p data, ke_alg = Some (key_alg_as_str (local_algorithm key)),
      ke_thumbprints = sort thumbs, ke_tags = sort (opt_or tags [])\<rparr>)"
    using params_read_back [OF assms(6) enc(2)]
    by (simp add: from_entry_eq key_tags_views last_or_def)
  finally show ?thesis using enc by blast
qed

lemma updated_key:
  assumes "rel d st" "valid_str name" "list_all valid_tag (opt_or tags [])" "expiry now' ms = Ok x" "lives t x"
    and "params_codec_correct C" "addressed key_category name"
    and "fetch_key ops C now name for_update d = Ok (Some ke)"
    and "update_key ops C now now' nonce name metadata tags ms d = (Ok (), d')"
  shows "fetch_key ops C t name for_update' d' =
    Ok (Some (ke\<lparr>ke_params := (ke_params ke)\<lparr>kp_metadata := metadata\<rparr>, ke_tags := sort (opt_or tags [])\<rparr>))"
proof -
  obtain row where row: "spec_fetch (lives now) (Kms, key_category, name) st = Some row" and ke: "from_entry C row = Ok ke"
    using assms(8) fetch_key_spec [OF assms(1,7), of C now for_update] by (auto simp: result_simps split: option.splits)
  obtain y where y: "(row, y) \<in> set st" "entry_name row = name"
    using spec_fetch_SomeD [OF row] by (auto simp: entry_key_def)
  let ?tags = "prefixed_tags tags @ filter (\<lambda>t. \<not> is_user_name (entry_tag_name t)) (entry_tags row)"
  obtain params val where p: "params_from_slice C (entry_value row) = Ok params" "params_to_bytes C (params\<lparr>kp_metadata := metadata\<rparr>) = Ok val"
    and up: "lift_storage_state (bs_update ops now' nonce Kms Replace key_category name (Some val) (Some ?tags) ms d) = (Ok (), d')"
    using assms(9) by (auto simp: update_key_def fetch_law [OF assms(1,7)] row result_simps split: result.splits)
  from up have up: "bs_update ops now' nonce Kms Replace key_category name (Some val) (Some ?tags) ms d = (Ok (), d')"
    by (cases "bs_update ops now' nonce Kms Replace key_category name (Some val) (Some ?tags) ms d") (auto simp: result_simps)
  have "list_all valid_tag ?tags"
    using entries_valid [OF assms(1) y(1)] assms(3) by (auto simp: valid_entry_def list_all_iff prefixed_tags_eq valid_user_tag)
  from assms(1) disjI2 [OF refl] assms(2) this up
  obtain x' st' where "expiry now' ms = Ok x'" "rel d' st'" "addressed key_category name"
    "spec_fetch (lives t) (Kms, key_category, name) st' = (if lives t x' then Some (key_entry name val ?tags) else None)"
    by (rule write_key_OkD)
  with assms(4,5) have "fetch_key ops C t name for_update' d' = res_map Some (from_entry C (key_entry name val ?tags))"
    by (simp add: fetch_key_spec)
  with ke p(1) params_read_back [OF assms(6) p(2)] y(2) show ?thesis by (auto simp: from_entry_eq)
qed

lemma missing_key:
  "rel d st \<Longrightarrow> addressed key_category name \<Longrightarrow> fetch_key ops C now name for_update d = Ok None \<Longrightarrow>
    update_key ops C now now' nonce name metadata tags ms d = (Err (err_msg askar_kind.NotFound ''Key entry not found''), d)"
  by (auto simp: fetch_key_spec update_key_def fetch_law result_simps split: option.splits)

lemma update_other:
  assumes "rel d st" "valid_entry (update_entry kind c n v tags)"
    and "bs_update ops now nonce kind operation c n v tags ms d = (r, d')"
  obtains st' where "rel d' st'" "\<forall>t k c n. k \<noteq> kind \<longrightarrow> spec_fetch (lives t) (k, c, n) st' = spec_fetch (lives t) (k, c, n) st"
proof -
  let ?e = "update_entry kind c n v tags"
  have key: "entry_key ?e = (kind, c, n)" by (simp add: update_entry_def entry_key_def)
  consider "d' = d" | x where "rel d' (snd (spec_update operation (?e, x) st))" using update_cases [OF assms] by blast
  then show thesis
  proof cases
    case 1
    then show thesis using assms(1) that by blast
  next
    case 2
    then show thesis using that spec_update_other [of "(?e, x)"] key by auto
  qed
qed

lemma lift_state_eq: "lift_storage_state m = (r, d) \<longleftrightarrow> (\<exists>r'. m = (r', d) \<and> r = lift_storage r')"
  by (cases m) auto

lemma update_keeps_fetch_key:
  assumes "rel d st" "valid_entry (update_entry Item c n v tags)" "addressed key_category k"
    and "bs_update ops now nonce Item operation c n v tags ms d = (r, d')"
  shows "fetch_key ops C t k for_update d' = fetch_key ops C t k for_update d"
proof -
  from assms(1,2,4) obtain st' where "rel d' st'"
    "\<forall>t k c n. k \<noteq> Item \<longrightarrow> spec_fetch (lives t) (k, c, n) st' = spec_fetch (lives t) (k, c, n) st" by (rule update_other)
  with assms(1,3) show ?thesis by (simp add: fetch_key_spec)
qed

lemma update_keeps_fetch:
  assumes "rel d st" "valid_entry (update_entry Kms c n v tags)" "addressed c' n'"
    and "bs_update ops now nonce Kms operation c n v tags ms d = (r, d')"
  shows "session_fetch ops t c' n' for_update d' = session_fetch ops t c' n' for_update d"
proof -
  from assms(1,2,4) obtain st' where "rel d' st'"
    "\<forall>t k c n. k \<noteq> Kms \<longrightarrow> spec_fetch (lives t) (k, c, n) st' = spec_fetch (lives t) (k, c, n) st" by (rule update_other)
  with assms(1,3) show ?thesis by (simp add: session_fetch_def fetch_law)
qed

lemma insert_key_keeps_fetch:
  assumes "rel d st" "valid_str name" "list_all valid_tag (opt_or tags [])" "addressed c' n'"
    and "insert_key ops C b64 sha256 now nonce name key metadata reference tags ms d = (r, d')"
  shows "session_fetch ops t c' n' for_update d' = session_fetch ops t c' n' for_update d"
proof -
  have "d' = d \<or> (\<exists>val thumbs r'. list_all valid_str thumbs \<and> bs_update ops now nonce Kms Insert key_category name (Some val)
      (Some (key_tags (key_alg_as_str (local_algorithm key)) thumbs tags)) ms d = (r', d'))"
    using assms(5) by (auto simp: insert_key_def lift_state_eq result_simps dest: thumbprints_valid split: result.splits)
  then show ?thesis
  proof (elim disjE exE conjE)
    fix val thumbs r'
    assume "list_all valid_str thumbs" and up: "bs_update ops now nonce Kms Insert key_category name (Some val)
      (Some (key_tags (key_alg_as_str (local_algorithm key)) thumbs tags)) ms d = (r', d')"
    then show ?thesis using update_keeps_fetch [OF assms(1) _ assms(4) up] valid_key_tags [OF _ assms(3)] assms(2) by simp
  qed simp
qed

lemma update_key_keeps_fetch:
  assumes "rel d st" "valid_str name" "list_all valid_tag (opt_or tags [])" "addressed c' n'" "addressed key_category name"
    and "update_key ops C now now' nonce name metadata tags ms d = (r, d')"
  shows "session_fetch ops t c' n' for_update d' = session_fetch ops t c' n' for_update d"
proof -
  have "d' = d \<or> (\<exists>val row r'. spec_fetch (lives now) (Kms, key_category, name) st = Some row \<and>
      bs_update ops now' nonce Kms Replace key_category name (Some val)
        (Some (prefixed_tags tags @ filter (\<lambda>t. \<not> is_user_name (entry_tag_name t)) (entry_tags row))) ms d = (r', d'))"
    using assms(6) fetch_law [OF assms(1,5)] by (auto simp: update_key_def lift_state_eq result_simps split: result.splits)
  then show ?thesis
  proof (elim disjE exE conjE)
    fix val row r'
    assume row: "spec_fetch (lives now) (Kms, key_category, name) st = Some row"
      and up: "bs_update ops now' nonce Kms Replace key_category name (Some val)
        (Some (prefixed_tags tags @ filter (\<lambda>t. \<not> is_user_name (entry_tag_name t)) (entry_tags row))) ms d = (r', d')"
    from spec_fetch_SomeD [OF row] obtain y where "(row, y) \<in> set st" by blast
    from entries_valid [OF assms(1) this] assms(2,3)
    have "valid_entry (update_entry Kms key_category name (Some val)
        (Some (prefixed_tags tags @ filter (\<lambda>t. \<not> is_user_name (entry_tag_name t)) (entry_tags row))))"
      by (auto simp: valid_entry_def [of row] list_all_iff prefixed_tags_eq valid_user_tag)
    from update_keeps_fetch [OF assms(1) this assms(4) up] show ?thesis .
  qed simp
qed

lemma remove_all_keeps_fetch_key:
  assumes "rel d st" "posed (Some Item) c f None None False" "addressed key_category k"
    and "bs_remove_all ops (Some Item) c f d = (r, d')"
  shows "fetch_key ops C t k for_update d' = fetch_key ops C t k for_update d"
proof -
  obtain n st' where sp: "spec_remove_all like (Some Item) c (filter_tag_query f) st = (n, st')" by fastforce
  with remove_all_law [OF assms(1,2)] assms(4) have "rel d' st'" by auto
  moreover have "spec_fetch (lives t) (Kms, key_category, k) st' = spec_fetch (lives t) (Kms, key_category, k) st"
  proof -
    have "find (\<lambda>s. entry_key (fst s) = (Kms, key_category, k) \<and> visible (lives t) s)
        (filter (\<lambda>s. \<not> spec_matches like (Some Item) c (filter_tag_query f) (fst s)) st) =
      find (\<lambda>s. entry_key (fst s) = (Kms, key_category, k) \<and> visible (lives t) s) st"
      by (rule find_filter) (auto simp: spec_matches_def entry_key_def)
    then show ?thesis using sp by (auto simp: spec_fetch_def spec_remove_all_def)
  qed
  ultimately show ?thesis using assms(1,3) by (simp add: fetch_key_spec)
qed

end

section \<open>Searching keys\<close>

text \<open>
  Which entries \<open>fetch_all_keys\<close> asks for. The names of the user's filter are compared with the names
  of the encrypted tags of the user as they are written, a leading tilde included.
\<close>

definition key_matches :: "(bytes \<Rightarrow> bytes \<Rightarrow> bool) \<Rightarrow> string option \<Rightarrow> string option \<Rightarrow> TagFilter option \<Rightarrow> EntryTag list \<Rightarrow> bool" where
  "key_matches like algorithm thumbprint tag_filter ts \<longleftrightarrow>
     (case tag_filter of None \<Rightarrow> True | Some f \<Rightarrow> tags_satisfy like (user_tags ts) (map_AbstractQuery Encrypted id (filter_query f))) \<and>
     (case algorithm of None \<Rightarrow> True | Some a \<Rightarrow> EncryptedTag ''alg'' a \<in> set ts) \<and>
     (case thumbprint of None \<Rightarrow> True | Some t \<Rightarrow> EncryptedTag ''thumb'' t \<in> set ts)"

lemma user_name_iff: "name = user_prefix @ n \<longleftrightarrow> is_user_name name \<and> drop 5 name = n"
proof
  assume "is_user_name name \<and> drop 5 name = n"
  then have "take 5 name @ drop 5 name = user_prefix @ n" by (simp add: is_user_name_def)
  then show "name = user_prefix @ n" by (simp only: append_take_drop_id)
qed (simp add: is_user_name_def)

lemma user_tags_ex:
  "list_ex (\<lambda>t. entry_tag_name t = user_prefix @ n \<and> P (entry_tag_value t) (tag_is_plaintext t)) ts =
    list_ex (\<lambda>t. entry_tag_name t = n \<and> P (entry_tag_value t) (tag_is_plaintext t)) (user_tags ts)"
proof (induction ts)
  case (Cons t ts)
  have "entry_tag_name (update_name f t) = f (entry_tag_name t)" "entry_tag_value (update_name f t) = entry_tag_value t"
    "tag_is_plaintext (update_name f t) = tag_is_plaintext t" for f by (cases t; simp)+
  with Cons user_name_iff [of "entry_tag_name t" n] show ?case by (auto simp: user_tags_def simp del: append_Cons)
qed (simp add: user_tags_def)

lemma user_atoms:
  "tag_op_match like ts op (user_prefix @ n) v pt = tag_op_match like (user_tags ts) op n v pt"
  "tag_in_match ts (user_prefix @ n) vs pt = tag_in_match (user_tags ts) n vs pt"
  "tag_exist_match ts (user_prefix @ n) pt = tag_exist_match (user_tags ts) n pt"
  unfolding tag_op_match_def tag_in_match_def tag_exist_match_def
  using user_tags_ex [of n "\<lambda>w p. sql_compare like op (as_bytes w) (as_bytes v) \<and> p = pt"]
    user_tags_ex [of n "\<lambda>w p. w \<in> set vs \<and> p = pt"] user_tags_ex [of n "\<lambda>w p. p = pt"] by simp_all

lemma user_name_encrypted: "tag_name_of_key (user_prefix @ k) = Encrypted (user_prefix @ k)"
  by (simp add: tag_name_of_key_def)

lemma user_query:
  "tags_satisfy like ts (map_AbstractQuery (\<lambda>k. tag_name_of_key (user_prefix @ k)) id q) =
    tags_satisfy like (user_tags ts) (map_AbstractQuery Encrypted id q)"
proof (induction q)
  case (And qs)
  then show ?case by (auto simp: tags_satisfy_def list_all_iff)
next
  case (Or qs)
  then show ?case by (auto simp: tags_satisfy_def list_ex_iff)
next
  case (NotQ q)
  then show ?case by (simp add: tags_satisfy_def)
qed (simp_all add: tags_satisfy_def user_name_encrypted user_atoms list_all_iff del: append_Cons)

lemma user_filter_total: "user_filter f = Ok (filter_of_query (map_AbstractQuery (\<lambda>k. user_prefix @ k) id (filter_query f)))"
  unfolding user_filter_def by (subst map_names_ok [where g = "\<lambda>k. user_prefix @ k"]) simp_all

lemma satisfies_key_tag:
  "tags_satisfy like ts (Eq (tag_name_of_key ''alg'') a) \<longleftrightarrow> EncryptedTag ''alg'' a \<in> set ts"
  "tags_satisfy like ts (Eq (tag_name_of_key ''thumb'') a) \<longleftrightarrow> EncryptedTag ''thumb'' a \<in> set ts"
proof -
  have *: "entry_tag_name t = n \<and> entry_tag_value t = a \<and> \<not> tag_is_plaintext t \<longleftrightarrow> t = EncryptedTag n a" for t n by (cases t) auto
  show "tags_satisfy like ts (Eq (tag_name_of_key ''alg'') a) \<longleftrightarrow> EncryptedTag ''alg'' a \<in> set ts"
    "tags_satisfy like ts (Eq (tag_name_of_key ''thumb'') a) \<longleftrightarrow> EncryptedTag ''thumb'' a \<in> set ts"
    by (auto simp: tags_satisfy_def tag_name_of_key_def tag_op_match_def list_ex_iff *)
qed

lemma keys_filter_matches:
  "\<exists>f. keys_filter algorithm thumbprint tag_filter = Ok f \<and>
    (\<forall>ts. (case filter_tag_query f of None \<Rightarrow> True | Some q \<Rightarrow> tags_satisfy like ts q) = key_matches like algorithm thumbprint tag_filter ts)"
proof -
  have conj: "tags_satisfy like ts (And qs) = list_all (tags_satisfy like ts) qs" for ts qs by (simp add: tags_satisfy_def)
  have user: "tags_satisfy like ts (map_AbstractQuery tag_name_of_key id (filter_query (filter_of_query (map_AbstractQuery (\<lambda>k. user_prefix @ k) id q)))) =
      tags_satisfy like (user_tags ts) (map_AbstractQuery Encrypted id q)" for ts q
    using user_query [of like ts q] by (simp add: filter_of_query_def AbstractQuery.map_comp comp_def id_def)
  show ?thesis
    by (cases algorithm; cases thumbprint; cases tag_filter)
      (simp_all add: keys_filter_def user_filter_total filter_tag_query_def all_of_def is_eq_def conj user key_matches_def
        satisfies_key_tag del: append_Cons)
qed

context session_contract
begin

lemma fetch_all_keys_spec:
  assumes "rel d st" "keys_filter algorithm thumbprint tag_filter = Ok f" "posed (Some Kms) (Some key_category) f limit None False"
  shows "\<exists>es. mset es = mset (filter (\<lambda>e. entry_kind e = Kms \<and> entry_category e = key_category \<and>
        key_matches like algorithm thumbprint tag_filter (entry_tags e)) (map fst (filter (visible (lives now)) st))) \<and>
    fetch_all_keys ops C now algorithm thumbprint tag_filter limit for_update d = res_mapM (from_entry C) (limit_rows None limit es)"
proof -
  obtain es where es: "mset es = mset (spec_select like (lives now) (Some Kms) (Some key_category) (filter_tag_query f) st)"
    "bs_fetch_all ops now (Some Kms) (Some key_category) f limit None False for_update d = Ok (limit_rows None limit es)"
    using fetch_all_law [OF assms(1,3)] by blast
  have "(case filter_tag_query f of None \<Rightarrow> True | Some q \<Rightarrow> tags_satisfy like ts q) = key_matches like algorithm thumbprint tag_filter ts" for ts
    using keys_filter_matches [of algorithm thumbprint tag_filter like] assms(2) by auto
  then have "spec_select like (lives now) (Some Kms) (Some key_category) (filter_tag_query f) st =
      filter (\<lambda>e. entry_kind e = Kms \<and> entry_category e = key_category \<and>
        key_matches like algorithm thumbprint tag_filter (entry_tags e)) (map fst (filter (visible (lives now)) st))"
    by (auto simp: spec_select_def spec_matches_def filter_map comp_def intro!: arg_cong [where f = "map fst"] filter_cong)
  with es assms(2) show ?thesis by (auto simp: fetch_all_keys_def)
qed

end

section \<open>Keys in a SQLite store\<close>

lemma loaded_key:
  assumes "base64_correct b64" "json_reader_correct R" "key_env_correct K" "any_wf K (lk_inner key)" "local_encode b64 key = Ok data"
  shows "local_from_jwk_slice K b64 R data =
    (if symmetric_alg (local_algorithm key)
     then Err (askar_error_of_crypto (err_msg crypto_kind.Unsupported ''Unsupported JWK for key import''))
     else Ok (lasting (lk_inner key)))"
  using assms(5) any_symmetric_jwk [OF assms(1,2), of "lk_inner key" None SecretKey K]
    any_asymmetric_jwk [OF assms(1-4), of None SecretKey]
  by (auto simp: local_encode_def to_jwk_secret_def local_from_jwk_slice_def local_algorithm_def unsupported_def result_simps)

text \<open>
  C14. A key that was inserted into a SQLite store is fetched again until it expires, with its name,
  its metadata, its algorithm, its sorted thumbprints and the tags of the user, sorted and without
  the prefix they are stored with; and the key that is loaded from it is the key that was inserted.
  Only a symmetric key is never loaded: it can be stored, but not read.
\<close>

theorem stored_key_round_trip:
  assumes "sqlite_holds env pkey pid db st" and "ops = sqlite_session_ops env (Ok (pid, pkey)) in_txn closed"
    and "key_env_correct K" and "base64_correct b64" and "json_reader_correct R" and "params_codec_correct C"
    and "any_wf K (lk_inner key)" and "valid_str name" and "list_all valid_tag (opt_or tags [])"
    and "reference \<noteq> Some MobileSecureElement" and "opt_expiry env now ms = Ok x" and "unexpired t x"
    and "insert_key ops C b64 sha256 now nonce name key metadata reference tags ms db = (Ok (), db')"
  shows "\<exists>ke thumbs. fetch_key ops C t name for_update db' = Ok (Some ke) \<and> ke_name ke = name \<and> ke_metadata ke = metadata \<and>
    ke_algorithm ke = Some (key_alg_as_str (local_algorithm key)) \<and>
    local_to_jwk_thumbprints b64 sha256 key = Ok thumbs \<and> ke_thumbprints ke = sort thumbs \<and> ke_tags ke = sort (opt_or tags []) \<and>
    load_local_key K b64 R ke =
      (if symmetric_alg (local_algorithm key)
       then Err (askar_error_of_crypto (err_msg crypto_kind.Unsupported ''Unsupported JWK for key import''))
       else Ok (lasting (lk_inner key)))"
proof -
  obtain data thumbs where f: "local_encode b64 key = Ok data" "local_to_jwk_thumbprints b64 sha256 key = Ok thumbs"
    "fetch_key ops C t name for_update db' = Ok (Some
      \<lparr>ke_name = name, ke_params = \<lparr>kp_metadata = metadata, kp_reference = reference, kp_data = Some data\<rparr>,
       ke_alg = Some (key_alg_as_str (local_algorithm key)), ke_thumbprints = sort thumbs, ke_tags = sort (opt_or tags [])\<rparr>)"
    using sqlite_session.stored_key [OF assms(1,8,9,11,12,6) assms(13) [unfolded assms(2)], of for_update] assms(2) by blast
  from loaded_key [OF assms(4,5,3,7) f(1)] f(2,3) assms(10) show ?thesis
    by (simp add: ke_metadata_def ke_algorithm_def load_local_key_def)
qed

text \<open>A codec for two values, and a store into which every entry can be inserted.\<close>

definition toy_codec :: "bytes \<Rightarrow> params_codec" where
  "toy_codec data =
     (let p = \<lparr>kp_metadata = None, kp_reference = None, kp_data = Some data\<rparr>; q = p\<lparr>kp_metadata := Some ''m''\<rparr> in
      \<lparr>pc_to_vec = (\<lambda>r. if r = p then Ok [] else if r = q then Ok [1] else Err []),
       pc_from_slice = (\<lambda>b. if b = [] then Ok p else Ok q)\<rparr>)"

lemma toy_cbor_codec_correct: "params_codec_correct (toy_codec data)"
  by (auto simp: params_codec_correct_def toy_codec_def Let_def)

lemma toy_storable: "valid_entry e \<Longrightarrow> sqlite_storable toy_sqlite_env toy_profile_key (replicate 12 2) e"
proof -
  have "derive_value_key toy_profile_env toy_profile_key c n = Ok (replicate 32 1)" for c n
    by (simp add: derive_value_key_def toy_profile_env_def from_key_derivation_def hmac_derive_key_bytes_def)
  moreover have "profile_encrypt toy_profile_env (replicate 12 2) m k = Ok (replicate 12 2 @ m @ replicate 16 0)" for m k
    by (simp add: toy_profile_env_def profile_encrypt_def encrypt_with_nonce_def chacha20_encrypt_in_place_def vec_insert_def)
  moreover have "\<exists>ts'. res_mapM (profile_encrypt_tag toy_profile_env toy_profile_key) ts = Ok ts'" for ts
  proof (induction ts)
    case (Cons t ts)
    then show ?case by (cases t) (auto simp: encrypt_tag_name_def encrypt_tag_value_def toy_encrypt_searchable)
  qed simp
  ultimately show "valid_entry e \<Longrightarrow> sqlite_storable toy_sqlite_env toy_profile_key (replicate 12 2) e"
    by (auto simp: sqlite_storable_def encrypt_update_def toy_sqlite_env_def profile_encryptor_def toy_encrypt_searchable result_simps)
qed

lemma toy_holds: "sqlite_holds toy_sqlite_env toy_profile_key 1 toy_db []"
  by (simp add: sqlite_holds_def toy_sqlite_env_correct toy_db_represents)

abbreviation toy_ops :: "Database session_ops" where
  "toy_ops \<equiv> sqlite_session_ops toy_sqlite_env (Ok (1, toy_profile_key)) False (Ok ())"

abbreviation toy_key :: LocalKey where
  "toy_key \<equiv> lasting (X25519Key (toy_box_key 1))"

lemma toy_write:
  assumes "sqlite_holds toy_sqlite_env toy_profile_key 1 db st" "operation \<noteq> Remove" "valid_entry (update_entry kind c n v tags)"
    and "spec_update operation (update_entry kind c n v tags, None) st = (r, st')"
  obtains db' where "bs_update toy_ops now (replicate 12 2) kind operation c n v tags None db = (r, db')"
    "sqlite_holds toy_sqlite_env toy_profile_key 1 db' st'"
  using sqlite_session.update_law [OF assms(1,2) toy_storable [OF assms(3)] sqlite_session.expiry_none assms(4), of False "Ok ()" now] by blast

lemma toy_key_wf: "any_wf toy_keys (lk_inner toy_key)"
  using toy_box_key_wf by (simp add: toy_keys_def lasting_def)

lemma toy_addressed: "sqlite_addressed toy_sqlite_env toy_profile_key key_category ''k''"
  by (simp add: sqlite_addressed_def toy_sqlite_env_def profile_encryptor_def toy_encrypt_searchable) (simp add: valid_str_def)

abbreviation toy_entry_of :: "bytes \<Rightarrow> Entry" where
  "toy_entry_of val \<equiv> key_entry ''k'' val (key_tags ''x25519'' [[]] None)"

lemma toy_insert_key:
  obtains data db' where "insert_key toy_ops (toy_codec data) toy_base64 (\<lambda>_. []) 0 (replicate 12 2) ''k'' toy_key None None None None toy_db = (Ok (), db')"
    "sqlite_holds toy_sqlite_env toy_profile_key 1 db' [(toy_entry_of [], None)]"
proof -
  note jwk = any_asymmetric_jwk [OF toy_base64_correct toy_json_correct toy_keys_correct toy_key_wf]
  obtain data where data: "local_encode toy_base64 toy_key = Ok data"
    using jwk [of None SecretKey] by (auto simp: local_encode_def to_jwk_secret_def lasting_def)
  have thumbs: "local_to_jwk_thumbprints toy_base64 (\<lambda>_. []) toy_key = Ok [[]]"
    using jwk [of None Thumbprint]
    by (auto simp: local_to_jwk_thumbprints_def local_to_jwk_thumbprint_def local_algorithm_def lasting_def to_jwk_thumbprint_def
        write_jwk_thumbprint_def toy_base64_def string_from_utf8_def of_bytes_def)
  have "valid_entry (toy_entry_of [])" by (simp add: key_tags_def prefixed_tags_def valid_tag_def valid_str_def)
  then obtain db' where "bs_update toy_ops 0 (replicate 12 2) Kms Insert key_category ''k'' (Some []) (Some (key_tags ''x25519'' [[]] None)) None toy_db = (Ok (), db')"
    and db': "sqlite_holds toy_sqlite_env toy_profile_key 1 db' [(toy_entry_of [], None)]"
    by (rule_tac toy_write [OF toy_holds, of Insert Kms key_category "''k''" "Some []" "Some (key_tags ''x25519'' [[]] None)" "Ok ()" "[(toy_entry_of [], None)]"])
      (simp_all add: spec_update_def spec_insert_def spec_has_def)
  then have "insert_key toy_ops (toy_codec data) toy_base64 (\<lambda>_. []) 0 (replicate 12 2) ''k'' toy_key None None None None toy_db = (Ok (), db')"
    using data thumbs by (simp add: insert_key_def is_hardware_backed_def params_to_bytes_def toy_codec_def Let_def local_algorithm_def lasting_def)
  then show thesis using db' by (rule that)
qed

theorem stored_key_round_trip_witness:
  "\<exists>data db' ke. insert_key toy_ops (toy_codec data) toy_base64 (\<lambda>_. []) 0 (replicate 12 2) ''k'' toy_key None None None None toy_db = (Ok (), db') \<and>
    fetch_key toy_ops (toy_codec data) 9 ''k'' False db' = Ok (Some ke) \<and> load_local_key toy_keys toy_base64 toy_json ke = Ok toy_key"
proof -
  obtain data db' where ins: "insert_key toy_ops (toy_codec data) toy_base64 (\<lambda>_. []) 0 (replicate 12 2) ''k'' toy_key None None None None toy_db = (Ok (), db')"
    by (rule toy_insert_key)
  from stored_key_round_trip [OF toy_holds refl toy_keys_correct toy_base64_correct toy_json_correct toy_cbor_codec_correct toy_key_wf _ _ _ sqlite_session.expiry_none _ ins,
      of 9 False]
  have "\<exists>ke. fetch_key toy_ops (toy_codec data) 9 ''k'' False db' = Ok (Some ke) \<and> load_local_key toy_keys toy_base64 toy_json ke = Ok toy_key"
    by (auto simp: valid_str_def opt_or_def unexpired_def local_algorithm_def lasting_def)
  with ins show ?thesis by blast
qed

text \<open>
  Updating a stored key replaces its metadata and the tags of the user, and keeps everything
  else: its data, its reference, its algorithm and its thumbprints. Without an unexpired key of
  the name the update fails and changes nothing.
\<close>

theorem update_key_keeps_key:
  assumes "sqlite_holds env pkey pid db st" and "ops = sqlite_session_ops env (Ok (pid, pkey)) in_txn closed"
    and "params_codec_correct C" and "sqlite_addressed env pkey key_category name" and "list_all valid_tag (opt_or tags [])"
    and "opt_expiry env now' ms = Ok x" and "unexpired t x"
    and "update_key ops C now now' nonce name metadata tags ms db = (r, db')"
  shows "(fetch_key ops C now name for_update db = Ok None \<longrightarrow> r = Err (err_msg askar_kind.NotFound ''Key entry not found'') \<and> db' = db) \<and>
    (\<forall>ke. fetch_key ops C now name for_update db = Ok (Some ke) \<and> r = Ok () \<longrightarrow>
      fetch_key ops C t name for_update' db' =
        Ok (Some (ke\<lparr>ke_params := (ke_params ke)\<lparr>kp_metadata := metadata\<rparr>, ke_tags := sort (opt_or tags [])\<rparr>)))"
  using sqlite_session.missing_key [OF assms(1,4), of in_txn closed C now for_update now' nonce metadata tags ms]
    sqlite_session.updated_key [OF assms(1) _ assms(5-7,3,4)] assms(2,4,8) by (auto simp: sqlite_addressed_def)

theorem update_key_keeps_key_witness:
  "\<exists>data db1 ke db2. fetch_key toy_ops (toy_codec data) 1 ''k'' True db1 = Ok (Some ke) \<and>
    update_key toy_ops (toy_codec data) 1 1 (replicate 12 2) ''k'' (Some ''m'') None None db1 = (Ok (), db2) \<and>
    fetch_key toy_ops (toy_codec data) 2 ''k'' False db2 = Ok (Some (ke\<lparr>ke_params := (ke_params ke)\<lparr>kp_metadata := Some ''m''\<rparr>, ke_tags := []\<rparr>))"
proof -
  let ?tags = "key_tags ''x25519'' [[]] None"
  obtain data db1 where "insert_key toy_ops (toy_codec data) toy_base64 (\<lambda>_. []) 0 (replicate 12 2) ''k'' toy_key None None None None toy_db = (Ok (), db1)"
    and h: "sqlite_holds toy_sqlite_env toy_profile_key 1 db1 [(toy_entry_of [], None)]"
    by (rule toy_insert_key)
  have sp: "spec_fetch (unexpired t) (Kms, key_category, ''k'') [(toy_entry_of [], None)] = Some (toy_entry_of [])" for t
    by (simp add: spec_fetch_def visible_def unexpired_def)
  obtain ke where ke: "fetch_key toy_ops (toy_codec data) 1 ''k'' True db1 = Ok (Some ke)"
    using sqlite_session.fetch_key_spec [OF h toy_addressed] sp
    by (simp add: from_entry_eq params_from_slice_def toy_codec_def Let_def)
  have "prefixed_tags None @ filter (\<lambda>t. \<not> is_user_name (entry_tag_name t)) ?tags = ?tags"
    by (simp add: prefixed_tags_def key_tags_def)
  moreover have "valid_entry (toy_entry_of [1])" by (simp add: key_tags_def prefixed_tags_def valid_tag_def valid_str_def)
  then obtain db2 where "bs_update toy_ops 1 (replicate 12 2) Kms Replace key_category ''k'' (Some [1]) (Some ?tags) None db1 = (Ok (), db2)"
    by (rule_tac toy_write [OF h, of Replace Kms key_category "''k''" "Some [1]" "Some ?tags" "Ok ()" "[(toy_entry_of [1], None)]"])
      (simp_all add: spec_update_def spec_replace_def spec_has_def)
  ultimately have up: "update_key toy_ops (toy_codec data) 1 1 (replicate 12 2) ''k'' (Some ''m'') None None db1 = (Ok (), db2)"
    using sqlite_session.fetch_law [OF h toy_addressed] sp
    by (simp add: update_key_def params_from_slice_def params_to_bytes_def toy_codec_def Let_def)
  from update_key_keeps_key [OF h refl toy_cbor_codec_correct toy_addressed _ sqlite_session.expiry_none _ up, of 2 True False] ke
  have "fetch_key toy_ops (toy_codec data) 2 ''k'' False db2 =
      Ok (Some (ke\<lparr>ke_params := (ke_params ke)\<lparr>kp_metadata := Some ''m''\<rparr>, ke_tags := []\<rparr>))"
    by (simp add: opt_or_def unexpired_def)
  with ke up show ?thesis by blast
qed



text \<open>
  C16. A search for keys that can be prepared, with an exact filter (\<open>sqlite_posed\<close>: since key tags are encrypted,
  only equality, membership and existence are asked for, no \<open>exist\<close> but one of exactly one name is negated, and no part of a
  disjunction or negated conjunction is always true) returns, in some order and cut to the limit, exactly the unexpired keys with
  the given algorithm and thumbprint whose user tags satisfy the filter. The names of the filter
  stand for encrypted tags only: a filter for a value never finds a key by a plaintext tag, not
  even under the name with the tilde that finds plaintext tags of records.
\<close>

theorem fetch_all_keys_exact:
  assumes "sqlite_holds env pkey pid db st" and "ops = sqlite_session_ops env (Ok (pid, pkey)) in_txn closed"
    and "keys_filter algorithm thumbprint tag_filter = Ok f" and "sqlite_posed env pid pkey (Some Kms) (Some key_category) f limit None False"
  shows "(\<exists>es. mset es = mset (filter (\<lambda>e. entry_kind e = Kms \<and> entry_category e = key_category \<and>
        key_matches (se_like env) algorithm thumbprint tag_filter (entry_tags e)) (map fst (filter (visible (unexpired now)) st))) \<and>
      fetch_all_keys ops C now algorithm thumbprint tag_filter limit for_update db = res_mapM (from_entry C) (limit_rows None limit es)) \<and>
    (list_all tag_is_plaintext (user_tags ts) \<longrightarrow> \<not> key_matches (se_like env) algorithm thumbprint (Some (is_eq n v)) ts)"
  using sqlite_session.fetch_all_keys_spec [OF assms(1,3,4), where in_txn = in_txn and closed = closed and now = now and C = C and for_update = for_update]
  by (auto simp: assms(2) key_matches_def is_eq_def tags_satisfy_def tag_op_match_def list_ex_iff list_all_iff)

theorem fetch_all_keys_exact_witness:
  "\<exists>data db1 ke. insert_key toy_ops (toy_codec data) toy_base64 (\<lambda>_. []) 0 (replicate 12 2) ''k'' toy_key None None None None toy_db = (Ok (), db1) \<and>
    ke_name ke = ''k'' \<and> fetch_all_keys toy_ops (toy_codec data) 1 None None None None False db1 = Ok [ke]"
proof -
  obtain data db1 where ins: "insert_key toy_ops (toy_codec data) toy_base64 (\<lambda>_. []) 0 (replicate 12 2) ''k'' toy_key None None None None toy_db = (Ok (), db1)"
    and h: "sqlite_holds toy_sqlite_env toy_profile_key 1 db1 [(toy_entry_of [], None)]" by (rule toy_insert_key)
  have "\<exists>sr. prepare_search toy_sqlite_env 1 toy_profile_key base (Some Kms) (Some key_category) None None None None False = Ok sr" for base
  proof -
    obtain ec where ec: "encrypt_category toy_sqlite_env toy_profile_key (Some key_category) = Ok ec"
      by (simp add: encrypt_category_def toy_sqlite_env_def profile_encryptor_def toy_encrypt_searchable)
    obtain q p where "extend_query sqlite_prepare base (params_push (opt_blob ec) (params_push (opt_int (Some (int (entry_kind_num Kms))))
        (params_push (ArgInt 1) params_new))) None None None None False = Ok (q, p)" using extend_query_plain by blast
    with ec show ?thesis by (simp add: prepare_search_def prepare_search_with_def Let_def encode_tag_filter_def filter_condition_def)
  qed
  then have posed: "sqlite_posed toy_sqlite_env 1 toy_profile_key (Some Kms) (Some key_category) None None None False"
    by (simp add: sqlite_posed_def filter_exact_def filter_tag_query_def)
  have kf: "keys_filter None None None = Ok None" by (simp add: keys_filter_def)
  obtain ke where ke: "from_entry (toy_codec data) (toy_entry_of []) = Ok ke" "ke_name ke = ''k''"
    by (simp add: from_entry_eq params_from_slice_def toy_codec_def Let_def)
  from fetch_all_keys_exact [OF h refl kf posed, of 1] ke(1)
  have "fetch_all_keys toy_ops (toy_codec data) 1 None None None None False db1 = Ok [ke]"
    by (auto simp: visible_def unexpired_def key_matches_def key_entry_def limit_rows_def opt_or_def)
  with ins ke(2) show ?thesis by blast
qed

end
