(* ===== verification/Db_Session.thy ===== *)
theory Db_Session
  imports Profile_Key
begin

text \<open>
  The sessions of \<open>askar-storage/src/backend/db_utils.rs\<close>: \<open>DbSession\<close> with its lazily acquired
  connection and lazily resolved profile key, \<open>DbSessionActive\<close>, and the transactions
  \<open>DbSessionTxn\<close>. The life of a session is a step relation; its invariant relates the session's
  transaction depth to the depth of the connection, counts the transactions that failing calls leave
  open, and rules out every panic of these functions.
\<close>

section \<open>The database\<close>

text \<open>
  The driver (\<open>sqlx\<close>): the pool, the transaction manager of a connection, and the statement
  \<open>DELETE FROM config WHERE 0\<close>. A failing call returns its error and the connection as the driver
  left it.
\<close>

record ('p, 'c) driver =
  pool_acquire :: "'p \<Rightarrow> ('c, unit) result"
  tm_begin :: "'c \<Rightarrow> (unit, unit) result \<times> 'c"
  tm_commit :: "'c \<Rightarrow> (unit, unit) result \<times> 'c"
  tm_rollback :: "'c \<Rightarrow> (unit, unit) result \<times> 'c"
  tm_start_rollback :: "'c \<Rightarrow> 'c"
  noop_write :: "'c \<Rightarrow> (unit, unit) result \<times> 'c"

text \<open>
  \<open>ExtDatabase::start_transaction\<close>: the default, and the override for SQLite, which follows an
  outer \<open>BEGIN\<close> by a write that changes nothing.
\<close>

definition default_start_transaction :: "('p, 'c) driver \<Rightarrow> 'c \<Rightarrow> bool \<Rightarrow> (unit, unit) result \<times> 'c" where
  "default_start_transaction T conn nested = tm_begin T conn"

definition sqlite_start_transaction :: "('p, 'c) driver \<Rightarrow> 'c \<Rightarrow> bool \<Rightarrow> (unit, unit) result \<times> 'c" where
  "sqlite_start_transaction T conn nested =
     (case tm_begin T conn of
        (Ok _, conn) \<Rightarrow> if nested then (Ok (), conn) else noop_write T conn
      | (r, conn) \<Rightarrow> (r, conn))"

text \<open>A database is a driver with its way to start a transaction.\<close>

record ('p, 'c) ext_database = "('p, 'c) driver" +
  start_transaction :: "'c \<Rightarrow> bool \<Rightarrow> (unit, unit) result \<times> 'c"

definition default_database :: "('p, 'c) driver \<Rightarrow> ('p, 'c) ext_database" where
  "default_database T = driver.extend T \<lparr>start_transaction = default_start_transaction T\<rparr>"

definition sqlite_database :: "('p, 'c) driver \<Rightarrow> ('p, 'c) ext_database" where
  "sqlite_database T = driver.extend T \<lparr>start_transaction = sqlite_start_transaction T\<rparr>"

text \<open>\<open>err_map!(Backend, ..)\<close>.\<close>

definition backend_err :: "string \<Rightarrow> ('a, unit) result \<Rightarrow> 'a storage_result" where
  "backend_err m = res_map_err (\<lambda>_. err_msg storage_kind.Backend m)"

lemma backend_err_simps [simp]:
  "backend_err m (Ok x) = Ok x" "backend_err m (Err e) = Err (err_msg storage_kind.Backend m)"
  "backend_err m Panic = Panic"
  by (simp_all add: backend_err_def)

section \<open>Sessions\<close>

datatype ('p, 'c) DbSessionState =
    SessionActive 'c
  | SessionPending 'p bool
  | SessionClosed

text \<open>The cache of a pending key is the shared handle \<open>'k\<close>, which the key resolution uses.\<close>

datatype 'k DbSessionKey =
    KeyActive int ProfileKey
  | KeyPending 'k string

record ('p, 'c, 'k) DbSession =
  profile_key :: "'k DbSessionKey"
  session_state :: "('p, 'c) DbSessionState"
  txn_depth :: nat

definition session_new :: "'p \<Rightarrow> 'k \<Rightarrow> string \<Rightarrow> bool \<Rightarrow> ('p, 'c, 'k) DbSession" where
  "session_new pool cache profile transaction =
     \<lparr>profile_key = KeyPending cache profile, session_state = SessionPending pool transaction, txn_depth = 0\<rparr>"

definition connection_mut :: "('p, 'c, 'k) DbSession \<Rightarrow> 'c option" where
  "connection_mut s = (case session_state s of SessionActive conn \<Rightarrow> Some conn | _ \<Rightarrow> None)"

definition set_connection :: "'c \<Rightarrow> ('p, 'c, 'k) DbSession \<Rightarrow> ('p, 'c, 'k) DbSession" where
  "set_connection conn s = s\<lparr>session_state := SessionActive conn\<rparr>"

definition in_transaction :: "('p, 'c, 'k) DbSession \<Rightarrow> bool" where
  "in_transaction s \<longleftrightarrow> txn_depth s > 0 \<or> (case session_state s of SessionPending _ t \<Rightarrow> t | _ \<Rightarrow> False)"

definition profile_and_key :: "('p, 'c, 'k) DbSession \<Rightarrow> (int \<times> ProfileKey) option" where
  "profile_and_key s = (case profile_key s of KeyActive pid key \<Rightarrow> Some (pid, key) | _ \<Rightarrow> None)"

text \<open>
  The first half of \<open>make_active\<close>: a pending session acquires a connection and starts its
  transaction. When that fails, the session keeps its pending state.
\<close>

definition acquire_connection :: "('p, 'c) ext_database \<Rightarrow> ('p, 'c, 'k) DbSession
    \<Rightarrow> unit storage_result \<times> ('p, 'c, 'k) DbSession" where
  "acquire_connection D s =
     (case session_state s of
        SessionPending pool transaction \<Rightarrow>
          (case pool_acquire D pool of
             Ok conn \<Rightarrow>
               if transaction then
                 (case start_transaction D conn False of
                    (Ok _, conn) \<Rightarrow>
                      (Ok (), s\<lparr>txn_depth := txn_depth s + 1, session_state := SessionActive conn\<rparr>)
                  | (Err e, _) \<Rightarrow> (backend_err ''Error starting transaction'' (Err e), s)
                  | (Panic, _) \<Rightarrow> (Panic, s))
               else (Ok (), s\<lparr>session_state := SessionActive conn\<rparr>)
           | Err e \<Rightarrow> (backend_err ''Error acquiring pool connection'' (Err e), s)
           | Panic \<Rightarrow> (Panic, s))
      | _ \<Rightarrow> (Ok (), s))"

text \<open>
  The second half: a pending key takes the profile name out of the session, leaving the empty
  string, and resolves it on the connection.
\<close>

definition resolve_key :: "('c \<Rightarrow> 'k \<Rightarrow> string \<Rightarrow> bool \<Rightarrow> (int \<times> ProfileKey) storage_result \<times> 'c)
    \<Rightarrow> ('p, 'c, 'k) DbSession \<Rightarrow> int storage_result \<times> ('p, 'c, 'k) DbSession" where
  "resolve_key init_key s =
     (case profile_key s of
        KeyPending cache profile \<Rightarrow>
          (let s = s\<lparr>profile_key := KeyPending cache []\<rparr>;
               in_txn = in_transaction s
           in case connection_mut s of
                None \<Rightarrow> (Panic, s)
              | Some conn \<Rightarrow>
                  (case init_key conn cache profile in_txn of
                     (Ok (pid, key), conn) \<Rightarrow>
                       (Ok pid, set_connection conn s\<lparr>profile_key := KeyActive pid key\<rparr>)
                   | (Err e, conn) \<Rightarrow> (Err e, set_connection conn s)
                   | (Panic, conn) \<Rightarrow> (Panic, set_connection conn s)))
      | KeyActive pid key \<Rightarrow> (Ok pid, s))"

definition make_active :: "('p, 'c) ext_database
    \<Rightarrow> ('c \<Rightarrow> 'k \<Rightarrow> string \<Rightarrow> bool \<Rightarrow> (int \<times> ProfileKey) storage_result \<times> 'c)
    \<Rightarrow> ('p, 'c, 'k) DbSession \<Rightarrow> int storage_result \<times> ('p, 'c, 'k) DbSession" where
  "make_active D init_key s =
     (case acquire_connection D s of
        (Ok _, s) \<Rightarrow> resolve_key init_key s
      | (Err e, s) \<Rightarrow> (Err e, s)
      | (Panic, s) \<Rightarrow> (Panic, s))"

text \<open>\<open>DbSession::close\<close> and the destructor.\<close>

definition session_close :: "('p, 'c) ext_database \<Rightarrow> bool \<Rightarrow> ('p, 'c, 'k) DbSession
    \<Rightarrow> unit storage_result \<times> 'c option \<times> ('p, 'c, 'k) DbSession" where
  "session_close D commit s =
     (let state = session_state s;
          s = s\<lparr>session_state := SessionClosed\<rparr>
      in if txn_depth s > 0 then
           (let s = s\<lparr>txn_depth := 0\<rparr>
            in case state of
                 SessionActive conn \<Rightarrow>
                   (let (r, conn) = (if commit then tm_commit D conn else tm_rollback D conn)
                    in (backend_err ''Error closing transaction'' r, Some conn, s))
               | _ \<Rightarrow> (Ok (), None, s))
         else (Ok (), (case state of SessionActive conn \<Rightarrow> Some conn | _ \<Rightarrow> None), s))"

definition session_drop :: "('p, 'c) ext_database \<Rightarrow> ('p, 'c, 'k) DbSession \<Rightarrow> ('p, 'c, 'k) DbSession" where
  "session_drop D s =
     (if txn_depth s > 0 then
        (let s = s\<lparr>txn_depth := 0\<rparr>
         in case connection_mut s of
              Some conn \<Rightarrow> set_connection (tm_start_rollback D conn) s
            | None \<Rightarrow> s)
      else s)"

section \<open>Transactions\<close>

record DbSessionTxn =
  txn_profile_id :: int
  rollback :: bool

text \<open>
  \<open>DbSessionActive::begin\<close> and \<open>as_transaction\<close>. The connection of an active session is there; the
  \<open>expect\<close> in \<open>connection_mut\<close> panics otherwise.
\<close>

definition txn_start :: "('p, 'c) ext_database \<Rightarrow> string \<Rightarrow> bool \<Rightarrow> int \<Rightarrow> ('p, 'c, 'k) DbSession
    \<Rightarrow> DbSessionTxn storage_result \<times> ('p, 'c, 'k) DbSession" where
  "txn_start D msg nested pid s =
     (case connection_mut s of
        None \<Rightarrow> (Panic, s)
      | Some conn \<Rightarrow>
          (case start_transaction D conn nested of
             (Ok _, conn) \<Rightarrow>
               (Ok \<lparr>txn_profile_id = pid, rollback = True\<rparr>, set_connection conn s\<lparr>txn_depth := txn_depth s + 1\<rparr>)
           | (Err e, conn) \<Rightarrow> (backend_err msg (Err e), set_connection conn s)
           | (Panic, conn) \<Rightarrow> (Panic, set_connection conn s)))"

definition txn_begin :: "('p, 'c) ext_database \<Rightarrow> int \<Rightarrow> ('p, 'c, 'k) DbSession
    \<Rightarrow> DbSessionTxn storage_result \<times> ('p, 'c, 'k) DbSession" where
  "txn_begin D pid s = txn_start D ''Error starting nested transaction'' True pid s"

definition as_transaction :: "('p, 'c) ext_database \<Rightarrow> int \<Rightarrow> ('p, 'c, 'k) DbSession
    \<Rightarrow> DbSessionTxn storage_result \<times> ('p, 'c, 'k) DbSession" where
  "as_transaction D pid s =
     (if txn_depth s = 0 then txn_start D ''Error starting transaction'' False pid s
      else (Ok \<lparr>txn_profile_id = pid, rollback = False\<rparr>, s))"

text \<open>
  \<open>DbSessionTxn::commit\<close> and its destructor. \<open>txn_depth -= 1\<close> on a zero depth is an overflow,
  and \<open>connection_mut\<close> unwraps the connection.
\<close>

definition commit :: "('p, 'c) ext_database \<Rightarrow> DbSessionTxn \<Rightarrow> ('p, 'c, 'k) DbSession
    \<Rightarrow> unit storage_result \<times> ('p, 'c, 'k) DbSession" where
  "commit D t s =
     (if rollback t then
        (if txn_depth s = 0 then (Panic, s)
         else
           (let s = s\<lparr>txn_depth := txn_depth s - 1\<rparr>
            in case connection_mut s of
                 None \<Rightarrow> (Panic, s)
               | Some conn \<Rightarrow>
                   (let (r, conn) = tm_commit D conn
                    in (backend_err ''Error committing transaction'' r, set_connection conn s))))
      else (Ok (), s))"

definition txn_drop :: "('p, 'c) ext_database \<Rightarrow> DbSessionTxn \<Rightarrow> ('p, 'c, 'k) DbSession
    \<Rightarrow> unit storage_result \<times> ('p, 'c, 'k) DbSession" where
  "txn_drop D t s =
     (if rollback t then
        (if txn_depth s = 0 then (Panic, s)
         else
           (let s = s\<lparr>txn_depth := txn_depth s - 1\<rparr>
            in case connection_mut s of
                 None \<Rightarrow> (Panic, s)
               | Some conn \<Rightarrow> (Ok (), set_connection (tm_start_rollback D conn) s)))
      else (Ok (), s))"

section \<open>The depth of a connection\<close>

text \<open>
  What is relied on of the driver, for a function that gives the number of open transactions of a
  connection: a new connection has none, starting adds one, committing and rolling back end one,
  and a call that fails leaves the number as it was.
\<close>

definition result_depth :: "('c \<Rightarrow> nat) \<Rightarrow> (nat \<Rightarrow> nat) \<Rightarrow> 'c \<Rightarrow> (unit, unit) result \<times> 'c \<Rightarrow> bool" where
  "result_depth depth f c r = (case r of
     (Ok _, c') \<Rightarrow> depth c' = f (depth c) | (Err _, c') \<Rightarrow> depth c' = depth c | (Panic, _) \<Rightarrow> False)"

definition driver_correct :: "('p, 'c, 'x) driver_scheme \<Rightarrow> ('c \<Rightarrow> nat) \<Rightarrow> bool" where
  "driver_correct T depth \<longleftrightarrow>
     (\<forall>p. pool_acquire T p \<noteq> Panic \<and> (\<forall>c. pool_acquire T p = Ok c \<longrightarrow> depth c = 0)) \<and>
     (\<forall>c. result_depth depth Suc c (tm_begin T c)) \<and>
     (\<forall>c. result_depth depth (\<lambda>n. n - 1) c (tm_commit T c)) \<and>
     (\<forall>c. result_depth depth (\<lambda>n. n - 1) c (tm_rollback T c)) \<and>
     (\<forall>c. depth (tm_start_rollback T c) = depth c - 1) \<and>
     (\<forall>c. result_depth depth id c (noop_write T c))"

text \<open>A start that fails may have begun the transaction: SQLite's start does when its extra write fails.\<close>

definition start_correct :: "('p, 'c) ext_database \<Rightarrow> ('c \<Rightarrow> nat) \<Rightarrow> bool" where
  "start_correct D depth \<longleftrightarrow> (\<forall>c nested. case start_transaction D c nested of
     (Ok _, c') \<Rightarrow> depth c' = Suc (depth c)
   | (Err _, c') \<Rightarrow> depth c' = depth c \<or> depth c' = Suc (depth c)
   | (Panic, _) \<Rightarrow> False)"

definition database_correct :: "('p, 'c) ext_database \<Rightarrow> ('c \<Rightarrow> nat) \<Rightarrow> bool" where
  "database_correct D depth \<longleftrightarrow> driver_correct D depth \<and> start_correct D depth"

lemma driver_correct_extend [simp]: "driver_correct (driver.extend T x) depth = driver_correct T depth"
  by (simp add: driver_correct_def driver.defs)

lemma driver_begin: "driver_correct T depth \<Longrightarrow> result_depth depth Suc c (tm_begin T c)"
  by (simp add: driver_correct_def)

lemma driver_noop: "driver_correct T depth \<Longrightarrow> result_depth depth id c (noop_write T c)"
  by (simp add: driver_correct_def)

lemma default_database_correct:
  assumes "driver_correct T depth"
  shows "database_correct (default_database T) depth"
proof -
  have "case default_start_transaction T c nested of (Ok _, c') \<Rightarrow> depth c' = Suc (depth c)
      | (Err _, c') \<Rightarrow> depth c' = depth c \<or> depth c' = Suc (depth c) | (Panic, _) \<Rightarrow> False" for c nested
    using driver_begin [OF assms, of c] by (auto simp: default_start_transaction_def result_depth_def split: prod.splits result.splits)
  then show ?thesis using assms
    by (simp add: database_correct_def default_database_def start_correct_def driver.defs driver_correct_def)
qed

lemma sqlite_database_correct:
  assumes "driver_correct T depth"
  shows "database_correct (sqlite_database T) depth"
proof -
  have "case sqlite_start_transaction T c nested of (Ok _, c') \<Rightarrow> depth c' = Suc (depth c)
      | (Err _, c') \<Rightarrow> depth c' = depth c \<or> depth c' = Suc (depth c) | (Panic, _) \<Rightarrow> False" for c nested
  proof -
    obtain r c1 where b: "tm_begin T c = (r, c1)" by fastforce
    have "result_depth depth Suc c (r, c1)" "result_depth depth id c1 (noop_write T c1)"
      using driver_begin [OF assms, of c] driver_noop [OF assms, of c1] b by simp_all
    then show ?thesis using b
      by (cases r) (auto simp: sqlite_start_transaction_def result_depth_def split: prod.splits result.splits)
  qed
  then show ?thesis
    using assms by (simp add: database_correct_def sqlite_database_def start_correct_def driver.defs driver_correct_def)
qed

section \<open>The life of a session\<close>

text \<open>
  A session together with the transaction that borrows it, if one is open: \<open>begin\<close> and
  \<open>as_transaction\<close> borrow the session exclusively until the transaction is committed or dropped.
  \<open>execute\<close> stands for the statements run on the connection, which start and end no transaction.
  A session is given up by \<open>close\<close>, so that it is not activated afterwards.

  A step has the number of transactions that it leaves open on the connection without counting them in the session. A
  commit that fails leaves one: it has taken one off the session's depth and told the destructor not to roll back
  by then. A start that fails leaves one when \<open>BEGIN\<close> itself had succeeded.
\<close>

type_synonym ('p, 'c, 'k) session_config = "('p, 'c, 'k) DbSession \<times> DbSessionTxn option"
type_synonym ('c, 'k) key_resolver = "'c \<Rightarrow> 'k \<Rightarrow> string \<Rightarrow> bool \<Rightarrow> (int \<times> ProfileKey) storage_result \<times> 'c"

definition conn_depth :: "('c \<Rightarrow> nat) \<Rightarrow> ('p, 'c, 'k) DbSession \<Rightarrow> nat" where
  "conn_depth depth s = (case connection_mut s of Some c \<Rightarrow> depth c | None \<Rightarrow> 0)"

definition start_leaves :: "('c \<Rightarrow> nat) \<Rightarrow> DbSessionTxn storage_result \<Rightarrow> ('p, 'c, 'k) DbSession \<Rightarrow> ('p, 'c, 'k) DbSession \<Rightarrow> nat" where
  "start_leaves depth r s s' = (case r of Ok _ \<Rightarrow> 0 | _ \<Rightarrow> conn_depth depth s' - conn_depth depth s)"

inductive session_step :: "('p, 'c) ext_database \<Rightarrow> ('c, 'k) key_resolver \<Rightarrow> ('c \<Rightarrow> nat)
    \<Rightarrow> ('p, 'c, 'k) session_config \<Rightarrow> nat \<Rightarrow> ('p, 'c, 'k) session_config \<Rightarrow> bool"
  for D init_key depth where
  step_activate: "session_state s \<noteq> SessionClosed \<Longrightarrow> make_active D init_key s = (r, s') \<Longrightarrow>
     session_step D init_key depth (s, None) 0 (s', None)"
| step_execute: "connection_mut s = Some c \<Longrightarrow> depth c' = depth c \<Longrightarrow>
     session_step D init_key depth (s, t) 0 (set_connection c' s, t)"
| step_begin: "connection_mut s \<noteq> None \<Longrightarrow> txn_begin D pid s = (r, s') \<Longrightarrow>
     session_step D init_key depth (s, None) (start_leaves depth r s s') (s', case r of Ok t \<Rightarrow> Some t | _ \<Rightarrow> None)"
| step_as_transaction: "connection_mut s \<noteq> None \<Longrightarrow> as_transaction D pid s = (r, s') \<Longrightarrow>
     session_step D init_key depth (s, None) (start_leaves depth r s s') (s', case r of Ok t \<Rightarrow> Some t | _ \<Rightarrow> None)"
| step_commit: "commit D t s = (Ok (), s') \<Longrightarrow> session_step D init_key depth (s, Some t) 0 (s', None)"
| step_commit_fails: "commit D t s = (r, s') \<Longrightarrow> r \<noteq> Ok () \<Longrightarrow> session_step D init_key depth (s, Some t) 1 (s', None)"
| step_drop: "txn_drop D t s = (r, s') \<Longrightarrow> session_step D init_key depth (s, Some t) 0 (s', None)"
| step_close: "session_close D b s = (r, c, s') \<Longrightarrow> session_step D init_key depth (s, None) 0 (s', None)"

text \<open>The states of a session's life, with the number of transactions left open so far.\<close>

inductive session_reach :: "('p, 'c) ext_database \<Rightarrow> ('c, 'k) key_resolver \<Rightarrow> ('c \<Rightarrow> nat) \<Rightarrow> bool
    \<Rightarrow> nat \<Rightarrow> ('p, 'c, 'k) session_config \<Rightarrow> bool"
  for D init_key depth b where
  reach_new: "session_reach D init_key depth b 0 (session_new pool cache profile b, None)"
| reach_step: "session_reach D init_key depth b n x \<Longrightarrow> session_step D init_key depth x k y \<Longrightarrow>
     session_reach D init_key depth b (n + k) y"

text \<open>The transactions that a configuration should have open.\<close>

definition open_txns :: "bool \<Rightarrow> DbSessionTxn option \<Rightarrow> nat" where
  "open_txns b t = (if b then 1 else 0) + (case t of Some t \<Rightarrow> if rollback t then 1 else 0 | None \<Rightarrow> 0)"

fun session_wf :: "('c \<Rightarrow> nat) \<Rightarrow> bool \<Rightarrow> nat \<Rightarrow> ('p, 'c, 'k) session_config \<Rightarrow> bool" where
  "session_wf depth b n (s, t) \<longleftrightarrow>
     (case session_state s of
        SessionPending pool transaction \<Rightarrow> transaction = b \<and> txn_depth s = 0 \<and> t = None \<and> n = 0
      | SessionActive c \<Rightarrow> depth c = txn_depth s + n \<and> txn_depth s = open_txns b t
      | SessionClosed \<Rightarrow> txn_depth s = 0 \<and> t = None)"

text \<open>The key resolution starts no transaction either, and does not panic.\<close>

definition resolver_correct :: "('c, 'k) key_resolver \<Rightarrow> ('c \<Rightarrow> nat) \<Rightarrow> bool" where
  "resolver_correct init_key depth \<longleftrightarrow> (\<forall>c cache profile in_txn r c'.
     init_key c cache profile in_txn = (r, c') \<longrightarrow> depth c' = depth c \<and> r \<noteq> Panic)"

lemma connection_simps [simp]:
  "connection_mut (set_connection c s) = Some c" "txn_depth (set_connection c s) = txn_depth s"
  "profile_key (set_connection c s) = profile_key s" "session_state (set_connection c s) = SessionActive c"
  by (simp_all add: connection_mut_def set_connection_def)

lemma connection_mut_Some: "connection_mut s = Some c \<longleftrightarrow> session_state s = SessionActive c"
  by (simp add: connection_mut_def split: DbSessionState.splits)

lemma start_depth:
  assumes "database_correct D depth" "start_transaction D c nested = (r, c')"
  shows "r \<noteq> Panic \<and> depth c \<le> depth c' \<and> (r = Ok () \<longrightarrow> depth c' = Suc (depth c))"
proof -
  have "case start_transaction D c nested of (Ok _, c') \<Rightarrow> depth c' = Suc (depth c)
      | (Err _, c') \<Rightarrow> depth c' = depth c \<or> depth c' = Suc (depth c) | (Panic, _) \<Rightarrow> False"
    using assms(1) by (simp add: database_correct_def start_correct_def)
  with assms(2) show ?thesis by (cases r) auto
qed

lemma commit_depth:
  assumes "database_correct D depth" "tm_commit D c = (r, c') \<or> tm_rollback D c = (r, c')"
  shows "r \<noteq> Panic \<and> depth c' = (if r = Ok () then depth c - 1 else depth c)"
proof -
  have "result_depth depth (\<lambda>n. n - 1) c (r, c')"
    using assms unfolding database_correct_def driver_correct_def by metis
  then show ?thesis by (cases r) (auto simp: result_depth_def)
qed

lemma acquire_wf:
  assumes "database_correct D depth" "session_wf depth b n (s, None)" "acquire_connection D s = (r, s')"
  shows "session_wf depth b n (s', None) \<and> r \<noteq> Panic \<and> (r = Ok () \<longrightarrow> session_state s \<noteq> SessionClosed \<longrightarrow> connection_mut s' \<noteq> None)"
proof (cases "session_state s")
  case (SessionPending pool tr)
  with assms(2) have w: "tr = b" "txn_depth s = 0" by simp_all
  have dc: "driver_correct D depth" using assms(1) by (simp add: database_correct_def)
  show ?thesis
  proof (cases "pool_acquire D pool")
    case (Ok c)
    then have "depth c = 0" using dc by (auto simp: driver_correct_def)
    obtain r1 c1 where st: "start_transaction D c False = (r1, c1)" by fastforce
    show ?thesis
    proof (cases b)
      case True
      then show ?thesis
        using start_depth [OF assms(1) st] assms(2,3) SessionPending w Ok st \<open>depth c = 0\<close>
        by (cases r1) (auto simp: acquire_connection_def open_txns_def connection_mut_def)
    next
      case False
      then show ?thesis
        using assms(2,3) SessionPending w Ok \<open>depth c = 0\<close>
        by (auto simp: acquire_connection_def open_txns_def connection_mut_def)
    qed
  next
    case (Err e)
    then show ?thesis using assms(2,3) SessionPending by (auto simp: acquire_connection_def)
  next
    case Panic
    then show ?thesis using dc by (auto simp: driver_correct_def)
  qed
qed (use assms(2,3) in \<open>auto simp: acquire_connection_def connection_mut_def\<close>)

lemma resolve_wf:
  assumes "resolver_correct init_key depth" "session_wf depth b n (s, None)" "connection_mut s \<noteq> None"
    and "resolve_key init_key s = (r, s')"
  shows "session_wf depth b n (s', None) \<and> r \<noteq> Panic"
proof -
  obtain c where c: "session_state s = SessionActive c" using assms(3) by (auto simp: connection_mut_Some)
  show ?thesis
  proof (cases "profile_key s")
    case (KeyActive pid key)
    then show ?thesis using assms(2,4) by (auto simp: resolve_key_def)
  next
    case (KeyPending cache profile)
    let ?s = "s\<lparr>profile_key := KeyPending cache []\<rparr>"
    obtain r1 c1 where i: "init_key c cache profile (in_transaction ?s) = (r1, c1)" by fastforce
    then have d: "depth c1 = depth c" "r1 \<noteq> Panic" using assms(1) by (auto simp: resolver_correct_def)
    have w: "session_wf depth b n (set_connection c1 (s\<lparr>profile_key := k\<rparr>), None)" for k
      using assms(2) c d(1) by (simp add: set_connection_def)
    have conn: "connection_mut ?s = Some c" using c by (simp add: connection_mut_def)
    have "resolve_key init_key s = (case (r1, c1) of (Ok (pid, key), conn) \<Rightarrow>
          (Ok pid, set_connection conn ?s\<lparr>profile_key := KeyActive pid key\<rparr>)
        | (Err e, conn) \<Rightarrow> (Err e, set_connection conn ?s)
        | (Panic, conn) \<Rightarrow> (Panic, set_connection conn ?s))"
      by (simp only: resolve_key_def KeyPending DbSessionKey.case Let_def conn option.case i)
    then show ?thesis
      using assms(4) d(2) w [of "KeyPending cache []"] w
      by (cases r1) (auto simp: set_connection_def)
  qed
qed

lemma make_active_wf:
  assumes "database_correct D depth" "resolver_correct init_key depth" "session_wf depth b n (s, None)"
    and "session_state s \<noteq> SessionClosed" "make_active D init_key s = (r, s')"
  shows "session_wf depth b n (s', None) \<and> r \<noteq> Panic"
proof -
  obtain r1 s1 where a: "acquire_connection D s = (r1, s1)" by fastforce
  note w = acquire_wf [OF assms(1,3) a]
  show ?thesis
  proof (cases r1)
    case (Ok u)
    with w assms(4) have "session_wf depth b n (s1, None)" "connection_mut s1 \<noteq> None" by auto
    from resolve_wf [OF assms(2) this] show ?thesis using assms(5) a Ok by (simp add: make_active_def)
  qed (use w assms(5) a in \<open>auto simp: make_active_def\<close>)
qed

lemma txn_start_wf:
  assumes "database_correct D depth" "session_wf depth b n (s, None)" "connection_mut s \<noteq> None"
    and "txn_start D msg nested pid s = (r, s')"
  shows "session_wf depth b (n + start_leaves depth r s s') (s', case r of Ok t \<Rightarrow> Some t | _ \<Rightarrow> None) \<and> r \<noteq> Panic"
proof -
  obtain c where c: "session_state s = SessionActive c" using assms(3) by (auto simp: connection_mut_Some)
  obtain r1 c1 where st: "start_transaction D c nested = (r1, c1)" by fastforce
  note d = start_depth [OF assms(1) st]
  show ?thesis
    using assms(2,4) c st d
    by (cases r1) (auto simp: txn_start_def connection_mut_def set_connection_def open_txns_def start_leaves_def conn_depth_def)
qed

lemma as_transaction_wf:
  assumes "database_correct D depth" "session_wf depth b n (s, None)" "connection_mut s \<noteq> None"
    and "as_transaction D pid s = (r, s')"
  shows "session_wf depth b (n + start_leaves depth r s s') (s', case r of Ok t \<Rightarrow> Some t | _ \<Rightarrow> None) \<and> r \<noteq> Panic"
proof (cases "txn_depth s = 0")
  case True
  with assms(4) have "txn_start D ''Error starting transaction'' False pid s = (r, s')"
    by (simp add: as_transaction_def)
  from txn_start_wf [OF assms(1-3) this] show ?thesis .
next
  case False
  with assms(2,4) show ?thesis
    by (auto simp: as_transaction_def open_txns_def start_leaves_def split: DbSessionState.splits)
qed

lemma txn_end_wf:
  assumes "database_correct D depth" "session_wf depth b n (s, Some t)"
  shows commit_not_panic: "fst (commit D t s) \<noteq> Panic"
    and commit_wf: "commit D t s = (Ok (), s') \<Longrightarrow> session_wf depth b n (s', None)"
    and commit_fails_wf: "commit D t s = (r, s') \<Longrightarrow> r \<noteq> Ok () \<Longrightarrow> session_wf depth b (n + 1) (s', None)"
    and txn_drop_wf: "txn_drop D t s = (r, s') \<Longrightarrow> session_wf depth b n (s', None) \<and> r \<noteq> Panic"
proof -
  obtain c where c: "session_state s = SessionActive c" "depth c = txn_depth s + n" "txn_depth s = open_txns b (Some t)"
    using assms(2) by (auto split: DbSessionState.splits)
  obtain r1 c1 where cm: "tm_commit D c = (r1, c1)" by fastforce
  have d: "r1 \<noteq> Panic \<and> depth c1 = (if r1 = Ok () then depth c - 1 else depth c)"
    using commit_depth [OF assms(1), of c r1 c1] cm by blast
  show "fst (commit D t s) \<noteq> Panic"
    using c cm d by (cases r1) (auto simp: commit_def connection_mut_def open_txns_def)
  show "session_wf depth b n (s', None)" if "commit D t s = (Ok (), s')"
    using that c cm d
    by (cases r1) (auto simp: commit_def connection_mut_def open_txns_def set_connection_def split: if_splits)
  show "session_wf depth b (n + 1) (s', None)" if "commit D t s = (r, s')" "r \<noteq> Ok ()"
    using that c cm d
    by (cases r1) (auto simp: commit_def connection_mut_def open_txns_def set_connection_def split: if_splits)
  have "depth (tm_start_rollback D c) = depth c - 1"
    using assms(1) by (simp add: database_correct_def driver_correct_def)
  then show "session_wf depth b n (s', None) \<and> r \<noteq> Panic" if "txn_drop D t s = (r, s')"
    using that c
    by (auto simp: txn_drop_def connection_mut_def open_txns_def set_connection_def split: if_splits)
qed

lemma session_close_wf: "session_close D com s = (r, c, s') \<Longrightarrow> session_wf depth b n (s', None)"
  by (auto simp: session_close_def Let_def split: if_splits DbSessionState.splits prod.splits)

lemma session_reach_wf:
  assumes "database_correct D depth" "resolver_correct init_key depth"
  shows "session_reach D init_key depth b n x \<Longrightarrow> session_wf depth b n x"
proof (induction rule: session_reach.induct)
  case (reach_new pool cache profile)
  then show ?case by (simp add: session_new_def)
next
  case (reach_step n x k y)
  from reach_step(2) reach_step.IH show ?case
  proof cases
    case (step_activate s r s')
    then show ?thesis using make_active_wf [OF assms] reach_step.IH by (metis add_0_right)
  next
    case (step_execute s c c' t)
    then show ?thesis using reach_step.IH by (auto simp: set_connection_def connection_mut_Some)
  next
    case (step_begin s pid r s')
    then show ?thesis using txn_start_wf [OF assms(1)] reach_step.IH unfolding txn_begin_def by blast
  next
    case (step_as_transaction s pid r s')
    then show ?thesis using as_transaction_wf [OF assms(1)] reach_step.IH by blast
  next
    case (step_commit t s s')
    then show ?thesis using commit_wf [OF assms(1)] reach_step.IH by (metis add_0_right)
  next
    case (step_commit_fails t s r s')
    then show ?thesis using commit_fails_wf [OF assms(1)] reach_step.IH by blast
  next
    case (step_drop t s r s')
    then show ?thesis using txn_drop_wf [OF assms(1)] reach_step.IH by (metis add_0_right)
  next
    case (step_close com s r c s')
    then show ?thesis using session_close_wf by (metis add_0_right)
  qed
qed

section \<open>Properties of sessions\<close>

text \<open>A driver whose connections are their own depth, for which the hypotheses hold.\<close>

definition counting_driver :: "(unit, nat) driver" where
  "counting_driver = \<lparr>pool_acquire = (\<lambda>_. Ok 0), tm_begin = (\<lambda>c. (Ok (), Suc c)), tm_commit = (\<lambda>c. (Ok (), c - 1)),
     tm_rollback = (\<lambda>c. (Ok (), c - 1)), tm_start_rollback = (\<lambda>c. c - 1), noop_write = (\<lambda>c. (Ok (), c))\<rparr>"

definition fixed_resolver :: "(nat, unit) key_resolver" where
  "fixed_resolver c cache profile in_txn = (Ok (1, toy_profile_key), c)"

lemma counting_driver_correct: "driver_correct counting_driver (\<lambda>c. c)"
  by (simp add: driver_correct_def counting_driver_def result_depth_def)

lemma counting_database_correct: "database_correct (sqlite_database counting_driver) (\<lambda>c. c)"
  by (rule sqlite_database_correct [OF counting_driver_correct])

lemma fixed_resolver_correct: "resolver_correct fixed_resolver (\<lambda>c. c)"
  by (simp add: resolver_correct_def fixed_resolver_def)

text \<open>A transaction session that was activated.\<close>

definition active_session :: "(unit, nat, unit) DbSession" where
  "active_session = snd (make_active (sqlite_database counting_driver) fixed_resolver (session_new () () ''p'' True))"

lemma active_session_reach:
  "session_reach (sqlite_database counting_driver) fixed_resolver (\<lambda>c. c) True 0 (active_session, None)"
proof -
  have "session_step (sqlite_database counting_driver) fixed_resolver (\<lambda>c. c) (session_new () () ''p'' True, None) 0 (active_session, None)"
    unfolding active_session_def by (rule session_step.step_activate, simp add: session_new_def, rule surjective_pairing)
  from session_reach.reach_step [OF session_reach.reach_new this] show ?thesis by simp
qed

lemma active_session_eq:
  "active_session = \<lparr>profile_key = KeyActive 1 toy_profile_key, session_state = SessionActive 1, txn_depth = 1\<rparr>"
  by (simp add: active_session_def make_active_def acquire_connection_def session_new_def sqlite_database_def
      driver.defs counting_driver_def sqlite_start_transaction_def resolve_key_def connection_mut_def
      fixed_resolver_def set_connection_def)


text \<open>A database whose commits fail, and a session on it after such a commit.\<close>

definition failing_driver :: "(unit, nat) driver" where
  "failing_driver = counting_driver\<lparr>tm_commit := \<lambda>c. (Err (), c)\<rparr>"

definition failed_session :: "(unit, nat, unit) DbSession" where
  "failed_session = \<lparr>profile_key = KeyActive 1 toy_profile_key, session_state = SessionActive 1, txn_depth = 0\<rparr>"

lemmas failing_simps = sqlite_database_def driver.defs failing_driver_def counting_driver_def sqlite_start_transaction_def

lemma failing_database_correct: "database_correct (sqlite_database failing_driver) (\<lambda>c. c)"
  by (rule sqlite_database_correct) (simp add: driver_correct_def failing_driver_def counting_driver_def result_depth_def)

lemma failed_session_reach:
  "session_reach (sqlite_database failing_driver) fixed_resolver (\<lambda>c. c) False 1 (failed_session, None)"
proof -
  let ?D = "sqlite_database failing_driver"
  let ?new = "session_new () () ''p'' False :: (unit, nat, unit) DbSession"
  let ?s = "failed_session\<lparr>session_state := SessionActive 0\<rparr>"
  let ?t = "\<lparr>txn_profile_id = 1, rollback = True\<rparr>"
  have "make_active ?D fixed_resolver ?new = (Ok 1, ?s)"
    by (simp add: make_active_def acquire_connection_def session_new_def failing_simps resolve_key_def connection_mut_def
        fixed_resolver_def set_connection_def failed_session_def)
  then have "session_step ?D fixed_resolver (\<lambda>c. c) (?new, None) 0 (?s, None)"
    by (intro session_step.step_activate) (simp_all add: session_new_def)
  note r1 = session_reach.reach_step [OF session_reach.reach_new this]
  have "as_transaction ?D 1 ?s = (Ok ?t, failed_session\<lparr>txn_depth := 1\<rparr>)"
    by (simp add: as_transaction_def txn_start_def failed_session_def connection_mut_def failing_simps set_connection_def)
  from session_step.step_as_transaction [OF _ this, of fixed_resolver "\<lambda>c. c"]
  have "session_step ?D fixed_resolver (\<lambda>c. c) (?s, None) 0 (failed_session\<lparr>txn_depth := 1\<rparr>, Some ?t)"
    by (simp add: start_leaves_def connection_mut_def)
  note r2 = session_reach.reach_step [OF r1 this]
  have "commit ?D ?t (failed_session\<lparr>txn_depth := 1\<rparr>) = (Err (err_msg storage_kind.Backend ''Error committing transaction''), failed_session)"
    by (simp add: commit_def failed_session_def connection_mut_def failing_simps set_connection_def)
  from session_reach.reach_step [OF r2 session_step.step_commit_fails [OF this]] show ?thesis by simp
qed


text \<open>
  A commit that fails: the transaction stays open on the connection, but the session no longer counts it. When it was the only
  one, the destructor of the session starts no rollback and \<open>close\<close> hands the connection back with the
  transaction; a transaction started on the session later is nested in the one left open, so that its own
  commit does not end it.
\<close>

theorem failed_commit_leaks_transaction:
  assumes "driver_correct D depth" and "session_state s = SessionActive c" and "txn_depth s = 1" and "depth c = 1"
    and "tm_commit D c = (Err e, c1)" and "rollback t"
  shows "\<exists>s'. commit D t s = (Err (err_msg storage_kind.Backend ''Error committing transaction''), s') \<and>
    session_state s' = SessionActive c1 \<and> txn_depth s' = 0 \<and> depth c1 = 1 \<and> session_drop D s' = s' \<and>
    (\<exists>s''. session_close D com s' = (Ok (), Some c1, s''))"
proof -
  have "result_depth depth (\<lambda>n. n - 1) c (tm_commit D c)" using assms(1) by (simp add: driver_correct_def)
  then have "depth c1 = 1" using assms(4,5) by (simp add: result_depth_def)
  moreover have "commit D t s = (Err (err_msg storage_kind.Backend ''Error committing transaction''), set_connection c1 (s\<lparr>txn_depth := 0\<rparr>))"
    using assms(2,3,5,6) by (simp add: commit_def connection_mut_def)
  ultimately show ?thesis by (simp add: session_drop_def session_close_def)
qed

text \<open>
  Closing a session gives its connection back with no open transaction but those left open by failed calls. A transaction session
  is committed or rolled back, as asked, by exactly one call of the transaction manager on its
  connection; another session leaves the connection as it is.
\<close>

theorem session_close_ends_transaction:
  assumes "database_correct D depth" and "resolver_correct init_key depth"
    and "session_reach D init_key depth b n (s, None)" and "session_state s = SessionActive c"
    and "session_close D com s = (Ok (), c', s')"
  shows "\<exists>d. c' = Some d \<and> depth d = n \<and> txn_depth s' = 0 \<and> session_state s' = SessionClosed \<and>
    (if b then (if com then tm_commit D c else tm_rollback D c) = (Ok (), d) else d = c)"
proof -
  have w: "depth c = txn_depth s + n" "txn_depth s = (if b then 1 else 0)"
    using session_reach_wf [OF assms(1-3)] assms(4) by (auto simp: open_txns_def)
  show ?thesis
  proof (cases b)
    case True
    obtain r d where r: "(if com then tm_commit D c else tm_rollback D c) = (r, d)" by fastforce
    have "c' = Some d" "r = Ok ()" "s' = s\<lparr>session_state := SessionClosed, txn_depth := 0\<rparr>"
      using assms(4,5) True w r
      by (cases r; auto simp: session_close_def Let_def)+
    moreover have "depth d = n"
      using commit_depth [OF assms(1), of c r d] r w True \<open>r = Ok ()\<close> by (auto split: if_splits)
    ultimately show ?thesis using r True by simp
  next
    case False
    with assms(4,5) w show ?thesis by (auto simp: session_close_def)
  qed
qed

theorem session_close_ends_transaction_witness:
  "\<exists>c' s'. session_close (sqlite_database counting_driver) True active_session = (Ok (), c', s') \<and>
    (\<exists>d. c' = Some d \<and> d = 0)"
proof -
  obtain c' s' where "session_close (sqlite_database counting_driver) True active_session = (Ok (), c', s')"
    by (simp add: session_close_def active_session_eq sqlite_database_def driver.defs counting_driver_def)
  with session_close_ends_transaction [OF counting_database_correct fixed_resolver_correct active_session_reach _ this]
  show ?thesis by (auto simp: active_session_eq)
qed

text \<open>
  SQLite: when the write that follows \<open>BEGIN\<close> fails, \<open>as_transaction\<close> reports the error but the
  transaction stays open: the session counts none, and closing it hands the connection back with
  the transaction, neither committed nor rolled back.
\<close>

theorem sqlite_failed_start_leaks_transaction:
  assumes "driver_correct T depth" and "session_state s = SessionActive c" and "txn_depth s = 0" and "depth c = 0"
    and "tm_begin T c = (Ok (), c1)" and "noop_write T c1 = (Err e, c2)"
  shows "\<exists>s'. as_transaction (sqlite_database T) pid s =
      (Err (err_msg storage_kind.Backend ''Error starting transaction''), s') \<and>
    session_state s' = SessionActive c2 \<and> txn_depth s' = 0 \<and> depth c2 = 1 \<and>
    (\<exists>s''. session_close (sqlite_database T) com s' = (Ok (), Some c2, s''))"
proof -
  have d: "depth c1 = 1" "depth c2 = depth c1"
    using driver_begin [OF assms(1), of c] driver_noop [OF assms(1), of c1] assms(4-6)
    by (simp_all add: result_depth_def)
  have "as_transaction (sqlite_database T) pid s =
      (Err (err_msg storage_kind.Backend ''Error starting transaction''), set_connection c2 s)"
    using assms(2,3,5,6)
    by (simp add: as_transaction_def txn_start_def connection_mut_def sqlite_database_def driver.defs
        sqlite_start_transaction_def)
  then show ?thesis using d assms(3) by (simp add: session_close_def)
qed

theorem sqlite_failed_start_leaks_transaction_witness:
  "\<exists>T s s'. as_transaction (sqlite_database T :: (unit, nat) ext_database) 1 (s :: (unit, nat, unit) DbSession) =
      (Err (err_msg storage_kind.Backend ''Error starting transaction''), s') \<and>
    session_state s' = SessionActive (1 :: nat) \<and> txn_depth s' = 0"
proof -
  let ?T = "counting_driver\<lparr>noop_write := \<lambda>c. (Err (), c)\<rparr>"
  let ?s = "active_session\<lparr>session_state := SessionActive 0, txn_depth := 0\<rparr>"
  have "driver_correct ?T (\<lambda>c. c)"
    by (simp add: driver_correct_def counting_driver_def result_depth_def)
  then have "\<exists>s'. as_transaction (sqlite_database ?T) 1 ?s =
      (Err (err_msg storage_kind.Backend ''Error starting transaction''), s') \<and>
    session_state s' = SessionActive 1 \<and> txn_depth s' = 0 \<and> (1 :: nat) = 1 \<and>
    (\<exists>s''. session_close (sqlite_database ?T) True s' = (Ok (), Some 1, s''))"
    by (rule sqlite_failed_start_leaks_transaction [where c = 0 and ?c1.0 = 1]) (simp_all add: counting_driver_def)
  then show ?thesis by blast
qed

text \<open>
  The profile name of a session survives no failed key resolution: after one, the next
  activation resolves the empty name.
\<close>

theorem make_active_retry_resolves_empty_name:
  assumes "session_state s = SessionActive c" and "profile_key s = KeyPending cache profile"
    and "init_key c cache profile (in_transaction s) = (Err e, c')"
  shows "\<exists>s'. make_active D init_key s = (Err e, s') \<and>
    (\<forall>pid key c''. init_key c' cache [] (in_transaction s) = (Ok (pid, key), c'') \<longrightarrow>
      fst (make_active D init_key s') = Ok pid)"
proof -
  let ?s = "s\<lparr>profile_key := KeyPending cache []\<rparr>"
  have t: "in_transaction ?s = in_transaction s" "in_transaction (set_connection c' ?s) = in_transaction s"
    using assms(1) by (simp_all add: in_transaction_def)
  have "make_active D init_key s = (Err e, set_connection c' ?s)"
    using assms t(1)
    by (simp add: make_active_def acquire_connection_def resolve_key_def connection_mut_def)
  moreover have "fst (make_active D init_key (set_connection c' ?s)) = Ok pid"
    if "init_key c' cache [] (in_transaction s) = (Ok (pid, key), c'')" for pid key c''
    using that t(2)
    by (simp add: make_active_def acquire_connection_def resolve_key_def connection_mut_def set_connection_def
        in_transaction_def)
  ultimately show ?thesis by blast
qed

theorem make_active_retry_resolves_empty_name_witness:
  fixes res :: "(nat, unit) key_resolver" and s :: "(unit, nat, unit) DbSession"
  defines "res \<equiv> \<lambda>c k p t. (if p = [] then Ok (1, toy_profile_key) else Err (err_of_kind storage_kind.NotFound), c)"
    and "s \<equiv> active_session\<lparr>profile_key := KeyPending () ''p''\<rparr>"
  shows "\<exists>s'. make_active (sqlite_database counting_driver) res s = (Err (err_of_kind storage_kind.NotFound), s') \<and>
    fst (make_active (sqlite_database counting_driver) res s') = Ok 1"
proof -
  have "session_state s = SessionActive 1" "profile_key s = KeyPending () ''p''"
    "res 1 () ''p'' (in_transaction s) = (Err (err_of_kind storage_kind.NotFound), 1)"
    by (simp_all add: s_def active_session_eq res_def)
  from make_active_retry_resolves_empty_name [of s 1 "()" "''p''" res, OF this, of "sqlite_database counting_driver"]
  show ?thesis by (auto simp: res_def)
qed

end
