(* ===== verification/Postgres_Session.thy ===== *)
theory Postgres_Session
  imports Backend_Session
begin

text \<open>
  The sessions of the PostgreSQL backend (\<open>askar-storage/src/backend/postgres/mod.rs\<close>, the implementation of
  \<open>BackendSession\<close>). The tables are those of \<open>Sqlite_Tables\<close>; what differs from SQLite is that the ids
  of new rows are drawn from sequences, which no transaction rolls back, that expiry times are
  compared in full, that a negative limit and the conditions of an empty disjunction or an empty \<open>$in\<close> are errors of the
  statement, and some of the errors. The
  sessions keep the contract \<open>session_contract\<close>, so that what is proved of it holds for both backends.
\<close>

section \<open>Tables and sequences\<close>

text \<open>
  The tables with the last values of the sequences behind \<open>items.id\<close> and \<open>profiles.id\<close>
  (\<open>BIGSERIAL\<close>). A value is drawn before the row is checked against the unique index and the foreign
  key, so that it is used up by a row that is not inserted.
\<close>

record PgDatabase =
  pg_tables :: Database
  item_seq :: int
  profile_seq :: int

definition pg_wf :: "PgDatabase \<Rightarrow> bool" where
  "pg_wf db \<longleftrightarrow> db_wf (pg_tables db) \<and> (\<forall>r \<in> set (items (pg_tables db)). i_id r \<le> item_seq db) \<and>
     (\<forall>p \<in> set (profiles (pg_tables db)). p_id p \<le> profile_seq db)"

text \<open>\<open>INSERT_QUERY\<close>, with \<open>ON CONFLICT DO NOTHING RETURNING id\<close>.\<close>

definition pg_insert_item :: "int \<Rightarrow> nat \<Rightarrow> bytes \<Rightarrow> bytes \<Rightarrow> bytes \<Rightarrow> int option \<Rightarrow> PgDatabase
    \<Rightarrow> (int option, unit) result \<times> PgDatabase" where
  "pg_insert_item pid kind category name value expiry db =
     (let row_id = item_seq db + 1; t = pg_tables db; db = db\<lparr>item_seq := row_id\<rparr> in
      if (pid, kind, category, name) \<in> item_key ` set (items t) then (Ok None, db)
      else if pid \<notin> p_id ` set (profiles t) then (Err (), db)
      else (Ok (Some row_id), db\<lparr>pg_tables := t\<lparr>items := items t @ [\<lparr>i_id = row_id, i_profile = pid, i_kind = kind,
              i_category = category, i_name = name, i_value = value, i_expiry = expiry\<rparr>]\<rparr>\<rparr>))"

text \<open>\<open>expiry IS NULL OR expiry > CURRENT_TIMESTAMP\<close>: the times are not cut to seconds.\<close>

definition pg_unexpired :: "int \<Rightarrow> int option \<Rightarrow> bool" where
  "pg_unexpired now expiry = (case expiry of None \<Rightarrow> True | Some t \<Rightarrow> now < t)"

text \<open>
  The column \<open>tags\<close> of a row: \<open>ARRAY_AGG\<close> over no rows is null, and so is \<open>ARRAY_TO_STRING\<close> of it.
\<close>

definition pg_tags_column :: "hex_codec \<Rightarrow> EncEntryTag list \<Rightarrow> bytes option" where
  "pg_tags_column H ts = (if ts = [] then None else Some (tags_column H ts))"

section \<open>Insert, replace and remove\<close>

definition pg_perform_insert :: "sqlite_env \<Rightarrow> int \<Rightarrow> int \<Rightarrow> EntryKind \<Rightarrow> bytes \<Rightarrow> bytes \<Rightarrow> bytes \<Rightarrow> EncEntryTag list option
    \<Rightarrow> int option \<Rightarrow> bool \<Rightarrow> PgDatabase \<Rightarrow> unit storage_result \<times> PgDatabase" where
  "pg_perform_insert env now pid kind enc_category enc_name enc_value enc_tags expiry_ms new_row db =
     (let on_tables = map_prod id (\<lambda>t. db\<lparr>pg_tables := t\<rparr>) in
      case opt_expiry env now expiry_ms of
        Ok expiry \<Rightarrow>
          if new_row then
            (case pg_insert_item pid (entry_kind_num kind) enc_category enc_name enc_value expiry db of
               (Ok (Some row_id), db) \<Rightarrow>
                 map_prod id (\<lambda>t. db\<lparr>pg_tables := t\<rparr>)
                   (insert_tags row_id (case enc_tags of None \<Rightarrow> [] | Some tags \<Rightarrow> tags) (pg_tables db))
             | (Ok None, db) \<Rightarrow> (Err (err_msg storage_kind.Duplicate ''Duplicate entry''), db)
             | (Err _, db) \<Rightarrow> (sqlx_error, db)
             | (Panic, db) \<Rightarrow> (Panic, db))
          else
            on_tables (case update_item pid (entry_kind_num kind) enc_category enc_name enc_value expiry (pg_tables db) of
               (Some row_id, t) \<Rightarrow>
                 insert_tags row_id (case enc_tags of None \<Rightarrow> [] | Some tags \<Rightarrow> tags) (delete_tags row_id t)
             | (None, t) \<Rightarrow> (Err (err_msg storage_kind.NotFound ''Error updating existing entry''), t))
      | Err e \<Rightarrow> (Err e, db)
      | Panic \<Rightarrow> (Panic, db))"

definition pg_perform_remove :: "int \<Rightarrow> EntryKind \<Rightarrow> bytes \<Rightarrow> bytes \<Rightarrow> bool \<Rightarrow> PgDatabase \<Rightarrow> unit storage_result \<times> PgDatabase" where
  "pg_perform_remove pid kind enc_category enc_name ignore_error db =
     (let (n, t) = delete_items (\<lambda>r. item_key r = (pid, entry_kind_num kind, enc_category, enc_name)) (pg_tables db);
          db = db\<lparr>pg_tables := t\<rparr>
      in if n = 0 \<and> \<not> ignore_error then (Err (err_msg storage_kind.NotFound ''Entry not found''), db)
         else (Ok (), db))"

text \<open>
  \<open>update\<close>. Without an outer transaction an error rolls the tables back, but not the sequences. An error of
  a statement within an outer transaction aborts it; the only statement that can fail is the
  insertion for a profile that does not exist, which the session's lock on the profile row excludes.
\<close>

definition pg_update :: "sqlite_env \<Rightarrow> int \<Rightarrow> acquired \<Rightarrow> bool \<Rightarrow> bytes \<Rightarrow> EntryKind \<Rightarrow> EntryOperation
    \<Rightarrow> string \<Rightarrow> string \<Rightarrow> bytes option \<Rightarrow> EntryTag list option \<Rightarrow> int option \<Rightarrow> PgDatabase
    \<Rightarrow> unit storage_result \<times> PgDatabase" where
  "pg_update env now acquired in_txn nonce kind operation category name value tags expiry_ms db =
     (if operation = Remove then
        (case res_bind acquired (\<lambda>(pid, key).
              res_bind (ee_category (key_encryptor env key) (as_bytes category)) (\<lambda>enc_category.
              res_bind (ee_name (key_encryptor env key) (as_bytes name)) (\<lambda>enc_name.
              Ok (pid, enc_category, enc_name)))) of
           Ok (pid, enc_category, enc_name) \<Rightarrow> pg_perform_remove pid kind enc_category enc_name False db
         | Err e \<Rightarrow> (Err e, db)
         | Panic \<Rightarrow> (Panic, db))
      else
        (case res_bind acquired (\<lambda>(pid, key).
              res_map (Pair pid) (encrypt_update (key_encryptor env key) nonce category name (opt_or value []) tags)) of
           Ok (pid, enc_category, enc_name, enc_value, enc_tags) \<Rightarrow>
             (case pg_perform_insert env now pid kind enc_category enc_name enc_value enc_tags expiry_ms
                (operation = Insert) db of
                (Ok _, db') \<Rightarrow> (Ok (), db')
              | (r, db') \<Rightarrow> (r, if in_txn then db' else db'\<lparr>pg_tables := pg_tables db\<rparr>))
         | Err e \<Rightarrow> (Err e, db)
         | Panic \<Rightarrow> (Panic, db)))"

section \<open>Fetch\<close>

definition pg_fetch :: "sqlite_env \<Rightarrow> int \<Rightarrow> acquired \<Rightarrow> EntryKind \<Rightarrow> string \<Rightarrow> string \<Rightarrow> PgDatabase
    \<Rightarrow> Entry option storage_result" where
  "pg_fetch env now acquired kind category name db =
     res_bind acquired (\<lambda>(pid, key).
     res_bind (ee_category (key_encryptor env key) (as_bytes category)) (\<lambda>enc_category.
     res_bind (ee_name (key_encryptor env key) (as_bytes name)) (\<lambda>enc_name.
     (case find (\<lambda>r. item_key r = (pid, entry_kind_num kind, enc_category, enc_name) \<and> pg_unexpired now (i_expiry r))
        (items (pg_tables db)) of
        Some row \<Rightarrow>
          res_bind (ed_value (key_encryptor env key) (as_bytes category) (as_bytes name) (i_value row)) (\<lambda>value.
          res_bind (case pg_tags_column (se_hex env) (item_tags (i_id row) (pg_tables db)) of
              Some enc_tags \<Rightarrow>
                res_bind (res_map_err (\<lambda>_. err_msg storage_kind.Unexpected ''Error decoding tags'') (decode_tags (se_hex env) enc_tags))
                  (ed_tags (key_encryptor env key))
            | None \<Rightarrow> Ok []) (\<lambda>tags.
          Ok (Some \<lparr>entry_kind = kind, entry_category = category, entry_name = name, entry_value = value,
            entry_tags = tags\<rparr>)))
      | None \<Rightarrow> Ok None))))"

section \<open>Searches\<close>

definition quoted :: "string \<Rightarrow> string" where
  "quoted s = [CHR 0x27] @ s @ [CHR 0x27]"

definition pg_expiry_condition :: string where
  "pg_expiry_condition = ''AND (expiry IS NULL OR expiry > CURRENT_TIMESTAMP)''"

definition PG_COUNT_QUERY :: string where
  "PG_COUNT_QUERY = ''SELECT COUNT(*) FROM items i'' @ nl @ ''WHERE profile_id = $1'' @ nl
     @ ''AND (kind = $2 OR $2 IS NULL)'' @ nl @ ''AND (category = $3 OR $3 IS NULL)'' @ nl @ pg_expiry_condition"

definition PG_SCAN_QUERY :: string where
  "PG_SCAN_QUERY = ''SELECT id, kind, category, name, value,'' @ nl
     @ ''(SELECT ARRAY_TO_STRING(ARRAY_AGG(it.plaintext || '' @ quoted '':'' @ nl @ ''    || ENCODE(it.name, '' @ quoted ''hex'' @ '') || ''
     @ quoted '':'' @ '' || ENCODE(it.value, '' @ quoted ''hex'' @ '')), '' @ quoted '','' @ '')'' @ nl
     @ ''    FROM items_tags it WHERE it.item_id = i.id) tags'' @ nl @ ''FROM items i WHERE profile_id = $1'' @ nl
     @ ''AND (kind = $2 OR $2 IS NULL)'' @ nl @ ''AND (category = $3 OR $3 IS NULL)'' @ nl @ pg_expiry_condition"

definition PG_DELETE_ALL_QUERY :: string where
  "PG_DELETE_ALL_QUERY = ''DELETE FROM items i'' @ nl @ ''WHERE profile_id = $1'' @ nl
     @ ''AND (kind = $2 OR $2 IS NULL)'' @ nl @ ''AND (category = $3 OR $3 IS NULL)''"

definition pg_prepare_search :: "sqlite_env \<Rightarrow> int \<Rightarrow> ProfileKey \<Rightarrow> string \<Rightarrow> EntryKind option \<Rightarrow> string option \<Rightarrow> TagFilter option
    \<Rightarrow> int option \<Rightarrow> int option \<Rightarrow> OrderBy option \<Rightarrow> bool \<Rightarrow> search storage_result" where
  "pg_prepare_search = prepare_search_with postgres_prepare"

text \<open>
  The conditions that the server accepts. \<open>0\<close>, which is written for an empty disjunction and for the negation of an
  empty conjunction, is no boolean, and \<open>IN ()\<close>, which is written for an empty \<open>$in\<close>, is a syntax error: a
  statement with either of them fails, whatever the tables hold. \<open>se_like\<close> is the operator \<open>LIKE\<close> of the server; that it
  refuses a pattern that ends in its escape character, when it comes to match it, is left out.
\<close>

fun pg_clause_ok :: "sql_clause \<Rightarrow> bool" where
  "pg_clause_ok (SqlOp negate op k pfx pt) \<longleftrightarrow> True"
| "pg_clause_ok (SqlIn negate k n pt) \<longleftrightarrow> 0 < n"
| "pg_clause_ok (SqlExist negate k pt) \<longleftrightarrow> True"
| "pg_clause_ok (SqlConj op cs) \<longleftrightarrow> list_all pg_clause_ok cs"
| "pg_clause_ok SqlFalse \<longleftrightarrow> False"

definition pg_accepts :: "search \<Rightarrow> bool" where
  "pg_accepts sr \<longleftrightarrow> (case s_condition sr of None \<Rightarrow> True | Some c \<Rightarrow> pg_clause_ok c)"

definition pg_count :: "sqlite_env \<Rightarrow> int \<Rightarrow> acquired \<Rightarrow> EntryKind option \<Rightarrow> string option \<Rightarrow> TagFilter option
    \<Rightarrow> PgDatabase \<Rightarrow> nat storage_result" where
  "pg_count env now acquired kind category tag_filter db =
     res_bind acquired (\<lambda>(pid, key).
     res_bind (pg_prepare_search env pid key PG_COUNT_QUERY kind category tag_filter None None None False) (\<lambda>sr.
     if \<not> pg_accepts sr then Err (err_msg storage_kind.Backend ''Error performing count query'')
     else Ok (length (filter (\<lambda>r. item_matches env pid kind sr (pg_tables db) r \<and> pg_unexpired now (i_expiry r)) (items (pg_tables db))))))"

definition pg_remove_all :: "sqlite_env \<Rightarrow> acquired \<Rightarrow> EntryKind option \<Rightarrow> string option \<Rightarrow> TagFilter option
    \<Rightarrow> PgDatabase \<Rightarrow> nat storage_result \<times> PgDatabase" where
  "pg_remove_all env acquired kind category tag_filter db =
     (case res_bind acquired (\<lambda>(pid, key).
           res_map (Pair pid) (pg_prepare_search env pid key PG_DELETE_ALL_QUERY kind category tag_filter None None None False)) of
        Ok (pid, sr) \<Rightarrow>
          if \<not> pg_accepts sr then (sqlx_error, db)
          else (let (n, t) = delete_items (item_matches env pid kind sr (pg_tables db)) (pg_tables db) in (Ok n, db\<lparr>pg_tables := t\<rparr>))
      | Err e \<Rightarrow> (Err e, db)
      | Panic \<Rightarrow> (Panic, db))"

definition pg_enc_scan_entry :: "sqlite_env \<Rightarrow> Database \<Rightarrow> ItemRow \<Rightarrow> EncScanEntry storage_result" where
  "pg_enc_scan_entry env t r =
     (let tags = opt_or (pg_tags_column (se_hex env) (item_tags (i_id r) t)) [] in
      res_bind (entry_kind_try_from (i_kind r)) (\<lambda>kind.
      Ok \<lparr>row_kind = kind, row_category = i_category r, row_name = i_name r, row_value = i_value r, row_tags = tags\<rparr>))"

text \<open>
  The server refuses a negative \<open>LIMIT\<close> or \<open>OFFSET\<close> when it executes the statement. With
  \<open>for_update\<close> the rows are locked; the lock does not change what is returned.
\<close>

definition negative_limit :: "int option \<Rightarrow> int option \<Rightarrow> bool" where
  "negative_limit offset limit \<longleftrightarrow> opt_or offset 0 < 0 \<or> opt_or limit 0 < 0"

definition pg_scan_statement :: "bool \<Rightarrow> search \<Rightarrow> search" where
  "pg_scan_statement for_update sr = (if for_update then sr\<lparr>s_query := s_query sr @ '' FOR NO KEY UPDATE''\<rparr> else sr)"

definition pg_perform_scan :: "sqlite_env \<Rightarrow> int \<Rightarrow> int \<Rightarrow> ProfileKey \<Rightarrow> EntryKind option \<Rightarrow> string option \<Rightarrow> TagFilter option
    \<Rightarrow> int option \<Rightarrow> int option \<Rightarrow> OrderBy option \<Rightarrow> bool \<Rightarrow> bool \<Rightarrow> PgDatabase \<Rightarrow> EncScanEntry list storage_result list" where
  "pg_perform_scan env now pid key kind category tag_filter offset limit order_by descending for_update db =
     (let t = pg_tables db in
      case res_map (pg_scan_statement for_update)
          (pg_prepare_search env pid key PG_SCAN_QUERY kind category tag_filter offset limit order_by descending) of
        Ok sr \<Rightarrow>
          if negative_limit offset limit \<or> \<not> pg_accepts sr then [sqlx_error]
          else
            scan_loop (pg_enc_scan_entry env t) []
              (limit_rows offset limit (order_rows env order_by descending
                (filter (\<lambda>r. item_matches env pid kind sr t r \<and> pg_unexpired now (i_expiry r)) (items t))))
      | Err e \<Rightarrow> [Err e]
      | Panic \<Rightarrow> [Panic])"

definition pg_fetch_all :: "sqlite_env \<Rightarrow> int \<Rightarrow> acquired \<Rightarrow> bool \<Rightarrow> EntryKind option \<Rightarrow> string option \<Rightarrow> TagFilter option
    \<Rightarrow> int option \<Rightarrow> OrderBy option \<Rightarrow> bool \<Rightarrow> bool \<Rightarrow> PgDatabase \<Rightarrow> Entry list storage_result" where
  "pg_fetch_all env now acquired in_txn kind category tag_filter limit order_by descending for_update db =
     (let for_update = (for_update \<and> in_txn) in
      res_bind acquired (\<lambda>(pid, key).
      res_bind (collect_pages (pg_perform_scan env now pid key kind category tag_filter None limit order_by descending for_update db)) (\<lambda>enc_rows.
      decrypt_scan_batch (se_hex env) (key_encryptor env key) category enc_rows)))"

definition pg_scan :: "sqlite_env \<Rightarrow> int \<Rightarrow> acquired \<Rightarrow> EntryKind option \<Rightarrow> string option \<Rightarrow> TagFilter option
    \<Rightarrow> int option \<Rightarrow> int option \<Rightarrow> OrderBy option \<Rightarrow> bool \<Rightarrow> PgDatabase \<Rightarrow> Entry Scan storage_result" where
  "pg_scan env now acquired kind category tag_filter offset limit order_by descending db =
     res_bind acquired (\<lambda>(pid, key).
     Ok (scan_new
       (map (\<lambda>enc_rows. res_bind enc_rows (decrypt_scan_batch (se_hex env) (key_encryptor env key) category))
          (pg_perform_scan env now pid key kind category tag_filter offset limit order_by descending False db))
       PAGE_SIZE))"

text \<open>In a transaction the row of the profile is locked and only the connection is tested.\<close>

definition pg_ping :: "acquired \<Rightarrow> bool \<Rightarrow> PgDatabase \<Rightarrow> unit storage_result" where
  "pg_ping acquired in_txn db =
     res_bind acquired (\<lambda>(pid, key).
     if in_txn then Ok ()
     else if pid \<in> p_id ` set (profiles (pg_tables db)) then Ok ()
     else Err (err_msg storage_kind.NotFound ''Session profile has been removed''))"

definition pg_session_ops :: "sqlite_env \<Rightarrow> acquired \<Rightarrow> bool \<Rightarrow> unit storage_result \<Rightarrow> PgDatabase session_ops" where
  "pg_session_ops env acquired in_txn closed =
     \<lparr>bs_count = (\<lambda>now kind category tag_filter db. pg_count env now acquired kind category tag_filter db),
      bs_fetch = (\<lambda>now kind category name for_update db. pg_fetch env now acquired kind category name db),
      bs_fetch_all = (\<lambda>now kind category tag_filter limit order_by descending for_update db.
        pg_fetch_all env now acquired in_txn kind category tag_filter limit order_by descending for_update db),
      bs_remove_all = (\<lambda>kind category tag_filter db. pg_remove_all env acquired kind category tag_filter db),
      bs_update = (\<lambda>now nonce kind operation category name value tags expiry_ms db.
        pg_update env now acquired in_txn nonce kind operation category name value tags expiry_ms db),
      bs_ping = (\<lambda>db. pg_ping acquired in_txn db),
      bs_close = (\<lambda>commit db. (closed, db))\<rparr>"

section \<open>The invariant of tables and sequences\<close>

lemma pg_wf_tables:
  assumes "pg_wf db" "db_wf t" "i_id ` set (items t) \<subseteq> i_id ` set (items (pg_tables db))" "profiles t = profiles (pg_tables db)"
  shows "pg_wf (db\<lparr>pg_tables := t\<rparr>)"
  using assms by (fastforce simp: pg_wf_def)

lemma insert_tags_keeps:
  "insert_tags row_id tags t = (r, t') \<Longrightarrow> items t' = items t \<and> profiles t' = profiles t"
  by (induction tags arbitrary: t) (auto simp: insert_tag_def split: if_splits prod.splits result.splits)

lemma insert_tags_wf: "db_wf t \<Longrightarrow> insert_tags row_id tags t = (r, t') \<Longrightarrow> db_wf t'"
  by (induction tags arbitrary: t) (auto split: prod.splits result.splits dest: insert_tag_wf)

lemma update_item_keeps:
  assumes "update_item pid kind category name value expiry t = (r, t')"
  shows "i_id ` set (items t') = i_id ` set (items t)" "profiles t' = profiles t"
proof -
  let ?f = "\<lambda>r. if item_key r = (pid, kind, category, name) then r\<lparr>i_value := value, i_expiry := expiry\<rparr> else r"
  have "i_id (?f r) = i_id r" for r by simp
  moreover have "items t' = map ?f (items t)" using assms by (auto simp: update_item_def)
  ultimately show "i_id ` set (items t') = i_id ` set (items t)" by (simp only: set_map image_image)
  show "profiles t' = profiles t" using assms by (auto simp: update_item_def)
qed

lemma perform_insert_keeps:
  assumes "db_wf t" "perform_insert env now pid kind ec en ev ot ms False t = (r, t')"
  shows "db_wf t'" "i_id ` set (items t') = i_id ` set (items t)" "profiles t' = profiles t"
proof -
  have "db_wf t' \<and> i_id ` set (items t') = i_id ` set (items t) \<and> profiles t' = profiles t"
  proof (cases "opt_expiry env now ms")
    case (Ok x)
    obtain u t1 where u: "update_item pid (entry_kind_num kind) ec en ev x t = (u, t1)" by fastforce
    note keep = update_item_wf [OF assms(1) u] update_item_keeps [OF u]
    show ?thesis
    proof (cases u)
      case None
      with assms(2) Ok u keep show ?thesis by (simp add: perform_insert_def)
    next
      case (Some i)
      with assms(2) Ok u have "insert_tags i (case ot of None \<Rightarrow> [] | Some tags \<Rightarrow> tags) (delete_tags i t1) = (r, t')"
        by (simp add: perform_insert_def)
      with keep show ?thesis
        using insert_tags_keeps insert_tags_wf [OF delete_tags_wf] by (fastforce simp: delete_tags_def)
    qed
  qed (use assms in \<open>auto simp: perform_insert_def\<close>)
  then show "db_wf t'" "i_id ` set (items t') = i_id ` set (items t)" "profiles t' = profiles t" by simp_all
qed

text \<open>Replacing and removing are the statements of SQLite on the same tables.\<close>

lemma pg_replace_tables:
  "pg_perform_insert env now pid kind ec en ev ot ms False db =
    map_prod id (\<lambda>t. db\<lparr>pg_tables := t\<rparr>) (perform_insert env now pid kind ec en ev ot ms False (pg_tables db))"
  by (simp add: pg_perform_insert_def perform_insert_def split: result.splits)

lemma pg_remove_tables:
  "pg_perform_remove pid kind ec en ignore_error db =
    map_prod id (\<lambda>t. db\<lparr>pg_tables := t\<rparr>) (perform_remove pid kind ec en ignore_error (pg_tables db))"
  by (simp add: pg_perform_remove_def perform_remove_def Let_def split: prod.splits)

lemma delete_items_keeps:
  "delete_items p t = (n, t') \<Longrightarrow> i_id ` set (items t') \<subseteq> i_id ` set (items t) \<and> profiles t' = profiles t"
  by (auto simp: delete_items_def Let_def)

lemma pg_insert_item_wf:
  assumes "pg_wf db" "pg_insert_item pid kind category name value expiry db = (r, db')"
  shows "pg_wf db'" "item_seq db < item_seq db'" "profile_seq db' = profile_seq db"
    "profiles (pg_tables db') = profiles (pg_tables db)"
proof -
  have le: "\<forall>r \<in> set (items (pg_tables db)). i_id r \<le> item_seq db" and wf: "db_wf (pg_tables db)"
    and p: "\<forall>p \<in> set (profiles (pg_tables db)). p_id p \<le> profile_seq db" using assms(1) by (simp_all add: pg_wf_def)
  from le have lt: "\<forall>r \<in> set (items (pg_tables db)). i_id r < item_seq db + 1" by auto
  let ?row = "\<lparr>i_id = item_seq db + 1, i_profile = pid, i_kind = kind, i_category = category, i_name = name, i_value = value, i_expiry = expiry\<rparr>"
  have "pg_tables db' = pg_tables db \<or> pg_tables db' = (pg_tables db)\<lparr>items := items (pg_tables db) @ [?row]\<rparr> \<and>
      (pid, kind, category, name) \<notin> item_key ` set (items (pg_tables db)) \<and> pid \<in> p_id ` set (profiles (pg_tables db))"
    "item_seq db' = item_seq db + 1" "profile_seq db' = profile_seq db"
    using assms(2) by (auto simp: pg_insert_item_def Let_def split: if_splits)
  moreover have "db_wf ((pg_tables db)\<lparr>items := items (pg_tables db) @ [?row]\<rparr>)"
    if "(pid, kind, category, name) \<notin> item_key ` set (items (pg_tables db))" "pid \<in> p_id ` set (profiles (pg_tables db))"
    using wf lt that by (auto simp: db_wf_def item_key_def sorted_wrt_append)
  ultimately show "pg_wf db'" using wf le p by (fastforce simp: pg_wf_def)
  show "item_seq db < item_seq db'" "profile_seq db' = profile_seq db" "profiles (pg_tables db') = profiles (pg_tables db)"
    using assms(2) by (auto simp: pg_insert_item_def Let_def split: if_splits)
qed

section \<open>Simulation\<close>

definition pg_holds :: "sqlite_env \<Rightarrow> ProfileKey \<Rightarrow> int \<Rightarrow> PgDatabase \<Rightarrow> stored list \<Rightarrow> bool" where
  "pg_holds env key pid db st \<longleftrightarrow> sqlite_env_correct env \<and> pg_wf db \<and> represents (key_encryptor env key) pid (pg_tables db) st"

lemma pg_insert_sim:
  assumes holds: "pg_holds env key pid db st"
    and enc: "encryptor_contract.encrypts_to (key_encryptor env key) nonce e ec en ev (case ot of None \<Rightarrow> [] | Some t \<Rightarrow> t)"
    and x: "opt_expiry env now ms = Ok x"
    and r: "pg_perform_insert env now pid (entry_kind e) ec en ev ot ms True db = (r, db')"
  shows "r = fst (spec_insert (e, x) st) \<and> pg_holds env key pid db' (snd (spec_insert (e, x) st)) \<and>
    (r \<noteq> Ok () \<longrightarrow> pg_tables db' = pg_tables db)"
proof -
  let ?X = "key_encryptor env key" and ?t = "pg_tables db" and ?et = "case ot of None \<Rightarrow> [] | Some t \<Rightarrow> t"
  have env: "sqlite_env_correct env" and wf: "pg_wf db" and rep: "represents ?X pid ?t st" using holds by (simp_all add: pg_holds_def)
  note C = env_contract [OF env, of key]
  obtain q db1 where i: "pg_insert_item pid (entry_kind_num (entry_kind e)) ec en ev x db = (q, db1)" by fastforce
  note wf1 = pg_insert_item_wf [OF wf i]
  have pid: "pid \<in> p_id ` set (profiles ?t)" using rep by (simp add: represents_def)
  have has: "(pid, entry_kind_num (entry_kind e), ec, en) \<in> item_key ` set (items ?t) \<longleftrightarrow> spec_has (entry_key e) st"
    using encryptor_contract.represents_has [OF C rep, of "entry_category e" "entry_name e" ec en "entry_kind e"] enc
    by (simp add: encryptor_contract.encrypts_to_def [OF C] entry_key_def valid_entry_def)
  show ?thesis
  proof (cases "spec_has (entry_key e) st")
    case True
    then have "db1 = db\<lparr>item_seq := item_seq db + 1\<rparr>" "r = Err (err_msg storage_kind.Duplicate ''Duplicate entry'')" "db' = db1"
      using r i has x by (auto simp: pg_insert_item_def pg_perform_insert_def Let_def)
    with True env rep wf1(1) show ?thesis by (simp add: spec_insert_def pg_holds_def)
  next
    case False
    let ?id = "item_seq db + 1"
    let ?row = "\<lparr>i_id = ?id, i_profile = pid, i_kind = entry_kind_num (entry_kind e), i_category = ec, i_name = en, i_value = ev, i_expiry = x\<rparr>"
    have q: "q = Ok (Some ?id)" and t1: "pg_tables db1 = ?t\<lparr>items := items ?t @ [?row]\<rparr>"
      using False has pid i by (auto simp: pg_insert_item_def Let_def)
    let ?t2 = "(pg_tables db1)\<lparr>items_tags := items_tags (pg_tables db1) @ map (\<lambda>t. \<lparr>t_item = ?id, t_tag = t\<rparr>) ?et\<rparr>"
    have r': "r = Ok ()" and db': "db' = db1\<lparr>pg_tables := ?t2\<rparr>"
      using r x i q insert_tags_Ok [of ?id "pg_tables db1" ?et] t1 by (auto simp: pg_perform_insert_def Let_def)
    have "\<forall>r \<in> set (items ?t). i_id r < ?id" using wf by (auto simp: pg_wf_def)
    from encryptor_contract.represents_new_row [OF C rep enc this _ refl] False has
    have rep': "represents ?X pid ?t2 (st @ [(e, x)])" by (simp add: t1)
    have "pg_wf db'" unfolding db' by (rule pg_wf_tables [OF wf1(1)]) (use rep' in \<open>simp_all add: represents_def\<close>)
    with False r' rep' env show ?thesis by (simp add: spec_insert_def pg_holds_def db')
  qed
qed

lemma pg_replace_sim:
  assumes holds: "pg_holds env key pid db st"
    and enc: "encryptor_contract.encrypts_to (key_encryptor env key) nonce e ec en ev (case ot of None \<Rightarrow> [] | Some t \<Rightarrow> t)"
    and x: "opt_expiry env now ms = Ok x"
    and r: "pg_perform_insert env now pid (entry_kind e) ec en ev ot ms False db = (r, db')"
  shows "r = fst (spec_replace (e, x) st) \<and> pg_holds env key pid db' (snd (spec_replace (e, x) st))"
proof -
  have env: "sqlite_env_correct env" and wf: "pg_wf db" and rep: "represents (key_encryptor env key) pid (pg_tables db) st"
    using holds by (simp_all add: pg_holds_def)
  obtain t where t: "perform_insert env now pid (entry_kind e) ec en ev ot ms False (pg_tables db) = (r, t)" "db' = db\<lparr>pg_tables := t\<rparr>"
    using r by (cases "perform_insert env now pid (entry_kind e) ec en ev ot ms False (pg_tables db)") (auto simp: pg_replace_tables)
  have "pg_wf db'"
    unfolding t(2) using perform_insert_keeps [OF _ t(1)] wf by (intro pg_wf_tables [OF wf]) (simp_all add: pg_wf_def)
  with encryptor_contract.perform_insert_existing [OF env_contract [OF env] rep enc x refl t(1)] env show ?thesis
    by (simp add: pg_holds_def t(2))
qed

lemma pg_remove_sim:
  assumes holds: "pg_holds env key pid db st" and v: "valid_str c" "valid_str n"
    and enc: "ee_category (key_encryptor env key) (as_bytes c) = Ok ec" "ee_name (key_encryptor env key) (as_bytes n) = Ok en"
    and r: "pg_perform_remove pid kind ec en False db = (r, db')"
  shows "r = fst (spec_remove (kind, c, n) st) \<and> pg_holds env key pid db' (snd (spec_remove (kind, c, n) st))"
proof -
  have env: "sqlite_env_correct env" and wf: "pg_wf db" and rep: "represents (key_encryptor env key) pid (pg_tables db) st"
    using holds by (simp_all add: pg_holds_def)
  obtain t where t: "perform_remove pid kind ec en False (pg_tables db) = (r, t)" "db' = db\<lparr>pg_tables := t\<rparr>"
    using r by (cases "perform_remove pid kind ec en False (pg_tables db)") (auto simp: pg_remove_tables)
  obtain n' t' where "delete_items (\<lambda>r. item_key r = (pid, entry_kind_num kind, ec, en)) (pg_tables db) = (n', t')" by fastforce
  moreover from this t(1) have "t' = t" by (auto simp: perform_remove_def split: if_splits)
  ultimately have "pg_wf db'"
    unfolding t(2) using wf delete_items_wf delete_items_keeps by (intro pg_wf_tables [OF wf]) (auto simp: pg_wf_def)
  with encryptor_contract.perform_remove_sim [OF env_contract [OF env] rep v enc t(1)] env show ?thesis by (simp add: pg_holds_def t(2))
qed

lemma pg_update_sim:
  assumes holds: "pg_holds env key pid db st" and e: "e = update_entry kind category name value tags" and v: "valid_entry e"
    and enc: "encrypt_update (key_encryptor env key) nonce category name (opt_or value []) tags = Ok enc"
    and x: "opt_expiry env now expiry_ms = Ok x"
    and r: "pg_update env now (Ok (pid, key)) in_txn nonce kind op category name value tags expiry_ms db = (r, db')"
  shows "r = fst (spec_update op (e, x) st) \<and> pg_holds env key pid db' (snd (spec_update op (e, x) st))"
proof -
  have env: "sqlite_env_correct env" using holds by (simp add: pg_holds_def)
  obtain ec en ev ot where enc': "enc = (ec, en, ev, ot)" by (cases enc) auto
  note E = encrypt_update_Ok [OF enc [unfolded enc'] v e env]
  have ek: "entry_kind e = kind" "entry_key e = (kind, category, name)" by (simp_all add: e update_entry_def entry_key_def)
  have k: "valid_str category" "valid_str name" "ee_category (key_encryptor env key) (as_bytes category) = Ok ec"
    "ee_name (key_encryptor env key) (as_bytes name) = Ok en"
    using e v enc enc' by (auto simp: valid_entry_def update_entry_def encrypt_update_def result_simps)
  obtain r1 db1 where p: "pg_perform_insert env now pid kind ec en ev ot expiry_ms (op = Insert) db = (r1, db1)" by fastforce
  have upd: "op \<noteq> Remove \<Longrightarrow> (r, db') = (case (r1, db1) of (Ok _, db') \<Rightarrow> (Ok (), db')
      | (r, db') \<Rightarrow> (r, if in_txn then db' else db'\<lparr>pg_tables := pg_tables db\<rparr>))"
    using enc r p enc' by (simp add: pg_update_def)
  have keep: "pg_tables db1 = pg_tables db \<Longrightarrow> db1\<lparr>pg_tables := pg_tables db\<rparr> = db1" by (cases db1) auto
  show ?thesis
  proof (cases op)
    case Insert
    note s = pg_insert_sim [OF holds E x] p [unfolded Insert ek(1) [symmetric]]
    with upd Insert show ?thesis by (auto simp: spec_update_def spec_insert_def keep split: if_splits)
  next
    case Replace
    have "r1 = fst (spec_replace (e, x) st) \<and> pg_holds env key pid db1 (snd (spec_replace (e, x) st))"
      using pg_replace_sim [OF holds E x] p Replace ek by simp
    moreover have "db1\<lparr>pg_tables := pg_tables db\<rparr> = db"
      using p Replace by (auto simp: pg_replace_tables map_prod_def split: prod.splits)
    ultimately show ?thesis using upd Replace holds
      by (auto simp: spec_update_def spec_replace_def split: if_splits)
  next
    case Remove
    then have "pg_perform_remove pid kind ec en False db = (r, db')" using r k by (simp add: pg_update_def)
    from pg_remove_sim [OF holds k this] Remove ek show ?thesis by (simp add: spec_update_def)
  qed
qed

lemma pg_update_cases:
  assumes "pg_holds env key pid db st" and "e = update_entry kind category name value tags" and "valid_entry e"
    and "pg_update env now (Ok (pid, key)) in_txn nonce kind op category name value tags expiry_ms db = (r, db')"
  shows "r \<noteq> Ok () \<and> db' = db \<or>
    (\<exists>x. r = fst (spec_update op (e, x) st) \<and> pg_holds env key pid db' (snd (spec_update op (e, x) st)))"
proof (cases "op = Remove")
  case True
  note upd = assms(4) [unfolded True]
  have v: "valid_str category" "valid_str name" using assms(2,3) by (simp_all add: valid_entry_def update_entry_def)
  have k: "entry_key e = (kind, category, name)" by (simp add: assms(2) update_entry_def entry_key_def)
  show ?thesis
  proof (cases "ee_category (key_encryptor env key) (as_bytes category)")
    case (Ok ec)
    show ?thesis
    proof (cases "ee_name (key_encryptor env key) (as_bytes name)")
      case (Ok en)
      with upd \<open>ee_category _ _ = Ok ec\<close> have "pg_perform_remove pid kind ec en False db = (r, db')" by (simp add: pg_update_def)
      from pg_remove_sim [OF assms(1) v \<open>ee_category _ _ = Ok ec\<close> Ok this] show ?thesis by (simp add: True spec_update_def k)
    qed (use upd Ok in \<open>auto simp: pg_update_def\<close>)
  qed (use upd in \<open>auto simp: pg_update_def\<close>)
next
  case False
  show ?thesis
  proof (cases "encrypt_update (key_encryptor env key) nonce category name (opt_or value []) tags")
    case (Ok enc)
    show ?thesis
    proof (cases "opt_expiry env now expiry_ms")
      case (Ok x)
      from pg_update_sim [OF assms(1-3) \<open>encrypt_update _ _ _ _ _ _ = Ok enc\<close> Ok assms(4)] show ?thesis by blast
    qed (use assms(4) False Ok in \<open>cases enc; auto simp: pg_update_def pg_perform_insert_def\<close>)+
  qed (use assms(4) False in \<open>auto simp: pg_update_def\<close>)
qed

lemma pg_update_OkD:
  assumes "pg_update env now (Ok (pid, key)) in_txn nonce kind op category name value tags expiry_ms db = (Ok (), db')" "op \<noteq> Remove"
  shows "\<exists>enc. encrypt_update (key_encryptor env key) nonce category name (opt_or value []) tags = Ok enc"
    and "\<exists>x. opt_expiry env now expiry_ms = Ok x"
proof -
  obtain enc where enc: "encrypt_update (key_encryptor env key) nonce category name (opt_or value []) tags = Ok enc"
    using assms by (cases "encrypt_update (key_encryptor env key) nonce category name (opt_or value []) tags") (simp_all add: pg_update_def)
  then show "\<exists>enc. encrypt_update (key_encryptor env key) nonce category name (opt_or value []) tags = Ok enc" by blast
  show "\<exists>x. opt_expiry env now expiry_ms = Ok x"
    using assms enc by (cases "opt_expiry env now expiry_ms"; cases enc) (auto simp: pg_update_def pg_perform_insert_def)
qed

lemma pg_fetch_sim:
  assumes holds: "pg_holds env key pid db st" and v: "valid_str category" "valid_str name"
    and enc: "ee_category (key_encryptor env key) (as_bytes category) = Ok ec" "ee_name (key_encryptor env key) (as_bytes name) = Ok en"
  shows "pg_fetch env now (Ok (pid, key)) kind category name db = Ok (spec_fetch (pg_unexpired now) (kind, category, name) st)"
proof -
  let ?X = "key_encryptor env key"
  let ?row = "find (\<lambda>r. item_key r = (pid, entry_kind_num kind, ec, en) \<and> pg_unexpired now (i_expiry r)) (items (pg_tables db))"
  let ?s = "find (\<lambda>s. entry_key (fst s) = (kind, category, name) \<and> visible (pg_unexpired now) s) st"
  have env: "sqlite_env_correct env" and rep: "represents ?X pid (pg_tables db) st" using holds by (simp_all add: pg_holds_def)
  note C = env_contract [OF env, of key]
  have H: "hex_codec_correct (se_hex env)" using env by (simp add: sqlite_env_correct_def)
  have rel: "rel_option (\<lambda>r s. i_profile r = pid \<and> row_of ?X (pg_tables db) r s) ?row ?s"
    by (rule encryptor_contract.fetch_row [OF C rep H v enc])
  show ?thesis
  proof (cases ?s)
    case None
    with rel show ?thesis by (simp add: pg_fetch_def enc spec_fetch_def)
  next
    case (Some s)
    with rel obtain r where r: "?row = Some r" "row_of ?X (pg_tables db) r s" by (auto simp: option_rel_Some2)
    have k: "entry_kind (fst s) = kind" "entry_category (fst s) = category" "entry_name (fst s) = name"
      using Some by (auto simp: find_Some_iff entry_key_def)
    note d = encryptor_contract.row_of_decrypts [OF C r(2) H]
    have none: "ed_tags ?X [] = Ok []" by (simp add: profile_encryptor_def)
    show ?thesis
      using d k none by (auto simp: pg_fetch_def enc r(1) Some spec_fetch_def pg_tags_column_def)
  qed
qed

lemma pg_enc_scan_entry_eq [simp]: "pg_enc_scan_entry = enc_scan_entry"
  by (auto simp: fun_eq_iff pg_enc_scan_entry_def enc_scan_entry_def pg_tags_column_def opt_or_def tags_column_def Let_def)

lemma pg_count_sim:
  assumes holds: "pg_holds env key pid db st" and cat: "\<forall>c. category = Some c \<longrightarrow> valid_str c" and flt: "filter_exact tag_filter"
    and sr: "pg_prepare_search env pid key PG_COUNT_QUERY kind category tag_filter None None None False = Ok sr" and ok: "pg_accepts sr"
  shows "pg_count env now (Ok (pid, key)) kind category tag_filter db =
    Ok (length (spec_select (se_like env) (pg_unexpired now) kind category (filter_tag_query tag_filter) st))"
proof -
  have env: "sqlite_env_correct env" "represents (key_encryptor env key) pid (pg_tables db) st" using holds by (simp_all add: pg_holds_def)
  from selected_rows [OF env prepare_search_OkD [OF sr [unfolded pg_prepare_search_def]] _ flt, where live = "pg_unexpired now"] cat show ?thesis
    by (auto simp: pg_count_def sr ok spec_select_def dest: list_all2_lengthD)
qed

lemma pg_remove_all_sim:
  assumes holds: "pg_holds env key pid db st" and cat: "\<forall>c. category = Some c \<longrightarrow> valid_str c" and flt: "filter_exact tag_filter"
    and sr: "pg_prepare_search env pid key PG_DELETE_ALL_QUERY kind category tag_filter None None None False = Ok sr" and ok: "pg_accepts sr"
    and spec: "spec = spec_remove_all (se_like env) kind category (filter_tag_query tag_filter) st"
  shows "\<exists>db'. pg_remove_all env (Ok (pid, key)) kind category tag_filter db = (Ok (fst spec), db') \<and> pg_holds env key pid db' (snd spec)"
proof -
  let ?m = "\<lambda>s. spec_matches (se_like env) kind category (filter_tag_query tag_filter) (fst s)" and ?t = "pg_tables db"
  have env: "sqlite_env_correct env" and wf: "pg_wf db" and rep: "represents (key_encryptor env key) pid ?t st"
    using holds by (simp_all add: pg_holds_def)
  obtain n t' where d: "delete_items (item_matches env pid kind sr ?t) ?t = (n, t')" by fastforce
  have "represents (key_encryptor env key) pid t' (filter (\<lambda>s. \<not> ?m s) st) \<and> n = length (filter ?m st)"
  proof (rule represents_delete [OF rep d])
    show "item_matches env pid kind sr ?t r = ?m s"
      if "r \<in> set (profile_items pid ?t)" "row_of (key_encryptor env key) ?t r s" for r s
      using item_matches_sim [OF env prepare_search_OkD [OF sr [unfolded pg_prepare_search_def]] _ flt, where r = r and db = "?t" and s = s] cat that by (simp add: profile_items_def)
    show "i_profile r = pid" if "item_matches env pid kind sr ?t r" for r using that by (simp add: item_matches_def)
  qed
  moreover have "pg_wf (db\<lparr>pg_tables := t'\<rparr>)"
    using delete_items_wf [OF _ d] delete_items_keeps [OF d] wf by (intro pg_wf_tables [OF wf]) (simp_all add: pg_wf_def)
  ultimately show ?thesis using d sr env ok by (simp add: pg_remove_all_def spec_remove_all_def spec pg_holds_def)
qed

lemma item_matches_scan_statement [simp]: "item_matches env pid kind (pg_scan_statement for_update sr) t r = item_matches env pid kind sr t r"
  by (simp add: item_matches_def pg_scan_statement_def)

lemma pg_accepts_scan_statement [simp]: "pg_accepts (pg_scan_statement for_update sr) = pg_accepts sr"
  by (simp add: pg_accepts_def pg_scan_statement_def)

lemma pg_scan_sim:
  assumes holds: "pg_holds env key pid db st" and cat: "\<forall>c. category = Some c \<longrightarrow> valid_str c" and flt: "filter_exact tag_filter"
    and sr: "pg_prepare_search env pid key PG_SCAN_QUERY kind category tag_filter offset limit order_by descending = Ok sr"
    and lim: "\<not> (negative_limit offset limit \<or> \<not> pg_accepts sr)"
    and sel: "sel = spec_select (se_like env) (pg_unexpired now) kind category (filter_tag_query tag_filter) st"
  shows "\<exists>es. mset es = mset sel \<and> (order_by = Some Id \<longrightarrow> es = (if descending then rev sel else sel)) \<and>
    (offset = None \<longrightarrow> pg_fetch_all env now (Ok (pid, key)) in_txn kind category tag_filter limit order_by descending for_update db =
      Ok (limit_rows None limit es)) \<and>
    (\<exists>sc. pg_scan env now (Ok (pid, key)) kind category tag_filter offset limit order_by descending db = Ok sc \<and>
      scan_all sc = Ok (limit_rows offset limit es))"
proof -
  let ?X = "key_encryptor env key"
  have env: "sqlite_env_correct env" "represents ?X pid (pg_tables db) st" using holds by (simp_all add: pg_holds_def)
  obtain es xs where es: "mset es = mset sel" "order_by = Some Id \<longrightarrow> es = (if descending then rev sel else sel)"
    and scan: "scan_loop (enc_scan_entry env (pg_tables db)) [] (limit_rows offset limit (order_rows env order_by descending
      (filter (\<lambda>r. item_matches env pid kind sr (pg_tables db) r \<and> pg_unexpired now (i_expiry r)) (items (pg_tables db))))) =
      map Ok (paginate PAGE_SIZE [] xs)"
    and dec: "list_all2 (\<lambda>x e. decrypt_scan_entry (se_hex env) ?X category x = Ok e) xs (limit_rows offset limit es)"
    using scan_pages_sim [OF env cat flt prepare_search_OkD [OF sr [unfolded pg_prepare_search_def]], where live = "pg_unexpired now" and kind = kind and order_by = order_by and descending = descending and offset = offset and limit = limit]
    unfolding sel by blast
  have pages: "pg_perform_scan env now pid key kind category tag_filter offset limit order_by descending u db = map Ok (paginate PAGE_SIZE [] xs)" for u
    using lim by (simp add: pg_perform_scan_def Let_def sr scan)
  from pages_deliver [OF dec pages] es show ?thesis by (auto simp: pg_fetch_all_def pg_scan_def)
qed

section \<open>The contract of a session\<close>

definition pg_posed :: "sqlite_env \<Rightarrow> int \<Rightarrow> ProfileKey \<Rightarrow> EntryKind option \<Rightarrow> string option \<Rightarrow> TagFilter option \<Rightarrow> int option
    \<Rightarrow> OrderBy option \<Rightarrow> bool \<Rightarrow> bool" where
  "pg_posed env pid key kind c f limit order_by descending \<longleftrightarrow>
     (\<forall>s. c = Some s \<longrightarrow> valid_str s) \<and> filter_exact f \<and> \<not> negative_limit None limit \<and>
     (\<forall>base. \<exists>sr. pg_prepare_search env pid key base kind c f None limit order_by descending = Ok sr \<and> pg_accepts sr)"

interpretation pg_session: session_contract "pg_session_ops env (Ok (pid, key)) in_txn closed" "pg_holds env key pid"
    "sqlite_storable env key" "sqlite_addressed env key" "pg_posed env pid key" "opt_expiry env" "se_like env" pg_unexpired
  for env pid key in_txn closed
proof (unfold_locales, goal_cases)
  case (1 d st operation nonce kind c n v tags now ms x r st')
  let ?e = "update_entry kind c n v tags"
  have v: "valid_entry ?e" "\<exists>enc. encrypt_update (key_encryptor env key) nonce c n (opt_or v []) tags = Ok enc"
    using 1(3) encrypt_update_tags by (auto simp: sqlite_storable_def update_entry_def)
  with pg_update_sim [OF 1(1) refl v(1) _ 1(4) prod.collapse [symmetric], of nonce _ in_txn operation] 1(5)
  show ?case by (auto simp: pg_session_ops_def prod_eq_iff)
next
  case (2 d st c n kind r st' now nonce v tags ms)
  then obtain ec en where k: "valid_str c" "valid_str n" "ee_category (key_encryptor env key) (as_bytes c) = Ok ec"
      "ee_name (key_encryptor env key) (as_bytes n) = Ok en" by (auto simp: sqlite_addressed_def)
  from pg_remove_sim [OF 2(1) k prod.collapse [symmetric], of kind] 2(3) k show ?case
    by (auto simp: pg_session_ops_def pg_update_def prod_eq_iff)
next
  case (3 d st c n now kind for_update)
  with pg_fetch_sim show ?case by (auto simp: pg_session_ops_def sqlite_addressed_def)
next
  case (4 d st kinds cat f limit order_by descending now for_update)
  then obtain sr where sr: "pg_prepare_search env pid key PG_SCAN_QUERY kinds cat f None limit order_by descending = Ok sr" "pg_accepts sr"
    unfolding pg_posed_def by blast
  from pg_scan_sim [OF 4(1) _ _ sr(1) _ refl, of now in_txn for_update] 4(2) sr(2) show ?case
    by (auto simp: pg_session_ops_def pg_posed_def)
next
  case (5 d st kinds cat f now)
  then obtain sr where sr: "pg_prepare_search env pid key PG_COUNT_QUERY kinds cat f None None None False = Ok sr" "pg_accepts sr"
    unfolding pg_posed_def by blast
  from pg_count_sim [OF 5(1) _ _ sr] 5(2) show ?case by (simp add: pg_session_ops_def pg_posed_def)
next
  case (6 d st kinds cat f k st')
  then obtain sr where sr: "pg_prepare_search env pid key PG_DELETE_ALL_QUERY kinds cat f None None None False = Ok sr" "pg_accepts sr"
    unfolding pg_posed_def by blast
  from pg_remove_all_sim [OF 6(1) _ _ sr refl] 6(2,3) show ?case by (auto simp: pg_session_ops_def pg_posed_def)
next
  case (7 now)
  show ?case by (simp add: opt_expiry_def)
next
  case (8 now)
  show ?case by (simp add: pg_unexpired_def)
next
  case (9 d st kind c n v tags now nonce operation ms r d')
  with pg_update_cases [OF 9(1) refl, of kind c n v tags now in_txn nonce operation ms r d'] show ?case
    by (simp add: pg_session_ops_def)
next
  case (10 now nonce kind operation c n v tags ms d d')
  note u = pg_update_OkD [OF _ 10(2), of env now pid key in_txn nonce kind c n v tags ms d d']
  have "\<exists>enc. encrypt_update (key_encryptor env key) nonce c n (opt_or v []) (Some (opt_or tags [])) = Ok enc"
    using u(1) 10(1) by (cases tags) (auto simp: pg_session_ops_def encrypt_update_def opt_or_def result_simps profile_encryptor_def)
  with u(2) 10(1,3) show ?case by (auto simp: pg_session_ops_def sqlite_storable_def update_entry_def opt_or_def)
next
  case (11 nonce e)
  then show ?case by (auto simp: sqlite_storable_def sqlite_addressed_def valid_entry_def encrypt_update_def result_simps)
next
  case (12 d st s)
  then have "list_all2 (row_of (key_encryptor env key) (pg_tables d)) (profile_items pid (pg_tables d)) st" by (simp add: pg_holds_def represents_def)
  with 12(2) show ?case by (auto simp: in_set_conv_nth list_all2_conv_all_nth row_of_def Let_def)
qed

text \<open>
  C4. The \<open>update\<close> of a PostgreSQL session implements the same specification as that of a SQLite session:
  inserting, replacing and removing returns the specified result, \<open>Duplicate\<close> and \<open>NotFound\<close> included, and
  leaves tables that represent the specified list under the invariant of the sequences; in a transaction of its own
  or within an outer one.
\<close>

theorem postgres_update_refines:
  assumes "pg_holds env key pid db st" and "e = update_entry kind category name value tags" and "valid_entry e"
    and "encrypt_update (key_encryptor env key) nonce category name (opt_or value []) tags = Ok enc"
    and "opt_expiry env now expiry_ms = Ok x"
    and "pg_update env now (Ok (pid, key)) in_txn nonce kind op category name value tags expiry_ms db = (r, db')"
  shows "r = fst (spec_update op (e, x) st) \<and> pg_holds env key pid db' (snd (spec_update op (e, x) st))"
  by (rule pg_update_sim [OF assms])

definition toy_pg_db :: PgDatabase where
  "toy_pg_db = \<lparr>pg_tables = toy_db, item_seq = 0, profile_seq = 1\<rparr>"

definition toy_pg_store :: PgDatabase where
  "toy_pg_store = snd (pg_update toy_sqlite_env 0 (Ok (1, toy_profile_key)) False (replicate 12 2) Item Insert
     ''c'' ''n'' (Some [1]) (Some [PlaintextTag ''p'' ''t'']) (Some 5000) toy_pg_db)"

lemma toy_pg_db_holds: "pg_holds toy_sqlite_env toy_profile_key 1 toy_pg_db []"
  using toy_sqlite_env_correct toy_db_represents by (simp add: pg_holds_def pg_wf_def toy_pg_db_def represents_def) (simp add: toy_db_def)

lemma toy_pg_store_holds: "pg_holds toy_sqlite_env toy_profile_key 1 toy_pg_store [(toy_entry, Some 5000)]"
proof -
  have "opt_expiry toy_sqlite_env 0 (Some 5000) = Ok (Some 5000)"
    by (simp add: opt_expiry_def expiry_timestamp_def toy_sqlite_env_def)
  from pg_update_sim [OF toy_pg_db_holds toy_entry_update toy_entry_valid _ this prod.collapse [symmetric],
      of "replicate 12 2" _ False Insert] toy_encrypt_update
  show ?thesis by (simp add: toy_pg_store_def opt_or_def spec_update_def spec_insert_def spec_has_def)
qed

theorem postgres_update_refines_witness:
  "fst (pg_update toy_sqlite_env 0 (Ok (1, toy_profile_key)) True (replicate 12 2) Item Insert
      ''c'' ''n'' (Some [1]) (Some [PlaintextTag ''p'' ''t'']) None toy_pg_store) =
    Err (err_msg storage_kind.Duplicate ''Duplicate entry'')"
proof -
  have x: "opt_expiry toy_sqlite_env 0 None = Ok None" by (simp add: opt_expiry_def)
  from postgres_update_refines [OF toy_pg_store_holds toy_entry_update toy_entry_valid _ x prod.collapse [symmetric],
      of "replicate 12 2" _ True Insert] toy_encrypt_update
  show ?thesis by (simp add: opt_or_def spec_update_def spec_insert_def spec_has_def)
qed

text \<open>
  The same condition, read off the query: no empty disjunction, no negated empty conjunction and no empty \<open>In\<close>, where
  parts that encode to nothing do not count.
\<close>

fun pg_query_ok :: "bool \<Rightarrow> TagQuery \<Rightarrow> bool" where
  "pg_query_ok neg (And qs) \<longleftrightarrow> list_all (pg_query_ok neg) qs \<and> (neg \<longrightarrow> \<not> list_all (encodes_none neg) qs)"
| "pg_query_ok neg (Or qs) \<longleftrightarrow> list_all (pg_query_ok neg) qs \<and> (\<not> neg \<longrightarrow> \<not> list_all (encodes_none neg) qs)"
| "pg_query_ok neg (NotQ q) \<longleftrightarrow> pg_query_ok (\<not> neg) q"
| "pg_query_ok neg (In n vs) \<longleftrightarrow> vs \<noteq> []"
| "pg_query_ok neg q \<longleftrightarrow> True"

definition clause_fits :: "bool \<Rightarrow> bool \<Rightarrow> sql_clause option \<Rightarrow> bool" where
  "clause_fits none ok r \<longleftrightarrow> (r = None) = none \<and> (case r of None \<Rightarrow> True | Some c \<Rightarrow> pg_clause_ok c) = ok"

lemma encode_each_fits:
  assumes "\<And>q s r t. q \<in> set qs \<Longrightarrow> f q s = Ok (r, t) \<Longrightarrow> clause_fits (N q) (K q) r" and "encode_each f qs s = Ok (cs, t)"
  shows "(cs = []) = list_all N qs \<and> list_all pg_clause_ok cs = list_all K qs"
  using assms
proof (induction qs arbitrary: s cs)
  case (Cons q qs)
  then obtain r u cs' where r: "f q s = Ok (r, u)" "encode_each f qs u = Ok (cs', t)" "cs = (case r of None \<Rightarrow> cs' | Some c \<Rightarrow> c # cs')"
    by (auto simp: result_simps)
  have "clause_fits (N q) (K q) r" using Cons.prems(1) r(1) by simp
  moreover have "(cs' = []) = list_all N qs \<and> list_all pg_clause_ok cs' = list_all K qs"
    by (rule Cons.IH [OF _ r(2)]) (rule Cons.prems(1), simp_all)
  ultimately show ?case using r(3) by (auto simp: clause_fits_def split: option.splits)
qed simp

lemma encode_values_length: "encode_values enc pt vs s = Ok (as, t) \<Longrightarrow> length as = length vs"
  by (induction vs arbitrary: s as) (auto simp: result_simps)

lemma encode_fits:
  "encode_tag_query (TagAstEncoder en ev) q neg s = Ok (r, t) \<Longrightarrow> clause_fits (encodes_none neg q) (pg_query_ok neg q) r"
proof (induction q arbitrary: neg s r t)
  case (And qs)
  then obtain cs u where cs: "encode_each (\<lambda>q s. encode_tag_query (TagAstEncoder en ev) q neg s) qs s = Ok (cs, u)"
    "ast_conj_clause u (if neg then negate_conj CAnd else CAnd) cs = Ok (r, t)" by (auto simp: result_simps)
  have "(cs = []) = list_all (encodes_none neg) qs \<and> list_all pg_clause_ok cs = list_all (pg_query_ok neg) qs"
    by (rule encode_each_fits [OF _ cs(1)]) (rule And.IH)
  with cs(2) show ?case by (auto simp: ast_conj_clause_def clause_fits_def split: if_splits)
next
  case (Or qs)
  then obtain cs u where cs: "encode_each (\<lambda>q s. encode_tag_query (TagAstEncoder en ev) q neg s) qs s = Ok (cs, u)"
    "ast_conj_clause u (if neg then negate_conj COr else COr) cs = Ok (r, t)" by (auto simp: result_simps)
  have "(cs = []) = list_all (encodes_none neg) qs \<and> list_all pg_clause_ok cs = list_all (pg_query_ok neg) qs"
    by (rule encode_each_fits [OF _ cs(1)]) (rule Or.IH)
  with cs(2) show ?case by (auto simp: ast_conj_clause_def clause_fits_def split: if_splits)
next
  case (Exist ns)
  have one: "clause_fits False True r" if "encode_tag_exist_one (TagAstEncoder en ev) neg n s = Ok (r, t)" for n s r t
    using that by (auto simp: encode_tag_exist_one_def ast_exist_clause_def clause_fits_def result_simps)
  show ?case
  proof (cases ns rule: remdups_adj.cases)
    case (3 x y xs)
    with Exist.prems obtain cs u where cs: "encode_each (encode_tag_exist_one (TagAstEncoder en ev) neg) ns s = Ok (cs, u)"
      "ast_conj_clause u CAnd cs = Ok (r, t)" by (auto simp: encode_tag_exist_def result_simps)
    have "(cs = []) = list_all (\<lambda>_. False) ns \<and> list_all pg_clause_ok cs = list_all (\<lambda>_. True) ns"
      by (rule encode_each_fits [OF _ cs(1)]) (rule one)
    moreover have "list_all (\<lambda>_. True) ns" by (simp add: list_all_iff)
    ultimately show ?thesis using cs(2) 3 by (auto simp: ast_conj_clause_def clause_fits_def split: if_splits)
  qed (use Exist.prems one in \<open>auto simp: encode_tag_exist_def clause_fits_def\<close>)
qed (auto simp: encode_tag_op_def encode_tag_in_def ast_op_clause_def ast_in_clause_def clause_fits_def Let_def result_simps
    dest: encode_values_length)

lemma pg_accepts_query:
  assumes "pg_prepare_search env pid key base kind category tag_filter offset limit order_by descending = Ok sr"
  shows "pg_accepts sr = (case filter_tag_query tag_filter of None \<Rightarrow> True | Some q \<Rightarrow> pg_query_ok False q)"
proof -
  have "filter_condition (se_profile env) tag_filter key = Ok (s_condition sr, s_arguments sr)"
    using prepare_search_OkD [OF assms [unfolded pg_prepare_search_def]] by (simp add: search_of_def)
  then show ?thesis
    by (cases tag_filter) (auto simp: filter_condition_def filter_tag_query_def tag_query_total pg_accepts_def clause_fits_def dest!: encode_fits)
qed

lemma pg_scan_refused:
  assumes "pg_prepare_search env pid key PG_SCAN_QUERY kind category tag_filter offset limit order_by descending = Ok sr"
    and "negative_limit offset limit \<or> \<not> pg_accepts sr"
  shows "\<exists>sc. pg_scan env now (Ok (pid, key)) kind category tag_filter offset limit order_by descending db = Ok sc \<and> scan_all sc = sqlx_error"
    and "offset = None \<longrightarrow> pg_fetch_all env now (Ok (pid, key)) in_txn kind category tag_filter limit order_by descending for_update db = sqlx_error"
proof -
  have pages: "pg_perform_scan env now pid key kind category tag_filter offset limit order_by descending u db = [sqlx_error]" for u
    using assms by (simp add: pg_perform_scan_def)
  have "scan_all (scan_new [sqlx_error] PAGE_SIZE) = sqlx_error"
    by (simp add: scan_all.simps scan_new_def fetch_next_def sqlx_error_def)
  then show "\<exists>sc. pg_scan env now (Ok (pid, key)) kind category tag_filter offset limit order_by descending db = Ok sc \<and> scan_all sc = sqlx_error"
    by (simp add: pg_scan_def pages sqlx_error_def)
  show "offset = None \<longrightarrow> pg_fetch_all env now (Ok (pid, key)) in_txn kind category tag_filter limit order_by descending for_update db = sqlx_error"
    using pages by (auto simp: pg_fetch_all_def Let_def sqlx_error_def)
qed

text \<open>
  C5. For an exact tag filter (\<open>filter_exact\<close>: encrypted tags are asked only for equality, membership and existence, no
  \<open>exist\<close> but one of exactly one name is negated, and no part of a disjunction or negated conjunction is always true) and a search that could be prepared,
  the searches of a PostgreSQL session return the entries that satisfy the search and have not expired
  to the millisecond, decrypted, each once, in the order asked for and cut to the offset and the limit; the
  scan read to its end and \<open>fetch_all\<close> agree. A negative limit or offset makes both fail, and so does a filter
  whose condition the server does not accept: one with an empty disjunction, the negation of an empty conjunction or an
  empty \<open>$in\<close>, for which SQLite returns rows.
\<close>

theorem postgres_search_refines:
  assumes "pg_holds env key pid db st" and "\<forall>c. category = Some c \<longrightarrow> valid_str c" and "filter_exact tag_filter"
    and "pg_prepare_search env pid key PG_SCAN_QUERY kind category tag_filter offset limit order_by descending = Ok sr"
    and "sel = spec_select (se_like env) (pg_unexpired now) kind category (filter_tag_query tag_filter) st"
    and "accepted = (case filter_tag_query tag_filter of None \<Rightarrow> True | Some q \<Rightarrow> pg_query_ok False q)"
  shows "if negative_limit offset limit \<or> \<not> accepted then
      (\<exists>sc. pg_scan env now (Ok (pid, key)) kind category tag_filter offset limit order_by descending db = Ok sc \<and> scan_all sc = sqlx_error) \<and>
      (offset = None \<longrightarrow> pg_fetch_all env now (Ok (pid, key)) in_txn kind category tag_filter limit order_by descending for_update db = sqlx_error)
    else \<exists>es sc. mset es = mset sel \<and> (order_by = Some Id \<longrightarrow> es = (if descending then rev sel else sel)) \<and>
      pg_scan env now (Ok (pid, key)) kind category tag_filter offset limit order_by descending db = Ok sc \<and>
      scan_all sc = Ok (limit_rows offset limit es) \<and>
      (offset = None \<longrightarrow> pg_fetch_all env now (Ok (pid, key)) in_txn kind category tag_filter limit order_by descending for_update db =
        Ok (limit_rows None limit es))"
proof (cases "negative_limit offset limit \<or> \<not> accepted")
  case True
  with pg_scan_refused [OF assms(4)] pg_accepts_query [OF assms(4)] assms(6) show ?thesis by simp
next
  case False
  then have "\<not> (negative_limit offset limit \<or> \<not> pg_accepts sr)" using pg_accepts_query [OF assms(4)] assms(6) by simp
  from pg_scan_sim [OF assms(1-4) this assms(5), of in_txn for_update] False show ?thesis by auto
qed

lemma pg_prepare_search_all:
  "\<exists>sr. pg_prepare_search env pid key base kind None None None None None descending = Ok sr \<and> pg_accepts sr"
proof -
  obtain q p where "extend_query postgres_prepare base (params_push (opt_blob None)
      (params_push (opt_int (map_option (\<lambda>k. int (entry_kind_num k)) kind)) (params_push (ArgInt pid) params_new))) None None None None descending = Ok (q, p)"
    using extend_query_plain by blast
  then show ?thesis
    by (simp add: pg_prepare_search_def prepare_search_with_def Let_def encrypt_category_def encode_tag_filter_def filter_condition_def
        pg_accepts_def)
qed

theorem postgres_search_refines_witness:
  "pg_fetch_all toy_sqlite_env 4999 (Ok (1, toy_profile_key)) False None None None None None False True toy_pg_store = Ok [toy_entry] \<and>
   pg_fetch_all toy_sqlite_env 5000 (Ok (1, toy_profile_key)) False None None None None None False True toy_pg_store = Ok []"
proof -
  obtain sr where sr: "pg_prepare_search toy_sqlite_env 1 toy_profile_key PG_SCAN_QUERY None None None None None None False = Ok sr"
    using pg_prepare_search_all by blast
  have "\<exists>es. mset es = mset (spec_select (se_like toy_sqlite_env) (pg_unexpired now) None None None [(toy_entry, Some 5000)]) \<and>
      pg_fetch_all toy_sqlite_env now (Ok (1, toy_profile_key)) False None None None None None False True toy_pg_store = Ok es" for now
    using postgres_search_refines [OF toy_pg_store_holds _ _ sr refl refl, of now False True]
    by (auto simp: filter_exact_def filter_tag_query_def negative_limit_def opt_or_def limit_rows_def)
  from this [of 4999] this [of 5000] show ?thesis
    by (auto simp: spec_select_def spec_matches_def visible_def pg_unexpired_def)
qed

text \<open>
  The backends disagree for less than a second: what SQLite still returns, PostgreSQL returns too, and it
  returns it up to 999 milliseconds longer.
\<close>

lemma pg_outlives_sqlite:
  "unexpired now x \<Longrightarrow> pg_unexpired now x" "pg_unexpired (now + 999) x \<Longrightarrow> unexpired now x"
  by (auto simp: unexpired_def pg_unexpired_def split: option.splits)

end
