(* ===== verification/Postgres_Backend.thy ===== *)
theory Postgres_Backend
  imports Postgres_Session Store_Options
begin

text \<open>
  The PostgreSQL store: its profiles and the change of the store key (\<open>PostgresBackend\<close> of
  \<open>askar-storage/src/backend/postgres/mod.rs\<close>). The main results: the id of a removed profile is never given
  to another one, so that a session that still has its key cannot reach anything; and a profile of a
  SQLite store is copied into a PostgreSQL store with all entries that have not expired.
\<close>

section \<open>Profiles\<close>

record PostgresBackend =
  pb_db :: PgDatabase
  pb_active_profile :: string
  pb_key_cache :: KeyCache
  pb_host :: string
  pb_name :: string

text \<open>\<open>INSERT INTO profiles .. ON CONFLICT DO NOTHING RETURNING id\<close>: the sequence advances in any case.\<close>

definition pg_insert_profile :: "string \<Rightarrow> bytes \<Rightarrow> PgDatabase \<Rightarrow> int option \<times> PgDatabase" where
  "pg_insert_profile name key db =
     (let pid = profile_seq db + 1; t = pg_tables db; db = db\<lparr>profile_seq := pid\<rparr> in
      if name \<in> p_name ` set (profiles t) then (None, db)
      else (Some pid, db\<lparr>pg_tables := t\<lparr>profiles := profiles t @ [\<lparr>p_id = pid, p_name = name, p_key = key\<rparr>]\<rparr>\<rparr>))"

definition pg_create_profile :: "store_key_env \<Rightarrow> profile_env \<Rightarrow> bytes \<Rightarrow> ProfileKey \<Rightarrow> string \<Rightarrow> string option \<Rightarrow> PostgresBackend
    \<Rightarrow> string storage_result \<times> PostgresBackend" where
  "pg_create_profile E P nonce new_key random_name name be =
     (let name = opt_or name random_name in
      case encode_profile_key E P nonce new_key (cache_store_key (pb_key_cache be)) of
        Ok enc_key \<Rightarrow>
          (case pg_insert_profile name enc_key (pb_db be) of
             (Some pid, db) \<Rightarrow>
               (Ok name, be\<lparr>pb_db := db, pb_key_cache := add_profile name pid new_key (pb_key_cache be)\<rparr>)
           | (None, db) \<Rightarrow> (Err (err_msg storage_kind.Duplicate ''Duplicate profile name''), be\<lparr>pb_db := db\<rparr>))
      | Err e \<Rightarrow> (Err e, be)
      | Panic \<Rightarrow> (Panic, be))"

definition pg_get_default_profile :: "PostgresBackend \<Rightarrow> string storage_result" where
  "pg_get_default_profile be =
     (case config (pg_tables (pb_db be)) ''default_profile'' of
        Some profile \<Rightarrow> Ok (opt_or profile [])
      | None \<Rightarrow> Err (err_msg storage_kind.Backend ''Error fetching default profile name''))"

definition on_pg_tables :: "(Database \<Rightarrow> Database) \<Rightarrow> PgDatabase \<Rightarrow> PgDatabase" where
  "on_pg_tables f db = db\<lparr>pg_tables := f (pg_tables db)\<rparr>"

definition pg_set_default_profile :: "string \<Rightarrow> PostgresBackend \<Rightarrow> unit storage_result \<times> PostgresBackend" where
  "pg_set_default_profile profile be =
     (Ok (), be\<lparr>pb_db := on_pg_tables (\<lambda>t. t\<lparr>config := (config t)(''default_profile'' \<mapsto> Some profile)\<rparr>) (pb_db be)\<rparr>)"

definition pg_list_profiles :: "PostgresBackend \<Rightarrow> string list storage_result" where
  "pg_list_profiles be = Ok (map p_name (profiles (pg_tables (pb_db be))))"

definition pg_remove_profile :: "string \<Rightarrow> PostgresBackend \<Rightarrow> bool storage_result \<times> PostgresBackend" where
  "pg_remove_profile name be =
     (let (n, t) = delete_profile name (pg_tables (pb_db be)) in (Ok (n \<noteq> 0), be\<lparr>pb_db := (pb_db be)\<lparr>pg_tables := t\<rparr>\<rparr>))"

text \<open>
  \<open>resolve_profile_key\<close>: in a transaction the row of a profile whose key is in the cache is locked, which
  finds out that it has been removed.
\<close>

definition pg_resolve_profile_key :: "store_key_env \<Rightarrow> profile_env \<Rightarrow> string \<Rightarrow> bool \<Rightarrow> PostgresBackend \<Rightarrow> acquired \<times> PostgresBackend" where
  "pg_resolve_profile_key E P profile in_txn be =
     (case get_profile (pb_key_cache be) profile of
        Some (pid, key) \<Rightarrow>
          if in_txn \<and> pid \<notin> p_id ` set (profiles (pg_tables (pb_db be))) then
            (Err (err_msg storage_kind.NotFound ''Session profile has been removed''), be)
          else (Ok (pid, key), be)
      | None \<Rightarrow>
          (case find_profile profile (pg_tables (pb_db be)) of
             Some row \<Rightarrow>
               (case load_key E P (pb_key_cache be) (p_key row) of
                  Ok key \<Rightarrow> (Ok (p_id row, key), be\<lparr>pb_key_cache := add_profile profile (p_id row) key (pb_key_cache be)\<rparr>)
                | Err e \<Rightarrow> (Err e, be)
                | Panic \<Rightarrow> (Panic, be))
           | None \<Rightarrow> (Err (err_msg storage_kind.NotFound ''Profile not found''), be)))"

text \<open>\<open>rekey\<close>, in one transaction.\<close>

definition pg_rekey :: "store_key_env \<Rightarrow> profile_env \<Rightarrow> bytes \<Rightarrow> bytes \<Rightarrow> (int \<Rightarrow> bytes) \<Rightarrow> StoreKeyMethod \<Rightarrow> PassKey \<Rightarrow> PostgresBackend
    \<Rightarrow> unit storage_result \<times> PostgresBackend" where
  "pg_rekey E P salt rnd nonces method pass_key be =
     (let t = pg_tables (pb_db be) in
      case res_bind (store_key_method_resolve E salt rnd method (pass_key_into_owned pass_key)) (\<lambda>(store_key, store_key_ref).
           res_bind (res_mapM (rekey_row E P nonces (pb_key_cache be) store_key) (profiles t)) (\<lambda>upd_keys.
           res_bind (update_profile_keys upd_keys t) (\<lambda>t.
           res_bind (update_config_key (store_key_reference_into_uri store_key_ref) t) (\<lambda>t.
           Ok (store_key, t))))) of
        Ok (store_key, t) \<Rightarrow> (Ok (), be\<lparr>pb_db := (pb_db be)\<lparr>pg_tables := t\<rparr>, pb_key_cache := key_cache_new store_key\<rparr>)
      | Err e \<Rightarrow> (Err e, be)
      | Panic \<Rightarrow> (Panic, be))"

section \<open>The backend\<close>

definition on_pg_backend :: "PgDatabase session_ops \<Rightarrow> PostgresBackend session_ops" where
  "on_pg_backend ops =
     \<lparr>bs_count = (\<lambda>now kind category tag_filter be. bs_count ops now kind category tag_filter (pb_db be)),
      bs_fetch = (\<lambda>now kind category name for_update be. bs_fetch ops now kind category name for_update (pb_db be)),
      bs_fetch_all = (\<lambda>now kind category tag_filter limit order_by descending for_update be.
        bs_fetch_all ops now kind category tag_filter limit order_by descending for_update (pb_db be)),
      bs_remove_all = (\<lambda>kind category tag_filter be.
        map_prod id (\<lambda>db. be\<lparr>pb_db := db\<rparr>) (bs_remove_all ops kind category tag_filter (pb_db be))),
      bs_update = (\<lambda>now nonce kind operation category name value tags expiry_ms be.
        map_prod id (\<lambda>db. be\<lparr>pb_db := db\<rparr>) (bs_update ops now nonce kind operation category name value tags expiry_ms (pb_db be))),
      bs_ping = (\<lambda>be. bs_ping ops (pb_db be)),
      bs_close = (\<lambda>commit be. map_prod id (\<lambda>db. be\<lparr>pb_db := db\<rparr>) (bs_close ops commit (pb_db be)))\<rparr>"

text \<open>
  \<open>session\<close>; the key of the profile, which the first operation of the session acquires, is acquired here.
\<close>

definition pg_backend_session :: "store_key_env \<Rightarrow> sqlite_env \<Rightarrow> unit storage_result \<Rightarrow> string option \<Rightarrow> bool \<Rightarrow> PostgresBackend
    \<Rightarrow> PostgresBackend session_ops storage_result \<times> PostgresBackend" where
  "pg_backend_session E env closed profile transaction be =
     (case pg_resolve_profile_key E (se_profile env) (opt_or profile (pb_active_profile be)) transaction be of
        (Ok acquired, be) \<Rightarrow> (Ok (on_pg_backend (pg_session_ops env (Ok acquired) transaction closed)), be)
      | (Err e, be) \<Rightarrow> (Err e, be)
      | (Panic, be) \<Rightarrow> (Panic, be))"

definition pg_backend_scan :: "store_key_env \<Rightarrow> sqlite_env \<Rightarrow> int \<Rightarrow> string option \<Rightarrow> EntryKind option \<Rightarrow> string option
    \<Rightarrow> TagFilter option \<Rightarrow> int option \<Rightarrow> int option \<Rightarrow> OrderBy option \<Rightarrow> bool \<Rightarrow> PostgresBackend
    \<Rightarrow> Entry Scan storage_result \<times> PostgresBackend" where
  "pg_backend_scan E env now profile kind category tag_filter offset limit order_by descending be =
     (let (acquired, be) = pg_resolve_profile_key E (se_profile env) (opt_or profile (pb_active_profile be)) False be
      in (pg_scan env now acquired kind category tag_filter offset limit order_by descending (pb_db be), be))"

definition pg_backend_ops :: "store_key_env \<Rightarrow> sqlite_env \<Rightarrow> unit storage_result \<Rightarrow> bytes \<times> bytes \<times> (int \<Rightarrow> bytes)
    \<Rightarrow> bytes \<Rightarrow> ProfileKey \<Rightarrow> string \<Rightarrow> PostgresBackend backend_ops" where
  "pg_backend_ops E env closed rk nonce new_key random_name =
     \<lparr>bk_create_profile = pg_create_profile E (se_profile env) nonce new_key random_name,
      bk_scan = pg_backend_scan E env,
      bk_session = pg_backend_session E env closed,
      bk_get_active_profile = pb_active_profile,
      bk_get_default_profile = pg_get_default_profile,
      bk_set_default_profile = pg_set_default_profile,
      bk_list_profiles = pg_list_profiles,
      bk_remove_profile = pg_remove_profile,
      bk_rekey = (case rk of (salt, rnd, nonces) \<Rightarrow> pg_rekey E (se_profile env) salt rnd nonces),
      bk_close = (\<lambda>be. (Ok (), be))\<rparr>"

section \<open>Removed profiles\<close>

text \<open>
  What any client of the database does to the committed tables, one operation at a time. The flag marks the one step
  that starts over: provisioning with \<open>recreate\<close> drops the tables, and with them their sequences, and creates them
  anew with the configuration and the default profile; dropping the database and provisioning it again has the same effect.
\<close>

definition pg_recreated :: "(string \<rightharpoonup> string option) \<Rightarrow> string \<Rightarrow> bytes \<Rightarrow> int option \<times> PgDatabase" where
  "pg_recreated cfg name key = pg_insert_profile name key
     \<lparr>pg_tables = \<lparr>config = cfg, profiles = [], items = [], items_tags = []\<rparr>, item_seq = 0, profile_seq = 0\<rparr>"

inductive pg_change :: "bool \<Rightarrow> PgDatabase \<Rightarrow> PgDatabase \<Rightarrow> bool" where
  change_create: "pg_insert_profile name key db = (pid, db') \<Longrightarrow> pg_change False db db'"
| change_remove: "delete_profile name (pg_tables db) = (n, t) \<Longrightarrow> pg_change False db (db\<lparr>pg_tables := t\<rparr>)"
| change_key: "update_profile_key key pid (pg_tables db) = (n, t) \<Longrightarrow> pg_change False db (db\<lparr>pg_tables := t\<rparr>)"
| change_config: "pg_change False db (on_pg_tables (\<lambda>t. t\<lparr>config := c\<rparr>) db)"
| change_update: "pg_update env now acquired in_txn nonce kind operation category name value tags expiry_ms db = (r, db') \<Longrightarrow>
     pg_change False db db'"
| change_remove_all: "pg_remove_all env acquired kinds cat f db = (k, db') \<Longrightarrow> pg_change False db db'"
| change_recreate: "pg_recreated cfg name key = (pid, db') \<Longrightarrow> pg_change True db db'"

text \<open>An id that was drawn and that no profile has.\<close>

definition pg_dead :: "int \<Rightarrow> PgDatabase \<Rightarrow> bool" where
  "pg_dead pid db \<longleftrightarrow> pg_wf db \<and> pid \<le> profile_seq db \<and> pid \<notin> p_id ` set (profiles (pg_tables db))"

lemma pg_insert_profile_wf:
  assumes "pg_wf db" "pg_insert_profile name key db = (r, db')"
  shows "pg_wf db'"
proof -
  have "\<forall>p \<in> set (profiles (pg_tables db)). p_id p < profile_seq db + 1" using assms(1) by (auto simp: pg_wf_def)
  with assms show ?thesis
    by (fastforce simp: pg_insert_profile_def pg_wf_def db_wf_def Let_def split: if_splits)
qed

lemma pg_perform_insert_keeps:
  assumes "pg_wf db" "pg_perform_insert env now pid kind ec en ev ot ms new_row db = (r, db')"
  shows "pg_wf db' \<and> profile_seq db' = profile_seq db \<and> profiles (pg_tables db') = profiles (pg_tables db) \<and>
    pg_wf (db'\<lparr>pg_tables := pg_tables db\<rparr>)"
proof (cases new_row)
  case False
  obtain t where t: "perform_insert env now pid kind ec en ev ot ms False (pg_tables db) = (r, t)" "db' = db\<lparr>pg_tables := t\<rparr>"
    using assms(2) False by (cases "perform_insert env now pid kind ec en ev ot ms False (pg_tables db)") (auto simp: pg_replace_tables)
  have "db_wf (pg_tables db)" using assms(1) by (simp add: pg_wf_def)
  from perform_insert_keeps [OF this t(1)] pg_wf_tables [OF assms(1), of t] assms(1) show ?thesis by (simp add: t(2))
next
  case True
  show ?thesis
  proof (cases "opt_expiry env now ms")
    case (Ok x)
    obtain q db1 where i: "pg_insert_item pid (entry_kind_num kind) ec en ev x db = (q, db1)" by fastforce
    note wf1 = pg_insert_item_wf [OF assms(1) i]
    have undone: "pg_wf (db1\<lparr>pg_tables := pg_tables db\<rparr>)"
      using assms(1) wf1(2,3) by (fastforce simp: pg_wf_def)
    show ?thesis
    proof (cases "\<exists>row_id. q = Ok (Some row_id)")
      case True
      then obtain row_id where q: "q = Ok (Some row_id)" by blast
      obtain r' t where t: "insert_tags row_id (case ot of None \<Rightarrow> [] | Some tags \<Rightarrow> tags) (pg_tables db1) = (r', t)" by fastforce
      then have "db' = db1\<lparr>pg_tables := t\<rparr>"
        using assms(2) \<open>new_row\<close> Ok i q by (simp add: pg_perform_insert_def)
      moreover have "pg_wf (db1\<lparr>pg_tables := t\<rparr>)"
        using insert_tags_keeps [OF t] insert_tags_wf [OF _ t] wf1(1) by (intro pg_wf_tables [OF wf1(1)]) (simp_all add: pg_wf_def)
      ultimately show ?thesis using wf1 undone insert_tags_keeps [OF t] by simp
    next
      case False
      then have "db' = db1" using assms(2) \<open>new_row\<close> Ok i by (auto simp: pg_perform_insert_def split: result.splits option.splits)
      with wf1 undone show ?thesis by simp
    qed
  qed (use assms True in \<open>auto simp: pg_perform_insert_def\<close>)
qed

lemma pg_perform_remove_keeps:
  assumes "pg_wf db" "pg_perform_remove pid kind ec en ignore_error db = (r, db')"
  shows "pg_wf db' \<and> profile_seq db' = profile_seq db \<and> profiles (pg_tables db') = profiles (pg_tables db)"
proof -
  obtain n t where d: "delete_items (\<lambda>r. item_key r = (pid, entry_kind_num kind, ec, en)) (pg_tables db) = (n, t)" by fastforce
  have "pg_wf (db\<lparr>pg_tables := t\<rparr>)"
    using delete_items_wf [OF _ d] delete_items_keeps [OF d] assms(1) by (intro pg_wf_tables [OF assms(1)]) (simp_all add: pg_wf_def)
  then show ?thesis using assms(2) d delete_items_keeps [OF d] by (auto simp: pg_perform_remove_def Let_def split: if_splits)
qed

lemma pg_update_keeps:
  assumes "pg_wf db" "pg_update env now acquired in_txn nonce kind operation category name value tags ms db = (r, db')"
  shows "pg_wf db' \<and> profile_seq db' = profile_seq db \<and> profiles (pg_tables db') = profiles (pg_tables db)"
  using assms pg_perform_insert_keeps [OF assms(1)] pg_perform_remove_keeps [OF assms(1)]
  by (fastforce simp: pg_update_def split: if_splits result.splits prod.splits)

lemma pg_remove_all_cases:
  assumes "pg_remove_all env acquired kinds cat f db = (k, db')"
  obtains "db' = db" | p m t where "delete_items p (pg_tables db) = (m, t)" "db' = db\<lparr>pg_tables := t\<rparr>"
proof (cases "res_bind acquired (\<lambda>(pid, key). res_map (Pair pid) (pg_prepare_search env pid key PG_DELETE_ALL_QUERY kinds cat f None None None False))")
  case (Ok q)
  obtain pid sr where q: "q = (pid, sr)" by (cases q) auto
  obtain m t where d: "delete_items (item_matches env pid kinds sr (pg_tables db)) (pg_tables db) = (m, t)" by fastforce
  show thesis
  proof (cases "pg_accepts sr")
    case True
    show thesis by (rule that(2) [OF d]) (use assms Ok q d True in \<open>simp add: pg_remove_all_def\<close>)
  qed (rule that(1), use assms Ok q in \<open>simp add: pg_remove_all_def\<close>)
next
  case (Err e)
  show thesis by (rule that(1)) (use assms Err in \<open>simp add: pg_remove_all_def\<close>)
next
  case Panic
  show thesis by (rule that(1)) (use assms Panic in \<open>simp add: pg_remove_all_def\<close>)
qed

lemma pg_change_dead:
  assumes "pg_change recreated db db'" "\<not> recreated" "pg_dead pid db"
  shows "pg_dead pid db'"
  using assms
proof (induction rule: pg_change.induct)
  case (change_create name key db pid' db')
  then show ?case using pg_insert_profile_wf [OF _ change_create(1)]
    by (auto simp: pg_dead_def pg_insert_profile_def Let_def split: if_splits)
next
  case (change_remove name db n t)
  then have "profiles t = filter (\<lambda>p. p_name p \<noteq> name) (profiles (pg_tables db))" "set (items t) \<subseteq> set (items (pg_tables db))"
    by (auto simp: delete_profile_def delete_items_def Let_def)
  with change_remove delete_profile_wf [OF _ change_remove(1)] show ?case by (fastforce simp: pg_dead_def pg_wf_def)
next
  case (change_key key pid' db n t)
  let ?f = "\<lambda>p. if p_id p = pid' then p\<lparr>p_key := key\<rparr> else p"
  have f: "p_id (?f p) = p_id p" for p by simp
  have "p_id ` set (map ?f (profiles (pg_tables db))) = p_id ` set (profiles (pg_tables db))" by (simp only: set_map image_image f)
  moreover have "profiles t = map ?f (profiles (pg_tables db))" "items t = items (pg_tables db)"
    using change_key(1) by (auto simp: update_profile_key_def)
  ultimately have p: "p_id ` set (profiles t) = p_id ` set (profiles (pg_tables db))" "items t = items (pg_tables db)" by simp_all
  have "\<forall>i \<in> p_id ` set (profiles t). i \<le> profile_seq db" using change_key(3) unfolding p(1) by (simp add: pg_dead_def pg_wf_def)
  then have "\<forall>p \<in> set (profiles t). p_id p \<le> profile_seq db" by blast
  with change_key update_profile_key_wf [OF _ change_key(1)] p show ?case by (simp add: pg_dead_def pg_wf_def)
next
  case (change_config db c)
  then show ?case by (simp add: pg_dead_def pg_wf_def db_wf_def on_pg_tables_def)
next
  case (change_update env now acquired in_txn nonce kind operation c n v tags ms db r db')
  then show ?case using pg_update_keeps [OF _ change_update(1)] by (simp add: pg_dead_def)
next
  case (change_remove_all env acquired kinds cat f db k db')
  show ?case
  proof (cases rule: pg_remove_all_cases [OF change_remove_all(1)])
    case (2 p m t)
    with change_remove_all(3) delete_items_wf [OF _ 2(1)] delete_items_keeps [OF 2(1)] show ?thesis
      using pg_wf_tables [of db t] by (simp add: pg_dead_def pg_wf_def)
  qed (use change_remove_all in simp)
qed simp_all

lemma pg_changes_dead: "(pg_change False)\<^sup>*\<^sup>* db db' \<Longrightarrow> pg_dead pid db \<Longrightarrow> pg_dead pid db'"
  by (induction rule: rtranclp_induct) (auto intro: pg_change_dead)

text \<open>What a session does whose profile is gone: it finds nothing and writes nothing.\<close>

lemma pg_dead_no_items: "pg_dead pid db \<Longrightarrow> r \<in> set (items (pg_tables db)) \<Longrightarrow> i_profile r \<noteq> pid"
  by (auto simp: pg_dead_def pg_wf_def db_wf_def)

lemma pg_dead_update:
  assumes "pg_dead pid db" "pg_update env now (Ok (pid, key)) in_txn nonce kind operation category name value tags ms db = (r, db')"
  shows "r \<noteq> Ok () \<and> pg_tables db' = pg_tables db"
proof -
  let ?t = "pg_tables db"
  have no: "item_key r \<noteq> (pid, k, c, n)" if "r \<in> set (items ?t)" for r k c n
    using pg_dead_no_items [OF assms(1) that] by (simp add: item_key_def)
  then have key: "(pid, k, c, n) \<notin> item_key ` set (items ?t)" for k c n by (metis imageE)
  have pid: "pid \<notin> p_id ` set (profiles ?t)" using assms(1) by (simp add: pg_dead_def)
  have del: "delete_items (\<lambda>r. item_key r = (pid, k, c, n)) ?t = (0, ?t)" for k c n
  proof -
    have "filter (\<lambda>r. item_key r = (pid, k, c, n)) (items ?t) = []" "filter (\<lambda>r. item_key r \<noteq> (pid, k, c, n)) (items ?t) = items ?t"
      using no by (auto simp: filter_empty_conv filter_id_conv)
    then show ?thesis by (simp add: delete_items_def Let_def)
  qed
  have upd: "update_item pid k c n v x ?t = (None, ?t)" for k c n v x
  proof -
    have "find (\<lambda>r. item_key r = (pid, k, c, n)) (items ?t) = None" using no by (auto simp: find_None_iff)
    moreover have "map (\<lambda>r. if item_key r = (pid, k, c, n) then r\<lparr>i_value := v, i_expiry := x\<rparr> else r) (items ?t) = items ?t"
      using no by (intro map_idI) auto
    ultimately show ?thesis by (simp add: update_item_def)
  qed
  have ins: "pg_insert_item pid k c n v x db = (Err (), db\<lparr>item_seq := item_seq db + 1\<rparr>)" for k c n v x
    using key pid by (simp add: pg_insert_item_def Let_def)
  have new: "fst (pg_perform_insert env now pid kind ec en ev ot ms new_row db) \<noteq> Ok ()"
      "pg_tables (snd (pg_perform_insert env now pid kind ec en ev ot ms new_row db)) = ?t" for ec en ev ot new_row
    by (cases "opt_expiry env now ms"; simp add: pg_perform_insert_def ins upd sqlx_error_def)+
  have old: "pg_perform_remove pid kind ec en False db = (Err (err_msg storage_kind.NotFound ''Entry not found''), db)" for ec en
    by (simp add: pg_perform_remove_def del)
  show ?thesis
  proof (cases "operation = Remove")
    case True
    with assms(2) old show ?thesis
      by (cases "ee_category (key_encryptor env key) (as_bytes category)"; cases "ee_name (key_encryptor env key) (as_bytes name)")
        (auto simp: pg_update_def)
  next
    case False
    show ?thesis
    proof (cases "encrypt_update (key_encryptor env key) nonce category name (opt_or value []) tags")
      case (Ok enc)
      obtain ec en ev ot where enc: "enc = (ec, en, ev, ot)" by (cases enc) auto
      obtain r1 db1 where p: "pg_perform_insert env now pid kind ec en ev ot ms (operation = Insert) db = (r1, db1)" by fastforce
      with new [of ec en ev ot "operation = Insert"] have "r1 \<noteq> Ok ()" "pg_tables db1 = ?t" by simp_all
      with assms(2) False Ok enc p show ?thesis by (cases r1) (auto simp: pg_update_def split: if_splits)
    qed (use assms(2) False in \<open>auto simp: pg_update_def\<close>)
  qed
qed

lemma pg_dead_fetch:
  assumes "pg_dead pid db"
  shows "pg_fetch env now (Ok (pid, key)) kind category name db \<noteq> Ok (Some e)"
proof -
  have "find (\<lambda>r. item_key r = (pid, k, c, n) \<and> pg_unexpired now (i_expiry r)) (items (pg_tables db)) = None" for k c n
    using pg_dead_no_items [OF assms] by (auto simp: find_None_iff item_key_def)
  then show ?thesis
    by (cases "ee_category (key_encryptor env key) (as_bytes category)"; cases "ee_name (key_encryptor env key) (as_bytes name)")
      (simp_all add: pg_fetch_def)
qed

lemma pg_dead_no_match: "pg_dead pid db \<Longrightarrow> r \<in> set (items (pg_tables db)) \<Longrightarrow> \<not> item_matches env pid kinds sr (pg_tables db) r"
  using pg_dead_no_items by (auto simp: item_matches_def)

lemma pg_dead_filter:
  "pg_dead pid db \<Longrightarrow> filter (\<lambda>r. item_matches env pid kinds sr (pg_tables db) r \<and> P r) (items (pg_tables db)) = []"
  using pg_dead_no_match by (auto simp: filter_empty_conv)

lemma pg_dead_count: "pg_dead pid db \<Longrightarrow> pg_count env now (Ok (pid, key)) kinds cat f db = Ok n \<Longrightarrow> n = 0"
  by (auto simp: pg_count_def pg_dead_filter result_simps split: if_splits)

lemma pg_dead_remove_all:
  assumes "pg_dead pid db" "pg_remove_all env (Ok (pid, key)) kinds cat f db = (r, db')"
  shows "(\<forall>n. r = Ok n \<longrightarrow> n = 0) \<and> pg_tables db' = pg_tables db"
proof -
  let ?t = "pg_tables db"
  have "delete_items (item_matches env pid kinds sr ?t) ?t = (0, ?t)" for sr
  proof -
    have "filter (item_matches env pid kinds sr ?t) (items ?t) = []" "filter (\<lambda>r. \<not> item_matches env pid kinds sr ?t r) (items ?t) = items ?t"
      using pg_dead_no_match [OF assms(1)] by (auto simp: filter_empty_conv filter_id_conv)
    then show ?thesis by (simp add: delete_items_def Let_def)
  qed
  with assms(2) show ?thesis
    by (cases "pg_prepare_search env pid key PG_DELETE_ALL_QUERY kinds cat f None None None False")
      (auto simp: pg_remove_all_def sqlx_error_def split: if_splits)
qed

lemma pg_dead_scan:
  assumes "pg_dead pid db" "sqlite_env_correct env"
  shows "\<exists>r. pg_perform_scan env now pid key kinds cat f offset limit order_by descending for_update db \<in> {[], [Err r], [Panic]}"
proof -
  have "mset (se_order env []) = mset []" using assms(2) unfolding sqlite_env_correct_def by blast
  then have "order_rows env order_by descending [] = []" by (cases order_by) (auto simp: order_rows_def split: OrderBy.split)
  moreover have "limit_rows offset limit [] = ([] :: ItemRow list)" by (simp add: limit_rows_def Let_def)
  ultimately show ?thesis
    by (cases "pg_prepare_search env pid key PG_SCAN_QUERY kinds cat f offset limit order_by descending")
      (auto simp: pg_perform_scan_def Let_def pg_dead_filter [OF assms(1)] sqlx_error_def)
qed

lemma pg_dead_search:
  assumes "pg_dead pid db" "sqlite_env_correct env"
  shows "pg_fetch_all env now (Ok (pid, key)) in_txn kinds cat f limit order_by descending for_update db = Ok es \<Longrightarrow> es = []"
    and "pg_scan env now (Ok (pid, key)) kinds cat f offset limit order_by descending db = Ok sc \<Longrightarrow> scan_all sc = Ok es \<Longrightarrow> es = []"
proof -
  show "es = []" if "pg_fetch_all env now (Ok (pid, key)) in_txn kinds cat f limit order_by descending for_update db = Ok es"
    using that pg_dead_scan [OF assms, of now key kinds cat f None limit order_by descending "for_update \<and> in_txn"]
    by (auto simp: pg_fetch_all_def decrypt_scan_batch_def)
  show "es = []" if "pg_scan env now (Ok (pid, key)) kinds cat f offset limit order_by descending db = Ok sc" "scan_all sc = Ok es"
    using that pg_dead_scan [OF assms, of now key kinds cat f offset limit order_by descending False]
    by (auto simp: pg_scan_def scan_new_def scan_all.simps fetch_next_def)
qed

lemma pg_removed_dead:
  assumes "pg_wf (pb_db be)" and "find_profile name (pg_tables (pb_db be)) = Some row" and "pg_remove_profile name be = (r, be1)"
  shows "r = Ok True \<and> pg_dead (p_id row) (pb_db be1) \<and> pb_key_cache be1 = pb_key_cache be"
proof -
  let ?t = "pg_tables (pb_db be)"
  obtain n t where d: "delete_profile name ?t = (n, t)" by fastforce
  have row: "row \<in> set (profiles ?t)" "p_name row = name" using assms(2) by (auto simp: find_profile_def find_Some_iff)
  have wf: "db_wf ?t" using assms(1) by (simp add: pg_wf_def)
  have t: "profiles t = filter (\<lambda>p. p_name p \<noteq> name) (profiles ?t)" "set (items t) \<subseteq> set (items ?t)" "n \<noteq> 0"
    using d row by (auto simp: delete_profile_def delete_items_def Let_def filter_empty_conv)
  have "p_id p \<noteq> p_id row" if "p \<in> set (profiles t)" for p
    using that row wf by (auto simp: t db_wf_def distinct_map dest: inj_onD)
  then have "p_id row \<notin> p_id ` set (profiles t)" by (metis imageE)
  moreover have "pg_wf ((pb_db be)\<lparr>pg_tables := t\<rparr>)"
    using assms(1) delete_profile_wf [OF wf d] t(1,2) by (auto simp: pg_wf_def)
  moreover have "p_id row \<le> profile_seq (pb_db be)" using assms(1) row(1) by (simp add: pg_wf_def)
  ultimately show ?thesis using assms(3) d t(3) by (auto simp: pg_remove_profile_def pg_dead_def)
qed

text \<open>
  C22. A removed profile cannot be reached, and its id never belongs to another one, as long as the store is not recreated:
  whatever else clients do to the database afterwards, a session that still has the key of the removed profile in its cache finds no
  entry by \<open>fetch\<close>, \<open>fetch_all\<close>, \<open>scan\<close> or \<open>count\<close>, and changes no table by \<open>update\<close> or
  \<open>remove_all\<close>; opening a transaction or pinging the session reports that the profile is gone. (In SQLite the id is used again.)
\<close>

theorem postgres_removed_profile_unreachable:
  assumes "pg_wf (pb_db be)" and "find_profile name (pg_tables (pb_db be)) = Some row"
    and "get_profile (pb_key_cache be) name = Some (p_id row, key)" and "pg_remove_profile name be = (r, be1)"
    and "(pg_change False)\<^sup>*\<^sup>* (pb_db be1) db" and "removed = err_msg storage_kind.NotFound ''Session profile has been removed''"
    and "acquired = Ok (p_id row, key)" and "sqlite_env_correct env"
  shows "p_id row \<notin> p_id ` set (profiles (pg_tables db)) \<and>
    fst (pg_resolve_profile_key E P name True (be1\<lparr>pb_db := db\<rparr>)) = Err removed \<and>
    fst (pg_resolve_profile_key E P name False (be1\<lparr>pb_db := db\<rparr>)) = acquired \<and>
    pg_ping acquired False db = Err removed \<and>
    pg_fetch env now acquired kind category item db \<noteq> Ok (Some e) \<and>
    (\<forall>es. pg_fetch_all env now acquired in_txn kinds cat f limit order_by descending for_update db = Ok es \<longrightarrow> es = []) \<and>
    (\<forall>sc es. pg_scan env now acquired kinds cat f offset limit order_by descending db = Ok sc \<and> scan_all sc = Ok es \<longrightarrow> es = []) \<and>
    (\<forall>n. pg_count env now acquired kinds cat f db = Ok n \<longrightarrow> n = 0) \<and>
    (case pg_remove_all env acquired kinds cat f db of
       (r, db') \<Rightarrow> (\<forall>n. r = Ok n \<longrightarrow> n = 0) \<and> pg_tables db' = pg_tables db) \<and>
    (case pg_update env now acquired in_txn nonce kind operation category item value tags ms db of
       (r, db') \<Rightarrow> r \<noteq> Ok () \<and> pg_tables db' = pg_tables db)"
proof -
  note d = pg_removed_dead [OF assms(1,2,4)]
  then have dead: "pg_dead (p_id row) db" using pg_changes_dead [OF assms(5)] by blast
  then have "p_id row \<notin> p_id ` set (profiles (pg_tables db))" by (simp add: pg_dead_def)
  moreover from this have "fst (pg_resolve_profile_key E P name True (be1\<lparr>pb_db := db\<rparr>)) = Err removed"
    "fst (pg_resolve_profile_key E P name False (be1\<lparr>pb_db := db\<rparr>)) = acquired" "pg_ping acquired False db = Err removed"
    using d assms(3,6,7) by (auto simp: pg_resolve_profile_key_def pg_ping_def)
  moreover have "case pg_update env now acquired in_txn nonce kind operation category item value tags ms db of
       (r, db') \<Rightarrow> r \<noteq> Ok () \<and> pg_tables db' = pg_tables db"
    using pg_dead_update [OF dead] by (auto simp: assms(7) split: prod.split)
  moreover have "case pg_remove_all env acquired kinds cat f db of
       (r, db') \<Rightarrow> (\<forall>n. r = Ok n \<longrightarrow> n = 0) \<and> pg_tables db' = pg_tables db"
    using pg_dead_remove_all [OF dead] by (auto simp: assms(7) split: prod.split)
  moreover have "\<forall>es. pg_fetch_all env now acquired in_txn kinds cat f limit order_by descending for_update db = Ok es \<longrightarrow> es = []"
    "\<forall>sc es. pg_scan env now acquired kinds cat f offset limit order_by descending db = Ok sc \<and> scan_all sc = Ok es \<longrightarrow> es = []"
    unfolding assms(7) using pg_dead_search(1) [OF dead assms(8)] pg_dead_search(2) [OF dead assms(8)] by metis+
  ultimately show ?thesis
    using pg_dead_fetch [OF dead] pg_dead_count [OF dead] unfolding assms(7) by simp
qed

text \<open>
  Recreating the store is the exception: its first profile has the first id again, so that a session opened before that
  still finds its profile by the id, if it was the first one.
\<close>

lemma recreated_store_reuses_id:
  assumes "pg_recreated cfg name key = (pid, db')"
  shows "pid = Some 1 \<and> pg_change True db db' \<and> pg_wf db' \<and> pg_ping (Ok (1, old_key)) False db' = Ok ()"
proof -
  have "pg_wf db'" by (rule pg_insert_profile_wf [OF _ assms [unfolded pg_recreated_def]]) (simp add: pg_wf_def db_wf_def)
  with assms show ?thesis
    by (auto simp: pg_recreated_def pg_insert_profile_def Let_def pg_ping_def intro: change_recreate [unfolded pg_recreated_def])
qed

definition toy_pg_backend :: PostgresBackend where
  "toy_pg_backend = \<lparr>pb_db = toy_pg_db, pb_active_profile = ''p'', pb_key_cache = add_profile ''p'' 1 toy_profile_key (key_cache_new None),
     pb_host = ''host'', pb_name = ''db''\<rparr>"

theorem postgres_removed_profile_unreachable_witness:
  "\<exists>be1 db. pg_remove_profile ''p'' toy_pg_backend = (Ok True, be1) \<and> pg_insert_profile ''q'' [] (pb_db be1) = (Some 2, db) \<and>
    fst (pg_resolve_profile_key toy_env toy_cbor_env ''p'' True (be1\<lparr>pb_db := db\<rparr>)) =
      Err (err_msg storage_kind.NotFound ''Session profile has been removed'')"
proof -
  obtain r be1 where r: "pg_remove_profile ''p'' toy_pg_backend = (r, be1)" by fastforce
  then have be1: "r = Ok True" "pb_db be1 = toy_pg_db\<lparr>pg_tables := (toy_db)\<lparr>profiles := []\<rparr>\<rparr>"
    by (auto simp: pg_remove_profile_def delete_profile_def delete_items_def toy_pg_backend_def toy_pg_db_def toy_db_def Let_def)
  obtain db where db: "pg_insert_profile ''q'' [] (pb_db be1) = (Some 2, db)"
    by (simp add: pg_insert_profile_def be1 toy_pg_db_def Let_def)
  have wf: "pg_wf (pb_db toy_pg_backend)" using toy_pg_db_holds by (simp add: toy_pg_backend_def pg_holds_def)
  have row: "find_profile ''p'' (pg_tables (pb_db toy_pg_backend)) = Some \<lparr>p_id = 1, p_name = ''p'', p_key = []\<rparr>"
    by (simp add: find_profile_def toy_pg_backend_def toy_pg_db_def toy_db_def)
  have key: "get_profile (pb_key_cache toy_pg_backend) ''p'' = Some (p_id \<lparr>p_id = 1, p_name = ''p'', p_key = []\<rparr>, toy_profile_key)"
    by (simp add: get_profile_def add_profile_def toy_pg_backend_def)
  have run: "(pg_change False)\<^sup>*\<^sup>* (pb_db be1) db" using change_create [OF db] by blast
  note u = postgres_removed_profile_unreachable [OF wf row key r run refl refl toy_sqlite_env_correct, of toy_env toy_cbor_env]
  from conjunct1 [OF conjunct2 [OF u]] show ?thesis using r be1(1) db by blast
qed

section \<open>Copying from SQLite\<close>

lemma import_rows_on_pg_backend:
  "import_rows (on_pg_backend ops) draw i rows be = map_prod id (\<lambda>db. be\<lparr>pb_db := db\<rparr>) (import_rows ops draw i rows (pb_db be))"
proof (induction rows arbitrary: i be)
  case (Cons e rows)
  show ?case
    by (cases "bs_update ops (fst (draw i)) (snd (draw i)) (entry_kind e) Insert (entry_category e) (entry_name e)
          (Some (entry_value e)) (Some (entry_tags e)) None (pb_db be)" rule: prod.exhaust)
      (auto simp: on_pg_backend_def Cons.IH [unfolded on_pg_backend_def] split: result.splits)
qed simp

lemma created_pg_profile_empty:
  assumes "pg_wf (pb_db be)" "sqlite_env_correct env"
    and "pg_create_profile E (se_profile env) nonce new_key random_name (Some name) be = (Ok name', be')"
  shows "\<exists>pid. pg_resolve_profile_key E (se_profile env) name True be' = (Ok (pid, new_key), be') \<and> pg_holds env new_key pid (pb_db be') []"
proof -
  obtain enc pid db where i: "pg_insert_profile name enc (pb_db be) = (Some pid, db)"
    and be': "be' = be\<lparr>pb_db := db, pb_key_cache := add_profile name pid new_key (pb_key_cache be)\<rparr>"
    using assms(3) by (auto simp: pg_create_profile_def opt_or_def split: result.splits prod.splits option.splits)
  have db: "items (pg_tables db) = items (pg_tables (pb_db be))" "pid = profile_seq (pb_db be) + 1"
    "profiles (pg_tables db) = profiles (pg_tables (pb_db be)) @ [\<lparr>p_id = pid, p_name = name, p_key = enc\<rparr>]"
    using i by (auto simp: pg_insert_profile_def Let_def split: if_splits)
  have "i_profile r \<noteq> pid" if "r \<in> set (items (pg_tables db))" for r
    using assms(1) that by (fastforce simp: pg_wf_def db_wf_def db(1,2))
  then have "profile_items pid (pg_tables db) = []" by (auto simp: profile_items_def filter_empty_conv)
  moreover have "pg_wf db" by (rule pg_insert_profile_wf [OF assms(1) i])
  ultimately have "pg_holds env new_key pid db []"
    using assms(2) by (simp add: pg_holds_def represents_def pg_wf_def db(3))
  then show ?thesis by (auto simp: be' pg_resolve_profile_key_def get_profile_def add_profile_def db(3))
qed

lemma pg_posed_all: "pg_posed env pid key None None None None None False"
  using pg_prepare_search_all by (simp add: pg_posed_def filter_exact_def filter_tag_query_def negative_limit_def opt_or_def)

lemma on_pg_backend_simps [simp]:
  "bs_count (on_pg_backend ops) now kind category tag_filter be = bs_count ops now kind category tag_filter (pb_db be)"
  "bs_close (on_pg_backend ops) commit be = map_prod id (\<lambda>db. be\<lparr>pb_db := db\<rparr>) (bs_close ops commit (pb_db be))"
  "bs_close (pg_session_ops env acquired in_txn closed) commit db = (closed, db)"
  by (simp_all add: on_pg_backend_def pg_session_ops_def)

text \<open>
  Copying a profile of a SQLite store into a new profile of a PostgreSQL store transfers exactly the
  entries that have not expired in SQLite, of both kinds, with their values and tags, and nothing else;
  no copy has an expiry time.
\<close>

theorem copy_profile_to_postgres:
  assumes "sqlite_env_correct envA" and "sqlite_env_correct envB"
    and "resolve_profile_key EA (se_profile envA) from_profile a = (Ok (pidA, keyA), a')"
    and "represents (key_encryptor envA keyA) pidA (be_db a') st"
    and "pg_wf (pb_db b)" and "pg_create_profile EB (se_profile envB) nonce new_key random_name (Some to_profile) b = (Ok name, b')"
    and "\<forall>i. \<forall>s \<in> set st. sqlite_storable envB new_key (snd (draw i)) (fst s)"
  shows "\<exists>pid es b''. mset es = mset (map fst (filter (visible (unexpired now)) st)) \<and>
    copy_profile (sqlite_backend_ops EA envA (Ok ()) rkA nonceA keyA' nameA) (pg_backend_ops EB envB (Ok ()) rk nonce new_key random_name)
      now draw from_profile to_profile a b = (Ok (), a', b'') \<and>
    pg_holds envB new_key pid (pb_db b'') (map (\<lambda>e. (e, None)) es)"
proof -
  have sel: "spec_select like live None None None st = map fst (filter (visible live) st)" for like live
    by (simp add: spec_select_def spec_matches_def)
  obtain sr where sr: "prepare_search envA pidA keyA SCAN_QUERY None None None None None None False = Ok sr"
    using prepare_search_all by blast
  obtain es scan where es: "mset es = mset (map fst (filter (visible (unexpired now)) st))"
    and scan: "sqlite_scan envA now (Ok (pidA, keyA)) None None None None None None False (be_db a') = Ok scan" "scan_all scan = Ok es"
    using sqlite_scan_sim [OF assms(1,4) _ _ sr refl, of now]
    by (auto simp: sel filter_exact_def filter_tag_query_def limit_rows_def opt_or_def)
  obtain pid where pid: "pg_resolve_profile_key EB (se_profile envB) to_profile True b' = (Ok (pid, new_key), b')"
    and empty: "pg_holds envB new_key pid (pb_db b') []"
    using created_pg_profile_empty [OF assms(5,2,6)] by blast
  let ?ops = "pg_session_ops envB (Ok (pid, new_key)) True (Ok ())"
  have sub: "set es \<subseteq> fst ` set st" using es by (metis (no_types, lifting) filter_is_subset image_mono set_map set_mset_mset)
  have st: "sqlite_storable envB new_key (snd (draw (0 + j))) (es ! j)" if "j < length es" for j
    using subsetD [OF sub nth_mem [OF that]] assms(7) by force
  have "distinct (map entry_key es)"
    using spec_select_distinct [OF represents_spec_wf [OF assms(4)]] es sel [symmetric] by metis
  then obtain db where db: "import_rows ?ops draw 0 es (pb_db b') = (Ok (), db)" "pg_holds envB new_key pid db (map (\<lambda>e. (e, None)) es)"
    using pg_session.import_rows_appends [OF empty _ _ st, of True "Ok ()"] by (auto simp: spec_has_def list_all_iff)
  have "bs_count ?ops now None None None (pb_db b') = Ok 0"
    using pg_session.count_law [OF empty pg_posed_all] by (simp add: spec_select_def)
  with db have "copy_into now draw (on_pg_backend ?ops) scan b' = (Ok (), b'\<lparr>pb_db := db\<rparr>)"
    by (simp add: copy_into_def import_scan_rows [OF scan(2)] import_rows_on_pg_backend)
  then have "copy_profile (sqlite_backend_ops EA envA (Ok ()) rkA nonceA keyA' nameA) (pg_backend_ops EB envB (Ok ()) rk nonce new_key random_name)
      now draw from_profile to_profile a b = (Ok (), a', b'\<lparr>pb_db := db\<rparr>)"
    using assms(3,6) scan(1) pid
    by (simp add: copy_profile_def sqlite_backend_ops_def sqlite_backend_scan_def pg_backend_ops_def pg_backend_session_def
        ignore_duplicate_def opt_or_def)
  then show ?thesis using es db(2) by auto
qed

theorem copy_profile_to_postgres_witness:
  "\<exists>pid b''. copy_profile (sqlite_backend_ops toy_env toy_sqlite_env (Ok ()) ([], [], \<lambda>_. []) [] toy_profile_key [])
      (pg_backend_ops toy_env toy_sqlite_env (Ok ()) ([], [], \<lambda>_. []) [] toy_profile_key []) 4999 (\<lambda>i. (0, replicate 12 2)) ''p'' ''q''
      toy_source toy_pg_backend = (Ok (), toy_source, b'') \<and>
    pg_holds toy_sqlite_env toy_profile_key pid (pb_db b'') [(toy_entry, None)]"
proof -
  have src: "resolve_profile_key toy_env (se_profile toy_sqlite_env) ''p'' toy_source = (Ok (1, toy_profile_key), toy_source)"
    by (simp add: resolve_profile_key_def get_profile_def add_profile_def toy_source_def)
  have wf: "pg_wf (pb_db toy_pg_backend)" using toy_pg_db_holds by (simp add: toy_pg_backend_def pg_holds_def)
  obtain name b' where tgt: "pg_create_profile toy_env (se_profile toy_sqlite_env) [] toy_profile_key [] (Some ''q'') toy_pg_backend = (Ok name, b')"
    by (simp add: pg_create_profile_def toy_pg_backend_def toy_pg_db_def toy_db_def opt_or_def pg_insert_profile_def Let_def encode_profile_key_def
        profile_key_to_bytes_def toy_sqlite_env_def toy_profile_env_def key_cache_new_def wrap_data_def add_profile_def)
  have st: "\<forall>i. \<forall>s \<in> set [(toy_entry, Some 5000)]. sqlite_storable toy_sqlite_env toy_profile_key (snd ((\<lambda>i. (0 :: int, replicate 12 2)) i)) (fst s)"
    using toy_encrypt_update toy_entry_valid by (simp add: sqlite_storable_def) (simp add: toy_entry_def)
  have rep: "represents (key_encryptor toy_sqlite_env toy_profile_key) 1 (be_db toy_source) [(toy_entry, Some 5000)]"
    using toy_store_represents by (simp add: toy_source_def)
  from copy_profile_to_postgres [OF toy_sqlite_env_correct toy_sqlite_env_correct src rep wf tgt st,
      of 4999 "([], [], \<lambda>_. [])" "[]" toy_profile_key "[]" "([], [], \<lambda>_. [])"]
  show ?thesis by (auto simp: visible_def unexpired_def)
qed

end
