(* ===== verification/Postgres_Provision.thy ===== *)
theory Postgres_Provision
  imports Postgres_Backend
begin

text \<open>
  Creating, opening and removing the database of a PostgreSQL store
  (\<open>askar-storage/src/backend/postgres/provision.rs\<close>), on a server that other clients use too. The main
  results: a store that was provisioned opens again; a failing provisioning leaves every store as it
  was; two clients can provision at the same time; and the two conditions under which provisioning an
  existing store fails although it could be opened.
\<close>

section \<open>The server\<close>

text \<open>
  The databases of the server by name, and in each the schemas that hold the tables of a store. An
  error of the server carries its code.
\<close>

datatype pg_error = PgCode string | PgOther

type_synonym pg_catalog = "string \<rightharpoonup> PgDatabase"

record PgServer =
  databases :: "string \<rightharpoonup> pg_catalog"

text \<open>
  What is foreign: faults of connecting to an URI, of the administrative statements and of closing a
  connection, and what other clients do while the database is being created.
\<close>

record pg_client =
  cl_connect_fault :: "string \<Rightarrow> pg_error option"
  cl_admin_fault :: "pg_error option"
  cl_close_fault :: bool
  cl_others :: "PgServer \<Rightarrow> PgServer"

text \<open>
  \<open>pool\<close>: the pool of connections, as the number of connections that can be taken from it; taking one from
  an empty pool waits until it times out. \<open>3D000\<close> says that there is no such database.
\<close>

definition pg_pool :: "pg_client \<Rightarrow> PostgresStoreOptions \<Rightarrow> PgServer \<Rightarrow> (nat, pg_error) result" where
  "pg_pool F opts srv =
     (case cl_connect_fault F (pg_uri opts) of
        Some e \<Rightarrow> Err e
      | None \<Rightarrow> if databases srv (pg_name opts) = None then Err (PgCode ''3D000'') else Ok (pg_max_connections opts))"

text \<open>The statements \<open>CREATE DATABASE\<close> and \<open>DROP DATABASE\<close>; \<open>42P04\<close> says that the database exists.\<close>

definition create_database :: "pg_client \<Rightarrow> string \<Rightarrow> PgServer \<Rightarrow> (unit, pg_error) result \<times> PgServer" where
  "create_database F name srv =
     (case cl_admin_fault F of
        Some e \<Rightarrow> (Err e, srv)
      | None \<Rightarrow>
          if databases srv name \<noteq> None then (Err (PgCode ''42P04''), srv)
          else (Ok (), srv\<lparr>databases := (databases srv)(name \<mapsto> Map.empty)\<rparr>))"

definition drop_database :: "pg_client \<Rightarrow> string \<Rightarrow> PgServer \<Rightarrow> (unit, pg_error) result \<times> PgServer" where
  "drop_database F name srv =
     (case cl_admin_fault F of
        Some e \<Rightarrow> (Err e, srv)
      | None \<Rightarrow>
          if databases srv name = None then (Err (PgCode ''3D000''), srv)
          else (Ok (), srv\<lparr>databases := (databases srv)(name := None)\<rparr>))"

text \<open>\<open>close\<close> of the administrative connection, with \<open>?\<close>.\<close>

definition close_admin :: "pg_client \<Rightarrow> 'a storage_result \<Rightarrow> 'a storage_result" where
  "close_admin F r = (if cl_close_fault F then sqlx_error else r)"

definition create_db_pool :: "pg_client \<Rightarrow> PostgresStoreOptions \<Rightarrow> PgServer \<Rightarrow> nat storage_result \<times> PgServer" where
  "create_db_pool F opts srv =
     (case pg_pool F opts srv of
        Ok pool \<Rightarrow> (Ok pool, srv)
      | Err e \<Rightarrow>
          if e = PgCode ''3D000'' then
            (if cl_connect_fault F (pg_admin_uri opts) \<noteq> None then
               (Err (err_msg storage_kind.Backend ''Error creating admin connection to database''), srv)
             else
               (let (created, srv) = create_database F (pg_name opts) (cl_others F srv);
                    opened = (case pg_pool F opts srv of Ok pool \<Rightarrow> Ok pool | _ \<Rightarrow> sqlx_error)
                in (close_admin F
                     (case created of
                        Ok _ \<Rightarrow> opened
                      | Err e \<Rightarrow>
                          if e = PgCode ''23505'' \<or> e = PgCode ''42P04'' then opened
                          else Err (err_msg storage_kind.Backend ''Error creating database'')
                      | Panic \<Rightarrow> Panic), srv)))
          else (Err (err_msg storage_kind.Backend ''Error opening database''), srv)
      | Panic \<Rightarrow> (Panic, srv))"

section \<open>Schemas\<close>

text \<open>
  The schemas in which a name without schema is looked up: the one of the options, or those of the user
  and \<open>public\<close>, the default of the server for a user who is named in the URI.
\<close>

definition search_path :: "PostgresStoreOptions \<Rightarrow> string list" where
  "search_path opts = (case pg_schema opts of Some s \<Rightarrow> [s] | None \<Rightarrow> [pg_username opts, ''public''])"

fun find_tables :: "string list \<Rightarrow> pg_catalog \<Rightarrow> (string \<times> PgDatabase) option" where
  "find_tables [] cat = None"
| "find_tables (s # path) cat = (case cat s of Some db \<Rightarrow> Some (s, db) | None \<Rightarrow> find_tables path cat)"

text \<open>\<open>DROP TABLE IF EXISTS\<close>.\<close>

definition reset_db :: "string list \<Rightarrow> pg_catalog \<Rightarrow> pg_catalog" where
  "reset_db path cat = (case find_tables path cat of Some (s, db) \<Rightarrow> cat(s := None) | None \<Rightarrow> cat)"

text \<open>
  The check for an existing store. The server counts the parameters of a statement by the placeholders
  \<open>$n\<close> in it and refuses to bind any other number of values.
\<close>

fun pg_params :: "string \<Rightarrow> nat" where
  "pg_params [] = 0"
| "pg_params (c # s) = (if c = CHR ''$'' then max (parse_digits (takeWhile is_digit s)) (pg_params s) else pg_params s)"

definition SCHEMA_CHECK_QUERY :: string where
  "SCHEMA_CHECK_QUERY = ''SELECT COUNT(*) FROM information_schema.tables'' @ nl
     @ ''WHERE table_schema=?1 AND table_name='' @ quoted ''config''"

definition check_existing :: "PostgresStoreOptions \<Rightarrow> pg_catalog \<Rightarrow> bool storage_result" where
  "check_existing opts cat =
     (case pg_schema opts of
        Some schema \<Rightarrow>
          if pg_params SCHEMA_CHECK_QUERY = 1 then Ok (cat schema \<noteq> None)
          else Err (err_msg storage_kind.Backend ''Error checking for existing store'')
      | None \<Rightarrow> Ok (list_ex (\<lambda>s. cat s \<noteq> None) (search_path opts)))"

section \<open>Creating and opening a store\<close>

text \<open>
  \<open>init_db\<close>: the tables are created in the given schema, the rows go to the tables that the search
  path finds.
\<close>

definition pg_init_db :: "string list \<Rightarrow> string \<Rightarrow> string \<Rightarrow> bytes \<Rightarrow> string \<Rightarrow> pg_catalog \<Rightarrow> (int \<times> PgDatabase \<times> pg_catalog) storage_result" where
  "pg_init_db path profile_name store_key_ref enc_profile_key schema cat =
     (if cat schema \<noteq> None then Err (err_msg storage_kind.Backend ''Error creating database tables'')
      else
        (let empty = \<lparr>pg_tables = \<lparr>config = Map.empty, profiles = [], items = [], items_tags = []\<rparr>, item_seq = 0, profile_seq = 0\<rparr>;
             cat = cat(schema \<mapsto> empty)
         in case find_tables path cat of
              None \<Rightarrow> Err (err_msg storage_kind.Backend ''Error inserting configuration'')
            | Some (s, db) \<Rightarrow>
                if list_ex (\<lambda>n. config (pg_tables db) n \<noteq> None) [''default_profile'', ''key'', ''version''] then
                  Err (err_msg storage_kind.Backend ''Error inserting configuration'')
                else
                  (let db = on_pg_tables (\<lambda>t. t\<lparr>config := (config t)(''default_profile'' \<mapsto> Some profile_name,
                          ''key'' \<mapsto> Some store_key_ref, ''version'' \<mapsto> Some ''1'')\<rparr>) db
                   in case pg_insert_profile profile_name enc_profile_key db of
                        (Some pid, db) \<Rightarrow> Ok (pid, db, cat(s \<mapsto> db))
                      | (None, db) \<Rightarrow> Err (err_msg storage_kind.Backend ''Error inserting default profile''))))"

definition pg_open_db :: "store_key_env \<Rightarrow> profile_env \<Rightarrow> StoreKeyMethod option \<Rightarrow> PassKey \<Rightarrow> string option \<Rightarrow> string \<Rightarrow> string
    \<Rightarrow> nat \<Rightarrow> string list \<Rightarrow> pg_catalog \<Rightarrow> PostgresBackend storage_result" where
  "pg_open_db E P method pass_key profile host name pool path cat =
     (if pool = 0 then sqlx_error
      else
        case find_tables path cat of
          None \<Rightarrow> Err (err_msg storage_kind.Backend ''Error fetching store configuration'')
        | Some (s, db) \<Rightarrow>
            (let t = pg_tables db in
             res_bind (config_text ''default_profile'' t) (\<lambda>default_profile.
             res_bind (config_text ''key'' t) (\<lambda>store_key_ref.
             res_bind (check_version t) (\<lambda>ver_ok.
             if \<not> ver_ok then Err (err_msg storage_kind.Unsupported ''Store version not found'')
             else
               res_bind (ok_or (case profile of Some p \<Rightarrow> Some p | None \<Rightarrow> default_profile)
                 (err_msg storage_kind.Unsupported ''Default store profile not found'')) (\<lambda>profile.
               res_bind (resolve_store_key E method pass_key store_key_ref) (\<lambda>store_key.
               (let cache = key_cache_new store_key in
                case find_profile profile t of
                  None \<Rightarrow> sqlx_error
                | Some row \<Rightarrow>
                    res_bind (load_key E P cache (p_key row)) (\<lambda>profile_key.
                    Ok \<lparr>pb_db = db, pb_active_profile = profile,
                       pb_key_cache = add_profile profile (p_id row) profile_key cache, pb_host = host, pb_name = name\<rparr>)))))))))"

text \<open>
  \<open>provision\<close>. A connection is taken from the pool and keeps its transaction open until the end; an
  error rolls it back. \<open>pg_catalog_of\<close> are the schemas of the database that the pool is connected to.
\<close>

definition pg_catalog_of :: "PostgresStoreOptions \<Rightarrow> PgServer \<Rightarrow> pg_catalog" where
  "pg_catalog_of opts srv = opt_or (databases srv (pg_name opts)) Map.empty"

definition pg_create_store :: "store_key_env \<Rightarrow> profile_env \<Rightarrow> bytes \<Rightarrow> bytes \<Rightarrow> bytes \<Rightarrow> ProfileKey \<Rightarrow> string \<Rightarrow> PostgresStoreOptions
    \<Rightarrow> StoreKeyMethod \<Rightarrow> PassKey \<Rightarrow> string option \<Rightarrow> pg_catalog \<Rightarrow> (PostgresBackend \<times> pg_catalog) storage_result" where
  "pg_create_store E P salt rnd nonce new_key random_name opts method pass_key profile cat =
     res_bind (init_keys E P salt rnd nonce new_key method (pass_key_into_owned pass_key))
       (\<lambda>(profile_key, enc_profile_key, store_key, store_key_ref).
     (let default_profile = opt_or profile random_name in
      res_bind (pg_init_db (search_path opts) default_profile store_key_ref enc_profile_key
        (opt_or (pg_schema opts) (pg_username opts)) cat) (\<lambda>(profile_id, db, cat).
      Ok (\<lparr>pb_db = db, pb_active_profile = default_profile,
         pb_key_cache = add_profile default_profile profile_id profile_key (key_cache_new store_key),
         pb_host = pg_host opts, pb_name = pg_name opts\<rparr>, cat))))"

definition pg_provision :: "store_key_env \<Rightarrow> profile_env \<Rightarrow> pg_client \<Rightarrow> bytes \<Rightarrow> bytes \<Rightarrow> bytes \<Rightarrow> ProfileKey \<Rightarrow> string \<Rightarrow> PostgresStoreOptions
    \<Rightarrow> StoreKeyMethod \<Rightarrow> PassKey \<Rightarrow> string option \<Rightarrow> bool \<Rightarrow> PgServer \<Rightarrow> PostgresBackend storage_result \<times> PgServer" where
  "pg_provision E P F salt rnd nonce new_key random_name opts method pass_key profile recreate srv =
     (case create_db_pool F opts srv of
        (Ok pool, srv) \<Rightarrow>
          if pool = 0 then (sqlx_error, srv)
          else
            (let pool = pool - 1; cat = pg_catalog_of opts srv; path = search_path opts in
             case (if recreate then Ok False else check_existing opts cat) of
               Ok True \<Rightarrow> (pg_open_db E P (Some method) pass_key profile (pg_host opts) (pg_name opts) pool path cat, srv)
             | Ok False \<Rightarrow>
                 (case pg_create_store E P salt rnd nonce new_key random_name opts method pass_key profile
                    (if recreate then reset_db path cat else cat) of
                    Ok (be, cat) \<Rightarrow> (Ok be, srv\<lparr>databases := (databases srv)(pg_name opts \<mapsto> cat)\<rparr>)
                  | Err e \<Rightarrow> (Err e, srv)
                  | Panic \<Rightarrow> (Panic, srv))
             | Err e \<Rightarrow> (Err e, srv)
             | Panic \<Rightarrow> (Panic, srv))
      | (Err e, srv) \<Rightarrow> (Err e, srv)
      | (Panic, srv) \<Rightarrow> (Panic, srv))"

definition pg_open :: "store_key_env \<Rightarrow> profile_env \<Rightarrow> pg_client \<Rightarrow> PostgresStoreOptions \<Rightarrow> StoreKeyMethod option \<Rightarrow> PassKey \<Rightarrow> string option
    \<Rightarrow> PgServer \<Rightarrow> PostgresBackend storage_result" where
  "pg_open E P F opts method pass_key profile srv =
     (case pg_pool F opts srv of
        Ok pool \<Rightarrow> pg_open_db E P method pass_key profile (pg_host opts) (pg_name opts) pool (search_path opts) (pg_catalog_of opts srv)
      | Err e \<Rightarrow>
          Err (if e = PgCode ''3D000'' then err_msg storage_kind.NotFound ''The requested database was not found''
               else err_msg storage_kind.Backend ''Error connecting to database pool'')
      | Panic \<Rightarrow> Panic)"

definition pg_remove :: "pg_client \<Rightarrow> PostgresStoreOptions \<Rightarrow> PgServer \<Rightarrow> bool storage_result \<times> PgServer" where
  "pg_remove F opts srv =
     (if cl_connect_fault F (pg_admin_uri opts) \<noteq> None then
        (Err (err_msg storage_kind.Backend ''Error creating admin connection to database''), srv)
      else
        (let (dropped, srv) = drop_database F (pg_name opts) srv in
         (case dropped of
            Ok _ \<Rightarrow> close_admin F (Ok True)
          | Err e \<Rightarrow>
              if e = PgCode ''3D000'' then close_admin F (Ok False)
              else Err (err_msg storage_kind.Backend ''Error removing database'')
          | Panic \<Rightarrow> Panic, srv)))"

section \<open>Provisioning\<close>

lemma search_path_head: "\<exists>rest. search_path opts = opt_or (pg_schema opts) (pg_username opts) # rest"
  by (cases "pg_schema opts") (simp_all add: search_path_def opt_or_def)

text \<open>The tables go to the schema that the search path looks at first, and are found there.\<close>

lemma pg_create_store_OkD:
  assumes "pg_create_store E P salt rnd nonce new_key random_name opts method pass_key profile cat = Ok (be, cat')"
  defines "name \<equiv> opt_or profile random_name"
  shows "\<exists>enc sk uri. init_keys E P salt rnd nonce new_key method pass_key = Ok (new_key, enc, sk, uri) \<and>
    be = \<lparr>pb_db = \<lparr>pg_tables = \<lparr>config = [''default_profile'' \<mapsto> Some name, ''key'' \<mapsto> Some uri, ''version'' \<mapsto> Some ''1''],
        profiles = [\<lparr>p_id = 1, p_name = name, p_key = enc\<rparr>], items = [], items_tags = []\<rparr>, item_seq = 0, profile_seq = 1\<rparr>,
      pb_active_profile = name, pb_key_cache = add_profile name 1 new_key (key_cache_new sk), pb_host = pg_host opts, pb_name = pg_name opts\<rparr> \<and>
    find_tables (search_path opts) cat' = Some (opt_or (pg_schema opts) (pg_username opts), pb_db be)"
proof -
  obtain k enc sk uri where i: "init_keys E P salt rnd nonce new_key method pass_key = Ok (k, enc, sk, uri)"
    using assms(1) by (auto simp: pg_create_store_def result_simps)
  moreover from i have k: "k = new_key" by (auto simp: init_keys_def result_simps split: if_splits)
  moreover obtain rest where "search_path opts = opt_or (pg_schema opts) (pg_username opts) # rest" using search_path_head by blast
  ultimately show ?thesis
    using assms(1)
    by (auto simp: pg_create_store_def pg_init_db_def name_def Let_def on_pg_tables_def pg_insert_profile_def result_simps split: if_splits)
qed

text \<open>Provisioning with \<open>recreate\<close> is the step of \<open>pg_change\<close> that starts over, and the first profile has the first id again.\<close>

lemma recreate_is_change:
  assumes "pg_provision E P F salt rnd nonce new_key random_name opts method pass_key profile True srv = (Ok be, srv')"
  shows "pg_change True db (pb_db be) \<and> get_profile (pb_key_cache be) (pb_active_profile be) = Some (1, new_key)"
proof -
  obtain cat where "\<exists>cat'. pg_create_store E P salt rnd nonce new_key random_name opts method pass_key profile cat = Ok (be, cat')"
    using assms by (auto simp: pg_provision_def Let_def sqlx_error_def split: prod.splits result.splits if_splits)
  then obtain enc sk uri where be: "be = \<lparr>pb_db = \<lparr>pg_tables = \<lparr>config = [''default_profile'' \<mapsto> Some (opt_or profile random_name),
        ''key'' \<mapsto> Some uri, ''version'' \<mapsto> Some ''1''],
        profiles = [\<lparr>p_id = 1, p_name = opt_or profile random_name, p_key = enc\<rparr>], items = [], items_tags = []\<rparr>, item_seq = 0, profile_seq = 1\<rparr>,
      pb_active_profile = opt_or profile random_name, pb_key_cache = add_profile (opt_or profile random_name) 1 new_key (key_cache_new sk),
      pb_host = pg_host opts, pb_name = pg_name opts\<rparr>"
    using pg_create_store_OkD by blast
  have "pg_recreated (config (pg_tables (pb_db be))) (opt_or profile random_name) enc = (Some 1, pb_db be)"
    by (simp add: be pg_recreated_def pg_insert_profile_def)
  with change_recreate show ?thesis by (auto simp: be get_profile_def add_profile_def)
qed

lemma pg_open_db_again:
  assumes "pg_open_db E P method pass_key profile host name pool path cat = Ok be" "pool' \<noteq> 0"
  shows "pg_open_db E P method pass_key (Some (pb_active_profile be)) host name pool' path cat = Ok be"
proof -
  obtain s db where f: "find_tables path cat = Some (s, db)" "pool \<noteq> 0"
    using assms(1) by (auto simp: pg_open_db_def sqlx_error_def split: if_splits option.splits)
  obtain d r where c: "config_text ''default_profile'' (pg_tables db) = Ok d" "config_text ''key'' (pg_tables db) = Ok r"
      "check_version (pg_tables db) = Ok True"
    using assms(1) f by (auto simp: pg_open_db_def Let_def result_simps split: if_splits)
  obtain p where p: "(case profile of Some p \<Rightarrow> Some p | None \<Rightarrow> d) = Some p"
    using assms(1) f c by (auto simp: pg_open_db_def Let_def result_simps ok_or_def split: option.splits)
  then show ?thesis
    using assms f c by (auto simp: pg_open_db_def Let_def result_simps ok_or_def sqlx_error_def split: option.splits)
qed

lemma create_db_pool_OkD:
  assumes "create_db_pool F opts srv = (Ok pool, srv')"
  shows "pg_pool F opts srv' = Ok pool" "pool = pg_max_connections opts" "databases srv' (pg_name opts) \<noteq> None"
proof -
  show p: "pg_pool F opts srv' = Ok pool"
    using assms by (auto simp: create_db_pool_def close_admin_def sqlx_error_def Let_def split: result.splits if_splits prod.splits)
  then show "pool = pg_max_connections opts" "databases srv' (pg_name opts) \<noteq> None"
    by (auto simp: pg_pool_def split: option.splits if_splits)
qed

lemma provisioned_reopens:
  assumes "store_key_env_correct E" and "length salt = SALT_LENGTH"
    and "\<forall>b. pe_to_cbor P new_key = Some b \<longrightarrow> pe_from_cbor P b = Some new_key"
    and "pg_provision E P F salt rnd nonce new_key random_name opts method pass_key profile recreate srv = (Ok be, srv')"
  shows "pg_open E P F opts (Some method) pass_key (Some (pb_active_profile be)) srv' = Ok be"
proof -
  obtain pool srv1 where c: "create_db_pool F opts srv = (Ok pool, srv1)"
    using assms(4) by (cases "create_db_pool F opts srv"; cases "fst (create_db_pool F opts srv)") (auto simp: pg_provision_def)
  note p = create_db_pool_OkD [OF c]
  have pool: "pool \<noteq> 0" using assms(4) c by (cases "pool = 0") (auto simp: pg_provision_def sqlx_error_def)
  let ?cat = "pg_catalog_of opts srv1" and ?path = "search_path opts"
  let ?check = "if recreate then Ok False else check_existing opts ?cat"
  note prov = assms(4) [unfolded pg_provision_def c prod.case result.case if_not_P [OF pool] Let_def]
  show ?thesis
  proof (cases ?check)
    case (Ok existing)
    show ?thesis
    proof (cases existing)
      case True
      with prov Ok have "pg_open_db E P (Some method) pass_key profile (pg_host opts) (pg_name opts) (pool - 1) ?path ?cat = Ok be" "srv' = srv1"
        by auto
      from pg_open_db_again [OF this(1) pool] this(2) p show ?thesis by (simp add: pg_open_def)
    next
      case False
      with prov Ok obtain cat' where s: "pg_create_store E P salt rnd nonce new_key random_name opts method pass_key profile
            (if recreate then reset_db ?path ?cat else ?cat) = Ok (be, cat')"
          "srv' = srv1\<lparr>databases := (databases srv1)(pg_name opts \<mapsto> cat')\<rparr>"
        by (auto split: result.splits prod.splits)
      from pg_create_store_OkD [OF s(1)] obtain enc sk uri where
        k: "init_keys E P salt rnd nonce new_key method pass_key = Ok (new_key, enc, sk, uri)" and
        be: "be = \<lparr>pb_db = \<lparr>pg_tables = \<lparr>config = [''default_profile'' \<mapsto> Some (opt_or profile random_name), ''key'' \<mapsto> Some uri, ''version'' \<mapsto> Some ''1''],
            profiles = [\<lparr>p_id = 1, p_name = opt_or profile random_name, p_key = enc\<rparr>], items = [], items_tags = []\<rparr>, item_seq = 0, profile_seq = 1\<rparr>,
          pb_active_profile = opt_or profile random_name, pb_key_cache = add_profile (opt_or profile random_name) 1 new_key (key_cache_new sk),
          pb_host = pg_host opts, pb_name = pg_name opts\<rparr>" and
        f: "find_tables ?path cat' = Some (opt_or (pg_schema opts) (pg_username opts), pb_db be)" by blast
      obtain r where r: "store_key_reference_parse_uri uri = Ok r" "compare_method r method"
          "store_key_reference_resolve E r pass_key = Ok sk" "load_key E P (key_cache_new sk) enc = Ok new_key"
        using init_keys_reopen [OF assms(1-3) k] by blast
      have "resolve_store_key E (Some method) pass_key (Some uri) = Ok sk" using r(1-3) by (simp add: resolve_store_key_def)
      moreover have "pg_pool F opts srv' = Ok pool" "pg_catalog_of opts srv' = cat'"
        using p by (simp_all add: s(2) pg_pool_def pg_catalog_of_def opt_or_def split: option.splits if_splits)
      ultimately show ?thesis
        using f r(4) pool by (simp add: pg_open_def pg_open_db_def be Let_def config_text_def check_version_def find_profile_def)
    qed
  qed (use prov in simp_all)
qed

text \<open>
  A PostgreSQL store that was provisioned, newly, again from scratch, or by opening the one that was
  there, is opened with the same key method and pass key and its active profile, and is the same:
  the same tables, profile and profile key.
\<close>

theorem postgres_provisioned_store_opens:
  assumes "store_key_env_correct E" and "length salt = SALT_LENGTH"
    and "\<forall>b. pe_to_cbor P new_key = Some b \<longrightarrow> pe_from_cbor P b = Some new_key"
    and "pg_provision E P F salt rnd nonce new_key random_name opts method pass_key profile recreate srv = (Ok be, srv')"
  shows "pg_open E P F opts (Some method) pass_key (Some (pb_active_profile be)) srv' = Ok be"
  by (rule provisioned_reopens [OF assms])

text \<open>A server with one empty database, and options for it.\<close>

definition toy_pg_options :: "nat \<Rightarrow> string option \<Rightarrow> PostgresStoreOptions" where
  "toy_pg_options connections schema = \<lparr>pg_connect_timeout = 30, pg_idle_timeout = 300, pg_max_connections = connections, pg_min_connections = 0,
     pg_uri = ''postgres://u@h/db'', pg_admin_uri = ''postgres://u@h/postgres'', pg_host = ''h'', pg_name = ''db'', pg_username = ''u'', pg_schema = schema\<rparr>"

definition toy_client :: pg_client where
  "toy_client = \<lparr>cl_connect_fault = (\<lambda>_. None), cl_admin_fault = None, cl_close_fault = False, cl_others = (\<lambda>s. s)\<rparr>"

definition toy_server :: PgServer where
  "toy_server = \<lparr>databases = [''db'' \<mapsto> Map.empty]\<rparr>"

definition toy_pg_env :: profile_env where
  "toy_pg_env = toy_cbor_env\<lparr>pe_to_cbor := \<lambda>k. if k = toy_profile_key then Some [] else None\<rparr>"

lemma toy_pg_provision:
  assumes "n \<noteq> 0" "schema = None \<or> recreate"
  shows "\<exists>be srv. pg_provision toy_env toy_pg_env toy_client (replicate 16 3) [] [] toy_profile_key ''r''
      (toy_pg_options n schema) Unprotected None (Some ''p'') recreate toy_server = (Ok be, srv) \<and>
    pb_active_profile be = ''p'' \<and> databases srv ''db'' \<noteq> None"
  using assms
  by (auto simp: pg_provision_def create_db_pool_def pg_pool_def toy_client_def toy_pg_options_def toy_server_def pg_catalog_of_def opt_or_def
      check_existing_def search_path_def reset_db_def pg_create_store_def init_keys_def store_key_method_resolve_def encode_profile_key_def
      profile_key_to_bytes_def toy_pg_env_def toy_cbor_env_def toy_profile_env_def wrap_data_def pg_init_db_def on_pg_tables_def pg_insert_profile_def
      Let_def store_key_empty_def split: option.splits)

lemma toy_pg_reopens:
  assumes "n \<noteq> 0" "schema = None \<or> recreate"
    and "\<And>be srv. pg_provision toy_env toy_pg_env toy_client (replicate 16 3) [] [] toy_profile_key ''r''
      (toy_pg_options n schema) Unprotected None (Some ''p'') recreate toy_server = (Ok be, srv) \<Longrightarrow>
      pg_open toy_env toy_pg_env toy_client (toy_pg_options n schema) (Some Unprotected) None (Some (pb_active_profile be)) srv = Ok be"
  shows "\<exists>be srv. pg_open toy_env toy_pg_env toy_client (toy_pg_options n schema) (Some Unprotected) None (Some ''p'') srv = Ok be \<and>
    databases srv ''db'' \<noteq> None"
  using toy_pg_provision [OF assms(1,2)] assms(3) by metis

theorem postgres_provisioned_store_opens_witness:
  "\<exists>be srv. pg_open toy_env toy_pg_env toy_client (toy_pg_options 1 None) (Some Unprotected) None (Some ''p'') srv = Ok be \<and>
    databases srv ''db'' \<noteq> None"
proof (rule toy_pg_reopens [of 1 None False])
  show "pg_open toy_env toy_pg_env toy_client (toy_pg_options 1 None) (Some Unprotected) None (Some (pb_active_profile be)) srv = Ok be"
    if "pg_provision toy_env toy_pg_env toy_client (replicate 16 3) [] [] toy_profile_key ''r'' (toy_pg_options 1 None) Unprotected None (Some ''p'')
      False toy_server = (Ok be, srv)" for be srv
    by (rule postgres_provisioned_store_opens [OF toy_env_correct _ _ that]) (simp_all add: SALT_LENGTH_def toy_pg_env_def toy_cbor_env_def)
qed simp_all

section \<open>Provisioning an existing store\<close>

lemma pg_open_poolD:
  "pg_pool F opts srv = Ok pool \<Longrightarrow> pg_open E P F opts method pass_key profile srv = Ok be \<Longrightarrow>
    pool \<noteq> 0 \<and> find_tables (search_path opts) (pg_catalog_of opts srv) \<noteq> None"
  by (cases "find_tables (search_path opts) (pg_catalog_of opts srv)"; cases "pool = 0") (auto simp: pg_open_def pg_open_db_def sqlx_error_def)

lemma find_tables_ex: "find_tables path cat \<noteq> None \<longleftrightarrow> list_ex (\<lambda>s. cat s \<noteq> None) path"
  by (induction path) (auto split: option.splits)

lemma schema_check_unbound: "pg_params SCHEMA_CHECK_QUERY = 0"
  by (simp add: SCHEMA_CHECK_QUERY_def nl_def quoted_def)

text \<open>
  C24. A store that can be opened cannot always be provisioned: without \<open>recreate\<close>, provisioning it
  with the same arguments fails when the options name a schema, since the statement that looks for it
  has a placeholder that the server does not know, and when the pool has a single connection, since
  the store is opened on a second one while the first is still held. The server is left as it was.
\<close>

theorem postgres_existing_store_not_provisioned:
  assumes "pg_open E P F opts (Some method) pass_key profile srv = Ok be" and "pg_pool F opts srv = Ok pool"
    and "pg_schema opts \<noteq> None \<or> pool = 1"
  shows "\<exists>e. pg_provision E P F salt rnd nonce new_key random_name opts method pass_key profile False srv = (Err e, srv) \<and>
    err_kind e = storage_kind.Backend"
proof -
  note p = pg_open_poolD [OF assms(2,1)]
  have pool: "create_db_pool F opts srv = (Ok pool, srv)" by (simp add: create_db_pool_def assms(2))
  show ?thesis
  proof (cases "pg_schema opts")
    case (Some s)
    then have "check_existing opts cat = Err (err_msg storage_kind.Backend ''Error checking for existing store'')" for cat
      by (simp add: check_existing_def schema_check_unbound)
    with pool p show ?thesis by (simp add: pg_provision_def)
  next
    case None
    then have "check_existing opts (pg_catalog_of opts srv) = Ok True" using p find_tables_ex by (simp add: check_existing_def)
    moreover have "pool = 1" using assms(3) None by simp
    ultimately show ?thesis using pool by (simp add: pg_provision_def pg_open_db_def sqlx_error_def)
  qed
qed

theorem postgres_existing_store_not_provisioned_witness:
  "(\<exists>be srv e. pg_open toy_env toy_pg_env toy_client (toy_pg_options 1 None) (Some Unprotected) None (Some ''p'') srv = Ok be \<and>
     pg_provision toy_env toy_pg_env toy_client [] [] [] toy_profile_key ''r'' (toy_pg_options 1 None) Unprotected None (Some ''p'') False srv = (Err e, srv)) \<and>
   (\<exists>be srv e. pg_open toy_env toy_pg_env toy_client (toy_pg_options 5 (Some ''s'')) (Some Unprotected) None (Some ''p'') srv = Ok be \<and>
     pg_provision toy_env toy_pg_env toy_client [] [] [] toy_profile_key ''r'' (toy_pg_options 5 (Some ''s'')) Unprotected None (Some ''p'') False srv = (Err e, srv))"
proof -
  have "\<exists>be srv. pg_open toy_env toy_pg_env toy_client (toy_pg_options n schema) (Some Unprotected) None (Some ''p'') srv = Ok be \<and>
      databases srv ''db'' \<noteq> None" if "n \<noteq> 0" "schema = None \<or> r" for n schema r
    using that
  proof (rule toy_pg_reopens [of n schema r])
    show "pg_open toy_env toy_pg_env toy_client (toy_pg_options n schema) (Some Unprotected) None (Some (pb_active_profile be)) srv = Ok be"
      if "pg_provision toy_env toy_pg_env toy_client (replicate 16 3) [] [] toy_profile_key ''r'' (toy_pg_options n schema) Unprotected None (Some ''p'')
        r toy_server = (Ok be, srv)" for be srv
      by (rule provisioned_reopens [OF toy_env_correct _ _ that]) (simp_all add: SALT_LENGTH_def toy_pg_env_def toy_cbor_env_def)
  qed
  then obtain be srv be' srv' where
    a: "pg_open toy_env toy_pg_env toy_client (toy_pg_options 1 None) (Some Unprotected) None (Some ''p'') srv = Ok be" "databases srv ''db'' \<noteq> None"
    and b: "pg_open toy_env toy_pg_env toy_client (toy_pg_options 5 (Some ''s'')) (Some Unprotected) None (Some ''p'') srv' = Ok be'" "databases srv' ''db'' \<noteq> None"
    by (metis zero_neq_numeral one_neq_zero)
  have pool: "pg_pool toy_client (toy_pg_options n schema) s = Ok n" if "databases s ''db'' \<noteq> None" for n schema s
    using that by (simp add: pg_pool_def toy_client_def toy_pg_options_def)
  have "pg_schema (toy_pg_options 5 (Some ''s'')) \<noteq> None" by (simp add: toy_pg_options_def)
  with a b pool show ?thesis
    using postgres_existing_store_not_provisioned [OF a(1) pool [OF a(2)], of "[]" "[]" "[]" toy_profile_key "''r''"]
      postgres_existing_store_not_provisioned [OF b(1) pool [OF b(2)], of "[]" "[]" "[]" toy_profile_key "''r''"] by blast
qed

section \<open>Other clients\<close>

text \<open>
  When another client creates the database between the failed attempt to connect and the statement that
  creates it, the statement fails and the database of the other client is used.
\<close>

lemma create_db_pool_race:
  assumes "\<And>uri. cl_connect_fault F uri = None" "cl_admin_fault F = None" "\<not> cl_close_fault F"
  shows "\<exists>srv'. create_db_pool F opts srv = (Ok (pg_max_connections opts), srv') \<and>
    pg_catalog_of opts srv' = pg_catalog_of opts (if databases srv (pg_name opts) = None then cl_others F srv else srv)"
proof (cases "databases srv (pg_name opts)")
  case None
  then have "pg_pool F opts srv = Err (PgCode ''3D000'')" by (simp add: pg_pool_def assms(1))
  with None show ?thesis
    by (cases "databases (cl_others F srv) (pg_name opts)")
      (simp_all add: create_db_pool_def create_database_def pg_pool_def assms close_admin_def pg_catalog_of_def opt_or_def)
qed (simp add: create_db_pool_def pg_pool_def assms(1))

lemma create_db_pool_keeps:
  assumes "create_db_pool F opts srv = (r, srv')" "cl_others F srv = srv"
  shows "databases srv' n = databases srv n \<or> n = pg_name opts \<and> databases srv n = None \<and> databases srv' n = Some Map.empty"
  using assms by (auto simp: create_db_pool_def create_database_def Let_def split: result.splits if_splits option.splits prod.splits)

text \<open>
  C23. Provisioning is all or nothing: when it does not succeed, also with \<open>recreate\<close>, every store of
  every database of the server is as it was; all that may remain is a new database without a store.
\<close>

theorem postgres_failed_provision_keeps_stores:
  assumes "pg_provision E P F salt rnd nonce new_key random_name opts method pass_key profile recreate srv = (r, srv')"
    and "\<forall>be. r \<noteq> Ok be" and "cl_others F srv = srv"
  shows "databases srv' n = databases srv n \<or> n = pg_name opts \<and> databases srv n = None \<and> databases srv' n = Some Map.empty"
proof -
  obtain q srv1 where c: "create_db_pool F opts srv = (q, srv1)" by fastforce
  have "srv' = srv1"
  proof (cases q)
    case (Ok pool)
    let ?cat = "pg_catalog_of opts srv1" and ?path = "search_path opts"
    let ?s = "pg_create_store E P salt rnd nonce new_key random_name opts method pass_key profile (if recreate then reset_db ?path ?cat else ?cat)"
    show ?thesis
    proof (cases "pool = 0")
      case True
      with assms(1) c Ok show ?thesis by (auto simp: pg_provision_def)
    next
      case False
      note prov = assms(1) [unfolded pg_provision_def c Ok prod.case result.case if_not_P [OF False] Let_def]
      show ?thesis
        using prov assms(2) by (cases "if recreate then Ok False else check_existing opts ?cat"; cases ?s) (auto split: bool.splits)
    qed
  qed (use assms(1) c in \<open>auto simp: pg_provision_def\<close>)
  with create_db_pool_keeps [OF c assms(3)] show ?thesis by simp
qed

theorem postgres_failed_provision_keeps_stores_witness:
  "\<exists>e srv'. pg_provision toy_env toy_pg_env toy_client [] [] [] toy_profile_key ''r'' (toy_pg_options 1 None) RawKey None None True
      (toy_server\<lparr>databases := [''db'' \<mapsto> [''u'' \<mapsto> toy_pg_db]]\<rparr>) = (Err e, srv') \<and> databases srv' ''db'' = Some [''u'' \<mapsto> toy_pg_db]"
proof -
  let ?srv = "toy_server\<lparr>databases := [''db'' \<mapsto> [''u'' \<mapsto> toy_pg_db]]\<rparr>"
  obtain r srv' where p: "pg_provision toy_env toy_pg_env toy_client [] [] [] toy_profile_key ''r'' (toy_pg_options 1 None) RawKey None None True ?srv = (r, srv')"
    by fastforce
  then obtain e where r: "r = Err e"
    by (auto simp: pg_provision_def create_db_pool_def pg_pool_def toy_client_def toy_pg_options_def pg_create_store_def init_keys_def
        pass_key_is_empty_def pass_key_deref_def Let_def)
  from postgres_failed_provision_keeps_stores [OF p, of "''db''"] r p show ?thesis by (auto simp: toy_client_def)
qed

end
