(* ===== verification/Odbc_Session.thy ===== *)
theory Odbc_Session
  imports Postgres_Session
begin

text \<open>
  The sessions of the ODBC backend (\<open>OdbcSession\<close> of \<open>askar-storage/src/backend/odbc/mod.rs\<close>), over the same
  tables, whose ids are drawn from sequences (the schema \<open>odbc/db2.sql\<close>). The statements are put
  together without \<open>db_utils\<close>: the placeholders are plain question marks, offset and limit are
  applied while the rows are read, and the tags of an entry are read by a statement of their own. The
  sessions do not keep the contract of the other backends. What holds of them: the parameters are
  bound to their question marks; inserting a new entry, removing and all searches implement the
  specification. What does not: replacing an entry.
\<close>

section \<open>Environment\<close>

text \<open>
  In addition to what the other backends rely on: the size of the buffer into which the name and the
  value of a tag are read, and the difference of the server's \<open>CURRENT_TIMESTAMP\<close> from the universal time
  in which expiry times are written.
\<close>

record odbc_env =
  oe_base :: sqlite_env
  oe_tag_limit :: nat
  oe_zone :: int

text \<open>\<open>From<odbc_api::Error>\<close>.\<close>

definition odbc_error :: "'a storage_result" where
  "odbc_error = Err (err_msg storage_kind.Backend ''Error returned from the database'')"

definition odbc_unexpired :: "odbc_env \<Rightarrow> int \<Rightarrow> int option \<Rightarrow> bool" where
  "odbc_unexpired env now expiry = pg_unexpired (now + oe_zone env) expiry"

section \<open>Statements\<close>

text \<open>\<open>replace_odbc_arg_placeholders\<close>: every \<open>$$\<close> and every \<open>$n\<close> becomes a question mark.\<close>

function replace_odbc_arg_placeholders :: "string \<Rightarrow> string" where
  "replace_odbc_arg_placeholders [] = []"
| "replace_odbc_arg_placeholders (c # cs) =
     (if c \<noteq> CHR ''$'' then c # replace_odbc_arg_placeholders cs
      else
        (case cs of
           [] \<Rightarrow> [c]
         | d # ds \<Rightarrow>
             if d = CHR ''$'' then CHR ''?'' # replace_odbc_arg_placeholders ds
             else if is_digit d then CHR ''?'' # replace_odbc_arg_placeholders (dropWhile is_digit ds)
             else c # replace_odbc_arg_placeholders (d # ds)))"
  by pat_completeness auto
termination
  by (relation "measure length") (auto simp: less_Suc_eq_le intro: le_trans [OF length_dropWhile_le] le_SucI)

definition encode_odbc_tag_filter :: "profile_env \<Rightarrow> TagFilter option \<Rightarrow> ProfileKey \<Rightarrow> (string \<times> bytes list) option storage_result" where
  "encode_odbc_tag_filter P tag_filter key =
     (case tag_filter of
        Some tf \<Rightarrow>
          res_bind (tag_query (filter_query tf)) (\<lambda>tq.
          res_bind (encode_query (filter_encoder P key) tq []) (\<lambda>(clause, arguments).
          (case clause of
             Some flt \<Rightarrow> Ok (Some (replace_odbc_arg_placeholders flt, arguments))
           | None \<Rightarrow> Ok None)))
      | None \<Rightarrow> Ok None)"

definition COUNT_ITEMS :: string where
  "COUNT_ITEMS = ''SELECT COUNT(*) FROM items i'' @ nl @ ''WHERE profile_id = ?'' @ nl
     @ ''AND (category = ? OR ? IS NULL)'' @ nl @ ''AND (expiry IS NULL OR expiry > CURRENT_TIMESTAMP)''"

definition DELETE_ALL_ITEMS :: string where
  "DELETE_ALL_ITEMS = ''DELETE FROM items AS i'' @ nl @ ''WHERE i.profile_id = ?'' @ nl
     @ ''AND (i.category = ? OR ? IS NULL)''"

definition GET_ALL_ITEMS :: string where
  "GET_ALL_ITEMS = ''SELECT i.id, i.kind, i.category, i.name, i.value'' @ nl @ ''FROM items i WHERE i.profile_id = ?'' @ nl
     @ ''AND (i.category = ? OR ? IS NULL)'' @ nl @ ''AND (i.expiry IS NULL OR i.expiry > CURRENT_TIMESTAMP)''"

text \<open>
  \<open>create_query\<close>: the text of the statement and its parameters, with what the database evaluates.
\<close>

definition create_query :: "sqlite_env \<Rightarrow> int \<Rightarrow> ProfileKey \<Rightarrow> string \<Rightarrow> EntryKind option \<Rightarrow> string option \<Rightarrow> TagFilter option
    \<Rightarrow> OrderBy option \<Rightarrow> bool \<Rightarrow> search storage_result" where
  "create_query env pid key base kind category tag_filter order_by descending =
     res_bind (encrypt_category env key category) (\<lambda>enc_category.
     res_bind (encode_odbc_tag_filter (se_profile env) tag_filter key) (\<lambda>tag_filter'.
     res_bind (filter_condition (se_profile env) tag_filter key) (\<lambda>(cond, cond_args).
     (let args = params_push (opt_blob enc_category) (params_push (opt_blob enc_category) (params_push (ArgInt pid) params_new));
          (query, args) =
            (case kind of
               Some k \<Rightarrow>
                 (base @ '' AND (i.kind = ? OR ? IS NULL)'',
                  params_push (ArgInt (int (entry_kind_num k))) (params_push (ArgInt (int (entry_kind_num k))) args))
             | None \<Rightarrow> (base, args));
          (query, args) =
            (case tag_filter' of
               Some (filter_clause, filter_args) \<Rightarrow>
                 (query @ '' AND '' @ filter_clause, params_extend (map ArgBlob filter_args) args)
             | None \<Rightarrow> (query, args));
          query =
            (if starts_with_select query then (case order_by of Some ob \<Rightarrow> order_by_query query ob descending | None \<Rightarrow> query)
             else query)
      in Ok \<lparr>s_query = query, s_params = args, s_category = enc_category, s_condition = cond, s_arguments = cond_args\<rparr>))))"

section \<open>Reading\<close>

text \<open>\<open>get_decoded_tags\<close>: a name or a value that is longer than the buffer is cut.\<close>

definition cut_tag :: "nat \<Rightarrow> EncEntryTag \<Rightarrow> EncEntryTag" where
  "cut_tag n t = t\<lparr>enc_tag_name := take n (enc_tag_name t), enc_tag_value := take n (enc_tag_value t)\<rparr>"

definition get_decoded_tags :: "odbc_env \<Rightarrow> ProfileKey \<Rightarrow> int \<Rightarrow> Database \<Rightarrow> EntryTag list storage_result" where
  "get_decoded_tags env key item_id t =
     ed_tags (key_encryptor (oe_base env) key) (map (cut_tag (oe_tag_limit env)) (item_tags item_id t))"

definition odbc_row :: "odbc_env \<Rightarrow> ProfileKey \<Rightarrow> Database \<Rightarrow> ItemRow \<Rightarrow> Entry storage_result" where
  "odbc_row env key t r =
     (let X = key_encryptor (oe_base env) key in
      res_bind (get_decoded_tags env key (i_id r) t) (\<lambda>tags.
      res_bind (ed_category X (i_category r)) (\<lambda>category.
      res_bind (ed_name X (i_name r)) (\<lambda>name.
      res_bind (ed_value X (as_bytes category) (as_bytes name) (i_value r)) (\<lambda>value.
      res_bind (entry_kind_try_from (i_kind r)) (\<lambda>kind.
      Ok \<lparr>entry_kind = kind, entry_category = category, entry_name = name, entry_value = value, entry_tags = tags\<rparr>))))))"

text \<open>The loop of \<open>perform_scan\<close>; rows before the offset are skipped, and the limit ends the loop.\<close>

fun odbc_scan_loop :: "(ItemRow \<Rightarrow> Entry storage_result) \<Rightarrow> int \<Rightarrow> int \<Rightarrow> int \<Rightarrow> ItemRow list \<Rightarrow> Entry list storage_result" where
  "odbc_scan_loop conv offset limit row_number [] = Ok []"
| "odbc_scan_loop conv offset limit row_number (r # rs) =
     (let row_number = row_number + 1 in
      if row_number \<le> offset then odbc_scan_loop conv offset limit row_number rs
      else if limit \<noteq> - 1 \<and> row_number - offset > limit then Ok []
      else res_bind (conv r) (\<lambda>e. res_map (Cons e) (odbc_scan_loop conv offset limit row_number rs)))"

definition odbc_perform_scan :: "odbc_env \<Rightarrow> int \<Rightarrow> acquired \<Rightarrow> EntryKind option \<Rightarrow> string option \<Rightarrow> TagFilter option
    \<Rightarrow> int option \<Rightarrow> int option \<Rightarrow> OrderBy option \<Rightarrow> bool \<Rightarrow> PgDatabase \<Rightarrow> Entry list storage_result" where
  "odbc_perform_scan env now acquired kind category tag_filter offset limit order_by descending db =
     (let t = pg_tables db; B = oe_base env in
      res_bind acquired (\<lambda>(pid, key).
      res_bind (create_query B pid key GET_ALL_ITEMS kind category tag_filter order_by descending) (\<lambda>sr.
      odbc_scan_loop (odbc_row env key t) (opt_or offset 0) (opt_or limit (- 1)) 0
        (order_rows B order_by descending
          (filter (\<lambda>r. item_matches B pid kind sr t r \<and> odbc_unexpired env now (i_expiry r)) (items t))))))"

definition odbc_count :: "odbc_env \<Rightarrow> int \<Rightarrow> acquired \<Rightarrow> EntryKind option \<Rightarrow> string option \<Rightarrow> TagFilter option
    \<Rightarrow> PgDatabase \<Rightarrow> nat storage_result" where
  "odbc_count env now acquired kind category tag_filter db =
     (let t = pg_tables db; B = oe_base env in
      res_bind acquired (\<lambda>(pid, key).
      res_bind (create_query B pid key COUNT_ITEMS kind category tag_filter None False) (\<lambda>sr.
      Ok (length (filter (\<lambda>r. item_matches B pid kind sr t r \<and> odbc_unexpired env now (i_expiry r)) (items t))))))"

definition odbc_fetch :: "odbc_env \<Rightarrow> int \<Rightarrow> acquired \<Rightarrow> EntryKind \<Rightarrow> string \<Rightarrow> string \<Rightarrow> PgDatabase
    \<Rightarrow> Entry option storage_result" where
  "odbc_fetch env now acquired kind category name db =
     (let t = pg_tables db in
      res_bind acquired (\<lambda>(pid, key).
      (let X = key_encryptor (oe_base env) key in
       res_bind (ee_category X (as_bytes category)) (\<lambda>enc_category.
       res_bind (ee_name X (as_bytes name)) (\<lambda>enc_name.
       (case find (\<lambda>r. item_key r = (pid, entry_kind_num kind, enc_category, enc_name) \<and> odbc_unexpired env now (i_expiry r)) (items t) of
          Some row \<Rightarrow>
            res_bind (ed_value X (as_bytes category) (as_bytes name) (i_value row)) (\<lambda>dvalue.
            res_bind (get_decoded_tags env key (i_id row) t) (\<lambda>tags.
            Ok (Some \<lparr>entry_kind = kind, entry_category = category, entry_name = name, entry_value = dvalue, entry_tags = tags\<rparr>)))
        | None \<Rightarrow> Ok None))))))"

definition odbc_fetch_all :: "odbc_env \<Rightarrow> int \<Rightarrow> acquired \<Rightarrow> EntryKind option \<Rightarrow> string option \<Rightarrow> TagFilter option
    \<Rightarrow> int option \<Rightarrow> OrderBy option \<Rightarrow> bool \<Rightarrow> PgDatabase \<Rightarrow> Entry list storage_result" where
  "odbc_fetch_all env now acquired kind category tag_filter limit order_by descending db =
     odbc_perform_scan env now acquired kind category tag_filter None limit order_by descending db"

section \<open>Writing\<close>

definition odbc_remove_all :: "odbc_env \<Rightarrow> acquired \<Rightarrow> EntryKind option \<Rightarrow> string option \<Rightarrow> TagFilter option
    \<Rightarrow> PgDatabase \<Rightarrow> nat storage_result \<times> PgDatabase" where
  "odbc_remove_all env acquired kind category tag_filter db =
     (case res_bind acquired (\<lambda>(pid, key).
           res_map (Pair pid) (create_query (oe_base env) pid key DELETE_ALL_ITEMS kind category tag_filter None False)) of
        Ok (pid, sr) \<Rightarrow>
          (let (n, t) = delete_items (item_matches (oe_base env) pid kind sr (pg_tables db)) (pg_tables db) in (Ok n, db\<lparr>pg_tables := t\<rparr>))
      | Err e \<Rightarrow> (Err e, db)
      | Panic \<Rightarrow> (Panic, db))"

text \<open>
  \<open>INSERT_ITEM\<close>, without \<open>ON CONFLICT\<close>: a row that violates the unique index or the foreign key is an error
  of the statement.
\<close>

definition odbc_insert_item :: "int \<Rightarrow> nat \<Rightarrow> bytes \<Rightarrow> bytes \<Rightarrow> bytes \<Rightarrow> int option \<Rightarrow> PgDatabase \<Rightarrow> (unit, unit) result \<times> PgDatabase" where
  "odbc_insert_item pid kind category name value expiry db =
     (case pg_insert_item pid kind category name value expiry db of
        (Ok (Some row_id), db) \<Rightarrow> (Ok (), db)
      | (Ok None, db) \<Rightarrow> (Err (), db)
      | (Err e, db) \<Rightarrow> (Err e, db)
      | (Panic, db) \<Rightarrow> (Panic, db))"

text \<open>The tags of an item, whose id is looked up; there is no row to unwrap when the item is missing.\<close>

definition odbc_write_tags :: "int \<Rightarrow> EntryKind \<Rightarrow> bytes \<Rightarrow> bytes \<Rightarrow> EncEntryTag list option \<Rightarrow> Database \<Rightarrow> unit storage_result \<times> Database" where
  "odbc_write_tags pid kind enc_category enc_name enc_tags t =
     (case enc_tags of
        Some tags \<Rightarrow>
          (case find (\<lambda>r. item_key r = (pid, entry_kind_num kind, enc_category, enc_name)) (items t) of
             Some row \<Rightarrow> insert_tags (i_id row) tags t
           | None \<Rightarrow> (Panic, t))
      | None \<Rightarrow> (Ok (), t))"

text \<open>
  \<open>update\<close>. A statement that affects no row succeeds. \<open>DELETE_TAG\<close> is executed with the id of the
  profile. Nothing is rolled back.
\<close>

definition odbc_write :: "odbc_env \<Rightarrow> int \<Rightarrow> int \<Rightarrow> EntryKind \<Rightarrow> EntryOperation \<Rightarrow> bytes \<Rightarrow> bytes \<Rightarrow> bytes \<Rightarrow> EncEntryTag list option
    \<Rightarrow> int option \<Rightarrow> PgDatabase \<Rightarrow> unit storage_result \<times> PgDatabase" where
  "odbc_write env now pid kind operation enc_category enc_name enc_value enc_tags expiry_ms db =
     (case opt_expiry (oe_base env) now expiry_ms of
        Ok expiry \<Rightarrow>
          if operation = Insert then
            (case odbc_insert_item pid (entry_kind_num kind) enc_category enc_name enc_value expiry db of
               (Ok _, db) \<Rightarrow> map_prod id (\<lambda>t. db\<lparr>pg_tables := t\<rparr>) (odbc_write_tags pid kind enc_category enc_name enc_tags (pg_tables db))
             | (Err _, db) \<Rightarrow> (Err (err_msg storage_kind.Backend ''Error inserting new entry''), db)
             | (Panic, db) \<Rightarrow> (Panic, db))
          else
            (let t = snd (update_item pid (entry_kind_num kind) enc_category enc_name enc_value expiry (pg_tables db));
                 t = delete_tags pid t
             in map_prod id (\<lambda>t. db\<lparr>pg_tables := t\<rparr>) (odbc_write_tags pid kind enc_category enc_name enc_tags t))
      | Err e \<Rightarrow> (Err e, db)
      | Panic \<Rightarrow> (Panic, db))"

definition odbc_update :: "odbc_env \<Rightarrow> int \<Rightarrow> acquired \<Rightarrow> bytes \<Rightarrow> EntryKind \<Rightarrow> EntryOperation
    \<Rightarrow> string \<Rightarrow> string \<Rightarrow> bytes option \<Rightarrow> EntryTag list option \<Rightarrow> int option \<Rightarrow> PgDatabase
    \<Rightarrow> unit storage_result \<times> PgDatabase" where
  "odbc_update env now acquired nonce kind operation category name value tags expiry_ms db =
     (if operation = Remove then
        (case res_bind acquired (\<lambda>(pid, key).
              res_bind (ee_category (key_encryptor (oe_base env) key) (as_bytes category)) (\<lambda>enc_category.
              res_bind (ee_name (key_encryptor (oe_base env) key) (as_bytes name)) (\<lambda>enc_name.
              Ok (pid, enc_category, enc_name)))) of
           Ok (pid, enc_category, enc_name) \<Rightarrow> pg_perform_remove pid kind enc_category enc_name False db
         | Err e \<Rightarrow> (Err e, db)
         | Panic \<Rightarrow> (Panic, db))
      else
        (case res_bind acquired (\<lambda>(pid, key).
              res_map (Pair pid) (encrypt_update (key_encryptor (oe_base env) key) nonce category name (opt_or value []) tags)) of
           Ok (pid, enc_category, enc_name, enc_value, enc_tags) \<Rightarrow>
             odbc_write env now pid kind operation enc_category enc_name enc_value enc_tags expiry_ms db
         | Err e \<Rightarrow> (Err e, db)
         | Panic \<Rightarrow> (Panic, db)))"

text \<open>\<open>ping\<close> asks for the name of the profile, not for its id.\<close>

definition odbc_ping :: "string \<Rightarrow> PgDatabase \<Rightarrow> unit storage_result" where
  "odbc_ping profile db =
     (if profile \<in> p_name ` set (profiles (pg_tables db)) then Ok ()
      else Err (err_msg storage_kind.NotFound ''Session profile has been removed''))"

definition odbc_session_ops :: "odbc_env \<Rightarrow> string \<Rightarrow> acquired \<Rightarrow> unit storage_result \<Rightarrow> PgDatabase session_ops" where
  "odbc_session_ops env profile acquired closed =
     \<lparr>bs_count = (\<lambda>now kind category tag_filter db. odbc_count env now acquired kind category tag_filter db),
      bs_fetch = (\<lambda>now kind category name for_update db. odbc_fetch env now acquired kind category name db),
      bs_fetch_all = (\<lambda>now kind category tag_filter limit order_by descending for_update db.
        odbc_fetch_all env now acquired kind category tag_filter limit order_by descending db),
      bs_remove_all = (\<lambda>kind category tag_filter db. odbc_remove_all env acquired kind category tag_filter db),
      bs_update = (\<lambda>now nonce kind operation category name value tags expiry_ms db.
        odbc_update env now acquired nonce kind operation category name value tags expiry_ms db),
      bs_ping = (\<lambda>db. odbc_ping profile db),
      bs_close = (\<lambda>commit db. (closed, db))\<rparr>"

section \<open>Question marks and parameters\<close>

lemma replace_odbc_placeholders:
  "replace_placeholders (\<lambda>_. ''?'') st i s = Ok r \<Longrightarrow> replace_odbc_arg_placeholders s = r"
proof (induction s arbitrary: i r rule: replace_odbc_arg_placeholders.induct)
  case (2 c cs)
  show ?case
  proof (cases "c = CHR ''$''")
    case False
    with 2 show ?thesis by (auto simp: result_simps)
  next
    case c: True
    show ?thesis
    proof (cases cs)
      case (Cons d ds)
      with c 2 show ?thesis
        by (cases "d = CHR ''$''"; cases "is_digit d") (auto simp: result_simps Let_def split: if_splits)
    qed (use 2 c in auto)
  qed
qed simp

lemma no_question_text [simp]:
  "count_list (sel_text b) (CHR ''?'') = 0" "count_list (pt_text b) (CHR ''?'') = 0"
  "count_list (compare_op_sql op) (CHR ''?'') = 0" "CHR ''?'' \<notin> set (conjunction_op_sql cop)"
  "count_list (prefix_op_text op) (CHR ''?'') = 0"
  by (simp_all add: sel_text_def pt_text_def prefix_op_text_def) (cases op; cases cop; simp)+

lemma count_list_join:
  "c \<notin> set sep \<Longrightarrow> count_list (join sep xs) c = sum_list (map (\<lambda>x. count_list x c) xs)"
  by (induction sep xs rule: join.induct) auto

lemma clause_question_marks: "count_list (clause_sql (\<lambda>_. ''?'') st c) (CHR ''?'') = length (clause_refs c)"
proof (induction c)
  case (SqlConj op cs)
  then have "map (\<lambda>c. count_list (clause_sql (\<lambda>_. ''?'') st c) (CHR ''?'')) cs = map (\<lambda>c. length (clause_refs c)) cs" by simp
  then have "(\<Sum>c\<leftarrow>cs. count_list (clause_sql (\<lambda>_. ''?'') st c) (CHR ''?'')) = (\<Sum>c\<leftarrow>cs. length (clause_refs c))" by (rule arg_cong)
  then show ?case by (simp add: count_list_join length_concat comp_def)
qed (simp_all add: count_list_join comp_def sum_list_triv)

text \<open>The text of the filter has a question mark for each argument, in the order of the arguments.\<close>

lemma odbc_filter_text:
  assumes "filter_condition P tag_filter key = Ok (cond, args)" "encode_odbc_tag_filter P tag_filter key = Ok tf" "length args < 2 ^ 63"
  shows "tf = map_option (\<lambda>c. (clause_sql (\<lambda>_. ''?'') 1 c, args)) cond \<and>
    (case cond of None \<Rightarrow> args = [] | Some c \<Rightarrow> clause_refs c = [0..<length args])"
proof (cases tag_filter)
  case None
  with assms show ?thesis by (simp add: filter_condition_def encode_odbc_tag_filter_def)
next
  case (Some f)
  let ?en = "\<lambda>n. encrypt_tag_name P key (as_bytes n)" and ?ev = "\<lambda>v. encrypt_tag_value P key (as_bytes v)"
  let ?q = "map_AbstractQuery tag_name_of_key id (filter_query f)"
  have c: "encode_tag_query (TagAstEncoder ?en ?ev) ?q False [] = Ok (cond, args)"
    using assms(1) Some by (simp add: filter_condition_def tag_query_total)
  obtain t args' where e: "encode_query (filter_encoder P key) ?q [] = Ok (t, args')"
      "tf = map_option (\<lambda>t. (replace_odbc_arg_placeholders t, args')) t"
    using assms(2) Some by (auto simp: encode_odbc_tag_filter_def tag_query_total result_simps split: option.splits)
  with encode_query_ast [OF e(1) [unfolded filter_encoder_def]] c
  have t: "t = map_option clause_text cond" "args' = args" by auto
  have l: "laid_out [] args cond" by (rule encode_tag_query_laid_out [OF c])
  show ?thesis
  proof (cases cond)
    case (Some d)
    with l have d: "clause_refs d = [0..<length args]" by (simp add: laid_out_def)
    have "(replace_arg_placeholders (\<lambda>_. ''?'') (clause_text d) (word_of_nat 1) :: (string, unit) result) = Ok (clause_sql (\<lambda>_. ''?'') 1 d)"
      using replace_clause_text [OF d assms(3), of "\<lambda>_. ''?''" 1] by (simp add: comp_def del: of_nat_1)
    then have "replace_odbc_arg_placeholders (clause_text d) = clause_sql (\<lambda>_. ''?'') 1 d"
      unfolding replace_arg_placeholders_def by (rule replace_odbc_placeholders)
    with Some t e(2) d show ?thesis by simp
  qed (use l t e(2) in \<open>simp add: laid_out_def\<close>)
qed

lemma create_query_OkD:
  assumes "create_query env pid key base kind category tag_filter order_by descending = Ok sr"
  obtains tf where "search_of env key category tag_filter sr" "encode_odbc_tag_filter (se_profile env) tag_filter key = Ok tf"
    "let (q, args) = (case kind of
         Some k \<Rightarrow> (base @ '' AND (i.kind = ? OR ? IS NULL)'', [ArgInt (int (entry_kind_num k)), ArgInt (int (entry_kind_num k))])
       | None \<Rightarrow> (base, []));
       (q, args') = (case tf of Some (flt, args) \<Rightarrow> (q @ '' AND '' @ flt, map ArgBlob args) | None \<Rightarrow> (q, []))
     in s_query sr = q @ (if starts_with_select q then (case order_by of Some ob \<Rightarrow> order_by_query [] ob descending | None \<Rightarrow> []) else []) \<and>
       params_args (s_params sr) = [ArgInt pid, opt_blob (s_category sr), opt_blob (s_category sr)] @ args @ args'"
proof -
  obtain enc_category tf cond where e: "encrypt_category env key category = Ok enc_category"
      "encode_odbc_tag_filter (se_profile env) tag_filter key = Ok tf" "filter_condition (se_profile env) tag_filter key = Ok cond"
    using assms by (auto simp: create_query_def res_bind_eq_Ok)
  from assms e show thesis
    by (intro that [of tf]; cases kind; cases tf; cases order_by; cases cond)
       (auto simp: create_query_def search_of_def params_new_def order_by_query_def)
qed

text \<open>
  C36. In the statement of a search every question mark before the filter stands for one of the parameters pushed
  for the profile, the category and the kind, and the question marks of the filter, in the order of the
  text, for the arguments its condition refers to; none is left over on either side.
\<close>

theorem odbc_parameters_bound:
  assumes "base \<in> {COUNT_ITEMS, DELETE_ALL_ITEMS, GET_ALL_ITEMS}"
    and "create_query env pid key base kind category tag_filter order_by descending = Ok sr" and "length (s_arguments sr) < 2 ^ 63"
  shows "\<exists>pre post front. s_query sr =
      pre @ (case s_condition sr of None \<Rightarrow> [] | Some c \<Rightarrow> '' AND '' @ clause_sql (\<lambda>_. ''?'') 1 c) @ post \<and>
    params_args (s_params sr) = front @ map ArgBlob (s_arguments sr) \<and>
    count_list pre (CHR ''?'') = length front \<and> count_list post (CHR ''?'') = 0 \<and>
    (case s_condition sr of None \<Rightarrow> s_arguments sr = [] | Some c \<Rightarrow> clause_refs c = [0..<length (s_arguments sr)]) \<and>
    count_list (s_query sr) (CHR ''?'') = length (params_args (s_params sr))"
proof -
  obtain tf where sr: "search_of env key category tag_filter sr" and tf: "encode_odbc_tag_filter (se_profile env) tag_filter key = Ok tf"
    and q: "let (q, args) = (case kind of
         Some k \<Rightarrow> (base @ '' AND (i.kind = ? OR ? IS NULL)'', [ArgInt (int (entry_kind_num k)), ArgInt (int (entry_kind_num k))])
       | None \<Rightarrow> (base, []));
       (q, args') = (case tf of Some (flt, args) \<Rightarrow> (q @ '' AND '' @ flt, map ArgBlob args) | None \<Rightarrow> (q, []))
     in s_query sr = q @ (if starts_with_select q then (case order_by of Some ob \<Rightarrow> order_by_query [] ob descending | None \<Rightarrow> []) else []) \<and>
       params_args (s_params sr) = [ArgInt pid, opt_blob (s_category sr), opt_blob (s_category sr)] @ args @ args'"
    by (rule create_query_OkD [OF assms(2)])
  let ?pre = "base @ (case kind of None \<Rightarrow> [] | Some k \<Rightarrow> '' AND (i.kind = ? OR ? IS NULL)'')"
  let ?front = "[ArgInt pid, opt_blob (s_category sr), opt_blob (s_category sr)] @
    (case kind of None \<Rightarrow> [] | Some k \<Rightarrow> [ArgInt (int (entry_kind_num k)), ArgInt (int (entry_kind_num k))])"
  let ?flt = "case s_condition sr of None \<Rightarrow> [] | Some c \<Rightarrow> '' AND '' @ clause_sql (\<lambda>_. ''?'') 1 c"
  let ?post = "if starts_with_select (?pre @ ?flt) then (case order_by of Some ob \<Rightarrow> order_by_query [] ob descending | None \<Rightarrow> []) else []"
  have F: "tf = map_option (\<lambda>c. (clause_sql (\<lambda>_. ''?'') 1 c, s_arguments sr)) (s_condition sr) \<and>
      (case s_condition sr of None \<Rightarrow> s_arguments sr = [] | Some c \<Rightarrow> clause_refs c = [0..<length (s_arguments sr)])"
    using odbc_filter_text [OF _ tf assms(3)] sr by (simp add: search_of_def)
  then have parts: "s_query sr = ?pre @ ?flt @ ?post" "params_args (s_params sr) = ?front @ map ArgBlob (s_arguments sr)"
    using q by (cases kind; cases "s_condition sr"; simp)+
  have base: "count_list base (CHR ''?'') = 3"
    using assms(1) by (auto simp: COUNT_ITEMS_def DELETE_ALL_ITEMS_def GET_ALL_ITEMS_def nl_def)
  have pre: "count_list ?pre (CHR ''?'') = length ?front" by (simp add: base split: option.splits)
  have flt: "count_list ?flt (CHR ''?'') = length (s_arguments sr)" using F by (auto simp: clause_question_marks split: option.splits)
  have "count_list (order_by_query [] ob descending) (CHR ''?'') = 0" for ob by (cases ob) (simp add: order_by_query_def)
  then have "count_list (if b then (case order_by of Some ob \<Rightarrow> order_by_query [] ob descending | None \<Rightarrow> []) else []) (CHR ''?'') = 0" for b
    by (cases b; cases order_by) simp_all
  then have post: "count_list ?post (CHR ''?'') = 0" .
  have "count_list (s_query sr) (CHR ''?'') = length (params_args (s_params sr))"
    using pre by (simp only: parts count_list_append flt post length_append length_map add_0_right)
  with parts pre post conjunct2 [OF F] show ?thesis by blast
qed

definition toy_odbc_env :: odbc_env where
  "toy_odbc_env = \<lparr>oe_base = toy_sqlite_env, oe_tag_limit = 1024, oe_zone = 0\<rparr>"

lemma odbc_filter_encodes: "encode_tag_filter pl P tag_filter key n = Ok r \<Longrightarrow> \<exists>r. encode_odbc_tag_filter P tag_filter key = Ok r"
proof (cases tag_filter)
  case (Some f)
  assume "encode_tag_filter pl P tag_filter key n = Ok r"
  then obtain tq t args where "tag_query (filter_query f) = Ok tq" "encode_query (filter_encoder P key) tq [] = Ok (t, args)"
    using Some by (auto simp: encode_tag_filter_def result_simps)
  with Some show ?thesis by (cases t) (auto simp: encode_odbc_tag_filter_def)
qed (simp add: encode_odbc_tag_filter_def)

lemma toy_odbc_base [simp]: "oe_base toy_odbc_env = toy_sqlite_env"
  by (simp add: toy_odbc_env_def)

lemma toy_create_query:
  "\<exists>sr. create_query toy_sqlite_env 1 toy_profile_key base (Some Item) (Some ''c'') toy_filter order_by descending = Ok sr \<and>
    length (s_arguments sr) = 2"
proof -
  obtain c args where c: "filter_condition toy_profile_env toy_filter toy_profile_key = Ok (c, args)" using toy_encode_filter(2) by fastforce
  have "encrypt_tag_name toy_profile_env toy_profile_key m = Ok (replicate 12 1 @ m @ replicate 16 0)" for m
    by (simp only: encrypt_tag_name_def toy_encrypt_searchable)
  with c have "length args = 2"
    by (auto simp: filter_condition_def toy_filter_def tag_query_total is_eq_def tag_name_of_key_def encode_tag_op_def
      sql_encode_name_def sql_encode_value_def ast_op_clause_def sql_match_prefix_def)
  moreover obtain tf where "encode_odbc_tag_filter toy_profile_env toy_filter toy_profile_key = Ok tf"
    using toy_encode_filter(1) odbc_filter_encodes by blast
  moreover obtain ec where "encrypt_category toy_sqlite_env toy_profile_key (Some ''c'') = Ok ec"
    by (simp add: encrypt_category_def toy_sqlite_env_def profile_encryptor_def toy_encrypt_searchable)
  ultimately show ?thesis using c by (cases tf) (auto simp: create_query_def toy_sqlite_env_def)
qed

theorem odbc_parameters_bound_witness:
  "\<exists>sr. create_query toy_sqlite_env 1 toy_profile_key COUNT_ITEMS (Some Item) (Some ''c'') toy_filter None False = Ok sr \<and>
    count_list (s_query sr) (CHR ''?'') = length (params_args (s_params sr))"
proof -
  obtain sr where "create_query toy_sqlite_env 1 toy_profile_key COUNT_ITEMS (Some Item) (Some ''c'') toy_filter None False = Ok sr"
      "length (s_arguments sr) = 2"
    using toy_create_query by blast
  with odbc_parameters_bound [OF _ this(1)] show ?thesis by auto
qed

section \<open>What is read\<close>

text \<open>The tags of the tables fit the buffers into which they are read.\<close>

definition tags_fit :: "odbc_env \<Rightarrow> Database \<Rightarrow> bool" where
  "tags_fit env t \<longleftrightarrow> (\<forall>r \<in> set (items_tags t). length (enc_tag_name (t_tag r)) \<le> oe_tag_limit env \<and>
     length (enc_tag_value (t_tag r)) \<le> oe_tag_limit env)"

definition odbc_holds :: "odbc_env \<Rightarrow> ProfileKey \<Rightarrow> int \<Rightarrow> PgDatabase \<Rightarrow> stored list \<Rightarrow> bool" where
  "odbc_holds env key pid db st \<longleftrightarrow> pg_holds (oe_base env) key pid db st \<and> tags_fit env (pg_tables db)"

lemma cut_tag_fits: "length (enc_tag_name t) \<le> n \<Longrightarrow> length (enc_tag_value t) \<le> n \<Longrightarrow> cut_tag n t = t"
  by (simp add: cut_tag_def)

lemma get_decoded_tags_fit:
  "tags_fit env t \<Longrightarrow> get_decoded_tags env key i t = ed_tags (key_encryptor (oe_base env) key) (item_tags i t)"
  unfolding get_decoded_tags_def by (intro arg_cong [where f = "ed_tags _"] map_idI cut_tag_fits) (auto simp: item_tags_def tags_fit_def)

lemma odbc_row_Ok:
  assumes holds: "odbc_holds env key pid db st" and r: "row_of (key_encryptor (oe_base env) key) (pg_tables db) r s"
  shows "odbc_row env key (pg_tables db) r = Ok (fst s)"
proof -
  let ?X = "key_encryptor (oe_base env) key"
  have env: "sqlite_env_correct (oe_base env)" using holds by (simp add: odbc_holds_def pg_holds_def)
  note C = env_contract [OF env, of key]
  have H: "hex_codec_correct (se_hex (oe_base env))" using env by (simp add: sqlite_env_correct_def)
  note d = encryptor_contract.row_of_decrypts [OF C r H]
  have "ed_category ?X (i_category r) = Ok (entry_category (fst s))" "ed_name ?X (i_name r) = Ok (entry_name (fst s))"
    using r encryptor_contract.category_law [OF C] encryptor_contract.name_law [OF C] by (auto simp: row_of_def Let_def valid_entry_def)
  moreover have "entry_kind_try_from (i_kind r) = Ok (entry_kind (fst s))" using r by (simp add: row_of_def Let_def)
  ultimately show ?thesis
    using d holds by (simp add: odbc_row_def get_decoded_tags_fit odbc_holds_def)
qed

lemma odbc_scan_loop_Ok:
  assumes "list_all2 (\<lambda>r e. conv r = Ok e) rows es" "0 \<le> n"
  shows "odbc_scan_loop conv offset limit n rows =
    Ok (let es = drop (nat (offset - n)) es in if limit = - 1 then es else take (nat (limit - max 0 (n - offset))) es)"
  using assms
proof (induction rows es arbitrary: n rule: list_all2_induct)
  case (Cons r rows e es)
  consider (skip) "n + 1 \<le> offset" | (stop) "\<not> n + 1 \<le> offset" "limit \<noteq> - 1" "n + 1 - offset > limit"
    | (row) "\<not> n + 1 \<le> offset" "limit = - 1 \<or> n + 1 - offset \<le> limit" by linarith
  then show ?case
  proof cases
    case skip
    then have "nat (offset - n) = Suc (nat (offset - (n + 1)))" "max 0 (n - offset) = 0" "max 0 (n + 1 - offset) = 0" by auto
    with Cons.IH [of "n + 1"] Cons.prems skip show ?thesis by (simp add: Let_def)
  next
    case stop
    then have "nat (limit - max 0 (n - offset)) = 0" by auto
    with stop show ?thesis by simp
  next
    case row
    then have "nat (offset - n) = 0" "nat (offset - (n + 1)) = 0" "max 0 (n - offset) = n - offset" "max 0 (n + 1 - offset) = n + 1 - offset"
      by auto
    moreover from row have "limit \<noteq> - 1 \<Longrightarrow> nat (limit - (n - offset)) = Suc (nat (limit - (n + 1 - offset)))" by auto
    ultimately show ?thesis
      using Cons.IH [of "n + 1"] Cons.hyps Cons.prems row by (auto simp: Let_def)
  qed
qed (simp add: Let_def)

lemma odbc_limit_rows:
  assumes "list_all2 (\<lambda>r e. conv r = Ok e) rows es" "0 \<le> opt_or offset 0" "- 1 \<le> opt_or limit (- 1)"
  shows "odbc_scan_loop conv (opt_or offset 0) (opt_or limit (- 1)) 0 rows = Ok (limit_rows offset limit es)"
  using odbc_scan_loop_Ok [OF assms(1), of 0 "opt_or offset 0" "opt_or limit (- 1)"] assms(2,3)
  by (auto simp: limit_rows_def Let_def)

lemma odbc_scan_sim:
  assumes holds: "odbc_holds env key pid db st" and cat: "\<forall>c. category = Some c \<longrightarrow> valid_str c" and flt: "filter_exact tag_filter"
    and sr: "create_query (oe_base env) pid key GET_ALL_ITEMS kind category tag_filter order_by descending = Ok sr"
    and lim: "0 \<le> opt_or offset 0" "- 1 \<le> opt_or limit (- 1)"
    and sel: "sel = spec_select (se_like (oe_base env)) (odbc_unexpired env now) kind category (filter_tag_query tag_filter) st"
  shows "\<exists>es. mset es = mset sel \<and> (order_by = Some Id \<longrightarrow> es = (if descending then rev sel else sel)) \<and>
    odbc_perform_scan env now (Ok (pid, key)) kind category tag_filter offset limit order_by descending db = Ok (limit_rows offset limit es)"
proof -
  let ?B = "oe_base env" and ?t = "pg_tables db"
  let ?ss = "filter (\<lambda>s. visible (odbc_unexpired env now) s \<and> spec_matches (se_like ?B) kind category (filter_tag_query tag_filter) (fst s)) st"
  have env: "sqlite_env_correct ?B" and rep: "represents (key_encryptor ?B key) pid ?t st" and wf: "db_wf ?t"
    using holds by (simp_all add: odbc_holds_def pg_holds_def represents_def)
  have so: "search_of ?B key category tag_filter sr" by (rule create_query_OkD [OF sr])
  have rows: "list_all2 (row_of (key_encryptor ?B key) ?t)
      (filter (\<lambda>r. item_matches ?B pid kind sr ?t r \<and> odbc_unexpired env now (i_expiry r)) (items ?t)) ?ss"
    using selected_rows [OF env rep so _ flt, where live = "odbc_unexpired env now"] cat by blast
  obtain ss where ss: "list_all2 (row_of (key_encryptor ?B key) ?t) (order_rows ?B order_by descending
      (filter (\<lambda>r. item_matches ?B pid kind sr ?t r \<and> odbc_unexpired env now (i_expiry r)) (items ?t))) ss"
      "mset ss = mset ?ss" "order_by = Some Id \<longrightarrow> ss = (if descending then rev ?ss else ?ss)"
    using order_rows_all2 [OF env wf rows] by blast
  have "list_all2 (\<lambda>r e. odbc_row env key ?t r = Ok e) (order_rows ?B order_by descending
      (filter (\<lambda>r. item_matches ?B pid kind sr ?t r \<and> odbc_unexpired env now (i_expiry r)) (items ?t))) (map fst ss)"
    unfolding list_all2_map2 by (rule list_all2_mono [OF ss(1)]) (rule odbc_row_Ok [OF holds])
  from odbc_limit_rows [OF this lim] ss sr sel show ?thesis
    by (intro exI [of _ "map fst ss"]) (simp add: odbc_perform_scan_def Let_def spec_select_def rev_map)
qed

lemma odbc_count_sim:
  assumes holds: "odbc_holds env key pid db st" and cat: "\<forall>c. category = Some c \<longrightarrow> valid_str c" and flt: "filter_exact tag_filter"
    and sr: "create_query (oe_base env) pid key COUNT_ITEMS kind category tag_filter None False = Ok sr"
  shows "odbc_count env now (Ok (pid, key)) kind category tag_filter db =
    Ok (length (spec_select (se_like (oe_base env)) (odbc_unexpired env now) kind category (filter_tag_query tag_filter) st))"
proof -
  have env: "sqlite_env_correct (oe_base env)" "represents (key_encryptor (oe_base env) key) pid (pg_tables db) st"
    using holds by (simp_all add: odbc_holds_def pg_holds_def)
  have so: "search_of (oe_base env) key category tag_filter sr" by (rule create_query_OkD [OF sr])
  from selected_rows [OF env so _ flt, where live = "odbc_unexpired env now"] cat show ?thesis
    by (auto simp: odbc_count_def Let_def sr spec_select_def dest: list_all2_lengthD)
qed

lemma odbc_fetch_sim:
  assumes holds: "odbc_holds env key pid db st" and v: "valid_str category" "valid_str name"
    and enc: "ee_category (key_encryptor (oe_base env) key) (as_bytes category) = Ok ec"
      "ee_name (key_encryptor (oe_base env) key) (as_bytes name) = Ok en"
  shows "odbc_fetch env now (Ok (pid, key)) kind category name db = Ok (spec_fetch (odbc_unexpired env now) (kind, category, name) st)"
proof -
  let ?X = "key_encryptor (oe_base env) key"
  let ?row = "find (\<lambda>r. item_key r = (pid, entry_kind_num kind, ec, en) \<and> odbc_unexpired env now (i_expiry r)) (items (pg_tables db))"
  let ?s = "find (\<lambda>s. entry_key (fst s) = (kind, category, name) \<and> visible (odbc_unexpired env now) s) st"
  have env: "sqlite_env_correct (oe_base env)" and rep: "represents ?X pid (pg_tables db) st" and fit: "tags_fit env (pg_tables db)"
    using holds by (simp_all add: odbc_holds_def pg_holds_def)
  note C = env_contract [OF env, of key]
  have H: "hex_codec_correct (se_hex (oe_base env))" using env by (simp add: sqlite_env_correct_def)
  have rel: "rel_option (\<lambda>r s. i_profile r = pid \<and> row_of ?X (pg_tables db) r s) ?row ?s"
    by (rule encryptor_contract.fetch_row [OF C rep H v enc])
  show ?thesis
  proof (cases ?s)
    case None
    with rel show ?thesis by (simp add: odbc_fetch_def enc spec_fetch_def)
  next
    case (Some s)
    with rel obtain r where r: "?row = Some r" "row_of ?X (pg_tables db) r s" by (auto simp: option_rel_Some2)
    have k: "entry_kind (fst s) = kind" "entry_category (fst s) = category" "entry_name (fst s) = name"
      using Some by (auto simp: find_Some_iff entry_key_def)
    note d = encryptor_contract.row_of_decrypts [OF C r(2) H]
    show ?thesis
      using d k by (simp add: odbc_fetch_def enc r(1) Some spec_fetch_def get_decoded_tags_fit [OF fit] Let_def)
  qed
qed

section \<open>Inserting and removing\<close>

lemma find_new_last: "\<forall>x \<in> set xs. \<not> p x \<Longrightarrow> p y \<Longrightarrow> find p (xs @ [y]) = Some y"
  by (induction xs) auto

text \<open>A new entry is inserted as by PostgreSQL; every failure of the statement is one error.\<close>

lemma odbc_insert_as_postgres:
  assumes "opt_expiry (oe_base env) now ms = Ok x"
    and pg: "pg_perform_insert (oe_base env) now pid kind ec en ev ot ms True db = (r, db')"
  shows "odbc_write env now pid kind Insert ec en ev ot ms db =
    (if r = Ok () then Ok () else Err (err_msg storage_kind.Backend ''Error inserting new entry''), db') \<and>
    (r = Ok () \<longrightarrow> items_tags (pg_tables db') = items_tags (pg_tables db) @
      map (\<lambda>t. \<lparr>t_item = item_seq db + 1, t_tag = t\<rparr>) (opt_or ot [])) \<and> (r \<noteq> Ok () \<longrightarrow> pg_tables db' = pg_tables db)"
proof -
  let ?K = "(pid, entry_kind_num kind, ec, en)" and ?t = "pg_tables db"
  show ?thesis
  proof (cases "?K \<in> item_key ` set (items ?t) \<or> pid \<notin> p_id ` set (profiles ?t)")
    case True
    with assms show ?thesis
      by (auto simp: odbc_write_def odbc_insert_item_def pg_perform_insert_def pg_insert_item_def Let_def sqlx_error_def split: if_splits)
  next
    case False
    let ?row = "\<lparr>i_id = item_seq db + 1, i_profile = pid, i_kind = entry_kind_num kind, i_category = ec, i_name = en, i_value = ev, i_expiry = x\<rparr>"
    let ?t1 = "?t\<lparr>items := items ?t @ [?row]\<rparr>"
    have "\<forall>r \<in> set (items ?t). item_key r \<noteq> ?K" using False by (metis imageI)
    moreover have "item_key ?row = ?K" by (simp add: item_key_def)
    ultimately have find: "find (\<lambda>r. item_key r = ?K) (items ?t @ [?row]) = Some ?row" by (rule find_new_last)
    have tags: "insert_tags (item_seq db + 1) ts ?t1 =
        (Ok (), ?t1\<lparr>items_tags := items_tags ?t @ map (\<lambda>t. \<lparr>t_item = item_seq db + 1, t_tag = t\<rparr>) ts\<rparr>)" for ts
      using insert_tags_Ok [of "item_seq db + 1" ?t1 ts] by simp
    from False find assms show ?thesis
      by (cases ot) (auto simp: odbc_write_def odbc_insert_item_def pg_perform_insert_def pg_insert_item_def odbc_write_tags_def
        tags Let_def opt_or_def)
  qed
qed

definition enc_tags_fit :: "odbc_env \<Rightarrow> EncEntryTag list \<Rightarrow> bool" where
  "enc_tags_fit env ts \<longleftrightarrow> (\<forall>t \<in> set ts. length (enc_tag_name t) \<le> oe_tag_limit env \<and> length (enc_tag_value t) \<le> oe_tag_limit env)"

lemma pg_perform_remove_fit: "tags_fit env (pg_tables db) \<Longrightarrow> pg_perform_remove pid kind ec en False db = (r, db') \<Longrightarrow> tags_fit env (pg_tables db')"
  by (auto simp: pg_perform_remove_def delete_items_def tags_fit_def Let_def split: if_splits)

lemma odbc_update_sim:
  assumes holds: "odbc_holds env key pid db st" and e: "e = update_entry kind category name value tags" and v: "valid_entry e"
    and enc: "encrypt_update (key_encryptor (oe_base env) key) nonce category name (opt_or value []) tags = Ok (ec, en, ev, ot)"
    and fit: "enc_tags_fit env (opt_or ot [])" and x: "opt_expiry (oe_base env) now expiry_ms = Ok x" and op: "op \<noteq> Replace"
    and r: "odbc_update env now (Ok (pid, key)) nonce kind op category name value tags expiry_ms db = (r, db')"
  shows "odbc_holds env key pid db' (snd (spec_update op (e, x) st)) \<and>
    r = (if op = Insert \<and> spec_has (entry_key e) st then Err (err_msg storage_kind.Backend ''Error inserting new entry'')
         else fst (spec_update op (e, x) st))"
proof -
  have pg: "pg_holds (oe_base env) key pid db st" and env: "sqlite_env_correct (oe_base env)" and tags: "tags_fit env (pg_tables db)"
    using holds by (simp_all add: odbc_holds_def pg_holds_def)
  have ek: "entry_kind e = kind" "entry_key e = (kind, category, name)" by (simp_all add: e update_entry_def entry_key_def)
  show ?thesis
  proof (cases op)
    case Insert
    obtain q db1 where p: "pg_perform_insert (oe_base env) now pid kind ec en ev ot expiry_ms True db = (q, db1)" by fastforce
    note s = pg_insert_sim [OF pg encrypt_update_Ok [OF enc v e env] x p [folded ek(1)]]
    have w: "odbc_write env now pid kind Insert ec en ev ot expiry_ms db = (r, db')" using r enc Insert by (simp add: odbc_update_def)
    note o = odbc_insert_as_postgres [OF x p]
    have "tags_fit env (pg_tables db1)"
      using o tags fit by (cases "q = Ok ()") (auto simp: tags_fit_def enc_tags_fit_def)
    with s o w Insert show ?thesis by (auto simp: odbc_holds_def spec_update_def spec_insert_def split: if_splits)
  next
    case Remove
    have k: "valid_str category" "valid_str name" "ee_category (key_encryptor (oe_base env) key) (as_bytes category) = Ok ec"
      "ee_name (key_encryptor (oe_base env) key) (as_bytes name) = Ok en"
      using e v enc by (auto simp: valid_entry_def update_entry_def encrypt_update_def result_simps)
    then have w: "pg_perform_remove pid kind ec en False db = (r, db')" using r Remove by (simp add: odbc_update_def)
    from pg_remove_sim [OF pg k this] pg_perform_remove_fit [OF tags w] Remove ek show ?thesis
      by (simp add: odbc_holds_def spec_update_def)
  qed (use op in simp)
qed

section \<open>Replacing\<close>

lemma find_map_key:
  assumes "\<And>x. p (f x) = p x"
  shows "find p (map f xs) = map_option f (find p xs)"
  by (induction xs) (auto simp: assms)

lemma odbc_replace_tables:
  assumes enc: "encrypt_update (key_encryptor (oe_base env) key) nonce category name (opt_or value []) tags = Ok (ec, en, ev, ot)"
    and x: "opt_expiry (oe_base env) now expiry_ms = Ok x" and K: "K = (pid, entry_kind_num kind, ec, en)"
    and r: "odbc_update env now (Ok (pid, key)) nonce kind Replace category name value tags expiry_ms db = (r, db')"
  shows "items (pg_tables db') = map (\<lambda>i. if item_key i = K then i\<lparr>i_value := ev, i_expiry := x\<rparr> else i) (items (pg_tables db)) \<and>
    (case find (\<lambda>i. item_key i = K) (items (pg_tables db)) of
       Some row \<Rightarrow> r = Ok () \<and> (\<forall>i. item_tags i (pg_tables db') =
         (if i = pid then [] else item_tags i (pg_tables db)) @ (if i = i_id row then opt_or ot [] else []))
     | None \<Rightarrow> r = (if tags = None then Ok () else Panic) \<and>
         (\<forall>i. item_tags i (pg_tables db') = (if i = pid then [] else item_tags i (pg_tables db))))"
proof -
  let ?f = "\<lambda>i. if item_key i = K then i\<lparr>i_value := ev, i_expiry := x\<rparr> else i"
  let ?t = "pg_tables db" and ?t1 = "delete_tags pid ((pg_tables db)\<lparr>items := map ?f (items (pg_tables db))\<rparr>)"
  have w: "(r, db') = map_prod id (\<lambda>t. db\<lparr>pg_tables := t\<rparr>) (odbc_write_tags pid kind ec en ot ?t1)"
    using r enc x by (simp add: odbc_update_def odbc_write_def update_item_def K Let_def)
  have items: "items ?t1 = map ?f (items ?t)" by (simp add: delete_tags_def)
  have del: "item_tags i ?t1 = (if i = pid then [] else item_tags i ?t)" for i by (simp add: item_tags_delete)
  have find: "find (\<lambda>i. item_key i = K) (items ?t1) = map_option ?f (find (\<lambda>i. item_key i = K) (items ?t))"
    unfolding items by (rule find_map_key) (simp add: item_key_def)
  have none: "ot = None \<longleftrightarrow> tags = None"
    using enc by (cases tags) (auto simp: encrypt_update_def result_simps)
  show ?thesis
  proof (cases "find (\<lambda>i. item_key i = K) (items ?t)")
    case None
    with w find none items del show ?thesis by (cases ot) (auto simp: odbc_write_tags_def K)
  next
    case (Some row)
    then have "row \<in> set (items ?t)" by (auto simp: find_Some_iff)
    then have "i_id (?f row) \<in> i_id ` set (items ?t1)" unfolding items by simp
    then have "i_id row \<in> i_id ` set (items ?t1)" by (simp split: if_splits)
    note T = insert_tags_Ok [OF this, of "opt_or ot []"]
    have "odbc_write_tags pid kind ec en ot ?t1 = insert_tags (i_id row) (opt_or ot []) ?t1"
      using find Some by (cases ot) (simp_all add: odbc_write_tags_def K opt_or_def)
    with w T items del item_tags_append [of _ ?t1 "i_id row" "opt_or ot []"] Some show ?thesis by auto
  qed
qed

section \<open>What the sessions do\<close>

lemma create_query_any_base:
  assumes "create_query env pid key base kind category tag_filter order_by descending = Ok sr"
  shows "\<exists>sr. create_query env pid key base' kind category tag_filter order_by' descending' = Ok sr"
proof -
  obtain c tf cond where "encrypt_category env key category = Ok c" "filter_condition (se_profile env) tag_filter key = Ok cond"
      "encode_odbc_tag_filter (se_profile env) tag_filter key = Ok tf"
    using assms by (auto simp: create_query_def res_bind_eq_Ok)
  then show ?thesis by (cases cond; cases kind; cases tf) (auto simp: create_query_def)
qed

lemma odbc_remove_all_sim:
  assumes holds: "odbc_holds env key pid db st" and cat: "\<forall>c. category = Some c \<longrightarrow> valid_str c" and flt: "filter_exact tag_filter"
    and sr: "create_query (oe_base env) pid key DELETE_ALL_ITEMS kind category tag_filter None False = Ok sr"
    and spec: "spec = spec_remove_all (se_like (oe_base env)) kind category (filter_tag_query tag_filter) st"
  shows "\<exists>db'. odbc_remove_all env (Ok (pid, key)) kind category tag_filter db = (Ok (fst spec), db') \<and> odbc_holds env key pid db' (snd spec)"
proof -
  let ?B = "oe_base env" and ?t = "pg_tables db"
  let ?m = "\<lambda>s. spec_matches (se_like ?B) kind category (filter_tag_query tag_filter) (fst s)"
  have env: "sqlite_env_correct ?B" and wf: "pg_wf db" and rep: "represents (key_encryptor ?B key) pid ?t st" and fit: "tags_fit env ?t"
    using holds by (simp_all add: odbc_holds_def pg_holds_def)
  have so: "search_of ?B key category tag_filter sr" by (rule create_query_OkD [OF sr])
  obtain n t' where d: "delete_items (item_matches ?B pid kind sr ?t) ?t = (n, t')" by fastforce
  have "represents (key_encryptor ?B key) pid t' (filter (\<lambda>s. \<not> ?m s) st) \<and> n = length (filter ?m st)"
  proof (rule represents_delete [OF rep d])
    show "item_matches ?B pid kind sr ?t r = ?m s"
      if "r \<in> set (profile_items pid ?t)" "row_of (key_encryptor ?B key) ?t r s" for r s
      using item_matches_sim [OF env so _ flt, where r = r and db = "?t" and s = s] cat that by (simp add: profile_items_def)
    show "i_profile r = pid" if "item_matches ?B pid kind sr ?t r" for r using that by (simp add: item_matches_def)
  qed
  moreover have "pg_wf (db\<lparr>pg_tables := t'\<rparr>)"
    using delete_items_wf [OF _ d] delete_items_keeps [OF d] wf by (intro pg_wf_tables [OF wf]) (simp_all add: pg_wf_def)
  moreover have "tags_fit env t'" using d fit by (auto simp: delete_items_def tags_fit_def Let_def)
  ultimately show ?thesis using d sr env by (simp add: odbc_remove_all_def spec_remove_all_def spec pg_holds_def odbc_holds_def)
qed

text \<open>
  The searches of an ODBC session select what the specification says, with the expiry compared in the time zone of
  the server, as long as the stored tags fit the buffers they are read into: \<open>perform_scan\<close>, behind
  \<open>fetch_all\<close> and \<open>scan\<close>, returns the entries in the order asked for and cut to offset and limit by counting rows, \<open>count\<close>
  their number, and \<open>remove_all\<close> removes them.
\<close>

theorem odbc_search_refines:
  assumes "odbc_holds env key pid db st" and "\<forall>c. category = Some c \<longrightarrow> valid_str c" and "filter_exact tag_filter"
    and "create_query (oe_base env) pid key base kind category tag_filter order_by descending = Ok sr"
    and "0 \<le> opt_or offset 0" and "- 1 \<le> opt_or limit (- 1)"
    and "sel = spec_select (se_like (oe_base env)) (odbc_unexpired env now) kind category (filter_tag_query tag_filter) st"
    and "spec = spec_remove_all (se_like (oe_base env)) kind category (filter_tag_query tag_filter) st"
  shows "(\<exists>es. mset es = mset sel \<and> (order_by = Some Id \<longrightarrow> es = (if descending then rev sel else sel)) \<and>
      odbc_perform_scan env now (Ok (pid, key)) kind category tag_filter offset limit order_by descending db = Ok (limit_rows offset limit es)) \<and>
    odbc_count env now (Ok (pid, key)) kind category tag_filter db = Ok (length sel) \<and>
    (\<exists>db'. odbc_remove_all env (Ok (pid, key)) kind category tag_filter db = (Ok (fst spec), db') \<and> odbc_holds env key pid db' (snd spec))"
proof -
  note q = create_query_any_base [OF assms(4)]
  from q obtain s1 where s1: "create_query (oe_base env) pid key GET_ALL_ITEMS kind category tag_filter order_by descending = Ok s1" by blast
  from q obtain s2 where s2: "create_query (oe_base env) pid key COUNT_ITEMS kind category tag_filter None False = Ok s2" by blast
  from q obtain s3 where s3: "create_query (oe_base env) pid key DELETE_ALL_ITEMS kind category tag_filter None False = Ok s3" by blast
  from odbc_scan_sim [OF assms(1-3) s1 assms(5-7)] odbc_count_sim [OF assms(1-3) s2, of now] odbc_remove_all_sim [OF assms(1-3) s3 assms(8)]
  show ?thesis by (simp add: assms(7))
qed

definition toy_odbc_db :: PgDatabase where
  "toy_odbc_db = \<lparr>pg_tables = toy_db, item_seq = 5, profile_seq = 1\<rparr>"

definition toy_odbc_store :: PgDatabase where
  "toy_odbc_store = snd (odbc_update toy_odbc_env 0 (Ok (1, toy_profile_key)) (replicate 12 2) Item Insert
     ''c'' ''n'' (Some [1]) (Some [PlaintextTag ''p'' ''t'']) (Some 5000) toy_odbc_db)"

lemma toy_odbc_db_holds: "odbc_holds toy_odbc_env toy_profile_key 1 toy_odbc_db []"
  using toy_sqlite_env_correct toy_db_represents
  by (simp add: odbc_holds_def pg_holds_def pg_wf_def toy_odbc_db_def toy_odbc_env_def represents_def tags_fit_def) (simp add: toy_db_def)

lemma toy_odbc_expiry: "opt_expiry (oe_base toy_odbc_env) 0 (Some 5000) = Ok (Some 5000)"
  by (simp add: opt_expiry_def expiry_timestamp_def toy_odbc_env_def toy_sqlite_env_def)

lemma toy_odbc_encrypted:
  "encrypt_update (key_encryptor (oe_base toy_odbc_env) toy_profile_key) (replicate 12 2) ''c'' ''n'' (opt_or (Some [1]) [])
      (Some [PlaintextTag ''p'' ''t'']) = Ok (replicate 12 1 @ as_bytes ''c'' @ replicate 16 0, replicate 12 1 @ as_bytes ''n'' @ replicate 16 0,
        replicate 12 2 @ [1] @ replicate 16 0, Some [\<lparr>enc_tag_name = replicate 12 1 @ as_bytes ''p'' @ replicate 16 0,
        enc_tag_value = as_bytes ''t'', enc_tag_plaintext = True\<rparr>])"
  using toy_encrypt_update by (simp add: opt_or_def)

lemma toy_odbc_store_holds: "odbc_holds toy_odbc_env toy_profile_key 1 toy_odbc_store [(toy_entry, Some 5000)]"
proof -
  from odbc_update_sim [OF toy_odbc_db_holds toy_entry_update toy_entry_valid toy_odbc_encrypted _ toy_odbc_expiry _ prod.collapse [symmetric], of Insert]
  show ?thesis by (simp add: toy_odbc_store_def opt_or_def spec_update_def spec_insert_def spec_has_def enc_tags_fit_def toy_odbc_env_def as_bytes_def)
qed

text \<open>
  Inserting and removing entries in an ODBC session leaves tables that represent the specified list,
  from which a fetch returns what the specification says; the results are the specified ones too, but that a
  duplicate entry is reported as an error of the database instead of \<open>Duplicate\<close>.
\<close>

theorem odbc_insert_remove_refine:
  assumes "odbc_holds env key pid db st" and "e = update_entry kind category name value tags" and "valid_entry e"
    and "encrypt_update (key_encryptor (oe_base env) key) nonce category name (opt_or value []) tags = Ok (ec, en, ev, ot)"
    and "enc_tags_fit env (opt_or ot [])" and "opt_expiry (oe_base env) now expiry_ms = Ok x" and "op \<noteq> Replace"
    and "odbc_update env now (Ok (pid, key)) nonce kind op category name value tags expiry_ms db = (r, db')"
    and "spec = spec_update op (e, x) st"
  shows "odbc_holds env key pid db' (snd spec) \<and>
    r = (if op = Insert \<and> spec_has (entry_key e) st then Err (err_msg storage_kind.Backend ''Error inserting new entry'') else fst spec) \<and>
    odbc_fetch env later (Ok (pid, key)) kind category name db' = Ok (spec_fetch (odbc_unexpired env later) (kind, category, name) (snd spec))"
proof -
  note u = odbc_update_sim [OF assms(1-8), folded assms(9)]
  have "valid_str category" "valid_str name" "ee_category (key_encryptor (oe_base env) key) (as_bytes category) = Ok ec"
      "ee_name (key_encryptor (oe_base env) key) (as_bytes name) = Ok en"
    using assms(2-4) by (auto simp: valid_entry_def update_entry_def encrypt_update_def result_simps)
  from u odbc_fetch_sim [OF _ this] show ?thesis by blast
qed

text \<open>
  C6. What replacing an entry does in an ODBC session. Value and expiry are replaced, but the tags that are deleted are those of
  the item, of whatever profile, whose id happens to be the id of the session's profile; the old tags of the replaced entry stay and the new
  ones are added to them. A missing entry is not reported: with tags the session panics, without it returns success.
\<close>

theorem odbc_replace_effect:
  assumes "encrypt_update (key_encryptor (oe_base env) key) nonce category name (opt_or value []) tags = Ok (ec, en, ev, ot)"
    and "opt_expiry (oe_base env) now expiry_ms = Ok x" and "K = (pid, entry_kind_num kind, ec, en)"
    and "odbc_update env now (Ok (pid, key)) nonce kind Replace category name value tags expiry_ms db = (r, db')"
  shows "items (pg_tables db') = map (\<lambda>i. if item_key i = K then i\<lparr>i_value := ev, i_expiry := x\<rparr> else i) (items (pg_tables db)) \<and>
    (case find (\<lambda>i. item_key i = K) (items (pg_tables db)) of
       Some row \<Rightarrow> r = Ok () \<and> (\<forall>i. item_tags i (pg_tables db') =
         (if i = pid then [] else item_tags i (pg_tables db)) @ (if i = i_id row then opt_or ot [] else []))
     | None \<Rightarrow> r = (if tags = None then Ok () else Panic) \<and>
         (\<forall>i. item_tags i (pg_tables db') = (if i = pid then [] else item_tags i (pg_tables db))))"
  by (rule odbc_replace_tables [OF assms])

theorem odbc_search_refines_witness:
  "odbc_count toy_odbc_env 4999 (Ok (1, toy_profile_key)) (Some Item) (Some ''c'') toy_filter toy_odbc_store = Ok 1 \<and>
   odbc_perform_scan toy_odbc_env 4999 (Ok (1, toy_profile_key)) (Some Item) (Some ''c'') toy_filter (Some 1) None None False toy_odbc_store = Ok []"
proof -
  obtain sr where sr: "create_query (oe_base toy_odbc_env) 1 toy_profile_key COUNT_ITEMS (Some Item) (Some ''c'') toy_filter None False = Ok sr"
    unfolding toy_odbc_base using toy_create_query by blast
  have sel: "spec_select (se_like (oe_base toy_odbc_env)) (odbc_unexpired toy_odbc_env 4999) (Some Item) (Some ''c'') (filter_tag_query toy_filter)
      [(toy_entry, Some 5000)] = [toy_entry]"
    by (simp add: spec_select_def spec_matches_def visible_def odbc_unexpired_def pg_unexpired_def toy_odbc_env_def toy_filter_query
        tags_satisfy_def tag_op_match_def toy_entry_def)
  have "\<forall>c. Some ''c'' = Some c \<longrightarrow> valid_str c" by (simp add: valid_str_def)
  from odbc_search_refines [OF toy_odbc_store_holds this toy_filter_exact sr _ _ sel [symmetric] refl, of "Some 1" None]
  show ?thesis by (auto simp: opt_or_def limit_rows_def)
qed

theorem odbc_insert_remove_refine_witness:
  "fst (odbc_update toy_odbc_env 0 (Ok (1, toy_profile_key)) (replicate 12 2) Item Insert
      ''c'' ''n'' (Some [1]) (Some [PlaintextTag ''p'' ''t'']) (Some 5000) toy_odbc_store) =
    Err (err_msg storage_kind.Backend ''Error inserting new entry'') \<and>
   fst (odbc_update toy_odbc_env 0 (Ok (1, toy_profile_key)) (replicate 12 2) Item Remove
      ''c'' ''n'' (Some [1]) (Some [PlaintextTag ''p'' ''t'']) (Some 5000) toy_odbc_store) = Ok ()"
proof -
  have fit: "enc_tags_fit toy_odbc_env (opt_or (Some [\<lparr>enc_tag_name = replicate 12 1 @ as_bytes ''p'' @ replicate 16 0,
        enc_tag_value = as_bytes ''t'', enc_tag_plaintext = True\<rparr>]) [])"
    by (simp add: enc_tags_fit_def opt_or_def toy_odbc_env_def as_bytes_def)
  note u = odbc_insert_remove_refine [OF toy_odbc_store_holds toy_entry_update toy_entry_valid toy_odbc_encrypted fit toy_odbc_expiry _
      prod.collapse [symmetric] refl]
  from u [of Insert] u [of Remove] show ?thesis by (simp add: spec_update_def spec_remove_def spec_has_def)
qed

text \<open>The entry has the id 6 and the profile the id 1: after the replacement the entry has its old tag and the new one.\<close>

theorem odbc_replace_effect_witness:
  "item_tags 6 (pg_tables (snd (odbc_update toy_odbc_env 0 (Ok (1, toy_profile_key)) (replicate 12 2) Item Replace
      ''c'' ''n'' (Some [1]) (Some [PlaintextTag ''p'' ''t'']) (Some 5000) toy_odbc_store))) =
    replicate 2 \<lparr>enc_tag_name = replicate 12 1 @ as_bytes ''p'' @ replicate 16 0, enc_tag_value = as_bytes ''t'', enc_tag_plaintext = True\<rparr>"
proof -
  let ?K = "(1, entry_kind_num Item, replicate 12 1 @ as_bytes ''c'' @ replicate 16 0, replicate 12 1 @ as_bytes ''n'' @ replicate 16 0)"
  have "pg_tables toy_odbc_store = toy_db\<lparr>items := [\<lparr>i_id = 6, i_profile = 1, i_kind = entry_kind_num Item,
      i_category = replicate 12 1 @ as_bytes ''c'' @ replicate 16 0, i_name = replicate 12 1 @ as_bytes ''n'' @ replicate 16 0,
      i_value = replicate 12 2 @ [1] @ replicate 16 0, i_expiry = Some 5000\<rparr>],
      items_tags := [\<lparr>t_item = 6, t_tag = \<lparr>enc_tag_name = replicate 12 1 @ as_bytes ''p'' @ replicate 16 0,
        enc_tag_value = as_bytes ''t'', enc_tag_plaintext = True\<rparr>\<rparr>]\<rparr>"
    using toy_odbc_encrypted toy_odbc_expiry
    by (simp add: toy_odbc_store_def odbc_update_def odbc_write_def odbc_insert_item_def pg_insert_item_def toy_odbc_db_def toy_db_def
        odbc_write_tags_def insert_tag_def item_key_def opt_or_def Let_def)
  then have store: "find (\<lambda>i. item_key i = ?K) (items (pg_tables toy_odbc_store)) \<noteq> None"
      "map_option i_id (find (\<lambda>i. item_key i = ?K) (items (pg_tables toy_odbc_store))) = Some 6"
      "item_tags 6 (pg_tables toy_odbc_store) = [\<lparr>enc_tag_name = replicate 12 1 @ as_bytes ''p'' @ replicate 16 0,
        enc_tag_value = as_bytes ''t'', enc_tag_plaintext = True\<rparr>]"
    by (simp_all add: item_key_def item_tags_def)
  from odbc_replace_effect [OF toy_odbc_encrypted toy_odbc_expiry refl prod.collapse [symmetric], of 1 Item toy_odbc_store] store
  show ?thesis by (auto simp: opt_or_def numeral_2_eq_2)
qed

end
