(* ===== verification/Odbc_Backend.thy ===== *)
theory Odbc_Backend
  imports Odbc_Session Postgres_Backend
begin

text \<open>
  The ODBC store: its connections and transactions, its profiles and the change of the store key
  (\<open>OdbcBackend\<close> of \<open>askar-storage/src/backend/odbc/mod.rs\<close>), and creating, opening and removing its
  tables (\<open>backend/odbc/provision.rs\<close>). Only sessions opened for it work in a transaction; everything else
  is committed statement by statement. The main results: what is left behind when a change of the store key or a
  provisioning fails half way, and what becomes of a transaction that is neither committed nor
  rolled back. A store that was provisioned opens again.
\<close>

section \<open>Connections\<close>

text \<open>
  A connection of the pool: the committed tables, the tables as its own transaction sees them, and its
  commit mode. As the ODBC standard says of \<open>SQL_ATTR_AUTOCOMMIT\<close>, switching the mode on commits the open
  transaction. The sequences behind the ids are not rolled back.
\<close>

record OdbcConnection =
  on_committed :: PgDatabase
  on_view :: PgDatabase
  on_autocommit :: bool

definition set_autocommit :: "bool \<Rightarrow> OdbcConnection \<Rightarrow> OdbcConnection" where
  "set_autocommit b c = (if b then c\<lparr>on_committed := on_view c, on_autocommit := True\<rparr> else c\<lparr>on_autocommit := False\<rparr>)"

text \<open>\<open>OdbcSession::new\<close>.\<close>

definition odbc_session_new :: "bool \<Rightarrow> OdbcConnection \<Rightarrow> OdbcConnection" where
  "odbc_session_new transaction c = set_autocommit (\<not> transaction) c"

text \<open>An operation of the session.\<close>

definition odbc_execute :: "(PgDatabase \<Rightarrow> 'r \<times> PgDatabase) \<Rightarrow> OdbcConnection \<Rightarrow> 'r \<times> OdbcConnection" where
  "odbc_execute op c =
     (let (r, db) = op (on_view c); c = c\<lparr>on_view := db\<rparr> in (r, if on_autocommit c then c\<lparr>on_committed := db\<rparr> else c))"

text \<open>\<open>close\<close>; \<open>fault\<close> says that the commit or the rollback fails. The session has no \<open>Drop\<close>.\<close>

definition odbc_close :: "bool \<Rightarrow> bool \<Rightarrow> bool \<Rightarrow> OdbcConnection \<Rightarrow> unit storage_result \<times> OdbcConnection" where
  "odbc_close fault transaction commit c =
     (if transaction then
        if fault then (odbc_error, c)
        else
          (let c = (if commit then c\<lparr>on_committed := on_view c\<rparr>
                    else c\<lparr>on_view := (on_view c)\<lparr>pg_tables := pg_tables (on_committed c)\<rparr>\<rparr>)
           in (Ok (), set_autocommit True c))
      else (Ok (), c))"

text \<open>The session on its connection.\<close>

definition odbc_connection_ops :: "bool \<Rightarrow> bool \<Rightarrow> PgDatabase session_ops \<Rightarrow> OdbcConnection session_ops" where
  "odbc_connection_ops fault transaction ops =
     \<lparr>bs_count = (\<lambda>now kind category tag_filter c. bs_count ops now kind category tag_filter (on_view c)),
      bs_fetch = (\<lambda>now kind category name for_update c. bs_fetch ops now kind category name for_update (on_view c)),
      bs_fetch_all = (\<lambda>now kind category tag_filter limit order_by descending for_update c.
        bs_fetch_all ops now kind category tag_filter limit order_by descending for_update (on_view c)),
      bs_remove_all = (\<lambda>kind category tag_filter. odbc_execute (bs_remove_all ops kind category tag_filter)),
      bs_update = (\<lambda>now nonce kind operation category name value tags expiry_ms.
        odbc_execute (bs_update ops now nonce kind operation category name value tags expiry_ms)),
      bs_ping = (\<lambda>c. bs_ping ops (on_view c)),
      bs_close = odbc_close fault transaction\<rparr>"

section \<open>Profiles\<close>

record OdbcBackend =
  ob_db :: PgDatabase
  ob_active_profile :: string
  ob_key_cache :: KeyCache

definition odbc_create_profile :: "store_key_env \<Rightarrow> profile_env \<Rightarrow> bytes \<Rightarrow> ProfileKey \<Rightarrow> string \<Rightarrow> string option \<Rightarrow> OdbcBackend
    \<Rightarrow> string storage_result \<times> OdbcBackend" where
  "odbc_create_profile E P nonce new_key random_name name be =
     (let name = opt_or name random_name in
      case encode_profile_key E P nonce new_key (cache_store_key (ob_key_cache be)) of
        Ok enc_key \<Rightarrow>
          (case pg_insert_profile name enc_key (ob_db be) of
             (Some pid, db) \<Rightarrow>
               (Ok name, be\<lparr>ob_db := db, ob_key_cache := add_profile name pid new_key (ob_key_cache be)\<rparr>)
           | (None, db) \<Rightarrow> (Err (err_msg storage_kind.Backend ''Error inserting profile''), be\<lparr>ob_db := db\<rparr>))
      | Err e \<Rightarrow> (Err e, be)
      | Panic \<Rightarrow> (Panic, be))"

text \<open>The first row is unwrapped; a null value is read as the empty text.\<close>

definition odbc_get_default_profile :: "OdbcBackend \<Rightarrow> string storage_result" where
  "odbc_get_default_profile be =
     (case config (pg_tables (ob_db be)) ''default_profile'' of
        Some profile \<Rightarrow> Ok (opt_or profile [])
      | None \<Rightarrow> Panic)"

text \<open>An \<open>UPDATE\<close> of a row of \<open>config\<close> that is not there changes nothing and succeeds.\<close>

definition update_config :: "string \<Rightarrow> string \<Rightarrow> Database \<Rightarrow> Database" where
  "update_config name v t = (if config t name = None then t else t\<lparr>config := (config t)(name \<mapsto> Some v)\<rparr>)"

definition odbc_set_default_profile :: "string \<Rightarrow> OdbcBackend \<Rightarrow> unit storage_result \<times> OdbcBackend" where
  "odbc_set_default_profile profile be = (Ok (), be\<lparr>ob_db := on_pg_tables (update_config ''default_profile'' profile) (ob_db be)\<rparr>)"

text \<open>One batch of at most 64 rows is read, and unwrapped.\<close>

definition odbc_list_profiles :: "OdbcBackend \<Rightarrow> string list storage_result" where
  "odbc_list_profiles be =
     (case profiles (pg_tables (ob_db be)) of [] \<Rightarrow> Panic | ps \<Rightarrow> Ok (map p_name (take 64 ps)))"

definition odbc_remove_profile :: "string \<Rightarrow> OdbcBackend \<Rightarrow> bool storage_result \<times> OdbcBackend" where
  "odbc_remove_profile name be =
     (let (n, t) = delete_profile name (pg_tables (ob_db be)) in (Ok (n \<noteq> 0), be\<lparr>ob_db := (ob_db be)\<lparr>pg_tables := t\<rparr>\<rparr>))"

text \<open>\<open>acquire_key\<close>: executing a \<open>SELECT\<close> always gives a cursor, and the row of an unknown profile is unwrapped.\<close>

definition odbc_acquire_key :: "store_key_env \<Rightarrow> profile_env \<Rightarrow> string \<Rightarrow> OdbcBackend \<Rightarrow> acquired \<times> OdbcBackend" where
  "odbc_acquire_key E P profile be =
     (case get_profile (ob_key_cache be) profile of
        Some (pid, key) \<Rightarrow> (Ok (pid, key), be)
      | None \<Rightarrow>
          (case find_profile profile (pg_tables (ob_db be)) of
             Some row \<Rightarrow>
               (case load_key E P (ob_key_cache be) (p_key row) of
                  Ok key \<Rightarrow> (Ok (p_id row, key), be\<lparr>ob_key_cache := add_profile profile (p_id row) key (ob_key_cache be)\<rparr>)
                | Err e \<Rightarrow> (Err e, be)
                | Panic \<Rightarrow> (Panic, be))
           | None \<Rightarrow> (Panic, be)))"

text \<open>\<open>rekey\<close>: the keys are read first, by id, and then written one by one; nothing is rolled back.\<close>

fun odbc_rekey_rows :: "(ProfileRow \<Rightarrow> (int \<times> bytes) storage_result) \<Rightarrow> ProfileRow list \<Rightarrow> Database \<Rightarrow> unit storage_result \<times> Database" where
  "odbc_rekey_rows conv [] t = (Ok (), t)"
| "odbc_rekey_rows conv (row # rows) t =
     (case conv row of
        Ok (pid, upd_key) \<Rightarrow> odbc_rekey_rows conv rows (snd (update_profile_key upd_key pid t))
      | Err e \<Rightarrow> (Err e, t)
      | Panic \<Rightarrow> (Panic, t))"

definition odbc_rekey :: "store_key_env \<Rightarrow> profile_env \<Rightarrow> bytes \<Rightarrow> bytes \<Rightarrow> (int \<Rightarrow> bytes) \<Rightarrow> StoreKeyMethod \<Rightarrow> PassKey \<Rightarrow> OdbcBackend
    \<Rightarrow> unit storage_result \<times> OdbcBackend" where
  "odbc_rekey E P salt rnd nonces method pass_key be =
     (case store_key_method_resolve E salt rnd method (pass_key_into_owned pass_key) of
        Ok (store_key, store_key_ref) \<Rightarrow>
          (let t = pg_tables (ob_db be);
               (r, t) = odbc_rekey_rows (rekey_row E P nonces (ob_key_cache be) store_key) (sort_key p_id (profiles t)) t;
               be = be\<lparr>ob_db := (ob_db be)\<lparr>pg_tables := t\<rparr>\<rparr>
           in if r = Ok () then
                (Ok (), be\<lparr>ob_db := on_pg_tables (update_config ''key'' (store_key_reference_into_uri store_key_ref)) (ob_db be),
                   ob_key_cache := key_cache_new store_key\<rparr>)
              else (r, be))
      | Err e \<Rightarrow> (Err e, be)
      | Panic \<Rightarrow> (Panic, be))"

text \<open>\<open>scan\<close> reads all rows before it returns a stream with one page.\<close>

definition odbc_backend_scan :: "store_key_env \<Rightarrow> odbc_env \<Rightarrow> int \<Rightarrow> string option \<Rightarrow> EntryKind option \<Rightarrow> string option
    \<Rightarrow> TagFilter option \<Rightarrow> int option \<Rightarrow> int option \<Rightarrow> OrderBy option \<Rightarrow> bool \<Rightarrow> OdbcBackend
    \<Rightarrow> Entry Scan storage_result \<times> OdbcBackend" where
  "odbc_backend_scan E env now profile kind category tag_filter offset limit order_by descending be =
     (let (acquired, be) = odbc_acquire_key E (se_profile (oe_base env)) (opt_or profile (ob_active_profile be)) be
      in (res_map (\<lambda>entries. scan_new [Ok entries] PAGE_SIZE)
            (odbc_perform_scan env now acquired kind category tag_filter offset limit order_by descending (ob_db be)), be))"

text \<open>
  \<open>session\<close>, on a connection of the pool; the key of the profile, which the first operation of the session acquires, is
  acquired here.
\<close>

definition odbc_backend_session :: "store_key_env \<Rightarrow> odbc_env \<Rightarrow> bool \<Rightarrow> string option \<Rightarrow> bool \<Rightarrow> OdbcConnection \<Rightarrow> OdbcBackend
    \<Rightarrow> (OdbcConnection session_ops \<times> OdbcConnection) \<times> OdbcBackend" where
  "odbc_backend_session E env fault profile transaction c be =
     (let profile = opt_or profile (ob_active_profile be);
          (acquired, be) = odbc_acquire_key E (se_profile (oe_base env)) profile be
      in ((odbc_connection_ops fault transaction (odbc_session_ops env profile acquired (Ok ())), odbc_session_new transaction c), be))"

section \<open>Provisioning\<close>

text \<open>
  The tables that exist, with their contents. What is foreign: whether the pool can be built, the text of the
  schema file if it can be read, and what executing a definition of the schema does.
\<close>

record OdbcCatalog =
  oc_tables :: "string set"
  oc_db :: PgDatabase

record odbc_client =
  oc_pool_fault :: bool
  oc_schema :: "string option"
  oc_define :: "string \<Rightarrow> OdbcCatalog \<Rightarrow> OdbcCatalog option"

definition config_exists :: "OdbcCatalog \<Rightarrow> bool" where
  "config_exists cat \<longleftrightarrow> ''config'' \<in> oc_tables cat"

definition table_names :: "string list" where
  "table_names = [''items_tags'', ''items'', ''profiles'', ''config'']"

definition drop_table :: "string \<Rightarrow> OdbcCatalog \<Rightarrow> OdbcCatalog" where
  "drop_table name cat =
     (let db = oc_db cat; t = pg_tables db in
      cat\<lparr>oc_tables := oc_tables cat - {name},
          oc_db :=
            (if name = ''items_tags'' then db\<lparr>pg_tables := t\<lparr>items_tags := []\<rparr>\<rparr>
             else if name = ''items'' then db\<lparr>pg_tables := t\<lparr>items := []\<rparr>, item_seq := 0\<rparr>
             else if name = ''profiles'' then db\<lparr>pg_tables := t\<lparr>profiles := []\<rparr>, profile_seq := 0\<rparr>
             else if name = ''config'' then db\<lparr>pg_tables := t\<lparr>config := Map.empty\<rparr>\<rparr>
             else db)\<rparr>)"

fun drop_tables :: "string list \<Rightarrow> OdbcCatalog \<Rightarrow> unit storage_result \<times> OdbcCatalog" where
  "drop_tables [] cat = (Ok (), cat)"
| "drop_tables (name # names) cat =
     (if name \<in> oc_tables cat then drop_tables names (drop_table name cat)
      else (Err (err_msg storage_kind.Backend ''Failed to drop a database table''), cat))"

text \<open>The statements of the schema file: the parts between semicolons that are not blank.\<close>

definition trim :: "string \<Rightarrow> string" where
  "trim s = rev (dropWhile is_space (rev (dropWhile is_space s)))"

definition schema_definitions :: "string \<Rightarrow> string list" where
  "schema_definitions schema = filter (\<lambda>d. d \<noteq> []) (map trim (split_all (CHR '';'') schema))"

fun run_definitions :: "(string \<Rightarrow> OdbcCatalog \<Rightarrow> OdbcCatalog option) \<Rightarrow> string list \<Rightarrow> OdbcCatalog \<Rightarrow> unit storage_result \<times> OdbcCatalog" where
  "run_definitions define [] cat = (Ok (), cat)"
| "run_definitions define (d # ds) cat =
     (case define d cat of Some cat \<Rightarrow> run_definitions define ds cat | None \<Rightarrow> (odbc_error, cat))"

definition odbc_config_text :: "string \<Rightarrow> Database \<Rightarrow> string option" where
  "odbc_config_text name t = map_option (\<lambda>v. opt_or v []) (config t name)"

definition odbc_open :: "odbc_client \<Rightarrow> store_key_env \<Rightarrow> profile_env \<Rightarrow> StoreKeyMethod option \<Rightarrow> PassKey \<Rightarrow> string option \<Rightarrow> OdbcCatalog
    \<Rightarrow> OdbcBackend storage_result" where
  "odbc_open F E P method pass_key profile cat =
     (let t = pg_tables (oc_db cat) in
      if oc_pool_fault F then Err (err_msg storage_kind.Backend ''Failed to open the database pool'')
      else if \<not> config_exists cat then Err (err_msg storage_kind.Unsupported ''Configuration data not found'')
      else
        (case odbc_config_text ''version'' t of
           None \<Rightarrow> Err (err_msg storage_kind.Unsupported ''Store version not found'')
         | Some version \<Rightarrow>
             if version \<noteq> ''1'' then Err (err_msg storage_kind.Unsupported ''Unsupported store version'')
             else
               res_bind (ok_or (case profile of Some p \<Rightarrow> Some p | None \<Rightarrow> odbc_config_text ''default_profile'' t)
                 (err_msg storage_kind.Unsupported ''Default store profile not found'')) (\<lambda>profile.
               res_bind (resolve_store_key E method pass_key (odbc_config_text ''key'' t)) (\<lambda>store_key.
               (let cache = key_cache_new store_key in
                res_bind (if ''profiles'' \<notin> oc_tables cat then Ok (0, [])
                    else (case find_profile profile t of Some row \<Rightarrow> Ok (p_id row, p_key row) | None \<Rightarrow> Panic)) (\<lambda>(profile_id, enc_key).
                res_bind (load_key E P cache enc_key) (\<lambda>profile_key.
                Ok \<lparr>ob_db = oc_db cat, ob_active_profile = profile,
                   ob_key_cache = add_profile profile profile_id profile_key cache\<rparr>)))))))"

text \<open>
  The rest of \<open>provision\<close>, with the tables as the definitions left them. A statement on a table that does not
  exist fails, and so does a second row for a name in \<open>config\<close> or \<open>profiles\<close>.
\<close>

definition odbc_init :: "StoreKey \<Rightarrow> string \<Rightarrow> ProfileKey \<Rightarrow> bytes \<Rightarrow> string \<Rightarrow> OdbcCatalog \<Rightarrow> OdbcBackend storage_result \<times> OdbcCatalog" where
  "odbc_init store_key store_key_ref profile_key enc_profile_key default_profile cat =
     (let t = pg_tables (oc_db cat) in
      if ''config'' \<notin> oc_tables cat \<or> {''default_profile'', ''key'', ''version''} \<inter> dom (config t) \<noteq> {} then
        (Err (err_msg storage_kind.Backend ''Failed to insert the configuration data''), cat)
      else
        (let t = t\<lparr>config := (config t)(''default_profile'' \<mapsto> Some default_profile, ''key'' \<mapsto> Some store_key_ref, ''version'' \<mapsto> Some ''1'')\<rparr>;
             cat = cat\<lparr>oc_db := (oc_db cat)\<lparr>pg_tables := t\<rparr>\<rparr>
         in if ''profiles'' \<notin> oc_tables cat then (Err (err_msg storage_kind.Backend ''Failed to insert the default profile''), cat)
            else
              (case pg_insert_profile default_profile enc_profile_key (oc_db cat) of
                 (Some pid, db) \<Rightarrow>
                   (Ok \<lparr>ob_db = db, ob_active_profile = default_profile,
                       ob_key_cache = add_profile default_profile pid profile_key (key_cache_new store_key)\<rparr>, cat\<lparr>oc_db := db\<rparr>)
               | (None, db) \<Rightarrow> (Err (err_msg storage_kind.Backend ''Failed to insert the default profile''), cat\<lparr>oc_db := db\<rparr>))))"

definition odbc_provision :: "odbc_client \<Rightarrow> store_key_env \<Rightarrow> profile_env \<Rightarrow> bytes \<Rightarrow> bytes \<Rightarrow> bytes \<Rightarrow> ProfileKey \<Rightarrow> string \<Rightarrow> StoreKeyMethod \<Rightarrow> PassKey
    \<Rightarrow> string option \<Rightarrow> bool \<Rightarrow> OdbcCatalog \<Rightarrow> OdbcBackend storage_result \<times> OdbcCatalog" where
  "odbc_provision F E P salt rnd nonce new_key random_name method pass_key profile recreate cat =
     (if oc_pool_fault F then (Err (err_msg storage_kind.Backend ''Failed to open the database pool''), cat)
      else if config_exists cat \<and> \<not> recreate then (odbc_open F E P (Some method) pass_key profile cat, cat)
      else
        (case (if config_exists cat then drop_tables table_names cat else (Ok (), cat)) of
           (Ok _, cat) \<Rightarrow>
             (case res_bind (init_keys E P salt rnd nonce new_key method (pass_key_into_owned pass_key)) (\<lambda>keys.
                   res_map (Pair keys) (ok_or (oc_schema F) (err_msg storage_kind.Backend ''Failed to read the schema file''))) of
                Ok ((profile_key, enc_profile_key, store_key, store_key_ref), schema) \<Rightarrow>
                  (case run_definitions (oc_define F) (schema_definitions schema) cat of
                     (Ok _, cat) \<Rightarrow> odbc_init store_key store_key_ref profile_key enc_profile_key (opt_or profile random_name) cat
                   | (Err e, cat) \<Rightarrow> (Err e, cat)
                   | (Panic, cat) \<Rightarrow> (Panic, cat))
              | Err e \<Rightarrow> (Err e, cat)
              | Panic \<Rightarrow> (Panic, cat))
         | (Err e, cat) \<Rightarrow> (Err e, cat)
         | (Panic, cat) \<Rightarrow> (Panic, cat)))"

text \<open>\<open>remove\<close> answers true whether or not there was a store.\<close>

definition odbc_remove :: "odbc_client \<Rightarrow> OdbcCatalog \<Rightarrow> bool storage_result \<times> OdbcCatalog" where
  "odbc_remove F cat =
     (if oc_pool_fault F then (Err (err_msg storage_kind.Backend ''Failed to open the database pool''), cat)
      else if config_exists cat then map_prod (res_map (\<lambda>_. True)) id (drop_tables table_names cat)
      else (Ok True, cat))"

text \<open>The single page of a scan has all rows, so that reading the scan to its end returns them.\<close>

lemma odbc_scan_delivers:
  assumes "odbc_acquire_key E (se_profile (oe_base env)) (opt_or profile (ob_active_profile be)) be = (acquired, be1)"
    and "odbc_perform_scan env now acquired kind category tag_filter offset limit order_by descending (ob_db be1) = Ok es"
  shows "\<exists>sc. odbc_backend_scan E env now profile kind category tag_filter offset limit order_by descending be = (Ok sc, be1) \<and> scan_all sc = Ok es"
proof -
  have "scan_all (scan_new [Ok es] PAGE_SIZE) = Ok (concat [es])" by (rule scan_all_pages) (simp_all add: scan_new_def)
  with assms show ?thesis by (simp add: odbc_backend_scan_def)
qed

section \<open>Transactions\<close>

text \<open>A sequence of operations, on the connection and on the tables.\<close>

definition odbc_run :: "(PgDatabase \<Rightarrow> 'r \<times> PgDatabase) list \<Rightarrow> OdbcConnection \<Rightarrow> OdbcConnection" where
  "odbc_run ops = fold (\<lambda>op c. snd (odbc_execute op c)) ops"

lemma odbc_run_effect:
  "odbc_run ops c = c\<lparr>on_view := fold (\<lambda>op db. snd (op db)) ops (on_view c),
     on_committed := (if on_autocommit c \<and> ops \<noteq> [] then fold (\<lambda>op db. snd (op db)) ops (on_view c) else on_committed c)\<rparr>"
proof (induction ops arbitrary: c)
  case (Cons op ops)
  have "odbc_run (op # ops) c = odbc_run ops (snd (odbc_execute op c))" by (simp add: odbc_run_def)
  then show ?case by (simp add: Cons odbc_execute_def Let_def split: prod.splits)
qed (simp add: odbc_run_def)

text \<open>
  The operations of a transaction stay invisible to others until it is closed; closing it with commit makes them all visible
  and closing it with rollback restores the tables. But a session that is dropped without being closed, after an error or
  because its future is dropped, leaves its changes pending on the pooled connection, and the next session on that
  connection that is not a transaction commits them.
\<close>

theorem odbc_transaction_outcome:
  assumes "on_view c = on_committed c" and "c' = odbc_run ops (odbc_session_new True c)" and "view = fold (\<lambda>op db. snd (op db)) ops (on_committed c)"
  shows "on_committed c' = on_committed c \<and>
    on_committed (snd (odbc_close False True True c')) = view \<and>
    pg_tables (on_committed (snd (odbc_close False True False c'))) = pg_tables (on_committed c) \<and>
    on_committed (odbc_run ops (odbc_session_new False c)) = view \<and>
    on_committed (odbc_session_new False c') = view"
  using assms by (cases "ops = []") (simp_all add: odbc_run_effect odbc_session_new_def set_autocommit_def odbc_close_def)

definition toy_connection :: OdbcConnection where
  "toy_connection = \<lparr>on_committed = toy_odbc_db, on_view = toy_odbc_db, on_autocommit = True\<rparr>"

theorem odbc_transaction_outcome_witness:
  "on_committed (odbc_session_new False (odbc_run [odbc_update toy_odbc_env 0 (Ok (1, toy_profile_key)) (replicate 12 2) Item Insert
     ''c'' ''n'' (Some [1]) (Some [PlaintextTag ''p'' ''t'']) (Some 5000)] (odbc_session_new True toy_connection))) = toy_odbc_store"
  using odbc_transaction_outcome [OF _ refl refl, of toy_connection "[odbc_update toy_odbc_env 0 (Ok (1, toy_profile_key)) (replicate 12 2) Item Insert
     ''c'' ''n'' (Some [1]) (Some [PlaintextTag ''p'' ''t'']) (Some 5000)]"]
  by (simp add: toy_connection_def toy_odbc_store_def)

section \<open>Changing the store key\<close>

text \<open>The key written for a profile by the conversion of the rows.\<close>

definition written_key :: "(ProfileRow \<Rightarrow> (int \<times> bytes) storage_result) \<Rightarrow> ProfileRow list \<Rightarrow> ProfileRow \<Rightarrow> ProfileRow" where
  "written_key conv rows p =
     (case find (\<lambda>q. p_id q = p_id p) rows of
        Some q \<Rightarrow> (case conv q of Ok (_, key) \<Rightarrow> p\<lparr>p_key := key\<rparr> | _ \<Rightarrow> p)
      | None \<Rightarrow> p)"

lemma find_unique:
  assumes "x \<in> set xs" "P x" "\<And>y. y \<in> set xs \<Longrightarrow> P y \<Longrightarrow> y = x"
  shows "find P xs = Some x"
proof (cases "find P xs")
  case None
  with assms(1,2) show ?thesis by (simp add: find_None_iff)
next
  case (Some y)
  then have "y \<in> set xs" "P y" by (auto simp: find_Some_iff)
  with assms(3) Some show ?thesis by blast
qed

lemma written_key_Nil [simp]: "written_key conv [] = (\<lambda>p. p)"
  by (simp add: fun_eq_iff written_key_def)

lemma written_key_Cons:
  assumes "conv q = Ok (p_id q, key)" "p_id q \<notin> p_id ` set rows"
  shows "written_key conv rows (if p_id p = p_id q then p\<lparr>p_key := key\<rparr> else p) = written_key conv (q # rows) p"
proof (cases "p_id p = p_id q")
  case True
  then have "find (\<lambda>r. p_id r = p_id p) rows = None" using assms(2) by (metis (mono_tags, lifting) find_None_iff imageI)
  with True assms(1) show ?thesis by (simp add: written_key_def)
next
  case False
  then have "\<not> p_id q = p_id p" by simp
  with False show ?thesis by (simp add: written_key_def)
qed

lemma odbc_rekey_rows_effect:
  assumes "odbc_rekey_rows conv rows t = (r, t')" "\<forall>p u. conv p = Ok u \<longrightarrow> fst u = p_id p" "distinct (map p_id rows)"
  shows "\<exists>k \<le> length rows. (r = Ok () \<longleftrightarrow> k = length rows) \<and> (\<forall>p \<in> set (take k rows). \<exists>u. conv p = Ok u) \<and>
    (k < length rows \<longrightarrow> (\<forall>u. conv (rows ! k) \<noteq> Ok u)) \<and>
    t' = t\<lparr>profiles := map (written_key conv (take k rows)) (profiles t)\<rparr>"
  using assms
proof (induction rows arbitrary: t)
  case Nil
  then show ?case by simp
next
  case (Cons q rows)
  show ?case
  proof (cases "conv q")
    case (Ok u)
    obtain key where u: "u = (p_id q, key)" using Cons.prems(2) Ok by (cases u) auto
    have "odbc_rekey_rows conv rows (snd (update_profile_key key (p_id q) t)) = (r, t')" using Cons.prems(1) Ok u by simp
    from Cons.IH [OF this Cons.prems(2)] Cons.prems(3)
    obtain k where k: "k \<le> length rows" "r = Ok () \<longleftrightarrow> k = length rows" "\<forall>p \<in> set (take k rows). \<exists>u. conv p = Ok u"
      "k < length rows \<longrightarrow> (\<forall>u. conv (rows ! k) \<noteq> Ok u)" "t' = (snd (update_profile_key key (p_id q) t))\<lparr>profiles := map (written_key conv (take k rows)) (profiles (snd (update_profile_key key (p_id q) t)))\<rparr>"
      by auto
    have "p_id q \<notin> p_id ` set (take k rows)" using Cons.prems(3) by (auto dest: in_set_takeD)
    from written_key_Cons [of conv q key, OF _ this] Ok u
    have "map (written_key conv (take k rows)) (profiles (snd (update_profile_key key (p_id q) t))) = map (written_key conv (q # take k rows)) (profiles t)"
      by (simp add: update_profile_key_def)
    moreover have "(snd (update_profile_key key (p_id q) t))\<lparr>profiles := ps\<rparr> = t\<lparr>profiles := ps\<rparr>" for ps
      by (simp add: update_profile_key_def)
    ultimately show ?thesis using k Ok by (intro exI [of _ "Suc k"]) simp
  qed (use Cons.prems(1) in \<open>auto intro!: exI [of _ 0]\<close>)
qed

text \<open>
  C28. A change of the store key of an ODBC store is not atomic. If it succeeds every profile key is the one before, now under the
  new store key, and the reference to the new store key is written. If it fails, for the first profile, in the order
  of the ids, whose key cannot be converted, the profiles before it stay converted to the new store key although the reference in
  the store and the cache keep the old one.
\<close>

theorem odbc_rekey_effect:
  assumes "aead_correct (env_cipher E)" and "\<forall>k b. pe_to_cbor P k = Some b \<longrightarrow> pe_from_cbor P b = Some k" and "db_wf (pg_tables (ob_db be))"
    and "store_key_method_resolve E salt rnd method pass_key = Ok (sk, r)"
    and "odbc_rekey E P salt rnd nonces method pass_key be = (res, be')" and "t = pg_tables (ob_db be)" and "t' = pg_tables (ob_db be')"
  shows "\<exists>k \<le> length (profiles t). (res = Ok () \<longleftrightarrow> k = length (profiles t)) \<and>
    (k < length (profiles t) \<longrightarrow> (\<forall>u. rekey_row E P nonces (ob_key_cache be) sk (sort_key p_id (profiles t) ! k) \<noteq> Ok u)) \<and>
    list_all2 (\<lambda>p p'. p_id p' = p_id p \<and> p_name p' = p_name p \<and>
      (if p \<in> set (take k (sort_key p_id (profiles t))) then
         \<exists>key. load_key E P (ob_key_cache be) (p_key p) = Ok key \<and> load_key E P (key_cache_new sk) (p_key p') = Ok key
       else p' = p)) (profiles t) (profiles t') \<and>
    items t' = items t \<and> items_tags t' = items_tags t \<and>
    (if res = Ok () then ob_key_cache be' = key_cache_new sk \<and> config t' = config (update_config ''key'' (store_key_reference_into_uri r) t)
     else ob_key_cache be' = ob_key_cache be \<and> config t' = config t)"
proof -
  let ?conv = "rekey_row E P nonces (ob_key_cache be) sk" and ?rows = "sort_key p_id (profiles t)"
  obtain q t1 where q: "odbc_rekey_rows ?conv ?rows t = (q, t1)" by fastforce
  have pid: "\<forall>p u. ?conv p = Ok u \<longrightarrow> fst u = p_id p" by (auto simp: rekey_row_def result_simps)
  have d: "distinct (map p_id (profiles t))" using assms(3,6) by (simp add: db_wf_def)
  then have "distinct (map p_id ?rows)" by (metis distinct_map distinct_sort set_sort)
  from odbc_rekey_rows_effect [OF q pid this] obtain k where k: "k \<le> length ?rows" "q = Ok () \<longleftrightarrow> k = length ?rows"
      "\<forall>p \<in> set (take k ?rows). \<exists>u. ?conv p = Ok u" "k < length ?rows \<longrightarrow> (\<forall>u. ?conv (?rows ! k) \<noteq> Ok u)" "t1 = t\<lparr>profiles := map (written_key ?conv (take k ?rows)) (profiles t)\<rparr>" by blast
  have row: "p_id p' = p_id p \<and> p_name p' = p_name p \<and> (if p \<in> set (take k ?rows) then
         \<exists>key. load_key E P (ob_key_cache be) (p_key p) = Ok key \<and> load_key E P (key_cache_new sk) (p_key p') = Ok key else p' = p)"
    if p: "p \<in> set (profiles t)" and p': "p' = written_key ?conv (take k ?rows) p" for p p'
  proof (cases "p \<in> set (take k ?rows)")
    case True
    have same: "q = p" if "q \<in> set (take k ?rows)" "p_id q = p_id p" for q
      using that p d by (metis distinct_map in_set_takeD inj_onD set_sort)
    have "find (\<lambda>q. p_id q = p_id p) (take k ?rows) = Some p" by (rule find_unique) (use True same in blast)+
    moreover obtain u where u: "?conv p = Ok u" using True k(3) by blast
    ultimately have "p' = p\<lparr>p_key := snd u\<rparr>" by (simp add: p' written_key_def split: prod.splits)
    moreover have "?conv p = Ok (fst u, snd u)" using u by simp
    from rekey_row_OkD [OF assms(1) _ this] assms(2)
    have "\<exists>key. load_key E P (ob_key_cache be) (p_key p) = Ok key \<and> load_key E P (key_cache_new sk) (snd u) = Ok key" by blast
    ultimately show ?thesis using True by simp
  next
    case False
    have "p_id q \<noteq> p_id p" if "q \<in> set (take k ?rows)" for q
      using that False p d by (metis distinct_map in_set_takeD inj_onD set_sort)
    then have "find (\<lambda>q. p_id q = p_id p) (take k ?rows) = None" by (simp add: find_None_iff)
    with False show ?thesis by (simp add: p' written_key_def)
  qed
  have res: "res = q" "t' = (if q = Ok () then update_config ''key'' (store_key_reference_into_uri r) t1 else t1)"
    "ob_key_cache be' = (if q = Ok () then key_cache_new sk else ob_key_cache be)"
    using assms(4-7) q by (auto simp: odbc_rekey_def on_pg_tables_def Let_def split: if_splits)
  have "profiles t' = map (written_key ?conv (take k ?rows)) (profiles t)" "items t' = items t" "items_tags t' = items_tags t"
    by (simp_all add: res k(5) update_config_def)
  moreover have "res \<noteq> Ok () \<Longrightarrow> config t' = config t" using res k(5) by simp
  moreover have "res = Ok () \<Longrightarrow> config t' = config (update_config ''key'' (store_key_reference_into_uri r) t)" using res k(5) by (simp add: update_config_def)
  moreover have "list_all2 (\<lambda>p p'. p_id p' = p_id p \<and> p_name p' = p_name p \<and> (if p \<in> set (take k ?rows) then
         \<exists>key. load_key E P (ob_key_cache be) (p_key p) = Ok key \<and> load_key E P (key_cache_new sk) (p_key p') = Ok key else p' = p))
      (profiles t) (map (written_key ?conv (take k ?rows)) (profiles t))"
    unfolding list_all2_map2 by (rule list.rel_refl_strong) (rule row [OF _ refl])
  ultimately show ?thesis using k(1,2,4) res(1,3) by (intro exI [of _ k]) simp
qed

text \<open>The key of the second profile cannot be read: the first stays converted.\<close>

definition toy_odbc_profile_env :: profile_env where
  "toy_odbc_profile_env = toy_profile_env\<lparr>pe_from_cbor := \<lambda>b. if b = [] then Some toy_profile_key else None,
     pe_to_cbor := \<lambda>k. if k = toy_profile_key then Some [] else None\<rparr>"

definition toy_odbc_backend :: OdbcBackend where
  "toy_odbc_backend = \<lparr>ob_db = \<lparr>pg_tables = toy_db\<lparr>config := [''key'' \<mapsto> Some ''none''],
       profiles := [\<lparr>p_id = 1, p_name = ''p'', p_key = []\<rparr>, \<lparr>p_id = 2, p_name = ''q'', p_key = [1]\<rparr>]\<rparr>, item_seq = 0, profile_seq = 2\<rparr>,
     ob_active_profile = ''p'', ob_key_cache = key_cache_new None\<rparr>"

theorem odbc_rekey_effect_witness:
  "\<exists>e be'. odbc_rekey toy_env toy_odbc_profile_env [] (replicate 32 9) (\<lambda>i. replicate 12 4) RawKey None toy_odbc_backend = (Err e, be') \<and>
    load_key toy_env toy_odbc_profile_env (key_cache_new (Some (replicate 32 9))) (p_key (hd (profiles (pg_tables (ob_db be'))))) = Ok toy_profile_key \<and>
    config (pg_tables (ob_db be')) ''key'' = Some (Some ''none'')"
proof -
  let ?P = toy_odbc_profile_env and ?t = "pg_tables (ob_db toy_odbc_backend)" and ?sk = "Some (replicate 32 9)"
  have m: "store_key_method_resolve toy_env [] (replicate 32 9) RawKey None = Ok (?sk, RefRawKey)"
    by (simp add: store_key_method_resolve_def pass_key_is_empty_def pass_key_deref_def)
  have ps: "sort_key p_id (profiles ?t) = profiles ?t" "profiles ?t = [\<lparr>p_id = 1, p_name = ''p'', p_key = []\<rparr>, \<lparr>p_id = 2, p_name = ''q'', p_key = [1]\<rparr>]"
    by (simp_all add: toy_odbc_backend_def)
  have k1: "load_key toy_env ?P (ob_key_cache toy_odbc_backend) [] = Ok toy_profile_key"
    and k2: "\<exists>e. load_key toy_env ?P (ob_key_cache toy_odbc_backend) [1] = Err e"
    by (simp_all add: load_key_def toy_odbc_backend_def key_cache_new_def unwrap_data_def profile_key_from_slice_def toy_odbc_profile_env_def toy_profile_env_def)
  have c1: "\<exists>u. rekey_row toy_env ?P (\<lambda>i. replicate 12 4) (ob_key_cache toy_odbc_backend) ?sk \<lparr>p_id = 1, p_name = ''p'', p_key = []\<rparr> = Ok u"
    using k1 by (simp add: rekey_row_def encode_profile_key_def profile_key_to_bytes_def toy_odbc_profile_env_def toy_profile_env_def toy_env_def
      wrap_data_def chacha20_encrypt_in_place_def vec_insert_def Let_def)
  have c2: "\<exists>e. rekey_row toy_env ?P (\<lambda>i. replicate 12 4) (ob_key_cache toy_odbc_backend) ?sk \<lparr>p_id = 2, p_name = ''q'', p_key = [1]\<rparr> = Err e"
    using k2 by (auto simp: rekey_row_def)
  obtain res be' where rk: "odbc_rekey toy_env ?P [] (replicate 32 9) (\<lambda>i. replicate 12 4) RawKey None toy_odbc_backend = (res, be')" by fastforce
  have res: "\<exists>e. res = Err e" using rk m ps c1 c2 by (auto simp: odbc_rekey_def Let_def split: prod.splits)
  have A: "aead_correct (env_cipher toy_env)" using toy_env_correct by (simp add: store_key_env_correct_def)
  have B: "\<forall>k b. pe_to_cbor ?P k = Some b \<longrightarrow> pe_from_cbor ?P b = Some k" by (simp add: toy_odbc_profile_env_def)
  have C: "db_wf ?t" by (simp add: toy_odbc_backend_def toy_db_def db_wf_def)
  have len: "length (profiles ?t) = 2" by (simp add: ps(2))
  have nok: "res \<noteq> Ok ()" using res by auto
  from odbc_rekey_effect [OF A B C m rk refl refl, unfolded ps(1) len] nok
  obtain k where k: "k \<le> 2" "k \<noteq> 2"
      "k < 2 \<longrightarrow> (\<forall>u. rekey_row toy_env ?P (\<lambda>i. replicate 12 4) (ob_key_cache toy_odbc_backend) ?sk (profiles ?t ! k) \<noteq> Ok u)"
    and rows: "list_all2 (\<lambda>p p'. p_id p' = p_id p \<and> p_name p' = p_name p \<and> (if p \<in> set (take k (profiles ?t)) then
         \<exists>key. load_key toy_env ?P (ob_key_cache toy_odbc_backend) (p_key p) = Ok key \<and> load_key toy_env ?P (key_cache_new ?sk) (p_key p') = Ok key
       else p' = p)) (profiles ?t) (profiles (pg_tables (ob_db be')))"
    and cfg: "config (pg_tables (ob_db be')) = config ?t"
    by (simp only: if_False) blast
  have "k = 1"
  proof -
    have "k \<noteq> 0" using k(3) c1 by (cases "k = 0") (auto simp: ps(2))
    then show ?thesis using k(1,2) by linarith
  qed
  with rows have "load_key toy_env ?P (key_cache_new ?sk) (p_key (hd (profiles (pg_tables (ob_db be'))))) = Ok toy_profile_key"
    by (auto simp: ps(2) list_all2_Cons1 k1)
  moreover have "config (pg_tables (ob_db be')) ''key'' = Some (Some ''none'')" by (simp add: cfg) (simp add: toy_odbc_backend_def)
  ultimately show ?thesis using rk res by blast
qed

section \<open>Provisioning and opening\<close>

lemma find_appended: "name \<notin> p_name ` set ps \<Longrightarrow> p_name p = name \<Longrightarrow> find (\<lambda>p. p_name p = name) (ps @ [p]) = Some p"
  by (rule find_new_last) (metis imageI)+

lemma odbc_init_opens:
  assumes "store_key_env_correct E" and "length salt = SALT_LENGTH"
    and "\<forall>b. pe_to_cbor P new_key = Some b \<longrightarrow> pe_from_cbor P b = Some new_key"
    and k: "init_keys E P salt rnd nonce new_key method pass_key = Ok (key, enc, sk, uri)"
    and i: "odbc_init sk uri key enc name cat0 = (Ok be, cat)" and "\<not> oc_pool_fault F"
    and m: "m = None \<or> m = Some method" and p: "p = None \<or> p = Some name"
  shows "odbc_open F E P m pass_key p cat = Ok be \<and> ob_active_profile be = name"
proof -
  obtain r where r: "store_key_reference_parse_uri uri = Ok r" "compare_method r method"
      "store_key_reference_resolve E r pass_key = Ok sk" "load_key E P (key_cache_new sk) enc = Ok key"
    using init_keys_reopen [OF assms(1-3) k] by blast
  have sk: "resolve_store_key E m pass_key (Some uri) = Ok sk" using r(1-3) m by (auto simp: resolve_store_key_def)
  let ?c = "(config (pg_tables (oc_db cat0)))(''default_profile'' \<mapsto> Some name, ''key'' \<mapsto> Some uri, ''version'' \<mapsto> Some ''1'')"
  let ?pid = "profile_seq (oc_db cat0) + 1"
  have cat: "config_exists cat" "''profiles'' \<in> oc_tables cat" "config (pg_tables (oc_db cat)) = ?c"
      "find_profile name (pg_tables (oc_db cat)) = Some \<lparr>p_id = ?pid, p_name = name, p_key = enc\<rparr>"
    and be: "be = \<lparr>ob_db = oc_db cat, ob_active_profile = name, ob_key_cache = add_profile name ?pid key (key_cache_new sk)\<rparr>"
    using i by (auto simp: odbc_init_def pg_insert_profile_def config_exists_def find_profile_def find_appended Let_def split: if_splits)
  have "(case p of Some p \<Rightarrow> Some p | None \<Rightarrow> odbc_config_text ''default_profile'' (pg_tables (oc_db cat))) = Some name"
    using p by (auto simp: odbc_config_text_def cat(3) opt_or_def)
  then show ?thesis
    using assms(6) cat(1,2,4) sk r(4) by (simp add: odbc_open_def be odbc_config_text_def cat(3) opt_or_def ok_or_def)
qed

text \<open>
  A newly provisioned ODBC store opens again: with the same pass key, naming the profile or not and checking the key
  method or not, \<open>open\<close> returns the backend that \<open>provision\<close> returned. This needs nothing of the schema
  file but that its definitions can be executed and leave tables into which the rows can be inserted.
\<close>

theorem odbc_provisioned_store_opens:
  assumes "store_key_env_correct E" and "length salt = SALT_LENGTH"
    and "\<forall>b. pe_to_cbor P new_key = Some b \<longrightarrow> pe_from_cbor P b = Some new_key"
    and "odbc_provision F E P salt rnd nonce new_key random_name method pass_key profile recreate cat = (Ok be, cat')"
    and "recreate \<or> \<not> config_exists cat" and "m = None \<or> m = Some method" and "p = None \<or> p = Some (ob_active_profile be)"
  shows "odbc_open F E P m pass_key p cat' = Ok be \<and> ob_active_profile be = opt_or profile random_name"
proof -
  have F: "\<not> oc_pool_fault F" using assms(4) by (auto simp: odbc_provision_def split: if_splits)
  obtain u cat0 where d: "(if config_exists cat then drop_tables table_names cat else (Ok (), cat)) = (Ok u, cat0)"
    using assms(4,5) F by (cases "if config_exists cat then drop_tables table_names cat else (Ok (), cat)" rule: prod.exhaust)
      (auto simp: odbc_provision_def split: result.splits if_splits)
  obtain key enc sk uri schema where k: "init_keys E P salt rnd nonce new_key method pass_key = Ok (key, enc, sk, uri)" "oc_schema F = Some schema"
    using assms(4,5) F d by (auto simp: odbc_provision_def result_simps split: result.splits)
  obtain v cat1 where run: "run_definitions (oc_define F) (schema_definitions schema) cat0 = (Ok v, cat1)"
    using assms(4,5) F d k by (cases "run_definitions (oc_define F) (schema_definitions schema) cat0" rule: prod.exhaust)
      (auto simp: odbc_provision_def ok_or_def split: result.splits)
  have i: "odbc_init sk uri key enc (opt_or profile random_name) cat1 = (Ok be, cat')"
    using assms(4,5) F d k run by (auto simp: odbc_provision_def ok_or_def)
  have name: "ob_active_profile be = opt_or profile random_name"
    using odbc_init_opens [OF assms(1-3) k(1) i F, of None None] by simp
  from odbc_init_opens [OF assms(1-3) k(1) i F assms(6)] assms(7) show ?thesis unfolding name by blast
qed

text \<open>
  C25. A provisioning whose schema fails half way, after the table \<open>config\<close> and before the table \<open>items_tags\<close>, leaves a store
  that can no longer be used at all: it is neither opened nor provisioned again, it cannot be recreated and it cannot
  be removed, since dropping the tables fails at the first one that is missing.
\<close>

theorem odbc_interrupted_provision_stuck:
  assumes "\<not> oc_pool_fault F" and "\<not> config_exists cat0" and "oc_schema F = Some schema" and "schema_definitions schema = ds @ d # ds'"
    and "run_definitions (oc_define F) ds cat0 = (Ok (), cat)" and "oc_define F d cat = None"
    and "init_keys E P salt rnd nonce new_key method pass_key = Ok keys"
    and "config_exists cat" and "''items_tags'' \<notin> oc_tables cat" and "config (pg_tables (oc_db cat)) ''version'' = None"
    and "failed = err_msg storage_kind.Backend ''Failed to drop a database table''"
  shows "odbc_provision F E P salt rnd nonce new_key random_name method pass_key profile recreate cat0 = (odbc_error, cat) \<and>
    odbc_open F E' P' m pass_key' p cat = Err (err_msg storage_kind.Unsupported ''Store version not found'') \<and>
    odbc_provision F E' P' salt' rnd' nonce' new_key' random_name' method' pass_key' p recreate' cat =
      (if recreate' then Err failed else Err (err_msg storage_kind.Unsupported ''Store version not found''), cat) \<and>
    odbc_remove F cat = (Err failed, cat)"
proof -
  have run: "run_definitions f (ds @ d # ds') cat0 = (odbc_error, cat)"
    if "run_definitions f ds cat0 = (Ok (), cat)" "f d cat = None" for f ds and cat0 cat :: OdbcCatalog
    using that by (induction ds arbitrary: cat0) (auto split: option.splits)
  have drop: "drop_tables table_names cat = (Err failed, cat)" using assms(9,11) by (simp add: table_names_def)
  have "odbc_open F E' P' m' pass_key' p cat = Err (err_msg storage_kind.Unsupported ''Store version not found'')" for m'
    using assms(1,8,10) by (simp add: odbc_open_def odbc_config_text_def)
  moreover have "odbc_provision F E P salt rnd nonce new_key random_name method pass_key profile recreate cat0 = (odbc_error, cat)"
    using assms(1-4,7) run [OF assms(5,6)] by (cases keys) (simp add: odbc_provision_def ok_or_def odbc_error_def)
  ultimately show ?thesis using assms(1,8) drop by (simp add: odbc_provision_def odbc_remove_def)
qed

definition toy_catalog :: OdbcCatalog where
  "toy_catalog = \<lparr>oc_tables = {}, oc_db = \<lparr>pg_tables = toy_db\<lparr>profiles := []\<rparr>, item_seq = 0, profile_seq = 0\<rparr>\<rparr>"

text \<open>A schema of two definitions; \<open>n\<close> of them can be executed.\<close>

definition toy_odbc_client :: "nat \<Rightarrow> odbc_client" where
  "toy_odbc_client n = \<lparr>oc_pool_fault = False, oc_schema = Some '' a ; b;'',
     oc_define = (\<lambda>d cat. if d = ''a'' then Some (cat\<lparr>oc_tables := {''config''}\<rparr>)
       else if n = 2 then Some (cat\<lparr>oc_tables := set table_names\<rparr>) else None)\<rparr>"

lemma toy_definitions: "schema_definitions '' a ; b;'' = [''a'', ''b'']"
  by (simp add: schema_definitions_def trim_def is_space_def)

lemma toy_odbc_keys:
  "\<exists>k. init_keys toy_env toy_cbor_env (replicate 16 3) [] (replicate 12 4) toy_profile_key (DeriveKey (Argon2i Moderate)) (Some ''pass'') = Ok k"
  using toy_init_keys unfolding toy_cbor_env_def by blast

theorem odbc_provisioned_store_opens_witness:
  "\<exists>be cat'. odbc_provision (toy_odbc_client 2) toy_env toy_cbor_env (replicate 16 3) [] (replicate 12 4) toy_profile_key ''r''
      (DeriveKey (Argon2i Moderate)) (Some ''pass'') None False toy_catalog = (Ok be, cat') \<and>
    odbc_open (toy_odbc_client 2) toy_env toy_cbor_env None (Some ''pass'') None cat' = Ok be \<and> ob_active_profile be = ''r''"
proof -
  obtain k where "init_keys toy_env toy_cbor_env (replicate 16 3) [] (replicate 12 4) toy_profile_key (DeriveKey (Argon2i Moderate)) (Some ''pass'') = Ok k"
    using toy_odbc_keys by blast
  then have "\<exists>be cat'. odbc_provision (toy_odbc_client 2) toy_env toy_cbor_env (replicate 16 3) [] (replicate 12 4) toy_profile_key ''r''
      (DeriveKey (Argon2i Moderate)) (Some ''pass'') None False toy_catalog = (Ok be, cat')"
    by (cases k) (simp add: odbc_provision_def toy_odbc_client_def config_exists_def toy_catalog_def toy_definitions ok_or_def odbc_init_def table_names_def
        pg_insert_profile_def toy_db_def Let_def)
  then obtain be cat' where p: "odbc_provision (toy_odbc_client 2) toy_env toy_cbor_env (replicate 16 3) [] (replicate 12 4) toy_profile_key ''r''
      (DeriveKey (Argon2i Moderate)) (Some ''pass'') None False toy_catalog = (Ok be, cat')" by blast
  have "\<not> config_exists toy_catalog" by (simp add: config_exists_def toy_catalog_def)
  with odbc_provisioned_store_opens [OF toy_env_correct _ _ p, of None None] p show ?thesis
    by (auto simp: SALT_LENGTH_def toy_cbor_env_def opt_or_def)
qed

theorem odbc_interrupted_provision_stuck_witness:
  "\<exists>cat. odbc_provision (toy_odbc_client 1) toy_env toy_cbor_env (replicate 16 3) [] (replicate 12 4) toy_profile_key ''r''
      (DeriveKey (Argon2i Moderate)) (Some ''pass'') None False toy_catalog = (odbc_error, cat) \<and>
    odbc_remove (toy_odbc_client 1) cat = (Err (err_msg storage_kind.Backend ''Failed to drop a database table''), cat)"
proof -
  obtain k where k: "init_keys toy_env toy_cbor_env (replicate 16 3) [] (replicate 12 4) toy_profile_key (DeriveKey (Argon2i Moderate)) (Some ''pass'') = Ok k"
    using toy_odbc_keys by blast
  let ?cat = "toy_catalog\<lparr>oc_tables := {''config''}\<rparr>"
  have "odbc_provision (toy_odbc_client 1) toy_env toy_cbor_env (replicate 16 3) [] (replicate 12 4) toy_profile_key ''r''
      (DeriveKey (Argon2i Moderate)) (Some ''pass'') None False toy_catalog = (odbc_error, ?cat) \<and>
    odbc_open (toy_odbc_client 1) toy_env toy_cbor_env None None None ?cat = Err (err_msg storage_kind.Unsupported ''Store version not found'') \<and>
    odbc_provision (toy_odbc_client 1) toy_env toy_cbor_env [] [] [] toy_profile_key [] Unprotected None None True ?cat =
      (if True then Err (err_msg storage_kind.Backend ''Failed to drop a database table'')
       else Err (err_msg storage_kind.Unsupported ''Store version not found''), ?cat) \<and>
    odbc_remove (toy_odbc_client 1) ?cat = (Err (err_msg storage_kind.Backend ''Failed to drop a database table''), ?cat)"
    by (rule odbc_interrupted_provision_stuck [where ds = "[''a'']" and d = "''b''" and ds' = "[]" and schema = "'' a ; b;''", OF _ _ _ _ _ _ k _ _ _ refl])
       (simp_all add: toy_odbc_client_def config_exists_def toy_catalog_def toy_definitions toy_db_def)
  then show ?thesis by blast
qed

end
