(* ===== verification/Ffi_Tags.thy ===== *)
theory Ffi_Tags
  imports Entry "HOL-Library.Product_Lexorder"
begin

text \<open>
  The JSON form of the tags of an entry (\<open>src/ffi/tags.rs\<close>): an object with a member for each name,
  whose value is a string or a list of strings; the names of plaintext tags start with a tilde. The
  text itself is read and written by \<open>serde_json\<close>. The main result: tags that were read are
  written and read back unchanged, in the order of their names.
\<close>

section \<open>Reading\<close>

text \<open>
  The members of an object as the reader visits them: a name, whether its text contains an escape
  sequence, and the value. The name is read as a borrowed \<open>&str\<close>, which is not possible with an escape.
\<close>

type_synonym json_members = "(string \<times> bool \<times> json) list"

datatype EntryTagValues = Single string | Multiple "string list"

text \<open>The messages of the reader are dropped by its caller; an error here is \<open>()\<close>.\<close>

fun tag_strings :: "json list \<Rightarrow> (string list, unit) result" where
  "tag_strings [] = Ok []"
| "tag_strings (JString s # vs) = res_map (Cons s) (tag_strings vs)"
| "tag_strings (_ # vs) = Err ()"

fun tag_values :: "json \<Rightarrow> (EntryTagValues, unit) result" where
  "tag_values (JString s) = Ok (Single s)"
| "tag_values (JArray vs) = res_map Multiple (tag_strings vs)"
| "tag_values _ = Err ()"

definition make_tag :: "bool \<Rightarrow> string \<Rightarrow> string \<Rightarrow> EntryTag" where
  "make_tag enc n v = (if enc then EncryptedTag n v else PlaintextTag n v)"

definition read_tag_name :: "string \<Rightarrow> (string \<times> bool, unit) result" where
  "read_tag_name key =
     (case key of
        [] \<Rightarrow> Err ()
      | c # rest \<Rightarrow> if c = CHR ''~'' then Ok (rest, False) else Ok (key, True))"

fun expand_values :: "bool \<Rightarrow> string \<Rightarrow> EntryTagValues \<Rightarrow> EntryTag list" where
  "expand_values enc tag (Single v) = [make_tag enc tag v]"
| "expand_values enc tag (Multiple vs) = map (make_tag enc tag) vs"

fun tags_visit_map :: "json_members \<Rightarrow> (EntryTag list, unit) result" where
  "tags_visit_map [] = Ok []"
| "tags_visit_map ((key, escaped, val) # rest) =
     (if escaped then Err ()
      else
        res_bind (tag_values val) (\<lambda>values.
        res_bind (read_tag_name key) (\<lambda>(tag, enc).
        res_map (append (expand_values enc tag values)) (tags_visit_map rest))))"

text \<open>\<open>serde_json::from_str\<close>, on a text that holds an object, or not.\<close>

definition tags_from_json :: "json_members option \<Rightarrow> EntryTag list askar_result" where
  "tags_from_json obj =
     (case obj of
        None \<Rightarrow> Err (err_msg askar_kind.Input ''Error decoding tags'')
      | Some members \<Rightarrow> res_map_err (\<lambda>_. err_msg askar_kind.Input ''Error decoding tags'') (tags_visit_map members))"

section \<open>Writing\<close>

text \<open>The map from names to values, ordered by name and then by kind.\<close>

type_synonym tag_name = "string \<times> bool"

definition tag_name :: "EntryTag \<Rightarrow> tag_name" where
  "tag_name t = (case t of EncryptedTag n v \<Rightarrow> (n, True) | PlaintextTag n v \<Rightarrow> (n, False))"

fun push_value :: "tag_name \<Rightarrow> string \<Rightarrow> (tag_name \<times> string list) list \<Rightarrow> (tag_name \<times> string list) list" where
  "push_value n v [] = [(n, [v])]"
| "push_value n v ((m, vs) # rest) =
     (if n = m then (m, vs @ [v]) # rest
      else if n < m then (n, [v]) # (m, vs) # rest
      else (m, vs) # push_value n v rest)"

definition group_tags :: "EntryTag list \<Rightarrow> (tag_name \<times> string list) list" where
  "group_tags tags = foldl (\<lambda>m t. push_value (tag_name t) (entry_tag_value t) m) [] tags"

definition tag_name_text :: "tag_name \<Rightarrow> string" where
  "tag_name_text n = (if snd n then fst n else CHR ''~'' # fst n)"

definition tags_serialize :: "EntryTag list \<Rightarrow> (string \<times> json) list" where
  "tags_serialize tags =
     map (\<lambda>(n, vs). (tag_name_text n, if length vs > 1 then JArray (map JString vs) else JString (vs ! 0))) (group_tags tags)"

text \<open>What is read from the text of a written object: the characters that JSON escapes are escaped.\<close>

definition needs_escape :: "string \<Rightarrow> bool" where
  "needs_escape s \<longleftrightarrow> list_ex (\<lambda>c. c = CHR 0x22 \<or> c = CHR 0x5C \<or> (of_char c :: nat) < 32) s"

definition as_read :: "(string \<times> json) list \<Rightarrow> json_members" where
  "as_read obj = map (\<lambda>(k, v). (k, needs_escape k, v)) obj"

section \<open>Grouping is sorting\<close>

definition flatten_groups :: "(tag_name \<times> string list) list \<Rightarrow> EntryTag list" where
  "flatten_groups m = concat (map (\<lambda>(n, vs). map (make_tag (snd n) (fst n)) vs) m)"

definition groups_wf :: "(tag_name \<times> string list) list \<Rightarrow> bool" where
  "groups_wf m \<longleftrightarrow> sorted_wrt (<) (map fst m) \<and> list_all (\<lambda>(n, vs). vs \<noteq> []) m"

lemma tag_name_make [simp]: "tag_name (make_tag enc n v) = (n, enc)" "entry_tag_value (make_tag enc n v) = v"
  by (simp_all add: tag_name_def make_tag_def)

lemma make_tag_name: "make_tag (snd (tag_name t)) (fst (tag_name t)) (entry_tag_value t) = t"
  by (cases t) (simp_all add: tag_name_def make_tag_def)

lemma set_push_value: "fst ` set (push_value n v m) = insert n (fst ` set m)"
  by (induction n v m rule: push_value.induct) auto

lemma push_value_wf: "groups_wf m \<Longrightarrow> groups_wf (push_value n v m)"
proof (induction n v m rule: push_value.induct)
  case (2 n v m vs rest)
  then have rest: "groups_wf rest" "\<forall>k \<in> fst ` set rest. m < k" by (auto simp: groups_wf_def)
  show ?case
  proof (cases "n < m \<or> n = m")
    case True
    then show ?thesis using 2(2) by (fastforce simp: groups_wf_def)
  next
    case False
    then have "groups_wf (push_value n v rest)" "m < n" using 2(1) rest(1) by auto
    moreover have "\<forall>k \<in> set (map fst (push_value n v rest)). m < k"
      using set_push_value [of n v rest] rest(2) \<open>m < n\<close> by (metis insertE list.set_map)
    ultimately show ?thesis using False 2(2) by (auto simp: groups_wf_def)
  qed
qed (simp add: groups_wf_def)

lemma flatten_push_value:
  "groups_wf m \<Longrightarrow> filter (\<lambda>t. k = tag_name t) (flatten_groups (push_value n v m)) =
    filter (\<lambda>t. k = tag_name t) (flatten_groups m) @ (if k = n then [make_tag (snd n) (fst n) v] else [])"
proof (induction n v m rule: push_value.induct)
  case (2 n v m vs rest)
  then have rest: "groups_wf rest" "\<forall>k \<in> fst ` set rest. m < k" by (auto simp: groups_wf_def)
  have none: "filter (\<lambda>t. k = tag_name t) (flatten_groups rest) = []" if "k \<le> m"
    using rest(2) that by (fastforce simp: flatten_groups_def filter_empty_conv)
  show ?case
  proof (cases "n < m \<or> n = m")
    case True
    then show ?thesis using none by (auto simp: flatten_groups_def filter_empty_conv comp_def)
  next
    case False
    then show ?thesis using 2(1) rest(1) by (simp add: flatten_groups_def)
  qed
qed (simp add: flatten_groups_def)

lemma group_tags_wf: "groups_wf (group_tags tags)"
  by (induction tags rule: rev_induct) (simp_all add: group_tags_def push_value_wf groups_wf_def [of "[]"])

lemma filter_group_tags: "filter (\<lambda>t. k = tag_name t) (flatten_groups (group_tags tags)) = filter (\<lambda>t. k = tag_name t) tags"
proof (induction tags rule: rev_induct)
  case Nil
  then show ?case by (simp add: group_tags_def flatten_groups_def)
next
  case (snoc t tags)
  then show ?case
    using flatten_push_value [OF group_tags_wf, of k "tag_name t" "entry_tag_value t" tags]
    by (simp add: group_tags_def make_tag_name)
qed

lemma sorted_flatten: "groups_wf m \<Longrightarrow> sorted (map tag_name (flatten_groups m))"
proof (induction m)
  case (Cons a m)
  obtain n vs where a: "a = (n, vs)" by fastforce
  have "sorted (map (\<lambda>v. n) vs)" by (induction vs) auto
  with Cons a show ?case by (auto simp: groups_wf_def flatten_groups_def sorted_append comp_def intro: less_imp_le)
qed (simp add: flatten_groups_def)

lemma flatten_group_tags: "flatten_groups (group_tags tags) = sort_key tag_name tags"
proof -
  let ?f = "flatten_groups (group_tags tags)"
  have c: "count (mset xs) t = count (mset (filter (\<lambda>u. tag_name t = tag_name u) xs)) t" for xs t
    by simp
  have "mset ?f = mset tags"
  proof (rule multiset_eqI)
    show "count (mset ?f) t = count (mset tags) t" for t
      using c [of ?f t] c [of tags t] by (simp only: filter_group_tags)
  qed
  then have "sort_key tag_name tags = ?f"
    using filter_group_tags sorted_flatten [OF group_tags_wf] by (intro properties_for_sort_key) simp_all
  then show ?thesis by simp
qed

section \<open>Round trip\<close>

text \<open>The names that can be read back, which are those that reading produces.\<close>

definition readable_name :: "tag_name \<Rightarrow> bool" where
  "readable_name n \<longleftrightarrow> read_tag_name (tag_name_text n) = Ok n \<and> \<not> needs_escape (tag_name_text n)"

lemma readable_name_read:
  "read_tag_name key = Ok n \<Longrightarrow> \<not> needs_escape key \<Longrightarrow> readable_name n"
  by (cases n) (auto simp: readable_name_def read_tag_name_def tag_name_text_def split: list.splits if_splits)

lemma tag_strings_map [simp]: "tag_strings (map JString vs) = Ok vs"
  by (induction vs) simp_all

lemma read_group:
  assumes "readable_name n" "vs \<noteq> []"
  shows "tags_visit_map (as_read [(tag_name_text n, if length vs > 1 then JArray (map JString vs) else JString (vs ! 0))] @ rest) =
    res_map (append (map (make_tag (snd n) (fst n)) vs)) (tags_visit_map rest)"
proof (cases "length vs > 1")
  case False
  with assms(2) obtain v where "vs = [v]" by (cases vs) auto
  with assms(1) show ?thesis by (cases n) (simp add: as_read_def readable_name_def)
qed (use assms in \<open>cases n; simp add: as_read_def readable_name_def\<close>)

lemma read_groups:
  assumes "list_all (\<lambda>(n, vs). readable_name n \<and> vs \<noteq> []) m"
  shows "tags_visit_map (as_read (map (\<lambda>(n, vs). (tag_name_text n, if length vs > 1 then JArray (map JString vs) else JString (vs ! 0))) m)) =
    Ok (flatten_groups m)"
  using assms
proof (induction m)
  case (Cons a m)
  obtain n vs where a: "a = (n, vs)" by fastforce
  have "readable_name n" "vs \<noteq> []" using Cons.prems a by auto
  from read_group [OF this] Cons a show ?case by (simp add: as_read_def flatten_groups_def)
qed (simp add: as_read_def flatten_groups_def)

lemma group_tags_names: "fst ` set (group_tags tags) = tag_name ` set tags"
  by (induction tags rule: rev_induct) (simp_all add: group_tags_def set_push_value)

lemma written_tags_read:
  assumes "\<forall>t \<in> set tags. readable_name (tag_name t)"
  shows "tags_visit_map (as_read (tags_serialize tags)) = Ok (sort_key tag_name tags)"
proof -
  have "list_all (\<lambda>(n, vs). vs \<noteq> []) (group_tags tags)" using group_tags_wf by (simp add: groups_wf_def)
  moreover have "readable_name n" if "(n, vs) \<in> set (group_tags tags)" for n vs
    using assms group_tags_names [of tags] that by (metis (no_types, lifting) fst_conv image_iff)
  ultimately have "list_all (\<lambda>(n, vs). readable_name n \<and> vs \<noteq> []) (group_tags tags)" by (auto simp: list_all_iff)
  from read_groups [OF this] show ?thesis by (simp add: tags_serialize_def flatten_group_tags)
qed

lemma read_names_readable:
  "tags_visit_map obj = Ok tags \<Longrightarrow> \<forall>(k, escaped, v) \<in> set obj. needs_escape k \<longrightarrow> escaped \<Longrightarrow>
    t \<in> set tags \<Longrightarrow> readable_name (tag_name t)"
proof (induction obj arbitrary: tags)
  case (Cons member rest)
  obtain key escaped val where m: "member = (key, escaped, val)" by (cases member)
  with Cons.prems(1) obtain vals n rest' where v: "\<not> escaped" "read_tag_name key = Ok n" "tags_visit_map rest = Ok rest'"
    "tags = expand_values (snd n) (fst n) vals @ rest'"
    by (auto simp: result_simps split: if_splits)
  have "readable_name n" using readable_name_read [OF v(2)] Cons.prems(2) v(1) m by auto
  moreover have "tag_name t = n" if "t \<in> set (expand_values (snd n) (fst n) vals)" using that by (cases vals) auto
  moreover have "readable_name (tag_name t)" if "t \<in> set rest'"
    using Cons.IH [OF v(3)] Cons.prems(2) that by simp
  ultimately show ?case using Cons.prems(3) v(4) by auto
qed simp

text \<open>
  C20. Tags survive the C interface: whatever list of tags is read from a JSON object, the object
  written for it is read back as the same tags, sorted by name, equal names in their order and
  plaintext tags before encrypted ones of the same name.
\<close>

theorem tags_json_round_trip:
  assumes "tags_from_json (Some obj) = Ok tags" and "\<forall>(k, escaped, v) \<in> set obj. needs_escape k \<longrightarrow> escaped"
  shows "tags_from_json (Some (as_read (tags_serialize tags))) = Ok (sort_key tag_name tags)"
proof -
  have "tags_visit_map obj = Ok tags" using assms(1) by (simp add: tags_from_json_def result_simps)
  with read_names_readable assms(2) show ?thesis by (simp add: tags_from_json_def written_tags_read)
qed

theorem tags_json_round_trip_witness:
  "tags_from_json (Some (as_read (tags_serialize [EncryptedTag ''b'' ''1'', PlaintextTag ''b'' ''2'', EncryptedTag ''a'' ''3'']))) =
    Ok [EncryptedTag ''a'' ''3'', PlaintextTag ''b'' ''2'', EncryptedTag ''b'' ''1'']"
proof -
  have "sort_key tag_name [EncryptedTag ''b'' ''1'', PlaintextTag ''b'' ''2'', EncryptedTag ''a'' ''3''] =
      [EncryptedTag ''a'' ''3'', PlaintextTag ''b'' ''2'', EncryptedTag ''b'' ''1'']"
    by (simp add: tag_name_def less_eq_prod_def less_char_def less_eq_char_def)
  with tags_json_round_trip [of "[(''b'', False, JString ''1''), (''~b'', False, JArray [JString ''2'']), (''a'', False, JString ''3'')]"
      "[EncryptedTag ''b'' ''1'', PlaintextTag ''b'' ''2'', EncryptedTag ''a'' ''3'']"]
  show ?thesis
    by (simp add: tags_from_json_def read_tag_name_def make_tag_def needs_escape_def)
qed

text \<open>
  What the Rust interface can store and the C interface cannot return as it is: an encrypted tag
  whose name starts with a tilde is read back as a plaintext tag, and a name with a quotation mark
  is not read back at all.
\<close>

lemma tilde_name_becomes_plaintext:
  "tags_from_json (Some (as_read (tags_serialize [EncryptedTag ''~a'' v]))) = Ok [PlaintextTag ''a'' v]"
  by (simp add: tags_from_json_def tags_serialize_def group_tags_def as_read_def tag_name_def tag_name_text_def needs_escape_def
      read_tag_name_def make_tag_def)

lemma escaped_name_refused:
  "needs_escape n \<Longrightarrow> \<exists>e. tags_from_json (Some (as_read (tags_serialize [EncryptedTag n v]))) = Err e"
  by (simp add: tags_from_json_def tags_serialize_def group_tags_def as_read_def tag_name_def tag_name_text_def)

end
