(* ===== verification/Ffi_Lists.thy ===== *)
theory Ffi_Lists
  imports Key_Entry Ffi_Tags
begin

text \<open>
  The basis of the C interface (\<open>src/ffi\<close>): error codes and the last error (\<open>error.rs\<close>, \<open>macros.rs\<close>),
  handles that point to shared values (\<open>handle.rs\<close>), secret buffers (\<open>secret.rs\<close>) and the lists of
  results with the functions that read them (\<open>result_list.rs\<close>).
\<close>

section \<open>Errors\<close>

datatype ErrorCode = Success | Backend | Busy | Duplicate | Encryption | Input | NotFound | Unexpected | Unsupported | Custom

primrec error_code_num :: "ErrorCode \<Rightarrow> nat" where
  "error_code_num Success = 0"
| "error_code_num Backend = 1"
| "error_code_num Busy = 2"
| "error_code_num Duplicate = 3"
| "error_code_num Encryption = 4"
| "error_code_num Input = 5"
| "error_code_num NotFound = 6"
| "error_code_num Unexpected = 7"
| "error_code_num Unsupported = 8"
| "error_code_num Custom = 100"

primrec error_code_of_kind :: "askar_kind \<Rightarrow> ErrorCode" where
  "error_code_of_kind askar_kind.Backend = Backend"
| "error_code_of_kind askar_kind.Busy = Busy"
| "error_code_of_kind askar_kind.Custom = Custom"
| "error_code_of_kind askar_kind.Duplicate = Duplicate"
| "error_code_of_kind askar_kind.Encryption = Encryption"
| "error_code_of_kind askar_kind.Input = Input"
| "error_code_of_kind askar_kind.NotFound = NotFound"
| "error_code_of_kind askar_kind.Unexpected = Unexpected"
| "error_code_of_kind askar_kind.Unsupported = Unsupported"

text \<open>
  \<open>LAST_ERROR\<close> is the state; \<open>set_last_error\<close> replaces it and \<open>get_current_error_json\<close> takes it. The pointer of
  \<open>askar_get_current_error\<close> is not checked; a null pointer has no defined behaviour.
\<close>

type_synonym last_error = "askar_error option"

definition set_last_error :: "last_error \<Rightarrow> ErrorCode \<times> last_error" where
  "set_last_error error = (case error of Some err \<Rightarrow> error_code_of_kind (err_kind err) | None \<Rightarrow> Success, error)"

text \<open>\<open>Display for Error\<close>, for an error without a cause.\<close>

definition askar_error_display :: "askar_error \<Rightarrow> string" where
  "askar_error_display e = (case err_message e of Some m \<Rightarrow> m | None \<Rightarrow> askar_kind_as_str (err_kind e))"

definition get_current_error_json :: "last_error \<Rightarrow> json \<times> last_error" where
  "get_current_error_json lerr =
     (case lerr of
        Some err \<Rightarrow> (JObject [(''code'', JNumber (show_nat (error_code_num (error_code_of_kind (err_kind err))))),
          (''message'', JString (askar_error_display err))], None)
      | None \<Rightarrow> (JObject [(''code'', JNumber ''0''), (''message'', JNull)], None))"

definition askar_get_current_error :: "last_error \<Rightarrow> bool \<Rightarrow> (ErrorCode \<times> json \<times> last_error) option" where
  "askar_get_current_error lerr out_null = (if out_null then None else Some (Success, get_current_error_json lerr))"

text \<open>
  \<open>catch_err!\<close>: an error and a panic set the last error; only a success writes the result. The payload of
  a panic from \<open>unwrap\<close> or \<open>expect\<close> is not a string literal, so that its message is left out.
\<close>

definition panic_error :: askar_error where
  "panic_error = err_msg askar_kind.Unexpected (''Panic during execution: '' @ [CHR 0x27] @ ''no message'' @ [CHR 0x27])"

definition catch_err :: "last_error \<Rightarrow> 'o askar_result \<Rightarrow> ErrorCode \<times> 'o option \<times> last_error" where
  "catch_err lerr r =
     (case r of
        Ok out \<Rightarrow> (Success, Some out, lerr)
      | Err e \<Rightarrow> (let (code, lerr) = set_last_error (Some e) in (code, None, lerr))
      | Panic \<Rightarrow> (let (code, lerr) = set_last_error (Some panic_error) in (code, None, lerr)))"

definition check_useful_c_ptr :: "bool \<Rightarrow> unit askar_result" where
  "check_useful_c_ptr null =
     (if null then Err (err_msg askar_kind.Input ''Invalid pointer for result value'') else Ok ())"

text \<open>\<open>CString::new(s).unwrap()\<close>: a string for C has no zero byte inside.\<close>

definition c_string :: "string \<Rightarrow> string askar_result" where
  "c_string s = (if CHR 0x00 \<in> set s then Panic else Ok s)"

section \<open>Shared handles\<close>

text \<open>
  \<open>ArcHandle\<close>: a pointer, zero when it is invalid, to a value with a count of references. Using a
  pointer whose value was freed has no defined behaviour; that is the outer \<open>None\<close>. \<open>addr\<close> is the
  address that the allocator gives.
\<close>

type_synonym 'a arc_heap = "nat \<rightharpoonup> 'a \<times> nat"

abbreviation invalid_handle :: nat where
  "invalid_handle \<equiv> 0"

definition arc_create :: "nat \<Rightarrow> 'a \<Rightarrow> 'a arc_heap \<Rightarrow> nat \<times> 'a arc_heap" where
  "arc_create addr v heap = (addr, heap(addr \<mapsto> (v, 1)))"

definition arc_validate :: "nat \<Rightarrow> unit askar_result" where
  "arc_validate h = (if h = 0 then Err (err_msg askar_kind.Input ''Invalid handle'') else Ok ())"

definition arc_load :: "nat \<Rightarrow> 'a arc_heap \<Rightarrow> ('a askar_result \<times> 'a arc_heap) option" where
  "arc_load h heap =
     (case arc_validate h of
        Ok _ \<Rightarrow> (case heap h of None \<Rightarrow> None | Some (v, n) \<Rightarrow> Some (Ok v, heap(h \<mapsto> (v, n + 1))))
      | Err e \<Rightarrow> Some (Err e, heap)
      | Panic \<Rightarrow> Some (Panic, heap))"

text \<open>\<open>Arc::decrement_strong_count\<close>, which is also what the end of the scope of a loaded value does.\<close>

definition arc_decrement :: "nat \<Rightarrow> 'a arc_heap \<Rightarrow> 'a arc_heap option" where
  "arc_decrement h heap =
     (case heap h of None \<Rightarrow> None | Some (v, n) \<Rightarrow> Some (if n = 1 then heap(h := None) else heap(h \<mapsto> (v, n - 1))))"

definition arc_remove :: "nat \<Rightarrow> 'a arc_heap \<Rightarrow> 'a arc_heap option" where
  "arc_remove h heap = (if h \<noteq> 0 then arc_decrement h heap else Some heap)"

text \<open>Loading for the time of a call leaves the heap as it was.\<close>

lemma arc_load_decrement:
  "arc_load h heap = Some (Ok v, heap') \<Longrightarrow> \<forall>w. heap h \<noteq> Some (w, 0) \<Longrightarrow> arc_decrement h heap' = Some heap"
  by (auto simp: arc_load_def arc_validate_def arc_decrement_def fun_upd_idem split: if_splits option.splits)

definition arc_value :: "nat \<Rightarrow> 'a arc_heap \<Rightarrow> 'a askar_result option" where
  "arc_value h heap = map_option fst (arc_load h heap)"

text \<open>The shape of the functions that read from a handle into an out pointer.\<close>

definition read_handle :: "last_error \<Rightarrow> bool \<Rightarrow> nat \<Rightarrow> 'a arc_heap \<Rightarrow> ('a \<Rightarrow> 'o askar_result) \<Rightarrow> (ErrorCode \<times> 'o option \<times> last_error) option" where
  "read_handle lerr out_null h heap f =
     (case check_useful_c_ptr out_null of
        Ok _ \<Rightarrow> map_option (\<lambda>v. catch_err lerr (res_bind v f)) (arc_value h heap)
      | Err e \<Rightarrow> Some (catch_err lerr (Err e))
      | Panic \<Rightarrow> Some (catch_err lerr Panic))"

section \<open>Secret buffers\<close>

record SecretBuffer =
  sb_len :: int
  sb_data :: "bytes option"

definition secret_buffer_default :: SecretBuffer where
  "secret_buffer_default = \<lparr>sb_len = 0, sb_data = None\<rparr>"

definition from_secret :: "bytes \<Rightarrow> SecretBuffer askar_result" where
  "from_secret buf = (if length buf < 2 ^ 63 then Ok \<lparr>sb_len = int (length buf), sb_data = Some buf\<rparr> else Panic)"

text \<open>The length has to be that of the allocation; otherwise the behaviour is not defined.\<close>

definition destroy_into_secret :: "SecretBuffer \<Rightarrow> bytes askar_result option" where
  "destroy_into_secret sb =
     (case sb_data sb of
        None \<Rightarrow> Some (Ok [])
      | Some data \<Rightarrow>
          if sb_len sb < 0 then Some Panic
          else if nat (sb_len sb) = length data then Some (Ok data)
          else None)"

text \<open>\<open>askar_buffer_free\<close>: a panic aborts the process.\<close>

definition askar_buffer_free :: "SecretBuffer \<Rightarrow> unit askar_result option" where
  "askar_buffer_free buffer = map_option (res_map (\<lambda>_. ())) (destroy_into_secret buffer)"

record EncryptedBuffer =
  eb_buffer :: SecretBuffer
  eb_tag_pos :: int
  eb_nonce_pos :: int

definition from_encrypted :: "Encrypted \<Rightarrow> EncryptedBuffer askar_result" where
  "from_encrypted enc =
     (if enc_tag_pos enc < 2 ^ 63 \<and> enc_nonce_pos enc < 2 ^ 63 then
        res_map (\<lambda>sb. \<lparr>eb_buffer = sb, eb_tag_pos = int (enc_tag_pos enc), eb_nonce_pos = int (enc_nonce_pos enc)\<rparr>)
          (from_secret (enc_buffer enc))
      else Panic)"

lemma destroy_from_secret: "from_secret buf = Ok sb \<Longrightarrow> destroy_into_secret sb = Some (Ok buf)"
  by (auto simp: from_secret_def destroy_into_secret_def split: if_splits)

section \<open>Result lists\<close>

datatype 'r FfiResultList = SingleRow 'r | Rows "'r list"

definition get_row :: "'r FfiResultList \<Rightarrow> int \<Rightarrow> 'r askar_result" where
  "get_row results idx =
     (let failed = Err (err_msg askar_kind.Input ''Invalid index for result set'') in
      if idx \<ge> 0 then
        (case results of
           SingleRow e \<Rightarrow> if idx = 0 then Ok e else failed
         | Rows r \<Rightarrow> if nat idx < length r then Ok (r ! nat idx) else failed)
      else failed)"

text \<open>\<open>r.len() as i32\<close> keeps the low 32 bits.\<close>

definition list_len :: "'r FfiResultList \<Rightarrow> int" where
  "list_len results = (case results of SingleRow _ \<Rightarrow> 0 | Rows r \<Rightarrow> sint (word_of_nat (length r) :: 32 word))"

type_synonym 'o ffi_read = "(ErrorCode \<times> 'o option \<times> last_error) option"

definition askar_entry_list_count :: "last_error \<Rightarrow> nat \<Rightarrow> bool \<Rightarrow> Entry FfiResultList arc_heap \<Rightarrow> int ffi_read" where
  "askar_entry_list_count lerr handle null heap = read_handle lerr null handle heap (\<lambda>results. Ok (list_len results))"

definition askar_entry_list_get_category :: "last_error \<Rightarrow> nat \<Rightarrow> int \<Rightarrow> bool \<Rightarrow> Entry FfiResultList arc_heap \<Rightarrow> string ffi_read" where
  "askar_entry_list_get_category lerr handle index null heap =
     read_handle lerr null handle heap (\<lambda>results. res_bind (get_row results index) (\<lambda>entry. c_string (entry_category entry)))"

definition askar_entry_list_get_name :: "last_error \<Rightarrow> nat \<Rightarrow> int \<Rightarrow> bool \<Rightarrow> Entry FfiResultList arc_heap \<Rightarrow> string ffi_read" where
  "askar_entry_list_get_name lerr handle index null heap =
     read_handle lerr null handle heap (\<lambda>results. res_bind (get_row results index) (\<lambda>entry. c_string (entry_name entry)))"

definition askar_entry_list_get_value :: "last_error \<Rightarrow> nat \<Rightarrow> int \<Rightarrow> bool \<Rightarrow> Entry FfiResultList arc_heap \<Rightarrow> SecretBuffer ffi_read" where
  "askar_entry_list_get_value lerr handle index null heap =
     read_handle lerr null handle heap (\<lambda>results. res_bind (get_row results index) (\<lambda>entry. from_secret (entry_value entry)))"

text \<open>
  The tags as the object whose text is written, or a null pointer without tags. The text of JSON escapes
  zero bytes, so that the conversion for C does not fail.
\<close>

definition tags_out :: "EntryTag list \<Rightarrow> (string \<times> json) list option" where
  "tags_out tags = (if tags = [] then None else Some (tags_serialize tags))"

definition askar_entry_list_get_tags :: "last_error \<Rightarrow> nat \<Rightarrow> int \<Rightarrow> bool \<Rightarrow> Entry FfiResultList arc_heap
    \<Rightarrow> (string \<times> json) list option ffi_read" where
  "askar_entry_list_get_tags lerr handle index null heap =
     read_handle lerr null handle heap (\<lambda>results. res_bind (get_row results index) (\<lambda>entry. Ok (tags_out (entry_tags entry))))"

definition askar_entry_list_free :: "nat \<Rightarrow> Entry FfiResultList arc_heap \<Rightarrow> Entry FfiResultList arc_heap option" where
  "askar_entry_list_free handle heap = arc_remove handle heap"

definition askar_key_entry_list_count :: "last_error \<Rightarrow> nat \<Rightarrow> bool \<Rightarrow> KeyEntry FfiResultList arc_heap \<Rightarrow> int ffi_read" where
  "askar_key_entry_list_count lerr handle null heap = read_handle lerr null handle heap (\<lambda>results. Ok (list_len results))"

definition askar_key_entry_list_free :: "nat \<Rightarrow> KeyEntry FfiResultList arc_heap \<Rightarrow> KeyEntry FfiResultList arc_heap option" where
  "askar_key_entry_list_free handle heap = arc_remove handle heap"

text \<open>A text that may be missing, for which a null pointer is written.\<close>

definition opt_c_string :: "string option \<Rightarrow> string option askar_result" where
  "opt_c_string s = (case s of Some s \<Rightarrow> res_map Some (c_string s) | None \<Rightarrow> Ok None)"

definition askar_key_entry_list_get_algorithm :: "last_error \<Rightarrow> nat \<Rightarrow> int \<Rightarrow> bool \<Rightarrow> KeyEntry FfiResultList arc_heap \<Rightarrow> string option ffi_read" where
  "askar_key_entry_list_get_algorithm lerr handle index null heap =
     read_handle lerr null handle heap (\<lambda>results. res_bind (get_row results index) (\<lambda>entry. opt_c_string (ke_algorithm entry)))"

definition askar_key_entry_list_get_name :: "last_error \<Rightarrow> nat \<Rightarrow> int \<Rightarrow> bool \<Rightarrow> KeyEntry FfiResultList arc_heap \<Rightarrow> string ffi_read" where
  "askar_key_entry_list_get_name lerr handle index null heap =
     read_handle lerr null handle heap (\<lambda>results. res_bind (get_row results index) (\<lambda>entry. c_string (ke_name entry)))"

definition askar_key_entry_list_get_metadata :: "last_error \<Rightarrow> nat \<Rightarrow> int \<Rightarrow> bool \<Rightarrow> KeyEntry FfiResultList arc_heap \<Rightarrow> string option ffi_read" where
  "askar_key_entry_list_get_metadata lerr handle index null heap =
     read_handle lerr null handle heap (\<lambda>results. res_bind (get_row results index) (\<lambda>entry. opt_c_string (ke_metadata entry)))"

definition askar_key_entry_list_get_tags :: "last_error \<Rightarrow> nat \<Rightarrow> int \<Rightarrow> bool \<Rightarrow> KeyEntry FfiResultList arc_heap
    \<Rightarrow> (string \<times> json) list option ffi_read" where
  "askar_key_entry_list_get_tags lerr handle index null heap =
     read_handle lerr null handle heap (\<lambda>results. res_bind (get_row results index) (\<lambda>entry. Ok (tags_out (ke_tags entry))))"

text \<open>The loaded key is written as a new handle at the address \<open>addr\<close>.\<close>

definition askar_key_entry_list_load_local :: "key_env \<Rightarrow> base64 \<Rightarrow> json_reader \<Rightarrow> last_error \<Rightarrow> nat \<Rightarrow> int \<Rightarrow> bool
    \<Rightarrow> KeyEntry FfiResultList arc_heap \<Rightarrow> nat \<Rightarrow> LocalKey arc_heap \<Rightarrow> (nat \<times> LocalKey arc_heap) ffi_read" where
  "askar_key_entry_list_load_local K b64 J lerr handle index null heap addr keys =
     read_handle lerr null handle heap (\<lambda>results.
       res_bind (get_row results index) (\<lambda>entry.
       res_bind (load_local_key K b64 J entry) (\<lambda>key.
       Ok (arc_create addr key keys))))"

definition askar_string_list_count :: "last_error \<Rightarrow> nat \<Rightarrow> bool \<Rightarrow> string FfiResultList arc_heap \<Rightarrow> int ffi_read" where
  "askar_string_list_count lerr handle null heap = read_handle lerr null handle heap (\<lambda>results. Ok (list_len results))"

definition askar_string_list_get_item :: "last_error \<Rightarrow> nat \<Rightarrow> int \<Rightarrow> bool \<Rightarrow> string FfiResultList arc_heap \<Rightarrow> string ffi_read" where
  "askar_string_list_get_item lerr handle index null heap =
     read_handle lerr null handle heap (\<lambda>results. res_bind (get_row results index) c_string)"

definition askar_string_list_free :: "nat \<Rightarrow> string FfiResultList arc_heap \<Rightarrow> string FfiResultList arc_heap option" where
  "askar_string_list_free handle heap = arc_remove handle heap"

section \<open>What a client reads\<close>

lemma read_handle_live:
  assumes "heap h = Some (v, n)" "h \<noteq> 0"
  shows "read_handle lerr False h heap f = Some (catch_err lerr (f v))"
  using assms by (simp add: read_handle_def check_useful_c_ptr_def arc_value_def arc_load_def arc_validate_def)

lemma list_len_Rows: "length r < 2 ^ 31 \<Longrightarrow> list_len (Rows r) = int (length r)"
  by (simp add: list_len_def signed_of_nat signed_take_bit_int_eq_self)

text \<open>The entries that the C interface can return: no zero byte in a category or name, no value of 2\<open>^\<close>63 bytes.\<close>

definition returnable :: "Entry \<Rightarrow> bool" where
  "returnable e \<longleftrightarrow> CHR 0x00 \<notin> set (entry_category e) \<and> CHR 0x00 \<notin> set (entry_name e) \<and> length (entry_value e) < 2 ^ 63"

text \<open>The rows that a list holds; a fetch returns a list of one row.\<close>

definition list_rows :: "'r FfiResultList \<Rightarrow> 'r list" where
  "list_rows results = (case results of SingleRow e \<Rightarrow> [e] | Rows r \<Rightarrow> r)"

lemma get_row_rows:
  "get_row results i = (if 0 \<le> i \<and> i < int (length (list_rows results)) then Ok (list_rows results ! nat i)
     else Err (err_msg askar_kind.Input ''Invalid index for result set''))"
  by (cases results) (auto simp: get_row_def list_rows_def Let_def nat_less_iff)

lemma list_len_rows:
  "length (list_rows results) < 2 ^ 31 \<Longrightarrow>
    list_len results = (case results of SingleRow e \<Rightarrow> 0 | Rows r \<Rightarrow> int (length (list_rows results)))"
  by (cases results) (simp_all add: list_rows_def list_len_Rows, simp add: list_len_def)

lemma read_handle_refused:
  assumes "null \<or> k = invalid_handle"
  shows "read_handle lerr null k heap f = Some (Input, None, Some (if null then err_msg askar_kind.Input ''Invalid pointer for result value''
    else err_msg askar_kind.Input ''Invalid handle''))"
  using assms by (auto simp: read_handle_def check_useful_c_ptr_def arc_value_def arc_load_def arc_validate_def catch_err_def set_last_error_def)

lemmas entry_getters = askar_entry_list_get_category_def askar_entry_list_get_name_def askar_entry_list_get_value_def
  askar_entry_list_get_tags_def

text \<open>
  C21. A client reads a list of entries through its handle without running over, a list of one row
  (the result of a fetch) as well as a list of many: the count is the number of rows of a list of many, but zero for
  a list of one row, which is readable at index zero all the same; for every index below the number
  of rows category, name, value and tags are those of the row; for every other index, negative ones
  included, nothing is written, the code is \<open>Input\<close> and the last error is set. A null out pointer or an invalid handle is refused by every one
  of the functions in the same way.
\<close>

theorem entry_list_reads_rows:
  assumes "heap h = Some (results, n)" and "h \<noteq> invalid_handle" and "rows = list_rows results" and "length rows < 2 ^ 31"
    and "list_all returnable rows"
  shows "askar_entry_list_count lerr h False heap =
      Some (Success, Some (case results of SingleRow e \<Rightarrow> 0 | Rows r \<Rightarrow> int (length rows)), lerr) \<and>
    (if 0 \<le> i \<and> i < int (length rows) then
       askar_entry_list_get_category lerr h i False heap = Some (Success, Some (entry_category (rows ! nat i)), lerr) \<and>
       askar_entry_list_get_name lerr h i False heap = Some (Success, Some (entry_name (rows ! nat i)), lerr) \<and>
       (\<exists>sb. askar_entry_list_get_value lerr h i False heap = Some (Success, Some sb, lerr) \<and>
          destroy_into_secret sb = Some (Ok (entry_value (rows ! nat i)))) \<and>
       askar_entry_list_get_tags lerr h i False heap = Some (Success, Some (tags_out (entry_tags (rows ! nat i))), lerr)
     else
       (\<exists>e. askar_entry_list_get_category lerr h i False heap = Some (Input, None, Some e) \<and>
         askar_entry_list_get_name lerr h i False heap = Some (Input, None, Some e) \<and>
         askar_entry_list_get_value lerr h i False heap = Some (Input, None, Some e) \<and>
         askar_entry_list_get_tags lerr h i False heap = Some (Input, None, Some e))) \<and>
    (\<forall>k null. null \<or> k = invalid_handle \<longrightarrow>
       (\<exists>e. askar_entry_list_count lerr k null heap = Some (Input, None, Some e) \<and>
         askar_entry_list_get_category lerr k i null heap = Some (Input, None, Some e) \<and>
         askar_entry_list_get_name lerr k i null heap = Some (Input, None, Some e) \<and>
         askar_entry_list_get_value lerr k i null heap = Some (Input, None, Some e) \<and>
         askar_entry_list_get_tags lerr k i null heap = Some (Input, None, Some e)))"
proof (intro conjI)
  note live = read_handle_live [of heap h, OF assms(1,2)]
  show "askar_entry_list_count lerr h False heap = Some (Success, Some (case results of SingleRow e \<Rightarrow> 0 | Rows r \<Rightarrow> int (length rows)), lerr)"
    using list_len_rows [of results] assms(4) unfolding assms(3) by (simp add: askar_entry_list_count_def live catch_err_def)
  have row: "returnable (rows ! nat i)" if "0 \<le> i \<and> i < int (length rows)"
    using assms(5) that by (simp add: list_all_length nat_less_iff)
  show "if 0 \<le> i \<and> i < int (length rows) then
       askar_entry_list_get_category lerr h i False heap = Some (Success, Some (entry_category (rows ! nat i)), lerr) \<and>
       askar_entry_list_get_name lerr h i False heap = Some (Success, Some (entry_name (rows ! nat i)), lerr) \<and>
       (\<exists>sb. askar_entry_list_get_value lerr h i False heap = Some (Success, Some sb, lerr) \<and>
          destroy_into_secret sb = Some (Ok (entry_value (rows ! nat i)))) \<and>
       askar_entry_list_get_tags lerr h i False heap = Some (Success, Some (tags_out (entry_tags (rows ! nat i))), lerr)
     else
       (\<exists>e. askar_entry_list_get_category lerr h i False heap = Some (Input, None, Some e) \<and>
         askar_entry_list_get_name lerr h i False heap = Some (Input, None, Some e) \<and>
         askar_entry_list_get_value lerr h i False heap = Some (Input, None, Some e) \<and>
         askar_entry_list_get_tags lerr h i False heap = Some (Input, None, Some e))"
    using row by (simp add: entry_getters live get_row_rows [of results] assms(3) [symmetric] returnable_def c_string_def from_secret_def
        destroy_into_secret_def catch_err_def set_last_error_def)
qed (auto simp: entry_getters askar_entry_list_count_def read_handle_refused)

theorem entry_list_reads_rows_witness:
  "askar_entry_list_get_name None 8 0 False [8 \<mapsto> (SingleRow \<lparr>entry_kind = Item, entry_category = ''c'', entry_name = ''n'',
      entry_value = [], entry_tags = []\<rparr>, 1)] = Some (Success, Some ''n'', None)"
proof -
  let ?e = "\<lparr>entry_kind = Item, entry_category = ''c'', entry_name = ''n'', entry_value = [], entry_tags = []\<rparr>"
  have "[8 :: nat \<mapsto> (SingleRow ?e, 1 :: nat)] 8 = Some (SingleRow ?e, 1)" "[?e] = list_rows (SingleRow ?e)"
    by (simp_all add: list_rows_def)
  from entry_list_reads_rows [where heap = "[8 \<mapsto> (SingleRow ?e, 1)]" and h = 8 and lerr = None and i = 0, OF this(1) _ this(2)]
  show ?thesis by (simp add: returnable_def)
qed

text \<open>A zero byte in a name, which a store accepts, makes the function panic; the panic is caught and reported.\<close>

lemma zero_byte_reported:
  assumes "heap h = Some (SingleRow e, n)" "h \<noteq> invalid_handle" "CHR 0x00 \<in> set (entry_name e)"
  shows "askar_entry_list_get_name lerr h 0 False heap = Some (Unexpected, None, Some panic_error)"
  using assms(3)
  by (simp add: read_handle_live [of heap h, OF assms(1,2)] askar_entry_list_get_name_def get_row_def Let_def c_string_def catch_err_def set_last_error_def panic_error_def)

end
