(* ===== verification/Ffi_Resource.thy ===== *)
theory Ffi_Resource
  imports Askar_Error
begin

text \<open>
  The registries of the C interface (\<open>src/ffi/store.rs\<close>, \<open>handle.rs\<close>): handles drawn from a counter, the
  map of open stores, and the map of the sessions or scans of the stores, each behind a mutex. A
  \<open>BTreeMap\<close> is a list of pairs, strictly sorted by key. The main result: the loop that removes the
  resources of a store ends and removes exactly those.
\<close>

section \<open>Ordered maps\<close>

fun bt_insert :: "nat \<Rightarrow> 'a \<Rightarrow> (nat \<times> 'a) list \<Rightarrow> (nat \<times> 'a) list" where
  "bt_insert k v [] = [(k, v)]"
| "bt_insert k v ((l, w) # m) =
     (if k < l then (k, v) # (l, w) # m else if k = l then (k, v) # m else (l, w) # bt_insert k v m)"

definition bt_remove :: "nat \<Rightarrow> (nat \<times> 'a) list \<Rightarrow> (nat \<times> 'a) list" where
  "bt_remove k m = filter (\<lambda>(l, _). l \<noteq> k) m"

definition bt_range :: "nat \<Rightarrow> (nat \<times> 'a) list \<Rightarrow> (nat \<times> 'a) list" where
  "bt_range pos m = filter (\<lambda>(l, _). pos \<le> l) m"

definition bt_wf :: "(nat \<times> 'a) list \<Rightarrow> bool" where
  "bt_wf m \<longleftrightarrow> sorted_wrt (<) (map fst m)"

definition bt_keys :: "(nat \<times> 'a) list \<Rightarrow> nat set" where
  "bt_keys m = fst ` set m"

lemma bt_insert_keys [simp]: "bt_keys (bt_insert k v m) = insert k (bt_keys m)"
  unfolding bt_keys_def by (induction k v m rule: bt_insert.induct) auto

lemma bt_remove_keys [simp]: "bt_keys (bt_remove k m) = bt_keys m - {k}"
  by (force simp: bt_keys_def bt_remove_def)

lemma map_of_keys: "map_of m k = None \<longleftrightarrow> k \<notin> bt_keys m" "map_of m k = Some v \<Longrightarrow> k \<in> bt_keys m"
  by (simp_all add: bt_keys_def map_of_eq_None_iff) (metis fst_conv image_eqI map_of_SomeD)

lemma bt_insert_wf: "bt_wf m \<Longrightarrow> bt_wf (bt_insert k v m)"
proof (induction k v m rule: bt_insert.induct)
  case (2 k v l w m)
  then have m: "bt_wf m" "\<forall>x \<in> bt_keys m. l < x" by (auto simp: bt_wf_def bt_keys_def)
  show ?case
  proof (cases "k \<le> l")
    case True
    then show ?thesis using 2(2) by (auto simp: bt_wf_def)
  next
    case False
    then have "bt_wf (bt_insert k v m)" using 2(1) m(1) by auto
    moreover have "\<forall>x \<in> bt_keys (bt_insert k v m). l < x" using m(2) False by simp
    ultimately show ?thesis using False by (auto simp: bt_wf_def bt_keys_def)
  qed
qed (simp add: bt_wf_def)

lemma bt_remove_wf: "bt_wf m \<Longrightarrow> bt_wf (bt_remove k m)"
  unfolding bt_wf_def bt_remove_def by (induction m) auto

lemma bt_wf_distinct: "bt_wf m \<Longrightarrow> distinct (map fst m)"
  unfolding bt_wf_def by (simp add: strict_sorted_iff)

lemma map_of_bt_insert: "bt_wf m \<Longrightarrow> map_of (bt_insert k v m) = (map_of m)(k \<mapsto> v)"
proof (induction k v m rule: bt_insert.induct)
  case (2 k v l w m)
  then have "bt_wf m" by (auto simp: bt_wf_def)
  with 2 show ?case by (auto simp: fun_eq_iff)
qed auto

lemma map_of_bt_remove: "map_of (bt_remove k m) = (map_of m)(k := None)"
  by (induction m) (auto simp: bt_remove_def)

section \<open>Resources of stores\<close>

text \<open>
  \<open>StoreResourceMap\<close>: each handle has the handle of its store and a value behind a mutex. \<open>rm_locked\<close> are the
  handles whose mutex is locked; the guard then keeps the value alive, also when its handle is removed.
  The counter is the sequence number of the handle type; it is an \<open>AtomicUsize\<close>, whose wrap-around after 2\<open>^\<close>64 handles is
  not modelled.
\<close>

record 'v StoreResourceMap =
  rm_counter :: nat
  rm_map :: "(nat \<times> nat \<times> 'v) list"
  rm_locked :: "nat set"

definition rm_new :: "'v StoreResourceMap" where
  "rm_new = \<lparr>rm_counter = 0, rm_map = [], rm_locked = {}\<rparr>"

definition next_handle :: "nat \<Rightarrow> nat \<times> nat" where
  "next_handle counter = (counter + 1, counter + 1)"

definition rm_insert :: "nat \<Rightarrow> 'v \<Rightarrow> 'v StoreResourceMap \<Rightarrow> nat \<times> 'v StoreResourceMap" where
  "rm_insert store v m =
     (let (handle, counter) = next_handle (rm_counter m)
      in (handle, m\<lparr>rm_counter := counter, rm_map := bt_insert handle (store, v) (rm_map m)\<rparr>))"

text \<open>\<open>remove\<close>: the entry is removed, and its value returned unless a guard is alive.\<close>

definition rm_remove :: "nat \<Rightarrow> 'v StoreResourceMap \<Rightarrow> ('v, askar_error) result option \<times> 'v StoreResourceMap" where
  "rm_remove handle m =
     (map_option (\<lambda>(s, v). if handle \<in> rm_locked m then Err (err_msg askar_kind.Busy ''Resource handle in use'') else Ok v)
        (map_of (rm_map m) handle),
      m\<lparr>rm_map := bt_remove handle (rm_map m)\<rparr>)"

text \<open>
  \<open>borrow\<close>: locks the mutex and returns the value. \<open>None\<close> is a call that has to wait, since the mutex is locked; it
  keeps the read lock of the map meanwhile. \<open>Ffi_Machine\<close> has the states of such calls, and of the insertions and
  removals that wait for the map behind them.
\<close>

definition rm_borrow :: "nat \<Rightarrow> 'v StoreResourceMap \<Rightarrow> (('v, askar_error) result \<times> 'v StoreResourceMap) option" where
  "rm_borrow handle m =
     (case map_of (rm_map m) handle of
        None \<Rightarrow> Some (Err (err_msg askar_kind.Input ''Invalid resource handle''), m)
      | Some (s, v) \<Rightarrow>
          if handle \<in> rm_locked m then None
          else Some (Ok v, m\<lparr>rm_locked := insert handle (rm_locked m)\<rparr>))"

text \<open>The end of a guard: the value is written back while the handle exists, and dropped otherwise.\<close>

definition rm_release :: "nat \<Rightarrow> 'v \<Rightarrow> 'v StoreResourceMap \<Rightarrow> bool \<times> 'v StoreResourceMap" where
  "rm_release handle v m =
     (case map_of (rm_map m) handle of
        None \<Rightarrow> (True, m\<lparr>rm_locked := rm_locked m - {handle}\<rparr>)
      | Some (s, _) \<Rightarrow> (False, m\<lparr>rm_map := bt_insert handle (s, v) (rm_map m), rm_locked := rm_locked m - {handle}\<rparr>))"

text \<open>\<open>remove_all\<close>: the loop looks for the next handle of the store from the last position on.\<close>

function remove_all_from :: "nat \<Rightarrow> nat \<Rightarrow> (nat \<times> nat \<times> 'v) list \<Rightarrow> (nat \<times> nat \<times> 'v) list" where
  "remove_all_from pos store guard =
     (case find (\<lambda>(h, sh, _). sh = store) (bt_range pos guard) of
        Some (h, _) \<Rightarrow> remove_all_from h store (bt_remove h guard)
      | None \<Rightarrow> guard)"
  by pat_completeness auto

lemma find_in_range: "find P (bt_range pos m) = Some x \<Longrightarrow> x \<in> set m \<and> pos \<le> fst x \<and> P x"
  by (auto simp: find_Some_iff bt_range_def simp flip: nth_mem dest!: nth_mem)

lemma length_bt_remove: "(k, v) \<in> set m \<Longrightarrow> length (bt_remove k m) < length m"
  unfolding bt_remove_def by (rule length_filter_less [of "(k, v)"]) simp_all

termination remove_all_from
  by (relation "measure (\<lambda>(pos, store, guard). length guard)") (auto dest!: find_in_range intro: length_bt_remove)

declare remove_all_from.simps [simp del]

definition rm_remove_all :: "nat \<Rightarrow> 'v StoreResourceMap \<Rightarrow> 'v StoreResourceMap" where
  "rm_remove_all store m = m\<lparr>rm_map := remove_all_from 0 store (rm_map m)\<rparr>"

section \<open>The loop removes the resources of the store\<close>

lemma remove_all_from_filter:
  "bt_wf m \<Longrightarrow> \<forall>(h, sh, v) \<in> set m. h < pos \<longrightarrow> sh \<noteq> store \<Longrightarrow>
    remove_all_from pos store m = filter (\<lambda>(h, sh, v). sh \<noteq> store) m"
proof (induction pos store m rule: remove_all_from.induct)
  case (1 pos store m)
  show ?case
  proof (cases "find (\<lambda>(h, sh, _). sh = store) (bt_range pos m)")
    case None
    then have "\<forall>(h, sh, v) \<in> set m. sh \<noteq> store" using 1(3) by (fastforce simp: find_None_iff bt_range_def)
    then have "filter (\<lambda>(h, sh, v). sh \<noteq> store) m = m" by (auto simp: filter_id_conv)
    with None show ?thesis by (simp add: remove_all_from.simps [of pos])
  next
    case (Some x)
    obtain h v where x: "x = (h, store, v)" "(h, store, v) \<in> set m"
      using find_in_range [OF Some] by (cases x) auto
    have before: "sh \<noteq> store" if "(k, sh, w) \<in> set m" "k < h" for k sh w
    proof (cases "k < pos")
      case False
      obtain i where i: "i < length (bt_range pos m)" "bt_range pos m ! i = (h, store, v)"
          "\<forall>j < i. \<not> (case bt_range pos m ! j of (h, sh, _) \<Rightarrow> sh = store)"
        using Some x(1) by (auto simp: find_Some_iff)
      have "(k, sh, w) \<in> set (bt_range pos m)" using that(1) False by (simp add: bt_range_def)
      then obtain j where j: "j < length (bt_range pos m)" "bt_range pos m ! j = (k, sh, w)" by (auto simp: in_set_conv_nth)
      have "sorted_wrt (\<lambda>a b. fst a < fst b) (bt_range pos m)"
        using 1(2) by (simp add: bt_wf_def bt_range_def sorted_wrt_map sorted_wrt_filter)
      then have "j < i" using i(1,2) j that(2) by (metis fst_conv linorder_neqE_nat order_less_asym' sorted_wrt_iff_nth_less)
      then show ?thesis using i(3) j(2) by auto
    qed (use 1(3) that(1) in auto)
    have same: "sh = store" if "(h, sh, w) \<in> set m" for sh w
      using bt_wf_distinct [OF 1(2)] x(2) that by (metis eq_key_imp_eq_value prod.inject)
    have "remove_all_from h store (bt_remove h m) = filter (\<lambda>(h, sh, v). sh \<noteq> store) (bt_remove h m)"
      using before by (intro 1(1) [OF Some x(1) [symmetric]] bt_remove_wf 1(2)) (auto simp: bt_remove_def)
    also have "\<dots> = filter (\<lambda>(h, sh, v). sh \<noteq> store) m"
      unfolding bt_remove_def filter_filter using same by (intro filter_cong) auto
    finally show ?thesis using Some x(1) by (simp add: remove_all_from.simps [of pos])
  qed
qed

text \<open>What holds of every map that the operations produce.\<close>

definition rm_wf :: "'v StoreResourceMap \<Rightarrow> bool" where
  "rm_wf m \<longleftrightarrow> bt_wf (rm_map m) \<and> (\<forall>h \<in> bt_keys (rm_map m) \<union> rm_locked m. 0 < h \<and> h \<le> rm_counter m)"

lemma rm_remove_all_map: "rm_wf m \<Longrightarrow> rm_map (rm_remove_all store m) = filter (\<lambda>(h, sh, v). sh \<noteq> store) (rm_map m)"
  by (simp add: rm_remove_all_def rm_wf_def remove_all_from_filter)

lemma rm_new_wf [simp]: "rm_wf rm_new"
  by (simp add: rm_wf_def rm_new_def bt_wf_def bt_keys_def)

lemma rm_insert_wf: "rm_wf m \<Longrightarrow> rm_insert store v m = (h, m') \<Longrightarrow> rm_wf m' \<and> h = rm_counter m + 1 \<and> rm_counter m' = h"
  by (auto simp: rm_insert_def next_handle_def rm_wf_def bt_insert_wf ball_Un) (meson le_SucI)+

lemma rm_remove_wf: "rm_wf m \<Longrightarrow> rm_wf (snd (rm_remove h m))"
  by (auto simp: rm_remove_def rm_wf_def bt_remove_wf)

lemma rm_borrow_wf: "rm_wf m \<Longrightarrow> rm_borrow h m = Some (r, m') \<Longrightarrow> rm_wf m'"
  by (auto simp: rm_borrow_def rm_wf_def dest!: map_of_keys(2) split: option.splits if_splits)

lemma rm_release_wf: "rm_wf m \<Longrightarrow> rm_wf (snd (rm_release h v m))"
  by (auto simp: rm_release_def rm_wf_def bt_insert_wf dest!: map_of_keys(2) split: option.splits)

lemma rm_remove_all_wf:
  assumes "rm_wf m"
  shows "rm_wf (rm_remove_all store m)"
proof -
  have "bt_keys (rm_map (rm_remove_all store m)) \<subseteq> bt_keys (rm_map m)" using assms by (auto simp: rm_remove_all_map bt_keys_def)
  moreover have "bt_wf (rm_map (rm_remove_all store m))"
    using assms by (simp add: rm_remove_all_map) (simp add: rm_wf_def bt_wf_def sorted_wrt_map sorted_wrt_filter)
  ultimately show ?thesis using assms by (auto simp: rm_wf_def rm_remove_all_def)
qed

text \<open>A handle that is inserted is new, and is found with its value.\<close>

lemma rm_insert_fresh:
  assumes "rm_wf m" "rm_insert store v m = (h, m')"
  shows "map_of (rm_map m) h = None" "map_of (rm_map m') = (map_of (rm_map m))(h \<mapsto> (store, v))" "rm_locked m' = rm_locked m" "h \<notin> rm_locked m"
  using assms by (auto simp: rm_insert_def next_handle_def rm_wf_def map_of_bt_insert map_of_keys ball_Un)

end
