(* ===== verification/Ffi_Machine.thy ===== *)
theory Ffi_Machine
  imports Store_Api Ffi_Lists Ffi_Resource
begin

text \<open>
  The asynchronous calls of the C interface (\<open>src/ffi/store.rs\<close>, \<open>mod.rs\<close>). A call checks its arguments and
  spawns a task, which runs interleaved with the tasks of other calls and ends with the callback of the
  client. The state has the registries of stores, sessions and scans, the last error, the result lists
  given to the client, the tasks and a log of the callbacks. \<open>'w\<close> is the world of databases that the
  operations of stores and sessions change. A task waits where the code awaits a lock or a pool: for the mutex of a
  session or scan, with the map of the registry locked for reading meanwhile; for that map, to insert or remove; and, when it
  closes a store, for the connections of the store. The main results: every call calls back exactly
  once, a session or scan is never used by two calls at once, and the calls never block each other: only the closing of a
  store can be left waiting, for a session or scan that its client has still to close.
\<close>

section \<open>Tasks\<close>

text \<open>The last argument of a callback; a missing string is a null pointer.\<close>

datatype cb_value = CbNone | CbHandle nat | CbBool bool | CbCount int | CbString "string option" | CbList nat

text \<open>What the asynchronous block of a call returns, before it is given to the callback.\<close>

datatype 'w reply =
    ReplyStore "'w backend_ops" | ReplySession nat "'w session_ops" | ReplyScan nat "Entry Scan"
  | ReplyUnit | ReplyBool bool | ReplyCount int | ReplyName string | ReplyStrings "string list"
  | ReplyEntry "Entry option" | ReplyEntries "Entry list" | ReplyPage "Entry list option"
  | ReplyKey "KeyEntry option" | ReplyKeys "KeyEntry list"

text \<open>
  How far a task has come, from one point at which it waits to the next. The first constructor of each group is the
  state in which the task is spawned. \<open>WaitSession\<close> and \<open>WaitScan\<close> are tasks that found the mutex locked; they hold the lock
  of the map for reading. \<open>Inserting\<close> is a task that has a new session or scan to register. \<open>Crashed\<close> is a task
  whose callback panicked while it converted the result for C.
\<close>

datatype 'w task_state =
    RunPlain "'w \<Rightarrow> 'w reply askar_result \<times> 'w"
  | LoadStore nat "'w backend_ops \<Rightarrow> 'w \<Rightarrow> 'w reply askar_result \<times> 'w"
  | OnStore nat "'w backend_ops" "'w backend_ops \<Rightarrow> 'w \<Rightarrow> 'w reply askar_result \<times> 'w"
  | BorrowSession nat "'w session_ops \<Rightarrow> 'w \<Rightarrow> 'w reply askar_result \<times> 'w"
  | WaitSession nat "'w session_ops \<Rightarrow> 'w \<Rightarrow> 'w reply askar_result \<times> 'w"
  | OnSession nat "'w session_ops" "'w session_ops \<Rightarrow> 'w \<Rightarrow> 'w reply askar_result \<times> 'w"
  | BorrowScan nat
  | WaitScan nat
  | OnScan nat "Entry Scan"
  | TakeStore nat StoreKeyMethod PassKey
  | Rekeying nat "'w backend_ops" StoreKeyMethod PassKey
  | CloseStore nat
  | ClosingSessions nat "'w backend_ops"
  | ClosingScans nat "'w backend_ops"
  | ClosingBackend nat "'w backend_ops"
  | RemoveScan nat
  | RemoveSession nat bool
  | Committing "'w session_ops"
  | Inserting "'w reply"
  | Done
  | Crashed

text \<open>A task has the callback's id and what it is given besides an error code, unless the client gave no callback.\<close>

record 'w task =
  tk_state :: "'w task_state"
  tk_cb :: "(int \<times> cb_value) option"

record 'w ffi_state =
  fs_world :: 'w
  fs_stores :: "nat \<rightharpoonup> 'w backend_ops"
  fs_store_counter :: nat
  fs_sessions :: "'w session_ops StoreResourceMap"
  fs_scans :: "Entry Scan StoreResourceMap"
  fs_entry_lists :: "Entry FfiResultList arc_heap"
  fs_key_lists :: "KeyEntry FfiResultList arc_heap"
  fs_string_lists :: "string FfiResultList arc_heap"
  fs_last_error :: last_error
  fs_tasks :: "'w task list"
  fs_log :: "(nat \<times> int \<times> ErrorCode \<times> cb_value) list"

definition ffi_init :: "'w \<Rightarrow> 'w ffi_state" where
  "ffi_init w = \<lparr>fs_world = w, fs_stores = Map.empty, fs_store_counter = 0, fs_sessions = rm_new, fs_scans = rm_new,
     fs_entry_lists = Map.empty, fs_key_lists = Map.empty, fs_string_lists = Map.empty, fs_last_error = None, fs_tasks = [], fs_log = []\<rparr>"

section \<open>Stores\<close>

definition handle_create :: "'w backend_ops \<Rightarrow> 'w ffi_state \<Rightarrow> nat \<times> 'w ffi_state" where
  "handle_create store s =
     (let (handle, counter) = next_handle (fs_store_counter s)
      in (handle, s\<lparr>fs_store_counter := counter, fs_stores := (fs_stores s)(handle \<mapsto> store)\<rparr>))"

definition handle_load :: "nat \<Rightarrow> 'w ffi_state \<Rightarrow> 'w backend_ops askar_result" where
  "handle_load handle s = ok_or (fs_stores s handle) (err_msg askar_kind.Input ''Invalid store handle'')"

definition handle_remove :: "nat \<Rightarrow> 'w ffi_state \<Rightarrow> 'w backend_ops askar_result \<times> 'w ffi_state" where
  "handle_remove handle s =
     (ok_or (fs_stores s handle) (err_msg askar_kind.Input ''Invalid store handle''), s\<lparr>fs_stores := (fs_stores s)(handle := None)\<rparr>)"

definition handle_replace :: "nat \<Rightarrow> 'w backend_ops \<Rightarrow> 'w ffi_state \<Rightarrow> 'w ffi_state" where
  "handle_replace handle store s = s\<lparr>fs_stores := (fs_stores s)(handle \<mapsto> store)\<rparr>"

section \<open>Callbacks\<close>

text \<open>
  What a callback is given for a result; \<open>addr\<close> is where the allocator puts a new list. New stores, sessions and
  scans get their handles here too, which the asynchronous block does as its last action.
\<close>

fun reply_value :: "nat \<Rightarrow> 'w reply \<Rightarrow> 'w ffi_state \<Rightarrow> cb_value askar_result \<times> 'w ffi_state" where
  "reply_value addr (ReplyStore store) s = (let (handle, s) = handle_create store s in (Ok (CbHandle handle), s))"
| "reply_value addr (ReplySession store session) s =
     (let (handle, m) = rm_insert store session (fs_sessions s) in (Ok (CbHandle handle), s\<lparr>fs_sessions := m\<rparr>))"
| "reply_value addr (ReplyScan store scan) s =
     (let (handle, m) = rm_insert store scan (fs_scans s) in (Ok (CbHandle handle), s\<lparr>fs_scans := m\<rparr>))"
| "reply_value addr ReplyUnit s = (Ok CbNone, s)"
| "reply_value addr (ReplyBool b) s = (Ok (CbBool b), s)"
| "reply_value addr (ReplyCount n) s = (Ok (CbCount n), s)"
| "reply_value addr (ReplyName name) s = (res_map (\<lambda>n. CbString (Some n)) (c_string name), s)"
| "reply_value addr (ReplyStrings rows) s =
     (let (h, heap) = arc_create addr (Rows rows) (fs_string_lists s) in (Ok (CbList h), s\<lparr>fs_string_lists := heap\<rparr>))"
| "reply_value addr (ReplyEntry (Some entry)) s =
     (let (h, heap) = arc_create addr (SingleRow entry) (fs_entry_lists s) in (Ok (CbList h), s\<lparr>fs_entry_lists := heap\<rparr>))"
| "reply_value addr (ReplyEntry None) s = (Ok (CbList invalid_handle), s)"
| "reply_value addr (ReplyEntries rows) s =
     (let (h, heap) = arc_create addr (Rows rows) (fs_entry_lists s) in (Ok (CbList h), s\<lparr>fs_entry_lists := heap\<rparr>))"
| "reply_value addr (ReplyPage (Some rows)) s =
     (let (h, heap) = arc_create addr (Rows rows) (fs_entry_lists s) in (Ok (CbList h), s\<lparr>fs_entry_lists := heap\<rparr>))"
| "reply_value addr (ReplyPage None) s = (Ok (CbList invalid_handle), s)"
| "reply_value addr (ReplyKey (Some entry)) s =
     (let (h, heap) = arc_create addr (SingleRow entry) (fs_key_lists s) in (Ok (CbList h), s\<lparr>fs_key_lists := heap\<rparr>))"
| "reply_value addr (ReplyKey None) s = (Ok (CbList invalid_handle), s)"
| "reply_value addr (ReplyKeys rows) s =
     (let (h, heap) = arc_create addr (Rows rows) (fs_key_lists s) in (Ok (CbList h), s\<lparr>fs_key_lists := heap\<rparr>))"

definition set_task :: "nat \<Rightarrow> 'w task_state \<Rightarrow> 'w ffi_state \<Rightarrow> 'w ffi_state" where
  "set_task i st s = s\<lparr>fs_tasks := (fs_tasks s)[i := (fs_tasks s ! i)\<lparr>tk_state := st\<rparr>]\<rparr>"

text \<open>
  \<open>EnsureCallback\<close>: \<open>resolve\<close> calls back with the result. A task that panics drops the callback, which is then called
  with an error of the kind \<open>Unexpected\<close>. A callback that panics itself counts as resolved and is not called again.
\<close>

definition callback_error :: "nat \<Rightarrow> int \<times> cb_value \<Rightarrow> askar_error \<Rightarrow> 'w ffi_state \<Rightarrow> 'w ffi_state" where
  "callback_error i cb err s =
     (let (code, lerr) = set_last_error (Some err)
      in set_task i Done (s\<lparr>fs_last_error := lerr, fs_log := fs_log s @ [(i, fst cb, code, snd cb)]\<rparr>))"

definition resolve :: "nat \<Rightarrow> nat \<Rightarrow> 'w reply askar_result \<Rightarrow> 'w ffi_state \<Rightarrow> 'w ffi_state" where
  "resolve addr i r s =
     (case tk_cb (fs_tasks s ! i) of
        None \<Rightarrow> set_task i Done s
      | Some cb \<Rightarrow>
          (case r of
             Ok reply \<Rightarrow>
               (case reply_value addr reply s of
                  (Ok v, s) \<Rightarrow> set_task i Done (s\<lparr>fs_log := fs_log s @ [(i, fst cb, Success, v)]\<rparr>)
                | (_, s) \<Rightarrow> set_task i Crashed s)
           | Err err \<Rightarrow> callback_error i cb err s
           | Panic \<Rightarrow> callback_error i cb (err_of_kind askar_kind.Unexpected) s))"

section \<open>Steps\<close>

text \<open>
  What is foreign: \<open>drop_session\<close> is what dropping a session does to the world: \<open>DbSession::drop\<close> rolls back an open transaction
  (\<open>session_drop\<close>) and its connection goes back to the pool. \<open>pool_waits\<close> says whether connections of the pool of
  a store are checked out, for which \<open>conn_pool.close()\<close> waits.
\<close>

record 'w connections =
  drop_session :: "'w session_ops \<Rightarrow> 'w \<Rightarrow> 'w"
  pool_waits :: "'w backend_ops \<Rightarrow> 'w \<Rightarrow> bool"

text \<open>\<open>remove_all\<close> drops the sessions that are not in use; the others are dropped by their last user.\<close>

definition drop_idle_sessions :: "'w connections \<Rightarrow> nat \<Rightarrow> 'w ffi_state \<Rightarrow> 'w" where
  "drop_idle_sessions dr store s =
     foldl (\<lambda>w (h, sh, session). if sh = store \<and> h \<notin> rm_locked (fs_sessions s) then drop_session dr session w else w)
       (fs_world s) (rm_map (fs_sessions s))"

text \<open>Whether another task holds a clone of the store, taken through the same handle.\<close>

definition store_shared :: "nat \<Rightarrow> 'w ffi_state \<Rightarrow> bool" where
  "store_shared handle s \<longleftrightarrow> list_ex (\<lambda>t. case tk_state t of OnStore h _ _ \<Rightarrow> h = handle | _ \<Rightarrow> False) (fs_tasks s)"

definition continue :: "nat \<Rightarrow> nat \<Rightarrow> 'a askar_result \<Rightarrow> ('a \<Rightarrow> 'w task_state) \<Rightarrow> 'w ffi_state \<Rightarrow> 'w ffi_state" where
  "continue addr i r next s =
     (case r of Ok x \<Rightarrow> set_task i (next x) s | Err e \<Rightarrow> resolve addr i (Err e) s | Panic \<Rightarrow> resolve addr i Panic s)"

text \<open>
  \<open>borrow\<close> keeps the map locked for reading while it waits for the mutex; inserting and removing lock it for writing, and
  wait until no task does. The other uses of the maps, and all uses of the map of stores, give their lock back before
  they wait for anything else. The code draws a new handle just before it waits for the map; here it is drawn with the insertion.
\<close>

definition sessions_read :: "'w ffi_state \<Rightarrow> bool" where
  "sessions_read s \<longleftrightarrow> list_ex (\<lambda>t. case tk_state t of WaitSession _ _ \<Rightarrow> True | _ \<Rightarrow> False) (fs_tasks s)"

definition scans_read :: "'w ffi_state \<Rightarrow> bool" where
  "scans_read s \<longleftrightarrow> list_ex (\<lambda>t. case tk_state t of WaitScan _ \<Rightarrow> True | _ \<Rightarrow> False) (fs_tasks s)"

definition registers :: "'w reply \<Rightarrow> bool" where
  "registers reply = (case reply of ReplySession _ _ \<Rightarrow> True | ReplyScan _ _ \<Rightarrow> True | _ \<Rightarrow> False)"

definition finish :: "nat \<Rightarrow> nat \<Rightarrow> 'w reply askar_result \<Rightarrow> 'w ffi_state \<Rightarrow> 'w ffi_state" where
  "finish addr i r s =
     (case r of Ok reply \<Rightarrow> if registers reply then set_task i (Inserting reply) s else resolve addr i r s | _ \<Rightarrow> resolve addr i r s)"

text \<open>A step of a task; \<open>None\<close> is a task that waits or has ended.\<close>

fun state_step :: "'w connections \<Rightarrow> nat \<Rightarrow> nat \<Rightarrow> 'w task_state \<Rightarrow> 'w ffi_state \<Rightarrow> 'w ffi_state option" where
  "state_step dr addr i (RunPlain f) s =
     (let (r, w) = f (fs_world s) in Some (finish addr i r (s\<lparr>fs_world := w\<rparr>)))"
| "state_step dr addr i (LoadStore h f) s = Some (continue addr i (handle_load h s) (\<lambda>store. OnStore h store f) s)"
| "state_step dr addr i (OnStore h store f) s =
     (let (r, w) = f store (fs_world s) in Some (finish addr i r (s\<lparr>fs_world := w\<rparr>)))"
| "state_step dr addr i (BorrowSession h f) s =
     Some (case rm_borrow h (fs_sessions s) of
         Some (r, m) \<Rightarrow> continue addr i r (\<lambda>session. OnSession h session f) (s\<lparr>fs_sessions := m\<rparr>)
       | None \<Rightarrow> set_task i (WaitSession h f) s)"
| "state_step dr addr i (WaitSession h f) s =
     map_option (\<lambda>(r, m). continue addr i r (\<lambda>session. OnSession h session f) (s\<lparr>fs_sessions := m\<rparr>)) (rm_borrow h (fs_sessions s))"
| "state_step dr addr i (OnSession h session f) s =
     (let (r, w) = f session (fs_world s);
          (dropped, m) = rm_release h session (fs_sessions s);
          w = (if dropped then drop_session dr session w else w)
      in Some (finish addr i r (s\<lparr>fs_world := w, fs_sessions := m\<rparr>)))"
| "state_step dr addr i (BorrowScan h) s =
     Some (case rm_borrow h (fs_scans s) of
         Some (r, m) \<Rightarrow> continue addr i r (OnScan h) (s\<lparr>fs_scans := m\<rparr>)
       | None \<Rightarrow> set_task i (WaitScan h) s)"
| "state_step dr addr i (WaitScan h) s =
     map_option (\<lambda>(r, m). continue addr i r (OnScan h) (s\<lparr>fs_scans := m\<rparr>)) (rm_borrow h (fs_scans s))"
| "state_step dr addr i (OnScan h scan) s =
     (let (r, scan) = fetch_next scan;
          (dropped, m) = rm_release h scan (fs_scans s)
      in Some (resolve addr i (lift_storage (res_map ReplyPage r)) (s\<lparr>fs_scans := m\<rparr>)))"
| "state_step dr addr i (TakeStore h method pass_key) s =
     (let (r, s) = handle_remove h s in Some (continue addr i r (\<lambda>store. Rekeying h store method pass_key) s))"
| "state_step dr addr i (Rekeying h store method pass_key) s =
     (case store_rekey store (store_shared h s) method pass_key (fs_world s) of
        (Panic, w) \<Rightarrow> Some (resolve addr i Panic (s\<lparr>fs_world := w\<rparr>))
      | (r, w) \<Rightarrow> Some (resolve addr i (res_map (\<lambda>_. ReplyUnit) r) (handle_replace h store (s\<lparr>fs_world := w\<rparr>))))"
| "state_step dr addr i (CloseStore h) s =
     (let (r, s) = handle_remove h s in Some (continue addr i r (ClosingSessions h) s))"
| "state_step dr addr i (ClosingSessions h store) s =
     (if sessions_read s then None
      else Some (set_task i (ClosingScans h store)
        (s\<lparr>fs_world := drop_idle_sessions dr h s, fs_sessions := rm_remove_all h (fs_sessions s)\<rparr>)))"
| "state_step dr addr i (ClosingScans h store) s =
     (if scans_read s then None
      else Some (set_task i (ClosingBackend h store) (s\<lparr>fs_scans := rm_remove_all h (fs_scans s)\<rparr>)))"
| "state_step dr addr i (ClosingBackend h store) s =
     (if pool_waits dr store (fs_world s) then None
      else (let (r, w) = store_close store (fs_world s) in Some (resolve addr i (res_map (\<lambda>_. ReplyUnit) r) (s\<lparr>fs_world := w\<rparr>))))"
| "state_step dr addr i (RemoveScan h) s =
     (if scans_read s then None else Some (set_task i Done (s\<lparr>fs_scans := snd (rm_remove h (fs_scans s))\<rparr>)))"
| "state_step dr addr i (RemoveSession h commit) s =
     (if sessions_read s then None
      else
        (let (r, m) = rm_remove h (fs_sessions s); s = s\<lparr>fs_sessions := m\<rparr> in
         Some (case r of
             None \<Rightarrow> resolve addr i (Ok ReplyUnit) s
           | Some (Err e) \<Rightarrow> resolve addr i (Err e) s
           | Some Panic \<Rightarrow> resolve addr i Panic s
           | Some (Ok session) \<Rightarrow>
               if commit then set_task i (Committing session) s
               else resolve addr i (Ok ReplyUnit) (s\<lparr>fs_world := drop_session dr session (fs_world s)\<rparr>))))"
| "state_step dr addr i (Committing session) s =
     (let (r, w) = session_commit session (fs_world s)
      in Some (resolve addr i (res_map (\<lambda>_. ReplyUnit) r) (s\<lparr>fs_world := drop_session dr session w\<rparr>)))"
| "state_step dr addr i (Inserting reply) s =
     (if (case reply of ReplySession _ _ \<Rightarrow> sessions_read s | ReplyScan _ _ \<Rightarrow> scans_read s | _ \<Rightarrow> False) then None
      else Some (resolve addr i (Ok reply) s))"
| "state_step dr addr i Done s = None"
| "state_step dr addr i Crashed s = None"

definition task_step :: "'w connections \<Rightarrow> nat \<Rightarrow> nat \<Rightarrow> 'w ffi_state \<Rightarrow> 'w ffi_state option" where
  "task_step dr addr i s = (if i < length (fs_tasks s) then state_step dr addr i (tk_state (fs_tasks s ! i)) s else None)"

text \<open>\<open>spawn_ok\<close>.\<close>

definition spawn :: "'w task \<Rightarrow> 'w ffi_state \<Rightarrow> 'w ffi_state" where
  "spawn t s = s\<lparr>fs_tasks := fs_tasks s @ [t]\<rparr>"

section \<open>Reachable states\<close>

text \<open>
  A client spawns the tasks of its calls; a freed scan has no callback. Between the steps of tasks it may read the last
  error and free result lists.
\<close>

fun initial_task :: "'w task \<Rightarrow> bool" where
  "initial_task t =
     (case tk_state t of
        RunPlain _ \<Rightarrow> True | LoadStore _ _ \<Rightarrow> True | BorrowSession _ _ \<Rightarrow> True | BorrowScan _ \<Rightarrow> True
      | TakeStore _ _ _ \<Rightarrow> True | CloseStore _ \<Rightarrow> True | RemoveSession _ _ \<Rightarrow> True
      | RemoveScan _ \<Rightarrow> tk_cb t = None
      | _ \<Rightarrow> False)"

inductive ffi_reach :: "'w connections \<Rightarrow> 'w ffi_state \<Rightarrow> bool" for dr where
  start: "ffi_reach dr (ffi_init w)"
| spawned: "ffi_reach dr s \<Longrightarrow> initial_task t \<Longrightarrow> ffi_reach dr (spawn t s)"
| stepped: "ffi_reach dr s \<Longrightarrow> task_step dr addr i s = Some s' \<Longrightarrow> ffi_reach dr s'"
| client: "ffi_reach dr s \<Longrightarrow> ffi_reach dr (s\<lparr>fs_last_error := e, fs_entry_lists := a, fs_key_lists := k, fs_string_lists := l\<rparr>)"

text \<open>The steps that a task has before it at most.\<close>

fun remaining :: "'w task_state \<Rightarrow> nat" where
  "remaining (RunPlain _) = 2"
| "remaining (LoadStore _ _) = 3"
| "remaining (OnStore _ _ _) = 2"
| "remaining (BorrowSession _ _) = 4"
| "remaining (WaitSession _ _) = 3"
| "remaining (OnSession _ _ _) = 2"
| "remaining (BorrowScan _) = 3"
| "remaining (WaitScan _) = 2"
| "remaining (OnScan _ _) = 1"
| "remaining (TakeStore _ _ _) = 2"
| "remaining (Rekeying _ _ _ _) = 1"
| "remaining (CloseStore _) = 4"
| "remaining (ClosingSessions _ _) = 3"
| "remaining (ClosingScans _ _) = 2"
| "remaining (ClosingBackend _ _) = 1"
| "remaining (RemoveScan _) = 1"
| "remaining (RemoveSession _ _) = 2"
| "remaining (Committing _) = 1"
| "remaining (Inserting _) = 1"
| "remaining Done = 0"
| "remaining Crashed = 0"

section \<open>What a step changes\<close>

lemma reply_value_frame [simp]:
  "fs_tasks (snd (reply_value addr r s)) = fs_tasks s" "fs_log (snd (reply_value addr r s)) = fs_log s"
  "fs_world (snd (reply_value addr r s)) = fs_world s"
  "rm_locked (fs_sessions (snd (reply_value addr r s))) = rm_locked (fs_sessions s)"
  "rm_locked (fs_scans (snd (reply_value addr r s))) = rm_locked (fs_scans s)"
  by (cases "(addr, r, s)" rule: reply_value.cases;
      simp add: handle_create_def next_handle_def rm_insert_def arc_create_def Let_def)+

definition task_done :: "nat \<Rightarrow> 'w ffi_state \<Rightarrow> 'w ffi_state \<Rightarrow> bool" where
  "task_done i s s' \<longleftrightarrow>
     (case tk_cb (fs_tasks s ! i) of
        None \<Rightarrow> fs_tasks s' = fs_tasks (set_task i Done s) \<and> fs_log s' = fs_log s
      | Some cb \<Rightarrow> fs_tasks s' = fs_tasks (set_task i Crashed s) \<and> fs_log s' = fs_log s \<or>
          fs_tasks s' = fs_tasks (set_task i Done s) \<and> (\<exists>c v. fs_log s' = fs_log s @ [(i, fst cb, c, v)]))"

lemma set_task_frame [simp]:
  "fs_log (set_task i st s) = fs_log s" "fs_sessions (set_task i st s) = fs_sessions s" "fs_scans (set_task i st s) = fs_scans s"
  "fs_world (set_task i st s) = fs_world s" "fs_stores (set_task i st s) = fs_stores s"
  "fs_tasks (set_task i st s) = (fs_tasks s)[i := (fs_tasks s ! i)\<lparr>tk_state := st\<rparr>]"
  by (simp_all add: set_task_def)

lemma resolve_done: "task_done i s (resolve addr i r s)"
proof (cases "tk_cb (fs_tasks s ! i)")
  case (Some cb)
  have "fs_tasks t = fs_tasks s" "fs_log t = fs_log s" if "reply_value addr reply s = (v, t)" for reply v t
    using reply_value_frame(1,2) [of addr reply s] that by simp_all
  with Some show ?thesis
    by (auto simp: task_done_def resolve_def callback_error_def Let_def split: result.splits prod.splits)
qed (simp add: task_done_def resolve_def)

lemma resolve_locked [simp]:
  "rm_locked (fs_sessions (resolve addr i r s)) = rm_locked (fs_sessions s)"
  "rm_locked (fs_scans (resolve addr i r s)) = rm_locked (fs_scans s)"
proof -
  have "rm_locked (fs_sessions t) = rm_locked (fs_sessions s)" "rm_locked (fs_scans t) = rm_locked (fs_scans s)"
    if "reply_value addr reply s = (v, t)" for reply v t
    using reply_value_frame(4,5) [of addr reply s] that by simp_all
  then show "rm_locked (fs_sessions (resolve addr i r s)) = rm_locked (fs_sessions s)"
    "rm_locked (fs_scans (resolve addr i r s)) = rm_locked (fs_scans s)"
    by (auto simp: resolve_def callback_error_def Let_def split: option.splits result.splits prod.splits)
qed

lemma continue_frame:
  "rm_locked (fs_sessions (continue addr i r f s)) = rm_locked (fs_sessions s)"
  "rm_locked (fs_scans (continue addr i r f s)) = rm_locked (fs_scans s)"
  by (simp_all add: continue_def split: result.split)

text \<open>A step of a task either ends it or moves it on, and calls back only when it ends.\<close>

definition onward :: "'w task_state \<Rightarrow> bool" where
  "onward st \<longleftrightarrow> 0 < remaining st \<and> (\<forall>h. st \<noteq> RemoveScan h)"

lemma onward_states [simp]:
  "onward (OnStore h b f)" "onward (WaitSession h g)" "onward (OnSession h v g)" "onward (WaitScan h)" "onward (OnScan h scan)"
  "onward (Rekeying h b m p)" "onward (ClosingSessions h b)" "onward (ClosingScans h b)" "onward (ClosingBackend h b)"
  "onward (Committing v)" "onward (Inserting reply)"
  by (simp_all add: onward_def)

definition task_moves :: "nat \<Rightarrow> 'w ffi_state \<Rightarrow> 'w ffi_state \<Rightarrow> bool" where
  "task_moves i s s' \<longleftrightarrow> task_done i s s' \<or>
     (\<exists>st. fs_tasks s' = fs_tasks (set_task i st s) \<and> fs_log s' = fs_log s \<and> onward st \<and> remaining st < remaining (tk_state (fs_tasks s ! i)))"

lemma task_moves_cong: "task_moves i t s' \<Longrightarrow> fs_tasks t = fs_tasks s \<Longrightarrow> fs_log t = fs_log s \<Longrightarrow> task_moves i s s'"
  by (cases "tk_cb (fs_tasks s ! i)") (simp_all add: task_moves_def task_done_def)

lemma continue_moves:
  assumes "fs_tasks t = fs_tasks s" "fs_log t = fs_log s"
    and "\<And>x. r = Ok x \<Longrightarrow> onward (f x) \<and> remaining (f x) < remaining (tk_state (fs_tasks s ! i))"
  shows "task_moves i s (continue addr i r f t)"
proof (rule task_moves_cong [OF _ assms(1,2)])
  show "task_moves i t (continue addr i r f t)"
    using assms(1,3) by (cases r) (auto simp: continue_def task_moves_def intro: resolve_done)
qed

lemma resolve_moves: "fs_tasks t = fs_tasks s \<Longrightarrow> fs_log t = fs_log s \<Longrightarrow> task_moves i s (resolve addr i r t)"
  by (rule task_moves_cong [of i t]) (simp_all add: task_moves_def resolve_done)

lemma set_task_moves:
  "fs_tasks t = fs_tasks s \<Longrightarrow> fs_log t = fs_log s \<Longrightarrow> onward st \<Longrightarrow> remaining st < remaining (tk_state (fs_tasks s ! i)) \<Longrightarrow>
    task_moves i s (set_task i st t)"
  by (auto simp: task_moves_def)

lemma finish_moves:
  "fs_tasks t = fs_tasks s \<Longrightarrow> fs_log t = fs_log s \<Longrightarrow> 1 < remaining (tk_state (fs_tasks s ! i)) \<Longrightarrow> task_moves i s (finish addr i r t)"
  by (auto simp: finish_def resolve_moves set_task_moves split: result.split)

lemma set_task_ends:
  "fs_tasks t = fs_tasks s \<Longrightarrow> fs_log t = fs_log s \<Longrightarrow> tk_cb (fs_tasks s ! i) = None \<Longrightarrow> task_moves i s (set_task i Done t)"
  by (simp add: task_moves_def task_done_def)

lemma state_step_moves:
  assumes "state_step dr addr i (tk_state (fs_tasks s ! i)) s = Some s'"
    and "\<And>h. tk_state (fs_tasks s ! i) = RemoveScan h \<Longrightarrow> tk_cb (fs_tasks s ! i) = None"
  shows "task_moves i s s'"
  using assms
  by (cases "tk_state (fs_tasks s ! i)")
    (auto simp: Let_def handle_remove_def handle_replace_def split: prod.splits result.splits option.splits if_splits
      intro!: resolve_moves finish_moves continue_moves set_task_ends, auto intro!: set_task_moves)

section \<open>Callbacks\<close>

definition calls :: "nat \<Rightarrow> 'w ffi_state \<Rightarrow> nat" where
  "calls i s = length (filter (\<lambda>(j, _). j = i) (fs_log s))"

text \<open>How often the callback of a task has been called, from the state of the task.\<close>

definition calls_due :: "nat \<Rightarrow> 'w ffi_state \<Rightarrow> nat" where
  "calls_due i s = (if i < length (fs_tasks s) \<and> tk_state (fs_tasks s ! i) = Done \<and> tk_cb (fs_tasks s ! i) \<noteq> None then 1 else 0)"

definition callbacks_ok :: "'w ffi_state \<Rightarrow> bool" where
  "callbacks_ok s \<longleftrightarrow> (\<forall>i. calls i s = calls_due i s) \<and>
     (\<forall>(i, c, _) \<in> set (fs_log s). i < length (fs_tasks s) \<and> map_option fst (tk_cb (fs_tasks s ! i)) = Some c) \<and>
     (\<forall>t \<in> set (fs_tasks s). \<forall>h. tk_state t = RemoveScan h \<longrightarrow> tk_cb t = None)"

lemma remaining_0: "remaining st = 0 \<longleftrightarrow> st = Done \<or> st = Crashed"
  by (cases st) auto

lemma task_step_moves:
  assumes "task_step dr addr i s = Some s'" "callbacks_ok s"
  shows "task_moves i s s'" "i < length (fs_tasks s)" "0 < remaining (tk_state (fs_tasks s ! i))"
proof -
  from assms(1) have i: "i < length (fs_tasks s)" and st: "state_step dr addr i (tk_state (fs_tasks s ! i)) s = Some s'"
    by (auto simp: task_step_def split: if_splits)
  with assms(2) show "task_moves i s s'" by (intro state_step_moves) (auto simp: callbacks_ok_def)
  from i show "i < length (fs_tasks s)" .
  show "0 < remaining (tk_state (fs_tasks s ! i))" using st remaining_0 [of "tk_state (fs_tasks s ! i)"] by auto
qed

lemma callbacks_step:
  assumes "task_step dr addr i s = Some s'" "callbacks_ok s"
  shows "callbacks_ok s'"
proof -
  note st = task_step_moves [OF assms]
  have open0: "calls i s = 0" using st(2,3) assms(2) by (auto simp: callbacks_ok_def calls_due_def)
  have tasks: "\<exists>st'. fs_tasks s' = (fs_tasks s)[i := (fs_tasks s ! i)\<lparr>tk_state := st'\<rparr>] \<and> (\<forall>h. st' \<noteq> RemoveScan h) \<and>
      (if st' = Done \<and> tk_cb (fs_tasks s ! i) \<noteq> None then \<exists>c v. fs_log s' = fs_log s @ [(i, fst (the (tk_cb (fs_tasks s ! i))), c, v)]
       else fs_log s' = fs_log s)"
  proof -
    from st(1) consider (ends) "task_done i s s'"
      | (on) st' where "fs_tasks s' = fs_tasks (set_task i st' s)" "fs_log s' = fs_log s" "onward st'" "remaining st' < remaining (tk_state (fs_tasks s ! i))"
      by (auto simp: task_moves_def)
    then show ?thesis
    proof cases
      case ends
      then show ?thesis by (cases "tk_cb (fs_tasks s ! i)") (auto simp: task_done_def)
    next
      case on
      then have "st' \<noteq> Done" "\<forall>h. st' \<noteq> RemoveScan h" by (auto simp: onward_def)
      with on show ?thesis by auto
    qed
  qed
  then obtain st' where t: "fs_tasks s' = (fs_tasks s)[i := (fs_tasks s ! i)\<lparr>tk_state := st'\<rparr>]" "\<forall>h. st' \<noteq> RemoveScan h"
    and l: "if st' = Done \<and> tk_cb (fs_tasks s ! i) \<noteq> None then \<exists>c v. fs_log s' = fs_log s @ [(i, fst (the (tk_cb (fs_tasks s ! i))), c, v)]
      else fs_log s' = fs_log s" by blast
  have due: "calls j s = calls_due j s" for j using assms(2) by (simp add: callbacks_ok_def)
  have "calls j s' = calls j s + (if j = i \<and> st' = Done \<and> tk_cb (fs_tasks s ! i) \<noteq> None then 1 else 0)" for j
    using l by (auto simp: calls_def split: if_splits)
  moreover have "calls_due j s' = (if j = i then if st' = Done \<and> tk_cb (fs_tasks s ! i) \<noteq> None then 1 else 0 else calls_due j s)" for j
    using t(1) st(2) by (simp add: calls_due_def nth_list_update)
  ultimately have "calls j s' = calls_due j s'" for j using due [of j] open0 by auto
  moreover have "\<forall>(j, c, _) \<in> set (fs_log s'). j < length (fs_tasks s') \<and> map_option fst (tk_cb (fs_tasks s' ! j)) = Some c"
    using assms(2) l t(1) st(2) by (fastforce simp: callbacks_ok_def nth_list_update split: if_splits)
  moreover have "tk_state x = RemoveScan h \<longrightarrow> tk_cb x = None" if "x \<in> set (fs_tasks s')" for x h
    using that assms(2) t by (auto simp: callbacks_ok_def dest!: set_update_subset_insert [THEN subsetD])
  ultimately show ?thesis by (simp add: callbacks_ok_def)
qed

lemma callbacks_reach: "ffi_reach dr s \<Longrightarrow> callbacks_ok s"
proof (induction rule: ffi_reach.induct)
  case (spawned s t)
  have "tk_state t \<noteq> Done" "\<forall>h. tk_state t = RemoveScan h \<longrightarrow> tk_cb t = None" using spawned(2) by (auto split: task_state.splits)
  with spawned(3) show ?case
    by (auto simp: callbacks_ok_def spawn_def calls_def calls_due_def nth_append less_Suc_eq)
next
  case (stepped s addr i s')
  then show ?case by (rule_tac callbacks_step)
qed (auto simp: callbacks_ok_def ffi_init_def calls_def calls_due_def)

section \<open>Locks\<close>

fun holds_session :: "nat \<Rightarrow> 'w task_state \<Rightarrow> bool" where
  "holds_session h (OnSession h' _ _) = (h = h')"
| "holds_session h _ = False"

fun holds_scan :: "nat \<Rightarrow> 'w task_state \<Rightarrow> bool" where
  "holds_scan h (OnScan h' _) = (h = h')"
| "holds_scan h _ = False"

text \<open>A mutex is locked exactly when one task holds it.\<close>

definition lock_held :: "('w task_state \<Rightarrow> bool) \<Rightarrow> bool \<Rightarrow> 'w ffi_state \<Rightarrow> bool" where
  "lock_held holds locked s \<longleftrightarrow> length (filter (\<lambda>t. holds (tk_state t)) (fs_tasks s)) = (if locked then 1 else 0)"

definition locks_ok :: "'w ffi_state \<Rightarrow> bool" where
  "locks_ok s \<longleftrightarrow> (\<forall>h. lock_held (holds_session h) (h \<in> rm_locked (fs_sessions s)) s \<and> lock_held (holds_scan h) (h \<in> rm_locked (fs_scans s)) s)"

lemma length_filter_update:
  "i < length xs \<Longrightarrow> length (filter P (xs[i := x])) + (if P (xs ! i) then 1 else 0) = length (filter P xs) + (if P x then 1 else 0)"
proof (induction xs arbitrary: i)
  case (Cons y xs)
  then show ?case by (cases i) auto
qed simp

lemma lock_held_step:
  assumes "lock_held holds l s" "i < length (fs_tasks s)" "fs_tasks s' = (fs_tasks s)[i := (fs_tasks s ! i)\<lparr>tk_state := st'\<rparr>]"
    and "l' \<longleftrightarrow> (if holds (tk_state (fs_tasks s ! i)) then holds st' else l \<or> holds st')"
    and "holds st' \<Longrightarrow> \<not> l"
  shows "lock_held holds l' s'"
proof -
  have "l" if "holds (tk_state (fs_tasks s ! i))"
  proof -
    have "fs_tasks s ! i \<in> set (filter (\<lambda>t. holds (tk_state t)) (fs_tasks s))" using assms(2) that by simp
    then have "0 < length (filter (\<lambda>t. holds (tk_state t)) (fs_tasks s))" by (rule length_pos_if_in_set)
    then show ?thesis using assms(1) by (auto simp: lock_held_def split: if_splits)
  qed
  with length_filter_update [OF assms(2), of "\<lambda>t. holds (tk_state t)" "(fs_tasks s ! i)\<lparr>tk_state := st'\<rparr>"] assms(1,3,4,5)
  show ?thesis by (auto simp: lock_held_def split: if_splits)
qed

text \<open>How a step changes the mutexes, from the state of the task before and after.\<close>

abbreviation state_of :: "nat \<Rightarrow> 'w ffi_state \<Rightarrow> 'w task_state" where
  "state_of i s \<equiv> tk_state (fs_tasks s ! i)"

definition locks_move :: "nat \<Rightarrow> 'w ffi_state \<Rightarrow> 'w ffi_state \<Rightarrow> bool" where
  "locks_move i s s' \<longleftrightarrow>
     (\<forall>h. (h \<in> rm_locked (fs_sessions s') \<longleftrightarrow> (if holds_session h (state_of i s) then holds_session h (state_of i s')
              else h \<in> rm_locked (fs_sessions s) \<or> holds_session h (state_of i s'))) \<and>
          (h \<in> rm_locked (fs_scans s') \<longleftrightarrow> (if holds_scan h (state_of i s) then holds_scan h (state_of i s')
              else h \<in> rm_locked (fs_scans s) \<or> holds_scan h (state_of i s'))) \<and>
          (holds_session h (state_of i s') \<longrightarrow> h \<notin> rm_locked (fs_sessions s)) \<and>
          (holds_scan h (state_of i s') \<longrightarrow> h \<notin> rm_locked (fs_scans s)))"

lemma resolve_state: "i < length (fs_tasks s) \<Longrightarrow> state_of i (resolve addr i r s) \<in> {Done, Crashed}"
  using resolve_done [of i s addr r] by (cases "tk_cb (fs_tasks s ! i)") (auto simp: task_done_def)

lemma ended_holds: "st \<in> {Done, Crashed} \<Longrightarrow> \<not> holds_session h st \<and> \<not> holds_scan h st"
  by auto

lemma resolve_holds [simp]:
  "i < length (fs_tasks s) \<Longrightarrow> \<not> holds_session h (state_of i (resolve addr i r s))"
  "i < length (fs_tasks s) \<Longrightarrow> \<not> holds_scan h (state_of i (resolve addr i r s))"
  using ended_holds [OF resolve_state] by blast+

lemma rm_release_locked: "rm_release h v m = (d, m') \<Longrightarrow> rm_locked m' = rm_locked m - {h}"
  by (auto simp: rm_release_def split: option.splits)

lemma rm_borrow_locked:
  "rm_borrow h m = Some (r, m') \<Longrightarrow> (\<exists>v. r = Ok v \<and> h \<notin> rm_locked m \<and> rm_locked m' = insert h (rm_locked m)) \<or> (\<exists>e. r = Err e \<and> m' = m)"
  by (auto simp: rm_borrow_def split: option.splits if_splits)

lemma rm_remove_locked: "rm_remove h m = (r, m') \<Longrightarrow> rm_locked m' = rm_locked m"
  by (auto simp: rm_remove_def)

text \<open>The mutexes that a task in a given state has locked are unlocked when it ends.\<close>

definition released :: "'w task_state \<Rightarrow> 'w ffi_state \<Rightarrow> 'w ffi_state \<Rightarrow> bool" where
  "released st s t \<longleftrightarrow> fs_tasks t = fs_tasks s \<and> rm_locked (fs_sessions t) = rm_locked (fs_sessions s) - {h. holds_session h st} \<and>
     rm_locked (fs_scans t) = rm_locked (fs_scans s) - {h. holds_scan h st}"

lemma resolve_locks:
  "released (state_of i s) s t \<Longrightarrow> i < length (fs_tasks s) \<Longrightarrow> locks_move i s (resolve addr i r t)"
  by (auto simp: locks_move_def released_def)

lemma set_task_locks:
  "released (state_of i s) s t \<Longrightarrow> i < length (fs_tasks s) \<Longrightarrow> (\<And>h. \<not> holds_session h st \<and> \<not> holds_scan h st) \<Longrightarrow> locks_move i s (set_task i st t)"
  by (auto simp: locks_move_def released_def)

lemma continue_locks:
  "released (state_of i s) s t \<Longrightarrow> i < length (fs_tasks s) \<Longrightarrow> (\<And>x h. \<not> holds_session h (f x) \<and> \<not> holds_scan h (f x)) \<Longrightarrow>
    locks_move i s (continue addr i r f t)"
  by (auto simp: continue_def resolve_locks set_task_locks split: result.split)

lemma finish_locks:
  "released (state_of i s) s t \<Longrightarrow> i < length (fs_tasks s) \<Longrightarrow> locks_move i s (finish addr i r t)"
  by (auto simp: finish_def resolve_locks set_task_locks split: result.split)

lemma borrow_locks:
  assumes "i < length (fs_tasks s)"
  shows "state_of i s \<in> {BorrowSession h f, WaitSession h f} \<Longrightarrow> rm_borrow h (fs_sessions s) = Some (r, m) \<Longrightarrow>
      locks_move i s (continue addr i r (\<lambda>v. OnSession h v f) (s\<lparr>fs_sessions := m\<rparr>))"
    and "state_of i s \<in> {BorrowScan h, WaitScan h} \<Longrightarrow> rm_borrow h (fs_scans s) = Some (p, n) \<Longrightarrow>
      locks_move i s (continue addr i p (OnScan h) (s\<lparr>fs_scans := n\<rparr>))"
  using assms by (auto simp: locks_move_def continue_def dest!: rm_borrow_locked)

lemma state_step_locks:
  assumes "state_step dr addr i (state_of i s) s = Some s'" "i < length (fs_tasks s)"
  shows "locks_move i s s'"
proof (cases "state_of i s")
  case (OnSession h session f)
  obtain r w d m where rw: "f session (fs_world s) = (r, w)" and rel: "rm_release h session (fs_sessions s) = (d, m)" by fastforce
  have "released (state_of i s) s (s\<lparr>fs_world := w', fs_sessions := m\<rparr>)" for w'
    using OnSession rm_release_locked [OF rel] by (simp add: released_def)
  with assms OnSession rw rel show ?thesis by (simp add: Let_def) (metis finish_locks)
next
  case (OnScan h scan)
  obtain r scan' d m where rw: "fetch_next scan = (r, scan')" and rel: "rm_release h scan' (fs_scans s) = (d, m)" by fastforce
  have "released (state_of i s) s (s\<lparr>fs_scans := m\<rparr>)" using OnScan rm_release_locked [OF rel] by (simp add: released_def)
  with assms OnScan rw rel show ?thesis by (simp add: Let_def) (metis resolve_locks)
next
  case (BorrowSession h f)
  with assms show ?thesis by (auto intro: borrow_locks intro!: set_task_locks simp: released_def split: option.splits)
next
  case (WaitSession h f)
  with assms show ?thesis by (auto intro: borrow_locks)
next
  case (BorrowScan h)
  with assms show ?thesis by (auto intro: borrow_locks intro!: set_task_locks simp: released_def split: option.splits)
next
  case (WaitScan h)
  with assms show ?thesis by (auto intro: borrow_locks)
next
  case (RemoveSession h commit)
  obtain r m where rm: "rm_remove h (fs_sessions s) = (r, m)" by fastforce
  then have "released (state_of i s) s (s\<lparr>fs_sessions := m\<rparr>)" "released (state_of i s) s (s\<lparr>fs_sessions := m, fs_world := w\<rparr>)" for w
    using RemoveSession by (simp_all add: released_def rm_remove_locked)
  then have "locks_move i s (resolve addr i r' (s\<lparr>fs_sessions := m\<rparr>))" "locks_move i s (resolve addr i r' (s\<lparr>fs_sessions := m, fs_world := w\<rparr>))"
      "locks_move i s (set_task i (Committing v) (s\<lparr>fs_sessions := m\<rparr>))" for r' w v
    using assms(2) by (simp_all add: resolve_locks set_task_locks)
  with assms(1) RemoveSession rm show ?thesis by (auto simp: Let_def split: option.splits result.splits if_splits)
next
  case (Rekeying h store meth pass)
  with assms show ?thesis
    by (auto simp: handle_replace_def released_def split: prod.splits result.splits intro!: resolve_locks)
qed (use assms in \<open>auto simp: Let_def handle_remove_def released_def rm_remove_all_def rm_remove_def split: prod.splits if_splits
    intro!: resolve_locks finish_locks set_task_locks continue_locks\<close>)

lemma locks_step:
  assumes "task_step dr addr i s = Some s'" "callbacks_ok s" "locks_ok s"
  shows "locks_ok s'"
proof -
  from assms(1) have i: "i < length (fs_tasks s)" and st: "state_step dr addr i (state_of i s) s = Some s'"
    by (auto simp: task_step_def split: if_splits)
  from task_step_moves(1) [OF assms(1,2)] obtain st' where t: "fs_tasks s' = (fs_tasks s)[i := (fs_tasks s ! i)\<lparr>tk_state := st'\<rparr>]"
    by (cases "tk_cb (fs_tasks s ! i)") (auto simp: task_moves_def task_done_def)
  then have "state_of i s' = st'" using i by simp
  with state_step_locks [OF st i] have moves: "locks_move i s s'" "state_of i s' = st'" by simp_all
  have "lock_held (holds_session h) (h \<in> rm_locked (fs_sessions s')) s'" "lock_held (holds_scan h) (h \<in> rm_locked (fs_scans s')) s'" for h
    using assms(3) moves unfolding locks_ok_def locks_move_def
    by (auto intro!: lock_held_step [of "holds_session h" "h \<in> rm_locked (fs_sessions s)", OF _ i t]
        lock_held_step [of "holds_scan h" "h \<in> rm_locked (fs_scans s)", OF _ i t])
  then show ?thesis by (simp add: locks_ok_def)
qed

lemma locks_reach: "ffi_reach dr s \<Longrightarrow> locks_ok s"
proof (induction rule: ffi_reach.induct)
  case (spawned s t)
  have "\<not> holds_session h (tk_state t) \<and> \<not> holds_scan h (tk_state t)" for h using spawned(2) by (cases "tk_state t") auto
  with spawned(3) show ?case by (auto simp: locks_ok_def lock_held_def spawn_def)
next
  case (stepped s addr i s')
  then show ?case by (meson locks_step callbacks_reach)
qed (simp_all add: locks_ok_def lock_held_def ffi_init_def rm_new_def)

section \<open>Handles\<close>

definition handles_ok :: "'w ffi_state \<Rightarrow> bool" where
  "handles_ok s \<longleftrightarrow> rm_wf (fs_sessions s) \<and> rm_wf (fs_scans s) \<and> (\<forall>h \<in> dom (fs_stores s). 0 < h \<and> h \<le> fs_store_counter s)"

definition rekeyed_ok :: "'w ffi_state \<Rightarrow> bool" where
  "rekeyed_ok s \<longleftrightarrow> (\<forall>t \<in> set (fs_tasks s). \<forall>h b m p. tk_state t = Rekeying h b m p \<longrightarrow> 0 < h \<and> h \<le> fs_store_counter s)"

lemma reply_value_handles: "handles_ok s \<Longrightarrow> handles_ok (snd (reply_value addr r s))"
  by (cases "(addr, r, s)" rule: reply_value.cases)
    (auto simp: handles_ok_def handle_create_def next_handle_def arc_create_def Let_def le_Suc_eq split: prod.splits dest: rm_insert_wf)

lemma resolve_handles [intro]: "handles_ok s \<Longrightarrow> handles_ok (resolve addr i r s)"
proof -
  assume s: "handles_ok s"
  have "handles_ok t" if "reply_value addr reply s = (v, t)" for reply v t
    using reply_value_handles [OF s, of addr reply] that by simp
  with s show ?thesis
    by (auto simp: resolve_def callback_error_def set_task_def handles_ok_def Let_def split: option.splits result.splits prod.splits)
qed

lemma set_task_handles [simp]: "handles_ok (set_task i st s) \<longleftrightarrow> handles_ok s"
  by (simp add: set_task_def handles_ok_def)

lemma handles_frame [simp]: "handles_ok (s\<lparr>fs_world := w\<rparr>) \<longleftrightarrow> handles_ok s"
  by (simp add: handles_ok_def)

lemma handles_update:
  "handles_ok s \<Longrightarrow> rm_wf m \<Longrightarrow> handles_ok (s\<lparr>fs_sessions := m\<rparr>)" "handles_ok s \<Longrightarrow> rm_wf n \<Longrightarrow> handles_ok (s\<lparr>fs_scans := n\<rparr>)"
  "handles_ok s \<Longrightarrow> handles_ok (s\<lparr>fs_stores := (fs_stores s)(h := None)\<rparr>)"
  "handles_ok s \<Longrightarrow> rm_wf m \<Longrightarrow> handles_ok (s\<lparr>fs_world := w, fs_sessions := m\<rparr>)"
  by (auto simp: handles_ok_def split: if_splits)

lemma handles_wf: "handles_ok s \<Longrightarrow> rm_wf (fs_sessions s)" "handles_ok s \<Longrightarrow> rm_wf (fs_scans s)"
  by (simp_all add: handles_ok_def)

lemma continue_handles [intro]: "handles_ok s \<Longrightarrow> handles_ok (continue addr i r f s)"
  by (auto simp: continue_def split: result.split)

lemma finish_handles [intro]: "handles_ok s \<Longrightarrow> handles_ok (finish addr i r s)"
  by (auto simp: finish_def split: result.split)

lemma resolve_counter: "fs_store_counter s \<le> fs_store_counter (resolve addr i r s)"
proof -
  have "fs_store_counter s \<le> fs_store_counter t" if "reply_value addr reply s = (v, t)" for reply v t
    using that by (cases "(addr, reply, s)" rule: reply_value.cases)
      (auto simp: handle_create_def next_handle_def rm_insert_def arc_create_def Let_def)
  then show ?thesis
    by (auto simp: resolve_def callback_error_def set_task_def Let_def split: option.splits result.splits prod.splits)
qed

lemma continue_counter: "fs_store_counter s \<le> fs_store_counter (continue addr i r f s)"
  by (auto simp: continue_def set_task_def resolve_counter split: result.split)

lemma finish_counter: "fs_store_counter s \<le> fs_store_counter (finish addr i r s)"
  by (auto simp: finish_def set_task_def resolve_counter split: result.split)

lemma state_step_handles:
  assumes "state_step dr addr i (state_of i s) s = Some s'" "i < length (fs_tasks s)" "handles_ok s" "rekeyed_ok s"
  shows "handles_ok s'"
proof (cases "state_of i s")
  case (OnSession h session f)
  obtain r w d m where rw: "f session (fs_world s) = (r, w)" and rel: "rm_release h session (fs_sessions s) = (d, m)" by fastforce
  have "rm_wf m" using rm_release_wf [OF handles_wf(1) [OF assms(3)], of h session] rel by simp
  with assms(1,3) OnSession rw rel show ?thesis by (auto simp: Let_def handles_update)
next
  case (OnScan h scan)
  obtain r scan' d m where rw: "fetch_next scan = (r, scan')" and rel: "rm_release h scan' (fs_scans s) = (d, m)" by fastforce
  have "rm_wf m" using rm_release_wf [OF handles_wf(2) [OF assms(3)], of h scan'] rel by simp
  with assms(1,3) OnScan rw rel show ?thesis by (auto simp: Let_def handles_update)
next
  case (RemoveSession h commit)
  obtain r m where rm: "rm_remove h (fs_sessions s) = (r, m)" by fastforce
  have "rm_wf m" using rm_remove_wf [OF handles_wf(1) [OF assms(3)], of h] rm by simp
  with assms(1,3) RemoveSession rm show ?thesis by (auto simp: Let_def handles_update split: option.splits result.splits if_splits)
next
  case (Rekeying h store meth pass)
  then have "0 < h \<and> h \<le> fs_store_counter s" using assms(2,4) nth_mem unfolding rekeyed_ok_def by blast
  then have "handles_ok (handle_replace h store (s\<lparr>fs_world := w\<rparr>))" for w
    using assms(3) by (auto simp: handles_ok_def handle_replace_def)
  with assms(1,3) Rekeying show ?thesis by (auto split: prod.splits result.splits)
qed (use assms(1,3) rm_remove_wf [OF handles_wf(2) [OF assms(3)]] rm_borrow_wf [OF handles_wf(1) [OF assms(3)]] rm_borrow_wf [OF handles_wf(2) [OF assms(3)]]
    in \<open>auto simp: Let_def handle_remove_def handles_update handles_wf rm_remove_all_wf split: prod.splits option.splits if_splits\<close>)

text \<open>Only a store that was registered is rekeyed, and counters never go back.\<close>

lemma step_counter: "state_step dr addr i st s = Some s' \<Longrightarrow> fs_store_counter s \<le> fs_store_counter s'"
  by (cases st)
    (auto simp: Let_def handle_remove_def handle_replace_def set_task_def split: prod.splits result.splits option.splits if_splits
      intro: order_trans [OF _ resolve_counter] order_trans [OF _ continue_counter] order_trans [OF _ finish_counter])

lemma resolve_not_rekeying: "i < length (fs_tasks s) \<Longrightarrow> state_of i (resolve addr i r s) \<noteq> Rekeying h b m p"
  using resolve_state [of i s addr r] by auto

lemma finish_not_rekeying: "i < length (fs_tasks s) \<Longrightarrow> state_of i (finish addr i r s) \<noteq> Rekeying h b m p"
  by (simp add: finish_def resolve_not_rekeying split: result.split)

lemma continue_rekeying:
  "state_of i (continue addr i r f s) = Rekeying h b m p \<Longrightarrow> i < length (fs_tasks s) \<Longrightarrow> \<exists>x. r = Ok x \<and> f x = Rekeying h b m p"
  by (cases r) (auto simp: continue_def resolve_not_rekeying)

lemma step_to_rekeying:
  assumes "state_step dr addr i (state_of i s) s = Some s'" "i < length (fs_tasks s)" "state_of i s' = Rekeying h b m p"
  shows "h \<in> dom (fs_stores s)"
  using assms
  by (cases "state_of i s")
    (auto simp: Let_def handle_remove_def handle_replace_def resolve_not_rekeying finish_not_rekeying ok_or_def dest!: continue_rekeying
      split: prod.splits result.splits option.splits if_splits)

lemma handles_reach: "ffi_reach dr s \<Longrightarrow> handles_ok s \<and> rekeyed_ok s"
proof (induction rule: ffi_reach.induct)
  case (stepped s addr i s')
  then have i: "i < length (fs_tasks s)" and st: "state_step dr addr i (state_of i s) s = Some s'"
    by (auto simp: task_step_def split: if_splits)
  from task_step_moves(1) [OF stepped(2) callbacks_reach [OF stepped(1)]]
  obtain st' where t: "fs_tasks s' = (fs_tasks s)[i := (fs_tasks s ! i)\<lparr>tk_state := st'\<rparr>]"
    by (cases "tk_cb (fs_tasks s ! i)") (auto simp: task_moves_def task_done_def)
  have "0 < h \<and> h \<le> fs_store_counter s'" if "x \<in> set (fs_tasks s')" "tk_state x = Rekeying h b m p" for x h b m p
  proof (cases "x \<in> set (fs_tasks s)")
    case True
    with that(2) stepped(3) have "0 < h \<and> h \<le> fs_store_counter s" unfolding rekeyed_ok_def by blast
    then show ?thesis using step_counter [OF st] by simp
  next
    case False
    with that(1) t have "x = (fs_tasks s ! i)\<lparr>tk_state := st'\<rparr>" using set_update_subset_insert [of "fs_tasks s" i] by auto
    then have "state_of i s' = Rekeying h b m p" using that(2) t i by simp
    from step_to_rekeying [OF st i this] stepped(3) have "0 < h \<and> h \<le> fs_store_counter s" by (auto simp: handles_ok_def)
    then show ?thesis using step_counter [OF st] by simp
  qed
  with state_step_handles [OF st i] stepped(3) show ?case unfolding rekeyed_ok_def by blast
next
  case (spawned s t)
  then have "tk_state t \<noteq> Rekeying h b m p" for h b m p by auto
  with spawned(3) show ?case by (auto simp: handles_ok_def rekeyed_ok_def spawn_def)
qed (auto simp: handles_ok_def rekeyed_ok_def ffi_init_def)

section \<open>Progress\<close>

definition work :: "'w ffi_state \<Rightarrow> nat" where
  "work s = sum_list (map (\<lambda>t. remaining (tk_state t)) (fs_tasks s))"

lemma sum_list_update: "i < length xs \<Longrightarrow> sum_list (map f (xs[i := x])) + f (xs ! i) = sum_list (map f xs) + (f x :: nat)"
proof (induction xs arbitrary: i)
  case (Cons y xs)
  then show ?case by (cases i) auto
qed simp

lemma work_decreases:
  assumes "task_step dr addr i s = Some s'" "callbacks_ok s"
  shows "work s' < work s"
proof -
  note st = task_step_moves [OF assms]
  obtain st' where "fs_tasks s' = (fs_tasks s)[i := (fs_tasks s ! i)\<lparr>tk_state := st'\<rparr>]" "remaining st' < remaining (state_of i s)"
    using st(1,3) by (cases "tk_cb (fs_tasks s ! i)") (auto simp: task_moves_def task_done_def)
  with sum_list_update [OF st(2), of "\<lambda>t. remaining (tk_state t)" "(fs_tasks s ! i)\<lparr>tk_state := st'\<rparr>"]
  show ?thesis by (simp add: work_def)
qed

definition finished :: "'w task_state \<Rightarrow> bool" where
  "finished st \<longleftrightarrow> st = Done \<or> st = Crashed"

lemma locked_holder:
  assumes "locks_ok s"
  shows "h \<in> rm_locked (fs_sessions s) \<Longrightarrow> \<exists>j < length (fs_tasks s). holds_session h (state_of j s)"
    and "h \<in> rm_locked (fs_scans s) \<Longrightarrow> \<exists>j < length (fs_tasks s). holds_scan h (state_of j s)"
proof -
  have "\<exists>j < length (fs_tasks s). P (state_of j s)" if "lock_held P True s" for P
  proof -
    have "filter (\<lambda>t. P (tk_state t)) (fs_tasks s) \<noteq> []" using that by (auto simp: lock_held_def)
    then show ?thesis by (auto simp: filter_empty_conv in_set_conv_nth)
  qed
  with assms show "h \<in> rm_locked (fs_sessions s) \<Longrightarrow> \<exists>j < length (fs_tasks s). holds_session h (state_of j s)"
    "h \<in> rm_locked (fs_scans s) \<Longrightarrow> \<exists>j < length (fs_tasks s). holds_scan h (state_of j s)"
    unfolding locks_ok_def by (metis (full_types))+
qed

text \<open>
  The tasks that are about to lock a map for writing, and those that are about to lock one for reading. The lock is given to a
  waiting writer before a new reader, and where it is contended the model leaves open who comes first; a step of a new reader
  therefore only counts as progress while no writer is there.
\<close>

fun writes_map :: "'w task_state \<Rightarrow> bool" where
  "writes_map (ClosingSessions _ _) = True"
| "writes_map (ClosingScans _ _) = True"
| "writes_map (RemoveScan _) = True"
| "writes_map (RemoveSession _ _) = True"
| "writes_map (Inserting _) = True"
| "writes_map _ = False"

fun new_reader :: "'w task_state \<Rightarrow> bool" where
  "new_reader (BorrowSession _ _) = True"
| "new_reader (BorrowScan _) = True"
| "new_reader _ = False"

definition progress :: "'w connections \<Rightarrow> nat \<Rightarrow> 'w ffi_state \<Rightarrow> bool" where
  "progress dr addr s \<longleftrightarrow> (\<exists>i u. task_step dr addr i s = Some u \<and>
     (new_reader (state_of i s) \<longrightarrow> (\<forall>j < length (fs_tasks s). \<not> writes_map (state_of j s))))"

text \<open>The tasks that use a connection for the time of their next step.\<close>

fun uses_connection :: "'w task_state \<Rightarrow> bool" where
  "uses_connection (RunPlain _) = True"
| "uses_connection (OnStore _ _ _) = True"
| "uses_connection (OnSession _ _ _) = True"
| "uses_connection (OnScan _ _) = True"
| "uses_connection (Rekeying _ _ _ _) = True"
| "uses_connection (Committing _) = True"
| "uses_connection (Inserting _) = True"
| "uses_connection _ = False"

text \<open>
  What is relied on of the pools: a connection is checked out only by a session or a scan of the store, registered or in the hands of a task, or by
  a task that uses the store.
\<close>

definition registered_for :: "nat \<Rightarrow> 'w ffi_state \<Rightarrow> bool" where
  "registered_for h s \<longleftrightarrow> (\<exists>k v. (k, h, v) \<in> set (rm_map (fs_sessions s))) \<or> (\<exists>k v. (k, h, v) \<in> set (rm_map (fs_scans s)))"

definition connections_owned :: "'w connections \<Rightarrow> 'w ffi_state \<Rightarrow> bool" where
  "connections_owned dr s \<longleftrightarrow> (\<forall>i < length (fs_tasks s). \<forall>h store.
     state_of i s = ClosingBackend h store \<and> pool_waits dr store (fs_world s) \<longrightarrow>
       registered_for h s \<or> (\<exists>j < length (fs_tasks s). uses_connection (state_of j s)))"

fun is_waiting :: "'w task_state \<Rightarrow> bool" where
  "is_waiting (WaitSession _ _) = True"
| "is_waiting (WaitScan _) = True"
| "is_waiting _ = False"

fun is_closing :: "'w task_state \<Rightarrow> bool" where
  "is_closing (ClosingBackend _ _) = True"
| "is_closing _ = False"

lemma waits_for_lock:
  assumes "state_step dr addr i st s = None" "is_waiting st"
  shows "(\<exists>h. h \<in> rm_locked (fs_sessions s)) \<or> (\<exists>h. h \<in> rm_locked (fs_scans s))"
  using assms by (cases st) (auto simp: rm_borrow_def split: option.splits if_splits)

lemma holder_steps: "holds_session h st \<or> holds_scan h st \<Longrightarrow> state_step dr addr i st s \<noteq> None \<and> \<not> new_reader st"
  by (cases st) (auto simp: Let_def split: prod.splits)

lemma progressI: "j < length (fs_tasks s) \<Longrightarrow> state_step dr addr j (state_of j s) s \<noteq> None \<Longrightarrow> \<not> new_reader (state_of j s) \<Longrightarrow> progress dr addr s"
  by (auto simp: progress_def task_step_def)

lemma waiting_progress:
  assumes "locks_ok s" "i < length (fs_tasks s)" "is_waiting (state_of i s)"
  shows "progress dr addr s"
proof (cases "state_step dr addr i (state_of i s) s")
  case None
  from waits_for_lock [OF None assms(3)] locked_holder [OF assms(1)]
  obtain j h where "j < length (fs_tasks s)" "holds_session h (state_of j s) \<or> holds_scan h (state_of j s)" by blast
  then show ?thesis using holder_steps by (metis progressI)
next
  case (Some u)
  have "\<not> new_reader (state_of i s)" using assms(3) by (cases "state_of i s") auto
  with Some assms(2) show ?thesis by (simp add: progressI)
qed

lemma nobody_reads:
  assumes "\<forall>j < length (fs_tasks s). \<not> is_waiting (state_of j s)"
  shows "\<not> sessions_read s" "\<not> scans_read s"
  using assms by (auto simp: sessions_read_def scans_read_def list_ex_length split: task_state.splits)

lemma free_steps:
  assumes "\<not> sessions_read s" "\<not> scans_read s" "\<not> finished st" "\<not> is_waiting st" "\<not> is_closing st"
  shows "state_step dr addr i st s \<noteq> None"
  using assms by (cases st) (auto simp: Let_def finished_def handle_remove_def split: prod.splits result.splits reply.splits)

lemma closing_steps: "\<not> pool_waits dr store (fs_world s) \<Longrightarrow> state_step dr addr i (ClosingBackend h store) s \<noteq> None"
  by (auto simp: Let_def split: prod.splits)

lemma no_progressD:
  assumes "locks_ok s" "\<not> progress dr addr s" "i < length (fs_tasks s)" "\<not> finished (state_of i s)"
  shows "\<exists>h store. state_of i s = ClosingBackend h store \<and> pool_waits dr store (fs_world s)"
proof -
  have quiet: "\<forall>j < length (fs_tasks s). \<not> is_waiting (state_of j s)" using waiting_progress [OF assms(1)] assms(2) by blast
  note free = free_steps [OF nobody_reads [OF quiet]]
  have reader: "new_reader (state_of j s)" if "j < length (fs_tasks s)" "\<not> finished (state_of j s)" "\<not> is_closing (state_of j s)" for j
    using progressI [OF that(1), of dr addr] free [OF that(2) _ that(3)] quiet that(1) assms(2) by blast
  have "\<not> writes_map (state_of j s)" if "j < length (fs_tasks s)" for j
    using reader [OF that] by (cases "state_of j s") (auto simp: finished_def)
  moreover have "task_step dr addr i s \<noteq> None" if "\<not> is_closing (state_of i s)"
    using free [OF assms(4) _ that] quiet assms(3) by (simp add: task_step_def)
  ultimately have "is_closing (state_of i s)" using assms(2) by (auto simp: progress_def)
  then obtain h store where c: "state_of i s = ClosingBackend h store" by (cases "state_of i s") auto
  then show ?thesis using progressI [OF assms(3), of dr addr] closing_steps assms(2) by fastforce
qed

lemma stuck_waits_for_client:
  assumes "locks_ok s" "\<not> progress dr addr s" "connections_owned dr s" "i < length (fs_tasks s)" "\<not> finished (state_of i s)"
  shows "\<exists>h store. state_of i s = ClosingBackend h store \<and> pool_waits dr store (fs_world s) \<and> registered_for h s"
proof -
  note stuck = no_progressD [OF assms(1,2)]
  have "\<not> uses_connection (state_of j s)" if "j < length (fs_tasks s)" for j
    using stuck [OF that] by (cases "finished (state_of j s)") (auto simp: finished_def)
  with stuck [OF assms(4,5)] assms(3,4) show ?thesis unfolding connections_owned_def by blast
qed

inductive task_run :: "'w connections \<Rightarrow> nat \<Rightarrow> 'w ffi_state \<Rightarrow> 'w ffi_state \<Rightarrow> bool" for dr where
  no_step: "task_run dr 0 s s"
| more_steps: "task_run dr n s t \<Longrightarrow> task_step dr addr i t = Some u \<Longrightarrow> task_run dr (Suc n) s u"

lemma task_run_reach: "task_run dr n s s' \<Longrightarrow> ffi_reach dr s \<Longrightarrow> ffi_reach dr s'"
  by (induction rule: task_run.induct) (auto intro: ffi_reach.stepped)

lemma task_run_work: "task_run dr n s s' \<Longrightarrow> ffi_reach dr s \<Longrightarrow> n + work s' \<le> work s"
proof (induction rule: task_run.induct)
  case (more_steps n s t addr i u)
  then show ?case using work_decreases [OF more_steps(2) callbacks_reach] task_run_reach by fastforce
qed simp

section \<open>The calls of a client\<close>


text \<open>Sessions whose end changes nothing, and pools for which nobody waits.\<close>

definition no_connections :: "'w connections" where
  "no_connections = \<lparr>drop_session = (\<lambda>_ w. w), pool_waits = (\<lambda>_ _. False)\<rparr>"

definition toy_task :: "unit task" where
  "toy_task = \<lparr>tk_state = RunPlain (\<lambda>w. (Ok ReplyUnit, w)), tk_cb = Some (7, CbNone)\<rparr>"

lemma toy_task_reach: "ffi_reach no_connections (spawn toy_task (ffi_init ()))"
  by (intro ffi_reach.spawned ffi_reach.start) (simp add: toy_task_def)

text \<open>
  C11. The callback of a call is called exactly once: in every reachable state, it has been called once when its
  task is done, with the id that the client gave, and not at all before that; a call without a
  callback never calls one. The exception is a task that panics within the callback's own conversion of the result.
\<close>

theorem ffi_callback_once:
  assumes "ffi_reach dr s" and "i < length (fs_tasks s)"
  shows "calls i s = (if state_of i s = Done \<and> tk_cb (fs_tasks s ! i) \<noteq> None then 1 else 0) \<and>
    (\<forall>(j, c, code, v) \<in> set (fs_log s). j = i \<longrightarrow> (\<exists>bad. tk_cb (fs_tasks s ! i) = Some (c, bad)))"
  using callbacks_reach [OF assms(1)] assms(2) by (fastforce simp: callbacks_ok_def calls_due_def)

theorem ffi_callback_once_witness:
  "calls 0 (the (task_step no_connections 8 0 (spawn toy_task (ffi_init ())))) = 1"
proof -
  let ?s = "spawn toy_task (ffi_init ())"
  let ?t = "set_task 0 Done (?s\<lparr>fs_log := [(0, 7, Success, CbNone)]\<rparr>)"
  have step: "task_step no_connections 8 0 ?s = Some ?t"
    by (simp add: task_step_def toy_task_def spawn_def ffi_init_def finish_def registers_def resolve_def)
  have "state_of 0 ?t = Done \<and> tk_cb (fs_tasks ?t ! 0) \<noteq> None" "0 < length (fs_tasks ?t)"
    by (simp_all add: spawn_def ffi_init_def toy_task_def)
  with ffi_callback_once [OF ffi_reach.stepped [OF toy_task_reach step], of 0] step show ?thesis by simp
qed

text \<open>Only a name with a zero byte makes the conversion for a callback panic.\<close>

lemma only_names_crash: "(\<exists>v. fst (reply_value addr r s) = Ok v) \<or> (\<exists>n. r = ReplyName n \<and> CHR 0x00 \<in> set n)"
  by (cases "(addr, r, s)" rule: reply_value.cases) (auto simp: c_string_def Let_def split: prod.splits if_splits)

text \<open>
  C13. A session or scan is used by at most one call at a time, and handles are unambiguous: in every reachable
  state no two tasks hold the same session or scan, what a task holds is locked, and the handles of
  stores, sessions and scans are different numbers between one and the last number drawn.
\<close>

theorem ffi_exclusive_use:
  assumes "ffi_reach dr s" and "i < length (fs_tasks s)" and "j < length (fs_tasks s)"
  shows "(holds_session h (state_of i s) \<longrightarrow> h \<in> rm_locked (fs_sessions s) \<and> (holds_session h (state_of j s) \<longrightarrow> i = j)) \<and>
    (holds_scan h (state_of i s) \<longrightarrow> h \<in> rm_locked (fs_scans s) \<and> (holds_scan h (state_of j s) \<longrightarrow> i = j)) \<and>
    distinct (map fst (rm_map (fs_sessions s))) \<and> distinct (map fst (rm_map (fs_scans s))) \<and>
    bt_keys (rm_map (fs_sessions s)) \<subseteq> {1..rm_counter (fs_sessions s)} \<and> bt_keys (rm_map (fs_scans s)) \<subseteq> {1..rm_counter (fs_scans s)} \<and>
    dom (fs_stores s) \<subseteq> {1..fs_store_counter s}"
proof -
  have held: "l \<and> (P (state_of j s) \<longrightarrow> i = j)" if "lock_held P l s" "P (state_of i s)" for P l
  proof -
    let ?xs = "filter (\<lambda>t. P (tk_state t)) (fs_tasks s)"
    have "fs_tasks s ! i \<in> set ?xs" using that(2) assms(2) by simp
    then have l: "l" "length ?xs = 1" using that(1) by (auto simp: lock_held_def filter_empty_conv split: if_splits)
    have "card {k. k < length (fs_tasks s) \<and> P (state_of k s)} = 1" using l(2) by (simp add: length_filter_conv_card)
    then obtain k where k: "{k. k < length (fs_tasks s) \<and> P (state_of k s)} = {k}" by (rule card_1_singletonE)
    have "i = j" if "P (state_of j s)"
    proof -
      have "i \<in> {k. k < length (fs_tasks s) \<and> P (state_of k s)}" "j \<in> {k. k < length (fs_tasks s) \<and> P (state_of k s)}"
        using that \<open>P (state_of i s)\<close> assms(2,3) by simp_all
      then show ?thesis unfolding k by simp
    qed
    with l show ?thesis by blast
  qed
  have "locks_ok s" and h: "handles_ok s" using locks_reach handles_reach assms(1) by blast+
  then have "lock_held (holds_session h) (h \<in> rm_locked (fs_sessions s)) s" "lock_held (holds_scan h) (h \<in> rm_locked (fs_scans s)) s"
    by (simp_all add: locks_ok_def)
  then have "holds_session h (state_of i s) \<longrightarrow> h \<in> rm_locked (fs_sessions s) \<and> (holds_session h (state_of j s) \<longrightarrow> i = j)"
    "holds_scan h (state_of i s) \<longrightarrow> h \<in> rm_locked (fs_scans s) \<and> (holds_scan h (state_of j s) \<longrightarrow> i = j)"
    using held by blast+
  with h show ?thesis by (auto simp: handles_ok_def rm_wf_def bt_wf_distinct Suc_le_eq)
qed

text \<open>A session that does nothing, and the states of a client that starts it and uses it.\<close>

definition toy_session :: "unit session_ops" where
  "toy_session = \<lparr>bs_count = (\<lambda>_ _ _ _ _. Ok 0), bs_fetch = (\<lambda>_ _ _ _ _ _. Ok None), bs_fetch_all = (\<lambda>_ _ _ _ _ _ _ _ _. Ok []),
     bs_remove_all = (\<lambda>_ _ _ w. (Ok 0, w)), bs_update = (\<lambda>_ _ _ _ _ _ _ _ _ w. (Ok (), w)), bs_ping = (\<lambda>_. Ok ()),
     bs_close = (\<lambda>_ w. (Ok (), w))\<rparr>"

definition toy_use :: "unit task" where
  "toy_use = \<lparr>tk_state = BorrowSession 1 (\<lambda>_ w. (Ok ReplyUnit, w)), tk_cb = Some (8, CbNone)\<rparr>"

definition toy_started :: "unit ffi_state" where
  "toy_started = set_task 0 Done ((spawn \<lparr>tk_state = RunPlain (\<lambda>w. (Ok (ReplySession 1 toy_session), w)), tk_cb = Some (7, CbHandle 0)\<rparr> (ffi_init ()))
     \<lparr>fs_sessions := \<lparr>rm_counter = 1, rm_map = [(1, 1, toy_session)], rm_locked = {}\<rparr>, fs_log := [(0, 7, Success, CbHandle 1)]\<rparr>)"

definition toy_using :: "unit ffi_state" where
  "toy_using = set_task 1 (OnSession 1 toy_session (\<lambda>_ w. (Ok ReplyUnit, w))) ((spawn toy_use toy_started)
     \<lparr>fs_sessions := \<lparr>rm_counter = 1, rm_map = [(1, 1, toy_session)], rm_locked = {1}\<rparr>\<rparr>)"

lemma toy_started_reach: "ffi_reach no_connections toy_started"
proof -
  let ?s = "spawn \<lparr>tk_state = RunPlain (\<lambda>w. (Ok (ReplySession 1 toy_session), w)), tk_cb = Some (7, CbHandle 0)\<rparr> (ffi_init ())"
  let ?t = "set_task 0 (Inserting (ReplySession 1 toy_session)) ?s"
  have "ffi_reach no_connections ?s" by (intro ffi_reach.spawned ffi_reach.start) simp
  moreover have "task_step no_connections 8 0 ?s = Some ?t"
    by (simp add: task_step_def spawn_def ffi_init_def finish_def registers_def)
  ultimately have "ffi_reach no_connections ?t" by (rule ffi_reach.stepped)
  moreover have "task_step no_connections 8 0 ?t = Some toy_started"
    by (simp add: toy_started_def task_step_def spawn_def ffi_init_def resolve_def rm_insert_def next_handle_def rm_new_def sessions_read_def set_task_def)
  ultimately show ?thesis by (rule ffi_reach.stepped)
qed

lemma toy_using_reach: "ffi_reach no_connections toy_using"
proof -
  have "ffi_reach no_connections (spawn toy_use toy_started)" by (intro ffi_reach.spawned toy_started_reach) (simp add: toy_use_def)
  moreover have "task_step no_connections 8 1 (spawn toy_use toy_started) = Some toy_using"
    by (simp add: toy_using_def toy_started_def toy_use_def task_step_def spawn_def set_task_def ffi_init_def continue_def rm_borrow_def)
  ultimately show ?thesis by (rule ffi_reach.stepped)
qed

theorem ffi_exclusive_use_witness:
  "holds_session 1 (state_of 1 toy_using) \<and> 1 \<in> rm_locked (fs_sessions toy_using)"
proof -
  have "holds_session 1 (state_of 1 toy_using)" "1 < length (fs_tasks toy_using)"
    by (simp_all add: toy_using_def toy_started_def toy_use_def spawn_def ffi_init_def)
  with ffi_exclusive_use [OF toy_using_reach, of 1 1 1] show ?thesis by blast
qed

text \<open>
  A second use of the session, that waits for it, and a call that closes it, which waits for the map that the second one has locked.
\<close>

definition toy_called :: "unit ffi_state" where
  "toy_called = spawn \<lparr>tk_state = RemoveSession 1 False, tk_cb = Some (9, CbNone)\<rparr> (spawn toy_use toy_using)"

definition toy_contended :: "unit ffi_state" where
  "toy_contended = set_task 2 (WaitSession 1 (\<lambda>_ w. (Ok ReplyUnit, w))) toy_called"

lemmas toy_simps = toy_contended_def toy_called_def toy_using_def toy_started_def toy_use_def spawn_def ffi_init_def task_step_def set_task_def


text \<open>
  Two consequences of the order of steps. A client that closes a session with a commit while another of its calls uses it is told that the session
  is busy; but the handle is gone then, so that the commit cannot be asked for again. And a session that is started while its store is
  closed is registered for the closed store when its task ends; when it has a connection, the closing of the store waits for it.
\<close>

lemma busy_commit_loses_session:
  assumes "i < length (fs_tasks s)" "state_of i s = RemoveSession h True" "tk_cb (fs_tasks s ! i) = Some (c, bad)"
    "map_of (rm_map (fs_sessions s)) h = Some (sh, v)" "h \<in> rm_locked (fs_sessions s)" "\<not> sessions_read s"
  obtains s' where "task_step dr addr i s = Some s'" "fs_log s' = fs_log s @ [(i, c, Busy, bad)]"
    "map_of (rm_map (fs_sessions s')) h = None" "fs_world s' = fs_world s"
proof -
  let ?e = "err_msg askar_kind.Busy ''Resource handle in use''"
  let ?s' = "callback_error i (c, bad) ?e (s\<lparr>fs_sessions := (fs_sessions s)\<lparr>rm_map := bt_remove h (rm_map (fs_sessions s))\<rparr>\<rparr>)"
  show thesis
  proof (rule that [of ?s'])
    show "task_step dr addr i s = Some ?s'"
      using assms by (simp add: task_step_def rm_remove_def resolve_def)
  qed (simp_all add: callback_error_def set_last_error_def map_of_bt_remove)
qed

lemma session_outlives_store:
  assumes "i < length (fs_tasks s)" "state_of i s = OnStore h store f" "f store (fs_world s) = (Ok (ReplySession h v), w)"
    "fs_stores s h = None" "tk_cb (fs_tasks s ! i) = Some cb" "rm_wf (fs_sessions s)" "\<not> sessions_read s"
  obtains t s' where "task_step dr addr i s = Some t" "task_step dr addr i t = Some s'" "fs_stores s' h = None"
    "map_of (rm_map (fs_sessions s')) (rm_counter (fs_sessions s) + 1) = Some (h, v)" "registered_for h s'"
proof -
  obtain k m where k: "rm_insert h v (fs_sessions s) = (k, m)" by fastforce
  let ?t = "set_task i (Inserting (ReplySession h v)) (s\<lparr>fs_world := w\<rparr>)"
  let ?s' = "set_task i Done (?t\<lparr>fs_sessions := m, fs_log := fs_log s @ [(i, fst cb, Success, CbHandle k)]\<rparr>)"
  have m: "map_of (rm_map m) (rm_counter (fs_sessions s) + 1) = Some (h, v)"
    using rm_insert_fresh(2) [OF assms(6) k] rm_insert_wf [OF assms(6) k] by simp
  have "\<not> sessions_read ?t"
    using assms(1,7) by (auto simp: sessions_read_def list_ex_length nth_list_update split: task_state.splits)
  then have step: "task_step dr addr i ?t = Some ?s'" using assms(1,5) k by (simp add: task_step_def resolve_def)
  show thesis
  proof (rule that [of ?t ?s'])
    show "task_step dr addr i s = Some ?t" using assms by (simp add: task_step_def finish_def registers_def)
    show "registered_for h ?s'" using map_of_SomeD [OF m] by (auto simp: registered_for_def)
  qed (use step m assms(4) in simp_all)
qed

end
