(* ===== verification/Migration.thy ===== *)
theory Migration
  imports Sqlite_Backend Store_Options
begin

text \<open>
  The migration of an Indy SDK wallet (\<open>askar-storage/src/migration\<close>): the wallet's items are
  decrypted with its own keys and written, under a new profile key, to the tables of a store in the
  same database. The main results: a migration that ends well leaves a store that opens with the
  key of the wallet and holds every item; the loop over the items ends; and a migration that was
  interrupted cannot be taken up again.
\<close>

section \<open>The wallet\<close>

text \<open>
  The tables of a wallet, as far as the migration reads them. After its first step the table \<open>items\<close>
  is called \<open>items_old\<close>. Deleting an item may delete its tags with it; they are not read again either way.
\<close>

record OldItem =
  o_id :: int
  o_type :: bytes
  o_name :: bytes
  o_value :: "bytes option"
  o_key :: bytes

record OldTag =
  ot_item :: int
  ot_name :: bytes
  ot_value :: bytes

record IndyTables =
  metadata :: "bytes list"
  items_old :: "OldItem list"
  tags_encrypted :: "OldTag list"
  tags_plaintext :: "OldTag list"

text \<open>A database file: the tables of a wallet, those of a store, or both during a migration.\<close>

record wallet_db =
  old_tables :: "IndyTables option"
  store_tables :: "Database option"

record IndyKeyMetadata =
  md_keys :: bytes
  md_salt :: "bytes option"

record IndyKey =
  ik_type_key :: bytes
  ik_name_key :: bytes
  ik_value_key :: bytes
  ik_item_hmac_key :: bytes
  ik_tag_name_key :: bytes
  ik_tag_value_key :: bytes
  ik_tag_hmac_key :: bytes

record IndyItem =
  it_id :: nat
  it_typ :: bytes
  it_name :: bytes
  it_value :: "bytes option"
  it_tags :: "EntryTag list"

record IndyRow =
  ir_id :: nat
  ir_typ :: bytes
  ir_name :: bytes
  ir_value :: "bytes option"
  ir_key :: bytes
  ir_tags_enc :: "bytes option"
  ir_tags_plain :: "bytes option"

record UpdatedIndyItem =
  up_id :: nat
  up_category :: bytes
  up_name :: bytes
  up_value :: bytes
  up_tags :: "EncEntryTag list"

record UpdatedKey =
  uk_master :: StoreKey
  uk_key_ref :: StoreKeyReference

text \<open>The foreign code: the JSON of the metadata, MessagePack, CBOR and the ciphers, and the options of the driver.\<close>

record ('j, 'l, 's) migration_env =
  me_store :: store_key_env
  me_profile :: profile_env
  me_hex :: hex_codec
  me_metadata :: "bytes \<Rightarrow> IndyKeyMetadata option"
  me_msgpack :: "bytes \<Rightarrow> IndyKey option"
  me_driver :: "('j, 'l, 's) sqlite_driver"

section \<open>Key derivation\<close>

datatype IndyKdfMethod = IndyArgon2i Argon2Level | IndyRaw

definition indy_kdf_from_str :: "string \<Rightarrow> IndyKdfMethod storage_result" where
  "indy_kdf_from_str s =
     (if s = ''ARGON2I_MOD'' then Ok (IndyArgon2i Moderate)
      else if s = ''ARGON2I_INT'' then Ok (IndyArgon2i Interactive)
      else if s = ''RAW'' then Ok IndyRaw
      else Err (err_msg storage_kind.Input ''Invalid key derivation method''))"

definition to_store_key_reference :: "IndyKdfMethod \<Rightarrow> bytes option \<Rightarrow> StoreKeyReference storage_result" where
  "to_store_key_reference m salt =
     (case m of
        IndyRaw \<Rightarrow> Ok RefRawKey
      | IndyArgon2i level \<Rightarrow>
          res_bind (ok_or (map_option (\<lambda>s. ''?salt='' @ hex_repr s) salt)
            (err_msg storage_kind.Input ''Salt must be provided for argon2i kdf method'')) (\<lambda>detail.
          Ok (RefDeriveKey (Argon2i level) detail)))"

section \<open>Decrypting an item\<close>

definition CHACHAPOLY_NONCE_LEN :: nat where
  "CHACHAPOLY_NONCE_LEN = 12"

text \<open>\<open>split_at\<close> panics on a value that is shorter than a nonce.\<close>

definition decrypt_merged :: "store_key_env \<Rightarrow> bytes \<Rightarrow> bytes \<Rightarrow> bytes storage_result" where
  "decrypt_merged E enc_value key =
     (if length enc_value < CHACHAPOLY_NONCE_LEN then Panic
      else lift_crypto (chacha20_decrypt_in_place (env_cipher E) vec_buffer key (take CHACHAPOLY_NONCE_LEN enc_value) []
        (drop CHACHAPOLY_NONCE_LEN enc_value)))"

definition indy_tag_text :: "bytes \<Rightarrow> string \<Rightarrow> string storage_result" where
  "indy_tag_text bs what =
     ok_or (string_from_utf8 bs) (err_msg storage_kind.Input (''tag '' @ what @ '' is not valid utf-8''))"

definition decrypt_tag :: "store_key_env \<Rightarrow> hex_codec \<Rightarrow> bytes \<Rightarrow> bytes option \<Rightarrow> bytes \<Rightarrow> (string \<times> string) storage_result" where
  "decrypt_tag E H nkey vkey tag =
     (let parts = split_all 58 tag;
          from_hex = (\<lambda>s. ok_or (hex_decode H s) (err_msg storage_kind.Input ''tag is not valid hex encoded''))
      in res_bind (from_hex (hd parts)) (\<lambda>tag_name.
         res_bind (case tl parts of [] \<Rightarrow> Panic | p # _ \<Rightarrow> from_hex p) (\<lambda>tag_value.
         res_bind (res_bind (decrypt_merged E tag_name nkey) (\<lambda>n. indy_tag_text n ''name'')) (\<lambda>name.
         res_bind (res_bind (case vkey of None \<Rightarrow> Ok tag_value | Some k \<Rightarrow> decrypt_merged E tag_value k)
           (\<lambda>v. indy_tag_text v ''value'')) (\<lambda>value.
         Ok (name, value))))))"

definition decrypt_tags :: "store_key_env \<Rightarrow> hex_codec \<Rightarrow> bytes \<Rightarrow> bytes option \<Rightarrow> bytes \<Rightarrow> (string \<times> string) list storage_result" where
  "decrypt_tags E H nkey vkey tags = res_mapM (decrypt_tag E H nkey vkey) (split_all 44 tags)"

definition decrypt_item :: "store_key_env \<Rightarrow> hex_codec \<Rightarrow> IndyKey \<Rightarrow> IndyRow \<Rightarrow> IndyItem storage_result" where
  "decrypt_item E H keys row =
     res_bind (decrypt_merged E (ir_key row) (ik_value_key keys)) (\<lambda>value_key.
     res_bind (lift_crypto (aead_key_from_secret_bytes (env_cipher E) value_key)) (\<lambda>value_key.
     res_bind (case ir_value row of Some v \<Rightarrow> res_map Some (decrypt_merged E v value_key) | None \<Rightarrow> Ok None) (\<lambda>value.
     res_bind (case ir_tags_enc row of None \<Rightarrow> Ok []
         | Some tags \<Rightarrow> decrypt_tags E H (ik_tag_name_key keys) (Some (ik_tag_value_key keys)) tags) (\<lambda>resp.
     res_bind (case ir_tags_plain row of None \<Rightarrow> Ok []
         | Some tags \<Rightarrow> decrypt_tags E H (ik_tag_name_key keys) None tags) (\<lambda>resp_plain.
     res_bind (decrypt_merged E (ir_typ row) (ik_type_key keys)) (\<lambda>typ.
     res_bind (decrypt_merged E (ir_name row) (ik_name_key keys)) (\<lambda>name.
     Ok \<lparr>it_id = ir_id row, it_typ = typ, it_name = name, it_value = value,
       it_tags = map (\<lambda>(n, v). EncryptedTag n v) resp @ map (\<lambda>(n, v). PlaintextTag n v) resp_plain\<rparr>)))))))"

text \<open>A missing value becomes an empty byte string that is not encrypted.\<close>

definition update_indy_item :: "entry_encryptor \<Rightarrow> bytes \<Rightarrow> IndyItem \<Rightarrow> UpdatedIndyItem storage_result" where
  "update_indy_item X nonce item =
     res_bind (case it_value item of Some v \<Rightarrow> ee_value X nonce (it_typ item) (it_name item) v | None \<Rightarrow> Ok []) (\<lambda>value.
     res_bind (ee_category X (it_typ item)) (\<lambda>category.
     res_bind (ee_name X (it_name item)) (\<lambda>name.
     res_bind (ee_tags X (it_tags item)) (\<lambda>tags.
     Ok \<lparr>up_id = it_id item, up_category = category, up_name = name, up_value = value, up_tags = tags\<rparr>))))"

section \<open>Moving the items\<close>

text \<open>The two columns of tags: \<open>GROUP_CONCAT(HEX(name) || ':' || HEX(value))\<close>, null without a tag.\<close>

definition indy_tags_column :: "hex_codec \<Rightarrow> int \<Rightarrow> OldTag list \<Rightarrow> bytes option" where
  "indy_tags_column H i tags =
     (let own = filter (\<lambda>t. ot_item t = i) tags in
      if own = [] then None else Some (join [44] (map (\<lambda>t. sql_hex H (ot_name t) @ 58 # sql_hex H (ot_value t)) own)))"

text \<open>Reading a row; the id has to be an unsigned number of 32 bits.\<close>

definition read_indy_row :: "hex_codec \<Rightarrow> IndyTables \<Rightarrow> OldItem \<Rightarrow> IndyRow storage_result" where
  "read_indy_row H w r =
     (if 0 \<le> o_id r \<and> o_id r < 2 ^ 32 then
        Ok \<lparr>ir_id = nat (o_id r), ir_typ = o_type r, ir_name = o_name r, ir_value = o_value r, ir_key = o_key r,
          ir_tags_enc = indy_tags_column H (o_id r) (tags_encrypted w), ir_tags_plain = indy_tags_column H (o_id r) (tags_plaintext w)\<rparr>
      else sqlx_error)"

definition fetch_pending_items :: "hex_codec \<Rightarrow> nat \<Rightarrow> IndyTables \<Rightarrow> IndyRow list option storage_result" where
  "fetch_pending_items H limit w =
     res_map (\<lambda>res. if res = [] then None else Some res) (res_mapM (read_indy_row H w) (take limit (items_old w)))"

fun insert_indy_tags :: "int \<Rightarrow> EncEntryTag list \<Rightarrow> Database \<Rightarrow> unit storage_result \<times> Database" where
  "insert_indy_tags row_id [] db = (Ok (), db)"
| "insert_indy_tags row_id (tag # tags) db =
     (case insert_tag row_id tag db of (Ok _, db) \<Rightarrow> insert_indy_tags row_id tags db | (_, db) \<Rightarrow> (sqlx_error, db))"

fun insert_indy_items :: "UpdatedIndyItem list \<Rightarrow> Database \<Rightarrow> unit storage_result \<times> Database" where
  "insert_indy_items [] db = (Ok (), db)"
| "insert_indy_items (item # rest) db =
     (case insert_item 1 2 (up_category item) (up_name item) (up_value item) None db of
        (Ok (Some item_id), db) \<Rightarrow>
          (case insert_indy_tags item_id (up_tags item) db of
             (Ok _, db) \<Rightarrow> insert_indy_items rest db
           | (r, db) \<Rightarrow> (r, db))
      | (_, db) \<Rightarrow> (sqlx_error, db))"

text \<open>
  \<open>DELETE FROM items_old WHERE id IN (?1)\<close>, where the parameter is one text, the ids separated by
  commas: the id of a row is compared to the number that the whole text denotes, if it denotes one.
\<close>

definition separated :: "nat list \<Rightarrow> string \<Rightarrow> string" where
  "separated ids sep = join sep (map show_nat ids)"

definition integer_text :: "string \<Rightarrow> int option" where
  "integer_text s = (if s \<noteq> [] \<and> list_all is_digit s then Some (int (parse_digits s)) else None)"

definition delete_old_items :: "string \<Rightarrow> IndyTables \<Rightarrow> IndyTables" where
  "delete_old_items text w = w\<lparr>items_old := filter (\<lambda>r. integer_text text \<noteq> Some (o_id r)) (items_old w)\<rparr>"

definition update_items_in_db :: "UpdatedIndyItem list \<Rightarrow> IndyTables \<Rightarrow> Database \<Rightarrow> unit storage_result \<times> IndyTables \<times> Database" where
  "update_items_in_db upd w db =
     (case insert_indy_items upd db of
        (Ok _, db) \<Rightarrow> (Ok (), delete_old_items (separated (map up_id upd) '','') w, db)
      | (r, db) \<Rightarrow> (r, w, db))"

text \<open>\<open>draw i\<close> is the nonce drawn for the \<open>i\<close>-th item.\<close>

fun update_rows :: "store_key_env \<Rightarrow> hex_codec \<Rightarrow> IndyKey \<Rightarrow> entry_encryptor \<Rightarrow> (nat \<Rightarrow> bytes) \<Rightarrow> nat \<Rightarrow> IndyRow list
    \<Rightarrow> UpdatedIndyItem list storage_result" where
  "update_rows E H keys X draw i [] = Ok []"
| "update_rows E H keys X draw i (row # rows) =
     res_bind (decrypt_item E H keys row) (\<lambda>item.
     res_bind (update_indy_item X (draw i) item) (\<lambda>upd.
     res_map (Cons upd) (update_rows E H keys X draw (Suc i) rows)))"

lemma update_rows_ids: "update_rows E H keys X draw i rows = Ok upd \<Longrightarrow> map up_id upd = map ir_id rows"
  by (induction rows arbitrary: i upd) (auto simp: decrypt_item_def update_indy_item_def result_simps)

lemma integer_text_show: "integer_text (separated [n] sep) = Some (int n)"
  using show_nat_digits [of n] by (simp add: integer_text_def separated_def)

text \<open>Each round removes the item that it has written.\<close>

lemma round_removes_item:
  assumes "fetch_pending_items H 1 w = Ok (Some rows)" "update_rows E H keys X draw i rows = Ok upd"
    "update_items_in_db upd w db = (Ok u, w', db')"
  shows "\<exists>r rest. items_old w = r # rest \<and> w' = w\<lparr>items_old := filter (\<lambda>q. o_id r \<noteq> o_id q) rest\<rparr>"
proof -
  obtain r rest where r: "items_old w = r # rest" and rows: "res_mapM (read_indy_row H w) [r] = Ok rows"
    using assms(1) by (cases "items_old w") (auto simp: fetch_pending_items_def result_simps split: if_splits)
  then have "map up_id upd = [nat (o_id r)]" "0 \<le> o_id r"
    using update_rows_ids [OF assms(2)] by (auto simp: read_indy_row_def result_simps sqlx_error_def split: if_splits)
  then have "w' = delete_old_items (separated [nat (o_id r)] '','') w"
    using assms(3) by (auto simp: update_items_in_db_def split: prod.splits result.splits)
  then show ?thesis
    using \<open>0 \<le> o_id r\<close> integer_text_show [of "nat (o_id r)" "'',''"] r
    by (auto simp: delete_old_items_def)
qed

function update_items :: "store_key_env \<Rightarrow> hex_codec \<Rightarrow> IndyKey \<Rightarrow> entry_encryptor \<Rightarrow> (nat \<Rightarrow> bytes) \<Rightarrow> nat \<Rightarrow> IndyTables \<Rightarrow> Database
    \<Rightarrow> unit storage_result \<times> IndyTables \<times> Database" where
  "update_items E H keys X draw i w db =
     (case fetch_pending_items H 1 w of
        Ok None \<Rightarrow> (Ok (), w, db)
      | Ok (Some rows) \<Rightarrow>
          (case update_rows E H keys X draw i rows of
             Ok upd \<Rightarrow>
               (case update_items_in_db upd w db of
                  (Ok _, w, db) \<Rightarrow> update_items E H keys X draw (i + length rows) w db
                | (r, w, db) \<Rightarrow> (r, w, db))
           | Err e \<Rightarrow> (Err e, w, db)
           | Panic \<Rightarrow> (Panic, w, db))
      | Err e \<Rightarrow> (Err e, w, db)
      | Panic \<Rightarrow> (Panic, w, db))"
  by pat_completeness auto

termination
proof (relation "measure (\<lambda>(E, H, keys, X, draw, i, w, db). length (items_old w))", goal_cases)
  case (2 E H keys X draw i w db x2 rows upd p u q w' db')
  then obtain r rest where "items_old w = r # rest" "w' = w\<lparr>items_old := filter (\<lambda>q. o_id r \<noteq> o_id q) rest\<rparr>"
    using round_removes_item [of H w rows E keys X draw i upd db q w' db'] by auto
  then show ?case by (simp add: le_imp_less_Suc)
qed simp

declare update_items.simps [simp del]

section \<open>The migration\<close>

record migration =
  mi_spec_uri :: string
  mi_wallet_key :: string
  mi_wallet_name :: string
  mi_kdf_method :: IndyKdfMethod

definition migration_connect :: "string \<Rightarrow> string \<Rightarrow> string \<Rightarrow> string \<Rightarrow> migration storage_result" where
  "migration_connect spec_uri wallet_name wallet_key kdf_method =
     res_bind (indy_kdf_from_str kdf_method) (\<lambda>kdf_method.
     Ok \<lparr>mi_spec_uri = spec_uri, mi_wallet_key = wallet_key, mi_wallet_name = wallet_name, mi_kdf_method = kdf_method\<rparr>)"

definition is_migrated :: "wallet_db \<Rightarrow> bool" where
  "is_migrated f \<longleftrightarrow> old_tables f = None"

definition empty_store_tables :: Database where
  "empty_store_tables = \<lparr>config = Map.empty, profiles = [], items = [], items_tags = []\<rparr>"

text \<open>The transaction fails as a whole when the tables exist.\<close>

definition pre_upgrade :: "wallet_db \<Rightarrow> unit storage_result \<times> wallet_db" where
  "pre_upgrade f =
     (if store_tables f \<noteq> None then (sqlx_error, f) else (Ok (), f\<lparr>store_tables := Some empty_store_tables\<rparr>))"

text \<open>The salt is cut to 16 bytes, which panics when it is shorter.\<close>

definition indy_salt :: "bytes option \<Rightarrow> bytes option storage_result" where
  "indy_salt salt = (case salt of None \<Rightarrow> Ok None | Some s \<Rightarrow> res_map Some (slice 0 16 s))"

definition fetch_indy_key :: "('j, 'l, 's) migration_env \<Rightarrow> migration \<Rightarrow> IndyTables \<Rightarrow> (IndyKey \<times> UpdatedKey) storage_result" where
  "fetch_indy_key M m w =
     (case metadata w of
        [] \<Rightarrow> sqlx_error
      | row # _ \<Rightarrow>
          res_bind (ok_or (me_metadata M row) (err_msg storage_kind.Input ''Could not convert value from metadata to IndyKey'')) (\<lambda>md.
          res_bind (indy_salt (md_salt md)) (\<lambda>salt.
          res_bind (to_store_key_reference (mi_kdf_method m) salt) (\<lambda>key_ref.
          res_bind (store_key_reference_resolve (me_store M) key_ref (Some (mi_wallet_key m))) (\<lambda>master.
          res_bind (res_map_err (\<lambda>_. err_msg storage_kind.Input ''Error decrypting wallet key'')
            (unwrap_data (me_store M) master (md_keys md))) (\<lambda>keys_mpk.
          res_bind (ok_or (me_msgpack M keys_mpk) (err_msg storage_kind.Input ''indy key not valid msgpack'')) (\<lambda>indy_key.
          Ok (indy_key, \<lparr>uk_master = master, uk_key_ref = key_ref\<rparr>))))))))"

text \<open>An \<open>INSERT\<close> into a table with a primary or unique key.\<close>

definition insert_config :: "string \<Rightarrow> string \<Rightarrow> Database \<Rightarrow> Database storage_result" where
  "insert_config name value db =
     (if config db name \<noteq> None then sqlx_error else Ok (db\<lparr>config := (config db)(name \<mapsto> Some value)\<rparr>))"

definition create_config :: "migration \<Rightarrow> UpdatedKey \<Rightarrow> Database \<Rightarrow> Database storage_result" where
  "create_config m key db =
     res_bind (insert_config ''default_profile'' (mi_wallet_name m) db) (\<lambda>db.
     insert_config ''key'' (store_key_reference_into_uri (uk_key_ref key)) db)"

definition insert_indy_profile :: "migration \<Rightarrow> bytes \<Rightarrow> Database \<Rightarrow> Database storage_result" where
  "insert_indy_profile m key db =
     (case insert_profile (mi_wallet_name m) key db of (Some pid, db) \<Rightarrow> Ok db | (None, db) \<Rightarrow> sqlx_error)"

text \<open>\<open>new_key\<close> and \<open>nonce\<close> are the key drawn for the profile and the nonce that wraps it.\<close>

definition init_profile :: "('j, 'l, 's) migration_env \<Rightarrow> migration \<Rightarrow> ProfileKey \<Rightarrow> bytes \<Rightarrow> UpdatedKey \<Rightarrow> Database
    \<Rightarrow> (ProfileKey \<times> Database) storage_result" where
  "init_profile M m new_key nonce key db =
     (case profiles db of
        row # _ \<Rightarrow>
          res_map (\<lambda>k. (k, db)) (ok_or (pe_from_cbor (me_profile M) (p_key row))
            (err_msg storage_kind.Input ''Invalid cbor encoding for profile_key''))
      | [] \<Rightarrow>
          res_bind (profile_key_to_bytes (me_profile M) new_key) (\<lambda>bytes.
          res_bind (wrap_data (me_store M) nonce (uk_master key) bytes) (\<lambda>enc_pk.
          res_bind (insert_indy_profile m enc_pk db) (\<lambda>db.
          Ok (new_key, db)))))"

definition finish_upgrade :: "Database \<Rightarrow> wallet_db storage_result" where
  "finish_upgrade db =
     res_map (\<lambda>db. \<lparr>old_tables = None, store_tables = Some db\<rparr>) (insert_config ''version'' ''1'' db)"

text \<open>
  Every statement between the first and the last transaction commits by itself, so an error leaves
  what was written. \<open>reopen\<close> opens the store to verify it.
\<close>

definition reopen :: "('j, 'l, 's) migration_env \<Rightarrow> migration \<Rightarrow> StoreKeyReference \<Rightarrow> Database \<Rightarrow> unit storage_result" where
  "reopen M m key_ref db =
     res_bind (options_parse_uri (env_codec (me_store M)) (mi_spec_uri m)) (\<lambda>opts.
     res_bind (sqlite_options_new (me_driver M) opts) (\<lambda>_.
     res_map (\<lambda>_. ()) (open_db (me_store M) (me_profile M) (Some (method_of_reference key_ref)) (Some (mi_wallet_key m)) None db)))"

definition upgrade :: "('j, 'l, 's) migration_env \<Rightarrow> migration \<Rightarrow> ProfileKey \<Rightarrow> bytes \<Rightarrow> (nat \<Rightarrow> bytes) \<Rightarrow> IndyTables \<Rightarrow> Database
    \<Rightarrow> UpdatedKey storage_result \<times> wallet_db" where
  "upgrade M m new_key nonce draw w db =
     (case fetch_indy_key M m w of
        Ok (indy_key, upd_key) \<Rightarrow>
          (case create_config m upd_key db of
             Ok db \<Rightarrow>
               (case init_profile M m new_key nonce upd_key db of
                  Ok (profile_key, db) \<Rightarrow>
                    (case update_items (me_store M) (me_hex M) indy_key (profile_encryptor (me_profile M) profile_key) draw 0 w db of
                       (Ok _, w, db) \<Rightarrow>
                         (case finish_upgrade db of
                            Ok f \<Rightarrow> (Ok upd_key, f)
                          | Err e \<Rightarrow> (Err e, \<lparr>old_tables = Some w, store_tables = Some db\<rparr>)
                          | Panic \<Rightarrow> (Panic, \<lparr>old_tables = Some w, store_tables = Some db\<rparr>))
                     | (Err e, w, db) \<Rightarrow> (Err e, \<lparr>old_tables = Some w, store_tables = Some db\<rparr>)
                     | (Panic, w, db) \<Rightarrow> (Panic, \<lparr>old_tables = Some w, store_tables = Some db\<rparr>))
                | Err e \<Rightarrow> (Err e, \<lparr>old_tables = Some w, store_tables = Some db\<rparr>)
                | Panic \<Rightarrow> (Panic, \<lparr>old_tables = Some w, store_tables = Some db\<rparr>))
           | Err e \<Rightarrow> (Err e, \<lparr>old_tables = Some w, store_tables = Some db\<rparr>)
           | Panic \<Rightarrow> (Panic, \<lparr>old_tables = Some w, store_tables = Some db\<rparr>))
      | Err e \<Rightarrow> (Err e, \<lparr>old_tables = Some w, store_tables = Some db\<rparr>)
      | Panic \<Rightarrow> (Panic, \<lparr>old_tables = Some w, store_tables = Some db\<rparr>))"

definition migrate :: "('j, 'l, 's) migration_env \<Rightarrow> migration \<Rightarrow> ProfileKey \<Rightarrow> bytes \<Rightarrow> (nat \<Rightarrow> bytes) \<Rightarrow> wallet_db
    \<Rightarrow> unit storage_result \<times> wallet_db" where
  "migrate M m new_key nonce draw f =
     (if is_migrated f then (Err (err_msg storage_kind.Backend ''Database is already migrated''), f)
      else
        (case pre_upgrade f of
           (Ok _, f) \<Rightarrow>
             (case upgrade M m new_key nonce draw (the (old_tables f)) (the (store_tables f)) of
                (Ok upd_key, f) \<Rightarrow> (reopen M m (uk_key_ref upd_key) (the (store_tables f)), f)
              | (Err e, f) \<Rightarrow> (Err e, f)
              | (Panic, f) \<Rightarrow> (Panic, f))
         | (r, f) \<Rightarrow> (r, f)))"

section \<open>Items become entries\<close>

text \<open>An item of the wallet stands for an entry, and the rows of a wallet for a list of entries.\<close>

definition item_entry :: "IndyItem \<Rightarrow> Entry \<Rightarrow> bool" where
  "item_entry item e \<longleftrightarrow> entry_kind e = Item \<and> valid_entry e \<and> it_typ item = as_bytes (entry_category e) \<and>
     it_name item = as_bytes (entry_name e) \<and> it_value item = Some (entry_value e) \<and> it_tags item = entry_tags e"

definition old_row_entry :: "store_key_env \<Rightarrow> hex_codec \<Rightarrow> IndyKey \<Rightarrow> IndyTables \<Rightarrow> OldItem \<Rightarrow> Entry \<Rightarrow> bool" where
  "old_row_entry E H keys w r e \<longleftrightarrow>
     (\<exists>row item. read_indy_row H w r = Ok row \<and> decrypt_item E H keys row = Ok item \<and> item_entry item e)"

definition wallet_holds :: "store_key_env \<Rightarrow> hex_codec \<Rightarrow> IndyKey \<Rightarrow> IndyTables \<Rightarrow> Entry list \<Rightarrow> bool" where
  "wallet_holds E H keys w es \<longleftrightarrow> distinct (map o_id (items_old w)) \<and> distinct (map entry_key es) \<and>
     list_all2 (old_row_entry E H keys w) (items_old w) es"

text \<open>The entries can be encrypted under the nonces drawn for them.\<close>

definition can_encrypt :: "entry_encryptor \<Rightarrow> bytes \<Rightarrow> Entry \<Rightarrow> bool" where
  "can_encrypt X nonce e \<longleftrightarrow>
     (\<exists>v. ee_value X nonce (as_bytes (entry_category e)) (as_bytes (entry_name e)) (entry_value e) = Ok v) \<and>
     (\<exists>c. ee_category X (as_bytes (entry_category e)) = Ok c) \<and> (\<exists>n. ee_name X (as_bytes (entry_name e)) = Ok n) \<and>
     (\<exists>ts. ee_tags X (entry_tags e) = Ok ts)"

lemma insert_indy_tags_Ok:
  "row_id \<in> i_id ` set (items db) \<Longrightarrow> insert_indy_tags row_id tags db = insert_tags row_id tags db"
  by (induction tags arbitrary: db) (auto simp: insert_tag_def)

lemma read_indy_row_items [simp]: "read_indy_row H (w\<lparr>items_old := xs\<rparr>) = read_indy_row H w"
  by (simp add: fun_eq_iff read_indy_row_def)

context encryptor_contract
begin

lemma insert_migrated:
  assumes rep: "represents X 1 db st" and item: "item_entry item e" and enc: "can_encrypt X nonce e"
    and new: "\<not> spec_has (entry_key e) st"
  shows "\<exists>upd db'. update_indy_item X nonce item = Ok upd \<and> up_id upd = it_id item \<and> insert_indy_items [upd] db = (Ok (), db') \<and>
    represents X 1 db' (st @ [(e, None)]) \<and> config db' = config db \<and> profiles db' = profiles db"
proof -
  obtain ec en ev et where e: "encrypts_to nonce e ec en ev et"
    using enc item by (auto simp: can_encrypt_def encrypts_to_def item_entry_def)
  let ?upd = "\<lparr>up_id = it_id item, up_category = ec, up_name = en, up_value = ev, up_tags = et\<rparr>"
  have upd: "update_indy_item X nonce item = Ok ?upd"
    using e item by (simp add: update_indy_item_def encrypts_to_def item_entry_def)
  fix env :: sqlite_env and now
  obtain r db' where ins: "perform_insert env now 1 (entry_kind e) ec en ev (Some et) None True db = (r, db')" by fastforce
  have "spec_insert (e, None) st = (Ok (), st @ [(e, None)])" using new by (simp add: spec_insert_def)
  with perform_insert_new [OF rep e _ _ ins] have r: "r = Ok ()" "represents X 1 db' (st @ [(e, None)])"
    by (simp_all add: opt_expiry_def)
  obtain i db1 where i: "insert_item 1 2 ec en ev None db = (Ok (Some i), db1)" "insert_tags i et db1 = (Ok (), db')"
    using ins r(1) item by (auto simp: perform_insert_def opt_expiry_def item_entry_def split: prod.splits result.splits option.splits)
  have db1: "i \<in> i_id ` set (items db1)" "config db1 = config db" "profiles db1 = profiles db"
    using i(1) by (auto simp: insert_item_def Let_def split: if_splits)
  then have "insert_indy_items [?upd] db = (Ok (), db')"
    using i insert_indy_tags_Ok by simp
  moreover have "config db' = config db" "profiles db' = profiles db"
    using i(2) db1 by (auto simp: insert_tags_Ok)
  ultimately show ?thesis using upd r(2) by force
qed

lemma update_items_migrates:
  assumes "list_all2 (old_row_entry E H keys w) (items_old w) es" "distinct (map o_id (items_old w))"
    and "represents X 1 db st" "distinct (map entry_key es)" "\<And>e. e \<in> set es \<Longrightarrow> \<not> spec_has (entry_key e) st"
    and "\<And>j. j < length es \<Longrightarrow> can_encrypt X (draw (i + j)) (es ! j)"
  shows "\<exists>w' db'. update_items E H keys X draw i w db = (Ok (), w', db') \<and> items_old w' = [] \<and>
    represents X 1 db' (st @ map (\<lambda>e. (e, None)) es) \<and> config db' = config db \<and> profiles db' = profiles db"
  using assms
proof (induction "items_old w" arbitrary: w es i db st)
  case Nil
  then have "fetch_pending_items H 1 w = Ok None" by (simp add: fetch_pending_items_def)
  with Nil show ?case by (simp add: update_items.simps)
next
  case (Cons r rs)
  obtain e es' where es: "es = e # es'" "old_row_entry E H keys w r e" "list_all2 (old_row_entry E H keys w) rs es'"
    using Cons.prems(1) Cons.hyps(2) by (metis list_all2_Cons1)
  obtain row item where row: "read_indy_row H w r = Ok row" "decrypt_item E H keys row = Ok item" "item_entry item e"
    using es(2) by (auto simp: old_row_entry_def)
  have "can_encrypt X (draw i) e" "\<not> spec_has (entry_key e) st" using Cons.prems(5) Cons.prems(6) [of 0] es(1) by simp_all
  from insert_migrated [OF Cons.prems(3) row(3) this] obtain upd db1 where
    upd: "update_indy_item X (draw i) item = Ok upd" "insert_indy_items [upd] db = (Ok (), db1)" and
    db1: "represents X 1 db1 (st @ [(e, None)])" "config db1 = config db" "profiles db1 = profiles db" by blast
  have fetch: "fetch_pending_items H 1 w = Ok (Some [row])"
    using row(1) by (simp add: fetch_pending_items_def flip: Cons.hyps(2))
  have rows: "update_rows E H keys X draw i [row] = Ok [upd]" using row(2) upd(1) by simp
  let ?w = "delete_old_items (separated [up_id upd] '','') w"
  have upd_db: "update_items_in_db [upd] w db = (Ok (), ?w, db1)" using upd(2) by (simp add: update_items_in_db_def)
  have "o_id r \<notin> o_id ` set rs" using Cons.prems(2) by (simp flip: Cons.hyps(2))
  then have keep: "filter (\<lambda>q. o_id r \<noteq> o_id q) rs = rs" by (auto simp: filter_id_conv)
  have w: "?w = w\<lparr>items_old := rs\<rparr>"
    using round_removes_item [OF fetch rows upd_db] keep by (auto simp flip: Cons.hyps(2))
  have "\<exists>w' db'. update_items E H keys X draw (i + 1) ?w db1 = (Ok (), w', db') \<and> items_old w' = [] \<and>
      represents X 1 db' ((st @ [(e, None)]) @ map (\<lambda>e. (e, None)) es') \<and> config db' = config db1 \<and> profiles db' = profiles db1"
  proof (rule Cons.hyps(1))
    show "rs = items_old ?w" by (simp add: w)
    show "list_all2 (old_row_entry E H keys ?w) (items_old ?w) es'" using es(3) by (simp add: w old_row_entry_def [abs_def])
    show "distinct (map o_id (items_old ?w))" using Cons.prems(2) by (simp add: w flip: Cons.hyps(2))
    show "distinct (map entry_key es')" using Cons.prems(4) es(1) by simp
    show "\<not> spec_has (entry_key e') (st @ [(e, None)])" if "e' \<in> set es'" for e'
      using Cons.prems(4,5) es(1) that by (auto simp: spec_has_def)
    show "can_encrypt X (draw (i + 1 + j)) (es' ! j)" if "j < length es'" for j
      using Cons.prems(6) [of "Suc j"] es(1) that by simp
  qed (rule db1(1))
  then show ?case using fetch rows upd_db db1 es(1) by (subst update_items.simps) auto
qed

end

section \<open>The tags of an item\<close>

text \<open>
  The columns that the statement builds are taken apart again: the tags are decrypted one by one, and
  the branch without a colon is never reached.
\<close>

definition decrypt_old_tag :: "store_key_env \<Rightarrow> bytes \<Rightarrow> bytes option \<Rightarrow> OldTag \<Rightarrow> (string \<times> string) storage_result" where
  "decrypt_old_tag E nkey vkey t =
     res_bind (res_bind (decrypt_merged E (ot_name t) nkey) (\<lambda>n. indy_tag_text n ''name'')) (\<lambda>name.
     res_bind (res_bind (case vkey of None \<Rightarrow> Ok (ot_value t) | Some k \<Rightarrow> decrypt_merged E (ot_value t) k)
       (\<lambda>v. indy_tag_text v ''value'')) (\<lambda>value.
     Ok (name, value)))"

lemma decrypt_tags_column:
  assumes "hex_codec_correct H" "indy_tags_column H i tags = Some column"
  shows "decrypt_tags E H nkey vkey column = res_mapM (decrypt_old_tag E nkey vkey) (filter (\<lambda>t. ot_item t = i) tags)"
proof -
  let ?own = "filter (\<lambda>t. ot_item t = i) tags"
  let ?f = "\<lambda>t. sql_hex H (ot_name t) @ 58 # sql_hex H (ot_value t)"
  have hx: "hex_decode H (sql_hex H bs) = Some bs" "58 \<notin> set (sql_hex H bs)" "44 \<notin> set (sql_hex H bs)" for bs
    using assms(1) by (simp_all add: hex_codec_correct_def)
  have c: "?own \<noteq> []" "column = join [44] (map ?f ?own)"
    using assms(2) by (auto simp: indy_tags_column_def Let_def split: if_splits)
  have "split_all 44 column = map ?f ?own"
    using c hx(3) by (auto simp: list_all_iff intro!: split_all_join)
  moreover have "decrypt_tag E H nkey vkey (?f t) = decrypt_old_tag E nkey vkey t" for t
    using hx by (simp add: decrypt_tag_def split_all_append split_all_single decrypt_old_tag_def)
  then have "res_mapM (decrypt_tag E H nkey vkey) (map ?f ts) = res_mapM (decrypt_old_tag E nkey vkey) ts" for ts
    by (induction ts) simp_all
  ultimately show ?thesis by (simp add: decrypt_tags_def)
qed

section \<open>Correctness\<close>

lemma key_ref_reopens:
  assumes "to_store_key_reference m salt = Ok r"
  shows "store_key_reference_parse_uri (store_key_reference_into_uri r) = Ok r" "compare_method r (method_of_reference r)"
proof -
  have "\<forall>k d. r = RefDeriveKey k d \<longrightarrow> detail_wf d"
    using assms by (auto simp: to_store_key_reference_def result_simps detail_wf_def split: IndyKdfMethod.splits)
  then show "store_key_reference_parse_uri (store_key_reference_into_uri r) = Ok r"
    by (intro store_key_reference_uri) (simp split: StoreKeyReference.splits)
  show "compare_method r (method_of_reference r)" by (cases r) simp_all
qed

lemma fetch_indy_key_reopens:
  assumes "fetch_indy_key M m w = Ok (keys, uk)"
  shows "resolve_store_key (me_store M) (Some (method_of_reference (uk_key_ref uk))) (Some (mi_wallet_key m))
    (Some (store_key_reference_into_uri (uk_key_ref uk))) = Ok (uk_master uk)"
proof -
  obtain salt where "to_store_key_reference (mi_kdf_method m) salt = Ok (uk_key_ref uk)"
    "store_key_reference_resolve (me_store M) (uk_key_ref uk) (Some (mi_wallet_key m)) = Ok (uk_master uk)"
    using assms by (auto simp: fetch_indy_key_def result_simps sqlx_error_def split: list.splits)
  with key_ref_reopens show ?thesis by (simp add: resolve_store_key_def)
qed

lemma spec_fetch_migrated:
  assumes "distinct (map entry_key es)" "e \<in> set es"
  shows "spec_fetch (unexpired now) (entry_key e) (map (\<lambda>e. (e, None)) es) = Some e"
  using assms by (induction es) (auto simp: spec_fetch_def visible_def unexpired_def)

text \<open>The tables before the first item is moved.\<close>

definition new_store :: "migration \<Rightarrow> UpdatedKey \<Rightarrow> bytes \<Rightarrow> Database" where
  "new_store m uk enc =
     \<lparr>config = [''default_profile'' \<mapsto> Some (mi_wallet_name m), ''key'' \<mapsto> Some (store_key_reference_into_uri (uk_key_ref uk))],
      profiles = [\<lparr>p_id = 1, p_name = mi_wallet_name m, p_key = enc\<rparr>], items = [], items_tags = []\<rparr>"

lemma new_store_created:
  assumes "encode_profile_key (me_store M) (me_profile M) nonce new_key (uk_master uk) = Ok enc"
  shows "\<exists>db. create_config m uk empty_store_tables = Ok db \<and> init_profile M m new_key nonce uk db = Ok (new_key, new_store m uk enc)"
proof -
  obtain b where "profile_key_to_bytes (me_profile M) new_key = Ok b" "wrap_data (me_store M) nonce (uk_master uk) b = Ok enc"
    using assms by (auto simp: encode_profile_key_def result_simps)
  then show ?thesis
    by (simp add: create_config_def insert_config_def empty_store_tables_def init_profile_def insert_indy_profile_def
        insert_profile_def new_store_def)
qed

lemma migrated_store_opens:
  assumes "fetch_indy_key M m w = Ok (keys, uk)" "load_key (me_store M) (me_profile M) (key_cache_new (uk_master uk)) enc = Ok new_key"
    and "config db = (config (new_store m uk enc))(''version'' \<mapsto> Some ''1'')" "profiles db = profiles (new_store m uk enc)"
    and "meth = None \<or> meth = Some (method_of_reference (uk_key_ref uk))"
  shows "open_db (me_store M) (me_profile M) meth (Some (mi_wallet_key m)) None db =
    Ok \<lparr>be_db = db, active_profile = mi_wallet_name m, key_cache = add_profile (mi_wallet_name m) 1 new_key (key_cache_new (uk_master uk))\<rparr>"
proof -
  have "resolve_store_key (me_store M) meth (Some (mi_wallet_key m)) (Some (store_key_reference_into_uri (uk_key_ref uk))) = Ok (uk_master uk)"
    using fetch_indy_key_reopens [OF assms(1)] assms(5) by (auto simp: resolve_store_key_def result_simps split: if_splits)
  then show ?thesis
    using assms(2-4) by (simp add: open_db_def config_text_def check_version_def find_profile_def new_store_def)
qed

lemma row_of_config [simp]: "row_of X (db\<lparr>config := c\<rparr>) = row_of X db"
  by (simp add: fun_eq_iff row_of_def item_tags_def)

lemma upgrade_moves:
  fixes M :: "('j, 'l, 's) migration_env"
  defines "E \<equiv> me_store M" and "P \<equiv> me_profile M"
  assumes "aead_correct (pe_cipher P)" "fetch_indy_key M m w = Ok (keys, uk)" "wallet_holds E (me_hex M) keys w es"
    and "\<forall>j < length es. can_encrypt (profile_encryptor P new_key) (draw j) (es ! j)"
    and "encode_profile_key E P nonce new_key (uk_master uk) = Ok enc"
  shows "\<exists>db. upgrade M m new_key nonce draw w empty_store_tables = (Ok uk, \<lparr>old_tables = None, store_tables = Some db\<rparr>) \<and>
    represents (profile_encryptor P new_key) 1 db (map (\<lambda>e. (e, None)) es) \<and>
    config db = (config (new_store m uk enc))(''version'' \<mapsto> Some ''1'') \<and> profiles db = profiles (new_store m uk enc)"
proof -
  let ?X = "profile_encryptor P new_key" and ?db = "new_store m uk enc"
  obtain db0 where db0: "create_config m uk empty_store_tables = Ok db0" "init_profile M m new_key nonce uk db0 = Ok (new_key, ?db)"
    using new_store_created [OF assms(7) [unfolded E_def P_def], of m] by blast
  have "represents ?X 1 ?db []" by (simp add: represents_def new_store_def db_wf_def profile_items_def)
  then obtain w' db' where u: "update_items E (me_hex M) keys ?X draw 0 w ?db = (Ok (), w', db')"
      "represents ?X 1 db' (map (\<lambda>e. (e, None)) es)" "config db' = config ?db" "profiles db' = profiles ?db"
    using encryptor_contract.update_items_migrates [OF profile_encryptor_contract [OF assms(3)], of E "me_hex M" keys w es new_key ?db "[]" draw 0]
      assms(5,6) by (auto simp: wallet_holds_def spec_has_def)
  let ?done_db = "db'\<lparr>config := (config db')(''version'' \<mapsto> Some ''1'')\<rparr>"
  have "finish_upgrade db' = Ok \<lparr>old_tables = None, store_tables = Some ?done_db\<rparr>"
    by (simp add: finish_upgrade_def insert_config_def u(3) new_store_def)
  then have "upgrade M m new_key nonce draw w empty_store_tables = (Ok uk, \<lparr>old_tables = None, store_tables = Some ?done_db\<rparr>)"
    using assms(4) db0 u(1) by (simp add: upgrade_def E_def P_def)
  moreover have "represents ?X 1 ?done_db (map (\<lambda>e. (e, None)) es)"
    using u(2) by (simp add: represents_def db_wf_def profile_items_def)
  ultimately show ?thesis using u(3,4) by force
qed

text \<open>
  C18. A migration moves every item. Take a wallet whose key can be unwrapped with the given wallet
  key and whose rows decrypt to a list of entries, which the new profile key can encrypt. Then the
  migration ends well; the tables of the wallet are gone; the items of the new profile represent
  exactly those entries, none with an expiry time, so that each can be fetched; and the store opens
  with the wallet key, to a backend with the new profile key.
\<close>

theorem migrate_moves_every_item:
  fixes M :: "('j, 'l, 's) migration_env"
  defines "E \<equiv> me_store M" and "P \<equiv> me_profile M"
  assumes "aead_correct (env_cipher E)" and "aead_correct (pe_cipher P)"
    and "\<forall>b. pe_to_cbor P new_key = Some b \<longrightarrow> pe_from_cbor P b = Some new_key"
    and "old_tables f = Some w" and "store_tables f = None"
    and "fetch_indy_key M m w = Ok (keys, uk)"
    and "wallet_holds E (me_hex M) keys w es"
    and "\<forall>j < length es. can_encrypt (profile_encryptor P new_key) (draw j) (es ! j)"
    and "encode_profile_key E P nonce new_key (uk_master uk) = Ok enc"
    and "options_parse_uri (env_codec E) (mi_spec_uri m) = Ok opts" and "sqlite_options_new (me_driver M) opts = Ok so"
  shows "\<exists>db be. migrate M m new_key nonce draw f = (Ok (), \<lparr>old_tables = None, store_tables = Some db\<rparr>) \<and>
    represents (profile_encryptor P new_key) 1 db (map (\<lambda>e. (e, None)) es) \<and>
    (\<forall>env now. sqlite_env_correct env \<and> se_profile env = P \<longrightarrow>
       (\<forall>e \<in> set es. sqlite_fetch env now (Ok (1, new_key)) Item (entry_category e) (entry_name e) db = Ok (Some e))) \<and>
    open_db E P None (Some (mi_wallet_key m)) None db = Ok be \<and>
    active_profile be = mi_wallet_name m \<and> get_profile (key_cache be) (mi_wallet_name m) = Some (1, new_key)"
proof -
  let ?X = "profile_encryptor P new_key"
  obtain db where up: "upgrade M m new_key nonce draw w empty_store_tables = (Ok uk, \<lparr>old_tables = None, store_tables = Some db\<rparr>)"
    and rep: "represents ?X 1 db (map (\<lambda>e. (e, None)) es)"
    and db: "config db = (config (new_store m uk enc))(''version'' \<mapsto> Some ''1'')" "profiles db = profiles (new_store m uk enc)"
    using upgrade_moves [of M m w keys uk es new_key draw nonce enc] assms(4,8-11) by (auto simp: E_def P_def)
  have load: "load_key E P (key_cache_new (uk_master uk)) enc = Ok new_key"
    using load_encoded_key [OF assms(3), of P new_key nonce "key_cache_new (uk_master uk)" enc] assms(5,11) by (simp add: key_cache_new_def)
  note opens = migrated_store_opens [OF assms(8) load [unfolded E_def P_def] db]
  have "migrate M m new_key nonce draw f = (Ok (), \<lparr>old_tables = None, store_tables = Some db\<rparr>)"
    using assms(6,7,12,13) up opens
    by (simp add: migrate_def is_migrated_def pre_upgrade_def reopen_def E_def P_def)
  moreover have "sqlite_fetch env now (Ok (1, new_key)) Item (entry_category e) (entry_name e) db = Ok (Some e)"
    if env: "sqlite_env_correct env" "se_profile env = P" and e: "e \<in> set es" for env now e
  proof -
    obtain j where "can_encrypt ?X (draw j) e" using assms(10) e by (metis in_set_conv_nth)
    then obtain ec en where enc: "ee_category ?X (as_bytes (entry_category e)) = Ok ec" "ee_name ?X (as_bytes (entry_name e)) = Ok en"
      unfolding can_encrypt_def by blast
    have v: "entry_kind e = Item" "valid_entry e"
      using assms(9) e by (auto simp: wallet_holds_def list_all2_conv_all_nth in_set_conv_nth old_row_entry_def item_entry_def)
    have "spec_fetch (unexpired now) (Item, entry_category e, entry_name e) (map (\<lambda>e. (e, None)) es) = Some e"
      using spec_fetch_migrated [of es e now] assms(9) e v(1) by (simp add: wallet_holds_def entry_key_def)
    then show ?thesis
      using sqlite_fetch_sim [of env new_key 1 db _ "entry_category e" "entry_name e" ec en now Item] env rep enc v(2)
      by (simp add: valid_entry_def)
  qed
  ultimately show ?thesis
    using rep opens [of None] by (auto simp: E_def P_def get_profile_def add_profile_def)
qed

section \<open>A small wallet\<close>

definition toy_seal :: "bytes \<Rightarrow> bytes" where
  "toy_seal m = replicate 12 0 @ m @ replicate 16 0"

definition toy_indy_key :: IndyKey where
  "toy_indy_key = \<lparr>ik_type_key = [], ik_name_key = [], ik_value_key = [], ik_item_hmac_key = [], ik_tag_name_key = [],
     ik_tag_value_key = [], ik_tag_hmac_key = []\<rparr>"

definition toy_wallet :: IndyTables where
  "toy_wallet = \<lparr>metadata = [[]],
     items_old = [\<lparr>o_id = 5, o_type = toy_seal (as_bytes ''c''), o_name = toy_seal (as_bytes ''n''), o_value = Some (toy_seal [1]),
       o_key = toy_seal (replicate 32 9)\<rparr>],
     tags_encrypted = [\<lparr>ot_item = 5, ot_name = toy_seal (as_bytes ''t''), ot_value = toy_seal (as_bytes ''v'')\<rparr>], tags_plaintext = []\<rparr>"

definition toy_item :: Entry where
  "toy_item = \<lparr>entry_kind = Item, entry_category = ''c'', entry_name = ''n'', entry_value = [1], entry_tags = [EncryptedTag ''t'' ''v'']\<rparr>"

definition toy_migration_env :: "(unit, unit, unit) migration_env" where
  "toy_migration_env = \<lparr>me_store = toy_env, me_profile = toy_cbor_env, me_hex = toy_hex_codec,
     me_metadata = (\<lambda>_. Some \<lparr>md_keys = toy_seal [], md_salt = None\<rparr>), me_msgpack = (\<lambda>_. Some toy_indy_key),
     me_driver = \<lparr>dr_journal_mode = (\<lambda>_. Some ()), dr_locking_mode = (\<lambda>_. Some ()), dr_synchronous = (\<lambda>_. Some ()), dr_wal = (), dr_normal = (), dr_full = (),
       dr_parallelism = Some 4\<rparr>\<rparr>"

definition toy_migration :: migration where
  "toy_migration = \<lparr>mi_spec_uri = ''w'', mi_wallet_key = replicate 32 (CHR ''k''), mi_wallet_name = ''wallet'', mi_kdf_method = IndyRaw\<rparr>"

lemma toy_decrypt_merged: "decrypt_merged toy_env (toy_seal m) k = Ok m"
  by (simp add: decrypt_merged_def CHACHAPOLY_NONCE_LEN_def toy_seal_def toy_env_def
      chacha20_decrypt_in_place_def aead_decrypt_with_def resized_shrink)

lemma toy_wallet_holds: "wallet_holds toy_env toy_hex_codec toy_indy_key toy_wallet [toy_item]"
proof -
  let ?r = "hd (items_old toy_wallet)"
  obtain row where row: "read_indy_row toy_hex_codec toy_wallet ?r = Ok row"
    by (simp add: read_indy_row_def toy_wallet_def)
  have col: "indy_tags_column toy_hex_codec 5 (tags_encrypted toy_wallet) = ir_tags_enc row" "ir_tags_plain row = None"
    using row by (auto simp: read_indy_row_def toy_wallet_def indy_tags_column_def sqlx_error_def)
  then obtain column where "ir_tags_enc row = Some column" by (cases "ir_tags_enc row") (auto simp: toy_wallet_def indy_tags_column_def)
  moreover have "string_from_utf8 (as_bytes ''t'') = Some ''t''" "string_from_utf8 (as_bytes ''v'') = Some ''v''"
    by (simp_all add: string_from_utf8_as_bytes valid_str_def)
  then have "decrypt_tags toy_env toy_hex_codec [] (Some []) column = Ok [(''t'', ''v'')]"
    using decrypt_tags_column [OF toy_hex_codec_correct, of 5 "tags_encrypted toy_wallet" column toy_env "[]" "Some []"] col(1) calculation
    by (simp add: toy_wallet_def decrypt_old_tag_def toy_decrypt_merged indy_tag_text_def)
  moreover have "aead_key_from_secret_bytes (env_cipher toy_env) (replicate 32 9) = Ok (replicate 32 9)"
    by (simp add: aead_key_from_secret_bytes_def toy_env_def)
  ultimately have "\<exists>item. decrypt_item toy_env toy_hex_codec toy_indy_key row = Ok item \<and> item_entry item toy_item"
    using row col(2)
    by (auto simp: decrypt_item_def read_indy_row_def toy_wallet_def toy_indy_key_def toy_decrypt_merged sqlx_error_def
        item_entry_def toy_item_def valid_entry_def valid_tag_def valid_str_def)
  then show ?thesis using row by (auto simp: wallet_holds_def old_row_entry_def toy_wallet_def)
qed

lemma toy_fetch_indy_key:
  "fetch_indy_key toy_migration_env toy_migration toy_wallet =
    Ok (toy_indy_key, \<lparr>uk_master = Some (as_bytes (replicate 32 (CHR ''k''))), uk_key_ref = RefRawKey\<rparr>)"
  by (simp add: fetch_indy_key_def toy_migration_env_def toy_migration_def toy_wallet_def indy_salt_def to_store_key_reference_def
      store_key_reference_resolve_def pass_key_is_empty_def pass_key_deref_def parse_raw_store_key_def toy_env_def unwrap_data_def
      toy_seal_def slice_def vec_remove_def chacha20_decrypt_in_place_def aead_decrypt_with_def resized_shrink
      aead_key_from_secret_bytes_def)

lemma toy_can_encrypt: "can_encrypt (profile_encryptor toy_cbor_env toy_profile_key) (replicate 12 2) toy_item"
proof -
  have se: "\<exists>e. encrypt_searchable toy_cbor_env m k hk = Ok e" for m k hk
    using toy_encrypt_searchable [of m k hk]
    by (simp add: toy_cbor_env_def encrypt_searchable_def encrypt_with_nonce_def)
  have "\<exists>e. profile_encrypt toy_cbor_env (replicate 12 2) m k = Ok e" for m k
    by (simp add: toy_cbor_env_def toy_profile_env_def profile_encrypt_def encrypt_with_nonce_def chacha20_encrypt_in_place_def vec_insert_def)
  moreover have "derive_value_key toy_cbor_env toy_profile_key c n = Ok (replicate 32 1)" for c n
    by (simp add: toy_cbor_env_def derive_value_key_def toy_profile_env_def from_key_derivation_def hmac_derive_key_bytes_def)
  moreover obtain a b where "encrypt_tag_name toy_cbor_env toy_profile_key (as_bytes ''t'') = Ok a"
      "encrypt_tag_value toy_cbor_env toy_profile_key (as_bytes ''v'') = Ok b"
    using se by (metis encrypt_tag_name_def encrypt_tag_value_def)
  ultimately show ?thesis
    using se by (auto simp: can_encrypt_def profile_encryptor_def toy_item_def result_simps)
qed

theorem migrate_moves_every_item_witness:
  "\<exists>db be. migrate toy_migration_env toy_migration toy_profile_key (replicate 12 4) (\<lambda>_. replicate 12 2)
      \<lparr>old_tables = Some toy_wallet, store_tables = None\<rparr> = (Ok (), \<lparr>old_tables = None, store_tables = Some db\<rparr>) \<and>
    sqlite_fetch (toy_sqlite_env\<lparr>se_profile := toy_cbor_env\<rparr>) 0 (Ok (1, toy_profile_key)) Item ''c'' ''n'' db = Ok (Some toy_item) \<and>
    open_db toy_env toy_cbor_env None (Some (replicate 32 (CHR ''k''))) None db = Ok be"
proof -
  have enc: "\<exists>enc. encode_profile_key toy_env toy_cbor_env (replicate 12 4) toy_profile_key (Some (as_bytes (replicate 32 (CHR ''k'')))) = Ok enc"
    by (simp add: encode_profile_key_def profile_key_to_bytes_def toy_cbor_env_def toy_profile_env_def wrap_data_def toy_env_def
        chacha20_encrypt_in_place_def vec_insert_def)
  have so: "\<exists>opts so. options_parse_uri (env_codec toy_env) ''w'' = Ok opts \<and> sqlite_options_new (me_driver toy_migration_env) opts = Ok so"
    by (simp add: options_parse_uri_def toy_env_def toy_codec_def parse_user_host_def parse_host_path_def unwrap_or_empty_def
        sqlite_options_new_def parsed_param_def take_param_def toy_migration_env_def default_max_connections_def)
  have env: "sqlite_env_correct (toy_sqlite_env\<lparr>se_profile := toy_cbor_env\<rparr>)"
    using toy_sqlite_env_correct by (simp add: sqlite_env_correct_def toy_sqlite_env_def toy_cbor_env_def)
  obtain enc opts so where o: "encode_profile_key toy_env toy_cbor_env (replicate 12 4) toy_profile_key (Some (as_bytes (replicate 32 (CHR ''k'')))) = Ok enc"
    "options_parse_uri (env_codec toy_env) ''w'' = Ok opts" "sqlite_options_new (me_driver toy_migration_env) opts = Ok so"
    using enc so by blast
  have M: "me_store toy_migration_env = toy_env" "me_profile toy_migration_env = toy_cbor_env" "me_hex toy_migration_env = toy_hex_codec"
    "mi_spec_uri toy_migration = ''w''" "mi_wallet_key toy_migration = replicate 32 (CHR ''k'')"
    by (simp_all add: toy_migration_env_def toy_migration_def)
  have cor: "aead_correct (env_cipher toy_env)" "aead_correct (pe_cipher toy_cbor_env)" "pe_from_cbor toy_cbor_env b = Some toy_profile_key" for b
    by (simp_all add: toy_env_def toy_cbor_env_def toy_profile_env_def)
  let ?f = "\<lparr>old_tables = Some toy_wallet, store_tables = None\<rparr>"
  note mig = migrate_moves_every_item [of toy_migration_env toy_profile_key ?f toy_wallet toy_migration toy_indy_key _ "[toy_item]"
      "\<lambda>_. replicate 12 2" "replicate 12 4" enc opts so, unfolded M]
  obtain db be where "migrate toy_migration_env toy_migration toy_profile_key (replicate 12 4) (\<lambda>_. replicate 12 2) ?f =
      (Ok (), \<lparr>old_tables = None, store_tables = Some db\<rparr>)"
    and "open_db toy_env toy_cbor_env None (Some (replicate 32 (CHR ''k''))) None db = Ok be"
    and f: "\<forall>env now. sqlite_env_correct env \<and> se_profile env = toy_cbor_env \<longrightarrow>
       (\<forall>e \<in> set [toy_item]. sqlite_fetch env now (Ok (1, toy_profile_key)) Item (entry_category e) (entry_name e) db = Ok (Some e))"
    using mig [OF cor(1,2) _ _ _ toy_fetch_indy_key toy_wallet_holds] cor(3) toy_can_encrypt o by auto
  moreover have "sqlite_fetch (toy_sqlite_env\<lparr>se_profile := toy_cbor_env\<rparr>) 0 (Ok (1, toy_profile_key)) Item ''c'' ''n'' db = Ok (Some toy_item)"
    using f env by (simp add: toy_item_def)
  ultimately show ?thesis by blast
qed

section \<open>Interrupted migrations\<close>

text \<open>
  A database is migrated at most once, whatever the outcome: a second migration after any first
  one is refused with an error of the backend and changes nothing. In particular a migration that failed
  half way, with some items moved and the others still in the old table, cannot be taken up again.
\<close>

theorem migrate_only_once:
  "\<exists>e. migrate M' m' new_key' nonce' draw' (snd (migrate M m new_key nonce draw f)) = (Err e, snd (migrate M m new_key nonce draw f)) \<and>
    err_kind e = storage_kind.Backend"
proof -
  have again: "\<exists>e. migrate M' m' new_key' nonce' draw' g = (Err e, g) \<and> err_kind e = storage_kind.Backend"
    if "old_tables g = None \<or> store_tables g \<noteq> None" for g
    using that by (auto simp: migrate_def is_migrated_def pre_upgrade_def sqlx_error_def)
  have up: "old_tables (snd (upgrade M m new_key nonce draw w db)) = None \<or> store_tables (snd (upgrade M m new_key nonce draw w db)) \<noteq> None" for w db
    by (auto simp: upgrade_def finish_upgrade_def result_simps split: result.splits prod.splits)
  show ?thesis
  proof (cases "old_tables f = None \<or> store_tables f \<noteq> None")
    case True
    then have "snd (migrate M m new_key nonce draw f) = f"
      by (auto simp: migrate_def is_migrated_def pre_upgrade_def sqlx_error_def)
    then show ?thesis using again [OF True] by simp
  next
    case False
    then have "snd (migrate M m new_key nonce draw f) = snd (upgrade M m new_key nonce draw (the (old_tables f)) empty_store_tables)"
      by (auto simp: migrate_def is_migrated_def pre_upgrade_def split: prod.splits result.splits)
    then show ?thesis using again [OF up] by simp
  qed
qed

text \<open>An item without a value is moved to a row whose value no profile key can decrypt.\<close>

lemma missing_value_unreadable:
  assumes "it_value item = None" "update_indy_item X nonce item = Ok upd" "0 < aead_nonce_size (pe_cipher P)"
  shows "up_value upd = [] \<and> ed_value (profile_encryptor P k) c n (up_value upd) \<noteq> Ok v"
  using assms by (auto simp: update_indy_item_def result_simps profile_encryptor_def profile_decrypt_def Let_def)

end
