(* ===== verification/Ffi_Store.thy ===== *)
theory Ffi_Store
  imports Ffi_Machine Migration
begin

text \<open>
  The calls of the C interface on stores, scans and sessions (\<open>src/ffi/store.rs\<close>) and the migration of a wallet
  (\<open>src/ffi/migration.rs\<close>). A call reads its arguments, returns an error for those it does not accept, and spawns its
  task otherwise. An argument that is a C string is \<open>None\<close> for a null pointer; the callback is its id, or \<open>None\<close> when it is
  null. The main result: what a call on a session reports is the result of the operation of the session
  on the arguments given, also when calls on other sessions run at the same time.
\<close>

section \<open>Arguments\<close>

text \<open>
  What the calls need besides their arguments: the backends, the codecs of stored keys and thumbprints, the reader of JSON
  text, the clock and the random generator, and the access to the wallets to be migrated. \<open>fe_now w k\<close> is the time
  that an operation reads first, second and so on.
\<close>

record ('j, 'l, 'm, 'w) ffi_env =
  fe_backends :: "('j, 'l, 'm, 'w backend_ops, 'w) backends"
  fe_codec :: params_codec
  fe_b64 :: base64
  fe_sha256 :: "bytes \<Rightarrow> bytes"
  fe_json :: "string \<Rightarrow> json option"
  fe_members :: "string \<Rightarrow> json_members option"
  fe_now :: "'w \<Rightarrow> nat \<Rightarrow> int"
  fe_nonce :: "'w \<Rightarrow> bytes"
  fe_draw :: "'w \<Rightarrow> string \<Rightarrow> nat \<Rightarrow> int \<times> bytes"
  fe_migration :: "('j, 'l, 'm) migration_env"
  fe_wallet :: "string \<Rightarrow> 'w \<Rightarrow> wallet_db storage_result"
  fe_put_wallet :: "string \<Rightarrow> wallet_db \<Rightarrow> 'w \<Rightarrow> 'w"
  fe_migration_draw :: "'w \<Rightarrow> ProfileKey \<times> bytes \<times> (nat \<Rightarrow> bytes)"

type_synonym callback_arg = "int option"

definition need :: "'a option \<Rightarrow> string \<Rightarrow> 'a askar_result" where
  "need arg msg = ok_or arg (err_msg askar_kind.Input msg)"

abbreviation need_callback :: "callback_arg \<Rightarrow> int askar_result" where
  "need_callback cb \<equiv> need cb ''No callback provided''"

definition key_method_arg :: "string option \<Rightarrow> StoreKeyMethod option askar_result" where
  "key_method_arg arg =
     (case arg of None \<Rightarrow> Ok None | Some method \<Rightarrow> res_map Some (lift_storage (store_key_method_parse_uri method)))"

definition filter_arg :: "('j, 'l, 'm, 'w) ffi_env \<Rightarrow> string option \<Rightarrow> TagFilter option askar_result" where
  "filter_arg E arg =
     (case arg of
        None \<Rightarrow> Ok None
      | Some text \<Rightarrow>
          (case fe_json E text of
             None \<Rightarrow> Err (askar_error_of_storage (err_msg storage_kind.Input ''Error parsing tag query''))
           | Some v \<Rightarrow> res_map Some (lift_storage (filter_from_json v))))"

definition tags_arg :: "('j, 'l, 'm, 'w) ffi_env \<Rightarrow> string option \<Rightarrow> EntryTag list option askar_result" where
  "tags_arg E arg = (case arg of None \<Rightarrow> Ok None | Some text \<Rightarrow> res_map Some (tags_from_json (fe_members E text)))"

definition non_negative :: "int \<Rightarrow> int option" where
  "non_negative n = (if n < 0 then None else Some n)"

text \<open>
  \<open>order_by\<close>: the only order is by id, in any case of letters; the outer \<open>None\<close> is an order that is not supported. No letter
  outside of ASCII becomes one of \<open>id\<close> in lower case.
\<close>

definition order_by_arg :: "string option \<Rightarrow> OrderBy option option" where
  "order_by_arg arg =
     (case arg of None \<Rightarrow> Some None | Some s \<Rightarrow> if map ascii_lower s = ''id'' then Some (Some Id) else None)"

definition update_operation :: "int \<Rightarrow> EntryOperation askar_result" where
  "update_operation operation =
     (if operation = 0 then Ok Insert
      else if operation = 1 then Ok Replace
      else if operation = 2 then Ok Remove
      else Err (err_msg askar_kind.Input ''Invalid update operation''))"

text \<open>The call itself: \<open>catch_err!\<close> around the checks, then \<open>spawn_ok\<close>.\<close>

definition ffi_call :: "'w task askar_result \<Rightarrow> 'w ffi_state \<Rightarrow> ErrorCode \<times> 'w ffi_state" where
  "ffi_call r s =
     (case catch_err (fs_last_error s) r of
        (code, Some t, lerr) \<Rightarrow> (code, spawn t (s\<lparr>fs_last_error := lerr\<rparr>))
      | (code, None, lerr) \<Rightarrow> (code, s\<lparr>fs_last_error := lerr\<rparr>))"

definition task_of :: "'w task_state \<Rightarrow> int \<Rightarrow> cb_value \<Rightarrow> 'w task askar_result" where
  "task_of st cb_id bad = Ok \<lparr>tk_state = st, tk_cb = Some (cb_id, bad)\<rparr>"

text \<open>An operation that only reads, and one that changes the world.\<close>

abbreviation reading :: "('a \<Rightarrow> 'w reply) \<Rightarrow> ('w \<Rightarrow> 'a askar_result) \<Rightarrow> 'w \<Rightarrow> 'w reply askar_result \<times> 'w" where
  "reading reply f w \<equiv> (res_map reply (f w), w)"

abbreviation changing :: "('a \<Rightarrow> 'w reply) \<Rightarrow> ('w \<Rightarrow> 'a askar_result \<times> 'w) \<Rightarrow> 'w \<Rightarrow> 'w reply askar_result \<times> 'w" where
  "changing reply f w \<equiv> map_prod (res_map reply) id (f w)"

section \<open>Stores\<close>

text \<open>The result is written to a pointer that is not checked.\<close>

definition askar_store_generate_raw_key :: "store_key_env \<Rightarrow> (bytes \<Rightarrow> bytes) \<Rightarrow> bytes \<Rightarrow> bytes \<Rightarrow> bool \<Rightarrow> last_error \<Rightarrow> string ffi_read" where
  "askar_store_generate_raw_key E random_det rnd seed out_null lerr =
     (if out_null then None
      else Some (catch_err lerr
        (res_bind (store_new_raw_key E random_det rnd (if seed = [] then None else Some seed)) (\<lambda>key. c_string (pass_key_deref key)))))"

definition askar_store_provision :: "('j, 'l, 'm, 'w) ffi_env \<Rightarrow> string option \<Rightarrow> string option \<Rightarrow> string option \<Rightarrow> string option \<Rightarrow> int
    \<Rightarrow> callback_arg \<Rightarrow> 'w ffi_state \<Rightarrow> ErrorCode \<times> 'w ffi_state" where
  "askar_store_provision E spec_uri key_method pass_key profile recreate cb =
     ffi_call (
       res_bind (need_callback cb) (\<lambda>cb.
       res_bind (need spec_uri ''No provision spec URI provided'') (\<lambda>spec_uri.
       res_bind (key_method_arg key_method) (\<lambda>key_method.
       task_of (RunPlain (changing ReplyStore (store_provision (fe_backends E) spec_uri (opt_or key_method default_method)
         pass_key profile (recreate \<noteq> 0)))) cb (CbHandle 0)))))"

definition askar_store_open :: "('j, 'l, 'm, 'w) ffi_env \<Rightarrow> string option \<Rightarrow> string option \<Rightarrow> string option \<Rightarrow> string option
    \<Rightarrow> callback_arg \<Rightarrow> 'w ffi_state \<Rightarrow> ErrorCode \<times> 'w ffi_state" where
  "askar_store_open E spec_uri key_method pass_key profile cb =
     ffi_call (
       res_bind (need_callback cb) (\<lambda>cb.
       res_bind (need spec_uri ''No store URI provided'') (\<lambda>spec_uri.
       res_bind (key_method_arg key_method) (\<lambda>key_method.
       task_of (RunPlain (changing ReplyStore (store_open (fe_backends E) spec_uri key_method pass_key profile))) cb (CbHandle 0)))))"

definition askar_store_remove :: "('j, 'l, 'm, 'w) ffi_env \<Rightarrow> string option \<Rightarrow> callback_arg \<Rightarrow> 'w ffi_state \<Rightarrow> ErrorCode \<times> 'w ffi_state" where
  "askar_store_remove E spec_uri cb =
     ffi_call (
       res_bind (need_callback cb) (\<lambda>cb.
       res_bind (need spec_uri ''No store URI provided'') (\<lambda>spec_uri.
       task_of (RunPlain (changing ReplyBool (store_remove (fe_backends E) spec_uri))) cb (CbBool False))))"

definition askar_store_create_profile :: "nat \<Rightarrow> string option \<Rightarrow> callback_arg \<Rightarrow> 'w ffi_state \<Rightarrow> ErrorCode \<times> 'w ffi_state" where
  "askar_store_create_profile handle profile cb =
     ffi_call (
       res_bind (need_callback cb) (\<lambda>cb.
       task_of (LoadStore handle (\<lambda>store. changing ReplyName (store_create_profile store profile))) cb (CbString None)))"

definition askar_store_get_profile_name :: "nat \<Rightarrow> callback_arg \<Rightarrow> 'w ffi_state \<Rightarrow> ErrorCode \<times> 'w ffi_state" where
  "askar_store_get_profile_name handle cb =
     ffi_call (
       res_bind (need_callback cb) (\<lambda>cb.
       task_of (LoadStore handle (\<lambda>store. reading ReplyName (\<lambda>w. Ok (store_get_active_profile store w)))) cb (CbString None)))"

definition askar_store_list_profiles :: "nat \<Rightarrow> callback_arg \<Rightarrow> 'w ffi_state \<Rightarrow> ErrorCode \<times> 'w ffi_state" where
  "askar_store_list_profiles handle cb =
     ffi_call (
       res_bind (need_callback cb) (\<lambda>cb.
       task_of (LoadStore handle (\<lambda>store. reading ReplyStrings (store_list_profiles store))) cb (CbList invalid_handle)))"

definition askar_store_remove_profile :: "nat \<Rightarrow> string option \<Rightarrow> callback_arg \<Rightarrow> 'w ffi_state \<Rightarrow> ErrorCode \<times> 'w ffi_state" where
  "askar_store_remove_profile handle profile cb =
     ffi_call (
       res_bind (need_callback cb) (\<lambda>cb.
       res_bind (need profile ''Profile name not provided'') (\<lambda>profile.
       task_of (LoadStore handle (\<lambda>store. changing ReplyBool (store_remove_profile store profile))) cb (CbBool False))))"

definition askar_store_get_default_profile :: "nat \<Rightarrow> callback_arg \<Rightarrow> 'w ffi_state \<Rightarrow> ErrorCode \<times> 'w ffi_state" where
  "askar_store_get_default_profile handle cb =
     ffi_call (
       res_bind (need_callback cb) (\<lambda>cb.
       task_of (LoadStore handle (\<lambda>store. reading ReplyName (store_get_default_profile store))) cb (CbString None)))"

definition askar_store_set_default_profile :: "nat \<Rightarrow> string option \<Rightarrow> callback_arg \<Rightarrow> 'w ffi_state \<Rightarrow> ErrorCode \<times> 'w ffi_state" where
  "askar_store_set_default_profile handle profile cb =
     ffi_call (
       res_bind (need_callback cb) (\<lambda>cb.
       res_bind (need profile ''Profile name not provided'') (\<lambda>profile.
       task_of (LoadStore handle (\<lambda>store. changing (\<lambda>_. ReplyUnit) (store_set_default_profile store profile))) cb CbNone)))"

definition askar_store_rekey :: "nat \<Rightarrow> string option \<Rightarrow> string option \<Rightarrow> callback_arg \<Rightarrow> 'w ffi_state \<Rightarrow> ErrorCode \<times> 'w ffi_state" where
  "askar_store_rekey handle key_method pass_key cb =
     ffi_call (
       res_bind (need_callback cb) (\<lambda>cb.
       res_bind (key_method_arg key_method) (\<lambda>key_method.
       task_of (TakeStore handle (opt_or key_method default_method) pass_key) cb CbNone)))"

text \<open>
  \<open>Store::copy_to\<close> where source and target are in the same world. \<open>copy_profile\<close> imports each profile in a transaction, which an
  error rolls back.
\<close>

definition copy_profile_within :: "('j, 'l, 'm, 'w) ffi_env \<Rightarrow> 'w backend_ops \<Rightarrow> 'w backend_ops \<Rightarrow> string \<Rightarrow> 'w \<Rightarrow> unit storage_result \<times> 'w" where
  "copy_profile_within E A B profile w =
     (case bk_scan A (fe_now E w 0) (Some profile) None None None None None None False w of
        (Ok scan, w) \<Rightarrow>
          (let (created, w) = bk_create_profile B (Some profile) w in
           (case ignore_duplicate created of
              Ok _ \<Rightarrow>
                (case bk_session B (Some profile) True w of
                   (Ok txn, w) \<Rightarrow> copy_into (fe_now E w 0) (fe_draw E w profile) txn scan w
                 | (Err e, w) \<Rightarrow> (Err e, w)
                 | (Panic, w) \<Rightarrow> (Panic, w))
            | Err e \<Rightarrow> (Err e, w)
            | Panic \<Rightarrow> (Panic, w)))
      | (Err e, w) \<Rightarrow> (Err e, w)
      | (Panic, w) \<Rightarrow> (Panic, w))"

fun copy_profiles_within :: "('j, 'l, 'm, 'w) ffi_env \<Rightarrow> 'w backend_ops \<Rightarrow> 'w backend_ops \<Rightarrow> string list \<Rightarrow> 'w \<Rightarrow> unit storage_result \<times> 'w" where
  "copy_profiles_within E A B [] w = (Ok (), w)"
| "copy_profiles_within E A B (profile # rest) w =
     (case copy_profile_within E A B profile w of
        (Ok _, w) \<Rightarrow> copy_profiles_within E A B rest w
      | (r, w) \<Rightarrow> (r, w))"

definition store_copy_within :: "('j, 'l, 'm, 'w) ffi_env \<Rightarrow> string \<Rightarrow> StoreKeyMethod \<Rightarrow> PassKey \<Rightarrow> bool \<Rightarrow> 'w backend_ops \<Rightarrow> 'w
    \<Rightarrow> 'w backend_ops askar_result \<times> 'w" where
  "store_copy_within E target_url key_method pass_key recreate store w =
     (case res_bind (store_get_default_profile store w) (\<lambda>default_profile.
           res_map (Pair default_profile) (store_list_profiles store w)) of
        Ok (default_profile, profile_ids) \<Rightarrow>
          (case lift_storage_state (provision_backend (fe_backends E) target_url key_method pass_key (Some default_profile) recreate w) of
             (Ok target, w) \<Rightarrow>
               (case copy_profiles_within E store target profile_ids w of
                  (Ok _, w) \<Rightarrow> (Ok target, w)
                | (Err e, w) \<Rightarrow> (Err (askar_error_of_storage e), w)
                | (Panic, w) \<Rightarrow> (Panic, w))
           | (Err e, w) \<Rightarrow> (Err e, w)
           | (Panic, w) \<Rightarrow> (Panic, w))
      | Err e \<Rightarrow> (Err e, w)
      | Panic \<Rightarrow> (Panic, w))"

definition askar_store_copy :: "('j, 'l, 'm, 'w) ffi_env \<Rightarrow> nat \<Rightarrow> string option \<Rightarrow> string option \<Rightarrow> string option \<Rightarrow> int
    \<Rightarrow> callback_arg \<Rightarrow> 'w ffi_state \<Rightarrow> ErrorCode \<times> 'w ffi_state" where
  "askar_store_copy E handle target_uri key_method pass_key recreate cb =
     ffi_call (
       res_bind (need_callback cb) (\<lambda>cb.
       res_bind (need target_uri ''No target URI provided'') (\<lambda>target_uri.
       res_bind (key_method_arg key_method) (\<lambda>key_method.
       task_of (LoadStore handle (\<lambda>store. changing ReplyStore (store_copy_within E target_uri (opt_or key_method default_method)
         pass_key (recreate \<noteq> 0) store))) cb (CbHandle 0)))))"

text \<open>The callback of the calls that close may be missing.\<close>

definition askar_store_close :: "nat \<Rightarrow> callback_arg \<Rightarrow> 'w ffi_state \<Rightarrow> ErrorCode \<times> 'w ffi_state" where
  "askar_store_close handle cb =
     ffi_call (Ok \<lparr>tk_state = CloseStore handle, tk_cb = map_option (\<lambda>cb_id. (cb_id, CbNone)) cb\<rparr>)"

section \<open>Scans\<close>

text \<open>An order that is not supported is refused before anything else, without setting the last error.\<close>

definition askar_scan_start :: "('j, 'l, 'm, 'w) ffi_env \<Rightarrow> nat \<Rightarrow> string option \<Rightarrow> string option \<Rightarrow> string option \<Rightarrow> int \<Rightarrow> int
    \<Rightarrow> string option \<Rightarrow> int \<Rightarrow> callback_arg \<Rightarrow> 'w ffi_state \<Rightarrow> ErrorCode \<times> 'w ffi_state" where
  "askar_scan_start E handle profile category tag_filter offset limit order_by descending cb s =
     (case order_by_arg order_by of
        None \<Rightarrow> (Unsupported, s)
      | Some order_by \<Rightarrow>
          ffi_call (
            res_bind (need_callback cb) (\<lambda>cb.
            res_bind (filter_arg E tag_filter) (\<lambda>tag_filter.
            task_of (LoadStore handle (\<lambda>store w. changing (ReplyScan handle) (store_scan store (fe_now E w 0) profile category tag_filter
              (Some offset) (non_negative limit) order_by (descending \<noteq> 0)) w)) cb (CbHandle 0)))) s)"

definition askar_scan_next :: "nat \<Rightarrow> callback_arg \<Rightarrow> 'w ffi_state \<Rightarrow> ErrorCode \<times> 'w ffi_state" where
  "askar_scan_next handle cb =
     ffi_call (res_bind (need_callback cb) (\<lambda>cb. task_of (BorrowScan handle) cb (CbList invalid_handle)))"

definition askar_scan_free :: "nat \<Rightarrow> 'w ffi_state \<Rightarrow> ErrorCode \<times> 'w ffi_state" where
  "askar_scan_free handle = ffi_call (Ok \<lparr>tk_state = RemoveScan handle, tk_cb = None\<rparr>)"

section \<open>Sessions\<close>

definition askar_session_start :: "nat \<Rightarrow> string option \<Rightarrow> int \<Rightarrow> callback_arg \<Rightarrow> 'w ffi_state \<Rightarrow> ErrorCode \<times> 'w ffi_state" where
  "askar_session_start handle profile as_transaction cb =
     ffi_call (
       res_bind (need_callback cb) (\<lambda>cb.
       task_of (LoadStore handle (\<lambda>store. changing (ReplySession handle) (store_session store (as_transaction \<noteq> 0) profile))) cb (CbHandle 0)))"

definition askar_session_count :: "('j, 'l, 'm, 'w) ffi_env \<Rightarrow> nat \<Rightarrow> string option \<Rightarrow> string option \<Rightarrow> callback_arg \<Rightarrow> 'w ffi_state
    \<Rightarrow> ErrorCode \<times> 'w ffi_state" where
  "askar_session_count E handle category tag_filter cb =
     ffi_call (
       res_bind (need_callback cb) (\<lambda>cb.
       res_bind (filter_arg E tag_filter) (\<lambda>tag_filter.
       task_of (BorrowSession handle (\<lambda>session. reading (\<lambda>n. ReplyCount (int n)) (\<lambda>w. session_count session (fe_now E w 0) category tag_filter w)))
         cb (CbCount 0))))"

definition askar_session_fetch :: "('j, 'l, 'm, 'w) ffi_env \<Rightarrow> nat \<Rightarrow> string option \<Rightarrow> string option \<Rightarrow> int \<Rightarrow> callback_arg \<Rightarrow> 'w ffi_state
    \<Rightarrow> ErrorCode \<times> 'w ffi_state" where
  "askar_session_fetch E handle category name for_update cb =
     ffi_call (
       res_bind (need_callback cb) (\<lambda>cb.
       res_bind (need category ''Category not provided'') (\<lambda>category.
       res_bind (need name ''Name not provided'') (\<lambda>name.
       task_of (BorrowSession handle (\<lambda>session. reading ReplyEntry (\<lambda>w. session_fetch session (fe_now E w 0) category name (for_update \<noteq> 0) w)))
         cb (CbList invalid_handle)))))"

definition askar_session_fetch_all :: "('j, 'l, 'm, 'w) ffi_env \<Rightarrow> nat \<Rightarrow> string option \<Rightarrow> string option \<Rightarrow> int \<Rightarrow> string option \<Rightarrow> int \<Rightarrow> int
    \<Rightarrow> callback_arg \<Rightarrow> 'w ffi_state \<Rightarrow> ErrorCode \<times> 'w ffi_state" where
  "askar_session_fetch_all E handle category tag_filter limit order_by descending for_update cb s =
     (case order_by_arg order_by of
        None \<Rightarrow> (Unsupported, s)
      | Some order_by \<Rightarrow>
          ffi_call (
            res_bind (need_callback cb) (\<lambda>cb.
            res_bind (filter_arg E tag_filter) (\<lambda>tag_filter.
            task_of (BorrowSession handle (\<lambda>session. reading ReplyEntries (\<lambda>w. session_fetch_all session (fe_now E w 0) category tag_filter
              (non_negative limit) order_by (descending \<noteq> 0) (for_update \<noteq> 0) w))) cb (CbList invalid_handle)))) s)"

definition askar_session_remove_all :: "('j, 'l, 'm, 'w) ffi_env \<Rightarrow> nat \<Rightarrow> string option \<Rightarrow> string option \<Rightarrow> callback_arg \<Rightarrow> 'w ffi_state
    \<Rightarrow> ErrorCode \<times> 'w ffi_state" where
  "askar_session_remove_all E handle category tag_filter cb =
     ffi_call (
       res_bind (need_callback cb) (\<lambda>cb.
       res_bind (filter_arg E tag_filter) (\<lambda>tag_filter.
       task_of (BorrowSession handle (\<lambda>session. changing (\<lambda>n. ReplyCount (int n)) (session_remove_all session category tag_filter)))
         cb (CbCount 0))))"

definition askar_session_update :: "('j, 'l, 'm, 'w) ffi_env \<Rightarrow> nat \<Rightarrow> int \<Rightarrow> string option \<Rightarrow> string option \<Rightarrow> bytes \<Rightarrow> string option \<Rightarrow> int
    \<Rightarrow> callback_arg \<Rightarrow> 'w ffi_state \<Rightarrow> ErrorCode \<times> 'w ffi_state" where
  "askar_session_update E handle operation category name value tags expiry_ms cb =
     ffi_call (
       res_bind (need_callback cb) (\<lambda>cb.
       res_bind (update_operation operation) (\<lambda>operation.
       res_bind (need category ''Entry category not provided'') (\<lambda>category.
       res_bind (need name ''Entry name not provided'') (\<lambda>name.
       res_bind (tags_arg E tags) (\<lambda>tags.
       task_of (BorrowSession handle (\<lambda>session w. changing (\<lambda>_. ReplyUnit) (session_update session (fe_now E w 0) (fe_nonce E w) operation
         category name (Some value) tags (non_negative expiry_ms)) w)) cb CbNone))))))"

section \<open>Keys in sessions\<close>

text \<open>\<open>keys\<close> are the keys behind handles; using the handle of a freed key has no defined behaviour, which is the outer \<open>None\<close>.\<close>

definition askar_session_insert_key :: "('j, 'l, 'm, 'w) ffi_env \<Rightarrow> LocalKey arc_heap \<Rightarrow> nat \<Rightarrow> nat \<Rightarrow> string option \<Rightarrow> string option \<Rightarrow> string option \<Rightarrow> int
    \<Rightarrow> callback_arg \<Rightarrow> 'w ffi_state \<Rightarrow> (ErrorCode \<times> 'w ffi_state) option" where
  "askar_session_insert_key E keys handle key_handle name key_metadata tags expiry_ms cb s =
     (case need_callback cb of
        Ok cb \<Rightarrow>
          map_option (\<lambda>key. ffi_call (
            res_bind key (\<lambda>key.
            res_bind (need name ''No key name provided'') (\<lambda>name.
            res_bind (tags_arg E tags) (\<lambda>tags.
            let reference = (if is_hardware_backed key then Some MobileSecureElement else None) in
            task_of (BorrowSession handle (\<lambda>session w. changing (\<lambda>_. ReplyUnit) (insert_key session (fe_codec E) (fe_b64 E) (fe_sha256 E)
              (fe_now E w 0) (fe_nonce E w) name key key_metadata reference tags (non_negative expiry_ms)) w)) cb CbNone)))) s)
            (arc_value key_handle keys)
      | Err e \<Rightarrow> Some (ffi_call (Err e) s)
      | Panic \<Rightarrow> Some (ffi_call Panic s))"

definition askar_session_fetch_key :: "('j, 'l, 'm, 'w) ffi_env \<Rightarrow> nat \<Rightarrow> string option \<Rightarrow> int \<Rightarrow> callback_arg \<Rightarrow> 'w ffi_state
    \<Rightarrow> ErrorCode \<times> 'w ffi_state" where
  "askar_session_fetch_key E handle name for_update cb =
     ffi_call (
       res_bind (need_callback cb) (\<lambda>cb.
       res_bind (need name ''No key name provided'') (\<lambda>name.
       task_of (BorrowSession handle (\<lambda>session. reading ReplyKey (\<lambda>w. fetch_key session (fe_codec E) (fe_now E w 0) name (for_update \<noteq> 0) w)))
         cb (CbList invalid_handle))))"

definition askar_session_fetch_all_keys :: "('j, 'l, 'm, 'w) ffi_env \<Rightarrow> nat \<Rightarrow> string option \<Rightarrow> string option \<Rightarrow> string option \<Rightarrow> int \<Rightarrow> int
    \<Rightarrow> callback_arg \<Rightarrow> 'w ffi_state \<Rightarrow> ErrorCode \<times> 'w ffi_state" where
  "askar_session_fetch_all_keys E handle alg thumbprint tag_filter limit for_update cb =
     ffi_call (
       res_bind (need_callback cb) (\<lambda>cb.
       res_bind (filter_arg E tag_filter) (\<lambda>tag_filter.
       task_of (BorrowSession handle (\<lambda>session. reading ReplyKeys (\<lambda>w. fetch_all_keys session (fe_codec E) (fe_now E w 0) alg thumbprint tag_filter
         (non_negative limit) (for_update \<noteq> 0) w))) cb (CbList invalid_handle))))"

definition askar_session_update_key :: "('j, 'l, 'm, 'w) ffi_env \<Rightarrow> nat \<Rightarrow> string option \<Rightarrow> string option \<Rightarrow> string option \<Rightarrow> int
    \<Rightarrow> callback_arg \<Rightarrow> 'w ffi_state \<Rightarrow> ErrorCode \<times> 'w ffi_state" where
  "askar_session_update_key E handle name key_metadata tags expiry_ms cb =
     ffi_call (
       res_bind (need_callback cb) (\<lambda>cb.
       res_bind (need name ''No key name provided'') (\<lambda>name.
       res_bind (tags_arg E tags) (\<lambda>tags.
       task_of (BorrowSession handle (\<lambda>session w. changing (\<lambda>_. ReplyUnit) (update_key session (fe_codec E) (fe_now E w 0) (fe_now E w 1) (fe_nonce E w)
         name key_metadata tags (non_negative expiry_ms)) w)) cb CbNone))))"

definition askar_session_remove_key :: "('j, 'l, 'm, 'w) ffi_env \<Rightarrow> nat \<Rightarrow> string option \<Rightarrow> callback_arg \<Rightarrow> 'w ffi_state \<Rightarrow> ErrorCode \<times> 'w ffi_state" where
  "askar_session_remove_key E handle name cb =
     ffi_call (
       res_bind (need_callback cb) (\<lambda>cb.
       res_bind (need name ''No key name provided'') (\<lambda>name.
       task_of (BorrowSession handle (\<lambda>session w. changing (\<lambda>_. ReplyUnit) (remove_key session (fe_now E w 0) (fe_nonce E w) name) w)) cb CbNone)))"

definition askar_session_close :: "nat \<Rightarrow> int \<Rightarrow> callback_arg \<Rightarrow> 'w ffi_state \<Rightarrow> ErrorCode \<times> 'w ffi_state" where
  "askar_session_close handle commit cb =
     ffi_call (Ok \<lparr>tk_state = RemoveSession handle (commit \<noteq> 0), tk_cb = map_option (\<lambda>cb_id. (cb_id, CbNone)) cb\<rparr>)"

section \<open>Migration\<close>

definition migrate_wallet :: "('j, 'l, 'm, 'w) ffi_env \<Rightarrow> string \<Rightarrow> string \<Rightarrow> string \<Rightarrow> string \<Rightarrow> 'w \<Rightarrow> unit askar_result \<times> 'w" where
  "migrate_wallet E spec_uri wallet_name wallet_key kdf_level w =
     (case res_bind (migration_connect spec_uri wallet_name wallet_key kdf_level) (\<lambda>m. res_map (Pair m) (fe_wallet E spec_uri w)) of
        Ok (m, f) \<Rightarrow>
          (let (new_key, nonce, draw) = fe_migration_draw E w; (r, f) = migrate (fe_migration E) m new_key nonce draw f
           in (lift_storage r, fe_put_wallet E spec_uri f w))
      | Err e \<Rightarrow> (Err (askar_error_of_storage e), w)
      | Panic \<Rightarrow> (Panic, w))"

definition askar_migrate_indy_sdk :: "('j, 'l, 'm, 'w) ffi_env \<Rightarrow> string option \<Rightarrow> string option \<Rightarrow> string option \<Rightarrow> string option
    \<Rightarrow> callback_arg \<Rightarrow> 'w ffi_state \<Rightarrow> ErrorCode \<times> 'w ffi_state" where
  "askar_migrate_indy_sdk E spec_uri wallet_name wallet_key kdf_level cb =
     ffi_call (
       res_bind (need_callback cb) (\<lambda>cb.
       res_bind (need spec_uri ''No provision spec URI provided'') (\<lambda>spec_uri.
       res_bind (need wallet_name ''No wallet name provided'') (\<lambda>wallet_name.
       res_bind (need wallet_key ''No wallet key provided'') (\<lambda>wallet_key.
       res_bind (need kdf_level ''No KDF level provided'') (\<lambda>kdf_level.
       task_of (RunPlain (changing (\<lambda>_. ReplyUnit) (migrate_wallet E spec_uri wallet_name wallet_key kdf_level))) cb CbNone))))))"

section \<open>Calls that are refused\<close>

lemma ffi_call_cases:
  "ffi_call (Ok t) s = (Success, spawn t s)"
  "ffi_call (Err e) s = (error_code_of_kind (err_kind e), s\<lparr>fs_last_error := Some e\<rparr>)"
  "ffi_call Panic s = (Unexpected, s\<lparr>fs_last_error := Some panic_error\<rparr>)"
  by (simp_all add: ffi_call_def catch_err_def set_last_error_def panic_error_def)

lemma error_code_not_Success: "error_code_of_kind k \<noteq> Success"
  by (cases k) simp_all

text \<open>
  A call that does not return \<open>Success\<close> has no effect but to set the last error, whose code it returns; then its callback is not
  called. A call that returns \<open>Success\<close> has spawned one task.
\<close>

lemma ffi_call_effect:
  assumes "ffi_call r s = (code, s')"
  shows "code = Success \<and> (\<exists>t. r = Ok t \<and> s' = spawn t s) \<or>
    code \<noteq> Success \<and> (\<exists>e. s' = s\<lparr>fs_last_error := Some e\<rparr> \<and> code = error_code_of_kind (err_kind e))"
proof (cases r)
  case Panic
  then show ?thesis using assms by (auto simp: ffi_call_cases panic_error_def)
qed (use assms error_code_not_Success in \<open>auto simp: ffi_call_cases\<close>)

text \<open>The calls with an order refuse an unknown one without an error that the client could read.\<close>

lemma unsupported_order_silent:
  assumes "order_by_arg order_by = None"
  shows "askar_scan_start E handle profile category tag_filter offset limit order_by descending cb s = (Unsupported, s)"
    "askar_session_fetch_all E handle category tag_filter limit order_by descending for_update cb s = (Unsupported, s)"
  using assms by (simp_all add: askar_scan_start_def askar_session_fetch_all_def)

section \<open>A call on a session\<close>

text \<open>Both steps of the task that was spawned last, when it does not have to wait for its session.\<close>

definition complete :: "'w connections \<Rightarrow> nat \<Rightarrow> 'w ffi_state \<Rightarrow> 'w ffi_state option" where
  "complete dr addr s =
     (let i = length (fs_tasks s) - 1 in
      (case task_step dr addr i s of None \<Rightarrow> None | Some s \<Rightarrow> task_step dr addr i s))"

definition registered :: "nat \<Rightarrow> 'w session_ops \<Rightarrow> 'w ffi_state \<Rightarrow> bool" where
  "registered h session s \<longleftrightarrow> (\<exists>sh. map_of (rm_map (fs_sessions s)) h = Some (sh, session)) \<and> h \<notin> rm_locked (fs_sessions s) \<and> bt_wf (rm_map (fs_sessions s))"

lemma bt_insert_same: "bt_wf m \<Longrightarrow> map_of m k = Some v \<Longrightarrow> bt_insert k v m = m"
proof (induction k v m rule: bt_insert.induct)
  case (2 k v l w m)
  then have "bt_wf m" "\<forall>x \<in> bt_keys m. l < x" by (auto simp: bt_wf_def bt_keys_def)
  with 2 show ?case by (auto dest!: map_of_keys(2) split: if_splits)
qed simp

text \<open>What the task of a call leaves: the task done, the world of the operation, the session unlocked again.\<close>

lemma session_call_completes:
  fixes s :: "'w ffi_state"
  assumes "registered h session s" "f session (fs_world s) = (r, w)"
  shows "complete dr addr (spawn \<lparr>tk_state = BorrowSession h f, tk_cb = Some cb\<rparr> s) =
    Some (finish addr (length (fs_tasks s)) r
      (s\<lparr>fs_tasks := fs_tasks s @ [\<lparr>tk_state = OnSession h session f, tk_cb = Some cb\<rparr>], fs_world := w\<rparr>))"
proof -
  obtain sh where sh: "map_of (rm_map (fs_sessions s)) h = Some (sh, session)" and l: "h \<notin> rm_locked (fs_sessions s)" and wf: "bt_wf (rm_map (fs_sessions s))"
    using assms(1) by (auto simp: registered_def)
  let ?m = "(fs_sessions s)\<lparr>rm_locked := insert h (rm_locked (fs_sessions s))\<rparr>"
  have "rm_borrow h (fs_sessions s) = Some (Ok session, ?m)" using sh l by (simp add: rm_borrow_def)
  moreover have "rm_release h session ?m = (False, fs_sessions s)" using sh l bt_insert_same [OF wf sh] by (simp add: rm_release_def)
  ultimately show ?thesis
    using assms(2) by (simp add: complete_def Let_def spawn_def task_step_def continue_def set_task_def nth_append)
qed

lemma finish_simps [simp]:
  "finish addr i (Ok ReplyUnit) s = resolve addr i (Ok ReplyUnit) s"
  "finish addr i (Ok (ReplyEntry e)) s = resolve addr i (Ok (ReplyEntry e)) s"
  "finish addr i (Err err) s = resolve addr i (Err err) s" "finish addr i Panic s = resolve addr i Panic s"
  by (simp_all add: finish_def registers_def)

lemma resolve_Ok:
  assumes "fs_tasks s ! i = \<lparr>tk_state = st, tk_cb = Some (c, bad)\<rparr>" "reply_value addr reply s = (Ok v, s')"
  shows "resolve addr i (Ok reply) s = set_task i Done (s'\<lparr>fs_log := fs_log s' @ [(i, c, Success, v)]\<rparr>)"
  using assms by (simp add: resolve_def)

lemma resolve_Err:
  assumes "fs_tasks s ! i = \<lparr>tk_state = st, tk_cb = Some (c, bad)\<rparr>"
  shows "resolve addr i (Err e) s =
    set_task i Done (s\<lparr>fs_last_error := Some e, fs_log := fs_log s @ [(i, c, error_code_of_kind (err_kind e), bad)]\<rparr>)"
  using assms by (simp add: resolve_def callback_error_def set_last_error_def)

text \<open>What a call on a session leaves that changes the store and returns nothing.\<close>

definition reported :: "int \<Rightarrow> unit askar_result \<Rightarrow> 'w \<Rightarrow> 'w ffi_state \<Rightarrow> 'w ffi_state" where
  "reported c r w s =
     (let code = (case r of Ok _ \<Rightarrow> Success | Err e \<Rightarrow> error_code_of_kind (err_kind e) | Panic \<Rightarrow> Unexpected);
          lerr = (case r of Ok _ \<Rightarrow> fs_last_error s | Err e \<Rightarrow> Some e | Panic \<Rightarrow> Some (err_of_kind askar_kind.Unexpected))
      in s\<lparr>fs_world := w, fs_last_error := lerr, fs_tasks := fs_tasks s @ [\<lparr>tk_state = Done, tk_cb = Some (c, CbNone)\<rparr>],
           fs_log := fs_log s @ [(length (fs_tasks s), c, code, CbNone)]\<rparr>)"

lemma unit_call_completes:
  assumes "registered h session s" "g session (fs_world s) = (r, w)"
  shows "complete dr addr (spawn \<lparr>tk_state = BorrowSession h (\<lambda>session w. changing (\<lambda>_. ReplyUnit) (g session) w), tk_cb = Some (c, CbNone)\<rparr> s) =
    Some (reported c r w s)"
proof -
  let ?f = "\<lambda>session w. changing (\<lambda>_. ReplyUnit) (g session) w"
  let ?s = "s\<lparr>fs_tasks := fs_tasks s @ [\<lparr>tk_state = OnSession h session ?f, tk_cb = Some (c, CbNone)\<rparr>], fs_world := w\<rparr>"
  have t: "fs_tasks ?s ! length (fs_tasks s) = \<lparr>tk_state = OnSession h session ?f, tk_cb = Some (c, CbNone)\<rparr>" by (simp add: nth_append)
  have "?f session (fs_world s) = (res_map (\<lambda>_. ReplyUnit) r, w)" using assms(2) by simp
  note c = session_call_completes [where f = ?f, OF assms(1) this, of dr addr "(c, CbNone)"]
  show ?thesis
  proof (cases r)
    case (Ok u)
    then show ?thesis using c resolve_Ok [OF t, of addr ReplyUnit CbNone ?s]
      by (simp add: reported_def set_task_def nth_append)
  next
    case (Err e)
    then show ?thesis using c resolve_Err [OF t, of addr e] by (simp add: reported_def set_task_def nth_append)
  next
    case Panic
    then show ?thesis using c
      by (simp add: resolve_def callback_error_def set_last_error_def reported_def set_task_def nth_append)
  qed
qed

lemma session_update_steps:
  assumes "registered h session s" "update_operation op = Ok operation" "tags_arg E tags = Ok ts"
    and "session_update session (fe_now E (fs_world s) 0) (fe_nonce E (fs_world s)) operation c n (Some v) ts (non_negative ms) (fs_world s) = (r, w)"
  shows "\<exists>s1. askar_session_update E h op (Some c) (Some n) v tags ms (Some cb) s = (Success, s1) \<and>
    complete dr addr s1 = Some (reported cb r w s) \<and> registered h session (reported cb r w s)"
proof -
  let ?g = "\<lambda>session w. session_update session (fe_now E w 0) (fe_nonce E w) operation c n (Some v) ts (non_negative ms) w"
  have "askar_session_update E h op (Some c) (Some n) v tags ms (Some cb) s =
      (Success, spawn \<lparr>tk_state = BorrowSession h (\<lambda>session w. changing (\<lambda>_. ReplyUnit) (?g session) w), tk_cb = Some (cb, CbNone)\<rparr> s)"
    using assms(2,3) by (simp add: askar_session_update_def need_def task_of_def ffi_call_cases)
  moreover have "registered h session (reported cb r w s)" using assms(1) by (simp add: registered_def reported_def Let_def)
  ultimately show ?thesis using unit_call_completes [where g = ?g, OF assms(1,4)] by blast
qed

section \<open>From the C interface to the database and back\<close>

text \<open>For every backend session that keeps its contract: a record that was written is what is fetched until it expires.\<close>

context session_contract
begin

lemma written_record_fetched:
  assumes "rel d st" "operation = Insert \<or> operation = Replace" "valid_entry (update_entry Item c n (Some v) tags)"
    and "expiry now ms = Ok x" "lives t x"
    and "session_update ops now nonce operation c n (Some v) tags ms d = (Ok (), d')"
  shows "session_fetch ops t c n for_update d' = Ok (Some (update_entry Item c n (Some v) tags))"
proof -
  let ?e = "update_entry Item c n (Some v) tags"
  have nr: "operation \<noteq> Remove" using assms(2) by auto
  have up: "bs_update ops now nonce Item operation c n (Some v) tags ms d = (Ok (), d')"
    using assms(6) by (cases "bs_update ops now nonce Item operation c n (Some v) tags ms d") (auto simp: session_update_def result_simps)
  from stored_law [OF up nr assms(3)] have st: "storable nonce ?e" by blast
  obtain r st' where sp: "spec_update operation (?e, x) st = (r, st')" by fastforce
  from update_law [OF assms(1) nr st assms(4) sp] up have r: "r = Ok ()" "rel d' st'" by auto
  have key: "entry_key ?e = (Item, c, n)" by (simp add: update_entry_def entry_key_def)
  have "addressed c n" using addressed_law [OF st] by (simp add: update_entry_def)
  moreover have "spec_fetch (lives t) (Item, c, n) st' = Some ?e"
    using assms(2,5) sp r(1) spec_fetch_insert [of "(?e, x)" st st' "lives t"] spec_fetch_replace [of "(?e, x)" st st' "lives t"] key
    by (auto simp: spec_update_def visible_def)
  ultimately show ?thesis using fetch_law [OF r(2)] by (simp add: session_fetch_def)
qed

end

lemma fetch_call_completes:
  assumes "registered h session s" "session_fetch session (fe_now E (fs_world s) 0) c n (for_update \<noteq> 0) (fs_world s) = Ok (Some e)"
    and "askar_session_fetch E h (Some c) (Some n) for_update (Some cb) s = (code, s1)" "complete dr addr s1 = Some s2"
  shows "fs_log s2 = fs_log s @ [(length (fs_tasks s), cb, Success, CbList addr)]" "fs_entry_lists s2 = (fs_entry_lists s)(addr \<mapsto> (SingleRow e, 1))"
proof -
  let ?f = "\<lambda>session. reading ReplyEntry (\<lambda>w. session_fetch session (fe_now E w 0) c n (for_update \<noteq> 0) w)"
  let ?s = "s\<lparr>fs_tasks := fs_tasks s @ [\<lparr>tk_state = OnSession h session ?f, tk_cb = Some (cb, CbList invalid_handle)\<rparr>], fs_world := fs_world s\<rparr>"
  have s1: "s1 = spawn \<lparr>tk_state = BorrowSession h ?f, tk_cb = Some (cb, CbList invalid_handle)\<rparr> s"
    using assms(3) by (simp add: askar_session_fetch_def need_def task_of_def ffi_call_cases)
  have "?f session (fs_world s) = (Ok (ReplyEntry (Some e)), fs_world s)" using assms(2) by simp
  from session_call_completes [where f = ?f, OF assms(1) this, of dr addr "(cb, CbList invalid_handle)"]
  have "s2 = resolve addr (length (fs_tasks s)) (Ok (ReplyEntry (Some e))) ?s" using assms(4) s1 by simp
  then show "fs_log s2 = fs_log s @ [(length (fs_tasks s), cb, Success, CbList addr)]" "fs_entry_lists s2 = (fs_entry_lists s)(addr \<mapsto> (SingleRow e, 1))"
    by (simp_all add: resolve_def arc_create_def nth_append set_task_def)
qed

lemma single_row_read:
  assumes "heap h = Some (SingleRow e, k)" "h \<noteq> invalid_handle" "returnable e"
  shows "askar_entry_list_get_category lerr h 0 False heap = Some (Success, Some (entry_category e), lerr)"
    "askar_entry_list_get_name lerr h 0 False heap = Some (Success, Some (entry_name e), lerr)"
    "\<exists>sb. askar_entry_list_get_value lerr h 0 False heap = Some (Success, Some sb, lerr) \<and> destroy_into_secret sb = Some (Ok (entry_value e))"
    "askar_entry_list_get_tags lerr h 0 False heap = Some (Success, Some (tags_out (entry_tags e)), lerr)"
  using assms(3)
  by (simp_all add: read_handle_live [of heap h, OF assms(1,2)] askar_entry_list_get_category_def askar_entry_list_get_name_def
      askar_entry_list_get_value_def askar_entry_list_get_tags_def get_row_def Let_def c_string_def returnable_def from_secret_def
      destroy_into_secret_def catch_err_def)

text \<open>
  C10. A record goes through the C interface into a SQLite database and comes back: when the callback of an insertion or a replacement reports
  success, the callback of a later fetch that starts before the record expires reports success too, with the handle of a list from whose
  row the client reads the category, name, value and tags that it had given.
\<close>

theorem record_round_trip_through_c:
  assumes "sqlite_holds env pkey pid (fs_world s) st" and "ops = sqlite_session_ops env (Ok (pid, pkey)) in_txn closed" and "registered h ops s"
    and "op = 0 \<or> op = 1" and "tags_arg E tags = Ok ts"
    and "valid_entry (update_entry Item c n (Some v) ts)" and "returnable (update_entry Item c n (Some v) ts)"
    and "opt_expiry env (fe_now E (fs_world s) 0) (non_negative ms) = Ok x" and "unexpired (fe_now E (fs_world s2) 0) x"
    and "askar_session_update E h op (Some c) (Some n) v tags ms (Some cb) s = (code, s1)" and "complete dr addr s1 = Some s2"
    and "last (fs_log s2) = (i, cb, Success, CbNone)"
    and "askar_session_fetch E h (Some c) (Some n) for_update (Some cb') s2 = (code', s3)" and "complete dr addr' s3 = Some s4" and "addr' \<noteq> invalid_handle"
  shows "last (fs_log s4) = (length (fs_tasks s2), cb', Success, CbList addr') \<and>
    askar_entry_list_get_category lerr addr' 0 False (fs_entry_lists s4) = Some (Success, Some c, lerr) \<and>
    askar_entry_list_get_name lerr addr' 0 False (fs_entry_lists s4) = Some (Success, Some n, lerr) \<and>
    (\<exists>sb. askar_entry_list_get_value lerr addr' 0 False (fs_entry_lists s4) = Some (Success, Some sb, lerr) \<and> destroy_into_secret sb = Some (Ok v)) \<and>
    askar_entry_list_get_tags lerr addr' 0 False (fs_entry_lists s4) = Some (Success, Some (tags_out (opt_or ts [])), lerr)"
proof -
  let ?e = "update_entry Item c n (Some v) ts"
  obtain operation where op: "update_operation op = Ok operation" "operation = Insert \<or> operation = Replace"
    using assms(4) by (auto simp: update_operation_def)
  let ?now = "fe_now E (fs_world s) 0" and ?nonce = "fe_nonce E (fs_world s)"
  obtain r w where up: "session_update ops ?now ?nonce operation c n (Some v) ts (non_negative ms) (fs_world s) = (r, w)" by fastforce
  from session_update_steps [OF assms(3) op(1) assms(5) up, of cb dr addr] assms(10,11)
  have s2: "s2 = reported cb r w s" "registered h ops s2" by auto
  have "r = Ok ()" using assms(12) s2(1) by (cases r) (simp_all add: reported_def error_code_not_Success)
  with up have "session_fetch ops (fe_now E (fs_world s2) 0) c n (for_update \<noteq> 0) w = Ok (Some ?e)"
    using sqlite_session.written_record_fetched [OF assms(1) op(2) assms(6,8,9)] assms(2) by simp
  moreover have "fs_world s2 = w" using s2(1) by (simp add: reported_def Let_def)
  ultimately have f: "session_fetch ops (fe_now E (fs_world s2) 0) c n (for_update \<noteq> 0) (fs_world s2) = Ok (Some ?e)" by simp
  note fetched = fetch_call_completes [OF s2(2) f assms(13,14)]
  then have "fs_entry_lists s4 addr' = Some (SingleRow ?e, 1)" by simp
  from single_row_read [where heap = "fs_entry_lists s4", OF this assms(15,7)] fetched show ?thesis by (simp add: update_entry_def opt_or_def)
qed

text \<open>A client with one session on the empty database, and backends of which none answers.\<close>

definition toy_manage :: "('o, 's, 'w) manage_ops" where
  "toy_manage = \<lparr>mg_open = (\<lambda>_ _ _ _ w. (unsupported_backend [], w)), mg_provision = (\<lambda>_ _ _ _ _ w. (unsupported_backend [], w)),
     mg_remove = (\<lambda>_ w. (Ok False, w))\<rparr>"

definition toy_ffi_env :: "(unit, unit, unit, Database) ffi_env" where
  "toy_ffi_env = \<lparr>fe_backends = \<lparr>bx_codec = Uri_Options.toy_codec, bx_driver = me_driver toy_migration_env, bx_postgres = toy_manage, bx_sqlite = toy_manage,
       bx_odbc = toy_manage\<rparr>, fe_codec = Store_Api.toy_codec [], fe_b64 = toy_base64, fe_sha256 = (\<lambda>_. []), fe_json = (\<lambda>_. None), fe_members = (\<lambda>_. None),
     fe_now = (\<lambda>_ _. 0), fe_nonce = (\<lambda>_. replicate 12 2), fe_draw = (\<lambda>_ _ _. (0, replicate 12 2)), fe_migration = toy_migration_env,
     fe_wallet = (\<lambda>_ _. unsupported_backend []), fe_put_wallet = (\<lambda>_ _ w. w), fe_migration_draw = (\<lambda>_. (toy_profile_key, [], \<lambda>_. []))\<rparr>"

definition toy_ffi :: "Database ffi_state" where
  "toy_ffi = (ffi_init toy_db)\<lparr>fs_sessions := \<lparr>rm_counter = 1, rm_map = [(1, 1, toy_ops)], rm_locked = {}\<rparr>\<rparr>"

lemma toy_ffi_registered: "registered 1 toy_ops toy_ffi"
  by (simp add: registered_def toy_ffi_def bt_wf_def)

lemma toy_record_valid: "valid_entry (update_entry Item ''c'' ''n'' (Some [3]) None)" "returnable (update_entry Item ''c'' ''n'' (Some [3]) None)"
  by (simp_all add: update_entry_def valid_entry_def valid_str_def opt_or_def returnable_def)

lemma toy_update_call:
  obtains s1 w where "askar_session_update toy_ffi_env 1 0 (Some ''c'') (Some ''n'') [3] None (- 1) (Some 7) toy_ffi = (Success, s1)"
    "complete no_connections 8 s1 = Some (reported 7 (Ok ()) w toy_ffi)" "registered 1 toy_ops (reported 7 (Ok ()) w toy_ffi)"
proof -
  have "spec_update Insert (update_entry Item ''c'' ''n'' (Some [3]) None, None) [] = (Ok (), [(update_entry Item ''c'' ''n'' (Some [3]) None, None)])"
    by (simp add: spec_update_def spec_insert_def spec_has_def)
  then obtain w where "bs_update toy_ops 0 (replicate 12 2) Item Insert ''c'' ''n'' (Some [3]) None None toy_db = (Ok (), w)"
    using toy_write [OF toy_holds _ toy_record_valid(1), of Insert "Ok ()"] by blast
  then have "session_update toy_ops (fe_now toy_ffi_env (fs_world toy_ffi) 0) (fe_nonce toy_ffi_env (fs_world toy_ffi)) Insert ''c'' ''n'' (Some [3]) None
      (non_negative (- 1)) (fs_world toy_ffi) = (Ok (), w)"
    by (simp add: session_update_def toy_ffi_env_def toy_ffi_def ffi_init_def non_negative_def)
  from session_update_steps [OF toy_ffi_registered _ _ this, of 0 None 7 no_connections 8] show thesis
    by (auto simp: update_operation_def tags_arg_def intro: that)
qed

theorem record_round_trip_through_c_witness:
  "\<exists>s1 s2 s3 s4. askar_session_update toy_ffi_env 1 0 (Some ''c'') (Some ''n'') [3] None (- 1) (Some 7) toy_ffi = (Success, s1) \<and>
    complete no_connections 8 s1 = Some s2 \<and> askar_session_fetch toy_ffi_env 1 (Some ''c'') (Some ''n'') 0 (Some 9) s2 = (Success, s3) \<and>
    complete no_connections 8 s3 = Some s4 \<and> askar_entry_list_get_name None 8 0 False (fs_entry_lists s4) = Some (Success, Some ''n'', None)"
proof -
  obtain s1 w where up: "askar_session_update toy_ffi_env 1 0 (Some ''c'') (Some ''n'') [3] None (- 1) (Some 7) toy_ffi = (Success, s1)"
      "complete no_connections 8 s1 = Some (reported 7 (Ok ()) w toy_ffi)" "registered 1 toy_ops (reported 7 (Ok ()) w toy_ffi)"
    by (rule toy_update_call)
  let ?s2 = "reported 7 (Ok ()) w toy_ffi"
  let ?f = "\<lambda>session. reading ReplyEntry (\<lambda>w. session_fetch session (fe_now toy_ffi_env w 0) ''c'' ''n'' False w)"
  have fetch: "askar_session_fetch toy_ffi_env 1 (Some ''c'') (Some ''n'') 0 (Some 9) ?s2 =
      (Success, spawn \<lparr>tk_state = BorrowSession 1 ?f, tk_cb = Some (9, CbList invalid_handle)\<rparr> ?s2)"
    by (simp add: askar_session_fetch_def need_def task_of_def ffi_call_cases)
  obtain s4 where s4: "complete no_connections 8 (spawn \<lparr>tk_state = BorrowSession 1 ?f, tk_cb = Some (9, CbList invalid_handle)\<rparr> ?s2) = Some s4"
    using session_call_completes [where f = ?f, OF up(3) prod.collapse [symmetric], of no_connections 8] by blast
  have none: "fs_tasks toy_ffi = []" by (simp add: toy_ffi_def ffi_init_def)
  have "sqlite_holds toy_sqlite_env toy_profile_key 1 (fs_world toy_ffi) []" using toy_holds by (simp add: toy_ffi_def ffi_init_def)
  from record_round_trip_through_c [OF this refl toy_ffi_registered _ _ toy_record_valid _ _ up(1,2) _ fetch s4, of None 0 None]
  have "askar_entry_list_get_name None 8 0 False (fs_entry_lists s4) = Some (Success, Some ''n'', None)"
    by (simp add: tags_arg_def non_negative_def sqlite_session.expiry_none unexpired_def reported_def Let_def none)
  with up fetch s4 show ?thesis by blast
qed

end
