(* ===== verification/Ffi_Key.thy ===== *)
theory Ffi_Key
  imports Ffi_Lists Local_Key
begin

text \<open>
  The functions of the C interface on keys (\<open>src/ffi/key.rs\<close>). A key is known to the client by a handle into \<open>keys\<close>; every function
  checks its out pointer and its handles, runs the operation of \<open>Local_Key\<close> and writes the result for
  C. The main result: what is encrypted through a handle is decrypted through it from the parts at the
  positions that the encrypted buffer gives.
\<close>

section \<open>Calls\<close>

text \<open>
  A result is \<open>None\<close> when the handle of a freed key is used, for which the behaviour is not defined, or when the
  generation of a key does not end.
\<close>

definition and_then :: "'a askar_result option \<Rightarrow> ('a \<Rightarrow> 'b askar_result option) \<Rightarrow> 'b askar_result option" where
  "and_then m f = (case m of None \<Rightarrow> None | Some (Ok x) \<Rightarrow> f x | Some (Err e) \<Rightarrow> Some (Err e) | Some Panic \<Rightarrow> Some Panic)"

lemma and_then_simps [simp]:
  "and_then None f = None" "and_then (Some (Ok x)) f = f x" "and_then (Some (Err e)) f = Some (Err e)" "and_then (Some Panic) f = Some Panic"
  by (simp_all add: and_then_def)

definition key_call :: "last_error \<Rightarrow> bool \<Rightarrow> 'o askar_result option \<Rightarrow> 'o ffi_read" where
  "key_call lerr out_null r = map_option (catch_err lerr) (and_then (Some (check_useful_c_ptr out_null)) (\<lambda>_. r))"

definition unwrap_or_default :: "string option \<Rightarrow> string" where
  "unwrap_or_default arg = (case arg of None \<Rightarrow> [] | Some s \<Rightarrow> s)"

text \<open>\<open>KeyAlg::from_str(alg.as_opt_str().unwrap_or_default())\<close>.\<close>

definition alg_arg :: "string option \<Rightarrow> KeyAlg askar_result" where
  "alg_arg alg = lift_askar (key_alg_from_str (unwrap_or_default alg))"

definition opt_alg_arg :: "string option \<Rightarrow> KeyAlg option askar_result" where
  "opt_alg_arg alg = (case alg of None \<Rightarrow> Ok None | Some s \<Rightarrow> res_map Some (lift_askar (key_alg_from_str s)))"

text \<open>A new key at the address that the allocator gives, and the types of the functions.\<close>

type_synonym key_heap = "LocalKey arc_heap"
type_synonym new_key = "(nat \<times> key_heap) ffi_read"

definition new_handle :: "nat \<Rightarrow> key_heap \<Rightarrow> LocalKey askar_result \<Rightarrow> (nat \<times> key_heap) askar_result option" where
  "new_handle addr keys r = Some (res_map (\<lambda>key. arc_create addr key keys) r)"

definition secret_out :: "bytes askar_result \<Rightarrow> SecretBuffer askar_result option" where
  "secret_out r = Some (res_bind r from_secret)"

section \<open>Creation\<close>

datatype KeyBackend = Software | SecureElement

primrec key_backend_as_str :: "KeyBackend \<Rightarrow> string" where
  "key_backend_as_str Software = ''software''"
| "key_backend_as_str SecureElement = ''secure_element''"

definition key_backend_from_str :: "string \<Rightarrow> KeyBackend crypto_result" where
  "key_backend_from_str s =
     (if s = ''software'' then Ok Software
      else if s = ''secure_element'' then Ok SecureElement
      else Err (err_msg crypto_kind.Invalid ''Invalid key backend.''))"

definition backend_arg :: "string option \<Rightarrow> KeyBackend" where
  "backend_arg arg = (case key_backend_from_str (unwrap_or_default arg) of Ok b \<Rightarrow> b | _ \<Rightarrow> Software)"

definition askar_key_generate :: "key_env \<Rightarrow> (nat \<Rightarrow> nat \<Rightarrow> bytes) \<Rightarrow> string option \<Rightarrow> string option \<Rightarrow> int \<Rightarrow> bool \<Rightarrow> nat \<Rightarrow> key_heap \<Rightarrow> last_error \<Rightarrow> new_key" where
  "askar_key_generate K rng alg key_backend ephemeral out_null addr keys lerr =
     key_call lerr out_null
       (and_then (Some (alg_arg alg)) (\<lambda>alg.
        and_then (case backend_arg key_backend of
            Software \<Rightarrow> local_generate_with_rng K alg (ephemeral \<noteq> 0) rng
          | SecureElement \<Rightarrow> Some (local_generate_for_hardware alg (ephemeral \<noteq> 0))) (\<lambda>key.
        new_handle addr keys (Ok key))))"

definition askar_key_from_seed :: "key_env \<Rightarrow> bls_kdf \<Rightarrow> keystream \<Rightarrow> string option \<Rightarrow> bytes \<Rightarrow> string option \<Rightarrow> bool \<Rightarrow> nat \<Rightarrow> key_heap \<Rightarrow> last_error \<Rightarrow> new_key" where
  "askar_key_from_seed K Kd ks alg seed method out_null addr keys lerr =
     key_call lerr out_null
       (and_then (Some (alg_arg alg)) (\<lambda>alg.
        and_then (local_from_seed K Kd ks alg seed method) (\<lambda>key.
        new_handle addr keys (Ok key))))"

definition askar_key_from_jwk :: "key_env \<Rightarrow> base64 \<Rightarrow> json_reader \<Rightarrow> bytes \<Rightarrow> bool \<Rightarrow> nat \<Rightarrow> key_heap \<Rightarrow> last_error \<Rightarrow> new_key" where
  "askar_key_from_jwk K b64 R jwk out_null addr keys lerr =
     key_call lerr out_null (new_handle addr keys (local_from_jwk_slice K b64 R jwk))"

definition askar_key_from_public_bytes :: "key_env \<Rightarrow> string option \<Rightarrow> bytes \<Rightarrow> bool \<Rightarrow> nat \<Rightarrow> key_heap \<Rightarrow> last_error \<Rightarrow> new_key" where
  "askar_key_from_public_bytes K alg public out_null addr keys lerr =
     key_call lerr out_null (and_then (Some (alg_arg alg)) (\<lambda>alg. new_handle addr keys (local_from_public_bytes K alg public)))"

definition askar_key_from_secret_bytes :: "key_env \<Rightarrow> string option \<Rightarrow> bytes \<Rightarrow> bool \<Rightarrow> nat \<Rightarrow> key_heap \<Rightarrow> last_error \<Rightarrow> new_key" where
  "askar_key_from_secret_bytes K alg secret out_null addr keys lerr =
     key_call lerr out_null (and_then (Some (alg_arg alg)) (\<lambda>alg. new_handle addr keys (local_from_secret_bytes K alg secret)))"

definition askar_key_convert :: "key_env \<Rightarrow> nat \<Rightarrow> string option \<Rightarrow> bool \<Rightarrow> nat \<Rightarrow> key_heap \<Rightarrow> last_error \<Rightarrow> new_key" where
  "askar_key_convert K handle alg out_null addr keys lerr =
     key_call lerr out_null
       (and_then (Some (alg_arg alg)) (\<lambda>alg.
        and_then (arc_value handle keys) (\<lambda>key.
        new_handle addr keys (local_convert_key K key alg))))"

definition askar_key_from_key_exchange :: "key_env \<Rightarrow> string option \<Rightarrow> nat \<Rightarrow> nat \<Rightarrow> bool \<Rightarrow> nat \<Rightarrow> key_heap \<Rightarrow> last_error \<Rightarrow> new_key" where
  "askar_key_from_key_exchange K alg sk_handle pk_handle out_null addr keys lerr =
     key_call lerr out_null
       (and_then (Some (alg_arg alg)) (\<lambda>alg.
        and_then (arc_value sk_handle keys) (\<lambda>sk.
        and_then (arc_value pk_handle keys) (\<lambda>pk.
        new_handle addr keys (local_to_key_exchange K sk alg pk)))))"

definition askar_key_free :: "nat \<Rightarrow> key_heap \<Rightarrow> key_heap option" where
  "askar_key_free handle keys = arc_remove handle keys"

section \<open>Properties of keys\<close>

definition askar_key_get_public_bytes :: "key_env \<Rightarrow> nat \<Rightarrow> bool \<Rightarrow> key_heap \<Rightarrow> last_error \<Rightarrow> SecretBuffer ffi_read" where
  "askar_key_get_public_bytes K handle out_null keys lerr =
     key_call lerr out_null (and_then (arc_value handle keys) (\<lambda>key. secret_out (local_to_public_bytes K key)))"

definition askar_key_get_secret_bytes :: "nat \<Rightarrow> bool \<Rightarrow> key_heap \<Rightarrow> last_error \<Rightarrow> SecretBuffer ffi_read" where
  "askar_key_get_secret_bytes handle out_null keys lerr =
     key_call lerr out_null (and_then (arc_value handle keys) (\<lambda>key. secret_out (local_to_secret_bytes key)))"

definition askar_key_get_algorithm :: "nat \<Rightarrow> bool \<Rightarrow> key_heap \<Rightarrow> last_error \<Rightarrow> string ffi_read" where
  "askar_key_get_algorithm handle out_null keys lerr =
     key_call lerr out_null (and_then (arc_value handle keys) (\<lambda>key. Some (c_string (key_alg_as_str (local_algorithm key)))))"

definition askar_key_get_ephemeral :: "nat \<Rightarrow> bool \<Rightarrow> key_heap \<Rightarrow> last_error \<Rightarrow> bool ffi_read" where
  "askar_key_get_ephemeral handle out_null keys lerr =
     key_call lerr out_null (and_then (arc_value handle keys) (\<lambda>key. Some (Ok (lk_ephemeral key))))"

definition askar_key_get_jwk_public :: "base64 \<Rightarrow> nat \<Rightarrow> string option \<Rightarrow> bool \<Rightarrow> key_heap \<Rightarrow> last_error \<Rightarrow> string ffi_read" where
  "askar_key_get_jwk_public b64 handle alg out_null keys lerr =
     key_call lerr out_null
       (and_then (arc_value handle keys) (\<lambda>key.
        and_then (Some (opt_alg_arg alg)) (\<lambda>alg.
        Some (res_bind (local_to_jwk_public b64 key alg) c_string))))"

definition askar_key_get_jwk_secret :: "base64 \<Rightarrow> nat \<Rightarrow> bool \<Rightarrow> key_heap \<Rightarrow> last_error \<Rightarrow> SecretBuffer ffi_read" where
  "askar_key_get_jwk_secret b64 handle out_null keys lerr =
     key_call lerr out_null (and_then (arc_value handle keys) (\<lambda>key. secret_out (local_to_jwk_secret b64 key)))"

definition askar_key_get_jwk_thumbprint :: "base64 \<Rightarrow> (bytes \<Rightarrow> bytes) \<Rightarrow> nat \<Rightarrow> string option \<Rightarrow> bool \<Rightarrow> key_heap \<Rightarrow> last_error \<Rightarrow> string ffi_read" where
  "askar_key_get_jwk_thumbprint b64 sha256 handle alg out_null keys lerr =
     key_call lerr out_null
       (and_then (arc_value handle keys) (\<lambda>key.
        and_then (Some (opt_alg_arg alg)) (\<lambda>alg.
        Some (res_bind (local_to_jwk_thumbprint b64 sha256 key alg) c_string))))"

section \<open>Encryption\<close>

definition as_i32 :: "nat \<Rightarrow> int" where
  "as_i32 n = sint (word_of_nat n :: 32 word)"

definition askar_key_aead_random_nonce :: "key_env \<Rightarrow> (nat \<Rightarrow> bytes) \<Rightarrow> nat \<Rightarrow> bool \<Rightarrow> key_heap \<Rightarrow> last_error \<Rightarrow> SecretBuffer ffi_read" where
  "askar_key_aead_random_nonce K fill handle out_null keys lerr =
     key_call lerr out_null (and_then (arc_value handle keys) (\<lambda>key. secret_out (local_aead_random_nonce K fill key)))"

text \<open>\<open>AeadParams\<close>: the lengths of nonce and tag.\<close>

definition askar_key_aead_get_params :: "key_env \<Rightarrow> nat \<Rightarrow> bool \<Rightarrow> key_heap \<Rightarrow> last_error \<Rightarrow> (int \<times> int) ffi_read" where
  "askar_key_aead_get_params K handle out_null keys lerr =
     key_call lerr out_null
       (and_then (arc_value handle keys) (\<lambda>key.
        and_then (Some (local_aead_params K key)) (\<lambda>params.
        Some (Ok (as_i32 (nonce_length params), as_i32 (tag_length params))))))"

definition askar_key_aead_get_padding :: "key_env \<Rightarrow> nat \<Rightarrow> int \<Rightarrow> bool \<Rightarrow> key_heap \<Rightarrow> last_error \<Rightarrow> int ffi_read" where
  "askar_key_aead_get_padding K handle msg_len out_null keys lerr =
     key_call lerr out_null
       (and_then (Some (if msg_len < 0 then Err (err_msg askar_kind.Input ''Invalid message length'') else Ok ())) (\<lambda>_.
        and_then (arc_value handle keys) (\<lambda>key.
        Some (Ok (as_i32 (local_aead_padding K key (nat msg_len)))))))"

definition askar_key_aead_encrypt :: "key_env \<Rightarrow> (nat \<Rightarrow> bytes) \<Rightarrow> nat \<Rightarrow> bytes \<Rightarrow> bytes \<Rightarrow> bytes \<Rightarrow> bool \<Rightarrow> key_heap \<Rightarrow> last_error \<Rightarrow> EncryptedBuffer ffi_read" where
  "askar_key_aead_encrypt K fill handle message nonce aad out_null keys lerr =
     key_call lerr out_null
       (and_then (arc_value handle keys) (\<lambda>key.
        Some (res_bind (local_aead_encrypt K fill key message nonce aad) from_encrypted)))"

definition askar_key_aead_decrypt :: "key_env \<Rightarrow> nat \<Rightarrow> bytes \<Rightarrow> bytes \<Rightarrow> bytes \<Rightarrow> bytes \<Rightarrow> bool \<Rightarrow> key_heap \<Rightarrow> last_error \<Rightarrow> SecretBuffer ffi_read" where
  "askar_key_aead_decrypt K handle ciphertext nonce tag aad out_null keys lerr =
     key_call lerr out_null
       (and_then (arc_value handle keys) (\<lambda>key.
        secret_out (local_aead_decrypt K key (to_decrypt_split (ciphertext, tag)) nonce aad)))"

definition askar_key_wrap_key :: "key_env \<Rightarrow> nat \<Rightarrow> nat \<Rightarrow> bytes \<Rightarrow> bool \<Rightarrow> key_heap \<Rightarrow> last_error \<Rightarrow> EncryptedBuffer ffi_read" where
  "askar_key_wrap_key K handle other nonce out_null keys lerr =
     key_call lerr out_null
       (and_then (arc_value handle keys) (\<lambda>key.
        and_then (arc_value other keys) (\<lambda>other.
        Some (res_bind (local_wrap_key K key other nonce) from_encrypted))))"

definition askar_key_unwrap_key :: "key_env \<Rightarrow> nat \<Rightarrow> string option \<Rightarrow> bytes \<Rightarrow> bytes \<Rightarrow> bytes \<Rightarrow> bool \<Rightarrow> nat \<Rightarrow> key_heap \<Rightarrow> last_error \<Rightarrow> new_key" where
  "askar_key_unwrap_key K handle alg ciphertext nonce tag out_null addr keys lerr =
     key_call lerr out_null
       (and_then (arc_value handle keys) (\<lambda>key.
        and_then (Some (alg_arg alg)) (\<lambda>alg.
        new_handle addr keys (local_unwrap_key K key alg (to_decrypt_split (ciphertext, tag)) nonce))))"

section \<open>Signatures\<close>

definition askar_key_sign_message :: "key_env \<Rightarrow> nat \<Rightarrow> bytes \<Rightarrow> string option \<Rightarrow> bool \<Rightarrow> key_heap \<Rightarrow> last_error \<Rightarrow> SecretBuffer ffi_read" where
  "askar_key_sign_message K handle message sig_type out_null keys lerr =
     key_call lerr out_null (and_then (arc_value handle keys) (\<lambda>key. secret_out (local_sign_message K key message sig_type)))"

definition askar_key_verify_signature :: "key_env \<Rightarrow> nat \<Rightarrow> bytes \<Rightarrow> bytes \<Rightarrow> string option \<Rightarrow> bool \<Rightarrow> key_heap \<Rightarrow> last_error \<Rightarrow> bool ffi_read" where
  "askar_key_verify_signature K handle message signature sig_type out_null keys lerr =
     key_call lerr out_null (and_then (arc_value handle keys) (\<lambda>key. Some (local_verify_signature K key message signature sig_type)))"

section \<open>Boxes\<close>

definition askar_key_crypto_box_random_nonce :: "(nat \<Rightarrow> bytes) \<Rightarrow> bool \<Rightarrow> last_error \<Rightarrow> SecretBuffer ffi_read" where
  "askar_key_crypto_box_random_nonce fill out_null lerr = key_call lerr out_null (secret_out (crypto_box_random_nonce fill))"

definition askar_key_crypto_box :: "cbox_env \<Rightarrow> nat \<Rightarrow> nat \<Rightarrow> bytes \<Rightarrow> bytes \<Rightarrow> bool \<Rightarrow> key_heap \<Rightarrow> last_error \<Rightarrow> SecretBuffer ffi_read" where
  "askar_key_crypto_box C recip_key sender_key message nonce out_null keys lerr =
     key_call lerr out_null
       (and_then (arc_value recip_key keys) (\<lambda>recip_key.
        and_then (arc_value sender_key keys) (\<lambda>sender_key.
        secret_out (kms_crypto_box C recip_key sender_key message nonce))))"

definition askar_key_crypto_box_open :: "cbox_env \<Rightarrow> nat \<Rightarrow> nat \<Rightarrow> bytes \<Rightarrow> bytes \<Rightarrow> bool \<Rightarrow> key_heap \<Rightarrow> last_error \<Rightarrow> SecretBuffer ffi_read" where
  "askar_key_crypto_box_open C recip_key sender_key message nonce out_null keys lerr =
     key_call lerr out_null
       (and_then (arc_value recip_key keys) (\<lambda>recip_key.
        and_then (arc_value sender_key keys) (\<lambda>sender_key.
        secret_out (kms_crypto_box_open C recip_key sender_key message nonce))))"

definition askar_key_crypto_box_seal :: "x25519_env \<Rightarrow> cbox_env \<Rightarrow> (nat \<Rightarrow> bytes) \<Rightarrow> nat \<Rightarrow> bytes \<Rightarrow> bool \<Rightarrow> key_heap \<Rightarrow> last_error \<Rightarrow> SecretBuffer ffi_read" where
  "askar_key_crypto_box_seal X C okm handle message out_null keys lerr =
     key_call lerr out_null (and_then (arc_value handle keys) (\<lambda>key. secret_out (kms_crypto_box_seal X C okm key message)))"

definition askar_key_crypto_box_seal_open :: "cbox_env \<Rightarrow> nat \<Rightarrow> bytes \<Rightarrow> bool \<Rightarrow> key_heap \<Rightarrow> last_error \<Rightarrow> SecretBuffer ffi_read" where
  "askar_key_crypto_box_seal_open C handle ciphertext out_null keys lerr =
     key_call lerr out_null (and_then (arc_value handle keys) (\<lambda>key. secret_out (kms_crypto_box_seal_open C key ciphertext)))"

section \<open>Derivation\<close>

definition askar_key_derive_ecdh_es :: "key_env \<Rightarrow> (bytes \<Rightarrow> bytes) \<Rightarrow> string option \<Rightarrow> nat \<Rightarrow> nat \<Rightarrow> bytes \<Rightarrow> bytes \<Rightarrow> bytes \<Rightarrow> int \<Rightarrow> bool \<Rightarrow> nat \<Rightarrow> key_heap
    \<Rightarrow> last_error \<Rightarrow> new_key" where
  "askar_key_derive_ecdh_es K H alg ephem_key recip_key alg_id apu apv receive out_null addr keys lerr =
     key_call lerr out_null
       (and_then (Some (alg_arg alg)) (\<lambda>alg.
        and_then (arc_value ephem_key keys) (\<lambda>ephem_key.
        and_then (arc_value recip_key keys) (\<lambda>recip_key.
        new_handle addr keys (derive_key_ecdh_es K H alg ephem_key recip_key alg_id apu apv (receive = 1))))))"

definition askar_key_derive_ecdh_1pu :: "key_env \<Rightarrow> (bytes \<Rightarrow> bytes) \<Rightarrow> string option \<Rightarrow> nat \<Rightarrow> nat \<Rightarrow> nat \<Rightarrow> bytes \<Rightarrow> bytes \<Rightarrow> bytes \<Rightarrow> bytes \<Rightarrow> int \<Rightarrow> bool
    \<Rightarrow> nat \<Rightarrow> key_heap \<Rightarrow> last_error \<Rightarrow> new_key" where
  "askar_key_derive_ecdh_1pu K H alg ephem_key sender_key recip_key alg_id apu apv cc_tag receive out_null addr keys lerr =
     key_call lerr out_null
       (and_then (Some (alg_arg alg)) (\<lambda>alg.
        and_then (arc_value ephem_key keys) (\<lambda>ephem_key.
        and_then (arc_value sender_key keys) (\<lambda>sender_key.
        and_then (arc_value recip_key keys) (\<lambda>recip_key.
        new_handle addr keys (derive_key_ecdh_1pu K H alg ephem_key sender_key recip_key alg_id apu apv cc_tag (receive = 1)))))))"

definition supported_backends :: "KeyBackend list" where
  "supported_backends = [Software]"

definition askar_key_get_supported_backends :: "bool \<Rightarrow> nat \<Rightarrow> string FfiResultList arc_heap \<Rightarrow> last_error \<Rightarrow> (nat \<times> string FfiResultList arc_heap) ffi_read" where
  "askar_key_get_supported_backends out_null addr string_lists lerr =
     key_call lerr out_null (Some (Ok (arc_create addr (Rows (map key_backend_as_str supported_backends)) string_lists)))"

section \<open>What a client gets\<close>

lemma key_call_live:
  assumes "keys h = Some (key, n)" "h \<noteq> invalid_handle"
  shows "arc_value h keys = Some (Ok key)"
  using assms by (simp add: arc_value_def arc_load_def arc_validate_def)

lemma key_call_eq: "key_call lerr False (Some r) = Some (catch_err lerr r)"
  by (simp add: key_call_def check_useful_c_ptr_def)

lemma catch_err_Success: "catch_err lerr r = (Success, Some out, lerr') \<longleftrightarrow> r = Ok out \<and> lerr' = lerr"
  by (cases r) (auto simp: catch_err_def set_last_error_def Let_def)

text \<open>The parts of an encrypted buffer as the client cuts them out, at the positions it was given.\<close>

definition eb_parts :: "EncryptedBuffer \<Rightarrow> (bytes \<times> bytes \<times> bytes) option" where
  "eb_parts eb = map_option (\<lambda>data.
     (take (nat (eb_tag_pos eb)) data, take (nat (eb_nonce_pos eb) - nat (eb_tag_pos eb)) (drop (nat (eb_tag_pos eb)) data),
      drop (nat (eb_nonce_pos eb)) data)) (sb_data (eb_buffer eb))"

lemma from_encrypted_parts:
  assumes "from_encrypted e = Ok eb" "enc_ciphertext e = Ok c" "enc_tag e = Ok t" "enc_nonce e = Ok n"
  shows "eb_parts eb = Some (c, t, n)"
  using assms
  by (auto simp: from_encrypted_def from_secret_def eb_parts_def enc_ciphertext_def enc_tag_def enc_nonce_def slice_def
      drop_take split: if_splits)

text \<open>
  Encryption through the C interface round-trips. When \<open>askar_key_aead_encrypt\<close> succeeds on a key, the client can cut ciphertext, tag and nonce out of the
  buffer it got at the positions given with it; \<open>askar_key_aead_decrypt\<close> with these parts and the same
  additional data succeeds and returns the message. The last error is left as it was by both.
\<close>

theorem key_handle_aead_round_trip:
  assumes "key_env_correct K" and "keys h = Some (key, refs)" and "h \<noteq> invalid_handle" and "length m < 2 ^ 63"
    and "askar_key_aead_encrypt K fill h m nonce aad False keys lerr = Some (Success, Some eb, lerr')"
  shows "lerr' = lerr \<and> (\<exists>c t n sb. eb_parts eb = Some (c, t, n) \<and> (nonce = [] \<or> n = nonce) \<and>
    askar_key_aead_decrypt K h c n t aad False keys lerr = Some (Success, Some sb, lerr) \<and> destroy_into_secret sb = Some (Ok m))"
proof -
  note live = key_call_live [of keys h, OF assms(2,3)]
  from assms(5) obtain e where e: "local_aead_encrypt K fill key m nonce aad = Ok e" "from_encrypted e = Ok eb" "lerr' = lerr"
    by (auto simp: askar_key_aead_encrypt_def live key_call_eq catch_err_Success result_simps)
  from aead_encrypted_parts [OF assms(1) e(1)] obtain c t n where p: "enc_ciphertext e = Ok c" "enc_tag e = Ok t" "enc_nonce e = Ok n"
    "nonce = [] \<or> n = nonce" "local_aead_decrypt K key (to_decrypt_split (c, t)) n aad = Ok m" by (auto split: if_splits)
  obtain sb where sb: "from_secret m = Ok sb" using assms(4) by (simp add: from_secret_def)
  have "askar_key_aead_decrypt K h c n t aad False keys lerr = Some (Success, Some sb, lerr)"
    by (simp add: askar_key_aead_decrypt_def live key_call_eq catch_err_Success secret_out_def p(5) sb)
  with from_encrypted_parts [OF e(2) p(1-3)] p(4) destroy_from_secret [OF sb] e(3) show ?thesis by blast
qed

abbreviation toy_aes_key :: LocalKey where
  "toy_aes_key \<equiv> lasting (AesKey A128Gcm (replicate 16 1))"

theorem key_handle_aead_round_trip_witness:
  "\<exists>eb c t n sb. askar_key_aead_encrypt toy_keys (\<lambda>n. replicate n 5) 8 [1, 2] [] [] False [8 \<mapsto> (toy_aes_key, 1)] None = Some (Success, Some eb, None) \<and>
    eb_parts eb = Some (c, t, n) \<and>
    askar_key_aead_decrypt toy_keys 8 c n t [] False [8 \<mapsto> (toy_aes_key, 1)] None = Some (Success, Some sb, None) \<and> destroy_into_secret sb = Some (Ok [1, 2])"
proof -
  obtain e where e: "local_aead_encrypt toy_keys (\<lambda>n. replicate n 5) toy_aes_key [1, 2] [] [] = Ok e"
      "enc_tag_pos e = 2" "enc_nonce_pos e = 18" "length (enc_buffer e) = 30"
    by (simp add: local_aead_encrypt_def local_aead_random_nonce_def toy_keys_def lasting_def aead_params_def
        aes_gcm_encrypt_in_place_def Let_def)
  then obtain eb where "from_encrypted e = Ok eb" by (simp add: from_encrypted_def from_secret_def)
  with e(1) have enc: "askar_key_aead_encrypt toy_keys (\<lambda>n. replicate n 5) 8 [1, 2] [] [] False [8 \<mapsto> (toy_aes_key, 1)] None = Some (Success, Some eb, None)"
    by (simp add: askar_key_aead_encrypt_def key_call_live key_call_eq catch_err_Success)
  from key_handle_aead_round_trip [OF toy_keys_correct _ _ _ enc, of toy_aes_key 1] enc show ?thesis by auto
qed

text \<open>The life of a key behind its handle: created with one reference, it is found until it is freed, and then the heap is as before.\<close>

lemma key_handle_life:
  assumes "key_call lerr out_null (new_handle addr keys r) = Some (Success, Some (h, keys'), lerr')" "addr \<noteq> 0" "keys addr = None"
  shows "\<exists>key. r = Ok key \<and> h = addr \<and> arc_value h keys' = Some (Ok key) \<and> askar_key_free h keys' = Some keys \<and>
    (\<forall>h'. h' \<noteq> h \<longrightarrow> arc_value h' keys' = arc_value h' keys)"
proof -
  have "catch_err lerr (res_bind (check_useful_c_ptr out_null) (\<lambda>_. res_map (\<lambda>key. arc_create addr key keys) r)) = (Success, Some (h, keys'), lerr')"
    using assms(1) by (cases out_null) (simp_all add: key_call_def new_handle_def check_useful_c_ptr_def)
  then obtain key where "r = Ok key" "h = addr" "keys' = keys(addr \<mapsto> (key, 1))"
    by (auto simp: catch_err_Success result_simps arc_create_def)
  with assms(2,3) show ?thesis
    by (auto simp: askar_key_free_def arc_remove_def arc_decrement_def arc_value_def arc_load_def arc_validate_def fun_upd_idem split: option.split)
qed

text \<open>A name of a backend that is not known selects the software backend, without an error.\<close>

lemma unknown_backend_is_software: "arg \<noteq> Some ''secure_element'' \<Longrightarrow> backend_arg arg = Software"
  by (cases arg) (auto simp: backend_arg_def key_backend_from_str_def unwrap_or_default_def)

end
