(* ===== verification/Spec2Isabelle.thy ===== *)
theory Spec2Isabelle
  imports Wql_Json Wql_Sql Crypto_Buffer Aes_Key_Wrap Aes_Cbc_Hmac Kdf Uri_Options Store_Api
    Db_Session Sqlite_Search Sqlite_Backend Postgres_Provision Odbc_Backend Ffi_Store Ffi_Key
begin

text \<open>
  Verification of Aries Askar, a secure store for keys and records, and of its cryptography.

  \<^bold>\<open>The program.\<close> The repository holds three Rust crates. \<open>askar-crypto\<close> has the keys of every supported
  algorithm, authenticated encryption over several kinds of buffer, key derivation, JWK reading and
  writing and sealed boxes. \<open>askar-storage\<close> has the store: records are encrypted under the keys of a
  profile, profile keys under a store key, and both kept in a database; records are searched by
  queries over their tags, which are encrypted too. The crate under \<open>src/src\<close> is the public
  interface: local keys, stored keys, stores and sessions, and their C interface.

  \<^bold>\<open>Conventions.\<close> A fallible function returns the type \<open>result\<close> of \<open>Askar_Prelude\<close>: \<open>Ok\<close>, \<open>Err\<close> with
  an error of the crate (\<open>Askar_Error\<close>), or \<open>Panic\<close>, which is a value of its own. State is passed
  explicitly: an operation that changes it returns the new state. Bytes are 8-bit words; counters
  and lengths are natural numbers where the sources use \<open>usize\<close>, and words of their width where
  they are serialised or can wrap. Code that is not in the repository (ciphers, curves, hashes,
  CBOR, base64, JSON text, the SQL engine's evaluation of \<open>LIKE\<close>, the pool of connections, the clock
  and the random generator) is a parameter, collected in records such as \<open>aead_cipher\<close>, \<open>ec_env\<close>,
  \<open>profile_env\<close>, \<open>sqlite_env\<close> or \<open>key_env\<close>. What a theorem needs of it is a named predicate, such as
  \<open>aead_correct\<close> or \<open>hex_codec_correct\<close>, and each has a small instance for which it is proved.

  \<^bold>\<open>Queries\<close> (\<open>askar-storage/src/wql\<close>). \<open>Wql_Query\<close> has the queries, their optimiser and their mapping
  (\<open>query.rs\<close>), \<open>Wql_Json\<close> their JSON form with a round trip, \<open>Wql_Tags\<close> tag queries and the generic
  encoder (\<open>tags.rs\<close>) with the contract of an encoder as a locale, and \<open>Wql_Sql\<close> the SQL encoder
  (\<open>sql.rs\<close>), an instance of it: the condition it writes selects what the query says.

  \<^bold>\<open>Cryptography\<close> (\<open>askar-crypto/src\<close>). \<open>Crypto_Buffer\<close> has the buffers of \<open>buffer/\<close>; the locale
  \<open>resize_buffer\<close> is their contract, met by vectors, secret buffers and writers over them, and all
  encryption is verified once over it. \<open>Crypto_Aead\<close>, \<open>Aes_Cbc_Hmac\<close> and \<open>Aes_Key_Wrap\<close> are the in-place
  ciphers of \<open>alg/chacha20.rs\<close> and \<open>alg/aes\<close>; \<open>Kdf\<close> the derivations of \<open>kdf/\<close>. \<open>Key_Alg\<close> has the names of
  algorithms (\<open>alg/mod.rs\<close>, \<open>sign.rs\<close>), \<open>Jwk\<close> the two encoders and the reader of JWKs (\<open>jwk/\<close>).
  \<open>Okp_Keys\<close>, \<open>Ec_Keys\<close>, \<open>Bls_Keys\<close> and \<open>Symmetric_Keys\<close> are the key types, with the deterministic
  generator (\<open>random.rs\<close>); \<open>Any_Key\<close> is the dispatch over all of them (\<open>alg/any.rs\<close>) and \<open>Crypto_Box\<close> the
  boxes of \<open>encrypt/crypto_box.rs\<close>. The lemmas show round trips through bytes and JWKs, consistency
  of key pairs, agreement of the parties of a derivation, and the bounds of the fixed buffers.

  \<^bold>\<open>Storage\<close> (\<open>askar-storage/src\<close>). \<open>Entry\<close> has entries, tags, filters and paged scans (\<open>entry.rs\<close>);
  \<open>Store_Key\<close> and \<open>Profile_Key\<close> the keys of \<open>protect/\<close>, with the locale \<open>encryptor_contract\<close> for what
  encrypts entries; \<open>Uri_Options\<close> the option strings (\<open>options.rs\<close>). \<open>Db_Query\<close>, \<open>Db_Utils\<close>, \<open>Db_Filter\<close>
  and \<open>Db_Session\<close> are \<open>backend/db_utils.rs\<close>: statements and placeholders, the tag column, filters over
  encrypted tags, and sessions with their transactions as a transition system, failing commits and starts included.
  The search theorems are about filters that encode exactly and can be searched (\<open>filter_exact\<close>): of encrypted tags they ask only
  equality, membership and existence, they negate existence tests of exactly one name only, and no part of a disjunction or negated conjunction
  is always true; what other filters do is said by the lemmas behind the findings. \<open>Store_Spec\<close> is the
  abstract store, a list of entries with expiry times. \<open>Sqlite_Tables\<close> models the tables with their
  keys and cascades; \<open>Sqlite_Session\<close> and \<open>Sqlite_Search\<close> the operations of a session over them, each
  shown to implement the abstract operation; \<open>Sqlite_Backend\<close> provisioning, opening, profiles and
  rekeying (\<open>backend/sqlite\<close>). The operations of the abstract store take a predicate on expiry times, since
  the backends compare them differently. \<open>Postgres_Session\<close>, \<open>Postgres_Backend\<close> and \<open>Postgres_Provision\<close> are the
  PostgreSQL backend (\<open>backend/postgres\<close>) over the same tables with the sequences behind their ids: its
  sessions implement the same abstract operations, and refuse the conditions that PostgreSQL does not accept (an empty disjunction
  or an empty \<open>$in\<close>); the ids of removed profiles are not used again until the store is recreated, and
  provisioning on a server shared with other clients changes all or nothing. \<open>Odbc_Session\<close> and
  \<open>Odbc_Backend\<close> are the ODBC backend (\<open>backend/odbc\<close>), which has no transaction around its changes: its
  searches, insertions and removals implement the abstract operations, and the other theorems say exactly what
  replacing an entry, a failing change of the store key, a failing provisioning and an abandoned transaction
  leave behind. \<open>Store_Options\<close> has the options of the three kinds of store and the
  statements that create and drop a Postgres database; \<open>Migration\<close> the conversion of an Indy wallet
  (\<open>migration/\<close>), which is shown to keep every item and to run only once.

  \<^bold>\<open>Public interface\<close> (\<open>src/src\<close>). \<open>Local_Key\<close> has local keys, encrypted values and the operations
  between keys (\<open>kms/local_key.rs\<close>, \<open>enc.rs\<close>, \<open>envelope.rs\<close>), \<open>Key_Entry\<close> stored keys (\<open>kms/entry.rs\<close>).
  \<open>Backend_Session\<close> has the traits every backend implements (\<open>askar-storage/src/backend/mod.rs\<close>) as
  records of operations, with the locale \<open>session_contract\<close> met by the sessions of SQLite and of PostgreSQL, and the copy of
  profiles and stores, between backends of either kind; \<open>Store_Api\<close> the sessions and stores of \<open>store.rs\<close> over them, and the choice of the
  backend by the scheme of a URI (\<open>askar-storage/src/any.rs\<close>).

  \<^bold>\<open>C interface\<close> (\<open>src/src/ffi\<close>). \<open>Ffi_Tags\<close> has the JSON form of tags, \<open>Ffi_Lists\<close> the errors, shared handles,
  buffers and result lists, \<open>Ffi_Key\<close> the functions on keys. The calls on stores are asynchronous:
  \<open>Ffi_Resource\<close> has the registries of sessions and scans with their mutexes, \<open>Ffi_Machine\<close> the tasks that
  the calls spawn as a transition system, in which they interleave from one point where they wait to
  the next, and \<open>Ffi_Store\<close> the calls themselves with the checks of their arguments. A task waits for the mutex
  of a session or scan, while it keeps the registry locked for reading; for the registry, to insert or remove; and, when it
  closes a store, for the connections of the pool. Every call is
  shown to call back at most once, and exactly once when it ends; the calls take a bounded number of steps and never block each
  other, but the closing of a store may be left waiting for a session or scan that was registered meanwhile and that the client
  has still to close. A record is shown to go through the interface into the database and
  back. The operations of a store are atomic in this model; the databases that they change are one parameter,
  the world, for which the round trip takes a SQLite database.

  \<^bold>\<open>Bounds and loops.\<close> Every recursion is on data or has a proved measure; the one loop that may run
  forever, the rejection sampling of an EC key, has the value \<open>None\<close> for not returning, and
  \<open>ec_generate_first_valid\<close> says exactly when it returns. No fuel is used.

  \<^bold>\<open>Not modelled.\<close> The numbers of handles are unbounded (an \<open>AtomicUsize\<close> in the code). Of the databases: the order in which the tags
  of an item are concatenated, which is unspecified and taken to be that of insertion, the refusal of a \<open>LIKE\<close> pattern that ends in
  PostgreSQL's escape character, the conditions that an ODBC source may not accept, row locks and the abortion of a PostgreSQL transaction by a failed
  statement, the column sizes of the ODBC schema file, and faults of single statements other than the named
  ones. Hardware keys call into a mobile platform. The executor of futures and its shutdown, the pools of
  connections beyond the number of connections that can be taken, logging, \<open>Debug\<close> output and the zeroing of memory have no
  counterpart in the model.
\<close>

end
